(* ===== verification/Prelude.thy ===== *)
theory Prelude
  imports Complex_Main "HOL-Library.Sublist"
begin

text \<open>
  Shared vocabulary of the development: instants, keyed rows (a list of records with a
  unique key, the model of an SQL table with a primary key), the row-wise update and the
  stable ordering that the repositories use, and the named collections their proofs draw on.
\<close>

named_theorems row_simps \<open>rewrite rules for lookups and row-wise updates of keyed rows\<close>
named_theorems frame_simps \<open>parts of a state that an operation leaves alone\<close>
named_theorems step_intros \<open>introduction rules that lift operations to runs\<close>

type_synonym time = int

subsection \<open>Python idioms\<close>

definition coalesce :: "'a option \<Rightarrow> 'a \<Rightarrow> 'a" where
  "coalesce x d = (case x of None \<Rightarrow> d | Some v \<Rightarrow> v)"

lemma coalesce_simps [simp]: "coalesce None d = d" "coalesce (Some v) d = v"
  by (simp_all add: coalesce_def)

text \<open>\<open>max(lo, min(hi, x))\<close>, the clamp that every paged query applies to its limits.\<close>

definition clamp :: "int \<Rightarrow> int \<Rightarrow> int \<Rightarrow> int" where
  "clamp lo hi x = max lo (min hi x)"

lemma clamp_bounds: "lo \<le> hi \<Longrightarrow> lo \<le> clamp lo hi x \<and> clamp lo hi x \<le> hi"
  by (auto simp: clamp_def)

lemma clamp_id: "lo \<le> x \<Longrightarrow> x \<le> hi \<Longrightarrow> clamp lo hi x = x"
  by (simp add: clamp_def)

subsection \<open>Keyed rows\<close>

definition find_row :: "('r \<Rightarrow> 'k) \<Rightarrow> 'k \<Rightarrow> 'r list \<Rightarrow> 'r option" where
  "find_row key k rs = List.find (\<lambda>r. key r = k) rs"

definition map_where :: "('r \<Rightarrow> bool) \<Rightarrow> ('r \<Rightarrow> 'r) \<Rightarrow> 'r list \<Rightarrow> 'r list" where
  "map_where p f rs = map (\<lambda>r. if p r then f r else r) rs"

definition set_row :: "('r \<Rightarrow> 'k) \<Rightarrow> 'r \<Rightarrow> 'r list \<Rightarrow> 'r list" where
  "set_row key r' rs = map_where (\<lambda>r. key r = key r') (\<lambda>_. r') rs"

lemma find_row_Nil [simp]: "find_row key k [] = None"
  by (simp add: find_row_def)

lemma find_row_Cons [row_simps]:
  "find_row key k (r # rs) = (if key r = k then Some r else find_row key k rs)"
  by (simp add: find_row_def)

lemma find_row_SomeD: "find_row key k rs = Some r \<Longrightarrow> r \<in> set rs \<and> key r = k"
  by (auto simp: find_row_def find_Some_iff)

lemma find_row_None_iff: "find_row key k rs = None \<longleftrightarrow> k \<notin> key ` set rs"
  by (auto simp: find_row_def find_None_iff)

lemma find_row_mem:
  assumes "distinct (map key rs)" and "r \<in> set rs"
  shows "find_row key (key r) rs = Some r"
  using assms by (induction rs) (auto simp: row_simps)

lemma find_row_Some_iff:
  "distinct (map key rs) \<Longrightarrow> find_row key k rs = Some r \<longleftrightarrow> r \<in> set rs \<and> key r = k"
  by (auto dest: find_row_SomeD intro: find_row_mem)

lemma find_row_append [row_simps]:
  "find_row key k (rs @ qs) =
     (case find_row key k rs of None \<Rightarrow> find_row key k qs | Some r \<Rightarrow> Some r)"
  by (induction rs) (auto simp: row_simps)

lemma length_map_where [simp]: "length (map_where p f rs) = length rs"
  by (simp add: map_where_def)

lemma map_where_Nil [simp]: "map_where p f [] = []"
  by (simp add: map_where_def)

lemma map_where_Cons [row_simps]:
  "map_where p f (r # rs) = (if p r then f r else r) # map_where p f rs"
  by (simp add: map_where_def)

lemma map_where_id: "(\<And>r. r \<in> set rs \<Longrightarrow> \<not> p r) \<Longrightarrow> map_where p f rs = rs"
  by (induction rs) (auto simp: map_where_def)

lemma map_key_map_where:
  "(\<And>r. r \<in> set rs \<Longrightarrow> p r \<Longrightarrow> key (f r) = key r) \<Longrightarrow> map key (map_where p f rs) = map key rs"
  by (induction rs) (auto simp: map_where_def)

lemma in_map_whereE:
  assumes "x \<in> set (map_where p f rs)"
  obtains (kept) "x \<in> set rs" "\<not> p x"
        | (changed) r where "r \<in> set rs" "p r" "x = f r"
  using assms by (auto simp: map_where_def split: if_splits)

lemma find_row_map_where:
  "(\<And>r. p r \<Longrightarrow> key (f r) = key r) \<Longrightarrow>
   find_row key k (map_where p f rs) = map_option (\<lambda>r. if p r then f r else r) (find_row key k rs)"
  by (induction rs) (auto simp: row_simps)

lemma map_key_set_row [simp]: "map key (set_row key r' rs) = map key rs"
  by (simp add: set_row_def map_where_def)

lemma find_row_set_row [row_simps]:
  "find_row key k (set_row key r' rs) =
     (if k = key r' then map_option (\<lambda>_. r') (find_row key k rs) else find_row key k rs)"
  by (induction rs) (auto simp: row_simps set_row_def)

lemma set_set_row:
  "distinct (map key rs) \<Longrightarrow> find_row key (key r') rs = Some r \<Longrightarrow>
     set (set_row key r' rs) = insert r' (set rs - {r})"
  by (auto simp: set_row_def map_where_def find_row_Some_iff distinct_map inj_on_def)

lemma set_row_mem_cases: "x \<in> set (set_row key r' rs) \<Longrightarrow> x = r' \<or> x \<in> set rs \<and> key x \<noteq> key r'"
  by (auto simp: set_row_def map_where_def split: if_splits)

lemma map_where_unique:
  assumes "distinct (map key rs)" and "find_row key k rs = Some r" and "key (f r) = k"
  shows "map_where (\<lambda>x. key x = k) f rs = set_row key (f r) rs"
proof -
  from assms have "x = r" if "x \<in> set rs" "key x = k" for x
    using that find_row_mem [OF assms(1) that(1)] by simp
  with assms(3) show ?thesis
    by (auto simp: set_row_def map_where_def)
qed

lemma filter_key_unique:
  "distinct (map key rs) \<Longrightarrow> find_row key k rs = Some r \<Longrightarrow> filter (\<lambda>x. key x = k) rs = [r]"
proof (induction rs)
  case (Cons x xs)
  then show ?case
    by (cases "key x = k") (auto simp: find_row_Cons filter_empty_conv image_iff)
qed simp

subsection \<open>Stable ordering\<close>

text \<open>
  \<open>ORDER BY key ASC\<close>: SQL leaves the order of equal keys open; the model keeps the order
  of insertion, and no property below depends on that choice.
\<close>

definition order_asc :: "('r \<Rightarrow> int) \<Rightarrow> 'r list \<Rightarrow> 'r list" where
  "order_asc k rs = sort_key k rs"

definition order_desc :: "('r \<Rightarrow> int) \<Rightarrow> 'r list \<Rightarrow> 'r list" where
  "order_desc k rs = sort_key (\<lambda>r. - k r) rs"

lemma set_order [simp]: "set (order_asc k rs) = set rs" "set (order_desc k rs) = set rs"
  by (simp_all add: order_asc_def order_desc_def)

lemma length_order [simp]:
  "length (order_asc k rs) = length rs" "length (order_desc k rs) = length rs"
  by (simp_all add: order_asc_def order_desc_def)

lemma distinct_order: "distinct (map f rs) \<Longrightarrow> distinct (map f (order_asc k rs))"
  by (simp add: order_asc_def distinct_map)

lemma order_Nil_iff [simp]: "order_asc k rs = [] \<longleftrightarrow> rs = []" "order_desc k rs = [] \<longleftrightarrow> rs = []"
  by (metis length_order(1) length_0_conv, metis length_order(2) length_0_conv)

lemma order_Nil [simp]: "order_asc k [] = []" "order_desc k [] = []"
  by simp_all

lemma order_asc_first:
  assumes "order_asc k rs = r # rest" and "x \<in> set rs"
  shows "k r \<le> k x"
proof -
  from assms(1) have "sorted (map k (r # rest))"
    by (metis order_asc_def sorted_sort_key)
  moreover from assms have "x \<in> set (r # rest)"
    by (metis set_order(1))
  ultimately show ?thesis by auto
qed

lemma order_desc_first:
  "order_desc k rs = r # rest \<Longrightarrow> x \<in> set rs \<Longrightarrow> k x \<le> k r"
  using order_asc_first [of "\<lambda>r. - k r" rs r rest x] by (simp add: order_asc_def order_desc_def)

subsection \<open>Computations that may raise\<close>

text \<open>
  A computation that may raise is a sum: the exception on the left, the value on the right.
  \<open>bind_err\<close> is sequencing, \<open>fold_err\<close> a loop that carries a state and stops at the first exception.
\<close>

definition bind_err :: "'e + 'a \<Rightarrow> ('a \<Rightarrow> 'e + 'b) \<Rightarrow> 'e + 'b" where
  "bind_err x f = (case x of Inl e \<Rightarrow> Inl e | Inr v \<Rightarrow> f v)"

lemma bind_err_simps [simp]: "bind_err (Inl e) f = Inl e" "bind_err (Inr v) f = f v"
  by (simp_all add: bind_err_def)

lemma bind_err_Inr_iff: "bind_err x f = Inr y \<longleftrightarrow> (\<exists>v. x = Inr v \<and> f v = Inr y)"
  by (cases x) auto

fun fold_err :: "('s \<Rightarrow> 'a \<Rightarrow> 'e + 's) \<Rightarrow> 's \<Rightarrow> 'a list \<Rightarrow> 'e + 's" where
  "fold_err f s [] = Inr s"
| "fold_err f s (x # xs) = bind_err (f s x) (\<lambda>s'. fold_err f s' xs)"

lemma fold_err_append: "fold_err f s (xs @ ys) = bind_err (fold_err f s xs) (\<lambda>s'. fold_err f s' ys)"
proof (induction xs arbitrary: s)
  case (Cons x xs)
  then show ?case by (cases "f s x") auto
qed simp

lemma fold_err_invariant:
  assumes "fold_err f s xs = Inr s'" and "I s"
    and "\<And>s x s'. I s \<Longrightarrow> x \<in> set xs \<Longrightarrow> f s x = Inr s' \<Longrightarrow> I s'"
  shows "I s'"
  using assms
proof (induction xs arbitrary: s)
  case (Cons x xs)
  from Cons.prems(1) obtain s1 where s1: "f s x = Inr s1" "fold_err f s1 xs = Inr s'"
    by (auto simp: bind_err_Inr_iff)
  with Cons.prems show ?case by (intro Cons.IH [OF s1(2)]) auto
qed simp

lemma fold_err_total:
  assumes "I s" and "\<And>s x. I s \<Longrightarrow> x \<in> set xs \<Longrightarrow> \<exists>s'. f s x = Inr s' \<and> I s'"
  shows "\<exists>s'. fold_err f s xs = Inr s' \<and> I s'"
  using assms
proof (induction xs arbitrary: s)
  case (Cons x xs)
  from Cons.prems obtain s1 where "f s x = Inr s1" "I s1" by (meson list.set_intros(1))
  with Cons show ?case by simp
qed simp

fun map_err :: "('a \<Rightarrow> 'e + 'b) \<Rightarrow> 'a list \<Rightarrow> 'e + 'b list" where
  "map_err f [] = Inr []"
| "map_err f (x # xs) = bind_err (f x) (\<lambda>y. bind_err (map_err f xs) (\<lambda>ys. Inr (y # ys)))"

lemma map_err_Inr_iff: "map_err f xs = Inr ys \<longleftrightarrow> list_all2 (\<lambda>x y. f x = Inr y) xs ys"
  by (induction xs arbitrary: ys) (auto simp: bind_err_Inr_iff list_all2_Cons1)

lemma map_err_total: "\<forall>x\<in>set xs. \<exists>y. f x = Inr y \<Longrightarrow> \<exists>ys. map_err f xs = Inr ys"
  by (induction xs) auto

subsection \<open>The first or last element with a property\<close>

fun update_first :: "('a \<Rightarrow> bool) \<Rightarrow> ('a \<Rightarrow> 'a) \<Rightarrow> 'a list \<Rightarrow> 'a list option" where
  "update_first p f [] = None"
| "update_first p f (x # xs) = (if p x then Some (f x # xs) else map_option ((#) x) (update_first p f xs))"

definition update_last :: "('a \<Rightarrow> bool) \<Rightarrow> ('a \<Rightarrow> 'a) \<Rightarrow> 'a list \<Rightarrow> 'a list option" where
  "update_last p f xs = map_option rev (update_first p f (rev xs))"

lemma update_first_None_iff: "update_first p f xs = None \<longleftrightarrow> (\<forall>x\<in>set xs. \<not> p x)"
  by (induction xs) auto

lemma update_last_None_iff: "update_last p f xs = None \<longleftrightarrow> (\<forall>x\<in>set xs. \<not> p x)"
  by (simp add: update_last_def update_first_None_iff)

lemma update_first_SomeE:
  assumes "update_first p f xs = Some ys"
  obtains a x b where "xs = a @ x # b" "p x" "\<forall>z\<in>set a. \<not> p z" "ys = a @ f x # b"
proof -
  from assms have "\<exists>a x b. xs = a @ x # b \<and> p x \<and> (\<forall>z\<in>set a. \<not> p z) \<and> ys = a @ f x # b"
  proof (induction xs arbitrary: ys)
    case (Cons y xs)
    show ?case
    proof (cases "p y")
      case True
      with Cons.prems have "y # xs = [] @ y # xs \<and> p y \<and> (\<forall>z\<in>set []. \<not> p z) \<and> ys = [] @ f y # xs" by simp
      then show ?thesis by blast
    next
      case False
      with Cons.prems obtain zs where zs: "update_first p f xs = Some zs" "ys = y # zs" by auto
      from Cons.IH [OF zs(1)] obtain a x b where
        "xs = a @ x # b" "p x" "\<forall>z\<in>set a. \<not> p z" "zs = a @ f x # b" by blast
      with False zs(2) have "y # xs = (y # a) @ x # b \<and> p x \<and> (\<forall>z\<in>set (y # a). \<not> p z) \<and> ys = (y # a) @ f x # b"
        by simp
      then show ?thesis by blast
    qed
  qed simp
  with that show thesis by blast
qed

lemma update_last_SomeE:
  assumes "update_last p f xs = Some ys"
  obtains a x b where "xs = a @ x # b" "p x" "\<forall>z\<in>set b. \<not> p z" "ys = a @ f x # b"
proof -
  from assms obtain zs where zs: "update_first p f (rev xs) = Some zs" "ys = rev zs"
    by (auto simp: update_last_def)
  from zs(1) obtain a x b where "rev xs = a @ x # b" "p x" "\<forall>z\<in>set a. \<not> p z" "zs = a @ f x # b"
    by (rule update_first_SomeE)
  with zs(2) that [of "rev b" x "rev a"] show thesis
    by (metis append.assoc append_Cons append_Nil rev.simps(2) rev_append rev_rev_ident set_rev)
qed

lemma update_set_subset:
  "update_first p f xs = Some ys \<Longrightarrow> set ys \<subseteq> set xs \<union> f ` {x \<in> set xs. p x}"
  "update_last p f xs = Some ys \<Longrightarrow> set ys \<subseteq> set xs \<union> f ` {x \<in> set xs. p x}"
  by (auto elim!: update_first_SomeE update_last_SomeE)

subsection \<open>Counting rows\<close>

lemma length_filter_map_where_le:
  "(\<And>x. x \<in> set rs \<Longrightarrow> p x \<Longrightarrow> q (f x) \<Longrightarrow> q x) \<Longrightarrow>
     length (filter q (map_where p f rs)) \<le> length (filter q rs)"
  by (induction rs) (auto simp: map_where_Cons le_Suc_eq)

lemma length_filter_map_where_less:
  assumes "r \<in> set rs" and "p r" and "\<not> q (f r)" and "q r"
    and "\<And>x. x \<in> set rs \<Longrightarrow> p x \<Longrightarrow> q (f x) \<Longrightarrow> q x"
  shows "length (filter q (map_where p f rs)) < length (filter q rs)"
  using assms
proof (induction rs)
  case (Cons x xs)
  from Cons.prems(5) have le: "length (filter q (map_where p f xs)) \<le> length (filter q xs)"
    by (intro length_filter_map_where_le) auto
  show ?case
  proof (cases "r = x")
    case True
    with Cons.prems le show ?thesis by (simp add: map_where_Cons)
  next
    case False
    with Cons have "length (filter q (map_where p f xs)) < length (filter q xs)" by auto
    with Cons.prems(5) [of x] show ?thesis by (auto simp: map_where_Cons)
  qed
qed simp

subsection \<open>Lists\<close>

lemma last_filter_append_one:
  "last (filter p (xs @ [x])) = (if p x then x else last (filter p xs))"
  by simp

lemma sorted_wrt_snoc:
  "sorted_wrt P (xs @ [x]) \<longleftrightarrow> sorted_wrt P xs \<and> (\<forall>y\<in>set xs. P y x)"
  by (simp add: sorted_wrt_append)

end
