(* ===== verification/PyJson.thy ===== *)
theory PyJson
  imports Prelude
begin

text \<open>
  Python's JSON values (the \<open>Any\<close> of the source) and the dictionary operations the code
  performs on them. A dictionary is an association list in insertion order, as Python keeps
  it; \<open>dict_put\<close> replaces in place or appends. A float is the rational it denotes. A text
  column that stores JSON is \<open>json_text\<close>: SQL NULL or empty, text that is not JSON, or
  the encoding of a value.
\<close>

datatype json =
    JNull
  | JBool bool
  | JInt int
  | JFloat rat
  | JStr string
  | JArr "json list"
  | JObj "(string \<times> json) list"

type_synonym dict = "(string \<times> json) list"

subsection \<open>Dictionaries\<close>

definition dict_get :: "dict \<Rightarrow> string \<Rightarrow> json option" where
  "dict_get d k = map_of d k"

definition dict_has :: "dict \<Rightarrow> string \<Rightarrow> bool" where
  "dict_has d k = (k \<in> set (map fst d))"

fun dict_put :: "dict \<Rightarrow> string \<Rightarrow> json \<Rightarrow> dict" where
  "dict_put [] k v = [(k, v)]"
| "dict_put ((k', v') # d) k v = (if k' = k then (k, v) # d else (k', v') # dict_put d k v)"

definition dict_pop :: "dict \<Rightarrow> string \<Rightarrow> dict" where
  "dict_pop d k = filter (\<lambda>(k', _). k' \<noteq> k) d"

text \<open>\<open>d.get(k)\<close>: a missing key reads as \<open>None\<close>.\<close>

definition dict_ref :: "dict \<Rightarrow> string \<Rightarrow> json" where
  "dict_ref d k = coalesce (dict_get d k) JNull"

definition wf_dict :: "dict \<Rightarrow> bool" where
  "wf_dict d = distinct (map fst d)"

lemma dict_get_put: "dict_get (dict_put d k v) k' = (if k' = k then Some v else dict_get d k')"
  by (induction d k v rule: dict_put.induct) (auto simp: dict_get_def)

lemma dict_ref_put: "dict_ref (dict_put d k v) k' = (if k' = k then v else dict_ref d k')"
  by (simp add: dict_ref_def dict_get_put)

lemma dict_keys_put:
  "map fst (dict_put d k v) = (if k \<in> fst ` set d then map fst d else map fst d @ [k])"
  by (induction d k v rule: dict_put.induct) auto

lemma dict_has_get: "dict_has d k \<longleftrightarrow> dict_get d k \<noteq> None"
  by (simp add: dict_has_def dict_get_def map_of_eq_None_iff)

lemma wf_dict_put: "wf_dict d \<Longrightarrow> wf_dict (dict_put d k v)"
  unfolding wf_dict_def by (induction d k v rule: dict_put.induct) (auto simp: dict_keys_put image_iff)

lemma dict_get_pop: "dict_get (dict_pop d k) k' = (if k' = k then None else dict_get d k')"
  by (induction d) (auto simp: dict_get_def dict_pop_def)

lemma dict_ref_pop: "dict_ref (dict_pop d k) k' = (if k' = k then JNull else dict_ref d k')"
  by (simp add: dict_ref_def dict_get_pop)

lemmas dict_simps = dict_get_put dict_ref_put dict_has_get dict_get_pop dict_ref_pop

subsection \<open>Dynamic type tests and truth\<close>

fun truthy :: "json \<Rightarrow> bool" where
  "truthy JNull = False"
| "truthy (JBool b) = b"
| "truthy (JInt i) = (i \<noteq> 0)"
| "truthy (JFloat r) = (r \<noteq> 0)"
| "truthy (JStr s) = (s \<noteq> [])"
| "truthy (JArr xs) = (xs \<noteq> [])"
| "truthy (JObj d) = (d \<noteq> [])"

text \<open>\<open>isinstance(v, int) and not isinstance(v, bool)\<close>, with the value.\<close>

fun as_int :: "json \<Rightarrow> int option" where
  "as_int (JInt i) = Some i"
| "as_int _ = None"

fun as_str :: "json \<Rightarrow> string option" where
  "as_str (JStr s) = Some s"
| "as_str _ = None"

fun as_list :: "json \<Rightarrow> json list option" where
  "as_list (JArr xs) = Some xs"
| "as_list _ = None"

fun as_dict :: "json \<Rightarrow> dict option" where
  "as_dict (JObj d) = Some d"
| "as_dict _ = None"

lemma as_simps_iff:
  "as_int j = Some i \<longleftrightarrow> j = JInt i" "as_str j = Some s \<longleftrightarrow> j = JStr s"
  "as_list j = Some xs \<longleftrightarrow> j = JArr xs" "as_dict j = Some d \<longleftrightarrow> j = JObj d"
  by (cases j; simp)+

subsection \<open>Text columns that hold JSON\<close>

datatype json_text = TextNull | TextBad | TextJson json

text \<open>\<open>json.loads(value) if value else default\<close>, with the default on any parse error.\<close>

fun json_loads :: "json_text \<Rightarrow> json \<Rightarrow> json" where
  "json_loads TextNull d = d"
| "json_loads TextBad d = d"
| "json_loads (TextJson j) d = j"

definition json_dumps :: "json \<Rightarrow> json_text" where
  "json_dumps j = TextJson j"

lemma json_roundtrip [simp]: "json_loads (json_dumps j) d = j"
  by (simp add: json_dumps_def)

text \<open>\<open>payload or {}\<close> on an optional dictionary: missing and empty both give the empty one.\<close>

definition or_empty :: "dict option \<Rightarrow> dict" where
  "or_empty d = coalesce d []"

subsection \<open>Strings\<close>

text \<open>
  Strings of the model are ASCII; whitespace is the ASCII part of what \<open>str.strip\<close> removes.
\<close>

definition is_space :: "char \<Rightarrow> bool" where
  "is_space c = (c \<in> {CHR '' '', CHR 0x09, CHR 0x0A, CHR 0x0B, CHR 0x0C, CHR 0x0D,
                        CHR 0x1C, CHR 0x1D, CHR 0x1E, CHR 0x1F})"

definition strip :: "string \<Rightarrow> string" where
  "strip s = rev (dropWhile is_space (rev (dropWhile is_space s)))"

lemma strip_Nil [simp]: "strip [] = []"
  by (simp add: strip_def)

lemma dropWhile_eq_self: "dropWhile P xs = xs \<longleftrightarrow> xs = [] \<or> \<not> P (hd xs)"
proof (cases xs)
  case (Cons x ys)
  have "length (dropWhile P ys) \<le> length ys" by (rule length_dropWhile_le)
  then have "dropWhile P ys \<noteq> x # ys" by auto
  with Cons show ?thesis by auto
qed simp

lemma strip_idem: "strip (strip s) = strip s"
proof -
  let ?a = "dropWhile is_space s"
  let ?b = "dropWhile is_space (rev ?a)"
  have 1: "?b = [] \<or> \<not> is_space (hd ?b)"
    by (metis hd_dropWhile dropWhile_eq_Nil_conv)
  have 2: "rev ?b = [] \<or> \<not> is_space (hd (rev ?b))"
  proof (cases "?b = []")
    case False
    then have a: "?a \<noteq> []" by (metis dropWhile.simps(1) rev.simps(1))
    obtain p where p: "rev ?a = p @ ?b"
      by (metis takeWhile_dropWhile_id)
    then have "?a = rev ?b @ rev p" by (metis rev_append rev_rev_ident)
    with False have "hd (rev ?b) = hd ?a" by (metis hd_append2 rev_is_Nil_conv)
    with a show ?thesis by (metis hd_dropWhile dropWhile_eq_Nil_conv)
  qed simp
  from 2 have "dropWhile is_space (rev ?b) = rev ?b" by (simp add: dropWhile_eq_self)
  moreover from 1 have "dropWhile is_space ?b = ?b" by (simp add: dropWhile_eq_self)
  ultimately show ?thesis by (simp add: strip_def)
qed

lemma strip_empty_iff: "strip s = [] \<longleftrightarrow> (\<forall>c\<in>set s. is_space c)"
proof -
  have "strip s = [] \<longleftrightarrow> (\<forall>c\<in>set (dropWhile is_space s). is_space c)"
    by (simp add: strip_def)
  also have "\<dots> \<longleftrightarrow> dropWhile is_space s = []"
    by (metis hd_dropWhile hd_in_set list.set(1) empty_iff)
  finally show ?thesis by simp
qed

text \<open>Decimal rendering, as Python's f-strings print an integer.\<close>

fun digits_of_nat :: "nat \<Rightarrow> string" where
  "digits_of_nat n =
     (if n < 10 then [char_of (48 + n)] else digits_of_nat (n div 10) @ [char_of (48 + n mod 10)])"

declare digits_of_nat.simps [simp del]

definition show_nat :: "nat \<Rightarrow> string" where
  "show_nat n = digits_of_nat n"

definition show_int :: "int \<Rightarrow> string" where
  "show_int i = (if i < 0 then CHR ''-'' # show_nat (nat (- i)) else show_nat (nat i))"

fun nat_of_digits :: "nat \<Rightarrow> string \<Rightarrow> nat" where
  "nat_of_digits acc [] = acc"
| "nat_of_digits acc (c # cs) = nat_of_digits (acc * 10 + (of_char c - 48)) cs"

definition is_digit :: "char \<Rightarrow> bool" where
  "is_digit c = (of_char c \<ge> (48::nat) \<and> of_char c \<le> (57::nat))"

lemma nat_of_digits_append: "nat_of_digits acc (xs @ ys) = nat_of_digits (nat_of_digits acc xs) ys"
  by (induction acc xs rule: nat_of_digits.induct) auto

lemma of_char_digit: "n < 10 \<Longrightarrow> of_char (char_of (48 + n :: nat)) = 48 + n"
  by simp

lemma nat_of_digits_of_nat: "nat_of_digits 0 (digits_of_nat n) = n"
proof (induction n rule: digits_of_nat.induct)
  case (1 n)
  show ?case
  proof (cases "n < 10")
    case True
    then show ?thesis by (simp add: digits_of_nat.simps [of n])
  next
    case False
    with 1 have "nat_of_digits 0 (digits_of_nat (n div 10)) = n div 10" by simp
    with False show ?thesis by (simp add: digits_of_nat.simps [of n] nat_of_digits_append)
  qed
qed

lemma show_nat_inj [simp]: "show_nat m = show_nat n \<longleftrightarrow> m = n"
  unfolding show_nat_def by (metis nat_of_digits_of_nat)

lemma show_nat_digits: "\<forall>c\<in>set (show_nat n). is_digit c"
  unfolding show_nat_def
proof (induction n rule: digits_of_nat.induct)
  case (1 n)
  then show ?case
    by (cases "n < 10") (auto simp: digits_of_nat.simps [of n] is_digit_def)
qed

lemma show_nat_nonempty [simp]: "show_nat n \<noteq> []"
  by (simp add: show_nat_def digits_of_nat.simps [of n])

lemma show_nat_no_minus: "show_nat n \<noteq> CHR ''-'' # xs"
  using show_nat_digits [of n] by (auto simp: is_digit_def)

lemma show_int_inj [simp]: "show_int i = show_int j \<longleftrightarrow> i = j"
  using show_nat_no_minus show_nat_no_minus [symmetric] by (auto simp: show_int_def)

text \<open>
  \<open>int(s)\<close>: surrounding whitespace, an optional sign, and digits that single underscores may
  separate; \<open>None\<close> is the \<open>ValueError\<close>.
\<close>

definition py_digits :: "string \<Rightarrow> nat option" where
  "py_digits s =
     (if s \<noteq> [] \<and> is_digit (hd s) \<and> is_digit (last s) \<and>
         list_all (\<lambda>c. is_digit c \<or> c = CHR ''_'') s \<and>
         list_all (\<lambda>(a, b). is_digit a \<or> is_digit b) (zip s (tl s))
      then Some (nat_of_digits 0 (filter is_digit s)) else None)"

definition py_int :: "string \<Rightarrow> int option" where
  "py_int s =
     (case strip s of
        [] \<Rightarrow> None
      | c # cs \<Rightarrow>
          if c = CHR ''-'' then map_option (\<lambda>n. - int n) (py_digits cs)
          else if c = CHR ''+'' then map_option int (py_digits cs)
          else map_option int (py_digits (c # cs)))"

text \<open>
  \<open>str(v)\<close> of the values that occur as identifiers; \<open>None\<close> for a float, a list or a
  dictionary, whose text the development does not render (such a value matches no identifier).
\<close>

fun py_str :: "json \<Rightarrow> string option" where
  "py_str JNull = Some ''None''"
| "py_str (JBool b) = Some (if b then ''True'' else ''False'')"
| "py_str (JInt i) = Some (show_int i)"
| "py_str (JStr s) = Some s"
| "py_str _ = None"

text \<open>\<open>str(v or "").strip()\<close>; a float or container that is true renders to something not blank.\<close>

definition id_text :: "json \<Rightarrow> string" where
  "id_text j = (if truthy j then strip (coalesce (py_str j) ''?'') else [])"

definition blank_text :: "json \<Rightarrow> bool" where
  "blank_text j = (id_text j = [])"


text \<open>\<open>int(v)\<close>: \<open>None\<close> is the \<open>TypeError\<close> or \<open>ValueError\<close>; a float is cut towards zero.\<close>

fun py_int_value :: "json \<Rightarrow> int option" where
  "py_int_value (JBool b) = Some (if b then 1 else 0)"
| "py_int_value (JInt i) = Some i"
| "py_int_value (JFloat r) = Some (if 0 \<le> r then \<lfloor>r\<rfloor> else \<lceil>r\<rceil>)"
| "py_int_value (JStr s) = py_int s"
| "py_int_value _ = None"

subsection \<open>Equality\<close>

text \<open>Python's \<open>==\<close>: numbers and booleans by value, dictionaries without regard to their order.\<close>

fun py_number :: "json \<Rightarrow> rat option" where
  "py_number (JBool b) = Some (if b then 1 else 0)"
| "py_number (JInt i) = Some (of_int i)"
| "py_number (JFloat r) = Some r"
| "py_number _ = None"

fun py_eq :: "json \<Rightarrow> json \<Rightarrow> bool" where
  "py_eq JNull w = (w = JNull)"
| "py_eq (JStr s) w = (w = JStr s)"
| "py_eq (JArr xs) w = (case w of JArr ys \<Rightarrow> list_all2 py_eq xs ys | _ \<Rightarrow> False)"
| "py_eq (JObj d) w =
     (case w of
        JObj e \<Rightarrow> length d = length e \<and>
          list_all (\<lambda>(k, v). case map_of e k of Some v' \<Rightarrow> py_eq v v' | None \<Rightarrow> False) d
      | _ \<Rightarrow> False)"
| "py_eq (JBool b) w = (py_number w = py_number (JBool b))"
| "py_eq (JInt i) w = (py_number w = py_number (JInt i))"
| "py_eq (JFloat r) w = (py_number w = py_number (JFloat r))"

text \<open>Values as Python has them: no dictionary repeats a key.\<close>

fun wf_json :: "json \<Rightarrow> bool" where
  "wf_json (JArr xs) = list_all wf_json xs"
| "wf_json (JObj d) = (wf_dict d \<and> list_all (\<lambda>(k, v). wf_json v) d)"
| "wf_json _ = True"

lemma py_eq_refl: "wf_json j \<Longrightarrow> py_eq j j"
proof (induction j)
  case (JArr xs)
  then show ?case by (auto simp: list_all_iff list_all2_conv_all_nth)
next
  case (JObj d)
  then have "map_of d k = Some v" "py_eq v v" if "(k, v) \<in> set d" for k v
    using that by (fastforce simp: wf_dict_def list_all_iff map_of_eq_Some_iff)+
  then show ?case by (auto simp: list_all_iff split: option.splits)
qed auto

lemma py_eq_number: "py_number u = Some q \<Longrightarrow> py_eq u v \<longleftrightarrow> py_number v = Some q"
  by (cases u) auto

lemma py_eq_trans: "py_eq u v \<Longrightarrow> py_eq v w \<Longrightarrow> py_eq u w"
proof (induction u arbitrary: v w)
  case (JArr xs)
  then obtain ys zs where v: "v = JArr ys" "list_all2 py_eq xs ys" and w: "w = JArr zs" "list_all2 py_eq ys zs"
    by (auto split: json.splits)
  from v(2) w(2) have "list_all2 py_eq xs zs"
    unfolding list_all2_conv_all_nth using JArr.IH nth_mem by (metis (no_types, lifting))
  with w(1) show ?case by simp
next
  case (JObj d)
  then obtain e f where v: "v = JObj e" and w: "w = JObj f" by (auto split: json.splits)
  have "\<exists>y. map_of f k = Some y \<and> py_eq a y" if ka: "(k, a) \<in> set d" for k a
  proof -
    from JObj.prems(1) v ka obtain b where b: "map_of e k = Some b" "py_eq a b"
      by (auto simp: list_all_iff split: option.splits)
    then have "(k, b) \<in> set e" by (simp add: map_of_SomeD)
    with JObj.prems(2) v w obtain c where c: "map_of f k = Some c" "py_eq b c"
      by (auto simp: list_all_iff split: option.splits)
    from JObj.IH [of "(k, a)" a b c] ka b c show ?thesis by auto
  qed
  with JObj.prems v w show ?case by (fastforce simp: list_all_iff split: option.splits)
qed (auto simp: py_eq_number)

lemma py_eq_sym: "wf_json u \<Longrightarrow> wf_json v \<Longrightarrow> py_eq u v \<Longrightarrow> py_eq v u"
proof (induction u arbitrary: v)
  case (JArr xs)
  then obtain ys where v: "v = JArr ys" "list_all2 py_eq xs ys" by (auto split: json.splits)
  have "py_eq (ys ! i) (xs ! i)" if "i < length xs" for i
  proof (rule JArr.IH [OF nth_mem [OF that]])
    show "wf_json (xs ! i)" using JArr.prems(1) that by (simp add: list_all_length)
    show "wf_json (ys ! i)" using JArr.prems(2) v that by (simp add: list_all_length list_all2_lengthD)
    show "py_eq (xs ! i) (ys ! i)" using v(2) that by (simp add: list_all2_nthD)
  qed
  with v show ?case by (auto simp: list_all2_conv_all_nth)
next
  case (JObj d)
  then obtain e where v: "v = JObj e" by (auto split: json.splits)
  from JObj.prems v have len: "length d = length e" and wf: "distinct (map fst d)" "distinct (map fst e)"
    by (auto simp: wf_dict_def)
  have fwd: "\<exists>b. map_of e k = Some b \<and> py_eq a b" if "(k, a) \<in> set d" for k a
    using JObj.prems(3) v that by (auto simp: list_all_iff split: option.splits)
  then have "fst ` set d \<subseteq> fst ` set e" by (force dest: map_of_SomeD)
  moreover have "card (fst ` set d) = card (fst ` set e)"
    using len wf by (metis distinct_card length_map list.set_map)
  ultimately have keys: "fst ` set d = fst ` set e" by (simp add: card_subset_eq)
  have "\<exists>a. map_of d k = Some a \<and> py_eq b a" if kb: "(k, b) \<in> set e" for k b
  proof -
    from kb keys obtain a where a: "(k, a) \<in> set d" by (metis (no_types, lifting) fst_conv image_iff prod.collapse)
    with fwd obtain b' where "map_of e k = Some b'" "py_eq a b'" by blast
    with kb wf(2) have ab: "py_eq a b" by (metis map_of_is_SomeI option.inject)
    have "wf_json a" "wf_json b" using JObj.prems(1,2) v a kb by (auto simp: list_all_iff)
    with JObj.IH [of "(k, a)" a b] a ab have "py_eq b a" by auto
    with a wf(1) show ?thesis by (auto simp: map_of_is_SomeI)
  qed
  with v len show ?case by (fastforce simp: list_all_iff)
qed (auto simp: py_eq_number)

lemma wf_json_member: "wf_json (JArr xs) \<Longrightarrow> x \<in> set xs \<Longrightarrow> wf_json x"
  by (simp add: list_all_iff)

lemma wf_json_ref: "wf_json (JObj d) \<Longrightarrow> wf_json (dict_ref d k)"
  by (auto simp: dict_ref_def dict_get_def coalesce_def list_all_iff split: option.splits dest!: map_of_SomeD)

lemma dict_put_same: "dict_get d k = Some v \<Longrightarrow> dict_put d k v = d"
  by (induction d k v rule: dict_put.induct) (auto simp: dict_get_def split: if_splits)

lemma wf_json_put: "wf_json (JObj d) \<Longrightarrow> wf_json v \<Longrightarrow> wf_json (JObj (dict_put d k v))"
proof -
  have "set (dict_put d k v) \<subseteq> insert (k, v) (set d)"
    by (induction d k v rule: dict_put.induct) auto
  then show "wf_json (JObj d) \<Longrightarrow> wf_json v \<Longrightarrow> wf_json (JObj (dict_put d k v))"
    by (auto simp: wf_dict_put list_all_iff)
qed

lemma wf_json_pop: "wf_json (JObj d) \<Longrightarrow> wf_json (JObj (dict_pop d k))"
  by (auto simp: wf_dict_def dict_pop_def list_all_iff distinct_map inj_on_def)

section \<open>Exceptions and further operations on values\<close>

datatype py_error = Attribute_Error | Type_Error

definition py_text :: "(json \<Rightarrow> string) \<Rightarrow> json \<Rightarrow> string" where
  "py_text rp j = coalesce (py_str j) (rp j)"

definition dict_or :: "dict \<Rightarrow> string \<Rightarrow> json \<Rightarrow> json" where
  "dict_or d k v = coalesce (dict_get d k) v"

definition dict_default :: "dict \<Rightarrow> string \<Rightarrow> json \<Rightarrow> dict" where
  "dict_default d k v = (if dict_has d k then d else dict_put d k v)"

text \<open>\<open>v.strip()\<close> and \<open>hash(v)\<close>: only text can be stripped, only a list or a dictionary has no hash.\<close>

fun strip_value :: "json \<Rightarrow> py_error + string" where
  "strip_value (JStr s) = Inr (strip s)"
| "strip_value _ = Inl Attribute_Error"

fun hashable :: "json \<Rightarrow> bool" where
  "hashable (JArr xs) = False"
| "hashable (JObj d) = False"
| "hashable _ = True"

definition py_in :: "json \<Rightarrow> json list \<Rightarrow> bool" where
  "py_in v keys = list_ex (py_eq v) keys"

fun join_lines :: "string list \<Rightarrow> string" where
  "join_lines [] = []"
| "join_lines [x] = x"
| "join_lines (x # y # xs) = x @ CHR 0x0A # join_lines (y # xs)"

text \<open>\<open>for x in v\<close>: a text yields its characters and a dictionary its keys.\<close>

fun py_iter :: "json \<Rightarrow> py_error + json list" where
  "py_iter (JArr xs) = Inr xs"
| "py_iter (JStr s) = Inr (map (\<lambda>c. JStr [c]) s)"
| "py_iter (JObj d) = Inr (map (JStr \<circ> fst) d)"
| "py_iter _ = Inl Type_Error"

text \<open>\<open>v.get(k, w)\<close> on a value of unknown type.\<close>

definition obj_or :: "json \<Rightarrow> string \<Rightarrow> json \<Rightarrow> py_error + json" where
  "obj_or v k w = (case v of JObj d \<Rightarrow> Inr (dict_or d k w) | _ \<Rightarrow> Inl Attribute_Error)"

definition lower_char :: "char \<Rightarrow> char" where
  "lower_char c = (let n = of_char c :: nat in if 65 \<le> n \<and> n \<le> 90 then char_of (n + 32) else c)"

definition upper_char :: "char \<Rightarrow> char" where
  "upper_char c = (let n = of_char c :: nat in if 97 \<le> n \<and> n \<le> 122 then char_of (n - 32) else c)"

definition lower :: "string \<Rightarrow> string" where
  "lower s = map lower_char s"

definition upper :: "string \<Rightarrow> string" where
  "upper s = map upper_char s"

text \<open>\<open>s.split(sep)\<close> for a separator of one character.\<close>

fun split_on :: "char \<Rightarrow> string \<Rightarrow> string \<Rightarrow> string list" where
  "split_on sep acc [] = [rev acc]"
| "split_on sep acc (c # cs) =
     (if c = sep then rev acc # split_on sep [] cs else split_on sep (c # acc) cs)"

text \<open>\<open>round(x, n)\<close>: halves go to the even neighbour.\<close>

definition round_half_even :: "rat \<Rightarrow> int" where
  "round_half_even x =
     (let f = \<lfloor>x\<rfloor>; d = x - of_int f
      in if d < 1 / 2 \<or> (d = 1 / 2 \<and> even f) then f else f + 1)"

definition py_round :: "nat \<Rightarrow> rat \<Rightarrow> rat" where
  "py_round n x = of_int (round_half_even (x * 10 ^ n)) / 10 ^ n"

end
