(* ===== verification/TaskModel.thy ===== *)
theory TaskModel
  imports PyJson
begin

text \<open>
  The task queue's tables (\<open>lib/db/models/task.py\<close>): tasks, their event log and the worker
  leases; the dictionaries the repository hands out; and the statement level of the
  database session the repository is written against (select, guarded update, append).
  A table is a list of rows in insertion order with a unique key. JSON text columns are
  \<open>json_text\<close> values, instants are integers, and a lease deadline (a float) is a rational.
\<close>

datatype task_status = Queued | Running | Cancelling | Succeeded | Failed | Cancelled

record task =
  task_id :: string
  project_name :: string
  task_type :: string
  media_type :: string
  resource_id :: string
  script_file :: "string option"
  payload_json :: json_text
  status :: task_status
  result_json :: json_text
  error_message :: "string option"
  source :: string
  dependency_task_id :: "string option"
  dependency_group :: "string option"
  dependency_index :: "int option"
  cancelled_by :: "string option"
  provider_id :: "string option"
  provider_job_id :: "string option"
  queued_at :: time
  started_at :: "time option"
  finished_at :: "time option"
  updated_at :: time
  user_id :: string

text \<open>What \<open>_task_to_dict\<close> returns: the row with its two JSON columns decoded.\<close>

record task_dict =
  td_task_id :: string
  td_project_name :: string
  td_task_type :: string
  td_media_type :: string
  td_resource_id :: string
  td_script_file :: "string option"
  td_payload :: json
  td_status :: task_status
  td_result :: json
  td_error_message :: "string option"
  td_source :: string
  td_dependency_task_id :: "string option"
  td_dependency_group :: "string option"
  td_dependency_index :: "int option"
  td_cancelled_by :: "string option"
  td_provider_id :: "string option"
  td_provider_job_id :: "string option"
  td_queued_at :: time
  td_started_at :: "time option"
  td_finished_at :: "time option"
  td_updated_at :: time
  td_user_id :: string

definition task_to_dict :: "task \<Rightarrow> task_dict" where
  "task_to_dict row =
     \<lparr>td_task_id = task_id row,
      td_project_name = project_name row,
      td_task_type = task_type row,
      td_media_type = media_type row,
      td_resource_id = resource_id row,
      td_script_file = script_file row,
      td_payload = json_loads (payload_json row) (JObj []),
      td_status = status row,
      td_result = json_loads (result_json row) (JObj []),
      td_error_message = error_message row,
      td_source = source row,
      td_dependency_task_id = dependency_task_id row,
      td_dependency_group = dependency_group row,
      td_dependency_index = dependency_index row,
      td_cancelled_by = cancelled_by row,
      td_provider_id = provider_id row,
      td_provider_job_id = provider_job_id row,
      td_queued_at = queued_at row,
      td_started_at = started_at row,
      td_finished_at = finished_at row,
      td_updated_at = updated_at row,
      td_user_id = user_id row\<rparr>"

record task_event =
  ev_id :: nat
  ev_task_id :: string
  ev_project_name :: string
  ev_type :: string
  ev_status :: task_status
  ev_data :: "task_dict option"
  ev_created_at :: time

record worker_lease =
  lease_name :: string
  lease_owner :: string
  lease_until :: rat
  lease_updated_at :: time

record db =
  tasks :: "task list"
  events :: "task_event list"
  next_event_id :: nat
  leases :: "worker_lease list"

definition empty_db :: db where
  "empty_db = \<lparr>tasks = [], events = [], next_event_id = 1, leases = []\<rparr>"

subsection \<open>Statuses and the dedupe key\<close>

text \<open>\<open>ACTIVE_TASK_STATUSES\<close> and \<open>TERMINAL_TASK_STATUSES\<close>.\<close>

fun is_active :: "task_status \<Rightarrow> bool" where
  "is_active Queued = True"
| "is_active Running = True"
| "is_active Cancelling = True"
| "is_active _ = False"

definition is_terminal :: "task_status \<Rightarrow> bool" where
  "is_terminal st = (st \<in> {Succeeded, Failed, Cancelled})"

lemma active_iff_not_terminal: "is_active st \<longleftrightarrow> \<not> is_terminal st"
  by (cases st) (simp_all add: is_terminal_def)

text \<open>The columns of the partial unique index \<open>idx_tasks_dedupe_active\<close>.\<close>

definition dedupe_key :: "task \<Rightarrow> string \<times> string \<times> string \<times> string" where
  "dedupe_key t = (project_name t, task_type t, resource_id t, coalesce (script_file t) [])"

text \<open>
  A flushed insert violates the primary key or the partial unique index: this is the
  \<open>IntegrityError\<close> the repository catches.
\<close>

definition violates_unique :: "task \<Rightarrow> db \<Rightarrow> bool" where
  "violates_unique t s =
     ((\<exists>u\<in>set (tasks s). task_id u = task_id t) \<or>
      (is_active (status t) \<and>
       (\<exists>u\<in>set (tasks s). is_active (status u) \<and> dedupe_key u = dedupe_key t)))"

subsection \<open>Statements\<close>

definition find_task :: "string \<Rightarrow> db \<Rightarrow> task option" where
  "find_task tid s = find_row task_id tid (tasks s)"

definition select_tasks :: "(task \<Rightarrow> bool) \<Rightarrow> db \<Rightarrow> task list" where
  "select_tasks p s = filter p (tasks s)"

text \<open>\<open>UPDATE tasks SET f WHERE p\<close>, with its rowcount.\<close>

definition update_tasks :: "(task \<Rightarrow> bool) \<Rightarrow> (task \<Rightarrow> task) \<Rightarrow> db \<Rightarrow> nat \<times> db" where
  "update_tasks p f s =
     (length (filter p (tasks s)), s\<lparr>tasks := map_where p f (tasks s)\<rparr>)"

definition insert_task :: "task \<Rightarrow> db \<Rightarrow> db" where
  "insert_task t s = s\<lparr>tasks := tasks s @ [t]\<rparr>"

definition put_task :: "task \<Rightarrow> db \<Rightarrow> db" where
  "put_task t s = s\<lparr>tasks := set_row task_id t (tasks s)\<rparr>"

definition append_event ::
  "string \<Rightarrow> string \<Rightarrow> string \<Rightarrow> task_status \<Rightarrow> task_dict option \<Rightarrow> time \<Rightarrow> db \<Rightarrow> db" where
  "append_event tid proj etype st data now s =
     s\<lparr>events := events s @ [\<lparr>ev_id = next_event_id s, ev_task_id = tid, ev_project_name = proj,
                               ev_type = etype, ev_status = st, ev_data = data,
                               ev_created_at = now\<rparr>],
       next_event_id := Suc (next_event_id s)\<rparr>"

text \<open>The reload that follows every guarded update, and the event that records it.\<close>

definition log_task :: "string \<Rightarrow> task_status \<Rightarrow> time \<Rightarrow> task \<Rightarrow> db \<Rightarrow> db" where
  "log_task etype st now t s =
     append_event (task_id t) (project_name t) etype st (Some (task_to_dict t)) now s"

text \<open>
  The pattern of every transition of the repository: an update of one row guarded by its
  status; when no row matched nothing else happens, otherwise the row is read back and an
  event with its new status is appended.
\<close>

definition guarded_update ::
  "string \<Rightarrow> (task_status \<Rightarrow> bool) \<Rightarrow> (task \<Rightarrow> task) \<Rightarrow> string \<Rightarrow> task_status \<Rightarrow> time \<Rightarrow> db \<Rightarrow>
   task_dict option \<times> db" where
  "guarded_update tid guard f etype st now s =
     (case update_tasks (\<lambda>t. task_id t = tid \<and> guard (status t)) f s of
        (n, s1) \<Rightarrow>
          if n = 0 then (None, s)
          else (case find_task tid s1 of
                  None \<Rightarrow> (None, s1)
                | Some t \<Rightarrow> (Some (task_to_dict t), log_task etype st now t s1)))"

subsection \<open>Facts about statements\<close>

definition unique_ids :: "db \<Rightarrow> bool" where
  "unique_ids s = distinct (map task_id (tasks s))"

lemma tasks_append_event [frame_simps, simp]:
  "tasks (append_event a b c d e f s) = tasks s"
  "leases (append_event a b c d e f s) = leases s"
  by (simp_all add: append_event_def)

lemma tasks_log_task [frame_simps, simp]:
  "tasks (log_task e st now t s) = tasks s" "leases (log_task e st now t s) = leases s"
  by (simp_all add: log_task_def)

lemma find_task_log [simp]:
  "find_task tid (append_event a b c d dt f s) = find_task tid s"
  "find_task tid (log_task e st now t s) = find_task tid s"
  by (simp_all add: find_task_def)

lemma unique_ids_log [simp]:
  "unique_ids (append_event a b c d dt f s) = unique_ids s"
  "unique_ids (log_task e st now t s) = unique_ids s"
  by (simp_all add: unique_ids_def)

lemma unique_ids_put [simp]: "unique_ids (put_task t s) = unique_ids s"
  by (simp add: unique_ids_def put_task_def)

lemma put_task_frame [simp]:
  "events (put_task t s) = events s" "next_event_id (put_task t s) = next_event_id s"
  "leases (put_task t s) = leases s"
  by (simp_all add: put_task_def)

lemma find_task_put:
  "find_task tid (put_task t s) =
     (if tid = task_id t then map_option (\<lambda>_. t) (find_task tid s) else find_task tid s)"
  by (simp add: find_task_def put_task_def find_row_set_row)

lemma find_task_insert:
  "find_task tid (insert_task t s) =
     (case find_task tid s of Some u \<Rightarrow> Some u | None \<Rightarrow> if task_id t = tid then Some t else None)"
  by (simp add: find_task_def insert_task_def find_row_append find_row_Cons split: option.splits)

lemma find_task_SomeD: "find_task tid s = Some t \<Longrightarrow> t \<in> set (tasks s) \<and> task_id t = tid"
  unfolding find_task_def by (rule find_row_SomeD)

lemma find_task_mem: "unique_ids s \<Longrightarrow> t \<in> set (tasks s) \<Longrightarrow> find_task (task_id t) s = Some t"
  unfolding find_task_def unique_ids_def by (rule find_row_mem)

lemma find_task_Some_iff:
  "unique_ids s \<Longrightarrow> find_task tid s = Some t \<longleftrightarrow> t \<in> set (tasks s) \<and> task_id t = tid"
  using find_task_SomeD [of tid s t] find_task_mem [of s t] by blast

lemma find_task_None_iff: "find_task tid s = None \<longleftrightarrow> tid \<notin> task_id ` set (tasks s)"
  by (simp add: find_task_def find_row_None_iff)

text \<open>The one fact every transition below rests on: what a guarded update of one row does.\<close>

lemma update_one_row:
  assumes "unique_ids s" and "find_task tid s = Some t" and "task_id (f t) = tid"
  shows "update_tasks (\<lambda>x. task_id x = tid \<and> g (status x)) f s =
           (if g (status t) then (1, put_task (f t) s) else (0, s))"
proof -
  have d: "distinct (map task_id (tasks s))" using assms(1) by (simp add: unique_ids_def)
  have r: "find_row task_id tid (tasks s) = Some t" using assms(2) by (simp add: find_task_def)
  have only: "x = t" if "x \<in> set (tasks s)" "task_id x = tid" for x
    using find_row_mem [OF d that(1)] that(2) r by simp
  have flt: "filter (\<lambda>x. task_id x = tid \<and> g (status x)) (tasks s) = (if g (status t) then [t] else [])"
  proof -
    have "filter (\<lambda>x. task_id x = tid \<and> g (status x)) (tasks s)
            = filter (\<lambda>x. g (status x)) (filter (\<lambda>x. task_id x = tid) (tasks s))"
      by (simp add: filter_filter conj_commute)
    then show ?thesis by (simp add: filter_key_unique [OF d r])
  qed
  have mw: "map_where (\<lambda>x. task_id x = tid \<and> g (status x)) f (tasks s) =
              (if g (status t) then set_row task_id (f t) (tasks s) else tasks s)"
    using only assms(3) by (auto simp: map_where_def set_row_def intro!: map_idI) blast
  show ?thesis
    by (simp add: update_tasks_def flt mw put_task_def)
qed

lemma update_no_row:
  "find_task tid s = None \<Longrightarrow> update_tasks (\<lambda>x. task_id x = tid \<and> g (status x)) f s = (0, s)"
  by (subst update_tasks_def, subst map_where_id)
     (auto simp: find_task_None_iff filter_empty_conv)

lemma guarded_update_eq:
  assumes "unique_ids s" and "\<And>t. task_id (f t) = task_id t"
  shows "guarded_update tid g f e st now s =
           (case find_task tid s of
              None \<Rightarrow> (None, s)
            | Some t \<Rightarrow> if g (status t)
                then (Some (task_to_dict (f t)), log_task e st now (f t) (put_task (f t) s))
                else (None, s))"
proof (cases "find_task tid s")
  case None
  then show ?thesis by (simp add: guarded_update_def update_no_row)
next
  case (Some t)
  with assms(2) have "task_id (f t) = tid" by (simp add: find_task_SomeD)
  with Some assms(1) show ?thesis
    by (simp add: guarded_update_def update_one_row find_task_put)
qed

end
