(* ===== verification/TaskRepo.thy ===== *)
theory TaskRepo
  imports TaskModel
begin

text \<open>
  The task repository (\<open>lib/db/repositories/task_repo.py\<close>): every operation as a function of
  the database, with the instant \<open>now\<close> and generated identifiers as arguments. One call is
  one transaction; the two statements of \<open>claim_next\<close> are also given separately, because
  another transaction can run between them. Failures of a dependency and cancellations
  cascade depth first, as the source recurses.
\<close>

datatype repo_error = IntegrityError | TaskNotFound string

definition rowcount :: "'a option \<Rightarrow> nat" where
  "rowcount r = (case r of None \<Rightarrow> 0 | Some _ \<Rightarrow> 1)"

lemma rows_simps [simp]: "rowcount None = 0" "rowcount (Some x) = 1" "rowcount r = 0 \<longleftrightarrow> r = None"
  by (simp_all add: rowcount_def split: option.splits)

subsection \<open>Enqueue\<close>

record enqueue_args =
  ea_project_name :: string
  ea_task_type :: string
  ea_media_type :: string
  ea_resource_id :: string
  ea_payload :: "dict option"
  ea_script_file :: "string option"
  ea_source :: string
  ea_dependency_task_id :: "string option"
  ea_dependency_group :: "string option"
  ea_dependency_index :: "int option"
  ea_user_id :: string
  ea_provider_id :: "string option"

record enqueue_result =
  er_task_id :: string
  er_status :: task_status
  er_deduped :: bool
  er_existing_task_id :: "string option"

definition new_task :: "enqueue_args \<Rightarrow> string \<Rightarrow> time \<Rightarrow> task" where
  "new_task a uuid now =
     \<lparr>task_id = uuid,
      project_name = ea_project_name a,
      task_type = ea_task_type a,
      media_type = ea_media_type a,
      resource_id = ea_resource_id a,
      script_file = ea_script_file a,
      payload_json = json_dumps (JObj (or_empty (ea_payload a))),
      status = Queued,
      result_json = TextNull,
      error_message = None,
      source = ea_source a,
      dependency_task_id = ea_dependency_task_id a,
      dependency_group = ea_dependency_group a,
      dependency_index = ea_dependency_index a,
      cancelled_by = None,
      provider_id = ea_provider_id a,
      provider_job_id = None,
      queued_at = now,
      started_at = None,
      finished_at = None,
      updated_at = now,
      user_id = ea_user_id a\<rparr>"

definition find_active_duplicate :: "enqueue_args \<Rightarrow> db \<Rightarrow> task option" where
  "find_active_duplicate a s =
     (case order_desc queued_at
             (select_tasks
               (\<lambda>t. project_name t = ea_project_name a \<and> task_type t = ea_task_type a \<and>
                    resource_id t = ea_resource_id a \<and>
                    coalesce (script_file t) [] = coalesce (ea_script_file a) [] \<and>
                    is_active (status t)) s) of
        [] \<Rightarrow> None
      | existing # _ \<Rightarrow> Some existing)"

definition enqueue ::
  "enqueue_args \<Rightarrow> string \<Rightarrow> time \<Rightarrow> db \<Rightarrow> (repo_error + enqueue_result) \<times> db" where
  "enqueue a uuid now s =
     (let task = new_task a uuid now in
      if violates_unique task s then
        (case find_active_duplicate a s of
           Some existing \<Rightarrow>
             (Inr \<lparr>er_task_id = task_id existing, er_status = status existing,
                   er_deduped = True, er_existing_task_id = Some (task_id existing)\<rparr>, s)
         | None \<Rightarrow> (Inl IntegrityError, s))
      else
        (Inr \<lparr>er_task_id = uuid, er_status = Queued, er_deduped = False,
              er_existing_task_id = None\<rparr>,
         log_task ''queued'' Queued now task (insert_task task s)))"

subsection \<open>Claim\<close>

text \<open>The LEFT JOIN of the claim query: no dependency, or one that has succeeded.\<close>

definition dependency_ready :: "db \<Rightarrow> task \<Rightarrow> bool" where
  "dependency_ready s t =
     (case dependency_task_id t of
        None \<Rightarrow> True
      | Some d \<Rightarrow> (case find_task d s of None \<Rightarrow> False | Some u \<Rightarrow> status u = Succeeded))"

definition claimable :: "string \<Rightarrow> string list \<Rightarrow> db \<Rightarrow> task \<Rightarrow> bool" where
  "claimable media pool_full s t =
     (status t = Queued \<and> media_type t = media \<and>
      (pool_full = [] \<or>
       (case provider_id t of None \<Rightarrow> True | Some p \<Rightarrow> p \<notin> set pool_full)) \<and>
      dependency_ready s t)"

definition claim_select :: "string \<Rightarrow> string list \<Rightarrow> db \<Rightarrow> string option" where
  "claim_select media pool_full s =
     (case order_asc queued_at (select_tasks (claimable media pool_full s) s) of
        [] \<Rightarrow> None
      | t # _ \<Rightarrow> Some (task_id t))"

definition claim_commit :: "string \<Rightarrow> time \<Rightarrow> db \<Rightarrow> task_dict option \<times> db" where
  "claim_commit tid now s =
     guarded_update tid (\<lambda>st. st = Queued)
       (\<lambda>t. t\<lparr>status := Running, started_at := Some now, updated_at := now\<rparr>)
       ''running'' Running now s"

definition claim_next :: "string \<Rightarrow> string list \<Rightarrow> time \<Rightarrow> db \<Rightarrow> task_dict option \<times> db" where
  "claim_next media pool_full now s =
     (case claim_select media pool_full s of
        None \<Rightarrow> (None, s)
      | Some tid \<Rightarrow> claim_commit tid now s)"

subsection \<open>Completion and the failure cascade\<close>

definition mark_succeeded :: "string \<Rightarrow> dict option \<Rightarrow> time \<Rightarrow> db \<Rightarrow> nat \<times> db" where
  "mark_succeeded tid result now s =
     (case guarded_update tid (\<lambda>st. st = Running)
             (\<lambda>t. t\<lparr>status := Succeeded, result_json := json_dumps (JObj (or_empty result)),
                    error_message := None, finished_at := Some now, updated_at := now\<rparr>)
             ''succeeded'' Succeeded now s of
        (r, s1) \<Rightarrow> (rowcount r, s1))"

definition fail_row :: "string \<Rightarrow> time \<Rightarrow> task \<Rightarrow> task" where
  "fail_row msg now t =
     t\<lparr>status := Failed, error_message := Some (take 2000 msg),
       finished_at := Some now, updated_at := now\<rparr>"

definition mark_failed_running :: "string \<Rightarrow> string \<Rightarrow> time \<Rightarrow> db \<Rightarrow> nat \<times> db" where
  "mark_failed_running tid msg now s =
     (case guarded_update tid (\<lambda>st. st = Running) (fail_row msg now) ''failed'' Failed now s of
        (r, s1) \<Rightarrow> (rowcount r, s1))"

definition mark_failed_queued_dep :: "string \<Rightarrow> string \<Rightarrow> time \<Rightarrow> db \<Rightarrow> nat \<times> db" where
  "mark_failed_queued_dep tid msg now s =
     (case guarded_update tid (\<lambda>st. st = Queued) (fail_row msg now) ''failed'' Failed now s of
        (r, s1) \<Rightarrow> (rowcount r, s1))"

definition queued_dependents :: "string \<Rightarrow> db \<Rightarrow> task list" where
  "queued_dependents tid s =
     order_asc queued_at
       (select_tasks (\<lambda>t. dependency_task_id t = Some tid \<and> status t = Queued) s)"

definition blocked_message :: "string \<Rightarrow> string \<Rightarrow> string" where
  "blocked_message tid msg = ''blocked by failed dependency '' @ tid @ '': '' @ msg"

definition queued_count :: "db \<Rightarrow> nat" where
  "queued_count s = length (filter (\<lambda>t. status t = Queued) (tasks s))"

lemma queued_count_log [simp]: "queued_count (log_task e st now t s) = queued_count s"
  by (simp add: queued_count_def)

lemma guarded_update_tasks:
  "guarded_update tid g f e st now s = (r, s1) \<Longrightarrow>
     tasks s1 = tasks s \<or>
     tasks s1 = map_where (\<lambda>t. task_id t = tid \<and> g (status t)) f (tasks s)"
  by (auto simp: guarded_update_def update_tasks_def split: prod.splits if_splits option.splits)

lemma guarded_update_count_le:
  assumes "guarded_update tid g f e st now s = (r, s1)" and "\<And>t. status (f t) \<noteq> Queued"
  shows "queued_count s1 \<le> queued_count s"
  using guarded_update_tasks [OF assms(1)]
proof
  assume t: "tasks s1 = map_where (\<lambda>t. task_id t = tid \<and> g (status t)) f (tasks s)"
  show ?thesis
    unfolding queued_count_def t
    by (rule length_filter_map_where_le) (use assms(2) in blast)
qed (simp add: queued_count_def)

lemma guarded_update_count_less:
  assumes "guarded_update tid g f e st now s = (r, s1)" and "\<And>t. status (f t) \<noteq> Queued"
    and "t \<in> set (tasks s)" and "task_id t = tid" and "status t = Queued" and "g Queued"
  shows "queued_count s1 < queued_count s"
proof -
  let ?p = "\<lambda>t. task_id t = tid \<and> g (status t)"
  have "filter ?p (tasks s) \<noteq> []"
    using assms(3-6) by (auto simp: filter_empty_conv)
  with assms(1) have "tasks s1 = map_where ?p f (tasks s)"
    by (auto simp: guarded_update_def update_tasks_def split: option.splits if_splits)
  then show ?thesis
    unfolding queued_count_def using assms(2-6)
    by (auto intro!: length_filter_map_where_less)
qed

lemma guarded_update_SomeD:
  "guarded_update tid g f e st now s = (Some d, s1) \<Longrightarrow>
     \<exists>t\<in>set (tasks s). task_id t = tid \<and> g (status t)"
  by (auto simp: guarded_update_def update_tasks_def filter_empty_conv
      split: option.splits if_splits)

lemma mark_failed_queued_dep_count:
  assumes "mark_failed_queued_dep tid msg now s = (n, s1)"
  shows "queued_count s1 \<le> queued_count s" and "n \<noteq> 0 \<Longrightarrow> queued_count s1 < queued_count s"
proof -
  obtain r where g: "guarded_update tid (\<lambda>st. st = Queued) (fail_row msg now) ''failed'' Failed now s = (r, s1)"
    and n: "n = rowcount r"
    using assms by (auto simp: mark_failed_queued_dep_def split: prod.splits)
  show "queued_count s1 \<le> queued_count s"
    using guarded_update_count_le [OF g] by (simp add: fail_row_def)
  assume "n \<noteq> 0"
  with n obtain d where "r = Some d" by (cases r) auto
  with g guarded_update_SomeD obtain t where "t \<in> set (tasks s)" "task_id t = tid" "status t = Queued"
    by blast
  then show "queued_count s1 < queued_count s"
    using guarded_update_count_less [OF g] by (simp add: fail_row_def)
qed

text \<open>
  \<open>_cascade_failed_queued\<close>: the loop over the dependents of \<open>tid\<close> that were queued when
  the loop started. Each one still queued is failed and its own dependents follow at once.
\<close>

function cascade_failed_loop ::
  "string \<Rightarrow> string \<Rightarrow> string list \<Rightarrow> time \<Rightarrow> db \<Rightarrow> nat \<times> db" where
  "cascade_failed_loop tid msg [] now s = (0, s)"
| "cascade_failed_loop tid msg (dep # deps) now s =
     (let blocked = blocked_message tid msg in
      case mark_failed_queued_dep dep blocked now s of
        (affected, s1) \<Rightarrow>
          if affected = 0 then cascade_failed_loop tid msg deps now s1
          else
            (case cascade_failed_loop dep blocked (map task_id (queued_dependents dep s1)) now s1 of
               (sub, s2) \<Rightarrow>
                 (case cascade_failed_loop tid msg deps now s2 of
                    (rest, s3) \<Rightarrow> (affected + sub + rest, s3))))"
  by pat_completeness auto

lemma cascade_failed_loop_count:
  "cascade_failed_loop_dom (tid, msg, deps, now, s) \<Longrightarrow>
     queued_count (snd (cascade_failed_loop tid msg deps now s)) \<le> queued_count s"
proof (induction tid msg deps now s rule: cascade_failed_loop.pinduct)
  case (1 tid msg now s)
  then show ?case by (simp add: cascade_failed_loop.psimps)
next
  case (2 tid msg dep deps now s)
  then show ?case
    by (fastforce simp: cascade_failed_loop.psimps Let_def
        dest: mark_failed_queued_dep_count(1) split: prod.splits)
qed

termination cascade_failed_loop
proof (relation "measures [\<lambda>(_, _, _, _, s). queued_count s, \<lambda>(_, _, deps, _, _). length deps]",
       goal_cases)
  case (2 tid msg dep deps now s blocked affected s1)
  from mark_failed_queued_dep_count(1) [OF 2(2) [symmetric]] show ?case by auto
next
  case (3 tid msg dep deps now s blocked affected s1)
  from mark_failed_queued_dep_count(2) [OF 3(2) [symmetric] 3(3)] show ?case by simp
next
  case (4 tid msg dep deps now s blocked affected s1 sub s2)
  have "queued_count s1 < queued_count s"
    by (rule mark_failed_queued_dep_count(2) [OF 4(2) [symmetric] 4(3)])
  moreover have "queued_count s2 \<le> queued_count s1"
    using cascade_failed_loop_count [OF 4(5)] 4(4) by (metis snd_conv)
  ultimately show ?case by simp
qed simp

definition cascade_failed_queued :: "string \<Rightarrow> string \<Rightarrow> time \<Rightarrow> db \<Rightarrow> nat \<times> db" where
  "cascade_failed_queued tid msg now s =
     cascade_failed_loop tid msg (map task_id (queued_dependents tid s)) now s"

definition mark_failed :: "string \<Rightarrow> string \<Rightarrow> time \<Rightarrow> db \<Rightarrow> nat \<times> db" where
  "mark_failed tid msg now s =
     (case mark_failed_running tid msg now s of
        (affected, s1) \<Rightarrow>
          if affected = 0 then (0, s1)
          else (affected, snd (cascade_failed_queued tid msg now s1)))"

subsection \<open>Cancellation and its cascade\<close>

record cancel_acc =
  acc_cancelled :: "task_dict list"
  acc_cancelling :: "string list"
  acc_skipped_terminal :: "task_dict list"

definition empty_acc :: cancel_acc where
  "empty_acc = \<lparr>acc_cancelled = [], acc_cancelling = [], acc_skipped_terminal = []\<rparr>"

definition cancel_row :: "string \<Rightarrow> time \<Rightarrow> task \<Rightarrow> task" where
  "cancel_row by now t =
     t\<lparr>status := Cancelled, cancelled_by := Some (coalesce (cancelled_by t) by),
       finished_at := Some now, updated_at := now\<rparr>"

text \<open>The update and the event of \<open>_mark_cancelled\<close>; its guard is the three active statuses.\<close>

definition mark_cancelled_row :: "string \<Rightarrow> string \<Rightarrow> time \<Rightarrow> db \<Rightarrow> task_dict option \<times> db" where
  "mark_cancelled_row tid by now s =
     guarded_update tid is_active (cancel_row by now) ''cancelled'' Cancelled now s"

definition mark_cancelling :: "string \<Rightarrow> string \<Rightarrow> time \<Rightarrow> db \<Rightarrow> nat \<times> db" where
  "mark_cancelling tid by now s =
     (case guarded_update tid (\<lambda>st. st = Running)
             (\<lambda>t. t\<lparr>status := Cancelling, cancelled_by := Some by, updated_at := now\<rparr>)
             ''cancelling'' Cancelling now s of
        (r, s1) \<Rightarrow> (rowcount r, s1))"

definition dependents :: "string \<Rightarrow> db \<Rightarrow> task list" where
  "dependents tid s =
     order_asc queued_at (select_tasks (\<lambda>t. dependency_task_id t = Some tid) s)"

text \<open>
  The \<open>running\<close> branch of \<open>_dispatch_cancel\<close>: mark the row cancelling; when the update
  matched nothing, read the row again and put it in the list its new status asks for.
\<close>

definition dispatch_running ::
  "string \<Rightarrow> string \<Rightarrow> time \<Rightarrow> cancel_acc \<Rightarrow> db \<Rightarrow> cancel_acc \<times> db" where
  "dispatch_running tid by now acc s =
     (case mark_cancelling tid by now s of
        (affected, s1) \<Rightarrow>
          if affected > 0 then (acc\<lparr>acc_cancelling := acc_cancelling acc @ [tid]\<rparr>, s1)
          else
            (case find_task tid s1 of
               None \<Rightarrow> (acc, s1)
             | Some t \<Rightarrow>
                 if status t = Cancelling then
                   (acc\<lparr>acc_cancelling := acc_cancelling acc @ [tid]\<rparr>, s1)
                 else if is_terminal (status t) then
                   (acc\<lparr>acc_skipped_terminal := acc_skipped_terminal acc @ [task_to_dict t]\<rparr>, s1)
                 else (acc, s1)))"

lemma mark_cancelling_count:
  "mark_cancelling tid by now s = (n, s1) \<Longrightarrow> queued_count s1 \<le> queued_count s"
  by (auto simp: mark_cancelling_def split: prod.splits dest!: guarded_update_count_le)

lemma dispatch_running_count: "queued_count (snd (dispatch_running tid by now acc s)) \<le> queued_count s"
  by (auto simp: dispatch_running_def split: prod.splits option.splits dest: mark_cancelling_count)

lemma mark_cancelled_row_count:
  assumes "mark_cancelled_row tid by now s = (r, s1)"
  shows "queued_count s1 \<le> queued_count s"
    and "find_task tid s = Some t \<Longrightarrow> status t = Queued \<Longrightarrow> queued_count s1 < queued_count s"
proof -
  have g: "guarded_update tid is_active (cancel_row by now) ''cancelled'' Cancelled now s = (r, s1)"
    using assms by (simp add: mark_cancelled_row_def)
  show "queued_count s1 \<le> queued_count s"
    using guarded_update_count_le [OF g] by (simp add: cancel_row_def)
  assume "find_task tid s = Some t" "status t = Queued"
  with find_task_SomeD [of tid s t] show "queued_count s1 < queued_count s"
    by (intro guarded_update_count_less [OF g, of t]) (auto simp: cancel_row_def)
qed

text \<open>
  The loop of \<open>_cascade_cancel_dependents\<close> over \<open>_dispatch_cancel\<close>, with the recursion
  through \<open>_mark_cancelled(cascade=True)\<close> inlined: a queued task is cancelled and its
  dependents are dispatched (as \<open>cascade\<close>) before its next sibling.
\<close>

function dispatch_all ::
  "string \<Rightarrow> string list \<Rightarrow> time \<Rightarrow> cancel_acc \<Rightarrow> db \<Rightarrow> cancel_acc \<times> db" where
  "dispatch_all by [] now acc s = (acc, s)"
| "dispatch_all by (tid # tids) now acc s =
     (case find_task tid s of
        None \<Rightarrow> dispatch_all by tids now acc s
      | Some t \<Rightarrow>
          (case status t of
             Queued \<Rightarrow>
               (case mark_cancelled_row tid by now s of
                  (None, s1) \<Rightarrow> dispatch_all by tids now acc s
                | (Some data, s1) \<Rightarrow>
                    (case dispatch_all ''cascade'' (map task_id (dependents tid s1)) now
                            (acc\<lparr>acc_cancelled := acc_cancelled acc @ [data]\<rparr>) s1 of
                       (acc2, s2) \<Rightarrow> dispatch_all by tids now acc2 s2))
           | Running \<Rightarrow>
               (case dispatch_running tid by now acc s of
                  (acc1, s1) \<Rightarrow> dispatch_all by tids now acc1 s1)
           | Cancelling \<Rightarrow> dispatch_all by tids now acc s
           | _ \<Rightarrow>
               dispatch_all by tids now
                 (acc\<lparr>acc_skipped_terminal := acc_skipped_terminal acc @ [task_to_dict t]\<rparr>) s))"
  by pat_completeness auto

lemma dispatch_all_count:
  "dispatch_all_dom (by, tids, now, acc, s) \<Longrightarrow>
     queued_count (snd (dispatch_all by tids now acc s)) \<le> queued_count s"
proof (induction "by" tids now acc s rule: dispatch_all.pinduct)
  case (1 "by" now acc s)
  then show ?case by (simp add: dispatch_all.psimps)
next
  case (2 "by" tid tids now acc s)
  show ?case
  proof (cases "find_task tid s")
    case None
    with 2 show ?thesis by (simp add: dispatch_all.psimps)
  next
    case (Some t)
    obtain r s1 where m: "mark_cancelled_row tid by now s = (r, s1)" by fastforce
    obtain acc1 sr where d: "dispatch_running tid by now acc s = (acc1, sr)" by fastforce
    have "queued_count sr \<le> queued_count s" using dispatch_running_count d by (metis snd_conv)
    moreover have "queued_count s1 \<le> queued_count s" using mark_cancelled_row_count(1) [OF m] .
    note le = this calculation
    show ?thesis
    proof (cases "status t")
      case Queued
      show ?thesis
      proof (cases r)
        case None
        with 2 Some m Queued show ?thesis by (simp add: dispatch_all.psimps)
      next
        case (Some data)
        obtain acc2 s2 where r2: "dispatch_all ''cascade'' (map task_id (dependents tid s1)) now
            (acc\<lparr>acc_cancelled := acc_cancelled acc @ [data]\<rparr>) s1 = (acc2, s2)" by fastforce
        have "queued_count s2 \<le> queued_count s1"
          using 2(4) [OF \<open>find_task tid s = Some t\<close> Queued m [symmetric] Some] r2 by simp
        moreover have "queued_count (snd (dispatch_all by tids now acc2 s2)) \<le> queued_count s2"
          using 2(5) [OF \<open>find_task tid s = Some t\<close> Queued m [symmetric] Some r2 [symmetric]] by simp
        ultimately show ?thesis
          using 2(1) \<open>find_task tid s = Some t\<close> Queued m Some r2 le
          by (simp add: dispatch_all.psimps)
      qed
    next
      case Running
      with 2(6) [OF Some Running d [symmetric]] 2(1) Some d le show ?thesis
        by (simp add: dispatch_all.psimps)
    qed (use 2 Some in \<open>simp_all add: dispatch_all.psimps\<close>)
  qed
qed

termination dispatch_all
proof (relation "measures [\<lambda>(_, _, _, _, s). queued_count s, \<lambda>(_, tids, _, _, _). length tids]",
       goal_cases)
  case (4 "by" tid tids now acc s t r s1 data)
  then show ?case by (simp add: mark_cancelled_row_count(2) [OF 4(3) [symmetric] 4(1,2)])
next
  case (5 "by" tid tids now acc s t r s1 data acc2 s2)
  have "queued_count s1 < queued_count s"
    by (rule mark_cancelled_row_count(2) [OF 5(3) [symmetric] 5(1,2)])
  moreover have "queued_count s2 \<le> queued_count s1"
    using dispatch_all_count [OF 5(6)] 5(5) by (metis snd_conv)
  ultimately show ?case by simp
next
  case (6 "by" tid tids now acc s t acc1 s1)
  have "queued_count s1 \<le> queued_count s"
    using dispatch_running_count [of tid "by" now acc s] 6(3) by (metis snd_conv)
  then show ?case by auto
qed simp_all

definition dispatch_cancel :: "string \<Rightarrow> string \<Rightarrow> time \<Rightarrow> cancel_acc \<Rightarrow> db \<Rightarrow> cancel_acc \<times> db" where
  "dispatch_cancel by tid now acc s = dispatch_all by [tid] now acc s"

definition cascade_cancel_dependents ::
  "string \<Rightarrow> time \<Rightarrow> cancel_acc \<Rightarrow> db \<Rightarrow> cancel_acc \<times> db" where
  "cascade_cancel_dependents tid now acc s =
     dispatch_all ''cascade'' (map task_id (dependents tid s)) now acc s"

text \<open>\<open>_mark_cancelled\<close> with \<open>cascade=True\<close>, the only way the repository calls it.\<close>

definition mark_cancelled ::
  "string \<Rightarrow> string \<Rightarrow> time \<Rightarrow> cancel_acc \<Rightarrow> db \<Rightarrow> task_dict option \<times> cancel_acc \<times> db" where
  "mark_cancelled tid by now acc s =
     (case mark_cancelled_row tid by now s of
        (None, s1) \<Rightarrow> (None, acc, s1)
      | (Some data, s1) \<Rightarrow>
          (case cascade_cancel_dependents tid now
                  (acc\<lparr>acc_cancelled := acc_cancelled acc @ [data]\<rparr>) s1 of
             (acc2, s2) \<Rightarrow> (Some data, acc2, s2)))"

definition cancel_task :: "string \<Rightarrow> time \<Rightarrow> db \<Rightarrow> (repo_error + cancel_acc) \<times> db" where
  "cancel_task tid now s =
     (case find_task tid s of
        None \<Rightarrow> (Inl (TaskNotFound tid), s)
      | Some _ \<Rightarrow>
          (case dispatch_cancel ''user'' tid now empty_acc s of (acc, s1) \<Rightarrow> (Inr acc, s1)))"

text \<open>The rows it cancelled and the running dependents it put in \<open>cancelling\<close>.\<close>

definition finalize_cancelled :: "string \<Rightarrow> string \<Rightarrow> time \<Rightarrow> db \<Rightarrow> (nat \<times> string list) \<times> db" where
  "finalize_cancelled tid by now s =
     (case mark_cancelled tid by now empty_acc s of
        (r, acc, s1) \<Rightarrow> ((rowcount r, acc_cancelling acc), s1))"

subsection \<open>The cancel preview\<close>

record task_summary =
  ts_task_id :: string
  ts_task_type :: string
  ts_resource_id :: string

definition summarise :: "task \<Rightarrow> task_summary" where
  "summarise t = \<lparr>ts_task_id = task_id t, ts_task_type = task_type t, ts_resource_id = resource_id t\<rparr>"

text \<open>
  \<open>_collect_queued_dependents\<close> recurses along dependencies without marking what it has
  seen, so a cycle of queued tasks would keep it going: the first argument bounds the depth
  of the recursion, and \<open>None\<close> is a run that goes deeper.
\<close>

fun collect_queued_dependents :: "nat \<Rightarrow> task list \<Rightarrow> db \<Rightarrow> task_summary list option" where
  "collect_queued_dependents fuel [] s = Some []"
| "collect_queued_dependents 0 (row # rows) s = None"
| "collect_queued_dependents (Suc n) (row # rows) s =
     (case collect_queued_dependents n (queued_dependents (task_id row) s) s of
        None \<Rightarrow> None
      | Some sub \<Rightarrow>
          (case collect_queued_dependents (Suc n) rows s of
             None \<Rightarrow> None
           | Some rest \<Rightarrow> Some (summarise row # sub @ rest)))"

definition get_cancel_preview ::
  "nat \<Rightarrow> string \<Rightarrow> db \<Rightarrow> repo_error + (task_summary \<times> task_status \<times> task_summary list) option" where
  "get_cancel_preview fuel tid s =
     (case find_task tid s of
        None \<Rightarrow> Inl (TaskNotFound tid)
      | Some t \<Rightarrow>
          Inr (map_option (\<lambda>cascaded. (summarise t, status t, cascaded))
                 (collect_queued_dependents fuel (queued_dependents tid s) s)))"

definition get_cancel_all_preview :: "string \<Rightarrow> db \<Rightarrow> nat" where
  "get_cancel_all_preview proj s =
     length (select_tasks (\<lambda>t. project_name t = proj \<and> status t = Queued) s)"

subsection \<open>Batch transitions\<close>

text \<open>
  An event for every row of a list, in its order: the loops that end \<open>cancel_all_queued\<close>
  and \<open>requeue_running\<close>.
\<close>

definition log_all :: "string \<Rightarrow> task_status \<Rightarrow> time \<Rightarrow> task list \<Rightarrow> db \<Rightarrow> db" where
  "log_all etype st now rows s = fold (log_task etype st now) rows s"

definition cancel_all_queued :: "string \<Rightarrow> time \<Rightarrow> db \<Rightarrow> (nat \<times> nat) \<times> db" where
  "cancel_all_queued proj now s =
     (let queued_tasks = select_tasks (\<lambda>t. project_name t = proj \<and> status t = Queued) s in
      case update_tasks (\<lambda>t. project_name t = proj \<and> status t = Queued)
             (\<lambda>t. t\<lparr>status := Cancelled, cancelled_by := Some ''user'',
                    finished_at := Some now, updated_at := now\<rparr>) s of
        (cancelled_count, s1) \<Rightarrow>
          (let task_ids = map task_id queued_tasks;
               refreshed = select_tasks (\<lambda>t. task_id t \<in> set task_ids \<and> status t = Cancelled) s1
           in ((cancelled_count, length queued_tasks - cancelled_count),
               log_all ''cancelled'' Cancelled now refreshed s1)))"

definition requeue_row :: "time \<Rightarrow> task \<Rightarrow> task" where
  "requeue_row now t =
     t\<lparr>status := Queued, started_at := None, finished_at := None, updated_at := now,
       result_json := TextNull, error_message := None\<rparr>"

definition requeue_running :: "int \<Rightarrow> time \<Rightarrow> db \<Rightarrow> nat \<times> db" where
  "requeue_running limit now s =
     (let task_ids = map task_id (take (nat (clamp 1 5000 limit))
                       (order_asc updated_at (select_tasks (\<lambda>t. status t = Running) s))) in
      if task_ids = [] then (0, s)
      else
        (case update_tasks (\<lambda>t. task_id t \<in> set task_ids \<and> status t = Running)
                (requeue_row now) s of
           (_, s1) \<Rightarrow>
             (let requeued = select_tasks (\<lambda>t. task_id t \<in> set task_ids \<and> status t = Queued) s1
              in (length requeued, log_all ''requeued'' Queued now requeued s1))))"

text \<open>
  \<open>GenerationWorker._requeue_single_task\<close> writes the table itself, and records no event.
\<close>

definition requeue_single_task :: "string \<Rightarrow> time \<Rightarrow> db \<Rightarrow> db" where
  "requeue_single_task tid now s =
     snd (update_tasks (\<lambda>t. task_id t = tid \<and> status t = Running)
            (\<lambda>t. t\<lparr>status := Queued, started_at := None, updated_at := now\<rparr>) s)"

subsection \<open>Updates that keep the status\<close>

definition persist_provider_job_id :: "string \<Rightarrow> string \<Rightarrow> time \<Rightarrow> db \<Rightarrow> db" where
  "persist_provider_job_id tid job now s =
     snd (update_tasks (\<lambda>t. task_id t = tid)
            (\<lambda>t. t\<lparr>provider_job_id := Some job, updated_at := now\<rparr>) s)"

definition persist_api_call_id :: "string \<Rightarrow> int \<Rightarrow> time \<Rightarrow> db \<Rightarrow> (repo_error + unit) \<times> db" where
  "persist_api_call_id tid call_id now s =
     (case find_task tid s of
        None \<Rightarrow> (Inl (TaskNotFound tid), s)
      | Some row \<Rightarrow>
          (let data = (case json_loads (payload_json row) (JObj []) of
                         JObj d \<Rightarrow> dict_put d ''api_call_id'' (JInt call_id)
                       | _ \<Rightarrow> dict_put [] ''api_call_id'' (JInt call_id))
           in case update_tasks (\<lambda>t. task_id t = tid)
                     (\<lambda>t. t\<lparr>payload_json := json_dumps (JObj data), updated_at := now\<rparr>) s of
                (n, s1) \<Rightarrow> if n = 0 then (Inl (TaskNotFound tid), s) else (Inr (), s1)))"

subsection \<open>Reads\<close>

definition list_orphan_tasks_on_start :: "db \<Rightarrow> task_dict list" where
  "list_orphan_tasks_on_start s =
     map task_to_dict
       (order_asc updated_at (select_tasks (\<lambda>t. status t = Running \<or> status t = Cancelling) s))"

definition get_task :: "string \<Rightarrow> db \<Rightarrow> task_dict option" where
  "get_task tid s = map_option task_to_dict (find_task tid s)"

record task_filter =
  tf_project_name :: "string option"
  tf_status :: "task_status option"
  tf_task_type :: "string option"
  tf_source :: "string option"

text \<open>A filter that is absent or an empty string does not restrict the query.\<close>

definition text_filter :: "string option \<Rightarrow> string \<Rightarrow> bool" where
  "text_filter f v = (case f of None \<Rightarrow> True | Some x \<Rightarrow> x = [] \<or> v = x)"

definition filter_matches :: "task_filter \<Rightarrow> task \<Rightarrow> bool" where
  "filter_matches f t =
     (text_filter (tf_project_name f) (project_name t) \<and>
      (case tf_status f of None \<Rightarrow> True | Some st \<Rightarrow> status t = st) \<and>
      text_filter (tf_task_type f) (task_type t) \<and>
      text_filter (tf_source f) (source t))"

record task_page =
  pg_items :: "task_dict list"
  pg_total :: nat
  pg_page :: int
  pg_page_size :: int

definition list_tasks :: "task_filter \<Rightarrow> int \<Rightarrow> int \<Rightarrow> db \<Rightarrow> task_page" where
  "list_tasks f page page_size s =
     (let page = max 1 page;
          page_size = clamp 1 500 page_size;
          offset = (page - 1) * page_size;
          rows = order_desc updated_at (order_desc queued_at (select_tasks (filter_matches f) s))
      in \<lparr>pg_items = map task_to_dict (take (nat page_size) (drop (nat offset) rows)),
          pg_total = length (select_tasks (filter_matches f) s),
          pg_page = page, pg_page_size = page_size\<rparr>)"

record task_stats =
  st_queued :: nat
  st_running :: nat
  st_cancelling :: nat
  st_succeeded :: nat
  st_failed :: nat
  st_cancelled :: nat
  st_total :: nat

text \<open>\<open>GROUP BY status\<close>: the statuses that occur, each with its count.\<close>

definition group_by_status :: "task list \<Rightarrow> (task_status \<times> nat) list" where
  "group_by_status rows =
     map (\<lambda>st. (st, length (filter (\<lambda>t. status t = st) rows))) (remdups (map status rows))"

fun set_stat :: "task_status \<times> nat \<Rightarrow> task_stats \<Rightarrow> task_stats" where
  "set_stat (Queued, n) r = r\<lparr>st_queued := n\<rparr>"
| "set_stat (Running, n) r = r\<lparr>st_running := n\<rparr>"
| "set_stat (Cancelling, n) r = r\<lparr>st_cancelling := n\<rparr>"
| "set_stat (Succeeded, n) r = r\<lparr>st_succeeded := n\<rparr>"
| "set_stat (Failed, n) r = r\<lparr>st_failed := n\<rparr>"
| "set_stat (Cancelled, n) r = r\<lparr>st_cancelled := n\<rparr>"

definition get_stats :: "string option \<Rightarrow> db \<Rightarrow> task_stats" where
  "get_stats proj s =
     (let rows = select_tasks (\<lambda>t. text_filter proj (project_name t)) s;
          zero = \<lparr>st_queued = 0, st_running = 0, st_cancelling = 0, st_succeeded = 0,
                  st_failed = 0, st_cancelled = 0, st_total = 0\<rparr>;
          (stats, total) = fold (\<lambda>(st, cnt) (r, tot). (set_stat (st, cnt) r, tot + cnt))
                             (group_by_status rows) (zero, 0)
      in stats\<lparr>st_total := total\<rparr>)"

definition get_recent_tasks_snapshot :: "string option \<Rightarrow> int \<Rightarrow> db \<Rightarrow> task_dict list" where
  "get_recent_tasks_snapshot proj limit s =
     map task_to_dict
       (take (nat (clamp 1 1000 limit))
         (order_desc updated_at (select_tasks (\<lambda>t. text_filter proj (project_name t)) s)))"

definition get_events_since :: "int \<Rightarrow> string option \<Rightarrow> int \<Rightarrow> db \<Rightarrow> task_event list" where
  "get_events_since last_event_id proj limit s =
     take (nat (clamp 1 1000 limit))
       (order_asc (\<lambda>e. int (ev_id e))
         (filter (\<lambda>e. int (ev_id e) > last_event_id \<and> text_filter proj (ev_project_name e))
           (events s)))"

definition get_latest_event_id :: "string option \<Rightarrow> db \<Rightarrow> nat" where
  "get_latest_event_id proj s =
     fold max (map ev_id (filter (\<lambda>e. text_filter proj (ev_project_name e)) (events s))) 0"

end
