(* ===== verification/TaskSteps.thy ===== *)
theory TaskSteps
  imports TaskRepo
begin

text \<open>
  The abstract specification of the task tables: a state machine whose steps are the
  insertion of a queued task, a legal change of one row's status together with the event
  that records it, and an update that keeps the status. The invariant of the tables is
  proved here once, over the steps; theory \<open>TaskInv\<close> shows that every operation of the
  repository is a run of them.
\<close>

subsection \<open>The status machine\<close>

fun legal :: "task_status \<Rightarrow> task_status \<Rightarrow> bool" where
  "legal Queued st = (st \<in> {Running, Failed, Cancelled})"
| "legal Running st = (st \<in> {Queued, Succeeded, Failed, Cancelling, Cancelled})"
| "legal Cancelling st = (st = Cancelled)"
| "legal _ st = False"

lemma legal_from_active: "legal a b \<Longrightarrow> is_active a"
  by (cases a) simp_all

lemma legal_irrefl [simp]: "\<not> legal a a"
  by (cases a) simp_all

definition started_status :: "task_status \<Rightarrow> bool" where
  "started_status st = (st \<in> {Running, Cancelling, Succeeded})"

lemma started_status_simps [simp]:
  "started_status Running" "started_status Cancelling" "started_status Succeeded"
  "\<not> started_status Queued" "\<not> started_status Failed" "\<not> started_status Cancelled"
  by (simp_all add: started_status_def)

text \<open>Only a running task becomes cancelling or succeeded, so a start is always through \<open>Running\<close>.\<close>

lemma legal_started: "legal a b \<Longrightarrow> started_status b \<Longrightarrow> started_status a \<or> (a = Queued \<and> b = Running)"
  by (cases a; cases b) simp_all

subsection \<open>Rows\<close>

text \<open>What the columns of a row must be for its status.\<close>

definition row_ok :: "task \<Rightarrow> bool" where
  "row_ok t =
     (case status t of
        Queued \<Rightarrow> started_at t = None \<and> finished_at t = None \<and> cancelled_by t = None
      | Running \<Rightarrow> started_at t \<noteq> None \<and> finished_at t = None \<and> cancelled_by t = None
      | Cancelling \<Rightarrow> started_at t \<noteq> None \<and> finished_at t = None \<and> cancelled_by t \<noteq> None
      | Succeeded \<Rightarrow> started_at t \<noteq> None \<and> finished_at t \<noteq> None \<and> error_message t = None \<and>
                     cancelled_by t = None
      | Failed \<Rightarrow> finished_at t \<noteq> None \<and> error_message t \<noteq> None \<and> cancelled_by t = None
      | Cancelled \<Rightarrow> finished_at t \<noteq> None \<and> cancelled_by t \<noteq> None)"

text \<open>The columns no operation changes.\<close>

definition same_identity :: "task \<Rightarrow> task \<Rightarrow> bool" where
  "same_identity t u =
     (task_id u = task_id t \<and> project_name u = project_name t \<and> task_type u = task_type t \<and>
      media_type u = media_type t \<and> resource_id u = resource_id t \<and>
      script_file u = script_file t \<and> source u = source t \<and>
      dependency_task_id u = dependency_task_id t \<and> dependency_group u = dependency_group t \<and>
      dependency_index u = dependency_index t \<and> provider_id u = provider_id t \<and>
      queued_at u = queued_at t \<and> user_id u = user_id t)"

lemma same_identity_refl [simp]: "same_identity t t"
  by (simp add: same_identity_def)

lemma same_identity_trans: "same_identity a b \<Longrightarrow> same_identity b c \<Longrightarrow> same_identity a c"
  by (simp add: same_identity_def)

lemma same_identity_key: "same_identity t u \<Longrightarrow> dedupe_key u = dedupe_key t"
  by (simp add: same_identity_def dedupe_key_def)

text \<open>A row replaced by another one: the part of a step that does not depend on its status.\<close>

definition row_change :: "db \<Rightarrow> task \<Rightarrow> task \<Rightarrow> bool" where
  "row_change s t t' =
     (find_task (task_id t') s = Some t \<and> same_identity t t' \<and>
      (row_ok t \<longrightarrow> row_ok t' \<and> (cancelled_by t \<noteq> None \<longrightarrow> cancelled_by t' = cancelled_by t)))"

definition may_move :: "db \<Rightarrow> task \<Rightarrow> task \<Rightarrow> bool" where
  "may_move s t t' =
     (legal (status t) (status t') \<and> (status t' = Running \<longrightarrow> dependency_ready s t))"

inductive repo_step :: "db \<Rightarrow> db \<Rightarrow> bool" where
  step_insert: "\<not> violates_unique t s \<Longrightarrow> status t = Queued \<Longrightarrow> row_ok t \<Longrightarrow>
     repo_step s (log_task etype Queued now t (insert_task t s))"
| step_move: "row_change s t t' \<Longrightarrow> may_move s t t' \<Longrightarrow>
     repo_step s (log_task etype (status t') now t' (put_task t' s))"
| step_touch: "row_change s t t' \<Longrightarrow> status t' = status t \<Longrightarrow> repo_step s (put_task t' s)"

text \<open>A move that writes no event: the way the worker puts a task it claimed back.\<close>

inductive quiet_step :: "db \<Rightarrow> db \<Rightarrow> bool" where
  step_quiet: "row_change s t t' \<Longrightarrow> may_move s t t' \<Longrightarrow> status t = Running \<Longrightarrow> status t' = Queued \<Longrightarrow>
     quiet_step s (put_task t' s)"

inductive_cases repo_stepE: "repo_step s s'"
inductive_cases quiet_stepE: "quiet_step s s'"

definition any_step :: "db \<Rightarrow> db \<Rightarrow> bool" where
  "any_step s s' = (repo_step s s' \<or> quiet_step s s')"

subsection \<open>The invariant of the task table\<close>

definition active_unique :: "db \<Rightarrow> bool" where
  "active_unique s =
     (\<forall>t\<in>set (tasks s). \<forall>u\<in>set (tasks s).
        is_active (status t) \<and> is_active (status u) \<and> dedupe_key t = dedupe_key u \<longrightarrow> t = u)"

definition gated :: "db \<Rightarrow> bool" where
  "gated s = (\<forall>t\<in>set (tasks s). started_status (status t) \<longrightarrow> dependency_ready s t)"

definition rows_ok :: "db \<Rightarrow> bool" where
  "rows_ok s = (\<forall>t\<in>set (tasks s). row_ok t)"

definition table_inv :: "db \<Rightarrow> bool" where
  "table_inv s = (unique_ids s \<and> active_unique s \<and> gated s \<and> rows_ok s)"

lemma table_inv_empty [simp]: "table_inv empty_db"
  by (simp add: table_inv_def unique_ids_def active_unique_def gated_def rows_ok_def empty_db_def)

lemma dependency_ready_log [simp]: "dependency_ready (log_task e st now t s) u = dependency_ready s u"
  by (simp add: dependency_ready_def split: option.split)

lemma table_inv_log [simp]: "table_inv (log_task e st now t s) = table_inv s"
  by (simp add: table_inv_def active_unique_def gated_def rows_ok_def)

lemma insert_unique: "\<not> violates_unique t s \<Longrightarrow> unique_ids s \<Longrightarrow> unique_ids (insert_task t s)"
  by (auto simp: violates_unique_def unique_ids_def insert_task_def image_iff)

lemma dependency_ready_insert:
  "dependency_ready s u \<Longrightarrow> dependency_ready (insert_task t s) u"
  by (auto simp: dependency_ready_def find_task_insert split: option.splits)

lemma table_inv_insert:
  assumes "table_inv s" and "\<not> violates_unique t s" and "status t = Queued" and "row_ok t"
  shows "table_inv (insert_task t s)"
proof -
  have "active_unique (insert_task t s)"
    using assms(1-3) by (auto simp: table_inv_def active_unique_def violates_unique_def insert_task_def)
  moreover have "gated (insert_task t s)"
    using assms(1,3) by (auto simp: table_inv_def gated_def insert_task_def [of t s]
        intro: dependency_ready_insert [unfolded insert_task_def])
  ultimately show ?thesis
    using assms insert_unique
    by (auto simp: table_inv_def rows_ok_def insert_task_def)
qed

lemma put_mem_cases:
  "x \<in> set (tasks (put_task t' s)) \<Longrightarrow> x = t' \<or> x \<in> set (tasks s) \<and> task_id x \<noteq> task_id t'"
  by (auto simp: put_task_def dest: set_row_mem_cases)

lemma dependency_ready_put:
  assumes "row_change s t t'" and "status t = Succeeded \<longrightarrow> status t' = Succeeded"
    and "dependency_ready s u"
  shows "dependency_ready (put_task t' s) u"
  using assms by (auto simp: dependency_ready_def row_change_def find_task_put split: option.splits)

lemma dependency_ready_identity: "same_identity t t' \<Longrightarrow> dependency_ready s t' = dependency_ready s t"
  by (simp add: dependency_ready_def same_identity_def)

text \<open>One lemma for the three ways a row is replaced.\<close>

lemma table_inv_put:
  assumes inv: "table_inv s" and rc: "row_change s t t'"
    and st: "status t' = status t \<or> may_move s t t'"
  shows "table_inv (put_task t' s)"
proof -
  from inv have u: "unique_ids s" and a: "active_unique s" and g: "gated s" and r: "rows_ok s"
    by (simp_all add: table_inv_def)
  from rc have f: "find_task (task_id t') s = Some t" and si: "same_identity t t'"
    by (simp_all add: row_change_def)
  have mem: "t \<in> set (tasks s)" "task_id t = task_id t'" using find_task_SomeD [OF f] by simp_all
  have act: "is_active (status t') \<Longrightarrow> is_active (status t)"
    using st by (auto simp: may_move_def dest: legal_from_active)
  have succ: "status t = Succeeded \<longrightarrow> status t' = Succeeded"
    using st by (auto simp: may_move_def)
  have key: "x = t'" if "x \<in> set (tasks s)" "task_id x \<noteq> task_id t'" "is_active (status x)"
      "is_active (status t')" "dedupe_key x = dedupe_key t'" for x
    using a mem that act same_identity_key [OF si] unfolding active_unique_def by metis
  have "active_unique (put_task t' s)"
    unfolding active_unique_def
  proof (intro ballI impI)
    fix x y assume "x \<in> set (tasks (put_task t' s))" "y \<in> set (tasks (put_task t' s))"
      and p: "is_active (status x) \<and> is_active (status y) \<and> dedupe_key x = dedupe_key y"
    then show "x = y"
      using key [of x] key [of y] a unfolding active_unique_def
      by (metis put_mem_cases)
  qed
  moreover have "gated (put_task t' s)"
    unfolding gated_def
  proof (intro ballI impI)
    fix x assume x: "x \<in> set (tasks (put_task t' s))" "started_status (status x)"
    have "dependency_ready s x"
    proof (cases "x = t'")
      case True
      have "dependency_ready s t"
        using st x(2) g mem True by (auto simp: may_move_def gated_def dest: legal_started)
      with True si show ?thesis by (simp add: dependency_ready_identity)
    next
      case False
      with put_mem_cases [OF x(1)] x(2) g show ?thesis by (auto simp: gated_def)
    qed
    then show "dependency_ready (put_task t' s) x" by (rule dependency_ready_put [OF rc succ])
  qed
  moreover have "rows_ok (put_task t' s)"
    using r rc mem put_mem_cases by (fastforce simp: rows_ok_def row_change_def)
  ultimately show ?thesis using u by (simp add: table_inv_def)
qed

lemma any_step_table_inv: "any_step s s' \<Longrightarrow> table_inv s \<Longrightarrow> table_inv s'"
  unfolding any_step_def
  by (auto elim!: repo_stepE quiet_stepE intro: table_inv_insert table_inv_put)

subsection \<open>What a run never undoes\<close>

definition row_later :: "task \<Rightarrow> task \<Rightarrow> bool" where
  "row_later t t' =
     (same_identity t t' \<and>
      (is_terminal (status t) \<longrightarrow> status t' = status t) \<and>
      (cancelled_by t \<noteq> None \<longrightarrow> cancelled_by t' = cancelled_by t))"

definition later :: "db \<Rightarrow> db \<Rightarrow> bool" where
  "later s s' =
     ((\<forall>tid t. find_task tid s = Some t \<longrightarrow> (\<exists>t'. find_task tid s' = Some t' \<and> row_later t t')) \<and>
      prefix (events s) (events s'))"

lemma row_later_refl [simp]: "row_later t t"
  by (simp add: row_later_def)

lemma later_refl [simp]: "later s s"
  by (simp add: later_def)

lemma row_later_trans: "row_later x y \<Longrightarrow> row_later y z \<Longrightarrow> row_later x z"
  by (auto simp: row_later_def elim: same_identity_trans)

lemma later_trans: "later a b \<Longrightarrow> later b c \<Longrightarrow> later a c"
  unfolding later_def by (meson prefix_order.trans row_later_trans)

lemma events_log_task [simp]:
  "events (log_task e st now t s) =
     events s @ [\<lparr>ev_id = next_event_id s, ev_task_id = task_id t, ev_project_name = project_name t,
                  ev_type = e, ev_status = st, ev_data = Some (task_to_dict t), ev_created_at = now\<rparr>]"
  "next_event_id (log_task e st now t s) = Suc (next_event_id s)"
  by (simp_all add: log_task_def append_event_def)

lemma insert_task_frame [simp]:
  "events (insert_task t s) = events s" "next_event_id (insert_task t s) = next_event_id s"
  "leases (insert_task t s) = leases s"
  by (simp_all add: insert_task_def)

lemma row_later_change:
  assumes "table_inv s" and "row_change s t t'" and "status t' = status t \<or> may_move s t t'"
  shows "row_later t t'"
proof -
  have "row_ok t"
    using assms(1,2) find_task_SomeD by (fastforce simp: table_inv_def rows_ok_def row_change_def)
  with assms(2,3) show ?thesis
    using legal_from_active by (auto simp: row_later_def row_change_def may_move_def active_iff_not_terminal)
qed

lemma later_put:
  assumes "table_inv s" and "row_change s t t'" and "status t' = status t \<or> may_move s t t'"
  shows "later s (put_task t' s)"
  using row_later_change [OF assms] assms(2)
  by (auto simp: later_def find_task_put row_change_def)

lemma later_insert: "later s (insert_task t s)"
  by (simp add: later_def find_task_insert)

lemma later_log: "later s s' \<Longrightarrow> later s (log_task e st now t s')"
  by (simp add: later_def)

lemma any_step_later: "any_step s s' \<Longrightarrow> table_inv s \<Longrightarrow> later s s'"
  unfolding any_step_def
  by (auto elim!: repo_stepE quiet_stepE intro: later_put later_insert later_log)

lemma any_steps_table_inv: "any_step\<^sup>*\<^sup>* s s' \<Longrightarrow> table_inv s \<Longrightarrow> table_inv s'"
  by (induction rule: rtranclp_induct) (auto intro: any_step_table_inv)

lemma any_steps_later: "any_step\<^sup>*\<^sup>* s s' \<Longrightarrow> table_inv s \<Longrightarrow> later s s'"
  by (induction rule: rtranclp_induct)
     (auto intro: later_trans any_step_later any_steps_table_inv)

lemma repo_any: "repo_step\<^sup>*\<^sup>* s s' \<Longrightarrow> any_step\<^sup>*\<^sup>* s s'"
  by (rule rtranclp_mono [THEN predicate2D, rotated]) (auto simp: any_step_def)

text \<open>Readiness of a dependency is permanent, since success is.\<close>

lemma dependency_ready_later:
  assumes "later s s'" and "dependency_ready s t"
  shows "dependency_ready s' t"
proof (cases "dependency_task_id t")
  case (Some d)
  with assms(2) obtain u where "find_task d s = Some u" "status u = Succeeded"
    by (auto simp: dependency_ready_def split: option.splits)
  with assms(1) Some show ?thesis
    by (fastforce simp: dependency_ready_def later_def row_later_def is_terminal_def)
qed (simp add: dependency_ready_def)

subsection \<open>The event log\<close>

definition trail :: "string \<Rightarrow> db \<Rightarrow> task_status list" where
  "trail tid s = map ev_status (filter (\<lambda>e. ev_task_id e = tid) (events s))"

definition trail_ok :: "task_status list \<Rightarrow> bool" where
  "trail_ok tr = (tr \<noteq> [] \<and> hd tr = Queued \<and> successively legal tr)"

definition event_ids_ok :: "db \<Rightarrow> bool" where
  "event_ids_ok s =
     (sorted_wrt (<) (map ev_id (events s)) \<and> (\<forall>e\<in>set (events s). ev_id e < next_event_id s))"

definition log_inv :: "db \<Rightarrow> bool" where
  "log_inv s =
     (event_ids_ok s \<and>
      (\<forall>tid. case find_task tid s of
               None \<Rightarrow> trail tid s = []
             | Some t \<Rightarrow> trail_ok (trail tid s) \<and> last (trail tid s) = status t))"

lemma log_inv_Some: "log_inv s \<Longrightarrow> find_task tid s = Some t \<Longrightarrow> trail_ok (trail tid s) \<and> last (trail tid s) = status t"
  and log_inv_None: "log_inv s \<Longrightarrow> find_task tid s = None \<Longrightarrow> trail tid s = []"
  and log_inv_ids: "log_inv s \<Longrightarrow> event_ids_ok s"
  by (auto simp: log_inv_def dest: spec [of _ tid])

lemma log_invI:
  assumes "event_ids_ok s"
    and "\<And>tid t. find_task tid s = Some t \<Longrightarrow> trail_ok (trail tid s) \<and> last (trail tid s) = status t"
    and "\<And>tid. find_task tid s = None \<Longrightarrow> trail tid s = []"
  shows "log_inv s"
  using assms by (auto simp: log_inv_def split: option.splits)

lemma log_inv_empty [simp]: "log_inv empty_db"
  by (simp add: log_inv_def event_ids_ok_def trail_def find_task_def empty_db_def)

lemma event_ids_ok_log [simp]: "event_ids_ok s \<Longrightarrow> event_ids_ok (log_task e st now t s)"
  by (auto simp: event_ids_ok_def sorted_wrt_append less_Suc_eq)

lemma event_ids_ok_frame [simp]:
  "event_ids_ok (put_task t s) = event_ids_ok s" "event_ids_ok (insert_task t s) = event_ids_ok s"
  by (simp_all add: event_ids_ok_def)

lemma trail_frame [simp]:
  "trail tid (put_task t s) = trail tid s" "trail tid (insert_task t s) = trail tid s"
  by (simp_all add: trail_def)

lemma trail_log:
  "trail tid (log_task e st now t s) = (if tid = task_id t then trail tid s @ [st] else trail tid s)"
  by (simp add: trail_def)

lemma trail_ok_snoc: "trail_ok tr \<Longrightarrow> legal (last tr) st \<Longrightarrow> trail_ok (tr @ [st])"
  by (auto simp: trail_ok_def successively_append_iff)

lemma trail_ok_start [simp]: "trail_ok [Queued]"
  by (simp add: trail_ok_def)

lemma repo_step_log_inv: "repo_step s s' \<Longrightarrow> log_inv s \<Longrightarrow> log_inv s'"
proof (induction rule: repo_step.induct)
  case (step_insert t s etype now)
  then have f: "find_task (task_id t) s = None"
    by (auto simp: find_task_None_iff violates_unique_def)
  note lk = log_inv_Some [OF step_insert(4)] log_inv_None [OF step_insert(4)]
  show ?case
    by (rule log_invI)
       (use log_inv_ids [OF step_insert(4)] step_insert(2) f lk in
         \<open>auto simp: trail_log find_task_insert split: option.splits if_splits\<close>)
next
  case (step_move s t t' etype now)
  then have f: "find_task (task_id t') s = Some t" and l: "legal (status t) (status t')"
    by (simp_all add: row_change_def may_move_def)
  note lk = log_inv_Some [OF step_move(3)] log_inv_None [OF step_move(3)]
  have "trail_ok (trail (task_id t') s @ [status t'])"
    using lk(1) [OF f] l by (intro trail_ok_snoc) auto
  then show ?case
    by (intro log_invI)
       (use log_inv_ids [OF step_move(3)] f lk in
         \<open>auto simp: trail_log find_task_put split: option.splits if_splits\<close>)
next
  case (step_touch s t t')
  note lk = log_inv_Some [OF step_touch(3)] log_inv_None [OF step_touch(3)]
  show ?case
    by (rule log_invI)
       (use log_inv_ids [OF step_touch(3)] step_touch(1,2) lk in
         \<open>auto simp: find_task_put row_change_def split: option.splits if_splits\<close>)
qed

lemma repo_steps_log_inv: "repo_step\<^sup>*\<^sup>* s s' \<Longrightarrow> log_inv s \<Longrightarrow> log_inv s'"
  by (induction rule: rtranclp_induct) (auto intro: repo_step_log_inv)

text \<open>
  With quiet steps a task that was put back is queued while its log ends with running; the next event
  is its second start, its failure or its cancellation.
\<close>

definition follows :: "task_status \<Rightarrow> task_status \<Rightarrow> bool" where
  "follows a b = (legal a b \<or> a = Running \<and> b = Running)"

definition logged_as :: "task_status list \<Rightarrow> task_status \<Rightarrow> bool" where
  "logged_as tr st =
     (tr \<noteq> [] \<and> hd tr = Queued \<and> successively follows tr \<and> (last tr = st \<or> last tr = Running \<and> st = Queued))"

definition queue_log_inv :: "db \<Rightarrow> bool" where
  "queue_log_inv s =
     (event_ids_ok s \<and>
      (\<forall>tid. case find_task tid s of None \<Rightarrow> trail tid s = [] | Some t \<Rightarrow> logged_as (trail tid s) (status t)))"

lemma queue_log_invI:
  assumes "event_ids_ok s"
    and "\<And>tid t. find_task tid s = Some t \<Longrightarrow> logged_as (trail tid s) (status t)"
    and "\<And>tid. find_task tid s = None \<Longrightarrow> trail tid s = []"
  shows "queue_log_inv s"
  using assms by (auto simp: queue_log_inv_def split: option.splits)

lemma queue_log_inv_Some: "queue_log_inv s \<Longrightarrow> find_task tid s = Some t \<Longrightarrow> logged_as (trail tid s) (status t)"
  and queue_log_inv_None: "queue_log_inv s \<Longrightarrow> find_task tid s = None \<Longrightarrow> trail tid s = []"
  and queue_log_inv_ids: "queue_log_inv s \<Longrightarrow> event_ids_ok s"
  by (auto simp: queue_log_inv_def dest: spec [of _ tid])

lemma queue_log_inv_empty [simp]: "queue_log_inv empty_db"
  by (simp add: queue_log_inv_def event_ids_ok_def trail_def find_task_def empty_db_def)

lemma logged_as_start [simp]: "logged_as [Queued] Queued"
  by (simp add: logged_as_def)

lemma logged_as_snoc: "logged_as tr st \<Longrightarrow> legal st st' \<Longrightarrow> logged_as (tr @ [st']) st'"
  by (cases st) (auto simp: logged_as_def successively_append_iff follows_def)

lemma repo_step_queue_log:
  assumes "repo_step s s'" and inv: "queue_log_inv s"
  shows "queue_log_inv s'"
proof -
  note lk = queue_log_inv_Some [OF inv] queue_log_inv_None [OF inv] and ids = queue_log_inv_ids [OF inv]
  from assms(1) show ?thesis
  proof (cases rule: repo_step.cases)
    case (step_insert t etype now)
    then have "find_task (task_id t) s = None" by (auto simp: find_task_None_iff violates_unique_def)
    with step_insert ids lk show ?thesis
      by (intro queue_log_invI) (auto simp: trail_log find_task_insert split: option.splits if_splits)
  next
    case (step_move t t' etype now)
    then have f: "find_task (task_id t') s = Some t" and l: "legal (status t) (status t')"
      by (simp_all add: row_change_def may_move_def)
    from logged_as_snoc [OF lk(1) [OF f] l] step_move(1) f ids lk show ?thesis
      by (intro queue_log_invI) (auto simp: trail_log find_task_put split: option.splits if_splits)
  next
    case (step_touch t t')
    with ids lk show ?thesis
      by (intro queue_log_invI) (auto simp: find_task_put row_change_def split: option.splits if_splits)
  qed
qed

lemma quiet_step_queue_log: "quiet_step s s' \<Longrightarrow> queue_log_inv s \<Longrightarrow> queue_log_inv s'"
proof (induction rule: quiet_step.induct)
  case (step_quiet s t t')
  then have f: "find_task (task_id t') s = Some t" by (simp add: row_change_def)
  note lk = queue_log_inv_Some [OF step_quiet(5)] queue_log_inv_None [OF step_quiet(5)]
  have "logged_as (trail (task_id t') s) (status t')"
    using lk(1) [OF f] step_quiet(3,4) by (auto simp: logged_as_def)
  with lk f queue_log_inv_ids [OF step_quiet(5)] show ?case
    by (intro queue_log_invI) (auto simp: find_task_put split: option.splits if_splits)
qed

lemma any_step_queue_log: "any_step s s' \<Longrightarrow> queue_log_inv s \<Longrightarrow> queue_log_inv s'"
  unfolding any_step_def by (auto intro: repo_step_queue_log quiet_step_queue_log)

lemma any_steps_queue_log: "any_step\<^sup>*\<^sup>* s s' \<Longrightarrow> queue_log_inv s \<Longrightarrow> queue_log_inv s'"
  by (induction rule: rtranclp_induct) (auto intro: any_step_queue_log)

lemma any_step_event_ids: "any_step s s' \<Longrightarrow> event_ids_ok s \<Longrightarrow> event_ids_ok s'"
  unfolding any_step_def by (auto elim!: repo_stepE quiet_stepE)

subsection \<open>Transactions\<close>

text \<open>
  The contract of a repository operation: on a table with unique ids it is a run of steps.
  Every operation is interpreted as one, and inherits what a run guarantees.
\<close>

locale task_transaction =
  fixes run :: "db \<Rightarrow> db"
  assumes run_steps: "table_inv s \<Longrightarrow> repo_step\<^sup>*\<^sup>* s (run s)"
begin

lemma keeps_table: "table_inv s \<Longrightarrow> table_inv (run s)"
  using run_steps repo_any any_steps_table_inv by blast

lemma keeps_log: "table_inv s \<Longrightarrow> log_inv s \<Longrightarrow> log_inv (run s)"
  using run_steps repo_steps_log_inv by blast

lemma is_later: "table_inv s \<Longrightarrow> later s (run s)"
  using run_steps repo_any any_steps_later by blast

lemma any_run: "table_inv s \<Longrightarrow> any_step\<^sup>*\<^sup>* s (run s)"
  using run_steps repo_any by blast

end

end
