(* ===== verification/TaskInv.thy ===== *)
theory TaskInv
  imports TaskSteps
begin

text \<open>
  Every operation of the repository is a run of the state machine of \<open>TaskSteps\<close>: the
  transaction contract is interpreted for each of them, and the invariants of the task
  table and of the event log follow for any sequence of operations.
\<close>

subsection \<open>Guarded updates are steps\<close>

lemma guarded_update_run:
  assumes inv: "table_inv s" and idf: "\<And>t. task_id (f t) = task_id t"
    and ok: "\<And>t. find_task tid s = Some t \<Longrightarrow> g (status t) \<Longrightarrow>
               row_change s t (f t) \<and> may_move s t (f t) \<and> status (f t) = st"
  shows "repo_step\<^sup>*\<^sup>* s (snd (guarded_update tid g f e st now s))"
proof -
  from inv have u: "unique_ids s" by (simp add: table_inv_def)
  show ?thesis
  proof (cases "find_task tid s")
    case (Some t)
    show ?thesis
    proof (cases "g (status t)")
      case True
      from ok [OF Some True] have "repo_step s (log_task e st now (f t) (put_task (f t) s))"
        using step_move [of s t "f t" e now] by simp
      with Some True show ?thesis by (auto simp: guarded_update_eq [OF u idf])
    qed (simp add: Some guarded_update_eq [OF u idf])
  qed (simp add: guarded_update_eq [OF u idf])
qed

lemma row_changeI:
  assumes "find_task tid s = Some t" and "same_identity t t'"
    and "row_ok t \<Longrightarrow> row_ok t'" and "row_ok t \<Longrightarrow> cancelled_by t \<noteq> None \<Longrightarrow> cancelled_by t' = cancelled_by t"
  shows "row_change s t t'"
proof -
  have "task_id t' = tid" using assms(1,2) find_task_SomeD by (fastforce simp: same_identity_def)
  with assms show ?thesis by (simp add: row_change_def)
qed

lemmas move_defs = same_identity_def row_ok_def may_move_def

lemma snd_rowcount: "snd (case x of (r, s1) \<Rightarrow> (h r, s1)) = snd x"
  by (cases x) simp

lemma step_run [step_intros]: "repo_step s s' \<Longrightarrow> repo_step\<^sup>*\<^sup>* s s'" by simp

lemma new_task_simps [simp]:
  "task_id (new_task a uuid now) = uuid" "status (new_task a uuid now) = Queued"
  "row_ok (new_task a uuid now)" "dependency_task_id (new_task a uuid now) = ea_dependency_task_id a"
  "project_name (new_task a uuid now) = ea_project_name a" "queued_at (new_task a uuid now) = now"
  by (simp_all add: new_task_def row_ok_def)

interpretation enqueue: task_transaction "\<lambda>s. snd (enqueue a uuid now s)" for a uuid now
proof
  fix s assume "table_inv s"
  show "repo_step\<^sup>*\<^sup>* s (snd (enqueue a uuid now s))"
    by (auto simp: enqueue_def Let_def split: option.splits intro!: step_run step_insert)
qed

text \<open>
  The second statement of a claim, run in a later state than the first: a dependency that was
  ready when the task was selected still is.
\<close>

lemma claim_commit_run:
  assumes "table_inv s" and "\<And>t. find_task tid s = Some t \<Longrightarrow> status t = Queued \<Longrightarrow> dependency_ready s t"
  shows "repo_step\<^sup>*\<^sup>* s (snd (claim_commit tid now s))"
  unfolding claim_commit_def
  by (rule guarded_update_run [OF assms(1)])
     (auto simp: move_defs intro!: row_changeI dest: assms(2))

lemma claim_select_SomeD:
  assumes "claim_select media full s = Some tid" and "unique_ids s"
  shows "\<exists>t. find_task tid s = Some t \<and> claimable media full s t"
proof -
  from assms(1) obtain t ts where o: "order_asc queued_at (select_tasks (claimable media full s) s) = t # ts"
    and tid: "tid = task_id t"
    by (auto simp: claim_select_def split: list.splits)
  have "t \<in> set (order_asc queued_at (select_tasks (claimable media full s) s))" by (simp add: o)
  then have "t \<in> set (tasks s)" "claimable media full s t" by (simp_all add: select_tasks_def)
  with tid find_task_mem [OF assms(2)] show ?thesis by blast
qed

interpretation claim_next: task_transaction "\<lambda>s. snd (claim_next media full now s)" for media full now
proof
  fix s assume inv: "table_inv s"
  show "repo_step\<^sup>*\<^sup>* s (snd (claim_next media full now s))"
  proof (cases "claim_select media full s")
    case (Some tid)
    with inv obtain t where "find_task tid s = Some t" "claimable media full s t"
      using claim_select_SomeD by (fastforce simp: table_inv_def)
    with Some inv show ?thesis
      by (auto simp: claim_next_def claimable_def intro!: claim_commit_run)
  qed (simp add: claim_next_def)
qed

interpretation mark_succeeded: task_transaction "\<lambda>s. snd (mark_succeeded tid result now s)"
  for tid result now
proof
  fix s assume "table_inv s"
  then show "repo_step\<^sup>*\<^sup>* s (snd (mark_succeeded tid result now s))"
    unfolding mark_succeeded_def snd_rowcount
    by (rule guarded_update_run) (auto simp: move_defs intro!: row_changeI)
qed

interpretation mark_failed_running: task_transaction "\<lambda>s. snd (mark_failed_running tid msg now s)"
  for tid msg now
proof
  fix s assume "table_inv s"
  then show "repo_step\<^sup>*\<^sup>* s (snd (mark_failed_running tid msg now s))"
    unfolding mark_failed_running_def snd_rowcount
    by (rule guarded_update_run) (auto simp: move_defs fail_row_def intro!: row_changeI)
qed

interpretation mark_failed_dep: task_transaction "\<lambda>s. snd (mark_failed_queued_dep tid msg now s)"
  for tid msg now
proof
  fix s assume "table_inv s"
  then show "repo_step\<^sup>*\<^sup>* s (snd (mark_failed_queued_dep tid msg now s))"
    unfolding mark_failed_queued_dep_def snd_rowcount
    by (rule guarded_update_run) (auto simp: move_defs fail_row_def intro!: row_changeI)
qed

interpretation cancelled_row: task_transaction "\<lambda>s. snd (mark_cancelled_row tid by now s)"
  for tid "by" now
proof
  fix s assume "table_inv s"
  then show "repo_step\<^sup>*\<^sup>* s (snd (mark_cancelled_row tid by now s))"
    unfolding mark_cancelled_row_def
    by (rule guarded_update_run)
       (auto simp: move_defs cancel_row_def intro!: row_changeI split: task_status.splits
         elim: is_active.elims)
qed

interpretation mark_cancelling: task_transaction "\<lambda>s. snd (mark_cancelling tid by now s)"
  for tid "by" now
proof
  fix s assume "table_inv s"
  then show "repo_step\<^sup>*\<^sup>* s (snd (mark_cancelling tid by now s))"
    unfolding mark_cancelling_def snd_rowcount
    by (rule guarded_update_run) (auto simp: move_defs intro!: row_changeI)
qed

subsection \<open>Cascades are runs\<close>

lemma run_trans:
  "repo_step\<^sup>*\<^sup>* s s1 \<Longrightarrow> table_inv s \<Longrightarrow> (table_inv s1 \<Longrightarrow> repo_step\<^sup>*\<^sup>* s1 s2) \<Longrightarrow> repo_step\<^sup>*\<^sup>* s s2"
  using repo_any any_steps_table_inv by (meson rtranclp_trans)

lemma cascade_failed_loop_run:
  "table_inv s \<Longrightarrow> repo_step\<^sup>*\<^sup>* s (snd (cascade_failed_loop tid msg deps now s))"
proof (induction tid msg deps now s rule: cascade_failed_loop.induct)
  case (2 tid msg dep deps now s)
  let ?b = "blocked_message tid msg"
  obtain n s1 where m: "mark_failed_queued_dep dep ?b now s = (n, s1)" by fastforce
  have r1: "repo_step\<^sup>*\<^sup>* s s1"
    using mark_failed_dep.run_steps [OF 2(4), of dep ?b now] m by simp
  have i1: "table_inv s1"
    using mark_failed_dep.keeps_table [OF 2(4), of dep ?b now] m by simp
  show ?case
  proof (cases "n = 0")
    case True
    from rtranclp_trans [OF r1 2(1) [OF refl m [symmetric] True i1]] m True show ?thesis
      by (simp add: Let_def)
  next
    case False
    obtain k s2 where c: "cascade_failed_loop dep ?b (map task_id (queued_dependents dep s1)) now s1 = (k, s2)"
      by fastforce
    have r2: "repo_step\<^sup>*\<^sup>* s1 s2" using 2(2) [OF refl m [symmetric] False i1] c by simp
    then have "repo_step\<^sup>*\<^sup>* s2 (snd (cascade_failed_loop tid msg deps now s2))"
      using 2(3) [OF refl m [symmetric] False c [symmetric]] i1 any_steps_table_inv repo_any by blast
    with r1 r2 m c False show ?thesis
      by (auto simp: Let_def split: prod.splits)
  qed
qed simp

interpretation mark_failed: task_transaction "\<lambda>s. snd (mark_failed tid msg now s)" for tid msg now
proof
  fix s assume inv: "table_inv s"
  obtain n s1 where m: "mark_failed_running tid msg now s = (n, s1)" by fastforce
  have "repo_step\<^sup>*\<^sup>* s s1" "table_inv s1"
    using mark_failed_running.run_steps [OF inv, of tid msg now]
      mark_failed_running.keeps_table [OF inv, of tid msg now] m by simp_all
  from rtranclp_trans [OF this(1) cascade_failed_loop_run [OF this(2)]] this(1)
  show "repo_step\<^sup>*\<^sup>* s (snd (mark_failed tid msg now s))"
    by (simp add: mark_failed_def cascade_failed_queued_def m)
qed

interpretation dispatch_running: task_transaction "\<lambda>s. snd (dispatch_running tid by now acc s)"
  for tid "by" now acc
proof
  fix s assume "table_inv s"
  have "snd (dispatch_running tid by now acc s) = snd (mark_cancelling tid by now s)"
    by (auto simp: dispatch_running_def split: prod.splits option.splits)
  with mark_cancelling.run_steps [OF \<open>table_inv s\<close>]
  show "repo_step\<^sup>*\<^sup>* s (snd (dispatch_running tid by now acc s))" by simp
qed

lemma dispatch_all_run: "table_inv s \<Longrightarrow> repo_step\<^sup>*\<^sup>* s (snd (dispatch_all by tids now acc s))"
proof (induction "by" tids now acc s rule: dispatch_all.induct)
  case (2 "by" tid tids now acc s)
  show ?case
  proof (cases "find_task tid s")
    case None
    with 2 show ?thesis by simp
  next
    case t: (Some t)
    show ?thesis
    proof (cases "status t")
      case Queued
      obtain r s1 where m: "mark_cancelled_row tid by now s = (r, s1)" by fastforce
      have s1: "repo_step\<^sup>*\<^sup>* s s1" "table_inv s1"
        using cancelled_row.run_steps [OF 2(10), of tid "by" now]
          cancelled_row.keeps_table [OF 2(10), of tid "by" now] m by simp_all
      show ?thesis
      proof (cases r)
        case None
        with 2(2) [OF t Queued m [symmetric]] 2(10) t Queued m show ?thesis by simp
      next
        case (Some data)
        obtain acc2 s2 where c: "dispatch_all ''cascade'' (map task_id (dependents tid s1)) now
            (acc\<lparr>acc_cancelled := acc_cancelled acc @ [data]\<rparr>) s1 = (acc2, s2)" by fastforce
        have r2: "repo_step\<^sup>*\<^sup>* s1 s2" using 2(3) [OF t Queued m [symmetric] Some s1(2)] c by simp
        then have "repo_step\<^sup>*\<^sup>* s2 (snd (dispatch_all by tids now acc2 s2))"
          using 2(4) [OF t Queued m [symmetric] Some c [symmetric]] s1 any_steps_table_inv repo_any by blast
        from rtranclp_trans [OF s1(1) rtranclp_trans [OF r2 this]] m c Some t Queued
        show ?thesis by simp
      qed
    next
      case Running
      obtain acc1 s1 where d: "dispatch_running tid by now acc s = (acc1, s1)" by fastforce
      have s1: "repo_step\<^sup>*\<^sup>* s s1" "table_inv s1"
        using dispatch_running.run_steps [OF 2(10), of tid "by" now acc]
          dispatch_running.keeps_table [OF 2(10), of tid "by" now acc] d by simp_all
      from rtranclp_trans [OF s1(1) 2(5) [OF t Running d [symmetric] s1(2)]] d t Running
      show ?thesis by simp
    qed (use 2 t in simp_all)
  qed
qed simp

interpretation cancel_task: task_transaction "\<lambda>s. snd (cancel_task tid now s)" for tid now
proof
  fix s assume "table_inv s"
  then show "repo_step\<^sup>*\<^sup>* s (snd (cancel_task tid now s))"
    using dispatch_all_run [of s "''user''" "[tid]" now empty_acc]
    by (auto simp: cancel_task_def dispatch_cancel_def split: option.splits prod.splits)
qed

interpretation finalize: task_transaction "\<lambda>s. snd (finalize_cancelled tid by now s)" for tid "by" now
proof
  fix s assume inv: "table_inv s"
  obtain r s1 where m: "mark_cancelled_row tid by now s = (r, s1)" by fastforce
  have s1: "repo_step\<^sup>*\<^sup>* s s1" "table_inv s1"
    using cancelled_row.run_steps [OF inv, of tid "by" now]
      cancelled_row.keeps_table [OF inv, of tid "by" now] m by simp_all
  show "repo_step\<^sup>*\<^sup>* s (snd (finalize_cancelled tid by now s))"
  proof (cases r)
    case None
    with m s1(1) show ?thesis by (simp add: finalize_cancelled_def mark_cancelled_def)
  next
    case (Some data)
    have "snd (finalize_cancelled tid by now s) =
        snd (dispatch_all ''cascade'' (map task_id (dependents tid s1)) now
              (empty_acc\<lparr>acc_cancelled := acc_cancelled empty_acc @ [data]\<rparr>) s1)"
      by (simp add: finalize_cancelled_def mark_cancelled_def cascade_cancel_dependents_def m Some
          split: prod.split)
    with rtranclp_trans [OF s1(1) dispatch_all_run [OF s1(2)]] show ?thesis by simp
  qed
qed

subsection \<open>Updates that keep the status\<close>

lemma update_by_id:
  assumes "table_inv s" and "\<And>t. task_id (f t) = task_id t"
  shows "update_tasks (\<lambda>t. task_id t = tid) f s =
           (case find_task tid s of None \<Rightarrow> (0, s) | Some t \<Rightarrow> (1, put_task (f t) s))"
proof -
  have u: "unique_ids s" using assms(1) by (simp add: table_inv_def)
  show ?thesis
  proof (cases "find_task tid s")
    case None
    with update_no_row [OF None, of "\<lambda>_. True" f] show ?thesis by simp
  next
    case (Some t)
    with assms(2) have "task_id (f t) = tid" by (simp add: find_task_SomeD)
    from update_one_row [of s tid t f "\<lambda>_. True", OF u Some this] Some show ?thesis by simp
  qed
qed

lemma row_ok_cong:
  "status t' = status t \<Longrightarrow> started_at t' = started_at t \<Longrightarrow> finished_at t' = finished_at t \<Longrightarrow>
   error_message t' = error_message t \<Longrightarrow> cancelled_by t' = cancelled_by t \<Longrightarrow> row_ok t' = row_ok t"
  by (simp add: row_ok_def split: task_status.split)

lemma touch_run:
  assumes "find_task tid s = Some t" and "same_identity t t'" and "status t' = status t"
    and "started_at t' = started_at t" and "finished_at t' = finished_at t"
    and "error_message t' = error_message t" and "cancelled_by t' = cancelled_by t"
  shows "repo_step\<^sup>*\<^sup>* s (put_task t' s)"
  using assms row_ok_cong [of t' t] by (intro step_run step_touch row_changeI) auto

interpretation persist_job: task_transaction "persist_provider_job_id tid job now" for tid job now
proof
  fix s assume inv: "table_inv s"
  show "repo_step\<^sup>*\<^sup>* s (persist_provider_job_id tid job now s)"
    unfolding persist_provider_job_id_def
    by (subst update_by_id [OF inv])
       (auto simp: same_identity_def split: option.split intro: touch_run)
qed

interpretation persist_call: task_transaction "\<lambda>s. snd (persist_api_call_id tid c now s)" for tid c now
proof
  fix s assume inv: "table_inv s"
  show "repo_step\<^sup>*\<^sup>* s (snd (persist_api_call_id tid c now s))"
  proof (cases "find_task tid s")
    case (Some t)
    then show ?thesis
      unfolding persist_api_call_id_def Let_def
      by (subst update_by_id [OF inv])
         (auto simp: same_identity_def intro: touch_run)
  qed (simp add: persist_api_call_id_def)
qed

subsection \<open>Batch updates are runs\<close>

lemma put_task_log: "put_task t (log_task e st now u s) = log_task e st now u (put_task t s)"
  by (simp add: put_task_def log_task_def append_event_def)

lemma fold_put_log:
  "fold (\<lambda>t s. log_task e st now (f t) (put_task (f t) s)) L s =
     log_all e st now (map f L) (fold (\<lambda>t. put_task (f t)) L s)"
proof -
  have push: "fold (\<lambda>t. put_task (f t)) L (log_task e st now u s) =
      log_task e st now u (fold (\<lambda>t. put_task (f t)) L s)" for u L s
    by (induction L arbitrary: s) (simp_all add: put_task_log)
  show ?thesis
    by (induction L arbitrary: s) (simp_all add: log_all_def push)
qed

lemma fold_set_row:
  assumes "distinct (map key L)" and "distinct (map key rs)" and "set L \<subseteq> set rs"
    and "\<And>t. key (f t) = key t"
  shows "fold (\<lambda>t. set_row key (f t)) L rs = map_where (\<lambda>r. r \<in> set L) f rs"
  using assms
proof (induction L arbitrary: rs)
  case (Cons t L)
  let ?rs1 = "map_where (\<lambda>r. r = t) f rs"
  have e: "set_row key (f t) rs = ?rs1"
    using Cons.prems(2-4) by (auto simp: set_row_def map_where_def distinct_map inj_on_def)
  have k: "map key ?rs1 = map key rs" by (rule map_key_map_where) (use Cons.prems(4) in simp)
  have "set L \<subseteq> set ?rs1" using Cons.prems(1,3) by (auto simp: map_where_def)
  with Cons k have "fold (\<lambda>t. set_row key (f t)) L ?rs1 = map_where (\<lambda>r. r \<in> set L) f ?rs1" by simp
  also have "\<dots> = map_where (\<lambda>r. r \<in> set (t # L)) f rs"
    using Cons.prems(1,4) by (auto simp: map_where_def image_iff)
  finally show ?case by (simp add: e)
qed (simp add: map_where_id)

lemma fold_put_tasks:
  "fold (\<lambda>t. put_task (f t)) L s = s\<lparr>tasks := fold (\<lambda>t. set_row task_id (f t)) L (tasks s)\<rparr>"
  by (induction L arbitrary: s) (simp_all add: put_task_def)

lemma moves_run:
  assumes "distinct (map task_id L)" and "st \<noteq> Running" and "\<And>t. task_id (f t) = task_id t"
    and "\<And>t. t \<in> set L \<Longrightarrow> find_task (task_id t) s = Some t \<and> same_identity t (f t) \<and>
           (row_ok t \<longrightarrow> row_ok (f t)) \<and> (row_ok t \<longrightarrow> cancelled_by t = None) \<and>
           legal (status t) st \<and> status (f t) = st"
  shows "repo_step\<^sup>*\<^sup>* s (fold (\<lambda>t s. log_task e st now (f t) (put_task (f t) s)) L s)"
  using assms
proof (induction L arbitrary: s)
  case (Cons t L)
  let ?s1 = "log_task e st now (f t) (put_task (f t) s)"
  from Cons.prems(4) [of t] Cons.prems(2) have "repo_step s ?s1"
    using step_move [of s t "f t" e now] by (auto simp: may_move_def intro: row_changeI)
  moreover have "repo_step\<^sup>*\<^sup>* ?s1 (fold (\<lambda>t s. log_task e st now (f t) (put_task (f t) s)) L ?s1)"
  proof (rule Cons.IH)
    fix u assume "u \<in> set L"
    with Cons.prems(1) have "task_id u \<noteq> task_id t" by (auto simp: image_iff)
    with Cons.prems(4) [of u] \<open>u \<in> set L\<close> Cons.prems(3)
    show "find_task (task_id u) ?s1 = Some u \<and> same_identity u (f u) \<and>
           (row_ok u \<longrightarrow> row_ok (f u)) \<and> (row_ok u \<longrightarrow> cancelled_by u = None) \<and>
           legal (status u) st \<and> status (f u) = st"
      by (simp add: find_task_put)
  qed (use Cons.prems in simp_all)
  ultimately show ?case by simp
qed simp

lemma filter_map_where:
  assumes "\<And>r. r \<in> set rs \<Longrightarrow> p r \<Longrightarrow> q (f r)" and "\<And>r. r \<in> set rs \<Longrightarrow> \<not> p r \<Longrightarrow> \<not> q r"
  shows "filter q (map_where p f rs) = map f (filter p rs)"
  using assms by (induction rs) (auto simp: row_simps)

text \<open>
  An update of every row with \<open>p\<close>, followed by an event for each row that a second query
  (by id and new status) reads back: the rows read are the rows written.
\<close>

lemma batch_run:
  assumes inv: "table_inv s" and nr: "st \<noteq> Running" and idf: "\<And>t. task_id (f t) = task_id t"
    and ok: "\<And>t. t \<in> set (tasks s) \<Longrightarrow> p t \<Longrightarrow> same_identity t (f t) \<and>
           (row_ok t \<longrightarrow> row_ok (f t)) \<and> (row_ok t \<longrightarrow> cancelled_by t = None) \<and>
           legal (status t) st \<and> status (f t) = st"
    and ids: "set ids = task_id ` set (filter p (tasks s))"
  defines "s1 \<equiv> snd (update_tasks p f s)"
  defines "rows \<equiv> select_tasks (\<lambda>t. task_id t \<in> set ids \<and> status t = st) s1"
  shows "rows = map f (filter p (tasks s))" and "repo_step\<^sup>*\<^sup>* s (log_all e st now rows s1)"
proof -
  let ?L = "filter p (tasks s)"
  have u: "unique_ids s" and d: "distinct (map task_id (tasks s))"
    using inv by (simp_all add: table_inv_def unique_ids_def)
  have key: "a = b" if "a \<in> set (tasks s)" "b \<in> set (tasks s)" "task_id a = task_id b" for a b
    using find_task_mem [OF u that(1)] find_task_mem [OF u that(2)] that(3) by (metis option.inject)
  have s1: "s1 = s\<lparr>tasks := map_where p f (tasks s)\<rparr>"
    by (simp add: s1_def update_tasks_def)
  show rows: "rows = map f ?L"
    unfolding rows_def select_tasks_def s1
  proof (simp, rule filter_map_where)
    fix r assume "r \<in> set (tasks s)" "p r"
    then show "task_id (f r) \<in> set ids \<and> status (f r) = st" using ok ids idf by auto
  next
    fix r assume "r \<in> set (tasks s)" "\<not> p r"
    then show "\<not> (task_id r \<in> set ids \<and> status r = st)" using key ids by auto
  qed
  have "map_where (\<lambda>r. r \<in> set ?L) f (tasks s) = map_where p f (tasks s)"
    by (auto simp: map_where_def)
  moreover have "distinct (map task_id ?L)" using d by (rule distinct_map_filter)
  ultimately have s1': "s1 = fold (\<lambda>t. put_task (f t)) ?L s"
    using fold_set_row [of task_id ?L "tasks s" f] d idf by (simp add: s1 fold_put_tasks)
  have "repo_step\<^sup>*\<^sup>* s (fold (\<lambda>t s. log_task e st now (f t) (put_task (f t) s)) ?L s)"
    using d nr idf ok find_task_mem [OF u] by (intro moves_run distinct_map_filter) auto
  then show "repo_step\<^sup>*\<^sup>* s (log_all e st now rows s1)"
    by (simp add: rows s1' fold_put_log)
qed

lemma cancel_all_queued_eq:
  fixes proj :: string and now :: time
  assumes "table_inv s"
  defines "p \<equiv> \<lambda>t. project_name t = proj \<and> status t = Queued"
  defines "f \<equiv> \<lambda>t. t\<lparr>status := Cancelled, cancelled_by := Some ''user'', finished_at := Some now, updated_at := now\<rparr>"
  shows "snd (cancel_all_queued proj now s) =
           log_all ''cancelled'' Cancelled now (map f (filter p (tasks s))) (snd (update_tasks p f s))"
    and "repo_step\<^sup>*\<^sup>* s (snd (cancel_all_queued proj now s))"
proof -
  have rows: "select_tasks (\<lambda>t. task_id t \<in> set (map task_id (select_tasks p s)) \<and> status t = Cancelled)
      (snd (update_tasks p f s)) = map f (filter p (tasks s))"
    and run: "repo_step\<^sup>*\<^sup>* s (log_all ''cancelled'' Cancelled now
      (select_tasks (\<lambda>t. task_id t \<in> set (map task_id (select_tasks p s)) \<and> status t = Cancelled)
        (snd (update_tasks p f s))) (snd (update_tasks p f s)))"
    by (rule batch_run [OF assms(1)]; auto simp: p_def f_def move_defs select_tasks_def)+
  have "snd (cancel_all_queued proj now s) =
      log_all ''cancelled'' Cancelled now
       (select_tasks (\<lambda>t. task_id t \<in> set (map task_id (select_tasks p s)) \<and> status t = Cancelled)
         (snd (update_tasks p f s))) (snd (update_tasks p f s))"
    by (simp add: cancel_all_queued_def p_def f_def Let_def update_tasks_def)
  with rows run show "snd (cancel_all_queued proj now s) =
           log_all ''cancelled'' Cancelled now (map f (filter p (tasks s))) (snd (update_tasks p f s))"
    and "repo_step\<^sup>*\<^sup>* s (snd (cancel_all_queued proj now s))" by simp_all
qed

interpretation cancel_all: task_transaction "\<lambda>s. snd (cancel_all_queued proj now s)" for proj now
  by unfold_locales (rule cancel_all_queued_eq(2))

lemma requeue_running_run: 
  assumes inv: "table_inv s"
  shows "repo_step\<^sup>*\<^sup>* s (snd (requeue_running limit now s))"
proof -
  define ids where "ids = map task_id (take (nat (clamp 1 5000 limit))
                       (order_asc updated_at (select_tasks (\<lambda>t. status t = Running) s)))"
  let ?p = "\<lambda>t. task_id t \<in> set ids \<and> status t = Running"
  have sub: "set ids \<subseteq> task_id ` set (filter (\<lambda>t. status t = Running) (tasks s))"
    by (auto simp: ids_def select_tasks_def dest!: in_set_takeD)
  have "set ids = task_id ` set (filter ?p (tasks s))"
    using sub by auto
  then have "repo_step\<^sup>*\<^sup>* s (log_all ''requeued'' Queued now
      (select_tasks (\<lambda>t. task_id t \<in> set ids \<and> status t = Queued) (snd (update_tasks ?p (requeue_row now) s)))
      (snd (update_tasks ?p (requeue_row now) s)))"
    by (intro batch_run(2) inv) (auto simp: requeue_row_def move_defs)
  then show ?thesis
    by (simp add: requeue_running_def Let_def ids_def [symmetric] update_tasks_def)
qed

interpretation requeue: task_transaction "\<lambda>s. snd (requeue_running limit now s)" for limit now
  by unfold_locales (rule requeue_running_run)

lemma requeue_single_run:
  assumes inv: "table_inv s"
  shows "any_step\<^sup>*\<^sup>* s (requeue_single_task tid now s)"
proof -
  have u: "unique_ids s" using inv by (simp add: table_inv_def)
  let ?f = "\<lambda>t. t\<lparr>status := Queued, started_at := None, updated_at := now\<rparr>"
  show ?thesis
  proof (cases "find_task tid s")
    case None
    with update_no_row [OF None, of "\<lambda>st. st = Running" ?f] show ?thesis
      by (simp add: requeue_single_task_def)
  next
    case (Some t)
    have "task_id (?f t) = tid" using find_task_SomeD [OF Some] by simp
    note eq = update_one_row [of s tid t ?f "\<lambda>st. st = Running", OF u Some this]
    show ?thesis
    proof (cases "status t = Running")
      case True
      with Some have "row_change s t (?f t)" by (intro row_changeI) (auto simp: move_defs)
      with True have "any_step s (put_task (?f t) s)"
        by (auto simp: any_step_def may_move_def intro: step_quiet)
      with True eq show ?thesis by (simp add: requeue_single_task_def)
    qed (use eq in \<open>simp add: requeue_single_task_def\<close>)
  qed
qed

subsection \<open>Any sequence of operations\<close>

datatype repo_op =
    OpEnqueue enqueue_args string
  | OpClaimNext string "string list"
  | OpMarkSucceeded string "dict option"
  | OpMarkFailed string string
  | OpCancelTask string
  | OpFinalizeCancelled string string
  | OpCancelAllQueued string
  | OpRequeueRunning int
  | OpPersistJob string string
  | OpPersistCall string int

fun run_op :: "repo_op \<times> time \<Rightarrow> db \<Rightarrow> db" where
  "run_op (OpEnqueue a uuid, now) s = snd (enqueue a uuid now s)"
| "run_op (OpClaimNext media full, now) s = snd (claim_next media full now s)"
| "run_op (OpMarkSucceeded tid result, now) s = snd (mark_succeeded tid result now s)"
| "run_op (OpMarkFailed tid msg, now) s = snd (mark_failed tid msg now s)"
| "run_op (OpCancelTask tid, now) s = snd (cancel_task tid now s)"
| "run_op (OpFinalizeCancelled tid by, now) s = snd (finalize_cancelled tid by now s)"
| "run_op (OpCancelAllQueued proj, now) s = snd (cancel_all_queued proj now s)"
| "run_op (OpRequeueRunning limit, now) s = snd (requeue_running limit now s)"
| "run_op (OpPersistJob tid job, now) s = persist_provider_job_id tid job now s"
| "run_op (OpPersistCall tid c, now) s = snd (persist_api_call_id tid c now s)"

interpretation op: task_transaction "run_op on" for "on"
proof
  fix s assume inv: "table_inv s"
  obtain o1 now where oo: "on = (o1, now)" by fastforce
  show "repo_step\<^sup>*\<^sup>* s (run_op on s)"
    unfolding oo using inv
    by (cases o1)
       (simp_all add: enqueue.run_steps claim_next.run_steps mark_succeeded.run_steps mark_failed.run_steps
         cancel_task.run_steps finalize.run_steps cancel_all.run_steps requeue.run_steps
         persist_job.run_steps persist_call.run_steps)
qed

definition run_ops :: "(repo_op \<times> time) list \<Rightarrow> db \<Rightarrow> db" where
  "run_ops ops s = fold run_op ops s"

interpretation ops: task_transaction "run_ops ops" for ops
proof
  fix s assume "table_inv s"
  then show "repo_step\<^sup>*\<^sup>* s (run_ops ops s)"
  proof (induction ops arbitrary: s)
    case (Cons x xs)
    from rtranclp_trans [OF op.run_steps [OF Cons.prems] Cons.IH [OF op.keeps_table [OF Cons.prems]]]
    show ?case by (simp add: run_ops_def)
  qed (simp add: run_ops_def)
qed

text \<open>The same with the worker's silent requeue between the operations.\<close>

datatype queue_op = RepoOp repo_op | RequeueSingle string

fun run_queue_op :: "queue_op \<times> time \<Rightarrow> db \<Rightarrow> db" where
  "run_queue_op (RepoOp p, now) s = run_op (p, now) s"
| "run_queue_op (RequeueSingle tid, now) s = requeue_single_task tid now s"

definition run_queue :: "(queue_op \<times> time) list \<Rightarrow> db \<Rightarrow> db" where
  "run_queue ops s = fold run_queue_op ops s"

lemma run_queue_op_steps: "table_inv s \<Longrightarrow> any_step\<^sup>*\<^sup>* s (run_queue_op x s)"
  by (cases x; cases "fst x") (auto simp: requeue_single_run op.any_run)

lemma run_queue_steps: "table_inv s \<Longrightarrow> any_step\<^sup>*\<^sup>* s (run_queue ops s)"
proof (induction ops arbitrary: s)
  case (Cons x xs)
  have "any_step\<^sup>*\<^sup>* s (run_queue_op x s)" by (rule run_queue_op_steps [OF Cons.prems])
  with Cons any_steps_table_inv [OF this Cons.prems] show ?case
    unfolding run_queue_def by (simp add: rtranclp_trans [of any_step s])
qed (simp add: run_queue_def)

lemma run_queue_table_inv: "table_inv s \<Longrightarrow> table_inv (run_queue ops s)"
  using run_queue_steps any_steps_table_inv by blast

lemma run_queue_later: "table_inv s \<Longrightarrow> later s (run_queue ops s)"
  using run_queue_steps any_steps_later by blast

end
