(* ===== verification/TaskProps.thy ===== *)
theory TaskProps
  imports TaskInv
begin

text \<open>
  The properties of the task queue's tables: the invariants of every reachable state, the
  contract of a claim, the race between the operations that end a task, enqueue's
  deduplication, the batch operations and the reads.
\<close>

subsection \<open>Sample data for the concrete instances\<close>

definition sample_args :: "string \<Rightarrow> string \<Rightarrow> string option \<Rightarrow> enqueue_args" where
  "sample_args proj res dep =
     \<lparr>ea_project_name = proj, ea_task_type = ''storyboard'', ea_media_type = ''image'',
      ea_resource_id = res, ea_payload = None, ea_script_file = None, ea_source = ''webui'',
      ea_dependency_task_id = dep, ea_dependency_group = None, ea_dependency_index = None,
      ea_user_id = ''default'', ea_provider_id = None\<rparr>"

definition sample_ops :: "(queue_op \<times> time) list" where
  "sample_ops =
     [(RepoOp (OpEnqueue (sample_args ''p'' ''S1'' None) ''a''), 1),
      (RepoOp (OpEnqueue (sample_args ''p'' ''S2'' (Some ''a'')) ''b''), 2)]"

definition sample_db :: db where
  "sample_db = run_queue sample_ops empty_db"

lemmas sample_simps = sample_db_def sample_ops_def sample_args_def run_queue_def enqueue_def
  new_task_def violates_unique_def log_task_def append_event_def insert_task_def empty_db_def
  dedupe_key_def Let_def find_task_def row_simps

lemma reachable_inv [simp]: "table_inv (run_queue ops empty_db)"
  by (rule run_queue_table_inv) simp

lemma reachable_parts [simp]:
  "unique_ids (run_queue ops empty_db)" "active_unique (run_queue ops empty_db)"
  "gated (run_queue ops empty_db)" "rows_ok (run_queue ops empty_db)"
  using reachable_inv [of ops] unfolding table_inv_def by blast+

lemma run_queue_append: "run_queue (ops @ more_ops) s = run_queue more_ops (run_queue ops s)"
  by (simp add: run_queue_def)

subsection \<open>Invariants of every reachable state\<close>

text \<open>C1. In every state the operations can reach, task ids are unique and at most one active
  task has a given dedupe key (project, type, resource, script).\<close>

theorem active_tasks_unique:
  "unique_ids (run_queue ops empty_db) \<and> active_unique (run_queue ops empty_db)"
  by simp

text \<open>C2. In every reachable state a task that was started (running, cancelling or succeeded)
  has no dependency, or a dependency that has succeeded.\<close>

theorem dependency_gating: "gated (run_queue ops empty_db)"
  by simp

text \<open>In every reachable state the columns of a row agree with its status: start and finish
  instants, error message and the author of a cancellation.\<close>

theorem row_columns_consistent: "rows_ok (run_queue ops empty_db)"
  by simp

text \<open>C3. The event log is a history of the tasks. After any operations of the repository the event ids increase, the
  statuses logged for a task are a legal path from queued, and the last one is the task's status. The worker's
  own requeue writes no event; with it, the ids still increase and only one thing is lost: a task that was put
  back is queued while its log ends with running, and its second start is logged as running after running.\<close>

theorem event_log_faithful: "log_inv (run_ops ops empty_db) \<and> queue_log_inv (run_queue queue_ops empty_db)"
proof
  show "log_inv (run_ops ops empty_db)" by (rule ops.keeps_log) simp_all
  show "queue_log_inv (run_queue queue_ops empty_db)"
    by (rule any_steps_queue_log [OF run_queue_steps]) simp_all
qed

text \<open>The worker's own requeue is not logged: a task it puts back is queued in the table
  while the log still ends with running.\<close>

theorem silent_requeue_diverges:
  "\<exists>ops t. find_task ''a'' (run_queue ops empty_db) = Some t \<and> status t = Queued \<and>
     last (trail ''a'' (run_queue ops empty_db)) = Running"
proof (intro exI conjI)
  let ?ops = "[(RepoOp (OpEnqueue (sample_args ''p'' ''S1'' None) ''a''), 1),
               (RepoOp (OpClaimNext ''image'' []), 2), (RequeueSingle ''a'', 3)]"
  show "find_task ''a'' (run_queue ?ops empty_db) = Some
         ((new_task (sample_args ''p'' ''S1'' None) ''a'' 1)\<lparr>updated_at := 3\<rparr>)"
    by code_simp
  show "status ((new_task (sample_args ''p'' ''S1'' None) ''a'' 1)\<lparr>updated_at := 3\<rparr>) = Queued"
    by (simp add: new_task_def)
  show "last (trail ''a'' (run_queue ?ops empty_db)) = Running"
    by code_simp
qed

text \<open>A task that reached a terminal status keeps it, and keeps its identity columns, through
  every further operation.\<close>

theorem terminal_is_final:
  assumes "find_task tid (run_queue ops empty_db) = Some t" and "is_terminal (status t)"
  shows "\<exists>t'. find_task tid (run_queue (ops @ further) empty_db) = Some t' \<and>
           status t' = status t \<and> same_identity t t'"
proof -
  let ?s = "run_queue ops empty_db"
  have "later ?s (run_queue further ?s)" by (rule run_queue_later) simp
  with assms show ?thesis unfolding run_queue_append later_def row_later_def by blast
qed

theorem terminal_is_final_witness:
  "\<exists>t'. find_task ''b'' (run_queue (sample_ops @ [(RepoOp (OpCancelTask ''a''), 3)] @
            [(RepoOp (OpClaimNext ''image'' []), 4)]) empty_db) = Some t' \<and> status t' = Cancelled"
proof -
  have "map_option status (find_task ''b'' (run_queue (sample_ops @ [(RepoOp (OpCancelTask ''a''), 3)]) empty_db))
          = Some Cancelled" by code_simp
  then obtain t where t: "find_task ''b'' (run_queue (sample_ops @ [(RepoOp (OpCancelTask ''a''), 3)]) empty_db) = Some t"
    and st: "status t = Cancelled" by auto
  from terminal_is_final [OF t, of "[(RepoOp (OpClaimNext ''image'' []), 4)]"] st
  show ?thesis by (auto simp: is_terminal_def)
qed

subsection \<open>Claims\<close>

definition run_row :: "time \<Rightarrow> task \<Rightarrow> task" where
  "run_row now t = t\<lparr>status := Running, started_at := Some now, updated_at := now\<rparr>"

lemma claim_commit_eq:
  assumes "unique_ids s"
  shows "claim_commit tid now s =
           (case find_task tid s of
              None \<Rightarrow> (None, s)
            | Some t \<Rightarrow> if status t = Queued
                then (Some (task_to_dict (run_row now t)),
                      log_task ''running'' Running now (run_row now t) (put_task (run_row now t) s))
                else (None, s))"
  unfolding claim_commit_def run_row_def [symmetric]
  by (subst guarded_update_eq [OF assms]) (auto simp: run_row_def split: option.splits)

lemma run_row_simps [simp]: "task_id (run_row now t) = task_id t" "status (run_row now t) = Running"
  by (simp_all add: run_row_def)

lemma td_task_id [simp]: "td_task_id (task_to_dict t) = task_id t" "td_status (task_to_dict t) = status t"
  by (simp_all add: task_to_dict_def)

lemma claim_select_cases:
  assumes "unique_ids s"
  shows "case claim_select media full s of
           None \<Rightarrow> filter (claimable media full s) (tasks s) = []
         | Some tid \<Rightarrow> \<exists>t. find_task tid s = Some t \<and> claimable media full s t \<and>
             (\<forall>u\<in>set (filter (claimable media full s) (tasks s)). queued_at t \<le> queued_at u)"
proof (cases "order_asc queued_at (select_tasks (claimable media full s) s)")
  case Nil
  then show ?thesis by (simp add: claim_select_def select_tasks_def)
next
  case (Cons t ts)
  then have "t \<in> set (order_asc queued_at (select_tasks (claimable media full s) s))" by simp
  then have "t \<in> set (tasks s)" "claimable media full s t" by (simp_all add: select_tasks_def)
  with find_task_mem [OF assms this(1)] Cons order_asc_first [OF Cons] show ?thesis
    by (auto simp: claim_select_def select_tasks_def)
qed

text \<open>C6. A claim on any reachable state takes the task that has waited longest among those of
  the media type that are queued, not excluded by their provider and ready; it marks that
  task running and no other changes. It answers none only when there is no such task, and
  then nothing changes.\<close>

theorem claim_oldest_ready:
  assumes "s = run_queue ops empty_db"
  shows "case claim_next media full now s of
           (None, s') \<Rightarrow> s' = s \<and> filter (claimable media full s) (tasks s) = []
         | (Some d, s') \<Rightarrow>
             (\<exists>t. find_task (td_task_id d) s = Some t \<and> claimable media full s t \<and>
                (\<forall>u\<in>set (filter (claimable media full s) (tasks s)). queued_at t \<le> queued_at u) \<and>
                find_task (td_task_id d) s' = Some (run_row now t)) \<and>
             (\<forall>tid. tid \<noteq> td_task_id d \<longrightarrow> find_task tid s' = find_task tid s)"
proof -
  have u: "unique_ids s" using assms by simp
  show ?thesis
  proof (cases "claim_select media full s")
    case None
    with claim_select_cases [OF u, of media full] show ?thesis by (simp add: claim_next_def)
  next
    case (Some tid)
    with claim_select_cases [OF u, of media full] obtain t where t: "find_task tid s = Some t"
        "claimable media full s t"
        "\<forall>u\<in>set (filter (claimable media full s) (tasks s)). queued_at t \<le> queued_at u" by auto
    then have "task_id t = tid" by (simp add: find_task_SomeD)
    with t Some show ?thesis
      by (simp add: claim_next_def claim_commit_eq [OF u] claimable_def find_task_put)
  qed
qed

theorem claim_oldest_ready_witness:
  "\<exists>t. find_task ''a'' sample_db = Some t \<and>
     find_task ''a'' (snd (claim_next ''image'' [] 3 sample_db)) = Some (run_row 3 t) \<and>
     find_task ''b'' (snd (claim_next ''image'' [] 3 sample_db)) = find_task ''b'' sample_db"
proof -
  have "map_option td_task_id (fst (claim_next ''image'' [] 3 sample_db)) = Some ''a''" by code_simp
  with claim_oldest_ready [OF sample_db_def, of "''image''" "[]" 3] show ?thesis
    by (auto split: prod.splits option.splits dest!: spec [of _ "''b''"])
qed

text \<open>The two statements of a claim may be separated by any operations of other workers:
  committing a stale selection keeps the invariant of the table, and once one worker has
  committed a task, committing the same task again changes nothing and answers none.\<close>

theorem stale_claim_safe:
  assumes "claim_select media full (run_queue ops empty_db) = Some tid"
    and "s = run_queue (ops @ further) empty_db"
    and "claim_commit tid now s = (r, s1)"
  shows "table_inv s1 \<and> (r = None \<or> claim_commit tid now' s1 = (None, s1)) \<and>
         (r \<noteq> None \<or> s1 = s)"
proof -
  let ?s0 = "run_queue ops empty_db"
  obtain t where t: "find_task tid ?s0 = Some t" "claimable media full ?s0 t"
    using claim_select_SomeD [OF assms(1)] by auto
  have l: "later ?s0 s" unfolding assms(2) run_queue_append by (rule run_queue_later) simp
  then obtain t' where t': "find_task tid s = Some t'" "row_later t t'"
    using t(1) by (auto simp: later_def)
  have "dependency_ready s t'"
    using dependency_ready_later [OF l] t(2) t'(2) dependency_ready_identity [of t t' s]
    by (simp add: claimable_def row_later_def)
  with t'(1) have run: "repo_step\<^sup>*\<^sup>* s (snd (claim_commit tid now s))"
    by (intro claim_commit_run) (simp_all add: assms(2))
  then have inv: "table_inv s1"
    using any_steps_table_inv [OF repo_any [OF run]] assms(2,3) by simp
  have u: "unique_ids s" "unique_ids s1" using inv by (simp_all add: assms(2) table_inv_def)
  have "task_id t' = tid" using find_task_SomeD [OF t'(1)] by simp
  with assms(3) t'(1) inv show ?thesis
    by (auto simp: claim_commit_eq [OF u(1)] claim_commit_eq [OF u(2)] find_task_put split: if_splits)
qed

theorem stale_claim_safe_witness:
  "\<exists>d s1. claim_commit ''a'' 4 (run_queue (sample_ops @ [(RepoOp (OpPersistJob ''a'' ''j''), 3)]) empty_db)
             = (Some d, s1) \<and> table_inv s1 \<and> claim_commit ''a'' 5 s1 = (None, s1)"
proof -
  let ?s = "run_queue (sample_ops @ [(RepoOp (OpPersistJob ''a'' ''j''), 3)]) empty_db"
  have sel: "claim_select ''image'' [] (run_queue sample_ops empty_db) = Some ''a''" by code_simp
  obtain r s1 where c: "claim_commit ''a'' 4 ?s = (r, s1)" by fastforce
  have "fst (claim_commit ''a'' 4 ?s) \<noteq> None" by code_simp
  with c obtain d where "r = Some d" by auto
  with stale_claim_safe [OF sel refl c, of 5] c show ?thesis by auto
qed

subsection \<open>The operations that end a task\<close>

lemma mark_succeeded_eq:
  assumes "unique_ids s"
  shows "mark_succeeded tid result now s =
     (case find_task tid s of
        None \<Rightarrow> (0, s)
      | Some t \<Rightarrow> if status t = Running
          then (let t' = t\<lparr>status := Succeeded, result_json := json_dumps (JObj (or_empty result)),
                           error_message := None, finished_at := Some now, updated_at := now\<rparr>
                in (1, log_task ''succeeded'' Succeeded now t' (put_task t' s)))
          else (0, s))"
  unfolding mark_succeeded_def
  by (subst guarded_update_eq [OF assms]) (auto simp: Let_def split: option.splits)

lemma mark_failed_running_eq:
  assumes "unique_ids s"
  shows "mark_failed_running tid msg now s =
     (case find_task tid s of
        None \<Rightarrow> (0, s)
      | Some t \<Rightarrow> if status t = Running
          then (1, log_task ''failed'' Failed now (fail_row msg now t) (put_task (fail_row msg now t) s))
          else (0, s))"
  unfolding mark_failed_running_def
  by (subst guarded_update_eq [OF assms]) (auto simp: fail_row_def split: option.splits)

lemma mark_cancelled_row_eq:
  assumes "unique_ids s"
  shows "mark_cancelled_row tid by now s =
     (case find_task tid s of
        None \<Rightarrow> (None, s)
      | Some t \<Rightarrow> if is_active (status t)
          then (Some (task_to_dict (cancel_row by now t)),
                log_task ''cancelled'' Cancelled now (cancel_row by now t) (put_task (cancel_row by now t) s))
          else (None, s))"
  unfolding mark_cancelled_row_def
  by (subst guarded_update_eq [OF assms]) (auto simp: cancel_row_def split: option.splits)

text \<open>The operations that end a task exclude each other (the 0-rows protocol): once a task is
  in a terminal status, at any later moment succeeding it, failing it or finalizing its
  cancellation reports no rows and leaves the database exactly as it was.\<close>

theorem one_outcome:
  assumes "find_task tid (run_queue ops empty_db) = Some t" and "is_terminal (status t)"
    and "s = run_queue (ops @ further) empty_db"
  shows "mark_succeeded tid result now s = (0, s) \<and> mark_failed tid msg now s = (0, s) \<and>
         finalize_cancelled tid by now s = ((0, []), s)"
proof -
  have u: "unique_ids s" by (simp add: assms(3))
  have "later (run_queue ops empty_db) s"
    unfolding assms(3) run_queue_append by (rule run_queue_later) simp
  with assms(1,2) obtain t' where t': "find_task tid s = Some t'" "is_terminal (status t')"
    by (fastforce simp: later_def row_later_def)
  then have "status t' \<noteq> Running" "\<not> is_active (status t')"
    by (auto simp: is_terminal_def)
  with t'(1) show ?thesis
    by (simp add: mark_succeeded_eq [OF u] mark_failed_def mark_failed_running_eq [OF u]
        finalize_cancelled_def mark_cancelled_def mark_cancelled_row_eq [OF u] empty_acc_def)
qed

definition finished_ops :: "(queue_op \<times> time) list" where
  "finished_ops = sample_ops @ [(RepoOp (OpClaimNext ''image'' []), 3),
     (RepoOp (OpMarkSucceeded ''a'' None), 4)]"

theorem one_outcome_witness:
  "finalize_cancelled ''a'' ''user'' 6 (run_queue (finished_ops @ [(RepoOp (OpCancelTask ''a''), 5)]) empty_db)
     = ((0, []), run_queue (finished_ops @ [(RepoOp (OpCancelTask ''a''), 5)]) empty_db)"
proof -
  have "map_option status (find_task ''a'' (run_queue finished_ops empty_db)) = Some Succeeded" by code_simp
  then obtain t where "find_task ''a'' (run_queue finished_ops empty_db) = Some t" "status t = Succeeded" by auto
  with one_outcome [OF this(1) _ refl, where further = "[(RepoOp (OpCancelTask ''a''), 5)]"] show ?thesis
    by (simp add: is_terminal_def)
qed

subsection \<open>Enqueue\<close>

lemma active_key_unique:
  assumes "table_inv s"
  shows "length (filter (\<lambda>t. is_active (status t) \<and> dedupe_key t = k) (tasks s)) \<le> 1"
proof -
  let ?l = "filter (\<lambda>t. is_active (status t) \<and> dedupe_key t = k) (tasks s)"
  have "distinct (tasks s)"
    using assms by (auto simp: table_inv_def unique_ids_def distinct_map)
  then have d: "distinct ?l" by simp
  have "x = y" if "x \<in> set ?l" "y \<in> set ?l" for x y
    using assms that unfolding table_inv_def active_unique_def by auto
  then have "card (set ?l) \<le> 1"
    by (intro card_le_Suc0_iff_eq [THEN iffD2, unfolded One_nat_def [symmetric]]) auto
  with d show ?thesis by (simp only: distinct_card)
qed

lemma find_active_duplicate_eq:
  "find_active_duplicate a s =
     (case order_desc queued_at (filter (\<lambda>t. is_active (status t) \<and>
             dedupe_key t = dedupe_key (new_task a uuid now)) (tasks s)) of
        [] \<Rightarrow> None | existing # _ \<Rightarrow> Some existing)"
proof -
  have "(\<lambda>t. project_name t = ea_project_name a \<and> task_type t = ea_task_type a \<and>
             resource_id t = ea_resource_id a \<and> coalesce (script_file t) [] = coalesce (ea_script_file a) [] \<and>
             is_active (status t)) =
        (\<lambda>t. is_active (status t) \<and> dedupe_key t = dedupe_key (new_task a uuid now))"
    by (auto simp: dedupe_key_def new_task_def)
  then show ?thesis by (simp add: find_active_duplicate_def select_tasks_def)
qed

text \<open>Enqueuing with a fresh id on a reachable state: if an active task has the same dedupe
  key there is exactly one, its id and status are returned and nothing is written; otherwise
  one queued row and its event are added.\<close>

theorem enqueue_dedupes:
  assumes "s = run_queue ops empty_db" and "find_task uuid s = None"
  shows "case filter (\<lambda>t. is_active (status t) \<and> dedupe_key t = dedupe_key (new_task a uuid now)) (tasks s) of
           [] \<Rightarrow> enqueue a uuid now s =
             (Inr \<lparr>er_task_id = uuid, er_status = Queued, er_deduped = False, er_existing_task_id = None\<rparr>,
              log_task ''queued'' Queued now (new_task a uuid now) (insert_task (new_task a uuid now) s))
         | t # ts \<Rightarrow> ts = [] \<and> enqueue a uuid now s =
             (Inr \<lparr>er_task_id = task_id t, er_status = status t, er_deduped = True,
                   er_existing_task_id = Some (task_id t)\<rparr>, s)"
proof -
  let ?l = "filter (\<lambda>t. is_active (status t) \<and> dedupe_key t = dedupe_key (new_task a uuid now)) (tasks s)"
  have len: "length ?l \<le> 1" by (rule active_key_unique) (simp add: assms(1))
  have viol: "violates_unique (new_task a uuid now) s \<longleftrightarrow> ?l \<noteq> []"
    using assms(2) by (auto simp: violates_unique_def find_task_None_iff filter_empty_conv)
  show ?thesis
  proof (cases ?l)
    case Nil
    with viol show ?thesis by (simp add: enqueue_def Let_def)
  next
    case (Cons t ts)
    with len have "ts = []" by simp
    with Cons viol show ?thesis
      by (simp add: enqueue_def find_active_duplicate_eq [of a s uuid now] order_desc_def)
  qed
qed

theorem enqueue_dedupes_witness:
  "enqueue (sample_args ''p'' ''S2'' None) ''c'' 3 sample_db =
     (Inr \<lparr>er_task_id = ''b'', er_status = Queued, er_deduped = True,
           er_existing_task_id = Some ''b''\<rparr>, sample_db)"
proof -
  have none: "find_task ''c'' sample_db = None" by code_simp
  have "map task_id (filter (\<lambda>t. is_active (status t) \<and>
          dedupe_key t = dedupe_key (new_task (sample_args ''p'' ''S2'' None) ''c'' 3)) (tasks sample_db)) = [''b'']"
       "map status (filter (\<lambda>t. is_active (status t) \<and>
          dedupe_key t = dedupe_key (new_task (sample_args ''p'' ''S2'' None) ''c'' 3)) (tasks sample_db)) = [Queued]"
    by code_simp+
  with enqueue_dedupes [OF sample_db_def none, of "sample_args ''p'' ''S2'' None" 3] show ?thesis
    by (auto split: list.splits)
qed

subsection \<open>Cancelling\<close>

lemma log_all_tasks [simp]: "tasks (log_all e st now rows s) = tasks s"
  unfolding log_all_def by (induction rows arbitrary: s) simp_all

text \<open>Cancelling all of a project's queued tasks reports exactly the number its preview shows,
  never a skipped one, turns exactly those rows to cancelled and leaves none queued.\<close>

theorem cancel_all_exact:
  assumes "s = run_queue ops empty_db"
  shows "fst (cancel_all_queued proj now s) = (get_cancel_all_preview proj s, 0) \<and>
         tasks (snd (cancel_all_queued proj now s)) =
           map (\<lambda>t. if project_name t = proj \<and> status t = Queued
                    then t\<lparr>status := Cancelled, cancelled_by := Some ''user'',
                           finished_at := Some now, updated_at := now\<rparr> else t) (tasks s) \<and>
         get_cancel_all_preview proj (snd (cancel_all_queued proj now s)) = 0"
proof -
  have inv: "table_inv s" using assms by simp
  let ?f = "\<lambda>t. if project_name t = proj \<and> status t = Queued
                 then t\<lparr>status := Cancelled, cancelled_by := Some ''user'',
                        finished_at := Some now, updated_at := now\<rparr> else t"
  have "fst (cancel_all_queued proj now s) = (get_cancel_all_preview proj s, 0)"
    by (simp add: cancel_all_queued_def get_cancel_all_preview_def select_tasks_def update_tasks_def)
  moreover have t: "tasks (snd (cancel_all_queued proj now s)) = map ?f (tasks s)"
    by (simp add: cancel_all_queued_eq(1) [OF inv] update_tasks_def map_where_def)
  moreover have "\<not> (project_name (?f t) = proj \<and> status (?f t) = Queued)" for t by simp
  then have "filter (\<lambda>t. project_name t = proj \<and> status t = Queued) (map ?f (tasks s)) = []"
    by (simp only: filter_empty_conv set_map ball_simps) blast
  then have "get_cancel_all_preview proj (snd (cancel_all_queued proj now s)) = 0"
    by (simp only: get_cancel_all_preview_def select_tasks_def t list.size)
  ultimately show ?thesis by blast
qed

theorem cancel_all_exact_witness:
  "fst (cancel_all_queued ''p'' 3 sample_db) = (2, 0)"
proof -
  have "get_cancel_all_preview ''p'' sample_db = 2" by code_simp
  with cancel_all_exact [OF sample_db_def, of "''p''" 3] show ?thesis by simp
qed

end
