(* ===== verification/TaskReads.thy ===== *)
theory TaskReads
  imports TaskProps
begin

text \<open>
  What readers of the queue see: the statistics, the pages of the task list, and the event
  stream of \<open>server/routers/tasks.py\<close>, which polls \<open>get_events_since\<close> with a moving cursor
  while other transactions append to the log.
\<close>

subsection \<open>The event stream\<close>

definition matching :: "int \<Rightarrow> string option \<Rightarrow> db \<Rightarrow> task_event list" where
  "matching c proj s =
     filter (\<lambda>e. c < int (ev_id e) \<and> text_filter proj (ev_project_name e)) (events s)"

text \<open>
  The start of a stream: the cursor the client asks for, and the snapshot it is sent first. The three
  reads of the snapshot are transactions of their own.
\<close>

definition parse_last_event_id :: "string option \<Rightarrow> int option" where
  "parse_last_event_id value =
     Option.bind value (\<lambda>v. if strip v = [] then None else map_option (max 0) (py_int (strip v)))"

definition stream_cursor :: "int option \<Rightarrow> string option \<Rightarrow> int" where
  "stream_cursor last_event_id header =
     max 0 (case last_event_id of Some c \<Rightarrow> c | None \<Rightarrow> coalesce (parse_last_event_id header) 0)"

definition resume_requested :: "int option \<Rightarrow> string option \<Rightarrow> bool" where
  "resume_requested last_event_id header = (last_event_id \<noteq> None \<or> parse_last_event_id header \<noteq> None)"

record stream_snapshot =
  sn_tasks :: "task_dict list"
  sn_stats :: task_stats
  sn_last_event_id :: int

definition open_stream ::
  "string option \<Rightarrow> int option \<Rightarrow> string option \<Rightarrow> db \<Rightarrow> db \<Rightarrow> db \<Rightarrow> stream_snapshot" where
  "open_stream proj last_event_id header s0 s1 s2 =
     (let latest = int (get_latest_event_id proj s0)
      in \<lparr>sn_tasks = get_recent_tasks_snapshot proj 1000 s1, sn_stats = get_stats proj s2,
          sn_last_event_id = (if resume_requested last_event_id header then max (stream_cursor last_event_id header) latest
                              else latest)\<rparr>)"

text \<open>One turn of the loop of \<open>stream_tasks\<close>: the events read are sent in order and the cursor
  follows the last one.\<close>

definition stream_poll :: "string option \<Rightarrow> db \<Rightarrow> int \<times> task_event list \<Rightarrow> int \<times> task_event list" where
  "stream_poll proj s st =
     (case st of (cursor, sent) \<Rightarrow>
        (let evs = get_events_since cursor proj 200 s in
         if evs = [] then (cursor, sent) else (int (ev_id (last evs)), sent @ evs)))"

text \<open>A stream whose polls alternate with batches of operations.\<close>

fun stream_run ::
  "string option \<Rightarrow> (queue_op \<times> time) list list \<Rightarrow> db \<times> int \<times> task_event list \<Rightarrow>
   db \<times> int \<times> task_event list" where
  "stream_run proj [] st = st"
| "stream_run proj (ops # rest) (s, c, sent) =
     (let s' = run_queue ops s in stream_run proj rest (s', stream_poll proj s' (c, sent)))"

lemma matching_sorted: "event_ids_ok s \<Longrightarrow> sorted_wrt (<) (map ev_id (matching c proj s))"
  unfolding event_ids_ok_def matching_def by (auto simp: sorted_wrt_map intro: sorted_wrt_filter)

lemma sort_key_strict:
  assumes "sorted_wrt (<) (map ev_id es)"
  shows "order_asc (\<lambda>e. int (ev_id e)) es = es"
proof -
  from assms have "sorted (map (\<lambda>e. int (ev_id e)) es)"
    by (auto simp: sorted_wrt_map elim: sorted_wrt_mono_rel [rotated])
  then show ?thesis by (simp add: order_asc_def sorted_sort_id sort_key_id_if_sorted)
qed

lemma get_events_since_eq:
  "event_ids_ok s \<Longrightarrow> get_events_since c proj limit s = take (nat (clamp 1 1000 limit)) (matching c proj s)"
  unfolding get_events_since_def matching_def [symmetric]
  by (simp add: sort_key_strict matching_sorted)

lemma filter_after_split:
  assumes "sorted_wrt (<) (map ev_id (bs @ x # ds))"
  shows "filter (\<lambda>e. ev_id x < ev_id e) (bs @ x # ds) = ds"
proof -
  from assms have "\<forall>b\<in>set bs. ev_id b < ev_id x" "\<forall>d\<in>set ds. ev_id x < ev_id d"
    by (simp_all add: sorted_wrt_append sorted_wrt_map)
  then show ?thesis by (force simp: filter_empty_conv filter_id_conv)
qed

lemma filter_after_take:
  assumes "sorted_wrt (<) (map ev_id es)" and "take n es \<noteq> []"
  shows "filter (\<lambda>e. ev_id (last (take n es)) < ev_id e) es = drop n es"
proof -
  have "es = butlast (take n es) @ last (take n es) # drop n es"
    using assms(2) by (metis append.assoc append_Cons append_Nil append_butlast_last_id append_take_drop_id)
  with assms(1) filter_after_split [of "butlast (take n es)" "last (take n es)" "drop n es"]
  show ?thesis by simp
qed

lemma matching_narrow: "c \<le> c' \<Longrightarrow> matching c' proj s = filter (\<lambda>e. c' < int (ev_id e)) (matching c proj s)"
  by (auto simp: matching_def intro: filter_cong)

text \<open>The invariant of a stream: what was sent, followed by what its cursor still selects, is
  what the cursor it began with selects.\<close>

definition stream_inv :: "string option \<Rightarrow> int \<Rightarrow> db \<times> int \<times> task_event list \<Rightarrow> bool" where
  "stream_inv proj c0 st =
     (case st of (s, c, sent) \<Rightarrow>
        table_inv s \<and> event_ids_ok s \<and> sent @ matching c proj s = matching c0 proj s \<and>
        (c = c0 \<or> (c0 \<le> c \<and> (\<exists>e\<in>set (events s). c = int (ev_id e)))))"

lemma stream_poll_inv:
  assumes "stream_inv proj c0 (s, c, sent)"
  shows "stream_inv proj c0 (s, stream_poll proj s (c, sent))"
proof -
  from assms have ids: "event_ids_ok s" by (simp add: stream_inv_def)
  define m where "m = matching c proj s"
  have srt: "sorted_wrt (<) (map ev_id m)" unfolding m_def by (rule matching_sorted [OF ids])
  have evs: "get_events_since c proj 200 s = take 200 m"
    by (simp add: get_events_since_eq [OF ids] clamp_def m_def)
  show ?thesis
  proof (cases "take 200 m = []")
    case True
    with assms evs show ?thesis by (simp add: stream_poll_def)
  next
    case False
    let ?e = "last (take 200 m)"
    have mem: "?e \<in> set m" using last_in_set [OF False] by (rule in_set_takeD)
    then have in_log: "?e \<in> set (events s)" and gt: "c < int (ev_id ?e)"
      by (simp_all add: m_def matching_def)
    have "matching (int (ev_id ?e)) proj s = drop 200 m"
      using filter_after_take [OF srt False] gt by (simp add: matching_narrow [of c "int (ev_id ?e)"] m_def [symmetric])
    moreover have "stream_poll proj s (c, sent) = (int (ev_id ?e), sent @ take 200 m)"
      using False by (simp add: stream_poll_def evs Let_def)
    moreover have "(sent @ take 200 m) @ drop 200 m = matching c0 proj s"
      using assms by (simp add: stream_inv_def m_def)
    moreover have "table_inv s" "c0 \<le> c" using assms by (auto simp: stream_inv_def)
    ultimately show ?thesis using ids in_log gt by (auto simp: stream_inv_def)
  qed
qed

lemma stream_grow_inv:
  assumes "stream_inv proj c0 (s, c, sent)"
  shows "stream_inv proj c0 (run_queue ops s, c, sent)"
proof -
  let ?s = "run_queue ops s"
  from assms have inv: "table_inv s" and ids: "event_ids_ok s"
    and eq: "sent @ matching c proj s = matching c0 proj s"
    and cur: "c = c0 \<or> (c0 \<le> c \<and> (\<exists>e\<in>set (events s). c = int (ev_id e)))"
    by (simp_all add: stream_inv_def)
  have inv': "table_inv ?s" by (rule run_queue_table_inv [OF inv])
  have ids': "event_ids_ok ?s"
    using run_queue_steps [OF inv, of ops] ids by (induction rule: rtranclp_induct) (auto intro: any_step_event_ids)
  obtain new where new: "events ?s = events s @ new"
    using run_queue_later [OF inv, of ops] by (auto simp: later_def elim: prefixE)
  have after: "ev_id e < ev_id n" if "e \<in> set (events s)" "n \<in> set new" for e n
    using ids' that by (auto simp: event_ids_ok_def new sorted_wrt_append)
  have same: "filter (\<lambda>e. c < int (ev_id e) \<and> text_filter proj (ev_project_name e)) new =
      filter (\<lambda>e. c0 < int (ev_id e) \<and> text_filter proj (ev_project_name e)) new"
    using cur after by (intro filter_cong) fastforce+
  have "sent @ matching c proj ?s = matching c0 proj ?s"
    using eq by (simp add: matching_def new same)
  with inv' ids' cur new show ?thesis by (auto simp: stream_inv_def)
qed

lemma stream_run_inv:
  "stream_inv proj c0 st \<Longrightarrow> stream_inv proj c0 (stream_run proj batches st)"
proof (induction proj batches st rule: stream_run.induct)
  case (2 proj ops rest s c sent)
  then show ?case by (simp add: Let_def stream_poll_inv stream_grow_inv)
qed simp

lemma stream_run_append:
  "stream_run proj (bs @ cs) st = stream_run proj cs (stream_run proj bs st)"
  by (induction proj bs st rule: stream_run.induct) (simp_all add: Let_def)

text \<open>While nothing is written, k polls send the next k batches of the log.\<close>

lemma quiet_polls:
  assumes "stream_inv proj c0 (s, c, sent)"
  shows "\<exists>c'. stream_run proj (replicate k []) (s, c, sent) = (s, c', sent @ take (200 * k) (matching c proj s))"
  using assms
proof (induction k arbitrary: c sent)
  case (Suc k)
  define m where "m = matching c proj s"
  from Suc.prems have ids: "event_ids_ok s" by (simp add: stream_inv_def)
  then have srt: "sorted_wrt (<) (map ev_id m)" unfolding m_def by (rule matching_sorted)
  have evs: "get_events_since c proj 200 s = take 200 m" by (simp add: get_events_since_eq [OF ids] clamp_def m_def)
  obtain c1 where p: "stream_poll proj s (c, sent) = (c1, sent @ take 200 m)" and rest: "matching c1 proj s = drop 200 m"
  proof (cases "take 200 m = []")
    case True
    then have "m = []" by (cases m) auto
    then show ?thesis by (intro that [of c]) (simp_all add: stream_poll_def evs m_def [symmetric])
  next
    case False
    let ?e = "last (take 200 m)"
    have "c < int (ev_id ?e)" using in_set_takeD [OF last_in_set [OF False]] by (simp add: m_def matching_def)
    then have "matching (int (ev_id ?e)) proj s = drop 200 m"
      using filter_after_take [OF srt False] by (simp add: matching_narrow [of c "int (ev_id ?e)"] m_def [symmetric])
    with False show ?thesis by (intro that [of "int (ev_id ?e)"]) (simp_all add: stream_poll_def evs Let_def)
  qed
  have "stream_inv proj c0 (s, c1, sent @ take 200 m)"
    using stream_poll_inv [OF Suc.prems] p by simp
  from Suc.IH [OF this] obtain c' where
    "stream_run proj (replicate k []) (s, c1, sent @ take 200 m) = (s, c', (sent @ take 200 m) @ take (200 * k) (drop 200 m))"
    by (auto simp: rest)
  moreover have "take 200 m @ take (200 * k) (drop 200 m) = take (200 * Suc k) m" by (simp add: take_add)
  ultimately show ?case using p by (simp add: run_queue_def m_def [symmetric])
qed simp

lemma latest_upper: "e \<in> set (events s) \<Longrightarrow> text_filter proj (ev_project_name e) \<Longrightarrow> ev_id e \<le> get_latest_event_id proj s"
  unfolding get_latest_event_id_def by (simp add: Max.set_eq_fold [symmetric] del: Max.set_eq_fold)

lemma latest_cases: "get_latest_event_id proj s = 0 \<or> (\<exists>e\<in>set (events s). get_latest_event_id proj s = ev_id e)"
proof -
  have "fold max xs n = n \<or> fold max xs n \<in> set xs" for xs and n :: nat
    by (induction xs arbitrary: n) (auto simp: max_def split: if_splits)
  from this [of "map ev_id (filter (\<lambda>e. text_filter proj (ev_project_name e)) (events s))" 0] show ?thesis
    by (auto simp: get_latest_event_id_def)
qed

text \<open>The cursor of the snapshot separates what was logged before the stream was opened from what comes after.\<close>

lemma opening_cursor:
  assumes ids: "event_ids_ok s" and ev: "events s = events s0 @ new"
  shows "matching (sn_last_event_id (open_stream proj q h s0 s1 s2)) proj s =
    filter (\<lambda>e. (resume_requested q h \<longrightarrow> stream_cursor q h < int (ev_id e)) \<and> 0 < ev_id e \<and> text_filter proj (ev_project_name e)) new"
proof -
  let ?c = "sn_last_event_id (open_stream proj q h s0 s1 s2)" and ?l = "get_latest_event_id proj s0"
  have c: "?c < int n \<longleftrightarrow> (resume_requested q h \<longrightarrow> stream_cursor q h < int n) \<and> ?l < n" for n
    by (auto simp: open_stream_def Let_def)
  have after: "ev_id e < ev_id n" if "e \<in> set (events s0)" "n \<in> set new" for e n
    using ids that by (auto simp: event_ids_ok_def ev sorted_wrt_append)
  have "?l < ev_id n \<longleftrightarrow> 0 < ev_id n" if "n \<in> set new" for n
    using latest_cases [of proj s0] after [OF _ that] by (auto intro: gr0I)
  moreover have "\<not> ?l < ev_id e" if "e \<in> set (events s0)" "text_filter proj (ev_project_name e)" for e
    using latest_upper [OF that] by simp
  ultimately have "filter (\<lambda>e. ?c < int (ev_id e) \<and> text_filter proj (ev_project_name e)) (events s0) = []"
    and "filter (\<lambda>e. ?c < int (ev_id e) \<and> text_filter proj (ev_project_name e)) new = filter (\<lambda>e. (resume_requested q h \<longrightarrow>
      stream_cursor q h < int (ev_id e)) \<and> 0 < ev_id e \<and> text_filter proj (ev_project_name e)) new"
    by (auto simp: c filter_empty_conv intro!: filter_cong)
  then show ?thesis by (simp add: matching_def ev)
qed

lemma prefix_between:
  "prefix (sent @ take n m) (sent @ m)" "prefix (take n (sent @ m)) (sent @ take n m)"
proof -
  show "prefix (sent @ take n m) (sent @ m)" by (simp add: take_is_prefix)
  have "take (n - length sent) m = take (n - length sent) (take n m)" by simp
  then show "prefix (take n (sent @ m)) (sent @ take n m)"
    by (cases "length sent \<le> n") (simp_all add: take_is_prefix prefix_prefix del: take_take)
qed

text \<open>C7. A stream misses nothing from its opening on and sees nothing twice. Whatever cursor the client asks for and whatever
  is written during the reads of the snapshot and between the polls: the events sent are an initial part, in order, of the
  project's events logged since the opening with ids above the cursor asked for, and k polls without a write in between have
  sent at least the first 200 k of these. Events logged before the opening are not sent even to a client that asks to resume
  behind them; the snapshot of the tasks stands for them.\<close>

theorem stream_no_gap_no_duplicate:
  "let s0 = run_queue ops empty_db; s1 = run_queue ops1 s0; s2 = run_queue ops2 s1;
       sn = open_stream proj last_event_id header s0 s1 s2
   in case stream_run proj (batches @ replicate k []) (s2, sn_last_event_id sn, []) of
        (s, c, sent) \<Rightarrow>
          (let due = filter (\<lambda>e. stream_cursor last_event_id header < int (ev_id e) \<and> text_filter proj (ev_project_name e))
                       (drop (length (events s0)) (events s))
           in prefix sent due \<and> prefix (take (200 * k) due) sent)"
proof -
  let ?s0 = "run_queue ops empty_db"
  let ?s1 = "run_queue ops1 ?s0"
  let ?s2 = "run_queue ops2 ?s1"
  let ?c0 = "sn_last_event_id (open_stream proj last_event_id header ?s0 ?s1 ?s2)"
  have q: "?s2 = run_queue (ops @ ops1 @ ops2) empty_db" by (simp add: run_queue_def)
  have "event_ids_ok ?s2"
    unfolding q using run_queue_steps [of empty_db "ops @ ops1 @ ops2"]
    by (induction rule: rtranclp_induct) (auto intro: any_step_event_ids log_inv_ids)
  then have i2: "stream_inv proj ?c0 (?s2, ?c0, [])" by (simp add: stream_inv_def q)
  obtain s c sent where r: "stream_run proj batches (?s2, ?c0, []) = (s, c, sent)" by (metis prod_cases3)
  from stream_run_inv [OF i2, of batches] have i: "stream_inv proj ?c0 (s, c, sent)" by (simp add: r)
  obtain c' where e: "stream_run proj (batches @ replicate k []) (?s2, ?c0, []) = (s, c', sent @ take (200 * k) (matching c proj s))"
    using quiet_polls [OF i, of k] r by (auto simp: stream_run_append)
  have grows: "prefix (events s1) (events (fst (stream_run proj bs (s1, st))))" if "table_inv s1" for bs s1 st
    using that
  proof (induction bs arbitrary: s1 st)
    case (Cons b bs)
    have "prefix (events s1) (events (run_queue b s1))" using run_queue_later [OF Cons.prems] by (simp add: later_def)
    with Cons.IH [OF run_queue_table_inv [OF Cons.prems], of b "stream_poll proj (run_queue b s1) st"] show ?case
      by (cases st) (simp add: Let_def prefix_order.trans [of "events s1"])
  qed simp
  have "prefix (events ?s0) (events s)"
    using run_queue_later [of ?s0 ops1] run_queue_later [of ?s1 ops2] grows [of ?s2 batches "(?c0, [])"]
    by (auto simp: r later_def run_queue_table_inv intro: prefix_order.trans)
  then obtain new where ev: "events s = events ?s0 @ new" by (auto elim: prefixE)
  define due where "due = filter (\<lambda>e. stream_cursor last_event_id header < int (ev_id e) \<and> text_filter proj (ev_project_name e)) new"
  have "stream_cursor last_event_id header = 0" if "\<not> resume_requested last_event_id header"
    using that by (auto simp: stream_cursor_def resume_requested_def)
  moreover have "0 \<le> stream_cursor last_event_id header" by (simp add: stream_cursor_def)
  ultimately have "matching ?c0 proj s = due"
    unfolding due_def using i by (subst opening_cursor [OF _ ev]) (auto simp: stream_inv_def intro!: filter_cong)
  then have "sent @ matching c proj s = due" using i by (simp add: stream_inv_def)
  then have "prefix (sent @ take (200 * k) (matching c proj s)) due \<and>
      prefix (take (200 * k) due) (sent @ take (200 * k) (matching c proj s))"
    by (auto intro: prefix_between)
  then show ?thesis by (simp add: Let_def e ev due_def)
qed

subsection \<open>Statistics\<close>

definition count_status :: "task_status \<Rightarrow> task list \<Rightarrow> nat" where
  "count_status st rows = length (filter (\<lambda>t. status t = st) rows)"

lemma stats_fold:
  assumes "distinct (map fst groups)"
  shows "fold (\<lambda>(st, cnt) (r, tot). (set_stat (st, cnt) r, tot + cnt)) groups (r, n) =
     ((let g = (\<lambda>st d. coalesce (map_of groups st) d) in
       r\<lparr>st_queued := g Queued (st_queued r), st_running := g Running (st_running r),
         st_cancelling := g Cancelling (st_cancelling r), st_succeeded := g Succeeded (st_succeeded r),
         st_failed := g Failed (st_failed r), st_cancelled := g Cancelled (st_cancelled r)\<rparr>),
      n + sum_list (map snd groups))"
  using assms
proof (induction groups arbitrary: r n)
  case (Cons g gs)
  obtain st k where g: "g = (st, k)" by fastforce
  have "map_of gs st = None" using Cons.prems g by (simp add: map_of_eq_None_iff)
  with Cons g show ?case by (cases st; cases r) (simp_all add: Let_def)
qed (simp add: Let_def)

lemma group_by_status_of:
  "map_of (group_by_status rows) st = (if st \<in> status ` set rows then Some (count_status st rows) else None)"
proof -
  have "map_of (map (\<lambda>st. (st, count_status st rows)) sts) st =
      (if st \<in> set sts then Some (count_status st rows) else None)" for sts
    by (induction sts) auto
  then show ?thesis by (simp add: group_by_status_def count_status_def [symmetric])
qed

lemma count_status_absent: "st \<notin> status ` set rows \<Longrightarrow> count_status st rows = 0"
  by (auto simp: count_status_def filter_empty_conv)

lemma group_total: "sum_list (map snd (group_by_status rows)) = length rows"
proof -
  have "sum_list (map snd (group_by_status rows)) = (\<Sum>st\<in>status ` set rows. count_status st rows)"
    by (simp add: group_by_status_def count_status_def [symmetric] o_def sum_list_distinct_conv_sum_set)
  also have "\<dots> = (\<Sum>st\<in>status ` set rows. count_list (map status rows) st)"
    by (simp add: count_status_def count_list_map_conv) (rule sum.cong, simp_all add: count_list_eq_length_filter filter_map o_def, metis)
  also have "\<dots> = length rows"
    using sum_count_set [of "map status rows" "status ` set rows"] by simp
  finally show ?thesis .
qed

text \<open>The statistics of a project are the number of its tasks in each status, and their total
  is the number of its tasks.\<close>

theorem stats_count_tasks:
  "get_stats proj s =
     (let rows = filter (\<lambda>t. text_filter proj (project_name t)) (tasks s) in
      \<lparr>st_queued = count_status Queued rows, st_running = count_status Running rows,
       st_cancelling = count_status Cancelling rows, st_succeeded = count_status Succeeded rows,
       st_failed = count_status Failed rows, st_cancelled = count_status Cancelled rows,
       st_total = length rows\<rparr>)"
proof -
  define rows where "rows = filter (\<lambda>t. text_filter proj (project_name t)) (tasks s)"
  have d: "distinct (map fst (group_by_status rows))" by (simp add: group_by_status_def o_def)
  show ?thesis
    unfolding get_stats_def select_tasks_def rows_def [symmetric] Let_def stats_fold [OF d]
    by (simp add: group_by_status_of group_total count_status_absent)
qed

subsection \<open>Pages\<close>

lemma concat_pages:
  "0 < n \<Longrightarrow> concat (map (\<lambda>p. take n (drop ((p - 1) * n) xs)) [1..<Suc k]) = take (k * n) xs"
proof (induction k)
  case (Suc k)
  have "[1..<Suc (Suc k)] = [1..<Suc k] @ [Suc k]" by simp
  with Suc show ?case by (simp add: take_add [symmetric] add.commute)
qed simp

text \<open>Reading the first k pages of a task list reads the first k * page_size matching tasks,
  in the order of the query, each once; every page carries the total of the whole list.\<close>

theorem pages_partition:
  "concat (map (\<lambda>p. pg_items (list_tasks f (int p) page_size s)) [1..<Suc k]) =
     take (k * nat (clamp 1 500 page_size))
       (map task_to_dict (order_desc updated_at (order_desc queued_at (select_tasks (filter_matches f) s)))) \<and>
   (\<lambda>p. pg_total (list_tasks f p page_size s)) = (\<lambda>_. length (select_tasks (filter_matches f) s))"
proof -
  define rows where "rows = order_desc updated_at (order_desc queued_at (select_tasks (filter_matches f) s))"
  define n where "n = nat (clamp 1 500 page_size)"
  have n: "0 < n" by (auto simp: n_def clamp_def)
  have off: "nat ((int p - 1) * clamp 1 500 page_size) = (p - Suc 0) * n" if "Suc 0 \<le> p" for p
    using that n by (simp add: n_def nat_mult_distrib nat_diff_distrib')
  have "map (\<lambda>p. pg_items (list_tasks f (int p) page_size s)) [1..<Suc k] =
      map (\<lambda>p. take n (drop ((p - 1) * n) (map task_to_dict rows))) [1..<Suc k]"
    by (rule map_cong) (auto simp: list_tasks_def Let_def off rows_def [symmetric] n_def [symmetric] take_map drop_map)
  with concat_pages [OF n, of "map task_to_dict rows" k] show ?thesis
    by (simp only: rows_def n_def) (simp add: list_tasks_def Let_def)
qed

end
