(* ===== verification/TaskCascade.thy ===== *)
theory TaskCascade
  imports TaskProps
begin

text \<open>
  The cascades of the task repository. Failing or cancelling a task walks the dependents depth
  first while it changes the table; the specification is a set: the queued tasks reachable
  through queued tasks. The walk is shown to change exactly that set.
\<close>

subsection \<open>Reachability inside a set of nodes\<close>

inductive_set reach :: "('a \<Rightarrow> 'a set) \<Rightarrow> 'a set \<Rightarrow> 'a set \<Rightarrow> 'a set"
  for succ :: "'a \<Rightarrow> 'a set" and Q :: "'a set" and R :: "'a set" where
  reach_root: "x \<in> R \<Longrightarrow> x \<in> Q \<Longrightarrow> x \<in> reach succ Q R"
| reach_step: "y \<in> reach succ Q R \<Longrightarrow> x \<in> succ y \<Longrightarrow> x \<in> Q \<Longrightarrow> x \<in> reach succ Q R"

lemma reach_least:
  assumes "R \<inter> Q \<subseteq> V" and "\<And>y x. y \<in> V \<Longrightarrow> x \<in> succ y \<Longrightarrow> x \<in> Q \<Longrightarrow> x \<in> V"
  shows "reach succ Q R \<subseteq> V"
proof
  fix x assume "x \<in> reach succ Q R"
  then show "x \<in> V" by induction (use assms in auto)
qed

lemma reach_subset: "reach succ Q R \<subseteq> Q"
  by (rule reach_least) auto

lemma reach_mono:
  assumes "R \<inter> Q \<subseteq> R'" and "Q \<subseteq> Q'"
  shows "reach succ Q R \<subseteq> reach succ Q' R'"
  by (rule reach_least) (use assms in \<open>auto intro: reach.intros\<close>)

lemma reach_empty [simp]: "reach succ Q {} = {}"
  using reach_least [of "{}" Q "{}"] by blast

lemma reach_roots_in: "reach succ Q (R \<inter> Q) = reach succ Q R"
  by (intro equalityI reach_mono) auto

lemma reach_skip: "t \<notin> Q \<Longrightarrow> reach succ Q (insert t R) = reach succ Q R"
  by (intro equalityI reach_mono) auto

text \<open>Visiting a node and its dependents first leaves exactly the rest for its siblings.\<close>

lemma reach_visit:
  fixes succ :: "'a \<Rightarrow> 'a set"
  assumes "t \<in> Q"
  defines "Q1 \<equiv> Q - {t}"
  defines "A \<equiv> reach succ Q1 (succ t)"
  shows "reach succ Q (insert t R) = insert t (A \<union> reach succ (Q1 - A) R)"
proof
  let ?B = "reach succ (Q1 - A) R"
  show "reach succ Q (insert t R) \<subseteq> insert t (A \<union> ?B)"
  proof (rule reach_least)
    show "insert t R \<inter> Q \<subseteq> insert t (A \<union> ?B)"
      by (auto simp: Q1_def intro: reach_root)
  next
    fix y x assume "y \<in> insert t (A \<union> ?B)" and x: "x \<in> succ y" "x \<in> Q"
    then consider "y = t" | "y \<in> A" | "y \<in> ?B" by blast
    then show "x \<in> insert t (A \<union> ?B)"
      by cases (use x in \<open>auto simp: A_def Q1_def intro: reach.intros\<close>)
  qed
next
  have t: "t \<in> reach succ Q (insert t R)" using assms(1) by (auto intro: reach_root)
  have "A \<subseteq> reach succ Q (insert t R)"
    unfolding A_def by (rule reach_least) (use t in \<open>auto simp: Q1_def intro: reach.intros\<close>)
  moreover have "reach succ (Q1 - A) R \<subseteq> reach succ Q (insert t R)"
    by (rule reach_mono) (auto simp: Q1_def)
  ultimately show "insert t (A \<union> reach succ (Q1 - A) R) \<subseteq> reach succ Q (insert t R)" using t by simp
qed

lemma reach_union: "reach succ Q (R \<union> S) = reach succ Q R \<union> reach succ Q S"
proof (intro equalityI reach_least Un_least reach_mono)
  show "(R \<union> S) \<inter> Q \<subseteq> reach succ Q R \<union> reach succ Q S" by (auto intro: reach_root)
qed (auto intro: reach.intros)

lemma reach_root_insert: "t \<in> Q \<Longrightarrow> reach succ Q {t} = insert t (reach succ Q (succ t))"
proof
  assume t: "t \<in> Q"
  show "reach succ Q {t} \<subseteq> insert t (reach succ Q (succ t))"
    by (rule reach_least) (auto intro: reach.intros)
  have "reach succ Q (succ t) \<subseteq> reach succ Q {t}"
    by (rule reach_least) (use t in \<open>auto intro: reach.intros\<close>)
  with t show "insert t (reach succ Q (succ t)) \<subseteq> reach succ Q {t}" by (auto intro: reach_root)
qed

subsection \<open>Dependents\<close>

definition status_of :: "db \<Rightarrow> string \<Rightarrow> task_status option" where
  "status_of s tid = map_option status (find_task tid s)"

definition children :: "db \<Rightarrow> string \<Rightarrow> string set" where
  "children s tid = task_id ` {t \<in> set (tasks s). dependency_task_id t = Some tid}"

definition queued_ids :: "db \<Rightarrow> string set" where
  "queued_ids s = {tid. status_of s tid = Some Queued}"

text \<open>The queued tasks a cascade from \<open>roots\<close> goes through.\<close>

definition queued_reach :: "db \<Rightarrow> string set \<Rightarrow> string set" where
  "queued_reach s roots = reach (children s) (queued_ids s) roots"

lemma dependency_ready_status:
  "dependency_ready s t =
     (case dependency_task_id t of None \<Rightarrow> True | Some d \<Rightarrow> status_of s d = Some Succeeded)"
  by (auto simp: dependency_ready_def status_of_def split: option.splits)

lemma queued_reach_queued: "x \<in> queued_reach s roots \<Longrightarrow> status_of s x = Some Queued"
  using reach_subset by (fastforce simp: queued_reach_def queued_ids_def)

lemma children_iff:
  assumes "unique_ids s"
  shows "x \<in> children s tid \<longleftrightarrow> (\<exists>t. find_task x s = Some t \<and> dependency_task_id t = Some tid)"
  using find_task_mem [OF assms] find_task_SomeD by (fastforce simp: children_def)

lemma queued_dependents_ids:
  assumes "unique_ids s"
  shows "set (map task_id (queued_dependents tid s)) = children s tid \<inter> queued_ids s"
  using find_task_mem [OF assms] find_task_SomeD
  by (fastforce simp: queued_dependents_def select_tasks_def children_def queued_ids_def status_of_def)

lemma dependents_ids: "set (map task_id (dependents tid s)) = children s tid"
  by (auto simp: dependents_def select_tasks_def children_def)

lemma status_of_log [simp]: "status_of (log_task e st now t s) = status_of s"
  by (rule ext) (simp add: status_of_def)

lemma status_of_put:
  "find_task (task_id t') s = Some t \<Longrightarrow> status_of (put_task t' s) = (status_of s)(task_id t' := Some (status t'))"
  by (rule ext) (auto simp: status_of_def find_task_put)

lemma children_change:
  assumes "unique_ids s" and "find_task (task_id t') s = Some t" and "same_identity t t'"
  shows "children (log_task e st now u (put_task t' s)) = children s"
proof (intro ext set_eqI)
  fix tid x
  have u: "unique_ids (log_task e st now u (put_task t' s))" using assms(1) by simp
  show "(x \<in> children (log_task e st now u (put_task t' s)) tid) = (x \<in> children s tid)"
    using assms(2,3)
    by (auto simp: children_iff [OF assms(1)] children_iff [OF u] find_task_put same_identity_def)
qed

subsection \<open>The failure cascade\<close>

lemma mark_failed_queued_dep_eq:
  assumes "unique_ids s"
  shows "mark_failed_queued_dep tid msg now s =
     (case find_task tid s of
        None \<Rightarrow> (0, s)
      | Some t \<Rightarrow> if status t = Queued
          then (1, log_task ''failed'' Failed now (fail_row msg now t) (put_task (fail_row msg now t) s))
          else (0, s))"
  unfolding mark_failed_queued_dep_def
  by (subst guarded_update_eq [OF assms]) (auto simp: fail_row_def split: option.splits)

definition set_status :: "string set \<Rightarrow> task_status \<Rightarrow> db \<Rightarrow> string \<Rightarrow> task_status option" where
  "set_status X st s x = (if x \<in> X then Some st else status_of s x)"

lemma fail_dep_effect:
  assumes "unique_ids s"
  obtains (queued) s1 where "tid \<in> queued_ids s" "mark_failed_queued_dep tid msg now s = (1, s1)"
      "status_of s1 = (status_of s)(tid := Some Failed)" "children s1 = children s"
  | (other) "tid \<notin> queued_ids s" "mark_failed_queued_dep tid msg now s = (0, s)"
proof (cases "\<exists>t. find_task tid s = Some t \<and> status t = Queued")
  case True
  then obtain t where t: "find_task tid s = Some t" "status t = Queued" by blast
  let ?t = "fail_row msg now t"
  have id: "task_id ?t = tid" "status ?t = Failed" using find_task_SomeD [OF t(1)] by (simp_all add: fail_row_def)
  have si: "same_identity t ?t" by (simp add: same_identity_def fail_row_def)
  show ?thesis
    by (rule queued [of "log_task ''failed'' Failed now ?t (put_task ?t s)"])
       (use t id status_of_put [of ?t s t] children_change [OF assms _ si] in
         \<open>simp_all add: queued_ids_def status_of_def mark_failed_queued_dep_eq [OF assms]\<close>)
next
  case False
  then show ?thesis
    by (intro other)
       (auto simp: queued_ids_def status_of_def mark_failed_queued_dep_eq [OF assms] split: option.splits)
qed

lemma queued_ids_upd:
  "status_of s1 = (status_of s)(tid := Some st) \<Longrightarrow> st \<noteq> Queued \<Longrightarrow> queued_ids s1 = queued_ids s - {tid}"
  by (auto simp: queued_ids_def)

lemma queued_ids_set_status:
  "status_of s1 = set_status X st s \<Longrightarrow> st \<noteq> Queued \<Longrightarrow> queued_ids s1 = queued_ids s - X"
  by (auto simp: queued_ids_def set_status_def)

lemma cascade_failed_loop_exact:
  assumes "table_inv s"
  shows "status_of (snd (cascade_failed_loop tid msg deps now s)) =
           set_status (queued_reach s (set deps)) Failed s \<and>
         children (snd (cascade_failed_loop tid msg deps now s)) = children s"
  using assms
proof (induction tid msg deps now s rule: cascade_failed_loop.induct)
  case (1 tid msg now s)
  then show ?case by (auto simp: queued_reach_def set_status_def)
next
  case (2 tid msg dep deps now s)
  let ?b = "blocked_message tid msg"
  have u: "unique_ids s" using 2(4) by (simp add: table_inv_def)
  from u show ?case
  proof (cases rule: fail_dep_effect [where tid = dep and msg = ?b and now = now])
    case (queued s1)
    have i1: "table_inv s1" using mark_failed_dep.keeps_table [OF 2(4), of dep ?b now] queued(2) by simp
    then have u1: "unique_ids s1" by (simp add: table_inv_def)
    obtain k s2 where c: "cascade_failed_loop dep ?b (map task_id (queued_dependents dep s1)) now s1 = (k, s2)"
      by fastforce
    have i2: "table_inv s2"
      using cascade_failed_loop_run [OF i1, of dep ?b "map task_id (queued_dependents dep s1)" now] c i1
        any_steps_table_inv [OF repo_any] by (metis snd_conv)
    define A where "A = reach (children s) (queued_ids s - {dep}) (children s dep)"
    have q1: "queued_ids s1 = queued_ids s - {dep}" by (rule queued_ids_upd [OF queued(3)]) simp
    have "queued_reach s1 (set (map task_id (queued_dependents dep s1))) = A"
      unfolding queued_reach_def queued_dependents_ids [OF u1] q1 queued(4) A_def by (rule reach_roots_in)
    with 2(2) [OF refl queued(2) [symmetric] _ i1] c
    have s2: "status_of s2 = set_status A Failed s1" "children s2 = children s"
      by (simp_all add: queued(4))
    then have "queued_ids s2 = queued_ids s - {dep} - A"
      using queued_ids_set_status [OF s2(1)] q1 by simp
    moreover note 2(3) [OF refl queued(2) [symmetric] _ c [symmetric] i2]
    ultimately show ?thesis
      using queued(1-3) c s2 reach_visit [OF queued(1), of "children s" "set deps"]
      by (auto simp: Let_def queued_reach_def A_def [symmetric] set_status_def fun_eq_iff split: prod.splits)
  next
    case other
    with 2(1) [OF refl other(2) [symmetric] refl 2(4)] show ?thesis
      by (simp add: Let_def queued_reach_def reach_skip)
  qed
qed

lemma cancel_row_effect:
  assumes "unique_ids s"
  obtains (queued) s1 d where "tid \<in> queued_ids s" "mark_cancelled_row tid who now s = (Some d, s1)"
      "td_task_id d = tid" "status_of s1 = (status_of s)(tid := Some Cancelled)" "children s1 = children s"
  | (other) "tid \<notin> queued_ids s"
proof (cases "\<exists>t. find_task tid s = Some t \<and> status t = Queued")
  case True
  then obtain t where t: "find_task tid s = Some t" "status t = Queued" by blast
  let ?t = "cancel_row who now t"
  have id: "task_id ?t = tid" "status ?t = Cancelled" using find_task_SomeD [OF t(1)] by (simp_all add: cancel_row_def)
  have si: "same_identity t ?t" by (simp add: same_identity_def cancel_row_def)
  show ?thesis
    by (rule queued [of "task_to_dict ?t" "log_task ''cancelled'' Cancelled now ?t (put_task ?t s)"])
       (use t id status_of_put [of ?t s t] children_change [OF assms _ si] in
         \<open>simp_all add: queued_ids_def status_of_def mark_cancelled_row_eq [OF assms]\<close>)
next
  case False
  then show ?thesis
    by (intro other) (auto simp: queued_ids_def status_of_def)
qed

text \<open>A dependent of a task that has not succeeded has not been started.\<close>

lemma children_not_started:
  assumes "table_inv s" and "x \<in> children s tid" and "status_of s tid = Some st" and "st \<noteq> Succeeded"
  shows "status_of s x \<noteq> Some Running"
proof
  assume "status_of s x = Some Running"
  then obtain t where t: "find_task x s = Some t" "status t = Running" by (auto simp: status_of_def)
  have u: "unique_ids s" using assms(1) by (simp add: table_inv_def)
  from t assms(2) have dep: "dependency_task_id t = Some tid" by (simp add: children_iff [OF u])
  have "dependency_ready s t"
    using assms(1) t find_task_SomeD [OF t(1)] by (auto simp: table_inv_def gated_def)
  with dep assms(3,4) show False by (auto simp: dependency_ready_def status_of_def split: option.splits)
qed

definition cancelled_ids :: "cancel_acc \<Rightarrow> string set" where
  "cancelled_ids acc = td_task_id ` set (acc_cancelled acc)"

lemma cancelled_ids_add [simp]:
  "cancelled_ids (acc\<lparr>acc_cancelled := acc_cancelled acc @ [d]\<rparr>) = insert (td_task_id d) (cancelled_ids acc)"
  "cancelled_ids (acc\<lparr>acc_skipped_terminal := sk\<rparr>) = cancelled_ids acc"
  by (auto simp: cancelled_ids_def)

definition dispatch_spec ::
  "string set \<Rightarrow> cancel_acc \<Rightarrow> db \<Rightarrow> cancel_acc \<times> db \<Rightarrow> bool" where
  "dispatch_spec X acc s res =
     (status_of (snd res) = set_status X Cancelled s \<and> children (snd res) = children s \<and>
      cancelled_ids (fst res) = cancelled_ids acc \<union> X \<and>
      acc_cancelling (fst res) = acc_cancelling acc)"

lemma dispatch_all_exact:
  assumes "table_inv s" and "\<And>x. x \<in> set tids \<Longrightarrow> status_of s x \<noteq> Some Running"
  shows "dispatch_spec (queued_reach s (set tids)) acc s (dispatch_all by tids now acc s)"
  using assms
proof (induction "by" tids now acc s rule: dispatch_all.induct)
  case (1 "by" now acc s)
  then show ?case by (auto simp: dispatch_spec_def queued_reach_def set_status_def)
next
  case (2 "by" tid tids now acc s)
  have u: "unique_ids s" using 2(10) by (simp add: table_inv_def)
  have nr: "status_of s x \<noteq> Some Running" if "x \<in> set tids" for x using 2(11) that by simp
  have skip: "queued_reach s (set (tid # tids)) = queued_reach s (set tids)" if "tid \<notin> queued_ids s"
    using that by (simp add: queued_reach_def reach_skip)
  show ?case
  proof (cases "find_task tid s")
    case None
    with 2(1) [OF None 2(10) nr] skip show ?thesis by (simp add: queued_ids_def status_of_def)
  next
    case t: (Some t)
    show ?thesis
    proof (cases "status t")
      case Queued
      from u show ?thesis
      proof (cases rule: cancel_row_effect [where tid = tid and who = "by" and now = now])
        case (queued s1 d)
        let ?acc1 = "acc\<lparr>acc_cancelled := acc_cancelled acc @ [d]\<rparr>"
        have i1: "table_inv s1"
          using cancelled_row.keeps_table [OF 2(10), of tid "by" now] queued(2) by simp
        have nr1: "status_of s1 x \<noteq> Some Running" if "x \<in> set (map task_id (dependents tid s1))" for x
        proof -
          from that have "x \<in> children s tid" unfolding dependents_ids queued(5) .
          moreover have "status_of s tid = Some Queued" using queued(1) by (simp add: queued_ids_def)
          ultimately have "status_of s x \<noteq> Some Running" using children_not_started [OF 2(10)] by blast
          then show ?thesis by (simp add: queued(4))
        qed
        obtain acc2 s2 where c: "dispatch_all ''cascade'' (map task_id (dependents tid s1)) now ?acc1 s1 = (acc2, s2)"
          by fastforce
        have i2: "table_inv s2"
          using dispatch_all_run [OF i1, of "''cascade''" "map task_id (dependents tid s1)" now ?acc1] c i1
            any_steps_table_inv [OF repo_any] by (metis snd_conv)
        define A where "A = reach (children s) (queued_ids s - {tid}) (children s tid)"
        have q1: "queued_ids s1 = queued_ids s - {tid}" by (rule queued_ids_upd [OF queued(4)]) simp
        have qr: "queued_reach s1 (set (map task_id (dependents tid s1))) = A"
          unfolding queued_reach_def dependents_ids q1 queued(5) A_def ..
        have sub: "dispatch_spec A ?acc1 s1 (acc2, s2)"
          using 2(3) [OF t Queued queued(2) [symmetric] refl i1 nr1] c qr by simp
        then have st2: "status_of s2 = set_status A Cancelled s1" and ch2: "children s2 = children s"
          by (simp_all add: dispatch_spec_def queued(5))
        have q2: "queued_ids s2 = queued_ids s - {tid} - A"
          using queued_ids_set_status [OF st2] q1 by simp
        have nr2: "status_of s2 x \<noteq> Some Running" if "x \<in> set tids" for x
          using nr [OF that] by (simp add: st2 set_status_def queued(4))
        have rest: "dispatch_spec (queued_reach s2 (set tids)) acc2 s2 (dispatch_all by tids now acc2 s2)"
          using 2(4) [OF t Queued queued(2) [symmetric] refl c [symmetric] i2 nr2] .
        have R: "queued_reach s (set (tid # tids)) = insert tid (A \<union> queued_reach s2 (set tids))"
          using reach_visit [OF queued(1), of "children s" "set tids"]
          by (simp add: queued_reach_def A_def [symmetric] q2 ch2)
        have "dispatch_all by (tid # tids) now acc s = dispatch_all by tids now acc2 s2"
          using t Queued queued(2) c by simp
        with rest sub queued(3,4) ch2 st2 R show ?thesis
          by (auto simp: dispatch_spec_def set_status_def fun_eq_iff)
      next
        case other
        with t Queued show ?thesis by (simp add: queued_ids_def status_of_def)
      qed
    next
      case Running
      with t 2(11) [of tid] show ?thesis by (simp add: status_of_def)
    next
      case Cancelling
      with 2(6) [OF t Cancelling 2(10) nr] t skip show ?thesis by (simp add: queued_ids_def status_of_def)
    next
      case Succeeded
      with 2(7) [OF t Succeeded 2(10) nr] t skip show ?thesis
        by (simp add: queued_ids_def status_of_def dispatch_spec_def)
    next
      case Failed
      with 2(8) [OF t Failed 2(10) nr] t skip show ?thesis
        by (simp add: queued_ids_def status_of_def dispatch_spec_def)
    next
      case Cancelled
      with 2(9) [OF t Cancelled 2(10) nr] t skip show ?thesis
        by (simp add: queued_ids_def status_of_def dispatch_spec_def)
    qed
  qed
qed

subsection \<open>The preview\<close>

lemma collect_exact:
  assumes "unique_ids s" and "collect_queued_dependents fuel rows s = Some out"
    and "\<And>r. r \<in> set rows \<Longrightarrow> task_id r \<in> queued_ids s"
  shows "ts_task_id ` set out = queued_reach s (task_id ` set rows)"
  using assms
proof (induction fuel rows s arbitrary: out rule: collect_queued_dependents.induct)
  case (3 n row rows s)
  from 3(4) obtain sub rest where sub: "collect_queued_dependents n (queued_dependents (task_id row) s) s = Some sub"
    and rest: "collect_queued_dependents (Suc n) rows s = Some rest"
    and out: "out = summarise row # sub @ rest"
    by (auto split: option.splits)
  have ch: "task_id ` set (queued_dependents (task_id row) s) = children s (task_id row) \<inter> queued_ids s"
    using queued_dependents_ids [OF 3(3)] by simp
  then have "ts_task_id ` set sub = queued_reach s (children s (task_id row))"
    using 3(1) [OF 3(3) sub] by (auto simp: queued_reach_def reach_roots_in)
  moreover have "ts_task_id ` set rest = queued_reach s (task_id ` set rows)"
    using 3(2) [OF sub 3(3) rest] 3(5) by simp
  moreover have "queued_reach s (insert (task_id row) (task_id ` set rows)) =
      insert (task_id row) (queued_reach s (children s (task_id row))) \<union> queued_reach s (task_id ` set rows)"
    using 3(5) [of row] reach_union [of "children s" "queued_ids s" "{task_id row}" "task_id ` set rows"]
      reach_root_insert [of "task_id row" "queued_ids s" "children s"]
    by (simp add: queued_reach_def)
  ultimately show ?case by (auto simp: out summarise_def)
qed (simp_all add: queued_reach_def)

text \<open>Every dependency is an earlier row: what holds when a task can only name tasks that exist.\<close>

definition deps_backward :: "db \<Rightarrow> bool" where
  "deps_backward s =
     (sorted_wrt (\<lambda>t u. dependency_task_id t \<noteq> Some (task_id u)) (tasks s) \<and>
      (\<forall>t\<in>set (tasks s). dependency_task_id t \<noteq> Some (task_id t)))"

lemma deps_backward_index:
  assumes "deps_backward s" and "i < length (tasks s)" and "j < length (tasks s)"
    and "dependency_task_id (tasks s ! j) = Some (task_id (tasks s ! i))"
  shows "i < j"
proof (rule ccontr)
  assume "\<not> i < j"
  then consider "j < i" | "i = j" by linarith
  then show False
    using assms by cases (auto simp: deps_backward_def sorted_wrt_iff_nth_less)
qed

lemma collect_total:
  assumes "deps_backward s" and "set rows \<subseteq> set (tasks s)"
    and "\<And>i. i < length (tasks s) \<Longrightarrow> tasks s ! i \<in> set rows \<Longrightarrow> length (tasks s) - i \<le> fuel"
  shows "collect_queued_dependents fuel rows s \<noteq> None"
  using assms
proof (induction fuel rows s rule: collect_queued_dependents.induct)
  case (2 row rows s)
  then obtain i where "i < length (tasks s)" "tasks s ! i = row"
    by (metis in_set_conv_nth list.set_intros(1) subsetD)
  with 2(3) [of i] show ?case by simp
next
  case (3 n row rows s)
  obtain i where i: "i < length (tasks s)" "tasks s ! i = row"
    using 3(4) by (metis in_set_conv_nth list.set_intros(1) subsetD)
  have n: "length (tasks s) - i \<le> Suc n" using 3(5) [of i] i by simp
  have "collect_queued_dependents n (queued_dependents (task_id row) s) s \<noteq> None"
  proof (rule 3(1) [OF 3(3)])
    show "set (queued_dependents (task_id row) s) \<subseteq> set (tasks s)"
      by (auto simp: queued_dependents_def select_tasks_def)
    fix j assume j: "j < length (tasks s)" "tasks s ! j \<in> set (queued_dependents (task_id row) s)"
    then have "dependency_task_id (tasks s ! j) = Some (task_id (tasks s ! i))"
      by (simp add: queued_dependents_def select_tasks_def i)
    with deps_backward_index [OF 3(3) i(1) j(1)] n show "length (tasks s) - j \<le> n" by simp
  qed
  then obtain sub where sub: "collect_queued_dependents n (queued_dependents (task_id row) s) s = Some sub" by blast
  have "collect_queued_dependents (Suc n) rows s \<noteq> None"
    by (rule 3(2) [OF sub 3(3)]) (use 3(4,5) in auto)
  with sub show ?case by auto
qed simp

subsection \<open>Properties\<close>

lemma mark_failed_effect:
  assumes inv: "table_inv s" and st: "status_of s tid = Some Running"
  shows "fst (mark_failed tid msg now s) = 1"
    and "status_of (snd (mark_failed tid msg now s)) =
           set_status (insert tid (queued_reach s (children s tid))) Failed s"
proof -
  have u: "unique_ids s" using inv by (simp add: table_inv_def)
  obtain t where t: "find_task tid s = Some t" "status t = Running"
    using st by (auto simp: status_of_def)
  let ?t = "fail_row msg now t"
  let ?s1 = "log_task ''failed'' Failed now ?t (put_task ?t s)"
  have id: "task_id ?t = tid" "status ?t = Failed" using find_task_SomeD [OF t(1)] by (simp_all add: fail_row_def)
  have m: "mark_failed_running tid msg now s = (1, ?s1)"
    by (simp add: mark_failed_running_eq [OF u] t)
  have i1: "table_inv ?s1" using mark_failed_running.keeps_table [OF inv, of tid msg now] m by simp
  then have u1: "unique_ids ?s1" by (simp add: table_inv_def)
  have st1: "status_of ?s1 = (status_of s)(tid := Some Failed)"
    using status_of_put [of ?t s t] t id by simp
  have ch1: "children ?s1 = children s"
    by (rule children_change [OF u, of _ t]) (use t id in \<open>simp_all add: same_identity_def fail_row_def\<close>)
  have q1: "queued_ids ?s1 = queued_ids s"
    using st queued_ids_upd [OF st1] by (auto simp: queued_ids_def)
  let ?R = "queued_reach s (children s tid)"
  have "queued_reach ?s1 (set (map task_id (queued_dependents tid ?s1))) = ?R"
    unfolding queued_reach_def queued_dependents_ids [OF u1] ch1 q1 by (rule reach_roots_in)
  with cascade_failed_loop_exact [OF i1, of tid msg "map task_id (queued_dependents tid ?s1)" now]
  have c: "status_of (snd (cascade_failed_queued tid msg now ?s1)) = set_status ?R Failed ?s1"
    by (simp add: cascade_failed_queued_def)
  have "status_of (snd (mark_failed tid msg now s)) = set_status ?R Failed ?s1"
    using c by (simp add: mark_failed_def m)
  also have "\<dots> = set_status (insert tid ?R) Failed s"
    using st1 by (auto simp: set_status_def fun_eq_iff simp del: status_of_log)
  finally show "status_of (snd (mark_failed tid msg now s)) = set_status (insert tid ?R) Failed s" .
  show "fst (mark_failed tid msg now s) = 1" by (simp add: mark_failed_def m)
qed

lemma mark_failed_none:
  assumes "table_inv s" and "status_of s tid \<noteq> Some Running"
  shows "mark_failed tid msg now s = (0, s)"
  using assms
  by (auto simp: mark_failed_def mark_failed_running_eq table_inv_def status_of_def split: option.splits)

text \<open>C4. Failing a running task of a reachable state marks it failed and, with it, exactly the
  queued tasks that depend on it through queued tasks; no other status changes, and no queued
  task is left behind one of them.\<close>

theorem mark_failed_cascade_exact:
  assumes "s = run_queue ops empty_db" and "status_of s tid = Some Running"
  shows "fst (mark_failed tid msg now s) = 1 \<and>
         status_of (snd (mark_failed tid msg now s)) =
           set_status (insert tid (queued_reach s (children s tid))) Failed s \<and>
         (\<forall>x\<in>insert tid (queued_reach s (children s tid)).
            children s x \<inter> queued_ids (snd (mark_failed tid msg now s)) = {})"
proof -
  have inv: "table_inv s" by (simp add: assms(1))
  note eff = mark_failed_effect [OF inv assms(2), of msg now]
  let ?R = "queued_reach s (children s tid)"
  have "x \<notin> queued_ids (snd (mark_failed tid msg now s))"
    if "y \<in> insert tid ?R" "x \<in> children s y" for x y
  proof
    assume "x \<in> queued_ids (snd (mark_failed tid msg now s))"
    then have "x \<in> queued_ids s" "x \<notin> insert tid ?R"
      by (auto simp: queued_ids_def eff(2) set_status_def split: if_splits)
    with that show False by (auto simp: queued_reach_def intro: reach.intros)
  qed
  with eff show ?thesis by auto
qed

theorem mark_failed_cascade_exact_witness:
  "status_of (snd (mark_failed ''a'' ''boom'' 4 (run_queue (sample_ops @ [(RepoOp (OpClaimNext ''image'' []), 3)]) empty_db)))
     ''b'' = Some Failed"
proof -
  let ?s = "run_queue (sample_ops @ [(RepoOp (OpClaimNext ''image'' []), 3)]) empty_db"
  have r: "status_of ?s ''a'' = Some Running" by code_simp
  have "''b'' \<in> children ?s ''a''" "status_of ?s ''b'' = Some Queued" by code_simp+
  then have "''b'' \<in> queued_reach ?s (children ?s ''a'')"
    by (auto simp: queued_reach_def queued_ids_def intro: reach_root)
  with mark_failed_cascade_exact [OF refl r, of "''boom''" 4] show ?thesis
    by (simp add: set_status_def)
qed

lemma cancel_row_active:
  assumes "unique_ids s" and "find_task tid s = Some t" and "is_active (status t)"
  obtains s1 d where "mark_cancelled_row tid who now s = (Some d, s1)" "td_task_id d = tid"
    "status_of s1 = (status_of s)(tid := Some Cancelled)" "children s1 = children s"
    "find_task tid s1 = Some (cancel_row who now t)"
proof -
  let ?t = "cancel_row who now t"
  have id: "task_id ?t = tid" "status ?t = Cancelled"
    using find_task_SomeD [OF assms(2)] by (simp_all add: cancel_row_def)
  have si: "same_identity t ?t" by (simp add: same_identity_def cancel_row_def)
  show ?thesis
    by (rule that [of "task_to_dict ?t" "log_task ''cancelled'' Cancelled now ?t (put_task ?t s)"])
       (use assms id status_of_put [of ?t s t] children_change [OF assms(1) _ si] in
         \<open>simp_all add: mark_cancelled_row_eq [OF assms(1)] find_task_put\<close>)
qed

lemma finalize_effect:
  assumes inv: "table_inv s" and t: "find_task tid s = Some t" "is_active (status t)"
  shows "fst (finalize_cancelled tid who now s) = (1, [])"
    and "status_of (snd (finalize_cancelled tid who now s)) =
           set_status (insert tid (queued_reach s (children s tid))) Cancelled s"
    and "\<exists>t'. find_task tid (snd (finalize_cancelled tid who now s)) = Some t' \<and>
           row_later (cancel_row who now t) t'"
proof -
  have u: "unique_ids s" using inv by (simp add: table_inv_def)
  obtain s1 d where r: "mark_cancelled_row tid who now s = (Some d, s1)" "td_task_id d = tid"
    "status_of s1 = (status_of s)(tid := Some Cancelled)" "children s1 = children s"
    "find_task tid s1 = Some (cancel_row who now t)"
    by (rule cancel_row_active [OF u t])
  have i1: "table_inv s1" using cancelled_row.keeps_table [OF inv, of tid who now] r(1) by simp
  let ?acc = "empty_acc\<lparr>acc_cancelled := acc_cancelled empty_acc @ [d]\<rparr>"
  obtain acc s2 where c: "cascade_cancel_dependents tid now ?acc s1 = (acc, s2)" by fastforce
  have nr: "status_of s1 x \<noteq> Some Running" if "x \<in> set (map task_id (dependents tid s1))" for x
  proof -
    have "x \<in> children s tid" using that unfolding dependents_ids r(4) .
    moreover have "status_of s tid = Some (status t)" "status t \<noteq> Succeeded"
      using t by (auto simp: status_of_def)
    ultimately have "status_of s x \<noteq> Some Running" using children_not_started [OF inv] by blast
    then show ?thesis by (simp add: r(3))
  qed
  have q1: "queued_ids s1 = queued_ids s - {tid}" by (rule queued_ids_upd [OF r(3)]) simp
  let ?A = "reach (children s) (queued_ids s - {tid}) (children s tid)"
  have "queued_reach s1 (set (map task_id (dependents tid s1))) = ?A"
    unfolding queued_reach_def dependents_ids q1 r(4) ..
  with dispatch_all_exact [OF i1, of "map task_id (dependents tid s1)" ?acc "''cascade''" now] nr c
  have spec: "dispatch_spec ?A ?acc s1 (acc, s2)" unfolding cascade_cancel_dependents_def by metis
  have A: "insert tid ?A = insert tid (queued_reach s (children s tid))"
  proof (cases "tid \<in> queued_ids s")
    case True
    with reach_visit [OF True, of "children s" "{}"] reach_root_insert [OF True, of "children s"]
    show ?thesis by (simp add: queued_reach_def)
  qed (simp add: queued_reach_def)
  have empty: "acc_cancelling empty_acc = []" by (simp add: empty_acc_def)
  show "fst (finalize_cancelled tid who now s) = (1, [])"
    using spec empty by (simp add: finalize_cancelled_def mark_cancelled_def r(1) c dispatch_spec_def)
  have "status_of s2 = set_status (insert tid ?A) Cancelled s"
    using spec by (auto simp: dispatch_spec_def set_status_def r(3) fun_eq_iff)
  then show "status_of (snd (finalize_cancelled tid who now s)) =
           set_status (insert tid (queued_reach s (children s tid))) Cancelled s"
    by (simp add: finalize_cancelled_def mark_cancelled_def r(1) c A)
  have "repo_step\<^sup>*\<^sup>* s1 s2"
    using dispatch_all_run [OF i1] c unfolding cascade_cancel_dependents_def by (metis snd_conv)
  then have "later s1 s2" using any_steps_later [OF repo_any i1] by blast
  with r(5) have "\<exists>t'. find_task tid s2 = Some t' \<and> row_later (cancel_row who now t) t'"
    by (auto simp: later_def)
  then show "\<exists>t'. find_task tid (snd (finalize_cancelled tid who now s)) = Some t' \<and>
           row_later (cancel_row who now t) t'"
    by (simp add: finalize_cancelled_def mark_cancelled_def r(1) c)
qed

text \<open>Finalizing the cancellation of an active task of a reachable state cancels it and the
  queued tasks that depend on it through queued tasks, and nothing else; the cancellation is
  attributed to whoever asked first. The list of running dependents to signal is empty: a
  task that has not succeeded has none.\<close>

theorem finalize_settles:
  assumes "s = run_queue ops empty_db" and "find_task tid s = Some t" and "is_active (status t)"
  shows "fst (finalize_cancelled tid who now s) = (1, []) \<and>
         status_of (snd (finalize_cancelled tid who now s)) =
           set_status (insert tid (queued_reach s (children s tid))) Cancelled s \<and>
         map_option cancelled_by (find_task tid (snd (finalize_cancelled tid who now s))) =
           Some (Some (coalesce (cancelled_by t) who))"
proof -
  have inv: "table_inv s" by (simp add: assms(1))
  note eff = finalize_effect [OF inv assms(2,3), of who now]
  from eff(3) obtain t' where "find_task tid (snd (finalize_cancelled tid who now s)) = Some t'"
    "row_later (cancel_row who now t) t'" by blast
  with eff(1,2) show ?thesis by (simp add: row_later_def cancel_row_def)
qed

theorem finalize_settles_witness:
  "map_option cancelled_by (find_task ''a'' (snd (finalize_cancelled ''a'' ''user'' 3 sample_db))) = Some (Some ''user'')"
proof -
  have "map_option status (find_task ''a'' sample_db) = Some Queued"
       "map_option cancelled_by (find_task ''a'' sample_db) = Some None" by code_simp+
  then obtain t where "find_task ''a'' sample_db = Some t" "status t = Queued" "cancelled_by t = None" by auto
  with finalize_settles [OF sample_db_def this(1), of "''user''" 3] show ?thesis by simp
qed

text \<open>C5. Cancelling a queued task of a reachable state cancels exactly that task and the
  dependents its preview lists, whatever the order of the walk: the same set is answered, no
  running task is touched and no other status changes.\<close>

theorem cancel_matches_preview:
  assumes "s = run_queue ops empty_db"
    and "get_cancel_preview fuel tid s = Inr (Some (summary, Queued, cascaded))"
  shows "\<exists>acc. fst (cancel_task tid now s) = Inr acc \<and>
           cancelled_ids acc = insert tid (ts_task_id ` set cascaded) \<and> acc_cancelling acc = [] \<and>
           status_of (snd (cancel_task tid now s)) =
             set_status (insert tid (ts_task_id ` set cascaded)) Cancelled s"
proof -
  have inv: "table_inv s" and u: "unique_ids s" by (simp_all add: assms(1))
  from assms(2) obtain t where t: "find_task tid s = Some t" "status t = Queued"
    and col: "collect_queued_dependents fuel (queued_dependents tid s) s = Some cascaded"
    by (auto simp: get_cancel_preview_def split: option.splits)
  have q: "tid \<in> queued_ids s" by (simp add: queued_ids_def status_of_def t)
  have ch: "task_id ` set (queued_dependents tid s) = children s tid \<inter> queued_ids s"
    using queued_dependents_ids [OF u] by simp
  then have "ts_task_id ` set cascaded = queued_reach s (children s tid)"
    using collect_exact [OF u col] by (auto simp: queued_reach_def reach_roots_in)
  then have X: "insert tid (ts_task_id ` set cascaded) = queued_reach s (set [tid])"
    using reach_root_insert [OF q, of "children s"] by (simp add: queued_reach_def)
  have "dispatch_spec (queued_reach s (set [tid])) empty_acc s (dispatch_all ''user'' [tid] now empty_acc s)"
    by (rule dispatch_all_exact [OF inv]) (simp add: status_of_def t)
  moreover obtain acc s1 where d: "dispatch_all ''user'' [tid] now empty_acc s = (acc, s1)" by fastforce
  moreover have "cancel_task tid now s = (Inr acc, s1)"
    unfolding cancel_task_def dispatch_cancel_def d t by simp
  moreover have "cancelled_ids empty_acc = {}" "acc_cancelling empty_acc = []"
    by (simp_all add: cancelled_ids_def empty_acc_def)
  ultimately show ?thesis
    unfolding X dispatch_spec_def by (simp del: dispatch_all.simps)
qed

theorem cancel_matches_preview_witness:
  "status_of (snd (cancel_task ''a'' 3 sample_db)) ''b'' = Some Cancelled"
proof -
  have "map_option (map ts_task_id) (collect_queued_dependents (Suc (Suc 0))
      (queued_dependents ''a'' sample_db) sample_db) = Some [''b'']" by code_simp
  then obtain cs where cs: "collect_queued_dependents (Suc (Suc 0)) (queued_dependents ''a'' sample_db) sample_db = Some cs"
    "map ts_task_id cs = [''b'']" by auto
  have "map_option status (find_task ''a'' sample_db) = Some Queued" by code_simp
  then obtain t where t: "find_task ''a'' sample_db = Some t" "status t = Queued" by auto
  have p: "get_cancel_preview (Suc (Suc 0)) ''a'' sample_db = Inr (Some (summarise t, Queued, cs))"
    by (simp add: get_cancel_preview_def t cs)
  from cs(2) have "''b'' \<in> ts_task_id ` set cs" by auto
  with cancel_matches_preview [OF sample_db_def p, of 3] show ?thesis
    by (auto simp: set_status_def)
qed

text \<open>C22. The preview's recursion ends: when no task depends on itself or on a later one, a depth
  of the number of tasks is enough for every task that exists.\<close>

theorem preview_terminates:
  assumes "deps_backward s" and "find_task tid s \<noteq> None" and "length (tasks s) \<le> fuel"
  shows "\<exists>p. get_cancel_preview fuel tid s = Inr (Some p)"
proof -
  have "collect_queued_dependents fuel (queued_dependents tid s) s \<noteq> None"
    by (rule collect_total [OF assms(1)])
       (use assms(3) in \<open>auto simp: queued_dependents_def select_tasks_def\<close>)
  with assms(2) show ?thesis by (auto simp: get_cancel_preview_def)
qed

theorem preview_terminates_witness:
  "\<exists>p. get_cancel_preview 2 ''a'' sample_db = Inr (Some p)"
proof (rule preview_terminates)
  show "deps_backward sample_db" by code_simp
  show "find_task ''a'' sample_db \<noteq> None" by code_simp
  show "length (tasks sample_db) \<le> 2" by code_simp
qed

text \<open>C23. A queued task whose dependency has failed or was cancelled is never ready again: no
  claim in any later state selects it. Enqueue accepts such a dependency.\<close>

theorem dead_dependency_starves:
  assumes "find_task tid (run_queue ops empty_db) = Some t"
    and "dependency_task_id t = Some d" and "status_of (run_queue ops empty_db) d \<in> {Some Failed, Some Cancelled}"
    and "claim_select media full (run_queue (ops @ further) empty_db) = Some claimed"
  shows "claimed \<noteq> tid"
proof
  assume eq: "claimed = tid"
  let ?s = "run_queue ops empty_db" and ?s' = "run_queue (ops @ further) empty_db"
  have l: "later ?s ?s'" unfolding run_queue_append by (rule run_queue_later) simp
  obtain t' where t': "find_task tid ?s' = Some t'" "claimable media full ?s' t'"
    using claim_select_SomeD [OF assms(4)] eq by auto
  with l assms(1,2) have "dependency_task_id t' = Some d"
    by (fastforce simp: later_def row_later_def same_identity_def)
  moreover obtain u where u: "find_task d ?s = Some u" "status u \<in> {Failed, Cancelled}"
    using assms(3) by (auto simp: status_of_def)
  with l obtain u' where "find_task d ?s' = Some u'" "status u' = status u"
    by (fastforce simp: later_def row_later_def is_terminal_def)
  ultimately show False using t'(2) u(2) by (auto simp: claimable_def dependency_ready_def)
qed

theorem dead_dependency_starves_witness:
  "claim_select ''image'' [] (run_queue
     ([(RepoOp (OpEnqueue (sample_args ''p'' ''S1'' None) ''a''), 1), (RepoOp (OpCancelTask ''a''), 2),
       (RepoOp (OpEnqueue (sample_args ''p'' ''S2'' (Some ''a'')) ''b''), 3)] @
      [(RepoOp (OpEnqueue (sample_args ''p'' ''S3'' None) ''c''), 4)]) empty_db) = Some ''c'' \<and> ''c'' \<noteq> ''b''"
proof -
  let ?ops = "[(RepoOp (OpEnqueue (sample_args ''p'' ''S1'' None) ''a''), 1), (RepoOp (OpCancelTask ''a''), 2),
       (RepoOp (OpEnqueue (sample_args ''p'' ''S2'' (Some ''a'')) ''b''), 3)]"
  have f: "find_task ''b'' (run_queue ?ops empty_db) = Some (new_task (sample_args ''p'' ''S2'' (Some ''a'')) ''b'' 3)"
    by code_simp
  have d: "dependency_task_id (new_task (sample_args ''p'' ''S2'' (Some ''a'')) ''b'' 3) = Some ''a''"
    by (simp add: sample_args_def)
  have st: "status_of (run_queue ?ops empty_db) ''a'' \<in> {Some Failed, Some Cancelled}" by code_simp
  have c: "claim_select ''image'' [] (run_queue (?ops @
      [(RepoOp (OpEnqueue (sample_args ''p'' ''S3'' None) ''c''), 4)]) empty_db) = Some ''c''" by code_simp
  from dead_dependency_starves [OF f d st c] c show ?thesis by blast
qed

end
