(* ===== verification/Slots.thy ===== *)
theory Slots
  imports PyJson "HOL-Library.AList"
begin

text \<open>
  The worker's capacity table and slot table (\<open>lib/generation_worker.py\<close>). Both are
  dictionaries, modelled as association lists in insertion order; the slot table is
  generic in the handle of the running coroutine, whose \<open>done()\<close> is an argument where the
  code asks it. The slot table is shown to implement a flat map from (provider, media,
  task) to the occupant, and to satisfy the ledger interface the claim loop relies on.
\<close>

subsection \<open>Environment and configuration numbers\<close>

definition read_int_env :: "string option \<Rightarrow> int \<Rightarrow> int \<Rightarrow> int" where
  "read_int_env raw dflt minimum =
     (case raw of None \<Rightarrow> dflt
      | Some r \<Rightarrow> (case py_int r of None \<Rightarrow> dflt | Some v \<Rightarrow> max minimum v))"

definition parse_lane_max ::
  "(string \<times> string) list \<Rightarrow> string \<Rightarrow> int \<Rightarrow> int" where
  "parse_lane_max config key dflt =
     (case map_of config key of None \<Rightarrow> dflt
      | Some r \<Rightarrow> (case py_int r of None \<Rightarrow> dflt | Some v \<Rightarrow> max 0 v))"

subsection \<open>Capacity table\<close>

type_synonym lanes = "(string \<times> int) list"

record capacity_table =
  cap_limits :: "(string \<times> lanes) list"
  cap_defaults :: lanes

definition cap_get :: "capacity_table \<Rightarrow> string \<Rightarrow> string \<Rightarrow> int" where
  "cap_get c provider media =
     (case map_of (cap_limits c) provider of
        None \<Rightarrow> coalesce (map_of (cap_defaults c) media) 0
      | Some lns \<Rightarrow> coalesce (map_of lns media) 0)"

definition cap_replace :: "(string \<times> lanes) list \<Rightarrow> capacity_table \<Rightarrow> capacity_table" where
  "cap_replace new_limits c = c\<lparr>cap_limits := new_limits\<rparr>"

definition lane_limits :: "string list \<Rightarrow> int \<Rightarrow> int \<Rightarrow> int \<Rightarrow> lanes" where
  "lane_limits media_types img vid aud =
     [(''image'', if ''image'' \<in> set media_types then img else 0),
      (''video'', if ''video'' \<in> set media_types then vid else 0),
      (''audio'', if ''audio'' \<in> set media_types then aud else 0)]"

text \<open>
  \<open>from_env\<close>: the environment is a lookup, the provider registry a list of providers with
  the media types of their metadata.
\<close>

definition capacity_from_env ::
  "(string \<Rightarrow> string option) \<Rightarrow> (string \<times> string list) list \<Rightarrow> capacity_table" where
  "capacity_from_env env registry =
     (let image_max = read_int_env (env ''IMAGE_MAX_WORKERS'') 5 1;
          video_max = read_int_env (env ''VIDEO_MAX_WORKERS'') 3 1;
          audio_max = read_int_env (env ''AUDIO_MAX_WORKERS'') 10 1
      in \<lparr>cap_limits = map (\<lambda>(pid, media_types).
              (pid, lane_limits media_types image_max video_max audio_max)) registry,
          cap_defaults = [(''image'', image_max), (''video'', video_max), (''audio'', audio_max)]\<rparr>)"

text \<open>
  \<open>from_db\<close>: a registry entry reads its stored configuration; a custom provider (with its
  models as pairs of enabled and media type) overrides what is there under its id.
\<close>

definition capacity_from_db ::
  "(string \<Rightarrow> string option) \<Rightarrow> (string \<times> string list) list \<Rightarrow>
   (string \<times> (string \<times> string) list) list \<Rightarrow> (string \<times> (bool \<times> string) list) list \<Rightarrow> capacity_table" where
  "capacity_from_db env registry configs custom =
     (let default_image = read_int_env (env ''IMAGE_MAX_WORKERS'') 5 1;
          default_video = read_int_env (env ''VIDEO_MAX_WORKERS'') 3 1;
          default_audio = read_int_env (env ''AUDIO_MAX_WORKERS'') 10 1;
          known = fold (\<lambda>(pid, media_types) limits.
                    (let config = coalesce (map_of configs pid) [] in
                     AList.update pid (lane_limits media_types
                        (parse_lane_max config ''image_max_workers'' default_image)
                        (parse_lane_max config ''video_max_workers'' default_video)
                        (parse_lane_max config ''audio_max_workers'' default_audio)) limits))
                  registry [];
          limits = fold (\<lambda>(pid, models) limits.
                    (let media_types = map snd (filter fst models) in
                     AList.update pid (lane_limits media_types default_image default_video default_audio) limits))
                  custom known
      in \<lparr>cap_limits = limits,
          cap_defaults = [(''image'', default_image), (''video'', default_video), (''audio'', default_audio)]\<rparr>)"

subsection \<open>Slot table\<close>

record 'f occupant =
  occ_task :: 'f
  occ_pending :: bool

type_synonym 'f bucket = "(string \<times> 'f occupant) list"
type_synonym 'f slots = "((string \<times> string) \<times> 'f bucket) list"

definition bucket_of :: "'f slots \<Rightarrow> string \<Rightarrow> string \<Rightarrow> 'f bucket" where
  "bucket_of sl provider media = coalesce (map_of sl (provider, media)) []"

definition slot_register ::
  "string \<Rightarrow> string \<Rightarrow> string \<Rightarrow> 'f \<Rightarrow> bool \<Rightarrow> 'f slots \<Rightarrow> 'f slots" where
  "slot_register provider media tid h pending sl =
     AList.update (provider, media)
       (AList.update tid \<lparr>occ_task = h, occ_pending = pending\<rparr> (bucket_of sl provider media)) sl"

definition slot_promote :: "string \<Rightarrow> string \<Rightarrow> string \<Rightarrow> 'f slots \<Rightarrow> 'f slots" where
  "slot_promote provider media tid sl =
     (case map_of sl (provider, media) of
        None \<Rightarrow> sl
      | Some bucket \<Rightarrow>
          (case map_of bucket tid of
             None \<Rightarrow> sl
           | Some occ \<Rightarrow> AList.update (provider, media)
                          (AList.update tid (occ\<lparr>occ_pending := False\<rparr>) bucket) sl))"

definition slot_release :: "string \<Rightarrow> string \<Rightarrow> string \<Rightarrow> 'f slots \<Rightarrow> 'f slots" where
  "slot_release provider media tid sl =
     (case map_of sl (provider, media) of
        None \<Rightarrow> sl
      | Some bucket \<Rightarrow>
          (let bucket' = AList.delete tid bucket in
           if bucket' = [] then AList.delete (provider, media) sl
           else AList.update (provider, media) bucket' sl))"

definition occupied :: "string \<Rightarrow> string \<Rightarrow> 'f slots \<Rightarrow> nat" where
  "occupied provider media sl = length (bucket_of sl provider media)"

definition has_room :: "string \<Rightarrow> string \<Rightarrow> int \<Rightarrow> 'f slots \<Rightarrow> bool" where
  "has_room provider media cap sl = (if cap \<le> 0 then False else int (occupied provider media sl) < cap)"

definition occupied_providers :: "string \<Rightarrow> 'f slots \<Rightarrow> string list" where
  "occupied_providers media sl =
     map (\<lambda>((p, _), _). p) (filter (\<lambda>((_, m), bucket). m = media \<and> bucket \<noteq> []) sl)"

fun find_by_task :: "string \<Rightarrow> 'f slots \<Rightarrow> 'f option" where
  "find_by_task tid [] = None"
| "find_by_task tid ((_, bucket) # sl) =
     (case map_of bucket tid of Some occ \<Rightarrow> Some (occ_task occ) | None \<Rightarrow> find_by_task tid sl)"

definition finished_occ :: "('f \<Rightarrow> bool) \<Rightarrow> 'f occupant \<Rightarrow> bool" where
  "finished_occ is_done occ = (\<not> occ_pending occ \<and> is_done (occ_task occ))"

fun drain_finished :: "('f \<Rightarrow> bool) \<Rightarrow> 'f slots \<Rightarrow> (string \<times> 'f) list \<times> 'f slots" where
  "drain_finished is_done [] = ([], [])"
| "drain_finished is_done ((key, bucket) # sl) =
     (case drain_finished is_done sl of
        (finished, rest) \<Rightarrow>
          (let kept = filter (\<lambda>(_, occ). \<not> finished_occ is_done occ) bucket in
           (map (\<lambda>(tid, occ). (tid, occ_task occ)) (filter (\<lambda>(_, occ). finished_occ is_done occ) bucket) @ finished,
            if kept = [] then rest else (key, kept) # rest)))"

definition active_task_ids :: "'f slots \<Rightarrow> string list" where
  "active_task_ids sl = concat (map (\<lambda>(_, bucket). map fst bucket) sl)"

definition all_active_tasks :: "'f slots \<Rightarrow> 'f list" where
  "all_active_tasks sl = concat (map (\<lambda>(_, bucket). map (occ_task o snd) bucket) sl)"

subsection \<open>Well-formed tables\<close>

text \<open>Keys are unique, as in any dictionary, and no bucket is empty.\<close>

definition slots_ok :: "'f slots \<Rightarrow> bool" where
  "slots_ok sl =
     (distinct (map fst sl) \<and> (\<forall>(k, bucket)\<in>set sl. distinct (map fst bucket) \<and> bucket \<noteq> []))"

lemma slots_ok_empty [simp]: "slots_ok []"
  by (simp add: slots_ok_def)

lemma slots_okD: "slots_ok sl \<Longrightarrow> map_of sl k = Some bucket \<Longrightarrow> distinct (map fst bucket) \<and> bucket \<noteq> []"
  unfolding slots_ok_def by (auto dest: map_of_SomeD)

lemma bucket_distinct: "slots_ok sl \<Longrightarrow> distinct (map fst (bucket_of sl p m))"
  by (cases "map_of sl (p, m)") (auto simp: bucket_of_def dest: slots_okD)

lemma update_not_Nil [simp]: "AList.update k v al \<noteq> []"
  by (cases al) auto

lemma in_update: "x \<in> set (AList.update k v al) \<Longrightarrow> x = (k, v) \<or> x \<in> set al"
  by (induction al) (auto split: if_splits)

lemma slots_ok_update:
  "slots_ok sl \<Longrightarrow> distinct (map fst b) \<Longrightarrow> b \<noteq> [] \<Longrightarrow> slots_ok (AList.update k b sl)"
  unfolding slots_ok_def by (auto intro: distinct_update dest!: in_update)

lemma slots_ok_register: "slots_ok sl \<Longrightarrow> slots_ok (slot_register p m tid h pend sl)"
  unfolding slot_register_def
  by (intro slots_ok_update) (simp_all add: bucket_distinct distinct_update)

lemma slots_ok_promote: "slots_ok sl \<Longrightarrow> slots_ok (slot_promote p m tid sl)"
  unfolding slot_promote_def
  by (auto split: option.split intro!: slots_ok_update distinct_update dest: slots_okD)

lemma delete_subset: "set (AList.delete k al) \<subseteq> set al"
  by (simp add: AList.delete_eq)

lemma slots_ok_delete: "slots_ok sl \<Longrightarrow> slots_ok (AList.delete k sl)"
  unfolding slots_ok_def using delete_subset [of k sl] by (auto simp: AList.distinct_delete)

lemma slots_ok_release: "slots_ok sl \<Longrightarrow> slots_ok (slot_release p m tid sl)"
  unfolding slot_release_def
  by (auto simp: Let_def AList.distinct_delete split: option.split
      intro!: slots_ok_update slots_ok_delete dest: slots_okD)

lemma drain_keys: "fst ` set (snd (drain_finished is_done sl)) \<subseteq> fst ` set sl"
proof (induction is_done sl rule: drain_finished.induct)
  case (2 is_done key bucket sl)
  obtain fin rest where r: "drain_finished is_done sl = (fin, rest)" by fastforce
  with 2 have "fst ` set rest \<subseteq> fst ` set sl" by simp
  then show ?case by (simp add: r Let_def) blast
qed simp

lemma slots_ok_drain: "slots_ok sl \<Longrightarrow> slots_ok (snd (drain_finished is_done sl))"
proof (induction is_done sl rule: drain_finished.induct)
  case (2 is_done key bucket sl)
  obtain fin rest where r: "drain_finished is_done sl = (fin, rest)" by fastforce
  have sl: "slots_ok sl" and b: "distinct (map fst bucket)" and k: "key \<notin> fst ` set sl"
    using 2(2) by (auto simp: slots_ok_def)
  with 2(1) r have "slots_ok rest" by simp
  moreover have "key \<notin> fst ` set rest" using drain_keys [of is_done sl] r k by auto
  moreover have "distinct (map fst (filter (\<lambda>(_, occ). \<not> finished_occ is_done occ) bucket))"
    using b by (rule distinct_map_filter)
  ultimately show ?case by (auto simp: r Let_def slots_ok_def)
qed simp

subsection \<open>The flat map a slot table implements\<close>

definition slot_view :: "'f slots \<Rightarrow> string \<times> string \<times> string \<rightharpoonup> 'f occupant" where
  "slot_view sl k = (case k of (p, m, t) \<Rightarrow> map_of (bucket_of sl p m) t)"

lemma bucket_of_update:
  "bucket_of (AList.update (p, m) b sl) p' m' = (if p' = p \<and> m' = m then b else bucket_of sl p' m')"
  by (simp add: bucket_of_def AList.update_conv')

lemma bucket_of_delete:
  "bucket_of (AList.delete (p, m) sl) p' m' = (if p' = p \<and> m' = m then [] else bucket_of sl p' m')"
  by (simp add: bucket_of_def AList.delete_conv')

lemma view_register:
  "slot_view (slot_register p m t h pend sl) = (slot_view sl)((p, m, t) \<mapsto> \<lparr>occ_task = h, occ_pending = pend\<rparr>)"
  by (rule ext) (auto simp: slot_view_def slot_register_def bucket_of_update AList.update_conv' split: prod.splits)

lemma view_promote:
  "slot_view (slot_promote p m t sl) =
     (slot_view sl)((p, m, t) := map_option (\<lambda>occ. occ\<lparr>occ_pending := False\<rparr>) (slot_view sl (p, m, t)))"
  by (rule ext)
     (auto simp: slot_view_def slot_promote_def bucket_of_update AList.update_conv' bucket_of_def
       split: prod.splits option.splits)

lemma view_release: "slot_view (slot_release p m t sl) = (slot_view sl)((p, m, t) := None)"
proof (rule ext)
  fix k :: "string \<times> string \<times> string"
  obtain p' m' t' where k: "k = (p', m', t')" by (cases k)
  show "slot_view (slot_release p m t sl) k = ((slot_view sl)((p, m, t) := None)) k"
  proof (cases "map_of sl (p, m)")
    case None
    then show ?thesis by (auto simp: k slot_view_def slot_release_def bucket_of_def)
  next
    case (Some b)
    have "bucket_of (slot_release p m t sl) p' m' =
        (if p' = p \<and> m' = m then AList.delete t b else bucket_of sl p' m')"
      by (simp add: slot_release_def Some Let_def bucket_of_update bucket_of_delete)
    moreover have "bucket_of sl p m = b" by (simp add: bucket_of_def Some)
    ultimately show ?thesis by (auto simp: k slot_view_def AList.delete_conv')
  qed
qed

lemma drain_bucket:
  assumes "distinct (map fst sl)"
  shows "bucket_of (snd (drain_finished is_done sl)) p m =
           filter (\<lambda>(_, occ). \<not> finished_occ is_done occ) (bucket_of sl p m)"
  using assms
proof (induction is_done sl rule: drain_finished.induct)
  case (2 is_done key bucket sl)
  obtain fin rest where r: "drain_finished is_done sl = (fin, rest)" by fastforce
  have "map_of rest key = None"
    using drain_keys [of is_done sl] r 2(2) by (auto simp: map_of_eq_None_iff)
  with 2 r show ?case
    by (auto simp: Let_def bucket_of_def)
qed (simp add: bucket_of_def)

lemma map_of_filter_snd:
  "distinct (map fst b) \<Longrightarrow> map_of (filter (\<lambda>(_, v). P v) b) x =
     (case map_of b x of None \<Rightarrow> None | Some v \<Rightarrow> if P v then Some v else None)"
proof (induction b)
  case (Cons a b)
  obtain k v where a: "a = (k, v)" by fastforce
  have "map_of b k = None" using Cons.prems a by (simp add: map_of_eq_None_iff)
  with Cons a show ?case by auto
qed simp

lemma view_drain:
  assumes "slots_ok sl"
  shows "slot_view (snd (drain_finished is_done sl)) k =
           (case slot_view sl k of None \<Rightarrow> None
            | Some occ \<Rightarrow> if finished_occ is_done occ then None else Some occ)"
  using assms bucket_distinct [OF assms]
  by (cases k) (simp add: slot_view_def drain_bucket slots_ok_def map_of_filter_snd split: option.split)

lemma view_Some_iff:
  assumes "slots_ok sl"
  shows "slot_view sl (p, m, t) = Some occ \<longleftrightarrow> (\<exists>b. ((p, m), b) \<in> set sl \<and> (t, occ) \<in> set b)"
proof (cases "map_of sl (p, m)")
  case None
  then have "((p, m), b) \<notin> set sl" for b by (auto simp: map_of_eq_None_iff image_iff)
  with None show ?thesis by (simp add: slot_view_def bucket_of_def)
next
  case (Some b)
  have d: "distinct (map fst sl)" using assms by (simp add: slots_ok_def)
  have only: "((p, m), b') \<in> set sl \<longleftrightarrow> b' = b" for b'
    unfolding map_of_eq_Some_iff [OF d, symmetric] Some by auto
  have "map_of b t = Some occ \<longleftrightarrow> (t, occ) \<in> set b"
    using slots_okD [OF assms Some] by (intro map_of_eq_Some_iff) simp
  then show ?thesis by (simp add: slot_view_def bucket_of_def Some only)
qed

lemma drained_iff:
  "(t, h) \<in> set (fst (drain_finished is_done sl)) \<longleftrightarrow>
     (\<exists>k b occ. (k, b) \<in> set sl \<and> (t, occ) \<in> set b \<and> finished_occ is_done occ \<and> occ_task occ = h)"
proof (induction is_done sl rule: drain_finished.induct)
  case (2 is_done key bucket sl)
  obtain fin rest where r: "drain_finished is_done sl = (fin, rest)" by fastforce
  have "(t, h) \<in> set (fst (drain_finished is_done ((key, bucket) # sl))) \<longleftrightarrow>
      (\<exists>occ. (t, occ) \<in> set bucket \<and> finished_occ is_done occ \<and> occ_task occ = h) \<or> (t, h) \<in> set fin"
    by (auto simp: r Let_def)
  also have "(t, h) \<in> set fin \<longleftrightarrow>
      (\<exists>k b occ. (k, b) \<in> set sl \<and> (t, occ) \<in> set b \<and> finished_occ is_done occ \<and> occ_task occ = h)"
    using 2 r by simp
  finally show ?case by (simp only: list.set) blast
qed simp

lemma find_by_task_None: "find_by_task t sl = None \<longleftrightarrow> t \<notin> set (active_task_ids sl)"
proof (induction t sl rule: find_by_task.induct)
  case (2 tid k bucket sl)
  have "map_of bucket tid = None \<longleftrightarrow> tid \<notin> fst ` set bucket" by (rule map_of_eq_None_iff)
  with 2 show ?case by (auto simp: active_task_ids_def split: option.split)
qed (simp add: active_task_ids_def)

text \<open>The slot table implements a flat map from (provider, media, task) to occupants: each
  operation updates that map and keeps the table well-formed, draining removes exactly the
  finished occupants that are not pending and returns them, and the queries read the map.\<close>

theorem slot_table_refines_map:
  assumes "slots_ok sl"
  shows "slot_view (slot_register p m t h pend sl) = (slot_view sl)((p, m, t) \<mapsto> \<lparr>occ_task = h, occ_pending = pend\<rparr>) \<and>
    slot_view (slot_promote p m t sl) =
      (slot_view sl)((p, m, t) := map_option (\<lambda>occ. occ\<lparr>occ_pending := False\<rparr>) (slot_view sl (p, m, t))) \<and>
    slot_view (slot_release p m t sl) = (slot_view sl)((p, m, t) := None) \<and>
    (\<forall>k. slot_view (snd (drain_finished is_done sl)) k =
       (case slot_view sl k of None \<Rightarrow> None
        | Some occ \<Rightarrow> if finished_occ is_done occ then None else Some occ)) \<and>
    (\<forall>x h'. (x, h') \<in> set (fst (drain_finished is_done sl)) \<longleftrightarrow>
       (\<exists>p' m' occ. slot_view sl (p', m', x) = Some occ \<and> finished_occ is_done occ \<and> occ_task occ = h')) \<and>
    (find_by_task t sl = None \<longleftrightarrow> (\<forall>p' m'. slot_view sl (p', m', t) = None)) \<and>
    slots_ok (slot_register p m t h pend sl) \<and> slots_ok (slot_promote p m t sl) \<and>
    slots_ok (slot_release p m t sl) \<and> slots_ok (snd (drain_finished is_done sl))"
proof -
  have "(x, h') \<in> set (fst (drain_finished is_done sl)) \<longleftrightarrow>
       (\<exists>p' m' occ. slot_view sl (p', m', x) = Some occ \<and> finished_occ is_done occ \<and> occ_task occ = h')" for x h'
    unfolding drained_iff view_Some_iff [OF assms] by (metis surj_pair)
  moreover have "t \<in> set (active_task_ids sl) \<longleftrightarrow> (\<exists>p' m' occ. slot_view sl (p', m', t) = Some occ)"
    unfolding view_Some_iff [OF assms] active_task_ids_def by force
  then have "find_by_task t sl = None \<longleftrightarrow> (\<forall>p' m'. slot_view sl (p', m', t) = None)"
    unfolding find_by_task_None by (metis not_Some_eq)
  ultimately show ?thesis
    using view_drain [OF assms] assms
    by (simp add: view_register view_promote view_release slots_ok_register slots_ok_promote
        slots_ok_release slots_ok_drain)
qed

theorem slot_table_refines_map_witness:
  "slot_view (slot_release ''p'' ''image'' ''a'' [((''p'', ''image''), [(''a'', \<lparr>occ_task = (1::nat), occ_pending = False\<rparr>)])])
     (''p'', ''image'', ''a'') = None"
proof -
  have "slots_ok [((''p'', ''image''), [(''a'', \<lparr>occ_task = (1::nat), occ_pending = False\<rparr>)])]"
    by (simp add: slots_ok_def)
  from slot_table_refines_map [OF this, of "''p''" "''image''" "''a''" 0 False "\<lambda>_. True"] show ?thesis by simp
qed

subsection \<open>The ledger interface\<close>

text \<open>
  What the claim loop relies on: an occupancy count per key that a registration raises by at
  most one, at its own key. Registering only where there is room keeps every key within the
  larger of its limit and what it held before.
\<close>

locale slot_ledger =
  fixes occupancy :: "'s \<Rightarrow> 'k \<Rightarrow> nat" and enter :: "'k \<Rightarrow> 'o \<Rightarrow> 's \<Rightarrow> 's"
  assumes enter_same: "occupancy (enter k x s) k \<le> Suc (occupancy s k)"
    and enter_other: "k' \<noteq> k \<Longrightarrow> occupancy (enter k x s) k' = occupancy s k'"
begin

definition in_limits :: "('k \<Rightarrow> nat) \<Rightarrow> ('k \<Rightarrow> nat) \<Rightarrow> 's \<Rightarrow> bool" where
  "in_limits limit base s = (\<forall>k. occupancy s k \<le> max (base k) (limit k))"

lemma limits_start: "in_limits limit (occupancy s) s"
  by (simp add: in_limits_def)

lemma limits_enter:
  assumes "in_limits limit base s" and "occupancy s k < limit k"
  shows "in_limits limit base (enter k x s)"
proof -
  have "occupancy (enter k x s) k' \<le> max (base k') (limit k')" for k'
  proof (cases "k' = k")
    case True
    with enter_same [of k x s] assms(2) show ?thesis by (simp add: max_def)
  next
    case False
    with enter_other [OF False, of x s] assms(1) show ?thesis by (simp add: in_limits_def)
  qed
  then show ?thesis by (simp add: in_limits_def)
qed

end

lemma length_update_le: "length (AList.update k v al) \<le> Suc (length al)"
  by (induction al) auto

interpretation ledger: slot_ledger
  "\<lambda>sl k. occupied (fst k) (snd k) sl" "\<lambda>k x. slot_register (fst k) (snd k) (fst x) (snd x) pending"
  for pending
proof
  fix k x and sl :: "'f slots"
  show "occupied (fst k) (snd k) (slot_register (fst k) (snd k) (fst x) (snd x) pending sl)
        \<le> Suc (occupied (fst k) (snd k) sl)"
    by (cases k) (simp add: occupied_def slot_register_def bucket_of_update length_update_le)
next
  fix k k' :: "string \<times> string" and x and sl :: "'f slots" assume "k' \<noteq> k"
  then show "occupied (fst k') (snd k') (slot_register (fst k) (snd k) (fst x) (snd x) pending sl)
        = occupied (fst k') (snd k') sl"
    by (cases k; cases k') (auto simp: occupied_def slot_register_def bucket_of_update)
qed

lemma occupied_provider_listed: "0 < occupied p m sl \<Longrightarrow> p \<in> set (occupied_providers m sl)"
  by (cases "map_of sl (p, m)")
     (force simp: occupied_def bucket_of_def occupied_providers_def dest: map_of_SomeD)+

end
