(* ===== verification/TaskFailure.thy ===== *)
theory TaskFailure
  imports PyJson "HOL-Library.Multiset"
begin

text \<open>
  The failure reasons the worker stores (\<open>lib/task_failure.py\<close>): a code in brackets, and the
  parameters as a JSON object with sorted keys. Parameters are strings here, as every call of
  the worker passes; \<open>json_string\<close> is the escaping of \<open>json.dumps(ensure_ascii=False)\<close>.
\<close>

definition failure_codes :: "(string \<times> string) list" where
  "failure_codes =
     [(''provider_unsupported_media'', ''task_fail_provider_unsupported_media''),
      (''restart_lost_image'', ''task_fail_restart_lost_image''),
      (''restart_lost_audio'', ''task_fail_restart_lost_audio''),
      (''restart_lost_no_job_id'', ''task_fail_restart_lost_no_job_id''),
      (''restart_lost_resume_no_job_id'', ''task_fail_restart_lost_resume_no_job_id''),
      (''resume_unsupported_provider'', ''task_fail_resume_unsupported_provider''),
      (''resume_unsupported_capacity_zero'', ''task_fail_resume_unsupported_capacity_zero''),
      (''resume_unsupported_detail'', ''task_fail_resume_unsupported_detail''),
      (''resume_expired_detail'', ''task_fail_resume_expired_detail'')]"

definition hex_digit :: "nat \<Rightarrow> char" where
  "hex_digit n = (if n < 10 then char_of (48 + n) else char_of (87 + n))"

definition json_char :: "char \<Rightarrow> string" where
  "json_char c =
     (let n = of_char c :: nat in
      if c = CHR 0x22 then [CHR 0x5C, CHR 0x22]
      else if c = CHR 0x5C then [CHR 0x5C, CHR 0x5C]
      else if n = 10 then [CHR 0x5C, CHR ''n'']
      else if n = 13 then [CHR 0x5C, CHR ''r'']
      else if n = 9 then [CHR 0x5C, CHR ''t'']
      else if n = 8 then [CHR 0x5C, CHR ''b'']
      else if n = 12 then [CHR 0x5C, CHR ''f'']
      else if n < 32 then [CHR 0x5C, CHR ''u'', CHR ''0'', CHR ''0'', hex_digit (n div 16), hex_digit (n mod 16)]
      else [c])"

definition json_string :: "string \<Rightarrow> string" where
  "json_string s = [CHR 0x22] @ concat (map json_char s) @ [CHR 0x22]"

text \<open>Characters by code point: the order in which \<open>sort_keys\<close> compares strings.\<close>

definition str_key :: "string \<Rightarrow> nat list" where
  "str_key s = map of_char s"

fun lex_le :: "nat list \<Rightarrow> nat list \<Rightarrow> bool" where
  "lex_le [] ys = True"
| "lex_le (x # xs) [] = False"
| "lex_le (x # xs) (y # ys) = (x < y \<or> (x = y \<and> lex_le xs ys))"

fun insert_param :: "string \<times> string \<Rightarrow> (string \<times> string) list \<Rightarrow> (string \<times> string) list" where
  "insert_param p [] = [p]"
| "insert_param p (q # qs) =
     (if lex_le (str_key (fst p)) (str_key (fst q)) then p # q # qs else q # insert_param p qs)"

definition sort_params :: "(string \<times> string) list \<Rightarrow> (string \<times> string) list" where
  "sort_params ps = foldr insert_param ps []"

definition json_params :: "(string \<times> string) list \<Rightarrow> string" where
  "json_params ps =
     ''{'' @ concat (case map (\<lambda>(k, v). json_string k @ '': '' @ json_string v) (sort_params ps) of
                       [] \<Rightarrow> [] | x # xs \<Rightarrow> x # map (\<lambda>y. '', '' @ y) xs) @ ''}''"

text \<open>\<open>None\<close> is the \<open>KeyError\<close> of an undeclared code.\<close>

definition encode_failure :: "string \<Rightarrow> (string \<times> string) list \<Rightarrow> string option" where
  "encode_failure code params =
     (if code \<notin> set (map fst failure_codes) then None
      else Some (if params \<noteq> [] then ''['' @ code @ ''] '' @ json_params params else ''['' @ code @ '']''))"

text \<open>A call with a declared code, as all calls of the worker are.\<close>

definition failure_text :: "string \<Rightarrow> (string \<times> string) list \<Rightarrow> string" where
  "failure_text code params = coalesce (encode_failure code params) []"

section \<open>Reading a stored reason\<close>

text \<open>
  \<open>json.loads\<close>, as far as a stored reason can reach it: the scanner of Python's \<open>json\<close> module on
  8-bit characters. A \<open>\u\<close> escape beyond them decodes to a question mark, a number with a
  fraction or an exponent to the rational it spells, and \<open>NaN\<close> and the infinities are not read.
  \<open>None\<close> is the \<open>ValueError\<close>.
\<close>

definition json_space :: "char \<Rightarrow> bool" where
  "json_space c = (c \<in> {CHR '' '', CHR 0x09, CHR 0x0A, CHR 0x0D})"

definition skip_ws :: "string \<Rightarrow> string" where
  "skip_ws s = dropWhile json_space s"

definition hex_value :: "char \<Rightarrow> nat option" where
  "hex_value c =
     (let n = of_char c :: nat in
      if 48 \<le> n \<and> n \<le> 57 then Some (n - 48)
      else if 97 \<le> n \<and> n \<le> 102 then Some (n - 87)
      else if 65 \<le> n \<and> n \<le> 70 then Some (n - 55) else None)"

definition hex4 :: "string \<Rightarrow> nat option" where
  "hex4 ds =
     (if length ds = 4 \<and> list_all (\<lambda>d. hex_value d \<noteq> None) ds
      then Some (foldl (\<lambda>n d. 16 * n + coalesce (hex_value d) 0) 0 ds) else None)"

definition unescape :: "char \<Rightarrow> char option" where
  "unescape c =
     (if c \<in> {CHR 0x22, CHR 0x5C, CHR ''/''} then Some c
      else map_of [(CHR ''b'', CHR 0x08), (CHR ''f'', CHR 0x0C), (CHR ''n'', CHR 0x0A),
                   (CHR ''r'', CHR 0x0D), (CHR ''t'', CHR 0x09)] c)"

text \<open>The characters of a string literal after its opening quote, and what follows it.\<close>

function scan_string :: "string \<Rightarrow> (string \<times> string) option" where
  "scan_string s =
     (case s of
        [] \<Rightarrow> None
      | c # r \<Rightarrow>
          if c = CHR 0x22 then Some ([], r)
          else if c = CHR 0x5C then
            (case r of
               [] \<Rightarrow> None
             | e # r' \<Rightarrow>
                 if e = CHR ''u'' then
                   (case hex4 (take 4 r') of
                      None \<Rightarrow> None
                    | Some n \<Rightarrow> map_option (\<lambda>(t, q). ((if n < 256 then char_of n else CHR ''?'') # t, q))
                                  (scan_string (drop 4 r')))
                 else
                   (case unescape e of
                      None \<Rightarrow> None
                    | Some d \<Rightarrow> map_option (\<lambda>(t, q). (d # t, q)) (scan_string r')))
          else if of_char c < (32 :: nat) then None
          else map_option (\<lambda>(t, q). (c # t, q)) (scan_string r))"
  by pat_completeness auto
termination by (relation "measure length") auto

declare scan_string.simps [simp del]

text \<open>Numbers: \<open>-?(0|[1-9][0-9]*)(\.[0-9]+)?([eE][-+]?[0-9]+)?\<close>.\<close>

definition digits_value :: "string \<Rightarrow> nat" where
  "digits_value ds = nat_of_digits 0 ds"

definition scan_fraction :: "string \<Rightarrow> string \<times> string" where
  "scan_fraction s =
     (case s of
        [] \<Rightarrow> ([], s)
      | c # r \<Rightarrow> if c = CHR ''.'' \<and> takeWhile is_digit r \<noteq> [] then (takeWhile is_digit r, dropWhile is_digit r) else ([], s))"

definition scan_exponent :: "string \<Rightarrow> int option \<times> string" where
  "scan_exponent s =
     (case s of
        [] \<Rightarrow> (None, s)
      | c # r \<Rightarrow>
          let neg = (r \<noteq> [] \<and> hd r = CHR ''-'');
              r' = (if r \<noteq> [] \<and> hd r \<in> {CHR ''-'', CHR ''+''} then tl r else r);
              ds = takeWhile is_digit r'
          in if c \<in> {CHR ''e'', CHR ''E''} \<and> ds \<noteq> []
             then (Some (if neg then - int (digits_value ds) else int (digits_value ds)), dropWhile is_digit r')
             else (None, s))"

definition power10 :: "int \<Rightarrow> rat" where
  "power10 e = (if e < 0 then 1 / 10 ^ nat (- e) else 10 ^ nat e)"

definition scan_number :: "string \<Rightarrow> (json \<times> string) option" where
  "scan_number s =
     (let neg = (s \<noteq> [] \<and> hd s = CHR ''-'');
          r = (if neg then tl s else s);
          ds = (if r \<noteq> [] \<and> hd r = CHR ''0'' then ''0'' else takeWhile is_digit r);
          (fs, r2) = scan_fraction (drop (length ds) r);
          (e, r3) = scan_exponent r2;
          m = int (digits_value (ds @ fs));
          m' = (if neg then - m else m)
      in if ds = [] then None
         else if fs = [] \<and> e = None then Some (JInt m', r3)
         else Some (JFloat (of_int m' * power10 (coalesce e 0 - int (length fs))), r3))"

definition scan_literal :: "string \<Rightarrow> (json \<times> string) option" where
  "scan_literal s =
     (if prefix ''null'' s then Some (JNull, drop 4 s)
      else if prefix ''true'' s then Some (JBool True, drop 4 s)
      else if prefix ''false'' s then Some (JBool False, drop 5 s)
      else scan_number s)"

definition pairs_dict :: "(string \<times> json) list \<Rightarrow> dict" where
  "pairs_dict kvs = foldl (\<lambda>d (k, v). dict_put d k v) [] kvs"

lemma skip_ws_length: "length (skip_ws s) \<le> length s"
  by (simp add: skip_ws_def length_dropWhile_le)

lemma skip_ws_less: "length x < n \<Longrightarrow> length (skip_ws x) < n"
  using skip_ws_length [of x] by simp

lemma skip_ws_measure:
  assumes "length x < n"
  shows "Suc (2 * length (skip_ws x)) \<le> 2 * n" "length (skip_ws x) \<le> n"
  using skip_ws_less [OF assms] by simp_all

lemma skip_ws_ConsD: "skip_ws s = c # r \<Longrightarrow> length r < length s"
  using skip_ws_length [of s] by simp

lemma scan_string_shorter: "scan_string s = Some (t, q) \<Longrightarrow> length q < length s"
proof (induction s arbitrary: t q rule: measure_induct_rule [of length])
  case (less s)
  have step: "length q' < length y" if "scan_string y = Some (t', q')" "length y < length s" for y t' q'
    using less.IH [OF that(2) that(1)] .
  from less.prems show ?case
    by (subst (asm) scan_string.simps)
       (auto split: list.splits if_splits option.splits dest!: step)
qed

text \<open>
  Values, the members of an object from a key on, and the elements of an array from a value on.
  The tests on lengths only make the recursion evidently end: by \<open>scan_shorter\<close> they never fail.
\<close>

function scan_value :: "string \<Rightarrow> (json \<times> string) option"
  and scan_members :: "string \<Rightarrow> ((string \<times> json) list \<times> string) option"
  and scan_elements :: "string \<Rightarrow> (json list \<times> string) option" where
  "scan_value s =
     (case s of
        [] \<Rightarrow> None
      | c # r \<Rightarrow>
          if c = CHR 0x22 then map_option (\<lambda>(t, q). (JStr t, q)) (scan_string r)
          else if c = CHR ''{'' then
            (if skip_ws r \<noteq> [] \<and> hd (skip_ws r) = CHR ''}'' then Some (JObj [], tl (skip_ws r))
             else map_option (\<lambda>(kvs, q). (JObj (pairs_dict kvs), q)) (scan_members (skip_ws r)))
          else if c = CHR ''['' then
            (if skip_ws r \<noteq> [] \<and> hd (skip_ws r) = CHR '']'' then Some (JArr [], tl (skip_ws r))
             else map_option (\<lambda>(vs, q). (JArr vs, q)) (scan_elements (skip_ws r)))
          else scan_literal s)"
| "scan_members s =
     (if s = [] \<or> hd s \<noteq> CHR 0x22 then None
      else case scan_string (tl s) of
             None \<Rightarrow> None
           | Some (k, r) \<Rightarrow>
               (case skip_ws r of
                  [] \<Rightarrow> None
                | c # r' \<Rightarrow>
                    if c \<noteq> CHR '':'' \<or> \<not> length r' < length s then None
                    else case scan_value (skip_ws r') of
                           None \<Rightarrow> None
                         | Some (v, q) \<Rightarrow>
                             (case skip_ws q of
                                [] \<Rightarrow> None
                              | d # q' \<Rightarrow>
                                  if d = CHR ''}'' then Some ([(k, v)], q')
                                  else if d = CHR '','' \<and> length q' < length s
                                  then map_option (\<lambda>(kvs, z). ((k, v) # kvs, z)) (scan_members (skip_ws q'))
                                  else None)))"
| "scan_elements s =
     (case scan_value s of
        None \<Rightarrow> None
      | Some (v, q) \<Rightarrow>
          (case skip_ws q of
             [] \<Rightarrow> None
           | d # q' \<Rightarrow>
               if d = CHR '']'' then Some ([v], q')
               else if d = CHR '','' \<and> length q' < length s
               then map_option (\<lambda>(vs, z). (v # vs, z)) (scan_elements (skip_ws q'))
               else None))"
  by pat_completeness auto
termination
  by (relation "measure (\<lambda>x. case x of Inl s \<Rightarrow> 2 * length s
        | Inr y \<Rightarrow> (case y of Inl s \<Rightarrow> 2 * length s + 1 | Inr s \<Rightarrow> 2 * length s + 1))")
     (auto simp: skip_ws_length skip_ws_measure less_Suc_eq_le)

declare scan_value.simps [simp del] scan_members.simps [simp del] scan_elements.simps [simp del]

definition json_parse :: "string \<Rightarrow> json option" where
  "json_parse s =
     (case scan_value (skip_ws s) of
        None \<Rightarrow> None
      | Some (v, q) \<Rightarrow> if skip_ws q = [] then Some v else None)"

text \<open>
  \<open>_STRUCTURED_RE.match\<close>: the code, and the braces with what is between them. The final \<open>$\<close> of the
  expression also matches before one line feed at the end.
\<close>

definition is_word :: "char \<Rightarrow> bool" where
  "is_word c =
     (let n = of_char c :: nat in
      is_digit c \<or> (65 \<le> n \<and> n \<le> 90) \<or> (97 \<le> n \<and> n \<le> 122) \<or> c = CHR ''_'')"

definition drop_final_newline :: "string \<Rightarrow> string" where
  "drop_final_newline s = (if s \<noteq> [] \<and> last s = CHR 0x0A then butlast s else s)"

definition match_structured :: "string \<Rightarrow> (string \<times> string option) option" where
  "match_structured s =
     (if s = [] \<or> hd s \<noteq> CHR ''['' then None
      else let code = takeWhile is_word (tl s); r = dropWhile is_word (tl s) in
        if code = [] \<or> r = [] \<or> hd r \<noteq> CHR '']'' then None
        else let params = drop_final_newline (tl r) in
          if params = [] then Some (code, None)
          else if prefix '' {'' params \<and> 2 < length params \<and> last params = CHR ''}'' then Some (code, Some (tl params))
          else None)"

text \<open>\<open>translate key **params\<close> is the request's translator.\<close>

definition render_failure :: "string option \<Rightarrow> (string \<Rightarrow> dict \<Rightarrow> string) \<Rightarrow> string option" where
  "render_failure message translate =
     (case message of
        None \<Rightarrow> None
      | Some m \<Rightarrow>
          if m = [] then message
          else case match_structured m of
                 None \<Rightarrow> message
               | Some (code, raw) \<Rightarrow>
                   (case map_of failure_codes code of
                      None \<Rightarrow> message
                    | Some key \<Rightarrow>
                        (case raw of
                           None \<Rightarrow> Some (translate key [])
                         | Some t \<Rightarrow>
                             (case json_parse t of
                                Some (JObj params) \<Rightarrow> Some (translate key params)
                              | _ \<Rightarrow> message))))"

text \<open>Every scanner consumes at least a character when it succeeds.\<close>

lemma scan_fraction_shorter: "length (snd (scan_fraction s)) \<le> length s"
  by (auto simp: scan_fraction_def length_dropWhile_le le_SucI split: list.splits)

lemma scan_exponent_shorter: "length (snd (scan_exponent s)) \<le> length s"
  by (auto simp: scan_exponent_def Let_def split: list.splits
      intro: le_SucI order_trans [OF length_dropWhile_le])

lemma scan_number_shorter:
  assumes "scan_number s = Some (v, q)"
  shows "length q < length s"
proof -
  let ?r = "if s \<noteq> [] \<and> hd s = CHR ''-'' then tl s else s"
  let ?ds = "if ?r \<noteq> [] \<and> hd ?r = CHR ''0'' then ''0'' else takeWhile is_digit ?r"
  from assms have ds: "?ds \<noteq> []"
    and q: "q = snd (scan_exponent (snd (scan_fraction (drop (length ?ds) ?r))))"
    unfolding scan_number_def Let_def by (auto split: prod.splits if_splits)
  from ds have "?r \<noteq> []" by auto
  then have "length ?r \<le> length s" "0 < length ?r" by auto
  moreover from ds have "0 < length ?ds" by (rule length_greater_0_conv [THEN iffD2])
  moreover have "length q \<le> length ?r - length ?ds"
    unfolding q using scan_fraction_shorter [of "drop (length ?ds) ?r"]
      scan_exponent_shorter [of "snd (scan_fraction (drop (length ?ds) ?r))"]
    by (simp only: length_drop) 
  ultimately show ?thesis by linarith
qed

lemma scan_literal_shorter: "scan_literal s = Some (v, q) \<Longrightarrow> length q < length s"
  by (auto simp: scan_literal_def prefix_def dest: scan_number_shorter split: if_splits)

lemma scan_shorter_all:
  "(\<forall>v q. scan_value s = Some (v, q) \<longrightarrow> length q < length s) \<and>
   (\<forall>kvs q. scan_members s = Some (kvs, q) \<longrightarrow> length q < length s) \<and>
   (\<forall>vs q. scan_elements s = Some (vs, q) \<longrightarrow> length q < length s)"
proof (induction s rule: measure_induct_rule [of length])
  case (less s)
  have smaller:
    "\<And>v q y. scan_value y = Some (v, q) \<Longrightarrow> length y < length s \<Longrightarrow> length q < length y"
    "\<And>kvs q y. scan_members y = Some (kvs, q) \<Longrightarrow> length y < length s \<Longrightarrow> length q < length y"
    "\<And>vs q y. scan_elements y = Some (vs, q) \<Longrightarrow> length y < length s \<Longrightarrow> length q < length y"
    using less.IH by blast+
  have V: "length q < length s" if "scan_value s = Some (v, q)" for v q
  proof (cases s)
    case (Cons c r)
    then have "length (skip_ws r) < length s" "length (tl (skip_ws r)) < length s"
      using skip_ws_length [of r] by simp_all
    with that Cons show ?thesis
      by (subst (asm) scan_value.simps)
         (auto split: if_splits dest!: scan_string_shorter scan_literal_shorter smaller)
  qed (use that in \<open>simp add: scan_value.simps\<close>)
  moreover have "length q < length s" if "scan_members s = Some (kvs, q)" for kvs q
    using that
    by (subst (asm) scan_members.simps)
       (auto split: list.splits if_splits option.splits
         dest!: scan_string_shorter skip_ws_ConsD smaller less_le_trans [OF _ skip_ws_length]
         simp: skip_ws_less)
  moreover have "length q < length s" if "scan_elements s = Some (vs, q)" for vs q
    using that
    by (subst (asm) scan_elements.simps)
       (auto split: list.splits if_splits option.splits dest!: V skip_ws_ConsD smaller
         less_le_trans [OF _ skip_ws_length] simp: skip_ws_less)
  ultimately show ?case by blast
qed

lemmas scan_shorter = scan_shorter_all [THEN conjunct1, rule_format]
  scan_shorter_all [THEN conjunct2, THEN conjunct1, rule_format]
  scan_shorter_all [THEN conjunct2, THEN conjunct2, rule_format]

section \<open>Storing and reading a reason\<close>

lemma scan_string_Cons:
  "scan_string (CHR 0x22 # r) = Some ([], r)"
  "c \<noteq> CHR 0x22 \<Longrightarrow> c \<noteq> CHR 0x5C \<Longrightarrow> \<not> of_char c < (32 :: nat) \<Longrightarrow>
     scan_string (c # r) = map_option (\<lambda>(t, q). (c # t, q)) (scan_string r)"
  "e \<noteq> CHR ''u'' \<Longrightarrow> unescape e = Some d \<Longrightarrow>
     scan_string (CHR 0x5C # e # r) = map_option (\<lambda>(t, q). (d # t, q)) (scan_string r)"
  "hex4 [d1, d2, d3, d4] = Some n \<Longrightarrow> n < 256 \<Longrightarrow>
     scan_string (CHR 0x5C # CHR ''u'' # d1 # d2 # d3 # d4 # r) =
       map_option (\<lambda>(t, q). (char_of n # t, q)) (scan_string r)"
  by (subst scan_string.simps; simp)+

lemma hex4_control:
  assumes "n < 32"
  shows "hex4 [CHR ''0'', CHR ''0'', hex_digit (n div 16), hex_digit (n mod 16)] = Some n"
proof -
  have "hex_value (hex_digit k) = Some k" if "k < 16" for k
    using that by (auto simp: hex_value_def hex_digit_def Let_def)
  then have "hex_value (hex_digit (n div 16)) = Some (n div 16)"
    "hex_value (hex_digit (n mod 16)) = Some (n mod 16)" using assms by simp_all
  moreover have "hex_value (CHR ''0'') = Some 0" by (simp add: hex_value_def)
  ultimately show ?thesis by (simp add: hex4_def)
qed

lemma scan_string_char: "scan_string (json_char c @ r) = map_option (\<lambda>(t, q). (c # t, q)) (scan_string r)"
proof -
  define n where "n = (of_char c :: nat)"
  then have c: "c = char_of n" "n < 256" by simp_all
  consider (quote) "c = CHR 0x22" | (slash) "c = CHR 0x5C"
    | (short) "n \<in> {10, 13, 9, 8, 12}" | (control) "n < 32" "n \<notin> {10, 13, 9, 8, 12}"
    | (plain) "c \<noteq> CHR 0x22" "c \<noteq> CHR 0x5C" "\<not> n < 32" by blast
  then show ?thesis
  proof cases
    case short
    moreover have "char_of (10 :: nat) = CHR 0x0A" "char_of (13 :: nat) = CHR 0x0D" "char_of (9 :: nat) = CHR 0x09"
      "char_of (8 :: nat) = CHR 0x08" "char_of (12 :: nat) = CHR 0x0C" by (simp_all add: char_of_def bit_numeral_rec bit_0)
    ultimately show ?thesis using c by (auto simp: json_char_def unescape_def scan_string_Cons)
  next
    case control
    have "c \<noteq> CHR 0x22" "c \<noteq> CHR 0x5C" using control n_def by auto
    with control n_def have "json_char c =
      [CHR 0x5C, CHR ''u'', CHR ''0'', CHR ''0'', hex_digit (n div 16), hex_digit (n mod 16)]"
      by (auto simp: json_char_def Let_def)
    with c control show ?thesis by (simp add: scan_string_Cons hex4_control)
  next
    case plain
    then have "n \<noteq> 10" "n \<noteq> 13" "n \<noteq> 9" "n \<noteq> 8" "n \<noteq> 12" by auto
    with plain show ?thesis unfolding n_def by (simp add: json_char_def scan_string_Cons)
  qed (simp_all add: json_char_def scan_string_Cons unescape_def)
qed

lemma scan_json_string:
  "scan_string (concat (map json_char s) @ CHR 0x22 # r) = Some (s, r)"
  by (induction s) (simp_all add: scan_string_Cons scan_string_char)

lemma json_string_tail: "json_string s @ r = CHR 0x22 # (concat (map json_char s) @ CHR 0x22 # r)"
  by (simp add: json_string_def)

lemma skip_ws_keep: "\<not> json_space c \<Longrightarrow> skip_ws (c # r) = c # r"
  by (simp add: skip_ws_def)

lemma skip_ws_blank: "skip_ws (CHR '' '' # r) = skip_ws r"
  by (simp add: skip_ws_def json_space_def)

lemma json_space_chars [simp]:
  "\<not> json_space (CHR 0x22)" "\<not> json_space (CHR '':'')" "\<not> json_space (CHR '','')" "\<not> json_space (CHR ''}'')"
  "\<not> json_space (CHR ''{'')"
  by (simp_all add: json_space_def)

lemma scan_json_value: "scan_value (json_string s @ r) = Some (JStr s, r)"
  by (subst scan_value.simps) (simp add: json_string_tail scan_json_string)

definition json_member :: "string \<times> string \<Rightarrow> string" where
  "json_member p = json_string (fst p) @ '': '' @ json_string (snd p)"

fun joined :: "string list \<Rightarrow> string" where
  "joined [] = []"
| "joined [x] = x"
| "joined (x # y # ys) = x @ '', '' @ joined (y # ys)"

lemma joined_concat: "joined (x # xs) = concat (x # map (\<lambda>y. '', '' @ y) xs)"
  by (induction xs arbitrary: x) auto

lemma json_params_joined: "json_params ps = ''{'' @ joined (map json_member (sort_params ps)) @ ''}''"
  by (cases "sort_params ps")
     (simp_all add: json_params_def joined_concat json_member_def case_prod_beta comp_def del: joined.simps(3))

lemma scan_joined:
  "ps \<noteq> [] \<Longrightarrow> scan_members (joined (map json_member ps) @ CHR ''}'' # r) = Some (map (\<lambda>(k, v). (k, JStr v)) ps, r)"
proof (induction ps rule: induct_list012)
  case (2 p)
  show ?case
    by (subst scan_members.simps)
       (simp add: json_member_def json_string_tail scan_json_string skip_ws_keep skip_ws_blank
         scan_json_value [unfolded json_string_tail] case_prod_beta)
next
  case (3 p q ps)
  let ?rest = "joined (map json_member (q # ps)) @ CHR ''}'' # r"
  have "skip_ws ?rest = ?rest"
    by (cases ps) (simp_all add: json_member_def json_string_tail skip_ws_keep)
  moreover from 3 have "scan_members ?rest = Some (map (\<lambda>(k, v). (k, JStr v)) (q # ps), r)" by simp
  moreover have "joined (map json_member (p # q # ps)) @ CHR ''}'' # r = json_member p @ '', '' @ ?rest"
    by simp
  ultimately show ?case
    by (simp only: list.map(2) [of _ p]) (subst scan_members.simps,
      simp add: json_member_def json_string_tail scan_json_string skip_ws_keep skip_ws_blank
        scan_json_value [unfolded json_string_tail] case_prod_beta del: joined.simps list.map)
qed simp

lemma insert_param_perm: "mset (insert_param p qs) = add_mset p (mset qs)"
  by (induction p qs rule: insert_param.induct) auto

lemma sort_params_mset: "mset (sort_params ps) = mset ps"
  by (induction ps) (simp_all add: sort_params_def insert_param_perm)

lemma sort_params_Nil [simp]: "sort_params ps = [] \<longleftrightarrow> ps = []"
  by (metis mset_zero_iff_right sort_params_mset)

lemma pairs_dict_distinct:
  "distinct (map fst (d @ kvs)) \<Longrightarrow> foldl (\<lambda>d (k, v). dict_put d k v) d kvs = d @ kvs"
proof (induction kvs arbitrary: d)
  case (Cons kv kvs)
  have "dict_put d k v = d @ [(k, v)]" if "k \<notin> fst ` set d" for k v
    using that by (induction d k v rule: dict_put.induct) auto
  with Cons.IH [of "d @ [kv]"] Cons.prems show ?case by (auto simp: case_prod_beta)
qed simp

definition param_dict :: "(string \<times> string) list \<Rightarrow> dict" where
  "param_dict ps = map (\<lambda>(k, v). (k, JStr v)) (sort_params ps)"

lemma param_dict_keys: "map fst (param_dict ps) = map fst (sort_params ps)"
  by (simp add: param_dict_def case_prod_beta comp_def)

lemma sort_params_distinct: "distinct (map fst ps) \<Longrightarrow> distinct (map fst (sort_params ps))"
  by (metis mset_map sort_params_mset mset_eq_imp_distinct_iff)

lemma parse_json_params:
  assumes "ps \<noteq> []" and "distinct (map fst ps)"
  shows "json_parse (json_params ps) = Some (JObj (param_dict ps))"
proof -
  let ?m = "joined (map json_member (sort_params ps)) @ ''}''"
  from assms have ne: "sort_params ps \<noteq> []" by simp
  then have hd: "?m \<noteq> []" "hd ?m = CHR 0x22" "skip_ws ?m = ?m"
    by (cases "sort_params ps"; simp add: joined_concat json_member_def json_string_tail skip_ws_keep del: joined.simps)+
  from ne have "scan_members ?m = Some (param_dict ps, [])"
    using scan_joined [where ps = "sort_params ps" and r = "[]"] by (simp add: param_dict_def)
  moreover have "pairs_dict (param_dict ps) = param_dict ps"
    using pairs_dict_distinct [of "[]" "param_dict ps"] sort_params_distinct [OF assms(2)]
    by (simp add: pairs_dict_def param_dict_keys)
  ultimately have "scan_value (CHR ''{'' # ?m) = Some (JObj (param_dict ps), [])"
    using hd by (subst scan_value.simps) simp
  then show ?thesis
    by (simp add: json_parse_def json_params_joined skip_ws_keep) (simp add: skip_ws_def)
qed

lemma param_dict_get:
  assumes "distinct (map fst ps)"
  shows "dict_get (param_dict ps) k = map_option JStr (map_of ps k)"
proof -
  have "map_of (sort_params ps) = map_of ps"
    using sort_params_distinct [OF assms] assms sort_params_mset [of ps]
    by (intro map_of_inject_set [THEN iffD2]) (metis mset_map mset_eq_setD set_map, auto dest: mset_eq_setD)
  moreover have "map_of (map (\<lambda>(k, v). (k, JStr v)) qs) k = map_option JStr (map_of qs k)" for qs
    by (induction qs) auto
  ultimately show ?thesis by (simp add: dict_get_def param_dict_def)
qed

lemma failure_codes_words: "(code, key) \<in> set failure_codes \<Longrightarrow> code \<noteq> [] \<and> list_all is_word code"
  by (auto simp: failure_codes_def is_word_def is_digit_def)

lemma match_encoded:
  assumes "list_all is_word code" and "code \<noteq> []"
    and "params = [] \<or> (\<exists>m. params = '' {'' @ m @ ''}'')"
  shows "match_structured (''['' @ code @ '']'' @ params) = Some (code, if params = [] then None else Some (tl params))"
proof -
  have "takeWhile is_word (code @ CHR '']'' # params) = code" "dropWhile is_word (code @ CHR '']'' # params) = CHR '']'' # params"
    using assms(1) by (auto simp: list_all_iff takeWhile_append dropWhile_append3 is_word_def is_digit_def)
  with assms show ?thesis by (auto simp: match_structured_def drop_final_newline_def)
qed

text \<open>An encoded failure reason is read back exactly: whatever parameters a declared code was
  encoded with, rendering the stored text calls the translator with the message key of that
  code and with a dictionary that holds those parameters and nothing else.\<close>

theorem failure_roundtrip:
  assumes "encode_failure code params = Some stored" and "distinct (map fst params)"
  shows "\<exists>key d. map_of failure_codes code = Some key \<and>
           render_failure (Some stored) translate = Some (translate key d) \<and>
           wf_dict d \<and> (\<forall>k. dict_get d k = map_option JStr (map_of params k))"
proof -
  from assms(1) have code: "code \<in> fst ` set failure_codes"
    and stored: "stored = ''['' @ code @ '']'' @ (if params = [] then [] else '' '' @ json_params params)"
    by (auto simp: encode_failure_def split: if_splits)
  from code obtain key where key: "map_of failure_codes code = Some key"
    by (metis domD dom_map_of_conv_image_fst)
  then have word: "list_all is_word code" "code \<noteq> []"
    using failure_codes_words map_of_SomeD by fastforce+
  show ?thesis
  proof (cases "params = []")
    case True
    with match_encoded [OF word, of "[]"] key stored show ?thesis
      by (intro exI [of _ key] exI [of _ "[]"]) (simp add: render_failure_def wf_dict_def dict_get_def)
  next
    case False
    have "wf_dict (param_dict params)"
      using sort_params_distinct [OF assms(2)] by (simp add: wf_dict_def param_dict_keys)
    moreover have "render_failure (Some stored) translate = Some (translate key (param_dict params))"
      using match_encoded [OF word, of "'' '' @ json_params params"] key stored False
        parse_json_params [OF False assms(2)]
      by (simp add: render_failure_def json_params_joined)
    ultimately show ?thesis using key param_dict_get [OF assms(2)] by blast
  qed
qed

theorem failure_roundtrip_witness:
  "\<exists>key d. map_of failure_codes ''resume_expired_detail'' = Some key \<and>
     render_failure (encode_failure ''resume_expired_detail'' [(''detail'', [CHR 0x22, CHR 0x0A])]) (\<lambda>k d. k) = Some key \<and>
     wf_dict d \<and> (\<forall>k. dict_get d k = map_option JStr (map_of [(''detail'', [CHR 0x22, CHR 0x0A])] k))"
proof -
  let ?ps = "[(''detail'', [CHR 0x22, CHR 0x0A])]"
  obtain t where t: "encode_failure ''resume_expired_detail'' ?ps = Some t"
    by (simp add: encode_failure_def failure_codes_def)
  from failure_roundtrip [OF t, of "\<lambda>k d. k"] show ?thesis unfolding t by auto
qed

end
