(* ===== verification/Worker.thy ===== *)
theory Worker
  imports TaskCascade Slots TaskFailure
begin

text \<open>
  The generation worker (\<open>lib/generation_worker.py\<close>): the claim loop over the media lanes, the
  coroutine of one task with its 0-rows-cancelled protocol, the resume of an interrupted task,
  the recovery of orphans after a restart, and the lease logic of the main loop. What runs
  outside (provider resolution, the generation itself, the handle \<open>asyncio.create_task\<close>
  returns) is an argument; other transactions that run at an \<open>await\<close> are a list of operations.
\<close>

subsection \<open>Provider of a claimed task\<close>

definition default_provider :: string where
  "default_provider = ''gemini-aistudio''"

text \<open>The project store and the configuration resolver; \<open>None\<close> is a call that raises.\<close>

record resolver =
  rv_load_project :: "string \<Rightarrow> json option"
  rv_video :: "json option \<Rightarrow> json \<Rightarrow> string option"
  rv_audio :: "json option \<Rightarrow> json \<Rightarrow> string option"
  rv_image :: "json option \<Rightarrow> json \<Rightarrow> string option"

definition is_video_lane :: "string \<Rightarrow> string \<Rightarrow> bool" where
  "is_video_lane media ttype = (media = ''video'' \<or> ttype \<in> {''video'', ''reference_video''})"

definition is_audio_lane :: "string \<Rightarrow> string \<Rightarrow> bool" where
  "is_audio_lane media ttype = (media = ''audio'' \<or> ttype = ''tts'')"

definition resolve_backend ::
  "resolver \<Rightarrow> string \<Rightarrow> string \<Rightarrow> string \<Rightarrow> json \<Rightarrow> string option" where
  "resolve_backend r proj media ttype payload =
     (case (if proj \<noteq> [] then map_option Some (rv_load_project r proj) else Some None) of
        None \<Rightarrow> None
      | Some project \<Rightarrow>
          (if is_video_lane media ttype then rv_video r project payload
           else if is_audio_lane media ttype then rv_audio r project payload
           else rv_image r project payload))"

definition extract_provider :: "resolver \<Rightarrow> task_dict \<Rightarrow> string" where
  "extract_provider r d =
     (let payload = (if truthy (td_payload d) then td_payload d else JObj []) in
      if td_project_name d = [] \<and> \<not> truthy payload then default_provider
      else (case resolve_backend r (td_project_name d) (td_media_type d) (td_task_type d) payload of
              None \<Rightarrow> default_provider
            | Some p \<Rightarrow> if p = [] then default_provider else p))"

subsection \<open>Claiming into slots\<close>

record 'f worker =
  w_capacity :: capacity_table
  w_slots :: "'f slots"
  w_db :: db

definition pool_full_providers :: "string \<Rightarrow> capacity_table \<Rightarrow> 'f slots \<Rightarrow> string list" where
  "pool_full_providers media cap sl =
     filter (\<lambda>p. 0 < cap_get cap p media \<and> \<not> has_room p media (cap_get cap p media) sl)
       (occupied_providers media sl)"

lemma claim_next_count:
  assumes "claim_next media full now s = (Some d, s1)"
  shows "queued_count s1 < queued_count s"
proof -
  from assms obtain tid where c: "guarded_update tid (\<lambda>st. st = Queued)
       (\<lambda>t. t\<lparr>status := Running, started_at := Some now, updated_at := now\<rparr>)
       ''running'' Running now s = (Some d, s1)"
    by (auto simp: claim_next_def claim_commit_def split: option.splits)
  obtain t where "t \<in> set (tasks s)" "task_id t = tid" "status t = Queued"
    using guarded_update_SomeD [OF c] by blast
  then show ?thesis by (intro guarded_update_count_less [OF c, of t]) auto
qed

lemma cascade_failed_loop_le: "queued_count (snd (cascade_failed_loop tid msg deps now s)) \<le> queued_count s"
proof (induction tid msg deps now s rule: cascade_failed_loop.induct)
  case (2 tid msg dep deps now s)
  then show ?case
    by (fastforce simp: Let_def dest: mark_failed_queued_dep_count(1) split: prod.splits)
qed simp

lemma mark_failed_count: "queued_count (snd (mark_failed tid msg now s)) \<le> queued_count s"
proof -
  obtain n s1 where m: "mark_failed_running tid msg now s = (n, s1)" by fastforce
  then have "queued_count s1 \<le> queued_count s"
    by (auto simp: mark_failed_running_def fail_row_def split: prod.splits dest!: guarded_update_count_le)
  with order_trans [OF cascade_failed_loop_le this] show ?thesis
    by (simp add: mark_failed_def cascade_failed_queued_def m)
qed

text \<open>
  One media lane: claim, resolve, then fail a task whose provider has no such lane, put back
  one whose provider is full and leave the lane, or register its coroutine.
\<close>

function claim_lane ::
  "resolver \<Rightarrow> (task_dict \<Rightarrow> 'f) \<Rightarrow> string \<Rightarrow> time \<Rightarrow> bool \<Rightarrow> 'f worker \<Rightarrow> bool \<times> 'f worker" where
  "claim_lane r spawn media now claimed w =
     (case claim_next media (pool_full_providers media (w_capacity w) (w_slots w)) now (w_db w) of
        (None, s1) \<Rightarrow> (claimed, w\<lparr>w_db := s1\<rparr>)
      | (Some d, s1) \<Rightarrow>
          (let provider = extract_provider r d;
               cap = cap_get (w_capacity w) provider media in
           if cap \<le> 0 then
             claim_lane r spawn media now True
               (w\<lparr>w_db := snd (mark_failed (td_task_id d)
                      (failure_text ''provider_unsupported_media''
                         [(''provider_id'', provider), (''media_type'', media)]) now s1)\<rparr>)
           else if \<not> has_room provider media cap (w_slots w) then
             (claimed, w\<lparr>w_db := requeue_single_task (td_task_id d) now s1\<rparr>)
           else
             claim_lane r spawn media now True
               (w\<lparr>w_db := s1,
                  w_slots := slot_register provider media (td_task_id d) (spawn d) False (w_slots w)\<rparr>)))"
  by pat_completeness auto

termination claim_lane
proof (relation "measure (\<lambda>(_, _, _, _, _, w). queued_count (w_db w))", goal_cases)
  case (2 r spawn media now claimed w res s1 d provider cap)
  from claim_next_count [of media _ now "w_db w" d s1] 2(1,2)
    mark_failed_count [of "td_task_id d" _ now s1]
  show ?case by (auto intro: order.strict_trans1)
next
  case (3 r spawn media now claimed w res s1 d provider cap)
  from claim_next_count [of media _ now "w_db w" d s1] 3(1,2) show ?case by auto
qed simp

declare claim_lane.simps [simp del]

definition claim_tasks ::
  "resolver \<Rightarrow> (task_dict \<Rightarrow> 'f) \<Rightarrow> time \<Rightarrow> 'f worker \<Rightarrow> bool \<times> 'f worker" where
  "claim_tasks r spawn now w =
     (case claim_lane r spawn ''image'' now False w of
        (c1, w1) \<Rightarrow>
          (case claim_lane r spawn ''video'' now c1 w1 of
             (c2, w2) \<Rightarrow> claim_lane r spawn ''audio'' now c2 w2))"

subsection \<open>The coroutine of a task\<close>

text \<open>How a generation ends; a cancellation can also come before the \<open>try\<close> is entered.\<close>

datatype exec_outcome = ExecDone "dict option" | ExecRaised string | ExecCancelled | NeverEntered

text \<open>
  A shielded call of the database returns, or the coroutine is cancelled while it waits, or the call
  raises. A cancelled wait does not stop the call, and a call that raises may have been committed: the
  flag says whether it has run by then. When it runs later, it is one of the transactions in between.
\<close>

datatype call = CallReturned | CallCancelled bool | CallRaised bool

datatype 'a answer = Answer 'a | Interrupted | Broken

fun shielded :: "call \<Rightarrow> (db \<Rightarrow> 'a \<times> db) \<Rightarrow> db \<Rightarrow> 'a answer \<times> db" where
  "shielded CallReturned f s = (case f s of (v, s1) \<Rightarrow> (Answer v, s1))"
| "shielded (CallCancelled did) f s = (Interrupted, if did then snd (f s) else s)"
| "shielded (CallRaised did) f s = (Broken, if did then snd (f s) else s)"

text \<open>The two calls a coroutine settles its task with, and the transactions of others between them.\<close>

record fate =
  ft_write :: call
  ft_cancel :: call
  ft_between :: "(queue_op \<times> time) list"

datatype coroutine_end = Returned | EndCancelled | EndRaised

definition mark_task_cancelled :: "string \<Rightarrow> time \<Rightarrow> db \<Rightarrow> db" where
  "mark_task_cancelled tid now s = snd (finalize_cancelled tid ''user'' now s)"

definition land_cancelled :: "string \<Rightarrow> call \<Rightarrow> coroutine_end \<Rightarrow> time \<Rightarrow> db \<Rightarrow> coroutine_end \<times> db" where
  "land_cancelled tid c finish now s =
     (case shielded c (finalize_cancelled tid ''user'' now) s of
        (Answer _, s1) \<Rightarrow> (finish, s1)
      | (Interrupted, s1) \<Rightarrow> (EndCancelled, s1)
      | (Broken, s1) \<Rightarrow> (EndRaised, s1))"

text \<open>Fail the task; when no row was running any more, land it in cancelled.\<close>

definition fail_or_cancel :: "string \<Rightarrow> string \<Rightarrow> fate \<Rightarrow> time \<Rightarrow> db \<Rightarrow> coroutine_end \<times> db" where
  "fail_or_cancel tid msg ft now s =
     (case shielded (ft_write ft) (mark_failed tid msg now) s of
        (Answer rows, s1) \<Rightarrow>
          if rows = 0 then land_cancelled tid (ft_cancel ft) Returned now (run_queue (ft_between ft) s1) else (Returned, s1)
      | (Interrupted, s1) \<Rightarrow> (EndCancelled, s1)
      | (Broken, s1) \<Rightarrow> (EndRaised, s1))"

definition settle_success :: "string \<Rightarrow> dict option \<Rightarrow> fate \<Rightarrow> time \<Rightarrow> db \<Rightarrow> coroutine_end \<times> db" where
  "settle_success tid result ft now s =
     (case shielded (ft_write ft) (mark_succeeded tid result now) s of
        (Answer rows, s1) \<Rightarrow>
          if rows = 0 then land_cancelled tid (ft_cancel ft) Returned now (run_queue (ft_between ft) s1) else (Returned, s1)
      | (Interrupted, s1) \<Rightarrow> land_cancelled tid (ft_cancel ft) EndCancelled now (run_queue (ft_between ft) s1)
      | (Broken, s1) \<Rightarrow> (EndRaised, s1))"

definition process_task :: "string \<Rightarrow> exec_outcome \<Rightarrow> fate \<Rightarrow> time \<Rightarrow> db \<Rightarrow> coroutine_end \<times> db" where
  "process_task tid outcome ft now s =
     (case outcome of
        NeverEntered \<Rightarrow> (EndCancelled, s)
      | ExecCancelled \<Rightarrow> land_cancelled tid (ft_cancel ft) EndCancelled now s
      | ExecRaised msg \<Rightarrow> fail_or_cancel tid msg ft now s
      | ExecDone result \<Rightarrow> settle_success tid result ft now s)"

datatype resume_outcome =
    ResumeDone "dict option"
  | ResumeNotImplemented string
  | ResumeExpired string
  | ResumeRaised string
  | ResumeCancelled
  | ResumeNeverEntered

text \<open>
  The persisted provider written into the payload, so that the resolver picks it; \<open>None\<close> is
  the \<open>TypeError\<close> of an item assignment on a payload that is not a dictionary.
\<close>

definition lock_provider :: "task_dict \<Rightarrow> task_dict option" where
  "lock_provider d =
     (case td_provider_id d of
        None \<Rightarrow> Some d
      | Some p \<Rightarrow>
          if p = [] then Some d
          else
            (let key = (if is_video_lane (td_media_type d) (td_task_type d)
                        then ''video_provider'' else ''image_provider'');
                 payload = (if td_payload d = JNull then JObj [] else td_payload d)
             in case payload of
                  JObj kv \<Rightarrow> Some (d\<lparr>td_payload := JObj (dict_put kv key (JStr p))\<rparr>)
                | _ \<Rightarrow> None))"

definition process_resume_task ::
  "(task_dict \<Rightarrow> string \<Rightarrow> resume_outcome) \<Rightarrow> task_dict \<Rightarrow> fate \<Rightarrow> time \<Rightarrow> db \<Rightarrow> coroutine_end \<times> db" where
  "process_resume_task resume d ft now s =
     (let tid = td_task_id d; job_id = coalesce (td_provider_job_id d) [] in
      if job_id = [] then fail_or_cancel tid (failure_text ''restart_lost_resume_no_job_id'' []) ft now s
      else
        (case lock_provider d of
           None \<Rightarrow> (EndRaised, s)
         | Some d' \<Rightarrow>
             (case resume d' job_id of
                ResumeNeverEntered \<Rightarrow> (EndCancelled, s)
              | ResumeCancelled \<Rightarrow> land_cancelled tid (ft_cancel ft) EndCancelled now s
              | ResumeNotImplemented detail \<Rightarrow>
                  fail_or_cancel tid (failure_text ''resume_unsupported_detail'' [(''detail'', detail)]) ft now s
              | ResumeExpired detail \<Rightarrow>
                  fail_or_cancel tid (failure_text ''resume_expired_detail'' [(''detail'', detail)]) ft now s
              | ResumeRaised msg \<Rightarrow> fail_or_cancel tid msg ft now s
              | ResumeDone result \<Rightarrow> settle_success tid result ft now s)))"

text \<open>
  The coroutine around a resumed task: a cancellation, while it waits for its turn or inside, is landed
  by a call of its own, whose failure is only logged.
\<close>

datatype sem_turn = TurnCancelled | TurnStopped | TurnTaken

definition run_one ::
  "sem_turn \<Rightarrow> (task_dict \<Rightarrow> string \<Rightarrow> resume_outcome) \<Rightarrow> task_dict \<Rightarrow> fate \<Rightarrow> (queue_op \<times> time) list \<Rightarrow> call \<Rightarrow> time \<Rightarrow> db \<Rightarrow>
     coroutine_end \<times> db" where
  "run_one turn resume d ft between landing now s =
     (case (case turn of TurnCancelled \<Rightarrow> (EndCancelled, s) | TurnStopped \<Rightarrow> (Returned, s)
                       | TurnTaken \<Rightarrow> process_resume_task resume d ft now s) of
        (EndCancelled, s1) \<Rightarrow>
          (EndCancelled, snd (shielded landing (finalize_cancelled (td_task_id d) ''user'' now) (run_queue between s1)))
      | (e, s1) \<Rightarrow> (e, s1))"

text \<open>
  A finished coroutine taken out of the slots: a cancelled one is landed in cancelled, unless that call
  fails, which is only logged; one that raised is left as it is.
\<close>

definition settle_finished :: "string \<times> coroutine_end \<Rightarrow> bool \<Rightarrow> time \<Rightarrow> db \<Rightarrow> db" where
  "settle_finished fin works now s =
     (case fin of (tid, e) \<Rightarrow> if e = EndCancelled \<and> works then mark_task_cancelled tid now s else s)"

definition drain_finished_tasks ::
  "('f \<Rightarrow> coroutine_end option) \<Rightarrow> (string \<Rightarrow> bool) \<Rightarrow> time \<Rightarrow> 'f worker \<Rightarrow> 'f worker" where
  "drain_finished_tasks ended works now w =
     (case drain_finished (\<lambda>h. ended h \<noteq> None) (w_slots w) of
        (finished, sl) \<Rightarrow>
          w\<lparr>w_slots := sl,
            w_db := fold (\<lambda>(tid, h) s.
                       (case ended h of None \<Rightarrow> s | Some e \<Rightarrow> settle_finished (tid, e) (works tid) now s))
                     finished (w_db w)\<rparr>)"

text \<open>In-process cancel: whether a running handle was found, and the handle to cancel.\<close>

definition request_cancel :: "('f \<Rightarrow> bool) \<Rightarrow> string \<Rightarrow> 'f slots \<Rightarrow> 'f option" where
  "request_cancel is_done tid sl =
     (case find_by_task tid sl of
        None \<Rightarrow> None
      | Some h \<Rightarrow> if is_done h then None else Some h)"

subsection \<open>Orphans of a restart\<close>

definition non_resumable_video_providers :: "string list" where
  "non_resumable_video_providers = [''grok'', ''vidu'']"

definition orphan_media :: "task_dict \<Rightarrow> string" where
  "orphan_media d =
     (if td_media_type d \<noteq> [] then td_media_type d
      else if td_task_type d \<in> {''video'', ''reference_video''} then ''video''
      else if td_task_type d = ''tts'' then ''audio''
      else ''image'')"

datatype orphan_plan = OrphanSkip | OrphanCancel | OrphanFail string | OrphanResume string

definition plan_orphan :: "resolver \<Rightarrow> string list \<Rightarrow> task_dict \<Rightarrow> orphan_plan" where
  "plan_orphan r self_active d =
     (if td_task_id d \<in> set self_active then OrphanSkip
      else if td_status d = Cancelling then OrphanCancel
      else if orphan_media d = ''image'' then OrphanFail (failure_text ''restart_lost_image'' [])
      else if orphan_media d = ''audio'' then OrphanFail (failure_text ''restart_lost_audio'' [])
      else
        (let provider = (case td_provider_id d of
                           None \<Rightarrow> extract_provider r d
                         | Some p \<Rightarrow> if p = [] then extract_provider r d else p) in
         if provider \<in> set non_resumable_video_providers then
           OrphanFail (failure_text ''resume_unsupported_provider'' [(''provider_id'', provider)])
         else if coalesce (td_provider_job_id d) [] = [] then
           OrphanFail (failure_text ''restart_lost_no_job_id'' [])
         else OrphanResume provider))"

type_synonym resumable = "(string \<times> task_dict list) list"

text \<open>The scan awaits its calls itself; it catches nothing, so one that raises ends it.\<close>

definition fail_orphan :: "string \<Rightarrow> string \<Rightarrow> time \<Rightarrow> db \<Rightarrow> db" where
  "fail_orphan tid msg now s =
     (case mark_failed tid msg now s of (rows, s1) \<Rightarrow> if rows = 0 then mark_task_cancelled tid now s1 else s1)"

fun handle_orphan ::
  "resolver \<Rightarrow> string list \<Rightarrow> time \<Rightarrow> task_dict \<Rightarrow> resumable \<times> db \<Rightarrow> resumable \<times> db" where
  "handle_orphan r self_active now d (res, s) =
     (case plan_orphan r self_active d of
        OrphanSkip \<Rightarrow> (res, s)
      | OrphanCancel \<Rightarrow> (res, mark_task_cancelled (td_task_id d) now s)
      | OrphanFail msg \<Rightarrow> (res, fail_orphan (td_task_id d) msg now s)
      | OrphanResume p \<Rightarrow>
          (AList.update p (coalesce (map_of res p) [] @ [d\<lparr>td_provider_id := Some p\<rparr>]) res, s))"

definition handle_orphan_tasks_on_start ::
  "resolver \<Rightarrow> string list \<Rightarrow> time \<Rightarrow> db \<Rightarrow> resumable \<times> db" where
  "handle_orphan_tasks_on_start r self_active now s =
     fold (handle_orphan r self_active now) (list_orphan_tasks_on_start s) ([], s)"

subsection \<open>The main loop and its lease\<close>

record loop_state =
  ls_owns :: bool
  ls_lost_at :: "rat option"
  ls_handled :: bool

datatype loop_action = DoDrain | DoOrphans | DoHeartbeat | DoClaim

definition orphan_rescan_mult :: rat where
  "orphan_rescan_mult = 3"

text \<open>
  One turn: the answer of the lease call and the monotonic clock are inputs; the orphan scan
  is assumed to return (it catches nothing itself, and an exception ends the loop).
\<close>

definition loop_step :: "rat \<Rightarrow> bool \<times> rat \<Rightarrow> loop_state \<Rightarrow> loop_state \<times> loop_action list" where
  "loop_step ttl inp st =
     (case inp of (owns, clock) \<Rightarrow>
        (let had = ls_owns st;
             lost1 = (if had \<and> \<not> owns \<and> ls_lost_at st = None then Some clock else ls_lost_at st);
             (handled1, lost2) =
               (case lost1 of
                  None \<Rightarrow> (ls_handled st, None)
                | Some t \<Rightarrow>
                    if owns then ((if clock - t > ttl * orphan_rescan_mult then False else ls_handled st), None)
                    else (ls_handled st, Some t));
             scan = owns \<and> \<not> handled1
         in (\<lparr>ls_owns = owns, ls_lost_at = lost2, ls_handled = handled1 \<or> scan\<rparr>,
             [DoDrain] @ (if scan then [DoOrphans] else []) @ [if owns then DoClaim else DoHeartbeat])))"

fun loop_run :: "rat \<Rightarrow> (bool \<times> rat) list \<Rightarrow> loop_state \<Rightarrow> loop_action list" where
  "loop_run ttl [] st = []"
| "loop_run ttl (i # is) st = (case loop_step ttl i st of (st', acts) \<Rightarrow> acts @ loop_run ttl is st')"

definition loop_start :: loop_state where
  "loop_start = \<lparr>ls_owns = False, ls_lost_at = None, ls_handled = False\<rparr>"

end
