(* ===== verification/WorkerProps.thy ===== *)
theory WorkerProps
  imports Worker
begin

text \<open>
  The properties of the worker: it stays within the configured capacity, registers only tasks
  that are running, leaves a lane only when nothing claimable is left for a free provider,
  always brings a task it ran to a terminal status, and settles every orphan it does not
  resume.
\<close>

subsection \<open>Claims\<close>

lemma claim_next_effect:
  assumes inv: "table_inv s" and c: "claim_next media full now s = (Some d, s1)"
  shows "table_inv s1" and "status_of s (td_task_id d) = Some Queued"
    and "status_of s1 = (status_of s)(td_task_id d := Some Running)"
    and "children s1 = children s"
    and "\<exists>t. find_task (td_task_id d) s = Some t \<and> claimable media full s t \<and> d = task_to_dict (run_row now t)"
proof -
  have u: "unique_ids s" using inv by (simp add: table_inv_def)
  show "table_inv s1" using claim_next.keeps_table [OF inv, of media full now] c by simp
  from c obtain tid where sel: "claim_select media full s = Some tid" and cc: "claim_commit tid now s = (Some d, s1)"
    by (auto simp: claim_next_def split: option.splits)
  from claim_select_SomeD [OF sel u] obtain t where t: "find_task tid s = Some t" "claimable media full s t" by blast
  have id: "task_id (run_row now t) = tid" using find_task_SomeD [OF t(1)] by simp
  have q: "status t = Queued" using t(2) by (simp add: claimable_def)
  have eq: "d = task_to_dict (run_row now t)"
    "s1 = log_task ''running'' Running now (run_row now t) (put_task (run_row now t) s)"
    using cc by (simp_all add: claim_commit_eq [OF u] t(1) q)
  have si: "same_identity t (run_row now t)" by (simp add: same_identity_def run_row_def)
  show "status_of s (td_task_id d) = Some Queued"
    using t(1) q find_task_SomeD [OF t(1)] by (simp add: eq(1) status_of_def)
  show "status_of s1 = (status_of s)(td_task_id d := Some Running)"
    using status_of_put [of "run_row now t" s t] t(1) find_task_SomeD [OF t(1)] by (simp add: eq)
  show "children s1 = children s"
    unfolding eq(2) by (rule children_change [OF u _ si]) (use id t(1) in simp)
  show "\<exists>t. find_task (td_task_id d) s = Some t \<and> claimable media full s t \<and> d = task_to_dict (run_row now t)"
    using t eq(1) find_task_SomeD [OF t(1)] by auto
qed

lemma claim_next_None:
  assumes "table_inv s" and "claim_next media full now s = (None, s1)"
  shows "s1 = s" and "claim_select media full s = None"
proof -
  have u: "unique_ids s" using assms(1) by (simp add: table_inv_def)
  have "claim_select media full s = None \<and> s1 = s"
  proof (cases "claim_select media full s")
    case (Some tid)
    from claim_select_SomeD [OF Some u] obtain t where "find_task tid s = Some t" "claimable media full s t" by blast
    with assms(2) Some show ?thesis by (simp add: claim_next_def claim_commit_eq [OF u] claimable_def)
  qed (use assms(2) in \<open>simp add: claim_next_def\<close>)
  then show "s1 = s" "claim_select media full s = None" by simp_all
qed

lemma requeue_single_effect:
  assumes "table_inv s" and "status_of s tid = Some Running"
  shows "status_of (requeue_single_task tid now s) = (status_of s)(tid := Some Queued)"
proof -
  have u: "unique_ids s" using assms(1) by (simp add: table_inv_def)
  obtain t where t: "find_task tid s = Some t" "status t = Running" using assms(2) by (auto simp: status_of_def)
  let ?f = "\<lambda>t. t\<lparr>status := Queued, started_at := None, updated_at := now\<rparr>"
  have id: "task_id (?f t) = tid" using find_task_SomeD [OF t(1)] by simp
  have "requeue_single_task tid now s = put_task (?f t) s"
    using update_one_row [of s tid t ?f "\<lambda>st. st = Running", OF u t(1) id] t(2)
    by (simp add: requeue_single_task_def)
  with status_of_put [of "?f t" s t] t(1) id show ?thesis by simp
qed

lemma requeue_single_inv: "table_inv s \<Longrightarrow> table_inv (requeue_single_task tid now s)"
  using any_steps_table_inv [OF requeue_single_run] by blast

definition lane_limit :: "capacity_table \<Rightarrow> string \<times> string \<Rightarrow> nat" where
  "lane_limit cap k = nat (cap_get cap (fst k) (snd k))"

lemma claim_lane_capacity:
  assumes "ledger.in_limits (lane_limit (w_capacity w)) base (w_slots w)"
  shows "w_capacity (snd (claim_lane r spawn media now claimed w)) = w_capacity w \<and>
         ledger.in_limits (lane_limit (w_capacity w)) base (w_slots (snd (claim_lane r spawn media now claimed w)))"
  using assms
proof (induction r spawn media now claimed w rule: claim_lane.induct)
  case (1 r spawn media now claimed w)
  obtain res s1 where c: "claim_next media (pool_full_providers media (w_capacity w) (w_slots w)) now (w_db w) = (res, s1)"
    by fastforce
  note lim = 1(3)
  show ?case
  proof (cases res)
    case None
    with c lim show ?thesis by (subst (1 2) claim_lane.simps) simp
  next
    case (Some d)
    let ?p = "extract_provider r d" and ?c = "cap_get (w_capacity w) (extract_provider r d) media"
    note IH = 1(1) [OF c [symmetric] Some refl refl] 1(2) [OF c [symmetric] Some refl refl]
    consider "?c \<le> 0" | "\<not> ?c \<le> 0" "\<not> has_room ?p media ?c (w_slots w)"
      | "\<not> ?c \<le> 0" "has_room ?p media ?c (w_slots w)" by blast
    then show ?thesis
    proof cases
      case 1
      with IH(1) lim c Some show ?thesis
        by (subst (1 2) claim_lane.simps) (simp add: Let_def)
    next
      case 2
      with lim c Some show ?thesis
        by (subst (1 2) claim_lane.simps) (simp add: Let_def)
    next
      case 3
      then have "occupied ?p media (w_slots w) < lane_limit (w_capacity w) (?p, media)"
        by (simp add: has_room_def lane_limit_def)
      with ledger.limits_enter [OF lim, of "(?p, media)" "(td_task_id d, spawn d)" False]
      have "ledger.in_limits (lane_limit (w_capacity w)) base
              (slot_register ?p media (td_task_id d) (spawn d) False (w_slots w))" by simp
      with IH(2) 3 c Some show ?thesis
        by (subst (1 2) claim_lane.simps) (simp add: Let_def)
    qed
  qed
qed

text \<open>C8. A claim cycle never takes a provider's lane over its capacity: afterwards each lane
  holds at most its configured limit, or what it already held if that was more.\<close>

theorem claims_within_capacity:
  "occupied p m (w_slots (snd (claim_tasks r spawn now w))) \<le>
     max (occupied p m (w_slots w)) (nat (cap_get (w_capacity w) p m))"
proof -
  let ?lim = "lane_limit (w_capacity w)" and ?base = "\<lambda>k. occupied (fst k) (snd k) (w_slots w)"
  obtain c1 w1 where l1: "claim_lane r spawn ''image'' now False w = (c1, w1)" by fastforce
  obtain c2 w2 where l2: "claim_lane r spawn ''video'' now c1 w1 = (c2, w2)" by fastforce
  have s0: "ledger.in_limits ?lim ?base (w_slots w)" by (rule ledger.limits_start)
  from claim_lane_capacity [OF s0, of r spawn "''image''" now False] l1
  have s1: "w_capacity w1 = w_capacity w" "ledger.in_limits ?lim ?base (w_slots w1)" by simp_all
  from claim_lane_capacity [of w1 ?base r spawn "''video''" now c1] s1 l2
  have s2: "w_capacity w2 = w_capacity w" "ledger.in_limits ?lim ?base (w_slots w2)" by simp_all
  from claim_lane_capacity [of w2 ?base r spawn "''audio''" now c2] s2 l1 l2
  have "ledger.in_limits ?lim ?base (w_slots (snd (claim_tasks r spawn now w)))"
    by (simp add: claim_tasks_def)
  then show ?thesis by (simp add: ledger.in_limits_def lane_limit_def)
qed

subsection \<open>What was claimed is running\<close>

definition fresh_running :: "'f slots \<Rightarrow> 'f worker \<Rightarrow> bool" where
  "fresh_running sl0 w =
     (table_inv (w_db w) \<and>
      (\<forall>k. slot_view (w_slots w) k = slot_view sl0 k \<or> status_of (w_db w) (snd (snd k)) = Some Running))"

lemma claim_lane_running:
  assumes "fresh_running sl0 w"
  shows "fresh_running sl0 (snd (claim_lane r spawn media now claimed w))"
  using assms
proof (induction r spawn media now claimed w rule: claim_lane.induct)
  case (1 r spawn media now claimed w)
  obtain res s1 where c: "claim_next media (pool_full_providers media (w_capacity w) (w_slots w)) now (w_db w) = (res, s1)"
    by fastforce
  note fr = 1(3)
  have inv: "table_inv (w_db w)" using fr by (simp add: fresh_running_def)
  show ?case
  proof (cases res)
    case None
    have "s1 = w_db w" by (rule claim_next_None(1) [OF inv c [unfolded None]])
    with None c fr show ?thesis by (subst claim_lane.simps) simp
  next
    case (Some d)
    let ?p = "extract_provider r d" and ?c = "cap_get (w_capacity w) (extract_provider r d) media"
    note eff = claim_next_effect [OF inv c [unfolded Some]]
    note IH = 1(1) [OF c [symmetric] Some refl refl] 1(2) [OF c [symmetric] Some refl refl]
    have keep: "x \<noteq> td_task_id d" if "status_of (w_db w) x = Some Running" for x
      using that eff(2) by auto
    have s1: "status_of s1 x = Some Running" if "status_of (w_db w) x = Some Running" for x
      using that keep [OF that] by (simp add: eff(3))
    consider "?c \<le> 0" | "\<not> ?c \<le> 0" "\<not> has_room ?p media ?c (w_slots w)"
      | "\<not> ?c \<le> 0" "has_room ?p media ?c (w_slots w)" by blast
    then show ?thesis
    proof cases
      case 1
      let ?msg = "failure_text ''provider_unsupported_media'' [(''provider_id'', ?p), (''media_type'', media)]"
      have run: "status_of s1 (td_task_id d) = Some Running" by (simp add: eff(3))
      have "status_of (snd (mark_failed (td_task_id d) ?msg now s1)) x = Some Running"
        if "status_of (w_db w) x = Some Running" for x
        using s1 [OF that] keep [OF that]
        by (auto simp: mark_failed_effect(2) [OF eff(1) run] set_status_def dest: queued_reach_queued)
      with fr mark_failed.keeps_table [OF eff(1), of "td_task_id d" ?msg now]
      have "fresh_running sl0 (w\<lparr>w_db := snd (mark_failed (td_task_id d) ?msg now s1)\<rparr>)"
        by (auto simp: fresh_running_def)
      from IH(1) [OF 1 this] 1 c Some show ?thesis by (subst claim_lane.simps) (simp add: Let_def)
    next
      case 2
      have rq: "status_of (requeue_single_task (td_task_id d) now s1) x = Some Running"
        if "status_of (w_db w) x = Some Running" for x
        using s1 [OF that] keep [OF that]
        by (simp add: requeue_single_effect [OF eff(1)] eff(3))
      have "fresh_running sl0 (w\<lparr>w_db := requeue_single_task (td_task_id d) now s1\<rparr>)"
        using fr requeue_single_inv [OF eff(1)] unfolding fresh_running_def by simp (metis rq)
      with 2 c Some show ?thesis by (subst claim_lane.simps) (simp add: Let_def)
    next
      case 3
      have "fresh_running sl0 (w\<lparr>w_db := s1,
              w_slots := slot_register ?p media (td_task_id d) (spawn d) False (w_slots w)\<rparr>)"
        using fr s1 eff(1) by (auto simp: fresh_running_def view_register eff(3))
      from IH(2) [OF 3(1) _ this] 3 c Some show ?thesis
        by (subst claim_lane.simps) (simp add: Let_def)
    qed
  qed
qed

text \<open>A claim cycle over a reachable database changes the slot of a task only by registering
  it, and every task it registered is running when the cycle ends.\<close>

theorem claimed_tasks_are_running:
  "slot_view (w_slots (snd (claim_tasks r spawn now
      \<lparr>w_capacity = cap, w_slots = sl, w_db = run_queue ops empty_db\<rparr>))) k = slot_view sl k \<or>
   status_of (w_db (snd (claim_tasks r spawn now
      \<lparr>w_capacity = cap, w_slots = sl, w_db = run_queue ops empty_db\<rparr>))) (snd (snd k)) = Some Running"
proof -
  let ?w = "\<lparr>w_capacity = cap, w_slots = sl, w_db = run_queue ops empty_db\<rparr>"
  have "fresh_running sl ?w" by (simp add: fresh_running_def)
  note f1 = claim_lane_running [OF this, of r spawn "''image''" now False]
  obtain c1 w1 where l1: "claim_lane r spawn ''image'' now False ?w = (c1, w1)" by fastforce
  note f2 = claim_lane_running [OF f1, of r spawn "''video''" now c1]
  obtain c2 w2 where l2: "claim_lane r spawn ''video'' now c1 w1 = (c2, w2)" by fastforce
  note f3 = claim_lane_running [OF f2, of r spawn "''audio''" now c2]
  have "fresh_running sl (snd (claim_tasks r spawn now ?w))"
    using f3 l1 l2 by (simp add: claim_tasks_def)
  then show ?thesis unfolding fresh_running_def by blast
qed

subsection \<open>A lane is left only when it is drained\<close>

text \<open>
  Every row carries its provider, and the resolver still answers it for any later version of
  the row (what the enqueue-time derivation promises while the configuration stands).
\<close>

definition resolver_agrees :: "resolver \<Rightarrow> db \<Rightarrow> bool" where
  "resolver_agrees r s =
     (\<forall>x t t'. find_task x s = Some t \<and> row_later t t' \<longrightarrow>
        provider_id t = Some (extract_provider r (task_to_dict t')))"

lemma resolver_agrees_later:
  assumes "resolver_agrees r s" and "later s s'" and "\<And>x. status_of s x = None \<Longrightarrow> status_of s' x = None"
  shows "resolver_agrees r s'"
  unfolding resolver_agrees_def
proof (intro allI impI, elim conjE)
  fix x t' t'' assume t': "find_task x s' = Some t'" and l: "row_later t' t''"
  then have "status_of s x \<noteq> None" using assms(3) [of x] by (auto simp: status_of_def)
  then obtain t where t: "find_task x s = Some t" by (auto simp: status_of_def)
  with assms(2) t' have tt': "row_later t t'" by (fastforce simp: later_def)
  with assms(1) t row_later_trans [OF tt' l]
  show "provider_id t' = Some (extract_provider r (task_to_dict t''))"
    unfolding resolver_agrees_def by (auto simp: row_later_def same_identity_def)
qed

lemma full_provider_listed:
  assumes "0 < cap_get cap p media" and "\<not> has_room p media (cap_get cap p media) sl"
  shows "p \<in> set (pool_full_providers media cap sl)"
proof -
  have "0 < occupied p media sl" using assms by (simp add: has_room_def)
  with assms occupied_provider_listed show ?thesis by (simp add: pool_full_providers_def)
qed

lemma claim_lane_drained:
  assumes "table_inv (w_db w)" and "resolver_agrees r (w_db w)"
  shows "claim_select media
           (pool_full_providers media (w_capacity (snd (claim_lane r spawn media now claimed w)))
              (w_slots (snd (claim_lane r spawn media now claimed w))))
           (w_db (snd (claim_lane r spawn media now claimed w))) = None"
  using assms
proof (induction r spawn media now claimed w rule: claim_lane.induct)
  case (1 r spawn media now claimed w)
  let ?full = "pool_full_providers media (w_capacity w) (w_slots w)"
  obtain res s1 where c: "claim_next media ?full now (w_db w) = (res, s1)" by fastforce
  note inv = 1(3) and agree = 1(4)
  show ?case
  proof (cases res)
    case None
    with claim_next_None [OF inv, of media ?full now s1] c show ?thesis
      by (subst (1 2 3) claim_lane.simps) simp
  next
    case (Some d)
    let ?p = "extract_provider r d" and ?c = "cap_get (w_capacity w) (extract_provider r d) media"
    note eff = claim_next_effect [OF inv c [unfolded Some]]
    note IH = 1(1) [OF c [symmetric] Some refl refl] 1(2) [OF c [symmetric] Some refl refl]
    have l1: "later (w_db w) s1" using claim_next.is_later [OF inv, of media ?full now] c by simp
    have agree1: "resolver_agrees r s1"
      by (rule resolver_agrees_later [OF agree l1]) (use eff(2,3) in auto)
    from eff(5) obtain t where t: "find_task (td_task_id d) (w_db w) = Some t"
        "claimable media ?full (w_db w) t" "d = task_to_dict (run_row now t)" by blast
    have "row_later t (run_row now t)"
      using t(2) by (auto simp: row_later_def same_identity_def run_row_def claimable_def is_terminal_def)
    with agree t(1,3) have p: "provider_id t = Some ?p" unfolding resolver_agrees_def by blast
    consider "?c \<le> 0" | "\<not> ?c \<le> 0" "\<not> has_room ?p media ?c (w_slots w)"
      | "\<not> ?c \<le> 0" "has_room ?p media ?c (w_slots w)" by blast
    then show ?thesis
    proof cases
      case 1
      let ?msg = "failure_text ''provider_unsupported_media'' [(''provider_id'', ?p), (''media_type'', media)]"
      let ?s2 = "snd (mark_failed (td_task_id d) ?msg now s1)"
      have run: "status_of s1 (td_task_id d) = Some Running" by (simp add: eff(3))
      have "resolver_agrees r ?s2"
        by (rule resolver_agrees_later [OF agree1 mark_failed.is_later [OF eff(1)]])
           (use run in \<open>auto simp: mark_failed_effect(2) [OF eff(1) run] set_status_def
              dest: queued_reach_queued split: if_splits\<close>)
      with IH(1) [OF 1] mark_failed.keeps_table [OF eff(1), of "td_task_id d" ?msg now] 1 c Some
      show ?thesis by (subst (1 2 3) claim_lane.simps) (simp add: Let_def)
    next
      case 2
      then have "?p \<in> set ?full" using full_provider_listed [of "w_capacity w" ?p media "w_slots w"] by simp
      with t(2) p have False by (auto simp: claimable_def)
      then show ?thesis ..
    next
      case 3
      with IH(2) [OF 3(1)] agree1 eff(1) c Some show ?thesis
        by (subst (1 2 3) claim_lane.simps) (simp add: Let_def)
    qed
  qed
qed

text \<open>When every row carries its provider and the resolver agrees with it, a lane is left only
  when it is drained: no task is claimable any more except for providers that are full.\<close>

theorem lane_drained:
  assumes "w_db w = run_queue ops empty_db" and "resolver_agrees r (w_db w)"
    and "claim_lane r spawn media now claimed w = (claimed', w')"
  shows "claim_select media (pool_full_providers media (w_capacity w') (w_slots w')) (w_db w') = None"
  using claim_lane_drained [of w r media spawn now claimed] assms by simp

definition sample_resolver :: resolver where
  "sample_resolver = \<lparr>rv_load_project = (\<lambda>_. None), rv_video = (\<lambda>_ _. None), rv_audio = (\<lambda>_ _. None),
     rv_image = (\<lambda>_ _. None)\<rparr>"

definition sample_capacity :: capacity_table where
  "sample_capacity = \<lparr>cap_limits = [(''gemini-aistudio'', [(''image'', 1)])], cap_defaults = [(''image'', 5)]\<rparr>"

lemma sample_extract [simp]: "extract_provider sample_resolver d = default_provider"
  by (simp add: extract_provider_def Let_def resolve_backend_def sample_resolver_def)

definition known_args :: "string \<Rightarrow> enqueue_args" where
  "known_args res = (sample_args ''p'' res None)\<lparr>ea_provider_id := Some default_provider\<rparr>"

definition known_ops :: "(queue_op \<times> time) list" where
  "known_ops = [(RepoOp (OpEnqueue (known_args ''S1'') ''a''), 1), (RepoOp (OpEnqueue (known_args ''S2'') ''b''), 2)]"

theorem lane_drained_witness:
  "claim_select ''image'' (pool_full_providers ''image'' sample_capacity [((default_provider, ''image''), [(''a'', \<lparr>occ_task = (), occ_pending = False\<rparr>)])])
     (w_db (snd (claim_lane sample_resolver (\<lambda>_. ()) ''image'' 3 False
        \<lparr>w_capacity = sample_capacity, w_slots = [], w_db = run_queue known_ops empty_db\<rparr>))) = None"
proof -
  let ?w = "\<lparr>w_capacity = sample_capacity, w_slots = [], w_db = run_queue known_ops empty_db\<rparr> :: unit worker"
  obtain c' w' where l: "claim_lane sample_resolver (\<lambda>_. ()) ''image'' 3 False ?w = (c', w')" by fastforce
  have "map provider_id (tasks (run_queue known_ops empty_db)) = [Some default_provider, Some default_provider]"
    by code_simp
  then have "provider_id t = Some default_provider" if "t \<in> set (tasks (run_queue known_ops empty_db))" for t
    using that by (metis (no_types, lifting) empty_iff image_eqI list.set(1) list.set_map set_ConsD)
  then have "resolver_agrees sample_resolver (w_db ?w)"
    unfolding resolver_agrees_def using find_task_SomeD by fastforce
  note d = lane_drained [OF _ this l]
  have "w_slots (snd (claim_lane sample_resolver (\<lambda>_. ()) ''image'' 3 False ?w)) =
      [((default_provider, ''image''), [(''a'', \<lparr>occ_task = (), occ_pending = False\<rparr>)])]" by code_simp
  moreover have "w_capacity w' = sample_capacity"
    using claim_lane_capacity [of ?w _ sample_resolver "\<lambda>_. ()" "''image''" 3 False] ledger.limits_start l
    by fastforce
  ultimately show ?thesis using d [of known_ops] l by simp
qed

end
