(* ===== verification/WorkerSettle.thy ===== *)
theory WorkerSettle
  imports WorkerProps
begin

text \<open>
  How tasks end: the head-of-line effect of the requeue, the 0-rows-cancelled protocol of the
  coroutines, the recovery of orphans, and the order of scans and claims in the main loop.
\<close>

subsection \<open>A task put back stays first\<close>

lemma insort_key_map:
  "(\<And>x. x \<in> insert a (set xs) \<Longrightarrow> k (g x) = k x) \<Longrightarrow> insort_key k (g a) (map g xs) = map g (insort_key k a xs)"
  by (induction xs) auto

lemma order_asc_map:
  assumes "\<And>x. x \<in> set xs \<Longrightarrow> k (g x) = k x"
  shows "order_asc k (map g xs) = map g (order_asc k xs)"
  unfolding order_asc_def using assms
proof (induction xs)
  case (Cons a xs)
  then show ?case using insort_key_map [of a "sort_key k xs" k g] by simp
qed simp

lemma filter_map_same:
  "(\<And>x. x \<in> set xs \<Longrightarrow> p' (g x) = p x) \<Longrightarrow> filter p' (map g xs) = map g (filter p xs)"
  by (induction xs) auto

lemma claim_requeue_tasks:
  assumes inv: "table_inv s" and t: "find_task tid s = Some t" "status t = Queued"
    and s1: "s1 = log_task ''running'' Running now (run_row now t) (put_task (run_row now t) s)"
  shows "tasks (requeue_single_task tid now s1) =
           map (\<lambda>x. if task_id x = tid then x\<lparr>updated_at := now\<rparr> else x) (tasks s)"
proof -
  have u: "unique_ids s" using inv by (simp add: table_inv_def)
  have only: "x = t" if "x \<in> set (tasks s)" "task_id x = tid" for x
    using find_task_mem [OF u that(1)] that(2) t(1) by simp
  have id: "task_id t = tid" using find_task_SomeD [OF t(1)] by simp
  have "row_ok t" using inv find_task_SomeD [OF t(1)] by (simp add: table_inv_def rows_ok_def)
  then have st: "started_at t = None" by (simp add: row_ok_def t(2))
  let ?f = "\<lambda>t. t\<lparr>status := Queued, started_at := None, updated_at := now\<rparr>"
  have "?f (run_row now t) = t\<lparr>updated_at := now\<rparr>"
    using st t(2) by (cases t) (simp add: run_row_def)
  moreover have "tasks (requeue_single_task tid now s1) =
      map (\<lambda>x. if task_id x = tid \<and> status x = Running then ?f x else x)
        (map (\<lambda>x. if task_id x = tid then run_row now t else x) (tasks s))"
    by (simp add: requeue_single_task_def update_tasks_def s1 put_task_def set_row_def map_where_def id)
  ultimately show ?thesis using id by (auto dest: only)
qed

text \<open>A task whose provider is only known after the claim is put back when that provider is
  full, and then blocks its lane: the cycle changes no status and no slot, and with the same
  slots the next claim selects the same task again, whatever else is queued behind it.\<close>

theorem put_back_blocks_lane:
  assumes "w_db w = run_queue ops empty_db"
    and "claim_next media (pool_full_providers media (w_capacity w) (w_slots w)) now (w_db w) = (Some d, s1)"
    and "0 < cap_get (w_capacity w) (extract_provider r d) media"
    and "\<not> has_room (extract_provider r d) media (cap_get (w_capacity w) (extract_provider r d) media) (w_slots w)"
  shows "\<exists>s'. claim_lane r spawn media now claimed w = (claimed, w\<lparr>w_db := s'\<rparr>) \<and>
           status_of s' = status_of (w_db w) \<and>
           claim_select media (pool_full_providers media (w_capacity w) (w_slots w)) s' = Some (td_task_id d)"
proof -
  let ?s = "w_db w" and ?full = "pool_full_providers media (w_capacity w) (w_slots w)"
  let ?s' = "requeue_single_task (td_task_id d) now s1"
  have inv: "table_inv ?s" and u: "unique_ids ?s" by (simp_all add: assms(1))
  note eff = claim_next_effect [OF inv assms(2)]
  have st: "status_of ?s' = status_of ?s"
    using eff(2) requeue_single_effect [OF eff(1), of "td_task_id d" now] by (auto simp: eff(3) fun_eq_iff)
  from assms(2) have sel: "claim_select media ?full ?s = Some (td_task_id d)"
  proof (cases "claim_select media ?full ?s")
    case (Some tid)
    with assms(2) show ?thesis
      by (auto simp: claim_next_def claim_commit_eq [OF u] find_task_SomeD split: option.splits if_splits)
  qed (simp add: claim_next_def)
  then obtain t where t: "find_task (td_task_id d) ?s = Some t" "claimable media ?full ?s t"
    using claim_select_SomeD [OF _ u] by blast
  have s1: "s1 = log_task ''running'' Running now (run_row now t) (put_task (run_row now t) ?s)"
    using assms(2) sel t by (simp add: claim_next_def claim_commit_eq [OF u] claimable_def)
  let ?g = "\<lambda>x. if task_id x = td_task_id d then x\<lparr>updated_at := now\<rparr> else x"
  have ts: "tasks ?s' = map ?g (tasks ?s)"
    using claim_requeue_tasks [OF inv t(1) _ s1] t(2) by (simp add: claimable_def)
  have "dependency_ready ?s' (?g x) = dependency_ready ?s x" for x
    by (simp add: dependency_ready_status st split: option.split)
  then have "claimable media ?full ?s' (?g x) = claimable media ?full ?s x" for x
    by (simp add: claimable_def)
  then have flt: "filter (claimable media ?full ?s') (map ?g (tasks ?s)) = map ?g (filter (claimable media ?full ?s) (tasks ?s))"
    by (intro filter_map_same)
  have ord: "order_asc queued_at (map ?g xs) = map ?g (order_asc queued_at xs)" for xs
    by (rule order_asc_map) simp
  have "claim_select media ?full ?s' = claim_select media ?full ?s"
    unfolding claim_select_def select_tasks_def ts flt ord by (auto split: list.split)
  moreover have "claim_lane r spawn media now claimed w = (claimed, w\<lparr>w_db := ?s'\<rparr>)"
    using assms(2-4) by (subst claim_lane.simps) (simp add: Let_def)
  ultimately show ?thesis using sel st by auto
qed

definition blocked_worker :: "unit worker" where
  "blocked_worker =
     \<lparr>w_capacity = sample_capacity,
      w_slots = [((default_provider, ''image''), [(''x'', \<lparr>occ_task = (), occ_pending = False\<rparr>)])],
      w_db = run_queue [(RepoOp (OpEnqueue (sample_args ''p'' ''S1'' None) ''a''), 1),
        (RepoOp (OpEnqueue ((sample_args ''p'' ''S2'' None)\<lparr>ea_provider_id := Some ''idle''\<rparr>) ''b''), 2)] empty_db\<rparr>"

theorem put_back_blocks_lane_witness:
  "\<exists>s'. claim_lane sample_resolver (\<lambda>_. ()) ''image'' 3 False blocked_worker = (False, blocked_worker\<lparr>w_db := s'\<rparr>) \<and>
     status_of s' ''b'' = Some Queued \<and>
     claim_select ''image'' (pool_full_providers ''image'' (w_capacity blocked_worker) (w_slots blocked_worker)) s' = Some ''a''"
proof -
  let ?w = blocked_worker
  have db: "w_db ?w = run_queue [(RepoOp (OpEnqueue (sample_args ''p'' ''S1'' None) ''a''), 1),
        (RepoOp (OpEnqueue ((sample_args ''p'' ''S2'' None)\<lparr>ea_provider_id := Some ''idle''\<rparr>) ''b''), 2)] empty_db"
    by (simp add: blocked_worker_def)
  obtain o1 s1 where c: "claim_next ''image'' (pool_full_providers ''image'' (w_capacity ?w) (w_slots ?w)) 3 (w_db ?w) = (o1, s1)"
    by fastforce
  have "map_option td_task_id (fst (claim_next ''image'' (pool_full_providers ''image'' (w_capacity ?w) (w_slots ?w)) 3 (w_db ?w))) = Some ''a''"
    by code_simp
  with c obtain d where d: "o1 = Some d" "td_task_id d = ''a''" by auto
  have cap: "cap_get (w_capacity ?w) default_provider ''image'' = 1" by code_simp
  have room: "has_room default_provider ''image'' 1 (w_slots ?w) = False" by code_simp
  have b: "status_of (w_db ?w) ''b'' = Some Queued" by code_simp
  from put_back_blocks_lane [OF db c [unfolded d(1)], of sample_resolver "\<lambda>_. ()" False] cap room b d(2)
  show ?thesis by auto
qed

subsection \<open>The 0-rows-cancelled protocol\<close>

lemma status_of_terminal_later:
  "later s s' \<Longrightarrow> status_of s x = Some st \<Longrightarrow> is_terminal st \<Longrightarrow> status_of s' x = Some st"
  by (fastforce simp: later_def row_later_def status_of_def)

lemma status_of_exists_later: "later s s' \<Longrightarrow> status_of s x \<noteq> None \<Longrightarrow> status_of s' x \<noteq> None"
  by (fastforce simp: later_def status_of_def)

lemma mark_cancelled_inv: "table_inv s \<Longrightarrow> table_inv (mark_task_cancelled tid now s)"
  unfolding mark_task_cancelled_def by (rule finalize.keeps_table)

lemma mark_cancelled_effect:
  assumes "table_inv s" and "status_of s tid = Some st" and "is_active st"
  shows "status_of (mark_task_cancelled tid now s) =
           set_status (insert tid (queued_reach s (children s tid))) Cancelled s"
proof -
  obtain t where t: "find_task tid s = Some t" "status t = st" using assms(2) by (auto simp: status_of_def)
  show ?thesis unfolding mark_task_cancelled_def
    by (rule finalize_effect(2) [OF assms(1) t(1)]) (simp add: t(2) assms(3))
qed

text \<open>Whatever the task's status, the cancellation the worker ends with leaves it terminal.\<close>

lemma mark_cancelled_terminal:
  assumes "table_inv s" and "status_of s tid \<noteq> None"
  shows "\<exists>st. status_of (mark_task_cancelled tid now s) tid = Some st \<and> is_terminal st"
proof -
  obtain st where st: "status_of s tid = Some st" using assms(2) by blast
  show ?thesis
  proof (cases "is_active st")
    case True
    with mark_cancelled_effect [OF assms(1) st True, of now] show ?thesis
      by (simp add: set_status_def is_terminal_def)
  next
    case False
    then have "is_terminal st" by (simp add: active_iff_not_terminal)
    moreover have "later s (mark_task_cancelled tid now s)"
      unfolding mark_task_cancelled_def by (rule finalize.is_later [OF assms(1)])
    ultimately show ?thesis using status_of_terminal_later st by blast
  qed
qed

lemma fail_orphan_terminal:
  assumes "table_inv s" and "status_of s tid \<noteq> None"
  shows "\<exists>st. status_of (fail_orphan tid msg now s) tid = Some st \<and> is_terminal st"
proof (cases "status_of s tid = Some Running")
  case True
  with mark_failed_effect [OF assms(1) True, of msg now] show ?thesis
    by (auto simp: fail_orphan_def set_status_def is_terminal_def split: prod.splits)
next
  case False
  with mark_cancelled_terminal [OF assms] show ?thesis
    by (simp add: fail_orphan_def mark_failed_none [OF assms(1) False])
qed

text \<open>What a coroutine leaves: a table that is later than the one it found, and a task that is settled
  unless the coroutine was cancelled, in which case the worker settles it when it drains the slots.\<close>

definition call_raises :: "call \<Rightarrow> bool" where
  "call_raises c = (case c of CallRaised _ \<Rightarrow> True | _ \<Rightarrow> False)"

definition leaves_settled :: "string \<Rightarrow> db \<Rightarrow> coroutine_end \<times> db \<Rightarrow> bool" where
  "leaves_settled tid s r =
     (table_inv (snd r) \<and> later s (snd r) \<and> fst r \<noteq> EndRaised \<and>
      (fst r = EndCancelled \<or> (\<exists>st. status_of (snd r) tid = Some st \<and> is_terminal st)))"

lemma leaves_settled_weaken: "leaves_settled tid s1 r \<Longrightarrow> later s s1 \<Longrightarrow> leaves_settled tid s r"
  by (auto simp: leaves_settled_def intro: later_trans)

lemma land_cancelled_settles:
  assumes "table_inv s" and "status_of s tid \<noteq> None" and "\<not> call_raises c" and "finish \<noteq> EndRaised"
  shows "leaves_settled tid s (land_cancelled tid c finish now s)"
  using assms finalize.keeps_table [OF assms(1), of tid "''user''" now] finalize.is_later [OF assms(1), of tid "''user''" now]
    mark_cancelled_terminal [OF assms(1,2), of now]
  by (cases c) (auto simp: leaves_settled_def land_cancelled_def call_raises_def mark_task_cancelled_def split: prod.splits)

lemma landing_settles:
  assumes i: "table_inv s1" and l: "later s s1" and ex: "status_of s tid \<noteq> None"
    and c: "\<not> call_raises c" "finish \<noteq> EndRaised"
  shows "leaves_settled tid s (land_cancelled tid c finish now (run_queue between s1))"
proof -
  have l2: "later s (run_queue between s1)" by (rule later_trans [OF l run_queue_later [OF i]])
  show ?thesis
    by (rule leaves_settled_weaken [OF land_cancelled_settles l2])
       (use run_queue_table_inv [OF i] status_of_exists_later [OF l2 ex] c in auto)
qed

lemma fail_or_cancel_settles:
  assumes inv: "table_inv s" and ex: "status_of s tid \<noteq> None"
    and c: "\<not> call_raises (ft_write ft)" "\<not> call_raises (ft_cancel ft)"
  shows "leaves_settled tid s (fail_or_cancel tid msg ft now s)"
proof -
  obtain rows s1 where m: "mark_failed tid msg now s = (rows, s1)" by fastforce
  have i1: "table_inv s1" and l1: "later s s1"
    using mark_failed.keeps_table [OF inv, of tid msg now] mark_failed.is_later [OF inv, of tid msg now] m by simp_all
  have "rows = 0 \<or> (\<exists>st. status_of s1 tid = Some st \<and> is_terminal st)"
  proof (cases "status_of s tid = Some Running")
    case True
    with mark_failed_effect [OF inv True, of msg now] m show ?thesis by (auto simp: set_status_def is_terminal_def)
  next
    case False
    with mark_failed_none [OF inv False] m show ?thesis by simp
  qed
  with i1 l1 landing_settles [OF i1 l1 ex c(2), of Returned now "ft_between ft"] inv c(1) m show ?thesis
    by (cases "ft_write ft") (auto simp: fail_or_cancel_def leaves_settled_def call_raises_def)
qed

lemma settle_success_settles:
  assumes inv: "table_inv s" and ex: "status_of s tid \<noteq> None"
    and c: "\<not> call_raises (ft_write ft)" "\<not> call_raises (ft_cancel ft)"
  shows "leaves_settled tid s (settle_success tid result ft now s)"
proof -
  have u: "unique_ids s" using inv by (simp add: table_inv_def)
  obtain rows s1 where m: "mark_succeeded tid result now s = (rows, s1)" by fastforce
  have i1: "table_inv s1" and l1: "later s s1"
    using mark_succeeded.keeps_table [OF inv, of tid result now] mark_succeeded.is_later [OF inv, of tid result now] m
    by simp_all
  have "status_of s1 tid = Some Succeeded" if "rows \<noteq> 0"
    using m that find_task_SomeD [of tid s]
    by (auto simp: mark_succeeded_eq [OF u] Let_def status_of_def find_task_put split: option.splits if_splits)
  then have win: "rows \<noteq> 0 \<longrightarrow> leaves_settled tid s (Returned, s1)"
    using i1 l1 by (auto simp: leaves_settled_def is_terminal_def)
  note land = landing_settles [OF _ _ ex c(2), of _ _ now "ft_between ft"]
  from win land [OF i1 l1, of Returned] land [OF i1 l1, of EndCancelled] land [OF inv, of EndCancelled] c(1) m show ?thesis
    by (cases "ft_write ft") (auto simp: settle_success_def call_raises_def)
qed

lemma process_task_leaves:
  assumes inv: "table_inv s" and ex: "status_of s tid \<noteq> None"
    and c: "\<not> call_raises (ft_write ft)" "\<not> call_raises (ft_cancel ft)"
  shows "leaves_settled tid s (process_task tid outcome ft now s)"
  using fail_or_cancel_settles [OF inv ex c] settle_success_settles [OF inv ex c]
    land_cancelled_settles [OF inv ex c(2), of EndCancelled now] inv
  by (cases outcome) (auto simp: process_task_def leaves_settled_def)

lemma settled_after_drain:
  assumes r: "leaves_settled tid s (e, s1)" and ex: "status_of s tid \<noteq> None"
  shows "\<exists>st. status_of (settle_finished (tid, e) True now (run_queue later_ops s1)) tid = Some st \<and> is_terminal st"
proof -
  have i1: "table_inv s1" and l1: "later s s1" using r by (simp_all add: leaves_settled_def)
  let ?s2 = "run_queue later_ops s1"
  have i2: "table_inv ?s2" and l2: "later s1 ?s2" by (rule run_queue_table_inv [OF i1], rule run_queue_later [OF i1])
  have "status_of ?s2 tid \<noteq> None"
    by (rule status_of_exists_later [OF l2 status_of_exists_later [OF l1 ex]])
  from mark_cancelled_terminal [OF i2 this, of now] r l2 show ?thesis
    by (auto simp: settle_finished_def leaves_settled_def dest: status_of_terminal_later)
qed

text \<open>C9. However the generation ends (a result, an error, a cancellation, even one before the coroutine has entered its
  try), however its two shielded calls of the database end short of raising (a wait that is cancelled may leave the call
  running), and whatever other transactions do in between: once the worker has drained the finished coroutine, its task is in
  a terminal status, and the coroutine itself has not raised. A call of the database that raises is excluded: it leaves the
  task to the scan after the next restart.\<close>

theorem process_task_settles:
  assumes "find_task tid (run_queue ops empty_db) \<noteq> None"
    and "process_task tid outcome ft now (run_queue ops empty_db) = (e, s1)"
    and "\<not> call_raises (ft_write ft)" and "\<not> call_raises (ft_cancel ft)"
  shows "e \<noteq> EndRaised \<and>
     (\<exists>st. status_of (settle_finished (tid, e) True now2 (run_queue later_ops s1)) tid = Some st \<and> is_terminal st)"
proof -
  let ?s = "run_queue ops empty_db"
  have inv: "table_inv ?s" and ex: "status_of ?s tid \<noteq> None" using assms(1) by (simp_all add: status_of_def)
  from process_task_leaves [OF inv ex assms(3,4), of outcome now] have "leaves_settled tid ?s (e, s1)"
    by (simp add: assms(2))
  with settled_after_drain [OF this ex] show ?thesis by (simp add: leaves_settled_def)
qed

text \<open>A wait for the failure that is cancelled, while the call itself has not run yet: the drain settles the task.\<close>

theorem process_task_settles_witness:
  "\<exists>e s1. process_task ''a'' (ExecRaised ''x'') \<lparr>ft_write = CallCancelled False, ft_cancel = CallReturned, ft_between = []\<rparr> 6
      (run_queue (sample_ops @ [(RepoOp (OpClaimNext ''image'' []), 3)]) empty_db) = (e, s1) \<and> status_of s1 ''a'' = Some Running \<and>
     (\<exists>st. status_of (settle_finished (''a'', e) True 8 (run_queue [(RepoOp (OpCancelTask ''b''), 7)] s1)) ''a'' = Some st \<and> is_terminal st)"
proof -
  let ?ft = "\<lparr>ft_write = CallCancelled False, ft_cancel = CallReturned, ft_between = []\<rparr> :: fate"
  let ?s = "run_queue (sample_ops @ [(RepoOp (OpClaimNext ''image'' []), 3)]) empty_db"
  have p: "process_task ''a'' (ExecRaised ''x'') ?ft 6 ?s = (EndCancelled, ?s)"
    by (simp add: process_task_def fail_or_cancel_def)
  have f: "find_task ''a'' ?s \<noteq> None" and r: "status_of ?s ''a'' = Some Running" by code_simp+
  have c: "\<not> call_raises (ft_write ?ft)" "\<not> call_raises (ft_cancel ?ft)" by (simp_all add: call_raises_def)
  from process_task_settles [OF f p c] p r show ?thesis by blast
qed

text \<open>A call of the database that raises leaves the task running, and the drain passes over it.\<close>

theorem database_error_unsettled:
  assumes "table_inv s" and "status_of s tid = Some Running"
  shows "case process_task tid (ExecRaised msg) \<lparr>ft_write = CallRaised False, ft_cancel = c, ft_between = between\<rparr> now s of
     (e, s1) \<Rightarrow> status_of (settle_finished (tid, e) True now2 s1) tid = Some Running"
  using assms by (simp add: process_task_def fail_or_cancel_def settle_finished_def)

theorem database_error_unsettled_witness:
  "let s = run_queue (sample_ops @ [(RepoOp (OpClaimNext ''image'' []), 3)]) empty_db in
   case process_task ''a'' (ExecRaised ''x'') \<lparr>ft_write = CallRaised False, ft_cancel = CallReturned, ft_between = []\<rparr> 6 s of
     (e, s1) \<Rightarrow> status_of (settle_finished (''a'', e) True 7 s1) ''a'' = Some Running"
  unfolding Let_def by (rule database_error_unsettled) (simp, code_simp)

text \<open>The same for a resumed task, whose own wrapper lands a cancellation, provided its stored payload is an object.\<close>

lemma resume_leaves:
  assumes inv: "table_inv s" and ex: "status_of s (td_task_id d) \<noteq> None"
    and c: "\<not> call_raises (ft_write ft)" "\<not> call_raises (ft_cancel ft)" and l: "lock_provider d \<noteq> None"
  shows "leaves_settled (td_task_id d) s (process_resume_task resume d ft now s)"
  using fail_or_cancel_settles [OF inv ex c] settle_success_settles [OF inv ex c]
    land_cancelled_settles [OF inv ex c(2), of EndCancelled now] inv l
  by (auto simp: process_resume_task_def Let_def leaves_settled_def split: option.splits resume_outcome.splits)

theorem resume_settles:
  assumes "find_task tid (run_queue ops empty_db) = Some t" and "turn \<noteq> TurnStopped"
    and "\<not> call_raises (ft_write ft)" and "\<not> call_raises (ft_cancel ft)" and "lock_provider (task_to_dict t) \<noteq> None"
  shows "\<exists>st. status_of (snd (run_one turn resume (task_to_dict t) ft between CallReturned now (run_queue ops empty_db))) tid =
     Some st \<and> is_terminal st"
proof -
  let ?s = "run_queue ops empty_db"
  have inv: "table_inv ?s" and ex: "status_of ?s tid \<noteq> None" using assms(1) by (simp_all add: status_of_def)
  have id: "td_task_id (task_to_dict t) = tid" using find_task_SomeD [OF assms(1)] by simp
  obtain e s1 where r: "(case turn of TurnCancelled \<Rightarrow> (EndCancelled, ?s) | TurnStopped \<Rightarrow> (Returned, ?s)
      | TurnTaken \<Rightarrow> process_resume_task resume (task_to_dict t) ft now ?s) = (e, s1)" by fastforce
  have "leaves_settled tid ?s (e, s1)"
    using resume_leaves [OF inv _ assms(3-5), of resume now] ex id inv assms(2) r
    by (cases turn) (auto simp: leaves_settled_def)
  from settled_after_drain [OF this ex, of now between] show ?thesis
    using r id \<open>leaves_settled tid ?s (e, s1)\<close> status_of_terminal_later [OF run_queue_later]
    by (cases e) (auto simp: run_one_def settle_finished_def mark_task_cancelled_def leaves_settled_def split: prod.splits)
qed

theorem resume_settles_witness:
  "\<exists>st. status_of (snd (run_one TurnTaken (\<lambda>_ _. ResumeDone None) (task_to_dict
        (run_row 2 (new_task (sample_args ''p'' ''S1'' None) ''a'' 1)\<lparr>provider_job_id := Some ''job'', updated_at := 3\<rparr>))
        \<lparr>ft_write = CallReturned, ft_cancel = CallReturned, ft_between = []\<rparr> [] CallReturned 4
        (run_queue [(RepoOp (OpEnqueue (sample_args ''p'' ''S1'' None) ''a''), 1), (RepoOp (OpClaimNext ''image'' []), 2),
           (RepoOp (OpPersistJob ''a'' ''job''), 3)] empty_db))) ''a'' = Some st \<and> is_terminal st"
  by (rule resume_settles) code_simp+

end
