(* ===== verification/Recovery.thy ===== *)
theory Recovery
  imports WorkerSettle
begin

text \<open>
  Restart recovery and the main loop: every orphan that is neither active in this process nor
  safely resumable ends in a terminal status and nothing is submitted again; the loop scans
  and claims only while it holds the lease, and scans before it claims.
\<close>

subsection \<open>Orphans\<close>

definition resumed :: "resumable \<Rightarrow> task_dict list" where
  "resumed res = concat (map snd res)"

lemma resumed_add:
  "set (resumed (AList.update p (coalesce (map_of res p) [] @ [d]) res)) = insert d (set (resumed res))"
proof (induction res)
  case (Cons a res)
  then show ?case by (cases a) (auto simp: resumed_def)
qed (simp add: resumed_def)

definition pending_status :: "task_status \<Rightarrow> bool" where
  "pending_status st = (st = Running \<or> st = Cancelling)"

lemma pending_not_terminal: "pending_status st \<Longrightarrow> is_active st \<and> \<not> is_terminal st"
  by (auto simp: pending_status_def is_terminal_def)

text \<open>What one orphan's handling may do to the table.\<close>

definition orphan_effect :: "string \<Rightarrow> db \<Rightarrow> db \<Rightarrow> bool" where
  "orphan_effect tid s s' =
     (table_inv s' \<and> later s s' \<and> queued_ids s' \<subseteq> queued_ids s \<and>
      (\<forall>x st. x \<noteq> tid \<and> status_of s x = Some st \<and> pending_status st \<longrightarrow> status_of s' x = Some st))"

lemma set_status_effect:
  assumes "table_inv s'" and "later s s'" and "st \<noteq> Queued"
    and "status_of s' = set_status (insert tid (queued_reach s roots)) st s"
  shows "orphan_effect tid s s'"
proof -
  have "status_of s' x = Some q" if "x \<noteq> tid" "status_of s x = Some q" "pending_status q" for x q
  proof -
    have "x \<notin> queued_reach s roots"
      using queued_reach_queued [of x s roots] that(2,3) by (auto simp: pending_status_def)
    with that(1,2) show ?thesis unfolding assms(4) set_status_def by simp
  qed
  with assms(1,2) queued_ids_set_status [OF assms(4,3)] show ?thesis
    unfolding orphan_effect_def by blast
qed

lemma orphan_effect_refl: "table_inv s \<Longrightarrow> orphan_effect tid s s"
  by (simp add: orphan_effect_def)

lemma cancel_orphan_effect:
  assumes inv: "table_inv s" and st: "status_of s tid = Some st" "pending_status st"
  shows "orphan_effect tid s (mark_task_cancelled tid now s)"
proof (rule set_status_effect)
  show "table_inv (mark_task_cancelled tid now s)" by (rule mark_cancelled_inv [OF inv])
  show "later s (mark_task_cancelled tid now s)"
    unfolding mark_task_cancelled_def by (rule finalize.is_later [OF inv])
  show "status_of (mark_task_cancelled tid now s) =
      set_status (insert tid (queued_reach s (children s tid))) Cancelled s"
    by (rule mark_cancelled_effect [OF inv st(1)]) (simp add: pending_not_terminal [OF st(2)])
qed simp

lemma fail_orphan_effect:
  assumes inv: "table_inv s" and st: "status_of s tid = Some st" "pending_status st"
  shows "orphan_effect tid s (fail_orphan tid msg now s)"
proof (cases "st = Running")
  case True
  then have run: "status_of s tid = Some Running" using st by simp
  from mark_failed_effect [OF inv run, of msg now]
  have "fail_orphan tid msg now s = snd (mark_failed tid msg now s)"
    by (auto simp: fail_orphan_def split: prod.split)
  with set_status_effect [OF mark_failed.keeps_table [OF inv, of tid msg now]
      mark_failed.is_later [OF inv, of tid msg now] _ mark_failed_effect(2) [OF inv run, of msg now]]
  show ?thesis by simp
next
  case False
  then have "status_of s tid \<noteq> Some Running" using st by simp
  with cancel_orphan_effect [OF assms] show ?thesis
    by (simp add: fail_orphan_def mark_failed_none [OF inv])
qed

lemma plan_resume:
  "plan_orphan r act d = OrphanResume p \<Longrightarrow> pending_status (td_status d) \<Longrightarrow>
     td_status d = Running \<and> p \<notin> set non_resumable_video_providers \<and>
     coalesce (td_provider_job_id d) [] \<noteq> [] \<and> td_task_id d \<notin> set act"
  by (auto simp: plan_orphan_def Let_def pending_status_def split: if_splits)

lemma plan_skip: "plan_orphan r act d = OrphanSkip \<longleftrightarrow> td_task_id d \<in> set act"
  by (auto simp: plan_orphan_def Let_def)

definition resumable_ok :: "string list \<Rightarrow> task_dict \<Rightarrow> bool" where
  "resumable_ok act d =
     (td_status d = Running \<and> coalesce (td_provider_job_id d) [] \<noteq> [] \<and>
      coalesce (td_provider_id d) [] \<notin> set non_resumable_video_providers \<and> td_task_id d \<notin> set act)"

lemma handle_orphan_step:
  assumes inv: "table_inv s" and st: "status_of s (td_task_id d) = Some (td_status d)"
    and pd: "pending_status (td_status d)"
    and h: "handle_orphan r act now d (res, s) = (res', s')"
  shows "orphan_effect (td_task_id d) s s'"
    and "set (resumed res) \<subseteq> set (resumed res')"
    and "\<forall>e\<in>set (resumed res'). e \<in> set (resumed res) \<or> (resumable_ok act e \<and> td_task_id e = td_task_id d)"
    and "td_task_id d \<in> set act \<and> s' = s \<or> (td_task_id d \<in> td_task_id ` set (resumed res') \<and> s' = s) \<or>
         (\<exists>st'. status_of s' (td_task_id d) = Some st' \<and> is_terminal st')"
proof -
  have ex: "status_of s (td_task_id d) \<noteq> None" using st by simp
  consider "plan_orphan r act d = OrphanSkip" | "plan_orphan r act d = OrphanCancel"
    | msg where "plan_orphan r act d = OrphanFail msg" | p where "plan_orphan r act d = OrphanResume p"
    by (cases "plan_orphan r act d") auto
  then have "orphan_effect (td_task_id d) s s' \<and> set (resumed res) \<subseteq> set (resumed res') \<and>
    (\<forall>e\<in>set (resumed res'). e \<in> set (resumed res) \<or> (resumable_ok act e \<and> td_task_id e = td_task_id d)) \<and>
    (td_task_id d \<in> set act \<and> s' = s \<or> (td_task_id d \<in> td_task_id ` set (resumed res') \<and> s' = s) \<or>
         (\<exists>st'. status_of s' (td_task_id d) = Some st' \<and> is_terminal st'))"
  proof cases
    case 1
    with h plan_skip [of r act d] orphan_effect_refl [OF inv] show ?thesis by auto
  next
    case 2
    with h cancel_orphan_effect [OF inv st pd, of now] mark_cancelled_terminal [OF inv ex, of now]
    show ?thesis by auto
  next
    case 3
    with h fail_orphan_effect [OF inv st pd] fail_orphan_terminal [OF inv ex] show ?thesis by auto
  next
    case (4 p)
    with h plan_resume [OF 4 pd] orphan_effect_refl [OF inv] show ?thesis
      by (auto simp: resumed_add resumable_ok_def)
  qed
  then show "orphan_effect (td_task_id d) s s'"
    and "set (resumed res) \<subseteq> set (resumed res')"
    and "\<forall>e\<in>set (resumed res'). e \<in> set (resumed res) \<or> (resumable_ok act e \<and> td_task_id e = td_task_id d)"
    and "td_task_id d \<in> set act \<and> s' = s \<or> (td_task_id d \<in> td_task_id ` set (resumed res') \<and> s' = s) \<or>
         (\<exists>st'. status_of s' (td_task_id d) = Some st' \<and> is_terminal st')"
    by blast+
qed

lemma handle_orphans_fold:
  assumes "table_inv s" and "distinct (map td_task_id ds)"
    and "\<And>d. d \<in> set ds \<Longrightarrow> status_of s (td_task_id d) = Some (td_status d) \<and> pending_status (td_status d)"
    and "fold (handle_orphan r act now) ds (res, s) = (res', s')"
  shows "table_inv s' \<and> later s s' \<and> queued_ids s' \<subseteq> queued_ids s \<and>
    (\<forall>x st. x \<notin> td_task_id ` set ds \<and> status_of s x = Some st \<and> pending_status st \<longrightarrow> status_of s' x = Some st) \<and>
    set (resumed res) \<subseteq> set (resumed res') \<and>
    (\<forall>e\<in>set (resumed res'). e \<in> set (resumed res) \<or> (resumable_ok act e \<and> td_task_id e \<in> td_task_id ` set ds)) \<and>
    (\<forall>d\<in>set ds. ((td_task_id d \<in> set act \<or> td_task_id d \<in> td_task_id ` set (resumed res')) \<and>
                   status_of s' (td_task_id d) = Some (td_status d)) \<or>
                (\<exists>st'. status_of s' (td_task_id d) = Some st' \<and> is_terminal st'))"
  using assms
proof (induction ds arbitrary: res s)
  case (Cons d ds)
  obtain res1 s1 where h: "handle_orphan r act now d (res, s) = (res1, s1)" by fastforce
  note hd = Cons.prems(3) [of d, simplified]
  note step = handle_orphan_step [OF Cons.prems(1) conjunct1 [OF hd] conjunct2 [OF hd] h]
  have i1: "table_inv s1" and l1: "later s s1" and q1: "queued_ids s1 \<subseteq> queued_ids s"
    and o1: "\<And>x st. x \<noteq> td_task_id d \<Longrightarrow> status_of s x = Some st \<Longrightarrow> pending_status st \<Longrightarrow> status_of s1 x = Some st"
    using step(1) by (auto simp: orphan_effect_def)
  have rest: "status_of s1 (td_task_id e) = Some (td_status e) \<and> pending_status (td_status e)" if "e \<in> set ds" for e
    using Cons.prems(2) Cons.prems(3) [of e] that o1 [of "td_task_id e" "td_status e"] by (auto simp: image_iff)
  from Cons.prems(4) h have f: "fold (handle_orphan r act now) ds (res1, s1) = (res', s')" by simp
  from Cons.IH [OF i1 _ rest f] Cons.prems(2)
  have IH: "table_inv s'" "later s1 s'" "queued_ids s' \<subseteq> queued_ids s1"
    "\<And>x st. x \<notin> td_task_id ` set ds \<Longrightarrow> status_of s1 x = Some st \<Longrightarrow> pending_status st \<Longrightarrow> status_of s' x = Some st"
    "set (resumed res1) \<subseteq> set (resumed res')"
    "\<forall>e\<in>set (resumed res'). e \<in> set (resumed res1) \<or> (resumable_ok act e \<and> td_task_id e \<in> td_task_id ` set ds)"
    "\<forall>d\<in>set ds. ((td_task_id d \<in> set act \<or> td_task_id d \<in> td_task_id ` set (resumed res')) \<and>
                   status_of s' (td_task_id d) = Some (td_status d)) \<or>
                (\<exists>st'. status_of s' (td_task_id d) = Some st' \<and> is_terminal st')"
    by auto
  have nd: "td_task_id d \<notin> td_task_id ` set ds" using Cons.prems(2) by (auto simp: image_iff)
  have here: "((td_task_id d \<in> set act \<or> td_task_id d \<in> td_task_id ` set (resumed res')) \<and>
                   status_of s' (td_task_id d) = Some (td_status d)) \<or>
                (\<exists>st'. status_of s' (td_task_id d) = Some st' \<and> is_terminal st')"
    using step(4) IH(4) [OF nd] hd IH(5) status_of_terminal_later [OF IH(2)] by blast
  have "\<And>x st. x \<notin> td_task_id ` set (d # ds) \<Longrightarrow> status_of s x = Some st \<Longrightarrow> pending_status st \<Longrightarrow> status_of s' x = Some st"
    using o1 IH(4) by auto
  moreover have "\<forall>e\<in>set (resumed res'). e \<in> set (resumed res) \<or>
      (resumable_ok act e \<and> td_task_id e \<in> td_task_id ` set (d # ds))"
    using IH(6) step(3) by auto
  ultimately show ?case
    using IH(1,3,5,7) later_trans [OF l1 IH(2)] q1 step(2) here by auto
qed auto

text \<open>After a restart scan of a reachable database, a task that was running or cancelling is
  either untouched (active in this process, or handed to the resume dispatcher) or in a
  terminal status; no task became queued again, so nothing is submitted twice; and every
  task handed over was running, has a job id and a provider that can resume.\<close>

theorem orphans_settled:
  assumes "handle_orphan_tasks_on_start r act now (run_queue ops empty_db) = (res, s')"
    and "status_of (run_queue ops empty_db) x = Some st" and "st = Running \<or> st = Cancelling"
  shows "(((x \<in> set act \<or> x \<in> td_task_id ` set (resumed res)) \<and> status_of s' x = Some st) \<or>
           (\<exists>st'. status_of s' x = Some st' \<and> is_terminal st')) \<and>
         queued_ids s' \<subseteq> queued_ids (run_queue ops empty_db) \<and>
         list_all (resumable_ok act) (resumed res)"
proof -
  let ?s = "run_queue ops empty_db"
  let ?rows = "order_asc updated_at (select_tasks (\<lambda>t. status t = Running \<or> status t = Cancelling) ?s)"
  let ?ds = "map task_to_dict ?rows"
  have u: "unique_ids ?s" and inv: "table_inv ?s" by simp_all
  have "distinct (map task_id (filter (\<lambda>t. status t = Running \<or> status t = Cancelling) (tasks ?s)))"
    using u by (simp add: unique_ids_def distinct_map_filter)
  then have "distinct (map task_id ?rows)"
    unfolding select_tasks_def by (rule distinct_order)
  then have d: "distinct (map td_task_id ?ds)" by (simp add: o_def)
  have each: "status_of ?s (td_task_id e) = Some (td_status e) \<and> pending_status (td_status e)" if "e \<in> set ?ds" for e
    using that find_task_mem [OF u] by (auto simp: select_tasks_def status_of_def pending_status_def)
  have f: "fold (handle_orphan r act now) ?ds ([], ?s) = (res, s')"
    using assms(1) by (simp add: handle_orphan_tasks_on_start_def list_orphan_tasks_on_start_def)
  note all = handle_orphans_fold [OF inv d each f]
  obtain t where t: "find_task x ?s = Some t" "status t = st" using assms(2) by (auto simp: status_of_def)
  then have "task_to_dict t \<in> set ?ds" "td_task_id (task_to_dict t) = x" "td_status (task_to_dict t) = st"
    using find_task_SomeD [OF t(1)] assms(3) by (auto simp: select_tasks_def)
  then have x: "x \<in> td_task_id ` set ?ds" and "\<exists>d\<in>set ?ds. td_task_id d = x \<and> td_status d = st" by blast+
  then obtain d where dd: "d \<in> set ?ds" "td_task_id d = x" "td_status d = st" by blast
  from all have "\<forall>d\<in>set ?ds. ((td_task_id d \<in> set act \<or> td_task_id d \<in> td_task_id ` set (resumed res)) \<and>
      status_of s' (td_task_id d) = Some (td_status d)) \<or>
      (\<exists>st'. status_of s' (td_task_id d) = Some st' \<and> is_terminal st')" by blast
  from bspec [OF this dd(1)] dd(2,3)
  have 1: "((x \<in> set act \<or> x \<in> td_task_id ` set (resumed res)) \<and> status_of s' x = Some st) \<or>
      (\<exists>st'. status_of s' x = Some st' \<and> is_terminal st')" by simp
  have 2: "queued_ids s' \<subseteq> queued_ids ?s" using all by blast
  have "\<forall>e\<in>set (resumed res). e \<in> set (resumed []) \<or> (resumable_ok act e \<and> td_task_id e \<in> td_task_id ` set ?ds)"
    using all by blast
  moreover have "resumed [] = []" by (simp add: resumed_def)
  ultimately have "list_all (resumable_ok act) (resumed res)" by (simp add: list_all_iff)
  with 1 2 show ?thesis by blast
qed

theorem orphans_settled_witness:
  "status_of (snd (handle_orphan_tasks_on_start sample_resolver [] 5
     (run_queue (sample_ops @ [(RepoOp (OpClaimNext ''image'' []), 3)]) empty_db))) ''a'' \<noteq> Some Running"
proof -
  let ?s = "run_queue (sample_ops @ [(RepoOp (OpClaimNext ''image'' []), 3)]) empty_db"
  obtain res s' where h: "handle_orphan_tasks_on_start sample_resolver [] 5 ?s = (res, s')" by fastforce
  have st: "status_of ?s ''a'' = Some Running" by code_simp
  have "resumed (fst (handle_orphan_tasks_on_start sample_resolver [] 5 ?s)) = []" by code_simp
  with orphans_settled [OF h st] h show ?thesis by (auto simp: is_terminal_def)
qed

subsection \<open>The main loop\<close>

text \<open>A turn's actions, read off its inputs.\<close>

lemma loop_step_actions:
  "set (snd (loop_step ttl (owns, clock) st)) \<subseteq> {DoDrain, DoOrphans, DoHeartbeat, DoClaim} \<and>
   (DoClaim \<in> set (snd (loop_step ttl (owns, clock) st)) \<longleftrightarrow> owns) \<and>
   (DoOrphans \<in> set (snd (loop_step ttl (owns, clock) st)) \<longleftrightarrow>
      owns \<and> (\<not> ls_handled st \<or> (\<exists>t. ls_lost_at st = Some t \<and> clock - t > ttl * orphan_rescan_mult)))"
  by (auto simp: loop_step_def Let_def split: option.splits prod.splits)

text \<open>No claim comes before a scan: the actions up to any claim contain a scan.\<close>

fun scanned_before_claim :: "bool \<Rightarrow> loop_action list \<Rightarrow> bool" where
  "scanned_before_claim seen [] = True"
| "scanned_before_claim seen (a # as) =
     ((a = DoClaim \<longrightarrow> seen) \<and> scanned_before_claim (seen \<or> a = DoOrphans) as)"

lemma scanned_append:
  "scanned_before_claim seen (as @ bs) \<longleftrightarrow>
     scanned_before_claim seen as \<and> scanned_before_claim (seen \<or> DoOrphans \<in> set as) bs"
proof (induction as arbitrary: seen)
  case (Cons a as)
  have "(seen \<or> a = DoOrphans) \<or> DoOrphans \<in> set as \<longleftrightarrow> seen \<or> DoOrphans \<in> set (a # as)" by auto
  with Cons.IH [of "seen \<or> a = DoOrphans"] show ?case by simp
qed simp

lemma loop_run_scanned:
  "ls_handled st \<longrightarrow> seen \<Longrightarrow> scanned_before_claim seen (loop_run ttl is st)"
proof (induction "is" arbitrary: st seen)
  case (Cons i "is")
  obtain st' acts where l: "loop_step ttl i st = (st', acts)" by fastforce
  obtain owns clock where i: "i = (owns, clock)" by fastforce
  have "scanned_before_claim seen acts \<and> (ls_handled st' \<longrightarrow> seen \<or> DoOrphans \<in> set acts)"
    using l Cons.prems by (auto simp: i loop_step_def Let_def split: option.splits prod.splits if_splits)
  with Cons.IH [of st' "seen \<or> DoOrphans \<in> set acts"] l show ?case
    by (simp add: scanned_append)
qed simp

text \<open>From the start of the worker, and whatever the lease calls answer, the main loop never
  claims tasks before it has scanned for orphans.\<close>

theorem orphan_scan_before_claim: "scanned_before_claim False (loop_run ttl inputs loop_start)"
  by (rule loop_run_scanned) (simp add: loop_start_def)

end
