(* ===== verification/Leases.thy ===== *)
theory Leases
  imports TaskModel
begin

text \<open>
  Worker leases (\<open>lib/db/repositories/task_repo.py\<close>, "Worker Lease"): one row per lease name,
  taken over only by its owner or after it expired. Deadlines are rationals, since the
  source adds floats to \<open>time.time()\<close>; each call passes its own clock reading. The laws of a
  lease are stated as an interface and interpreted on the repository's operations.
\<close>

definition find_lease :: "string \<Rightarrow> db \<Rightarrow> worker_lease option" where
  "find_lease n s = find_row lease_name n (leases s)"

definition lease_deadline :: "rat \<Rightarrow> rat \<Rightarrow> rat" where
  "lease_deadline now_epoch ttl = now_epoch + max 1 ttl"

definition acquire_or_renew_lease ::
  "string \<Rightarrow> string \<Rightarrow> rat \<Rightarrow> rat \<Rightarrow> time \<Rightarrow> db \<Rightarrow> bool \<times> db" where
  "acquire_or_renew_lease n owner ttl now_epoch updated s =
     (let lease_until' = lease_deadline now_epoch ttl;
          p = (\<lambda>l. lease_name l = n \<and> (lease_owner l = owner \<or> lease_until l \<le> now_epoch));
          f = (\<lambda>l. l\<lparr>lease_owner := owner, lease_until := lease_until', lease_updated_at := updated\<rparr>)
      in if filter p (leases s) \<noteq> [] then (True, s\<lparr>leases := map_where p f (leases s)\<rparr>)
         else if n \<in> lease_name ` set (leases s) then (False, s)
         else (True, s\<lparr>leases := leases s @
                 [\<lparr>lease_name = n, lease_owner = owner, lease_until = lease_until',
                   lease_updated_at = updated\<rparr>]\<rparr>))"

definition release_lease :: "string \<Rightarrow> string \<Rightarrow> db \<Rightarrow> db" where
  "release_lease n owner s =
     s\<lparr>leases := filter (\<lambda>l. \<not> (lease_name l = n \<and> lease_owner l = owner)) (leases s)\<rparr>"

definition is_worker_online :: "string \<Rightarrow> rat \<Rightarrow> db \<Rightarrow> bool" where
  "is_worker_online n now_epoch s =
     (case find_lease n s of None \<Rightarrow> False | Some l \<Rightarrow> lease_until l > now_epoch)"

definition get_worker_lease :: "string \<Rightarrow> rat \<Rightarrow> db \<Rightarrow> (worker_lease \<times> bool) option" where
  "get_worker_lease n now_epoch s =
     map_option (\<lambda>l. (l, lease_until l > now_epoch)) (find_lease n s)"

definition unique_leases :: "db \<Rightarrow> bool" where
  "unique_leases s = distinct (map lease_name (leases s))"

lemma lease_mem_iff: "unique_leases s \<Longrightarrow> l \<in> set (leases s) \<Longrightarrow> find_lease (lease_name l) s = Some l"
  unfolding unique_leases_def find_lease_def by (rule find_row_mem)

lemma find_lease_SomeD: "find_lease n s = Some l \<Longrightarrow> l \<in> set (leases s) \<and> lease_name l = n"
  unfolding find_lease_def by (rule find_row_SomeD)

lemma find_lease_None: "find_lease n s = None \<longleftrightarrow> n \<notin> lease_name ` set (leases s)"
  by (simp add: find_lease_def find_row_None_iff)

lemma find_row_filter:
  "distinct (map key rs) \<Longrightarrow> find_row key k (filter p rs) =
     (case find_row key k rs of None \<Rightarrow> None | Some r \<Rightarrow> if p r then Some r else None)"
proof (induction rs)
  case (Cons x xs)
  have "find_row key (key x) xs = None" using Cons.prems by (simp add: find_row_None_iff)
  with Cons show ?case by (auto simp: find_row_Cons)
qed simp

text \<open>What each call does to the row of its name, and that it leaves other names alone.\<close>

lemma acquire_eq:
  assumes "unique_leases s"
  shows "acquire_or_renew_lease n owner ttl now_epoch updated s =
     (case find_lease n s of
        None \<Rightarrow> (True, s\<lparr>leases := leases s @ [\<lparr>lease_name = n, lease_owner = owner,
                   lease_until = lease_deadline now_epoch ttl, lease_updated_at = updated\<rparr>]\<rparr>)
      | Some l \<Rightarrow>
          if lease_owner l = owner \<or> lease_until l \<le> now_epoch
          then (True, s\<lparr>leases := set_row lease_name
                   (l\<lparr>lease_owner := owner, lease_until := lease_deadline now_epoch ttl,
                      lease_updated_at := updated\<rparr>) (leases s)\<rparr>)
          else (False, s))"
proof (cases "find_lease n s")
  case None
  then have "n \<notin> lease_name ` set (leases s)" by (simp add: find_lease_None)
  then show ?thesis
    by (auto simp: acquire_or_renew_lease_def None Let_def filter_empty_conv)
next
  case (Some l)
  let ?p = "\<lambda>l. lease_name l = n \<and> (lease_owner l = owner \<or> lease_until l \<le> now_epoch)"
  let ?f = "\<lambda>l. l\<lparr>lease_owner := owner, lease_until := lease_deadline now_epoch ttl, lease_updated_at := updated\<rparr>"
  have mem: "l \<in> set (leases s)" "lease_name l = n" using find_lease_SomeD [OF Some] by simp_all
  have only: "x = l" if "x \<in> set (leases s)" "lease_name x = n" for x
    using lease_mem_iff [OF assms that(1)] that(2) Some by simp
  have "filter ?p (leases s) \<noteq> [] \<longleftrightarrow> lease_owner l = owner \<or> lease_until l \<le> now_epoch"
    using mem by (auto simp: filter_empty_conv dest: only)
  moreover have "lease_owner l = owner \<or> lease_until l \<le> now_epoch \<Longrightarrow>
      map_where ?p ?f (leases s) = set_row lease_name (?f l) (leases s)"
    using mem by (auto simp: map_where_def set_row_def dest: only)
  moreover have "n \<in> lease_name ` set (leases s)" using mem by auto
  ultimately show ?thesis
    by (simp add: acquire_or_renew_lease_def Some Let_def)
qed

lemma acquire_unique [simp]:
  assumes "unique_leases s"
  shows "unique_leases (snd (acquire_or_renew_lease n owner ttl now_epoch updated s))"
  using assms find_lease_None [of n s]
  by (auto simp: acquire_eq unique_leases_def split: option.splits)

lemma release_unique [simp]: "unique_leases s \<Longrightarrow> unique_leases (release_lease n owner s)"
  by (simp add: unique_leases_def release_lease_def distinct_map_filter)

subsection \<open>The interface\<close>

text \<open>
  A lease service: who holds a name and until when, an attempt to take it, and its release.
  The state predicate \<open>valid\<close> is the provider's invariant.
\<close>

locale lease_service =
  fixes holder :: "'s \<Rightarrow> ('o \<times> rat) option"
    and attempt :: "'o \<Rightarrow> rat \<Rightarrow> rat \<Rightarrow> 's \<Rightarrow> bool \<times> 's"
    and give_up :: "'o \<Rightarrow> 's \<Rightarrow> 's"
    and valid :: "'s \<Rightarrow> bool"
  assumes valid_attempt: "valid s \<Longrightarrow> valid (snd (attempt who ttl t s))"
    and valid_give_up: "valid s \<Longrightarrow> valid (give_up who s)"
    and attempt_spec: "valid s \<Longrightarrow> attempt who ttl t s = (ok, s') \<Longrightarrow>
          (ok \<longleftrightarrow> (case holder s of None \<Rightarrow> True | Some (h, d) \<Rightarrow> h = who \<or> d \<le> t)) \<and>
          holder s' = (if ok then Some (who, t + max 1 ttl) else holder s)"
    and give_up_spec: "valid s \<Longrightarrow>
          holder (give_up who s) = (case holder s of None \<Rightarrow> None
             | Some (h, d) \<Rightarrow> if h = who then None else Some (h, d))"
begin

text \<open>Calls of a set of workers, each with its own clock reading.\<close>

fun apply_call :: "('o \<times> rat \<times> rat) + 'o \<Rightarrow> 's \<Rightarrow> 's" where
  "apply_call (Inl (who, ttl, t)) s = snd (attempt who ttl t s)"
| "apply_call (Inr who) s = give_up who s"

fun call_by_other :: "'o \<Rightarrow> rat \<Rightarrow> ('o \<times> rat \<times> rat) + 'o \<Rightarrow> bool" where
  "call_by_other me d (Inl (who, ttl, t)) = (who \<noteq> me \<and> t < d)"
| "call_by_other me d (Inr who) = (who \<noteq> me)"

text \<open>While the deadline has not passed, nothing another worker does takes the lease away.\<close>

lemma held_until_deadline:
  assumes "valid s" and "holder s = Some (me, d)" and "\<forall>c\<in>set calls. call_by_other me d c"
  shows "valid (fold apply_call calls s) \<and> holder (fold apply_call calls s) = Some (me, d)"
  using assms
proof (induction calls arbitrary: s)
  case (Cons c calls)
  have "valid (apply_call c s) \<and> holder (apply_call c s) = Some (me, d)"
  proof (cases c)
    case (Inl a)
    obtain who ttl t where a: "a = (who, ttl, t)" by (cases a)
    obtain ok s' where r: "attempt who ttl t s = (ok, s')" by fastforce
    have "who \<noteq> me" "t < d" using Cons.prems(3) by (simp_all add: Inl a)
    with attempt_spec [OF Cons.prems(1) r] valid_attempt [OF Cons.prems(1), of who ttl t] Cons.prems(2) r
    show ?thesis by (auto simp: Inl a)
  next
    case (Inr who)
    with give_up_spec [OF Cons.prems(1), of who] valid_give_up [OF Cons.prems(1), of who] Cons.prems(2,3)
    show ?thesis by (auto simp: Inr)
  qed
  with Cons show ?case by simp
qed simp

lemma exclusive:
  assumes "valid s" and "attempt me ttl t s = (True, s1)"
    and "\<forall>c\<in>set calls. call_by_other me (t + max 1 ttl) c"
    and "who \<noteq> me" and "t' < t + max 1 ttl"
  shows "fst (attempt who ttl' t' (fold apply_call calls s1)) = False"
proof -
  have "valid s1" using valid_attempt [OF assms(1), of me ttl t] assms(2) by simp
  moreover have "holder s1 = Some (me, t + max 1 ttl)" using attempt_spec [OF assms(1,2)] by simp
  ultimately have h: "valid (fold apply_call calls s1)"
      "holder (fold apply_call calls s1) = Some (me, t + max 1 ttl)"
    using held_until_deadline assms(3) by blast+
  obtain ok s2 where r: "attempt who ttl' t' (fold apply_call calls s1) = (ok, s2)" by fastforce
  with attempt_spec [OF h(1) r] h(2) assms(4,5) show ?thesis by simp
qed

lemma expires:
  assumes "valid s" and "holder s = Some (h, d)" and "d \<le> t"
  shows "fst (attempt who ttl t s)"
proof -
  obtain ok s' where r: "attempt who ttl t s = (ok, s')" by fastforce
  with attempt_spec [OF assms(1) r] assms(2,3) show ?thesis by simp
qed

end

definition lease_holder :: "string \<Rightarrow> db \<Rightarrow> (string \<times> rat) option" where
  "lease_holder n s = map_option (\<lambda>l. (lease_owner l, lease_until l)) (find_lease n s)"

definition lease_attempt :: "string \<Rightarrow> string \<Rightarrow> rat \<Rightarrow> rat \<Rightarrow> db \<Rightarrow> bool \<times> db" where
  "lease_attempt n owner ttl now_epoch s = acquire_or_renew_lease n owner ttl now_epoch 0 s"

interpretation lease: lease_service "lease_holder n" "lease_attempt n" "release_lease n" unique_leases
  for n
proof
  fix s who ttl t ok s' assume u: "unique_leases s" and r: "lease_attempt n who ttl t s = (ok, s')"
  show "(ok \<longleftrightarrow> (case lease_holder n s of None \<Rightarrow> True | Some (h, d) \<Rightarrow> h = who \<or> d \<le> t)) \<and>
        lease_holder n s' = (if ok then Some (who, t + max 1 ttl) else lease_holder n s)"
  proof (cases "find_lease n s")
    case None
    with r show ?thesis
      by (auto simp: lease_attempt_def acquire_eq [OF u] lease_holder_def find_lease_def
          find_row_append find_row_Cons lease_deadline_def)
  next
    case (Some l)
    then have "lease_name l = n" using find_lease_SomeD by blast
    with Some r show ?thesis
      by (auto simp: lease_attempt_def acquire_eq [OF u] lease_holder_def find_lease_def
          find_row_set_row lease_deadline_def split: if_splits)
  qed
next
  fix s who assume u: "unique_leases s"
  then show "lease_holder n (release_lease n who s) =
      (case lease_holder n s of None \<Rightarrow> None | Some (h, d) \<Rightarrow> if h = who then None else Some (h, d))"
    by (auto simp: lease_holder_def release_lease_def find_lease_def find_row_filter unique_leases_def
        split: option.splits dest: find_row_SomeD)
qed (simp_all add: lease_attempt_def)

subsection \<open>Properties\<close>

text \<open>The calls of several workers on one lease, at the clock readings they carry.\<close>

datatype lease_call = Acquire string rat rat | Release string

fun run_call :: "string \<Rightarrow> lease_call \<Rightarrow> db \<Rightarrow> db" where
  "run_call n (Acquire who ttl t) s = snd (acquire_or_renew_lease n who ttl t 0 s)"
| "run_call n (Release who) s = release_lease n who s"

fun by_other_before :: "string \<Rightarrow> rat \<Rightarrow> lease_call \<Rightarrow> bool" where
  "by_other_before me d (Acquire who ttl t) = (who \<noteq> me \<and> t < d)"
| "by_other_before me d (Release who) = (who \<noteq> me)"

fun to_call :: "lease_call \<Rightarrow> (string \<times> rat \<times> rat) + string" where
  "to_call (Acquire who ttl t) = Inl (who, ttl, t)"
| "to_call (Release who) = Inr who"

lemma run_calls_eq: "fold (run_call n) calls s = fold (lease.apply_call n) (map to_call calls) s"
proof (induction calls arbitrary: s)
  case (Cons c calls)
  have "run_call n c s = lease.apply_call n (to_call c) s"
    by (cases c) (simp_all add: lease_attempt_def [symmetric])
  with Cons show ?case by simp
qed simp

text \<open>C10. A lease is exclusive: after a worker acquired it, no other worker acquires it before
  the deadline, whatever acquisitions and releases other workers tried in between.\<close>

theorem lease_exclusive:
  assumes "unique_leases s" and "acquire_or_renew_lease n me ttl t 0 s = (True, s1)"
    and "\<forall>c\<in>set calls. by_other_before me (t + max 1 ttl) c"
    and "who \<noteq> me" and "t' < t + max 1 ttl"
  shows "fst (acquire_or_renew_lease n who ttl' t' 0 (fold (run_call n) calls s1)) = False"
proof -
  have "lease.call_by_other me d (to_call c) = by_other_before me d c" for d c by (cases c) simp_all
  then have "\<forall>c\<in>set (map to_call calls). lease.call_by_other me (t + max 1 ttl) c"
    using assms(3) by auto
  with lease.exclusive [of s n me ttl t s1 "map to_call calls" who t' ttl'] assms(1,2,4,5)
  show ?thesis by (simp add: lease_attempt_def [symmetric] run_calls_eq)
qed

theorem lease_exclusive_witness:
  "fst (acquire_or_renew_lease ''default'' ''w2'' 10 12 0
     (fold (run_call ''default'') [Acquire ''w3'' 10 7, Release ''w2'']
       (snd (acquire_or_renew_lease ''default'' ''w1'' 10 5 0 empty_db)))) = False"
proof (rule lease_exclusive)
  show "unique_leases empty_db" by (simp add: unique_leases_def empty_db_def)
  show "acquire_or_renew_lease ''default'' ''w1'' 10 5 0 empty_db =
      (True, snd (acquire_or_renew_lease ''default'' ''w1'' 10 5 0 empty_db))"
    by (simp add: acquire_or_renew_lease_def empty_db_def)
qed simp_all

end
