(* ===== verification/QueueClient.thy ===== *)
theory QueueClient
  imports Worker Leases
begin

text \<open>
  The queue facade (\<open>lib/generation_queue.py\<close>) and its waiting client
  (\<open>lib/generation_queue_client.py\<close>): the provider derived at enqueue, the in-process cancel
  signals, the request guard, the wait loop over its polls, and the batch that enqueues in
  order and waits for all.
\<close>

subsection \<open>The facade\<close>

definition derive_provider_id_for_enqueue ::
  "resolver \<Rightarrow> string \<Rightarrow> dict option \<Rightarrow> string \<Rightarrow> string \<Rightarrow> string option" where
  "derive_provider_id_for_enqueue r proj payload ttype media =
     (case resolve_backend r proj media ttype (JObj (or_empty payload)) of
        None \<Rightarrow> None
      | Some p \<Rightarrow> if p = [] then None else Some p)"

definition enqueue_task ::
  "resolver \<Rightarrow> enqueue_args \<Rightarrow> string \<Rightarrow> time \<Rightarrow> db \<Rightarrow> (repo_error + enqueue_result) \<times> db" where
  "enqueue_task r a uuid now s =
     (let provider = (case ea_provider_id a of
                        Some p \<Rightarrow> Some p
                      | None \<Rightarrow> derive_provider_id_for_enqueue r (ea_project_name a) (ea_payload a)
                                  (ea_task_type a) (ea_media_type a))
      in enqueue (a\<lparr>ea_provider_id := provider\<rparr>) uuid now s)"

text \<open>The worker's callback is present or not; the second component is what it is called on.\<close>

definition queue_mark_cancelled ::
  "bool \<Rightarrow> string \<Rightarrow> string \<Rightarrow> time \<Rightarrow> db \<Rightarrow> nat \<times> string list \<times> db" where
  "queue_mark_cancelled callback tid by now s =
     (case finalize_cancelled tid by now s of
        ((rows, cancelling), s1) \<Rightarrow> (rows, if callback then cancelling else [], s1))"

definition queue_cancel_task ::
  "bool \<Rightarrow> string \<Rightarrow> time \<Rightarrow> db \<Rightarrow> (repo_error + cancel_acc) \<times> string list \<times> db" where
  "queue_cancel_task callback tid now s =
     (case cancel_task tid now s of
        (Inl e, s1) \<Rightarrow> (Inl e, [], s1)
      | (Inr acc, s1) \<Rightarrow> (Inr acc, if callback then acc_cancelling acc else [], s1))"

subsection \<open>Waiting for a task\<close>

text \<open>What one turn of the loop reads: the task, the clock and whether the worker is online.\<close>

record poll =
  pl_task :: "task_dict option"
  pl_now :: rat
  pl_online :: bool

datatype wait_result = WaitDone task_dict | WaitMissing | WaitTimeout | WaitOffline

definition read_task_wait_timeout :: "rat option \<Rightarrow> rat option" where
  "read_task_wait_timeout v = (case v of None \<Rightarrow> None | Some t \<Rightarrow> if t \<le> 0 then None else Some t)"

definition read_worker_offline_grace :: "rat \<Rightarrow> rat" where
  "read_worker_offline_grace g = max 1 g"

definition default_task_wait_timeout :: "rat option" where
  "default_task_wait_timeout = Some 3600"

definition default_worker_offline_grace :: rat where
  "default_worker_offline_grace = max 20 (10 * 2)"

text \<open>The loop over the polls it makes; \<open>None\<close>: still waiting after the last one.\<close>

fun wait_loop :: "rat option \<Rightarrow> rat \<Rightarrow> rat \<Rightarrow> rat option \<Rightarrow> poll list \<Rightarrow> wait_result option" where
  "wait_loop timeout grace start offline_since [] = None"
| "wait_loop timeout grace start offline_since (p # ps) =
     (case pl_task p of
        None \<Rightarrow> Some WaitMissing
      | Some d \<Rightarrow>
          if is_terminal (td_status d) then Some (WaitDone d)
          else if (case timeout of None \<Rightarrow> False | Some t \<Rightarrow> t \<le> pl_now p - start) then Some WaitTimeout
          else if pl_online p then wait_loop timeout grace start None ps
          else (case offline_since of
                  None \<Rightarrow> wait_loop timeout grace start (Some (pl_now p)) ps
                | Some since \<Rightarrow>
                    if grace \<le> pl_now p - since then Some WaitOffline
                    else wait_loop timeout grace start (Some since) ps))"

definition wait_for_task :: "rat option \<Rightarrow> rat option \<Rightarrow> rat \<Rightarrow> poll list \<Rightarrow> wait_result option" where
  "wait_for_task timeout_seconds grace_seconds start polls =
     (let timeout = map_option (max (1/10))
                      (case timeout_seconds of
                         None \<Rightarrow> read_task_wait_timeout default_task_wait_timeout
                       | Some t \<Rightarrow> Some t);
          grace = (case grace_seconds of
                     None \<Rightarrow> read_worker_offline_grace default_worker_offline_grace
                   | Some g \<Rightarrow> max (1/10) g)
      in wait_loop timeout grace start None polls)"

text \<open>\<open>enqueue_and_wait\<close> turns the finished task into its result or an error.\<close>

datatype wait_error = TaskFailedError string | TaskCancelledError string | WaitError wait_result

definition finish_wait :: "string \<Rightarrow> wait_result \<Rightarrow> wait_error + json" where
  "finish_wait tid w =
     (case w of
        WaitDone d \<Rightarrow>
          if td_status d = Failed then
            Inl (TaskFailedError (let m = coalesce (td_error_message d) [] in
                                  if m = [] then ''task failed'' else m))
          else if td_status d = Cancelled then Inl (TaskCancelledError tid)
          else Inr (if truthy (td_result d) then td_result d else JObj [])
      | _ \<Rightarrow> Inl (WaitError w))"

lemma wait_loop_None:
  "wait_loop timeout grace start off ps = None \<Longrightarrow> p \<in> set ps \<Longrightarrow>
     pl_task p \<noteq> None \<and> \<not> is_terminal (td_status (the (pl_task p))) \<and>
     (case timeout of None \<Rightarrow> True | Some t \<Rightarrow> pl_now p - start < t)"
  by (induction timeout grace start off ps rule: wait_loop.induct)
     (auto split: option.splits if_splits)

lemma wait_loop_result:
  "wait_loop timeout grace start off ps = Some res \<Longrightarrow>
   \<exists>p\<in>set ps. case res of
      WaitDone d \<Rightarrow> pl_task p = Some d \<and> is_terminal (td_status d)
    | WaitMissing \<Rightarrow> pl_task p = None
    | WaitTimeout \<Rightarrow> (\<exists>t. timeout = Some t \<and> t \<le> pl_now p - start)
    | WaitOffline \<Rightarrow> \<not> pl_online p"
  by (induction timeout grace start off ps rule: wait_loop.induct)
     (fastforce split: option.splits if_splits wait_result.splits)+

text \<open>The offline verdict: a run of polls that all found the worker offline, long enough.\<close>

lemma wait_loop_offline:
  assumes "wait_loop timeout grace start off ps = Some WaitOffline"
  shows "(\<exists>since us p vs. off = Some since \<and> ps = us @ p # vs \<and> (\<forall>q\<in>set (us @ [p]). \<not> pl_online q) \<and>
            grace \<le> pl_now p - since) \<or>
         (\<exists>as q us p vs. ps = as @ q # us @ p # vs \<and> (\<forall>x\<in>set (q # us @ [p]). \<not> pl_online x) \<and>
            grace \<le> pl_now p - pl_now q)"
  using assms
proof (induction timeout grace start off ps rule: wait_loop.induct)
  case (2 timeout grace start off p ps)
  obtain d where d: "pl_task p = Some d" "\<not> is_terminal (td_status d)"
    using 2(4) by (auto split: option.splits if_splits)
  have nt: "\<not> (case timeout of None \<Rightarrow> False | Some t \<Rightarrow> t \<le> pl_now p - start)"
    using 2(4) d by (auto split: if_splits)
  show ?case
  proof (cases "pl_online p")
    case True
    then have "wait_loop timeout grace start None ps = Some WaitOffline" using 2(4) d nt by simp
    from 2(1) [OF d nt True this] show ?thesis by (metis append_Cons option.distinct(1))
  next
    case off_p: False
    show ?thesis
    proof (cases off)
      case None
      then have "wait_loop timeout grace start (Some (pl_now p)) ps = Some WaitOffline" using 2(4) d nt off_p by simp
      from 2(2) [OF d nt off_p None this] consider
        (a) us x vs where "ps = us @ x # vs" "\<forall>q\<in>set (us @ [x]). \<not> pl_online q" "grace \<le> pl_now x - pl_now p"
      | (b) as q us x vs where "ps = as @ q # us @ x # vs" "\<forall>y\<in>set (q # us @ [x]). \<not> pl_online y"
          "grace \<le> pl_now x - pl_now q" by auto
      then show ?thesis
      proof cases
        case (a us x vs)
        then have "p # ps = [] @ p # us @ x # vs \<and> (\<forall>y\<in>set (p # us @ [x]). \<not> pl_online y) \<and>
            grace \<le> pl_now x - pl_now p" using off_p by simp
        then show ?thesis by blast
      next
        case (b as q us x vs)
        then have "p # ps = (p # as) @ q # us @ x # vs" by simp
        with b(2,3) show ?thesis by blast
      qed
    next
      case (Some since)
      show ?thesis
      proof (cases "grace \<le> pl_now p - since")
        case True
        then have "p # ps = [] @ p # ps \<and> (\<forall>q\<in>set ([] @ [p]). \<not> pl_online q)" using off_p by simp
        with Some True show ?thesis by blast
      next
        case False
        then have "wait_loop timeout grace start (Some since) ps = Some WaitOffline"
          using 2(4) d nt off_p Some by simp
        from 2(3) [OF d nt off_p Some False this] consider
          (a) us x vs where "ps = us @ x # vs" "\<forall>q\<in>set (us @ [x]). \<not> pl_online q" "grace \<le> pl_now x - since"
        | (b) as q us x vs where "ps = as @ q # us @ x # vs" "\<forall>y\<in>set (q # us @ [x]). \<not> pl_online y"
            "grace \<le> pl_now x - pl_now q" by auto
        then show ?thesis
        proof cases
          case (a us x vs)
          then have "p # ps = (p # us) @ x # vs \<and> (\<forall>q\<in>set ((p # us) @ [x]). \<not> pl_online q)" using off_p by simp
          with a(3) Some show ?thesis by blast
        next
          case (b as q us x vs)
          then have "p # ps = (p # as) @ q # us @ x # vs" by simp
          with b(2,3) show ?thesis by blast
        qed
      qed
    qed
  qed
qed simp

text \<open>Waiting for a task is bounded and its answers are justified: once a poll is at or past
  the timeout the wait has returned; a result is a terminal task that was read, a timeout has
  really elapsed, and an offline error means a run of polls over at least the grace period
  all found the worker offline.\<close>

theorem wait_for_task_sound:
  shows "(wait_for_task (Some t) (Some g) start polls = None \<longrightarrow>
            (\<forall>p\<in>set polls. pl_now p - start < max (1/10) t \<and> pl_task p \<noteq> None)) \<and>
         (wait_for_task (Some t) (Some g) start polls = Some (WaitDone d) \<longrightarrow>
            is_terminal (td_status d) \<and> Some d \<in> pl_task ` set polls) \<and>
         (wait_for_task (Some t) (Some g) start polls = Some WaitTimeout \<longrightarrow>
            (\<exists>p\<in>set polls. max (1/10) t \<le> pl_now p - start)) \<and>
         (wait_for_task (Some t) (Some g) start polls = Some WaitOffline \<longrightarrow>
            (\<exists>as q us p vs. polls = as @ q # us @ p # vs \<and> (\<forall>x\<in>set (q # us @ [p]). \<not> pl_online x) \<and>
               max (1/10) g \<le> pl_now p - pl_now q))"
proof -
  have w: "wait_for_task (Some t) (Some g) start polls = wait_loop (Some (max (1/10) t)) (max (1/10) g) start None polls"
    by (simp add: wait_for_task_def)
  let ?w = "wait_loop (Some (max (1/10) t)) (max (1/10) g) start None polls"
  have "?w = None \<longrightarrow> (\<forall>p\<in>set polls. pl_now p - start < max (1/10) t \<and> pl_task p \<noteq> None)"
    using wait_loop_None [of "Some (max (1/10) t)" "max (1/10) g" start None polls] by simp
  moreover have "?w = Some (WaitDone d) \<longrightarrow> is_terminal (td_status d) \<and> Some d \<in> pl_task ` set polls"
  proof
    assume "?w = Some (WaitDone d)"
    from wait_loop_result [OF this] show "is_terminal (td_status d) \<and> Some d \<in> pl_task ` set polls"
      by (simp add: image_iff) metis
  qed
  moreover have "?w = Some WaitTimeout \<longrightarrow> (\<exists>p\<in>set polls. max (1/10) t \<le> pl_now p - start)"
  proof
    assume "?w = Some WaitTimeout"
    from wait_loop_result [OF this] show "\<exists>p\<in>set polls. max (1/10) t \<le> pl_now p - start" by simp
  qed
  moreover have "?w = Some WaitOffline \<longrightarrow>
      (\<exists>as q us p vs. polls = as @ q # us @ p # vs \<and> (\<forall>x\<in>set (q # us @ [p]). \<not> pl_online x) \<and>
         max (1/10) g \<le> pl_now p - pl_now q)"
  proof
    assume "?w = Some WaitOffline"
    from wait_loop_offline [OF this]
    show "\<exists>as q us p vs. polls = as @ q # us @ p # vs \<and> (\<forall>x\<in>set (q # us @ [p]). \<not> pl_online x) \<and>
         max (1/10) g \<le> pl_now p - pl_now q" by blast
  qed
  ultimately show ?thesis unfolding w by blast
qed

definition waiting_poll :: "rat \<Rightarrow> bool \<Rightarrow> poll" where
  "waiting_poll now online =
     \<lparr>pl_task = Some (task_to_dict (new_task (sample_args ''p'' ''S1'' None) ''a'' 1)), pl_now = now, pl_online = online\<rparr>"

theorem wait_for_task_sound_witness:
  "\<exists>p\<in>set [waiting_poll 0 True, waiting_poll 7 True]. (max (1/10) 5 :: rat) \<le> pl_now p - 0"
proof -
  have "wait_for_task (Some 5) (Some 20) 0 [waiting_poll 0 True, waiting_poll 7 True] = Some WaitTimeout"
    by (simp add: wait_for_task_def waiting_poll_def is_terminal_def)
  with wait_for_task_sound [of 5 20 0 "[waiting_poll 0 True, waiting_poll 7 True]"] show ?thesis by blast
qed

end
