(* ===== verification/TaskSpecs.thy ===== *)
theory TaskSpecs
  imports QueueClient TaskProps
begin

text \<open>
  The request guard and the batch client (\<open>lib/generation_queue_client.py\<close>): the structural
  validation of a prompt by task type, the one constructor of a task specification, and the
  batch that enqueues specifications in order, resolving a dependency on a resource to the
  task of an earlier specification, then waits for all of them.
\<close>

subsection \<open>Prompt validation\<close>

definition is_structured_image_prompt :: "json \<Rightarrow> bool" where
  "is_structured_image_prompt p = (case p of JObj d \<Rightarrow> dict_has d ''scene'' | _ \<Rightarrow> False)"

definition is_structured_video_prompt :: "json \<Rightarrow> bool" where
  "is_structured_video_prompt p = (case p of JObj d \<Rightarrow> dict_has d ''action'' | _ \<Rightarrow> False)"

definition video_task_types :: "string list" where
  "video_task_types = [''video'']"

definition image_structured_task_types :: "string list" where
  "image_structured_task_types = [''storyboard'']"

definition tts_task_types :: "string list" where
  "tts_task_types = [''tts'']"

text \<open>The code of the validation error raised, or \<open>None\<close> when the prompt is accepted.\<close>

definition validate_prompt :: "string \<Rightarrow> json \<Rightarrow> string option" where
  "validate_prompt ttype prompt =
     (if ttype \<in> set video_task_types then
        (case prompt of
           JObj d \<Rightarrow>
             if \<not> is_structured_video_prompt (JObj d) then Some ''video_prompt_must_be_string_or_action_object''
             else if blank_text (dict_ref d ''action'') then Some ''video_prompt_action_empty''
             else if dict_ref d ''dialogue'' \<noteq> JNull \<and> as_list (dict_ref d ''dialogue'') = None
               then Some ''video_prompt_dialogue_array''
             else None
         | JStr s \<Rightarrow> if strip s = [] then Some ''prompt_text_empty'' else None
         | _ \<Rightarrow> Some ''prompt_must_be_string_or_object'')
      else if ttype \<in> set tts_task_types then
        (case prompt of
           JNull \<Rightarrow> None
         | JStr s \<Rightarrow> if strip s = [] then Some ''prompt_text_empty'' else None
         | _ \<Rightarrow> Some ''tts_prompt_must_be_string_or_null'')
      else if ttype \<in> set image_structured_task_types \<and> as_dict prompt \<noteq> None then
        (if \<not> is_structured_image_prompt prompt then Some ''prompt_must_be_string_or_scene_object''
         else if blank_text (dict_ref (coalesce (as_dict prompt) []) ''scene'') then Some ''prompt_scene_empty''
         else None)
      else
        (case prompt of
           JStr s \<Rightarrow> if strip s = [] then Some ''prompt_text_empty'' else None
         | _ \<Rightarrow> Some ''prompt_must_be_string_or_object''))"

subsection \<open>Specifications\<close>

record task_spec =
  tsp_task_type :: string
  tsp_media_type :: string
  tsp_resource_id :: string
  tsp_payload :: "dict option"
  tsp_script_file :: "string option"
  tsp_source :: string
  tsp_dependency_resource_id :: "string option"
  tsp_dependency_group :: "string option"
  tsp_dependency_index :: "int option"

datatype spec_error = ResourceIdRequired | SpecInvalid string | ReservedKeys "string list"

text \<open>The keyword arguments of \<open>from_request\<close>; \<open>rq_prompt\<close> is \<open>JNull\<close> when it is left out.\<close>

record spec_request =
  rq_task_type :: string
  rq_media_type :: string
  rq_resource_id :: string
  rq_prompt :: json
  rq_script_file :: "string option"
  rq_source :: string
  rq_extra_payload :: "dict option"
  rq_dependency_resource_id :: "string option"
  rq_dependency_group :: "string option"
  rq_dependency_index :: "int option"

text \<open>The reserved keys, in the order \<open>sorted\<close> lists them.\<close>

definition reserved_keys :: "string \<Rightarrow> string list" where
  "reserved_keys ttype =
     [''prompt'', ''script_file''] @ (if ttype \<in> set tts_task_types then [''text''] else [])"

definition from_request :: "spec_request \<Rightarrow> spec_error + task_spec" where
  "from_request rq =
     (if rq_resource_id rq = [] then Inl ResourceIdRequired
      else
        (case validate_prompt (rq_task_type rq) (rq_prompt rq) of
           Some code \<Rightarrow> Inl (SpecInvalid code)
         | None \<Rightarrow>
             (let extra = or_empty (rq_extra_payload rq);
                  conflict = filter (dict_has extra) (reserved_keys (rq_task_type rq)) in
              if conflict \<noteq> [] then Inl (ReservedKeys conflict)
              else
                (let payload = dict_put extra ''prompt'' (rq_prompt rq);
                     payload' = (case rq_script_file rq of
                                   None \<Rightarrow> payload
                                 | Some f \<Rightarrow> dict_put payload ''script_file'' (JStr f)) in
                 Inr \<lparr>tsp_task_type = rq_task_type rq, tsp_media_type = rq_media_type rq,
                      tsp_resource_id = rq_resource_id rq, tsp_payload = Some payload',
                      tsp_script_file = rq_script_file rq, tsp_source = rq_source rq,
                      tsp_dependency_resource_id = rq_dependency_resource_id rq,
                      tsp_dependency_group = rq_dependency_group rq,
                      tsp_dependency_index = rq_dependency_index rq\<rparr>))))"

subsection \<open>The batch\<close>

text \<open>
  What one turn of the enqueue phase meets: the operations other sessions committed since the
  last one, whether the worker is online, and the fresh id and clock of the insert.
\<close>

record batch_turn =
  bt_before :: "(queue_op \<times> time) list"
  bt_online :: bool
  bt_uuid :: string
  bt_now :: time

datatype batch_error = BatchOffline | BatchRepo repo_error

definition enqueue_task_only ::
  "resolver \<Rightarrow> enqueue_args \<Rightarrow> bool \<Rightarrow> string \<Rightarrow> time \<Rightarrow> db \<Rightarrow> (batch_error + enqueue_result) \<times> db" where
  "enqueue_task_only r a online uuid now s =
     (if \<not> online then (Inl BatchOffline, s)
      else
        (case enqueue_task r (a\<lparr>ea_payload := Some (or_empty (ea_payload a))\<rparr>) uuid now s of
           (Inl e, s1) \<Rightarrow> (Inl (BatchRepo e), s1)
         | (Inr res, s1) \<Rightarrow> (Inr res, s1)))"

definition spec_args :: "string \<Rightarrow> task_spec \<Rightarrow> string option \<Rightarrow> enqueue_args" where
  "spec_args proj sp dep =
     \<lparr>ea_project_name = proj, ea_task_type = tsp_task_type sp, ea_media_type = tsp_media_type sp,
      ea_resource_id = tsp_resource_id sp, ea_payload = tsp_payload sp, ea_script_file = tsp_script_file sp,
      ea_source = tsp_source sp, ea_dependency_task_id = dep, ea_dependency_group = tsp_dependency_group sp,
      ea_dependency_index = tsp_dependency_index sp, ea_user_id = ''default'', ea_provider_id = None\<rparr>"

text \<open>\<open>if spec.dependency_resource_id: dep_task_id = task_ids.get(...)\<close>.\<close>

definition spec_dependency :: "task_spec \<Rightarrow> (string \<rightharpoonup> string) \<Rightarrow> string option" where
  "spec_dependency sp ids =
     (case tsp_dependency_resource_id sp of
        None \<Rightarrow> None
      | Some d \<Rightarrow> if d = [] then None else ids d)"

fun batch_enqueue ::
  "resolver \<Rightarrow> string \<Rightarrow> (task_spec \<times> batch_turn) list \<Rightarrow> (string \<rightharpoonup> string) \<Rightarrow> db \<Rightarrow>
   (batch_error + enqueue_result list \<times> (string \<rightharpoonup> string)) \<times> db" where
  "batch_enqueue r proj [] ids s = (Inr ([], ids), s)"
| "batch_enqueue r proj ((sp, bt) # rest) ids s =
     (case enqueue_task_only r (spec_args proj sp (spec_dependency sp ids)) (bt_online bt)
             (bt_uuid bt) (bt_now bt) (run_queue (bt_before bt) s) of
        (Inl e, s1) \<Rightarrow> (Inl e, s1)
      | (Inr res, s1) \<Rightarrow>
          (case batch_enqueue r proj rest (ids(tsp_resource_id sp \<mapsto> er_task_id res)) s1 of
             (Inl e, s2) \<Rightarrow> (Inl e, s2)
           | (Inr (results, ids'), s2) \<Rightarrow> (Inr (res # results, ids'), s2)))"

record batch_result =
  br_resource_id :: string
  br_task_id :: string
  br_status :: task_status
  br_result :: "json option"
  br_error :: "string option"

definition task_result_from_finished :: "task_dict \<Rightarrow> string \<Rightarrow> string \<Rightarrow> batch_result" where
  "task_result_from_finished d rid tid =
     (if td_status d = Failed then
        \<lparr>br_resource_id = rid, br_task_id = tid, br_status = Failed, br_result = None,
         br_error = Some (let m = coalesce (td_error_message d) [] in if m = [] then ''task failed'' else m)\<rparr>
      else if td_status d = Cancelled then
        \<lparr>br_resource_id = rid, br_task_id = tid, br_status = Cancelled, br_result = None,
         br_error = Some ''task cancelled''\<rparr>
      else
        \<lparr>br_resource_id = rid, br_task_id = tid, br_status = Succeeded,
         br_result = Some (if truthy (td_result d) then td_result d else JObj []), br_error = None\<rparr>)"

text \<open>
  \<open>_wait_one\<close>: how the wait of each task ended is given by \<open>ended\<close>, the text of the exception
  of a wait that raised by \<open>text\<close>.
\<close>

definition wait_one ::
  "(wait_result \<Rightarrow> string \<Rightarrow> string) \<Rightarrow> (string \<Rightarrow> wait_result) \<Rightarrow> (string \<rightharpoonup> string) \<Rightarrow> task_spec \<Rightarrow> batch_result" where
  "wait_one text ended ids sp =
     (let tid = coalesce (ids (tsp_resource_id sp)) [] in
      case ended tid of
        WaitDone d \<Rightarrow> task_result_from_finished d (tsp_resource_id sp) tid
      | w \<Rightarrow> \<lparr>br_resource_id = tsp_resource_id sp, br_task_id = tid, br_status = Failed, br_result = None,
              br_error = Some (text w tid)\<rparr>)"

definition batch_collect ::
  "(wait_result \<Rightarrow> string \<Rightarrow> string) \<Rightarrow> (string \<Rightarrow> wait_result) \<Rightarrow> (string \<rightharpoonup> string) \<Rightarrow> task_spec list \<Rightarrow>
   batch_result list \<times> batch_result list" where
  "batch_collect text ended ids specs =
     (let results = map (wait_one text ended ids) specs in
      (filter (\<lambda>br. br_status br = Succeeded) results, filter (\<lambda>br. br_status br \<noteq> Succeeded) results))"

subsection \<open>One enqueue of the batch\<close>

text \<open>The row a batch entry answers for: same project, type, resource and script file.\<close>

definition row_serves :: "enqueue_args \<Rightarrow> task \<Rightarrow> bool" where
  "row_serves a row = (dedupe_key row = dedupe_key (new_task a [] 0))"

lemma enqueue_row:
  assumes inv: "table_inv s" and e: "enqueue a uuid now s = (Inr res, s1)"
  shows "\<exists>row. find_task (er_task_id res) s1 = Some row \<and> row_serves a row \<and>
     (\<not> er_deduped res \<longrightarrow> dependency_task_id row = ea_dependency_task_id a)"
    and "table_inv s1" and "later s s1"
proof -
  have s1: "s1 = run_queue [(RepoOp (OpEnqueue a uuid), now)] s"
    using e by (simp add: run_queue_def)
  show "table_inv s1" "later s s1"
    unfolding s1 using inv by (auto intro: run_queue_table_inv run_queue_later)
  have key: "dedupe_key (new_task a uuid now) = dedupe_key (new_task a [] 0)"
    by (simp add: dedupe_key_def new_task_def)
  show "\<exists>row. find_task (er_task_id res) s1 = Some row \<and> row_serves a row \<and>
     (\<not> er_deduped res \<longrightarrow> dependency_task_id row = ea_dependency_task_id a)"
  proof (cases "violates_unique (new_task a uuid now) s")
    case True
    then obtain old where f: "find_active_duplicate a s = Some old" and r: "er_task_id res = task_id old" "er_deduped res" "s1 = s"
      using e by (auto simp: enqueue_def Let_def split: option.splits)
    let ?dups = "order_desc queued_at (filter (\<lambda>t. is_active (status t) \<and>
             dedupe_key t = dedupe_key (new_task a uuid now)) (tasks s))"
    from f obtain more_dups where "?dups = old # more_dups"
      unfolding find_active_duplicate_eq [of a s uuid now] by (cases ?dups) simp_all
    then have "old \<in> set ?dups" by (metis list.set_intros(1))
    then have "old \<in> set (tasks s)" "row_serves a old" by (simp_all add: row_serves_def key)
    with inv r show ?thesis by (auto simp: table_inv_def find_task_mem)
  next
    case False
    then have r: "er_task_id res = uuid" "\<not> er_deduped res"
        "s1 = log_task ''queued'' Queued now (new_task a uuid now) (insert_task (new_task a uuid now) s)"
      using e by (auto simp: enqueue_def Let_def)
    have "find_task uuid s = None"
      using False find_task_SomeD [of uuid s] by (cases "find_task uuid s") (auto simp: violates_unique_def new_task_def)
    then have "find_task uuid s1 = Some (new_task a uuid now)"
      by (simp add: r(3) find_task_insert new_task_def)
    with r key show ?thesis by (simp add: row_serves_def new_task_def)
  qed
qed

lemma enqueue_task_only_row:
  assumes "table_inv s" and "enqueue_task_only r a online uuid now s = (Inr res, s1)"
  shows "\<exists>row. find_task (er_task_id res) s1 = Some row \<and> row_serves a row \<and>
     (\<not> er_deduped res \<longrightarrow> dependency_task_id row = ea_dependency_task_id a)"
    and "table_inv s1" and "later s s1" and "online"
proof -
  from assms(2) show "online" by (auto simp: enqueue_task_only_def split: if_splits)
  from assms(2) obtain pid where
    e: "enqueue (a\<lparr>ea_payload := Some (or_empty (ea_payload a)), ea_provider_id := pid\<rparr>) uuid now s = (Inr res, s1)"
    by (auto simp: enqueue_task_only_def enqueue_task_def Let_def split: if_splits prod.splits sum.splits)
  have k: "row_serves (a\<lparr>ea_payload := Some (or_empty (ea_payload a)), ea_provider_id := pid\<rparr>) row = row_serves a row" for row
    by (simp add: row_serves_def dedupe_key_def new_task_def)
  from enqueue_row [OF assms(1) e] show "\<exists>row. find_task (er_task_id res) s1 = Some row \<and> row_serves a row \<and>
     (\<not> er_deduped res \<longrightarrow> dependency_task_id row = ea_dependency_task_id a)" "table_inv s1" "later s s1"
    by (simp_all add: k)
qed

subsection \<open>The whole batch\<close>

text \<open>The \<open>task_ids\<close> dictionary before entry i: the latest earlier answer for each resource.\<close>

definition ids_before :: "(string \<rightharpoonup> string) \<Rightarrow> task_spec list \<Rightarrow> enqueue_result list \<Rightarrow> nat \<Rightarrow> (string \<rightharpoonup> string)" where
  "ids_before ids specs rs i = ids ++ map_of (rev (zip (map tsp_resource_id (take i specs)) (map er_task_id (take i rs))))"

lemma ids_before_simps [simp]:
  "ids_before ids specs rs 0 = ids"
  "ids_before ids (sp # specs) (r # rs) (Suc i) = ids_before (ids(tsp_resource_id sp \<mapsto> er_task_id r)) specs rs i"
  by (simp_all add: ids_before_def map_add_upd map_add_assoc [symmetric])

definition entry_ok :: "string \<Rightarrow> (string \<rightharpoonup> string) \<Rightarrow> task_spec \<Rightarrow> enqueue_result \<Rightarrow> db \<Rightarrow> bool" where
  "entry_ok proj ids sp r s =
     (\<exists>row. find_task (er_task_id r) s = Some row \<and>
        row_serves (spec_args proj sp None) row \<and>
        (\<not> er_deduped r \<longrightarrow> dependency_task_id row = spec_dependency sp ids))"

lemma row_serves_dep: "row_serves (spec_args proj sp d) row = row_serves (spec_args proj sp None) row"
  by (simp add: row_serves_def dedupe_key_def new_task_def spec_args_def)

lemma entry_ok_later:
  assumes "entry_ok proj ids sp r s" and "later s s'"
  shows "entry_ok proj ids sp r s'"
proof -
  from assms(1) obtain row where row: "find_task (er_task_id r) s = Some row"
      "row_serves (spec_args proj sp None) row"
      "\<not> er_deduped r \<longrightarrow> dependency_task_id row = spec_dependency sp ids"
    by (auto simp: entry_ok_def)
  from assms(2) row(1) obtain row' where "find_task (er_task_id r) s' = Some row'" "same_identity row row'"
    unfolding later_def row_later_def by blast
  with row(2,3) same_identity_key [of row row'] show ?thesis
    by (auto simp: entry_ok_def row_serves_def same_identity_def)
qed

lemma batch_enqueue_entries:
  assumes "batch_enqueue r proj batch ids s = (Inr (rs, ids'), s')" and "table_inv s"
  shows "length rs = length batch \<and> ids' = ids_before ids (map fst batch) rs (length batch) \<and> later s s' \<and>
     (\<forall>i<length batch. entry_ok proj (ids_before ids (map fst batch) rs i) (fst (batch ! i)) (rs ! i) s')"
  using assms
proof (induction r proj batch ids s arbitrary: rs ids' s' rule: batch_enqueue.induct)
  case (2 r proj sp bt rest ids s)
  let ?s0 = "run_queue (bt_before bt) s"
  from "2.prems"(1) obtain res s1 where e: "enqueue_task_only r (spec_args proj sp (spec_dependency sp ids)) (bt_online bt)
             (bt_uuid bt) (bt_now bt) ?s0 = (Inr res, s1)"
    by (auto split: prod.splits sum.splits)
  let ?ids = "ids(tsp_resource_id sp \<mapsto> er_task_id res)"
  from "2.prems"(1) and e obtain rs1 where b: "batch_enqueue r proj rest ?ids s1 = (Inr (rs1, ids'), s')" "rs = res # rs1"
    by (auto split: prod.splits sum.splits)
  have i0: "table_inv ?s0" "later s ?s0" using "2.prems"(2) by (auto intro: run_queue_table_inv run_queue_later)
  note row = enqueue_task_only_row [OF i0(1) e]
  from "2.IH" [OF e [symmetric] refl b(1) row(2)]
  have ih: "length rs1 = length rest" "ids' = ids_before ?ids (map fst rest) rs1 (length rest)" "later s1 s'"
    "\<forall>i<length rest. entry_ok proj (ids_before ?ids (map fst rest) rs1 i) (fst (rest ! i)) (rs1 ! i) s'" by blast+
  have "entry_ok proj ids sp res s1"
    using row(1) unfolding entry_ok_def
    by (simp add: row_serves_dep [of proj sp "spec_dependency sp ids"]) (simp add: spec_args_def)
  then have first: "entry_ok proj ids sp res s'" using ih(3) by (rule entry_ok_later)
  have "later s s'" using i0(2) row(3) ih(3) by (blast intro: later_trans)
  with ih first b(2) show ?case by (auto simp: less_Suc_eq_0_disj)
qed simp

lemma ids_before_latest:
  assumes "j < length specs" "j < length rs"
  shows "ids_before ids specs rs (Suc j) (tsp_resource_id (specs ! j)) = Some (er_task_id (rs ! j))"
  using assms by (simp add: ids_before_def take_Suc_conv_app_nth map_add_Some_iff)

subsection \<open>Properties\<close>

text \<open>The guard cannot be bypassed: in every specification it builds, the payload's prompt is
  the prompt that passed the validation of its task type, the script file is the given one, a
  speech task carries no text of its own, and every other key is the caller's, unchanged.\<close>

theorem spec_guard:
  assumes "from_request rq = Inr sp"
  shows "\<exists>p. tsp_payload sp = Some p \<and> tsp_resource_id sp \<noteq> [] \<and>
     validate_prompt (tsp_task_type sp) (dict_ref p ''prompt'') = None \<and>
     dict_get p ''prompt'' = Some (rq_prompt rq) \<and>
     dict_get p ''script_file'' = map_option JStr (tsp_script_file sp) \<and>
     (if tsp_task_type sp = ''tts'' then dict_get p ''text'' = None else True) \<and>
     (\<forall>k. k = ''prompt'' \<or> k = ''script_file'' \<or> dict_get p k = dict_get (or_empty (rq_extra_payload rq)) k)"
  using assms
  by (auto simp: from_request_def Let_def reserved_keys_def tts_task_types_def filter_empty_conv dict_simps
      split: if_splits option.splits)

definition sample_request :: spec_request where
  "sample_request =
     \<lparr>rq_task_type = ''storyboard'', rq_media_type = ''image'', rq_resource_id = ''E1S01'',
      rq_prompt = JObj [(''scene'', JStr ''rain'')], rq_script_file = Some ''episode_1.json'', rq_source = ''skill'',
      rq_extra_payload = Some [(''image_prompt_source'', JStr ''pending'')],
      rq_dependency_resource_id = None, rq_dependency_group = None, rq_dependency_index = None\<rparr>"

lemma spec_guard_witness:
  "\<exists>sp p. from_request sample_request = Inr sp \<and> tsp_payload sp = Some p \<and>
     validate_prompt ''storyboard'' (dict_ref p ''prompt'') = None \<and> p \<noteq> []"
proof -
  have "\<not> isl (from_request sample_request)" by code_simp
  then obtain sp where sp: "from_request sample_request = Inr sp" by (cases "from_request sample_request") auto
  have "tsp_task_type (projr (from_request sample_request)) = ''storyboard''" by code_simp
  with sp have t: "tsp_task_type sp = ''storyboard''" by simp
  from spec_guard [OF sp] obtain p where "tsp_payload sp = Some p"
      "validate_prompt (tsp_task_type sp) (dict_ref p ''prompt'') = None" "dict_get p ''prompt'' = Some (rq_prompt sample_request)"
    by blast
  with sp t show ?thesis by (metis dict_get_def map_of.simps(1) option.distinct(1))
qed

text \<open>A batch resolves dependencies by resource: when every entry was accepted, entry i is
  answered by a row of the final table with its project, type, resource and script file, and
  a row the entry inserted depends on the task that answered the latest earlier entry for the
  resource it names (on nothing when it names none or none was earlier), whatever other
  sessions did between the inserts.\<close>

theorem batch_dependencies:
  assumes "batch_enqueue r proj batch Map.empty (run_queue ops empty_db) = (Inr (rs, ids), s)"
  shows "length rs = length batch \<and>
    list_all (\<lambda>i. \<exists>row. find_task (er_task_id (rs ! i)) s = Some row \<and>
        row_serves (spec_args proj (fst (batch ! i)) None) row \<and>
        (if er_deduped (rs ! i) then True
         else dependency_task_id row =
           spec_dependency (fst (batch ! i)) (ids_before Map.empty (map fst batch) rs i))) [0..<length batch]"
  using batch_enqueue_entries [OF assms] by (auto simp: list_all_iff entry_ok_def)

definition sample_spec :: "string \<Rightarrow> string option \<Rightarrow> task_spec" where
  "sample_spec rid dep =
     \<lparr>tsp_task_type = ''storyboard'', tsp_media_type = ''image'', tsp_resource_id = rid, tsp_payload = None,
      tsp_script_file = None, tsp_source = ''skill'', tsp_dependency_resource_id = dep,
      tsp_dependency_group = None, tsp_dependency_index = None\<rparr>"

definition sample_batch :: "(task_spec \<times> batch_turn) list" where
  "sample_batch =
     [(sample_spec ''S1'' None, \<lparr>bt_before = [], bt_online = True, bt_uuid = ''a'', bt_now = 1\<rparr>),
      (sample_spec ''S2'' (Some ''S1''),
       \<lparr>bt_before = [(RepoOp (OpClaimNext ''image'' []), 2)], bt_online = True, bt_uuid = ''b'', bt_now = 3\<rparr>)]"

definition plain_resolver :: resolver where
  "plain_resolver =
     \<lparr>rv_load_project = (\<lambda>_. None), rv_video = (\<lambda>_ _. None), rv_audio = (\<lambda>_ _. None), rv_image = (\<lambda>_ _. None)\<rparr>"

lemma batch_dependencies_witness:
  "\<exists>rs ids s row. batch_enqueue plain_resolver ''p'' sample_batch Map.empty empty_db = (Inr (rs, ids), s) \<and>
     find_task (er_task_id (rs ! 1)) s = Some row \<and> dependency_task_id row = Some ''a''"
proof -
  let ?r = "batch_enqueue plain_resolver ''p'' sample_batch Map.empty empty_db"
  have "\<not> isl (fst ?r)" by code_simp
  then obtain rs ids s where r: "?r = (Inr (rs, ids), s)" by (cases ?r; cases "fst ?r") auto
  have "map (\<lambda>x. (er_task_id x, er_deduped x)) (fst (projr (fst ?r))) = [(''a'', False), (''b'', False)]" by code_simp
  then obtain x y where rs: "rs = [x, y]" "er_task_id x = ''a''" "er_task_id y = ''b''" "\<not> er_deduped y"
    using r by auto
  have "ids_before Map.empty (map fst sample_batch) rs 1 = [''S1'' \<mapsto> ''a'']"
    using ids_before_simps [of Map.empty] by (simp add: sample_batch_def rs sample_spec_def)
  then have "spec_dependency (fst (sample_batch ! 1)) (ids_before Map.empty (map fst sample_batch) rs 1) = Some ''a''"
    by (simp add: sample_batch_def sample_spec_def spec_dependency_def)
  then show ?thesis
    using batch_dependencies [of plain_resolver "''p''" sample_batch "[]" rs ids s] r rs
    by (simp add: run_queue_def list_all_iff sample_batch_def) metis
qed

end
