(* ===== verification/Storyboard.thy ===== *)
theory Storyboard
  imports PyJson
begin

text \<open>
  Storyboard ordering and dependency planning (\<open>lib/storyboard_sequence.py\<close>). Items are the
  script's dictionaries; the plan walks them once, so the model is one recursion that carries
  the previous item and the current group.
\<close>

record storyboard_plan =
  sp_resource_id :: string
  sp_script_file :: "string option"
  sp_dependency :: "string option"
  sp_group :: string
  sp_index :: nat

definition item_id :: "string \<Rightarrow> dict \<Rightarrow> string" where
  "item_id id_field item = id_text (dict_ref item id_field)"

definition segment_break :: "dict \<Rightarrow> bool" where
  "segment_break item = truthy (dict_ref item ''segment_break'')"

fun find_storyboard_item :: "dict list \<Rightarrow> string \<Rightarrow> string \<Rightarrow> nat \<Rightarrow> (dict \<times> nat) option" where
  "find_storyboard_item [] id_field rid i = None"
| "find_storyboard_item (item # items) id_field rid i =
     (if py_str (dict_ref item id_field) = Some rid then Some (item, i)
      else find_storyboard_item items id_field rid (Suc i))"

text \<open>
  The path of the previous storyboard image, or an error for an unknown id; whether the file
  exists is asked of \<open>exists\<close>.
\<close>

definition resolve_previous_storyboard_path ::
  "(string \<Rightarrow> bool) \<Rightarrow> dict list \<Rightarrow> string \<Rightarrow> string \<Rightarrow> string + string option" where
  "resolve_previous_storyboard_path exists items id_field rid =
     (case find_storyboard_item items id_field rid 0 of
        None \<Rightarrow> Inl rid
      | Some (target, index) \<Rightarrow>
          if index = 0 \<or> segment_break target then Inr None
          else
            (let previous_id = item_id id_field (items ! (index - 1)) in
             if previous_id = [] then Inr None
             else
               (let path = ''storyboards/scene_'' @ previous_id @ ''.png'' in
                Inr (if exists path then Some path else None))))"

text \<open>Group numbering: \<open>{script_file or 'storyboard'}:group:{n}\<close>.\<close>

definition group_name :: "string option \<Rightarrow> nat \<Rightarrow> string" where
  "group_name script_file n =
     (case script_file of
        None \<Rightarrow> ''storyboard''
      | Some f \<Rightarrow> if f = [] then ''storyboard'' else f) @ '':group:'' @ show_nat n"

text \<open>
  The loop: \<open>prev\<close> is the id text of the item before (\<open>None\<close> for the first item and for a
  blank one), \<open>counter\<close> the groups opened, \<open>pos\<close> the index within the current group.
\<close>

fun plan_loop ::
  "string \<Rightarrow> string set \<Rightarrow> string option \<Rightarrow> string option \<Rightarrow> nat \<Rightarrow> nat \<Rightarrow> dict list \<Rightarrow>
   storyboard_plan list" where
  "plan_loop id_field sel sf prev counter pos [] = []"
| "plan_loop id_field sel sf prev counter pos (item # items) =
     (let rid = item_id id_field item;
          this = (if rid = [] then None else Some rid) in
      if rid = [] \<or> rid \<notin> sel then plan_loop id_field sel sf this counter pos items
      else
        (let starts = segment_break item \<or> (case prev of None \<Rightarrow> True | Some p \<Rightarrow> p \<notin> sel) in
         if starts then
           \<lparr>sp_resource_id = rid, sp_script_file = sf, sp_dependency = None,
            sp_group = group_name sf (Suc counter), sp_index = 0\<rparr>
           # plan_loop id_field sel sf this (Suc counter) 0 items
         else
           \<lparr>sp_resource_id = rid, sp_script_file = sf, sp_dependency = prev,
            sp_group = (if counter = 0 then [] else group_name sf counter), sp_index = Suc pos\<rparr>
           # plan_loop id_field sel sf this counter (Suc pos) items))"

definition build_storyboard_dependency_plan ::
  "dict list \<Rightarrow> string \<Rightarrow> string list \<Rightarrow> string option \<Rightarrow> storyboard_plan list" where
  "build_storyboard_dependency_plan items id_field selected sf =
     (if selected = [] then [] else plan_loop id_field (set selected) sf None 0 0 items)"

text \<open>The runs of consecutive items between segment breaks.\<close>

fun group_loop :: "dict list \<Rightarrow> dict list \<Rightarrow> dict list list" where
  "group_loop current [] = (if current = [] then [] else [current])"
| "group_loop current (item # items) =
     (if segment_break item \<and> current \<noteq> [] then current # group_loop [item] items
      else group_loop (current @ [item]) items)"

definition group_scenes_by_segment_break :: "dict list \<Rightarrow> dict list list" where
  "group_scenes_by_segment_break items = group_loop [] items"

subsection \<open>The plan is a set of chains\<close>

text \<open>A plan entry either opens a group or continues the chain of the entry right before it.\<close>

definition continues :: "storyboard_plan \<Rightarrow> storyboard_plan \<Rightarrow> bool" where
  "continues a b =
     (sp_dependency b = Some (sp_resource_id a) \<and> sp_group b = sp_group a \<and> sp_index b = Suc (sp_index a))"

definition opens :: "storyboard_plan \<Rightarrow> bool" where
  "opens b = (sp_dependency b = None \<and> sp_index b = 0)"

fun chained :: "storyboard_plan option \<Rightarrow> storyboard_plan list \<Rightarrow> bool" where
  "chained lst [] = True"
| "chained lst (b # bs) =
     ((opens b \<or> (case lst of None \<Rightarrow> False | Some a \<Rightarrow> continues a b)) \<and> chained (Some b) bs)"

text \<open>What the loop state says about the last entry emitted, when the previous item was selected.\<close>

definition loop_tracks ::
  "string option \<Rightarrow> string set \<Rightarrow> string option \<Rightarrow> nat \<Rightarrow> nat \<Rightarrow> storyboard_plan option \<Rightarrow> bool" where
  "loop_tracks sf sel prev counter pos lst =
     (case prev of None \<Rightarrow> True
      | Some p \<Rightarrow> p \<in> sel \<longrightarrow> (\<exists>a. lst = Some a \<and> sp_resource_id a = p \<and> 0 < counter \<and>
           sp_group a = group_name sf counter \<and> sp_index a = pos))"

lemma plan_loop_chained:
  "loop_tracks sf sel prev counter pos lst \<Longrightarrow>
     chained lst (plan_loop id_field sel sf prev counter pos items)"
proof (induction id_field sel sf prev counter pos items arbitrary: lst rule: plan_loop.induct)
  case (2 id_field sel sf prev counter pos item items)
  let ?rid = "item_id id_field item"
  let ?cur = "if ?rid = [] then None else Some ?rid"
  consider (skip) "?rid = [] \<or> ?rid \<notin> sel"
    | (start) "\<not> (?rid = [] \<or> ?rid \<notin> sel)" "segment_break item \<or> (case prev of None \<Rightarrow> True | Some p \<Rightarrow> p \<notin> sel)"
    | (cont) "\<not> (?rid = [] \<or> ?rid \<notin> sel)" "\<not> (segment_break item \<or> (case prev of None \<Rightarrow> True | Some p \<Rightarrow> p \<notin> sel))"
    by blast
  then show ?case
  proof cases
    case skip
    then have "loop_tracks sf sel ?cur counter pos lst" by (auto simp: loop_tracks_def)
    from 2(1) [OF refl refl skip this] skip show ?thesis by (simp add: Let_def)
  next
    case start
    let ?b = "\<lparr>sp_resource_id = ?rid, sp_script_file = sf, sp_dependency = None,
            sp_group = group_name sf (Suc counter), sp_index = 0\<rparr>"
    have "loop_tracks sf sel ?cur (Suc counter) 0 (Some ?b)" by (simp add: loop_tracks_def)
    from 2(2) [OF refl refl start(1) refl start(2) this] start show ?thesis
      by (simp add: Let_def opens_def)
  next
    case cont
    then obtain p where p: "prev = Some p" "p \<in> sel" by (auto split: option.splits)
    with 2(4) obtain a where a: "lst = Some a" "sp_resource_id a = p" "0 < counter"
      "sp_group a = group_name sf counter" "sp_index a = pos" by (auto simp: loop_tracks_def)
    let ?b = "\<lparr>sp_resource_id = ?rid, sp_script_file = sf, sp_dependency = prev,
            sp_group = (if counter = 0 then [] else group_name sf counter), sp_index = Suc pos\<rparr>"
    have "loop_tracks sf sel ?cur counter (Suc pos) (Some ?b)" using a by (simp add: loop_tracks_def)
    from 2(3) [OF refl refl cont(1) refl cont(2) this] cont a p show ?thesis
      by (simp add: Let_def continues_def)
  qed
qed simp

lemma plan_loop_ids:
  "map sp_resource_id (plan_loop id_field sel sf prev counter pos items) =
     filter (\<lambda>r. r \<noteq> [] \<and> r \<in> sel) (map (item_id id_field) items)"
  by (induction items arbitrary: prev counter pos) (simp_all add: Let_def)

text \<open>When an entry opens a group: a break, the first item, or a previous item not selected.\<close>

definition must_open :: "string \<Rightarrow> string set \<Rightarrow> string option \<Rightarrow> dict \<Rightarrow> bool" where
  "must_open id_field sel prev item =
     (segment_break item \<or> (case prev of None \<Rightarrow> True | Some p \<Rightarrow> p \<notin> sel))"

fun opening_flags :: "string \<Rightarrow> string set \<Rightarrow> string option \<Rightarrow> dict list \<Rightarrow> bool list" where
  "opening_flags id_field sel prev [] = []"
| "opening_flags id_field sel prev (item # items) =
     (let rid = item_id id_field item; this = (if rid = [] then None else Some rid);
          rest = opening_flags id_field sel this items
      in if rid = [] \<or> rid \<notin> sel then rest else must_open id_field sel prev item # rest)"

lemma plan_loop_opens:
  "map (\<lambda>b. sp_dependency b = None) (plan_loop id_field sel sf prev counter pos items) =
     opening_flags id_field sel prev items"
  by (induction items arbitrary: prev counter pos) (auto simp: Let_def must_open_def split: option.splits)

text \<open>The dependency plan lists exactly the selected items in script order; every entry
  either opens a group at index 0 without a dependency, or depends on the entry right before
  it, in the same group and one index further. An entry opens a group exactly at a segment
  break, at the start, or after an item that is not selected.\<close>

theorem storyboard_plan_chains:
  "map sp_resource_id (build_storyboard_dependency_plan items id_field selected sf) =
     filter (\<lambda>r. r \<noteq> [] \<and> r \<in> set selected) (map (item_id id_field) items) \<and>
   chained None (build_storyboard_dependency_plan items id_field selected sf) \<and>
   map (\<lambda>b. sp_dependency b = None) (build_storyboard_dependency_plan items id_field selected sf) =
     opening_flags id_field (set selected) None items"
proof (cases "selected = []")
  case True
  have "opening_flags id_field {} prev items = []" for prev
    by (induction items arbitrary: prev) (simp_all add: Let_def)
  with True show ?thesis by (simp add: build_storyboard_dependency_plan_def)
next
  case False
  have "loop_tracks sf (set selected) None 0 0 None" by (simp add: loop_tracks_def)
  from plan_loop_chained [OF this] False show ?thesis
    by (simp add: build_storyboard_dependency_plan_def plan_loop_ids plan_loop_opens)
qed

lemma group_loop_concat: "concat (group_loop current items) = current @ items"
  by (induction current items rule: group_loop.induct) auto

lemma group_loop_tails:
  "\<forall>x\<in>set (tl current). \<not> segment_break x \<Longrightarrow> g \<in> set (group_loop current items) \<Longrightarrow>
     g \<noteq> [] \<and> (\<forall>x\<in>set (tl g). \<not> segment_break x)"
proof (induction current items rule: group_loop.induct)
  case (2 current item items)
  show ?case
  proof (cases "segment_break item \<and> current \<noteq> []")
    case True
    with 2(4) have "g = current \<or> g \<in> set (group_loop [item] items)" by simp
    with 2(1) [OF True] 2(3) True show ?thesis by auto
  next
    case False
    have "\<forall>x\<in>set (tl (current @ [item])). \<not> segment_break x"
    proof (cases "current = []")
      case c: False
      with False have "\<not> segment_break item" by simp
      with 2(3) show ?thesis by (simp add: c ball_Un)
    qed simp
    moreover have "g \<in> set (group_loop (current @ [item]) items)" using 2(4) False by simp
    ultimately show ?thesis by (rule 2(2) [OF False])
  qed
qed (auto split: if_splits)

lemma group_loop_head: "current \<noteq> [] \<Longrightarrow> \<exists>g gs. group_loop current items = g # gs \<and> hd g = hd current"
  by (induction current items rule: group_loop.induct) auto

lemma group_loop_heads: "g \<in> set (tl (group_loop current items)) \<Longrightarrow> segment_break (hd g)"
proof (induction current items rule: group_loop.induct)
  case (2 current item items)
  show ?case
  proof (cases "segment_break item \<and> current \<noteq> []")
    case True
    obtain g' gs where e: "group_loop [item] items = g' # gs" "hd g' = item"
      using group_loop_head [of "[item]" items] by auto
    with 2(1) [OF True] 2(3) True show ?thesis by auto
  next
    case False
    with 2(2) [OF False] 2(3) show ?thesis by simp
  qed
qed (auto split: if_splits)

text \<open>Grouping by segment breaks is a partition of the items in order into non-empty runs; a
  break never occurs inside a run, and every run after the first starts with one.\<close>

theorem segment_groups_partition:
  "concat (group_scenes_by_segment_break items) = items \<and>
   list_all (\<lambda>g. g \<noteq> [] \<and> list_all (\<lambda>x. \<not> segment_break x) (tl g)) (group_scenes_by_segment_break items) \<and>
   list_all (\<lambda>g. segment_break (hd g)) (tl (group_scenes_by_segment_break items))"
  using group_loop_concat [of "[]" items] group_loop_tails [of "[]" _ items] group_loop_heads [of _ "[]" items]
  by (simp add: group_scenes_by_segment_break_def list_all_iff)

end
