(* ===== verification/ScriptEditor.thy ===== *)
theory ScriptEditor
  imports Storyboard
begin

text \<open>
  The script editing core (\<open>lib/script_editor.py\<close>): which array of a script holds its items,
  and the edits of one item by id. A script is a dictionary, the edited script is returned,
  and every \<open>ScriptEditError\<close> is a value. The item list of the source is the object stored
  in the script, so an edit writes the new list back under its key.
\<close>

datatype edit_error =
    NotAList string
  | IdNotFound string
  | BadPath string
  | AssetsLocked
  | IdLocked string
  | ParentNotObject string
  | PathMissing string
  | NotAnObject
  | TooFewParts

definition kind_id_field :: "string \<Rightarrow> string" where
  "kind_id_field kind =
     (if kind = ''video_units'' then ''unit_id''
      else if kind = ''scenes'' then ''scene_id''
      else if kind = ''segments'' then ''segment_id''
      else ''shot_id'')"

definition resolve_kind :: "dict \<Rightarrow> string" where
  "resolve_kind script =
     (if dict_has script ''video_units'' \<and> \<not> (\<exists>k\<in>set [''segments'', ''scenes'', ''shots'']. dict_has script k)
      then ''video_units''
      else
        (let content_mode = dict_ref script ''content_mode'' in
         if content_mode = JStr ''ad'' then ''shots''
         else if content_mode = JStr ''drama'' then ''scenes''
         else if content_mode = JStr ''narration'' then
           (if \<not> dict_has script ''segments'' \<and> dict_has script ''scenes'' then ''scenes'' else ''segments'')
         else if dict_has script ''scenes'' \<and> \<not> dict_has script ''segments'' then ''scenes''
         else if dict_has script ''shots'' \<and> \<not> dict_has script ''segments'' then ''shots''
         else ''segments''))"

definition resolve_items :: "dict \<Rightarrow> edit_error + json list \<times> string \<times> string" where
  "resolve_items script =
     (let kind = resolve_kind script in
      case dict_get script kind of
        None \<Rightarrow> Inr ([], kind_id_field kind, kind)
      | Some (JArr items) \<Rightarrow> Inr (items, kind_id_field kind, kind)
      | Some _ \<Rightarrow> Inl (NotAList kind))"

definition get_storyboard_items :: "dict \<Rightarrow> edit_error + json list \<times> string \<times> string \<times> string \<times> string" where
  "get_storyboard_items script =
     (if dict_ref script ''generation_mode'' = JStr ''reference_video'' then
        Inr ([], ''unit_id'', ''characters_in_unit'', ''scenes'', ''props'')
      else
        (case resolve_items script of
           Inl e \<Rightarrow> Inl e
         | Inr (items, id_field, kind) \<Rightarrow>
             Inr (items, id_field,
               (if kind = ''segments'' then ''characters_in_segment''
                else if kind = ''shots'' then ''characters_in_shot''
                else ''characters_in_scene''), ''scenes'', ''props'')))"

definition json_id :: "string \<Rightarrow> json \<Rightarrow> string option" where
  "json_id id_field item = (case item of JObj d \<Rightarrow> py_str (dict_ref d id_field) | _ \<Rightarrow> None)"

fun find_index :: "json list \<Rightarrow> string \<Rightarrow> string \<Rightarrow> nat option" where
  "find_index [] id_field iid = None"
| "find_index (item # items) id_field iid =
     (if json_id id_field item = Some iid then Some 0
      else map_option Suc (find_index items id_field iid))"

definition existing_ids :: "json list \<Rightarrow> string \<Rightarrow> string list" where
  "existing_ids items id_field = List.map_filter (json_id id_field) items"

text \<open>The search for a free suffix; its bound is the number of ids taken plus one.\<close>

fun suffix_loop :: "nat \<Rightarrow> nat \<Rightarrow> string \<Rightarrow> string list \<Rightarrow> string option" where
  "suffix_loop 0 k stem taken = None"
| "suffix_loop (Suc n) k stem taken =
     (let cand = stem @ ''_'' @ show_nat k in
      if cand \<in> set taken then suffix_loop n (Suc k) stem taken else Some cand)"

definition next_suffixed_id :: "string \<Rightarrow> string list \<Rightarrow> string option" where
  "next_suffixed_id base taken =
     suffix_loop (Suc (length taken)) 1 (takeWhile (\<lambda>c. c \<noteq> CHR ''_'') base) taken"

fun split_dots :: "string \<Rightarrow> string \<Rightarrow> string list" where
  "split_dots acc [] = [rev acc]"
| "split_dots acc (c # cs) =
     (if c = CHR ''.'' then rev acc # split_dots [] cs else split_dots (c # acc) cs)"

fun set_path :: "string \<Rightarrow> json \<Rightarrow> string list \<Rightarrow> json \<Rightarrow> edit_error + json" where
  "set_path path (JObj d) [] v = Inl (BadPath path)"
| "set_path path (JObj d) [p] v = Inr (JObj (dict_put d p v))"
| "set_path path (JObj d) (p # q # ps) v =
     (case dict_get d p of
        None \<Rightarrow> Inl (PathMissing path)
      | Some (JObj sub) \<Rightarrow>
          (case set_path path (JObj sub) (q # ps) v of
             Inl e \<Rightarrow> Inl e
           | Inr sub' \<Rightarrow> Inr (JObj (dict_put d p sub')))
      | Some _ \<Rightarrow> Inl (ParentNotObject path))"
| "set_path path _ ps v = Inl (ParentNotObject path)"

definition locked_ids :: "string list" where
  "locked_ids = [''segment_id'', ''scene_id'', ''unit_id'', ''shot_id'']"

definition set_nested :: "json \<Rightarrow> string \<Rightarrow> json \<Rightarrow> edit_error + json" where
  "set_nested item path v =
     (let parts = split_dots [] path in
      if [] \<in> set parts then Inl (BadPath path)
      else if hd parts = ''generated_assets'' then Inl AssetsLocked
      else if hd parts \<in> set locked_ids then Inl (IdLocked (hd parts))
      else set_path path item parts v)"

text \<open>The shape every edit has: resolve the items, find the id, rewrite the list in place.\<close>

definition edit_at ::
  "dict \<Rightarrow> string \<Rightarrow> (json list \<Rightarrow> string \<Rightarrow> nat \<Rightarrow> edit_error + json list) \<Rightarrow> edit_error + dict" where
  "edit_at script iid f =
     (case resolve_items script of
        Inl e \<Rightarrow> Inl e
      | Inr (items, id_field, kind) \<Rightarrow>
          (case find_index items id_field iid of
             None \<Rightarrow> Inl (IdNotFound iid)
           | Some idx \<Rightarrow>
               (case f items id_field idx of
                  Inl e \<Rightarrow> Inl e
                | Inr items' \<Rightarrow> Inr (dict_put script kind (JArr items')))))"

definition patch_field :: "dict \<Rightarrow> string \<Rightarrow> string \<Rightarrow> json \<Rightarrow> edit_error + dict" where
  "patch_field script iid path v =
     edit_at script iid (\<lambda>items id_field idx.
       (case set_nested (items ! idx) path v of
          Inl e \<Rightarrow> Inl e
        | Inr item' \<Rightarrow> Inr (items[idx := item'])))"

definition insert_segment :: "dict \<Rightarrow> string \<Rightarrow> json \<Rightarrow> edit_error + dict" where
  "insert_segment script after_id new_item =
     (case new_item of
        JObj d \<Rightarrow>
          edit_at script after_id (\<lambda>items id_field idx.
            (case next_suffixed_id after_id (existing_ids items id_field) of
               None \<Rightarrow> Inl (IdNotFound after_id)
             | Some nid \<Rightarrow>
                 (let item = JObj (dict_put (dict_put d id_field (JStr nid)) ''generated_assets'' (JObj []))
                  in Inr (take (Suc idx) items @ item # drop (Suc idx) items))))
      | _ \<Rightarrow> Inl NotAnObject)"

definition remove_segment :: "dict \<Rightarrow> string \<Rightarrow> edit_error + dict" where
  "remove_segment script iid =
     edit_at script iid (\<lambda>items id_field idx. Inr (take idx items @ drop (Suc idx) items))"

text \<open>The parts after the first: fresh ids derived one after the other, assets cleared.\<close>

fun new_parts :: "string \<Rightarrow> string \<Rightarrow> string list \<Rightarrow> dict list \<Rightarrow> json list option" where
  "new_parts iid id_field taken [] = Some []"
| "new_parts iid id_field taken (raw # raws) =
     (case next_suffixed_id iid taken of
        None \<Rightarrow> None
      | Some nid \<Rightarrow>
          (case new_parts iid id_field (nid # taken) raws of
             None \<Rightarrow> None
           | Some rest \<Rightarrow>
               Some (JObj (dict_put (dict_put raw id_field (JStr nid)) ''generated_assets'' (JObj [])) # rest)))"

definition anchor_part :: "string \<Rightarrow> string \<Rightarrow> json \<Rightarrow> dict \<Rightarrow> json" where
  "anchor_part iid id_field anchor raw =
     (let assets = (case anchor of JObj d \<Rightarrow> dict_ref d ''generated_assets'' | _ \<Rightarrow> JNull) in
      JObj (dict_put (dict_put raw id_field (JStr iid)) ''generated_assets''
        (case assets of JObj a \<Rightarrow> JObj a | _ \<Rightarrow> JObj [])))"

definition split_segment :: "dict \<Rightarrow> string \<Rightarrow> json \<Rightarrow> edit_error + dict" where
  "split_segment script iid parts =
     (case parts of
        JArr ps \<Rightarrow>
          (if length ps < 2 then Inl TooFewParts
           else if \<not> list_all (\<lambda>p. as_dict p \<noteq> None) ps then Inl NotAnObject
           else
             (case List.map_filter as_dict ps of
                raw # raws \<Rightarrow>
                  edit_at script iid (\<lambda>items id_field idx.
                    (case new_parts iid id_field (existing_ids items id_field) raws of
                       None \<Rightarrow> Inl (IdNotFound iid)
                     | Some rest \<Rightarrow>
                         Inr (take idx items @ anchor_part iid id_field (items ! idx) raw # rest
                              @ drop (Suc idx) items)))
              | [] \<Rightarrow> Inl TooFewParts))
      | _ \<Rightarrow> Inl TooFewParts)"

text \<open>
  A session of edits: each edit either returns the edited script or leaves it as it was (every
  exception of the source is raised before its first assignment).
\<close>

datatype edit = Patch string string json | Insert string json | Remove string | Split string json

fun apply_edit :: "edit \<Rightarrow> dict \<Rightarrow> edit_error + dict" where
  "apply_edit (Patch iid path v) s = patch_field s iid path v"
| "apply_edit (Insert iid item) s = insert_segment s iid item"
| "apply_edit (Remove iid) s = remove_segment s iid"
| "apply_edit (Split iid parts) s = split_segment s iid parts"

fun run_edits :: "edit list \<Rightarrow> dict \<Rightarrow> dict" where
  "run_edits [] s = s"
| "run_edits (e # es) s = run_edits es (case apply_edit e s of Inl _ \<Rightarrow> s | Inr s' \<Rightarrow> s')"

definition script_ids :: "dict \<Rightarrow> string list" where
  "script_ids s = (case resolve_items s of Inl _ \<Rightarrow> [] | Inr (items, f, _) \<Rightarrow> existing_ids items f)"

subsection \<open>Fresh suffixes\<close>

lemma suffix_loop_fresh: "suffix_loop n k stem taken = Some s \<Longrightarrow> s \<notin> set taken"
  by (induction n k stem taken rule: suffix_loop.induct) (auto simp: Let_def split: if_splits)

lemma suffix_loop_None:
  "suffix_loop n k stem taken = None \<Longrightarrow> (\<lambda>j. stem @ ''_'' @ show_nat j) ` {k..<k + n} \<subseteq> set taken"
proof (induction n k stem taken rule: suffix_loop.induct)
  case (2 n k stem taken)
  then have "stem @ ''_'' @ show_nat k \<in> set taken" and "suffix_loop n (Suc k) stem taken = None"
    by (auto simp: Let_def split: if_splits)
  moreover have "{k..<k + Suc n} = insert k {Suc k..<Suc k + n}" by auto
  ultimately show ?case using 2(1) by (auto simp: Let_def)
qed simp

lemma suffix_loop_total: "length taken < n \<Longrightarrow> suffix_loop n k stem taken \<noteq> None"
proof
  assume n: "length taken < n" and none: "suffix_loop n k stem taken = None"
  have inj: "inj_on (\<lambda>j. stem @ ''_'' @ show_nat j) {k..<k + n}"
    by (auto simp: inj_on_def)
  have "n = card ((\<lambda>j. stem @ ''_'' @ show_nat j) ` {k..<k + n})"
    by (subst card_image [OF inj]) simp
  also have "\<dots> \<le> card (set taken)"
    by (rule card_mono [OF _ suffix_loop_None [OF none]]) simp
  also have "\<dots> \<le> length taken" by (rule card_length)
  finally show False using n by simp
qed

lemma next_suffixed_id_ex:
  obtains s where "next_suffixed_id base taken = Some s" "s \<notin> set taken"
  using suffix_loop_total [of taken "Suc (length taken)" 1 "takeWhile (\<lambda>c. c \<noteq> CHR ''_'') base"]
    suffix_loop_fresh unfolding next_suffixed_id_def by blast

lemma new_parts_ids:
  "\<exists>rest. new_parts iid id_field taken raws = Some rest \<and> length rest = length raws \<and>
     (id_field \<noteq> ''generated_assets'' \<longrightarrow>
        distinct (existing_ids rest id_field) \<and> set (existing_ids rest id_field) \<inter> set taken = {} \<and>
        length (existing_ids rest id_field) = length raws)"
proof (induction raws arbitrary: taken)
  case (Cons raw raws)
  obtain nid where nid: "next_suffixed_id iid taken = Some nid" "nid \<notin> set taken"
    by (rule next_suffixed_id_ex)
  from Cons.IH [of "nid # taken"] nid show ?case
    by (auto simp: existing_ids_def map_filter_simps json_id_def dict_simps)
qed (simp add: existing_ids_def map_filter_simps)

subsection \<open>What every edit leaves in the script\<close>

lemma resolve_kind_cases: "resolve_kind s \<in> {''video_units'', ''scenes'', ''segments'', ''shots''}"
  by (simp add: resolve_kind_def Let_def)

lemma id_field_locked: "kind_id_field k \<in> set locked_ids"
  by (simp add: kind_id_field_def locked_ids_def)

lemma id_field_not_assets: "kind_id_field k \<noteq> ''generated_assets''"
  by (simp add: kind_id_field_def)

lemma resolve_kind_put:
  assumes "dict_has s k" "k \<noteq> ''content_mode''"
  shows "resolve_kind (dict_put s k v) = resolve_kind s"
proof -
  have "dict_has (dict_put s k v) k' = dict_has s k'" for k'
    using assms(1) by (auto simp: dict_simps)
  then show ?thesis using assms(2) by (simp add: resolve_kind_def dict_ref_put Let_def)
qed

lemma resolve_items_SomeD:
  assumes "resolve_items s = Inr (items, f, kind)"
  shows "f = kind_id_field kind" "kind = resolve_kind s" "dict_get s kind = None \<longrightarrow> items = []"
    "dict_get s kind \<noteq> None \<longrightarrow> dict_get s kind = Some (JArr items)"
  using assms by (auto simp: resolve_items_def Let_def split: option.splits json.splits)

lemma find_index_SomeD:
  "find_index items f iid = Some i \<Longrightarrow> i < length items \<and> json_id f (items ! i) = Some iid"
  by (induction items f iid arbitrary: i rule: find_index.induct) (auto split: if_splits)

lemma edit_at_InrE:
  assumes "edit_at s iid g = Inr s'"
  obtains items f kind idx items' where
    "resolve_items s = Inr (items, f, kind)" "find_index items f iid = Some idx"
    "idx < length items" "json_id f (items ! idx) = Some iid"
    "g items f idx = Inr items'" "s' = dict_put s kind (JArr items')"
    "resolve_items s' = Inr (items', f, kind)" "f = kind_id_field kind"
proof -
  from assms obtain items f kind idx items' where
    u: "resolve_items s = Inr (items, f, kind)" "find_index items f iid = Some idx"
      "g items f idx = Inr items'" "s' = dict_put s kind (JArr items')"
    by (auto simp: edit_at_def split: sum.splits option.splits)
  note i = find_index_SomeD [OF u(2)] and r = resolve_items_SomeD [OF u(1)]
  have "dict_get s kind \<noteq> None" using i r(3) by auto
  then have "dict_has s kind" by (simp add: dict_has_get)
  moreover have "kind \<noteq> ''content_mode''" using resolve_kind_cases [of s] r(2) by auto
  ultimately have "resolve_items s' = Inr (items', f, kind)"
    using r u(4) by (simp add: resolve_items_def Let_def resolve_kind_put dict_get_put)
  with u i r(1) that show ?thesis by blast
qed

lemma existing_ids_simps [simp]:
  "existing_ids [] f = []"
  "existing_ids (x # xs) f = (case json_id f x of None \<Rightarrow> existing_ids xs f | Some i \<Rightarrow> i # existing_ids xs f)"
  "existing_ids (xs @ ys) f = existing_ids xs f @ existing_ids ys f"
proof -
  show "existing_ids (xs @ ys) f = existing_ids xs f @ existing_ids ys f"
    by (induction xs) (auto simp: existing_ids_def map_filter_simps split: option.split)
qed (auto simp: existing_ids_def map_filter_simps split: option.split)

lemma existing_ids_split:
  "i < length items \<Longrightarrow> existing_ids items f = existing_ids (take i items @ [items ! i]) f @ existing_ids (drop (Suc i) items) f"
  by (metis existing_ids_simps(3) id_take_nth_drop append.assoc append_Cons append_Nil)

lemma existing_ids_update:
  "i < length items \<Longrightarrow> json_id f x = json_id f (items ! i) \<Longrightarrow> existing_ids (items[i := x]) f = existing_ids items f"
  by (simp add: existing_ids_split [of i] upd_conv_take_nth_drop split: option.split)

subsection \<open>Patching one field\<close>

lemma set_path_other:
  assumes "set_path path (JObj d) (p # ps) v = Inr j"
  obtains d' where "j = JObj d'" "\<And>k. k \<noteq> p \<Longrightarrow> dict_get d' k = dict_get d k"
proof (cases ps)
  case Nil
  then show ?thesis using assms that [of "dict_put d p v"] by (simp add: dict_get_put)
next
  case (Cons q qs)
  then obtain sub' where "j = JObj (dict_put d p sub')"
    using assms by (auto split: option.splits json.splits sum.splits)
  then show ?thesis using that [of "dict_put d p sub'"] by (simp add: dict_get_put)
qed

lemma split_dots_ne: "split_dots acc cs \<noteq> []"
  by (induction acc cs rule: split_dots.induct) auto

lemma set_nested_keeps:
  assumes "set_nested item path v = Inr item'"
  obtains d d' where "item = JObj d" "item' = JObj d'"
    "dict_get d' ''generated_assets'' = dict_get d ''generated_assets''"
    "\<And>k. k \<in> set locked_ids \<Longrightarrow> dict_get d' k = dict_get d k"
proof -
  obtain p ps where parts: "split_dots [] path = p # ps"
    using split_dots_ne [of "[]" path] by (cases "split_dots [] path") auto
  from assms parts have np: "p \<noteq> ''generated_assets''" "p \<notin> set locked_ids"
    and sp: "set_path path item (p # ps) v = Inr item'"
    by (auto simp: set_nested_def Let_def split: if_splits)
  from sp obtain d where d: "item = JObj d" by (cases item) auto
  obtain d' where d': "item' = JObj d'" "\<And>k. k \<noteq> p \<Longrightarrow> dict_get d' k = dict_get d k"
    using set_path_other [OF sp [unfolded d]] by metis
  show ?thesis by (rule that [OF d d'(1)]) (use np d'(2) in metis)+
qed

subsection \<open>Inserting, removing and splitting\<close>

lemma json_id_put [simp]:
  "k \<noteq> f \<Longrightarrow> json_id f (JObj (dict_put d k v)) = json_id f (JObj d)"
  "json_id f (JObj (dict_put d f (JStr i))) = Some i"
  by (simp_all add: json_id_def dict_ref_put)

lemma anchor_part_id: "f \<noteq> ''generated_assets'' \<Longrightarrow> json_id f (anchor_part iid f a raw) = Some iid"
  by (simp add: anchor_part_def Let_def)

lemma distinct_insert_mid:
  "distinct (xs @ ys) \<Longrightarrow> distinct zs \<Longrightarrow> set zs \<inter> set (xs @ ys) = {} \<Longrightarrow> distinct (xs @ zs @ ys)"
  by auto

lemma patch_field_InrE:
  assumes "patch_field s iid path v = Inr s'"
  obtains items f kind idx item' where
    "resolve_items s = Inr (items, f, kind)" "find_index items f iid = Some idx" "idx < length items"
    "set_nested (items ! idx) path v = Inr item'" "f = kind_id_field kind"
    "resolve_items s' = Inr (items[idx := item'], f, kind)" "s' = dict_put s kind (JArr (items[idx := item']))"
  using assms unfolding patch_field_def
proof (rule edit_at_InrE)
  fix items f kind idx items'
  assume u: "resolve_items s = Inr (items, f, kind)" "find_index items f iid = Some idx" "idx < length items"
      "(case set_nested (items ! idx) path v of Inl e \<Rightarrow> Inl e | Inr item' \<Rightarrow> Inr (items[idx := item'])) = Inr items'"
      "resolve_items s' = Inr (items', f, kind)" "f = kind_id_field kind" "s' = dict_put s kind (JArr items')"
  then show thesis
    by (cases "set_nested (items ! idx) path v") (auto intro: that)
qed

lemma edit_at_Inr:
  assumes "resolve_items s = Inr (items, f, kind)" "find_index items f iid = Some idx" "g items f idx = Inr items'"
  shows "edit_at s iid g = Inr (dict_put s kind (JArr items'))"
    "resolve_items (dict_put s kind (JArr items')) = Inr (items', f, kind)"
proof -
  show e: "edit_at s iid g = Inr (dict_put s kind (JArr items'))" using assms by (simp add: edit_at_def)
  show "resolve_items (dict_put s kind (JArr items')) = Inr (items', f, kind)"
    using e assms by (auto elim!: edit_at_InrE)
qed

lemma edit_at_found:
  assumes "edit_at s iid g = Inr s'"
  obtains items f kind idx where
    "resolve_items s = Inr (items, f, kind)" "find_index items f iid = Some idx"
  using assms by (auto elim!: edit_at_InrE)

lemma insert_segment_Inr:
  assumes r: "resolve_items s = Inr (items, f, kind)" and i: "find_index items f iid = Some idx"
  obtains nid where "nid \<notin> set (existing_ids items f)"
    "next_suffixed_id iid (existing_ids items f) = Some nid"
    "insert_segment s iid (JObj d) = Inr (dict_put s kind (JArr (take (Suc idx) items @
       JObj (dict_put (dict_put d f (JStr nid)) ''generated_assets'' (JObj [])) # drop (Suc idx) items)))"
proof -
  obtain nid where n: "next_suffixed_id iid (existing_ids items f) = Some nid" "nid \<notin> set (existing_ids items f)"
    by (rule next_suffixed_id_ex)
  show ?thesis
    by (rule that [OF n(2,1)]) (simp add: insert_segment_def edit_at_Inr [OF r i] n Let_def)
qed

lemma split_segment_Inr:
  assumes r: "resolve_items s = Inr (items, f, kind)" and i: "find_index items f iid = Some idx"
    and ps: "raws \<noteq> []"
  obtains rest where "new_parts iid f (existing_ids items f) raws = Some rest"
    "split_segment s iid (JArr (map JObj (raw # raws))) = Inr (dict_put s kind (JArr (take idx items @
       anchor_part iid f (items ! idx) raw # rest @ drop (Suc idx) items)))"
proof -
  obtain rest where n: "new_parts iid f (existing_ids items f) raws = Some rest"
    using new_parts_ids [of iid f "existing_ids items f" raws] by blast
  have mf: "List.map_filter as_dict (map JObj xs) = xs" for xs
    by (induction xs) (simp_all add: map_filter_simps)
  have "split_segment s iid (JArr (map JObj (raw # raws))) = edit_at s iid (\<lambda>items id_field idx.
          (case new_parts iid id_field (existing_ids items id_field) raws of
             None \<Rightarrow> Inl (IdNotFound iid)
           | Some rest \<Rightarrow> Inr (take idx items @ anchor_part iid id_field (items ! idx) raw # rest
                              @ drop (Suc idx) items)))"
    using mf [of "raw # raws"] ps by (cases raws) (simp_all add: split_segment_def list_all_iff)
  also have "\<dots> = Inr (dict_put s kind (JArr (take idx items @
       anchor_part iid f (items ! idx) raw # rest @ drop (Suc idx) items)))"
    by (rule edit_at_Inr(1) [OF r i]) (simp add: n)
  finally show ?thesis using n that by blast
qed

lemma split_parts_shape:
  assumes "split_segment s iid parts = Inr s'"
  obtains raw raws where "parts = JArr (map JObj (raw # raws))" "raws \<noteq> []"
proof -
  from assms obtain ps where ps: "parts = JArr ps" "\<not> length ps < 2" "list_all (\<lambda>p. as_dict p \<noteq> None) ps"
    by (cases parts) (auto simp: split_segment_def split: if_splits)
  from ps(3) have "ps = map JObj (map (the \<circ> as_dict) ps)"
    by (induction ps) (auto simp: as_simps_iff)
  then obtain ds where ds: "ps = map JObj ds" by blast
  with ps(2) obtain raw raws where "ds = raw # raws" "raws \<noteq> []"
    by (cases ds; cases "tl ds") auto
  with ds ps(1) that show ?thesis by simp
qed

lemma split_found:
  assumes "split_segment s iid parts = Inr s'"
  obtains items f kind idx where "resolve_items s = Inr (items, f, kind)" "find_index items f iid = Some idx"
proof -
  from assms obtain g where "edit_at s iid g = Inr s'"
    by (cases parts) (auto simp: split_segment_def split: if_splits list.splits)
  then show ?thesis using that by (rule edit_at_found)
qed

lemma apply_edit_distinct:
  assumes e: "apply_edit e s = Inr s'" and d: "distinct (script_ids s)"
  shows "distinct (script_ids s')"
proof (cases e)
  case (Patch iid path v)
  with e have "patch_field s iid path v = Inr s'" by simp
  then show ?thesis
  proof (cases rule: patch_field_InrE)
    case (1 items f kind idx item')
    have "json_id f item' = json_id f (items ! idx)"
      by (rule set_nested_keeps [OF 1(4)]) (simp add: json_id_def dict_ref_def 1(5) id_field_locked)
    with 1 d show ?thesis by (simp add: script_ids_def existing_ids_update)
  qed
next
  case (Insert iid item)
  then obtain o' where o': "item = JObj o'" using e by (cases item) (auto simp: insert_segment_def)
  with e Insert obtain items f kind idx where u: "resolve_items s = Inr (items, f, kind)" "find_index items f iid = Some idx"
    by (auto simp: insert_segment_def elim: edit_at_found)
  have fa: "''generated_assets'' \<noteq> f" using resolve_items_SomeD(1) [OF u(1)] id_field_not_assets by metis
  have sp: "existing_ids items f = existing_ids (take (Suc idx) items) f @ existing_ids (drop (Suc idx) items) f"
    by (metis append_take_drop_id existing_ids_simps(3))
  from u show ?thesis
  proof (cases rule: insert_segment_Inr [where d = o'])
    case (1 nid)
    with e Insert o' have "s' = dict_put s kind (JArr (take (Suc idx) items @
       JObj (dict_put (dict_put o' f (JStr nid)) ''generated_assets'' (JObj [])) # drop (Suc idx) items))" by simp
    then have "resolve_items s' = Inr (take (Suc idx) items @
       JObj (dict_put (dict_put o' f (JStr nid)) ''generated_assets'' (JObj [])) # drop (Suc idx) items, f, kind)"
      by (simp add: edit_at_Inr(2) [where g = "\<lambda>_ _ _. Inr _", OF u refl])
    with 1(1) d u sp fa show ?thesis by (auto simp: script_ids_def)
  qed
next
  case (Remove iid)
  with e have "edit_at s iid (\<lambda>items id_field idx. Inr (take idx items @ drop (Suc idx) items)) = Inr s'"
    by (simp add: remove_segment_def)
  then show ?thesis
  proof (cases rule: edit_at_InrE)
    case (1 items f kind idx items')
    with d existing_ids_split [of idx items f] show ?thesis by (auto simp: script_ids_def)
  qed
next
  case (Split iid parts)
  with e have sp: "split_segment s iid parts = Inr s'" by simp
  obtain raw raws where p: "parts = JArr (map JObj (raw # raws))" "raws \<noteq> []"
    using sp by (rule split_parts_shape)
  obtain items f kind idx where u: "resolve_items s = Inr (items, f, kind)" "find_index items f iid = Some idx"
    using sp by (rule split_found)
  note f = resolve_items_SomeD(1) [OF u(1)] and i = find_index_SomeD [OF u(2)]
  have fa: "f \<noteq> ''generated_assets''" using f id_field_not_assets by metis
  from u p(2) show ?thesis
  proof (cases rule: split_segment_Inr [where raw = raw])
    case (1 rest)
    have "s' = dict_put s kind (JArr (take idx items @ anchor_part iid f (items ! idx) raw # rest @ drop (Suc idx) items))"
      using 1(2) sp p by simp
    then have r': "resolve_items s' = Inr (take idx items @ anchor_part iid f (items ! idx) raw # rest @ drop (Suc idx) items, f, kind)"
      by (simp add: edit_at_Inr(2) [where g = "\<lambda>_ _ _. Inr _", OF u refl])
    have "distinct (existing_ids rest f)" "set (existing_ids rest f) \<inter> set (existing_ids items f) = {}"
      using new_parts_ids [of iid f "existing_ids items f" raws] 1(1) fa by auto
    with r' d u i existing_ids_split [of idx items f] show ?thesis
      by (auto simp: script_ids_def anchor_part_id [OF fa])
  qed
qed

lemma run_edits_distinct: "distinct (script_ids s) \<Longrightarrow> distinct (script_ids (run_edits es s))"
proof (induction es arbitrary: s)
  case (Cons e es)
  show ?case
  proof (cases "apply_edit e s")
    case (Inl x)
    with Cons show ?thesis by simp
  next
    case (Inr s')
    with Cons.IH [of s'] apply_edit_distinct [OF Inr] Cons.prems show ?thesis by simp
  qed
qed simp

lemma new_parts_assets:
  "new_parts iid f taken raws = Some rest \<Longrightarrow>
     list_all (\<lambda>p. \<exists>d. p = JObj d \<and> dict_get d ''generated_assets'' = Some (JObj [])) rest"
  by (induction raws arbitrary: taken rest) (auto simp: dict_get_put split: option.splits)

subsection \<open>Properties\<close>

definition demo_script :: dict where
  "demo_script =
     [(''content_mode'', JStr ''narration''),
      (''segments'', JArr
        [JObj [(''segment_id'', JStr ''E1S01''), (''generated_assets'', JObj [(''image'', JStr ''a.png'')])],
         JObj [(''segment_id'', JStr ''E1S02''), (''video_prompt'', JObj [(''action'', JStr ''walk'')])]])]"

text \<open>C21. Editing never creates a duplicate id: whatever sequence of patches, insertions, removals
  and splits is applied to a script whose item ids are distinct, refused edits included, the
  ids of the resulting script are distinct.\<close>

theorem edits_keep_ids_distinct:
  assumes "distinct (script_ids s)"
  shows "distinct (script_ids (run_edits es s))"
  using assms by (rule run_edits_distinct)

lemma edits_keep_ids_distinct_witness:
  "distinct (script_ids (run_edits
     [Split ''E1S01'' (JArr [JObj [], JObj []]), Insert ''E1S01_1'' (JObj []), Remove ''E1S02''] demo_script)) \<and>
   script_ids (run_edits
     [Split ''E1S01'' (JArr [JObj [], JObj []]), Insert ''E1S01_1'' (JObj []), Remove ''E1S02''] demo_script)
     = [''E1S01'', ''E1S01_1'', ''E1S01_2'']"
proof
  show "distinct (script_ids (run_edits
     [Split ''E1S01'' (JArr [JObj [], JObj []]), Insert ''E1S01_1'' (JObj []), Remove ''E1S02''] demo_script))"
    by (rule edits_keep_ids_distinct) code_simp
qed code_simp

text \<open>A patch is a setter of one field of one item: it returns a script with the same kind,
  the same number of items and the same ids, in which only the addressed item changed; that
  item keeps its generated assets and every id field. No other key of the script changes.\<close>

theorem patch_touches_one_item:
  assumes "patch_field s iid path v = Inr s'"
  shows "\<exists>items f kind idx d d'.
    resolve_items s = Inr (items, f, kind) \<and> find_index items f iid = Some idx \<and>
    items ! idx = JObj d \<and> resolve_items s' = Inr (items[idx := JObj d'], f, kind) \<and>
    dict_get d' ''generated_assets'' = dict_get d ''generated_assets'' \<and>
    list_all (\<lambda>k. dict_get d' k = dict_get d k) locked_ids \<and>
    script_ids s' = script_ids s \<and> (\<forall>k. dict_get s' k = dict_get s k \<or> k = kind)"
  using assms
proof (cases rule: patch_field_InrE)
  case (1 items f kind idx item')
  from 1(4) show ?thesis
  proof (rule set_nested_keeps)
    fix d d'
    assume d: "items ! idx = JObj d" "item' = JObj d'"
      "dict_get d' ''generated_assets'' = dict_get d ''generated_assets''"
      "\<And>k. k \<in> set locked_ids \<Longrightarrow> dict_get d' k = dict_get d k"
    have "json_id f (JObj d') = json_id f (JObj d)"
      using d(4) [OF id_field_locked] 1(5) by (simp add: json_id_def dict_ref_def)
    then have "script_ids s' = script_ids s"
      using 1(1,3,6) d(1,2) by (simp add: script_ids_def existing_ids_update)
    moreover have "\<forall>k. dict_get s' k = dict_get s k \<or> k = kind"
      using 1(7) by (simp add: dict_get_put)
    ultimately show ?thesis using 1(1,2,6) d by (auto simp: list_all_iff intro!: exI)
  qed
qed

lemma patch_touches_one_item_witness:
  "\<exists>s'. patch_field demo_script ''E1S02'' ''video_prompt.action'' (JStr ''run'') = Inr s' \<and>
     script_ids s' = script_ids demo_script"
proof -
  let ?r = "patch_field demo_script ''E1S02'' ''video_prompt.action'' (JStr ''run'')"
  have "\<not> isl ?r" by code_simp
  then obtain s' where s': "?r = Inr s'" by (cases ?r) auto
  from patch_touches_one_item [OF s'] s' show ?thesis by blast
qed

text \<open>Splitting succeeds for every item that is found and every list of at least two
  objects, and does exactly this: the items before and after stay where they are, the first
  part takes the old id and the old assets, and every further part gets an id no item of the
  script has, different from the other new ones, and empty assets.\<close>

theorem split_segment_exact:
  assumes "resolve_items s = Inr (items, f, kind)" "find_index items f iid = Some idx"
    and "items ! idx = JObj old" "dict_get old ''generated_assets'' = Some (JObj assets)" "raws \<noteq> []"
  shows "\<exists>s' anchor rest.
    split_segment s iid (JArr (map JObj (raw # raws))) = Inr s' \<and>
    resolve_items s' = Inr (take idx items @ JObj anchor # rest @ drop (Suc idx) items, f, kind) \<and>
    dict_get anchor f = Some (JStr iid) \<and>
    dict_get anchor ''generated_assets'' = Some (JObj assets) \<and>
    length rest = length raws \<and>
    distinct (script_ids s @ existing_ids rest f) = distinct (script_ids s) \<and>
    length (existing_ids rest f) = length raws \<and>
    list_all (\<lambda>p. \<exists>d. p = JObj d \<and> dict_get d ''generated_assets'' = Some (JObj [])) rest"
proof -
  have fa: "f \<noteq> ''generated_assets''"
    using resolve_items_SomeD(1) [OF assms(1)] id_field_not_assets by metis
  from assms(1,2,5) show ?thesis
  proof (cases rule: split_segment_Inr [where raw = raw])
    case (1 rest)
    note new = new_parts_ids [of iid f "existing_ids items f" raws]
    let ?anchor = "dict_put (dict_put raw f (JStr iid)) ''generated_assets'' (JObj assets)"
    have a: "anchor_part iid f (items ! idx) raw = JObj ?anchor"
      using assms(3,4) by (simp add: anchor_part_def dict_ref_def)
    have sid: "script_ids s = existing_ids items f" using assms(1) by (simp add: script_ids_def)
    have "resolve_items (dict_put s kind (JArr (take idx items @ JObj ?anchor # rest @ drop (Suc idx) items)))
        = Inr (take idx items @ JObj ?anchor # rest @ drop (Suc idx) items, f, kind)"
      by (rule edit_at_Inr(2) [where g = "\<lambda>_ _ _. Inr _", OF assms(1,2) refl])
    moreover have "list_all (\<lambda>p. \<exists>d. p = JObj d \<and> dict_get d ''generated_assets'' = Some (JObj [])) rest"
      by (rule new_parts_assets [OF 1(1)])
    moreover have "distinct (script_ids s @ existing_ids rest f) = distinct (script_ids s)"
      "length (existing_ids rest f) = length raws" "length rest = length raws"
      using new 1(1) fa sid by auto
    ultimately show ?thesis
      by (intro exI [of _ "dict_put s kind (JArr (take idx items @ JObj ?anchor # rest @ drop (Suc idx) items))"]
            exI [of _ ?anchor] exI [of _ rest]) (use 1(2) a fa in \<open>simp add: dict_get_put\<close>)
  qed
qed

lemma split_segment_exact_witness:
  "\<exists>s' anchor. split_segment demo_script ''E1S01'' (JArr [JObj [], JObj []]) = Inr s' \<and>
     dict_get anchor ''generated_assets'' = Some (JObj [(''image'', JStr ''a.png'')]) \<and>
     hd (fst (projr (resolve_items s'))) = JObj anchor"
proof -
  let ?items = "[JObj [(''segment_id'', JStr ''E1S01''), (''generated_assets'', JObj [(''image'', JStr ''a.png'')])],
         JObj [(''segment_id'', JStr ''E1S02''), (''video_prompt'', JObj [(''action'', JStr ''walk'')])]]"
  have r: "resolve_items demo_script = Inr (?items, ''segment_id'', ''segments'')" by code_simp
  have i: "find_index ?items ''segment_id'' ''E1S01'' = Some 0" by code_simp
  have o: "?items ! 0 = JObj [(''segment_id'', JStr ''E1S01''), (''generated_assets'', JObj [(''image'', JStr ''a.png'')])]"
    by simp
  have g: "dict_get [(''segment_id'', JStr ''E1S01''), (''generated_assets'', JObj [(''image'', JStr ''a.png'')])]
      ''generated_assets'' = Some (JObj [(''image'', JStr ''a.png'')])" by code_simp
  have ne: "[[]] \<noteq> ([] :: dict list)" by simp
  from split_segment_exact [OF r i o g ne, where raw = "[]"] obtain s' anchor rest where
    "split_segment demo_script ''E1S01'' (JArr [JObj [], JObj []]) = Inr s'"
    "resolve_items s' = Inr (take 0 ?items @ JObj anchor # rest @ drop (Suc 0) ?items, ''segment_id'', ''segments'')"
    "dict_get anchor ''generated_assets'' = Some (JObj [(''image'', JStr ''a.png'')])"
    unfolding list.map by blast
  then show ?thesis by auto
qed

end
