(* ===== verification/EpisodeLedger.thy ===== *)
theory EpisodeLedger
  imports PyJson "HOL-Library.List_Lexorder" "HOL-Library.Char_ord"
begin

text \<open>
  The episode ledger (\<open>lib/episode_ledger.py\<close>): the coordinates of an episode in the
  normalised source text, and the mechanical backfill that recovers them by exact matching.
  The project directory is a record of what the functions read of it; documents are
  identified by their path, since the cursor of a document is the only part that changes.
  Texts are ASCII, on which Unicode composition is the identity.
\<close>

subsection \<open>Paths, names and texts\<close>

definition path_parts :: "string \<Rightarrow> string list" where
  "path_parts p = filter (\<lambda>part. part \<noteq> [] \<and> part \<noteq> ''.'') (split_on (CHR ''/'') [] p)"

definition validate_rel_posix_path :: "string \<Rightarrow> bool" where
  "validate_rel_posix_path v =
     (v \<noteq> [] \<and> CHR 0x5C \<notin> set v \<and> hd v \<noteq> CHR ''/'' \<and> ''..'' \<notin> set (path_parts v))"

text \<open>The validated records of the ledger: \<open>None\<close> is a validation error.\<close>

record source_range =
  sr_file :: string
  sr_start :: int
  sr_end :: int

definition make_source_range :: "string \<Rightarrow> int \<Rightarrow> int \<Rightarrow> source_range option" where
  "make_source_range f a b =
     (if validate_rel_posix_path f \<and> 0 \<le> a \<and> 0 \<le> b \<and> a \<le> b
      then Some \<lparr>sr_file = f, sr_start = a, sr_end = b\<rparr> else None)"

fun replace_crlf :: "string \<Rightarrow> string" where
  "replace_crlf (c # d # cs) =
     (if c = CHR 0x0D \<and> d = CHR 0x0A then CHR 0x0A # replace_crlf cs else c # replace_crlf (d # cs))"
| "replace_crlf cs = cs"

definition normalize_source_text :: "string \<Rightarrow> string" where
  "normalize_source_text t = map (\<lambda>c. if c = CHR 0x0D then CHR 0x0A else c) (replace_crlf t)"

definition lower :: "string \<Rightarrow> string" where
  "lower s = map (\<lambda>c. if CHR ''A'' \<le> c \<and> c \<le> CHR ''Z'' then char_of (of_char c + 32 :: nat) else c) s"

text \<open>\<open>PurePath.suffix\<close>: from the last dot on, unless it is the first or the last character.\<close>

definition suffix_of :: "string \<Rightarrow> string" where
  "suffix_of name =
     (let r = takeWhile (\<lambda>c. c \<noteq> CHR ''.'') (rev name) in
      if r \<noteq> [] \<and> Suc (length r) < length name then CHR ''.'' # rev r else [])"

definition source_text_suffixes :: "string list" where
  "source_text_suffixes = [''.txt'', ''.md'']"

text \<open>The full match of \<open>episode_([0-9]+).txt\<close>, with the number.\<close>

definition episode_file_num :: "string \<Rightarrow> int option" where
  "episode_file_num name =
     (if take 8 name = ''episode_'' \<and> 12 < length name \<and> drop (length name - 4) name = ''.txt'' then
        (let mid = take (length name - 12) (drop 8 name) in
         if list_all is_digit mid then Some (int (nat_of_digits 0 mid)) else None)
      else None)"

fun parse_episode_num :: "json \<Rightarrow> int option" where
  "parse_episode_num (JInt i) = Some i"
| "parse_episode_num (JStr s) = (if s \<noteq> [] \<and> list_all is_digit s then Some (int (nat_of_digits 0 s)) else None)"
| "parse_episode_num _ = None"

subsection \<open>The project directory\<close>

text \<open>
  What is read: the regular files directly under \<open>source/\<close> with their text (\<open>None\<close>: not
  readable as UTF-8; no list at all: no such directory), the existence tests, the readable
  files of the project elsewhere, which paths are symbolic links, and which files under \<open>source/\<close>
  cannot be deleted.
\<close>

record project_fs =
  fs_source :: "(string \<times> string option) list option"
  fs_resolves :: "string \<Rightarrow> bool"
  fs_is_file :: "string \<Rightarrow> bool"
  fs_has_step1 :: "string \<Rightarrow> bool"
  fs_other :: "string \<Rightarrow> string option"
  fs_is_symlink :: "string \<Rightarrow> bool"
  fs_undeletable :: "string \<Rightarrow> bool"

definition safe_exists :: "project_fs \<Rightarrow> string \<Rightarrow> bool" where
  "safe_exists fs rel = (rel \<noteq> [] \<and> fs_resolves fs rel)"

definition source_listing :: "project_fs \<Rightarrow> (string \<times> string option) list" where
  "source_listing fs = sort_key fst (coalesce (fs_source fs) [])"

record source_doc =
  sd_path :: string
  sd_text :: string
  sd_cursor :: int

definition discover_sources :: "project_fs \<Rightarrow> source_doc list" where
  "discover_sources fs =
     List.map_filter (\<lambda>(name, content).
        if take 1 name = ''_'' \<or> take 1 name = ''.'' then None
        else if lower (suffix_of name) \<notin> set source_text_suffixes \<or> episode_file_num name \<noteq> None then None
        else map_option (\<lambda>t. \<lparr>sd_path = ''source/'' @ name, sd_text = normalize_source_text t, sd_cursor = 0\<rparr>) content)
       (source_listing fs)"

text \<open>The derived episode files, by number; the first of two names with one number wins.\<close>

fun first_per_key :: "('k \<times> 'v) list \<Rightarrow> 'k list \<Rightarrow> ('k \<times> 'v) list" where
  "first_per_key [] seen = []"
| "first_per_key ((k, v) # kvs) seen =
     (if k \<in> set seen then first_per_key kvs seen else (k, v) # first_per_key kvs (k # seen))"

definition discover_episode_files :: "project_fs \<Rightarrow> (int \<times> string \<times> string option) list" where
  "discover_episode_files fs =
     first_per_key
       (List.map_filter (\<lambda>(name, content). map_option (\<lambda>n. (n, name, content)) (episode_file_num name))
          (source_listing fs)) []"

subsection \<open>Exact matching\<close>

fun find_from :: "string \<Rightarrow> string \<Rightarrow> nat \<Rightarrow> nat option" where
  "find_from needle [] i = (if needle = [] then Some i else None)"
| "find_from needle (c # cs) i =
     (if take (length needle) (c # cs) = needle then Some i else find_from needle cs (Suc i))"

text \<open>\<open>text.find(needle, k)\<close>.\<close>

definition str_find :: "string \<Rightarrow> string \<Rightarrow> nat \<Rightarrow> nat option" where
  "str_find hay needle k = (if k \<le> length hay then find_from needle (drop k hay) k else None)"

fun first_hit :: "(source_doc \<Rightarrow> nat option) \<Rightarrow> source_doc list \<Rightarrow> (source_doc \<times> nat) option" where
  "first_hit search [] = None"
| "first_hit search (d # ds) = (case search d of Some i \<Rightarrow> Some (d, i) | None \<Rightarrow> first_hit search ds)"

definition find_in_sources ::
  "source_doc list \<Rightarrow> string \<Rightarrow> string option \<Rightarrow> (source_doc \<times> int \<times> int) option" where
  "find_in_sources docs needle preferred =
     (let ordered = filter (\<lambda>d. Some (sd_path d) = preferred) docs @ filter (\<lambda>d. Some (sd_path d) \<noteq> preferred) docs;
          span = (\<lambda>(d, i). (d, int i, int i + int (length needle))) in
      case first_hit (\<lambda>d. str_find (sd_text d) needle (nat (sd_cursor d))) ordered of
        Some hit \<Rightarrow> Some (span hit)
      | None \<Rightarrow> map_option span (first_hit (\<lambda>d. str_find (sd_text d) needle 0) ordered))"

subsection \<open>The backfill\<close>

definition has_downstream :: "project_fs \<Rightarrow> int \<Rightarrow> dict \<Rightarrow> bool" where
  "has_downstream fs num entry =
     ((case dict_ref entry ''script_file'' of JStr s \<Rightarrow> safe_exists fs s | _ \<Rightarrow> False) \<or>
      fs_is_file fs (''scripts/episode_'' @ show_int num @ ''.json'') \<or>
      fs_has_step1 fs (''drafts/episode_'' @ show_int num))"

definition derive_cursor ::
  "project_fs \<Rightarrow> source_doc list \<Rightarrow> string option \<Rightarrow> (string \<times> int) option \<Rightarrow> json" where
  "derive_cursor fs docs last_doc last_end =
     (let from_end = (case last_end of None \<Rightarrow> JNull
            | Some (f, e) \<Rightarrow> JObj [(''source_file'', JStr f), (''offset'', JInt e)]);
          rem_text = (case map_of (coalesce (fs_source fs) []) ''_remaining.txt'' of
                        Some (Some raw) \<Rightarrow> normalize_source_text raw | _ \<Rightarrow> []) in
      if rem_text = [] then from_end
      else
        (case find_in_sources docs rem_text last_doc of
           None \<Rightarrow> from_end
         | Some (d, start, _) \<Rightarrow>
             if (case last_end of None \<Rightarrow> False | Some (f, e) \<Rightarrow> sd_path d = f \<and> start < e) then from_end
             else JObj [(''source_file'', JStr (sd_path d)), (''offset'', JInt start)]))"

definition entry_num :: "json \<Rightarrow> int option" where
  "entry_num e = (case e of JObj d \<Rightarrow> parse_episode_num (dict_ref d ''episode'') | _ \<Rightarrow> None)"

fun find_entry :: "int \<Rightarrow> json list \<Rightarrow> dict option" where
  "find_entry n [] = None"
| "find_entry n (e # es) = (if entry_num e = Some n then as_dict e else find_entry n es)"

fun put_entry :: "int \<Rightarrow> dict \<Rightarrow> json list \<Rightarrow> json list" where
  "put_entry n d [] = []"
| "put_entry n d (e # es) = (if entry_num e = Some n then JObj d # es else e # put_entry n d es)"

definition sort_episodes_if_possible :: "json list \<Rightarrow> json list" where
  "sort_episodes_if_possible es =
     (if list_all (\<lambda>e. entry_num e \<noteq> None) es then sort_key (\<lambda>e. coalesce (entry_num e) 0) es else es)"

definition range_end :: "dict \<Rightarrow> (string \<times> int) option" where
  "range_end entry =
     (case dict_ref entry ''source_range'' of
        JObj r \<Rightarrow> (case (dict_ref r ''source_file'', dict_ref r ''end'') of
                    (JStr f, JInt e) \<Rightarrow> Some (f, e) | _ \<Rightarrow> None)
      | _ \<Rightarrow> None)"

record back_state =
  bk_eps :: "json list"
  bk_docs :: "source_doc list"
  bk_last_doc :: "string option"
  bk_last_end :: "(string \<times> int) option"

definition set_cursor :: "string \<Rightarrow> (int \<Rightarrow> int) \<Rightarrow> source_doc list \<Rightarrow> source_doc list" where
  "set_cursor f g docs = map_where (\<lambda>d. sd_path d = f) (\<lambda>d. d\<lparr>sd_cursor := g (sd_cursor d)\<rparr>) docs"

definition episode_text :: "project_fs \<Rightarrow> int \<Rightarrow> string" where
  "episode_text fs num =
     (case map_of (discover_episode_files fs) num of
        Some (_, Some raw) \<Rightarrow> normalize_source_text raw | _ \<Rightarrow> [])"

definition backfill_step :: "project_fs \<Rightarrow> int \<Rightarrow> back_state \<Rightarrow> back_state" where
  "backfill_step fs num st =
     (case find_entry num (bk_eps st) of
        None \<Rightarrow> st
      | Some entry \<Rightarrow>
          if dict_ref entry ''ledger_status'' \<noteq> JNull then
            (case range_end entry of
               None \<Rightarrow> st
             | Some (f, e) \<Rightarrow>
                 (let st1 = st\<lparr>bk_last_end := Some (f, e)\<rparr> in
                  if f \<in> sd_path ` set (bk_docs st) then
                    st1\<lparr>bk_docs := set_cursor f (\<lambda>c. max c e) (bk_docs st), bk_last_doc := Some f\<rparr>
                  else st1))
          else
            (let hay = episode_text fs num in
             case (if hay = [] then None else find_in_sources (bk_docs st) hay (bk_last_doc st)) of
               None \<Rightarrow>
                 st\<lparr>bk_eps := put_entry num
                       (dict_put (dict_put entry ''source_range'' JNull) ''ledger_status'' (JStr ''unanchored''))
                       (bk_eps st)\<rparr>
             | Some (d, a, b) \<Rightarrow>
                 (let e1 = dict_put entry ''source_range''
                        (JObj [(''source_file'', JStr (sd_path d)), (''start'', JInt a), (''end'', JInt b)]);
                      e2 = dict_put e1 ''ledger_status''
                        (JStr (if has_downstream fs num e1 then ''consumed'' else ''planned'')) in
                  \<lparr>bk_eps = put_entry num e2 (bk_eps st), bk_docs = set_cursor (sd_path d) (\<lambda>_. b) (bk_docs st),
                   bk_last_doc = Some (sd_path d), bk_last_end = Some (sd_path d, b)\<rparr>)))"

definition orphan_entry :: "int \<Rightarrow> json" where
  "orphan_entry n =
     JObj [(''episode'', JInt n), (''title'', JStr []),
           (''script_file'', JStr (''scripts/episode_'' @ show_int n @ ''.json''))]"

definition with_orphans :: "project_fs \<Rightarrow> json list \<Rightarrow> json list" where
  "with_orphans fs es =
     es @ map orphan_entry (filter (\<lambda>n. n \<notin> set (List.map_filter entry_num es))
            (sort (map fst (discover_episode_files fs))))"

definition entry_nums :: "json list \<Rightarrow> int list" where
  "entry_nums es = sort (remdups (List.map_filter entry_num es))"

definition backfill_episode_ledger :: "project_fs \<Rightarrow> dict \<Rightarrow> dict" where
  "backfill_episode_ledger fs project =
     (case coalesce (dict_get project ''episodes'') (JArr []) of
        JArr raw \<Rightarrow>
          (let eps = sort_episodes_if_possible (with_orphans fs raw);
               nums = entry_nums eps;
               pending = filter (\<lambda>n. case find_entry n eps of None \<Rightarrow> False
                                   | Some e \<Rightarrow> dict_ref e ''ledger_status'' = JNull) nums;
               data = dict_put project ''episodes'' (JArr eps) in
           if pending = [] \<and> dict_ref data ''planning_cursor'' \<noteq> JNull then data
           else
             (let st = fold (backfill_step fs) nums
                    \<lparr>bk_eps = eps, bk_docs = discover_sources fs, bk_last_doc = None, bk_last_end = None\<rparr>;
                  data1 = dict_put project ''episodes'' (JArr (bk_eps st)) in
              if dict_ref data1 ''planning_cursor'' = JNull then
                dict_put data1 ''planning_cursor''
                  (derive_cursor fs (bk_docs st) (bk_last_doc st) (bk_last_end st))
              else data1))
      | _ \<Rightarrow> project)"

end
