(* ===== verification/LedgerProps.thy ===== *)
theory LedgerProps
  imports EpisodeLedger
begin

text \<open>
  Correctness of the backfill: what one step does to its entry and to the others, the exact
  ranges it writes, and its idempotence.
\<close>

subsection \<open>Text search\<close>

lemma find_from_Some:
  "find_from needle hay i = Some j \<Longrightarrow> i \<le> j \<and> j \<le> i + length hay \<and> take (length needle) (drop (j - i) hay) = needle"
proof (induction needle hay i rule: find_from.induct)
  case (2 needle c cs i)
  show ?case
  proof (cases "take (length needle) (c # cs) = needle")
    case True
    with 2(2) show ?thesis by auto
  next
    case False
    with 2(2) have f: "find_from needle cs (Suc i) = Some j" by simp
    from 2(1) [OF False f] have "Suc i \<le> j" "j \<le> Suc i + length cs" "take (length needle) (drop (j - Suc i) cs) = needle"
      by auto
    moreover from \<open>Suc i \<le> j\<close> have "j - i = Suc (j - Suc i)" by simp
    ultimately show ?thesis by simp
  qed
qed (simp split: if_splits)

lemma find_from_None:
  "find_from needle hay i = None \<Longrightarrow> k \<le> length hay \<Longrightarrow> take (length needle) (drop k hay) \<noteq> needle"
proof (induction needle hay i arbitrary: k rule: find_from.induct)
  case (2 needle c cs i)
  show ?case
  proof (cases k)
    case (Suc m)
    with 2 show ?thesis by (simp split: if_splits)
  qed (use 2 in \<open>simp split: if_splits\<close>)
qed (simp split: if_splits)

lemma str_find_Some:
  "str_find hay needle k = Some j \<Longrightarrow> k \<le> j \<and> j + length needle \<le> length hay \<and> take (length needle) (drop j hay) = needle"
proof -
  assume "str_find hay needle k = Some j"
  then have f: "k \<le> length hay" "find_from needle (drop k hay) k = Some j"
    by (auto simp: str_find_def split: if_splits)
  from find_from_Some [OF f(2)] f(1) have j: "k \<le> j" "j \<le> length hay" "take (length needle) (drop j hay) = needle"
    by auto
  then have "length needle \<le> length (drop j hay)" by (metis length_take min.cobounded1)
  with j show ?thesis by auto
qed

lemma str_find_None: "str_find hay needle k = None \<Longrightarrow> k \<le> j \<Longrightarrow> j \<le> length hay \<Longrightarrow> take (length needle) (drop j hay) \<noteq> needle"
  using find_from_None [of needle "drop k hay" k "j - k"] by (auto simp: str_find_def split: if_splits)

lemma find_from_least:
  "find_from needle hay i = Some j \<Longrightarrow> k < j - i \<Longrightarrow> take (length needle) (drop k hay) \<noteq> needle"
proof (induction needle hay i arbitrary: k rule: find_from.induct)
  case (2 needle c cs i)
  show ?case
  proof (cases "take (length needle) (c # cs) = needle")
    case False
    with 2(2) have f: "find_from needle cs (Suc i) = Some j" by simp
    show ?thesis
    proof (cases k)
      case (Suc m)
      with 2(1) [OF False f, of m] 2(3) show ?thesis by simp
    qed (use False in simp)
  qed (use 2 in simp)
qed (simp split: if_splits)

lemma str_find_least:
  "str_find hay needle k = Some i \<Longrightarrow> k \<le> j \<Longrightarrow> j < i \<Longrightarrow> take (length needle) (drop j hay) \<noteq> needle"
  using find_from_least [of needle "drop k hay" k i "j - k"] by (auto simp: str_find_def split: if_splits)

lemma first_hit_Some: "first_hit search ds = Some (d, i) \<Longrightarrow> d \<in> set ds \<and> search d = Some i"
  by (induction ds) (auto split: option.splits)

lemma find_in_sources_Some:
  assumes "find_in_sources docs needle preferred = Some (d, a, b)"
  shows "d \<in> set docs \<and> 0 \<le> a \<and> b = a + int (length needle) \<and> b \<le> int (length (sd_text d)) \<and>
    take (length needle) (drop (nat a) (sd_text d)) = needle"
proof -
  from assms obtain i k where "(d, a, b) = (d, int i, int i + int (length needle))" "d \<in> set docs"
      "str_find (sd_text d) needle k = Some i"
    by (auto simp: find_in_sources_def Let_def dest!: first_hit_Some split: option.splits)
  with str_find_Some [of "sd_text d" needle k i] show ?thesis by auto
qed

subsection \<open>Entries\<close>

lemma entry_num_put [simp]: "k \<noteq> ''episode'' \<Longrightarrow> entry_num (JObj (dict_put d k v)) = entry_num (JObj d)"
  by (simp add: entry_num_def dict_ref_put)

lemma find_entry_Some: "find_entry n es = Some d \<Longrightarrow> entry_num (JObj d) = Some n \<and> JObj d \<in> set es"
  by (induction n es rule: find_entry.induct) (auto simp: as_simps_iff split: if_splits)

lemma entry_num_JObj: "entry_num e = Some n \<Longrightarrow> \<exists>d. e = JObj d"
  by (cases e) (auto simp: entry_num_def)

lemma nums_Cons [simp]:
  "List.map_filter entry_num [] = []"
  "List.map_filter entry_num (e # es) = (case entry_num e of None \<Rightarrow> List.map_filter entry_num es | Some n \<Rightarrow> n # List.map_filter entry_num es)"
  by (simp_all add: map_filter_simps)

lemma nums_eq_map: "List.map_filter entry_num es = map the (filter (\<lambda>x. x \<noteq> None) (map entry_num es))"
  by (induction es) (auto split: option.split)

lemma find_entry_ex: "n \<in> set (List.map_filter entry_num es) \<Longrightarrow> \<exists>d. find_entry n es = Some d"
  by (induction n es rule: find_entry.induct)
     (auto dest: entry_num_JObj split: option.splits if_splits)

lemma map_num_put: "entry_num (JObj d) = Some n \<Longrightarrow> map entry_num (put_entry n d es) = map entry_num es"
  by (induction n d es rule: put_entry.induct) auto

lemma find_put_entry:
  "entry_num (JObj d) = Some m \<Longrightarrow> find_entry n (put_entry m d es) =
     (if n = m then (if find_entry m es = None then None else Some d) else find_entry n es)"
  by (induction m d es rule: put_entry.induct) (auto dest: entry_num_JObj)

lemma entry_nums_cong: "map entry_num es = map entry_num fs \<Longrightarrow> entry_nums es = entry_nums fs"
  by (simp add: entry_nums_def nums_eq_map)

lemma set_nums: "n \<in> set (List.map_filter entry_num es) \<longleftrightarrow> Some n \<in> entry_num ` set es"
  by (induction es) (auto split: option.split)

lemma set_entry_nums: "set (entry_nums es) = {n. Some n \<in> entry_num ` set es}"
  by (auto simp: entry_nums_def set_nums)

lemma find_entry_num: "n \<in> set (entry_nums es) \<Longrightarrow> \<exists>d. find_entry n es = Some d"
  by (rule find_entry_ex) (simp add: entry_nums_def)

lemma distinct_entry_nums [simp]: "distinct (entry_nums es)"
  by (simp add: entry_nums_def)

lemma sort_if_possible_nums:
  "set (entry_nums (sort_episodes_if_possible es)) = set (entry_nums es)"
  by (simp add: set_entry_nums sort_episodes_if_possible_def)

lemma sort_if_possible_stable:
  assumes "map entry_num fs = map entry_num (sort_episodes_if_possible es)"
  shows "sort_episodes_if_possible fs = fs"
proof (cases "list_all (\<lambda>e. entry_num e \<noteq> None) es")
  case True
  then have "sort_episodes_if_possible es = sort_key (\<lambda>e. coalesce (entry_num e) 0) es"
    by (simp add: sort_episodes_if_possible_def)
  with assms have "map (\<lambda>x. coalesce x 0) (map entry_num fs) = map (\<lambda>e. coalesce (entry_num e) 0) (sort_key (\<lambda>e. coalesce (entry_num e) 0) es)"
    by simp
  then have "sorted (map (\<lambda>e. coalesce (entry_num e) 0) fs)" by (simp add: comp_def)
  then show ?thesis by (simp add: sort_episodes_if_possible_def sort_key_id_if_sorted)
next
  case False
  then have "\<not> list_all (\<lambda>x. x \<noteq> None) (map entry_num fs)"
    using assms by (auto simp: sort_episodes_if_possible_def list_all_iff)
  then have "\<not> list_all (\<lambda>e. entry_num e \<noteq> None) fs" by (auto simp: list_all_iff)
  then show ?thesis by (simp add: sort_episodes_if_possible_def)
qed

subsection \<open>One step\<close>

definition doc_keys :: "source_doc list \<Rightarrow> (string \<times> string) list" where
  "doc_keys docs = map (\<lambda>d. (sd_path d, sd_text d)) docs"

lemma doc_keys_set_cursor [simp]: "doc_keys (set_cursor f g docs) = doc_keys docs"
  by (simp add: doc_keys_def set_cursor_def map_where_def)

text \<open>What an anchored entry says: a verbatim occurrence of the episode's text.\<close>

definition anchored :: "project_fs \<Rightarrow> (string \<times> string) list \<Rightarrow> int \<Rightarrow> dict \<Rightarrow> bool" where
  "anchored fs keys n e =
     (\<exists>f hay a b. (f, hay) \<in> set keys \<and>
        dict_ref e ''source_range'' = JObj [(''source_file'', JStr f), (''start'', JInt a), (''end'', JInt b)] \<and>
        0 \<le> a \<and> a < b \<and> b \<le> int (length hay) \<and>
        take (nat (b - a)) (drop (nat a) hay) = episode_text fs n \<and>
        dict_ref e ''ledger_status'' = JStr (if has_downstream fs n e then ''consumed'' else ''planned''))"

definition unanchored :: "dict \<Rightarrow> bool" where
  "unanchored e = (dict_ref e ''source_range'' = JNull \<and> dict_ref e ''ledger_status'' = JStr ''unanchored'')"

definition settled :: "project_fs \<Rightarrow> (string \<times> string) list \<Rightarrow> int \<Rightarrow> dict \<Rightarrow> dict \<Rightarrow> bool" where
  "settled fs keys n e e' =
     (if dict_ref e ''ledger_status'' \<noteq> JNull then e' = e
      else (unanchored e' \<or> anchored fs keys n e') \<and>
           (\<forall>k. k = ''source_range'' \<or> k = ''ledger_status'' \<or> dict_get e' k = dict_get e k))"

lemma has_downstream_put [simp]:
  "k \<noteq> ''script_file'' \<Longrightarrow> has_downstream fs n (dict_put e k v) = has_downstream fs n e"
  by (simp add: has_downstream_def dict_ref_put)

lemma step_keeps:
  "map entry_num (bk_eps (backfill_step fs n st)) = map entry_num (bk_eps st)"
  "doc_keys (bk_docs (backfill_step fs n st)) = doc_keys (bk_docs st)"
  by (auto simp: backfill_step_def Let_def map_num_put dest!: find_entry_Some split: option.split prod.split)

lemma step_other: "m \<noteq> n \<Longrightarrow> find_entry m (bk_eps (backfill_step fs n st)) = find_entry m (bk_eps st)"
  by (auto simp: backfill_step_def Let_def find_put_entry dest!: find_entry_Some split: option.split prod.split)

lemma step_settles:
  assumes e: "find_entry n (bk_eps st) = Some e"
  obtains e' where "find_entry n (bk_eps (backfill_step fs n st)) = Some e'"
    "settled fs (doc_keys (bk_docs st)) n e e'"
proof (cases "dict_ref e ''ledger_status'' = JNull")
  case False
  then have "find_entry n (bk_eps (backfill_step fs n st)) = Some e"
    using e by (auto simp: backfill_step_def Let_def split: option.split)
  with False that show ?thesis by (simp add: settled_def)
next
  case True
  note num = find_entry_Some [OF e, THEN conjunct1]
  let ?hit = "if episode_text fs n = [] then None else find_in_sources (bk_docs st) (episode_text fs n) (bk_last_doc st)"
  show ?thesis
  proof (cases ?hit)
    case None
    let ?e = "dict_put (dict_put e ''source_range'' JNull) ''ledger_status'' (JStr ''unanchored'')"
    have "bk_eps (backfill_step fs n st) = put_entry n ?e (bk_eps st)"
      unfolding backfill_step_def e option.case Let_def None using True by simp
    then have "find_entry n (bk_eps (backfill_step fs n st)) = Some ?e"
      using e num by (simp add: find_put_entry)
    moreover have "settled fs (doc_keys (bk_docs st)) n e ?e"
      using True by (simp add: settled_def unanchored_def dict_simps)
    ultimately show ?thesis by (rule that)
  next
    case (Some hit)
    obtain d a b where hit: "hit = (d, a, b)" by (cases hit) auto
    from Some hit have ne: "episode_text fs n \<noteq> []"
      and f: "find_in_sources (bk_docs st) (episode_text fs n) (bk_last_doc st) = Some (d, a, b)"
      by (auto split: if_splits)
    let ?r = "JObj [(''source_file'', JStr (sd_path d)), (''start'', JInt a), (''end'', JInt b)]"
    let ?e1 = "dict_put e ''source_range'' ?r"
    let ?e = "dict_put ?e1 ''ledger_status'' (JStr (if has_downstream fs n ?e1 then ''consumed'' else ''planned''))"
    have "bk_eps (backfill_step fs n st) = put_entry n ?e (bk_eps st)"
      unfolding backfill_step_def e option.case Let_def Some hit using True by simp
    then have "find_entry n (bk_eps (backfill_step fs n st)) = Some ?e"
      using e num by (simp add: find_put_entry)
    moreover have "anchored fs (doc_keys (bk_docs st)) n ?e"
    proof -
      from find_in_sources_Some [OF f] have h: "d \<in> set (bk_docs st)" "0 \<le> a" "b = a + int (length (episode_text fs n))"
        "b \<le> int (length (sd_text d))" "take (length (episode_text fs n)) (drop (nat a) (sd_text d)) = episode_text fs n" by auto
      have "nat (b - a) = length (episode_text fs n)" using h(3) by simp
      with h ne show ?thesis
        by (intro anchored_def [THEN iffD2] exI [of _ "sd_path d"] exI [of _ "sd_text d"] exI [of _ a] exI [of _ b])
           (auto simp: doc_keys_def dict_simps)
    qed
    then have "settled fs (doc_keys (bk_docs st)) n e ?e"
      using True by (simp add: settled_def dict_simps)
    ultimately show ?thesis by (rule that)
  qed
qed

subsection \<open>The whole pass\<close>

lemma fold_keeps:
  "map entry_num (bk_eps (fold (backfill_step fs) nums st)) = map entry_num (bk_eps st)"
  "doc_keys (bk_docs (fold (backfill_step fs) nums st)) = doc_keys (bk_docs st)"
  by (induction nums arbitrary: st) (simp_all add: step_keeps)

lemma fold_other: "m \<notin> set nums \<Longrightarrow> find_entry m (bk_eps (fold (backfill_step fs) nums st)) = find_entry m (bk_eps st)"
  by (induction nums arbitrary: st) (simp_all add: step_other)

lemma fold_settles:
  assumes "distinct nums" and "n \<in> set nums" and "find_entry n (bk_eps st) = Some e"
  shows "\<exists>e'. find_entry n (bk_eps (fold (backfill_step fs) nums st)) = Some e' \<and>
     settled fs (doc_keys (bk_docs st)) n e e'"
  using assms
proof (induction nums arbitrary: st)
  case (Cons m nums)
  show ?case
  proof (cases "n = m")
    case True
    obtain e' where e': "find_entry n (bk_eps (backfill_step fs n st)) = Some e'"
      "settled fs (doc_keys (bk_docs st)) n e e'" using Cons.prems(3) by (rule step_settles)
    moreover have "n \<notin> set nums" using True Cons.prems(1) by simp
    ultimately show ?thesis using True by (simp add: fold_other)
  next
    case False
    then show ?thesis
      using Cons.IH [of "backfill_step fs m st"] Cons.prems by (simp add: step_other step_keeps)
  qed
qed simp

text \<open>A pass that ends without an anchored range changed neither cursors nor the document.\<close>

definition skipped :: "int \<Rightarrow> json list \<Rightarrow> bool" where
  "skipped n es =
     (\<exists>e. find_entry n es = Some e \<and> dict_ref e ''ledger_status'' \<noteq> JNull \<and> range_end e = None)"

lemma step_no_end:
  assumes "bk_last_end (backfill_step fs n st) = None" and "n \<in> set (entry_nums (bk_eps st))"
  shows "bk_last_end st = None \<and> bk_docs (backfill_step fs n st) = bk_docs st \<and>
     bk_last_doc (backfill_step fs n st) = bk_last_doc st \<and> skipped n (bk_eps (backfill_step fs n st))"
proof -
  from assms(2) obtain e where e: "find_entry n (bk_eps st) = Some e"
    using find_entry_num by blast
  note num = find_entry_Some [OF e, THEN conjunct1]
  have range_JNull: "range_end (dict_put (dict_put e ''source_range'' JNull) ''ledger_status'' v) = None" for v
    by (simp add: range_end_def dict_ref_put)
  show ?thesis
    using assms(1) e num
    by (auto simp: backfill_step_def Let_def skipped_def find_put_entry range_JNull dict_ref_put
        split: if_splits option.splits prod.splits)
qed

lemma fold_no_end:
  assumes "bk_last_end (fold (backfill_step fs) nums st) = None" and "set nums \<subseteq> set (entry_nums (bk_eps st))"
    and "distinct nums"
  shows "bk_last_end st = None \<and> bk_docs (fold (backfill_step fs) nums st) = bk_docs st \<and>
     bk_last_doc (fold (backfill_step fs) nums st) = bk_last_doc st \<and>
     list_all (\<lambda>n. skipped n (bk_eps (fold (backfill_step fs) nums st))) nums"
  using assms
proof (induction nums arbitrary: st)
  case (Cons n nums)
  let ?st = "backfill_step fs n st"
  have nums: "entry_nums (bk_eps ?st) = entry_nums (bk_eps st)"
    by (rule entry_nums_cong) (rule step_keeps)
  with Cons have ih: "bk_last_end ?st = None" "bk_docs (fold (backfill_step fs) nums ?st) = bk_docs ?st"
     "bk_last_doc (fold (backfill_step fs) nums ?st) = bk_last_doc ?st"
     "list_all (\<lambda>n. skipped n (bk_eps (fold (backfill_step fs) nums ?st))) nums" by auto
  moreover have "n \<in> set (entry_nums (bk_eps st))" using Cons.prems(2) by simp
  note s = step_no_end [OF ih(1) this]
  moreover have "skipped n (bk_eps (fold (backfill_step fs) nums ?st))"
    using s Cons.prems(3) by (simp add: skipped_def fold_other)
  ultimately show ?case by simp
qed simp

lemma step_skip: "skipped n (bk_eps st) \<Longrightarrow> backfill_step fs n st = st"
  by (auto simp: skipped_def backfill_step_def)

lemma fold_skip: "list_all (\<lambda>n. skipped n (bk_eps st)) nums \<Longrightarrow> fold (backfill_step fs) nums st = st"
  by (induction nums) (auto simp: step_skip)

subsection \<open>Idempotence\<close>

lemma orphans_covered:
  "set (map fst (discover_episode_files fs)) \<subseteq> set (entry_nums es) \<Longrightarrow> with_orphans fs es = es"
  by (auto simp: with_orphans_def filter_empty_conv entry_nums_def)

lemma entry_num_orphan: "entry_num (orphan_entry n) = Some n"
  by (simp add: entry_num_def orphan_entry_def dict_ref_def dict_get_def)

lemma with_orphans_covers: "set (map fst (discover_episode_files fs)) \<subseteq> set (entry_nums (with_orphans fs es))"
proof
  fix n assume n: "n \<in> set (map fst (discover_episode_files fs))"
  show "n \<in> set (entry_nums (with_orphans fs es))"
  proof (cases "Some n \<in> entry_num ` set es")
    case True
    then show ?thesis by (auto simp: set_entry_nums with_orphans_def)
  next
    case False
    then have "orphan_entry n \<in> set (with_orphans fs es)"
      using n by (auto simp: with_orphans_def set_nums)
    then have "entry_num (orphan_entry n) \<in> entry_num ` set (with_orphans fs es)" by (rule imageI)
    then show ?thesis by (simp add: set_entry_nums entry_num_orphan)
  qed
qed

definition first_state :: "project_fs \<Rightarrow> json list \<Rightarrow> back_state" where
  "first_state fs eps = \<lparr>bk_eps = eps, bk_docs = discover_sources fs, bk_last_doc = None, bk_last_end = None\<rparr>"

lemma first_state_simps [simp]:
  "bk_eps (first_state fs eps) = eps" "bk_docs (first_state fs eps) = discover_sources fs"
  "bk_last_doc (first_state fs eps) = None" "bk_last_end (first_state fs eps) = None"
  by (simp_all add: first_state_def)

definition pass_state :: "project_fs \<Rightarrow> json list \<Rightarrow> back_state" where
  "pass_state fs eps = fold (backfill_step fs) (entry_nums eps) (first_state fs eps)"

definition pending_nums :: "json list \<Rightarrow> int list" where
  "pending_nums eps =
     filter (\<lambda>n. case find_entry n eps of None \<Rightarrow> False | Some e \<Rightarrow> dict_ref e ''ledger_status'' = JNull) (entry_nums eps)"

lemma backfill_eq:
  "backfill_episode_ledger fs project =
     (case coalesce (dict_get project ''episodes'') (JArr []) of
        JArr raw \<Rightarrow>
          (let eps = sort_episodes_if_possible (with_orphans fs raw); st = pass_state fs eps;
               data1 = dict_put project ''episodes'' (JArr (bk_eps st)) in
           if pending_nums eps = [] \<and> dict_ref project ''planning_cursor'' \<noteq> JNull
             then dict_put project ''episodes'' (JArr eps)
           else if dict_ref project ''planning_cursor'' = JNull then
             dict_put data1 ''planning_cursor'' (derive_cursor fs (bk_docs st) (bk_last_doc st) (bk_last_end st))
           else data1)
      | _ \<Rightarrow> project)"
  by (cases "coalesce (dict_get project ''episodes'') (JArr [])")
     (simp_all add: backfill_episode_ledger_def pass_state_def first_state_def pending_nums_def Let_def dict_ref_put)

lemma pass_settles:
  assumes "find_entry n eps = Some e"
  shows "\<exists>e'. find_entry n (bk_eps (pass_state fs eps)) = Some e' \<and> settled fs (doc_keys (discover_sources fs)) n e e'"
proof -
  have "n \<in> set (entry_nums eps)" using imageI [of "JObj e" "set eps" entry_num] find_entry_Some [OF assms] by (simp add: set_entry_nums)
  from fold_settles [OF distinct_entry_nums this, of "first_state fs eps" e fs, unfolded first_state_simps, OF assms]
  show ?thesis by (simp only: pass_state_def)
qed

lemma anchored_status: "anchored fs keys n e \<Longrightarrow> \<exists>st. dict_ref e ''ledger_status'' = JStr st"
  unfolding anchored_def by blast

lemma settled_status:
  assumes "settled fs keys n e e'"
  shows "dict_ref e' ''ledger_status'' \<noteq> JNull"
proof (cases "dict_ref e ''ledger_status'' = JNull")
  case True
  then have "unanchored e' \<or> anchored fs keys n e'" using assms by (simp add: settled_def)
  then show ?thesis using anchored_status [of fs keys n e'] by (auto simp: unanchored_def)
qed (use assms in \<open>simp add: settled_def\<close>)

lemma pass_nothing_pending: "pending_nums (bk_eps (pass_state fs eps)) = []"
proof -
  have "map entry_num (bk_eps (pass_state fs eps)) = map entry_num eps"
    by (simp add: pass_state_def fold_keeps)
  then have nums: "entry_nums (bk_eps (pass_state fs eps)) = entry_nums eps" by (rule entry_nums_cong)
  have "dict_ref e' ''ledger_status'' \<noteq> JNull"
    if n: "n \<in> set (entry_nums eps)" "find_entry n (bk_eps (pass_state fs eps)) = Some e'" for n e'
  proof -
    obtain e where "find_entry n eps = Some e" using find_entry_num [OF n(1)] by blast
    from pass_settles [OF this, of fs] n(2) settled_status show ?thesis by auto
  qed
  then show ?thesis by (auto simp: pending_nums_def nums filter_empty_conv split: option.split)
qed

lemma pass_again:
  assumes "bk_last_end (pass_state fs eps) = None"
  shows "pass_state fs (bk_eps (pass_state fs eps)) = first_state fs (bk_eps (pass_state fs eps))"
    and "bk_docs (pass_state fs eps) = discover_sources fs" and "bk_last_doc (pass_state fs eps) = None"
proof -
  have n: "bk_docs (pass_state fs eps) = discover_sources fs" "bk_last_doc (pass_state fs eps) = None"
    "list_all (\<lambda>n. skipped n (bk_eps (pass_state fs eps))) (entry_nums eps)"
    using fold_no_end [of fs "entry_nums eps" "first_state fs eps"] assms
    by (simp_all add: pass_state_def)
  then show "bk_docs (pass_state fs eps) = discover_sources fs" "bk_last_doc (pass_state fs eps) = None" by simp_all
  have "entry_nums (bk_eps (pass_state fs eps)) = entry_nums eps"
    by (rule entry_nums_cong) (simp add: pass_state_def fold_keeps first_state_def)
  then show "pass_state fs (bk_eps (pass_state fs eps)) = first_state fs (bk_eps (pass_state fs eps))"
    using n(3) by (simp add: pass_state_def [of fs "bk_eps (pass_state fs eps)"] fold_skip)
qed

lemma derive_cursor_Some: "last_end \<noteq> None \<Longrightarrow> derive_cursor fs docs last_doc last_end \<noteq> JNull"
  by (auto simp: derive_cursor_def Let_def split: option.split prod.split)

lemma backfill_again:
  assumes "dict_get project ''episodes'' = Some (JArr eps)"
    and "sort_episodes_if_possible (with_orphans fs eps) = eps" and "pending_nums eps = []"
    and "dict_get project ''planning_cursor'' = Some c"
    and "c = JNull \<longrightarrow> pass_state fs eps = first_state fs eps \<and>
       derive_cursor fs (discover_sources fs) None None = JNull"
  shows "backfill_episode_ledger fs project = project"
proof (cases "c = JNull")
  case False
  with assms show ?thesis by (simp add: backfill_eq dict_ref_def dict_put_same)
next
  case True
  with assms show ?thesis by (simp add: backfill_eq Let_def dict_ref_def dict_put_same)
qed

lemma backfill_twice:
  "backfill_episode_ledger fs (backfill_episode_ledger fs project) = backfill_episode_ledger fs project"
proof (cases "coalesce (dict_get project ''episodes'') (JArr [])")
  case (JArr raw)
  let ?eps = "sort_episodes_if_possible (with_orphans fs raw)"
  let ?st = "pass_state fs ?eps"
  have covered: "set (map fst (discover_episode_files fs)) \<subseteq> set (entry_nums ?eps)"
    using with_orphans_covers [of fs raw] by (simp add: sort_if_possible_nums)
  have stable: "sort_episodes_if_possible (with_orphans fs es) = es" if "map entry_num es = map entry_num ?eps" for es
  proof -
    have "with_orphans fs es = es"
      by (rule orphans_covered) (use covered entry_nums_cong [OF that] in simp)
    with sort_if_possible_stable [OF that] show ?thesis by simp
  qed
  have nums: "map entry_num (bk_eps ?st) = map entry_num ?eps" by (simp add: pass_state_def fold_keeps)
  show ?thesis
  proof (cases "dict_ref project ''planning_cursor'' = JNull")
    case False
    then obtain c where c: "dict_get project ''planning_cursor'' = Some c" "c \<noteq> JNull"
      by (cases "dict_get project ''planning_cursor''") (auto simp: dict_ref_def)
    show ?thesis
    proof (cases "pending_nums ?eps = []")
      case True
      let ?p = "dict_put project ''episodes'' (JArr ?eps)"
      have "backfill_episode_ledger fs project = ?p" using JArr False True by (simp add: backfill_eq Let_def)
      moreover have "backfill_episode_ledger fs ?p = ?p"
        by (rule backfill_again [of _ ?eps fs c]) (use c True stable [OF refl] in \<open>simp_all add: dict_get_put\<close>)
      ultimately show ?thesis by simp
    next
      case pend: False
      let ?p = "dict_put project ''episodes'' (JArr (bk_eps ?st))"
      have "backfill_episode_ledger fs project = ?p" using JArr False pend by (simp add: backfill_eq Let_def)
      moreover have "backfill_episode_ledger fs ?p = ?p"
        by (rule backfill_again [of _ "bk_eps ?st" fs c])
           (use c pass_nothing_pending stable [OF nums] in \<open>simp_all add: dict_get_put\<close>)
      ultimately show ?thesis by simp
    qed
  next
    case True
    let ?c = "derive_cursor fs (bk_docs ?st) (bk_last_doc ?st) (bk_last_end ?st)"
    let ?p = "dict_put (dict_put project ''episodes'' (JArr (bk_eps ?st))) ''planning_cursor'' ?c"
    have "backfill_episode_ledger fs project = ?p" using JArr True by (simp add: backfill_eq Let_def)
    moreover have "backfill_episode_ledger fs ?p = ?p"
    proof (rule backfill_again [of _ "bk_eps ?st" fs ?c])
      show "?c = JNull \<longrightarrow> pass_state fs (bk_eps ?st) = first_state fs (bk_eps ?st) \<and>
         derive_cursor fs (discover_sources fs) None None = JNull"
      proof
        assume c: "?c = JNull"
        then have "bk_last_end ?st = None" using derive_cursor_Some by metis
        from pass_again [OF this] c this show "pass_state fs (bk_eps ?st) = first_state fs (bk_eps ?st) \<and>
           derive_cursor fs (discover_sources fs) None None = JNull" by simp
      qed
    qed (use pass_nothing_pending stable [OF nums] in \<open>simp_all add: dict_get_put\<close>)
    ultimately show ?thesis by simp
  qed
qed (simp_all add: backfill_eq)

subsection \<open>Properties\<close>

lemma find_entry_filter:
  "find_entry n es = (case filter (\<lambda>e. entry_num e = Some n) es of [] \<Rightarrow> None | e # _ \<Rightarrow> as_dict e)"
  by (induction n es rule: find_entry.induct) auto

lemma find_entry_sorted: "find_entry n (sort_episodes_if_possible es) = find_entry n es"
proof (cases "list_all (\<lambda>e. entry_num e \<noteq> None) es")
  case True
  let ?k = "\<lambda>e. coalesce (entry_num e) 0"
  have "filter (\<lambda>e. entry_num e = Some n) fs = filter (\<lambda>e. ?k e = n) fs" if "set fs = set es" for fs
    using True that by (intro filter_cong) (auto simp: list_all_iff)
  then have "filter (\<lambda>e. entry_num e = Some n) (sort_key ?k es) = filter (\<lambda>e. entry_num e = Some n) es"
    by (simp add: sort_key_stable)
  with True show ?thesis by (simp add: find_entry_filter sort_episodes_if_possible_def)
qed (simp add: sort_episodes_if_possible_def)

definition ledger_entries :: "dict \<Rightarrow> json list" where
  "ledger_entries project = coalesce (as_list (coalesce (dict_get project ''episodes'') (JArr []))) []"

text \<open>The backfill can be run again at any time: a second run on the same directory changes
  nothing, whatever the project's episode list looks like.\<close>

theorem backfill_idempotent:
  "backfill_episode_ledger fs (backfill_episode_ledger fs project) = backfill_episode_ledger fs project"
  by (rule backfill_twice)

text \<open>The backfill settles every episode and invents nothing: an entry that already has a
  status is returned as it was; any other entry (the ones created for derived files
  included) gets either the unanchored mark without a range, or a range of a source document
  whose characters are exactly the text of the episode's file, with the status that says
  whether something was produced from it; no other field of it changes.\<close>

theorem backfill_settles:
  assumes "find_entry n (with_orphans fs (ledger_entries project)) = Some e"
    and "as_list (coalesce (dict_get project ''episodes'') (JArr [])) \<noteq> None"
  shows "\<exists>e'. find_entry n (ledger_entries (backfill_episode_ledger fs project)) = Some e' \<and>
     settled fs (doc_keys (discover_sources fs)) n e e'"
proof -
  obtain raw where raw: "coalesce (dict_get project ''episodes'') (JArr []) = JArr raw"
    using assms(2) by (auto simp: as_simps_iff)
  let ?eps = "sort_episodes_if_possible (with_orphans fs raw)"
  have e: "find_entry n ?eps = Some e"
    using assms(1) raw by (simp add: find_entry_sorted ledger_entries_def)
  note p = pass_settles [OF e, of fs]
  show ?thesis
  proof (cases "pending_nums ?eps = [] \<and> dict_ref project ''planning_cursor'' \<noteq> JNull")
    case True
    then have "ledger_entries (backfill_episode_ledger fs project) = ?eps"
      using raw by (simp add: backfill_eq Let_def ledger_entries_def dict_get_put)
    moreover have "n \<in> set (entry_nums ?eps)"
      using imageI [of "JObj e" "set ?eps" entry_num] find_entry_Some [OF e] by (simp add: set_entry_nums)
    then have "dict_ref e ''ledger_status'' \<noteq> JNull"
      using True e by (auto simp: pending_nums_def filter_empty_conv)
    ultimately show ?thesis using e by (simp add: settled_def)
  next
    case False
    then have "ledger_entries (backfill_episode_ledger fs project) = bk_eps (pass_state fs ?eps)"
      using raw by (auto simp add: backfill_eq Let_def ledger_entries_def dict_get_put)
    with p show ?thesis by (simp only:)
  qed
qed

definition demo_fs :: project_fs where
  "demo_fs =
     \<lparr>fs_source = Some [(''novel.txt'', Some ''One day.  Next day.''), (''episode_1.txt'', Some ''One day.''),
                       (''episode_3.txt'', Some ''missing'')],
      fs_resolves = (\<lambda>_. False), fs_is_file = (\<lambda>p. p = ''scripts/episode_1.json''), fs_has_step1 = (\<lambda>_. False),
      fs_other = (\<lambda>_. None), fs_is_symlink = (\<lambda>_. False), fs_undeletable = (\<lambda>_. False)\<rparr>"

lemma backfill_settles_witness:
  "\<exists>e'. find_entry 1 (ledger_entries (backfill_episode_ledger demo_fs [])) = Some e' \<and>
     settled demo_fs (doc_keys (discover_sources demo_fs)) 1
       [(''episode'', JInt 1), (''title'', JStr []), (''script_file'', JStr ''scripts/episode_1.json'')] e' \<and>
     dict_ref e' ''ledger_status'' = JStr ''consumed''"
proof -
  have "find_entry 1 (with_orphans demo_fs (ledger_entries [])) = Some
       [(''episode'', JInt 1), (''title'', JStr []), (''script_file'', JStr ''scripts/episode_1.json'')]"
    by code_simp
  from backfill_settles [OF this] obtain e' where
    e': "find_entry 1 (ledger_entries (backfill_episode_ledger demo_fs [])) = Some e'"
     "settled demo_fs (doc_keys (discover_sources demo_fs)) 1
       [(''episode'', JInt 1), (''title'', JStr []), (''script_file'', JStr ''scripts/episode_1.json'')] e'"
    by (auto simp: dict_get_def)
  have "map_option (\<lambda>d. dict_ref d ''ledger_status'')
      (find_entry 1 (ledger_entries (backfill_episode_ledger demo_fs []))) = Some (JStr ''consumed'')"
    by code_simp
  with e' show ?thesis by auto
qed

end
