(* ===== verification/EpisodePlanner.thy ===== *)
theory EpisodePlanner
  imports EpisodeLedger
begin

text \<open>
  The episode planner (\<open>lib/episode_planner.py\<close>). A planning call reads the project, asks the
  text model for a draft, resolves its anchors to offsets, and commits under the project lock;
  the two halves see two states of the project and the directory, so each is a function of
  its own state. The text model, the reading-unit counter (\<open>units\<close>) and the prompt filter of the
  derived files (\<open>clean\<close>, \<open>strip_video_prompts\<close>) are arguments. A commit returns the new project
  and the new directory, or the error it raised before anything was written.
\<close>

subsection \<open>Python slices\<close>

definition slice_index :: "nat \<Rightarrow> int \<Rightarrow> nat" where
  "slice_index n i = nat (if i < 0 then max 0 (i + int n) else min i (int n))"

definition py_slice :: "int \<Rightarrow> int \<Rightarrow> 'a list \<Rightarrow> 'a list" where
  "py_slice a b xs =
     take (slice_index (length xs) b - slice_index (length xs) a) (drop (slice_index (length xs) a) xs)"

definition py_from :: "int \<Rightarrow> 'a list \<Rightarrow> 'a list" where
  "py_from a xs = drop (slice_index (length xs) a) xs"

subsection \<open>Drafts and errors\<close>

record episode_draft =
  ed_title :: string
  ed_hook :: string
  ed_end_anchor :: string
  ed_outline :: "(string list \<times> string option) option"

record plan_draft =
  pd_episodes :: "episode_draft list"
  pd_target_units :: "int option"

datatype reject_reason =
    AnchorMissing nat
  | AnchorRepeated nat nat
  | AnchorNotAfter nat
  | TailUncovered
  | NoEpisodes
  | BadOutput string

datatype planner_error =
    NoSources
  | SourceUnreadable string
  | StartOutOfRange
  | ValidationExhausted "reject_reason list"
  | PlanningConflict
  | SourceIsSymlink
  | RangeMissing int
  | RangeIllegal int
  | RangeOutside int
  | EpisodeIsSymlink int
  | NotInLedger int
  | UnanchoredInScope "int list"
  | RangeEmpty int
  | RangeDiscontinuous int
  | FileNotContiguous int
  | SliceInvalid

subsection \<open>Anchors to boundaries\<close>

lemma str_find_bounds: "str_find hay needle k = Some i \<Longrightarrow> k \<le> i \<and> k \<le> length hay"
proof -
  have "find_from needle xs j = Some i \<Longrightarrow> j \<le> i" for xs j
    by (induction needle xs j rule: find_from.induct) (auto split: if_splits)
  then show "str_find hay needle k = Some i \<Longrightarrow> k \<le> i \<and> k \<le> length hay"
    by (auto simp: str_find_def split: if_splits)
qed

text \<open>Every start of an occurrence, overlapping ones included.\<close>

function find_all :: "string \<Rightarrow> string \<Rightarrow> nat \<Rightarrow> nat list" where
  "find_all needle hay k =
     (case str_find hay needle k of None \<Rightarrow> [] | Some i \<Rightarrow> i # find_all needle hay (Suc i))"
  by pat_completeness auto
termination
  by (relation "measure (\<lambda>(needle, hay, k). Suc (length hay) - k)") (auto dest: str_find_bounds)

declare find_all.simps [simp del]

text \<open>The loop over the drafts: reasons and ends so far (latest first), position, order kept.\<close>

fun boundary_loop ::
  "string \<Rightarrow> nat \<Rightarrow> episode_draft list \<Rightarrow> reject_reason list \<Rightarrow> nat list \<Rightarrow> nat \<Rightarrow> bool \<Rightarrow>
   reject_reason list \<times> nat list" where
  "boundary_loop window idx [] reasons ends pos valid = (rev reasons, rev ends)"
| "boundary_loop window idx (ep # eps) reasons ends pos valid =
     (let anchor = ed_end_anchor ep; starts = find_all anchor window 0 in
      if starts = [] then boundary_loop window (Suc idx) eps (AnchorMissing idx # reasons) ends pos False
      else if 1 < length starts then
        boundary_loop window (Suc idx) eps (AnchorRepeated idx (length starts) # reasons) ends pos False
      else
        (let e = hd starts + length anchor in
         if valid \<and> e \<le> pos then boundary_loop window (Suc idx) eps (AnchorNotAfter idx # reasons) ends pos False
         else boundary_loop window (Suc idx) eps reasons (e # ends) e valid))"

text \<open>An empty list of drafts is excluded by the draft's schema; the source would fail on it.\<close>

definition resolve_boundaries ::
  "string \<Rightarrow> episode_draft list \<Rightarrow> bool \<Rightarrow> bool \<Rightarrow> reject_reason list + nat list" where
  "resolve_boundaries window drafts cover_to_end snap_whitespace_tail =
     (case boundary_loop window 1 drafts [] [] 0 True of
        (reasons, ends) \<Rightarrow>
          if reasons \<noteq> [] then Inl reasons
          else if ends = [] then Inl [NoEpisodes]
          else
            (let ends' = (if (cover_to_end \<or> snap_whitespace_tail) \<and> last ends < length window \<and>
                             strip (drop (last ends) window) = []
                          then butlast ends @ [length window] else ends) in
             if cover_to_end \<and> last ends' < length window then Inl [TailUncovered] else Inr ends'))"

text \<open>
  The request loop: the reply of the text model to the attempt, given the reasons of the last
  rejection; a reply that is not a valid draft is a rejection itself.
\<close>

fun request_validated_drafts ::
  "(reject_reason list option \<Rightarrow> nat \<Rightarrow> reject_reason list + plan_draft) \<Rightarrow> string \<Rightarrow> bool \<Rightarrow> bool \<Rightarrow> int option \<Rightarrow>
   nat \<Rightarrow> nat \<Rightarrow> reject_reason list option \<Rightarrow>
   planner_error + (episode_draft list \<times> nat list \<times> plan_draft)" where
  "request_validated_drafts gen window cover snap max_eps 0 attempt failure =
     Inl (ValidationExhausted (coalesce failure []))"
| "request_validated_drafts gen window cover snap max_eps (Suc left) attempt failure =
     (case gen failure attempt of
        Inl reasons \<Rightarrow> request_validated_drafts gen window cover snap max_eps left (Suc attempt) (Some reasons)
      | Inr draft \<Rightarrow>
          (let drafts = (case max_eps of
                 None \<Rightarrow> pd_episodes draft
               | Some m \<Rightarrow> if m < int (length (pd_episodes draft)) then take (nat m) (pd_episodes draft)
                           else pd_episodes draft) in
           case resolve_boundaries window drafts cover snap of
             Inl reasons \<Rightarrow> request_validated_drafts gen window cover snap max_eps left (Suc attempt) (Some reasons)
           | Inr ends \<Rightarrow> Inr (drafts, ends, draft)))"

definition max_plan_attempts :: nat where
  "max_plan_attempts = 3"

subsection \<open>Reading the project\<close>

definition episode_entries :: "dict \<Rightarrow> json list" where
  "episode_entries project = coalesce (as_list (dict_ref project ''episodes'')) []"

definition setting_int :: "dict \<Rightarrow> string \<Rightarrow> int \<Rightarrow> int" where
  "setting_int project key dflt =
     (case dict_ref project key of JInt v \<Rightarrow> if 1 \<le> v then v else dflt | _ \<Rightarrow> dflt)"

definition language_of :: "dict \<Rightarrow> string option" where
  "language_of project = as_str (dict_ref project ''source_language'')"

definition resolve_source_kind :: "dict \<Rightarrow> string" where
  "resolve_source_kind project =
     (case dict_ref project ''source_kind'' of
        JStr v \<Rightarrow> if v \<in> {''novel'', ''screenplay''} then v else ''novel''
      | _ \<Rightarrow> ''novel'')"

text \<open>The anchored entry with the greatest number (the first of equals).\<close>

fun last_anchored :: "json list \<Rightarrow> (int \<times> string \<times> int) option \<Rightarrow> (int \<times> string \<times> int) option" where
  "last_anchored [] best = best"
| "last_anchored (e # es) best =
     last_anchored es
       (case (entry_num e, e) of
          (Some num, JObj d) \<Rightarrow>
            (case range_end d of
               Some (f, z) \<Rightarrow>
                 (case best of
                    None \<Rightarrow> Some (num, f, z)
                  | Some (bn, bf, bz) \<Rightarrow> if bn < num then Some (num, f, z) else best)
             | None \<Rightarrow> best)
        | _ \<Rightarrow> best)"

definition cursor_of :: "dict \<Rightarrow> (string \<times> int) option" where
  "cursor_of project =
     (case dict_ref project ''planning_cursor'' of
        JObj c \<Rightarrow>
          (case (dict_ref c ''source_file'', dict_ref c ''offset'') of
             (JStr f, JInt off) \<Rightarrow> if 0 \<le> off then Some (f, off) else None
           | _ \<Rightarrow> None)
      | _ \<Rightarrow> None)"

fun index_of :: "'a list \<Rightarrow> 'a \<Rightarrow> nat option" where
  "index_of [] x = None"
| "index_of (y # ys) x = (if y = x then Some 0 else map_option Suc (index_of ys x))"

definition source_rels :: "project_fs \<Rightarrow> string list" where
  "source_rels fs = map sd_path (discover_sources fs)"

definition effective_start :: "project_fs \<Rightarrow> dict \<Rightarrow> planner_error + string \<times> int" where
  "effective_start fs project =
     (case (map_option snd (last_anchored (episode_entries project) None), cursor_of project) of
        (Some lst, Some cur) \<Rightarrow>
          if fst cur = fst lst then Inr (fst lst, max (snd lst) (snd cur))
          else
            (case (index_of (source_rels fs) (fst lst), index_of (source_rels fs) (fst cur)) of
               (None, ci) \<Rightarrow> if ci \<noteq> None then Inr cur else Inr lst
             | (Some li, None) \<Rightarrow> Inr lst
             | (Some li, Some ci) \<Rightarrow> if ci < li then Inr lst else Inr cur)
      | (Some lst, None) \<Rightarrow> Inr lst
      | (None, Some cur) \<Rightarrow> Inr cur
      | (None, None) \<Rightarrow>
          (case source_rels fs of [] \<Rightarrow> Inl NoSources | r # _ \<Rightarrow> Inr (r, 0)))"

definition next_source_rel :: "project_fs \<Rightarrow> string \<Rightarrow> string option" where
  "next_source_rel fs rel =
     (case index_of (source_rels fs) rel of
        None \<Rightarrow> None
      | Some i \<Rightarrow> if i + 1 < length (source_rels fs) then Some (source_rels fs ! (i + 1)) else None)"

definition load_normalized_source :: "project_fs \<Rightarrow> string \<Rightarrow> planner_error + string" where
  "load_normalized_source fs rel =
     (case (if take 7 rel = ''source/'' then map_of (coalesce (fs_source fs) []) (drop 7 rel) else None) of
        Some (Some raw) \<Rightarrow> Inr (normalize_source_text raw)
      | Some None \<Rightarrow> Inl (SourceUnreadable rel)
      | None \<Rightarrow>
          (case fs_other fs rel of
             Some raw \<Rightarrow> Inr (normalize_source_text raw)
           | None \<Rightarrow> Inl (SourceUnreadable rel)))"

text \<open>The last entries with a status, as the context of the next prompt.\<close>

definition context_entries :: "dict \<Rightarrow> int option \<Rightarrow> dict list" where
  "context_entries project before_episode =
     (let anchored_pairs = List.map_filter (\<lambda>e.
            (case (entry_num e, e) of
               (Some num, JObj d) \<Rightarrow>
                 if dict_ref d ''ledger_status'' \<in> {JNull, JStr ''unanchored''} then None
                 else if (case before_episode of None \<Rightarrow> False | Some b \<Rightarrow> b \<le> num) then None
                 else Some (num, d)
             | _ \<Rightarrow> None)) (episode_entries project);
          ordered = sort_key fst anchored_pairs in
      map snd (drop (length ordered - 5) ordered))"

subsection \<open>Writing the ledger and the derived files\<close>

definition ledger_entry_from_draft ::
  "episode_draft \<Rightarrow> int \<Rightarrow> string \<Rightarrow> int \<Rightarrow> int \<Rightarrow> string \<Rightarrow> string option \<Rightarrow> json" where
  "ledger_entry_from_draft ep num source_rel start end_pos stat script_file =
     JObj ([(''episode'', JInt num), (''title'', JStr (ed_title ep)),
            (''script_file'', JStr (case script_file of
                None \<Rightarrow> ''scripts/episode_'' @ show_int num @ ''.json''
              | Some f \<Rightarrow> if f = [] then ''scripts/episode_'' @ show_int num @ ''.json'' else f)),
            (''source_range'', JObj [(''source_file'', JStr source_rel), (''start'', JInt start), (''end'', JInt end_pos)]),
            (''hook'', JStr (ed_hook ep)), (''ledger_status'', JStr stat)] @
           (case ed_outline ep of
              None \<Rightarrow> []
            | Some (beats, teaser) \<Rightarrow>
                [(''outline'', JObj [(''story_beats'', JArr (map JStr beats)),
                    (''next_episode_teaser'', case teaser of None \<Rightarrow> JNull | Some t \<Rightarrow> JStr t)])]))"

datatype range_read = NoRange | BadRange | GoodRange string int int

definition read_range :: "dict \<Rightarrow> range_read" where
  "read_range entry =
     (case dict_ref entry ''source_range'' of
        JObj r \<Rightarrow>
          (case (dict_ref r ''source_file'', dict_ref r ''start'', dict_ref r ''end'') of
             (JStr f, JInt a, JInt b) \<Rightarrow> GoodRange f a b
           | _ \<Rightarrow> BadRange)
      | _ \<Rightarrow> NoRange)"

text \<open>The validation phase: the numbers to keep and the writes, or the first error.\<close>

fun plan_writes ::
  "project_fs \<Rightarrow> (string \<times> string) list \<Rightarrow> json list \<Rightarrow> planner_error + int list \<times> (int \<times> string) list" where
  "plan_writes fs cache [] = Inr ([], [])"
| "plan_writes fs cache (e # es) =
     (case (entry_num e, as_dict e) of
        (Some num, Some d) \<Rightarrow>
          if dict_ref d ''ledger_status'' = JStr ''unanchored'' then
            (case plan_writes fs cache es of
               Inl err \<Rightarrow> Inl err
             | Inr (keep, writes) \<Rightarrow> Inr (num # keep, writes))
          else
            (case read_range d of
               NoRange \<Rightarrow> Inl (RangeMissing num)
             | BadRange \<Rightarrow> Inl (RangeIllegal num)
             | GoodRange f a b \<Rightarrow>
                 (case (case map_of cache f of Some t \<Rightarrow> Inr t | None \<Rightarrow> load_normalized_source fs f) of
                    Inl err \<Rightarrow> Inl err
                  | Inr t \<Rightarrow>
                      if \<not> (0 \<le> a \<and> a \<le> b \<and> b \<le> int (length t)) then Inl (RangeOutside num)
                      else if fs_is_symlink fs (''source/episode_'' @ show_int num @ ''.txt'')
                        then Inl (EpisodeIsSymlink num)
                      else
                        (case plan_writes fs cache es of
                           Inl err \<Rightarrow> Inl err
                         | Inr (keep, writes) \<Rightarrow> Inr (num # keep, (num, py_slice a b t) # writes))))
      | _ \<Rightarrow> plan_writes fs cache es)"

fun put_file :: "string \<Rightarrow> 'a \<Rightarrow> (string \<times> 'a) list \<Rightarrow> (string \<times> 'a) list" where
  "put_file n v [] = [(n, v)]"
| "put_file n v ((m, w) # kvs) = (if m = n then (n, v) # kvs else (m, w) # put_file n v kvs)"

definition episode_file :: "int \<Rightarrow> string" where
  "episode_file num = ''episode_'' @ show_int num @ ''.txt''"

fun write_all :: "(string \<Rightarrow> string) \<Rightarrow> (int \<times> string) list \<Rightarrow> (string \<times> string option) list \<Rightarrow> (string \<times> string option) list" where
  "write_all clean [] kvs = kvs"
| "write_all clean ((num, content) # ws) kvs = write_all clean ws (put_file (episode_file num) (Some (clean content)) kvs)"

text \<open>A file that cannot be deleted is left with a warning.\<close>

definition reconcile_derived_files ::
  "(string \<Rightarrow> string) \<Rightarrow> project_fs \<Rightarrow> (string \<times> string) list \<Rightarrow> dict \<Rightarrow> planner_error + project_fs" where
  "reconcile_derived_files clean fs cache project =
     (if fs_is_symlink fs ''source'' then Inl SourceIsSymlink
      else
        (case plan_writes fs cache (episode_entries project) of
           Inl err \<Rightarrow> Inl err
         | Inr (keep, writes) \<Rightarrow>
             (let written = write_all clean writes (coalesce (fs_source fs) []);
                  fs1 = fs\<lparr>fs_source := Some written\<rparr>;
                  stray = map (fst \<circ> snd) (filter (\<lambda>(num, _). num \<notin> set keep) (discover_episode_files fs1)) in
              Inr (fs\<lparr>fs_source := Some (filter (\<lambda>(n, _). n \<notin> set stray \<and> n \<noteq> ''_remaining.txt'' \<or> fs_undeletable fs n) written)\<rparr>))))"

end
