(* ===== verification/PlannerOps.thy ===== *)
theory PlannerOps
  imports EpisodePlanner
begin

text \<open>
  The calls of the episode planner: planning the next batch (with the screenplay shortcut) and
  replanning from an episode on. Each is a preparation on the state it read and a commit on
  the state it finds under the lock.
\<close>

record episode_summary =
  es_episode :: int
  es_title :: string
  es_hook :: string
  es_units :: nat
  es_status :: string

record plan_result =
  pr_episodes :: "episode_summary list"
  pr_cursor :: json
  pr_exhausted :: bool
  pr_stale :: "int list"
  pr_settings :: dict

definition cursor_json :: "string \<Rightarrow> int \<Rightarrow> json" where
  "cursor_json rel off = JObj [(''source_file'', JStr rel), (''offset'', JInt off)]"

text \<open>\<open>[e for e in episodes if e is not None]\<close> and the next free positive number.\<close>

definition live_entries :: "dict \<Rightarrow> json list" where
  "live_entries p = filter (\<lambda>e. e \<noteq> JNull) (episode_entries p)"

definition next_number :: "json list \<Rightarrow> int" where
  "next_number es = fold max (filter (\<lambda>n. 0 < n) (List.map_filter entry_num es)) 0 + 1"

subsection \<open>Planning the next batch\<close>

record plan_job =
  pj_start_ref :: "string \<times> int"
  pj_source :: string
  pj_start :: int
  pj_text :: string
  pj_window_final :: bool
  pj_drafts :: "episode_draft list"
  pj_ends :: "nat list"

text \<open>Moving past blank remainders: the sources after \<open>rel\<close> in name order.\<close>

fun seek_source ::
  "project_fs \<Rightarrow> string list \<Rightarrow> string \<Rightarrow> int \<Rightarrow> string \<Rightarrow> planner_error + (string \<times> int \<times> string) option" where
  "seek_source fs later_rels rel start hay =
     (if strip (py_from start hay) \<noteq> [] then Inr (Some (rel, start, hay))
      else
        (case later_rels of
           [] \<Rightarrow> Inr None
         | r # rs \<Rightarrow>
             (case load_normalized_source fs r of
                Inl err \<Rightarrow> Inl err
              | Inr t \<Rightarrow> seek_source fs rs r 0 t)))"

declare seek_source.simps [simp del]

definition rels_after :: "project_fs \<Rightarrow> string \<Rightarrow> string list" where
  "rels_after fs rel = (case index_of (source_rels fs) rel of None \<Rightarrow> [] | Some i \<Rightarrow> drop (i + 1) (source_rels fs))"

datatype 'a prepared = Exhausted json | Prepared 'a

definition plan_prepare ::
  "(reject_reason list option \<Rightarrow> nat \<Rightarrow> reject_reason list + plan_draft) \<Rightarrow> project_fs \<Rightarrow> dict \<Rightarrow>
   planner_error + plan_job prepared" where
  "plan_prepare gen fs project =
     (case effective_start fs project of
        Inl err \<Rightarrow> Inl err
      | Inr (rel0, start0) \<Rightarrow>
          (case load_normalized_source fs rel0 of
             Inl err \<Rightarrow> Inl err
           | Inr text0 \<Rightarrow>
               if int (length text0) < start0 then Inl StartOutOfRange
               else
                 (case seek_source fs (rels_after fs rel0) rel0 start0 text0 of
                    Inl err \<Rightarrow> Inl err
                  | Inr None \<Rightarrow> Inr (Exhausted (dict_ref project ''planning_cursor''))
                  | Inr (Some (rel, start, hay)) \<Rightarrow>
                      (let window_chars = setting_int project ''planning_window_chars'' 30000;
                           max_episodes = setting_int project ''planning_max_episodes'' 20;
                           window = py_slice start (start + window_chars) hay;
                           final = int (length hay) \<le> start + window_chars in
                       case request_validated_drafts gen window False final (Some max_episodes)
                              max_plan_attempts 1 None of
                         Inl err \<Rightarrow> Inl err
                       | Inr (drafts, ends, _) \<Rightarrow>
                           Inr (Prepared
                             \<lparr>pj_start_ref = (rel0, start0), pj_source = rel, pj_start = start, pj_text = hay,
                              pj_window_final = final, pj_drafts = drafts, pj_ends = ends\<rparr>)))))"

text \<open>The new entries with their ranges: each starts where the one before ends.\<close>

fun new_ranges :: "int \<Rightarrow> int \<Rightarrow> nat list \<Rightarrow> (int \<times> int) list" where
  "new_ranges start prev [] = []"
| "new_ranges start prev (e # es) = (prev, start + int e) # new_ranges start (start + int e) es"

fun planned_entries ::
  "string \<Rightarrow> int \<Rightarrow> (episode_draft \<times> int \<times> int) list \<Rightarrow> json list" where
  "planned_entries rel num [] = []"
| "planned_entries rel num ((ep, a, b) # rest) =
     ledger_entry_from_draft ep num rel a b ''planned'' None # planned_entries rel (num + 1) rest"

fun planned_summaries ::
  "(string \<Rightarrow> string option \<Rightarrow> nat) \<Rightarrow> string option \<Rightarrow> string \<Rightarrow> int \<Rightarrow> (episode_draft \<times> int \<times> int) list \<Rightarrow> episode_summary list" where
  "planned_summaries units lang hay num [] = []"
| "planned_summaries units lang hay num ((ep, a, b) # rest) =
     \<lparr>es_episode = num, es_title = ed_title ep, es_hook = ed_hook ep,
      es_units = units (py_slice a b hay) lang, es_status = ''planned''\<rparr>
     # planned_summaries units lang hay (num + 1) rest"

definition plan_commit ::
  "(string \<Rightarrow> string option \<Rightarrow> nat) \<Rightarrow> (string \<Rightarrow> string) \<Rightarrow> string option \<Rightarrow> plan_job \<Rightarrow> project_fs \<Rightarrow> dict \<Rightarrow>
   planner_error + plan_result \<times> dict \<times> project_fs" where
  "plan_commit units clean lang job fs stored =
     (let p = backfill_episode_ledger fs stored in
      case effective_start fs p of
        Inl err \<Rightarrow> Inl err
      | Inr now_start \<Rightarrow>
          if now_start \<noteq> pj_start_ref job then Inl PlanningConflict
          else
            (let es = live_entries p; num = next_number es;
                 items = zip (pj_drafts job) (new_ranges (pj_start job) (pj_start job) (pj_ends job));
                 stop = pj_start job + int (last (pj_ends job));
                 p1 = dict_put p ''episodes''
                        (JArr (sort_episodes_if_possible (es @ planned_entries (pj_source job) num items)));
                 p2 = dict_put p1 ''planning_cursor'' (cursor_json (pj_source job) stop) in
             case reconcile_derived_files clean fs [(pj_source job, pj_text job)] p2 of
               Inl err \<Rightarrow> Inl err
             | Inr fs' \<Rightarrow>
                 Inr (\<lparr>pr_episodes = planned_summaries units lang (pj_text job) num items,
                       pr_cursor = cursor_json (pj_source job) stop,
                       pr_exhausted = (pj_window_final job \<and> strip (py_from stop (pj_text job)) = [] \<and>
                                       next_source_rel fs' (pj_source job) = None),
                       pr_stale = [], pr_settings = []\<rparr>, p2, fs')))"

subsection \<open>The screenplay shortcut\<close>

text \<open>
  A match of the title pattern at the head of the rest of the text, with its length: the head
  is at a line start or is itself a line feed, then blanks, a numbered title, and one blank or
  the end. Of the pattern's alternatives these are the two over ASCII.
\<close>

definition title_length :: "string \<Rightarrow> nat option" where
  "title_length rest =
     (let numbered = (\<lambda>body.
            let digits = takeWhile is_digit body; after = dropWhile is_digit body in
            if digits = [] then None
            else (case after of [] \<Rightarrow> Some (length digits)
                  | c # _ \<Rightarrow> if is_space c then Some (Suc (length digits)) else None)) in
      if take 2 rest = ''EP'' then
        (let body = dropWhile is_space (drop 2 rest) in
         map_option (\<lambda>n. n + (length rest - length body)) (numbered body))
      else if take 7 rest = ''Episode'' \<and> drop 7 rest \<noteq> [] \<and> is_space (hd (drop 7 rest)) then
        (let body = dropWhile is_space (drop 7 rest) in
         map_option (\<lambda>n. n + (length rest - length body)) (numbered body))
      else None)"

definition match_title :: "bool \<Rightarrow> string \<Rightarrow> nat option" where
  "match_title at_line_start rest =
     (if at_line_start \<or> take 1 rest = [CHR 0x0A] then
        (let body = dropWhile is_space rest in
         map_option (\<lambda>n. n + (length rest - length body)) (title_length body))
      else None)"

fun title_scan :: "nat \<Rightarrow> bool \<Rightarrow> nat \<Rightarrow> string \<Rightarrow> (nat \<times> nat) list" where
  "title_scan i at_line_start skip [] = []"
| "title_scan i at_line_start skip (c # cs) =
     (case (if skip = 0 then match_title at_line_start (c # cs) else None) of
        Some n \<Rightarrow> (i, i + n) # title_scan (Suc i) (c = CHR 0x0A) (n - 1) cs
      | None \<Rightarrow> title_scan (Suc i) (c = CHR 0x0A) (skip - 1) cs)"

definition title_markers :: "string \<Rightarrow> (nat \<times> nat \<times> string) list" where
  "title_markers hay =
     map (\<lambda>(a, b). (a, b, strip (take (b - a) (drop a hay)))) (title_scan 0 True 0 hay)"

text \<open>The hook of an episode; the ellipsis character is written as three dots.\<close>

definition screenplay_hook :: "string \<Rightarrow> string" where
  "screenplay_hook body =
     (let flat = map (\<lambda>c. if c = CHR 0x0A then CHR '' '' else c) in
      if 40 < length body then ''...'' @ flat (strip (drop (length body - 40) body))
      else take 60 (flat body))"

fun screenplay_segments :: "string \<Rightarrow> (nat \<times> nat \<times> string) list \<Rightarrow> (string \<times> string \<times> nat \<times> nat) list" where
  "screenplay_segments hay [] = []"
| "screenplay_segments hay ((a, b, title) # ms) =
     (let body_end = (case ms of [] \<Rightarrow> length hay | (a', _, _) # _ \<Rightarrow> a');
          body = strip (take (body_end - b) (drop b hay)) in
      (title, screenplay_hook body, a, body_end) # screenplay_segments hay ms)"

fun screenplay_entries :: "string \<Rightarrow> int \<Rightarrow> int \<Rightarrow> (string \<times> string \<times> nat \<times> nat) list \<Rightarrow> json list" where
  "screenplay_entries rel start num [] = []"
| "screenplay_entries rel start num ((title, hook, a, b) # segs) =
     JObj [(''episode'', JInt num), (''title'', JStr title), (''hook'', JStr hook),
           (''source_range'', JObj [(''source_file'', JStr rel), (''start'', JInt (start + int a)),
                                    (''end'', JInt (start + int b))]),
           (''ledger_status'', JStr ''planned'')] # screenplay_entries rel start (num + 1) segs"

fun screenplay_summaries ::
  "(string \<Rightarrow> string option \<Rightarrow> nat) \<Rightarrow> string option \<Rightarrow> string \<Rightarrow> int \<Rightarrow> (string \<times> string \<times> nat \<times> nat) list \<Rightarrow> episode_summary list" where
  "screenplay_summaries units lang hay num [] = []"
| "screenplay_summaries units lang hay num ((title, hook, a, b) # segs) =
     \<lparr>es_episode = num, es_title = title, es_hook = hook,
      es_units = units (take (b - a) (drop a hay)) lang, es_status = ''planned''\<rparr>
     # screenplay_summaries units lang hay (num + 1) segs"

text \<open>\<open>Inr None\<close>: no clear markers, the caller goes on with the text model.\<close>

definition try_screenplay_split ::
  "(string \<Rightarrow> string option \<Rightarrow> nat) \<Rightarrow> (string \<Rightarrow> string) \<Rightarrow> project_fs \<Rightarrow> dict \<Rightarrow> project_fs \<Rightarrow> dict \<Rightarrow>
   planner_error + (plan_result \<times> dict \<times> project_fs) option" where
  "try_screenplay_split units clean fs0 project fs stored =
     (case effective_start fs0 project of
        Inl err \<Rightarrow> Inl err
      | Inr (rel, start) \<Rightarrow>
          (case load_normalized_source fs0 rel of
             Inl err \<Rightarrow> Inl err
           | Inr whole \<Rightarrow>
               if int (length whole) \<le> start then Inr None
               else
                 (let hay = py_from start whole; markers = title_markers hay in
                  if length markers < 2 then Inr None
                  else
                    (let p = backfill_episode_ledger fs stored; es = live_entries p; num = next_number es;
                         segs = screenplay_segments hay markers;
                         p1 = dict_put p ''episodes''
                                (JArr (sort_episodes_if_possible (es @ screenplay_entries rel start num segs)));
                         cur = cursor_json rel (start + int (length hay));
                         p2 = dict_put p1 ''planning_cursor'' cur in
                     case reconcile_derived_files clean fs [(rel, hay)] p2 of
                       Inl err \<Rightarrow> Inl err
                     | Inr fs' \<Rightarrow>
                         Inr (Some (\<lparr>pr_episodes = screenplay_summaries units (language_of project) hay num segs,
                                     pr_cursor = cur, pr_exhausted = True, pr_stale = [], pr_settings = []\<rparr>,
                                    p2, fs'))))))"

text \<open>
  The whole call: what it read first (\<open>fs0\<close>, \<open>stored0\<close>) and what the commit finds.
\<close>

definition plan_episodes ::
  "(reject_reason list option \<Rightarrow> nat \<Rightarrow> reject_reason list + plan_draft) \<Rightarrow>
   (string \<Rightarrow> string option \<Rightarrow> nat) \<Rightarrow> (string \<Rightarrow> string) \<Rightarrow> project_fs \<Rightarrow> dict \<Rightarrow> project_fs \<Rightarrow> dict \<Rightarrow>
   planner_error + plan_result \<times> dict \<times> project_fs" where
  "plan_episodes gen units clean fs0 stored0 fs stored =
     (let project = backfill_episode_ledger fs0 stored0;
          by_model =
            (case plan_prepare gen fs0 project of
               Inl err \<Rightarrow> Inl err
             | Inr (Exhausted cur) \<Rightarrow>
                 Inr (\<lparr>pr_episodes = [], pr_cursor = cur, pr_exhausted = True, pr_stale = [], pr_settings = []\<rparr>,
                      stored, fs)
             | Inr (Prepared job) \<Rightarrow> plan_commit units clean (language_of project) job fs stored) in
      if resolve_source_kind project = ''screenplay'' then
        (case try_screenplay_split units clean fs0 project fs stored of
           Inl err \<Rightarrow> Inl err
         | Inr (Some res) \<Rightarrow> Inr res
         | Inr None \<Rightarrow> by_model)
      else by_model)"

end
