(* ===== verification/Replan.thy ===== *)
theory Replan
  imports PlannerOps
begin

text \<open>
  Replanning (\<open>EpisodePlanner.replan\<close>): the scope of a replan as closed slices of the source
  files, the drafts per slice, and the commit that replaces the affected entries.
\<close>

record replan_slice =
  rs_file :: string
  rs_start :: int
  rs_end :: int

record replan_scope =
  sc_slices :: "replan_slice list"
  sc_affected :: "(int \<times> dict) list"

definition affected_entry :: "int \<Rightarrow> json \<Rightarrow> (int \<times> dict) option" where
  "affected_entry from_episode e =
     (case (entry_num e, e) of
        (Some num, JObj d) \<Rightarrow> if num < from_episode then None else Some (num, d)
      | _ \<Rightarrow> None)"

definition affected_entries :: "dict \<Rightarrow> int \<Rightarrow> (int \<times> dict) list" where
  "affected_entries project from_episode =
     sort_key fst (List.map_filter (affected_entry from_episode) (episode_entries project))"

text \<open>The slices built so far, latest first, and the files seen.\<close>

fun slice_loop :: "(int \<times> dict) list \<Rightarrow> replan_slice list \<Rightarrow> string list \<Rightarrow> planner_error + replan_slice list" where
  "slice_loop [] acc seen = Inr (rev acc)"
| "slice_loop ((num, entry) # rest) acc seen =
     (case read_range entry of
        NoRange \<Rightarrow> Inl (RangeMissing num)
      | BadRange \<Rightarrow> Inl (RangeIllegal num)
      | GoodRange f a b \<Rightarrow>
          if b \<le> a then Inl (RangeEmpty num)
          else
            (case acc of
               sl # sls \<Rightarrow>
                 if rs_file sl = f then
                   (if a \<noteq> rs_end sl then Inl (RangeDiscontinuous num)
                    else slice_loop rest (sl\<lparr>rs_end := b\<rparr> # sls) seen)
                 else if f \<in> set seen then Inl (FileNotContiguous num)
                 else slice_loop rest (\<lparr>rs_file = f, rs_start = a, rs_end = b\<rparr> # acc) (f # seen)
             | [] \<Rightarrow>
                 if f \<in> set seen then Inl (FileNotContiguous num)
                 else slice_loop rest [\<lparr>rs_file = f, rs_start = a, rs_end = b\<rparr>] (f # seen)))"

definition find_scope :: "dict \<Rightarrow> int \<Rightarrow> planner_error + replan_scope" where
  "find_scope project from_episode =
     (let affected = affected_entries project from_episode;
          locked = map fst (filter (\<lambda>(_, d). dict_ref d ''ledger_status'' = JStr ''unanchored'') affected) in
      if affected = [] \<or> fst (hd affected) \<noteq> from_episode then Inl (NotInLedger from_episode)
      else if locked \<noteq> [] then Inl (UnanchoredInScope locked)
      else
        (case slice_loop affected [] [] of
           Inl err \<Rightarrow> Inl err
         | Inr slices \<Rightarrow> Inr \<lparr>sc_slices = slices, sc_affected = affected\<rparr>))"

definition consumed_nums :: "(int \<times> dict) list \<Rightarrow> int list" where
  "consumed_nums affected = map fst (filter (\<lambda>(_, d). dict_ref d ''ledger_status'' = JStr ''consumed'') affected)"

record planned_episode =
  pe_draft :: episode_draft
  pe_file :: string
  pe_start :: int
  pe_end :: int

text \<open>The texts of the slices, loaded once per file, with the check of the bounds.\<close>

fun load_slices ::
  "project_fs \<Rightarrow> replan_slice list \<Rightarrow> (string \<times> string) list \<Rightarrow> planner_error + (string \<times> string) list" where
  "load_slices fs [] texts = Inr texts"
| "load_slices fs (sl # sls) texts =
     (case (case map_of texts (rs_file sl) of
              Some t \<Rightarrow> Inr (t, texts)
            | None \<Rightarrow>
                (case load_normalized_source fs (rs_file sl) of
                   Inl err \<Rightarrow> Inl err
                 | Inr t \<Rightarrow> Inr (t, (rs_file sl, t) # texts))) of
        Inl err \<Rightarrow> Inl err
      | Inr (t, texts') \<Rightarrow>
          if \<not> (0 \<le> rs_start sl \<and> rs_start sl < rs_end sl \<and> rs_end sl \<le> int (length t)) then Inl SliceInvalid
          else load_slices fs sls texts')"

fun slice_episodes :: "string \<Rightarrow> int \<Rightarrow> int \<Rightarrow> (episode_draft \<times> nat) list \<Rightarrow> planned_episode list" where
  "slice_episodes f start prev [] = []"
| "slice_episodes f start prev ((ep, e) # rest) =
     \<lparr>pe_draft = ep, pe_file = f, pe_start = prev, pe_end = start + int e\<rparr>
     # slice_episodes f start (start + int e) rest"

text \<open>
  One request per slice; the text model sees the slice, its position and the episodes planned
  so far. The target the model reports last is kept.
\<close>

fun replan_slices ::
  "(nat \<Rightarrow> planned_episode list \<Rightarrow> reject_reason list option \<Rightarrow> nat \<Rightarrow> reject_reason list + plan_draft) \<Rightarrow>
   (string \<times> string) list \<Rightarrow> nat \<Rightarrow> replan_slice list \<Rightarrow> planned_episode list \<Rightarrow> int option \<Rightarrow>
   planner_error + planned_episode list \<times> int option" where
  "replan_slices gen texts idx [] planned target = Inr (planned, target)"
| "replan_slices gen texts idx (sl # sls) planned target =
     (let window = py_slice (rs_start sl) (rs_end sl) (coalesce (map_of texts (rs_file sl)) []) in
      case request_validated_drafts (gen idx planned) window True False None max_plan_attempts 1 None of
        Inl err \<Rightarrow> Inl err
      | Inr (drafts, ends, draft) \<Rightarrow>
          replan_slices gen texts (Suc idx) sls
            (planned @ slice_episodes (rs_file sl) (rs_start sl) (rs_start sl) (zip drafts ends))
            (case pd_target_units draft of None \<Rightarrow> target | Some u \<Rightarrow> Some u))"

record replan_job =
  rj_from :: int
  rj_scope :: replan_scope
  rj_consumed :: "int list"
  rj_planned :: "planned_episode list"
  rj_units :: "int option"
  rj_texts :: "(string \<times> string) list"

datatype replan_prepared = NeedsConfirmation "int list" | ReplanReady replan_job

definition replan_prepare ::
  "(nat \<Rightarrow> planned_episode list \<Rightarrow> reject_reason list option \<Rightarrow> nat \<Rightarrow> reject_reason list + plan_draft) \<Rightarrow>
   project_fs \<Rightarrow> dict \<Rightarrow> int \<Rightarrow> bool \<Rightarrow> planner_error + replan_prepared" where
  "replan_prepare gen fs project from_episode confirm_consumed =
     (case find_scope project from_episode of
        Inl err \<Rightarrow> Inl err
      | Inr scope \<Rightarrow>
          (let consumed = consumed_nums (sc_affected scope) in
           if consumed \<noteq> [] \<and> \<not> confirm_consumed then Inr (NeedsConfirmation consumed)
           else
             (case load_slices fs (sc_slices scope) [] of
                Inl err \<Rightarrow> Inl err
              | Inr texts \<Rightarrow>
                  (case replan_slices gen texts 0 (sc_slices scope) [] None of
                     Inl err \<Rightarrow> Inl err
                   | Inr (planned, target) \<Rightarrow>
                       Inr (ReplanReady
                         \<lparr>rj_from = from_episode, rj_scope = scope, rj_consumed = consumed,
                          rj_planned = planned, rj_units = target, rj_texts = texts\<rparr>)))))"

text \<open>The dictionaries \<open>{num: ...}\<close> over the affected entries keep the last value of a number.\<close>

definition old_entry :: "(int \<times> dict) list \<Rightarrow> int \<Rightarrow> dict option" where
  "old_entry affected num = map_of (rev affected) num"

definition new_status :: "(int \<times> dict) list \<Rightarrow> int \<Rightarrow> string" where
  "new_status affected num =
     (case old_entry affected num of
        Some d \<Rightarrow> if dict_ref d ''ledger_status'' \<in> {JStr ''consumed'', JStr ''stale''} then ''stale'' else ''planned''
      | None \<Rightarrow> ''planned'')"

definition old_script_file :: "(int \<times> dict) list \<Rightarrow> int \<Rightarrow> string option" where
  "old_script_file affected num =
     (case old_entry affected num of Some d \<Rightarrow> as_str (dict_ref d ''script_file'') | None \<Rightarrow> None)"

fun replanned_entries :: "(int \<times> dict) list \<Rightarrow> int \<Rightarrow> planned_episode list \<Rightarrow> json list" where
  "replanned_entries affected num [] = []"
| "replanned_entries affected num (ep # eps) =
     ledger_entry_from_draft (pe_draft ep) num (pe_file ep) (pe_start ep) (pe_end ep)
       (new_status affected num) (old_script_file affected num)
     # replanned_entries affected (num + 1) eps"

fun replanned_summaries ::
  "(string \<Rightarrow> string option \<Rightarrow> nat) \<Rightarrow> string option \<Rightarrow> (string \<times> string) list \<Rightarrow> (int \<times> dict) list \<Rightarrow> int \<Rightarrow>
   planned_episode list \<Rightarrow> episode_summary list" where
  "replanned_summaries units lang texts affected num [] = []"
| "replanned_summaries units lang texts affected num (ep # eps) =
     \<lparr>es_episode = num, es_title = ed_title (pe_draft ep), es_hook = ed_hook (pe_draft ep),
      es_units = units (py_slice (pe_start ep) (pe_end ep) (coalesce (map_of texts (pe_file ep)) [])) lang,
      es_status = new_status affected num\<rparr>
     # replanned_summaries units lang texts affected (num + 1) eps"

definition replan_commit ::
  "(string \<Rightarrow> string option \<Rightarrow> nat) \<Rightarrow> (string \<Rightarrow> string) \<Rightarrow> string option \<Rightarrow> replan_job \<Rightarrow> project_fs \<Rightarrow> dict \<Rightarrow>
   planner_error + plan_result \<times> dict \<times> project_fs" where
  "replan_commit units clean lang job fs stored =
     (let p = backfill_episode_ledger fs stored in
      case find_scope p (rj_from job) of
        Inl err \<Rightarrow> Inl PlanningConflict
      | Inr current \<Rightarrow>
          (let affected = sc_affected current;
               ranges = map (\<lambda>(n, d). (n, dict_ref d ''source_range'')) in
           if ranges affected \<noteq> ranges (sc_affected (rj_scope job)) then Inl PlanningConflict
           else if \<not> set (consumed_nums affected) \<subseteq> set (rj_consumed job) then Inl PlanningConflict
           else
             (let kept = filter (\<lambda>e. case entry_num e of None \<Rightarrow> True | Some n \<Rightarrow> n \<notin> fst ` set affected)
                           (episode_entries p);
                  p1 = dict_put p ''episodes''
                         (JArr (sort_episodes_if_possible
                           (kept @ replanned_entries affected (rj_from job) (rj_planned job))));
                  p2 = (case rj_units job of None \<Rightarrow> p1 | Some u \<Rightarrow> dict_put p1 ''episode_target_units'' (JInt u));
                  nums = map (\<lambda>i. rj_from job + int i) [0..<length (rj_planned job)] in
              case reconcile_derived_files clean fs (rj_texts job) p2 of
                Inl err \<Rightarrow> Inl err
              | Inr fs' \<Rightarrow>
                  Inr (\<lparr>pr_episodes = replanned_summaries units lang (rj_texts job) affected (rj_from job) (rj_planned job),
                        pr_cursor = dict_ref p2 ''planning_cursor'', pr_exhausted = False,
                        pr_stale = filter (\<lambda>n. new_status affected n = ''stale'') nums,
                        pr_settings = (case rj_units job of None \<Rightarrow> [] | Some u \<Rightarrow> [(''episode_target_units'', JInt u)])\<rparr>,
                       p2, fs'))))"

datatype replan_outcome = ConfirmationRequired "int list" | Replanned plan_result dict project_fs

definition replan ::
  "(nat \<Rightarrow> planned_episode list \<Rightarrow> reject_reason list option \<Rightarrow> nat \<Rightarrow> reject_reason list + plan_draft) \<Rightarrow>
   (string \<Rightarrow> string option \<Rightarrow> nat) \<Rightarrow> (string \<Rightarrow> string) \<Rightarrow> project_fs \<Rightarrow> dict \<Rightarrow> project_fs \<Rightarrow> dict \<Rightarrow> int \<Rightarrow> bool \<Rightarrow>
   planner_error + replan_outcome" where
  "replan gen units clean fs0 stored0 fs stored from_episode confirm_consumed =
     (let project = backfill_episode_ledger fs0 stored0 in
      case replan_prepare gen fs0 project from_episode confirm_consumed of
        Inl err \<Rightarrow> Inl err
      | Inr (NeedsConfirmation nums) \<Rightarrow> Inr (ConfirmationRequired nums)
      | Inr (ReplanReady job) \<Rightarrow>
          (case replan_commit units clean (language_of project) job fs stored of
             Inl err \<Rightarrow> Inl err
           | Inr (res, p, fs') \<Rightarrow> Inr (Replanned res p fs')))"

end
