(* ===== verification/PlannerProps.thy ===== *)
theory PlannerProps
  imports LedgerProps Replan
begin

text \<open>
  Correctness of the planner: anchors and boundaries, the tiling of the planned text, the
  progress of the cursor, the derived files, and the scope of a replan.
\<close>

subsection \<open>Occurrences\<close>

definition occurs_at :: "string \<Rightarrow> string \<Rightarrow> nat \<Rightarrow> bool" where
  "occurs_at needle hay j = (j \<le> length hay \<and> take (length needle) (drop j hay) = needle)"

lemma find_all_set: "set (find_all needle hay k) = {j. k \<le> j \<and> occurs_at needle hay j}"
proof (induction needle hay k rule: find_all.induct)
  case (1 needle hay k)
  show ?case
  proof (cases "str_find hay needle k")
    case None
    then show ?thesis using str_find_None [OF None] by (auto simp: find_all.simps [of needle hay k] occurs_at_def)
  next
    case (Some i)
    note i = str_find_Some [OF Some]
    have least: "i \<le> j" if "k \<le> j" "occurs_at needle hay j" for j
    proof (rule ccontr)
      assume "\<not> i \<le> j"
      then show False using that str_find_least [OF Some, of j] by (simp add: occurs_at_def)
    qed
    have "set (find_all needle hay k) = insert i {j. Suc i \<le> j \<and> occurs_at needle hay j}"
      using 1 [OF Some] Some by (simp add: find_all.simps [of needle hay k])
    also have "\<dots> = {j. k \<le> j \<and> occurs_at needle hay j}"
      using i least by (auto simp: occurs_at_def) (metis le_antisym not_less_eq_eq)
    finally show ?thesis .
  qed
qed

text \<open>The anchor ends at \<open>e\<close>, and occurs nowhere else.\<close>

definition ends_at :: "string \<Rightarrow> string \<Rightarrow> nat \<Rightarrow> bool" where
  "ends_at window anchor e =
     (length anchor \<le> e \<and> e \<le> length window \<and>
      (\<forall>j. occurs_at anchor window j \<longleftrightarrow> j = e - length anchor))"

lemma ends_at_unique:
  assumes "find_all anchor window 0 \<noteq> []" and "\<not> 1 < length (find_all anchor window 0)"
  shows "ends_at window anchor (hd (find_all anchor window 0) + length anchor)"
proof -
  obtain i where i: "find_all anchor window 0 = [i]"
    using assms by (cases "find_all anchor window 0"; cases "tl (find_all anchor window 0)") auto
  have only: "occurs_at anchor window j \<longleftrightarrow> j = i" for j
    using find_all_set [of anchor window 0] i by auto
  then have "occurs_at anchor window i" by simp
  then have "length anchor \<le> length (drop i window)" "i \<le> length window"
    by (metis length_take min.cobounded1 occurs_at_def, simp add: occurs_at_def)
  with only i show ?thesis by (simp add: ends_at_def)
qed

subsection \<open>Boundaries\<close>

lemma boundary_loop_reasons:
  "reasons \<noteq> [] \<Longrightarrow> fst (boundary_loop window idx drafts reasons ends pos valid) \<noteq> []"
  by (induction window idx drafts reasons ends pos valid rule: boundary_loop.induct) (auto simp: Let_def)

lemma boundary_loop_sound:
  assumes "boundary_loop window idx drafts [] ends pos True = ([], ends')"
  shows "\<exists>new. ends' = rev ends @ new \<and> sorted_wrt (<) (pos # new) \<and>
     list_all2 (\<lambda>ep e. ends_at window (ed_end_anchor ep) e) drafts new"
  using assms
proof (induction drafts arbitrary: idx ends pos)
  case (Cons ep eps)
  let ?starts = "find_all (ed_end_anchor ep) window 0"
  let ?e = "hd ?starts + length (ed_end_anchor ep)"
  have no: "boundary_loop window i eps (x # xs) en p v \<noteq> ([], ends')" for i x xs en p v
    using boundary_loop_reasons [of "x # xs" window i eps en p v] by auto
  from Cons.prems no have c: "?starts \<noteq> []" "\<not> 1 < length ?starts" "pos < ?e"
      "boundary_loop window (Suc idx) eps [] (?e # ends) ?e True = ([], ends')"
    by (auto simp: Let_def split: if_splits)
  from Cons.IH [OF c(4)] obtain new where new: "ends' = rev (?e # ends) @ new" "sorted_wrt (<) (?e # new)"
      "list_all2 (\<lambda>ep e. ends_at window (ed_end_anchor ep) e) eps new" by blast
  have "ends' = rev ends @ ?e # new" using new(1) by simp
  moreover have "sorted_wrt (<) (pos # ?e # new)" using new(2) c(3) by auto
  moreover have "list_all2 (\<lambda>ep e. ends_at window (ed_end_anchor ep) e) (ep # eps) (?e # new)"
    using new(3) ends_at_unique [OF c(1,2)] by simp
  ultimately show ?case by blast
qed simp

lemma resolve_boundaries_sound:
  assumes "resolve_boundaries window drafts cover snap = Inr ends"
  shows "\<exists>marks. list_all2 (\<lambda>ep e. ends_at window (ed_end_anchor ep) e) drafts marks \<and> marks \<noteq> [] \<and>
     length ends = length drafts \<and> sorted_wrt (<) (0 # ends) \<and> last ends \<le> length window \<and>
     butlast ends = butlast marks \<and>
     (last ends = last marks \<or> last ends = length window \<and> strip (drop (last marks) window) = []) \<and>
     (cover \<longrightarrow> last ends = length window)"
proof -
  obtain marks where m: "boundary_loop window 1 drafts [] [] 0 True = ([], marks)" "marks \<noteq> []"
    using assms by (auto simp: resolve_boundaries_def split: prod.splits if_splits)
  from boundary_loop_sound [OF m(1)] have s: "sorted_wrt (<) (0 # marks)"
    and a: "list_all2 (\<lambda>ep e. ends_at window (ed_end_anchor ep) e) drafts marks" by auto
  have len: "length marks = length drafts" using a by (simp add: list_all2_lengthD)
  from a m(2) have le: "last marks \<le> length window"
    by (metis (no_types, lifting) ends_at_def last_conv_nth length_0_conv len diff_less length_greater_0_conv list_all2_nthD2 zero_less_one)
  let ?snap = "(cover \<or> snap) \<and> last marks < length window \<and> strip (drop (last marks) window) = []"
  have ends: "ends = (if ?snap then butlast marks @ [length window] else marks)" "cover \<longrightarrow> \<not> last ends < length window"
    using assms m by (auto simp: resolve_boundaries_def Let_def split: if_splits)
  have split: "marks = butlast marks @ [last marks]" using m(2) by simp
  have sm: "sorted_wrt (<) (0 # butlast marks @ [last marks])" using s split by simp
  show ?thesis
  proof (cases ?snap)
    case True
    then have e: "ends = butlast marks @ [length window]" using ends by simp
    have "sorted_wrt (<) (0 # butlast marks @ [length window])"
      using sm True by (auto simp: sorted_wrt_append)
    moreover have "length ends = length drafts"
      unfolding e using m(2) len by (cases marks) auto
    moreover have "last ends = length window" "butlast ends = butlast marks" "ends \<noteq> []" unfolding e by simp_all
    ultimately show ?thesis using True e m(2) a by (intro exI [of _ marks]) (simp only: e, simp)
  next
    case False
    have "ends = marks" unfolding ends(1) using False by (rule if_not_P)
    with s a len le m(2) ends(2) show ?thesis by (intro exI [of _ marks]) auto
  qed
qed

lemma request_sound:
  "request_validated_drafts gen window cover snap max_eps left attempt failure = Inr (drafts, ends, d) \<Longrightarrow>
     resolve_boundaries window drafts cover snap = Inr ends"
  by (induction gen window cover snap max_eps left attempt failure rule: request_validated_drafts.induct)
     (auto simp: Let_def split: sum.splits option.splits if_splits)

subsection \<open>Slices of the text\<close>

lemma py_slice_eq:
  "0 \<le> a \<Longrightarrow> a \<le> b \<Longrightarrow> b \<le> int (length xs) \<Longrightarrow> py_slice a b xs = take (nat b - nat a) (drop (nat a) xs)"
  by (simp add: py_slice_def slice_index_def)

lemma py_slice_append:
  assumes "0 \<le> a" "a \<le> b" "b \<le> c" "c \<le> int (length xs)"
  shows "py_slice a b xs @ py_slice b c xs = py_slice a c xs"
proof -
  have d: "drop (nat b - nat a) (drop (nat a) xs) = drop (nat b) xs" using assms by simp
  have "py_slice a c xs = take ((nat b - nat a) + (nat c - nat b)) (drop (nat a) xs)"
    using assms by (simp add: py_slice_eq)
  also have "\<dots> = take (nat b - nat a) (drop (nat a) xs) @ take (nat c - nat b) (drop (nat b) xs)"
    by (simp only: take_add d)
  finally show ?thesis using assms by (simp add: py_slice_eq)
qed

lemma py_slice_length: "0 \<le> a \<Longrightarrow> int (length (py_slice a b xs)) + a \<le> max a (int (length xs))"
  by (auto simp: py_slice_def slice_index_def)

lemma new_ranges_length [simp]: "length (new_ranges start prev ends) = length ends"
  by (induction start prev ends rule: new_ranges.induct) simp_all

lemma new_ranges_tile:
  assumes "sorted_wrt (<) (p # ends)" and "0 \<le> start" and "start + int (last (p # ends)) \<le> int (length hay)"
  shows "concat (map (\<lambda>(a, b). py_slice a b hay) (new_ranges start (start + int p) ends)) =
       py_slice (start + int p) (start + int (last (p # ends))) hay"
    and "list_all (\<lambda>(a, b). a < b) (new_ranges start (start + int p) ends)"
  using assms
proof (induction ends arbitrary: p)
  case Nil
  { case 1 then show ?case by (simp add: py_slice_def) }
  { case 2 then show ?case by simp }
next
  case (Cons e es)
  have le: "e \<le> last (e # es)" if "sorted_wrt (<) (p # e # es)" for p :: nat
    using that by (cases es rule: rev_cases) auto
  {
    case 1
    then have "concat (map (\<lambda>(a, b). py_slice a b hay) (new_ranges start (start + int e) es)) =
        py_slice (start + int e) (start + int (last (e # es))) hay"
      using Cons.IH(1) [of e] by simp
    then have "concat (map (\<lambda>(a, b). py_slice a b hay) (new_ranges start (start + int p) (e # es))) =
        py_slice (start + int p) (start + int e) hay @ py_slice (start + int e) (start + int (last (e # es))) hay"
      by (simp only: new_ranges.simps list.map concat.simps prod.case)
    also have "\<dots> = py_slice (start + int p) (start + int (last (e # es))) hay"
      by (rule py_slice_append) (use 1 le [OF 1(1)] in \<open>simp_all\<close>)
    finally show ?case by simp
  next
    case 2
    with Cons.IH(2) [of e] show ?case by simp
  }
qed

subsection \<open>The prepared job\<close>

lemma seek_source_Some:
  "seek_source fs rels rel start hay = Inr (Some (rel', start', hay')) \<Longrightarrow>
     (rel' = rel \<and> start' = start \<and> hay' = hay \<or> start' = 0) \<and> strip (py_from start' hay') \<noteq> []"
proof (induction fs rels rel start hay rule: seek_source.induct)
  case (1 fs rels rel start hay)
  then show ?case
    by (cases "strip (py_from start hay) = []")
       (auto simp: seek_source.simps [of fs rels rel start hay] split: list.splits sum.splits)
qed

definition job_ok :: "plan_job \<Rightarrow> bool" where
  "job_ok job =
     (\<exists>wc. 1 \<le> wc \<and> 0 \<le> pj_start job \<and> pj_start job < int (length (pj_text job)) \<and>
        resolve_boundaries (py_slice (pj_start job) (pj_start job + wc) (pj_text job)) (pj_drafts job)
          False (pj_window_final job) = Inr (pj_ends job))"

lemma plan_prepare_ok:
  assumes "plan_prepare gen fs project = Inr (Prepared job)" and "0 \<le> snd (pj_start_ref job)"
  shows "job_ok job"
proof -
  from assms(1) obtain rel0 start0 text0 rel start hay drafts ends d final wc where
    s: "seek_source fs (rels_after fs rel0) rel0 start0 text0 = Inr (Some (rel, start, hay))"
    and wc: "wc = setting_int project ''planning_window_chars'' 30000"
    and r: "request_validated_drafts gen (py_slice start (start + wc) hay) False final
       (Some (setting_int project ''planning_max_episodes'' 20)) max_plan_attempts 1 None = Inr (drafts, ends, d)"
    and job: "job = \<lparr>pj_start_ref = (rel0, start0), pj_source = rel, pj_start = start, pj_text = hay,
                              pj_window_final = final, pj_drafts = drafts, pj_ends = ends\<rparr>"
    by (auto simp: plan_prepare_def Let_def split: sum.splits prod.splits option.splits if_splits)
  have start: "0 \<le> start" and ne: "strip (py_from start hay) \<noteq> []"
    using seek_source_Some [OF s] assms(2) job by auto
  from ne have "py_from start hay \<noteq> []" by auto
  then have "start < int (length hay)" using start by (simp add: py_from_def slice_index_def)
  moreover have "1 \<le> wc" by (auto simp: wc setting_int_def split: json.split)
  ultimately show ?thesis using start request_sound [OF r] by (auto simp: job_ok_def job)
qed

lemma job_bounds:
  assumes "job_ok job"
  shows "sorted_wrt (<) (0 # pj_ends job)" "pj_ends job \<noteq> []" "length (pj_ends job) = length (pj_drafts job)"
    "0 \<le> pj_start job" "pj_start job + int (last (pj_ends job)) \<le> int (length (pj_text job))"
    "pj_start job < pj_start job + int (last (pj_ends job))"
proof -
  from assms obtain wc where wc: "1 \<le> wc" "0 \<le> pj_start job" "pj_start job < int (length (pj_text job))"
      "resolve_boundaries (py_slice (pj_start job) (pj_start job + wc) (pj_text job)) (pj_drafts job)
          False (pj_window_final job) = Inr (pj_ends job)" by (auto simp: job_ok_def)
  from resolve_boundaries_sound [OF wc(4)] obtain marks where
    m: "list_all2 (\<lambda>ep e. ends_at (py_slice (pj_start job) (pj_start job + wc) (pj_text job)) (ed_end_anchor ep) e)
          (pj_drafts job) marks" "marks \<noteq> []" "length (pj_ends job) = length (pj_drafts job)"
       "sorted_wrt (<) (0 # pj_ends job)"
       "last (pj_ends job) \<le> length (py_slice (pj_start job) (pj_start job + wc) (pj_text job))" by blast
  show "sorted_wrt (<) (0 # pj_ends job)" "length (pj_ends job) = length (pj_drafts job)" "0 \<le> pj_start job"
    using m wc by simp_all
  show ne: "pj_ends job \<noteq> []" using m(1-3) by (auto simp: list_all2_lengthD dest: list_all2_lengthD)
  show "pj_start job + int (last (pj_ends job)) \<le> int (length (pj_text job))"
    using m(5) py_slice_length [OF wc(2), of "pj_start job + wc" "pj_text job"] wc(3) by simp
  have "0 < last (pj_ends job)" using m(4) ne by simp
  then show "pj_start job < pj_start job + int (last (pj_ends job))" by simp
qed

subsection \<open>The greatest anchored entry\<close>

definition entry_end :: "json \<Rightarrow> (int \<times> string \<times> int) option" where
  "entry_end e =
     (case (entry_num e, e) of
        (Some num, JObj d) \<Rightarrow> map_option (\<lambda>(f, z). (num, f, z)) (range_end d)
      | _ \<Rightarrow> None)"

lemma entry_end_num: "entry_end e = Some (n, f, z) \<Longrightarrow> entry_num e = Some n"
  by (auto simp: entry_end_def split: option.splits json.splits)

lemma last_anchored_Cons:
  "last_anchored (e # es) best = last_anchored es
     (case entry_end e of None \<Rightarrow> best
      | Some (n, f, z) \<Rightarrow> (case best of None \<Rightarrow> Some (n, f, z)
                            | Some (bn, _) \<Rightarrow> if bn < n then Some (n, f, z) else best))"
  by (auto simp: entry_end_def split: option.split json.split)

lemma last_anchored_max:
  assumes "\<forall>e\<in>set es. \<forall>n f z. entry_end e = Some (n, f, z) \<longrightarrow> n < N \<or> (n, f, z) = (N, F, Z)"
    and "case best of None \<Rightarrow> True | Some b \<Rightarrow> fst b < N \<or> b = (N, F, Z)"
    and "best = Some (N, F, Z) \<or> (\<exists>e\<in>set es. entry_end e = Some (N, F, Z))"
  shows "last_anchored es best = Some (N, F, Z)"
  using assms
proof (induction es arbitrary: best)
  case (Cons e es)
  let ?best = "case entry_end e of None \<Rightarrow> best
      | Some (n, f, z) \<Rightarrow> (case best of None \<Rightarrow> Some (n, f, z)
                            | Some (bn, _) \<Rightarrow> if bn < n then Some (n, f, z) else best)"
  have "last_anchored es ?best = Some (N, F, Z)"
  proof (rule Cons.IH)
    show "case ?best of None \<Rightarrow> True | Some b \<Rightarrow> fst b < N \<or> b = (N, F, Z)"
      using Cons.prems(1,2) by (auto split: option.splits)
    show "?best = Some (N, F, Z) \<or> (\<exists>e\<in>set es. entry_end e = Some (N, F, Z))"
      using Cons.prems by (auto split: option.splits)
  qed (use Cons.prems(1) in simp)
  then show ?case by (simp only: last_anchored_Cons)
qed simp

lemma fold_max_ge: "(n :: int) \<in> set xs \<Longrightarrow> n \<le> fold max xs b" "b \<le> fold max xs b"
proof -
  have b: "b \<le> fold max xs b" for xs and b :: int
    by (induction xs arbitrary: b) (auto intro: order_trans [OF max.cobounded2])
  show "b \<le> fold max xs b" by (rule b)
  show "n \<in> set xs \<Longrightarrow> n \<le> fold max xs b"
    by (induction xs arbitrary: b) (auto intro: order_trans [OF max.cobounded1 b])
qed

lemma next_number_greater: "e \<in> set es \<Longrightarrow> entry_num e = Some n \<Longrightarrow> n < next_number es"
proof -
  assume e: "e \<in> set es" "entry_num e = Some n"
  then have "n \<in> set (List.map_filter entry_num es)" by (force simp: set_nums)
  then have "0 < n \<Longrightarrow> n \<le> fold max (filter ((<) 0) (List.map_filter entry_num es)) 0"
    by (intro fold_max_ge) auto
  moreover have "0 \<le> fold max (filter ((<) 0) (List.map_filter entry_num es)) (0::int)" by (rule fold_max_ge)
  ultimately show ?thesis by (cases "0 < n") (auto simp: next_number_def)
qed

lemma entry_num_draft [simp]: "entry_num (ledger_entry_from_draft ep num rel a b st sf) = Some num"
  by (simp add: entry_num_def ledger_entry_from_draft_def dict_ref_def dict_get_def)

lemma entry_end_draft [simp]: "entry_end (ledger_entry_from_draft ep num rel a b st sf) = Some (num, rel, b)"
proof -
  have n: "entry_num (ledger_entry_from_draft ep num rel a b st sf) = Some num" by (rule entry_num_draft)
  show ?thesis
    unfolding entry_end_def n by (simp add: ledger_entry_from_draft_def range_end_def dict_ref_def dict_get_def)
qed

lemma planned_entries_mem:
  "e \<in> set (planned_entries rel num items) \<Longrightarrow>
     \<exists>i<length items. e = ledger_entry_from_draft (fst (items ! i)) (num + int i) rel
        (fst (snd (items ! i))) (snd (snd (items ! i))) ''planned'' None"
proof (induction rel num items rule: planned_entries.induct)
  case (2 rel num ep a b rest)
  show ?case
  proof (cases "e = ledger_entry_from_draft ep num rel a b ''planned'' None")
    case True
    then show ?thesis by (intro exI [of _ 0]) simp
  next
    case False
    with 2 obtain i where "i < length rest" "e = ledger_entry_from_draft (fst (rest ! i)) (num + 1 + int i) rel
        (fst (snd (rest ! i))) (snd (snd (rest ! i))) ''planned'' None" by auto
    then show ?thesis by (intro exI [of _ "Suc i"]) (simp add: algebra_simps)
  qed
qed simp

lemma planned_entries_last:
  "items \<noteq> [] \<Longrightarrow> ledger_entry_from_draft (fst (last items)) (num + int (length items) - 1) rel
        (fst (snd (last items))) (snd (snd (last items))) ''planned'' None \<in> set (planned_entries rel num items)"
proof (induction rel num items rule: planned_entries.induct)
  case (2 rel num ep a b rest)
  then show ?case by (cases rest) (auto simp: algebra_simps)
qed simp

lemma new_ranges_last: "ends \<noteq> [] \<Longrightarrow> snd (last (new_ranges start prev ends)) = start + int (last ends)"
proof (induction start prev ends rule: new_ranges.induct)
  case (2 start prev e es)
  then show ?case by (cases es) auto
qed simp

lemma set_sort_if_possible [simp]: "set (sort_episodes_if_possible es) = set es"
  by (simp add: sort_episodes_if_possible_def)

lemma effective_start_same:
  assumes "last_anchored (episode_entries p) None = Some (n, rel, z)" "dict_ref p ''planning_cursor'' = cursor_json rel z" "0 \<le> z"
  shows "effective_start fs p = Inr (rel, z)"
  using assms by (simp add: effective_start_def cursor_of_def cursor_json_def dict_ref_def dict_get_def)

subsection \<open>The commit of a batch\<close>

lemma plan_commit_cases:
  assumes "plan_commit units clean lang job fs stored = Inr (res, p', fs')"
  defines "p \<equiv> backfill_episode_ledger fs stored"
  defines "items \<equiv> zip (pj_drafts job) (new_ranges (pj_start job) (pj_start job) (pj_ends job))"
  defines "stop \<equiv> pj_start job + int (last (pj_ends job))"
  shows "effective_start fs p = Inr (pj_start_ref job)"
    and "p' = dict_put (dict_put p ''episodes'' (JArr (sort_episodes_if_possible (live_entries p @
             planned_entries (pj_source job) (next_number (live_entries p)) items))))
           ''planning_cursor'' (cursor_json (pj_source job) stop)"
    and "reconcile_derived_files clean fs [(pj_source job, pj_text job)] p' = Inr fs'"
    and "pr_cursor res = cursor_json (pj_source job) stop"
  using assms(1) unfolding p_def items_def stop_def
  by (auto simp: plan_commit_def Let_def split: sum.splits if_splits)

lemma plan_commit_parts:
  assumes "plan_commit units clean lang job fs stored = Inr (res, p', fs')"
  shows "episode_entries p' = sort_episodes_if_possible (live_entries (backfill_episode_ledger fs stored) @
      planned_entries (pj_source job) (next_number (live_entries (backfill_episode_ledger fs stored)))
        (zip (pj_drafts job) (new_ranges (pj_start job) (pj_start job) (pj_ends job))))"
    and "dict_ref p' ''planning_cursor'' = cursor_json (pj_source job) (pj_start job + int (last (pj_ends job)))"
  unfolding plan_commit_cases(2) [OF assms] episode_entries_def by (simp_all add: dict_ref_put)

lemma plan_commit_advances_aux:
  assumes job: "job_ok job" and c: "plan_commit units clean lang job fs stored = Inr (res, p', fs')"
  shows "effective_start fs'' p' = Inr (pj_source job, pj_start job + int (last (pj_ends job)))"
proof -
  let ?es = "live_entries (backfill_episode_ledger fs stored)"
  let ?items = "zip (pj_drafts job) (new_ranges (pj_start job) (pj_start job) (pj_ends job))"
  let ?num = "next_number ?es"
  let ?N = "?num + int (length ?items) - 1" and ?Z = "pj_start job + int (last (pj_ends job))"
  note b = job_bounds [OF job]
  have len: "length ?items = length (pj_ends job)" using b(3) by simp
  have ne: "?items \<noteq> []" using b(2) len by (metis length_0_conv)
  have "last ?items = (last (pj_drafts job), last (new_ranges (pj_start job) (pj_start job) (pj_ends job)))"
  proof (rule last_zip)
    show "pj_drafts job \<noteq> []" using b(2,3) by auto
    show "new_ranges (pj_start job) (pj_start job) (pj_ends job) \<noteq> []"
      using b(2) by (metis length_0_conv new_ranges_length)
  qed (use b(3) in simp)
  then have lst: "snd (snd (last ?items)) = ?Z" using new_ranges_last [OF b(2)] by simp
  have top: "entry_end (ledger_entry_from_draft (fst (last ?items)) ?N (pj_source job) (fst (snd (last ?items)))
      (snd (snd (last ?items))) ''planned'' None) = Some (?N, pj_source job, ?Z)"
    by (simp only: entry_end_draft lst)
  have "last_anchored (episode_entries p') None = Some (?N, pj_source job, ?Z)"
  proof (rule last_anchored_max)
    show "\<forall>e\<in>set (episode_entries p'). \<forall>n f z. entry_end e = Some (n, f, z) \<longrightarrow> n < ?N \<or> (n, f, z) = (?N, pj_source job, ?Z)"
    proof (intro ballI allI impI)
      fix e n f z assume e: "e \<in> set (episode_entries p')" "entry_end e = Some (n, f, z)"
      then consider (old) "e \<in> set ?es" | (new) "e \<in> set (planned_entries (pj_source job) ?num ?items)"
        by (auto simp: plan_commit_parts(1) [OF c])
      then show "n < ?N \<or> (n, f, z) = (?N, pj_source job, ?Z)"
      proof cases
        case old
        from next_number_greater [OF this entry_end_num [OF e(2)]] have "n < ?num" .
        moreover have "1 \<le> int (length ?items)" using ne by (cases ?items) auto
        ultimately show ?thesis by linarith
      next
        case new
        from planned_entries_mem [OF new] obtain i where i: "i < length ?items"
          "e = ledger_entry_from_draft (fst (?items ! i)) (?num + int i) (pj_source job)
             (fst (snd (?items ! i))) (snd (snd (?items ! i))) ''planned'' None" by blast
        then have nz: "n = ?num + int i" "f = pj_source job" "z = snd (snd (?items ! i))" using e(2) by simp_all
        show ?thesis
        proof (cases "i = length ?items - 1")
          case True
          then have "?items ! i = last ?items" using last_conv_nth [OF ne] by simp
          moreover have "n = ?N" using nz(1) True i(1) by simp
          ultimately show ?thesis using nz lst by simp
        next
          case False
          then have "int i < int (length ?items) - 1" using i(1) by linarith
          then show ?thesis using nz(1) by linarith
        qed
      qed
    qed
    show "None = Some (?N, pj_source job, ?Z) \<or> (\<exists>e\<in>set (episode_entries p'). entry_end e = Some (?N, pj_source job, ?Z))"
      using top planned_entries_last [OF ne] unfolding plan_commit_parts(1) [OF c] set_sort_if_possible set_append by blast
  qed simp
  from effective_start_same [OF this plan_commit_parts(2) [OF c]] b(4) show ?thesis by simp
qed

subsection \<open>Derived files\<close>

lemma episode_file_inj [simp]: "episode_file m = episode_file n \<longleftrightarrow> m = n"
  by (simp add: episode_file_def)

lemma show_int_ne [simp]: "show_int i \<noteq> []"
  by (simp add: show_int_def)

lemma show_int_all_digits: "list_all is_digit (show_int i) \<Longrightarrow> int (nat_of_digits 0 (show_int i)) = i"
  by (auto simp: show_int_def is_digit_def show_nat_def nat_of_digits_of_nat split: if_splits)

lemma episode_file_parse: "episode_file_num (episode_file n) = Some m \<Longrightarrow> m = n"
proof -
  have "episode_file_num (episode_file n) =
      (if list_all is_digit (show_int n) then Some (int (nat_of_digits 0 (show_int n))) else None)"
    by (simp add: episode_file_num_def episode_file_def Let_def)
  then show "episode_file_num (episode_file n) = Some m \<Longrightarrow> m = n"
    using show_int_all_digits [of n] by (auto split: if_splits)
qed

lemma first_per_key_sub: "set (first_per_key kvs seen) \<subseteq> set kvs"
  by (induction kvs seen rule: first_per_key.induct) auto

lemma discover_num: "(m, name, c) \<in> set (discover_episode_files fs) \<Longrightarrow>
    episode_file_num name = Some m \<and> (name, c) \<in> set (coalesce (fs_source fs) [])"
proof -
  assume "(m, name, c) \<in> set (discover_episode_files fs)"
  then have "(m, name, c) \<in> set (List.map_filter (\<lambda>(name, content). map_option (\<lambda>n. (n, name, content)) (episode_file_num name))
          (source_listing fs))"
    unfolding discover_episode_files_def using first_per_key_sub by blast
  then show ?thesis by (auto simp: map_filter_def source_listing_def)
qed

lemma map_of_put_file: "map_of (put_file n v kvs) k = (if k = n then Some v else map_of kvs k)"
  by (induction n v kvs rule: put_file.induct) auto

lemma map_of_filter_name: "map_of (filter (\<lambda>(n, _). P n) kvs) k = (if P k then map_of kvs k else None)"
  by (induction kvs) auto

lemma map_of_writes_other:
  "k \<notin> (\<lambda>(n, c). episode_file n) ` set writes \<Longrightarrow>
     map_of (write_all clean writes kvs) k = map_of kvs k"
  by (induction clean writes kvs rule: write_all.induct) (auto simp: map_of_put_file)

lemma map_of_writes:
  assumes "distinct (map fst writes)" and "(n, c) \<in> set writes"
  shows "map_of (write_all clean writes kvs) (episode_file n)
     = Some (Some (clean c))"
  using assms
proof (induction writes arbitrary: kvs)
  case (Cons w ws)
  show ?case
  proof (cases "w = (n, c)")
    case True
    then have "n \<notin> fst ` set ws" using Cons.prems(1) by auto
    then have "episode_file n \<notin> (\<lambda>(n, c). episode_file n) ` set ws" by force
    with True show ?thesis by (simp add: map_of_writes_other map_of_put_file)
  next
    case False
    with Cons show ?thesis by (cases w) auto
  qed
qed simp

definition cached_source :: "project_fs \<Rightarrow> (string \<times> string) list \<Rightarrow> string \<Rightarrow> planner_error + string" where
  "cached_source fs cache f = (case map_of cache f of Some t \<Rightarrow> Inr t | None \<Rightarrow> load_normalized_source fs f)"

text \<open>The range of an entry is good, and gives the content \<open>c\<close>.\<close>

definition slice_is :: "project_fs \<Rightarrow> (string \<times> string) list \<Rightarrow> dict \<Rightarrow> string \<Rightarrow> bool" where
  "slice_is fs cache d c =
     (\<exists>f a b t. read_range d = GoodRange f a b \<and> cached_source fs cache f = Inr t \<and>
        0 \<le> a \<and> a \<le> b \<and> b \<le> int (length t) \<and> c = py_slice a b t)"

definition locked_entry :: "dict \<Rightarrow> bool" where
  "locked_entry d = (dict_ref d ''ledger_status'' = JStr ''unanchored'')"

text \<open>The writes planned for a list of entries, one per anchored entry, in order.\<close>

fun writes_for :: "project_fs \<Rightarrow> (string \<times> string) list \<Rightarrow> json list \<Rightarrow> (int \<times> string) list \<Rightarrow> bool" where
  "writes_for fs cache [] ws = (ws = [])"
| "writes_for fs cache (e # es) ws =
     (case entry_num e of
        None \<Rightarrow> writes_for fs cache es ws
      | Some n \<Rightarrow>
          (case as_dict e of
             None \<Rightarrow> writes_for fs cache es ws
           | Some d \<Rightarrow>
               if locked_entry d then writes_for fs cache es ws
               else (case ws of [] \<Rightarrow> False
                     | w # ws' \<Rightarrow> fst w = n \<and> slice_is fs cache d (snd w) \<and> writes_for fs cache es ws')))"

lemma plan_writes_anchored:
  assumes "plan_writes fs cache (JObj d # es) = Inr (keep, ws)" and "entry_num (JObj d) = Some n" and "\<not> locked_entry d"
  obtains f a b t keep' ws' where
    "read_range d = GoodRange f a b" "cached_source fs cache f = Inr t" "0 \<le> a" "a \<le> b" "b \<le> int (length t)"
    "plan_writes fs cache es = Inr (keep', ws')" "keep = n # keep'" "ws = (n, py_slice a b t) # ws'"
proof (cases "read_range d")
  case (GoodRange f a b)
  show ?thesis
  proof (cases "cached_source fs cache f")
    case (Inr t)
    with assms GoodRange that [OF GoodRange Inr] show ?thesis
      by (cases "plan_writes fs cache es") (auto simp: cached_source_def locked_entry_def split: if_splits)
  qed (use assms GoodRange in \<open>auto simp: cached_source_def locked_entry_def\<close>)
qed (use assms in \<open>auto simp: locked_entry_def\<close>)

lemma plan_writes_Inr:
  "plan_writes fs cache es = Inr (keep, ws) \<Longrightarrow> keep = List.map_filter entry_num es \<and> writes_for fs cache es ws"
proof (induction es arbitrary: keep ws)
  case (Cons e es)
  show ?case
  proof (cases "entry_num e")
    case None
    with Cons show ?thesis by simp
  next
    case (Some n)
    then obtain d where d: "e = JObj d" using entry_num_JObj by blast
    show ?thesis
    proof (cases "locked_entry d")
      case True
      with Cons Some d show ?thesis by (auto simp: locked_entry_def split: sum.splits)
    next
      case False
      from Cons.prems [unfolded d] Some [unfolded d] False show ?thesis
      proof (rule plan_writes_anchored)
        fix f a b t keep' ws'
        assume r: "read_range d = GoodRange f a b" "cached_source fs cache f = Inr t" "0 \<le> a" "a \<le> b" "b \<le> int (length t)"
          and k: "plan_writes fs cache es = Inr (keep', ws')" "keep = n # keep'" "ws = (n, py_slice a b t) # ws'"
        then have "slice_is fs cache d (py_slice a b t)" by (auto simp: slice_is_def)
        with Cons.IH [OF k(1)] k(2,3) Some d False show ?thesis by simp
      qed
    qed
  qed
qed simp

lemma writes_for_mem:
  assumes "writes_for fs cache es ws" and "JObj d \<in> set es" and "entry_num (JObj d) = Some n" and "\<not> locked_entry d"
  shows "\<exists>c. (n, c) \<in> set ws \<and> slice_is fs cache d c"
  using assms
proof (induction fs cache es ws rule: writes_for.induct)
  case (2 fs cache e es ws)
  show ?case
  proof (cases "e = JObj d")
    case True
    with "2.prems" obtain w ws' where w: "ws = w # ws'" "fst w = n" "slice_is fs cache d (snd w)"
      by (cases ws) auto
    then have "(n, snd w) \<in> set ws" by (cases w) auto
    with w(3) show ?thesis by blast
  next
    case False
    with 2 show ?thesis by (cases ws) (auto split: option.splits if_splits)
  qed
qed simp

lemma writes_for_nums:
  "writes_for fs cache es ws \<Longrightarrow> subseq (map fst ws) (List.map_filter entry_num es)"
proof (induction fs cache es ws rule: writes_for.induct)
  case (2 fs cache e es ws)
  then show ?case by (cases ws) (auto split: option.splits if_splits intro: list_emb_Cons
      dest: subseq_Cons' entry_num_JObj)
qed simp

end
