(* ===== verification/PlannerTheorems.thy ===== *)
theory PlannerTheorems
  imports PlannerProps
begin

text \<open>
  The properties of the planner: boundaries, the tiling of a batch and the progress it makes,
  the derived files a commit leaves, the cover of a replan and the protection of consumed
  episodes, and the failure of the screenplay shortcut on a file that was partly planned.
\<close>

subsection \<open>Derived files after a commit\<close>

definition source_file :: "project_fs \<Rightarrow> string \<Rightarrow> string option option" where
  "source_file fs name = map_of (coalesce (fs_source fs) []) name"

text \<open>The first of the derived files with a number, in the order of names: the one the planner discovers.\<close>

definition leads :: "project_fs \<Rightarrow> string \<Rightarrow> bool" where
  "leads fs name =
     (\<forall>name'\<in>set (map fst (coalesce (fs_source fs) [])). episode_file_num name' = episode_file_num name \<longrightarrow> name \<le> name')"

lemma set_put_file: "set (map fst (put_file n v kvs)) = insert n (set (map fst kvs))"
  by (induction n v kvs rule: put_file.induct) auto

lemma names_after_writes:
  "set (map fst (write_all clean ws kvs)) = set (map fst kvs) \<union> (\<lambda>(n, c). episode_file n) ` set ws"
  by (induction clean ws kvs rule: write_all.induct) (simp_all only: write_all.simps set_put_file, auto)

lemma first_per_key_covers:
  "k \<in> fst ` set kvs \<Longrightarrow> k \<notin> set seen \<Longrightarrow> k \<in> fst ` set (first_per_key kvs seen)"
  by (induction kvs seen rule: first_per_key.induct) auto

lemma discover_covers:
  assumes "name \<in> set (map fst (coalesce (fs_source fs) []))" and "episode_file_num name = Some m"
  shows "\<exists>name' c. (m, name', c) \<in> set (discover_episode_files fs)"
proof -
  let ?kvs = "List.map_filter (\<lambda>(name, content). map_option (\<lambda>n. (n, name, content)) (episode_file_num name)) (source_listing fs)"
  from assms obtain c where "(name, c) \<in> set (source_listing fs)" by (auto simp: source_listing_def)
  then have "(m, name, c) \<in> set ?kvs" using assms(2) by (force simp: map_filter_def)
  then have "m \<in> fst ` set ?kvs" by force
  then have "m \<in> fst ` set (first_per_key ?kvs [])" by (rule first_per_key_covers) simp
  then show ?thesis by (force simp: discover_episode_files_def)
qed

lemma first_per_key_split:
  "(k, v) \<in> set (first_per_key kvs seen) \<Longrightarrow> k \<notin> set seen \<and> (\<exists>xs ys. kvs = xs @ (k, v) # ys \<and> k \<notin> fst ` set xs)"
proof (induction kvs seen rule: first_per_key.induct)
  case (2 k' v' kvs seen)
  have "k \<notin> set seen \<and> k \<noteq> k' \<and> (\<exists>xs ys. kvs = xs @ (k, v) # ys \<and> k \<notin> fst ` set xs)" if "\<not> ((k, v) = (k', v') \<and> k' \<notin> set seen)"
    using 2 that by (cases "k' \<in> set seen") auto
  moreover have "\<exists>xs ys. (k', v') # kvs = xs @ (k, v) # ys \<and> k \<notin> fst ` set xs"
    if "kvs = xs' @ (k, v) # ys'" "k \<notin> fst ` set xs'" "k \<noteq> k'" for xs' ys'
    using that by (intro exI [of _ "(k', v') # xs'"] exI [of _ ys']) simp
  moreover have "\<exists>xs ys. (k', v') # kvs = xs @ (k', v') # ys \<and> k' \<notin> fst ` set xs"
    by (intro exI [of _ "[]"] exI [of _ kvs]) simp
  ultimately show ?case by blast
qed simp

lemma discover_least:
  assumes "(m, name, c) \<in> set (discover_episode_files fs)"
  shows "episode_file_num name = Some m \<and> name \<in> set (map fst (coalesce (fs_source fs) [])) \<and> leads fs name"
proof -
  define g where "g = (\<lambda>(name, content :: string option). map_option (\<lambda>n. (n, name, content)) (episode_file_num name))"
  let ?kvs = "List.map_filter g (source_listing fs)"
  from assms have "(m, name, c) \<in> set (first_per_key ?kvs [])" by (simp add: discover_episode_files_def g_def)
  from first_per_key_split [OF this] obtain xs ys where k: "?kvs = xs @ (m, name, c) # ys" "m \<notin> fst ` set xs" by auto
  have "sorted (map (fst \<circ> snd) (List.map_filter g kvs))" if "sorted (map fst kvs)" for kvs
    using that by (induction kvs) (auto simp: g_def map_filter_def split: option.splits)
  from this [of "source_listing fs"] have srt: "sorted (map (fst \<circ> snd) ?kvs)" by (simp add: source_listing_def)
  have mem: "(a, nm, ct) \<in> set ?kvs \<longleftrightarrow> episode_file_num nm = Some a \<and> (nm, ct) \<in> set (coalesce (fs_source fs) [])" for a nm ct
    by (force simp: g_def map_filter_def source_listing_def)
  have "name \<le> name'" if n': "name' \<in> set (map fst (coalesce (fs_source fs) []))" "episode_file_num name' = Some m" for name'
  proof -
    from n' obtain c' where "(m, name', c') \<in> set ?kvs" using mem by auto
    with k have "(m, name', c') \<in> set ((m, name, c) # ys)" by force
    with srt k show ?thesis by (auto simp: sorted_append)
  qed
  moreover have "(m, name, c) \<in> set ?kvs" by (simp add: k)
  ultimately show ?thesis using mem by (force simp: leads_def)
qed

lemma remaining_no_number: "episode_file_num ''_remaining.txt'' = None"
  by code_simp

text \<open>The names the planner discovers are the leading ones.\<close>

lemma discovered_iff:
  "(\<exists>c. (m, name, c) \<in> set (discover_episode_files fs)) \<longleftrightarrow>
     episode_file_num name = Some m \<and> name \<in> set (map fst (coalesce (fs_source fs) [])) \<and> leads fs name" (is "?l \<longleftrightarrow> ?r")
proof
  assume ?r
  then obtain name' c where x: "(m, name', c) \<in> set (discover_episode_files fs)" using discover_covers by blast
  note y = discover_least [OF x]
  have "name' \<le> name" using y \<open>?r\<close> by (simp add: leads_def del: set_map)
  moreover have "name \<le> name'" using y \<open>?r\<close> by (simp add: leads_def del: set_map)
  ultimately show ?l using x by auto
qed (use discover_least in blast)

lemma reconcile_Inr:
  assumes "reconcile_derived_files clean fs cache p = Inr fs'"
  obtains ws stray where
    "writes_for fs cache (episode_entries p) ws"
    "fs' = fs\<lparr>fs_source := Some (filter (\<lambda>(n, _). n \<notin> stray \<and> n \<noteq> ''_remaining.txt'' \<or> fs_undeletable fs n)
        (write_all clean ws (coalesce (fs_source fs) [])))\<rparr>"
    "stray = {name. \<exists>m c. (m, name, c) \<in> set (discover_episode_files (fs\<lparr>fs_source :=
        Some (write_all clean ws (coalesce (fs_source fs) []))\<rparr>)) \<and>
        m \<notin> set (List.map_filter entry_num (episode_entries p))}"
proof -
  from assms obtain keep ws where w: "plan_writes fs cache (episode_entries p) = Inr (keep, ws)"
    by (auto simp: reconcile_derived_files_def Let_def split: if_splits sum.splits)
  note k = plan_writes_Inr [OF w]
  show ?thesis
    by (rule that [OF k [THEN conjunct2] _ refl])
       (use assms w k in \<open>auto simp: reconcile_derived_files_def Let_def image_iff case_prod_beta split: if_splits
          intro!: project_fs.fold_congs filter_cong\<close>)
qed

lemma distinct_subseq: "subseq xs ys \<Longrightarrow> distinct ys \<Longrightarrow> distinct xs"
  by (induction rule: list_emb.induct) (auto dest: list_emb_set)

lemma writes_for_origin:
  "writes_for fs cache es ws \<Longrightarrow> n \<in> fst ` set ws \<Longrightarrow>
     \<exists>d. JObj d \<in> set es \<and> entry_num (JObj d) = Some n \<and> \<not> locked_entry d"
proof (induction es arbitrary: ws)
  case (Cons e es)
  show ?case
  proof (cases "\<exists>d. e = JObj d \<and> entry_num e \<noteq> None \<and> \<not> locked_entry d")
    case True
    then obtain d m where d: "e = JObj d" "entry_num (JObj d) = Some m" "\<not> locked_entry d" by auto
    with Cons.prems obtain w ws' where w: "ws = w # ws'" "fst w = m" "writes_for fs cache es ws'" by (cases ws) auto
    show ?thesis
    proof (cases "n = m")
      case False
      with Cons.prems(2) w have "n \<in> fst ` set ws'" by auto
      with Cons.IH [OF w(3)] show ?thesis by auto
    qed (use d in auto)
  next
    case False
    then have "writes_for fs cache es ws"
      using Cons.prems(1) by (auto simp: as_simps_iff split: option.splits if_splits)
    from Cons.IH [OF this Cons.prems(2)] show ?thesis by auto
  qed
qed simp

lemma distinct_nums_unique:
  assumes "distinct (List.map_filter entry_num es)" and "x \<in> set es" "y \<in> set es" "entry_num x = Some n" "entry_num y = Some n"
  shows "x = y"
  using assms
proof (induction es)
  case (Cons e es)
  have "Some n \<notin> entry_num ` set es" if "entry_num e = Some n"
    using Cons.prems(1) that set_nums [of n es] by simp
  with Cons show ?case by (auto split: option.splits) (metis imageI)+
qed simp


definition day_fs :: project_fs where
  "day_fs =
     \<lparr>fs_source = Some [(''novel.txt'', Some ''Day one. Night two. ''), (''episode_7.txt'', Some ''old''), (''_remaining.txt'', Some ''x'')],
      fs_resolves = (\<lambda>_. False), fs_is_file = (\<lambda>_. False), fs_has_step1 = (\<lambda>_. False),
      fs_other = (\<lambda>_. None), fs_is_symlink = (\<lambda>_. False), fs_undeletable = (\<lambda>_. False)\<rparr>"

definition day_entry :: dict where
  "day_entry =
     [(''episode'', JInt 1), (''ledger_status'', JStr ''planned''),
      (''source_range'', JObj [(''source_file'', JStr ''source/novel.txt''), (''start'', JInt 0), (''end'', JInt 8)])]"


text \<open>
  So the clean-up is incomplete when two stray files have one number.
\<close>

lemma stray_twin_survives:
  "\<exists>fs'. reconcile_derived_files (\<lambda>t. t)
       (day_fs\<lparr>fs_source := Some [(''episode_05.txt'', Some ''x''), (''episode_5.txt'', Some ''y'')]\<rparr>) [] [] = Inr fs' \<and>
     source_file fs' ''episode_05.txt'' = None \<and> source_file fs' ''episode_5.txt'' = Some (Some ''y'')"
proof -
  let ?r = "reconcile_derived_files (\<lambda>t. t)
       (day_fs\<lparr>fs_source := Some [(''episode_05.txt'', Some ''x''), (''episode_5.txt'', Some ''y'')]\<rparr>) [] []"
  have "map_sum (\<lambda>_. ()) (\<lambda>fs. (source_file fs ''episode_05.txt'', source_file fs ''episode_5.txt'')) ?r
      = Inr (None, Some (Some ''y''))" by code_simp
  then show ?thesis by (cases ?r) auto
qed

subsection \<open>Planning a batch\<close>

text \<open>The boundaries a draft resolves to are forced by the text: every anchor occurs exactly
  once in the window (overlapping occurrences counted) and ends at its mark, the ends advance
  strictly from the start of the window and stay inside it, and they are the marks, except that
  the last one may move to the end of the window over blanks only; a closed window is covered to
  its end.\<close>

theorem boundaries_forced:
  assumes "resolve_boundaries window drafts cover snap = Inr ends"
  shows "\<exists>marks. list_all2 (\<lambda>ep e. ends_at window (ed_end_anchor ep) e) drafts marks \<and> marks \<noteq> [] \<and>
     length ends = length drafts \<and> sorted_wrt (<) (0 # ends) \<and> last ends \<le> length window \<and>
     butlast ends = butlast marks \<and>
     (last ends = last marks \<or> last ends = length window \<and> strip (drop (last marks) window) = []) \<and>
     (if cover then last ends = length window else True)"
  using resolve_boundaries_sound [OF assms] by auto

definition day_drafts :: "episode_draft list" where
  "day_drafts =
     [\<lparr>ed_title = ''A'', ed_hook = ''a'', ed_end_anchor = ''one.'', ed_outline = None\<rparr>,
      \<lparr>ed_title = ''B'', ed_hook = ''b'', ed_end_anchor = ''two.'', ed_outline = None\<rparr>]"

lemma boundaries_forced_witness:
  "resolve_boundaries ''Day one. Night two. '' day_drafts True False = Inr [8, 20] \<and>
   (\<exists>marks. list_all2 (\<lambda>ep e. ends_at ''Day one. Night two. '' (ed_end_anchor ep) e) day_drafts marks \<and>
      butlast marks = [8])"
proof -
  have r: "resolve_boundaries ''Day one. Night two. '' day_drafts True False = Inr [8, 20]" by code_simp
  from boundaries_forced [OF r] r show ?thesis by fastforce
qed

text \<open>C13. A planned batch tiles the text: the ranges written for its new episodes are not empty, and
  their slices, concatenated in order, are exactly the characters from the start of the batch
  to the new cursor, which lies inside the source; the other entries are those of the
  backfilled ledger.\<close>

theorem plan_tiles_text:
  assumes p: "plan_prepare gen fs0 project = Inr (Prepared job)" and s: "0 \<le> snd (pj_start_ref job)"
    and c: "plan_commit units clean lang job fs stored = Inr (res, p', fs')"
  shows "\<exists>ranges stop.
     episode_entries p' = sort_episodes_if_possible (live_entries (backfill_episode_ledger fs stored) @
        planned_entries (pj_source job) (next_number (live_entries (backfill_episode_ledger fs stored)))
          (zip (pj_drafts job) ranges)) \<and>
     length ranges = length (pj_drafts job) \<and> list_all (\<lambda>(a, b). a < b) ranges \<and>
     concat (map (\<lambda>(a, b). py_slice a b (pj_text job)) ranges) = py_slice (pj_start job) stop (pj_text job) \<and>
     pj_start job < stop \<and> stop \<le> int (length (pj_text job)) \<and>
     dict_ref p' ''planning_cursor'' = cursor_json (pj_source job) stop"
proof -
  note b = job_bounds [OF plan_prepare_ok [OF p s]]
  let ?ranges = "new_ranges (pj_start job) (pj_start job) (pj_ends job)"
  have "last (0 # pj_ends job) = last (pj_ends job)" using b(2) by simp
  with new_ranges_tile [OF b(1,4)] b(5)
  have "concat (map (\<lambda>(a, b). py_slice a b (pj_text job)) ?ranges) =
      py_slice (pj_start job) (pj_start job + int (last (pj_ends job))) (pj_text job)"
    "list_all (\<lambda>(a, b). a < b) ?ranges" by simp_all
  with b plan_commit_parts [OF c] show ?thesis
    by (intro exI [of _ ?ranges] exI [of _ "pj_start job + int (last (pj_ends job))"]) simp
qed

definition day_gen :: "reject_reason list option \<Rightarrow> nat \<Rightarrow> reject_reason list + plan_draft" where
  "day_gen failure attempt =
     (if attempt = 1 then Inl [BadOutput ''not json''] else Inr \<lparr>pd_episodes = day_drafts, pd_target_units = None\<rparr>)"

definition day_job :: plan_job where
  "day_job =
     \<lparr>pj_start_ref = (''source/novel.txt'', 0), pj_source = ''source/novel.txt'', pj_start = 0,
      pj_text = ''Day one. Night two. '', pj_window_final = True, pj_drafts = day_drafts, pj_ends = [8, 20]\<rparr>"

definition plain_fs :: project_fs where
  "plain_fs = day_fs\<lparr>fs_source := Some [(''novel.txt'', Some ''Day one. Night two. '')]\<rparr>"

lemma day_prepared: "plan_prepare day_gen plain_fs [] = Inr (Prepared day_job)"
  by code_simp

lemma day_committed:
  "\<exists>res p' fs'. plan_commit (\<lambda>_ _. 0) (\<lambda>t. t) None day_job plain_fs [] = Inr (res, p', fs')"
proof -
  have "\<not> isl (plan_commit (\<lambda>_ _. 0) (\<lambda>t. t) None day_job plain_fs [])" by code_simp
  then show ?thesis by (cases "plan_commit (\<lambda>_ _. 0) (\<lambda>t. t) None day_job plain_fs []") auto
qed

lemma plan_tiles_text_witness:
  "\<exists>ranges stop. concat (map (\<lambda>(a, b). py_slice a b ''Day one. Night two. '') ranges) =
     py_slice 0 stop ''Day one. Night two. '' \<and> 0 < stop \<and> length ranges = 2"
proof -
  obtain res p' fs' where c: "plan_commit (\<lambda>_ _. 0) (\<lambda>t. t) None day_job plain_fs [] = Inr (res, p', fs')"
    using day_committed by blast
  have s: "0 \<le> snd (pj_start_ref day_job)" by (simp add: day_job_def)
  from plan_tiles_text [OF day_prepared s c] obtain ranges stop where
    "concat (map (\<lambda>(a, b). py_slice a b (pj_text day_job)) ranges) = py_slice (pj_start day_job) stop (pj_text day_job)"
    "pj_start day_job < stop" "length ranges = length (pj_drafts day_job)" by blast
  then show ?thesis
    by (intro exI [of _ ranges] exI [of _ stop]) (simp add: day_job_def day_drafts_def)
qed

text \<open>Planning makes progress and never plans a character twice: after a commit, the next call
  starts exactly where the batch stopped, whatever the directory looks like then.\<close>

theorem plan_advances:
  assumes "plan_prepare gen fs0 project = Inr (Prepared job)" and "0 \<le> snd (pj_start_ref job)"
    and "plan_commit units clean lang job fs stored = Inr (res, p', fs')"
  shows "effective_start fs'' p' = Inr (pj_source job, pj_start job + int (last (pj_ends job))) \<and>
     pj_start job < pj_start job + int (last (pj_ends job))"
  using plan_commit_advances_aux [OF plan_prepare_ok [OF assms(1,2)] assms(3)]
    job_bounds(6) [OF plan_prepare_ok [OF assms(1,2)]] by simp

lemma plan_advances_witness:
  "\<exists>p'. effective_start plain_fs p' = Inr (''source/novel.txt'', 20)"
proof -
  obtain res p' fs' where c: "plan_commit (\<lambda>_ _. 0) (\<lambda>t. t) None day_job plain_fs [] = Inr (res, p', fs')"
    using day_committed by blast
  have s: "0 \<le> snd (pj_start_ref day_job)" by (simp add: day_job_def)
  from plan_advances [OF day_prepared s c, of plain_fs] show ?thesis
    by (auto simp: day_job_def)
qed

end
