(* ===== verification/ReplanTheorems.thy ===== *)
theory ReplanTheorems
  imports PlannerTheorems
begin

text \<open>
  Replanning: the new layout covers the characters of the old one, consumed episodes are only
  replaced after confirmation; and the screenplay shortcut, which fails on every file that was
  partly planned before.
\<close>

subsection \<open>Slices as maximal runs\<close>

inductive tiles :: "replan_slice list \<Rightarrow> (string \<times> int \<times> int) list \<Rightarrow> bool" where
  none: "tiles [] []"
| new: "tiles sls rs \<Longrightarrow> f \<notin> rs_file ` set sls \<Longrightarrow> a < b \<Longrightarrow>
     tiles (sls @ [\<lparr>rs_file = f, rs_start = a, rs_end = b\<rparr>]) (rs @ [(f, a, b)])"
| extend: "tiles (sls @ [sl]) rs \<Longrightarrow> rs_end sl < b \<Longrightarrow>
     tiles (sls @ [sl\<lparr>rs_end := b\<rparr>]) (rs @ [(rs_file sl, rs_end sl, b)])"

lemma tiles_ordered: "tiles sls rs \<Longrightarrow> list_all (\<lambda>sl. rs_start sl < rs_end sl) sls"
  by (induction rule: tiles.induct) auto

definition in_text :: "(string \<Rightarrow> string) \<Rightarrow> string \<times> int \<times> int \<Rightarrow> bool" where
  "in_text txt_of r = (case r of (f, a, b) \<Rightarrow> 0 \<le> a \<and> a < b \<and> b \<le> int (length (txt_of f)))"

definition text_of :: "(string \<Rightarrow> string) \<Rightarrow> string \<times> int \<times> int \<Rightarrow> string" where
  "text_of txt_of r = (case r of (f, a, b) \<Rightarrow> py_slice a b (txt_of f))"

lemma range_simps [simp]:
  "in_text txt_of (f, a, b) = (0 \<le> a \<and> a < b \<and> b \<le> int (length (txt_of f)))"
  "text_of txt_of (f, a, b) = py_slice a b (txt_of f)"
  by (simp_all add: in_text_def text_of_def)

definition slice_range :: "replan_slice \<Rightarrow> string \<times> int \<times> int" where
  "slice_range sl = (rs_file sl, rs_start sl, rs_end sl)"

lemma tiles_text:
  assumes "tiles sls rs" and "list_all (\<lambda>sl. in_text txt_of (slice_range sl)) sls"
  shows "concat (map (text_of txt_of) rs) = concat (map (\<lambda>sl. text_of txt_of (slice_range sl)) sls)"
  using assms
proof (induction rule: tiles.induct)
  case (extend sls sl rs b)
  have o: "rs_start sl < rs_end sl" using tiles_ordered [OF extend.hyps(1)] by simp
  with extend.prems extend.hyps(2) have "in_text txt_of (slice_range sl)"
    by (auto simp: slice_range_def)
  with extend.IH extend.prems have ih: "concat (map (text_of txt_of) rs) =
      concat (map (\<lambda>sl. text_of txt_of (slice_range sl)) sls) @ py_slice (rs_start sl) (rs_end sl) (txt_of (rs_file sl))"
    by (simp add: slice_range_def)
  have "py_slice (rs_start sl) (rs_end sl) (txt_of (rs_file sl)) @ py_slice (rs_end sl) b (txt_of (rs_file sl)) =
      py_slice (rs_start sl) b (txt_of (rs_file sl))"
    by (rule py_slice_append) (use o extend.prems extend.hyps(2) in \<open>auto simp: slice_range_def\<close>)
  with ih show ?case by (simp add: slice_range_def)
qed (auto simp: slice_range_def)

definition range_of :: "int \<times> dict \<Rightarrow> string \<times> int \<times> int" where
  "range_of ne = (case read_range (snd ne) of GoodRange f a b \<Rightarrow> (f, a, b) | _ \<Rightarrow> ([], 0, 0))"

lemma slice_loop_tiles:
  assumes "slice_loop aff acc seen = Inr sls" and "tiles (rev acc) rs" and "rs_file ` set acc \<subseteq> set seen"
  shows "tiles sls (rs @ map range_of aff)"
  using assms
proof (induction aff arbitrary: acc seen rs)
  case (Cons ne aff)
  obtain num entry where ne: "ne = (num, entry)" by (cases ne) auto
  from Cons.prems(1) ne obtain f a b where r: "read_range entry = GoodRange f a b" "a < b"
    by (auto split: range_read.splits if_splits)
  have ro: "range_of ne = (f, a, b)" using r ne by (simp add: range_of_def)
  show ?case
  proof (cases "\<exists>sl sls'. acc = sl # sls' \<and> rs_file sl = f")
    case True
    then obtain sl sls' where acc: "acc = sl # sls'" "rs_file sl = f" by blast
    with Cons.prems(1) ne r have l: "a = rs_end sl" "slice_loop aff (sl\<lparr>rs_end := b\<rparr> # sls') seen = Inr sls"
      by (auto split: if_splits)
    have "tiles (rev sls' @ [sl\<lparr>rs_end := b\<rparr>]) (rs @ [(rs_file sl, rs_end sl, b)])"
      using Cons.prems(2) acc(1) r(2) l(1) by (intro tiles.extend) auto
    then have "tiles (rev (sl\<lparr>rs_end := b\<rparr> # sls')) (rs @ [(f, a, b)])" using acc(2) l(1) by simp
    from Cons.IH [OF l(2) this] Cons.prems(3) acc(1) ro show ?thesis by simp
  next
    case False
    with Cons.prems(1) ne r have l: "f \<notin> set seen"
        "slice_loop aff (\<lparr>rs_file = f, rs_start = a, rs_end = b\<rparr> # acc) (f # seen) = Inr sls"
      by (auto split: if_splits list.splits)
    have "tiles (rev acc @ [\<lparr>rs_file = f, rs_start = a, rs_end = b\<rparr>]) (rs @ [(f, a, b)])"
      using Cons.prems(2,3) l(1) r(2) by (intro tiles.new) auto
    then have "tiles (rev (\<lparr>rs_file = f, rs_start = a, rs_end = b\<rparr> # acc)) (rs @ [(f, a, b)])" by simp
    from Cons.IH [OF l(2) this] Cons.prems(3) ro show ?thesis by auto
  qed
qed simp

lemma find_scope_tiles:
  assumes "find_scope project from_episode = Inr sc"
  shows "tiles (sc_slices sc) (map range_of (sc_affected sc))"
    and "sc_affected sc = affected_entries project from_episode" and "sc_affected sc \<noteq> []"
    and "list_all (\<lambda>(_, d). \<not> locked_entry d) (sc_affected sc)"
proof -
  from assms obtain sls where s: "slice_loop (affected_entries project from_episode) [] [] = Inr sls"
      "sc = \<lparr>sc_slices = sls, sc_affected = affected_entries project from_episode\<rparr>"
      "affected_entries project from_episode \<noteq> []"
      "filter (\<lambda>(_, d). dict_ref d ''ledger_status'' = JStr ''unanchored'') (affected_entries project from_episode) = []"
    by (auto simp: find_scope_def Let_def split: if_splits sum.splits)
  show "tiles (sc_slices sc) (map range_of (sc_affected sc))"
    using slice_loop_tiles [OF s(1), of "[]"] s(2) by (simp add: tiles.none)
  show "sc_affected sc = affected_entries project from_episode" "sc_affected sc \<noteq> []" using s by simp_all
  show "list_all (\<lambda>(_, d). \<not> locked_entry d) (sc_affected sc)"
    using s(2,4) by (auto simp: filter_empty_conv list_all_iff locked_entry_def)
qed

subsection \<open>The drafts of the slices\<close>

lemma load_slices_grow:
  "load_slices fs sls texts = Inr texts' \<Longrightarrow> map_of texts f = Some t \<Longrightarrow> map_of texts' f = Some t"
proof (induction sls arbitrary: texts)
  case (Cons sl sls)
  show ?case
  proof (cases "map_of texts (rs_file sl)")
    case None
    with Cons.prems obtain t0 where "load_slices fs sls ((rs_file sl, t0) # texts) = Inr texts'"
      by (auto split: sum.splits if_splits)
    from Cons.IH [OF this] None Cons.prems(2) show ?thesis by (cases "f = rs_file sl") auto
  next
    case (Some t0)
    with Cons.prems have "load_slices fs sls texts = Inr texts'" by (auto split: if_splits)
    from Cons.IH [OF this Cons.prems(2)] show ?thesis .
  qed
qed simp

lemma load_slices_ok:
  "load_slices fs sls texts = Inr texts' \<Longrightarrow>
     list_all (\<lambda>sl. in_text (\<lambda>f. coalesce (map_of texts' f) []) (slice_range sl)) sls"
proof (induction fs sls texts arbitrary: texts' rule: load_slices.induct)
  case (2 fs sl sls texts)
  from "2.prems" obtain t texts1 where
    t: "(case map_of texts (rs_file sl) of Some t \<Rightarrow> Inr (t, texts)
         | None \<Rightarrow> (case load_normalized_source fs (rs_file sl) of Inl err \<Rightarrow> Inl err
                    | Inr t \<Rightarrow> Inr (t, (rs_file sl, t) # texts))) = Inr (t, texts1)"
    and b: "0 \<le> rs_start sl" "rs_start sl < rs_end sl" "rs_end sl \<le> int (length t)"
    and l: "load_slices fs sls texts1 = Inr texts'"
    by (auto split: sum.splits prod.splits if_splits)
  have "map_of texts1 (rs_file sl) = Some t" using t by (auto split: option.splits sum.splits)
  from load_slices_grow [OF l this] b have "in_text (\<lambda>f. coalesce (map_of texts' f) []) (slice_range sl)"
    by (simp add: slice_range_def)
  moreover have "list_all (\<lambda>sl. in_text (\<lambda>f. coalesce (map_of texts' f) []) (slice_range sl)) sls"
    using "2.IH" [OF t refl _ l] b by simp
  ultimately show ?case by simp
qed simp

definition planned_range :: "planned_episode \<Rightarrow> string \<times> int \<times> int" where
  "planned_range ep = (pe_file ep, pe_start ep, pe_end ep)"

lemma slice_episodes_ranges:
  "length drafts = length ends \<Longrightarrow>
     map planned_range (slice_episodes f start prev (zip drafts ends)) = map (\<lambda>(a, b). (f, a, b)) (new_ranges start prev ends)"
  by (induction drafts ends arbitrary: prev rule: list_induct2) (simp_all add: planned_range_def)

lemma slice_episodes_tile:
  assumes r: "resolve_boundaries (py_slice a b hay) drafts True False = Inr ends" and b: "0 \<le> a" "a < b" "b \<le> int (length hay)"
  shows "concat (map (\<lambda>ep. text_of (\<lambda>_. hay) (planned_range ep)) (slice_episodes f a a (zip drafts ends))) = py_slice a b hay"
    and "list_all (\<lambda>ep. pe_file ep = f \<and> pe_start ep < pe_end ep) (slice_episodes f a a (zip drafts ends))"
proof -
  from resolve_boundaries_sound [OF r] have e: "length ends = length drafts" "sorted_wrt (<) (0 # ends)" "ends \<noteq> []"
      "last ends = length (py_slice a b hay)" by (auto simp: list_all2_lengthD dest: list_all2_lengthD)
  have len: "length (py_slice a b hay) = nat b - nat a" using b by (simp add: py_slice_eq)
  have stop: "a + int (last (0 # ends)) = b" using e(3,4) len b by simp
  note t = new_ranges_tile [OF e(2) b(1), of hay]
  have c: "concat (map (\<lambda>(x, y). py_slice x y hay) (new_ranges a a ends)) = py_slice a b hay"
    using t(1) stop b(3) by simp
  have m: "map planned_range (slice_episodes f a a (zip drafts ends)) = map (\<lambda>(x, y). (f, x, y)) (new_ranges a a ends)"
    by (rule slice_episodes_ranges) (use e(1) in simp)
  have "map (\<lambda>ep. text_of (\<lambda>_. hay) (planned_range ep)) (slice_episodes f a a (zip drafts ends)) =
      map (text_of (\<lambda>_. hay)) (map planned_range (slice_episodes f a a (zip drafts ends)))" by simp
  also have "\<dots> = map (\<lambda>(x, y). py_slice x y hay) (new_ranges a a ends)"
    unfolding m by auto
  finally show "concat (map (\<lambda>ep. text_of (\<lambda>_. hay) (planned_range ep)) (slice_episodes f a a (zip drafts ends))) = py_slice a b hay"
    using c by simp
  have "list_all (\<lambda>r. fst r = f \<and> fst (snd r) < snd (snd r)) (map planned_range (slice_episodes f a a (zip drafts ends)))"
    unfolding m using t(2) stop b(3) by (auto simp: list_all_iff)
  then show "list_all (\<lambda>ep. pe_file ep = f \<and> pe_start ep < pe_end ep) (slice_episodes f a a (zip drafts ends))"
    by (auto simp: list_all_iff planned_range_def)
qed

lemma replan_slices_tile:
  assumes "replan_slices gen texts idx sls planned target = Inr (planned', target')"
    and "list_all (\<lambda>sl. in_text (\<lambda>f. coalesce (map_of texts f) []) (slice_range sl)) sls"
  shows "\<exists>new. planned' = planned @ new \<and>
     concat (map (\<lambda>ep. text_of (\<lambda>f. coalesce (map_of texts f) []) (planned_range ep)) new) =
       concat (map (\<lambda>sl. text_of (\<lambda>f. coalesce (map_of texts f) []) (slice_range sl)) sls) \<and>
     list_all (\<lambda>ep. pe_start ep < pe_end ep \<and> pe_file ep \<in> rs_file ` set sls) new"
  using assms
proof (induction sls arbitrary: idx planned target)
  case (Cons sl sls)
  let ?txt = "\<lambda>f. coalesce (map_of texts f) []"
  let ?hay = "?txt (rs_file sl)"
  from Cons.prems(1) obtain drafts ends d target1 where
    r: "request_validated_drafts (gen idx planned) (py_slice (rs_start sl) (rs_end sl) ?hay) True False None
          max_plan_attempts 1 None = Inr (drafts, ends, d)"
    and l: "replan_slices gen texts (Suc idx) sls
       (planned @ slice_episodes (rs_file sl) (rs_start sl) (rs_start sl) (zip drafts ends)) target1 = Inr (planned', target')"
    by (auto simp: Let_def split: sum.splits prod.splits)
  let ?here = "slice_episodes (rs_file sl) (rs_start sl) (rs_start sl) (zip drafts ends)"
  from Cons.prems(2) have b: "0 \<le> rs_start sl" "rs_start sl < rs_end sl" "rs_end sl \<le> int (length ?hay)"
    by (simp_all add: slice_range_def)
  note t = slice_episodes_tile [OF request_sound [OF r] b, of "rs_file sl"]
  have "text_of ?txt (planned_range ep) = text_of (\<lambda>_. ?hay) (planned_range ep)" if "ep \<in> set ?here" for ep
    using t(2) that by (auto simp: list_all_iff planned_range_def)
  then have here: "concat (map (\<lambda>ep. text_of ?txt (planned_range ep)) ?here) = text_of ?txt (slice_range sl)"
    using t(1) by (simp add: slice_range_def cong: map_cong)
  from Cons.IH [OF l] Cons.prems(2) obtain new where new: "planned' = (planned @ ?here) @ new"
     "concat (map (\<lambda>ep. text_of ?txt (planned_range ep)) new) = concat (map (\<lambda>sl. text_of ?txt (slice_range sl)) sls)"
     "list_all (\<lambda>ep. pe_start ep < pe_end ep \<and> pe_file ep \<in> rs_file ` set sls) new" by auto
  have "list_all (\<lambda>ep. pe_start ep < pe_end ep \<and> pe_file ep \<in> rs_file ` set (sl # sls)) (?here @ new)"
    using new(3) t(2) by (auto simp: list_all_iff)
  with new(1,2) here show ?case by (intro exI [of _ "?here @ new"]) simp
qed simp

subsection \<open>Properties\<close>

text \<open>The text of an affected entry in the job's sources.\<close>

definition job_text :: "replan_job \<Rightarrow> string \<times> int \<times> int \<Rightarrow> string" where
  "job_text job r = text_of (\<lambda>f. coalesce (map_of (rj_texts job) f) []) r"

text \<open>C14. A replan loses nothing and adds nothing: whatever the text model proposed, the new
  episodes are non-empty ranges of the files of the old ones, and their texts in order make up
  exactly the text of the episodes they replace, from the requested one to the last; none of
  those is an unanchored one.\<close>

theorem replan_covers:
  assumes "replan_prepare gen fs project from_episode confirm = Inr (ReplanReady job)"
  shows "concat (map (\<lambda>ep. job_text job (planned_range ep)) (rj_planned job)) =
       concat (map (\<lambda>ne. job_text job (range_of ne)) (affected_entries project from_episode)) \<and>
     sc_affected (rj_scope job) = affected_entries project from_episode \<and>
     list_all (\<lambda>ep. pe_start ep < pe_end ep \<and> pe_file ep \<in> rs_file ` set (sc_slices (rj_scope job))) (rj_planned job) \<and>
     list_all (\<lambda>(_, d). \<not> locked_entry d) (affected_entries project from_episode)"
proof -
  from assms obtain scope texts planned target where
    sc: "find_scope project from_episode = Inr scope"
    and l: "load_slices fs (sc_slices scope) [] = Inr texts"
    and r: "replan_slices gen texts 0 (sc_slices scope) [] None = Inr (planned, target)"
    and job: "rj_scope job = scope" "rj_planned job = planned" "rj_texts job = texts"
    by (auto simp: replan_prepare_def Let_def split: sum.splits prod.splits if_splits)
  note t = find_scope_tiles [OF sc]
  note b = load_slices_ok [OF l]
  from replan_slices_tile [OF r b] tiles_text [OF t(1) b] job t(2,4) show ?thesis
    by (auto simp: job_text_def comp_def)
qed

definition day_ledger :: dict where
  "day_ledger =
     [(''episodes'', JArr [JObj day_entry,
        JObj [(''episode'', JInt 2), (''ledger_status'', JStr ''planned''),
              (''source_range'', JObj [(''source_file'', JStr ''source/novel.txt''), (''start'', JInt 8), (''end'', JInt 20)])]]),
      (''planning_cursor'', cursor_json ''source/novel.txt'' 20)]"

definition merge_gen :: "nat \<Rightarrow> planned_episode list \<Rightarrow> reject_reason list option \<Rightarrow> nat \<Rightarrow> reject_reason list + plan_draft" where
  "merge_gen idx planned failure attempt =
     Inr \<lparr>pd_episodes = [\<lparr>ed_title = ''All'', ed_hook = ''h'', ed_end_anchor = ''two.'', ed_outline = None\<rparr>],
          pd_target_units = Some 9\<rparr>"

lemma replan_covers_witness:
  "\<exists>job. replan_prepare merge_gen plain_fs day_ledger 1 False = Inr (ReplanReady job) \<and>
     length (rj_planned job) = 1 \<and>
     concat (map (\<lambda>ep. job_text job (planned_range ep)) (rj_planned job)) =
       concat (map (\<lambda>ne. job_text job (range_of ne)) (affected_entries day_ledger 1)) \<and>
     length (affected_entries day_ledger 1) = 2"
proof -
  let ?r = "replan_prepare merge_gen plain_fs day_ledger 1 False"
  have "case ?r of Inr (ReplanReady job) \<Rightarrow> length (rj_planned job) = 1 | _ \<Rightarrow> False" by code_simp
  then obtain job where r: "?r = Inr (ReplanReady job)" "length (rj_planned job) = 1"
    by (auto split: sum.splits replan_prepared.splits)
  have "length (affected_entries day_ledger 1) = 2" by code_simp
  with r replan_covers [OF r(1)] show ?thesis by blast
qed

definition outside :: "int \<Rightarrow> json \<Rightarrow> bool" where
  "outside from_episode e = (case entry_num e of None \<Rightarrow> True | Some n \<Rightarrow> n < from_episode)"

lemma affected_entry_iff:
  "affected_entry from_episode e = Some ne \<longleftrightarrow> e = JObj (snd ne) \<and> entry_num e = Some (fst ne) \<and> from_episode \<le> fst ne"
  by (cases ne; cases "entry_num e") (auto simp: affected_entry_def dest!: entry_num_JObj split: if_splits)

lemma affected_nums:
  "fst ` set (affected_entries p from_episode) = {n. Some n \<in> entry_num ` set (episode_entries p) \<and> from_episode \<le> n}"
proof -
  have "ne \<in> set (affected_entries p from_episode) \<longleftrightarrow> (\<exists>e\<in>set (episode_entries p). affected_entry from_episode e = Some ne)" for ne
    by (force simp: affected_entries_def map_filter_def)
  then have "fst ` set (affected_entries p from_episode) =
      {n. \<exists>e\<in>set (episode_entries p). \<exists>d. affected_entry from_episode e = Some (n, d)}" by force
  also have "\<dots> = {n. Some n \<in> entry_num ` set (episode_entries p) \<and> from_episode \<le> n}"
  proof (rule set_eqI, rule iffI)
    fix n assume "n \<in> {n. Some n \<in> entry_num ` set (episode_entries p) \<and> from_episode \<le> n}"
    then obtain e where e: "e \<in> set (episode_entries p)" "entry_num e = Some n" "from_episode \<le> n" by force
    with entry_num_JObj [OF e(2)] show "n \<in> {n. \<exists>e\<in>set (episode_entries p). \<exists>d. affected_entry from_episode e = Some (n, d)}"
      by (auto simp: affected_entry_iff)
  qed (force simp: affected_entry_iff)
  finally show ?thesis .
qed

lemma kept_outside:
  "filter (\<lambda>e. case entry_num e of None \<Rightarrow> True | Some n \<Rightarrow> n \<notin> fst ` set (affected_entries p from_episode)) (episode_entries p)
     = filter (outside from_episode) (episode_entries p)"
  by (rule filter_cong [OF refl]) (auto simp: outside_def affected_nums image_iff split: option.split)

lemma replanned_nums: "e \<in> set (replanned_entries affected num eps) \<Longrightarrow> \<exists>n. entry_num e = Some n \<and> num \<le> n"
  by (induction affected num eps rule: replanned_entries.induct) fastforce+

lemma sort_outside:
  assumes "list_all (\<lambda>e. entry_num e \<noteq> None \<and> \<not> outside from_episode e) extra"
  shows "filter (outside from_episode) (sort_episodes_if_possible (filter (outside from_episode) es @ extra)) =
     filter (outside from_episode) (sort_episodes_if_possible es)"
proof -
  let ?k = "\<lambda>e. coalesce (entry_num e) 0"
  have f: "filter (outside from_episode) (filter (outside from_episode) es @ extra) = filter (outside from_episode) es"
    using assms by (auto simp: filter_empty_conv list_all_iff)
  have "list_all (\<lambda>e. entry_num e \<noteq> None) (filter (outside from_episode) es @ extra) \<longleftrightarrow> list_all (\<lambda>e. entry_num e \<noteq> None) es"
    using assms by (auto simp: list_all_iff outside_def split: option.splits)
  then show ?thesis
    using f by (auto simp: sort_episodes_if_possible_def filter_sort simp del: filter_append)
qed

lemma replan_Replanned:
  assumes "replan gen units clean fs0 stored0 fs stored from_episode confirm = Inr (Replanned res p' fs')"
  obtains job where
    "replan_prepare gen fs0 (backfill_episode_ledger fs0 stored0) from_episode confirm = Inr (ReplanReady job)"
    "replan_commit units clean (language_of (backfill_episode_ledger fs0 stored0)) job fs stored = Inr (res, p', fs')"
  using assms by (auto simp: replan_def Let_def split: sum.splits replan_prepared.splits)

lemma replan_prepare_parts:
  assumes "replan_prepare gen fs project from_episode confirm = Inr (ReplanReady job)"
  shows "rj_from job = from_episode" "rj_consumed job = consumed_nums (affected_entries project from_episode)"
    "confirm \<or> rj_consumed job = []"
  using assms find_scope_tiles(2) [of project from_episode]
  by (auto simp: replan_prepare_def Let_def split: sum.splits prod.splits if_splits)

lemma replan_commit_parts:
  assumes "replan_commit units clean lang job fs stored = Inr (res, p', fs')"
  defines "p \<equiv> backfill_episode_ledger fs stored"
  shows "set (consumed_nums (affected_entries p (rj_from job))) \<subseteq> set (rj_consumed job)"
    and "episode_entries p' = sort_episodes_if_possible
        (filter (\<lambda>e. case entry_num e of None \<Rightarrow> True | Some n \<Rightarrow> n \<notin> fst ` set (affected_entries p (rj_from job)))
           (episode_entries p) @ replanned_entries (affected_entries p (rj_from job)) (rj_from job) (rj_planned job))"
    and "pr_stale res = filter (\<lambda>n. new_status (affected_entries p (rj_from job)) n = ''stale'')
        (map (\<lambda>i. rj_from job + int i) [0..<length (rj_planned job)])"
proof -
  from assms(1) obtain current where c: "find_scope p (rj_from job) = Inr current"
    by (auto simp: replan_commit_def p_def Let_def split: sum.splits)
  note a = find_scope_tiles(2) [OF c]
  from assms(1) c [unfolded p_def] show "set (consumed_nums (affected_entries p (rj_from job))) \<subseteq> set (rj_consumed job)"
    unfolding a [symmetric] by (auto simp: replan_commit_def p_def Let_def split: sum.splits if_splits)
  from assms(1) c [unfolded p_def] show "episode_entries p' = sort_episodes_if_possible
        (filter (\<lambda>e. case entry_num e of None \<Rightarrow> True | Some n \<Rightarrow> n \<notin> fst ` set (affected_entries p (rj_from job)))
           (episode_entries p) @ replanned_entries (affected_entries p (rj_from job)) (rj_from job) (rj_planned job))"
    unfolding a [symmetric]
    by (auto simp: replan_commit_def p_def Let_def episode_entries_def dict_ref_put split: sum.splits if_splits option.splits)
  from assms(1) c [unfolded p_def] show "pr_stale res = filter (\<lambda>n. new_status (affected_entries p (rj_from job)) n = ''stale'')
        (map (\<lambda>i. rj_from job + int i) [0..<length (rj_planned job)])"
    unfolding a [symmetric] by (auto simp: replan_commit_def p_def Let_def split: sum.splits if_splits)
qed

text \<open>Consumed episodes are replaced only with consent: when a replan commits, every episode
  that is consumed at that moment was shown as consumed in the project the call read, and without
  the confirmation flag there is none; and the entries before the requested episode, like those
  without a number, are in the new ledger exactly as they were.\<close>

theorem consumed_protected:
  assumes "replan gen units clean fs0 stored0 fs stored from_episode confirm = Inr (Replanned res p' fs')"
  shows "set (consumed_nums (affected_entries (backfill_episode_ledger fs stored) from_episode))
       \<subseteq> set (consumed_nums (affected_entries (backfill_episode_ledger fs0 stored0) from_episode)) \<and>
     (if confirm then True else consumed_nums (affected_entries (backfill_episode_ledger fs stored) from_episode) = []) \<and>
     filter (outside from_episode) (episode_entries p') =
       filter (outside from_episode) (sort_episodes_if_possible (episode_entries (backfill_episode_ledger fs stored)))"
  using assms
proof (rule replan_Replanned)
  fix job
  assume r: "replan_prepare gen fs0 (backfill_episode_ledger fs0 stored0) from_episode confirm = Inr (ReplanReady job)"
    and c: "replan_commit units clean (language_of (backfill_episode_ledger fs0 stored0)) job fs stored = Inr (res, p', fs')"
  note rp = replan_prepare_parts [OF r] and cp = replan_commit_parts [OF c, unfolded rp(1)]
  have "list_all (\<lambda>e. entry_num e \<noteq> None \<and> \<not> outside from_episode e)
      (replanned_entries (affected_entries (backfill_episode_ledger fs stored) from_episode) from_episode (rj_planned job))"
    using replanned_nums by (fastforce simp: list_all_iff outside_def)
  from sort_outside [OF this] cp(1,2) rp(2,3) show ?thesis
    by (auto simp: kept_outside)
qed

lemma consumed_protected_witness:
  "\<exists>res p' fs'. replan merge_gen (\<lambda>_ _. 0) (\<lambda>t. t) plain_fs day_ledger plain_fs day_ledger 1 False = Inr (Replanned res p' fs') \<and>
     consumed_nums (affected_entries (backfill_episode_ledger plain_fs day_ledger) 1) = []"
proof -
  let ?r = "replan merge_gen (\<lambda>_ _. 0) (\<lambda>t. t) plain_fs day_ledger plain_fs day_ledger 1 False"
  have "case ?r of Inr (Replanned res p' fs') \<Rightarrow> True | _ \<Rightarrow> False" by code_simp
  then obtain res p' fs' where r: "?r = Inr (Replanned res p' fs')"
    by (auto split: sum.splits replan_outcome.splits)
  with consumed_protected [OF r] show ?thesis by simp
qed

subsection \<open>The screenplay shortcut\<close>

lemma screenplay_segments_last:
  "ms \<noteq> [] \<Longrightarrow> \<exists>t h a. last (screenplay_segments hay ms) = (t, h, a, length hay) \<and> screenplay_segments hay ms \<noteq> []"
proof (induction hay ms rule: screenplay_segments.induct)
  case (2 hay a b title ms)
  then show ?case by (cases ms) (auto simp: Let_def)
qed simp

lemma screenplay_entries_last:
  "segs \<noteq> [] \<Longrightarrow> last segs = (t, h, a, b) \<Longrightarrow>
     \<exists>n. JObj [(''episode'', JInt n), (''title'', JStr t), (''hook'', JStr h),
           (''source_range'', JObj [(''source_file'', JStr rel), (''start'', JInt (start + int a)),
                                    (''end'', JInt (start + int b))]),
           (''ledger_status'', JStr ''planned'')] \<in> set (screenplay_entries rel start num segs)"
proof (induction rel start num segs rule: screenplay_entries.induct)
  case (2 rel start num title hook a' b' segs)
  then show ?case by (cases segs) auto
qed simp

text \<open>The screenplay shortcut fails on every file that was partly planned: when the effective
  start lies inside the source (a first batch was committed, or the backfill placed the cursor
  there) and the rest shows two title markers, the call ends with an error for every state the
  commit may find, because the ranges it writes are offsets of the whole file while the text
  the derived files are cut from is only the rest. (From the start of a file it works.)\<close>

theorem screenplay_shortcut_fails_midway:
  assumes start: "effective_start fs0 project = Inr (rel, start)" "load_normalized_source fs0 rel = Inr whole"
    and pos: "0 < start" "start < int (length whole)"
    and markers: "2 \<le> length (title_markers (py_from start whole))"
  shows "isl (try_screenplay_split units clean fs0 project fs stored)"
proof (rule ccontr)
  let ?hay = "py_from start whole"
  let ?p = "backfill_episode_ledger fs stored"
  let ?segs = "screenplay_segments ?hay (title_markers ?hay)"
  let ?p1 = "dict_put ?p ''episodes'' (JArr (sort_episodes_if_possible
      (live_entries ?p @ screenplay_entries rel start (next_number (live_entries ?p)) ?segs)))"
  let ?p2 = "dict_put ?p1 ''planning_cursor'' (cursor_json rel (start + int (length ?hay)))"
  assume "\<not> isl (try_screenplay_split units clean fs0 project fs stored)"
  then obtain fs' where r: "reconcile_derived_files clean fs [(rel, ?hay)] ?p2 = Inr fs'"
    using start pos markers
    by (auto simp: try_screenplay_split_def Let_def isl_def split: sum.splits if_splits)
  have eps: "episode_entries ?p2 = sort_episodes_if_possible
      (live_entries ?p @ screenplay_entries rel start (next_number (live_entries ?p)) ?segs)"
    by (simp add: episode_entries_def dict_ref_put)
  from markers have "title_markers ?hay \<noteq> []" by auto
  from screenplay_segments_last [OF this, of ?hay] obtain t h a where
    "?segs \<noteq> []" "last ?segs = (t, h, a, length ?hay)" by blast
  from screenplay_entries_last [OF this, of rel start "next_number (live_entries ?p)"] obtain n where
    "JObj [(''episode'', JInt n), (''title'', JStr t), (''hook'', JStr h),
           (''source_range'', JObj [(''source_file'', JStr rel), (''start'', JInt (start + int a)),
                                    (''end'', JInt (start + int (length ?hay)))]),
           (''ledger_status'', JStr ''planned'')] \<in> set (episode_entries ?p2)" (is "JObj ?e \<in> _")
    unfolding eps by auto
  moreover have "entry_num (JObj ?e) = Some n" by (simp add: entry_num_def dict_ref_def dict_get_def)
  moreover have "\<not> locked_entry ?e" by (simp add: locked_entry_def dict_ref_def dict_get_def)
  moreover obtain ws where "writes_for fs [(rel, ?hay)] (episode_entries ?p2) ws"
    using r by (rule reconcile_Inr)
  ultimately obtain c where "slice_is fs [(rel, ?hay)] ?e c" using writes_for_mem by blast
  then have "start + int (length ?hay) \<le> int (length ?hay)"
    by (simp add: slice_is_def read_range_def cached_source_def dict_ref_def dict_get_def)
  with pos(1) show False by simp
qed

definition script_fs :: project_fs where
  "script_fs = day_fs\<lparr>fs_source := Some [(''play.txt'', Some (''Foreword.'' @ [CHR 0x0A] @ ''EP1'' @ [CHR 0x0A] @ ''Rain.'' @
      [CHR 0x0A] @ ''EP2'' @ [CHR 0x0A] @ ''Sun.''))]\<rparr>"

lemma screenplay_shortcut_fails_midway_witness:
  "isl (try_screenplay_split (\<lambda>_ _. 0) (\<lambda>t. t) script_fs
      [(''planning_cursor'', cursor_json ''source/play.txt'' 9)] script_fs []) \<and>
   \<not> isl (try_screenplay_split (\<lambda>_ _. 0) (\<lambda>t. t) script_fs [] script_fs [])"
proof
  let ?p = "[(''planning_cursor'', cursor_json ''source/play.txt'' 9)]"
  let ?whole = "''Foreword.'' @ [CHR 0x0A] @ ''EP1'' @ [CHR 0x0A] @ ''Rain.'' @ [CHR 0x0A] @ ''EP2'' @ [CHR 0x0A] @ ''Sun.''"
  have s: "effective_start script_fs ?p = Inr (''source/play.txt'', 9)" by code_simp
  have l: "load_normalized_source script_fs ''source/play.txt'' = Inr ?whole" by code_simp
  have m: "2 \<le> length (title_markers (py_from 9 ?whole))" by code_simp
  have b: "0 < (9 :: int)" "9 < int (length ?whole)" by simp_all
  show "isl (try_screenplay_split (\<lambda>_ _. 0) (\<lambda>t. t) script_fs ?p script_fs [])"
    by (rule screenplay_shortcut_fails_midway [OF s l b m])
  show "\<not> isl (try_screenplay_split (\<lambda>_ _. 0) (\<lambda>t. t) script_fs [] script_fs [])" by code_simp
qed

end
