(* ===== verification/VideoUnits.thy ===== *)
theory VideoUnits
  imports PyJson
begin

text \<open>
  The duration guard of reference-video units (\<open>lib/reference_video/duration_guard.py\<close>): the cap
  of one generation call, the splitting of long shots, the grouping of shots into units and the
  renumbering. The registry of provider models is an argument, as its supported durations per
  provider and model; the notes put on the parts of a split shot are worded in English.
\<close>

type_synonym duration_registry = "string \<Rightarrow> string \<Rightarrow> int list option"

definition hard_max_duration :: int where
  "hard_max_duration = 15"

definition max_shots :: nat where
  "max_shots = 4"

text \<open>\<open>s.split("/", 1)\<close> when there is a slash.\<close>

definition split_slash :: "string \<Rightarrow> (string \<times> string) option" where
  "split_slash s =
     (if CHR ''/'' \<in> set s
      then Some (takeWhile (\<lambda>c. c \<noteq> CHR ''/'') s, tl (dropWhile (\<lambda>c. c \<noteq> CHR ''/'') s)) else None)"

definition duration_candidates :: "duration_registry \<Rightarrow> dict \<Rightarrow> int option \<Rightarrow> int list" where
  "duration_candidates registry project max_duration =
     (case max_duration of Some m \<Rightarrow> if 0 < m then [m] else [] | None \<Rightarrow> []) @
     (case dict_ref project ''_supported_durations'' of
        JArr ds \<Rightarrow>
          let parsed = filter (\<lambda>i. 0 < i) (List.map_filter as_int ds) in
          if parsed = [] then [] else [Max (set parsed)]
      | _ \<Rightarrow> []) @
     (case as_str (dict_ref project ''video_backend'') of
        None \<Rightarrow> []
      | Some backend \<Rightarrow>
          (case split_slash backend of
             None \<Rightarrow> []
           | Some (provider, model) \<Rightarrow>
               (case registry provider model of
                  None \<Rightarrow> []
                | Some ds \<Rightarrow> if ds = [] then [] else [Max (set ds)])))"

definition resolve_reference_video_max_duration :: "duration_registry \<Rightarrow> dict \<Rightarrow> int option \<Rightarrow> int" where
  "resolve_reference_video_max_duration registry project max_duration =
     (let candidates = duration_candidates registry project max_duration;
          cap = (if candidates = [] then hard_max_duration else Min (set candidates))
      in max 1 (min cap hard_max_duration))"

definition split_duration :: "json \<Rightarrow> int \<Rightarrow> int list" where
  "split_duration duration max_duration =
     (let total = max 1 (coalesce (py_int_value duration) 1);
          cap = max 1 max_duration
      in if total \<le> cap then [total]
         else let chunk_count = (total + cap - 1) div cap;
                  base = total div chunk_count;
                  remainder = total mod chunk_count
              in map (\<lambda>index. base + (if int index < remainder then 1 else 0)) [0..<nat chunk_count])"

definition shot_duration :: "dict \<Rightarrow> int" where
  "shot_duration shot = hd (split_duration (dict_ref shot ''duration'') hard_max_duration)"

definition split_note :: "nat \<Rightarrow> nat \<Rightarrow> string" where
  "split_note index count =
     ''Automatic split: the '' @
     (if index = 1 then ''first half'' else if index = count then ''second half'' else ''part '' @ show_nat index) @
     '' of a long shot, showing only what happens in its own duration.''"

definition split_long_shot :: "dict \<Rightarrow> int \<Rightarrow> dict list" where
  "split_long_shot shot max_duration =
     (let chunks = split_duration (dict_ref shot ''duration'') max_duration in
      if length chunks = 1 then [dict_put shot ''duration'' (JInt (hd chunks))]
      else map (\<lambda>(index, chunk).
             let cloned = dict_put shot ''duration'' (JInt chunk) in
             case as_str (dict_ref shot ''text'') of
               Some t \<Rightarrow>
                 if strip t \<noteq> []
                 then dict_put cloned ''text'' (JStr (strip t @ [CHR 0x0A, CHR 0x0A] @ split_note (index + 1) (length chunks)))
                 else cloned
             | None \<Rightarrow> cloned)
           (enumerate 0 chunks))"

text \<open>
  The grouping loop that both derivations of units share: a unit is closed when it holds the
  maximal number of shots or when the next shot would exceed the limit, if there is one.
\<close>

fun pack_shots :: "('s \<Rightarrow> int) \<Rightarrow> int option \<Rightarrow> 's list \<Rightarrow> int \<Rightarrow> 's list \<Rightarrow> 's list list" where
  "pack_shots dur limit current acc [] = (if current = [] then [] else [current])"
| "pack_shots dur limit current acc (s # ss) =
     (let over_count = max_shots \<le> length current;
          over_duration = (case limit of Some m \<Rightarrow> current \<noteq> [] \<and> m < acc + dur s | None \<Rightarrow> False)
      in if over_count \<or> over_duration then current # pack_shots dur limit [s] (dur s) ss
         else pack_shots dur limit (current @ [s]) (acc + dur s) ss)"

definition group_shots :: "json \<Rightarrow> int \<Rightarrow> dict list list" where
  "group_shots shots max_duration =
     (case shots of
        JArr raws \<Rightarrow>
          pack_shots shot_duration (Some max_duration) [] 0
            (concat (map (\<lambda>shot. split_long_shot shot max_duration) (List.map_filter as_dict raws)))
      | _ \<Rightarrow> [])"

definition shot_identities :: "dict \<Rightarrow> (json \<times> json) list" where
  "shot_identities unit =
     map (\<lambda>s. (dict_ref s ''duration'', dict_ref s ''text''))
       (List.map_filter as_dict (coalesce (as_list (dict_ref unit ''shots'')) []))"

text \<open>\<open>_unit_identity(new) == _unit_identity(old)\<close>, component by component.\<close>

definition same_unit_identity :: "dict \<Rightarrow> dict \<Rightarrow> bool" where
  "same_unit_identity new old =
     (list_all2 (\<lambda>(d, t) (d', t'). py_eq d d' \<and> py_eq t t') (shot_identities new) (shot_identities old) \<and>
      py_eq (dict_ref new ''references'') (dict_ref old ''references'') \<and>
      py_eq (dict_ref new ''duration_seconds'') (dict_ref old ''duration_seconds''))"

text \<open>\<open>GeneratedAssets().model_dump()\<close> of \<open>lib/script_models.py\<close>.\<close>

definition fresh_assets :: dict where
  "fresh_assets =
     [(''storyboard_image'', JNull), (''storyboard_last_image'', JNull), (''grid_id'', JNull),
      (''grid_cell_index'', JNull), (''video_clip'', JNull), (''video_thumbnail'', JNull),
      (''video_uri'', JNull), (''narration_audio'', JNull), (''status'', JStr ''pending'')]"

definition unit_id :: "int \<Rightarrow> int \<Rightarrow> string" where
  "unit_id episode n = ''E'' @ show_int episode @ ''U'' @ show_int n"

definition normalized_unit :: "int \<Rightarrow> dict \<Rightarrow> dict list list \<Rightarrow> int \<Rightarrow> dict list \<Rightarrow> dict" where
  "normalized_unit episode unit groups n members =
     (let new = dict_put (dict_put (dict_put unit ''unit_id'' (JStr (unit_id episode n)))
                  ''shots'' (JArr (map JObj members)))
                  ''duration_seconds'' (JInt (sum_list (map shot_duration members)));
          same_unit = (length groups = 1 \<and> dict_ref new ''unit_id'' = dict_ref unit ''unit_id'');
          same_identity = (same_unit \<and> same_unit_identity new unit)
      in if same_identity then new
         else dict_pop (dict_put new ''generated_assets'' (JObj fresh_assets)) ''prompt_override'')"

fun normalize_groups :: "int \<Rightarrow> dict \<Rightarrow> dict list list \<Rightarrow> int \<Rightarrow> dict list list \<Rightarrow> dict list" where
  "normalize_groups episode unit groups n [] = []"
| "normalize_groups episode unit groups n (g # gs) =
     normalized_unit episode unit groups n g # normalize_groups episode unit groups (n + 1) gs"

fun normalize_loop :: "int \<Rightarrow> int \<Rightarrow> int \<Rightarrow> json list \<Rightarrow> dict list" where
  "normalize_loop cap episode n [] = []"
| "normalize_loop cap episode n (u # us) =
     (case u of
        JObj unit \<Rightarrow>
          let groups = group_shots (dict_ref unit ''shots'') cap in
          normalize_groups episode unit groups n groups @
          normalize_loop cap episode (n + int (length groups)) us
      | _ \<Rightarrow> normalize_loop cap episode n us)"

definition normalize_reference_video_units ::
  "duration_registry \<Rightarrow> json \<Rightarrow> int \<Rightarrow> dict option \<Rightarrow> int option \<Rightarrow> dict list" where
  "normalize_reference_video_units registry units episode project max_duration =
     (case units of
        JArr us \<Rightarrow>
          normalize_loop (resolve_reference_video_max_duration registry (or_empty project) max_duration) episode 1 us
      | _ \<Rightarrow> [])"

text \<open>The script with its units, its duration and the count of units in its metadata.\<close>

definition normalize_reference_video_script ::
  "duration_registry \<Rightarrow> dict \<Rightarrow> int \<Rightarrow> dict option \<Rightarrow> int option \<Rightarrow> dict list \<times> dict" where
  "normalize_reference_video_script registry script episode project max_duration =
     (let normalized = normalize_reference_video_units registry (dict_ref script ''video_units'') episode project max_duration;
          total = sum_list (map (\<lambda>u. coalesce (py_int_value (dict_ref u ''duration_seconds'')) 0) normalized);
          script1 = dict_put (dict_put script ''video_units'' (JArr (map JObj normalized))) ''duration_seconds'' (JInt total)
      in (normalized,
          case dict_ref script1 ''metadata'' of
            JObj metadata \<Rightarrow>
              dict_put script1 ''metadata'' (JObj (dict_put metadata ''total_units'' (JInt (int (length normalized)))))
          | _ \<Rightarrow> script1))"

section \<open>Splitting and grouping\<close>

lemma resolved_cap:
  "1 \<le> resolve_reference_video_max_duration registry project m"
  "resolve_reference_video_max_duration registry project m \<le> hard_max_duration"
  by (auto simp: resolve_reference_video_max_duration_def hard_max_duration_def Let_def)

lemma sum_list_one_more:
  "sum_list (map (\<lambda>i. b + (if int i < r then 1 else 0)) [0..<n]) = int n * b + max 0 (min r (int n))"
  by (induction n) (auto simp: algebra_simps max_def min_def)

lemma ceil_div_bounds:
  fixes t c n :: int
  assumes "1 \<le> c" and "1 \<le> t" and n: "n = (t + c - 1) div c"
  shows "1 \<le> n" "n \<le> t" "t \<le> n * c"
proof -
  have eq: "n * c = t + c - 1 - (t + c - 1) mod c"
    unfolding n by (simp add: minus_mod_eq_div_mult)
  moreover have mod: "0 \<le> (t + c - 1) mod c" "(t + c - 1) mod c < c" using assms(1) by simp_all
  ultimately show tn: "t \<le> n * c" by linarith
  show "1 \<le> n"
  proof (rule ccontr)
    assume "\<not> 1 \<le> n"
    then have "n * c \<le> 0" using assms(1) by (intro mult_nonpos_nonneg) auto
    with tn assms(2) show False by simp
  qed
  show "n \<le> t"
  proof (rule ccontr)
    assume "\<not> n \<le> t"
    then have "(t + 1) * c \<le> n * c" using assms(1) by (intro mult_right_mono) auto
    moreover have "t \<le> t * c" using assms(1,2) by simp
    moreover have "(t + 1) * c = t * c + c" by (simp add: algebra_simps)
    ultimately show False using eq mod(1) by linarith
  qed
qed

lemma balanced_parts:
  fixes t c n :: int
  assumes "1 \<le> n" and "n \<le> t" and "t \<le> n * c"
  shows "1 \<le> t div n" "t div n \<le> c" "0 < t mod n \<Longrightarrow> t div n + 1 \<le> c"
proof -
  have t: "t = n * (t div n) + t mod n" by simp
  from assms show "1 \<le> t div n" by (simp add: pos_imp_zdiv_pos_iff int_one_le_iff_zero_less)
  have "n * (t div n) \<le> n * c" using t assms pos_mod_sign [of n t] by linarith
  with assms(1) show "t div n \<le> c" by simp
  show "t div n + 1 \<le> c" if "0 < t mod n"
  proof -
    have "n * (t div n) < n * c" using t assms(3) that by linarith
    with assms(1) show ?thesis by simp
  qed
qed

text \<open>The chunks are balanced: they add up to the duration and none exceeds the cap.\<close>

lemma split_duration_chunks:
  fixes d m
  defines "duration \<equiv> max 1 (coalesce (py_int_value d) 1)"
  shows "sum_list (split_duration d m) = duration" "split_duration d m \<noteq> []"
    "c \<in> set (split_duration d m) \<Longrightarrow> 1 \<le> c \<and> c \<le> max 1 m"
proof -
  let ?cap = "max 1 m" and ?chunks = "split_duration d m"
  have "sum_list ?chunks = duration \<and> ?chunks \<noteq> [] \<and> (\<forall>c\<in>set ?chunks. 1 \<le> c \<and> c \<le> ?cap)"
  proof (cases "duration \<le> ?cap")
    case True
    then show ?thesis by (simp add: split_duration_def duration_def)
  next
    case False
    define n where "n = (duration + ?cap - 1) div ?cap"
    define b where "b = duration div n"
    define r where "r = duration mod n"
    have n: "1 \<le> n" "n \<le> duration" "duration \<le> n * ?cap"
      by (rule ceil_div_bounds [OF _ _ n_def]; simp add: duration_def)+
    note parts = balanced_parts [OF n, folded b_def r_def]
    have chunks: "?chunks = map (\<lambda>i. b + (if int i < r then 1 else 0)) [0..<nat n]"
      using False by (simp add: split_duration_def duration_def n_def b_def r_def Let_def)
    from n(1) have r: "0 \<le> r" "r < n" by (simp_all add: r_def)
    have "n * b + r = duration" by (simp add: b_def r_def)
    with n(1) r have "sum_list ?chunks = duration"
      unfolding chunks sum_list_one_more by (simp add: max_def min_def)
    moreover have "\<forall>c\<in>set ?chunks. 1 \<le> c \<and> c \<le> ?cap"
      unfolding chunks using parts by auto
    ultimately show ?thesis using n(1) chunks by simp
  qed
  then show "sum_list ?chunks = duration" "?chunks \<noteq> []"
    "c \<in> set ?chunks \<Longrightarrow> 1 \<le> c \<and> c \<le> max 1 m" by auto
qed

lemma pack_shots_concat: "concat (pack_shots dur limit cur t ss) = cur @ ss"
  by (induction dur limit cur t ss rule: pack_shots.induct) (auto simp: Let_def)

lemma pack_shots_groups:
  assumes "g \<in> set (pack_shots dur limit cur t ss)" and "t = sum_list (map dur cur)"
    and "length cur \<le> max_shots" and "limit = Some m \<Longrightarrow> length cur = 1 \<or> t \<le> m" and "limit = Some m \<Longrightarrow> 0 \<le> m"
  shows "g \<noteq> [] \<and> length g \<le> max_shots \<and> (limit = Some m \<longrightarrow> length g = 1 \<or> sum_list (map dur g) \<le> m)"
  using assms
proof (induction dur limit cur t ss rule: pack_shots.induct)
  case (1 dur limit cur t)
  then show ?case by (auto split: if_splits)
next
  case (2 dur limit cur t s ss)
  let ?count = "max_shots \<le> length cur"
  let ?over = "\<exists>m. limit = Some m \<and> cur \<noteq> [] \<and> m < t + dur s"
  have step: "pack_shots dur limit cur t (s # ss) =
      (if ?count \<or> ?over then cur # pack_shots dur limit [s] (dur s) ss
       else pack_shots dur limit (cur @ [s]) (t + dur s) ss)"
    by (auto simp: Let_def split: option.splits)
  show ?case
  proof (cases "?count \<or> ?over")
    case True
    then have "cur \<noteq> []" by (auto simp: max_shots_def)
    from True step "2.prems"(1) consider "g = cur" | "g \<in> set (pack_shots dur limit [s] (dur s) ss)" by auto
    then show ?thesis
    proof cases
      case 1
      with "2.prems" \<open>cur \<noteq> []\<close> show ?thesis by auto
    next
      case 2
      from True have "?count \<or> (case limit of Some m \<Rightarrow> cur \<noteq> [] \<and> m < t + dur s | None \<Rightarrow> False)" by auto
      from "2.IH"(1) [OF refl refl this 2] "2.prems" show ?thesis by (simp add: max_shots_def)
    qed
  next
    case False
    then have no: "\<not> (?count \<or> (case limit of Some m \<Rightarrow> cur \<noteq> [] \<and> m < t + dur s | None \<Rightarrow> False))"
      by (auto split: option.splits)
    from "2.prems"(1) have "g \<in> set (pack_shots dur limit (cur @ [s]) (t + dur s) ss)"
      unfolding step if_not_P [OF False] .
    from "2.IH"(2) [OF refl refl no this] "2.prems" False show ?thesis by (auto simp: not_le not_less)
  qed
qed

lemma split_singleton: "1 \<le> c \<Longrightarrow> c \<le> m \<Longrightarrow> split_duration (JInt c) m = [c]"
  by (simp add: split_duration_def)

text \<open>The parts of a shot: the chunks of its duration, in order.\<close>

lemma split_long_shot_durations:
  assumes "1 \<le> cap" and "cap \<le> hard_max_duration"
  shows "map (\<lambda>s. dict_ref s ''duration'') (split_long_shot shot cap) =
           map JInt (split_duration (dict_ref shot ''duration'') cap)"
    "map shot_duration (split_long_shot shot cap) = split_duration (dict_ref shot ''duration'') cap"
proof -
  let ?chunks = "split_duration (dict_ref shot ''duration'') cap"
  show first: "map (\<lambda>s. dict_ref s ''duration'') (split_long_shot shot cap) = map JInt ?chunks"
  proof (cases "length ?chunks = 1")
    case True
    then obtain c where "?chunks = [c]" by (cases ?chunks) auto
    then show ?thesis by (simp add: split_long_shot_def dict_ref_put)
  next
    case False
    then show ?thesis
      by (intro nth_equalityI)
         (auto simp: split_long_shot_def Let_def nth_enumerate_eq dict_ref_put split: option.splits)
  qed
  have len: "length (split_long_shot shot cap) = length ?chunks"
    using arg_cong [OF first, of length] by simp
  have "shot_duration (split_long_shot shot cap ! i) = ?chunks ! i" if i: "i < length ?chunks" for i
  proof -
    have "dict_ref (split_long_shot shot cap ! i) ''duration'' = JInt (?chunks ! i)"
      using arg_cong [OF first, of "\<lambda>xs. xs ! i"] i len by simp
    with split_duration_chunks(3) [OF nth_mem [OF i]] assms show ?thesis
      by (simp add: shot_duration_def split_singleton)
  qed
  with len show "map shot_duration (split_long_shot shot cap) = ?chunks"
    by (simp add: list_eq_iff_nth_eq)
qed

lemma split_long_shot_parts:
  assumes "1 \<le> cap" and "cap \<le> hard_max_duration" and "s \<in> set (split_long_shot shot cap)"
  obtains c where "dict_ref s ''duration'' = JInt c" "shot_duration s = c" "1 \<le> c" "c \<le> cap"
proof -
  from assms(3) obtain i where i: "i < length (split_long_shot shot cap)" "s = split_long_shot shot cap ! i"
    by (metis in_set_conv_nth)
  let ?chunks = "split_duration (dict_ref shot ''duration'') cap"
  note d = split_long_shot_durations [OF assms(1,2), of shot]
  have len: "i < length ?chunks" using i(1) arg_cong [OF d(1), of length] by simp
  have "dict_ref s ''duration'' = JInt (?chunks ! i)"
    using arg_cong [OF d(1), of "\<lambda>xs. xs ! i"] i len by simp
  moreover have "shot_duration s = ?chunks ! i"
    using arg_cong [OF d(2), of "\<lambda>xs. xs ! i"] i len by simp
  moreover have "1 \<le> ?chunks ! i" "?chunks ! i \<le> cap"
    using split_duration_chunks(3) [OF nth_mem [OF len]] assms(1) by auto
  ultimately show thesis by (rule that)
qed

section \<open>The normalised units\<close>

text \<open>What a unit looks like after the guard: its number, one to four shots whose durations are
  positive and add up to at most the cap.\<close>

definition unit_ok :: "int \<Rightarrow> int \<Rightarrow> int \<Rightarrow> dict \<Rightarrow> bool" where
  "unit_ok cap episode n u =
     (dict_ref u ''unit_id'' = JStr (unit_id episode n) \<and>
      (\<exists>g. dict_ref u ''shots'' = JArr (map JObj g) \<and> g \<noteq> [] \<and> length g \<le> max_shots \<and>
        (\<forall>s\<in>set g. \<exists>c. dict_ref s ''duration'' = JInt c \<and> shot_duration s = c \<and> 1 \<le> c \<and> c \<le> cap) \<and>
        dict_ref u ''duration_seconds'' = JInt (sum_list (map shot_duration g)) \<and>
        sum_list (map shot_duration g) \<le> cap))"

fun units_ok :: "int \<Rightarrow> int \<Rightarrow> int \<Rightarrow> dict list \<Rightarrow> bool" where
  "units_ok cap episode n [] = True"
| "units_ok cap episode n (u # us) = (unit_ok cap episode n u \<and> units_ok cap episode (n + 1) us)"

lemma units_ok_append:
  "units_ok cap ep n (us @ vs) \<longleftrightarrow> units_ok cap ep n us \<and> units_ok cap ep (n + int (length us)) vs"
  by (induction us arbitrary: n) (auto simp: algebra_simps)

lemma units_ok_nth: "units_ok cap ep n us \<Longrightarrow> i < length us \<Longrightarrow> unit_ok cap ep (n + int i) (us ! i)"
proof (induction us arbitrary: n i)
  case (Cons u us)
  show ?case
  proof (cases i)
    case (Suc j)
    with Cons.IH [of "n + 1" j] Cons.prems show ?thesis by (simp add: ac_simps)
  qed (use Cons.prems in simp)
qed simp

lemma normalized_unit_fields:
  "dict_ref (normalized_unit ep unit gs n g) ''unit_id'' = JStr (unit_id ep n)"
  "dict_ref (normalized_unit ep unit gs n g) ''shots'' = JArr (map JObj g)"
  "dict_ref (normalized_unit ep unit gs n g) ''duration_seconds'' = JInt (sum_list (map shot_duration g))"
  by (simp_all add: normalized_unit_def Let_def dict_ref_put dict_ref_pop)

lemma length_normalize_groups [simp]: "length (normalize_groups ep unit gs n hs) = length hs"
  by (induction hs arbitrary: n) auto

lemma group_shots_ok:
  assumes "1 \<le> cap" and "cap \<le> hard_max_duration" and "g \<in> set (group_shots shots cap)"
  shows "g \<noteq> []" "length g \<le> max_shots" "sum_list (map shot_duration g) \<le> cap"
    "\<forall>s\<in>set g. \<exists>c. dict_ref s ''duration'' = JInt c \<and> shot_duration s = c \<and> 1 \<le> c \<and> c \<le> cap"
proof -
  from assms(3) obtain raws where "shots = JArr raws"
    by (auto simp: group_shots_def split: json.splits)
  let ?parts = "concat (map (\<lambda>shot. split_long_shot shot cap) (List.map_filter as_dict raws))"
  from assms(3) \<open>shots = JArr raws\<close> have g: "g \<in> set (pack_shots shot_duration (Some cap) [] 0 ?parts)"
    by (simp add: group_shots_def)
  have ok: "g \<noteq> [] \<and> length g \<le> max_shots \<and>
      (Some cap = Some cap \<longrightarrow> length g = 1 \<or> sum_list (map shot_duration g) \<le> cap)"
    by (rule pack_shots_groups [OF g]) (use assms(1) in auto)
  from g have "set g \<subseteq> set (concat (pack_shots shot_duration (Some cap) [] 0 ?parts))" by auto
  then have sub: "set g \<subseteq> set ?parts" by (simp only: pack_shots_concat append_Nil)
  show shots: "\<forall>s\<in>set g. \<exists>c. dict_ref s ''duration'' = JInt c \<and> shot_duration s = c \<and> 1 \<le> c \<and> c \<le> cap"
  proof
    fix s assume "s \<in> set g"
    with sub obtain shot where "s \<in> set (split_long_shot shot cap)" by auto
    then show "\<exists>c. dict_ref s ''duration'' = JInt c \<and> shot_duration s = c \<and> 1 \<le> c \<and> c \<le> cap"
      by (rule split_long_shot_parts [OF assms(1,2)]) blast
  qed
  from ok show "g \<noteq> []" "length g \<le> max_shots" by auto
  show "sum_list (map shot_duration g) \<le> cap"
  proof (cases "length g = 1")
    case True
    then obtain s where "g = [s]" by (cases g) auto
    with shots show ?thesis by auto
  qed (use ok in auto)
qed

lemma normalize_groups_ok:
  assumes "1 \<le> cap" and "cap \<le> hard_max_duration"
  shows "set hs \<subseteq> set (group_shots shots cap) \<Longrightarrow> units_ok cap ep n (normalize_groups ep unit gs n hs)"
proof (induction hs arbitrary: n)
  case (Cons h hs)
  from Cons.prems have "h \<in> set (group_shots shots cap)" by simp
  note h = group_shots_ok [OF assms this]
  from h have "unit_ok cap ep n (normalized_unit ep unit gs n h)"
    unfolding unit_ok_def by (intro conjI exI [of _ h] normalized_unit_fields h)
  with Cons show ?case by simp
qed simp

lemma normalize_loop_ok:
  assumes "1 \<le> cap" and "cap \<le> hard_max_duration"
  shows "units_ok cap ep n (normalize_loop cap ep n us)"
proof (induction us arbitrary: n)
  case (Cons u us)
  show ?case
  proof (cases u)
    case (JObj unit)
    with Cons.IH normalize_groups_ok [OF assms subset_refl] show ?thesis
      by (simp add: Let_def units_ok_append)
  qed (use Cons.IH in simp_all)
qed simp

text \<open>The time the shots of the given units ask for: what the guard must neither add nor lose.\<close>

definition requested_duration :: "json list \<Rightarrow> int" where
  "requested_duration us =
     sum_list (map (\<lambda>unit. sum_list (map (\<lambda>shot. max 1 (coalesce (py_int_value (dict_ref shot ''duration'')) 1))
       (List.map_filter as_dict (coalesce (as_list (dict_ref unit ''shots'')) []))))
     (List.map_filter as_dict us))"

definition unit_seconds :: "dict \<Rightarrow> int" where
  "unit_seconds u = coalesce (as_int (dict_ref u ''duration_seconds'')) 0"

lemma normalize_groups_seconds:
  "sum_list (map unit_seconds (normalize_groups ep unit gs n hs)) = sum_list (map shot_duration (concat hs))"
  by (induction hs arbitrary: n) (simp_all add: unit_seconds_def normalized_unit_fields)

lemma group_shots_seconds:
  assumes "1 \<le> cap" and "cap \<le> hard_max_duration"
  shows "sum_list (map shot_duration (concat (group_shots shots cap))) =
    sum_list (map (\<lambda>shot. max 1 (coalesce (py_int_value (dict_ref shot ''duration'')) 1))
      (List.map_filter as_dict (coalesce (as_list shots) [])))"
proof -
  have "sum_list (map shot_duration (concat (map (\<lambda>shot. split_long_shot shot cap) ss))) =
      sum_list (map (\<lambda>shot. max 1 (coalesce (py_int_value (dict_ref shot ''duration'')) 1)) ss)" for ss
    by (induction ss) (simp_all add: split_long_shot_durations(2) [OF assms] split_duration_chunks(1))
  then show ?thesis
    by (cases shots) (simp_all add: group_shots_def pack_shots_concat map_filter_simps)
qed

lemma normalize_loop_seconds:
  assumes "1 \<le> cap" and "cap \<le> hard_max_duration"
  shows "sum_list (map unit_seconds (normalize_loop cap ep n us)) = requested_duration us"
proof (induction us arbitrary: n)
  case (Cons u us)
  then show ?case
    by (cases u) (simp_all add: requested_duration_def map_filter_simps Let_def normalize_groups_seconds
      group_shots_seconds [OF assms])
qed (simp add: requested_duration_def map_filter_simps)

text \<open>C16. The duration guard makes every unit generable: whatever the units, the project and the
  requested cap, the units that come out are numbered from 1 in order; each holds one to four
  shots of at least a second whose durations add up to the duration of the unit, and that is
  within the resolved cap, which never exceeds 15 seconds. No time is added or lost: the units
  together last as long as the shots of the given units ask for.\<close>

theorem video_units_normalised:
  fixes registry project m
  defines "cap \<equiv> resolve_reference_video_max_duration registry (or_empty project) m"
  shows "1 \<le> cap \<and> cap \<le> 15 \<and>
    (let out = normalize_reference_video_units registry (JArr us) episode project m in
       list_all (\<lambda>i. unit_ok cap episode (int i + 1) (out ! i)) [0..<length out] \<and>
       sum_list (map unit_seconds out) = requested_duration us)"
proof -
  have cap: "1 \<le> cap" "cap \<le> hard_max_duration" unfolding cap_def by (rule resolved_cap)+
  then have "cap \<le> 15" by (simp add: hard_max_duration_def)
  moreover have "unit_ok cap episode (int i + 1) (normalize_loop cap episode 1 us ! i)"
    if "i < length (normalize_loop cap episode 1 us)" for i
    using units_ok_nth [OF normalize_loop_ok [OF cap] that] by (simp add: ac_simps)
  ultimately show ?thesis using cap(1) normalize_loop_seconds [OF cap]
    by (simp add: normalize_reference_video_units_def cap_def list_all_iff Let_def)
qed

section \<open>A second pass\<close>

lemma pack_shots_one:
  assumes "cur @ ss \<noteq> []" and "length (cur @ ss) \<le> max_shots" and "t + sum_list (map dur ss) \<le> m"
    and "\<forall>s\<in>set ss. 0 \<le> dur s"
  shows "pack_shots dur (Some m) cur t ss = [cur @ ss]"
  using assms
proof (induction ss arbitrary: cur t)
  case (Cons s ss)
  from Cons.prems(4) have "0 \<le> sum_list (map dur ss)" by (auto intro!: sum_list_nonneg)
  with Cons.prems have "\<not> (max_shots \<le> length cur)" "\<not> m < t + dur s" by auto
  with Cons.IH [of "cur @ [s]" "t + dur s"] Cons.prems show ?case by (simp add: add.assoc)
qed simp

lemma split_settled_shot:
  "dict_ref s ''duration'' = JInt c \<Longrightarrow> 1 \<le> c \<Longrightarrow> c \<le> cap \<Longrightarrow> split_long_shot s cap = [s]"
  by (simp add: split_long_shot_def split_singleton)
     (auto simp: dict_ref_def coalesce_def split: option.splits intro: dict_put_same)

lemma map_filter_JObj [simp]: "List.map_filter as_dict (map JObj g) = g"
  by (induction g) (simp_all add: map_filter_simps)

lemma group_settled_shots:
  assumes "g \<noteq> []" and "length g \<le> max_shots" and "sum_list (map shot_duration g) \<le> cap"
    and "\<forall>s\<in>set g. \<exists>c. dict_ref s ''duration'' = JInt c \<and> shot_duration s = c \<and> 1 \<le> c \<and> c \<le> cap"
  shows "group_shots (JArr (map JObj g)) cap = [g]"
proof -
  have "map (\<lambda>shot. split_long_shot shot cap) g = map (\<lambda>s. [s]) g"
    using assms(4) by (auto intro!: split_settled_shot)
  then have "concat (map (\<lambda>shot. split_long_shot shot cap) g) = g" by (simp only: concat_map_singleton list.map_ident)
  moreover have "\<forall>s\<in>set g. 0 \<le> shot_duration s" using assms(4) by force
  ultimately show ?thesis
    using pack_shots_one [of "[]" g 0 shot_duration cap] assms by (simp add: group_shots_def)
qed

lemma dict_put_ref: "dict_ref d k = v \<Longrightarrow> v \<noteq> JNull \<Longrightarrow> dict_put d k v = d"
  by (auto simp: dict_ref_def coalesce_def split: option.splits intro: dict_put_same)

lemma same_unit_identity_refl:
  assumes "wf_json (JObj u)"
  shows "same_unit_identity u u"
proof -
  have "py_eq d d \<and> py_eq t t" if "(d, t) \<in> set (shot_identities u)" for d t
  proof -
    from that obtain shots s where s: "dict_ref u ''shots'' = JArr shots" "JObj s \<in> set shots"
      "d = dict_ref s ''duration''" "t = dict_ref s ''text''"
      by (cases "dict_ref u ''shots''") (auto simp: shot_identities_def map_filter_def as_simps_iff)
    with wf_json_ref [OF assms, of "''shots''"] have "wf_json (JObj s)" using wf_json_member by metis
    with s(3,4) show ?thesis by (blast intro: py_eq_refl wf_json_ref)
  qed
  then have "list_all2 (\<lambda>(d, t) (d', t'). py_eq d d' \<and> py_eq t t') (shot_identities u) (shot_identities u)"
    by (auto intro!: list.rel_refl_strong)
  with wf_json_ref [OF assms] show ?thesis by (auto simp: same_unit_identity_def intro: py_eq_refl)
qed

lemma normalize_settled_unit:
  assumes "unit_ok cap ep n u" and "wf_json (JObj u)"
  shows "normalize_groups ep u (group_shots (dict_ref u ''shots'') cap) n (group_shots (dict_ref u ''shots'') cap) = [u]"
    "length (group_shots (dict_ref u ''shots'') cap) = 1"
proof -
  from assms(1) obtain g where u: "dict_ref u ''unit_id'' = JStr (unit_id ep n)"
      "dict_ref u ''shots'' = JArr (map JObj g)" "dict_ref u ''duration_seconds'' = JInt (sum_list (map shot_duration g))"
    and g: "g \<noteq> []" "length g \<le> max_shots" "sum_list (map shot_duration g) \<le> cap"
      "\<forall>s\<in>set g. \<exists>c. dict_ref s ''duration'' = JInt c \<and> shot_duration s = c \<and> 1 \<le> c \<and> c \<le> cap"
    by (auto simp: unit_ok_def)
  have groups: "group_shots (dict_ref u ''shots'') cap = [g]"
    unfolding u(2) by (rule group_settled_shots [OF g])
  have "dict_put u ''unit_id'' (JStr (unit_id ep n)) = u" "dict_put u ''shots'' (JArr (map JObj g)) = u"
    "dict_put u ''duration_seconds'' (JInt (sum_list (map shot_duration g))) = u"
    by (rule dict_put_ref; simp add: u)+
  then have "normalized_unit ep u [g] n g = u"
    using same_unit_identity_refl [OF assms(2)] by (simp add: normalized_unit_def u(1))
  with groups show "normalize_groups ep u (group_shots (dict_ref u ''shots'') cap) n (group_shots (dict_ref u ''shots'') cap) = [u]"
    "length (group_shots (dict_ref u ''shots'') cap) = 1" by simp_all
qed

lemma normalize_loop_settled:
  "units_ok cap ep n us \<Longrightarrow> \<forall>u\<in>set us. wf_json (JObj u) \<Longrightarrow> normalize_loop cap ep n (map JObj us) = us"
proof (induction us arbitrary: n)
  case (Cons u us)
  then have u: "unit_ok cap ep n u" "wf_json (JObj u)" by auto
  from Cons.IH [of "n + 1"] Cons.prems normalize_settled_unit [OF u] show ?case by (simp add: Let_def)
qed simp

lemma wf_split_long_shot:
  assumes "wf_json (JObj shot)" and "s \<in> set (split_long_shot shot cap)"
  shows "wf_json (JObj s)"
proof -
  have "wf_json (JObj (dict_put shot ''duration'' (JInt c)))" for c
    by (rule wf_json_put [OF assms(1)]) simp
  with wf_json_put [of "dict_put shot ''duration'' (JInt c)" "JStr t" "''text''" for c t] assms(2) show ?thesis
    by (auto simp: split_long_shot_def Let_def in_set_enumerate_eq simp del: wf_json.simps(2) split: if_splits option.splits)
qed

lemma wf_normalized_unit:
  assumes "wf_json (JObj unit)" and "\<forall>s\<in>set g. wf_json (JObj s)"
  shows "wf_json (JObj (normalized_unit ep unit gs n g))"
proof -
  have fresh: "wf_json (JObj fresh_assets)" by (simp add: fresh_assets_def wf_dict_def)
  from assms(2) have "wf_json (JArr (map JObj g))" by (simp add: list_all_iff)
  with assms(1) fresh show ?thesis
    unfolding normalized_unit_def Let_def by (auto intro!: wf_json_put wf_json_pop simp del: wf_json.simps(1,2))
qed

lemma wf_normalize_groups:
  "wf_json (JObj unit) \<Longrightarrow> \<forall>g\<in>set hs. \<forall>s\<in>set g. wf_json (JObj s) \<Longrightarrow>
     u \<in> set (normalize_groups ep unit gs n hs) \<Longrightarrow> wf_json (JObj u)"
  by (induction hs arbitrary: n) (auto simp del: wf_json.simps intro: wf_normalized_unit)

lemma wf_group_shots:
  assumes "wf_json shots" and "g \<in> set (group_shots shots cap)" and "s \<in> set g"
  shows "wf_json (JObj s)"
proof -
  from assms(2) obtain raws where "shots = JArr raws"
    by (auto simp: group_shots_def split: json.splits)
  let ?parts = "concat (map (\<lambda>shot. split_long_shot shot cap) (List.map_filter as_dict raws))"
  from assms(2,3) \<open>shots = JArr raws\<close>
  have "s \<in> set (concat (pack_shots shot_duration (Some cap) [] 0 ?parts))" by (auto simp: group_shots_def)
  then have "s \<in> set ?parts" by (simp only: pack_shots_concat append_Nil)
  then obtain shot where "JObj shot \<in> set raws" "s \<in> set (split_long_shot shot cap)"
    by (auto simp: map_filter_def as_simps_iff)
  moreover from assms(1) \<open>shots = JArr raws\<close> calculation(1) have "wf_json (JObj shot)"
    using wf_json_member by blast
  ultimately show ?thesis by (blast intro: wf_split_long_shot)
qed

lemma wf_normalize_loop:
  "\<forall>j\<in>set us. wf_json j \<Longrightarrow> u \<in> set (normalize_loop cap ep n us) \<Longrightarrow> wf_json (JObj u)"
proof (induction us arbitrary: n)
  case (Cons j us)
  show ?case
  proof (cases j)
    case (JObj unit)
    with Cons.prems have "wf_json (JObj unit)" by simp
    moreover from this have "\<forall>g\<in>set (group_shots (dict_ref unit ''shots'') cap). \<forall>s\<in>set g. wf_json (JObj s)"
      using wf_group_shots wf_json_ref by blast
    ultimately have "wf_json (JObj u)"
      if "u \<in> set (normalize_groups ep unit (group_shots (dict_ref unit ''shots'') cap) n (group_shots (dict_ref unit ''shots'') cap))"
      using that by (rule wf_normalize_groups)
    moreover from Cons.prems(2) JObj have
      "u \<in> set (normalize_groups ep unit (group_shots (dict_ref unit ''shots'') cap) n (group_shots (dict_ref unit ''shots'') cap)) \<or>
       u \<in> set (normalize_loop cap ep (n + int (length (group_shots (dict_ref unit ''shots'') cap))) us)"
      by (simp add: Let_def)
    ultimately show ?thesis using Cons.IH Cons.prems(1) by auto
  qed (use Cons in simp_all)
qed simp

text \<open>The duration guard is idempotent: normalising units that came out of it, with the same
  project and cap, changes nothing, so units that are already in order keep their generated
  assets and their prompts, and only a real change resets them.\<close>

theorem video_units_idempotent:
  assumes "wf_json units"
  shows "normalize_reference_video_units registry
           (JArr (map JObj (normalize_reference_video_units registry units episode project m))) episode project m =
         normalize_reference_video_units registry units episode project m"
proof (cases units)
  case (JArr us)
  let ?cap = "resolve_reference_video_max_duration registry (or_empty project) m"
  let ?out = "normalize_loop ?cap episode 1 us"
  from JArr assms have "\<forall>j\<in>set us. wf_json j" by (simp add: list_all_iff)
  then have "\<forall>u\<in>set ?out. wf_json (JObj u)" using wf_normalize_loop by blast
  with normalize_loop_ok [OF resolved_cap] have "normalize_loop ?cap episode 1 (map JObj ?out) = ?out"
    by (intro normalize_loop_settled) auto
  with JArr show ?thesis by (simp add: normalize_reference_video_units_def)
qed (simp_all add: normalize_reference_video_units_def)

theorem video_units_idempotent_witness:
  "let out = normalize_reference_video_units (\<lambda>p q. None)
       (JArr [JObj [(''shots'', JArr [JObj [(''duration'', JInt 20), (''text'', JStr ''a'')]])]]) 1 None None in
   length out = 2 \<and> normalize_reference_video_units (\<lambda>p q. None) (JArr (map JObj out)) 1 None None = out"
proof -
  let ?u = "JArr [JObj [(''shots'', JArr [JObj [(''duration'', JInt 20), (''text'', JStr ''a'')]])]]"
  have wf: "wf_json ?u" by (simp add: wf_dict_def)
  have "length (normalize_reference_video_units (\<lambda>p q. None) ?u 1 None None) = 2" by code_simp
  with video_units_idempotent [OF wf, of "\<lambda>p q. None" 1 None None] show ?thesis by (simp add: Let_def)
qed

end
