(* ===== verification/AdUnits.thy ===== *)
theory AdUnits
  imports VideoUnits
begin

text \<open>
  The derived units of an advertisement script (\<open>lib/reference_video/ad_units.py\<close>): the shots are
  the only content, and a unit is a light index of shot identifiers and references that is
  derived from them, merged with the stored index and hydrated again when it is generated.
\<close>

definition ad_shot_duration_seconds :: "json \<Rightarrow> int" where
  "ad_shot_duration_seconds shot =
     (case shot of
        JObj d \<Rightarrow> (case as_int (dict_ref d ''duration_seconds'') of Some v \<Rightarrow> if 0 < v then v else 0 | None \<Rightarrow> 0)
      | _ \<Rightarrow> 0)"

definition ad_script_total_duration :: "json \<Rightarrow> int" where
  "ad_script_total_duration shots =
     (case shots of JArr ss \<Rightarrow> sum_list (map ad_shot_duration_seconds ss) | _ \<Rightarrow> 0)"

definition reference_fields :: "(string \<times> string) list" where
  "reference_fields =
     [(''products_in_shot'', ''product''), (''characters_in_shot'', ''character''),
      (''scenes'', ''scene''), (''props'', ''prop'')]"

definition field_names :: "string \<Rightarrow> dict list \<Rightarrow> string list" where
  "field_names fld shots =
     filter (\<lambda>n. n \<noteq> [])
       (concat (map (\<lambda>shot. List.map_filter as_str (coalesce (as_list (dict_ref shot fld)) [])) shots))"

text \<open>The names not seen before, in the order of their first occurrence.\<close>

fun first_occurrences :: "string list \<Rightarrow> string list \<Rightarrow> string list" where
  "first_occurrences seen [] = []"
| "first_occurrences seen (n # ns) =
     (if n \<in> set seen then first_occurrences seen ns else n # first_occurrences (n # seen) ns)"

definition unit_references :: "dict list \<Rightarrow> json list" where
  "unit_references shots =
     concat (map (\<lambda>(fld, ref_type).
       map (\<lambda>name. JObj [(''type'', JStr ref_type), (''name'', JStr name)]) (first_occurrences [] (field_names fld shots)))
     reference_fields)"

definition unit_video_prompt_source :: "dict list \<Rightarrow> string option" where
  "unit_video_prompt_source shots =
     (if shots = [] \<or> \<not> list_ex (\<lambda>s. dict_has s ''video_prompt_source'') shots then None
      else if list_all (\<lambda>s. dict_ref s ''video_prompt_source'' = JStr ''skill'') shots then Some ''skill''
      else Some ''pending'')"

text \<open>The identifier of an entry that counts as a shot.\<close>

definition shot_key :: "json \<Rightarrow> string option" where
  "shot_key j =
     (case j of
        JObj d \<Rightarrow> (case as_str (dict_ref d ''shot_id'') of Some s \<Rightarrow> if s \<noteq> [] then Some s else None | None \<Rightarrow> None)
      | _ \<Rightarrow> None)"

definition valid_shots :: "json list \<Rightarrow> dict list" where
  "valid_shots js = List.map_filter as_dict (filter (\<lambda>j. shot_key j \<noteq> None) js)"

definition shot_id_of :: "dict \<Rightarrow> string" where
  "shot_id_of shot = coalesce (as_str (dict_ref shot ''shot_id'')) []"

definition unit_limit :: "int option \<Rightarrow> int option" where
  "unit_limit m = (case m of Some v \<Rightarrow> if v \<le> 0 then None else m | None \<Rightarrow> None)"

definition derive_groups :: "json list \<Rightarrow> int option \<Rightarrow> dict list list" where
  "derive_groups js m = pack_shots (\<lambda>s. ad_shot_duration_seconds (JObj s)) (unit_limit m) [] 0 (valid_shots js)"

definition derived_unit :: "int \<Rightarrow> nat \<Rightarrow> dict list \<Rightarrow> dict" where
  "derived_unit episode n members =
     [(''unit_id'', JStr (unit_id episode (int n))),
      (''shot_ids'', JArr (map (\<lambda>s. JStr (shot_id_of s)) members)),
      (''references'', JArr (unit_references members))] @
     (case unit_video_prompt_source members of Some v \<Rightarrow> [(''video_prompt_source'', JStr v)] | None \<Rightarrow> [])"

definition derive_ad_reference_units :: "json \<Rightarrow> int \<Rightarrow> int option \<Rightarrow> dict list" where
  "derive_ad_reference_units shots episode max_unit_duration =
     (case shots of
        JArr js \<Rightarrow> map (\<lambda>(n, g). derived_unit episode n g) (enumerate 1 (derive_groups js max_unit_duration))
      | _ \<Rightarrow> [])"

text \<open>The stored entries by identifier; a later entry with the same identifier wins.\<close>

definition existing_by_id :: "json \<Rightarrow> (string \<times> dict) list" where
  "existing_by_id existing =
     List.map_filter (\<lambda>j. case j of
         JObj e \<Rightarrow> map_option (\<lambda>i. (i, e)) (as_str (dict_ref e ''unit_id''))
       | _ \<Rightarrow> None)
     (rev (coalesce (as_list existing) []))"

definition same_ad_identity :: "dict \<Rightarrow> dict \<Rightarrow> bool" where
  "same_ad_identity prev unit =
     (py_eq (dict_ref prev ''shot_ids'') (dict_ref unit ''shot_ids'') \<and>
      py_eq (dict_ref prev ''references'') (dict_ref unit ''references'') \<and>
      py_eq (dict_ref prev ''video_prompt_source'') (dict_ref unit ''video_prompt_source''))"

definition merged_unit :: "(string \<times> dict) list \<Rightarrow> dict \<Rightarrow> dict" where
  "merged_unit by_id unit =
     (let prev = map_of by_id (coalesce (as_str (dict_ref unit ''unit_id'')) []) in
      case prev of
        Some p \<Rightarrow>
          if same_ad_identity p unit then
            let assets = (case dict_ref p ''generated_assets'' of JObj a \<Rightarrow> if a \<noteq> [] then a else fresh_assets | _ \<Rightarrow> fresh_assets);
                merged = dict_put unit ''generated_assets'' (JObj assets)
            in case as_str (dict_ref p ''prompt_override'') of
                 Some t \<Rightarrow> if strip t \<noteq> [] then dict_put merged ''prompt_override'' (JStr t) else merged
               | None \<Rightarrow> merged
          else dict_put unit ''generated_assets'' (JObj fresh_assets)
      | None \<Rightarrow> dict_put unit ''generated_assets'' (JObj fresh_assets))"

definition merge_ad_reference_units :: "json \<Rightarrow> dict list \<Rightarrow> dict list" where
  "merge_ad_reference_units existing derived = map (merged_unit (existing_by_id existing)) derived"

definition ad_unit_prompt_override :: "dict \<Rightarrow> string option" where
  "ad_unit_prompt_override unit =
     (case as_str (dict_ref unit ''prompt_override'') of
        Some t \<Rightarrow> if strip t \<noteq> [] then Some (strip t) else None
      | None \<Rightarrow> None)"

definition sync_ad_reference_units :: "dict \<Rightarrow> int \<Rightarrow> int option \<Rightarrow> dict list \<times> dict" where
  "sync_ad_reference_units script episode max_unit_duration =
     (let derived = derive_ad_reference_units (dict_ref script ''shots'') episode max_unit_duration;
          merged = merge_ad_reference_units (dict_ref script ''reference_units'') derived
      in (merged, dict_put script ''reference_units'' (JArr (map JObj merged))))"

text \<open>The shots by identifier; a later shot with the same identifier wins.\<close>

definition ad_shots_by_id :: "dict \<Rightarrow> (string \<times> dict) list" where
  "ad_shots_by_id script =
     (case dict_ref script ''shots'' of
        JArr js \<Rightarrow> rev (map (\<lambda>s. (shot_id_of s, s)) (valid_shots js))
      | _ \<Rightarrow> [])"

text \<open>
  \<open>resolve_ad_unit_shots\<close>: the member shots, or the identifiers of the missing ones as the error
  lists them. An identifier that is no string is a key of no shot.
\<close>

definition unit_shot_ids :: "dict \<Rightarrow> json list" where
  "unit_shot_ids unit = coalesce (as_list (dict_ref unit ''shot_ids'')) []"

definition lookup_shot :: "(string \<times> dict) list \<Rightarrow> json \<Rightarrow> dict option" where
  "lookup_shot by_id sid = (case as_str sid of Some s \<Rightarrow> map_of by_id s | None \<Rightarrow> None)"

definition resolve_ad_unit_shots :: "dict \<Rightarrow> dict \<Rightarrow> json list + dict list" where
  "resolve_ad_unit_shots script unit =
     (let by_id = ad_shots_by_id script;
          missing = filter (\<lambda>sid. lookup_shot by_id sid = None) (unit_shot_ids unit)
      in if missing \<noteq> [] then Inl missing
         else Inr (List.map_filter (lookup_shot by_id) (unit_shot_ids unit)))"

section \<open>Derived units\<close>

lemma derive_groups_concat: "concat (derive_groups js m) = valid_shots js"
  by (simp add: derive_groups_def pack_shots_concat)

lemma derive_groups_bounds:
  assumes "g \<in> set (derive_groups js m)"
  shows "g \<noteq> []" "length g \<le> max_shots"
    "m = Some v \<Longrightarrow> 0 < v \<Longrightarrow> length g = 1 \<or> sum_list (map (\<lambda>s. ad_shot_duration_seconds (JObj s)) g) \<le> v"
proof -
  from assms have g: "g \<in> set (pack_shots (\<lambda>s. ad_shot_duration_seconds (JObj s)) (unit_limit m) [] 0 (valid_shots js))"
    by (simp add: derive_groups_def)
  have nonneg: "unit_limit m = Some v \<Longrightarrow> 0 \<le> v" for v
    by (auto simp: unit_limit_def split: option.splits if_splits)
  note bounds = pack_shots_groups [OF g, of v]
  show "g \<noteq> []" "length g \<le> max_shots" using bounds nonneg by auto
  show "m = Some v \<Longrightarrow> 0 < v \<Longrightarrow> length g = 1 \<or> sum_list (map (\<lambda>s. ad_shot_duration_seconds (JObj s)) g) \<le> v"
    using bounds nonneg by (auto simp: unit_limit_def)
qed

lemma first_occurrences_distinct:
  "distinct (first_occurrences seen ns) \<and> set (first_occurrences seen ns) = set ns - set seen"
  by (induction seen ns rule: first_occurrences.induct) auto

lemma derived_unit_refs:
  "dict_ref (derived_unit ep n g) ''unit_id'' = JStr (unit_id ep (int n))"
  "dict_ref (derived_unit ep n g) ''shot_ids'' = JArr (map (\<lambda>s. JStr (shot_id_of s)) g)"
  "dict_ref (derived_unit ep n g) ''references'' = JArr (unit_references g)"
  "dict_ref (derived_unit ep n g) ''video_prompt_source'' =
     (case unit_video_prompt_source g of Some v \<Rightarrow> JStr v | None \<Rightarrow> JNull)"
  "dict_ref (derived_unit ep n g) ''prompt_override'' = JNull"
  by (simp_all add: derived_unit_def dict_ref_def dict_get_def split: option.splits)

lemma merged_unit_refs:
  "k \<noteq> ''generated_assets'' \<Longrightarrow> k \<noteq> ''prompt_override'' \<Longrightarrow> dict_ref (merged_unit by_id u) k = dict_ref u k"
  by (auto simp: merged_unit_def Let_def dict_ref_put split: option.splits)

lemma unit_id_inj: "unit_id ep m = unit_id ep n \<longleftrightarrow> m = n"
  by (simp add: unit_id_def)

subsection \<open>Hydration\<close>

lemma shot_id_valid:
  assumes "s \<in> set (valid_shots js)"
  shows "dict_ref s ''shot_id'' = JStr (shot_id_of s)" "shot_id_of s \<noteq> []"
proof -
  from assms obtain j where "j = JObj s" "shot_key j \<noteq> None"
    by (auto simp: valid_shots_def map_filter_def as_simps_iff)
  then obtain t where "dict_ref s ''shot_id'' = JStr t" "t \<noteq> []"
    by (auto simp: shot_key_def as_simps_iff split: option.splits if_splits)
  then show "dict_ref s ''shot_id'' = JStr (shot_id_of s)" "shot_id_of s \<noteq> []"
    by (simp_all add: shot_id_of_def)
qed

lemma lookup_ad_shot:
  assumes "dict_ref script ''shots'' = JArr js" and "distinct (map shot_id_of (valid_shots js))"
    and "s \<in> set (valid_shots js)"
  shows "lookup_shot (ad_shots_by_id script) (JStr (shot_id_of s)) = Some s"
proof -
  have "map_of (rev (map (\<lambda>s. (shot_id_of s, s)) (valid_shots js))) (shot_id_of s) = Some s"
    by (rule map_of_is_SomeI) (use assms in \<open>auto simp: rev_map comp_def distinct_map inj_on_def\<close>)
  then show ?thesis by (simp add: lookup_shot_def ad_shots_by_id_def assms(1))
qed

lemma resolve_members:
  assumes "dict_ref script ''shots'' = JArr js" and "distinct (map shot_id_of (valid_shots js))"
    and "set g \<subseteq> set (valid_shots js)" and "dict_ref unit ''shot_ids'' = JArr (map (\<lambda>s. JStr (shot_id_of s)) g)"
  shows "resolve_ad_unit_shots script unit = Inr g"
proof -
  have hit: "lookup_shot (ad_shots_by_id script) (JStr (shot_id_of s)) = Some s" if "s \<in> set g" for s
    using lookup_ad_shot [OF assms(1,2)] that assms(3) by auto
  then have "List.map_filter (lookup_shot (ad_shots_by_id script)) (map (\<lambda>s. JStr (shot_id_of s)) g) = g"
    by (induction g) (auto simp: map_filter_simps)
  with hit assms(4) show ?thesis
    by (auto simp: resolve_ad_unit_shots_def unit_shot_ids_def Let_def filter_empty_conv)
qed

lemma sync_parts:
  assumes "sync_ad_reference_units script ep m = (units, script')"
  shows "units = merge_ad_reference_units (dict_ref script ''reference_units'')
           (derive_ad_reference_units (dict_ref script ''shots'') ep m)"
    "script' = dict_put script ''reference_units'' (JArr (map JObj units))"
    "dict_ref script' ''shots'' = dict_ref script ''shots''"
    "dict_ref script' ''reference_units'' = JArr (map JObj units)"
  using assms by (auto simp: sync_ad_reference_units_def Let_def dict_ref_put)

text \<open>The index of an advertisement script hydrates to exactly its shots: when the shots have
  distinct identifiers, resolving the units of a synchronised script never reports a stale index,
  and the shots of the units, one unit after the other, are the valid shots of the script in
  their order. Every unit has one to four shots, and with a positive limit its shots fit the
  limit unless it is a single shot.\<close>

theorem ad_units_hydrate:
  assumes "sync_ad_reference_units script episode m = (units, script')"
    and "dict_ref script ''shots'' = JArr js" and "distinct (map shot_id_of (valid_shots js))"
  shows "\<exists>gs. map (resolve_ad_unit_shots script') units = map Inr gs \<and> concat gs = valid_shots js \<and>
    (\<forall>g\<in>set gs. g \<noteq> [] \<and> length g \<le> 4 \<and>
      (\<forall>v. m = Some v \<and> 0 < v \<longrightarrow>
        length g = 1 \<or> sum_list (map (\<lambda>s. ad_shot_duration_seconds (JObj s)) g) \<le> v))"
proof (intro exI conjI)
  let ?gs = "derive_groups js m"
  note parts = sync_parts [OF assms(1)]
  have members: "set g \<subseteq> set (valid_shots js)" if "g \<in> set ?gs" for g
    using that derive_groups_concat [of js m] by (auto simp flip: derive_groups_concat [of js m])
  have "resolve_ad_unit_shots script' (units ! i) = Inr (?gs ! i)" if "i < length ?gs" for i
  proof (rule resolve_members)
    show "dict_ref script' ''shots'' = JArr js" using parts(3) assms(2) by simp
    show "set (?gs ! i) \<subseteq> set (valid_shots js)" using members that by simp
    show "dict_ref (units ! i) ''shot_ids'' = JArr (map (\<lambda>s. JStr (shot_id_of s)) (?gs ! i))"
      using that parts(1) assms(2)
      by (simp add: merge_ad_reference_units_def derive_ad_reference_units_def merged_unit_refs nth_enumerate_eq derived_unit_refs)
  qed (rule assms(3))
  moreover have "length units = length ?gs"
    by (simp add: parts(1) assms(2) merge_ad_reference_units_def derive_ad_reference_units_def)
  ultimately show "map (resolve_ad_unit_shots script') units = map Inr ?gs"
    by (simp add: list_eq_iff_nth_eq)
  show "concat ?gs = valid_shots js" by (rule derive_groups_concat)
  show "\<forall>g\<in>set ?gs. g \<noteq> [] \<and> length g \<le> 4 \<and>
      (\<forall>v. m = Some v \<and> 0 < v \<longrightarrow>
        length g = 1 \<or> sum_list (map (\<lambda>s. ad_shot_duration_seconds (JObj s)) g) \<le> v)"
  proof (intro ballI)
    fix g assume "g \<in> set ?gs"
    from derive_groups_bounds [OF this] show "g \<noteq> [] \<and> length g \<le> 4 \<and>
      (\<forall>v. m = Some v \<and> 0 < v \<longrightarrow>
        length g = 1 \<or> sum_list (map (\<lambda>s. ad_shot_duration_seconds (JObj s)) g) \<le> v)"
      by (simp add: max_shots_def)
  qed
qed

theorem ad_units_hydrate_witness:
  "let js = [JObj [(''shot_id'', JStr ''a''), (''duration_seconds'', JInt 6)],
             JObj [(''shot_id'', JStr ''b''), (''duration_seconds'', JInt 7)]];
       r = sync_ad_reference_units [(''shots'', JArr js)] 1 (Some 10)
   in length (fst r) = 2 \<and> distinct (map shot_id_of (valid_shots js)) \<and>
      (\<exists>gs. map (resolve_ad_unit_shots (snd r)) (fst r) = map Inr gs \<and> concat gs = valid_shots js)"
proof -
  let ?js = "[JObj [(''shot_id'', JStr ''a''), (''duration_seconds'', JInt 6)],
              JObj [(''shot_id'', JStr ''b''), (''duration_seconds'', JInt 7)]]"
  let ?s = "[(''shots'', JArr ?js)]"
  have "dict_ref ?s ''shots'' = JArr ?js" by (simp add: dict_ref_def dict_get_def)
  moreover have "distinct (map shot_id_of (valid_shots ?js))" by code_simp
  moreover have "length (fst (sync_ad_reference_units ?s 1 (Some 10))) = 2" by code_simp
  ultimately show ?thesis
    using ad_units_hydrate [of ?s 1 "Some 10" "fst (sync_ad_reference_units ?s 1 (Some 10))"
        "snd (sync_ad_reference_units ?s 1 (Some 10))" ?js] by (auto simp: Let_def)
qed

subsection \<open>Synchronising again\<close>

lemma derived_identity_refl: "same_ad_identity (derived_unit ep n g) (derived_unit ep n g)"
proof -
  have "wf_json (JArr (unit_references g))"
    by (auto simp: unit_references_def reference_fields_def wf_dict_def list_all_iff)
  then have "py_eq (JArr (unit_references g)) (JArr (unit_references g))" by (rule py_eq_refl)
  moreover have "py_eq (JArr (map (\<lambda>s. JStr (shot_id_of s)) g)) (JArr (map (\<lambda>s. JStr (shot_id_of s)) g))"
    by (rule py_eq_refl) (simp add: list_all_iff)
  ultimately show ?thesis
    by (auto simp: same_ad_identity_def derived_unit_refs simp del: py_eq.simps(3) split: option.splits)
qed

lemma merged_unit_shape:
  obtains (plain) a where "a \<noteq> []" "merged_unit by_id u = dict_put u ''generated_assets'' (JObj a)"
    | (prompted) a t where "a \<noteq> []" "strip t \<noteq> []"
        "merged_unit by_id u = dict_put (dict_put u ''generated_assets'' (JObj a)) ''prompt_override'' (JStr t)"
proof (cases "map_of by_id (coalesce (as_str (dict_ref u ''unit_id'')) [])")
  case None
  then show thesis using plain [of fresh_assets] by (simp add: merged_unit_def fresh_assets_def)
next
  case (Some p)
  define a where "a = (case dict_ref p ''generated_assets'' of JObj a \<Rightarrow> if a \<noteq> [] then a else fresh_assets | _ \<Rightarrow> fresh_assets)"
  have "a \<noteq> []" by (simp add: a_def fresh_assets_def split: json.splits)
  show thesis
  proof (cases "same_ad_identity p u")
    case True
    show thesis
    proof (cases "\<exists>t. as_str (dict_ref p ''prompt_override'') = Some t \<and> strip t \<noteq> []")
      case True
      then obtain t where "as_str (dict_ref p ''prompt_override'') = Some t" "strip t \<noteq> []" by blast
      then show thesis
        using prompted [OF \<open>a \<noteq> []\<close>, of t] \<open>same_ad_identity p u\<close>
        by (simp add: merged_unit_def Some Let_def flip: a_def)
    next
      case False
      then have "merged_unit by_id u = dict_put u ''generated_assets'' (JObj a)"
        using \<open>same_ad_identity p u\<close>
        by (auto simp: merged_unit_def Some Let_def simp flip: a_def split: option.splits)
      with plain [OF \<open>a \<noteq> []\<close>] show thesis .
    qed
  next
    case False
    then show thesis using plain [of fresh_assets] by (simp add: merged_unit_def Some fresh_assets_def)
  qed
qed

lemma merge_again:
  assumes u: "u = derived_unit ep n g" and hit: "map_of again (unit_id ep (int n)) = Some (merged_unit by_id u)"
  shows "merged_unit again u = merged_unit by_id u"
proof -
  define p where "p = merged_unit by_id u"
  have same: "same_ad_identity p u"
    using derived_identity_refl [of ep n g] by (simp add: p_def u same_ad_identity_def merged_unit_refs)
  have key: "coalesce (as_str (dict_ref u ''unit_id'')) [] = unit_id ep (int n)"
    by (simp add: u derived_unit_refs)
  have blank: "dict_ref u ''prompt_override'' = JNull" by (simp add: u derived_unit_refs)
  have again: "merged_unit again u =
      (let assets = (case dict_ref p ''generated_assets'' of JObj a \<Rightarrow> if a \<noteq> [] then a else fresh_assets | _ \<Rightarrow> fresh_assets);
           merged = dict_put u ''generated_assets'' (JObj assets)
       in case as_str (dict_ref p ''prompt_override'') of
            Some t \<Rightarrow> if strip t \<noteq> [] then dict_put merged ''prompt_override'' (JStr t) else merged
          | None \<Rightarrow> merged)"
    unfolding merged_unit_def [of again] key hit p_def [symmetric] using same by (simp add: Let_def)
  have "merged_unit again u = p"
  proof -
    consider (plain) a where "a \<noteq> []" "p = dict_put u ''generated_assets'' (JObj a)"
      | (prompted) a t where "a \<noteq> []" "strip t \<noteq> []"
          "p = dict_put (dict_put u ''generated_assets'' (JObj a)) ''prompt_override'' (JStr t)"
      unfolding p_def by (rule merged_unit_shape)
    then show ?thesis
    proof cases
    case plain
    then have "dict_ref p ''generated_assets'' = JObj a" "dict_ref p ''prompt_override'' = JNull"
      by (simp_all add: plain(2) dict_ref_put blank)
    with again plain show ?thesis by simp
  next
    case prompted
    then have "dict_ref p ''generated_assets'' = JObj a" "dict_ref p ''prompt_override'' = JStr t"
      by (simp_all add: prompted(3) dict_ref_put)
    with again prompted show ?thesis by simp
    qed
  qed
  then show ?thesis by (simp add: p_def)
qed

lemma existing_of_dicts:
  assumes "distinct (map f us)" and "\<And>u. u \<in> set us \<Longrightarrow> dict_ref u ''unit_id'' = JStr (f u)" and "u \<in> set us"
  shows "map_of (existing_by_id (JArr (map JObj us))) (f u) = Some u"
proof -
  have "existing_by_id (JArr (map JObj us)) = rev (map (\<lambda>u. (f u, u)) us)"
    using assms(2)
  proof (induction us)
    case (Cons v us)
    then show ?case by (simp add: existing_by_id_def map_filter_def)
  qed (simp add: existing_by_id_def map_filter_simps)
  moreover have "map_of (rev (map (\<lambda>u. (f u, u)) us)) (f u) = Some u"
    by (rule map_of_is_SomeI) (use assms in \<open>auto simp: rev_map comp_def distinct_map inj_on_def\<close>)
  ultimately show ?thesis by simp
qed

text \<open>Synchronising is idempotent: repeating it on the script it returned, with the same episode
  and limit, gives the same index and the same script. Units whose shots and references did not
  change keep their generated assets and their prompt.\<close>

theorem ad_sync_idempotent:
  assumes "sync_ad_reference_units script episode m = (units, script')"
  shows "sync_ad_reference_units script' episode m = (units, script')"
proof -
  note parts = sync_parts [OF assms]
  let ?derived = "derive_ad_reference_units (dict_ref script ''shots'') episode m"
  let ?old = "existing_by_id (dict_ref script ''reference_units'')"
  let ?again = "existing_by_id (JArr (map JObj units))"
  have form: "\<exists>g. ?derived ! i = derived_unit episode (i + 1) g" if "i < length ?derived" for i
    using that by (auto simp: derive_ad_reference_units_def nth_enumerate_eq split: json.splits)
  have units: "units = map (merged_unit ?old) ?derived" by (simp add: parts(1) merge_ad_reference_units_def)
  let ?key = "\<lambda>u. coalesce (as_str (dict_ref u ''unit_id'')) []"
  have key: "dict_ref (units ! i) ''unit_id'' = JStr (unit_id episode (int i + 1))" if "i < length units" for i
    using that form [of i] by (auto simp: units merged_unit_refs derived_unit_refs algebra_simps)
  have "distinct (map ?key units)" unfolding distinct_conv_nth using key by (simp add: unit_id_inj)
  moreover have "dict_ref u ''unit_id'' = JStr (?key u)" if "u \<in> set units" for u
    using that key by (auto simp: in_set_conv_nth)
  ultimately have hit: "map_of ?again (?key u) = Some u" if "u \<in> set units" for u
    using existing_of_dicts [of ?key units] that by blast
  have "merged_unit ?again (?derived ! i) = merged_unit ?old (?derived ! i)" if "i < length ?derived" for i
  proof -
    from form [OF that] obtain g where g: "?derived ! i = derived_unit episode (i + 1) g" ..
    have "units ! i = merged_unit ?old (?derived ! i)" "units ! i \<in> set units" using that by (simp_all add: units)
    with hit [of "units ! i"] key [of i] that have "map_of ?again (unit_id episode (int (i + 1))) = Some (merged_unit ?old (?derived ! i))"
      by (simp add: units algebra_simps)
    with g show ?thesis by (rule merge_again)
  qed
  then have "map (merged_unit ?again) ?derived = units" by (simp add: units list_eq_iff_nth_eq)
  then have "merge_ad_reference_units (dict_ref script' ''reference_units'')
      (derive_ad_reference_units (dict_ref script' ''shots'') episode m) = units"
    by (simp add: merge_ad_reference_units_def parts(3,4))
  moreover have "dict_put script' ''reference_units'' (JArr (map JObj units)) = script'"
    using parts(4) by (intro dict_put_ref) simp_all
  ultimately show ?thesis by (simp add: sync_ad_reference_units_def)
qed

theorem ad_sync_idempotent_witness:
  "let r = sync_ad_reference_units [(''shots'', JArr [JObj [(''shot_id'', JStr ''a'')]])] 2 None
   in length (fst r) = 1 \<and> sync_ad_reference_units (snd r) 2 None = r"
proof -
  let ?s = "[(''shots'', JArr [JObj [(''shot_id'', JStr ''a'')]])]"
  have "length (fst (sync_ad_reference_units ?s 2 None)) = 1" by code_simp
  with ad_sync_idempotent [of ?s 2 None "fst (sync_ad_reference_units ?s 2 None)"
      "snd (sync_ad_reference_units ?s 2 None)"]
  show ?thesis by (simp add: Let_def)
qed

end
