(* ===== verification/Versions.thy ===== *)
theory Versions
  imports PyJson
begin

text \<open>
  The version history of generated media (\<open>lib/version_manager.py\<close>, \<open>lib/resource_paths.py\<close>): the
  records of \<open>versions.json\<close> per resource type and identifier, and the files they name. A file is
  its content; the two time stamps of a record are arguments. The lock makes every operation one
  step. Metadata is kept beside the fields of a record, which no caller overrides.
\<close>

type_synonym content = string

record version_entry =
  ve_version :: int
  ve_file :: string
  ve_prompt :: string
  ve_created_at :: string
  ve_metadata :: dict

record resource_versions =
  rv_current_version :: int
  rv_versions :: "version_entry list"

record version_store =
  vs_data :: "string \<times> string \<Rightarrow> resource_versions option"
  vs_files :: "string \<Rightarrow> content option"

datatype version_error =
    UnsupportedResource string
  | ResourceMissing
  | VersionMissing int
  | VersionFileMissing string
  | SameFile

record resource_pattern =
  rp_subdir :: string
  rp_extension :: string
  rp_prefix :: string

definition resource_patterns :: "(string \<times> resource_pattern) list" where
  "resource_patterns =
     [(''storyboards'', \<lparr>rp_subdir = ''storyboards'', rp_extension = ''.png'', rp_prefix = ''scene_''\<rparr>),
      (''videos'', \<lparr>rp_subdir = ''videos'', rp_extension = ''.mp4'', rp_prefix = ''scene_''\<rparr>),
      (''characters'', \<lparr>rp_subdir = ''characters'', rp_extension = ''.png'', rp_prefix = []\<rparr>),
      (''scenes'', \<lparr>rp_subdir = ''scenes'', rp_extension = ''.png'', rp_prefix = []\<rparr>),
      (''props'', \<lparr>rp_subdir = ''props'', rp_extension = ''.png'', rp_prefix = []\<rparr>),
      (''products'', \<lparr>rp_subdir = ''products'', rp_extension = ''.png'', rp_prefix = []\<rparr>),
      (''grids'', \<lparr>rp_subdir = ''grids'', rp_extension = ''.png'', rp_prefix = []\<rparr>),
      (''reference_videos'', \<lparr>rp_subdir = ''reference_videos'', rp_extension = ''.mp4'', rp_prefix = []\<rparr>),
      (''audio'', \<lparr>rp_subdir = ''audio'', rp_extension = ''.wav'', rp_prefix = ''segment_''\<rparr>)]"

definition resource_types :: "string list" where
  "resource_types = map fst resource_patterns"

definition resource_relative_path :: "string \<Rightarrow> string \<Rightarrow> version_error + string" where
  "resource_relative_path rtype rid =
     (case map_of resource_patterns rtype of
        None \<Rightarrow> Inl (UnsupportedResource rtype)
      | Some p \<Rightarrow> Inr (rp_subdir p @ ''/'' @ rp_prefix p @ rid @ rp_extension p))"

definition resource_extension :: "string \<Rightarrow> version_error + string" where
  "resource_extension rtype =
     (case map_of resource_patterns rtype of
        None \<Rightarrow> Inl (UnsupportedResource rtype)
      | Some p \<Rightarrow> Inr (rp_extension p))"

definition version_extension :: "string \<Rightarrow> string" where
  "version_extension rtype = (case resource_extension rtype of Inr e \<Rightarrow> e | Inl _ \<Rightarrow> ''.png'')"

section \<open>Operations\<close>

record version_info =
  vi_version :: int
  vi_is_current :: bool
  vi_file_url :: string
  vi_entry :: version_entry

definition version_file_url :: "string \<Rightarrow> version_entry \<Rightarrow> string" where
  "version_file_url project v = ''/api/v1/files/'' @ project @ ''/'' @ ve_file v"

definition get_versions ::
  "string \<Rightarrow> version_store \<Rightarrow> string \<Rightarrow> string \<Rightarrow> version_error + (int \<times> version_info list)" where
  "get_versions project s rtype rid =
     (if rtype \<notin> set resource_types then Inl (UnsupportedResource rtype)
      else case vs_data s (rtype, rid) of
             None \<Rightarrow> Inr (0, [])
           | Some r \<Rightarrow>
               Inr (rv_current_version r,
                    map (\<lambda>v. \<lparr>vi_version = ve_version v, vi_is_current = (ve_version v = rv_current_version r),
                              vi_file_url = version_file_url project v, vi_entry = v\<rparr>) (rv_versions r)))"

definition get_current_version :: "string \<Rightarrow> version_store \<Rightarrow> string \<Rightarrow> string \<Rightarrow> version_error + int" where
  "get_current_version project s rtype rid =
     (case get_versions project s rtype rid of Inl e \<Rightarrow> Inl e | Inr info \<Rightarrow> Inr (fst info))"

definition version_path :: "string \<Rightarrow> string \<Rightarrow> int \<Rightarrow> string \<Rightarrow> string" where
  "version_path rtype rid n stamp =
     ''versions/'' @ rtype @ ''/'' @ rid @ ''_v'' @ show_int n @ ''_'' @ stamp @ version_extension rtype"

definition next_version :: "version_entry list \<Rightarrow> int" where
  "next_version vs = (if vs = [] then 0 else Max (set (map ve_version vs))) + 1"

definition add_version ::
  "version_store \<Rightarrow> string \<Rightarrow> string \<Rightarrow> string \<Rightarrow> string option \<Rightarrow> dict \<Rightarrow> string \<Rightarrow> string \<Rightarrow>
   version_error + (int \<times> version_store)" where
  "add_version s rtype rid prompt source metadata stamp tm =
     (if rtype \<notin> set resource_types then Inl (UnsupportedResource rtype)
      else
        let r = coalesce (vs_data s (rtype, rid)) \<lparr>rv_current_version = 0, rv_versions = []\<rparr>;
            n = next_version (rv_versions r);
            path = version_path rtype rid n stamp;
            content = (case source of Some p \<Rightarrow> vs_files s p | None \<Rightarrow> None);
            v = \<lparr>ve_version = n, ve_file = path, ve_prompt = prompt, ve_created_at = tm, ve_metadata = metadata\<rparr>;
            r' = \<lparr>rv_current_version = n, rv_versions = rv_versions r @ [v]\<rparr>
        in if content \<noteq> None \<and> source = Some path then Inl SameFile
           else Inr (n, \<lparr>vs_data = (vs_data s)((rtype, rid) \<mapsto> r'),
                         vs_files = (case content of Some c \<Rightarrow> (vs_files s)(path \<mapsto> c) | None \<Rightarrow> vs_files s)\<rparr>))"

definition backup_current ::
  "version_store \<Rightarrow> string \<Rightarrow> string \<Rightarrow> string \<Rightarrow> string \<Rightarrow> dict \<Rightarrow> string \<Rightarrow> string \<Rightarrow>
   version_error + (int option \<times> version_store)" where
  "backup_current s rtype rid current_file prompt metadata stamp tm =
     (if vs_files s current_file = None then Inr (None, s)
      else case add_version s rtype rid prompt (Some current_file) metadata stamp tm of
             Inl e \<Rightarrow> Inl e
           | Inr (n, s') \<Rightarrow> Inr (Some n, s'))"

definition ensure_current_tracked ::
  "version_store \<Rightarrow> string \<Rightarrow> string \<Rightarrow> string \<Rightarrow> string \<Rightarrow> dict \<Rightarrow> string \<Rightarrow> string \<Rightarrow>
   version_error + (int option \<times> version_store)" where
  "ensure_current_tracked s rtype rid current_file prompt metadata stamp tm =
     (if vs_files s current_file = None then Inr (None, s)
      else case get_current_version [] s rtype rid of
             Inl e \<Rightarrow> Inl e
           | Inr k \<Rightarrow>
               if 0 < k then Inr (None, s)
               else case add_version s rtype rid prompt (Some current_file) metadata stamp tm of
                      Inl e \<Rightarrow> Inl e
                    | Inr (n, s') \<Rightarrow> Inr (Some n, s'))"

text \<open>The answer of a restore is the version and its prompt.\<close>

definition restore_version ::
  "version_store \<Rightarrow> string \<Rightarrow> string \<Rightarrow> int \<Rightarrow> string \<Rightarrow> version_error + ((int \<times> string) \<times> version_store)" where
  "restore_version s rtype rid n current_file =
     (if rtype \<notin> set resource_types then Inl (UnsupportedResource rtype)
      else case vs_data s (rtype, rid) of
             None \<Rightarrow> Inl ResourceMissing
           | Some r \<Rightarrow>
               (case List.find (\<lambda>v. ve_version v = n) (rv_versions r) of
                  None \<Rightarrow> Inl (VersionMissing n)
                | Some v \<Rightarrow>
                    (case vs_files s (ve_file v) of
                       None \<Rightarrow> Inl (VersionFileMissing (ve_file v))
                     | Some c \<Rightarrow>
                         if ve_file v = current_file then Inl SameFile
                         else Inr ((n, ve_prompt v),
                           \<lparr>vs_data = (vs_data s)((rtype, rid) \<mapsto> r\<lparr>rv_current_version := n\<rparr>),
                            vs_files = (vs_files s)(current_file \<mapsto> c)\<rparr>))))"

definition get_version_file_url :: "string \<Rightarrow> version_store \<Rightarrow> string \<Rightarrow> string \<Rightarrow> int \<Rightarrow> version_error + string option" where
  "get_version_file_url project s rtype rid n =
     (case get_versions project s rtype rid of
        Inl e \<Rightarrow> Inl e
      | Inr (_, infos) \<Rightarrow> Inr (map_option vi_file_url (List.find (\<lambda>i. vi_version i = n) infos)))"

definition get_version_prompt :: "string \<Rightarrow> version_store \<Rightarrow> string \<Rightarrow> string \<Rightarrow> int \<Rightarrow> version_error + string option" where
  "get_version_prompt project s rtype rid n =
     (case get_versions project s rtype rid of
        Inl e \<Rightarrow> Inl e
      | Inr (_, infos) \<Rightarrow> Inr (map_option (\<lambda>i. ve_prompt (vi_entry i)) (List.find (\<lambda>i. vi_version i = n) infos)))"

definition has_versions :: "string \<Rightarrow> version_store \<Rightarrow> string \<Rightarrow> string \<Rightarrow> version_error + bool" where
  "has_versions project s rtype rid =
     (case get_current_version project s rtype rid of Inl e \<Rightarrow> Inl e | Inr k \<Rightarrow> Inr (0 < k))"

text \<open>
  Recording an uploaded file (\<open>server/services/upload_finalize.py\<close>) and the bookkeeping around a
  generated image (\<open>lib/media_generator.py\<close>): a file that is there is tracked first, the
  provider writes its result over it, and the result becomes a new version.
\<close>

definition record_upload_version ::
  "version_store \<Rightarrow> string \<Rightarrow> string \<Rightarrow> string \<Rightarrow> string option \<Rightarrow> string \<Rightarrow> string \<Rightarrow> version_error + (int \<times> version_store)" where
  "record_upload_version s rtype rid current_file filename stamp tm =
     add_version s rtype rid [] (Some current_file)
       ((''source'', JStr ''manual_upload'') #
        (case filename of Some f \<Rightarrow> if f \<noteq> [] then [(''original_filename'', JStr f)] else [] | None \<Rightarrow> []))
       stamp tm"

definition generate_output ::
  "version_store \<Rightarrow> string \<Rightarrow> string \<Rightarrow> string \<Rightarrow> dict \<Rightarrow> content \<Rightarrow> string \<Rightarrow> string \<Rightarrow> string \<Rightarrow> string \<Rightarrow>
   version_error + ((string \<times> int) \<times> version_store)" where
  "generate_output s rtype rid prompt metadata result stamp tm stamp' tm' =
     (case resource_relative_path rtype rid of
        Inl e \<Rightarrow> Inl e
      | Inr path \<Rightarrow>
          (case (if vs_files s path \<noteq> None then ensure_current_tracked s rtype rid path prompt metadata stamp tm
                 else Inr (None, s)) of
             Inl e \<Rightarrow> Inl e
           | Inr (_, s1) \<Rightarrow>
               (case add_version (s1\<lparr>vs_files := (vs_files s1)(path \<mapsto> result)\<rparr>) rtype rid prompt (Some path) metadata stamp' tm' of
                  Inl e \<Rightarrow> Inl e
                | Inr (n, s2) \<Rightarrow> Inr ((path, n), s2))))"

section \<open>Steps of a project\<close>

text \<open>
  The operations, and what else happens to the files of a project: anything outside the version
  directory is written or deleted at any time. A time stamp has 15 characters.
\<close>

definition in_versions :: "string \<Rightarrow> bool" where
  "in_versions p = prefix ''versions/'' p"

inductive version_step :: "version_store \<Rightarrow> version_store \<Rightarrow> bool" where
  add: "add_version s rtype rid prompt source metadata stamp tm = Inr (n, s') \<Longrightarrow> length stamp = 15 \<Longrightarrow>
    version_step s s'"
| backup: "backup_current s rtype rid p prompt metadata stamp tm = Inr (k, s') \<Longrightarrow> length stamp = 15 \<Longrightarrow>
    version_step s s'"
| ensure: "ensure_current_tracked s rtype rid p prompt metadata stamp tm = Inr (k, s') \<Longrightarrow> length stamp = 15 \<Longrightarrow>
    version_step s s'"
| restore: "restore_version s rtype rid n p = Inr (a, s') \<Longrightarrow> \<not> in_versions p \<Longrightarrow> version_step s s'"
| outside: "\<not> in_versions p \<Longrightarrow> version_step s (s\<lparr>vs_files := (vs_files s)(p := c)\<rparr>)"

definition version_run :: "version_store \<Rightarrow> version_store \<Rightarrow> bool" where
  "version_run = version_step\<^sup>*\<^sup>*"

definition empty_versions :: "(string \<Rightarrow> content option) \<Rightarrow> version_store" where
  "empty_versions files = \<lparr>vs_data = (\<lambda>_. None), vs_files = files\<rparr>"

text \<open>What every resource of a reachable store satisfies.\<close>

definition resource_ok :: "string \<Rightarrow> string \<Rightarrow> resource_versions \<Rightarrow> bool" where
  "resource_ok rtype rid r =
     (rtype \<in> set resource_types \<and> rv_versions r \<noteq> [] \<and>
      map ve_version (rv_versions r) = [1..int (length (rv_versions r))] \<and>
      1 \<le> rv_current_version r \<and> rv_current_version r \<le> int (length (rv_versions r)) \<and>
      (\<forall>v\<in>set (rv_versions r). \<exists>stamp. length stamp = 15 \<and> ve_file v = version_path rtype rid (ve_version v) stamp))"

definition versions_ok :: "version_store \<Rightarrow> bool" where
  "versions_ok s = (\<forall>rtype rid r. vs_data s (rtype, rid) = Some r \<longrightarrow> resource_ok rtype rid r)"

lemma version_name_inj:
  assumes "rid @ ''_v'' @ show_int n = rid' @ ''_v'' @ show_int n'" and "0 \<le> n" and "0 \<le> n'"
  shows "rid = rid' \<and> n = n'"
proof -
  have digits: "takeWhile is_digit (rev (x @ ''_v'' @ show_int k)) = rev (show_int k)" if "0 \<le> k" for x k
  proof -
    have "takeWhile is_digit (rev (show_int k) @ CHR ''v'' # CHR ''_'' # rev x) = rev (show_int k)"
      using show_nat_digits [of "nat k"] that
      by (subst takeWhile_append2) (auto simp: show_int_def is_digit_def)
    then show ?thesis by simp
  qed
  from digits [OF assms(2), of rid] digits [OF assms(3), of rid']
  have "rev (show_int n) = rev (show_int n')" unfolding assms(1) by simp
  then have "n = n'" by simp
  with assms(1) show ?thesis by simp
qed

lemma resource_type_no_slash: "rtype \<in> set resource_types \<Longrightarrow> CHR ''/'' \<notin> set rtype"
  by (auto simp: resource_types_def resource_patterns_def)

lemma version_path_inj:
  assumes "version_path rtype rid n stamp = version_path rtype' rid' n' stamp'"
    and "rtype \<in> set resource_types" and "rtype' \<in> set resource_types"
    and "length stamp = length stamp'" and "0 \<le> n" and "0 \<le> n'"
  shows "rtype = rtype' \<and> rid = rid' \<and> n = n'"
proof -
  have cut: "takeWhile (\<lambda>c. c \<noteq> CHR ''/'') (t @ CHR ''/'' # x) = t" if "t \<in> set resource_types" for t x
    using resource_type_no_slash [OF that] by (subst takeWhile_append2) auto
  from assms(1) have eq: "rtype @ CHR ''/'' # (rid @ ''_v'' @ show_int n @ ''_'' @ stamp @ version_extension rtype) =
      rtype' @ CHR ''/'' # (rid' @ ''_v'' @ show_int n' @ ''_'' @ stamp' @ version_extension rtype')"
    by (simp add: version_path_def)
  with cut [OF assms(2)] cut [OF assms(3)] have t: "rtype = rtype'" by metis
  with eq have "(rid @ ''_v'' @ show_int n) @ ''_'' @ stamp @ version_extension rtype =
      (rid' @ ''_v'' @ show_int n') @ ''_'' @ stamp' @ version_extension rtype" by simp
  then have "rid @ ''_v'' @ show_int n = rid' @ ''_v'' @ show_int n'"
    by (rule append_eq_append_conv [THEN iffD1, THEN conjunct1, rotated]) (simp add: assms(4))
  with version_name_inj [OF _ assms(5,6)] t show ?thesis by blast
qed

lemma version_path_inside: "in_versions (version_path rtype rid n stamp)"
  by (simp add: in_versions_def version_path_def)

lemma next_version_ok: "map ve_version vs = [1..int (length vs)] \<Longrightarrow> next_version vs = int (length vs) + 1"
  by (cases vs) (auto simp: next_version_def simp flip: set_map intro!: Max_eqI)

text \<open>What an addition does: a new last entry that is current, and its file when there is a source.\<close>

lemma add_versionE:
  assumes "add_version s rtype rid prompt source metadata stamp tm = Inr (n, s')"
  obtains r v where
    "rtype \<in> set resource_types" "r = coalesce (vs_data s (rtype, rid)) \<lparr>rv_current_version = 0, rv_versions = []\<rparr>"
    "n = next_version (rv_versions r)" "ve_version v = n" "ve_prompt v = prompt"
    "ve_file v = version_path rtype rid n stamp"
    "vs_data s' = (vs_data s)((rtype, rid) \<mapsto> \<lparr>rv_current_version = n, rv_versions = rv_versions r @ [v]\<rparr>)"
    "vs_files s' = (case (case source of Some p \<Rightarrow> vs_files s p | None \<Rightarrow> None) of
                      Some c \<Rightarrow> (vs_files s)(version_path rtype rid n stamp \<mapsto> c) | None \<Rightarrow> vs_files s)"
proof -
  let ?r = "coalesce (vs_data s (rtype, rid)) \<lparr>rv_current_version = 0, rv_versions = []\<rparr>"
  let ?path = "version_path rtype rid (next_version (rv_versions ?r)) stamp"
  let ?v = "\<lparr>ve_version = next_version (rv_versions ?r), ve_file = ?path, ve_prompt = prompt, ve_created_at = tm, ve_metadata = metadata\<rparr>"
  from assms have "rtype \<in> set resource_types \<and> n = next_version (rv_versions ?r) \<and>
      s' = \<lparr>vs_data = (vs_data s)((rtype, rid) \<mapsto>
              \<lparr>rv_current_version = next_version (rv_versions ?r), rv_versions = rv_versions ?r @ [?v]\<rparr>),
            vs_files = (case (case source of Some p \<Rightarrow> vs_files s p | None \<Rightarrow> None) of
                          Some c \<Rightarrow> (vs_files s)(?path \<mapsto> c) | None \<Rightarrow> vs_files s)\<rparr>"
    unfolding add_version_def Let_def by (auto split: if_splits)
  then show thesis by (intro that [of ?r ?v]) (simp_all cong: option.case_cong)
qed

lemma add_version_ok:
  assumes "versions_ok s" and "add_version s rtype rid prompt source metadata stamp tm = Inr (n, s')" and "length stamp = 15"
  shows "versions_ok s'"
proof -
  from assms(2) obtain r v where a: "rtype \<in> set resource_types"
      "r = coalesce (vs_data s (rtype, rid)) \<lparr>rv_current_version = 0, rv_versions = []\<rparr>"
      "n = next_version (rv_versions r)" "ve_version v = n" "ve_file v = version_path rtype rid n stamp"
      "vs_data s' = (vs_data s)((rtype, rid) \<mapsto> \<lparr>rv_current_version = n, rv_versions = rv_versions r @ [v]\<rparr>)"
    by (rule add_versionE)
  have nums: "map ve_version (rv_versions r) = [1..int (length (rv_versions r))]"
    and files: "\<forall>v\<in>set (rv_versions r). \<exists>stamp. length stamp = 15 \<and> ve_file v = version_path rtype rid (ve_version v) stamp"
    using assms(1) a(2) by (cases "vs_data s (rtype, rid)"; simp add: versions_ok_def resource_ok_def)+
  then have n: "n = int (length (rv_versions r)) + 1" using a(3) by (simp add: next_version_ok)
  have "[1..int (length (rv_versions r)) + 1] = [1..int (length (rv_versions r))] @ [int (length (rv_versions r)) + 1]"
    by (subst upto_rec2) simp_all
  with nums files a n assms(3) have "resource_ok rtype rid \<lparr>rv_current_version = n, rv_versions = rv_versions r @ [v]\<rparr>"
    by (auto simp: resource_ok_def algebra_simps)
  with assms(1) a(6) show ?thesis by (auto simp: versions_ok_def)
qed

lemma restore_versionE:
  assumes "restore_version s rtype rid n p = Inr (a, s')"
  obtains r v c where "vs_data s (rtype, rid) = Some r" "v \<in> set (rv_versions r)" "ve_version v = n"
    "vs_files s (ve_file v) = Some c" "a = (n, ve_prompt v)"
    "s' = \<lparr>vs_data = (vs_data s)((rtype, rid) \<mapsto> r\<lparr>rv_current_version := n\<rparr>), vs_files = (vs_files s)(p \<mapsto> c)\<rparr>"
proof -
  from assms obtain r v c where r: "vs_data s (rtype, rid) = Some r"
      and v: "List.find (\<lambda>v. ve_version v = n) (rv_versions r) = Some v"
      and c: "vs_files s (ve_file v) = Some c" "a = (n, ve_prompt v)"
        "s' = \<lparr>vs_data = (vs_data s)((rtype, rid) \<mapsto> r\<lparr>rv_current_version := n\<rparr>), vs_files = (vs_files s)(p \<mapsto> c)\<rparr>"
    unfolding restore_version_def by (auto split: if_splits option.splits)
  from v have mem: "v \<in> set (rv_versions r)" "ve_version v = n"
    using find_row_SomeD [of ve_version n "rv_versions r" v] by (simp_all add: find_row_def)
  show thesis by (rule that [OF r mem c])
qed

lemma restore_version_ok:
  assumes "versions_ok s" and "restore_version s rtype rid n p = Inr (a, s')"
  shows "versions_ok s'"
proof -
  from assms(2) obtain r v c where r: "vs_data s (rtype, rid) = Some r" "v \<in> set (rv_versions r)" "ve_version v = n"
    and s': "s' = \<lparr>vs_data = (vs_data s)((rtype, rid) \<mapsto> r\<lparr>rv_current_version := n\<rparr>), vs_files = (vs_files s)(p \<mapsto> c)\<rparr>"
    by (rule restore_versionE)
  from assms(1) r(1) have ok: "resource_ok rtype rid r" by (simp add: versions_ok_def)
  then have "n \<in> set [1..int (length (rv_versions r))]"
    using r(2,3) unfolding resource_ok_def by (metis imageI list.set_map)
  with ok have "resource_ok rtype rid (r\<lparr>rv_current_version := n\<rparr>)" by (simp add: resource_ok_def)
  with assms(1) s' show ?thesis by (auto simp: versions_ok_def)
qed

text \<open>The versions a store keeps with their content.\<close>

definition keeps_version :: "version_store \<Rightarrow> string \<Rightarrow> string \<Rightarrow> int \<Rightarrow> string \<Rightarrow> content \<Rightarrow> bool" where
  "keeps_version s rtype rid n prompt c =
     (\<exists>r v. vs_data s (rtype, rid) = Some r \<and> v \<in> set (rv_versions r) \<and> ve_version v = n \<and>
        ve_prompt v = prompt \<and> vs_files s (ve_file v) = Some c)"

lemma entry_path:
  "versions_ok s \<Longrightarrow> vs_data s (rtype, rid) = Some r \<Longrightarrow> v \<in> set (rv_versions r) \<Longrightarrow>
     rtype \<in> set resource_types \<and> 1 \<le> ve_version v \<and> ve_version v \<le> int (length (rv_versions r)) \<and>
     (\<exists>stamp. length stamp = 15 \<and> ve_file v = version_path rtype rid (ve_version v) stamp)"
  unfolding versions_ok_def resource_ok_def by (metis atLeastAtMost_iff imageI list.set_map set_upto)

lemma add_keeps_version:
  assumes "versions_ok s" and "add_version s rtype' rid' prompt' source metadata stamp tm = Inr (m, s')" and "length stamp = 15"
    and "keeps_version s rtype rid n prompt c"
  shows "keeps_version s' rtype rid n prompt c"
proof -
  from assms(4) obtain r v where v: "vs_data s (rtype, rid) = Some r" "v \<in> set (rv_versions r)" "ve_version v = n"
      "ve_prompt v = prompt" "vs_files s (ve_file v) = Some c"
    by (auto simp: keeps_version_def)
  from assms(2) obtain r' v' where a: "rtype' \<in> set resource_types"
      "r' = coalesce (vs_data s (rtype', rid')) \<lparr>rv_current_version = 0, rv_versions = []\<rparr>"
      "m = next_version (rv_versions r')"
      "vs_data s' = (vs_data s)((rtype', rid') \<mapsto> \<lparr>rv_current_version = m, rv_versions = rv_versions r' @ [v']\<rparr>)"
      "vs_files s' = (case (case source of Some p \<Rightarrow> vs_files s p | None \<Rightarrow> None) of
                        Some c \<Rightarrow> (vs_files s)(version_path rtype' rid' m stamp \<mapsto> c) | None \<Rightarrow> vs_files s)"
    by (rule add_versionE)
  have "map ve_version (rv_versions r') = [1..int (length (rv_versions r'))]"
    using assms(1) a(2) by (cases "vs_data s (rtype', rid')"; simp add: versions_ok_def resource_ok_def)
  then have m: "m = int (length (rv_versions r')) + 1" using a(3) by (simp add: next_version_ok)
  have "ve_file v \<noteq> version_path rtype' rid' m stamp"
  proof
    assume eq: "ve_file v = version_path rtype' rid' m stamp"
    from entry_path [OF assms(1) v(1,2)] obtain st where st: "rtype \<in> set resource_types" "1 \<le> n"
        "n \<le> int (length (rv_versions r))" "length st = 15" "ve_file v = version_path rtype rid n st"
      using v(3) by auto
    have "rtype = rtype' \<and> rid = rid' \<and> n = m"
      by (rule version_path_inj [of _ _ _ st _ _ _ stamp]) (use eq st a(1) m assms(3) in auto)
    with m st(3) v(1) a(2) show False by simp
  qed
  then have "vs_files s' (ve_file v) = Some c" using a(5) v(5) by (auto split: option.splits)
  moreover have "\<exists>r2. vs_data s' (rtype, rid) = Some r2 \<and> v \<in> set (rv_versions r2)"
    using a(2,4) v(1,2) by auto
  ultimately show ?thesis using v(3,4) by (auto simp: keeps_version_def)
qed

lemma empty_versions_ok: "versions_ok (empty_versions files)"
  by (simp add: versions_ok_def empty_versions_def)

lemma tracked_cases:
  assumes "ensure_current_tracked s rtype rid p prompt metadata stamp tm = Inr (k, s')"
  shows "s' = s \<or> (\<exists>n. add_version s rtype rid prompt (Some p) metadata stamp tm = Inr (n, s'))"
  using assms by (auto simp: ensure_current_tracked_def split: if_splits sum.splits)

lemma backup_cases:
  assumes "backup_current s rtype rid p prompt metadata stamp tm = Inr (k, s')"
  shows "s' = s \<or> (\<exists>n. add_version s rtype rid prompt (Some p) metadata stamp tm = Inr (n, s'))"
  using assms by (auto simp: backup_current_def split: if_splits sum.splits)

lemma add_step_keeps:
  assumes "versions_ok s" and "add_version s rtype rid prompt source metadata stamp tm = Inr (n, s')" and "length stamp = 15"
  shows "versions_ok s' \<and> (\<forall>rtype rid n prompt c. keeps_version s rtype rid n prompt c \<longrightarrow> keeps_version s' rtype rid n prompt c)"
  using add_version_ok [OF assms] add_keeps_version [OF assms] by blast

text \<open>One step keeps the invariant and every version with its content.\<close>

lemma version_step_keeps:
  assumes "version_step s s'" and "versions_ok s"
  shows "versions_ok s' \<and> (\<forall>rtype rid n prompt c. keeps_version s rtype rid n prompt c \<longrightarrow> keeps_version s' rtype rid n prompt c)"
  using assms
proof (induction rule: version_step.induct)
  case add
  from add_step_keeps [OF add(3,1,2)] show ?case .
next
  case (backup s rtype rid p prompt metadata stamp tm k s')
  with backup_cases [OF backup(1)] add_step_keeps [of s rtype rid prompt "Some p" metadata stamp tm _ s'] show ?case by blast
next
  case (ensure s rtype rid p prompt metadata stamp tm k s')
  with tracked_cases [OF ensure(1)] add_step_keeps [of s rtype rid prompt "Some p" metadata stamp tm _ s'] show ?case by blast
next
  case (restore s rtype rid n p a s')
  from restore(1) obtain r v c where r: "vs_data s (rtype, rid) = Some r"
    and s': "s' = \<lparr>vs_data = (vs_data s)((rtype, rid) \<mapsto> r\<lparr>rv_current_version := n\<rparr>), vs_files = (vs_files s)(p \<mapsto> c)\<rparr>"
    by (rule restore_versionE)
  have "keeps_version s' t i m pr c'" if keeps: "keeps_version s t i m pr c'" for t i m pr c'
  proof -
    from keeps obtain r2 v2 where v2: "vs_data s (t, i) = Some r2" "v2 \<in> set (rv_versions r2)" "ve_version v2 = m"
        "ve_prompt v2 = pr" "vs_files s (ve_file v2) = Some c'"
      by (auto simp: keeps_version_def)
    from entry_path [OF restore(3) v2(1,2)] have "in_versions (ve_file v2)" using version_path_inside by auto
    with restore(2) have "ve_file v2 \<noteq> p" by auto
    with v2(5) have "vs_files s' (ve_file v2) = Some c'" by (simp add: s')
    moreover have "\<exists>r3. vs_data s' (t, i) = Some r3 \<and> rv_versions r3 = rv_versions r2"
      using r v2(1) by (cases "t = rtype \<and> i = rid") (auto simp: s')
    ultimately show ?thesis unfolding keeps_version_def using v2(2-4) by metis
  qed
  with restore_version_ok [OF restore(3,1)] show ?case by blast
next
  case (outside p s c)
  have "keeps_version (s\<lparr>vs_files := (vs_files s)(p := c)\<rparr>) t i m pr c'" if "keeps_version s t i m pr c'" for t i m pr c'
  proof -
    from that obtain r2 v2 where v2: "vs_data s (t, i) = Some r2" "v2 \<in> set (rv_versions r2)" "ve_version v2 = m"
        "ve_prompt v2 = pr" "vs_files s (ve_file v2) = Some c'"
      by (auto simp: keeps_version_def)
    from entry_path [OF outside(2) v2(1,2)] have "in_versions (ve_file v2)" using version_path_inside by auto
    with outside(1) have "ve_file v2 \<noteq> p" by auto
    with v2 show ?thesis by (auto simp: keeps_version_def)
  qed
  with outside(2) show ?case by (simp add: versions_ok_def)
qed

lemma version_run_keeps:
  assumes "version_run s s'" and "versions_ok s"
  shows "versions_ok s'" "keeps_version s rtype rid n prompt c \<Longrightarrow> keeps_version s' rtype rid n prompt c"
proof -
  have "versions_ok s' \<and> (keeps_version s rtype rid n prompt c \<longrightarrow> keeps_version s' rtype rid n prompt c)"
    using assms(1) unfolding version_run_def
    by (induction rule: rtranclp_induct) (use assms(2) version_step_keeps in blast)+
  then show "versions_ok s'" "keeps_version s rtype rid n prompt c \<Longrightarrow> keeps_version s' rtype rid n prompt c" by auto
qed

lemma distinct_version:
  "versions_ok s \<Longrightarrow> vs_data s (rtype, rid) = Some r \<Longrightarrow> v \<in> set (rv_versions r) \<Longrightarrow>
     List.find (\<lambda>x. ve_version x = ve_version v) (rv_versions r) = Some v"
  using find_row_mem [of ve_version "rv_versions r" v]
  by (simp add: versions_ok_def resource_ok_def find_row_def)

lemma restore_kept:
  assumes "versions_ok s" and "keeps_version s rtype rid n prompt c" and "\<not> in_versions p"
  shows "\<exists>s'. restore_version s rtype rid n p = Inr ((n, prompt), s') \<and> vs_files s' p = Some c \<and>
    get_current_version project s' rtype rid = Inr n"
proof -
  from assms(2) obtain r v where v: "vs_data s (rtype, rid) = Some r" "v \<in> set (rv_versions r)" "ve_version v = n"
      "ve_prompt v = prompt" "vs_files s (ve_file v) = Some c"
    by (auto simp: keeps_version_def)
  from entry_path [OF assms(1) v(1,2)] have "rtype \<in> set resource_types" "in_versions (ve_file v)"
    using version_path_inside by auto
  with assms(3) v distinct_version [OF assms(1) v(1,2)] show ?thesis
    by (auto simp: restore_version_def get_current_version_def get_versions_def)
qed

text \<open>Generating an image is a run of these steps.\<close>

lemma resource_path_outside:
  "resource_relative_path rtype rid = Inr p \<Longrightarrow> \<not> in_versions p"
  by (auto simp: resource_relative_path_def resource_patterns_def in_versions_def split: if_splits)

lemma generate_output_run:
  assumes "generate_output s rtype rid prompt metadata result stamp tm stamp' tm' = Inr ((p, n), s2)"
    and "length stamp = 15" and "length stamp' = 15"
  shows "version_run s s2"
proof -
  from assms(1) obtain k s1 where p: "resource_relative_path rtype rid = Inr p"
    and s1: "(if vs_files s p \<noteq> None then ensure_current_tracked s rtype rid p prompt metadata stamp tm else Inr (None, s)) = Inr (k, s1)"
    and s2: "add_version (s1\<lparr>vs_files := (vs_files s1)(p \<mapsto> result)\<rparr>) rtype rid prompt (Some p) metadata stamp' tm' = Inr (n, s2)"
    by (auto simp: generate_output_def split: sum.splits)
  have "version_step\<^sup>*\<^sup>* s s1"
    using s1 version_step.ensure [OF _ assms(2), of s rtype rid p prompt metadata tm k s1]
    by (auto split: if_splits)
  also have "version_step\<^sup>*\<^sup>* s1 (s1\<lparr>vs_files := (vs_files s1)(p \<mapsto> result)\<rparr>)"
    by (intro r_into_rtranclp version_step.outside resource_path_outside [OF p])
  also have "version_step\<^sup>*\<^sup>* (s1\<lparr>vs_files := (vs_files s1)(p \<mapsto> result)\<rparr>) s2"
    by (intro r_into_rtranclp version_step.add [OF s2 assms(3)])
  finally show ?thesis by (simp add: version_run_def)
qed

section \<open>Histories\<close>

text \<open>In every store a project can reach, the versions of a resource are numbered 1, 2, 3 and so
  on without a gap, the current one is among them, and no two versions of any resources share a
  file.\<close>

theorem versions_numbered:
  assumes "version_run (empty_versions files) s" and "vs_data s (rtype, rid) = Some r"
  shows "map ve_version (rv_versions r) = [1..int (length (rv_versions r))] \<and>
    rv_current_version r \<in> set (map ve_version (rv_versions r)) \<and>
    (\<forall>rtype' rid' r' v v'. vs_data s (rtype', rid') = Some r' \<and> v \<in> set (rv_versions r) \<and> v' \<in> set (rv_versions r') \<and>
       ve_file v = ve_file v' \<longrightarrow> rtype = rtype' \<and> rid = rid' \<and> v = v')"
proof -
  have ok: "versions_ok s" by (rule version_run_keeps(1) [OF assms(1) empty_versions_ok])
  with assms(2) have r: "resource_ok rtype rid r" by (simp add: versions_ok_def)
  have "rtype = rtype' \<and> rid = rid' \<and> v = v'"
    if h: "vs_data s (rtype', rid') = Some r'" "v \<in> set (rv_versions r)" "v' \<in> set (rv_versions r')" "ve_file v = ve_file v'"
    for rtype' rid' r' v v'
  proof -
    from entry_path [OF ok assms(2) h(2)] obtain st where st: "rtype \<in> set resource_types" "1 \<le> ve_version v"
        "length st = 15" "ve_file v = version_path rtype rid (ve_version v) st" by blast
    from entry_path [OF ok h(1,3)] obtain st' where st': "rtype' \<in> set resource_types" "1 \<le> ve_version v'"
        "length st' = 15" "ve_file v' = version_path rtype' rid' (ve_version v') st'" by blast
    have same: "rtype = rtype' \<and> rid = rid' \<and> ve_version v = ve_version v'"
      by (rule version_path_inj [of _ _ _ st _ _ _ st']) (use st st' h(4) in simp_all)
    from h(1) assms(2) same have "r' = r" by simp
    with h(3) have "v' \<in> set (rv_versions r)" by simp
    note found = distinct_version [OF ok assms(2) h(2)] distinct_version [OF ok assms(2) this]
    from same have eq: "ve_version v = ve_version v'" by blast
    have "Some v = Some v'" by (rule trans [OF found(1) [symmetric, unfolded eq] found(2)])
    then have "v = v'" by (rule option.inject [THEN iffD1])
    with same show ?thesis by blast
  qed
  moreover from r have "map ve_version (rv_versions r) = [1..int (length (rv_versions r))]"
    "rv_current_version r \<in> set (map ve_version (rv_versions r))" by (simp_all only: resource_ok_def set_upto atLeastAtMost_iff simp_thms)
  ultimately show ?thesis by blast
qed

lemma first_addition:
  "\<exists>s'. add_version (empty_versions [''x'' \<mapsto> ''c'']) ''videos'' ''a'' ''p'' (Some ''x'') [] stamp tm = Inr (1, s') \<and>
     vs_data s' (''videos'', ''a'') \<noteq> None"
  by (simp add: add_version_def resource_types_def resource_patterns_def empty_versions_def next_version_def
      version_path_def Let_def)

theorem versions_numbered_witness:
  "\<exists>s r. version_run (empty_versions [''x'' \<mapsto> ''c'']) s \<and> vs_data s (''videos'', ''a'') = Some r \<and>
     map ve_version (rv_versions r) = [1..int (length (rv_versions r))]"
proof -
  obtain s r where add: "add_version (empty_versions [''x'' \<mapsto> ''c'']) ''videos'' ''a'' ''p'' (Some ''x'') []
      ''20260101T000000'' [] = Inr (1, s)" and r: "vs_data s (''videos'', ''a'') = Some r"
    using first_addition [of "''20260101T000000''" "[]"] by blast
  have "version_run (empty_versions [''x'' \<mapsto> ''c'']) s"
    unfolding version_run_def by (rule r_into_rtranclp, rule version_step.add [OF add]) simp
  with versions_numbered [OF this r] r show ?thesis by blast
qed

text \<open>C12. A version is never lost: once a file has been added as a version, whatever operations,
  generations and changes to other files follow, restoring that version succeeds, puts exactly the
  added content in place, answers the prompt it was added with and makes the version current.\<close>

theorem version_restores:
  assumes "version_run (empty_versions files) s" and "vs_files s src = Some c" and "length stamp = 15"
    and "add_version s rtype rid prompt (Some src) metadata stamp tm = Inr (n, s1)"
    and "version_run s1 s2" and "\<not> in_versions dest"
  shows "\<exists>s3. restore_version s2 rtype rid n dest = Inr ((n, prompt), s3) \<and> vs_files s3 dest = Some c \<and>
    get_current_version project s3 rtype rid = Inr n"
proof -
  have ok: "versions_ok s" by (rule version_run_keeps(1) [OF assms(1) empty_versions_ok])
  from assms(4) obtain r :: resource_versions and v where v: "ve_version v = n" "ve_prompt v = prompt" "ve_file v = version_path rtype rid n stamp"
      "vs_data s1 = (vs_data s)((rtype, rid) \<mapsto> \<lparr>rv_current_version = n, rv_versions = rv_versions r @ [v]\<rparr>)"
      "vs_files s1 = (case (case Some src of Some p \<Rightarrow> vs_files s p | None \<Rightarrow> None) of
                      Some c \<Rightarrow> (vs_files s)(version_path rtype rid n stamp \<mapsto> c) | None \<Rightarrow> vs_files s)"
    by (rule add_versionE) blast
  have "vs_files s1 (ve_file v) = Some c" by (simp add: v(3,5) assms(2))
  with v(1,2,4) have "keeps_version s1 rtype rid n prompt c" unfolding keeps_version_def by force
  moreover have "versions_ok s1" by (rule add_version_ok [OF ok assms(4,3)])
  ultimately have "versions_ok s2" "keeps_version s2 rtype rid n prompt c"
    using version_run_keeps [OF assms(5)] by blast+
  then show ?thesis using assms(6) by (rule restore_kept)
qed

theorem version_restores_witness:
  "\<exists>s1 s3. add_version (empty_versions [''x'' \<mapsto> ''c'']) ''videos'' ''a'' ''p'' (Some ''x'') [] ''20260101T000000'' [] = Inr (1, s1) \<and>
     restore_version s1 ''videos'' ''a'' 1 ''videos/scene_a.mp4'' = Inr ((1, ''p''), s3) \<and>
     vs_files s3 ''videos/scene_a.mp4'' = Some ''c''"
proof -
  obtain s1 where add: "add_version (empty_versions [''x'' \<mapsto> ''c'']) ''videos'' ''a'' ''p'' (Some ''x'') []
      ''20260101T000000'' [] = Inr (1, s1)"
    using first_addition [of "''20260101T000000''" "[]"] by blast
  have run: "version_run (empty_versions [''x'' \<mapsto> ''c'']) (empty_versions [''x'' \<mapsto> ''c''])" "version_run s1 s1"
    by (simp_all add: version_run_def)
  have src: "vs_files (empty_versions [''x'' \<mapsto> ''c'']) ''x'' = Some ''c''" by (simp add: empty_versions_def)
  have dest: "\<not> in_versions ''videos/scene_a.mp4''" by (simp add: in_versions_def)
  from version_restores [OF run(1) src _ add run(2) dest, of "[]"] add show ?thesis by auto
qed

end
