(* ===== verification/SessionStore.thy ===== *)
theory SessionStore
  imports PyJson "HOL-Library.Multiset"
begin

text \<open>
  The transcript store of agent sessions (\<open>lib/agent_session_store/store.py\<close>): entries keyed by
  project, session and subpath and ordered by a sequence number, de-duplicated by their uuid, and
  a summary per session. Reading the next number and inserting are two statements: what other
  connections commit between them is an argument, and a collision on the number is retried.
  The folding of a summary belongs to the agent SDK and is an argument too.
\<close>

record store_key =
  sk_project :: string
  sk_session :: string
  sk_subpath :: "string option"

record session_row =
  sr_project :: string
  sr_session :: string
  sr_subpath :: string
  sr_seq :: int
  sr_uuid :: "string option"
  sr_type :: string
  sr_payload :: dict
  sr_mtime :: int

record summary_row =
  su_project :: string
  su_session :: string
  su_mtime :: int
  su_data :: dict

record session_db =
  sd_entries :: "session_row list"
  sd_summaries :: "summary_row list"

type_synonym summary_fold = "(int \<times> dict) option \<Rightarrow> dict list \<Rightarrow> dict option"

definition normalize_key :: "store_key \<Rightarrow> string \<times> string \<times> string" where
  "normalize_key k = (sk_project k, sk_session k, coalesce (sk_subpath k) [])"

definition row_key :: "session_row \<Rightarrow> string \<times> string \<times> string" where
  "row_key r = (sr_project r, sr_session r, sr_subpath r)"

definition entry_type :: "dict \<Rightarrow> string" where
  "entry_type e = coalesce (as_str (dict_ref e ''type'')) []"

definition entry_uuid :: "dict \<Rightarrow> string option" where
  "entry_uuid e = (case as_str (dict_ref e ''uuid'') of Some u \<Rightarrow> if u \<noteq> [] then Some u else None | None \<Rightarrow> None)"

section \<open>Operations\<close>

definition next_seq :: "session_row list \<Rightarrow> string \<times> string \<times> string \<Rightarrow> int" where
  "next_seq rows k =
     (let seqs = map sr_seq (filter (\<lambda>r. row_key r = k) rows) in (if seqs = [] then - 1 else Max (set seqs)) + 1)"

definition entry_row :: "string \<times> string \<times> string \<Rightarrow> int \<Rightarrow> int \<Rightarrow> dict \<Rightarrow> session_row" where
  "entry_row k seq now e =
     \<lparr>sr_project = fst k, sr_session = fst (snd k), sr_subpath = snd (snd k), sr_seq = seq,
      sr_uuid = entry_uuid e, sr_type = entry_type e, sr_payload = e, sr_mtime = now\<rparr>"

text \<open>
  \<open>INSERT ... ON CONFLICT (uuid) DO NOTHING\<close>: a row whose uuid its key already has is skipped, a row
  whose number is taken fails the whole statement with the \<open>IntegrityError\<close>, here \<open>None\<close>.
\<close>

fun insert_entries :: "session_row list \<Rightarrow> session_row list \<Rightarrow> session_row list option" where
  "insert_entries rows [] = Some rows"
| "insert_entries rows (r # rs) =
     (if sr_uuid r \<noteq> None \<and> list_ex (\<lambda>x. row_key x = row_key r \<and> sr_uuid x = sr_uuid r) rows then insert_entries rows rs
      else if list_ex (\<lambda>x. row_key x = row_key r \<and> sr_seq x = sr_seq r) rows then None
      else insert_entries (rows @ [r]) rs)"

definition find_summary :: "session_db \<Rightarrow> string \<Rightarrow> string \<Rightarrow> summary_row option" where
  "find_summary db project session =
     List.find (\<lambda>r. su_project r = project \<and> su_session r = session) (sd_summaries db)"

definition fold_summary :: "summary_fold \<Rightarrow> session_db \<Rightarrow> string \<Rightarrow> string \<Rightarrow> dict list \<Rightarrow> int \<Rightarrow> summary_row list" where
  "fold_summary sdk_fold db project session entries now =
     (let prev = find_summary db project session;
          data = coalesce (sdk_fold (map_option (\<lambda>r. (su_mtime r, su_data r)) prev) entries) [];
          new = \<lparr>su_project = project, su_session = session, su_mtime = now, su_data = data\<rparr>
      in case prev of
           None \<Rightarrow> sd_summaries db @ [new]
         | Some _ \<Rightarrow> map_where (\<lambda>r. su_project r = project \<and> su_session r = session) (\<lambda>_. new) (sd_summaries db))"

text \<open>The part of \<open>_append_once\<close> after the number was read.\<close>

fun rows_from :: "string \<times> string \<times> string \<Rightarrow> int \<Rightarrow> int \<Rightarrow> dict list \<Rightarrow> session_row list" where
  "rows_from k seq now [] = []"
| "rows_from k seq now (e # es) = entry_row k seq now e # rows_from k (seq + 1) now es"

definition append_write ::
  "summary_fold \<Rightarrow> session_db \<Rightarrow> string \<times> string \<times> string \<Rightarrow> int \<Rightarrow> dict list \<Rightarrow> int \<Rightarrow> session_db option" where
  "append_write sdk_fold db k seq_start entries now =
     (case insert_entries (sd_entries db) (rows_from k seq_start now entries) of
        None \<Rightarrow> None
      | Some rows \<Rightarrow>
          Some \<lparr>sd_entries = rows,
                sd_summaries = (if snd (snd k) = [] then fold_summary sdk_fold db (fst k) (fst (snd k)) entries now
                                else sd_summaries db)\<rparr>)"

definition max_append_retry :: nat where
  "max_append_retry = 16"

text \<open>
  The retry loop; \<open>env i\<close> is what other connections commit between the two statements of attempt
  \<open>i\<close>. An error carries the database as the others left it.
\<close>

fun append_loop ::
  "summary_fold \<Rightarrow> (nat \<Rightarrow> session_db \<Rightarrow> session_db) \<Rightarrow> string \<times> string \<times> string \<Rightarrow> dict list \<Rightarrow> int \<Rightarrow>
   nat \<Rightarrow> nat \<Rightarrow> session_db \<Rightarrow> session_db + session_db" where
  "append_loop sdk_fold env k entries now attempt 0 db = Inl db"
| "append_loop sdk_fold env k entries now attempt (Suc left) db =
     (let seq_start = next_seq (sd_entries db) k;
          db' = env attempt db
      in case append_write sdk_fold db' k seq_start entries now of
           Some db2 \<Rightarrow> Inr db2
         | None \<Rightarrow> append_loop sdk_fold env k entries now (attempt + 1) left db')"

definition append_session ::
  "summary_fold \<Rightarrow> (nat \<Rightarrow> session_db \<Rightarrow> session_db) \<Rightarrow> session_db \<Rightarrow> store_key \<Rightarrow> dict list \<Rightarrow> int \<Rightarrow> session_db + session_db" where
  "append_session sdk_fold env db key entries now =
     (if entries = [] then Inr db
      else append_loop sdk_fold env (normalize_key key) entries now 0 max_append_retry db)"

definition load_rows :: "session_row list \<Rightarrow> string \<times> string \<times> string \<Rightarrow> dict list" where
  "load_rows rows k = map sr_payload (sort_key sr_seq (filter (\<lambda>r. row_key r = k) rows))"

definition load_session :: "session_db \<Rightarrow> store_key \<Rightarrow> dict list option" where
  "load_session db key =
     (let payloads = load_rows (sd_entries db) (normalize_key key) in if payloads = [] then None else Some payloads)"

definition list_sessions :: "session_db \<Rightarrow> string \<Rightarrow> (string \<times> int) list" where
  "list_sessions db project =
     (let mine = filter (\<lambda>r. sr_project r = project \<and> sr_subpath r = []) (sd_entries db)
      in map (\<lambda>sid. (sid, Max (set (map sr_mtime (filter (\<lambda>r. sr_session r = sid) mine)))))
           (remdups (map sr_session mine)))"

definition list_session_summaries :: "session_db \<Rightarrow> string \<Rightarrow> (string \<times> int \<times> dict) list" where
  "list_session_summaries db project =
     map (\<lambda>r. (su_session r, su_mtime r, su_data r)) (filter (\<lambda>r. su_project r = project) (sd_summaries db))"

definition delete_session :: "session_db \<Rightarrow> store_key \<Rightarrow> session_db" where
  "delete_session db key =
     (let (project, session, subpath) = normalize_key key;
          one = (\<exists>s. sk_subpath key = Some s \<and> s \<noteq> []);
          kept = filter (\<lambda>r. \<not> (sr_project r = project \<and> sr_session r = session \<and> (one \<longrightarrow> sr_subpath r = subpath))) (sd_entries db);
          summaries = (if subpath = [] \<and> sk_subpath key = None
                       then filter (\<lambda>r. \<not> (su_project r = project \<and> su_session r = session)) (sd_summaries db)
                       else sd_summaries db)
      in \<lparr>sd_entries = kept, sd_summaries = summaries\<rparr>)"

definition list_subkeys :: "session_db \<Rightarrow> store_key \<Rightarrow> string list" where
  "list_subkeys db key =
     remdups (map sr_subpath (filter (\<lambda>r. sr_project r = sk_project key \<and> sr_session r = sk_session key \<and> sr_subpath r \<noteq> [])
       (sd_entries db)))"

section \<open>The table\<close>

text \<open>The primary key and the unique index.\<close>

definition session_rows_ok :: "session_row list \<Rightarrow> bool" where
  "session_rows_ok rows =
     (distinct (map (\<lambda>r. (row_key r, sr_seq r)) rows) \<and>
      distinct (map (\<lambda>r. (row_key r, sr_uuid r)) (filter (\<lambda>r. sr_uuid r \<noteq> None) rows)))"

lemma session_rows_snoc:
  assumes "session_rows_ok rows" and "\<forall>x\<in>set rows. row_key x = row_key r \<longrightarrow> sr_seq x \<noteq> sr_seq r"
    and "sr_uuid r = None \<or> (\<forall>x\<in>set rows. row_key x = row_key r \<longrightarrow> sr_uuid x \<noteq> sr_uuid r)"
  shows "session_rows_ok (rows @ [r])"
  using assms by (cases "sr_uuid r") (auto simp: session_rows_ok_def image_iff)

lemma insert_entries_ok:
  "insert_entries rows rs = Some rows' \<Longrightarrow> session_rows_ok rows \<Longrightarrow> session_rows_ok rows'"
proof (induction rows rs rule: insert_entries.induct)
  case (2 rows r rs)
  show ?case
  proof (cases "sr_uuid r \<noteq> None \<and> list_ex (\<lambda>x. row_key x = row_key r \<and> sr_uuid x = sr_uuid r) rows")
    case True
    with 2 show ?thesis by simp
  next
    case False
    with "2.prems"(1) have free: "\<not> list_ex (\<lambda>x. row_key x = row_key r \<and> sr_seq x = sr_seq r) rows"
      and rest: "insert_entries (rows @ [r]) rs = Some rows'" by (auto split: if_splits)
    have "session_rows_ok (rows @ [r])"
      using "2.prems"(2) False free by (intro session_rows_snoc) (auto simp: list_ex_iff)
    with "2.IH"(2) [OF False free rest] show ?thesis .
  qed
qed simp

lemma insert_entries_prefix: "insert_entries rows rs = Some rows' \<Longrightarrow> \<exists>new. rows' = rows @ new \<and> subseq new rs"
proof (induction rows rs rule: insert_entries.induct)
  case (2 rows r rs)
  then show ?case by (auto split: if_splits intro: subseq_Cons2)
qed auto

text \<open>Every row of a statement that succeeded is stored, or its uuid was.\<close>

lemma insert_entries_all:
  assumes "insert_entries rows rs = Some rows'" and "r \<in> set rs"
  shows "r \<in> set rows' \<or> (sr_uuid r \<noteq> None \<and> (\<exists>x\<in>set rows'. row_key x = row_key r \<and> sr_uuid x = sr_uuid r))"
  using assms
proof (induction rows rs rule: insert_entries.induct)
  case (2 rows r' rs)
  show ?case
  proof (cases "sr_uuid r' \<noteq> None \<and> list_ex (\<lambda>x. row_key x = row_key r' \<and> sr_uuid x = sr_uuid r') rows")
    case True
    with "2.prems"(1) have rest: "insert_entries rows rs = Some rows'" by simp
    from insert_entries_prefix [OF rest] obtain new where "rows' = rows @ new" by blast
    with True "2.IH"(1) [OF True rest] "2.prems"(2) show ?thesis by (auto simp: list_ex_iff)
  next
    case False
    with "2.prems"(1) have free: "\<not> list_ex (\<lambda>x. row_key x = row_key r' \<and> sr_seq x = sr_seq r') rows"
      and rest: "insert_entries (rows @ [r']) rs = Some rows'" by (auto split: if_splits)
    from insert_entries_prefix [OF rest] have "r' \<in> set rows'" by auto
    with "2.IH"(2) [OF False free rest] "2.prems"(2) show ?thesis by auto
  qed
qed simp

section \<open>Appending\<close>

definition stored_uuids :: "session_row list \<Rightarrow> string \<times> string \<times> string \<Rightarrow> string list" where
  "stored_uuids rows k = List.map_filter sr_uuid (filter (\<lambda>r. row_key r = k) rows)"

text \<open>The entries an append adds: those whose uuid is neither stored nor repeated.\<close>

fun fresh_entries :: "string list \<Rightarrow> dict list \<Rightarrow> dict list" where
  "fresh_entries seen [] = []"
| "fresh_entries seen (e # es) =
     (case entry_uuid e of
        Some u \<Rightarrow> if u \<in> set seen then fresh_entries seen es else e # fresh_entries (seen @ [u]) es
      | None \<Rightarrow> e # fresh_entries seen es)"

lemma stored_uuids_append: "stored_uuids (rows @ rs) k = stored_uuids rows k @ stored_uuids rs k"
  by (simp add: stored_uuids_def map_filter_def)

lemma in_stored_uuids: "u \<in> set (stored_uuids rows k) \<longleftrightarrow> (\<exists>r\<in>set rows. row_key r = k \<and> sr_uuid r = Some u)"
  by (force simp: stored_uuids_def map_filter_def)

lemma entry_row_simps [simp]:
  "row_key (entry_row k n now e) = k" "sr_seq (entry_row k n now e) = n" "sr_uuid (entry_row k n now e) = entry_uuid e"
  "sr_payload (entry_row k n now e) = e"
  by (simp_all add: entry_row_def row_key_def)

lemma insert_fresh_rows:
  assumes "\<forall>r\<in>set rows. row_key r = k \<longrightarrow> sr_seq r < start"
  shows "\<exists>new. insert_entries rows (rows_from k start now es) = Some (rows @ new) \<and>
    map sr_payload new = fresh_entries (stored_uuids rows k) es \<and>
    (\<forall>r\<in>set new. row_key r = k \<and> start \<le> sr_seq r) \<and> sorted_wrt (<) (map sr_seq new)"
  using assms
proof (induction es arbitrary: rows start)
  case (Cons e es)
  let ?r = "entry_row k start now e"
  show ?case
  proof (cases "\<exists>u. entry_uuid e = Some u \<and> u \<in> set (stored_uuids rows k)")
    case True
    then have dup: "sr_uuid ?r \<noteq> None \<and> list_ex (\<lambda>x. row_key x = row_key ?r \<and> sr_uuid x = sr_uuid ?r) rows"
      by (auto simp: in_stored_uuids list_ex_iff)
    from Cons.prems have "\<forall>r\<in>set rows. row_key r = k \<longrightarrow> sr_seq r < start + 1" by force
    from Cons.IH [OF this] dup True show ?thesis by (auto simp: algebra_simps) force
  next
    case False
    then have nodup: "\<not> (sr_uuid ?r \<noteq> None \<and> list_ex (\<lambda>x. row_key x = row_key ?r \<and> sr_uuid x = sr_uuid ?r) rows)"
      by (auto simp: in_stored_uuids list_ex_iff)
    have free: "\<not> list_ex (\<lambda>x. row_key x = row_key ?r \<and> sr_seq x = sr_seq ?r) rows"
      using Cons.prems by (auto simp: list_ex_iff)
    from Cons.prems have "\<forall>r\<in>set (rows @ [?r]). row_key r = k \<longrightarrow> sr_seq r < start + 1" by auto
    from Cons.IH [OF this] obtain new where new:
      "insert_entries (rows @ [?r]) (rows_from k (start + 1) now es) = Some ((rows @ [?r]) @ new)"
      "map sr_payload new = fresh_entries (stored_uuids (rows @ [?r]) k) es"
      "\<forall>r\<in>set new. row_key r = k \<and> start + 1 \<le> sr_seq r" "sorted_wrt (<) (map sr_seq new)" by blast
    have "fresh_entries (stored_uuids rows k) (e # es) = e # fresh_entries (stored_uuids (rows @ [?r]) k) es"
      using False by (cases "entry_uuid e") (simp_all add: stored_uuids_append, simp_all add: stored_uuids_def map_filter_simps)
    moreover have "insert_entries rows (rows_from k start now (e # es)) = Some (rows @ (?r # new))"
      using nodup free new(1) by (simp only: rows_from.simps insert_entries.simps if_False append_assoc append_Cons append_Nil)
    ultimately show ?thesis
      using new(2-4) by (intro exI [of _ "?r # new"]) force
  qed
qed simp

lemma next_seq_above: "r \<in> set rows \<Longrightarrow> row_key r = k \<Longrightarrow> sr_seq r < next_seq rows k"
proof -
  assume "r \<in> set rows" "row_key r = k"
  then have mem: "sr_seq r \<in> set (map sr_seq (filter (\<lambda>r. row_key r = k) rows))" by auto
  then have "map sr_seq (filter (\<lambda>r. row_key r = k) rows) \<noteq> []" by (metis list.set(1) empty_iff)
  moreover have "sr_seq r \<le> Max (set (map sr_seq (filter (\<lambda>r. row_key r = k) rows)))"
    by (rule Max_ge [OF finite_set mem])
  ultimately show "sr_seq r < next_seq rows k" unfolding next_seq_def Let_def by (simp only: if_False zless_add1_eq le_less)
qed

lemma sort_key_append_above:
  fixes f :: "'a \<Rightarrow> int"
  assumes "sorted_wrt (<) (map f ys)" and "\<forall>x\<in>set xs. \<forall>y\<in>set ys. f x < f y"
  shows "sort_key f (xs @ ys) = sort_key f xs @ ys"
proof (rule properties_for_sort_key)
  show "mset (sort_key f xs @ ys) = mset (xs @ ys)" by simp
  show "filter (\<lambda>x. f k = f x) (sort_key f xs @ ys) = filter (\<lambda>x. f k = f x) (xs @ ys)" for k
    using sort_key_stable [of f "f k" xs] by (simp add: eq_commute)
  from assms(1) have "sorted (map f ys)" by (rule strict_sorted_imp_sorted)
  moreover from assms(2) have "\<forall>x\<in>set xs. \<forall>y\<in>set ys. f x \<le> f y" by force
  ultimately show "sorted (map f (sort_key f xs @ ys))" by (simp add: sorted_append)
qed

lemma load_after_insert:
  assumes "insert_entries rows (rows_from k (next_seq rows k) now es) = Some rows'"
  shows "load_rows rows' k = load_rows rows k @ fresh_entries (stored_uuids rows k) es"
    "k' \<noteq> k \<Longrightarrow> load_rows rows' k' = load_rows rows k'"
proof -
  from insert_fresh_rows [of rows k "next_seq rows k" now es] next_seq_above [of _ rows k] assms
  obtain new where new: "rows' = rows @ new" "map sr_payload new = fresh_entries (stored_uuids rows k) es"
    "\<forall>r\<in>set new. row_key r = k \<and> next_seq rows k \<le> sr_seq r" "sorted_wrt (<) (map sr_seq new)" by auto
  from new(3) have mine: "filter (\<lambda>r. row_key r = k) new = new" by (simp add: filter_id_conv)
  have "\<forall>x\<in>set (filter (\<lambda>r. row_key r = k) rows). \<forall>y\<in>set new. sr_seq x < sr_seq y"
    using new(3) next_seq_above [of _ rows k] by force
  from sort_key_append_above [OF new(4) this] mine new(1,2)
  show "load_rows rows' k = load_rows rows k @ fresh_entries (stored_uuids rows k) es" by (simp add: load_rows_def)
  from new(3) have "filter (\<lambda>r. row_key r = k') new = []" if "k' \<noteq> k" using that by (auto simp: filter_empty_conv)
  then show "k' \<noteq> k \<Longrightarrow> load_rows rows' k' = load_rows rows k'" by (simp add: load_rows_def new(1))
qed

lemma load_session_rows: "coalesce (load_session db key) [] = load_rows (sd_entries db) (normalize_key key)"
  by (simp add: load_session_def Let_def)

text \<open>An append that nobody races is stored exactly: it succeeds at the first attempt, loading the
  key afterwards gives what was there followed by the new entries in their order, without those
  whose uuid is already stored or repeated, and no other key changes.\<close>

theorem append_then_load:
  "\<exists>db'. append_session sdk_fold (\<lambda>_ d. d) db key entries now = Inr db' \<and>
     coalesce (load_session db' key) [] =
       coalesce (load_session db key) [] @ fresh_entries (stored_uuids (sd_entries db) (normalize_key key)) entries \<and>
     (\<forall>key'. normalize_key key' \<noteq> normalize_key key \<longrightarrow> load_session db' key' = load_session db key')"
proof (cases "entries = []")
  case True
  then show ?thesis by (simp add: append_session_def)
next
  case False
  let ?k = "normalize_key key" and ?rows = "sd_entries db"
  have "\<forall>r\<in>set ?rows. row_key r = ?k \<longrightarrow> sr_seq r < next_seq ?rows ?k" using next_seq_above by blast
  from insert_fresh_rows [OF this, of now entries] obtain rows' where
    ins: "insert_entries ?rows (rows_from ?k (next_seq ?rows ?k) now entries) = Some rows'" by blast
  then obtain db' where "append_write sdk_fold db ?k (next_seq ?rows ?k) entries now = Some db'" "sd_entries db' = rows'"
    by (simp add: append_write_def)
  moreover from this(1) have "append_session sdk_fold (\<lambda>_ d. d) db key entries now = Inr db'"
    using False by (simp add: append_session_def max_append_retry_def numeral_eq_Suc)
  moreover have "load_session db' key' = load_session db key'" if "normalize_key key' \<noteq> ?k" for key'
    unfolding load_session_def calculation(2) load_after_insert(2) [OF ins that] ..
  ultimately show ?thesis
    using load_after_insert(1) [OF ins] by (simp only: load_session_rows) blast
qed

subsection \<open>Racing appends\<close>

text \<open>Other connections keep the keys of the table and do not delete.\<close>

definition env_appends :: "(nat \<Rightarrow> session_db \<Rightarrow> session_db) \<Rightarrow> bool" where
  "env_appends env =
     (\<forall>i db. session_rows_ok (sd_entries db) \<longrightarrow>
        session_rows_ok (sd_entries (env i db)) \<and> set (sd_entries db) \<subseteq> set (sd_entries (env i db)))"

fun env_run :: "(nat \<Rightarrow> session_db \<Rightarrow> session_db) \<Rightarrow> nat \<Rightarrow> nat \<Rightarrow> session_db \<Rightarrow> session_db" where
  "env_run env i 0 db = db"
| "env_run env i (Suc n) db = env_run env (i + 1) n (env i db)"

definition entry_stored :: "session_row list \<Rightarrow> string \<times> string \<times> string \<Rightarrow> dict \<Rightarrow> bool" where
  "entry_stored rows k e =
     (e \<in> set (load_rows rows k) \<or> (\<exists>u. entry_uuid e = Some u \<and> u \<in> set (stored_uuids rows k)))"

lemma rows_from_entry: "e \<in> set es \<Longrightarrow> \<exists>n. entry_row k n now e \<in> set (rows_from k start now es)"
  by (induction es arbitrary: start) auto

lemma append_write_stored:
  assumes "append_write sdk_fold db k start entries now = Some db'" and "session_rows_ok (sd_entries db)"
  shows "session_rows_ok (sd_entries db')" "set (sd_entries db) \<subseteq> set (sd_entries db')"
    "e \<in> set entries \<Longrightarrow> entry_stored (sd_entries db') k e"
proof -
  from assms(1) have ins: "insert_entries (sd_entries db) (rows_from k start now entries) = Some (sd_entries db')"
    by (auto simp: append_write_def split: option.splits)
  show "session_rows_ok (sd_entries db')" by (rule insert_entries_ok [OF ins assms(2)])
  show "set (sd_entries db) \<subseteq> set (sd_entries db')" using insert_entries_prefix [OF ins] by auto
  assume "e \<in> set entries"
  then obtain n where n: "entry_row k n now e \<in> set (rows_from k start now entries)" using rows_from_entry by blast
  from insert_entries_all [OF ins n] show "entry_stored (sd_entries db') k e"
  proof
    assume "entry_row k n now e \<in> set (sd_entries db')"
    then have "e \<in> set (load_rows (sd_entries db') k)" by (force simp: load_rows_def)
    then show ?thesis by (simp add: entry_stored_def)
  next
    assume "sr_uuid (entry_row k n now e) \<noteq> None \<and>
      (\<exists>x\<in>set (sd_entries db'). row_key x = row_key (entry_row k n now e) \<and> sr_uuid x = sr_uuid (entry_row k n now e))"
    then show ?thesis by (auto simp: entry_stored_def in_stored_uuids)
  qed
qed

lemma append_loop_outcome:
  assumes "env_appends env" and "session_rows_ok (sd_entries db)"
  shows "case append_loop sdk_fold env k entries now i left db of
      Inl db' \<Rightarrow> db' = env_run env i left db
    | Inr db' \<Rightarrow> session_rows_ok (sd_entries db') \<and> set (sd_entries db) \<subseteq> set (sd_entries db') \<and>
        (\<forall>e\<in>set entries. entry_stored (sd_entries db') k e)"
  using assms(2)
proof (induction left arbitrary: i db)
  case (Suc left)
  from assms(1) Suc.prems have env: "session_rows_ok (sd_entries (env i db))"
    "set (sd_entries db) \<subseteq> set (sd_entries (env i db))" by (auto simp: env_appends_def)
  show ?case
  proof (cases "append_write sdk_fold (env i db) k (next_seq (sd_entries db) k) entries now")
    case None
    with Suc.IH [OF env(1), of "i + 1"] env(2) show ?thesis by (auto simp: Let_def split: sum.splits)
  next
    case (Some db')
    with append_write_stored [OF Some env(1)] env(2) show ?thesis by (auto simp: Let_def)
  qed
qed simp

text \<open>Racing appends lose nothing: whatever other connections append between the statements of
  each attempt, an append that succeeds keeps every stored row, keeps numbers and uuids unique per
  key, and every one of its entries can be loaded or was already stored under its uuid. An append
  that gives up after its sixteen attempts leaves exactly what the others wrote.\<close>

theorem racing_appends_safe:
  assumes "env_appends env" and "session_rows_ok (sd_entries db)" and "entries \<noteq> []"
  shows "case append_session sdk_fold env db key entries now of
      Inl db' \<Rightarrow> db' = env_run env 0 16 db
    | Inr db' \<Rightarrow> session_rows_ok (sd_entries db') \<and> set (sd_entries db) \<subseteq> set (sd_entries db') \<and>
        (\<forall>e\<in>set entries. entry_stored (sd_entries db') (normalize_key key) e)"
  using append_loop_outcome [OF assms(1,2), where sdk_fold = sdk_fold and k = "normalize_key key"
      and entries = entries and now = now and i = 0 and left = 16] assms(3)
  by (simp only: append_session_def if_False max_append_retry_def)

text \<open>Another connection that appends an entry during the first attempt.\<close>

definition one_racer :: "nat \<Rightarrow> session_db \<Rightarrow> session_db" where
  "one_racer i db =
     (let k = (''p'', ''s'', []) in
      if i = 0 then coalesce (append_write (\<lambda>p es. None) db k (next_seq (sd_entries db) k) [[(''uuid'', JStr ''b'')]] 1) db
      else db)"

lemma one_racer_appends: "env_appends one_racer"
proof -
  have "session_rows_ok (sd_entries (one_racer i db)) \<and> set (sd_entries db) \<subseteq> set (sd_entries (one_racer i db))"
    if "session_rows_ok (sd_entries db)" for i db
  proof (cases "append_write (\<lambda>p es. None) db (''p'', ''s'', []) (next_seq (sd_entries db) (''p'', ''s'', [])) [[(''uuid'', JStr ''b'')]] 1")
    case None
    with that show ?thesis by (simp add: one_racer_def Let_def)
  next
    case (Some db')
    with append_write_stored(1,2) [OF Some that] that show ?thesis by (simp add: one_racer_def Let_def)
  qed
  then show ?thesis by (simp add: env_appends_def)
qed

theorem racing_appends_safe_witness:
  "case append_session (\<lambda>p es. None) one_racer \<lparr>sd_entries = [], sd_summaries = []\<rparr>
       \<lparr>sk_project = ''p'', sk_session = ''s'', sk_subpath = None\<rparr> [[(''uuid'', JStr ''a'')]] 1 of
     Inl _ \<Rightarrow> False
   | Inr db' \<Rightarrow> length (sd_entries db') = 2 \<and> session_rows_ok (sd_entries db') \<and>
       entry_stored (sd_entries db') (''p'', ''s'', []) [(''uuid'', JStr ''a'')]"
proof -
  let ?db = "\<lparr>sd_entries = [], sd_summaries = []\<rparr>"
  let ?key = "\<lparr>sk_project = ''p'', sk_session = ''s'', sk_subpath = None\<rparr>"
  let ?r = "append_session (\<lambda>p es. None) one_racer ?db ?key [[(''uuid'', JStr ''a'')]] 1"
  have ok: "session_rows_ok (sd_entries ?db)" by (simp add: session_rows_ok_def)
  have "case ?r of Inl _ \<Rightarrow> False | Inr db' \<Rightarrow> length (sd_entries db') = 2" by code_simp
  with racing_appends_safe [OF one_racer_appends ok, where sdk_fold = "\<lambda>p es. None" and key = ?key
      and entries = "[[(''uuid'', JStr ''a'')]]" and now = 1]
  show ?thesis by (auto simp: normalize_key_def split: sum.splits)
qed

text \<open>Deleting with an explicit empty subpath removes every entry of the session but leaves its
  summary: the session is gone from the list of sessions and still among the summaries. The same
  key without a subpath removes both.\<close>

theorem empty_subpath_keeps_summary:
  assumes "r \<in> set (sd_summaries db)" and "su_project r = p" and "su_session r = sid"
  shows "load_session (delete_session db \<lparr>sk_project = p, sk_session = sid, sk_subpath = Some []\<rparr>)
           \<lparr>sk_project = p, sk_session = sid, sk_subpath = sp\<rparr> = None \<and>
    sid \<notin> fst ` set (list_sessions (delete_session db \<lparr>sk_project = p, sk_session = sid, sk_subpath = Some []\<rparr>) p) \<and>
    (sid, su_mtime r, su_data r) \<in>
      set (list_session_summaries (delete_session db \<lparr>sk_project = p, sk_session = sid, sk_subpath = Some []\<rparr>) p) \<and>
    sid \<notin> fst ` set (list_session_summaries (delete_session db \<lparr>sk_project = p, sk_session = sid, sk_subpath = None\<rparr>) p)"
  using assms
  by (auto simp: delete_session_def normalize_key_def load_session_def load_rows_def list_sessions_def
      list_session_summaries_def row_key_def Let_def filter_empty_conv)

theorem empty_subpath_keeps_summary_witness:
  "let db = \<lparr>sd_entries = [], sd_summaries = [\<lparr>su_project = ''p'', su_session = ''s'', su_mtime = 1, su_data = []\<rparr>]\<rparr> in
     (''s'', 1, []) \<in> set (list_session_summaries (delete_session db \<lparr>sk_project = ''p'', sk_session = ''s'', sk_subpath = Some []\<rparr>) ''p'') \<and>
     ''s'' \<notin> fst ` set (list_session_summaries (delete_session db \<lparr>sk_project = ''p'', sk_session = ''s'', sk_subpath = None\<rparr>) ''p'')"
  using empty_subpath_keeps_summary [of "\<lparr>su_project = ''p'', su_session = ''s'', su_mtime = 1, su_data = []\<rparr>"
      "\<lparr>sd_entries = [], sd_summaries = [\<lparr>su_project = ''p'', su_session = ''s'', su_mtime = 1, su_data = []\<rparr>]\<rparr>" "''p''" "''s''"]
  by (simp add: Let_def)

end
