(* ===== verification/Turns.thy ===== *)
theory Turns
  imports PyJson
begin

text \<open>
  The turns the client displays: the contract every turn is brought to
  (\<open>server/agent_runtime/turn_schema.py\<close>) and the grouping of an agent's raw messages into turns
  (\<open>server/agent_runtime/turn_grouper.py\<close>). Messages and blocks are the untyped dictionaries of the
  source, so a wrong type raises where the source would raise it. A turn under construction is a
  record; \<open>turn_dict\<close> is the dictionary literal it stands for. \<open>rp\<close> is the text that \<open>str\<close> gives a
  float, a list or a dictionary.
\<close>

definition has_type :: "string \<Rightarrow> dict \<Rightarrow> bool" where
  "has_type t b = (dict_ref b ''type'' = JStr t)"

section \<open>The contract of a turn\<close>

definition stringify_item :: "(json \<Rightarrow> string) \<Rightarrow> json \<Rightarrow> string" where
  "stringify_item rp item =
     (case item of
        JObj d \<Rightarrow> if truthy (dict_ref d ''text'') then py_text rp (dict_ref d ''text'') else []
      | _ \<Rightarrow> py_text rp item)"

definition stringify_content :: "(json \<Rightarrow> string) \<Rightarrow> json \<Rightarrow> string" where
  "stringify_content rp content =
     (case content of
        JStr s \<Rightarrow> s
      | JArr items \<Rightarrow> join_lines (map (stringify_item rp) items)
      | JNull \<Rightarrow> []
      | _ \<Rightarrow> py_text rp content)"

definition infer_block_type :: "dict \<Rightarrow> string" where
  "infer_block_type b =
     (case as_str (dict_ref b ''type'') of
        Some (c # t) \<Rightarrow> c # t
      | _ \<Rightarrow>
          if truthy (dict_ref b ''tool_use_id'') \<and> (dict_has b ''content'' \<or> dict_has b ''is_error'') then ''tool_result''
          else if truthy (dict_ref b ''id'') \<and> truthy (dict_ref b ''name'') \<and> dict_has b ''input'' then ''tool_use''
          else if dict_has b ''thinking'' then ''thinking''
          else if dict_has b ''text'' then ''text''
          else [])"

definition type_block :: "dict \<Rightarrow> dict" where
  "type_block b =
     (if infer_block_type b \<noteq> [] then dict_put b ''type'' (JStr (infer_block_type b))
      else dict_default b ''type'' (JStr ''text''))"

definition fill_block :: "(json \<Rightarrow> string) \<Rightarrow> dict \<Rightarrow> dict" where
  "fill_block rp b =
     (if has_type ''text'' b then dict_default b ''text'' (JStr [])
      else if has_type ''thinking'' b then dict_default b ''thinking'' (JStr [])
      else if has_type ''tool_use'' b then
        (if as_dict (dict_ref b ''input'') = None then dict_put b ''input'' (JObj []) else b)
      else if has_type ''tool_result'' b then
        dict_put b ''content'' (JStr (stringify_content rp (dict_or b ''content'' (JStr []))))
      else b)"

text \<open>\<open>{"type": "text", "text": s}\<close>.\<close>

definition text_block :: "string \<Rightarrow> dict" where
  "text_block s = [(''type'', JStr ''text''), (''text'', JStr s)]"

definition normalize_block :: "(json \<Rightarrow> string) \<Rightarrow> json \<Rightarrow> dict" where
  "normalize_block rp j =
     (case j of
        JObj b \<Rightarrow> fill_block rp (type_block b)
      | JStr s \<Rightarrow> text_block s
      | _ \<Rightarrow> text_block (py_text rp j))"

definition normalize_content :: "(json \<Rightarrow> string) \<Rightarrow> json \<Rightarrow> dict list" where
  "normalize_content rp content =
     (case content of
        JStr s \<Rightarrow> if strip s = [] then [] else [text_block s]
      | JArr blocks \<Rightarrow> map (normalize_block rp) blocks
      | _ \<Rightarrow> [])"

definition blocks_value :: "dict list \<Rightarrow> json" where
  "blocks_value bs = JArr (map JObj bs)"

definition normalize_turn :: "(json \<Rightarrow> string) \<Rightarrow> dict \<Rightarrow> dict" where
  "normalize_turn rp turn =
     dict_default
       (dict_default
          (dict_put turn ''content'' (blocks_value (normalize_content rp (dict_or turn ''content'' (JArr [])))))
          ''uuid'' JNull)
       ''timestamp'' JNull"

definition normalize_turns :: "(json \<Rightarrow> string) \<Rightarrow> dict list \<Rightarrow> dict list" where
  "normalize_turns rp turns = map (normalize_turn rp) turns"

subsection \<open>What the contract promises\<close>

text \<open>A block as the client may expect it, and a turn made of such blocks.\<close>

definition block_ok :: "dict \<Rightarrow> bool" where
  "block_ok b =
     (dict_has b ''type'' \<and>
      (has_type ''text'' b \<longrightarrow> dict_has b ''text'') \<and>
      (has_type ''thinking'' b \<longrightarrow> dict_has b ''thinking'') \<and>
      (has_type ''tool_use'' b \<longrightarrow> as_dict (dict_ref b ''input'') \<noteq> None) \<and>
      (has_type ''tool_result'' b \<longrightarrow> as_str (dict_ref b ''content'') \<noteq> None))"

definition value_ok :: "json \<Rightarrow> bool" where
  "value_ok j = (case j of JObj b \<Rightarrow> block_ok b | _ \<Rightarrow> False)"

definition turn_ok :: "dict \<Rightarrow> bool" where
  "turn_ok t =
     ((case dict_ref t ''content'' of JArr vs \<Rightarrow> list_all value_ok vs | _ \<Rightarrow> False) \<and>
      dict_has t ''uuid'' \<and> dict_has t ''timestamp'')"

lemma dict_default_simps:
  "dict_get (dict_default d k v) k' = (if k' = k \<and> dict_get d k = None then Some v else dict_get d k')"
  "dict_has (dict_default d k v) k' \<longleftrightarrow> k' = k \<or> dict_has d k'"
  "dict_ref (dict_default d k v) k' = (if k' = k \<and> \<not> dict_has d k then v else dict_ref d k')"
  by (auto simp: dict_default_def dict_ref_def dict_simps)

lemma dict_has_put: "dict_has (dict_put d k v) k' \<longleftrightarrow> k' = k \<or> dict_has d k'"
  by (simp add: dict_simps)

lemma dict_default_has: "dict_has d k \<Longrightarrow> dict_default d k v = d"
  by (simp add: dict_default_def)

lemma dict_put_present: "dict_has d k \<Longrightarrow> dict_ref d k = v \<Longrightarrow> dict_put d k v = d"
  by (auto simp: dict_has_get dict_ref_def intro: dict_put_same)

lemma has_type_has: "has_type t b \<Longrightarrow> dict_has b ''type''"
  by (cases "dict_get b ''type''") (auto simp: has_type_def dict_ref_def dict_has_get)

lemma infer_explicit: "has_type (c # t) b \<Longrightarrow> infer_block_type b = c # t"
  by (simp add: infer_block_type_def has_type_def)

lemma infer_other:
  assumes "as_str (dict_ref b ''type'') = None \<or> as_str (dict_ref b ''type'') = Some []"
  shows "infer_block_type b \<in> {''tool_result'', ''tool_use'', ''thinking'', ''text'', []}"
  using assms by (auto simp: infer_block_type_def)

lemma type_block_fixed:
  "type_block (type_block b) = type_block b" "dict_has (type_block b) ''type''"
proof -
  show "dict_has (type_block b) ''type''"
    by (simp add: type_block_def dict_has_put dict_default_simps)
  show "type_block (type_block b) = type_block b"
  proof (cases "infer_block_type b")
    case Nil
    show ?thesis
    proof (cases "dict_has b ''type''")
      case True
      with Nil show ?thesis by (simp add: type_block_def dict_default_has)
    next
      case False
      with Nil show ?thesis
        by (simp add: type_block_def dict_default_def infer_block_type_def dict_ref_put dict_put_present dict_has_put)
    qed
  next
    case (Cons c t)
    then have "infer_block_type (type_block b) = c # t"
      by (simp add: type_block_def infer_explicit has_type_def dict_ref_put)
    with Cons show ?thesis
      by (simp add: type_block_def dict_put_present dict_has_put dict_ref_put)
  qed
qed

lemma fill_block_type: "dict_ref (fill_block rp b) ''type'' = dict_ref b ''type''"
  by (simp add: fill_block_def dict_default_simps dict_ref_put)

lemma fill_block_has: "dict_has b k \<Longrightarrow> dict_has (fill_block rp b) k"
  by (simp add: fill_block_def dict_default_simps dict_has_put)

lemma has_type_fill [simp]: "has_type t (fill_block rp b) = has_type t b"
  by (simp add: has_type_def fill_block_type)

lemma has_type_unique: "has_type t b \<Longrightarrow> has_type u b \<longleftrightarrow> u = t"
  by (auto simp: has_type_def)

lemma fill_block_cases:
  obtains (plain) "has_type ''text'' b" "fill_block rp b = dict_default b ''text'' (JStr [])"
        | (thinking) "has_type ''thinking'' b" "fill_block rp b = dict_default b ''thinking'' (JStr [])"
        | (tool_use) "has_type ''tool_use'' b"
            "fill_block rp b = (if as_dict (dict_ref b ''input'') = None then dict_put b ''input'' (JObj []) else b)"
        | (tool_result) "has_type ''tool_result'' b"
            "fill_block rp b = dict_put b ''content'' (JStr (stringify_content rp (dict_or b ''content'' (JStr []))))"
        | (other) "\<not> has_type ''text'' b" "\<not> has_type ''thinking'' b" "\<not> has_type ''tool_use'' b"
            "\<not> has_type ''tool_result'' b" "fill_block rp b = b"
proof (cases "has_type ''text'' b \<or> has_type ''thinking'' b \<or> has_type ''tool_use'' b \<or> has_type ''tool_result'' b")
  case True
  then consider "has_type ''text'' b" | "has_type ''thinking'' b" | "has_type ''tool_use'' b" | "has_type ''tool_result'' b"
    by blast
  then show thesis
    by cases (simp_all add: that fill_block_def has_type_unique)
next
  case False
  then show thesis by (intro that(5)) (auto simp: fill_block_def)
qed

lemma dict_or_simps: "dict_or (dict_put d k v) k' w = (if k' = k then v else dict_or d k' w)"
  by (simp add: dict_or_def dict_get_put)

lemma fill_block_idem: "fill_block rp (fill_block rp b) = fill_block rp b"
proof (cases rule: fill_block_cases [of b rp])
  case tool_result
  then show ?thesis
    by (simp add: fill_block_def [of rp "dict_put _ _ _"] has_type_def dict_ref_put dict_or_simps stringify_content_def
        dict_put_present dict_has_put)
qed (auto simp: fill_block_def has_type_def dict_default_simps dict_ref_put dict_default_has)

lemma fill_block_ok: "dict_has b ''type'' \<Longrightarrow> block_ok (fill_block rp b)"
proof (cases rule: fill_block_cases [of b rp])
qed (auto simp: block_ok_def has_type_def dict_default_simps dict_ref_put dict_has_put)

text \<open>The type of a block is settled: naming it once more changes nothing.\<close>

lemma type_block_settled:
  assumes "dict_has b ''type''" and "infer_block_type b \<noteq> [] \<Longrightarrow> has_type (infer_block_type b) b"
  shows "type_block b = b"
  using assms by (cases "infer_block_type b = []") (auto simp: type_block_def dict_default_has has_type_def dict_put_present)

lemma type_block_names: "infer_block_type (type_block b) \<noteq> [] \<Longrightarrow> has_type (infer_block_type (type_block b)) (type_block b)"
proof -
  assume "infer_block_type (type_block b) \<noteq> []"
  then have "dict_put (type_block b) ''type'' (JStr (infer_block_type (type_block b))) = type_block b"
    by (metis type_block_def type_block_fixed(1))
  then show ?thesis by (metis has_type_def dict_ref_put)
qed

lemma type_block_fill: "type_block (fill_block rp (type_block b)) = fill_block rp (type_block b)"
proof (rule type_block_settled)
  show "dict_has (fill_block rp (type_block b)) ''type''"
    by (intro fill_block_has type_block_fixed)
  assume ne: "infer_block_type (fill_block rp (type_block b)) \<noteq> []"
  show "has_type (infer_block_type (fill_block rp (type_block b))) (fill_block rp (type_block b))"
  proof (cases "infer_block_type (type_block b)")
    case (Cons c t)
    with type_block_names [of b] have "has_type (c # t) (type_block b)" by simp
    then show ?thesis by (simp add: infer_explicit)
  next
    case Nil
    then have "fill_block rp (type_block b) = type_block b"
      by (cases rule: fill_block_cases [of "type_block b" rp]) (auto simp: infer_explicit)
    with Nil ne show ?thesis by simp
  qed
qed

lemma text_block_normal: "normalize_block rp (JObj (text_block s)) = text_block s" "block_ok (text_block s)"
  by (simp_all add: text_block_def normalize_block_def type_block_def fill_block_def infer_block_type_def has_type_def
      dict_ref_def dict_get_def dict_default_def dict_has_def block_ok_def)

lemma normalize_block_form:
  "(\<exists>b. j = JObj b \<and> normalize_block rp j = fill_block rp (type_block b)) \<or> (\<exists>s. normalize_block rp j = text_block s)"
  by (cases j) (auto simp: normalize_block_def)

lemma normalize_block_fixed: "normalize_block rp (JObj (normalize_block rp j)) = normalize_block rp j"
  using normalize_block_form [of j rp]
  by (auto simp: text_block_normal) (simp add: normalize_block_def type_block_fill fill_block_idem)

lemma normalize_block_ok: "block_ok (normalize_block rp j)"
  using normalize_block_form [of j rp] by (auto simp: text_block_normal fill_block_ok type_block_fixed)

lemma normalize_content_mem: "x \<in> set (normalize_content rp c) \<Longrightarrow> \<exists>j. x = normalize_block rp j"
proof (cases c)
  case (JStr s)
  assume "x \<in> set (normalize_content rp c)"
  with JStr have "x = normalize_block rp (JStr s)"
    by (auto simp: normalize_content_def normalize_block_def split: if_splits)
  then show ?thesis by blast
qed (auto simp: normalize_content_def)

lemma normalize_content_fixed: "normalize_content rp (blocks_value (normalize_content rp c)) = normalize_content rp c"
proof -
  have "normalize_block rp (JObj x) = x" if "x \<in> set (normalize_content rp c)" for x
    using normalize_content_mem [OF that] by (auto simp: normalize_block_fixed)
  then show ?thesis by (simp add: blocks_value_def normalize_content_def [of rp "JArr _"] map_idI)
qed

lemma normalize_content_ok: "x \<in> set (normalize_content rp c) \<Longrightarrow> block_ok x"
  using normalize_content_mem normalize_block_ok by blast

lemma dict_ref_missing: "\<not> dict_has d k \<Longrightarrow> dict_ref d k = JNull"
  by (simp add: dict_has_get dict_ref_def)

lemma normalize_turn_ref:
  "dict_ref (normalize_turn rp t) ''content'' = blocks_value (normalize_content rp (dict_or t ''content'' (JArr [])))"
  "k \<noteq> ''content'' \<Longrightarrow> dict_ref (normalize_turn rp t) k = dict_ref t k"
  by (simp add: normalize_turn_def dict_default_simps dict_ref_put,
      simp add: normalize_turn_def dict_default_simps dict_ref_put dict_has_put dict_ref_missing)

lemma normalize_turn_ok: "turn_ok (normalize_turn rp t)"
  using normalize_content_ok [of _ rp "dict_or t ''content'' (JArr [])"]
  by (auto simp: turn_ok_def normalize_turn_ref blocks_value_def list_all_iff value_ok_def)
     (auto simp: normalize_turn_def dict_default_simps)

lemma normalize_turn_idem: "normalize_turn rp (normalize_turn rp t) = normalize_turn rp t"
proof -
  let ?n = "normalize_turn rp t"
  have c: "dict_or ?n ''content'' (JArr []) = blocks_value (normalize_content rp (dict_or t ''content'' (JArr [])))"
    by (simp add: normalize_turn_def dict_or_def dict_default_simps dict_get_put)
  have "dict_put ?n ''content'' (blocks_value (normalize_content rp (dict_or ?n ''content'' (JArr [])))) = ?n"
    by (intro dict_put_present) (simp_all add: c normalize_content_fixed normalize_turn_ref,
        simp add: normalize_turn_def dict_default_simps dict_has_put)
  moreover have "dict_has ?n ''uuid''" "dict_has ?n ''timestamp''"
    by (simp_all add: normalize_turn_def dict_default_simps)
  ultimately show ?thesis
    by (simp add: normalize_turn_def [of rp ?n] dict_default_has)
qed

text \<open>A normalised turn satisfies the contract and stays as it is when it is normalised again.\<close>

theorem turn_contract:
  "turn_ok (normalize_turn rp t) \<and> normalize_turn rp (normalize_turn rp t) = normalize_turn rp t"
  by (simp add: normalize_turn_ok normalize_turn_idem)

end
