(* ===== verification/TurnGroups.thy ===== *)
theory TurnGroups
  imports Turns
begin

text \<open>
  The grouping of raw messages into turns (\<open>server/agent_runtime/turn_grouper.py\<close>): messages the
  SDK injects as user messages (task notifications, interrupt echoes, tool results, skill texts)
  are recognised and attached to the turn of the assistant, consecutive assistant messages are
  merged. The state of the loop is the closed turns, the turn under construction and the tool
  uses seen so far.
\<close>

record turn =
  t_type :: string
  t_content :: "dict list"
  t_uuid :: json
  t_timestamp :: json

definition turn_dict :: "turn \<Rightarrow> dict" where
  "turn_dict t =
     [(''type'', JStr (t_type t)), (''content'', blocks_value (t_content t)),
      (''uuid'', t_uuid t), (''timestamp'', t_timestamp t)]"

section \<open>Recognising injected messages\<close>

text \<open>The text before the first occurrence of a pattern and the text after it.\<close>

fun cut_at :: "string \<Rightarrow> string \<Rightarrow> (string \<times> string) option" where
  "cut_at pat [] = (if pat = [] then Some ([], []) else None)"
| "cut_at pat (c # s) =
     (if prefix pat (c # s) then Some ([], drop (length pat) (c # s))
      else map_option (\<lambda>(a, b). (c # a, b)) (cut_at pat s))"

text \<open>
  The lazy group between two tags: an opening tag that no closing one follows leaves none for the
  later opening tags either, so the first of each decides.
\<close>

definition between :: "string \<Rightarrow> string \<Rightarrow> string \<Rightarrow> string option" where
  "between opening closing s =
     (case cut_at opening s of None \<Rightarrow> None | Some (_, r) \<Rightarrow> map_option fst (cut_at closing r))"

record task_notice =
  tn_task_id :: string
  tn_tool_use_id :: string
  tn_status :: string
  tn_summary :: string
  tn_output_file :: string

definition tag_text :: "string \<Rightarrow> string \<Rightarrow> string" where
  "tag_text name xml =
     (case between (''<'' @ name @ ''>'') (''</'' @ name @ ''>'') xml of Some t \<Rightarrow> strip t | None \<Rightarrow> [])"

definition parse_notice :: "string \<Rightarrow> task_notice option" where
  "parse_notice text =
     (case between ''<task-notification>'' ''</task-notification>'' text of
        None \<Rightarrow> None
      | Some body \<Rightarrow>
          let xml = ''<task-notification>'' @ body @ ''</task-notification>''
          in Some \<lparr>tn_task_id = tag_text ''task-id'' xml, tn_tool_use_id = tag_text ''tool-use-id'' xml,
                   tn_status = tag_text ''status'' xml, tn_summary = tag_text ''summary'' xml,
                   tn_output_file = tag_text ''output-file'' xml\<rparr>)"

fun notice_texts :: "json list \<Rightarrow> json list" where
  "notice_texts [] = []"
| "notice_texts (JObj b # vs) =
     (if has_type ''text'' b then dict_or b ''text'' (JStr []) # notice_texts vs else notice_texts vs)"
| "notice_texts (JStr s # vs) = JStr s # notice_texts vs"
| "notice_texts (_ # vs) = notice_texts vs"

definition extract_task_notification :: "json \<Rightarrow> py_error + task_notice option" where
  "extract_task_notification content =
     (case content of
        JArr vs \<Rightarrow>
          if list_all (\<lambda>v. as_str v \<noteq> None) (notice_texts vs)
          then Inr (parse_notice (join_lines (map (\<lambda>v. coalesce (as_str v) []) (notice_texts vs))))
          else Inl Type_Error
      | JStr s \<Rightarrow> Inr (parse_notice s)
      | _ \<Rightarrow> Inr None)"

definition is_skill_content_text :: "string \<Rightarrow> bool" where
  "is_skill_content_text t = (prefix ''Base directory for this skill:'' t \<or> prefix ''Skill content:'' t)"

definition is_tool_result_block :: "dict \<Rightarrow> bool" where
  "is_tool_result_block b = (infer_block_type b = ''tool_result'')"

definition normalize_tool_result_block :: "(json \<Rightarrow> string) \<Rightarrow> dict \<Rightarrow> dict" where
  "normalize_tool_result_block rp b =
     [(''type'', JStr ''tool_result''), (''tool_use_id'', dict_ref b ''tool_use_id''),
      (''content'', JStr (stringify_content rp (dict_or b ''content'' (JStr [])))),
      (''is_error'', dict_or b ''is_error'' (JBool False))]"

text \<open>\<open>block.get("text", "").strip()\<close>.\<close>

definition block_text :: "dict \<Rightarrow> py_error + string" where
  "block_text b = strip_value (dict_or b ''text'' (JStr []))"

fun all_blocks_are_system_injected :: "dict list \<Rightarrow> py_error + bool" where
  "all_blocks_are_system_injected [] = Inr True"
| "all_blocks_are_system_injected (b # bs) =
     (if is_tool_result_block b then all_blocks_are_system_injected bs
      else if infer_block_type b = ''text'' then
        bind_err (block_text b) (\<lambda>t. if is_skill_content_text t then all_blocks_are_system_injected bs else Inr False)
      else Inr False)"

definition echo_text :: "(json \<Rightarrow> string) \<Rightarrow> json \<Rightarrow> py_error + string" where
  "echo_text rp content =
     (case content of
        JStr s \<Rightarrow> Inr (strip s)
      | JArr vs \<Rightarrow>
          (case normalize_content rp content of
             [b] \<Rightarrow> if has_type ''text'' b
                     then strip_value (if truthy (dict_ref b ''text'') then dict_ref b ''text'' else JStr []) else Inr []
           | _ \<Rightarrow> Inr [])
      | _ \<Rightarrow> Inr [])"

definition is_interrupt_echo :: "(json \<Rightarrow> string) \<Rightarrow> json \<Rightarrow> py_error + bool" where
  "is_interrupt_echo rp content = bind_err (echo_text rp content) (\<lambda>t. Inr (prefix ''[Request interrupted'' t))"

definition last_turn_is_interrupt_notice :: "turn option \<Rightarrow> bool" where
  "last_turn_is_interrupt_notice cur =
     (case cur of
        None \<Rightarrow> False
      | Some t \<Rightarrow> t_type t = ''system'' \<and> t_content t \<noteq> [] \<and> has_type ''interrupt_notice'' (last (t_content t)))"

definition is_system_injected_user_message :: "(json \<Rightarrow> string) \<Rightarrow> json \<Rightarrow> py_error + bool" where
  "is_system_injected_user_message rp content =
     (case content of
        JStr s \<Rightarrow> Inr (is_skill_content_text (strip s))
      | JArr vs \<Rightarrow> all_blocks_are_system_injected (normalize_content rp content)
      | _ \<Rightarrow> Inr False)"

definition subagent_parent_keys :: "string list" where
  "subagent_parent_keys = [''parent_tool_use_id'', ''parentToolUseID'', ''parentToolUseId'']"

definition subagent_context_keys :: "string list" where
  "subagent_context_keys =
     [''sourceToolAssistantUUID'', ''source_tool_assistant_uuid'', ''toolUseResult'', ''tool_use_result'',
      ''agentId'', ''agent_id'']"

definition subagent_boolean_keys :: "string list" where
  "subagent_boolean_keys = [''isSidechain'', ''is_sidechain'']"

definition has_subagent_user_metadata :: "dict \<Rightarrow> bool" where
  "has_subagent_user_metadata m =
     (list_ex (\<lambda>k. case dict_ref m k of JStr s \<Rightarrow> strip s \<noteq> [] | _ \<Rightarrow> False) subagent_parent_keys \<or>
      list_ex (\<lambda>k. truthy (dict_ref m k)) subagent_boolean_keys \<or>
      list_ex (\<lambda>k. dict_has m k \<and> dict_ref m k \<notin> {JNull, JStr [], JArr [], JObj []}) subagent_context_keys)"

section \<open>Attaching injected content to a turn\<close>

definition attach_tool_result ::
  "(json \<Rightarrow> string) \<Rightarrow> json list \<Rightarrow> dict list \<Rightarrow> dict \<Rightarrow> py_error + dict list" where
  "attach_tool_result rp tools content b =
     (let n = normalize_tool_result_block rp b;
          tid = dict_ref n ''tool_use_id'';
          mine = (\<lambda>x. has_type ''tool_use'' x \<and> py_eq (dict_ref x ''id'') tid);
          fill = (\<lambda>x. dict_put (dict_put x ''result'' (dict_ref n ''content'')) ''is_error'' (dict_ref n ''is_error''))
      in if truthy tid \<and> \<not> hashable tid then Inl Type_Error
         else if truthy tid \<and> py_in tid tools then Inr (coalesce (update_first mine fill content) (content @ [n]))
         else Inr (content @ [n]))"

definition attach_text_block :: "dict list \<Rightarrow> dict \<Rightarrow> py_error + dict list" where
  "attach_text_block content b =
     bind_err (block_text b) (\<lambda>t.
       Inr (if is_skill_content_text t
            then coalesce
                   (update_last (\<lambda>x. has_type ''tool_use'' x \<and> dict_ref x ''name'' = JStr ''Skill'')
                      (\<lambda>x. dict_put x ''skill_content'' (JStr t)) content)
                   (content @ [[(''type'', JStr ''skill_content''), (''text'', JStr t)]])
            else content @ [b]))"

definition keep_system_block :: "bool \<Rightarrow> dict \<Rightarrow> py_error + bool" where
  "keep_system_block suppress b =
     (if is_tool_result_block b then Inr True
      else if has_type ''text'' b then
        bind_err (block_text b) (\<lambda>t. Inr (t \<noteq> [] \<and> (suppress \<longrightarrow> is_skill_content_text t)))
      else Inr True)"

fun filter_err :: "('a \<Rightarrow> 'e + bool) \<Rightarrow> 'a list \<Rightarrow> 'e + 'a list" where
  "filter_err p [] = Inr []"
| "filter_err p (x # xs) =
     bind_err (p x) (\<lambda>keep. bind_err (filter_err p xs) (\<lambda>ys. Inr (if keep then x # ys else ys)))"

definition filter_system_blocks :: "(json \<Rightarrow> string) \<Rightarrow> json \<Rightarrow> bool \<Rightarrow> py_error + dict list" where
  "filter_system_blocks rp content suppress = filter_err (keep_system_block suppress) (normalize_content rp content)"

definition attach_block ::
  "(json \<Rightarrow> string) \<Rightarrow> json list \<Rightarrow> dict list \<Rightarrow> dict \<Rightarrow> py_error + dict list" where
  "attach_block rp tools content b =
     (if is_tool_result_block b then attach_tool_result rp tools content b
      else if has_type ''text'' b then attach_text_block content b
      else Inr (content @ [b]))"

definition attach_system_content_to_turn ::
  "(json \<Rightarrow> string) \<Rightarrow> json list \<Rightarrow> turn \<Rightarrow> dict list \<Rightarrow> py_error + turn" where
  "attach_system_content_to_turn rp tools t blocks =
     bind_err (fold_err (attach_block rp tools) (t_content t) blocks) (\<lambda>c. Inr (t\<lparr>t_content := c\<rparr>))"

definition track_tool_use :: "json list \<Rightarrow> dict \<Rightarrow> py_error + json list" where
  "track_tool_use tools b =
     (let tid = dict_ref b ''id'' in
      if has_type ''tool_use'' b \<and> truthy tid
      then (if hashable tid then Inr (if py_in tid tools then tools else tools @ [tid]) else Inl Type_Error)
      else Inr tools)"

definition track_tool_uses :: "json list \<Rightarrow> dict list \<Rightarrow> py_error + json list" where
  "track_tool_uses tools blocks = fold_err track_tool_use tools blocks"

text \<open>The task block with an id, if the turn under construction has one, with \<open>f\<close> applied to it.\<close>

definition update_task_block :: "turn option \<Rightarrow> json \<Rightarrow> (dict \<Rightarrow> dict) \<Rightarrow> turn option" where
  "update_task_block cur task_id f =
     (case cur of
        None \<Rightarrow> None
      | Some t \<Rightarrow>
          map_option (\<lambda>c. t\<lparr>t_content := c\<rparr>)
            (update_first (\<lambda>x. has_type ''task_progress'' x \<and> py_eq (dict_ref x ''task_id'') task_id) f (t_content t)))"

text \<open>\<open>if task_block.get(key): existing[key] = task_block[key]\<close>.\<close>

definition copy_true :: "dict \<Rightarrow> string \<Rightarrow> dict \<Rightarrow> dict" where
  "copy_true src k b = (if truthy (dict_ref src k) then dict_put b k (dict_ref src k) else b)"

definition stale_task :: "json list \<Rightarrow> dict \<Rightarrow> dict" where
  "stale_task completed b =
     (if has_type ''task_progress'' b \<and> dict_ref b ''status'' = JStr ''task_started'' \<and>
         py_in (dict_ref b ''tool_use_id'') completed
      then dict_put (dict_put b ''status'' (JStr ''task_notification'')) ''task_status'' (JStr ''completed'')
      else b)"

definition completed_tools :: "dict list \<Rightarrow> json list" where
  "completed_tools content =
     map (\<lambda>b. dict_ref b ''id'')
       (filter (\<lambda>b. has_type ''tool_use'' b \<and> dict_ref b ''name'' = JStr ''Agent'' \<and>
                    dict_ref b ''result'' \<noteq> JNull \<and> truthy (dict_ref b ''id'')) content)"

definition resolve_stale_turn :: "turn \<Rightarrow> py_error + turn" where
  "resolve_stale_turn t =
     (let completed = completed_tools (t_content t) in
      if \<not> list_all hashable completed then Inl Type_Error
      else if completed = [] then Inr t
      else if list_ex (\<lambda>b. has_type ''task_progress'' b \<and> dict_ref b ''status'' = JStr ''task_started'' \<and>
                           \<not> hashable (dict_ref b ''tool_use_id'')) (t_content t) then Inl Type_Error
      else Inr (t\<lparr>t_content := map (stale_task completed) (t_content t)\<rparr>))"

definition resolve_stale_task_blocks :: "turn list \<Rightarrow> py_error + turn list" where
  "resolve_stale_task_blocks turns = map_err resolve_stale_turn turns"

section \<open>The loop\<close>

record group_state =
  gs_turns :: "turn list"
  gs_current :: "turn option"
  gs_tools :: "json list"

definition group_init :: group_state where
  "group_init = \<lparr>gs_turns = [], gs_current = None, gs_tools = []\<rparr>"

text \<open>The closed turns once the turn under construction joins them.\<close>

definition closed_turns :: "group_state \<Rightarrow> turn list" where
  "closed_turns st = gs_turns st @ (case gs_current st of None \<Rightarrow> [] | Some t \<Rightarrow> [t])"

definition open_turn :: "string \<Rightarrow> dict list \<Rightarrow> dict \<Rightarrow> group_state \<Rightarrow> group_state" where
  "open_turn ty content msg st =
     st\<lparr>gs_turns := closed_turns st,
        gs_current := Some \<lparr>t_type = ty, t_content = content, t_uuid = dict_ref msg ''uuid'',
                            t_timestamp = dict_ref msg ''timestamp''\<rparr>\<rparr>"

text \<open>Blocks join a turn of the assistant, or open a turn of the given type.\<close>

definition add_blocks :: "string \<Rightarrow> dict list \<Rightarrow> dict \<Rightarrow> group_state \<Rightarrow> group_state" where
  "add_blocks ty blocks msg st =
     (case gs_current st of
        Some t \<Rightarrow> if t_type t = ''assistant'' then st\<lparr>gs_current := Some (t\<lparr>t_content := t_content t @ blocks\<rparr>)\<rparr>
                  else open_turn ty blocks msg st
      | None \<Rightarrow> open_turn ty blocks msg st)"

definition or_none :: "string \<Rightarrow> json" where
  "or_none s = (if s = [] then JNull else JStr s)"

definition notice_block :: "task_notice \<Rightarrow> dict" where
  "notice_block n =
     [(''type'', JStr ''task_progress''), (''task_id'', JStr (tn_task_id n)), (''status'', JStr ''task_notification''),
      (''description'', JStr []), (''summary'', or_none (tn_summary n)), (''task_status'', or_none (tn_status n)),
      (''tool_use_id'', or_none (tn_tool_use_id n))]"

definition group_notice :: "dict \<Rightarrow> task_notice \<Rightarrow> group_state \<Rightarrow> group_state" where
  "group_notice msg n st =
     (let b = notice_block n;
          merge = (\<lambda>x. copy_true b ''task_status'' (copy_true b ''summary'' (dict_put x ''status'' (JStr ''task_notification''))));
          found = (if tn_task_id n \<noteq> [] then update_task_block (gs_current st) (JStr (tn_task_id n)) merge else None)
      in if found \<noteq> None then st\<lparr>gs_current := found\<rparr>
         else add_blocks ''system'' [b] msg st)"

definition group_injected ::
  "(json \<Rightarrow> string) \<Rightarrow> dict \<Rightarrow> dict list \<Rightarrow> group_state \<Rightarrow> py_error + group_state" where
  "group_injected rp msg blocks st =
     (if blocks = [] then Inr st
      else case gs_current st of
             Some t \<Rightarrow>
               if t_type t = ''assistant''
               then bind_err (attach_system_content_to_turn rp (gs_tools st) t blocks) (\<lambda>t'. Inr (st\<lparr>gs_current := Some t'\<rparr>))
               else Inr (open_turn ''system'' blocks msg st)
           | None \<Rightarrow> Inr (open_turn ''system'' blocks msg st))"

text \<open>What a user message is taken for.\<close>

datatype user_kind = Notice task_notice | Interrupt_echo | Injected | Genuine

definition user_kind_of :: "(json \<Rightarrow> string) \<Rightarrow> dict \<Rightarrow> py_error + user_kind" where
  "user_kind_of rp msg =
     (let content = dict_or msg ''content'' (JStr []) in
      bind_err (extract_task_notification content) (\<lambda>info.
        case info of
          Some n \<Rightarrow> Inr (Notice n)
        | None \<Rightarrow>
            bind_err (is_interrupt_echo rp content) (\<lambda>echo.
              if echo then Inr Interrupt_echo
              else bind_err (is_system_injected_user_message rp content) (\<lambda>injected.
                     Inr (if injected \<or> has_subagent_user_metadata msg then Injected else Genuine)))))"

definition group_user :: "(json \<Rightarrow> string) \<Rightarrow> dict \<Rightarrow> group_state \<Rightarrow> py_error + group_state" where
  "group_user rp msg st =
     (let content = dict_or msg ''content'' (JStr []) in
      bind_err (user_kind_of rp msg) (\<lambda>kind.
        case kind of
          Notice n \<Rightarrow> Inr (group_notice msg n st)
        | Interrupt_echo \<Rightarrow>
            Inr (if last_turn_is_interrupt_notice (gs_current st) then st
                 else open_turn ''system'' [[(''type'', JStr ''interrupt_notice'')]] msg st)
        | Injected \<Rightarrow>
            bind_err (filter_system_blocks rp content (has_subagent_user_metadata msg)) (\<lambda>bs. group_injected rp msg bs st)
        | Genuine \<Rightarrow> Inr (open_turn ''user'' (normalize_content rp content) msg st)))"

definition group_assistant :: "(json \<Rightarrow> string) \<Rightarrow> dict \<Rightarrow> group_state \<Rightarrow> py_error + group_state" where
  "group_assistant rp msg st =
     (let blocks = normalize_content rp (dict_or msg ''content'' (JArr [])) in
      bind_err (track_tool_uses (gs_tools st) blocks) (\<lambda>tools.
        Inr (add_blocks ''assistant'' blocks msg (st\<lparr>gs_tools := tools\<rparr>))))"

definition progress_block :: "string \<Rightarrow> dict \<Rightarrow> dict" where
  "progress_block subtype msg =
     [(''type'', JStr ''task_progress''), (''task_id'', dict_ref msg ''task_id''), (''status'', JStr subtype),
      (''description'', dict_or msg ''description'' (JStr [])), (''summary'', dict_ref msg ''summary''),
      (''task_status'', dict_ref msg ''status''), (''usage'', dict_ref msg ''usage''),
      (''tool_use_id'', dict_ref msg ''tool_use_id'')]"

definition group_system :: "dict \<Rightarrow> group_state \<Rightarrow> group_state" where
  "group_system msg st =
     (case dict_or msg ''subtype'' (JStr []) of
        JStr subtype \<Rightarrow>
          if subtype \<in> {''task_started'', ''task_progress'', ''task_notification''} then
            (let b = progress_block subtype msg;
                 tid = dict_ref msg ''task_id'';
                 merge = (\<lambda>x. copy_true b ''usage'' (copy_true b ''task_status''
                                (copy_true b ''summary'' (dict_put x ''status'' (JStr subtype)))));
                 found = (if subtype \<in> {''task_notification'', ''task_progress''} \<and> truthy tid
                          then update_task_block (gs_current st) tid merge else None)
             in if found \<noteq> None then st\<lparr>gs_current := found\<rparr>
                else add_blocks ''system'' [b] msg st)
          else st
      | _ \<Rightarrow> st)"

definition group_result :: "group_state \<Rightarrow> group_state" where
  "group_result st = st\<lparr>gs_turns := closed_turns st, gs_current := None\<rparr>"

definition group_step :: "(json \<Rightarrow> string) \<Rightarrow> group_state \<Rightarrow> dict \<Rightarrow> py_error + group_state" where
  "group_step rp st msg =
     (if has_type ''result'' msg then Inr (group_result st)
      else if has_type ''user'' msg then group_user rp msg st
      else if has_type ''assistant'' msg then group_assistant rp msg st
      else if has_type ''system'' msg then Inr (group_system msg st)
      else Inr st)"

definition group_messages_into_turns :: "(json \<Rightarrow> string) \<Rightarrow> dict list \<Rightarrow> py_error + dict list" where
  "group_messages_into_turns rp msgs =
     bind_err (fold_err (group_step rp) group_init msgs) (\<lambda>st.
       bind_err (resolve_stale_task_blocks (closed_turns st)) (\<lambda>turns.
         Inr (map (\<lambda>t. normalize_turn rp (turn_dict t)) turns)))"

section \<open>Patches\<close>

datatype turn_patch = Patch_append dict | Patch_replace_last dict | Patch_reset "dict list"

definition turns_eq :: "dict list \<Rightarrow> dict list \<Rightarrow> bool" where
  "turns_eq xs ys = py_eq (blocks_value xs) (blocks_value ys)"

definition build_turn_patch :: "dict list \<Rightarrow> dict list \<Rightarrow> turn_patch option" where
  "build_turn_patch prev now =
     (if turns_eq prev now then None
      else if length now = length prev + 1 \<and> turns_eq (butlast now) prev then Some (Patch_append (last now))
      else if length now = length prev \<and> 0 < length now \<and> turns_eq (butlast now) (butlast prev) \<and>
              \<not> py_eq (JObj (last now)) (JObj (last prev))
      then Some (Patch_replace_last (last now))
      else Some (Patch_reset now))"

text \<open>
  The client's side, \<open>applyTurnPatch\<close> of \<open>frontend/src/hooks/useAssistantSession.ts\<close>: a real user
  turn takes the place of the one the client showed before the server confirmed it.
\<close>

definition optimistic :: "dict \<Rightarrow> bool" where
  "optimistic t = (case dict_ref t ''uuid'' of JStr u \<Rightarrow> prefix ''optimistic-'' u | _ \<Rightarrow> False)"

fun apply_turn_patch :: "dict list \<Rightarrow> turn_patch option \<Rightarrow> dict list" where
  "apply_turn_patch prev None = prev"
| "apply_turn_patch prev (Some (Patch_reset turns)) = turns"
| "apply_turn_patch prev (Some (Patch_append t)) =
     (if has_type ''user'' t \<and> prev \<noteq> [] \<and> optimistic (last prev) then butlast prev @ [t] else prev @ [t])"
| "apply_turn_patch prev (Some (Patch_replace_last t)) = (if prev = [] then [t] else butlast prev @ [t])"

end
