(* ===== verification/TurnProps.thy ===== *)
theory TurnProps
  imports TurnGroups
begin

text \<open>
  Properties of the grouping of messages. \<open>turn_step\<close> is the shape of one step of the loop: keep the
  turns, edit the blocks of the turn under construction, open a turn or close one. The locale
  \<open>block_invariant\<close> carries a property of blocks through the loop; it is interpreted for values
  without repeated keys and for identifiers that can be hashed.
\<close>

section \<open>The shape of a step\<close>

definition same_head :: "turn \<Rightarrow> turn \<Rightarrow> bool" where
  "same_head t t' = (t' = t\<lparr>t_content := t_content t'\<rparr>)"

inductive turn_step :: "dict \<Rightarrow> group_state \<Rightarrow> group_state \<Rightarrow> bool" for msg where
  kept: "gs_turns st' = gs_turns st \<Longrightarrow> gs_current st' = gs_current st \<Longrightarrow> turn_step msg st st'"
| edited: "gs_turns st' = gs_turns st \<Longrightarrow> gs_current st = Some t \<Longrightarrow> gs_current st' = Some t' \<Longrightarrow>
           same_head t t' \<Longrightarrow> turn_step msg st st'"
| opened: "gs_turns st' = closed_turns st \<Longrightarrow>
           gs_current st' = Some \<lparr>t_type = ty, t_content = bs, t_uuid = dict_ref msg ''uuid'',
                                  t_timestamp = dict_ref msg ''timestamp''\<rparr> \<Longrightarrow>
           ty \<in> {''user'', ''assistant'', ''system''} \<Longrightarrow>
           (ty = ''assistant'' \<longrightarrow> (\<forall>t. gs_current st = Some t \<longrightarrow> t_type t \<noteq> ''assistant'')) \<Longrightarrow> turn_step msg st st'"
| closed: "gs_turns st' = closed_turns st \<Longrightarrow> gs_current st' = None \<Longrightarrow> has_type ''result'' msg \<Longrightarrow> turn_step msg st st'"

lemma update_task_block_SomeE:
  assumes "update_task_block cur tid f = Some t'"
  obtains t where "cur = Some t" "same_head t t'"
    "update_first (\<lambda>x. has_type ''task_progress'' x \<and> py_eq (dict_ref x ''task_id'') tid) f (t_content t) = Some (t_content t')"
  using assms by (auto simp: update_task_block_def same_head_def split: option.splits)

lemma add_blocks_cases:
  obtains (joined) t where "gs_current st = Some t" "t_type t = ''assistant''"
            "add_blocks ty bs msg st = st\<lparr>gs_current := Some (t\<lparr>t_content := t_content t @ bs\<rparr>)\<rparr>"
        | (opened) "\<forall>t. gs_current st = Some t \<longrightarrow> t_type t \<noteq> ''assistant''" "add_blocks ty bs msg st = open_turn ty bs msg st"
proof (cases "\<exists>t. gs_current st = Some t \<and> t_type t = ''assistant''")
  case True
  then show thesis by (auto simp: add_blocks_def intro: joined)
next
  case False
  then show thesis by (intro opened) (auto simp: add_blocks_def split: option.split)
qed

lemma open_turn_step:
  "ty \<in> {''user'', ''system''} \<Longrightarrow> turn_step msg st (open_turn ty bs msg st)"
  by (rule turn_step.opened [of _ _ ty bs]) (auto simp: open_turn_def)

lemma add_blocks_step:
  "ty \<in> {''user'', ''assistant'', ''system''} \<Longrightarrow> turn_step msg st (add_blocks ty bs msg st)"
proof (cases rule: add_blocks_cases [of st ty bs msg])
  case (joined t)
  then show ?thesis by (intro turn_step.edited [of _ _ t "t\<lparr>t_content := t_content t @ bs\<rparr>"]) (auto simp: same_head_def)
next
  case opened
  moreover assume "ty \<in> {''user'', ''assistant'', ''system''}"
  ultimately show ?thesis
    by (intro turn_step.opened [of _ _ ty bs]) (auto simp: open_turn_def)
qed

lemma found_step: "update_task_block (gs_current st) tid f = Some t' \<Longrightarrow> turn_step msg st (st\<lparr>gs_current := Some t'\<rparr>)"
  by (erule update_task_block_SomeE) (auto intro: turn_step.edited)

lemma group_notice_step: "turn_step msg st (group_notice msg n st)"
  by (auto simp: group_notice_def Let_def intro: add_blocks_step found_step)

lemma group_system_step: "turn_step msg st (group_system msg st)"
  by (auto simp: group_system_def Let_def intro: add_blocks_step found_step turn_step.kept split: json.split)

lemma attach_same_head:
  "attach_system_content_to_turn rp tools t bs = Inr t' \<Longrightarrow> same_head t t'"
  by (auto simp: attach_system_content_to_turn_def bind_err_Inr_iff same_head_def)

lemma group_injected_cases:
  assumes "group_injected rp msg bs st = Inr st'"
  obtains (nothing) "bs = []" "st' = st"
        | (attached) t t' where "gs_current st = Some t" "t_type t = ''assistant''"
            "attach_system_content_to_turn rp (gs_tools st) t bs = Inr t'" "st' = st\<lparr>gs_current := Some t'\<rparr>"
        | (opened) "\<forall>t. gs_current st = Some t \<longrightarrow> t_type t \<noteq> ''assistant''" "st' = open_turn ''system'' bs msg st"
proof (cases "bs = []")
  case True
  with assms have "st' = st" by (simp add: group_injected_def)
  with True show thesis by (rule nothing)
next
  case ne: False
  show thesis
  proof (cases "\<exists>t. gs_current st = Some t \<and> t_type t = ''assistant''")
    case True
    with ne assms show thesis by (auto simp: group_injected_def bind_err_Inr_iff intro: attached)
  next
    case False
    with ne assms show thesis by (intro opened) (auto simp: group_injected_def split: option.splits if_splits)
  qed
qed

lemma group_injected_step: "group_injected rp msg bs st = Inr st' \<Longrightarrow> turn_step msg st st'"
  by (erule group_injected_cases) (auto intro: turn_step.kept turn_step.edited open_turn_step dest: attach_same_head)

lemma group_user_cases:
  assumes "group_user rp msg st = Inr st'"
  obtains (notice) n where "user_kind_of rp msg = Inr (Notice n)" "st' = group_notice msg n st"
        | (echo_again) "user_kind_of rp msg = Inr Interrupt_echo" "last_turn_is_interrupt_notice (gs_current st)" "st' = st"
        | (echo) "user_kind_of rp msg = Inr Interrupt_echo" "\<not> last_turn_is_interrupt_notice (gs_current st)"
            "st' = open_turn ''system'' [[(''type'', JStr ''interrupt_notice'')]] msg st"
        | (injected) bs where "user_kind_of rp msg = Inr Injected"
            "filter_system_blocks rp (dict_or msg ''content'' (JStr [])) (has_subagent_user_metadata msg) = Inr bs"
            "group_injected rp msg bs st = Inr st'"
        | (genuine) "user_kind_of rp msg = Inr Genuine"
            "st' = open_turn ''user'' (normalize_content rp (dict_or msg ''content'' (JStr []))) msg st"
proof -
  from assms obtain kind where kind: "user_kind_of rp msg = Inr kind"
    by (cases "user_kind_of rp msg") (auto simp: group_user_def Let_def)
  show thesis
  proof (cases kind)
    case (Notice n)
    with kind assms show thesis by (intro notice) (auto simp: group_user_def Let_def)
  next
    case Interrupt_echo
    show thesis
    proof (cases "last_turn_is_interrupt_notice (gs_current st)")
      case True
      with Interrupt_echo kind assms show thesis by (intro echo_again) (simp_all add: group_user_def Let_def)
    next
      case False
      with Interrupt_echo kind assms show thesis by (intro echo) (simp_all add: group_user_def Let_def)
    qed
  next
    case Injected
    with kind assms show thesis using injected by (auto simp: group_user_def Let_def bind_err_Inr_iff)
  next
    case Genuine
    with kind assms show thesis by (intro genuine) (auto simp: group_user_def Let_def)
  qed
qed

lemma group_user_step: "group_user rp msg st = Inr st' \<Longrightarrow> turn_step msg st st'"
  by (erule group_user_cases) (auto intro: turn_step.kept open_turn_step group_notice_step group_injected_step)

lemma group_assistant_step: "group_assistant rp msg st = Inr st' \<Longrightarrow> turn_step msg st st'"
proof -
  assume "group_assistant rp msg st = Inr st'"
  then obtain tools where "st' = add_blocks ''assistant'' (normalize_content rp (dict_or msg ''content'' (JArr []))) msg
      (st\<lparr>gs_tools := tools\<rparr>)"
    by (auto simp: group_assistant_def Let_def bind_err_Inr_iff)
  with add_blocks_step [of "''assistant''" msg "st\<lparr>gs_tools := tools\<rparr>"] have "turn_step msg (st\<lparr>gs_tools := tools\<rparr>) st'"
    by simp
  then show ?thesis
    by (cases rule: turn_step.cases) (auto intro: turn_step.intros simp: closed_turns_def)
qed

lemma group_step_shape: "group_step rp st msg = Inr st' \<Longrightarrow> turn_step msg st st'"
  by (auto simp: group_step_def group_result_def split: if_splits
      intro: turn_step.kept turn_step.closed group_user_step group_assistant_step group_system_step)

inductive_cases turn_stepE: "turn_step msg st st'"

section \<open>Properties of the blocks\<close>

definition all_blocks :: "(dict \<Rightarrow> bool) \<Rightarrow> group_state \<Rightarrow> bool" where
  "all_blocks Q st = (\<forall>t\<in>set (closed_turns st). \<forall>b\<in>set (t_content t). Q b)"

definition edited_keys :: "string set" where
  "edited_keys = {''result'', ''is_error'', ''skill_content'', ''status'', ''summary'', ''task_status'', ''usage''}"

lemma all_blocks_open:
  "all_blocks Q (open_turn ty bs msg st) \<longleftrightarrow> all_blocks Q st \<and> (\<forall>b\<in>set bs. Q b)"
  by (auto simp: all_blocks_def open_turn_def closed_turns_def)

lemma all_blocks_current:
  "gs_current st = Some t \<Longrightarrow>
   all_blocks Q (st\<lparr>gs_current := Some t'\<rparr>) \<longleftrightarrow> (\<forall>t\<in>set (gs_turns st). \<forall>b\<in>set (t_content t). Q b) \<and> (\<forall>b\<in>set (t_content t'). Q b)"
  by (auto simp: all_blocks_def closed_turns_def)

lemma all_blocks_currentD:
  "all_blocks Q st \<Longrightarrow> gs_current st = Some t \<Longrightarrow>
   (\<forall>t\<in>set (gs_turns st). \<forall>b\<in>set (t_content t). Q b) \<and> (\<forall>b\<in>set (t_content t). Q b)"
  by (auto simp: all_blocks_def closed_turns_def)

lemma all_blocks_add: "all_blocks Q st \<Longrightarrow> \<forall>b\<in>set bs. Q b \<Longrightarrow> all_blocks Q (add_blocks ty bs msg st)"
  by (cases rule: add_blocks_cases [of st ty bs msg])
     (auto simp: all_blocks_open all_blocks_current dest: all_blocks_currentD)

lemma all_blocks_tools [simp]: "all_blocks Q (st\<lparr>gs_tools := tools\<rparr>) = all_blocks Q st"
  by (simp add: all_blocks_def closed_turns_def)

lemma dict_or_cases: "dict_or b k d = dict_ref b k \<or> dict_or b k d = d"
  by (cases "dict_get b k") (auto simp: dict_or_def dict_ref_def)

locale block_invariant =
  fixes rp :: "json \<Rightarrow> string" and Q :: "dict \<Rightarrow> bool" and V :: "json \<Rightarrow> bool" and M :: "dict \<Rightarrow> bool"
  assumes edit: "Q b \<Longrightarrow> V v \<Longrightarrow> k \<in> edited_keys \<Longrightarrow> Q (dict_put b k v)"
    and value_plain: "V (JStr s)" "V (JBool c)"
    and value_ref: "Q b \<Longrightarrow> V (dict_ref b k)"
    and message_blocks: "M m \<Longrightarrow> d \<in> {JStr [], JArr []} \<Longrightarrow> b \<in> set (normalize_content rp (dict_or m ''content'' d)) \<Longrightarrow> Q b"
    and result_block: "Q b \<Longrightarrow> Q (normalize_tool_result_block rp b)"
    and notice_fits: "Q (notice_block n)"
    and progress_fits: "M m \<Longrightarrow> Q (progress_block s m)"
    and skill_fits: "Q [(''type'', JStr ''skill_content''), (''text'', JStr t)]"
    and interrupt_fits: "Q [(''type'', JStr ''interrupt_notice'')]"
begin

lemma copy_true_inv: "Q src \<Longrightarrow> Q b \<Longrightarrow> k \<in> edited_keys \<Longrightarrow> Q (copy_true src k b)"
  by (simp add: copy_true_def edit value_ref)

lemma update_task_block_inv:
  assumes "update_task_block cur tid f = Some t'" and "\<And>t b. cur = Some t \<Longrightarrow> b \<in> set (t_content t) \<Longrightarrow> Q b \<and> Q (f b)"
  shows "\<forall>b\<in>set (t_content t'). Q b"
  using assms(1)
proof (rule update_task_block_SomeE)
  fix t assume t: "cur = Some t" "update_first (\<lambda>x. has_type ''task_progress'' x \<and> py_eq (dict_ref x ''task_id'') tid) f
    (t_content t) = Some (t_content t')"
  from update_set_subset(1) [OF t(2)] assms(2) [OF t(1)] show ?thesis by blast
qed

lemma found_inv:
  assumes "all_blocks Q st" and "update_task_block (gs_current st) tid f = Some t'" and "\<And>b. Q b \<Longrightarrow> Q (f b)"
  shows "all_blocks Q (st\<lparr>gs_current := Some t'\<rparr>)"
proof -
  from assms(2) obtain t where t: "gs_current st = Some t" by (rule update_task_block_SomeE)
  note old = all_blocks_currentD [OF assms(1) t]
  have "\<forall>b\<in>set (t_content t'). Q b"
  proof (rule update_task_block_inv [OF assms(2)])
    fix u b assume "gs_current st = Some u" "b \<in> set (t_content u)"
    with t old assms(3) show "Q b \<and> Q (f b)" by simp
  qed
  with old t show ?thesis by (simp add: all_blocks_current)
qed

lemma notice_inv: "all_blocks Q st \<Longrightarrow> all_blocks Q (group_notice msg n st)"
  by (auto simp: group_notice_def Let_def notice_fits edited_keys_def
      intro!: all_blocks_add found_inv copy_true_inv edit value_plain)

lemma system_inv: "all_blocks Q st \<Longrightarrow> M msg \<Longrightarrow> all_blocks Q (group_system msg st)"
  by (auto simp: group_system_def Let_def progress_fits edited_keys_def
      intro!: all_blocks_add found_inv copy_true_inv edit value_plain split: json.split)

lemma attach_tool_result_inv:
  assumes "attach_tool_result rp tools c b = Inr c'" and "Q b" and "\<forall>x\<in>set c. Q x"
  shows "\<forall>x\<in>set c'. Q x"
proof -
  let ?n = "normalize_tool_result_block rp b"
  let ?p = "\<lambda>x. has_type ''tool_use'' x \<and> py_eq (dict_ref x ''id'') (dict_ref ?n ''tool_use_id'')"
  let ?f = "\<lambda>x. dict_put (dict_put x ''result'' (dict_ref ?n ''content'')) ''is_error'' (dict_ref ?n ''is_error'')"
  have n: "Q ?n" by (rule result_block [OF assms(2)])
  have f: "Q (?f x)" if "Q x" for x
    using that n by (intro edit value_ref) (auto simp: edited_keys_def)
  from assms(1) have "c' = c @ [?n] \<or> update_first ?p ?f c = Some c'"
    by (cases "update_first ?p ?f c") (auto simp: attach_tool_result_def Let_def split: if_splits)
  with n f assms(3) show ?thesis using update_set_subset(1) [of ?p ?f c c'] by auto
qed

lemma attach_text_inv:
  assumes "attach_text_block c b = Inr c'" and "Q b" and "\<forall>x\<in>set c. Q x"
  shows "\<forall>x\<in>set c'. Q x"
proof -
  let ?p = "\<lambda>x. has_type ''tool_use'' x \<and> dict_ref x ''name'' = JStr ''Skill''"
  from assms(1) obtain t where t: "c' = c @ [b] \<or> c' = c @ [[(''type'', JStr ''skill_content''), (''text'', JStr t)]] \<or>
      update_last ?p (\<lambda>x. dict_put x ''skill_content'' (JStr t)) c = Some c'"
    by (auto simp: attach_text_block_def bind_err_Inr_iff coalesce_def split: option.splits if_splits)
  have "Q (dict_put x ''skill_content'' (JStr t))" if "Q x" for x
    using that by (intro edit value_plain) (auto simp: edited_keys_def)
  with t assms(2,3) skill_fits show ?thesis
    using update_set_subset(2) [of ?p "\<lambda>x. dict_put x ''skill_content'' (JStr t)" c c'] by auto
qed

lemma attach_inv:
  assumes "fold_err (attach_block rp tools) c bs = Inr c'" and "\<forall>x\<in>set c. Q x" and "\<forall>x\<in>set bs. Q x"
  shows "\<forall>x\<in>set c'. Q x"
  using assms(1,2)
proof (rule fold_err_invariant)
  fix s x s' assume "\<forall>x\<in>set s. Q x" "x \<in> set bs" "attach_block rp tools s x = Inr s'"
  with assms(3) show "\<forall>x\<in>set s'. Q x"
    by (auto simp: attach_block_def split: if_splits dest!: attach_tool_result_inv attach_text_inv)
qed

end

lemma filter_err_subset: "filter_err p xs = Inr ys \<Longrightarrow> set ys \<subseteq> set xs"
  by (induction xs arbitrary: ys) (auto simp: bind_err_Inr_iff split: if_splits)

context block_invariant
begin

lemma injected_inv:
  assumes "group_injected rp msg bs st = Inr st'" and "all_blocks Q st" and "\<forall>x\<in>set bs. Q x"
  shows "all_blocks Q st'"
proof -
  from assms(1) show ?thesis
  proof (cases rule: group_injected_cases)
    case (attached t t')
    then obtain c where c: "fold_err (attach_block rp (gs_tools st)) (t_content t) bs = Inr c" "t' = t\<lparr>t_content := c\<rparr>"
      by (auto simp: attach_system_content_to_turn_def bind_err_Inr_iff)
    with attached all_blocks_currentD [OF assms(2) attached(1)] attach_inv [OF c(1) _ assms(3)] show ?thesis
      by (simp add: all_blocks_current)
  qed (use assms in \<open>auto simp: all_blocks_open\<close>)
qed

lemma user_inv:
  assumes "group_user rp msg st = Inr st'" and "all_blocks Q st" and "M msg"
  shows "all_blocks Q st'"
proof -
  let ?c = "dict_or msg ''content'' (JStr [])"
  have blocks: "\<forall>b\<in>set (normalize_content rp ?c). Q b" using message_blocks [OF assms(3)] by blast
  from assms(1) show ?thesis
  proof (cases rule: group_user_cases)
    case (injected bs)
    with blocks show ?thesis
      by (intro injected_inv [OF injected(3) assms(2)]) (auto simp: filter_system_blocks_def dest!: filter_err_subset)
  qed (use assms(2) blocks in \<open>auto simp: all_blocks_open interrupt_fits notice_inv\<close>)
qed

lemma step_inv:
  assumes "group_step rp st msg = Inr st'" and "all_blocks Q st" and "M msg"
  shows "all_blocks Q st'"
proof -
  have "all_blocks Q (group_result st)"
    using assms(2) by (simp add: all_blocks_def group_result_def closed_turns_def)
  moreover have "all_blocks Q st'" if "group_assistant rp msg st = Inr st'"
    using that assms(2) message_blocks [OF assms(3)]
    by (auto simp: group_assistant_def Let_def bind_err_Inr_iff intro!: all_blocks_add)
  ultimately show ?thesis
    using assms user_inv [OF _ assms(2,3)] system_inv [OF assms(2,3)]
    by (auto simp: group_step_def split: if_splits)
qed

lemma loop_inv:
  assumes "fold_err (group_step rp) group_init msgs = Inr st" and "\<forall>m\<in>set msgs. M m"
  shows "all_blocks Q st"
  using assms(1)
proof (rule fold_err_invariant [of _ _ _ _ "all_blocks Q"])
  show "all_blocks Q group_init" by (simp add: all_blocks_def closed_turns_def group_init_def)
next
  fix s m s' assume "all_blocks Q s" "m \<in> set msgs" "group_step rp s m = Inr s'"
  with assms(2) show "all_blocks Q s'" by (blast intro: step_inv)
qed

end

end
