(* ===== verification/TurnTheorems.thy ===== *)
theory TurnTheorems
  imports TurnProps
begin

text \<open>
  What the grouping and the patches guarantee: the turns satisfy the contract, the user's turns
  are the genuine user messages, the assistant's are merged, a further message costs the client
  at most one turn, and a client that applies the patches shows what the server has.
\<close>

section \<open>Instances of the block invariant\<close>

declare wf_json.simps(2) [simp del]

lemmas wf_object = wf_json.simps(2)

definition wf_message :: "dict \<Rightarrow> bool" where
  "wf_message m = wf_json (JObj m)"

lemma wf_dict_or: "wf_json (JObj m) \<Longrightarrow> wf_json d \<Longrightarrow> wf_json (dict_or m k d)"
  using dict_or_cases [of m k d] wf_json_ref [of m k] by auto

lemma wf_default: "wf_json (JObj b) \<Longrightarrow> wf_json v \<Longrightarrow> wf_json (JObj (dict_default b k v))"
  using wf_json_put [of b v k] by (simp add: dict_default_def)

lemma wf_text_block: "wf_json (JObj (text_block s))"
  by (simp add: text_block_def wf_dict_def wf_object)

lemma wf_normalize_block: "wf_json j \<Longrightarrow> wf_json (JObj (normalize_block rp j))"
proof -
  assume j: "wf_json j"
  have "wf_json (JObj (fill_block rp (type_block b)))" if b: "wf_json (JObj b)" for b
  proof -
    have "wf_json (JObj (type_block b))"
      using wf_json_put [OF b] wf_default [OF b] by (simp add: type_block_def)
    then show ?thesis
      by (cases rule: fill_block_cases [of "type_block b" rp])
         (auto intro: wf_default wf_json_put simp: wf_dict_def wf_object [of "[]"])
  qed
  with j show ?thesis
    using normalize_block_form [of j rp] by (auto simp: wf_text_block)
qed

lemma wf_normalize_content: "wf_json c \<Longrightarrow> b \<in> set (normalize_content rp c) \<Longrightarrow> wf_json (JObj b)"
  by (cases c) (auto simp: normalize_content_def wf_text_block list_all_iff
      intro: wf_normalize_block split: if_splits)

interpretation wf_blocks: block_invariant rp "\<lambda>b. wf_json (JObj b)" wf_json wf_message for rp
proof unfold_locales
  fix b v k assume "wf_json (JObj b)" "wf_json v"
  then show "wf_json (JObj (dict_put b k v))" by (rule wf_json_put)
next
  fix m d b assume "wf_message m" "d \<in> {JStr [], JArr []}" "b \<in> set (normalize_content rp (dict_or m ''content'' d))"
  moreover from this have "wf_json (dict_or m ''content'' d)"
    by (auto simp: wf_message_def intro: wf_dict_or)
  ultimately show "wf_json (JObj b)" by (blast intro: wf_normalize_content)
next
  fix b assume b: "wf_json (JObj b)"
  show "wf_json (JObj (normalize_tool_result_block rp b))"
    using wf_json_ref [OF b] wf_dict_or [OF b] by (simp add: normalize_tool_result_block_def wf_dict_def wf_object)
next
  fix m s assume "wf_message m"
  then have "wf_json (dict_ref m k)" "wf_json (dict_or m k (JStr []))" for k
    by (auto simp: wf_message_def intro: wf_json_ref wf_dict_or)
  then show "wf_json (JObj (progress_block s m))" by (simp add: progress_block_def wf_dict_def wf_object)
qed (simp_all add: wf_json_ref notice_block_def or_none_def wf_dict_def wf_object)

text \<open>Identifiers that Python can hash, and texts that are texts.\<close>

definition ids_hashable :: "dict \<Rightarrow> bool" where
  "ids_hashable b = (hashable (dict_ref b ''id'') \<and> hashable (dict_ref b ''tool_use_id''))"

definition text_readable :: "dict \<Rightarrow> bool" where
  "text_readable b = (dict_has b ''text'' \<longrightarrow> as_str (dict_ref b ''text'') \<noteq> None)"

fun block_values :: "json \<Rightarrow> dict list" where
  "block_values (JArr []) = []"
| "block_values (JArr (JObj b # vs)) = b # block_values (JArr vs)"
| "block_values (JArr (_ # vs)) = block_values (JArr vs)"
| "block_values _ = []"

definition hashable_message :: "dict \<Rightarrow> bool" where
  "hashable_message m =
     (hashable (dict_ref m ''tool_use_id'') \<and> list_all ids_hashable (block_values (dict_ref m ''content'')))"

definition readable_message :: "dict \<Rightarrow> bool" where
  "readable_message m = (hashable_message m \<and> list_all text_readable (block_values (dict_ref m ''content'')))"

lemma block_values_mem: "b \<in> set (block_values (JArr vs)) \<longleftrightarrow> JObj b \<in> set vs"
proof (induction vs)
  case (Cons v vs)
  then show ?case by (cases v) auto
qed simp

lemma ids_normalize_block:
  "dict_ref (normalize_block rp (JObj b)) ''id'' = dict_ref b ''id''"
  "dict_ref (normalize_block rp (JObj b)) ''tool_use_id'' = dict_ref b ''tool_use_id''"
  by (simp_all add: normalize_block_def fill_block_def type_block_def dict_ref_put dict_default_simps)

lemma ids_text_block: "ids_hashable (text_block s)"
  by (simp add: ids_hashable_def text_block_def dict_ref_def dict_get_def)

lemma normalize_content_cases:
  assumes "b \<in> set (normalize_content rp c)"
  obtains (given) b' vs where "c = JArr vs" "JObj b' \<in> set vs" "b = normalize_block rp (JObj b')"
        | (plain) s where "b = text_block s"
proof (cases c)
  case (JArr vs)
  with assms obtain j where j: "j \<in> set vs" "b = normalize_block rp j" by (auto simp: normalize_content_def)
  then show thesis using JArr given plain normalize_block_form [of j rp] by blast
qed (use assms plain in \<open>auto simp: normalize_content_def split: if_splits\<close>)

lemma message_block_values:
  assumes "d \<in> {JStr [], JArr []}" and "dict_or m ''content'' d = JArr vs" and "JObj b \<in> set vs"
  shows "b \<in> set (block_values (dict_ref m ''content''))"
proof -
  from assms(1,2) have "dict_ref m ''content'' = JArr vs \<or> vs = []"
    using dict_or_cases [of m "''content''" d] by auto
  with assms(3) show ?thesis by (auto simp: block_values_mem)
qed

interpretation hash_blocks: block_invariant rp ids_hashable "\<lambda>_. True" hashable_message for rp
proof unfold_locales
  fix b v k assume "ids_hashable b" "k \<in> edited_keys"
  then show "ids_hashable (dict_put b k v)" by (auto simp: ids_hashable_def edited_keys_def dict_ref_put)
next
  fix m d b assume m: "hashable_message m" "d \<in> {JStr [], JArr []}"
    and "b \<in> set (normalize_content rp (dict_or m ''content'' d))"
  from this(3) show "ids_hashable b"
  proof (cases rule: normalize_content_cases)
    case (given b' vs)
    with m message_block_values [OF m(2) given(1,2)] show ?thesis
      by (auto simp: ids_hashable_def ids_normalize_block hashable_message_def list_all_iff)
  qed (simp add: ids_text_block)
qed (auto simp: ids_hashable_def normalize_tool_result_block_def notice_block_def progress_block_def or_none_def
      hashable_message_def dict_ref_def dict_get_def)

section \<open>The turns that are shown\<close>

definition shown :: "(json \<Rightarrow> string) \<Rightarrow> turn \<Rightarrow> dict" where
  "shown rp t = normalize_turn rp (turn_dict (case resolve_stale_turn t of Inr t' \<Rightarrow> t' | Inl _ \<Rightarrow> t))"

lemma resolve_stale_Inr:
  "resolve_stale_task_blocks ts = Inr us \<Longrightarrow> us = map (\<lambda>t. case resolve_stale_turn t of Inr t' \<Rightarrow> t' | Inl _ \<Rightarrow> t) ts"
  unfolding resolve_stale_task_blocks_def map_err_Inr_iff
  by (auto simp: list_eq_iff_nth_eq list_all2_conv_all_nth)

lemma group_messagesE:
  assumes "group_messages_into_turns rp msgs = Inr ts"
  obtains st where "fold_err (group_step rp) group_init msgs = Inr st" "ts = map (shown rp) (closed_turns st)"
    "resolve_stale_task_blocks (closed_turns st) \<noteq> Inl e"
proof -
  from assms obtain st us where st: "fold_err (group_step rp) group_init msgs = Inr st"
      "resolve_stale_task_blocks (closed_turns st) = Inr us" "ts = map (\<lambda>t. normalize_turn rp (turn_dict t)) us"
    by (auto simp: group_messages_into_turns_def bind_err_Inr_iff)
  from resolve_stale_Inr [OF st(2)] st show thesis by (intro that) (auto simp: shown_def)
qed

lemma resolve_same_head: "resolve_stale_turn t = Inr t' \<Longrightarrow> same_head t t'"
  by (auto simp: resolve_stale_turn_def Let_def same_head_def split: if_splits)

lemma same_head_fields: "same_head t t' \<Longrightarrow> t_type t' = t_type t \<and> t_uuid t' = t_uuid t \<and> t_timestamp t' = t_timestamp t"
  by (cases t; cases t') (simp add: same_head_def)

lemma turn_dict_ref:
  "dict_ref (turn_dict t) ''type'' = JStr (t_type t)" "dict_ref (turn_dict t) ''uuid'' = t_uuid t"
  "dict_ref (turn_dict t) ''timestamp'' = t_timestamp t" "dict_ref (turn_dict t) ''content'' = blocks_value (t_content t)"
  by (simp_all add: turn_dict_def dict_ref_def dict_get_def)

lemma shown_ref:
  "dict_ref (shown rp t) ''type'' = JStr (t_type t)" "dict_ref (shown rp t) ''uuid'' = t_uuid t"
  by (auto simp: shown_def normalize_turn_ref turn_dict_ref dest!: resolve_same_head same_head_fields split: sum.split)

lemma shown_ok: "turn_ok (shown rp t)"
  by (simp add: shown_def normalize_turn_ok)

lemma has_type_shown [simp]: "has_type ty (shown rp t) \<longleftrightarrow> t_type t = ty"
  by (auto simp: has_type_def shown_ref)

section \<open>The contract of the grouped turns\<close>

lemma loop_types:
  assumes "fold_err (group_step rp) group_init msgs = Inr st"
  shows "\<forall>t\<in>set (closed_turns st). t_type t \<in> {''user'', ''assistant'', ''system''}"
  using assms
proof (rule fold_err_invariant)
  fix s m s' assume I: "\<forall>t\<in>set (closed_turns s). t_type t \<in> {''user'', ''assistant'', ''system''}"
    and "group_step rp s m = Inr s'"
  then have "turn_step m s s'" by (intro group_step_shape)
  then show "\<forall>t\<in>set (closed_turns s'). t_type t \<in> {''user'', ''assistant'', ''system''}"
  proof cases
    case (edited t t')
    have "t_type t' = t_type t" using same_head_fields [OF edited(4)] by simp
    with edited I show ?thesis by (auto simp: closed_turns_def)
  qed (use I in \<open>auto simp: closed_turns_def\<close>)
qed (simp add: closed_turns_def group_init_def)

text \<open>C18. Every turn the history shows has one of three types and satisfies the contract of the client.\<close>

theorem grouped_turn_contract:
  assumes "group_messages_into_turns rp msgs = Inr ts" and "t \<in> set ts"
  shows "turn_ok t \<and> (has_type ''user'' t \<or> has_type ''assistant'' t \<or> has_type ''system'' t)"
proof -
  from assms(1) obtain st where st: "fold_err (group_step rp) group_init msgs = Inr st" "ts = map (shown rp) (closed_turns st)"
    by (rule group_messagesE)
  with assms(2) obtain u where u: "u \<in> set (closed_turns st)" "t = shown rp u" by auto
  with loop_types [OF st(1)] show ?thesis by (auto simp: shown_ok)
qed

section \<open>The user's turns\<close>

definition genuine :: "(json \<Rightarrow> string) \<Rightarrow> dict \<Rightarrow> bool" where
  "genuine rp m = (has_type ''user'' m \<and> user_kind_of rp m = Inr Genuine)"

definition user_heads :: "group_state \<Rightarrow> json list" where
  "user_heads st = map t_uuid (filter (\<lambda>t. t_type t = ''user'') (closed_turns st))"

lemma user_heads_open:
  "user_heads (open_turn ty bs msg st) = user_heads st @ (if ty = ''user'' then [dict_ref msg ''uuid''] else [])"
  by (simp add: user_heads_def open_turn_def closed_turns_def)

lemma user_heads_edit:
  "gs_current st = Some t \<Longrightarrow> same_head t t' \<Longrightarrow> user_heads (st\<lparr>gs_current := Some t'\<rparr>) = user_heads st"
  by (auto simp: user_heads_def closed_turns_def dest: same_head_fields)

lemma user_heads_add: "ty \<noteq> ''user'' \<Longrightarrow> user_heads (add_blocks ty bs msg st) = user_heads st"
  by (cases rule: add_blocks_cases [of st ty bs msg])
     (auto simp: user_heads_open user_heads_edit same_head_def)

lemma user_heads_tools [simp]: "user_heads (st\<lparr>gs_tools := x\<rparr>) = user_heads st"
  by (simp add: user_heads_def closed_turns_def)

lemma user_heads_found:
  "update_task_block (gs_current st) tid f = Some t' \<Longrightarrow> user_heads (st\<lparr>gs_current := Some t'\<rparr>) = user_heads st"
  by (erule update_task_block_SomeE) (simp add: user_heads_edit)

lemma user_heads_injected:
  "group_injected rp msg bs st = Inr st' \<Longrightarrow> user_heads st' = user_heads st"
  by (erule group_injected_cases) (auto simp: user_heads_open user_heads_edit dest: attach_same_head)

lemma user_heads_user:
  assumes "group_user rp msg st = Inr st'"
  shows "user_heads st' = user_heads st @ (if user_kind_of rp msg = Inr Genuine then [dict_ref msg ''uuid''] else [])"
  using assms
proof (cases rule: group_user_cases)
  case (notice n)
  then show ?thesis by (auto simp: group_notice_def Let_def user_heads_add user_heads_found)
qed (auto simp: user_heads_open user_heads_injected)

lemma user_heads_step:
  assumes "group_step rp st msg = Inr st'"
  shows "user_heads st' = user_heads st @ (if genuine rp msg then [dict_ref msg ''uuid''] else [])"
proof -
  have other: "\<not> genuine rp msg" if "has_type ty msg" "ty \<noteq> ''user''" for ty
    using that by (auto simp: genuine_def has_type_def)
  have "user_heads (group_result st) = user_heads st"
    by (simp add: group_result_def user_heads_def closed_turns_def)
  moreover have "user_heads (group_system msg st) = user_heads st"
    by (auto simp: group_system_def Let_def user_heads_add user_heads_found split: json.split)
  moreover have "user_heads st' = user_heads st" if "group_assistant rp msg st = Inr st'"
    using that by (auto simp: group_assistant_def Let_def bind_err_Inr_iff user_heads_add)
  ultimately show ?thesis
    using assms user_heads_user [of rp msg st st'] other
    by (auto simp: group_step_def genuine_def split: if_splits)
qed

lemma user_heads_loop:
  "fold_err (group_step rp) st msgs = Inr st' \<Longrightarrow>
   user_heads st' = user_heads st @ map (\<lambda>m. dict_ref m ''uuid'') (filter (genuine rp) msgs)"
  by (induction msgs arbitrary: st) (auto simp: bind_err_Inr_iff user_heads_step)

text \<open>The user's turns of the history are the genuine user messages, each once and in order: no
  injected message is shown as the user's, and none of the user's is lost or doubled.
\<close>

theorem user_turns_genuine:
  assumes "group_messages_into_turns rp msgs = Inr ts"
  shows "map (\<lambda>t. dict_ref t ''uuid'') (filter (has_type ''user'') ts) =
         map (\<lambda>m. dict_ref m ''uuid'') (filter (genuine rp) msgs)"
proof -
  from assms obtain st where st: "fold_err (group_step rp) group_init msgs = Inr st" "ts = map (shown rp) (closed_turns st)"
    by (rule group_messagesE)
  have "map (\<lambda>t. dict_ref t ''uuid'') (filter (has_type ''user'') ts) = user_heads st"
    by (simp add: st(2) filter_map o_def shown_ref user_heads_def)
  moreover have "user_heads group_init = []" by (simp add: user_heads_def group_init_def closed_turns_def)
  ultimately show ?thesis using user_heads_loop [OF st(1)] by simp
qed

text \<open>
  The history of the examples: a question, a tool use, its result, the answer, and an interrupt that
  arrives twice.
\<close>

definition sample_text :: "string \<Rightarrow> json" where
  "sample_text s = JArr [JObj [(''type'', JStr ''text''), (''text'', JStr s)]]"

definition sample_history :: "dict list" where
  "sample_history =
     [[(''type'', JStr ''user''), (''content'', JStr ''draw a cat''), (''uuid'', JStr ''u1'')],
      [(''type'', JStr ''assistant''), (''uuid'', JStr ''a1''),
       (''content'', JArr [JObj [(''id'', JStr ''t1''), (''name'', JStr ''Read''), (''input'', JObj [])]])],
      [(''type'', JStr ''user''), (''uuid'', JStr ''u2''),
       (''content'', JArr [JObj [(''tool_use_id'', JStr ''t1''), (''content'', JStr ''ok'')]])],
      [(''type'', JStr ''assistant''), (''uuid'', JStr ''a2''), (''content'', sample_text ''done'')],
      [(''type'', JStr ''user''), (''uuid'', JStr ''u3''), (''content'', JStr ''[Request interrupted by user]'')],
      [(''type'', JStr ''user''), (''uuid'', JStr ''u4''), (''content'', JStr ''[Request interrupted by user]'')]]"

definition sample_turns :: "dict list" where
  "sample_turns =
     [[(''type'', JStr ''user''), (''content'', sample_text ''draw a cat''), (''uuid'', JStr ''u1''), (''timestamp'', JNull)],
      [(''type'', JStr ''assistant''),
       (''content'', JArr [JObj [(''id'', JStr ''t1''), (''name'', JStr ''Read''), (''input'', JObj []),
                                 (''type'', JStr ''tool_use''), (''result'', JStr ''ok''), (''is_error'', JBool False)],
                           JObj [(''type'', JStr ''text''), (''text'', JStr ''done'')]]),
       (''uuid'', JStr ''a1''), (''timestamp'', JNull)],
      [(''type'', JStr ''system''), (''content'', JArr [JObj [(''type'', JStr ''interrupt_notice'')]]),
       (''uuid'', JStr ''u3''), (''timestamp'', JNull)]]"

lemma sample_grouped: "group_messages_into_turns (\<lambda>_. []) sample_history = Inr sample_turns"
  by code_simp

theorem grouped_turn_contract_witness:
  "let t = hd sample_turns in turn_ok t \<and> (has_type ''user'' t \<or> has_type ''assistant'' t \<or> has_type ''system'' t)"
  unfolding Let_def by (rule grouped_turn_contract [OF sample_grouped]) (simp add: sample_turns_def)

theorem user_turns_genuine_witness:
  "map (\<lambda>t. dict_ref t ''uuid'') (filter (has_type ''user'') sample_turns) =
   map (\<lambda>m. dict_ref m ''uuid'') (filter (genuine (\<lambda>_. [])) sample_history)"
  by (rule user_turns_genuine [OF sample_grouped])

section \<open>The assistant's turns\<close>

definition not_both_assistant :: "turn \<Rightarrow> turn \<Rightarrow> bool" where
  "not_both_assistant t u = (\<not> (t_type t = ''assistant'' \<and> t_type u = ''assistant''))"

definition merged :: "group_state \<Rightarrow> bool" where
  "merged st = (successively not_both_assistant (closed_turns st) \<and> (gs_current st = None \<longrightarrow> gs_turns st = []))"

lemma merged_step:
  assumes "merged st" and "group_step rp st m = Inr st'" and "\<not> has_type ''result'' m"
  shows "merged st'"
proof -
  from assms(2) have "turn_step m st st'" by (rule group_step_shape)
  then show ?thesis
  proof cases
    case (edited t t')
    with assms(1) same_head_fields [OF edited(4)] show ?thesis
      by (auto simp: merged_def closed_turns_def successively_append_iff not_both_assistant_def)
  next
    case (opened ty bs)
    with assms(1) show ?thesis
      by (auto simp: merged_def closed_turns_def successively_append_iff not_both_assistant_def split: option.splits)
  qed (use assms in \<open>auto simp: merged_def closed_turns_def\<close>)
qed

text \<open>Unless a result message ends the round between them, no two turns of the assistant follow each other.\<close>

theorem assistant_turns_merged:
  assumes "group_messages_into_turns rp msgs = Inr ts" and "\<forall>m\<in>set msgs. \<not> has_type ''result'' m"
  shows "successively (\<lambda>t u. \<not> (has_type ''assistant'' t \<and> has_type ''assistant'' u)) ts"
proof -
  from assms(1) obtain st where st: "fold_err (group_step rp) group_init msgs = Inr st" "ts = map (shown rp) (closed_turns st)"
    by (rule group_messagesE)
  from st(1) have "merged st"
  proof (rule fold_err_invariant)
    show "merged group_init" by (simp add: merged_def group_init_def closed_turns_def)
  qed (use assms(2) in \<open>auto intro: merged_step\<close>)
  then show ?thesis by (simp add: st(2) merged_def successively_map not_both_assistant_def [abs_def])
qed

theorem assistant_turns_merged_witness:
  "successively (\<lambda>t u. \<not> (has_type ''assistant'' t \<and> has_type ''assistant'' u)) sample_turns"
  by (rule assistant_turns_merged [OF sample_grouped]) (simp add: sample_history_def has_type_def dict_ref_def dict_get_def)

section \<open>Patches\<close>

definition turn_eq :: "dict \<Rightarrow> dict \<Rightarrow> bool" where
  "turn_eq x y = py_eq (JObj x) (JObj y)"

definition turns_wf :: "dict list \<Rightarrow> bool" where
  "turns_wf ts = list_all wf_message ts"

lemma turn_eq_laws:
  "wf_message x \<Longrightarrow> turn_eq x x" "wf_message x \<Longrightarrow> wf_message y \<Longrightarrow> turn_eq x y \<Longrightarrow> turn_eq y x"
  "turn_eq x y \<Longrightarrow> turn_eq y z \<Longrightarrow> turn_eq x z"
  unfolding turn_eq_def wf_message_def by (rule py_eq_refl py_eq_sym py_eq_trans; assumption)+

lemma turns_eq_iff: "turns_eq xs ys \<longleftrightarrow> list_all2 turn_eq xs ys"
  unfolding turns_eq_def blocks_value_def py_eq.simps(3) turn_eq_def [abs_def] by (simp add: list_all2_map1 list_all2_map2 del: py_eq.simps)

lemma turns_eq_refl: "turns_wf xs \<Longrightarrow> turns_eq xs xs"
  unfolding turns_eq_iff turns_wf_def list_all2_conv_all_nth list_all_length by (auto intro: turn_eq_laws)

lemma turns_eq_sym: "turns_wf xs \<Longrightarrow> turns_wf ys \<Longrightarrow> turns_eq xs ys \<Longrightarrow> turns_eq ys xs"
  unfolding turns_eq_iff turns_wf_def list_all2_conv_all_nth list_all_length by (auto intro: turn_eq_laws)

lemma turns_eq_trans: "turns_eq xs ys \<Longrightarrow> turns_eq ys zs \<Longrightarrow> turns_eq xs zs"
  unfolding turns_eq_iff by (rule list_all2_trans [OF turn_eq_laws(3)])

lemma turns_eq_append: "turns_eq xs ys \<Longrightarrow> turn_eq x y \<Longrightarrow> turns_eq (xs @ [x]) (ys @ [y])"
  by (simp add: turns_eq_iff list_all2_appendI)

lemma turns_eq_length: "turns_eq xs ys \<Longrightarrow> length xs = length ys"
  by (simp add: turns_eq_iff list_all2_lengthD)

lemma turns_wf_butlast: "turns_wf xs \<Longrightarrow> turns_wf (butlast xs)"
  by (auto simp: turns_wf_def list_all_iff dest: in_set_butlastD)

lemma turns_wf_last: "turns_wf xs \<Longrightarrow> xs \<noteq> [] \<Longrightarrow> wf_message (last xs)"
  by (simp add: turns_wf_def list_all_iff)

lemma turns_eq_butlast:
  assumes "turns_eq xs ys"
  shows "turns_eq (butlast xs) (butlast ys)"
  using assms unfolding turns_eq_iff butlast_conv_take by (simp add: list_all2_lengthD list_all2_takeI)

text \<open>The client as the server's turns see it: the same turns, none of them waiting for confirmation.\<close>

definition in_sync :: "dict list \<Rightarrow> dict list \<Rightarrow> bool" where
  "in_sync client turns = (turns_eq client turns \<and> (client = [] \<or> \<not> optimistic (last client)))"

lemma patched_client:
  assumes "turns_wf prev" and "turns_wf now" and "in_sync client prev"
  shows "turns_eq (apply_turn_patch client (build_turn_patch prev now)) now"
proof -
  have refl: "turns_eq now now" by (rule turns_eq_refl [OF assms(2)])
  have c: "turns_eq client prev" "client = [] \<or> \<not> optimistic (last client)"
    using assms(3) by (auto simp: in_sync_def)
  have snoc: "turns_eq (xs @ [last now]) now" if "turns_eq xs (butlast now)" "now \<noteq> []" for xs
  proof -
    have "turn_eq (last now) (last now)" by (rule turn_eq_laws(1) [OF turns_wf_last [OF assms(2) that(2)]])
    from turns_eq_append [OF that(1) this] that(2) show ?thesis by simp
  qed
  consider (same) "turns_eq prev now"
    | (more) "\<not> turns_eq prev now" "length now = length prev + 1" "turns_eq (butlast now) prev"
    | (changed) "\<not> turns_eq prev now" "\<not> (length now = length prev + 1 \<and> turns_eq (butlast now) prev)"
        "length now = length prev" "0 < length now" "turns_eq (butlast now) (butlast prev)"
        "\<not> py_eq (JObj (last now)) (JObj (last prev))"
    | (other) "\<not> turns_eq prev now" "\<not> (length now = length prev + 1 \<and> turns_eq (butlast now) prev)"
        "\<not> (length now = length prev \<and> 0 < length now \<and> turns_eq (butlast now) (butlast prev) \<and>
            \<not> py_eq (JObj (last now)) (JObj (last prev)))"
    by argo
  then show ?thesis
  proof cases
    case same
    with c(1) show ?thesis by (auto simp: build_turn_patch_def intro: turns_eq_trans)
  next
    case more
    then have ne: "now \<noteq> []" by auto
    have "turns_eq client (butlast now)"
      using turns_eq_trans [OF c(1) turns_eq_sym [OF turns_wf_butlast [OF assms(2)] assms(1) more(3)]] .
    from snoc [OF this ne] more c(2) show ?thesis by (auto simp: build_turn_patch_def)
  next
    case changed
    then have ne: "now \<noteq> []" "prev \<noteq> []" by auto
    then have nc: "client \<noteq> []" using turns_eq_length [OF c(1)] by auto
    have "turns_eq (butlast client) (butlast now)"
      using turns_eq_trans [OF turns_eq_butlast [OF c(1)]
          turns_eq_sym [OF turns_wf_butlast [OF assms(2)] turns_wf_butlast [OF assms(1)] changed(5)]] .
    from snoc [OF this ne(1)] changed nc show ?thesis by (auto simp: build_turn_patch_def simp del: py_eq.simps)
  next
    case other
    then have "build_turn_patch prev now = Some (Patch_reset now)"
      unfolding build_turn_patch_def by (simp only: if_False)
    with refl show ?thesis by simp
  qed
qed

text \<open>Applying the patch between two lists of turns to the first gives the second.\<close>

theorem patch_roundtrip:
  assumes "turns_wf prev" and "turns_wf now" and "prev = [] \<or> \<not> optimistic (last prev)"
  shows "turns_eq (apply_turn_patch prev (build_turn_patch prev now)) now"
  using assms turns_eq_refl [OF assms(1)] by (intro patched_client) (auto simp: in_sync_def)

lemma sample_wf: "turns_wf sample_turns" "\<not> optimistic (last sample_turns)"
  by code_simp+

theorem patch_roundtrip_witness:
  "turns_eq (apply_turn_patch (butlast sample_turns) (build_turn_patch (butlast sample_turns) sample_turns)) sample_turns"
proof (rule patch_roundtrip)
  show "turns_wf (butlast sample_turns)" by code_simp
  show "butlast sample_turns = [] \<or> \<not> optimistic (last (butlast sample_turns))" by code_simp
qed (rule sample_wf)

section \<open>One more message\<close>

lemma wf_normalize_turn: "wf_message t \<Longrightarrow> wf_message (normalize_turn rp t)"
proof -
  assume t: "wf_message t"
  have c: "wf_json (dict_or t ''content'' (JArr []))" using t by (simp add: wf_message_def wf_dict_or)
  have "wf_json (blocks_value (normalize_content rp (dict_or t ''content'' (JArr []))))"
    by (auto simp: blocks_value_def list_all_iff intro: wf_normalize_content [OF c])
  with t show ?thesis
    unfolding wf_message_def normalize_turn_def by (intro wf_default wf_json_put) simp_all
qed

definition heads_wf :: "group_state \<Rightarrow> bool" where
  "heads_wf st = (\<forall>t\<in>set (closed_turns st). wf_json (t_uuid t) \<and> wf_json (t_timestamp t))"

lemma heads_wf_step:
  assumes "heads_wf st" and "group_step rp st m = Inr st'" and "wf_message m"
  shows "heads_wf st'"
proof -
  have ref: "wf_json (dict_ref m k)" for k using assms(3) by (simp add: wf_message_def wf_json_ref)
  from assms(2) have "turn_step m st st'" by (rule group_step_shape)
  then show ?thesis
  proof cases
    case (edited t t')
    with assms(1) same_head_fields [OF edited(4)] show ?thesis by (auto simp: heads_wf_def closed_turns_def)
  qed (use assms(1) ref in \<open>auto simp: heads_wf_def closed_turns_def\<close>)
qed

lemma resolve_blocks_wf:
  assumes "resolve_stale_turn t = Inr t'" and "\<forall>b\<in>set (t_content t). wf_json (JObj b)"
  shows "\<forall>b\<in>set (t_content t'). wf_json (JObj b)"
proof -
  have "wf_json (JObj (stale_task c b))" if "wf_json (JObj b)" for c b
    using that by (auto simp: stale_task_def intro!: wf_json_put)
  with assms show ?thesis by (auto simp: resolve_stale_turn_def Let_def split: if_splits)
qed

lemma shown_wf:
  assumes "wf_json (t_uuid t)" and "wf_json (t_timestamp t)" and "\<forall>b\<in>set (t_content t). wf_json (JObj b)"
  shows "wf_message (shown rp t)"
proof -
  have d: "wf_message (turn_dict u)"
    if "same_head t u" "\<forall>b\<in>set (t_content u). wf_json (JObj b)" for u
    using that assms(1,2) same_head_fields [OF that(1)]
    by (auto simp: wf_message_def turn_dict_def wf_object wf_dict_def blocks_value_def list_all_iff)
  have "wf_message (turn_dict (case resolve_stale_turn t of Inr t' \<Rightarrow> t' | Inl _ \<Rightarrow> t))"
  proof (cases "resolve_stale_turn t")
    case (Inl e)
    with assms(3) show ?thesis by (auto intro!: d simp: same_head_def)
  next
    case (Inr u)
    with d [OF resolve_same_head [OF Inr] resolve_blocks_wf [OF Inr assms(3)]] show ?thesis by simp
  qed
  then show ?thesis unfolding shown_def by (rule wf_normalize_turn)
qed

lemma grouped_wf:
  assumes "group_messages_into_turns rp msgs = Inr ts" and "list_all wf_message msgs"
  shows "turns_wf ts"
proof -
  from assms(1) obtain st where st: "fold_err (group_step rp) group_init msgs = Inr st" "ts = map (shown rp) (closed_turns st)"
    by (rule group_messagesE)
  have blocks: "all_blocks (\<lambda>b. wf_json (JObj b)) st"
    using assms(2) by (intro wf_blocks.loop_inv [OF st(1)]) (simp add: list_all_iff)
  have "heads_wf st"
    using st(1)
  proof (rule fold_err_invariant)
    show "heads_wf group_init" by (simp add: heads_wf_def group_init_def closed_turns_def)
  qed (use assms(2) in \<open>auto intro: heads_wf_step simp: list_all_iff\<close>)
  with blocks show ?thesis
    by (auto simp: turns_wf_def list_all_iff st(2) heads_wf_def all_blocks_def intro!: shown_wf)
qed

text \<open>Grouping the history with one more message changes at most its last turn or adds one: the
  patch the client is sent is never the whole list.
\<close>

theorem one_message_small_patch:
  assumes "group_messages_into_turns rp msgs = Inr prev" and "group_messages_into_turns rp (msgs @ [m]) = Inr now"
    and "list_all wf_message (msgs @ [m])"
  shows "build_turn_patch prev now \<in> {None, Some (Patch_append (last now)), Some (Patch_replace_last (last now))}"
proof -
  from assms(1) obtain st where st: "fold_err (group_step rp) group_init msgs = Inr st" "prev = map (shown rp) (closed_turns st)"
    by (rule group_messagesE)
  from assms(2) obtain st' where st': "fold_err (group_step rp) group_init (msgs @ [m]) = Inr st'"
      "now = map (shown rp) (closed_turns st')"
    by (rule group_messagesE)
  have wf: "turns_wf prev" "turns_wf now"
    using grouped_wf [OF assms(1)] grouped_wf [OF assms(2)] assms(3) by auto
  from st st' have "group_step rp st m = Inr st'"
    by (auto simp: fold_err_append bind_err_Inr_iff)
  then have "turn_step m st st'" by (rule group_step_shape)
  then have "now = prev \<or> (\<exists>x. now = prev @ [x]) \<or> (\<exists>ts x y. prev = ts @ [x] \<and> now = ts @ [y])"
    by cases (auto simp: st(2) st'(2) closed_turns_def)
  then consider "now = prev" | x where "now = prev @ [x]" | ts x y where "prev = ts @ [x]" "now = ts @ [y]"
    by blast
  then show ?thesis
  proof cases
    case 1
    with turns_eq_refl [OF wf(1)] show ?thesis by (simp add: build_turn_patch_def)
  next
    case (2 x)
    with turns_eq_refl [OF wf(1)] show ?thesis by (auto simp: build_turn_patch_def)
  next
    case (3 ts x y)
    have ts: "turns_eq ts ts" "wf_message x" "wf_message y"
      using wf(1,2) 3 turns_eq_refl [of ts] by (auto simp: turns_wf_def)
    have "turns_eq prev now" if "turn_eq y x"
      using that ts turns_eq_append [OF ts(1) turn_eq_laws(2) [OF ts(3,2)]] 3 by simp
    with ts 3 show ?thesis by (auto simp: build_turn_patch_def turn_eq_def simp del: py_eq.simps)
  qed
qed

theorem one_message_small_patch_witness:
  "\<exists>prev now. build_turn_patch prev now = Some (Patch_append (last now)) \<and>
     build_turn_patch prev now \<in> {None, Some (Patch_append (last now)), Some (Patch_replace_last (last now))}"
proof -
  let ?prev = "butlast sample_turns" and ?ms = "take 4 sample_history" and ?m = "sample_history ! 4"
  have "group_messages_into_turns (\<lambda>_. []) ?ms = Inr ?prev"
    "group_messages_into_turns (\<lambda>_. []) (?ms @ [?m]) = Inr sample_turns" "list_all wf_message (?ms @ [?m])"
    by code_simp+
  note small = one_message_small_patch [OF this]
  moreover have "build_turn_patch ?prev sample_turns = Some (Patch_append (last sample_turns))" by code_simp
  ultimately show ?thesis by blast
qed

section \<open>When grouping succeeds\<close>

definition block_readable :: "dict \<Rightarrow> bool" where
  "block_readable b = (as_str (dict_or b ''text'' (JStr [])) \<noteq> None \<and> ids_hashable b)"

lemma block_readable_text: "block_readable b \<Longrightarrow> \<exists>t. block_text b = Inr t"
  by (auto simp: block_readable_def block_text_def as_simps_iff)

lemma normalize_block_get_text:
  "dict_get (normalize_block rp (JObj b)) ''text'' = dict_get b ''text'' \<or>
   dict_get (normalize_block rp (JObj b)) ''text'' = Some (JStr [])"
  by (simp add: normalize_block_def fill_block_def type_block_def dict_default_simps dict_get_put)

lemma text_readable_or: "text_readable b \<Longrightarrow> as_str (dict_or b ''text'' (JStr [])) \<noteq> None"
  by (cases "dict_get b ''text''") (auto simp: text_readable_def dict_or_def dict_ref_def dict_has_get)

lemma readable_blocks:
  assumes "readable_message m" and "d \<in> {JStr [], JArr []}" and "b \<in> set (normalize_content rp (dict_or m ''content'' d))"
  shows "block_readable b"
  using assms(3)
proof (cases rule: normalize_content_cases)
  case (given b' vs)
  from assms(1) message_block_values [OF assms(2) given(1,2)] have "text_readable b'" "ids_hashable b'"
    by (auto simp: readable_message_def hashable_message_def list_all_iff)
  moreover from this(1) have "as_str (dict_or b ''text'' (JStr [])) \<noteq> None"
    using normalize_block_get_text [of rp b'] text_readable_or [of b'] by (auto simp: given(3) dict_or_def)
  ultimately show ?thesis
    by (simp add: given(3) block_readable_def ids_hashable_def ids_normalize_block)
qed (simp add: block_readable_def ids_text_block, simp add: text_block_def dict_or_def dict_get_def)

lemma all_injected_total: "list_all block_readable bs \<Longrightarrow> \<exists>r. all_blocks_are_system_injected bs = Inr r"
  by (induction bs) (auto dest!: block_readable_text)

lemma filter_total: "list_all block_readable bs \<Longrightarrow> \<exists>r. filter_err (keep_system_block s) bs = Inr r"
  by (induction bs) (auto simp: keep_system_block_def dest!: block_readable_text)

lemma attach_block_total: "block_readable b \<Longrightarrow> \<exists>c'. attach_block rp tools c b = Inr c'"
proof -
  assume b: "block_readable b"
  then have "hashable (dict_ref (normalize_tool_result_block rp b) ''tool_use_id'')"
    by (simp add: normalize_tool_result_block_def dict_ref_def dict_get_def block_readable_def ids_hashable_def)
  then have "\<exists>c'. attach_tool_result rp tools c b = Inr c'" by (simp add: attach_tool_result_def Let_def)
  with block_readable_text [OF b] show ?thesis by (auto simp: attach_block_def attach_text_block_def)
qed

lemma attach_total: "list_all block_readable bs \<Longrightarrow> \<exists>c'. fold_err (attach_block rp tools) c bs = Inr c'"
  using fold_err_total [of "\<lambda>_. True" c bs "attach_block rp tools"] attach_block_total by (auto simp: list_all_iff)

lemma track_total: "list_all block_readable bs \<Longrightarrow> \<exists>r. track_tool_uses tools bs = Inr r"
proof -
  have "\<exists>r. track_tool_use ts b = Inr r" if "block_readable b" for ts b
    using that by (simp add: track_tool_use_def Let_def block_readable_def ids_hashable_def)
  then show "list_all block_readable bs \<Longrightarrow> ?thesis"
    using fold_err_total [of "\<lambda>_. True" tools bs track_tool_use] by (auto simp: track_tool_uses_def list_all_iff)
qed

lemma notice_texts_mem:
  "v \<in> set (notice_texts vs) \<Longrightarrow> (\<exists>s. v = JStr s) \<or> (\<exists>b. JObj b \<in> set vs \<and> v = dict_or b ''text'' (JStr []))"
  by (induction vs rule: notice_texts.induct) (auto split: if_splits)

lemma extract_total:
  assumes "readable_message m" and "d \<in> {JStr [], JArr []}"
  shows "\<exists>r. extract_task_notification (dict_or m ''content'' d) = Inr r"
proof (cases "dict_or m ''content'' d")
  case (JArr vs)
  have "as_str v \<noteq> None" if "v \<in> set (notice_texts vs)" for v
    using notice_texts_mem [OF that]
  proof (elim disjE exE conjE)
    fix b assume b: "JObj b \<in> set vs" "v = dict_or b ''text'' (JStr [])"
    from assms(1) message_block_values [OF assms(2) JArr b(1)] have "text_readable b"
      by (auto simp: readable_message_def list_all_iff)
    with b(2) show ?thesis by (simp add: text_readable_or)
  qed simp
  with JArr show ?thesis by (simp add: extract_task_notification_def list_all_iff)
qed (auto simp: extract_task_notification_def)

lemma echo_total:
  assumes "list_all block_readable (normalize_content rp c)"
  shows "\<exists>r. is_interrupt_echo rp c = Inr r"
proof -
  have "\<exists>t. echo_text rp c = Inr t"
  proof (cases c)
    case (JArr vs)
    show ?thesis
    proof (cases "\<exists>b. normalize_content rp c = [b]")
      case True
      then obtain b where b: "normalize_content rp c = [b]" by blast
      with assms have r: "block_readable b" by simp
      have "\<exists>t. strip_value (if truthy (dict_ref b ''text'') then dict_ref b ''text'' else JStr []) = Inr t"
        using r by (cases "dict_get b ''text''") (auto simp: block_readable_def dict_or_def dict_ref_def as_simps_iff)
      with b JArr show ?thesis by (auto simp: echo_text_def)
    next
      case False
      with JArr show ?thesis by (auto simp: echo_text_def split: list.split)
    qed
  qed (auto simp: echo_text_def)
  then show ?thesis by (auto simp: is_interrupt_echo_def)
qed

lemma readable_step: "readable_message m \<Longrightarrow> \<exists>st'. group_step rp st m = Inr st'"
proof -
  assume m: "readable_message m"
  let ?c = "dict_or m ''content'' (JStr [])" and ?a = "dict_or m ''content'' (JArr [])"
  have blocks: "list_all block_readable (normalize_content rp ?c)" "list_all block_readable (normalize_content rp ?a)"
    using readable_blocks [OF m] by (auto simp: list_all_iff)
  obtain kind where kind: "user_kind_of rp m = Inr kind"
  proof -
    from all_injected_total [OF blocks(1)] have "\<exists>r. is_system_injected_user_message rp ?c = Inr r"
      by (auto simp: is_system_injected_user_message_def split: json.split)
    with extract_total [OF m, of "JStr []"] echo_total [OF blocks(1)] that show thesis
      by (fastforce simp: user_kind_of_def Let_def split: option.splits)
  qed
  have "\<exists>st'. group_user rp m st = Inr st'"
  proof (cases kind)
    case Injected
    obtain bs where bs: "filter_system_blocks rp ?c (has_subagent_user_metadata m) = Inr bs"
      using filter_total [OF blocks(1)] by (auto simp: filter_system_blocks_def)
    then have "list_all block_readable bs"
      using blocks(1) by (auto simp: list_all_iff filter_system_blocks_def dest!: filter_err_subset)
    then have "\<exists>c'. fold_err (attach_block rp (gs_tools st)) c bs = Inr c'" for c by (rule attach_total)
    then have "\<exists>t'. attach_system_content_to_turn rp (gs_tools st) t bs = Inr t'" for t
      by (auto simp: attach_system_content_to_turn_def bind_err_Inr_iff)
    then have "\<exists>st'. group_injected rp m bs st = Inr st'"
      by (auto simp: group_injected_def bind_err_Inr_iff split: option.split)
    with Injected kind bs show ?thesis by (auto simp: group_user_def Let_def)
  qed (use kind in \<open>auto simp: group_user_def Let_def\<close>)
  moreover have "\<exists>st'. group_assistant rp m st = Inr st'"
    using track_total [OF blocks(2), of "gs_tools st"] by (auto simp: group_assistant_def Let_def)
  ultimately show ?thesis by (simp add: group_step_def)
qed

lemma resolve_total: "\<forall>b\<in>set (t_content t). ids_hashable b \<Longrightarrow> \<exists>t'. resolve_stale_turn t = Inr t'"
  by (auto simp: resolve_stale_turn_def Let_def completed_tools_def list_all_iff list_ex_iff ids_hashable_def)

text \<open>A history of readable messages (texts are texts, identifiers can be hashed) is always grouped,
  whatever else its messages hold.
\<close>

theorem readable_history_grouped:
  assumes "list_all readable_message msgs"
  shows "\<exists>ts. group_messages_into_turns rp msgs = Inr ts"
proof -
  obtain st where st: "fold_err (group_step rp) group_init msgs = Inr st"
    using fold_err_total [of "\<lambda>_. True" group_init msgs "group_step rp"] readable_step assms
    by (auto simp: list_all_iff)
  have "all_blocks ids_hashable st"
    using assms by (intro hash_blocks.loop_inv [OF st]) (auto simp: list_all_iff readable_message_def)
  then have "\<forall>t\<in>set (closed_turns st). \<exists>t'. resolve_stale_turn t = Inr t'"
    by (auto simp: all_blocks_def intro: resolve_total)
  then have "\<exists>us. resolve_stale_task_blocks (closed_turns st) = Inr us"
    unfolding resolve_stale_task_blocks_def by (rule map_err_total)
  with st show ?thesis by (auto simp: group_messages_into_turns_def)
qed

theorem readable_history_grouped_witness:
  "\<exists>ts. group_messages_into_turns (\<lambda>_. []) sample_history = Inr ts"
  by (rule readable_history_grouped) code_simp

text \<open>One user message with a text block whose text is null makes the grouping of the whole history
  raise, whatever precedes and follows it; the interrupt test of the same module guards against such a text.
\<close>

theorem null_text_breaks_history:
  assumes "list_all readable_message before"
  shows "group_messages_into_turns rp
           (before @ [(''type'', JStr ''user''),
                      (''content'', JArr [JObj [(''type'', JStr ''text''), (''text'', JNull)]])] # after) = Inl Type_Error"
proof -
  let ?bad = "[(''type'', JStr ''user''), (''content'', JArr [JObj [(''type'', JStr ''text''), (''text'', JNull)]])]"
  obtain st where st: "fold_err (group_step rp) group_init before = Inr st"
    using fold_err_total [of "\<lambda>_. True" group_init before "group_step rp"] readable_step assms
    by (auto simp: list_all_iff)
  have "group_step rp st ?bad = Inl Type_Error"
    by (simp add: group_step_def has_type_def dict_ref_def dict_get_def group_user_def dict_or_def user_kind_of_def
        extract_task_notification_def)
  with st show ?thesis by (simp add: group_messages_into_turns_def fold_err_append)
qed

theorem null_text_breaks_history_witness:
  "group_messages_into_turns (\<lambda>_. [])
     (sample_history @ [(''type'', JStr ''user''),
                        (''content'', JArr [JObj [(''type'', JStr ''text''), (''text'', JNull)]])] # []) = Inl Type_Error"
  by (rule null_text_breaks_history) code_simp

end
