(* ===== verification/StreamProjector.thy ===== *)
theory StreamProjector
  imports TurnTheorems TaskFailure "HOL-Library.AList"
begin

text \<open>
  The projection of an agent's live stream (\<open>server/agent_runtime/stream_projector.py\<close>): committed
  messages are regrouped and sent to the client as patches, stream events build a draft of the
  assistant's next turn, and a draft that repeats what was already committed is hidden. The two
  dictionaries of the draft, keyed by block index, are association lists.
\<close>

section \<open>Helpers\<close>

definition groupable_types :: "string list" where
  "groupable_types = [''user'', ''assistant'', ''result'', ''system'']"

definition coerce_index :: "json \<Rightarrow> int option" where
  "coerce_index v =
     (case v of
        JInt i \<Rightarrow> Some i
      | JStr s \<Rightarrow>
          if strip s \<noteq> [] \<and> list_all is_digit (strip s) then Some (int (nat_of_digits 0 (strip s))) else None
      | _ \<Rightarrow> None)"

definition is_ask_user_question_block :: "json \<Rightarrow> bool" where
  "is_ask_user_question_block j =
     (case j of JObj b \<Rightarrow> has_type ''tool_use'' b \<and> dict_ref b ''name'' = JStr ''AskUserQuestion'' | _ \<Rightarrow> False)"

text \<open>
  The signature of a question block is a text that is only compared: with an id it is the id,
  otherwise the questions as sorted JSON text, which are equal when \<open>dumps_eq\<close> holds.
\<close>

fun dumps_eq :: "json \<Rightarrow> json \<Rightarrow> bool" where
  "dumps_eq (JArr xs) w = (case w of JArr ys \<Rightarrow> list_all2 dumps_eq xs ys | _ \<Rightarrow> False)"
| "dumps_eq (JObj d) w =
     (case w of
        JObj e \<Rightarrow> length d = length e \<and>
          list_all (\<lambda>(k, v). case map_of e k of Some v' \<Rightarrow> dumps_eq v v' | None \<Rightarrow> False) d
      | _ \<Rightarrow> False)"
| "dumps_eq v w = (v = w)"

datatype signature = Sig_id string | Sig_questions json

fun same_signature :: "signature \<Rightarrow> signature \<Rightarrow> bool" where
  "same_signature (Sig_id a) (Sig_id b) = (a = b)"
| "same_signature (Sig_questions a) (Sig_questions b) = dumps_eq a b"
| "same_signature _ _ = False"

definition ask_signature :: "dict \<Rightarrow> signature option" where
  "ask_signature b =
     (case dict_ref b ''id'' of
        JStr (c # t) \<Rightarrow> Some (Sig_id (c # t))
      | _ \<Rightarrow>
          (case dict_ref b ''input'' of
             JObj payload \<Rightarrow>
               (case dict_ref payload ''questions'' of
                  JArr (q # qs) \<Rightarrow> Some (Sig_questions (JArr (q # qs)))
                | _ \<Rightarrow> None)
           | _ \<Rightarrow> None))"

definition copy_present :: "dict \<Rightarrow> string list \<Rightarrow> dict \<Rightarrow> dict" where
  "copy_present src ks b = foldl (\<lambda>d k. case dict_get src k of Some v \<Rightarrow> dict_put d k v | None \<Rightarrow> d) b ks"

definition canonicalize_block :: "(json \<Rightarrow> string) \<Rightarrow> bool \<Rightarrow> json \<Rightarrow> dict" where
  "canonicalize_block rp include_result block =
     (let n = normalize_block rp block;
          c = copy_present n [''text'', ''thinking'', ''id'', ''name'', ''skill_content'', ''tool_use_id'', ''content'']
                [(''type'', dict_or n ''type'' (JStr []))];
          c2 = (if include_result then copy_present n [''result'', ''is_error''] c else c)
      in case dict_ref n ''input'' of JObj d \<Rightarrow> dict_put c2 ''input'' (JObj d) | _ \<Rightarrow> c2)"

definition find_last_assistant_turn :: "dict list \<Rightarrow> dict option" where
  "find_last_assistant_turn turns = List.find (has_type ''assistant'') (rev turns)"

text \<open>The canonical blocks of the draft and of the last committed turn, when both have a list of blocks.\<close>

definition draft_and_committed ::
  "(json \<Rightarrow> string) \<Rightarrow> bool \<Rightarrow> dict list \<Rightarrow> dict \<Rightarrow> (dict list \<times> dict list) option" where
  "draft_and_committed rp include_result turns draft =
     (case find_last_assistant_turn turns of
        None \<Rightarrow> None
      | Some committed \<Rightarrow>
          (case (as_list (dict_ref draft ''content''), as_list (dict_ref committed ''content'')) of
             (Some ds, Some cs) \<Rightarrow>
               Some (map (canonicalize_block rp include_result) ds, map (canonicalize_block rp include_result) cs)
           | _ \<Rightarrow> None))"

definition draft_matches ::
  "(json \<Rightarrow> string) \<Rightarrow> bool \<Rightarrow> dict list \<Rightarrow> dict \<Rightarrow> bool" where
  "draft_matches rp include_result turns draft =
     (case draft_and_committed rp include_result turns draft of
        None \<Rightarrow> False
      | Some (ds, cs) \<Rightarrow> turns_eq ds cs)"

definition draft_is_slice ::
  "(json \<Rightarrow> string) \<Rightarrow> bool \<Rightarrow> dict list \<Rightarrow> dict \<Rightarrow> bool" where
  "draft_is_slice rp include_result turns draft =
     (case draft_and_committed rp include_result turns draft of
        None \<Rightarrow> False
      | Some (ds, cs) \<Rightarrow>
          ds \<noteq> [] \<and> length ds < length cs \<and>
          list_ex (\<lambda>i. turns_eq (take (length ds) (drop i cs)) ds) [0..<length cs - length ds + 1])"

fun some_values :: "'a option list \<Rightarrow> 'a list" where
  "some_values [] = []"
| "some_values (None # xs) = some_values xs"
| "some_values (Some x # xs) = x # some_values xs"

definition question_signatures :: "json list \<Rightarrow> signature list" where
  "question_signatures blocks =
     some_values (map (\<lambda>j. case j of JObj b \<Rightarrow> ask_signature b | _ \<Rightarrow> None)
                    (filter is_ask_user_question_block blocks))"

definition hide_stale_draft_turn :: "(json \<Rightarrow> string) \<Rightarrow> dict list \<Rightarrow> dict option \<Rightarrow> dict option" where
  "hide_stale_draft_turn rp turns draft =
     (case draft of
        None \<Rightarrow> None
      | Some d \<Rightarrow>
          if draft_matches rp True turns d \<or> draft_is_slice rp True turns d \<or>
             draft_matches rp False turns d \<or> draft_is_slice rp False turns d then None
          else case dict_ref d ''content'' of
                 JArr blocks \<Rightarrow>
                   if blocks = [] \<or> \<not> list_all is_ask_user_question_block blocks \<or> turns = [] then Some d
                   else (case dict_ref (last turns) ''content'' of
                           JArr shown_blocks \<Rightarrow>
                             let known = question_signatures shown_blocks; mine = question_signatures blocks
                             in if known = [] \<or> mine = [] then Some d
                                else if list_all (\<lambda>s. list_ex (same_signature s) known) mine then None
                                else Some d
                         | _ \<Rightarrow> Some d)
               | _ \<Rightarrow> Some d)"

section \<open>The draft\<close>

record draft =
  dr_blocks :: "(int \<times> dict) list"
  dr_input :: "(int \<times> string) list"
  dr_session :: json
  dr_parent :: json

definition draft_clear :: draft where
  "draft_clear = \<lparr>dr_blocks = [], dr_input = [], dr_session = JNull, dr_parent = JNull\<rparr>"

definition default_index :: "draft \<Rightarrow> int" where
  "default_index dr = (if dr_blocks dr = [] then 0 else Max (set (map fst (dr_blocks dr))))"

definition resolve_index :: "draft \<Rightarrow> dict \<Rightarrow> int" where
  "resolve_index dr event = coalesce (coerce_index (dict_ref event ''index'')) (default_index dr)"

definition ensure_block :: "draft \<Rightarrow> int \<Rightarrow> string \<Rightarrow> dict" where
  "ensure_block dr i ty =
     (case map_of (dr_blocks dr) i of
        Some b \<Rightarrow> b
      | None \<Rightarrow>
          if ty = ''tool_use''
          then [(''type'', JStr ''tool_use''), (''id'', JNull), (''name'', JStr []), (''input'', JObj [])]
          else if ty = ''thinking'' then [(''type'', JStr ''thinking''), (''thinking'', JStr [])]
          else [(''type'', JStr ''text''), (''text'', JStr [])])"

definition put_block :: "int \<Rightarrow> dict \<Rightarrow> draft \<Rightarrow> draft" where
  "put_block i b dr = dr\<lparr>dr_blocks := AList.update i b (dr_blocks dr)\<rparr>"

definition delta_payload :: "draft \<Rightarrow> string \<Rightarrow> int \<Rightarrow> string \<Rightarrow> string \<Rightarrow> dict" where
  "delta_payload dr delta_type i key chunk =
     [(''session_id'', dr_session dr), (''parent_tool_use_id'', dr_parent dr),
      (''event_type'', JStr ''content_block_delta''), (''delta_type'', JStr delta_type),
      (''block_index'', JInt i), (key, JStr chunk)]"

text \<open>A text or thinking chunk is appended to the field of its block.\<close>

definition append_chunk :: "(json \<Rightarrow> string) \<Rightarrow> string \<Rightarrow> string \<Rightarrow> dict \<Rightarrow> dict" where
  "append_chunk rp field chunk b =
     (let b1 = dict_put b ''type'' (JStr field)
      in dict_put b1 field (JStr (py_text rp (dict_or b1 field (JStr [])) @ chunk)))"

definition input_block :: "string \<Rightarrow> dict \<Rightarrow> dict" where
  "input_block text b =
     (let b1 = dict_put b ''type'' (JStr ''tool_use'');
          b2 = (if as_dict (dict_ref b1 ''input'') = None then dict_put b1 ''input'' (JObj []) else b1)
      in case json_parse text of Some (JObj d) \<Rightarrow> dict_put b2 ''input'' (JObj d) | _ \<Rightarrow> b2)"

definition input_so_far :: "draft \<Rightarrow> int \<Rightarrow> string" where
  "input_so_far dr i = coalesce (map_of (dr_input dr) i) []"

definition chunk_of :: "dict \<Rightarrow> string \<Rightarrow> string" where
  "chunk_of delta key = coalesce (as_str (dict_ref delta key)) []"

definition apply_delta :: "(json \<Rightarrow> string) \<Rightarrow> draft \<Rightarrow> int \<Rightarrow> dict \<Rightarrow> draft \<times> dict option" where
  "apply_delta rp dr i delta =
     (if dict_ref delta ''type'' = JStr ''text_delta'' then
        let chunk = chunk_of delta ''text'' in
        if chunk = [] then (dr, None)
        else (put_block i (append_chunk rp ''text'' chunk (ensure_block dr i ''text'')) dr,
              Some (delta_payload dr ''text_delta'' i ''text'' chunk))
      else if dict_ref delta ''type'' = JStr ''input_json_delta'' then
        let chunk = chunk_of delta ''partial_json'' in
        if chunk = [] then (dr, None)
        else let updated = input_so_far dr i @ chunk in
             (put_block i (input_block updated (ensure_block dr i ''tool_use''))
                (dr\<lparr>dr_input := AList.update i updated (dr_input dr)\<rparr>),
              Some (delta_payload dr ''input_json_delta'' i ''partial_json'' chunk))
      else if dict_ref delta ''type'' = JStr ''thinking_delta'' then
        let chunk = chunk_of delta ''thinking'' in
        if chunk = [] then (dr, None)
        else (put_block i (append_chunk rp ''thinking'' chunk (ensure_block dr i ''thinking'')) dr,
              Some (delta_payload dr ''thinking_delta'' i ''thinking'' chunk))
      else (dr, None))"

definition or_else :: "json \<Rightarrow> json \<Rightarrow> json" where
  "or_else v w = (if truthy v then v else w)"

definition apply_stream_event :: "(json \<Rightarrow> string) \<Rightarrow> draft \<Rightarrow> dict \<Rightarrow> draft \<times> dict option" where
  "apply_stream_event rp dr msg =
     (case dict_ref msg ''event'' of
        JObj event \<Rightarrow>
          let dr1 = dr\<lparr>dr_session := or_else (dict_ref msg ''session_id'') (dr_session dr),
                       dr_parent := or_else (dict_ref msg ''parent_tool_use_id'') (dr_parent dr)\<rparr>
          in if has_type ''message_start'' event
             then (draft_clear\<lparr>dr_session := dict_ref msg ''session_id'', dr_parent := dict_ref msg ''parent_tool_use_id''\<rparr>, None)
             else if has_type ''content_block_start'' event
             then (let block = (case dict_ref event ''content_block'' of
                                  JObj b \<Rightarrow> JObj b | _ \<Rightarrow> JObj [(''type'', JStr ''text''), (''text'', JStr [])])
                   in (put_block (resolve_index dr1 event) (normalize_block rp block) dr1, None))
             else if has_type ''content_block_delta'' event
             then (case dict_ref event ''delta'' of
                     JObj delta \<Rightarrow> apply_delta rp dr1 (resolve_index dr1 event) delta
                   | _ \<Rightarrow> (dr1, None))
             else (dr1, None)
      | _ \<Rightarrow> (dr, None))"

definition ordered_blocks :: "draft \<Rightarrow> dict list" where
  "ordered_blocks dr = map snd (sort_key fst (dr_blocks dr))"

definition visible_block :: "(json \<Rightarrow> string) \<Rightarrow> dict \<Rightarrow> bool" where
  "visible_block rp b =
     (has_type ''text'' b \<and> strip (py_text rp (dict_or b ''text'' (JStr []))) \<noteq> [] \<or>
      has_type ''thinking'' b \<and> strip (py_text rp (dict_or b ''thinking'' (JStr []))) \<noteq> [] \<or>
      has_type ''tool_use'' b)"

definition build_turn :: "(json \<Rightarrow> string) \<Rightarrow> draft \<Rightarrow> dict option" where
  "build_turn rp dr =
     (if \<not> list_ex (visible_block rp) (ordered_blocks dr) then None
      else Some (normalize_turn rp
             [(''type'', JStr ''assistant''), (''content'', blocks_value (ordered_blocks dr)),
              (''uuid'', JStr (''draft-'' @ py_text rp (or_else (dr_session dr) (JStr ''unknown''))))]))"

section \<open>The projector\<close>

record projector =
  pj_messages :: "dict list"
  pj_turns :: "dict list"
  pj_draft :: draft
  pj_last_result :: "dict option"

record projection =
  up_patch :: "(turn_patch \<times> dict option) option"
  up_delta :: "dict option"
  up_question :: "dict option"

definition no_projection :: projection where
  "no_projection = \<lparr>up_patch = None, up_delta = None, up_question = None\<rparr>"

definition groupable :: "dict \<Rightarrow> bool" where
  "groupable m = list_ex (\<lambda>ty. has_type ty m) groupable_types"

definition last_such :: "('a \<Rightarrow> bool) \<Rightarrow> 'a list \<Rightarrow> 'a option" where
  "last_such p xs = List.find p (rev xs)"

text \<open>A type that is a list or a dictionary cannot be looked up in the set of types.\<close>

definition batch_init :: "(json \<Rightarrow> string) \<Rightarrow> dict list \<Rightarrow> py_error + projector" where
  "batch_init rp msgs =
     (if \<not> list_all (\<lambda>m. hashable (dict_ref m ''type'')) msgs then Inl Type_Error
      else bind_err (group_messages_into_turns rp (filter groupable msgs)) (\<lambda>ts.
             Inr \<lparr>pj_messages = filter groupable msgs, pj_turns = ts, pj_draft = draft_clear,
                  pj_last_result = last_such (has_type ''result'') msgs\<rparr>))"

definition visible_draft :: "(json \<Rightarrow> string) \<Rightarrow> projector \<Rightarrow> dict option" where
  "visible_draft rp pj = hide_stale_draft_turn rp (pj_turns pj) (build_turn rp (pj_draft pj))"

definition draft_value :: "dict option \<Rightarrow> json" where
  "draft_value d = (case d of None \<Rightarrow> JNull | Some t \<Rightarrow> JObj t)"

text \<open>
  The message joins the list before it is grouped: when the grouping raises, it stays there and the
  turns stay as they were.
\<close>

definition apply_message :: "(json \<Rightarrow> string) \<Rightarrow> projector \<Rightarrow> dict \<Rightarrow> projector \<times> (py_error + projection)" where
  "apply_message rp pj m =
     (if \<not> hashable (dict_ref m ''type'') then (pj, Inl Type_Error)
      else if groupable m then
        let pj1 = pj\<lparr>pj_messages := pj_messages pj @ [m]\<rparr> in
        (case group_messages_into_turns rp (pj_messages pj1) of
           Inl e \<Rightarrow> (pj1, Inl e)
         | Inr ts \<Rightarrow>
             let pj2 = pj1\<lparr>pj_turns := ts,
                           pj_draft := (if has_type ''assistant'' m \<or> has_type ''result'' m then draft_clear else pj_draft pj1),
                           pj_last_result := (if has_type ''result'' m then Some m else pj_last_result pj1)\<rparr>
             in (pj2, Inr (no_projection\<lparr>up_patch :=
                  map_option (\<lambda>p. (p, visible_draft rp pj2)) (build_turn_patch (pj_turns pj) ts)\<rparr>)))
      else if has_type ''stream_event'' m then
        let (dr, delta) = apply_stream_event rp (pj_draft pj) m; pj1 = pj\<lparr>pj_draft := dr\<rparr> in
        (pj1, Inr (no_projection\<lparr>up_delta :=
           map_option (\<lambda>d. dict_put d ''draft_turn'' (draft_value (visible_draft rp pj1))) delta\<rparr>))
      else if has_type ''ask_user_question'' m then (pj, Inr (no_projection\<lparr>up_question := Some m\<rparr>))
      else (pj, Inr no_projection))"

definition build_snapshot :: "(json \<Rightarrow> string) \<Rightarrow> projector \<Rightarrow> string \<Rightarrow> string \<Rightarrow> dict list option \<Rightarrow> dict" where
  "build_snapshot rp pj session status pending =
     [(''session_id'', JStr session), (''status'', JStr status), (''turns'', blocks_value (pj_turns pj)),
      (''draft_turn'', draft_value (visible_draft rp pj)),
      (''pending_questions'', blocks_value (coalesce pending []))]"

end
