(* ===== verification/ProjectorProps.thy ===== *)
theory ProjectorProps
  imports StreamProjector
begin

text \<open>
  Properties of the projector: a client that applies the patches shows the server's turns, applying
  messages one by one ends where loading them all starts, a message that cannot be grouped stays in
  the way of all later ones, and the draft holds exactly the chunks that were streamed to it.
\<close>

section \<open>The client\<close>

definition confirmed :: "dict list \<Rightarrow> bool" where
  "confirmed ts = list_all (\<lambda>t. \<not> optimistic t) ts"

definition client_step :: "(json \<Rightarrow> string) \<Rightarrow> projector \<times> dict list \<Rightarrow> dict \<Rightarrow> projector \<times> dict list" where
  "client_step rp s m =
     (let (pj, r) = apply_message rp (fst s) m
      in (pj, case r of Inr u \<Rightarrow> apply_turn_patch (snd s) (map_option fst (up_patch u)) | Inl _ \<Rightarrow> snd s))"

definition client_run :: "(json \<Rightarrow> string) \<Rightarrow> projector \<Rightarrow> dict list \<Rightarrow> dict list \<Rightarrow> projector \<times> dict list" where
  "client_run rp pj client msgs = foldl (client_step rp) (pj, client) msgs"

definition server_message :: "dict \<Rightarrow> bool" where
  "server_message m = (wf_message m \<and> \<not> optimistic m)"

definition uuids_confirmed :: "group_state \<Rightarrow> bool" where
  "uuids_confirmed st = (\<forall>t\<in>set (closed_turns st). case t_uuid t of JStr u \<Rightarrow> \<not> prefix ''optimistic-'' u | _ \<Rightarrow> True)"

lemma uuids_confirmed_step:
  assumes "uuids_confirmed st" and "group_step rp st m = Inr st'" and "\<not> optimistic m"
  shows "uuids_confirmed st'"
proof -
  from assms(2) have "turn_step m st st'" by (rule group_step_shape)
  then show ?thesis
  proof cases
    case (edited t t')
    with assms(1) same_head_fields [OF edited(4)] show ?thesis by (auto simp: uuids_confirmed_def closed_turns_def)
  qed (use assms(1,3) in \<open>auto simp: uuids_confirmed_def closed_turns_def optimistic_def split: json.splits\<close>)
qed

lemma grouped_confirmed:
  assumes "group_messages_into_turns rp msgs = Inr ts" and "list_all server_message msgs"
  shows "confirmed ts"
proof -
  from assms(1) obtain st where st: "fold_err (group_step rp) group_init msgs = Inr st" "ts = map (shown rp) (closed_turns st)"
    by (rule group_messagesE)
  from st(1) have "uuids_confirmed st"
  proof (rule fold_err_invariant)
    show "uuids_confirmed group_init" by (simp add: uuids_confirmed_def group_init_def closed_turns_def)
  qed (use assms(2) in \<open>auto intro: uuids_confirmed_step simp: list_all_iff server_message_def\<close>)
  then show ?thesis
    by (auto simp: confirmed_def list_all_iff st(2) uuids_confirmed_def optimistic_def shown_ref split: json.splits)
qed

lemma server_messages_wf: "list_all server_message msgs \<Longrightarrow> list_all wf_message msgs"
  by (simp add: list_all_iff server_message_def)

definition following :: "projector \<times> dict list \<Rightarrow> bool" where
  "following s =
     (list_all server_message (pj_messages (fst s)) \<and> turns_wf (pj_turns (fst s)) \<and>
      turns_eq (snd s) (pj_turns (fst s)) \<and> confirmed (snd s))"

lemma confirmed_patch:
  assumes "confirmed client" and "confirmed now"
  shows "confirmed (apply_turn_patch client (build_turn_patch prev now))"
proof -
  have "confirmed (butlast client)" using assms(1) by (auto simp: confirmed_def list_all_iff dest: in_set_butlastD)
  moreover have "now \<noteq> [] \<Longrightarrow> \<not> optimistic (last now)" using assms(2) by (simp add: confirmed_def list_all_iff)
  ultimately show ?thesis
    using assms by (cases "now = []") (simp_all add: build_turn_patch_def confirmed_def del: py_eq.simps)
qed

lemma following_step:
  assumes "following (pj, client)" and "server_message m"
  shows "following (client_step rp (pj, client) m)"
proof -
  note f = assms(1) [unfolded following_def fst_conv snd_conv]
  show ?thesis
  proof (cases "hashable (dict_ref m ''type'') \<and> groupable m")
    case False
    with f show ?thesis
      by (auto simp: client_step_def apply_message_def following_def no_projection_def Let_def split: prod.split)
  next
    case True
    show ?thesis
    proof (cases "group_messages_into_turns rp (pj_messages pj @ [m])")
      case (Inl e)
      with True f assms(2) show ?thesis by (simp add: client_step_def apply_message_def following_def Let_def)
    next
      case (Inr ts)
      have msgs: "list_all server_message (pj_messages pj @ [m])" using f assms(2) by simp
      have wf: "turns_wf ts" by (rule grouped_wf [OF Inr server_messages_wf [OF msgs]])
      have conf: "confirmed ts" by (rule grouped_confirmed [OF Inr msgs])
      have sync: "in_sync client (pj_turns pj)"
        using f by (auto simp: in_sync_def confirmed_def list_all_iff)
      let ?p = "build_turn_patch (pj_turns pj) ts"
      have "client_step rp (pj, client) m =
          (pj\<lparr>pj_messages := pj_messages pj @ [m], pj_turns := ts,
              pj_draft := (if has_type ''assistant'' m \<or> has_type ''result'' m then draft_clear else pj_draft pj),
              pj_last_result := (if has_type ''result'' m then Some m else pj_last_result pj)\<rparr>,
           apply_turn_patch client ?p)"
        using True Inr by (simp add: client_step_def apply_message_def no_projection_def Let_def option.map_comp o_def option.map_ident)
      with msgs wf conf f patched_client [OF _ wf sync] confirmed_patch [of client ts "pj_turns pj"] show ?thesis
        by (simp add: following_def)
    qed
  qed
qed

lemma following_run: "following (pj, client) \<Longrightarrow> list_all server_message msgs \<Longrightarrow> following (client_run rp pj client msgs)"
  unfolding client_run_def
proof (induction msgs arbitrary: pj client)
  case (Cons m ms)
  obtain pj' client' where s: "client_step rp (pj, client) m = (pj', client')" by fastforce
  with following_step [OF Cons.prems(1), of m rp] Cons.prems(2) have "following (pj', client')" by simp
  from Cons.IH [OF this] Cons.prems(2) s show ?case by simp
qed simp

text \<open>C17. A client that starts from a snapshot and applies every patch shows the server's turns after any
  further messages, raising ones included.
\<close>

theorem client_shows_server_turns:
  assumes "batch_init rp loaded = Inr pj" and "list_all server_message (loaded @ live)"
    and "client_run rp pj (pj_turns pj) live = (pj', client)"
  shows "turns_eq client (pj_turns pj')"
proof -
  from assms(1) obtain ts where ts: "group_messages_into_turns rp (filter groupable loaded) = Inr ts"
      "pj_turns pj = ts" "pj_messages pj = filter groupable loaded"
    by (auto simp: batch_init_def bind_err_Inr_iff split: if_splits)
  have m: "list_all server_message (filter groupable loaded)" using assms(2) by (simp add: list_all_iff)
  have wf: "turns_wf ts" by (rule grouped_wf [OF ts(1) server_messages_wf [OF m]])
  have "following (pj, pj_turns pj)"
    using m wf turns_eq_refl [OF wf] grouped_confirmed [OF ts(1) m] by (simp add: following_def ts(2,3))
  from following_run [OF this, of live rp] assms(2,3) show ?thesis by (simp add: following_def)
qed

section \<open>Live and reloaded\<close>

definition live_step :: "(json \<Rightarrow> string) \<Rightarrow> projector \<Rightarrow> dict \<Rightarrow> py_error + projector" where
  "live_step rp pj m = (case apply_message rp pj m of (pj', Inr u) \<Rightarrow> Inr pj' | (_, Inl e) \<Rightarrow> Inl e)"

definition empty_projector :: projector where
  "empty_projector = \<lparr>pj_messages = [], pj_turns = [], pj_draft = draft_clear, pj_last_result = None\<rparr>"

lemma batch_empty: "batch_init rp [] = Inr empty_projector"
  by (simp add: batch_init_def group_messages_into_turns_def group_init_def closed_turns_def
      resolve_stale_task_blocks_def last_such_def empty_projector_def)

text \<open>Two projectors that differ in their drafts only.\<close>

definition same_history :: "projector \<Rightarrow> projector \<Rightarrow> bool" where
  "same_history p q = (pj_messages p = pj_messages q \<and> pj_turns p = pj_turns q \<and> pj_last_result p = pj_last_result q)"

lemma live_step_batch:
  assumes "batch_init rp ms = Inr p" and "same_history p q" and "live_step rp q m = Inr q'"
  shows "\<exists>p'. batch_init rp (ms @ [m]) = Inr p' \<and> same_history p' q'"
proof -
  from assms(1) obtain ts where ts: "list_all (\<lambda>m. hashable (dict_ref m ''type'')) ms"
      "group_messages_into_turns rp (filter groupable ms) = Inr ts"
      "p = \<lparr>pj_messages = filter groupable ms, pj_turns = ts, pj_draft = draft_clear, pj_last_result = last_such (has_type ''result'') ms\<rparr>"
    by (auto simp: batch_init_def bind_err_Inr_iff split: if_splits)
  from assms(3) have h: "hashable (dict_ref m ''type'')" by (auto simp: live_step_def apply_message_def split: if_splits)
  have last: "last_such (has_type ''result'') (ms @ [m]) =
      (if has_type ''result'' m then Some m else last_such (has_type ''result'') ms)"
    by (simp add: last_such_def)
  show ?thesis
  proof (cases "groupable m")
    case True
    with assms(3) h obtain us where "group_messages_into_turns rp (pj_messages q @ [m]) = Inr us" "pj_messages q' = pj_messages q @ [m]"
        "pj_turns q' = us" "pj_last_result q' = (if has_type ''result'' m then Some m else pj_last_result q)"
      by (auto simp: live_step_def apply_message_def Let_def split: sum.splits)
    with ts h last assms(2) True show ?thesis by (auto simp: batch_init_def same_history_def)
  next
    case False
    then have "\<not> has_type ''result'' m" by (auto simp: groupable_def groupable_types_def)
    moreover from False assms(3) h have "same_history q q'"
      by (auto simp: live_step_def apply_message_def same_history_def Let_def split: prod.splits if_splits)
    ultimately show ?thesis using ts h last assms(2) False by (auto simp: batch_init_def same_history_def)
  qed
qed

text \<open>Applying the messages of a conversation one by one to a fresh projector gives the messages, the turns
  and the last result that a projector loaded with all of them starts with.
\<close>

theorem live_equals_reloaded:
  assumes "fold_err (live_step rp) empty_projector ms = Inr q"
  shows "\<exists>p. batch_init rp ms = Inr p \<and> same_history p q"
  using assms
proof (induction ms arbitrary: q rule: rev_induct)
  case Nil
  then show ?case by (simp add: batch_empty same_history_def)
next
  case (snoc m ms)
  then obtain r where r: "fold_err (live_step rp) empty_projector ms = Inr r" "live_step rp r m = Inr q"
    by (auto simp: fold_err_append bind_err_Inr_iff)
  from snoc.IH [OF r(1)] live_step_batch r(2) show ?case by blast
qed

section \<open>A message that cannot be grouped\<close>

definition ungroupable :: "(json \<Rightarrow> string) \<Rightarrow> dict list \<Rightarrow> bool" where
  "ungroupable rp ms = (\<exists>e. fold_err (group_step rp) group_init ms = Inl e)"

lemma ungroupable_append: "ungroupable rp ms \<Longrightarrow> ungroupable rp (ms @ more_msgs)"
  by (auto simp: ungroupable_def fold_err_append)

lemma ungroupable_raises: "ungroupable rp ms \<Longrightarrow> \<exists>e. group_messages_into_turns rp ms = Inl e"
  by (auto simp: ungroupable_def group_messages_into_turns_def)

lemma apply_message_messages:
  "pj_messages (fst (apply_message rp pj m)) = pj_messages pj \<or>
   pj_messages (fst (apply_message rp pj m)) = pj_messages pj @ [m]"
  by (auto simp: apply_message_def Let_def split: sum.split prod.split)

text \<open>A message whose grouping raised stays in the list: every later message of a conversation that
  belongs to the turns raises too, and the turns no longer change.
\<close>

theorem poisoned_projector:
  assumes "ungroupable rp (pj_messages pj @ [bad])" and "groupable bad"
    and "pj1 = fst (apply_message rp pj bad)" and "pj2 = foldl (\<lambda>p x. fst (apply_message rp p x)) pj1 later"
    and "groupable m"
  shows "(\<exists>e. snd (apply_message rp pj2 m) = Inl e) \<and> pj_turns pj2 = pj_turns pj"
proof -
  have h: "hashable (dict_ref x ''type'')" if "groupable x" for x
    using that by (auto simp: groupable_def groupable_types_def has_type_def)
  have stuck: "ungroupable rp (pj_messages (fst (apply_message rp p x))) \<and> pj_turns (fst (apply_message rp p x)) = pj_turns p"
    if p: "ungroupable rp (pj_messages p)" for p x
  proof -
    from ungroupable_append [OF p] have "\<exists>e. group_messages_into_turns rp (pj_messages p @ [x]) = Inl e"
      by (rule ungroupable_raises)
    then have "pj_turns (fst (apply_message rp p x)) = pj_turns p"
      by (auto simp: apply_message_def Let_def split: prod.split)
    with apply_message_messages [of rp p x] p ungroupable_append [OF p] show ?thesis by auto
  qed
  obtain e where "group_messages_into_turns rp (pj_messages pj @ [bad]) = Inl e"
    using ungroupable_raises [OF assms(1)] by blast
  with assms(2) h have one: "pj1 = pj\<lparr>pj_messages := pj_messages pj @ [bad]\<rparr>"
    by (simp add: assms(3) apply_message_def Let_def)
  have "ungroupable rp (pj_messages (foldl (\<lambda>p x. fst (apply_message rp p x)) p later)) \<and>
      pj_turns (foldl (\<lambda>p x. fst (apply_message rp p x)) p later) = pj_turns p"
    if "ungroupable rp (pj_messages p)" for p
    using that
  proof (induction later arbitrary: p)
    case (Cons x xs)
    from stuck [OF Cons.prems, of x] Cons.IH [of "fst (apply_message rp p x)"] show ?case by simp
  qed simp
  from this [of pj1] assms(1) one have two: "ungroupable rp (pj_messages pj2)" "pj_turns pj2 = pj_turns pj"
    by (simp_all add: assms(4))
  obtain e where "group_messages_into_turns rp (pj_messages pj2 @ [m]) = Inl e"
    using ungroupable_raises [OF ungroupable_append [OF two(1)]] by blast
  with h [OF assms(5)] assms(5) two(2) show ?thesis by (simp add: apply_message_def Let_def)
qed

section \<open>What was streamed\<close>

definition draft_run :: "(json \<Rightarrow> string) \<Rightarrow> draft \<Rightarrow> dict list \<Rightarrow> draft" where
  "draft_run rp dr ms = foldl (\<lambda>d m. fst (apply_stream_event rp d m)) dr ms"

definition event_of :: "dict \<Rightarrow> dict" where
  "event_of m = coalesce (as_dict (dict_ref m ''event'')) []"

text \<open>A delta that names its block, the block and the delta.\<close>

definition streaming :: "dict \<Rightarrow> bool" where
  "streaming m =
     (has_type ''content_block_delta'' (event_of m) \<and> coerce_index (dict_ref (event_of m) ''index'') \<noteq> None \<and>
      as_dict (dict_ref (event_of m) ''delta'') \<noteq> None)"

definition delta_index :: "dict \<Rightarrow> int" where
  "delta_index m = coalesce (coerce_index (dict_ref (event_of m) ''index'')) 0"

definition delta_of :: "dict \<Rightarrow> dict" where
  "delta_of m = coalesce (as_dict (dict_ref (event_of m) ''delta'')) []"

definition streamed :: "string \<Rightarrow> string \<Rightarrow> int \<Rightarrow> dict \<Rightarrow> string" where
  "streamed delta_type key i m =
     (if delta_index m = i \<and> has_type delta_type (delta_of m) then chunk_of (delta_of m) key else [])"

definition streamed_all :: "string \<Rightarrow> string \<Rightarrow> int \<Rightarrow> dict list \<Rightarrow> string" where
  "streamed_all delta_type key i ms = concat (map (streamed delta_type key i) ms)"

lemma streaming_event:
  assumes "streaming m"
  obtains dr1 where "fst (apply_stream_event rp dr m) = fst (apply_delta rp dr1 (delta_index m) (delta_of m))"
    "dr_blocks dr1 = dr_blocks dr" "dr_input dr1 = dr_input dr"
proof -
  let ?dr1 = "dr\<lparr>dr_session := or_else (dict_ref m ''session_id'') (dr_session dr),
                 dr_parent := or_else (dict_ref m ''parent_tool_use_id'') (dr_parent dr)\<rparr>"
  from assms obtain e where e: "dict_ref m ''event'' = JObj e"
    by (cases "dict_ref m ''event''") (auto simp: streaming_def event_of_def has_type_def dict_ref_def dict_get_def)
  with assms have "fst (apply_stream_event rp dr m) = fst (apply_delta rp ?dr1 (delta_index m) (delta_of m))"
    by (auto simp: streaming_def event_of_def apply_stream_event_def Let_def has_type_def delta_of_def delta_index_def
        resolve_index_def as_simps_iff)
  then show thesis by (rule that) simp_all
qed

lemma map_of_put_block [simp]:
  "map_of (dr_blocks (put_block i b dr)) j = (if j = i then Some b else map_of (dr_blocks dr) j)"
  by (simp add: put_block_def update_conv')

lemma put_block_input [simp]: "dr_input (put_block i b dr) = dr_input dr"
  by (simp add: put_block_def)

definition text_field :: "dict \<Rightarrow> string \<Rightarrow> bool" where
  "text_field b t = (dict_or b ''text'' (JStr []) = JStr t)"

lemma text_field_put: "k \<noteq> ''text'' \<Longrightarrow> text_field (dict_put b k v) t = text_field b t"
  by (simp add: text_field_def dict_or_simps)

lemma text_field_append: "text_field b t \<Longrightarrow> text_field (append_chunk rp ''text'' c b) (t @ c)"
  by (simp add: text_field_def append_chunk_def Let_def dict_or_simps py_text_def)

lemma text_field_other:
  "text_field (append_chunk rp ''thinking'' c b) t = text_field b t" "text_field (input_block u b) t = text_field b t"
  by (simp_all add: append_chunk_def input_block_def Let_def text_field_put split: option.split json.split)

lemma delta_text:
  assumes "map_of (dr_blocks dr) i = Some b" and "text_field b t"
  shows "\<exists>b'. map_of (dr_blocks (fst (apply_delta rp dr j d))) i = Some b' \<and>
              text_field b' (t @ (if j = i \<and> has_type ''text_delta'' d then chunk_of d ''text'' else []))"
  using assms
  by (auto simp: apply_delta_def Let_def has_type_def ensure_block_def text_field_append text_field_other)

text \<open>The text of a block of the draft is the text it had, followed by the text chunks streamed to it
  in order, whatever is streamed to other blocks or of other kinds in between.
\<close>

theorem streamed_text_complete:
  assumes "list_all streaming ms" and "map_of (dr_blocks dr) i = Some b" and "dict_or b ''text'' (JStr []) = JStr t"
  shows "\<exists>b'. map_of (dr_blocks (draft_run rp dr ms)) i = Some b' \<and>
              dict_or b' ''text'' (JStr []) = JStr (t @ streamed_all ''text_delta'' ''text'' i ms)"
proof -
  from assms(3) have "text_field b t" by (simp add: text_field_def)
  with assms(1,2) have "\<exists>b'. map_of (dr_blocks (draft_run rp dr ms)) i = Some b' \<and>
      text_field b' (t @ streamed_all ''text_delta'' ''text'' i ms)"
  proof (induction ms arbitrary: dr b t)
    case Nil
    then show ?case by (simp add: draft_run_def streamed_all_def)
  next
    case (Cons m ms)
    obtain dr1 where dr1: "fst (apply_stream_event rp dr m) = fst (apply_delta rp dr1 (delta_index m) (delta_of m))"
        "dr_blocks dr1 = dr_blocks dr"
      using streaming_event [of m rp dr] Cons.prems(1) by auto
    from delta_text [of dr1 i b t rp "delta_index m" "delta_of m"] dr1 Cons.prems(2,3)
    obtain b1 where b1: "map_of (dr_blocks (fst (apply_stream_event rp dr m))) i = Some b1"
        "text_field b1 (t @ streamed ''text_delta'' ''text'' i m)"
      by (auto simp: streamed_def)
    from Cons.IH [OF _ b1] Cons.prems(1) show ?case by (simp add: draft_run_def streamed_all_def)
  qed
  then show ?thesis by (simp add: text_field_def)
qed

lemma delta_input:
  "input_so_far (fst (apply_delta rp dr j d)) i =
     input_so_far dr i @ (if j = i \<and> has_type ''input_json_delta'' d then chunk_of d ''partial_json'' else [])"
  by (auto simp: apply_delta_def Let_def has_type_def input_so_far_def update_conv')

lemma input_so_far_run:
  "list_all streaming ms \<Longrightarrow>
   input_so_far (draft_run rp dr ms) i = input_so_far dr i @ streamed_all ''input_json_delta'' ''partial_json'' i ms"
proof (induction ms arbitrary: dr)
  case Nil
  then show ?case by (simp add: draft_run_def streamed_all_def)
next
  case (Cons m ms)
  obtain dr1 where "fst (apply_stream_event rp dr m) = fst (apply_delta rp dr1 (delta_index m) (delta_of m))"
      "dr_input dr1 = dr_input dr"
    using streaming_event [of m rp dr] Cons.prems by auto
  then have "input_so_far (fst (apply_stream_event rp dr m)) i =
      input_so_far dr i @ streamed ''input_json_delta'' ''partial_json'' i m"
    by (simp add: delta_input streamed_def) (simp add: input_so_far_def)
  with Cons show ?case by (simp add: draft_run_def streamed_all_def)
qed

lemma input_block_parsed: "json_parse u = Some (JObj d) \<Longrightarrow> dict_ref (input_block u b) ''input'' = JObj d"
  by (simp add: input_block_def Let_def dict_ref_put)

lemma delta_input_kept:
  assumes "map_of (dr_blocks dr) i = Some b" and "dict_ref b ''input'' = v"
    and "\<not> (j = i \<and> has_type ''input_json_delta'' d \<and> chunk_of d ''partial_json'' \<noteq> [])"
  shows "\<exists>b'. map_of (dr_blocks (fst (apply_delta rp dr j d))) i = Some b' \<and> dict_ref b' ''input'' = v"
  using assms by (auto simp: apply_delta_def Let_def has_type_def ensure_block_def append_chunk_def dict_ref_put)

lemma delta_input_set:
  assumes "has_type ''input_json_delta'' d" and "chunk_of d ''partial_json'' \<noteq> []"
    and "json_parse (input_so_far dr i @ chunk_of d ''partial_json'') = Some (JObj v)"
  shows "\<exists>b'. map_of (dr_blocks (fst (apply_delta rp dr i d))) i = Some b' \<and> dict_ref b' ''input'' = JObj v"
  using assms by (simp add: apply_delta_def Let_def has_type_def input_block_parsed)

text \<open>However the JSON of a tool's input is cut into chunks, once all of it has arrived the tool use of
  the draft has the parsed object as its input.
\<close>

theorem streamed_input_parsed:
  assumes "list_all streaming ms" and "streamed_all ''input_json_delta'' ''partial_json'' i ms \<noteq> []"
    and "json_parse (input_so_far dr i @ streamed_all ''input_json_delta'' ''partial_json'' i ms) = Some (JObj v)"
  shows "\<exists>b. map_of (dr_blocks (draft_run rp dr ms)) i = Some b \<and> dict_ref b ''input'' = JObj v"
  using assms
proof (induction ms rule: rev_induct)
  case Nil
  then show ?case by (simp add: streamed_all_def)
next
  case (snoc m ms)
  let ?d = "draft_run rp dr ms" and ?all = "streamed_all ''input_json_delta'' ''partial_json'' i ms"
  have run: "draft_run rp dr (ms @ [m]) = fst (apply_stream_event rp ?d m)" by (simp add: draft_run_def)
  have all: "streamed_all ''input_json_delta'' ''partial_json'' i (ms @ [m]) = ?all @ streamed ''input_json_delta'' ''partial_json'' i m"
    by (simp add: streamed_all_def)
  obtain dr1 where dr1: "fst (apply_stream_event rp ?d m) = fst (apply_delta rp dr1 (delta_index m) (delta_of m))"
      "dr_blocks dr1 = dr_blocks ?d" "dr_input dr1 = dr_input ?d"
    using streaming_event [of m rp ?d] snoc.prems(1) by auto
  show ?case
  proof (cases "delta_index m = i \<and> has_type ''input_json_delta'' (delta_of m) \<and> chunk_of (delta_of m) ''partial_json'' \<noteq> []")
    case True
    have "input_so_far dr1 i = input_so_far dr i @ ?all"
      using input_so_far_run [of ms rp dr i] snoc.prems(1) dr1(3) by (simp add: input_so_far_def)
    with True snoc.prems(3) have "json_parse (input_so_far dr1 i @ chunk_of (delta_of m) ''partial_json'') = Some (JObj v)"
      by (simp add: all streamed_def)
    with delta_input_set [of "delta_of m" dr1 i v rp] True show ?thesis by (simp add: run dr1(1))
  next
    case False
    then have "streamed ''input_json_delta'' ''partial_json'' i m = []" by (auto simp: streamed_def)
    with snoc all obtain b where "map_of (dr_blocks ?d) i = Some b" "dict_ref b ''input'' = JObj v" by auto
    with delta_input_kept [of dr1 i b "JObj v" "delta_index m" "delta_of m" rp] False dr1 show ?thesis by (simp add: run)
  qed
qed

section \<open>Examples\<close>

definition delta_message :: "int \<Rightarrow> string \<Rightarrow> string \<Rightarrow> string \<Rightarrow> dict" where
  "delta_message i ty key chunk =
     [(''type'', JStr ''stream_event''),
      (''event'', JObj [(''type'', JStr ''content_block_delta''), (''index'', JInt i),
                        (''delta'', JObj [(''type'', JStr ty), (key, JStr chunk)])])]"

definition sample_draft :: draft where
  "sample_draft = draft_clear\<lparr>dr_blocks := [(0, text_block ''Now '')]\<rparr>"

definition sample_stream :: "dict list" where
  "sample_stream =
     [delta_message 0 ''text_delta'' ''text'' ''draw'',
      delta_message 1 ''input_json_delta'' ''partial_json'' [CHR ''{'', CHR 0x22, CHR ''n''],
      delta_message 0 ''text_delta'' ''text'' ''ing'',
      delta_message 1 ''input_json_delta'' ''partial_json'' [CHR 0x22, CHR '':'', CHR ''1'', CHR ''}'']]"

theorem streamed_text_complete_witness:
  "\<exists>b. map_of (dr_blocks (draft_run (\<lambda>_. []) sample_draft sample_stream)) 0 = Some b \<and>
       dict_or b ''text'' (JStr []) = JStr ''Now drawing''"
proof -
  have "list_all streaming sample_stream" "map_of (dr_blocks sample_draft) 0 = Some (text_block ''Now '')"
    "dict_or (text_block ''Now '') ''text'' (JStr []) = JStr ''Now ''"
    by code_simp+
  note done_text = streamed_text_complete [OF this, of "\<lambda>_. []"]
  have "''Now '' @ streamed_all ''text_delta'' ''text'' 0 sample_stream = ''Now drawing''" by code_simp
  with done_text show ?thesis by simp
qed

theorem streamed_input_parsed_witness:
  "\<exists>b. map_of (dr_blocks (draft_run (\<lambda>_. []) sample_draft sample_stream)) 1 = Some b \<and>
       dict_ref b ''input'' = JObj [(''n'', JInt 1)]"
proof (rule streamed_input_parsed)
  show "list_all streaming sample_stream" by code_simp
  show "streamed_all ''input_json_delta'' ''partial_json'' 1 sample_stream \<noteq> []" by code_simp
  show "json_parse (input_so_far sample_draft 1 @ streamed_all ''input_json_delta'' ''partial_json'' 1 sample_stream) =
      Some (JObj [(''n'', JInt 1)])"
    by code_simp
qed

definition loaded_projector :: projector where
  "loaded_projector =
     \<lparr>pj_messages = take 4 sample_history, pj_turns = take 2 sample_turns, pj_draft = draft_clear, pj_last_result = None\<rparr>"

lemma loaded_projector: "batch_init (\<lambda>_. []) (take 4 sample_history) = Inr loaded_projector"
  by code_simp

theorem client_shows_server_turns_witness:
  "turns_eq (snd (client_run (\<lambda>_. []) loaded_projector (pj_turns loaded_projector) (drop 4 sample_history))) sample_turns"
proof -
  obtain pj' client where run:
      "client_run (\<lambda>_. []) loaded_projector (pj_turns loaded_projector) (drop 4 sample_history) = (pj', client)"
    by fastforce
  have "list_all server_message (take 4 sample_history @ drop 4 sample_history)" by code_simp
  from client_shows_server_turns [OF loaded_projector this run] have "turns_eq client (pj_turns pj')" .
  moreover have "pj_turns (fst (client_run (\<lambda>_. []) loaded_projector (pj_turns loaded_projector) (drop 4 sample_history))) = sample_turns"
    by code_simp
  ultimately show ?thesis using run by simp
qed

theorem live_equals_reloaded_witness:
  "\<exists>q p. fold_err (live_step (\<lambda>_. [])) empty_projector sample_history = Inr q \<and>
         batch_init (\<lambda>_. []) sample_history = Inr p \<and> same_history p q"
proof -
  have "(case fold_err (live_step (\<lambda>_. [])) empty_projector sample_history of Inr q \<Rightarrow> True | Inl e \<Rightarrow> False)" by code_simp
  then obtain q where q: "fold_err (live_step (\<lambda>_. [])) empty_projector sample_history = Inr q" by (auto split: sum.splits)
  with live_equals_reloaded [OF q] show ?thesis by blast
qed

definition null_text_message :: dict where
  "null_text_message =
     [(''type'', JStr ''user''), (''content'', JArr [JObj [(''type'', JStr ''text''), (''text'', JNull)]])]"

theorem poisoned_projector_witness:
  "\<exists>e. snd (apply_message (\<lambda>_. []) (fst (apply_message (\<lambda>_. []) loaded_projector null_text_message)) (hd sample_history)) = Inl e"
proof -
  have "(case fold_err (group_step (\<lambda>_. [])) group_init (pj_messages loaded_projector @ [null_text_message]) of
           Inl e \<Rightarrow> True | Inr st \<Rightarrow> False)" by code_simp
  then have u: "ungroupable (\<lambda>_. []) (pj_messages loaded_projector @ [null_text_message])"
    by (auto simp: ungroupable_def split: sum.splits)
  have g: "groupable null_text_message" "groupable (hd sample_history)" by code_simp+
  from poisoned_projector [OF u g(1) refl refl g(2), of "[]"] show ?thesis by simp
qed

end
