(* ===== verification/Pricing.thy ===== *)
theory Pricing
  imports PyJson "HOL-Library.Product_Lexorder" "HOL-Library.List_Lexorder" "HOL-Library.Char_ord" "HOL-Library.Multiset"
begin

text \<open>
  What a call costs: the shapes of price tables (\<open>lib/pricing/types.py\<close>), the strategy of each
  shape (\<open>lib/pricing/strategies.py\<close>), the search for the table that applies
  (\<open>lib/pricing/lookup.py\<close>) and the calculator in front of them (\<open>lib/cost_calculator.py\<close>). A
  price is the rational its literal denotes and amounts are computed exactly. \<open>None\<close> is the exception
  of a missing key. The registry of providers is an argument.
\<close>

section \<open>Price tables\<close>

type_synonym 'v table = "(string \<times> 'v) list"

datatype dimensions = Resolution_audio | Resolution_only | Flat_rate

text \<open>Rates, default model and currency; the constructor is the \<open>kind\<close>.\<close>

datatype pricing =
    Per_token "rat table table" string string
  | Per_image_flat "rat table" string string
  | Per_image_by_resolution "rat table table" string string
  | Per_image_openai_token "rat table table" "((string \<times> string) \<times> rat) list table" string string
  | Per_second_matrix "((string \<times> bool option) \<times> rat) list table" string dimensions string
  | Per_second_tiered "((string \<times> bool) \<times> rat) list table" string string
  | Per_video_bucket "((string \<times> int) \<times> rat) list table" string string
  | Per_token_video "((string \<times> bool) \<times> rat) list table" string string
  | Per_character "rat table" string string
  | Vidu_delegate string

fun pricing_currency :: "pricing \<Rightarrow> string" where
  "pricing_currency (Per_token _ _ c) = c"
| "pricing_currency (Per_image_flat _ _ c) = c"
| "pricing_currency (Per_image_by_resolution _ _ c) = c"
| "pricing_currency (Per_image_openai_token _ _ _ c) = c"
| "pricing_currency (Per_second_matrix _ _ _ c) = c"
| "pricing_currency (Per_second_tiered _ _ c) = c"
| "pricing_currency (Per_video_bucket _ _ c) = c"
| "pricing_currency (Per_token_video _ _ c) = c"
| "pricing_currency (Per_character _ _ c) = c"
| "pricing_currency (Vidu_delegate c) = c"

definition characters_per_pricing_unit :: rat where
  "characters_per_pricing_unit = 10000"

record pricing_params =
  pp_call_type :: string
  pp_model :: "string option"
  pp_resolution :: "string option"
  pp_aspect_ratio :: "string option"
  pp_duration :: "int option"
  pp_audio :: bool
  pp_usage_tokens :: "int option"
  pp_service_tier :: string
  pp_input_tokens :: "int option"
  pp_output_tokens :: "int option"
  pp_quality :: "string option"
  pp_size :: "string option"
  pp_image_input :: "int option"
  pp_image_output :: "int option"
  pp_text_input :: "int option"
  pp_text_output :: "int option"
  pp_n :: int

section \<open>Strategies\<close>

text \<open>\<open>s or default\<close>: a missing and an empty text both give the default.\<close>

definition str_or :: "string option \<Rightarrow> string \<Rightarrow> string" where
  "str_or s d = (case s of Some (c # t) \<Rightarrow> c # t | _ \<Rightarrow> d)"

definition count_of :: "int option \<Rightarrow> rat" where
  "count_of n = of_int (coalesce n 0)"

definition get_or :: "('k \<times> 'v) list \<Rightarrow> 'k \<Rightarrow> 'v \<Rightarrow> 'v" where
  "get_or t k d = coalesce (map_of t k) d"

text \<open>\<open>rates.get(model, rates[default])\<close>: the default is looked up first, and raises when it is missing.\<close>

definition own_or_default :: "'v table \<Rightarrow> string \<Rightarrow> string \<Rightarrow> 'v option" where
  "own_or_default rates model default_model =
     (case map_of rates default_model of None \<Rightarrow> None | Some d \<Rightarrow> Some (get_or rates model d))"

definition million :: rat where
  "million = 1000000"

definition per_token :: "rat table table \<Rightarrow> string \<Rightarrow> pricing_params \<Rightarrow> rat option" where
  "per_token rates default_model p =
     (let r = get_or rates (str_or (pp_model p) default_model)
                (get_or rates default_model [(''input'', 0), (''output'', 0)])
      in case (map_of r ''input'', map_of r ''output'') of
           (Some i, Some o') \<Rightarrow> Some ((count_of (pp_input_tokens p) * i + count_of (pp_output_tokens p) * o') / million)
         | _ \<Rightarrow> None)"

definition per_image_flat :: "rat table \<Rightarrow> string \<Rightarrow> pricing_params \<Rightarrow> rat option" where
  "per_image_flat rates default_model p =
     map_option (\<lambda>r. r * of_int (pp_n p)) (own_or_default rates (str_or (pp_model p) default_model) default_model)"

definition per_image_by_resolution :: "rat table table \<Rightarrow> string \<Rightarrow> pricing_params \<Rightarrow> rat option" where
  "per_image_by_resolution rates default_model p =
     (case own_or_default rates (str_or (pp_model p) default_model) default_model of
        None \<Rightarrow> None
      | Some costs \<Rightarrow>
          let default_cost = (case map_of costs ''1K'' of
                                Some r \<Rightarrow> r | None \<Rightarrow> get_or (get_or rates default_model []) ''1K'' 0)
          in Some (get_or costs (upper (str_or (pp_resolution p) ''1K'')) default_cost * of_int (pp_n p)))"

definition has_usage :: "pricing_params \<Rightarrow> bool" where
  "has_usage p =
     (pp_image_input p \<noteq> None \<or> pp_image_output p \<noteq> None \<or> pp_text_input p \<noteq> None \<or> pp_text_output p \<noteq> None)"

definition per_image_openai_token ::
  "rat table table \<Rightarrow> ((string \<times> string) \<times> rat) list table \<Rightarrow> string \<Rightarrow> pricing_params \<Rightarrow> rat option" where
  "per_image_openai_token token_rates fallback_rates default_model p =
     (let model = str_or (pp_model p) default_model in
      if has_usage p then
        (case own_or_default token_rates model default_model of
           None \<Rightarrow> None
         | Some r \<Rightarrow>
             (case (map_of r ''image_in'', map_of r ''image_out'', map_of r ''text_in'', map_of r ''text_out'') of
                (Some a, Some b, Some c, Some d) \<Rightarrow>
                  Some ((count_of (pp_image_input p) * a + count_of (pp_image_output p) * b +
                         count_of (pp_text_input p) * c + count_of (pp_text_output p) * d) / million)
              | _ \<Rightarrow> None))
      else
        (case own_or_default fallback_rates model default_model of
           None \<Rightarrow> None
         | Some costs \<Rightarrow>
             let quality = str_or (pp_quality p) ''medium''; dims = str_or (pp_size p) ''1024x1024''
             in Some (get_or costs (quality, dims)
                        (get_or costs (quality, ''1024x1024'')
                           (get_or costs (''medium'', ''1024x1024'') (34 / 1000))) * of_int (pp_n p))))"

definition per_second_matrix ::
  "((string \<times> bool option) \<times> rat) list table \<Rightarrow> string \<Rightarrow> dimensions \<Rightarrow> pricing_params \<Rightarrow> rat option" where
  "per_second_matrix rates default_model dims p =
     (case own_or_default rates (str_or (pp_model p) default_model) default_model of
        None \<Rightarrow> None
      | Some costs \<Rightarrow>
          let duration = coalesce (pp_duration p) 8;
              per_second =
                (case dims of
                   Resolution_audio \<Rightarrow>
                     let fallback = (case map_of costs (''1080p'', Some True) of
                                       Some r \<Rightarrow> r
                                     | None \<Rightarrow> get_or (get_or rates default_model []) (''1080p'', Some True) 0)
                     in get_or costs (lower (str_or (pp_resolution p) ''1080p''), Some (pp_audio p)) fallback
                 | Resolution_only \<Rightarrow>
                     get_or costs (lower (str_or (pp_resolution p) ''720p''), None) (get_or costs (''720p'', None) 0)
                 | Flat_rate \<Rightarrow> get_or costs ([], None) 0)
          in Some (of_int duration * per_second))"

definition tier_of :: "pricing_params \<Rightarrow> string" where
  "tier_of p =
     (if lower (str_or (pp_resolution p) []) = ''4k'' then ''4k''
      else let t = lower (pp_service_tier p) in if t \<noteq> [] \<and> t \<noteq> ''default'' then t else ''std'')"

definition per_second_tiered ::
  "((string \<times> bool) \<times> rat) list table \<Rightarrow> string \<Rightarrow> pricing_params \<Rightarrow> rat option" where
  "per_second_tiered rates default_model p =
     (case own_or_default rates (str_or (pp_model p) default_model) default_model of
        None \<Rightarrow> None
      | Some costs \<Rightarrow>
          let duration = coalesce (pp_duration p) 8;
              per_second = (case map_of costs (tier_of p, pp_audio p) of
                              Some r \<Rightarrow> r
                            | None \<Rightarrow> get_or costs (''std'', pp_audio p) (get_or costs (''std'', False) 0))
          in Some (of_int duration * per_second))"

text \<open>
  The key by which the nearest bucket is chosen; the last two components are the bucket itself, so
  two buckets never tie.
\<close>

definition bucket_key :: "int \<Rightarrow> (string \<times> int) \<times> rat \<Rightarrow> int \<times> int \<times> rat \<times> string \<times> int" where
  "bucket_key duration b = (\<bar>snd (fst b) - duration\<bar>, snd (fst b), snd b, fst (fst b), snd (fst b))"

definition bucket_price :: "int \<times> int \<times> rat \<times> string \<times> int \<Rightarrow> rat" where
  "bucket_price k = fst (snd (snd k))"

definition nearest_bucket :: "((string \<times> int) \<times> rat) list \<Rightarrow> string \<Rightarrow> int \<Rightarrow> rat option" where
  "nearest_bucket buckets resolution duration =
     (let same = filter (\<lambda>b. fst (fst b) = resolution) buckets;
          candidates = (if same \<noteq> [] then same else buckets)
      in if candidates = [] then None
         else Some (bucket_price (Min (set (map (bucket_key duration) candidates)))))"

definition per_video_bucket ::
  "((string \<times> int) \<times> rat) list table \<Rightarrow> string \<Rightarrow> pricing_params \<Rightarrow> rat option" where
  "per_video_bucket rates default_model p =
     (case own_or_default rates (str_or (pp_model p) default_model) default_model of
        None \<Rightarrow> None
      | Some buckets \<Rightarrow>
          let resolution = lower (str_or (pp_resolution p) ''768p''); duration = coalesce (pp_duration p) 6
          in case map_of buckets (resolution, duration) of
               Some r \<Rightarrow> Some r
             | None \<Rightarrow> nearest_bucket buckets resolution duration)"

definition per_token_video ::
  "((string \<times> bool) \<times> rat) list table \<Rightarrow> string \<Rightarrow> pricing_params \<Rightarrow> rat option" where
  "per_token_video rates default_model p =
     (case own_or_default rates (str_or (pp_model p) default_model) default_model of
        None \<Rightarrow> None
      | Some costs \<Rightarrow>
          Some (count_of (pp_usage_tokens p) / million *
                get_or costs (pp_service_tier p, pp_audio p) (get_or costs (''default'', True) 16)))"

definition per_character :: "rat table \<Rightarrow> string \<Rightarrow> pricing_params \<Rightarrow> rat option" where
  "per_character rates default_model p =
     Some (count_of (pp_usage_tokens p) / characters_per_pricing_unit *
           get_or rates (str_or (pp_model p) default_model) (get_or rates default_model 0))"

subsection \<open>Vidu\<close>

definition vidu_credit_to_cny :: rat where
  "vidu_credit_to_cny = 3125 / 100000"

definition vidu_video_credits :: "int table table" where
  "vidu_video_credits =
     [(''viduq3-pro'', [(''540p'', 10), (''720p'', 25), (''1080p'', 30)]),
      (''viduq3-turbo'', [(''540p'', 8), (''720p'', 12), (''1080p'', 14)]),
      (''viduq3-pro-fast'', [(''540p'', 8), (''720p'', 12), (''1080p'', 14)]),
      (''viduq3'', [(''540p'', 10), (''720p'', 25), (''1080p'', 30)]),
      (''viduq3-mix'', [(''540p'', 10), (''720p'', 25), (''1080p'', 30)]),
      (''vidu2.0'', [(''360p'', 5), (''720p'', 10), (''1080p'', 25)])]"

definition vidu_image_credits :: "int table table" where
  "vidu_image_credits =
     [(''viduq2'', [(''1080p'', 8), (''2k'', 12), (''4k'', 20)]), (''viduq1'', [(''1080p'', 20)])]"

definition calculate_vidu_cost :: "pricing_params \<Rightarrow> rat option" where
  "calculate_vidu_cost p =
     (let res = lower (str_or (pp_resolution p) []) in
      if (case pp_usage_tokens p of Some n \<Rightarrow> 0 \<le> n | None \<Rightarrow> False)
      then Some (count_of (pp_usage_tokens p) * vidu_credit_to_cny)
      else if pp_call_type p = ''image'' then
        (case own_or_default vidu_image_credits (str_or (pp_model p) ''viduq2'') ''viduq2'' of
           Some (first # rest) \<Rightarrow>
             Some (of_int (get_or (first # rest) (if res \<noteq> [] then res else ''1080p'') (snd first)) * vidu_credit_to_cny)
         | _ \<Rightarrow> None)
      else if pp_call_type p = ''video'' then
        (case own_or_default vidu_video_credits (str_or (pp_model p) ''viduq3-turbo'') ''viduq3-turbo'' of
           Some t \<Rightarrow>
             Some (of_int (if coalesce (pp_duration p) 0 = 0 then 5 else coalesce (pp_duration p) 0) *
                   of_int (get_or t (if res \<noteq> [] then res else ''720p'') (get_or t ''720p'' 25)) * vidu_credit_to_cny)
         | None \<Rightarrow> None)
      else Some 0)"

fun calculate_pricing :: "pricing \<Rightarrow> pricing_params \<Rightarrow> (rat \<times> string) option" where
  "calculate_pricing (Per_token r m c) p = map_option (\<lambda>a. (a, c)) (per_token r m p)"
| "calculate_pricing (Per_image_flat r m c) p = map_option (\<lambda>a. (a, c)) (per_image_flat r m p)"
| "calculate_pricing (Per_image_by_resolution r m c) p = map_option (\<lambda>a. (a, c)) (per_image_by_resolution r m p)"
| "calculate_pricing (Per_image_openai_token r f m c) p = map_option (\<lambda>a. (a, c)) (per_image_openai_token r f m p)"
| "calculate_pricing (Per_second_matrix r m d c) p = map_option (\<lambda>a. (a, c)) (per_second_matrix r m d p)"
| "calculate_pricing (Per_second_tiered r m c) p = map_option (\<lambda>a. (a, c)) (per_second_tiered r m p)"
| "calculate_pricing (Per_video_bucket r m c) p = map_option (\<lambda>a. (a, c)) (per_video_bucket r m p)"
| "calculate_pricing (Per_token_video r m c) p = map_option (\<lambda>a. (a, c)) (per_token_video r m p)"
| "calculate_pricing (Per_character r m c) p = map_option (\<lambda>a. (a, c)) (per_character r m p)"
| "calculate_pricing (Vidu_delegate c) p = map_option (\<lambda>a. (a, ''CNY'')) (calculate_vidu_cost p)"

section \<open>Lookup\<close>

text \<open>The fields of the registry that pricing reads.\<close>

record model_info =
  mi_media_type :: string
  mi_default :: bool
  mi_pricing :: "pricing option"

type_synonym registry = "model_info table table"

definition default_model_for_provider :: "registry \<Rightarrow> string \<Rightarrow> string \<Rightarrow> string option" where
  "default_model_for_provider reg provider media =
     (case map_of reg provider of
        None \<Rightarrow> None
      | Some models \<Rightarrow> map_option fst (List.find (\<lambda>(_, i). mi_media_type i = media \<and> mi_default i) models))"

definition own_table_providers :: "string list" where
  "own_table_providers = [''ark'', ''grok'', ''openai'', ''dashscope'', ''minimax'', ''kling'']"

definition anthropic_rates :: "rat table table" where
  "anthropic_rates =
     map (\<lambda>m. (m, [(''input'', 3), (''output'', 15)]))
         [''claude-sonnet-4'', ''claude-sonnet-4-20250514'', ''claude-sonnet-4.5'', ''claude-sonnet-4-5'', ''claude-sonnet-4-6''] @
     map (\<lambda>m. (m, [(''input'', 1), (''output'', 5)]))
         [''claude-haiku-4-5'', ''claude-haiku-4-5-20251001'', ''claude-haiku-4-20250514''] @
     map (\<lambda>m. (m, [(''input'', 15), (''output'', 75)])) [''claude-opus-4'', ''claude-opus-4-6'', ''claude-opus-4-7'']"

definition anthropic_pricing :: pricing where
  "anthropic_pricing = Per_token anthropic_rates ''claude-sonnet-4'' ''USD''"

text \<open>The declared price of a model, when the registry has the model under the media type.\<close>

definition declared_for :: "model_info table \<Rightarrow> string option \<Rightarrow> string \<Rightarrow> pricing option" where
  "declared_for models model media =
     (case model of
        None \<Rightarrow> None
      | Some m \<Rightarrow>
          (case map_of models m of
             None \<Rightarrow> None
           | Some i \<Rightarrow> if mi_media_type i = media then mi_pricing i else None))"

text \<open>The price of the default model of a provider.\<close>

definition default_priced :: "registry \<Rightarrow> string \<Rightarrow> string \<Rightarrow> pricing option" where
  "default_priced reg provider media =
     (case default_model_for_provider reg provider media of
        None \<Rightarrow> None
      | Some m \<Rightarrow>
          (case map_of (get_or reg provider []) m of None \<Rightarrow> None | Some i \<Rightarrow> mi_pricing i))"

text \<open>\<open>None\<close> is the \<open>KeyError\<close> of a missing provider or the \<open>RuntimeError\<close> of a registry without a default.\<close>

definition gemini_default_pricing_for :: "registry \<Rightarrow> string \<Rightarrow> string option \<Rightarrow> pricing option" where
  "gemini_default_pricing_for reg media model =
     (case map_of reg ''gemini-aistudio'' of
        None \<Rightarrow> None
      | Some aistudio \<Rightarrow>
          let fallback = (case default_priced reg ''gemini-aistudio'' media of
                            Some p \<Rightarrow> Some p | None \<Rightarrow> default_priced reg ''gemini-aistudio'' ''text'')
          in if model = None then fallback
             else case declared_for aistudio model media of
                    Some p \<Rightarrow> Some p
                  | None \<Rightarrow>
                      (case map_of reg ''gemini-vertex'' of
                         None \<Rightarrow> None
                       | Some vertex \<Rightarrow>
                           (case declared_for vertex model media of Some p \<Rightarrow> Some p | None \<Rightarrow> fallback)))"

definition lookup_pricing :: "registry \<Rightarrow> string \<Rightarrow> string option \<Rightarrow> string \<Rightarrow> pricing option" where
  "lookup_pricing reg provider model media =
     (if provider = ''anthropic'' then Some anthropic_pricing
      else if provider = ''vidu'' then Some (Vidu_delegate ''CNY'')
      else case map_of reg provider of
             None \<Rightarrow> gemini_default_pricing_for reg media model
           | Some models \<Rightarrow>
               (case declared_for models model media of
                  Some p \<Rightarrow> Some p
                | None \<Rightarrow>
                    (case (if provider \<in> set own_table_providers then default_priced reg provider media else None) of
                       Some p \<Rightarrow> Some p
                     | None \<Rightarrow> gemini_default_pricing_for reg media model)))"

section \<open>The calculator\<close>

definition is_custom_provider :: "string \<Rightarrow> bool" where
  "is_custom_provider provider = prefix ''custom-'' provider"

record custom_price =
  cp_input :: "rat option"
  cp_output :: "rat option"
  cp_currency :: "string option"

definition no_custom_price :: custom_price where
  "no_custom_price = \<lparr>cp_input = None, cp_output = None, cp_currency = None\<rparr>"

definition calculate_custom_cost :: "custom_price \<Rightarrow> pricing_params \<Rightarrow> rat \<times> string" where
  "calculate_custom_cost price p =
     (case cp_input price of
        None \<Rightarrow> (0, ''USD'')
      | Some pin \<Rightarrow>
          let cur = str_or (cp_currency price) ''USD'' in
          if pp_call_type p = ''text'' then
            ((count_of (pp_input_tokens p) * pin + count_of (pp_output_tokens p) * coalesce (cp_output price) 0) / million, cur)
          else if pp_call_type p = ''image'' then (pin, cur)
          else if pp_call_type p = ''video'' then
            (of_int (if coalesce (pp_duration p) 0 = 0 then 8 else coalesce (pp_duration p) 0) * pin, cur)
          else if pp_call_type p = ''audio'' then
            (count_of (pp_usage_tokens p) / characters_per_pricing_unit * pin, cur)
          else (0, cur))"

definition per_second :: "pricing \<Rightarrow> bool" where
  "per_second pr = (case pr of Per_second_matrix _ _ _ _ \<Rightarrow> True | Per_second_tiered _ _ _ \<Rightarrow> True | _ \<Rightarrow> False)"

definition calculate_cost ::
  "registry \<Rightarrow> string \<Rightarrow> custom_price \<Rightarrow> pricing_params \<Rightarrow> (rat \<times> string) option" where
  "calculate_cost reg provider price p =
     (if is_custom_provider provider then Some (calculate_custom_cost price p)
      else if pp_call_type p = ''text'' \<and> pp_input_tokens p = None then Some (0, ''USD'')
      else case lookup_pricing reg provider (pp_model p) (pp_call_type p) of
             None \<Rightarrow> None
           | Some pr \<Rightarrow>
               calculate_pricing pr
                 ((if per_second pr \<and> coalesce (pp_duration p) 0 = 0 then p\<lparr>pp_duration := Some 8\<rparr> else p)\<lparr>pp_n := 1\<rparr>))"

definition ark_tokens_per_second :: int where
  "ark_tokens_per_second = 60000"

definition estimate_reference_video_cost ::
  "registry \<Rightarrow> string \<Rightarrow> string option \<Rightarrow> string option \<Rightarrow> bool \<Rightarrow> string \<Rightarrow> int list \<Rightarrow> (rat \<times> string) option" where
  "estimate_reference_video_cost reg provider model resolution audio tier durations =
     (case lookup_pricing reg provider model ''video'' of
        None \<Rightarrow> None
      | Some pr \<Rightarrow>
          if durations = [] then Some (0, pricing_currency pr)
          else let duration_sum = sum_list (map (max 0) durations)
               in calculate_pricing pr
                    \<lparr>pp_call_type = ''video'', pp_model = model, pp_resolution = resolution, pp_aspect_ratio = None,
                     pp_duration = Some duration_sum, pp_audio = audio,
                     pp_usage_tokens = (case pr of Per_token_video _ _ _ \<Rightarrow> Some (duration_sum * ark_tokens_per_second) | _ \<Rightarrow> None),
                     pp_service_tier = tier, pp_input_tokens = None, pp_output_tokens = None, pp_quality = None, pp_size = None,
                     pp_image_input = None, pp_image_output = None, pp_text_input = None, pp_text_output = None, pp_n = 1\<rparr>)"

end
