(* ===== verification/PricingProps.thy ===== *)
theory PricingProps
  imports Pricing
begin

text \<open>
  Properties of pricing: a well-formed table always yields a price, prices are not negative, the
  nearest bucket does not depend on the order of a table, the lookup stays within the media type, and
  the estimate for a whole episode is the sum over its units exactly for the tables that are linear.
\<close>

section \<open>Tables\<close>

lemma get_or_mem: "get_or t k d = d \<or> (k, get_or t k d) \<in> set t"
  by (auto simp: get_or_def coalesce_def split: option.splits dest: map_of_SomeD)

lemma get_or_row: "P d \<Longrightarrow> \<forall>t\<in>snd ` set r. P t \<Longrightarrow> P (get_or r k d)"
  using get_or_mem [of r k d] by (metis image_eqI snd_conv)

lemma own_or_default_mem: "own_or_default rates m d = Some v \<Longrightarrow> v \<in> snd ` set rates"
  using get_or_mem [of rates m] by (force simp: own_or_default_def split: option.splits dest: map_of_SomeD)

lemma own_or_default_total: "map_of rates d \<noteq> None \<Longrightarrow> own_or_default rates m d \<noteq> None"
  by (auto simp: own_or_default_def)

text \<open>What the declarations of the registry promise: the default model is priced and every row is complete.\<close>

fun pricing_ok :: "pricing \<Rightarrow> bool" where
  "pricing_ok (Per_token r m c) = (\<forall>t\<in>snd ` set r. map_of t ''input'' \<noteq> None \<and> map_of t ''output'' \<noteq> None)"
| "pricing_ok (Per_image_flat r m c) = (map_of r m \<noteq> None)"
| "pricing_ok (Per_image_by_resolution r m c) = (map_of r m \<noteq> None)"
| "pricing_ok (Per_image_openai_token r f m c) =
     (map_of r m \<noteq> None \<and> map_of f m \<noteq> None \<and>
      (\<forall>t\<in>snd ` set r. map_of t ''image_in'' \<noteq> None \<and> map_of t ''image_out'' \<noteq> None \<and>
                        map_of t ''text_in'' \<noteq> None \<and> map_of t ''text_out'' \<noteq> None))"
| "pricing_ok (Per_second_matrix r m d c) = (map_of r m \<noteq> None)"
| "pricing_ok (Per_second_tiered r m c) = (map_of r m \<noteq> None)"
| "pricing_ok (Per_video_bucket r m c) = (map_of r m \<noteq> None \<and> (\<forall>b\<in>snd ` set r. b \<noteq> []))"
| "pricing_ok (Per_token_video r m c) = (map_of r m \<noteq> None)"
| "pricing_ok (Per_character r m c) = True"
| "pricing_ok (Vidu_delegate c) = True"

lemma per_token_total:
  assumes "\<forall>t\<in>snd ` set r. map_of t ''input'' \<noteq> None \<and> map_of t ''output'' \<noteq> None"
  shows "per_token r m p \<noteq> None"
proof -
  let ?P = "\<lambda>t :: (string \<times> rat) list. map_of t ''input'' \<noteq> None \<and> map_of t ''output'' \<noteq> None"
  have "?P (get_or r k (get_or r m [(''input'', 0), (''output'', 0)]))" for k
    by (intro get_or_row [where P = ?P]) (use assms in simp_all)
  from this [of "str_or (pp_model p) m"] show ?thesis by (auto simp: per_token_def Let_def)
qed

lemma vidu_total: "calculate_vidu_cost p \<noteq> None"
proof -
  have "own_or_default vidu_image_credits m ''viduq2'' \<noteq> None" "own_or_default vidu_video_credits m ''viduq3-turbo'' \<noteq> None" for m
    by (rule own_or_default_total; simp add: vidu_image_credits_def vidu_video_credits_def)+
  moreover have "t \<noteq> []" if "own_or_default vidu_image_credits m ''viduq2'' = Some t" for m t
    using own_or_default_mem [OF that] by (auto simp: vidu_image_credits_def)
  ultimately obtain first others t where
      "own_or_default vidu_image_credits (str_or (pp_model p) ''viduq2'') ''viduq2'' = Some (first # others)"
      "own_or_default vidu_video_credits (str_or (pp_model p) ''viduq3-turbo'') ''viduq3-turbo'' = Some t"
    by (metis list.exhaust not_None_eq)
  then show ?thesis by (simp add: calculate_vidu_cost_def Let_def)
qed

lemma openai_total:
  assumes "pricing_ok (Per_image_openai_token r f m c)"
  shows "per_image_openai_token r f m p \<noteq> None"
proof (cases "has_usage p")
  case True
  obtain t where t: "own_or_default r (str_or (pp_model p) m) m = Some t"
    using assms own_or_default_total [of r m] by fastforce
  with own_or_default_mem [OF t] assms True show ?thesis by (auto simp: per_image_openai_token_def Let_def)
next
  case False
  obtain t where "own_or_default f (str_or (pp_model p) m) m = Some t"
    using assms own_or_default_total [of f m] by fastforce
  with False show ?thesis by (simp add: per_image_openai_token_def Let_def)
qed

lemma bucket_total:
  assumes "pricing_ok (Per_video_bucket r m c)"
  shows "per_video_bucket r m p \<noteq> None"
proof -
  obtain b where b: "own_or_default r (str_or (pp_model p) m) m = Some b"
    using assms own_or_default_total [of r m] by fastforce
  with own_or_default_mem [OF b] assms show ?thesis
    by (auto simp: per_video_bucket_def nearest_bucket_def Let_def split: option.split)
qed

lemma pricing_total: "pricing_ok pr \<Longrightarrow> calculate_pricing pr p \<noteq> None"
proof (cases pr)
  case (Per_image_flat r m c)
  moreover assume "pricing_ok pr"
  ultimately show ?thesis using own_or_default_total [of r m "str_or (pp_model p) m"] by (simp add: per_image_flat_def)
next
  case (Per_image_by_resolution r m c)
  moreover assume "pricing_ok pr"
  ultimately show ?thesis using own_or_default_total [of r m "str_or (pp_model p) m"]
    by (auto simp: per_image_by_resolution_def Let_def)
next
  case (Per_second_matrix r m d c)
  moreover assume "pricing_ok pr"
  ultimately show ?thesis using own_or_default_total [of r m "str_or (pp_model p) m"]
    by (auto simp: per_second_matrix_def Let_def)
next
  case (Per_second_tiered r m c)
  moreover assume "pricing_ok pr"
  ultimately show ?thesis using own_or_default_total [of r m "str_or (pp_model p) m"]
    by (auto simp: per_second_tiered_def Let_def)
next
  case (Per_token_video r m c)
  moreover assume "pricing_ok pr"
  ultimately show ?thesis using own_or_default_total [of r m "str_or (pp_model p) m"]
    by (auto simp: per_token_video_def)
qed (use per_token_total openai_total bucket_total vidu_total in \<open>auto simp: per_character_def\<close>)

section \<open>Lookup\<close>

definition registry_prices :: "registry \<Rightarrow> pricing set" where
  "registry_prices reg = {pr. \<exists>models\<in>snd ` set reg. \<exists>i\<in>snd ` set models. mi_pricing i = Some pr}"

definition registry_ok :: "registry \<Rightarrow> bool" where
  "registry_ok reg =
     ((\<forall>models\<in>snd ` set reg. \<forall>i\<in>snd ` set models. case mi_pricing i of Some pr \<Rightarrow> pricing_ok pr | None \<Rightarrow> True) \<and>
      map_of reg ''gemini-aistudio'' \<noteq> None \<and> map_of reg ''gemini-vertex'' \<noteq> None \<and>
      default_priced reg ''gemini-aistudio'' ''text'' \<noteq> None)"

lemma declared_for_mem:
  "declared_for models model media = Some pr \<Longrightarrow> \<exists>i\<in>snd ` set models. mi_pricing i = Some pr \<and> mi_media_type i = media"
  by (force simp: declared_for_def split: option.splits if_splits dest: map_of_SomeD)

lemma default_priced_mem:
  "default_priced reg provider media = Some pr \<Longrightarrow> \<exists>models\<in>snd ` set reg. \<exists>i\<in>snd ` set models. mi_pricing i = Some pr"
proof -
  assume d: "default_priced reg provider media = Some pr"
  then obtain models where "map_of reg provider = Some models"
    by (auto simp: default_priced_def default_model_for_provider_def split: option.splits)
  moreover with d obtain m i where "map_of models m = Some i" "mi_pricing i = Some pr"
    by (auto simp: default_priced_def get_or_def split: option.splits)
  ultimately show ?thesis by (force dest: map_of_SomeD)
qed

lemma default_priced_registry: "default_priced reg provider media = Some pr \<Longrightarrow> pr \<in> registry_prices reg"
  using default_priced_mem by (simp add: registry_prices_def)

lemma declared_registry:
  assumes "map_of reg provider = Some models" and "declared_for models model media = Some pr"
  shows "pr \<in> registry_prices reg"
proof -
  from assms(1) have "models \<in> snd ` set reg" by (force dest: map_of_SomeD)
  with declared_for_mem [OF assms(2)] show ?thesis by (auto simp: registry_prices_def)
qed

lemma gemini_default_mem:
  "gemini_default_pricing_for reg media model = Some pr \<Longrightarrow> pr \<in> registry_prices reg"
  by (auto simp: gemini_default_pricing_for_def Let_def split: option.splits if_splits
      intro: default_priced_registry declared_registry)

lemma lookup_mem:
  assumes "lookup_pricing reg provider model media = Some pr"
  shows "pr = anthropic_pricing \<or> pr = Vidu_delegate ''CNY'' \<or> pr \<in> registry_prices reg"
  using assms by (auto simp: lookup_pricing_def split: option.splits if_splits
      intro: default_priced_registry declared_registry gemini_default_mem)

lemma gemini_default_total: "registry_ok reg \<Longrightarrow> gemini_default_pricing_for reg media model \<noteq> None"
  by (auto simp: registry_ok_def gemini_default_pricing_for_def Let_def split: option.split)

lemma lookup_total: "registry_ok reg \<Longrightarrow> lookup_pricing reg provider model media \<noteq> None"
  using gemini_default_total [of reg media model] by (auto simp: lookup_pricing_def split: option.split)

lemma anthropic_ok: "pricing_ok anthropic_pricing"
  by (simp add: anthropic_pricing_def anthropic_rates_def)

lemma lookup_ok: "registry_ok reg \<Longrightarrow> lookup_pricing reg provider model media = Some pr \<Longrightarrow> pricing_ok pr"
  using lookup_mem [of reg provider model media pr] anthropic_ok
  by (fastforce simp: registry_ok_def registry_prices_def split: option.splits)

text \<open>With a complete registry every call has a price: no provider, model or media type makes the calculator raise.\<close>

theorem every_call_priced:
  assumes "registry_ok reg"
  shows "\<exists>amount currency. calculate_cost reg provider price p = Some (amount, currency)"
proof -
  have "calculate_cost reg provider price p \<noteq> None"
  proof (cases "lookup_pricing reg provider (pp_model p) (pp_call_type p)")
    case None
    with lookup_total [OF assms] show ?thesis by blast
  next
    case (Some pr)
    with pricing_total [OF lookup_ok [OF assms Some]] show ?thesis by (simp add: calculate_cost_def)
  qed
  then show ?thesis by (metis option.exhaust surj_pair)
qed

section \<open>Prices are not negative\<close>

definition nonneg :: "('k \<times> rat) list \<Rightarrow> bool" where
  "nonneg t = list_all (\<lambda>(_, r). 0 \<le> r) t"

fun rates_nonneg :: "pricing \<Rightarrow> bool" where
  "rates_nonneg (Per_token r m c) = (\<forall>t\<in>snd ` set r. nonneg t)"
| "rates_nonneg (Per_image_flat r m c) = nonneg r"
| "rates_nonneg (Per_image_by_resolution r m c) = (\<forall>t\<in>snd ` set r. nonneg t)"
| "rates_nonneg (Per_image_openai_token r f m c) = ((\<forall>t\<in>snd ` set r. nonneg t) \<and> (\<forall>t\<in>snd ` set f. nonneg t))"
| "rates_nonneg (Per_second_matrix r m d c) = (\<forall>t\<in>snd ` set r. nonneg t)"
| "rates_nonneg (Per_second_tiered r m c) = (\<forall>t\<in>snd ` set r. nonneg t)"
| "rates_nonneg (Per_video_bucket r m c) = (\<forall>t\<in>snd ` set r. nonneg t)"
| "rates_nonneg (Per_token_video r m c) = (\<forall>t\<in>snd ` set r. nonneg t)"
| "rates_nonneg (Per_character r m c) = nonneg r"
| "rates_nonneg (Vidu_delegate c) = True"

definition counts_nonneg :: "pricing_params \<Rightarrow> bool" where
  "counts_nonneg p =
     (list_all (\<lambda>n. 0 \<le> coalesce n 0)
        [pp_duration p, pp_usage_tokens p, pp_input_tokens p, pp_output_tokens p, pp_image_input p, pp_image_output p,
         pp_text_input p, pp_text_output p] \<and> 0 \<le> pp_n p)"

lemma nonneg_get_or: "nonneg t \<Longrightarrow> 0 \<le> d \<Longrightarrow> 0 \<le> get_or t k d"
  using get_or_mem [of t k d] by (auto simp: nonneg_def list_all_iff)

lemma nonneg_map_of: "nonneg t \<Longrightarrow> map_of t k = Some r \<Longrightarrow> 0 \<le> r"
  by (auto simp: nonneg_def list_all_iff dest: map_of_SomeD)

lemma nonneg_row: "\<forall>t\<in>snd ` set r. nonneg t \<Longrightarrow> nonneg (get_or r m [])"
  using get_or_mem [of r m "[]"] by (force simp: nonneg_def)

lemma nearest_mem:
  assumes "nearest_bucket buckets res dur = Some a"
  shows "a \<in> snd ` set buckets"
proof -
  let ?same = "filter (\<lambda>b. fst (fst b) = res) buckets"
  let ?c = "if ?same \<noteq> [] then ?same else buckets"
  from assms have ne: "?c \<noteq> []" and a: "a = bucket_price (Min (set (map (bucket_key dur) ?c)))"
    by (auto simp: nearest_bucket_def Let_def split: if_splits)
  from ne have "Min (set (map (bucket_key dur) ?c)) \<in> set (map (bucket_key dur) ?c)"
    by (intro Min_in) auto
  then obtain b where "b \<in> set ?c" "Min (set (map (bucket_key dur) ?c)) = bucket_key dur b" by auto
  with a show ?thesis by (auto simp: bucket_key_def bucket_price_def split: if_splits)
qed

lemma count_of_nonneg: "0 \<le> coalesce n 0 \<Longrightarrow> 0 \<le> count_of n"
  by (simp add: count_of_def)

lemma nonneg_row_or: "\<forall>t\<in>snd ` set r. nonneg t \<Longrightarrow> own_or_default r m d = Some t \<Longrightarrow> nonneg t"
  using own_or_default_mem [of r m d t] by blast

lemma per_token_nonneg:
  assumes "\<forall>t\<in>snd ` set r. nonneg t" and "counts_nonneg p" and "per_token r m p = Some a"
  shows "0 \<le> a"
proof -
  let ?t = "get_or r (str_or (pp_model p) m) (get_or r m [(''input'', 0), (''output'', 0)])"
  have "nonneg ?t"
    by (intro get_or_row [where P = nonneg]) (use assms(1) in \<open>auto simp: nonneg_def\<close>)
  moreover from assms(3) obtain i j where ij: "map_of ?t ''input'' = Some i" "map_of ?t ''output'' = Some j"
      "a = (count_of (pp_input_tokens p) * i + count_of (pp_output_tokens p) * j) / million"
    by (auto simp: per_token_def Let_def split: option.splits)
  ultimately have "0 \<le> i" "0 \<le> j" by (auto intro: nonneg_map_of)
  with assms(2) show ?thesis by (simp add: ij(3) counts_nonneg_def count_of_nonneg million_def)
qed

lemma openai_nonneg:
  assumes "rates_nonneg (Per_image_openai_token r f m c)" and "counts_nonneg p" and "per_image_openai_token r f m p = Some a"
  shows "0 \<le> a"
proof (cases "has_usage p")
  case True
  with assms(3) obtain t i1 i2 i3 i4 where t: "own_or_default r (str_or (pp_model p) m) m = Some t"
      "map_of t ''image_in'' = Some i1" "map_of t ''image_out'' = Some i2" "map_of t ''text_in'' = Some i3"
      "map_of t ''text_out'' = Some i4"
      "a = (count_of (pp_image_input p) * i1 + count_of (pp_image_output p) * i2 +
            count_of (pp_text_input p) * i3 + count_of (pp_text_output p) * i4) / million"
    by (auto simp: per_image_openai_token_def Let_def split: option.splits)
  have "nonneg t" using nonneg_row_or [OF _ t(1)] assms(1) by simp
  with t(2-5) have "0 \<le> i1" "0 \<le> i2" "0 \<le> i3" "0 \<le> i4" by (auto intro: nonneg_map_of)
  with assms(2) show ?thesis by (simp add: t(6) counts_nonneg_def count_of_nonneg million_def)
next
  case False
  with assms(3) obtain t where t: "own_or_default f (str_or (pp_model p) m) m = Some t"
      "a = get_or t (str_or (pp_quality p) ''medium'', str_or (pp_size p) ''1024x1024'')
             (get_or t (str_or (pp_quality p) ''medium'', ''1024x1024'')
               (get_or t (''medium'', ''1024x1024'') (34 / 1000))) * of_int (pp_n p)"
    by (auto simp: per_image_openai_token_def Let_def split: option.splits)
  have "nonneg t" using nonneg_row_or [OF _ t(1)] assms(1) by simp
  with assms(2) show ?thesis
    by (auto simp: t(2) counts_nonneg_def intro!: mult_nonneg_nonneg nonneg_get_or)
qed

lemma resolution_nonneg:
  assumes "\<forall>t\<in>snd ` set r. nonneg t" and "counts_nonneg p" and "per_image_by_resolution r m p = Some a"
  shows "0 \<le> a"
proof -
  from assms(3) obtain t where t: "own_or_default r (str_or (pp_model p) m) m = Some t"
      "a = get_or t (upper (str_or (pp_resolution p) ''1K''))
             (case map_of t ''1K'' of Some r \<Rightarrow> r | None \<Rightarrow> get_or (get_or r m []) ''1K'' 0) * of_int (pp_n p)"
    by (auto simp: per_image_by_resolution_def Let_def split: option.splits)
  from nonneg_row_or [OF assms(1) t(1)] nonneg_row [OF assms(1), of m] assms(2) show ?thesis
    by (auto simp: t(2) counts_nonneg_def intro!: mult_nonneg_nonneg nonneg_get_or
        split: option.split dest: nonneg_map_of)
qed

lemma matrix_nonneg:
  assumes "\<forall>t\<in>snd ` set r. nonneg t" and "counts_nonneg p" and "per_second_matrix r m d p = Some a"
  shows "0 \<le> a"
proof -
  from assms(3) obtain t where t: "own_or_default r (str_or (pp_model p) m) m = Some t"
    by (auto simp: per_second_matrix_def split: option.splits)
  note nn = nonneg_row_or [OF assms(1) t] nonneg_row [OF assms(1), of m]
  from nn have fb: "0 \<le> (case map_of t (''1080p'', Some True) of Some r \<Rightarrow> r
      | None \<Rightarrow> get_or (get_or r m []) (''1080p'', Some True) 0)"
    by (auto intro: nonneg_get_or nonneg_map_of split: option.split)
  have dur: "0 \<le> (of_int (coalesce (pp_duration p) 8) :: rat)"
    using assms(2) by (cases "pp_duration p") (auto simp: counts_nonneg_def)
  show ?thesis
    using assms(3) t
    by (cases d) (auto simp: per_second_matrix_def Let_def intro!: mult_nonneg_nonneg nonneg_get_or nn fb dur)
qed

lemma tiered_nonneg:
  assumes "\<forall>t\<in>snd ` set r. nonneg t" and "counts_nonneg p" and "per_second_tiered r m p = Some a"
  shows "0 \<le> a"
proof -
  from assms(3) obtain t where t: "own_or_default r (str_or (pp_model p) m) m = Some t"
      "a = of_int (coalesce (pp_duration p) 8) * (case map_of t (tier_of p, pp_audio p) of
             Some r \<Rightarrow> r | None \<Rightarrow> get_or t (''std'', pp_audio p) (get_or t (''std'', False) 0))"
    by (auto simp: per_second_tiered_def Let_def split: option.splits)
  note nn = nonneg_row_or [OF assms(1) t(1)]
  have "0 \<le> (case map_of t (tier_of p, pp_audio p) of
             Some r \<Rightarrow> r | None \<Rightarrow> get_or t (''std'', pp_audio p) (get_or t (''std'', False) 0))"
    using nn by (auto intro: nonneg_get_or nonneg_map_of split: option.split)
  moreover have "0 \<le> (of_int (coalesce (pp_duration p) 8) :: rat)"
    using assms(2) by (cases "pp_duration p") (auto simp: counts_nonneg_def)
  ultimately show ?thesis by (simp only: t(2) mult_nonneg_nonneg)
qed

lemma bucket_nonneg:
  assumes "\<forall>t\<in>snd ` set r. nonneg t" and "per_video_bucket r m p = Some a"
  shows "0 \<le> a"
proof -
  from assms(2) obtain t where t: "own_or_default r (str_or (pp_model p) m) m = Some t"
      "map_of t (lower (str_or (pp_resolution p) ''768p''), coalesce (pp_duration p) 6) = Some a \<or>
       nearest_bucket t (lower (str_or (pp_resolution p) ''768p'')) (coalesce (pp_duration p) 6) = Some a"
    by (auto simp: per_video_bucket_def Let_def split: option.splits)
  from t(2) have "a \<in> snd ` set t" by (force dest: map_of_SomeD nearest_mem)
  with nonneg_row_or [OF assms(1) t(1)] show ?thesis by (auto simp: nonneg_def list_all_iff)
qed

lemma get_or_nonneg2: "nonneg t \<Longrightarrow> 0 \<le> d \<Longrightarrow> 0 \<le> get_or t k (get_or t k' d)"
  by (intro nonneg_get_or)

lemma vidu_nonneg: "counts_nonneg p \<Longrightarrow> calculate_vidu_cost p = Some a \<Longrightarrow> 0 \<le> a"
proof -
  have img: "0 \<le> get_or ((x, b) # t) k b" if "own_or_default vidu_image_credits m ''viduq2'' = Some ((x, b) # t)" for t m k x b
    using own_or_default_mem [OF that] get_or_mem [of "(x, b) # t" k b] by (auto simp: vidu_image_credits_def)
  have vid: "0 \<le> get_or t k (get_or t k' 25)" if "own_or_default vidu_video_credits m ''viduq3-turbo'' = Some t" for t m k k'
    using own_or_default_mem [OF that] get_or_mem [of t k "get_or t k' 25"] get_or_mem [of t k' 25]
    by (auto simp: vidu_video_credits_def)
  have credit: "0 \<le> vidu_credit_to_cny" by (simp add: vidu_credit_to_cny_def)
  assume "counts_nonneg p" "calculate_vidu_cost p = Some a"
  then show ?thesis
    by (auto simp: calculate_vidu_cost_def Let_def counts_nonneg_def count_of_nonneg img vid credit
        intro!: mult_nonneg_nonneg split: if_splits option.splits list.splits)
qed

lemma prices_nonneg_aux:
  assumes "rates_nonneg pr" and "counts_nonneg p" and "calculate_pricing pr p = Some (a, c)"
  shows "0 \<le> a"
proof (cases pr)
  case (Per_image_flat r m c')
  with assms obtain x where x: "own_or_default r (str_or (pp_model p) m) m = Some x" "a = x * of_int (pp_n p)"
    by (auto simp: per_image_flat_def)
  with own_or_default_mem [OF x(1)] assms Per_image_flat show ?thesis
    by (auto simp: nonneg_def list_all_iff counts_nonneg_def)
next
  case (Per_token_video r m c')
  with assms obtain t where t: "own_or_default r (str_or (pp_model p) m) m = Some t"
      "a = count_of (pp_usage_tokens p) / million * get_or t (pp_service_tier p, pp_audio p) (get_or t (''default'', True) 16)"
    by (auto simp: per_token_video_def split: option.splits)
  have "nonneg t" using nonneg_row_or [OF _ t(1)] assms(1) Per_token_video by simp
  then have "0 \<le> get_or t (pp_service_tier p, pp_audio p) (get_or t (''default'', True) 16)"
    by (intro nonneg_get_or) simp_all
  with assms(2) show ?thesis by (simp add: t(2) counts_nonneg_def count_of_nonneg million_def)
next
  case (Per_character r m c')
  with assms have a: "a = count_of (pp_usage_tokens p) / characters_per_pricing_unit *
      get_or r (str_or (pp_model p) m) (get_or r m 0)"
    by (simp add: per_character_def)
  have "0 \<le> get_or r (str_or (pp_model p) m) (get_or r m 0)"
    using assms(1) Per_character by (intro nonneg_get_or) simp_all
  with assms(2) show ?thesis by (simp add: a counts_nonneg_def count_of_nonneg characters_per_pricing_unit_def)
qed (use assms per_token_nonneg openai_nonneg resolution_nonneg matrix_nonneg tiered_nonneg bucket_nonneg vidu_nonneg
     in \<open>auto simp del: rates_nonneg.simps(4) simp: rates_nonneg.simps(1-3) rates_nonneg.simps(5-10)\<close>)

text \<open>With rates and counts that are not negative, no amount is.\<close>

theorem prices_nonneg:
  assumes "rates_nonneg pr" and "counts_nonneg p" and "calculate_pricing pr p = Some (a, c)"
  shows "0 \<le> a"
  using assms by (rule prices_nonneg_aux)

section \<open>The nearest bucket\<close>

definition bucket_candidates :: "((string \<times> int) \<times> rat) list \<Rightarrow> string \<Rightarrow> ((string \<times> int) \<times> rat) set" where
  "bucket_candidates buckets res =
     (let same = {b \<in> set buckets. fst (fst b) = res} in if same \<noteq> {} then same else set buckets)"

lemma candidates_set:
  "set (if filter (\<lambda>b. fst (fst b) = res) buckets \<noteq> [] then filter (\<lambda>b. fst (fst b) = res) buckets else buckets) =
   bucket_candidates buckets res"
  by (auto simp: bucket_candidates_def Let_def filter_empty_conv)

text \<open>A request between the buckets is priced as a bucket of its resolution, if there is one, whose
  duration is nearest, the shorter of two as near and the cheaper of two alike; the order in which
  the table lists its buckets does not matter.
\<close>

theorem nearest_bucket_exact:
  assumes "nearest_bucket buckets res dur = Some a"
  shows "(\<exists>b\<in>bucket_candidates buckets res. snd b = a \<and>
           (\<forall>b'\<in>bucket_candidates buckets res. bucket_key dur b \<le> bucket_key dur b')) \<and>
         (\<forall>buckets'. mset buckets' = mset buckets \<longrightarrow> nearest_bucket buckets' res dur = Some a)"
proof
  let ?same = "filter (\<lambda>b. fst (fst b) = res) buckets"
  let ?c = "if ?same \<noteq> [] then ?same else buckets"
  let ?k = "Min (set (map (bucket_key dur) ?c))"
  from assms have ne: "?c \<noteq> []" and a: "a = bucket_price ?k"
    by (auto simp: nearest_bucket_def Let_def split: if_splits)
  from ne have "?k \<in> set (map (bucket_key dur) ?c)" by (intro Min_in) auto
  then obtain b where b: "b \<in> set ?c" "?k = bucket_key dur b" by auto
  have "bucket_key dur b \<le> bucket_key dur b'" if "b' \<in> set ?c" for b'
    unfolding b(2) [symmetric] using that by (intro Min_le) auto
  with b a show "\<exists>b\<in>bucket_candidates buckets res. snd b = a \<and>
      (\<forall>b'\<in>bucket_candidates buckets res. bucket_key dur b \<le> bucket_key dur b')"
    unfolding candidates_set by (intro bexI [of _ b]) (simp_all add: bucket_price_def bucket_key_def)
  have "nearest_bucket xs res dur = nearest_bucket ys res dur" if "mset xs = mset ys" for xs ys
  proof -
    from that have "set xs = set ys" by (rule mset_eq_setD)
    moreover from this have "filter (\<lambda>b. fst (fst b) = res) xs = [] \<longleftrightarrow> filter (\<lambda>b. fst (fst b) = res) ys = []"
      by (simp add: filter_empty_conv)
    moreover from that have "xs = [] \<longleftrightarrow> ys = []" by auto
    ultimately show ?thesis by (simp add: nearest_bucket_def Let_def)
  qed
  with assms show "\<forall>buckets'. mset buckets' = mset buckets \<longrightarrow> nearest_bucket buckets' res dur = Some a" by metis
qed

section \<open>Media types\<close>

definition registry_distinct :: "registry \<Rightarrow> bool" where
  "registry_distinct reg = (\<forall>models\<in>snd ` set reg. distinct (map fst models))"

definition declared_with :: "registry \<Rightarrow> string \<Rightarrow> pricing \<Rightarrow> bool" where
  "declared_with reg media pr =
     (\<exists>models\<in>snd ` set reg. \<exists>i\<in>snd ` set models. mi_pricing i = Some pr \<and> mi_media_type i = media)"

lemma declared_for_with: "map_of reg pid = Some models \<Longrightarrow> declared_for models model media = Some pr \<Longrightarrow> declared_with reg media pr"
  unfolding declared_with_def using declared_for_mem [of models model media pr]
  by (intro bexI [of _ models]) (force dest: map_of_SomeD)+

lemma default_priced_with:
  assumes "registry_distinct reg" and "default_priced reg pid media = Some pr"
  shows "declared_with reg media pr"
proof -
  from assms(2) obtain models m where m: "map_of reg pid = Some models"
      "map_option fst (List.find (\<lambda>(_, i). mi_media_type i = media \<and> mi_default i) models) = Some m"
    by (auto simp: default_priced_def default_model_for_provider_def split: option.splits)
  then obtain e where e: "List.find (\<lambda>(_, i). mi_media_type i = media \<and> mi_default i) models = Some e" "fst e = m"
    by auto
  then have "e \<in> set models" "mi_media_type (snd e) = media"
    by (auto simp: find_Some_iff case_prod_beta)
  with e(2) obtain i where i: "(m, i) \<in> set models" "mi_media_type i = media" by (cases e) auto
  have mem: "models \<in> snd ` set reg" using map_of_SomeD [OF m(1)] by force
  with assms(1) i(1) have "map_of models m = Some i" by (auto simp: registry_distinct_def)
  with assms(2) m have "mi_pricing i = Some pr"
    by (auto simp: default_priced_def default_model_for_provider_def get_or_def)
  with i mem show ?thesis by (force simp: declared_with_def)
qed

text \<open>The price of a call is one declared under the call's own media type, or the last resort, the
  default text model: a model of another modality never sets the price.\<close>

theorem lookup_keeps_media_type:
  assumes "registry_distinct reg" and "lookup_pricing reg provider model media = Some pr"
    and "provider \<noteq> ''anthropic''" and "provider \<noteq> ''vidu''"
  shows "declared_with reg media pr \<or> default_priced reg ''gemini-aistudio'' ''text'' = Some pr"
proof -
  have gem: "declared_with reg media pr \<or> default_priced reg ''gemini-aistudio'' ''text'' = Some pr"
    if "gemini_default_pricing_for reg media model = Some pr"
    using that by (auto simp: gemini_default_pricing_for_def Let_def split: option.splits if_splits
        intro: declared_for_with default_priced_with [OF assms(1)])
  show ?thesis
    using assms(2-4) gem by (auto simp: lookup_pricing_def split: option.splits if_splits
        intro: declared_for_with default_priced_with [OF assms(1)])
qed

section \<open>The estimate of an episode\<close>

fun linear_pricing :: "pricing \<Rightarrow> bool" where
  "linear_pricing (Per_second_matrix _ _ _ _) = True"
| "linear_pricing (Per_second_tiered _ _ _) = True"
| "linear_pricing (Per_token_video _ _ _) = True"
| "linear_pricing _ = False"

definition seconds_of :: "int list \<Rightarrow> rat" where
  "seconds_of ds = of_int (sum_list (map (max 0) ds))"

lemma seconds_of_append: "seconds_of (xs @ ys) = seconds_of xs + seconds_of ys"
  by (simp add: seconds_of_def)

text \<open>For the tables that charge by the second or by the token, the estimate of an episode is a rate times
  the seconds of its units, so it is the sum of the estimates of its parts.\<close>

theorem linear_estimate:
  assumes "lookup_pricing reg provider model ''video'' = Some pr" and "linear_pricing pr" and "pricing_ok pr"
  shows "\<exists>rate. \<forall>ds. estimate_reference_video_cost reg provider model resolution audio tier ds =
           Some (seconds_of ds * rate, pricing_currency pr)"
proof (cases pr)
  case (Per_second_matrix r m d c)
  with assms(3) obtain t where t: "own_or_default r (str_or model m) m = Some t"
    using own_or_default_total [of r m "str_or model m"] by auto
  let ?rate = "case d of
      Resolution_audio \<Rightarrow> get_or t (lower (str_or resolution ''1080p''), Some audio)
        (case map_of t (''1080p'', Some True) of Some r \<Rightarrow> r
         | None \<Rightarrow> get_or (get_or r m []) (''1080p'', Some True) 0)
    | Resolution_only \<Rightarrow> get_or t (lower (str_or resolution ''720p''), None) (get_or t (''720p'', None) 0)
    | Flat_rate \<Rightarrow> get_or t ([], None) 0"
  have "estimate_reference_video_cost reg provider model resolution audio tier ds =
      Some (seconds_of ds * ?rate, pricing_currency pr)" for ds
    using Per_second_matrix t assms(1)
    by (cases d) (simp_all add: estimate_reference_video_cost_def per_second_matrix_def seconds_of_def Let_def)
  then show ?thesis by blast
next
  case (Per_second_tiered r m c)
  with assms(3) obtain t where t: "own_or_default r (str_or model m) m = Some t"
    using own_or_default_total [of r m "str_or model m"] by auto
  let ?tier = "if lower (str_or resolution []) = ''4k'' then ''4k''
      else let t = lower tier in if t \<noteq> [] \<and> t \<noteq> ''default'' then t else ''std''"
  let ?rate = "case map_of t (?tier, audio) of Some r \<Rightarrow> r
      | None \<Rightarrow> get_or t (''std'', audio) (get_or t (''std'', False) 0)"
  have "estimate_reference_video_cost reg provider model resolution audio tier ds =
      Some (seconds_of ds * ?rate, pricing_currency pr)" for ds
    using Per_second_tiered t assms(1)
    by (simp add: estimate_reference_video_cost_def per_second_tiered_def seconds_of_def tier_of_def Let_def split: option.split)
  then show ?thesis by blast
next
  case (Per_token_video r m c)
  with assms(3) obtain t where t: "own_or_default r (str_or model m) m = Some t"
    using own_or_default_total [of r m "str_or model m"] by auto
  let ?rate = "of_int ark_tokens_per_second / million * get_or t (tier, audio) (get_or t (''default'', True) 16)"
  have "estimate_reference_video_cost reg provider model resolution audio tier ds =
      Some (seconds_of ds * ?rate, pricing_currency pr)" for ds
    using Per_token_video t assms(1)
    by (simp add: estimate_reference_video_cost_def per_token_video_def seconds_of_def count_of_def)
  then show ?thesis by blast
qed (use assms(2) in simp_all)

section \<open>Examples\<close>

definition sample_registry :: registry where
  "sample_registry =
     [(''gemini-aistudio'',
        [(''flash'', \<lparr>mi_media_type = ''text'', mi_default = True,
                      mi_pricing = Some (Per_token [(''flash'', [(''input'', 3 / 10), (''output'', 5 / 2)])] ''flash'' ''USD'')\<rparr>),
         (''veo'', \<lparr>mi_media_type = ''video'', mi_default = True,
                    mi_pricing = Some (Per_second_matrix [(''veo'', [((''1080p'', Some True), 2 / 5), ((''720p'', Some True), 1 / 5)])]
                                         ''veo'' Resolution_audio ''USD'')\<rparr>)]),
      (''gemini-vertex'', []),
      (''minimax'',
        [(''hailuo'', \<lparr>mi_media_type = ''video'', mi_default = True,
                       mi_pricing = Some (Per_video_bucket [(''hailuo'', [((''768p'', 6), 2), ((''768p'', 10), 4), ((''1080p'', 6), 7 / 2)])]
                                            ''hailuo'' ''CNY'')\<rparr>)])]"

lemma sample_registry_ok: "registry_ok sample_registry" "registry_distinct sample_registry"
  by (simp_all add: registry_ok_def registry_distinct_def sample_registry_def default_priced_def get_or_def
      default_model_for_provider_def)

definition video_params :: "string option \<Rightarrow> int \<Rightarrow> pricing_params" where
  "video_params model dur =
     \<lparr>pp_call_type = ''video'', pp_model = model, pp_resolution = None, pp_aspect_ratio = None, pp_duration = Some dur,
      pp_audio = True, pp_usage_tokens = None, pp_service_tier = ''default'', pp_input_tokens = None,
      pp_output_tokens = None, pp_quality = None, pp_size = None, pp_image_input = None, pp_image_output = None,
      pp_text_input = None, pp_text_output = None, pp_n = 1\<rparr>"

theorem every_call_priced_witness:
  "\<exists>amount currency. calculate_cost sample_registry ''unknown'' no_custom_price (video_params (Some ''x'') 5) = Some (amount, currency)"
  by (rule every_call_priced [OF sample_registry_ok(1)])

theorem prices_nonneg_witness:
  "calculate_pricing (Per_image_flat [(''m'', 1 / 5)] ''m'' ''USD'') (video_params None 5) = Some (1 / 5, ''USD'') \<and> (0 :: rat) \<le> 1 / 5"
proof -
  have p: "calculate_pricing (Per_image_flat [(''m'', 1 / 5)] ''m'' ''USD'') (video_params None 5) = Some (1 / 5, ''USD'')"
    by (simp add: per_image_flat_def own_or_default_def get_or_def str_or_def video_params_def)
  have "(0 :: rat) \<le> 1 / 5"
    by (rule prices_nonneg [OF _ _ p]) (simp_all add: nonneg_def counts_nonneg_def video_params_def)
  with p show ?thesis by blast
qed

theorem nearest_bucket_exact_witness:
  "nearest_bucket [((''768p'', 10), 4), ((''768p'', 6), 2)] ''768p'' 8 = Some 2"
proof -
  have "nearest_bucket [((''768p'', 6), 2), ((''768p'', 10), 4)] ''768p'' 8 = Some 2" by code_simp
  from nearest_bucket_exact [OF this] show ?thesis by simp
qed

theorem lookup_keeps_media_type_witness:
  "lookup_pricing sample_registry ''minimax'' (Some ''flash'') ''video'' \<noteq> None \<and>
   (\<forall>pr. lookup_pricing sample_registry ''minimax'' (Some ''flash'') ''video'' = Some pr \<longrightarrow>
      declared_with sample_registry ''video'' pr \<or> default_priced sample_registry ''gemini-aistudio'' ''text'' = Some pr)"
  using lookup_total [OF sample_registry_ok(1)] lookup_keeps_media_type [OF sample_registry_ok(2), of "''minimax''"] by simp

theorem linear_estimate_witness:
  "\<exists>rate. \<forall>ds. estimate_reference_video_cost sample_registry ''gemini-aistudio'' (Some ''veo'') None True ''default'' ds =
     Some (seconds_of ds * rate, ''USD'')"
proof -
  let ?pr = "Per_second_matrix [(''veo'', [((''1080p'', Some True), 2 / 5), ((''720p'', Some True), 1 / 5)])] ''veo'' Resolution_audio ''USD''"
  have "lookup_pricing sample_registry ''gemini-aistudio'' (Some ''veo'') ''video'' = Some ?pr"
    by (simp add: lookup_pricing_def sample_registry_def declared_for_def)
  from linear_estimate [OF this] show ?thesis by simp
qed

text \<open>For a table of buckets the estimate of an episode is not the sum over its units: three units of
  six seconds, each in the six-second bucket at 2, are estimated together as one bucket at 4.\<close>

theorem bucket_estimate_not_sum:
  "estimate_reference_video_cost sample_registry ''minimax'' (Some ''hailuo'') None True ''default'' [6] = Some (2, ''CNY'') \<and>
   estimate_reference_video_cost sample_registry ''minimax'' (Some ''hailuo'') None True ''default'' [6, 6, 6] = Some (4, ''CNY'')"
  by code_simp

end
