(* ===== verification/UsageLedger.thy ===== *)
theory UsageLedger
  imports PricingProps "HOL-Library.AList"
begin

text \<open>
  The ledger of provider calls (\<open>lib/db/repositories/usage_repo.py\<close>, table \<open>lib/db/models/api_call.py\<close>):
  a row is opened as pending, settled by the caller or, after a restart, by the resume path, and summed
  up for the statistics. Instants are microseconds, dates are day numbers; the prices of custom
  providers come from another table and are an argument. \<open>None\<close> is an exception.
\<close>

record api_call =
  ac_id :: int
  ac_project :: string
  ac_call_type :: string
  ac_model :: string
  ac_prompt :: "string option"
  ac_resolution :: "string option"
  ac_duration :: "int option"
  ac_aspect_ratio :: "string option"
  ac_audio :: "bool option"
  ac_status :: string
  ac_error :: "string option"
  ac_output_path :: "string option"
  ac_segment :: "string option"
  ac_started :: time
  ac_finished :: "time option"
  ac_duration_ms :: "int option"
  ac_retry :: int
  ac_cost :: rat
  ac_currency :: string
  ac_provider :: string
  ac_usage_tokens :: "int option"
  ac_input_tokens :: "int option"
  ac_output_tokens :: "int option"
  ac_image_input :: "int option"
  ac_image_output :: "int option"
  ac_text_input :: "int option"
  ac_text_output :: "int option"

record usage_db =
  ud_calls :: "api_call list"
  ud_next :: int

definition max_billed_duration_seconds :: int where
  "max_billed_duration_seconds = 86400"

section \<open>Opening and settling a call\<close>

definition text_head :: "string option \<Rightarrow> string option" where
  "text_head s = (case s of Some (c # t) \<Rightarrow> Some (take 500 (c # t)) | _ \<Rightarrow> None)"

record start_args =
  sa_project :: string
  sa_call_type :: string
  sa_model :: string
  sa_prompt :: "string option"
  sa_resolution :: "string option"
  sa_duration :: "int option"
  sa_aspect_ratio :: "string option"
  sa_audio :: bool
  sa_provider :: string
  sa_segment :: "string option"

text \<open>Columns the insert leaves out take the defaults of the table.\<close>

definition start_row :: "start_args \<Rightarrow> int \<Rightarrow> time \<Rightarrow> api_call" where
  "start_row a i now =
     \<lparr>ac_id = i, ac_project = sa_project a, ac_call_type = sa_call_type a, ac_model = sa_model a,
      ac_prompt = text_head (sa_prompt a), ac_resolution = sa_resolution a, ac_duration = sa_duration a,
      ac_aspect_ratio = sa_aspect_ratio a, ac_audio = Some (sa_audio a), ac_status = ''pending'', ac_error = None,
      ac_output_path = None, ac_segment = sa_segment a, ac_started = now, ac_finished = None, ac_duration_ms = None,
      ac_retry = 0, ac_cost = 0, ac_currency = ''USD'', ac_provider = sa_provider a, ac_usage_tokens = None,
      ac_input_tokens = None, ac_output_tokens = None, ac_image_input = None, ac_image_output = None,
      ac_text_input = None, ac_text_output = None\<rparr>"

definition start_call :: "start_args \<Rightarrow> time \<Rightarrow> usage_db \<Rightarrow> int \<times> usage_db" where
  "start_call a now db =
     (ud_next db, db\<lparr>ud_calls := ud_calls db @ [start_row a (ud_next db) now], ud_next := ud_next db + 1\<rparr>)"

type_synonym custom_prices = "int \<Rightarrow> string \<Rightarrow> custom_price option"

definition parse_provider_id :: "string \<Rightarrow> int option" where
  "parse_provider_id provider = py_int (if prefix ''custom-'' provider then drop 7 provider else provider)"

text \<open>The price row of a custom provider; an identifier without a number raises.\<close>

definition custom_price_for :: "custom_prices \<Rightarrow> string \<Rightarrow> string \<Rightarrow> custom_price option" where
  "custom_price_for prices provider model =
     (if is_custom_provider provider
      then map_option (\<lambda>i. coalesce (prices i model) no_custom_price) (parse_provider_id provider)
      else Some no_custom_price)"

definition effective_duration :: "int option \<Rightarrow> api_call \<Rightarrow> int option" where
  "effective_duration billed row =
     (case billed of
        Some d \<Rightarrow> if 0 < d \<and> d \<le> max_billed_duration_seconds then Some d else ac_duration row
      | None \<Rightarrow> ac_duration row)"

definition effective_audio :: "bool option \<Rightarrow> api_call \<Rightarrow> bool option" where
  "effective_audio audio row = (case audio of None \<Rightarrow> ac_audio row | Some b \<Rightarrow> Some b)"

text \<open>\<open>int(seconds * 1000)\<close> cuts towards zero.\<close>

definition elapsed_ms :: "time \<Rightarrow> time \<Rightarrow> int" where
  "elapsed_ms started finished =
     (if started \<le> finished then (finished - started) div 1000 else - ((started - finished) div 1000))"

definition provider_or_gemini :: "api_call \<Rightarrow> string" where
  "provider_or_gemini row = (if ac_provider row = [] then ''gemini'' else ac_provider row)"

record settle_args =
  se_status :: string
  se_cost :: "rat option"
  se_currency :: "string option"
  se_service_tier :: string
  se_usage_tokens :: "int option"
  se_audio :: "bool option"
  se_billed :: "int option"

definition settle_params :: "settle_args \<Rightarrow> api_call \<Rightarrow> pricing_params" where
  "settle_params a row =
     \<lparr>pp_call_type = ac_call_type row, pp_model = Some (ac_model row), pp_resolution = ac_resolution row,
      pp_aspect_ratio = ac_aspect_ratio row, pp_duration = effective_duration (se_billed a) row,
      pp_audio = coalesce (effective_audio (se_audio a) row) False, pp_usage_tokens = se_usage_tokens a,
      pp_service_tier = se_service_tier a, pp_input_tokens = None, pp_output_tokens = None, pp_quality = None,
      pp_size = None, pp_image_input = None, pp_image_output = None, pp_text_input = None, pp_text_output = None, pp_n = 1\<rparr>"

definition find_call :: "usage_db \<Rightarrow> int \<Rightarrow> api_call option" where
  "find_call db i = find_row ac_id i (ud_calls db)"

definition update_calls :: "(api_call \<Rightarrow> bool) \<Rightarrow> (api_call \<Rightarrow> api_call) \<Rightarrow> usage_db \<Rightarrow> usage_db" where
  "update_calls p f db = db\<lparr>ud_calls := map_where p f (ud_calls db)\<rparr>"

text \<open>The cost the resume path records: given, computed for a pending success, or nothing.\<close>

definition resume_cost :: "registry \<Rightarrow> custom_prices \<Rightarrow> settle_args \<Rightarrow> api_call \<Rightarrow> (rat \<times> string) option" where
  "resume_cost reg prices a row =
     (case se_cost a of
        Some c \<Rightarrow> Some (c, str_or (se_currency a) ''USD'')
      | None \<Rightarrow>
          if se_status a = ''success'' \<and> ac_status row = ''pending'' then
            (case custom_price_for prices (provider_or_gemini row) (ac_model row) of
               None \<Rightarrow> None
             | Some price \<Rightarrow> calculate_cost reg (provider_or_gemini row) price (settle_params a row))
          else Some (0, str_or (se_currency a) ''USD''))"

definition finalize_pending_by_call_id ::
  "registry \<Rightarrow> custom_prices \<Rightarrow> int \<Rightarrow> settle_args \<Rightarrow> time \<Rightarrow> usage_db \<Rightarrow> (nat \<times> usage_db) option" where
  "finalize_pending_by_call_id reg prices i a now db =
     (case find_call db i of
        None \<Rightarrow> Some (0, db)
      | Some row \<Rightarrow>
          (case resume_cost reg prices a row of
             None \<Rightarrow> None
           | Some (cost, cur) \<Rightarrow>
               let p = (\<lambda>r. ac_id r = i \<and> ac_status r = ''pending'');
                   f = (\<lambda>r. r\<lparr>ac_status := se_status a, ac_finished := Some now,
                              ac_duration_ms := Some (elapsed_ms (ac_started row) now),
                              ac_duration := effective_duration (se_billed a) row, ac_cost := cost, ac_currency := cur,
                              ac_usage_tokens := se_usage_tokens a, ac_audio := effective_audio (se_audio a) row\<rparr>)
               in Some (length (filter p (ud_calls db)), update_calls p f db)))"

record finish_args = settle_args +
  fi_output_path :: "string option"
  fi_error :: "string option"
  fi_retry :: int
  fi_input_tokens :: "int option"
  fi_output_tokens :: "int option"
  fi_quality :: "string option"
  fi_image_input :: "int option"
  fi_image_output :: "int option"
  fi_text_input :: "int option"
  fi_text_output :: "int option"

definition has_image_tokens :: "finish_args \<Rightarrow> bool" where
  "has_image_tokens a =
     (fi_image_input a \<noteq> None \<or> fi_image_output a \<noteq> None \<or> fi_text_input a \<noteq> None \<or> fi_text_output a \<noteq> None)"

definition sum_tokens :: "int option \<Rightarrow> int option \<Rightarrow> int option" where
  "sum_tokens a b = Some (coalesce a 0 + coalesce b 0)"

definition input_tokens_of :: "finish_args \<Rightarrow> int option" where
  "input_tokens_of a = (if has_image_tokens a then sum_tokens (fi_image_input a) (fi_text_input a) else fi_input_tokens a)"

definition output_tokens_of :: "finish_args \<Rightarrow> int option" where
  "output_tokens_of a = (if has_image_tokens a then sum_tokens (fi_image_output a) (fi_text_output a) else fi_output_tokens a)"

definition finish_params :: "finish_args \<Rightarrow> api_call \<Rightarrow> pricing_params" where
  "finish_params a row =
     (settle_params (settle_args.truncate a) row)
       \<lparr>pp_input_tokens := input_tokens_of a, pp_output_tokens := output_tokens_of a, pp_quality := fi_quality a,
        pp_image_input := fi_image_input a, pp_image_output := fi_image_output a,
        pp_text_input := fi_text_input a, pp_text_output := fi_text_output a\<rparr>"

definition currency_of_row :: "api_call \<Rightarrow> string" where
  "currency_of_row row = (if ac_currency row = [] then ''USD'' else ac_currency row)"

definition finish_cost :: "registry \<Rightarrow> custom_prices \<Rightarrow> finish_args \<Rightarrow> api_call \<Rightarrow> (rat \<times> string) option" where
  "finish_cost reg prices a row =
     (case (if se_status a = ''success'' then custom_price_for prices (provider_or_gemini row) (ac_model row)
            else Some no_custom_price) of
        None \<Rightarrow> None
      | Some price \<Rightarrow>
          (case se_cost a of
             Some c \<Rightarrow> Some (c, str_or (se_currency a) (currency_of_row row))
           | None \<Rightarrow>
               if se_status a = ''success'' then calculate_cost reg (provider_or_gemini row) price (finish_params a row)
               else Some (0, currency_of_row row)))"

definition finish_call ::
  "registry \<Rightarrow> custom_prices \<Rightarrow> int \<Rightarrow> finish_args \<Rightarrow> time \<Rightarrow> usage_db \<Rightarrow> usage_db option" where
  "finish_call reg prices i a now db =
     (case find_call db i of
        None \<Rightarrow> Some db
      | Some row \<Rightarrow>
          (case finish_cost reg prices a row of
             None \<Rightarrow> None
           | Some (cost, cur) \<Rightarrow>
               Some (update_calls (\<lambda>r. ac_id r = i)
                 (\<lambda>r. r\<lparr>ac_status := se_status a, ac_finished := Some now,
                        ac_duration_ms := Some (elapsed_ms (ac_started row) now),
                        ac_duration := effective_duration (se_billed a) row, ac_audio := effective_audio (se_audio a) row,
                        ac_retry := fi_retry a, ac_cost := cost, ac_currency := cur, ac_usage_tokens := se_usage_tokens a,
                        ac_input_tokens := input_tokens_of a, ac_output_tokens := output_tokens_of a,
                        ac_image_input := fi_image_input a, ac_image_output := fi_image_output a,
                        ac_text_input := fi_text_input a, ac_text_output := fi_text_output a,
                        ac_output_path := fi_output_path a, ac_error := text_head (fi_error a)\<rparr>) db)))"

section \<open>Statistics\<close>

record usage_filter =
  uf_project :: "string option"
  uf_provider :: "string option"
  uf_call_type :: "string option"
  uf_status :: "string option"
  uf_start_day :: "int option"
  uf_end_day :: "int option"

definition day_start :: "int \<Rightarrow> time" where
  "day_start d = d * 86400000000"

definition wanted :: "string option \<Rightarrow> string \<Rightarrow> bool" where
  "wanted f v = (case f of Some (c # t) \<Rightarrow> v = c # t | _ \<Rightarrow> True)"

definition filter_call :: "usage_filter \<Rightarrow> api_call \<Rightarrow> bool" where
  "filter_call f r =
     (wanted (uf_project f) (ac_project r) \<and> wanted (uf_provider f) (ac_provider r) \<and>
      wanted (uf_call_type f) (ac_call_type r) \<and> wanted (uf_status f) (ac_status r) \<and>
      (case uf_start_day f of Some d \<Rightarrow> day_start d \<le> ac_started r | None \<Rightarrow> True) \<and>
      (case uf_end_day f of Some d \<Rightarrow> ac_started r < day_start (d + 1) | None \<Rightarrow> True))"

definition build_filters :: "usage_filter \<Rightarrow> usage_db \<Rightarrow> api_call list" where
  "build_filters f db = filter (filter_call f) (ud_calls db)"

definition billed :: "api_call \<Rightarrow> bool" where
  "billed r = (ac_status r = ''success'' \<and> 0 < ac_cost r)"

definition cost_sum :: "(api_call \<Rightarrow> bool) \<Rightarrow> api_call list \<Rightarrow> rat" where
  "cost_sum p rows = sum_list (map ac_cost (filter p rows))"

record usage_stats =
  us_total_cost :: rat
  us_by_currency :: "(string \<times> rat) list"
  us_images :: nat
  us_videos :: nat
  us_texts :: nat
  us_audios :: nat
  us_failed :: nat
  us_total :: nat

definition count_calls :: "(api_call \<Rightarrow> bool) \<Rightarrow> api_call list \<Rightarrow> nat" where
  "count_calls p rows = length (filter p rows)"

definition get_usage_stats :: "usage_filter \<Rightarrow> usage_db \<Rightarrow> usage_stats" where
  "get_usage_stats f db =
     (let rows = build_filters f db in
      \<lparr>us_total_cost = py_round 4 (cost_sum (\<lambda>r. billed r \<and> ac_currency r = ''USD'') rows),
       us_by_currency = map (\<lambda>c. (c, py_round 4 (cost_sum (\<lambda>r. billed r \<and> ac_currency r = c) rows)))
                          (remdups (map ac_currency (filter billed rows))),
       us_images = count_calls (\<lambda>r. ac_call_type r = ''image'') rows,
       us_videos = count_calls (\<lambda>r. ac_call_type r = ''video'') rows,
       us_texts = count_calls (\<lambda>r. ac_call_type r = ''text'') rows,
       us_audios = count_calls (\<lambda>r. ac_call_type r = ''audio'') rows,
       us_failed = count_calls (\<lambda>r. ac_status r = ''failed'') rows,
       us_total = length rows\<rparr>)"

record provider_stat =
  ps_provider :: string
  ps_call_type :: string
  ps_calls :: nat
  ps_success :: nat
  ps_cost_usd :: rat
  ps_by_currency :: "(string \<times> rat) list"
  ps_seconds :: rat

definition provider_group :: "string \<times> string \<Rightarrow> api_call list \<Rightarrow> api_call list" where
  "provider_group k rows = filter (\<lambda>r. (ac_provider r, ac_call_type r) = k) rows"

definition provider_stat_of :: "api_call list \<Rightarrow> string \<times> string \<Rightarrow> provider_stat" where
  "provider_stat_of rows k =
     (let g = provider_group k rows;
          ms = sum_list (map (\<lambda>r. coalesce (ac_duration_ms r) 0) g) in
      \<lparr>ps_provider = fst k, ps_call_type = snd k, ps_calls = length g,
       ps_success = count_calls (\<lambda>r. ac_status r = ''success'') g,
       ps_cost_usd = py_round 4 (cost_sum (\<lambda>r. billed r \<and> ac_currency r = ''USD'') g),
       ps_by_currency = map (\<lambda>c. (c, py_round 4 (cost_sum (\<lambda>r. billed r \<and> ac_currency r = c) g)))
                          (remdups (map ac_currency (filter billed g))),
       ps_seconds = (if ms \<noteq> 0 then py_round 1 (of_int ms / 1000) else 0)\<rparr>)"

definition get_stats_grouped_by_provider :: "usage_filter \<Rightarrow> usage_db \<Rightarrow> provider_stat list" where
  "get_stats_grouped_by_provider f db =
     (let rows = build_filters f db
      in map (provider_stat_of rows) (sorted_list_of_set (set (map (\<lambda>r. (ac_provider r, ac_call_type r)) rows))))"

definition get_calls :: "usage_filter \<Rightarrow> nat \<Rightarrow> nat \<Rightarrow> usage_db \<Rightarrow> api_call list \<times> nat" where
  "get_calls f page page_size db =
     (let rows = build_filters f db
      in (take page_size (drop ((page - 1) * page_size) (order_desc ac_started rows)), length rows))"

text \<open>
  Costs of a project by segment, call type and currency: the groups of the query are stored one after the
  other, calls without a segment under one key.
\<close>

type_synonym cost_group = "string option \<times> string \<times> string"

definition cost_group_of :: "api_call \<Rightarrow> cost_group" where
  "cost_group_of r = (ac_segment r, ac_call_type r, ac_currency r)"

definition segment_key :: "cost_group \<Rightarrow> string \<times> string \<times> string" where
  "segment_key g = (coalesce (fst g) ''__project__'', snd g)"

definition get_actual_costs_by_segment :: "string \<Rightarrow> usage_db \<Rightarrow> ((string \<times> string \<times> string) \<times> rat) list" where
  "get_actual_costs_by_segment project db =
     (let rows = filter (\<lambda>r. ac_project r = project \<and> billed r) (ud_calls db)
      in foldl (\<lambda>d g. AList.update (segment_key g) (py_round 6 (cost_sum (\<lambda>r. cost_group_of r = g) rows)) d) []
           (remdups (map cost_group_of rows)))"

definition normal_path :: "string \<Rightarrow> string" where
  "normal_path p = lower (map (\<lambda>c. if c = CHR 0x5C then CHR ''/'' else c) p)"

definition in_folder :: "string \<Rightarrow> string \<Rightarrow> bool" where
  "in_folder folder p = (sublist (''/'' @ folder @ ''/'') p \<or> prefix (folder @ ''/'') p)"

definition classify_asset_output_path :: "string option \<Rightarrow> string" where
  "classify_asset_output_path path =
     (case path of
        Some (c # t) \<Rightarrow>
          let p = normal_path (c # t) in
          (case List.find (\<lambda>a. in_folder a p) [''characters'', ''scenes'', ''props'', ''products''] of
             Some a \<Rightarrow> a
           | None \<Rightarrow> if in_folder ''clues'' p then ''props'' else ''other'')
      | _ \<Rightarrow> ''other'')"

definition get_project_image_costs_by_asset_type :: "string \<Rightarrow> usage_db \<Rightarrow> ((string \<times> string) \<times> rat) list" where
  "get_project_image_costs_by_asset_type project db =
     (let rows = filter (\<lambda>r. ac_project r = project \<and> billed r \<and> ac_call_type r = ''image'' \<and> ac_segment r = None) (ud_calls db)
      in foldl (\<lambda>d (path, cur).
           let k = (classify_asset_output_path path, cur)
           in AList.update k (py_round 6 (get_or d k 0 +
                cost_sum (\<lambda>r. ac_output_path r = path \<and> ac_currency r = cur) rows)) d) []
           (remdups (map (\<lambda>r. (ac_output_path r, ac_currency r)) rows)))"

definition get_projects_list :: "usage_db \<Rightarrow> string list" where
  "get_projects_list db = sorted_list_of_set (set (map ac_project (ud_calls db)))"

end
