(* ===== verification/UsageProps.thy ===== *)
theory UsageProps
  imports UsageLedger
begin

text \<open>
  Properties of the ledger: a call is settled by the resume path at most once and then like the normal
  path would have except for its output path and error message, recorded durations stay plausible, and the statistics account for every row once.
\<close>

section \<open>Rows\<close>

definition ledger_ok :: "usage_db \<Rightarrow> bool" where
  "ledger_ok db = (distinct (map ac_id (ud_calls db)) \<and> (\<forall>r\<in>set (ud_calls db). ac_id r < ud_next db))"

lemma start_call_ok: "ledger_ok db \<Longrightarrow> ledger_ok (snd (start_call a now db))"
  by (fastforce simp: ledger_ok_def start_call_def start_row_def)

lemma update_calls_ok:
  assumes "ledger_ok db" and "\<And>r. ac_id (f r) = ac_id r"
  shows "ledger_ok (update_calls p f db)"
  using assms by (auto simp: ledger_ok_def update_calls_def map_key_map_where elim!: in_map_whereE)

lemma find_call_mem: "find_call db i = Some row \<Longrightarrow> row \<in> set (ud_calls db) \<and> ac_id row = i"
  unfolding find_call_def by (rule find_row_SomeD)

lemma find_call_unique:
  "ledger_ok db \<Longrightarrow> find_call db i = Some row \<Longrightarrow> r \<in> set (ud_calls db) \<Longrightarrow> ac_id r = i \<Longrightarrow> r = row"
  by (auto simp: ledger_ok_def find_call_def find_row_Some_iff distinct_map inj_on_def)

lemma pending_rows:
  assumes "ledger_ok db" and "find_call db i = Some row"
  shows "filter (\<lambda>r. ac_id r = i \<and> ac_status r = ''pending'') (ud_calls db) =
         (if ac_status row = ''pending'' then [row] else [])"
proof -
  have "filter (\<lambda>r. ac_id r = i) (ud_calls db) = [row]"
    using assms by (intro filter_key_unique) (auto simp: ledger_ok_def find_call_def)
  then have "filter (\<lambda>r. ac_status r = ''pending'') [row] =
      filter (\<lambda>r. ac_id r = i \<and> ac_status r = ''pending'') (ud_calls db)"
    by (metis (no_types, lifting) filter_cong filter_filter)
  then show ?thesis by auto
qed

lemma update_pending_eq:
  assumes "ledger_ok db" and "find_call db i = Some row" and "ac_status row = ''pending''"
  shows "update_calls (\<lambda>r. ac_id r = i \<and> ac_status r = ''pending'') f db = update_calls (\<lambda>r. ac_id r = i) f db"
proof -
  have "map_where (\<lambda>r. ac_id r = i \<and> ac_status r = ''pending'') f (ud_calls db) = map_where (\<lambda>r. ac_id r = i) f (ud_calls db)"
    unfolding map_where_def using find_call_unique [OF assms(1,2)] assms(3) by (intro map_cong) auto
  then show ?thesis by (simp add: update_calls_def)
qed

lemma update_settled:
  assumes "ledger_ok db" and "find_call db i = Some row" and "ac_status row \<noteq> ''pending''"
  shows "update_calls (\<lambda>r. ac_id r = i \<and> ac_status r = ''pending'') f db = db"
proof -
  have "map_where (\<lambda>r. ac_id r = i \<and> ac_status r = ''pending'') f (ud_calls db) = ud_calls db"
    using find_call_unique [OF assms(1,2)] assms(3) by (intro map_where_id) auto
  then show ?thesis by (simp add: update_calls_def)
qed

lemma find_call_update:
  assumes "\<And>r. ac_id (f r) = ac_id r"
  shows "find_call (update_calls p f db) i = map_option (\<lambda>r. if p r then f r else r) (find_call db i)"
  unfolding find_call_def update_calls_def by (simp add: find_row_map_where assms)

section \<open>The resume path\<close>

text \<open>The resume path settles a call once: a call that is no longer pending is left as it is, and
  finalizing a call a second time changes nothing.\<close>

theorem resume_settles_once:
  assumes "ledger_ok db" and "finalize_pending_by_call_id reg prices i a now db = Some (n, db')"
    and "finalize_pending_by_call_id reg prices i a' now' db' = Some (n', db'')" and "se_status a \<noteq> ''pending''"
  shows "(case find_call db i of
            Some row \<Rightarrow> n = (if ac_status row = ''pending'' then 1 else 0) \<and> (ac_status row \<noteq> ''pending'' \<longrightarrow> db' = db)
          | None \<Rightarrow> n = 0 \<and> db' = db) \<and> n' = 0 \<and> db'' = db'"
proof (cases "find_call db i")
  case None
  with assms(2,3) show ?thesis by (simp add: finalize_pending_by_call_id_def)
next
  case (Some row)
  let ?p = "\<lambda>r. ac_id r = i \<and> ac_status r = ''pending''"
  from assms(2) Some obtain f where f: "n = length (filter ?p (ud_calls db))" "db' = update_calls ?p f db"
      "\<And>r. ac_id (f r) = ac_id r" "\<And>r. ac_status (f r) = se_status a"
    by (auto simp: finalize_pending_by_call_id_def Let_def split: option.splits)
  have n: "n = (if ac_status row = ''pending'' then 1 else 0)" using pending_rows [OF assms(1) Some] f(1) by simp
  have same: "db' = db" if "ac_status row \<noteq> ''pending''"
    unfolding f(2) by (rule update_settled [OF assms(1) Some that])
  have ok: "ledger_ok db'" unfolding f(2) by (rule update_calls_ok [OF assms(1) f(3)])
  obtain row' where row': "find_call db' i = Some row'" "ac_status row' \<noteq> ''pending''"
    using Some f(2-4) assms(4) by (auto simp: find_call_update find_call_mem)
  from assms(3) row' obtain g where g: "n' = length (filter ?p (ud_calls db'))" "db'' = update_calls ?p g db'"
    by (auto simp: finalize_pending_by_call_id_def Let_def split: option.splits)
  have "n' = 0" using pending_rows [OF ok row'(1)] row'(2) g(1) by simp
  moreover have "db'' = db'" unfolding g(2) by (rule update_settled [OF ok row'])
  ultimately show ?thesis using Some n same by auto
qed

text \<open>What the running process passes at the end of a video call: the same facts of the provider, with the path of the
  file or the text of the error (\<open>lib/media_generator.py\<close>, 713-729).\<close>

definition finish_of :: "settle_args \<Rightarrow> string option \<Rightarrow> string option \<Rightarrow> finish_args" where
  "finish_of a path err = settle_args.extend a
     \<lparr>fi_output_path = path, fi_error = err, fi_retry = 0, fi_input_tokens = None, fi_output_tokens = None,
      fi_quality = None, fi_image_input = None, fi_image_output = None, fi_text_input = None, fi_text_output = None\<rparr>"

definition untouched :: "api_call \<Rightarrow> bool" where
  "untouched r =
     (ac_status r = ''pending'' \<and> ac_currency r = ''USD'' \<and> ac_retry r = 0 \<and> ac_input_tokens r = None \<and>
      ac_output_tokens r = None \<and> ac_image_input r = None \<and> ac_image_output r = None \<and> ac_text_input r = None \<and>
      ac_text_output r = None \<and> ac_output_path r = None \<and> ac_error r = None)"

lemma start_row_untouched: "untouched (start_row a i now)"
  by (simp add: untouched_def start_row_def)

lemma finish_of_simps:
  "se_status (finish_of a path err) = se_status a" "se_cost (finish_of a path err) = se_cost a"
  "se_currency (finish_of a path err) = se_currency a" "se_usage_tokens (finish_of a path err) = se_usage_tokens a"
  "se_audio (finish_of a path err) = se_audio a" "se_billed (finish_of a path err) = se_billed a"
  "settle_args.truncate (finish_of a path err) = a" "fi_output_path (finish_of a path err) = path"
  "fi_error (finish_of a path err) = err" "fi_retry (finish_of a path err) = 0"
  "input_tokens_of (finish_of a path err) = None" "output_tokens_of (finish_of a path err) = None"
  "fi_quality (finish_of a path err) = None" "fi_image_input (finish_of a path err) = None"
  "fi_image_output (finish_of a path err) = None" "fi_text_input (finish_of a path err) = None"
  "fi_text_output (finish_of a path err) = None"
  by (simp_all add: finish_of_def settle_args.defs input_tokens_of_def output_tokens_of_def has_image_tokens_def)

lemma finish_params_of: "finish_params (finish_of a path err) row = settle_params a row"
  by (simp add: finish_params_def finish_of_simps settle_params_def)

lemma same_cost:
  assumes "untouched row" and "se_cost a = None \<or> se_status a \<noteq> ''success''" and "se_currency a = None"
  shows "finish_cost reg prices (finish_of a path err) row = resume_cost reg prices a row"
  using assms by (auto simp: finish_cost_def resume_cost_def finish_of_simps finish_params_of untouched_def
      currency_of_row_def str_or_def split: option.splits)

text \<open>The columns the resume path does not write: the path of the file and the text of the error.\<close>

definition without_outcome :: "int \<Rightarrow> usage_db \<Rightarrow> usage_db" where
  "without_outcome i db = update_calls (\<lambda>r. ac_id r = i) (\<lambda>r. r\<lparr>ac_output_path := None, ac_error := None\<rparr>) db"

text \<open>C19. A video call settled after a restart is booked as the running process would have booked it: for a row as it was
  opened, settled with the same facts of the provider and, as the callers do, without a currency and with a cost only on a failure,
  both paths raise in the same cases and otherwise leave the same ledger, with the same status, times, duration, cost and
  currency, except that the resume path leaves the output path and the error message of the row empty, whatever the
  running process would have recorded there.\<close>

theorem resume_books_like_finish:
  assumes "ledger_ok db" and "find_call db i = Some row" and "untouched row"
    and "se_cost a = None \<or> se_status a \<noteq> ''success''" and "se_currency a = None"
  shows "map_option snd (finalize_pending_by_call_id reg prices i a now db) =
         map_option (without_outcome i) (finish_call reg prices i (finish_of a path err) now db)"
proof (cases "resume_cost reg prices a row")
  case None
  with same_cost [OF assms(3-5)] assms(2) show ?thesis
    by (simp add: finalize_pending_by_call_id_def finish_call_def)
next
  case (Some c)
  obtain cost cur where c: "c = (cost, cur)" by fastforce
  have pending: "ac_status row = ''pending''" using assms(3) by (simp add: untouched_def)
  have "map_where (\<lambda>r. ac_id r = i)
      (\<lambda>r. r\<lparr>ac_status := se_status a, ac_finished := Some now, ac_duration_ms := Some (elapsed_ms (ac_started row) now),
             ac_duration := effective_duration (se_billed a) row, ac_cost := cost, ac_currency := cur,
             ac_usage_tokens := se_usage_tokens a, ac_audio := effective_audio (se_audio a) row\<rparr>) (ud_calls db) =
    map_where (\<lambda>r. ac_id r = i) (\<lambda>r. r\<lparr>ac_output_path := None, ac_error := None\<rparr>) (map_where (\<lambda>r. ac_id r = i)
      (\<lambda>r. r\<lparr>ac_status := se_status a, ac_finished := Some now, ac_duration_ms := Some (elapsed_ms (ac_started row) now),
             ac_duration := effective_duration (se_billed a) row, ac_audio := effective_audio (se_audio a) row,
             ac_retry := 0, ac_cost := cost, ac_currency := cur, ac_usage_tokens := se_usage_tokens a,
             ac_input_tokens := None, ac_output_tokens := None, ac_image_input := None, ac_image_output := None,
             ac_text_input := None, ac_text_output := None, ac_output_path := path, ac_error := text_head err\<rparr>) (ud_calls db))"
    using find_call_unique [OF assms(1,2)] assms(3)
    by (auto simp: map_where_def untouched_def)
  with Some c same_cost [OF assms(3-5)] assms(2) update_pending_eq [OF assms(1,2) pending] show ?thesis
    by (simp add: finalize_pending_by_call_id_def finish_call_def finish_of_simps Let_def)
       (simp add: update_calls_def without_outcome_def)
qed

section \<open>The statistics\<close>

lemma cost_sum_partition:
  assumes "finite K" and "\<And>r. r \<in> set rows \<Longrightarrow> (ac_provider r, ac_call_type r) \<in> K"
  shows "(\<Sum>k\<in>K. cost_sum p (provider_group k rows)) = cost_sum p rows"
  using assms(2)
proof (induction rows)
  case Nil
  then show ?case by (simp add: cost_sum_def provider_group_def)
next
  case (Cons r rows)
  let ?k = "(ac_provider r, ac_call_type r)"
  have "cost_sum p (provider_group k (r # rows)) =
      (if k = ?k then (if p r then ac_cost r else 0) else 0) + cost_sum p (provider_group k rows)" for k
    by (auto simp: cost_sum_def provider_group_def)
  then have "(\<Sum>k\<in>K. cost_sum p (provider_group k (r # rows))) =
      (\<Sum>k\<in>K. if k = ?k then (if p r then ac_cost r else 0) else 0) + cost_sum p rows"
    using Cons by (simp add: sum.distrib)
  also have "(\<Sum>k\<in>K. if k = ?k then (if p r then ac_cost r else 0) else 0) = (if p r then ac_cost r else 0)"
    using assms(1) Cons.prems [of r] by (simp add: sum.delta)
  finally show ?case by (simp add: cost_sum_def)
qed

lemma length_partition:
  assumes "finite K" and "\<And>r. r \<in> set rows \<Longrightarrow> (ac_provider r, ac_call_type r) \<in> K"
  shows "(\<Sum>k\<in>K. length (provider_group k rows)) = length rows"
  using assms(2)
proof (induction rows)
  case Nil
  then show ?case by (simp add: provider_group_def)
next
  case (Cons r rows)
  let ?k = "(ac_provider r, ac_call_type r)"
  have "length (provider_group k (r # rows)) = (if k = ?k then 1 else 0) + length (provider_group k rows)" for k
    by (auto simp: provider_group_def)
  then have "(\<Sum>k\<in>K. length (provider_group k (r # rows))) = (\<Sum>k\<in>K. if k = ?k then 1 else 0) + length rows"
    using Cons by (simp add: sum.distrib)
  also have "(\<Sum>k\<in>K. if k = ?k then 1 else (0 :: nat)) = 1"
    using assms(1) Cons.prems [of r] by (simp add: sum.delta)
  finally show ?case by simp
qed

lemma round_half_even_error: "\<bar>of_int (round_half_even x) - x\<bar> \<le> 1 / 2"
proof -
  have "of_int \<lfloor>x\<rfloor> \<le> x" "x < of_int \<lfloor>x\<rfloor> + 1" by linarith+
  then show ?thesis by (auto simp: round_half_even_def Let_def abs_le_iff)
qed

lemma py_round_error: "\<bar>py_round n x - x\<bar> \<le> 1 / (2 * 10 ^ n)"
proof -
  have "py_round n x - x = (of_int (round_half_even (x * 10 ^ n)) - x * 10 ^ n) / 10 ^ n"
    by (simp add: py_round_def field_simps)
  then have "\<bar>py_round n x - x\<bar> = \<bar>of_int (round_half_even (x * 10 ^ n)) - x * 10 ^ n\<bar> / 10 ^ n"
    by (simp add: abs_divide)
  also have "\<dots> \<le> (1 / 2) / 10 ^ n"
    using round_half_even_error [of "x * 10 ^ n"] by (intro divide_right_mono) auto
  finally show ?thesis by simp
qed

lemma sum_round_error:
  fixes f g :: "'k \<Rightarrow> rat"
  assumes "finite K" and "\<And>k. k \<in> K \<Longrightarrow> \<bar>f k - g k\<bar> \<le> e"
  shows "\<bar>(\<Sum>k\<in>K. f k) - (\<Sum>k\<in>K. g k)\<bar> \<le> of_nat (card K) * e"
proof -
  have "\<bar>(\<Sum>k\<in>K. f k) - (\<Sum>k\<in>K. g k)\<bar> = \<bar>\<Sum>k\<in>K. f k - g k\<bar>" by (simp add: sum_subtractf)
  also have "\<dots> \<le> (\<Sum>k\<in>K. \<bar>f k - g k\<bar>)" by (rule sum_abs)
  also have "\<dots> \<le> (\<Sum>k\<in>K. e)" using assms(2) by (rule sum_mono)
  finally show ?thesis by simp
qed

lemma provider_stats_sums:
  shows "sum_list (map ps_calls (get_stats_grouped_by_provider f db)) = us_total (get_usage_stats f db)"
    and "\<bar>sum_list (map ps_cost_usd (get_stats_grouped_by_provider f db)) - us_total_cost (get_usage_stats f db)\<bar> \<le>
         of_nat (length (get_stats_grouped_by_provider f db) + 1) / 20000"
proof -
  define rows where "rows = build_filters f db"
  define K where "K = set (map (\<lambda>r. (ac_provider r, ac_call_type r)) rows)"
  define p where "p = (\<lambda>r. billed r \<and> ac_currency r = ''USD'')"
  have K: "finite K" "\<And>r. r \<in> set rows \<Longrightarrow> (ac_provider r, ac_call_type r) \<in> K" by (auto simp: K_def)
  have grouped: "get_stats_grouped_by_provider f db = map (provider_stat_of rows) (sorted_list_of_set K)"
    by (simp add: get_stats_grouped_by_provider_def Let_def K_def rows_def)
  have sums: "sum_list (map g (sorted_list_of_set K)) = sum g K" for g :: "string \<times> string \<Rightarrow> 'a :: comm_monoid_add"
    using K(1) by (metis sorted_list_of_set.distinct_sorted_key_list_of_set sorted_list_of_set.set_sorted_key_list_of_set
        sum_list_distinct_conv_sum_set)
  show "sum_list (map ps_calls (get_stats_grouped_by_provider f db)) = us_total (get_usage_stats f db)"
    using length_partition [OF K]
    by (simp add: grouped o_def provider_stat_of_def Let_def sums get_usage_stats_def flip: rows_def)
  have cost: "sum_list (map ps_cost_usd (get_stats_grouped_by_provider f db)) = (\<Sum>k\<in>K. py_round 4 (cost_sum p (provider_group k rows)))"
    by (simp add: grouped o_def provider_stat_of_def Let_def sums p_def)
  let ?S = "\<Sum>k\<in>K. py_round 4 (cost_sum p (provider_group k rows))"
  have "\<bar>?S - (\<Sum>k\<in>K. cost_sum p (provider_group k rows))\<bar> \<le> of_nat (card K) * (1 / 20000)"
    by (rule sum_round_error [OF K(1)]) (use py_round_error [of 4] in simp)
  moreover have "(\<Sum>k\<in>K. cost_sum p (provider_group k rows)) = cost_sum p rows"
    by (rule cost_sum_partition) (use K in auto)
  ultimately have "\<bar>?S - cost_sum p rows\<bar> \<le> of_nat (card K) * (1 / 20000)" by simp
  moreover have "\<bar>py_round 4 (cost_sum p rows) - cost_sum p rows\<bar> \<le> 1 / 20000"
    using py_round_error [of 4] by simp
  ultimately have "\<bar>?S - py_round 4 (cost_sum p rows)\<bar> \<le> of_nat (card K) * (1 / 20000) + 1 / 20000"
    by (simp only: abs_le_iff) linarith
  moreover have "us_total_cost (get_usage_stats f db) = py_round 4 (cost_sum p rows)"
    by (simp add: get_usage_stats_def Let_def p_def rows_def)
  moreover have "length (get_stats_grouped_by_provider f db) = card K"
    using K(1) by (simp add: grouped)
  ultimately show "\<bar>sum_list (map ps_cost_usd (get_stats_grouped_by_provider f db)) - us_total_cost (get_usage_stats f db)\<bar> \<le>
         of_nat (length (get_stats_grouped_by_provider f db) + 1) / 20000"
    unfolding cost by (simp add: add_divide_distrib add.commute)
qed

text \<open>The statistics by provider account for every call of the ledger once: the groups add up to the total
  number of calls, and their costs to the total cost up to the rounding of each figure.\<close>

theorem provider_stats_add_up:
  "sum_list (map ps_calls (get_stats_grouped_by_provider f db)) = us_total (get_usage_stats f db) \<and>
   \<bar>sum_list (map ps_cost_usd (get_stats_grouped_by_provider f db)) - us_total_cost (get_usage_stats f db)\<bar> \<le>
     of_nat (length (get_stats_grouped_by_provider f db) + 1) / 20000"
  using provider_stats_sums by blast

section \<open>Reachable ledgers\<close>

definition registry_nonneg :: "registry \<Rightarrow> bool" where
  "registry_nonneg reg =
     (\<forall>models\<in>snd ` set reg. \<forall>i\<in>snd ` set models. case mi_pricing i of Some pr \<Rightarrow> rates_nonneg pr | None \<Rightarrow> True)"

definition custom_nonneg :: "custom_prices \<Rightarrow> bool" where
  "custom_nonneg prices =
     (\<forall>i m p. prices i m = Some p \<longrightarrow> 0 \<le> coalesce (cp_input p) 0 \<and> 0 \<le> coalesce (cp_output p) 0)"

definition settle_args_ok :: "'a settle_args_scheme \<Rightarrow> bool" where
  "settle_args_ok a = (0 \<le> coalesce (se_cost a) 0 \<and> 0 \<le> coalesce (se_usage_tokens a) 0)"

definition finish_args_ok :: "finish_args \<Rightarrow> bool" where
  "finish_args_ok a =
     (settle_args_ok a \<and>
      list_all (\<lambda>n. 0 \<le> coalesce n 0) [fi_input_tokens a, fi_output_tokens a, fi_image_input a, fi_image_output a,
                                          fi_text_input a, fi_text_output a])"

inductive usage_step :: "registry \<Rightarrow> custom_prices \<Rightarrow> usage_db \<Rightarrow> usage_db \<Rightarrow> bool" for reg prices where
  start: "0 \<le> coalesce (sa_duration a) 0 \<Longrightarrow> usage_step reg prices db (snd (start_call a now db))"
| finish: "finish_args_ok a \<Longrightarrow> finish_call reg prices i a now db = Some db' \<Longrightarrow> usage_step reg prices db db'"
| finalize: "settle_args_ok a \<Longrightarrow> finalize_pending_by_call_id reg prices i a now db = Some (n, db') \<Longrightarrow>
             usage_step reg prices db db'"

definition empty_ledger :: usage_db where
  "empty_ledger = \<lparr>ud_calls = [], ud_next = 1\<rparr>"

definition call_ok :: "api_call \<Rightarrow> bool" where
  "call_ok r = (0 \<le> ac_cost r \<and> 0 \<le> coalesce (ac_duration r) 0)"

definition ledger_inv :: "usage_db \<Rightarrow> bool" where
  "ledger_inv db = (ledger_ok db \<and> (\<forall>r\<in>set (ud_calls db). call_ok r))"

lemma effective_duration_nonneg: "0 \<le> coalesce (ac_duration row) 0 \<Longrightarrow> 0 \<le> coalesce (effective_duration b row) 0"
  by (auto simp: effective_duration_def split: option.split)

lemma custom_cost_nonneg:
  assumes "counts_nonneg p" and "0 \<le> coalesce (cp_input c) 0" and "0 \<le> coalesce (cp_output c) 0"
  shows "0 \<le> fst (calculate_custom_cost c p)"
  using assms by (auto simp: calculate_custom_cost_def Let_def counts_nonneg_def count_of_nonneg million_def
      characters_per_pricing_unit_def split: option.split intro!: mult_nonneg_nonneg divide_nonneg_nonneg add_nonneg_nonneg)

lemma anthropic_nonneg: "rates_nonneg anthropic_pricing"
  by (simp add: anthropic_pricing_def anthropic_rates_def nonneg_def)

lemma calculate_cost_nonneg:
  assumes "registry_nonneg reg" and "counts_nonneg p" and "0 \<le> coalesce (cp_input c) 0" and "0 \<le> coalesce (cp_output c) 0"
    and "calculate_cost reg provider c p = Some (a, cur)"
  shows "0 \<le> a"
proof (cases "is_custom_provider provider")
  case True
  with custom_cost_nonneg [OF assms(2-4)] assms(5) show ?thesis by (auto simp: calculate_cost_def)
next
  case custom: False
  show ?thesis
  proof (cases "pp_call_type p = ''text'' \<and> pp_input_tokens p = None")
    case True
    with custom assms(5) show ?thesis by (simp add: calculate_cost_def)
  next
    case False
    with custom assms(5) obtain pr q where pr: "lookup_pricing reg provider (pp_model p) (pp_call_type p) = Some pr"
        "calculate_pricing pr q = Some (a, cur)" "counts_nonneg q"
      using assms(2) by (auto simp: calculate_cost_def counts_nonneg_def split: option.splits if_splits)
    have "rates_nonneg pr"
      using lookup_mem [OF pr(1)] assms(1) anthropic_nonneg
      by (fastforce simp: registry_nonneg_def registry_prices_def split: option.splits)
    then show ?thesis using prices_nonneg_aux [OF _ pr(3,2)] by blast
  qed
qed

lemma params_nonneg:
  assumes "call_ok row" and "settle_args_ok a"
  shows "counts_nonneg (settle_params a row)"
  using assms effective_duration_nonneg [of row "se_billed a"]
  by (simp add: counts_nonneg_def settle_params_def settle_args_ok_def call_ok_def)

lemma finish_params_nonneg:
  assumes "call_ok row" and "finish_args_ok a"
  shows "counts_nonneg (finish_params a row)"
proof -
  have "settle_args_ok (settle_args.truncate a)"
    using assms(2) by (simp add: finish_args_ok_def settle_args_ok_def settle_args.defs)
  from params_nonneg [OF assms(1) this] assms(2) show ?thesis
    by (auto simp: counts_nonneg_def finish_params_def finish_args_ok_def input_tokens_of_def output_tokens_of_def sum_tokens_def)
qed

lemma custom_price_nonneg:
  assumes "custom_nonneg prices" and "custom_price_for prices provider model = Some c"
  shows "0 \<le> coalesce (cp_input c) 0" "0 \<le> coalesce (cp_output c) 0"
proof -
  have "c = no_custom_price \<or> (\<exists>i. prices i model = Some c)"
    using assms(2) by (auto simp: custom_price_for_def coalesce_def split: if_splits option.splits)
  with assms(1) show "0 \<le> coalesce (cp_input c) 0" "0 \<le> coalesce (cp_output c) 0"
    by (auto simp: custom_nonneg_def no_custom_price_def)
qed

lemma resume_cost_nonneg:
  assumes "registry_nonneg reg" and "custom_nonneg prices" and "call_ok row" and "settle_args_ok a"
    and "resume_cost reg prices a row = Some (cost, cur)"
  shows "0 \<le> cost"
proof -
  have p: "counts_nonneg (settle_params a row)" by (rule params_nonneg [OF assms(3,4)])
  show ?thesis
    using assms(4,5) calculate_cost_nonneg [OF assms(1) p custom_price_nonneg [OF assms(2)]]
    by (auto simp: resume_cost_def settle_args_ok_def split: option.splits if_splits)
qed

lemma finish_cost_nonneg:
  assumes "registry_nonneg reg" and "custom_nonneg prices" and "call_ok row" and "finish_args_ok a"
    and "finish_cost reg prices a row = Some (cost, cur)"
  shows "0 \<le> cost"
proof -
  have p: "counts_nonneg (finish_params a row)" by (rule finish_params_nonneg [OF assms(3,4)])
  show ?thesis
    using assms(4,5) calculate_cost_nonneg [OF assms(1) p custom_price_nonneg [OF assms(2)]]
    by (auto simp: finish_cost_def finish_args_ok_def settle_args_ok_def split: option.splits if_splits)
qed

lemma update_calls_inv:
  assumes "ledger_inv db" and "\<And>r. ac_id (f r) = ac_id r" and "\<And>r. call_ok r \<Longrightarrow> call_ok (f r)"
  shows "ledger_inv (update_calls p f db)"
  using assms update_calls_ok [of db f p] by (auto simp: ledger_inv_def update_calls_def elim!: in_map_whereE)

lemma find_call_ok: "ledger_inv db \<Longrightarrow> find_call db i = Some row \<Longrightarrow> call_ok row"
  by (auto simp: ledger_inv_def dest: find_call_mem)

lemma usage_step_inv:
  assumes "usage_step reg prices db db'" and "registry_nonneg reg" and "custom_nonneg prices" and "ledger_inv db"
  shows "ledger_inv db'"
  using assms(1)
proof cases
  case (start a now)
  with assms(4) start_call_ok [of db a now] show ?thesis
    by (auto simp: ledger_inv_def start_call_def start_row_def call_ok_def)
next
  case (finish a i now)
  show ?thesis
  proof (cases "find_call db i")
    case None
    with finish assms(4) show ?thesis by (simp add: finish_call_def)
  next
    case (Some row)
    with finish(2) obtain cost cur where c: "finish_cost reg prices a row = Some (cost, cur)"
      by (auto simp: finish_call_def split: option.splits)
    have "0 \<le> cost" by (rule finish_cost_nonneg [OF assms(2,3) find_call_ok [OF assms(4) Some] finish(1) c])
    moreover have "0 \<le> coalesce (effective_duration (se_billed a) row) 0"
      using find_call_ok [OF assms(4) Some] by (intro effective_duration_nonneg) (simp add: call_ok_def)
    ultimately show ?thesis
      using finish(2) Some c by (auto simp: finish_call_def call_ok_def intro!: update_calls_inv assms(4))
  qed
next
  case (finalize a i now n)
  show ?thesis
  proof (cases "find_call db i")
    case None
    with finalize assms(4) show ?thesis by (simp add: finalize_pending_by_call_id_def)
  next
    case (Some row)
    with finalize(2) obtain cost cur where c: "resume_cost reg prices a row = Some (cost, cur)"
      by (auto simp: finalize_pending_by_call_id_def split: option.splits)
    have "0 \<le> cost" by (rule resume_cost_nonneg [OF assms(2,3) find_call_ok [OF assms(4) Some] finalize(1) c])
    moreover have "0 \<le> coalesce (effective_duration (se_billed a) row) 0"
      using find_call_ok [OF assms(4) Some] by (intro effective_duration_nonneg) (simp add: call_ok_def)
    ultimately show ?thesis
      using finalize(2) Some c
      by (auto simp: finalize_pending_by_call_id_def Let_def call_ok_def intro!: update_calls_inv assms(4))
  qed
qed

text \<open>In every ledger that is reached from the empty one by opening, finishing and resuming calls, identifiers
  are unique, no cost is negative, and the total of the statistics is the sum over all successful calls in
  dollars, rounded once.\<close>

theorem ledger_totals:
  assumes "(usage_step reg prices)\<^sup>*\<^sup>* empty_ledger db" and "registry_nonneg reg" and "custom_nonneg prices"
  shows "distinct (map ac_id (ud_calls db)) \<and> (\<forall>r\<in>set (ud_calls db). 0 \<le> ac_cost r) \<and>
         us_total_cost (get_usage_stats f db) =
           py_round 4 (sum_list (map ac_cost (filter (\<lambda>r. ac_status r = ''success'' \<and> ac_currency r = ''USD'') (build_filters f db))))"
proof -
  from assms(1) have inv: "ledger_inv db"
  proof (induction rule: rtranclp_induct)
    case base
    show ?case by (simp add: ledger_inv_def ledger_ok_def empty_ledger_def)
  next
    case (step db db')
    with assms(2,3) show ?case by (blast intro: usage_step_inv)
  qed
  then have nn: "\<forall>r\<in>set (build_filters f db). 0 \<le> ac_cost r"
    by (auto simp: ledger_inv_def call_ok_def build_filters_def)
  have "cost_sum (\<lambda>r. billed r \<and> ac_currency r = ''USD'') rows =
      sum_list (map ac_cost (filter (\<lambda>r. ac_status r = ''success'' \<and> ac_currency r = ''USD'') rows))"
    if "\<forall>r\<in>set rows. 0 \<le> ac_cost r" for rows
    using that by (induction rows) (auto simp: cost_sum_def billed_def)
  from this [OF nn] inv show ?thesis
    by (auto simp: ledger_inv_def ledger_ok_def call_ok_def get_usage_stats_def Let_def)
qed

text \<open>The duration that is charged is the one the provider reports when it is positive and at most a day, and
  the requested one otherwise; it is what the settled row records.\<close>

theorem charged_duration_plausible:
  assumes "ledger_ok db" and "find_call db i = Some row" and "finish_call reg prices i a now db = Some db'"
  shows "\<exists>row'. find_call db' i = Some row' \<and> ac_status row' = se_status a \<and>
           (ac_duration row' = ac_duration row \<or>
            (\<exists>d. se_billed a = Some d \<and> ac_duration row' = Some d \<and> 0 < d \<and> d \<le> 86400))"
proof -
  from assms(2,3) obtain f where f: "db' = update_calls (\<lambda>r. ac_id r = i) f db" "\<And>r. ac_id (f r) = ac_id r"
      "ac_status (f row) = se_status a" "ac_duration (f row) = effective_duration (se_billed a) row"
    by (auto simp: finish_call_def split: option.splits)
  have "find_call db' i = Some (f row)"
    using assms(2) find_call_mem [OF assms(2)] by (simp add: f(1) find_call_update f(2))
  with f(3,4) show ?thesis
    by (auto simp: effective_duration_def max_billed_duration_seconds_def split: option.splits if_splits)
qed

section \<open>Examples\<close>

definition sample_start :: start_args where
  "sample_start =
     \<lparr>sa_project = ''p'', sa_call_type = ''video'', sa_model = ''hailuo'', sa_prompt = Some ''run'', sa_resolution = Some ''768P'',
      sa_duration = Some 6, sa_aspect_ratio = None, sa_audio = True, sa_provider = ''minimax'', sa_segment = Some ''s1''\<rparr>"

definition sample_ledger :: usage_db where
  "sample_ledger = snd (start_call sample_start 1000000 empty_ledger)"

definition sample_settle :: settle_args where
  "sample_settle =
     \<lparr>se_status = ''success'', se_cost = None, se_currency = None, se_service_tier = ''default'', se_usage_tokens = None,
      se_audio = None, se_billed = Some 10\<rparr>"

definition no_prices :: custom_prices where
  "no_prices = (\<lambda>_ _. None)"

lemma sample_find: "find_call sample_ledger 1 = Some (start_row sample_start 1 1000000)"
  by (simp add: sample_ledger_def start_call_def empty_ledger_def find_call_def find_row_Cons start_row_def)

lemma sample_ledger_ok: "ledger_ok sample_ledger"
  unfolding sample_ledger_def by (rule start_call_ok) (simp add: ledger_ok_def empty_ledger_def)

theorem resume_settles_once_witness:
  "\<exists>db' db''. finalize_pending_by_call_id sample_registry no_prices 1 sample_settle 5000000 sample_ledger = Some (1, db') \<and>
     finalize_pending_by_call_id sample_registry no_prices 1 sample_settle 6000000 db' = Some (0, db'') \<and> db'' = db'"
proof -
  define out where "out = finalize_pending_by_call_id sample_registry no_prices 1 sample_settle 5000000 sample_ledger"
  have "(case out of Some (n, db') \<Rightarrow> n = 1 \<and>
      (case finalize_pending_by_call_id sample_registry no_prices 1 sample_settle 6000000 db' of Some (m, _) \<Rightarrow> m = 0 | None \<Rightarrow> False)
      | None \<Rightarrow> False)"
    unfolding out_def by code_simp
  then obtain db' db'' where o: "out = Some (1, db')"
      "finalize_pending_by_call_id sample_registry no_prices 1 sample_settle 6000000 db' = Some (0, db'')"
    by (auto split: option.splits prod.splits)
  from resume_settles_once [OF sample_ledger_ok o(1) [unfolded out_def] o(2)] have "db'' = db'"
    by (simp add: sample_settle_def)
  with o show ?thesis by (auto simp: out_def)
qed

theorem resume_books_like_finish_witness:
  "map_option snd (finalize_pending_by_call_id sample_registry no_prices 1 sample_settle 5000000 sample_ledger) =
   map_option (without_outcome 1) (finish_call sample_registry no_prices 1 (finish_of sample_settle (Some ''v.mp4'') None) 5000000 sample_ledger) \<and>
   map_option (\<lambda>db. map (\<lambda>r. (ac_cost r, ac_output_path r)) (ud_calls db))
     (finish_call sample_registry no_prices 1 (finish_of sample_settle (Some ''v.mp4'') None) 5000000 sample_ledger) = Some [(4, Some ''v.mp4'')]"
proof
  show "map_option snd (finalize_pending_by_call_id sample_registry no_prices 1 sample_settle 5000000 sample_ledger) =
      map_option (without_outcome 1) (finish_call sample_registry no_prices 1 (finish_of sample_settle (Some ''v.mp4'') None) 5000000 sample_ledger)"
    by (rule resume_books_like_finish [OF sample_ledger_ok sample_find start_row_untouched]) (simp_all add: sample_settle_def)
  show "map_option (\<lambda>db. map (\<lambda>r. (ac_cost r, ac_output_path r)) (ud_calls db))
     (finish_call sample_registry no_prices 1 (finish_of sample_settle (Some ''v.mp4'') None) 5000000 sample_ledger) = Some [(4, Some ''v.mp4'')]"
    by code_simp
qed

theorem ledger_totals_witness:
  "us_total_cost (get_usage_stats f sample_ledger) =
     py_round 4 (sum_list (map ac_cost (filter (\<lambda>r. ac_status r = ''success'' \<and> ac_currency r = ''USD'') (build_filters f sample_ledger))))"
proof -
  have "usage_step sample_registry no_prices empty_ledger sample_ledger"
    unfolding sample_ledger_def by (rule usage_step.start) (simp add: sample_start_def)
  then have r: "(usage_step sample_registry no_prices)\<^sup>*\<^sup>* empty_ledger sample_ledger" by blast
  have "registry_nonneg sample_registry"
    by (simp add: registry_nonneg_def sample_registry_def nonneg_def)
  moreover have "custom_nonneg no_prices" by (simp add: custom_nonneg_def no_prices_def)
  ultimately show ?thesis using ledger_totals [OF r, of f] by blast
qed

theorem charged_duration_plausible_witness:
  "\<exists>db' row'. finish_call sample_registry no_prices 1 (finish_of sample_settle None None) 5000000 sample_ledger = Some db' \<and>
     find_call db' 1 = Some row' \<and> ac_status row' = ''success''"
proof -
  have "finish_call sample_registry no_prices 1 (finish_of sample_settle None None) 5000000 sample_ledger \<noteq> None"
    by code_simp
  then obtain db' where db': "finish_call sample_registry no_prices 1 (finish_of sample_settle None None) 5000000 sample_ledger = Some db'"
    by blast
  from charged_duration_plausible [OF sample_ledger_ok sample_find db'] db' show ?thesis
    by (auto simp: finish_of_simps sample_settle_def)
qed

end
