(* ===== verification/ProjectFile.thy ===== *)
theory ProjectFile
  imports ScriptEditor "HOL-Library.List_Lexorder" "HOL-Library.Char_ord" "HOL-Library.Multiset"
begin

text \<open>
  The file \<open>project.json\<close> of a project (\<open>lib/project_manager.py\<close>, with the asset specifications and
  names of \<open>lib/asset_types.py\<close>): identifiers of projects, creation, the locked read-modify-write with
  its migrations, the synchronisation of episodes and the assets (characters, scenes, props,
  products). A mutation is a function of the dictionary it is given that returns the changed one or
  the exception it raises, in which case nothing is written. Time stamps are arguments, a path of
  the file system is asked of a predicate.
\<close>

datatype pm_error =
    Py py_error
  | Key_Error
  | Value_Error
  | Edit_Error edit_error
  | Invalid_Structure
  | Rebound
  | No_File

definition py_raise :: "py_error + 'a \<Rightarrow> pm_error + 'a" where
  "py_raise r = (case r of Inl e \<Rightarrow> Inl (Py e) | Inr v \<Rightarrow> Inr v)"

section \<open>Identifiers of projects\<close>

definition is_letter :: "char \<Rightarrow> bool" where
  "is_letter c = (let n = of_char c :: nat in 65 \<le> n \<and> n \<le> 90 \<or> 97 \<le> n \<and> n \<le> 122)"

definition is_alnum :: "char \<Rightarrow> bool" where
  "is_alnum c = (is_letter c \<or> is_digit c)"

definition normalize_project_name :: "string \<Rightarrow> pm_error + string" where
  "normalize_project_name name =
     (let n = strip name in
      if n = [] \<or> \<not> list_all (\<lambda>c. is_alnum c \<or> c = CHR ''-'') n then Inl Value_Error else Inr n)"

text \<open>\<open>re.sub("[^a-zA-Z0-9]+", "-", s)\<close> and \<open>s.strip(chars)\<close>.\<close>

declare length_dropWhile_le [termination_simp]

fun sanitize :: "string \<Rightarrow> string" where
  "sanitize [] = []"
| "sanitize (c # cs) =
     (if is_alnum c then c # sanitize cs else CHR ''-'' # sanitize (dropWhile (\<lambda>x. \<not> is_alnum x) cs))"

definition strip_of :: "(char \<Rightarrow> bool) \<Rightarrow> string \<Rightarrow> string" where
  "strip_of P s = rev (dropWhile P (rev (dropWhile P s)))"

definition slugify_project_title :: "string \<Rightarrow> string" where
  "slugify_project_title title =
     (let slug = take 24 (lower (strip_of (\<lambda>c. c = CHR ''-'' \<or> c = CHR ''_'') (sanitize (strip title))))
      in if slug = [] \<or> \<not> list_ex is_letter slug then ''proj'' else slug)"

text \<open>The loop over random suffixes, of which the argument lists those that are drawn.\<close>

fun generate_project_name :: "(string \<Rightarrow> bool) \<Rightarrow> string \<Rightarrow> string list \<Rightarrow> string option" where
  "generate_project_name exists title [] = None"
| "generate_project_name exists title (token # tokens) =
     (let candidate = slugify_project_title title @ ''-'' @ token
      in if exists candidate then generate_project_name exists title tokens else Some candidate)"

section \<open>Numbers of episodes\<close>

text \<open>The search for \<open>episode[-_\s]*(\d+)\<close>, without regard to case, in the name of a script.\<close>

definition episode_here :: "string \<Rightarrow> nat option" where
  "episode_here s =
     (let digits = takeWhile is_digit (dropWhile (\<lambda>c. c = CHR ''-'' \<or> c = CHR ''_'' \<or> is_space c) (drop 7 s))
      in if lower (take 7 s) = ''episode'' \<and> digits \<noteq> [] then Some (nat_of_digits 0 digits) else None)"

fun episode_in_name :: "string \<Rightarrow> nat option" where
  "episode_in_name [] = None"
| "episode_in_name (c # cs) =
     (case episode_here (c # cs) of Some n \<Rightarrow> Some n | None \<Rightarrow> episode_in_name cs)"

text \<open>\<open>isinstance(v, int)\<close> holds of a boolean too.\<close>

fun int_value :: "json \<Rightarrow> int option" where
  "int_value (JInt i) = Some i"
| "int_value (JBool b) = Some (if b then 1 else 0)"
| "int_value _ = None"

definition script_base :: "string \<Rightarrow> string" where
  "script_base f = (if take 8 f = ''scripts/'' then drop 8 f else f)"

definition require_filename_episode_consistency :: "dict \<Rightarrow> string \<Rightarrow> pm_error + unit" where
  "require_filename_episode_consistency script filename =
     (case (episode_in_name (script_base filename), int_value (dict_ref script ''episode'')) of
        (Some n, Some e) \<Rightarrow> if e = int n then Inr () else Inl Value_Error
      | _ \<Rightarrow> Inr ())"

definition resolve_episode_from_script :: "dict \<Rightarrow> string \<Rightarrow> pm_error + int" where
  "resolve_episode_from_script script filename =
     (case int_value (dict_ref script ''episode'') of
        Some e \<Rightarrow> Inr e
      | None \<Rightarrow> (case episode_in_name filename of Some n \<Rightarrow> Inr (int n) | None \<Rightarrow> Inl Value_Error))"

text \<open>The first entry of a number, and the stable sort by number; \<open>ep["episode"]\<close> raises on other values.\<close>

definition episode_key :: "json \<Rightarrow> pm_error + json" where
  "episode_key ep =
     (case ep of
        JObj d \<Rightarrow> (case dict_get d ''episode'' of Some v \<Rightarrow> Inr v | None \<Rightarrow> Inl Key_Error)
      | _ \<Rightarrow> Inl (Py Type_Error))"

fun find_episode :: "int \<Rightarrow> json list \<Rightarrow> pm_error + nat option" where
  "find_episode n [] = Inr None"
| "find_episode n (ep # eps) =
     bind_err (episode_key ep) (\<lambda>v.
       if py_eq v (JInt n) then Inr (Some 0)
       else bind_err (find_episode n eps) (\<lambda>i. Inr (map_option Suc i)))"

definition episode_number :: "json \<Rightarrow> rat" where
  "episode_number ep = (case episode_key ep of Inr v \<Rightarrow> coalesce (py_number v) 0 | Inl _ \<Rightarrow> 0)"

definition sort_episodes :: "json list \<Rightarrow> pm_error + json list" where
  "sort_episodes eps =
     bind_err (map_err episode_key eps) (\<lambda>keys.
       if length keys \<le> 1 then Inr eps
       else if list_all (\<lambda>v. py_number v \<noteq> None) keys then Inr (sort_key episode_number eps)
       else Inl (Py Type_Error))"

text \<open>The list of episodes as the code iterates it: an empty text or object has nothing to iterate, but
  nothing can be appended to it.\<close>

fun episode_list :: "json \<Rightarrow> pm_error + json list" where
  "episode_list (JArr eps) = Inr eps"
| "episode_list (JStr []) = Inl (Py Attribute_Error)"
| "episode_list (JObj []) = Inl (Py Attribute_Error)"
| "episode_list _ = Inl (Py Type_Error)"

text \<open>Writing a title and a script into the entry of a number, which is appended when there is none.\<close>

definition set_binding :: "json \<Rightarrow> string \<Rightarrow> json \<Rightarrow> json" where
  "set_binding title script_file ep =
     (case ep of JObj d \<Rightarrow> JObj (dict_put (dict_put d ''title'' title) ''script_file'' (JStr script_file)) | _ \<Rightarrow> ep)"

definition bind_episode :: "int \<Rightarrow> json \<Rightarrow> string \<Rightarrow> json list \<Rightarrow> pm_error + json list" where
  "bind_episode n title script_file eps =
     bind_err (find_episode n eps) (\<lambda>i.
       Inr (case i of
              Some i \<Rightarrow> eps[i := set_binding title script_file (eps ! i)]
            | None \<Rightarrow> eps @ [set_binding title script_file (JObj [(''episode'', JInt n)])]))"

definition apply_episode_sync :: "dict \<Rightarrow> string \<Rightarrow> dict \<Rightarrow> pm_error + dict" where
  "apply_episode_sync script filename project =
     (let base = script_base filename;
          n = (case int_value (dict_ref script ''episode'') of
                 Some e \<Rightarrow> e
               | None \<Rightarrow> (case episode_in_name base of Some k \<Rightarrow> int k | None \<Rightarrow> 1))
      in bind_err (require_filename_episode_consistency script base) (\<lambda>_.
         bind_err (episode_list (dict_or project ''episodes'' (JArr []))) (\<lambda>eps.
         bind_err (bind_episode n (dict_or script ''title'' (JStr [])) (''scripts/'' @ base) eps) (\<lambda>eps'.
         bind_err (sort_episodes eps') (\<lambda>sorted.
           Inr (dict_put project ''episodes'' (JArr sorted)))))))"

text \<open>Adding an episode by hand sorts only when the entry is new.\<close>

definition add_episode :: "int \<Rightarrow> string \<Rightarrow> string \<Rightarrow> dict \<Rightarrow> pm_error + dict" where
  "add_episode n title script_file project =
     (case dict_get project ''episodes'' of
        None \<Rightarrow> Inl Key_Error
      | Some v \<Rightarrow>
          bind_err (episode_list v) (\<lambda>eps.
          bind_err (find_episode n eps) (\<lambda>i.
          case i of
            Some i \<Rightarrow> Inr (dict_put project ''episodes'' (JArr (eps[i := set_binding (JStr title) script_file (eps ! i)])))
          | None \<Rightarrow>
              bind_err (sort_episodes (eps @ [JObj [(''episode'', JInt n), (''title'', JStr title),
                                                   (''script_file'', JStr script_file)]])) (\<lambda>sorted.
                Inr (dict_put project ''episodes'' (JArr sorted))))))"

section \<open>Reading and writing the file\<close>

definition legacy_style_map :: "(string \<times> string) list" where
  "legacy_style_map =
     [(''Photographic'', ''live_premium_drama''), (''Anime'', ''anim_kyoto''), (''3D Animation'', ''anim_3d_cg'')]"

text \<open>The text of a style template is an argument.\<close>

definition migrate_legacy_style :: "(string \<Rightarrow> string) \<Rightarrow> dict \<Rightarrow> pm_error + dict" where
  "migrate_legacy_style prompt_of project =
     (if dict_has project ''style_template_id'' then Inr project
      else
        (let legacy = dict_or project ''style'' (JStr []) in
         if \<not> hashable legacy then Inl (Py Type_Error)
         else (case Option.bind (as_str legacy) (map_of legacy_style_map) of
                 None \<Rightarrow> Inr project
               | Some new_id \<Rightarrow>
                   if truthy (dict_ref project ''style_image'')
                   then Inr (dict_put (dict_put project ''style_template_id'' JNull) ''style'' (JStr []))
                   else Inr (dict_put (dict_put project ''style_template_id'' (JStr new_id))
                                      ''style'' (JStr (prompt_of new_id))))))"

text \<open>One entry of the new settings clears the resolution of the old settings of its model.\<close>

definition after_slash :: "string \<Rightarrow> string option" where
  "after_slash k = (case dropWhile (\<lambda>c. c \<noteq> CHR ''/'') k of [] \<Rightarrow> None | _ # m \<Rightarrow> Some m)"

definition drop_resolution :: "json \<Rightarrow> py_error + json" where
  "drop_resolution entry =
     (case entry of
        JObj d \<Rightarrow> Inr (JObj (dict_pop d ''resolution''))
      | JArr _ \<Rightarrow> Inl Type_Error
      | _ \<Rightarrow> Inl Attribute_Error)"

definition clear_legacy_resolution :: "json \<Rightarrow> string \<times> json \<Rightarrow> py_error + json" where
  "clear_legacy_resolution legacy kv =
     (case after_slash (fst kv) of
        None \<Rightarrow> Inr legacy
      | Some model \<Rightarrow>
          bind_err (obj_or (snd kv) ''resolution'' JNull) (\<lambda>res.
            if \<not> truthy res then Inr legacy
            else bind_err (obj_or legacy model JNull) (\<lambda>entry.
              if \<not> truthy entry then Inr legacy
              else bind_err (drop_resolution entry) (\<lambda>entry'.
                let d = or_empty (as_dict legacy)
                in Inr (JObj (if truthy entry' then dict_put d model entry' else dict_pop d model))))))"

definition migrate_legacy_resolution :: "dict \<Rightarrow> py_error + dict" where
  "migrate_legacy_resolution project =
     (let settings = dict_ref project ''model_settings''; legacy = dict_ref project ''video_model_settings'' in
      if \<not> truthy settings \<or> \<not> truthy legacy then Inr project
      else (case settings of
              JObj kvs \<Rightarrow>
                bind_err (fold_err clear_legacy_resolution legacy kvs) (\<lambda>legacy'.
                  Inr (if truthy legacy' then dict_put project ''video_model_settings'' legacy'
                       else dict_pop project ''video_model_settings''))
            | _ \<Rightarrow> Inl Attribute_Error))"

definition touch_metadata :: "string \<Rightarrow> dict \<Rightarrow> py_error + dict" where
  "touch_metadata now project =
     (case dict_get project ''metadata'' of
        None \<Rightarrow> Inr (dict_put project ''metadata'' (JObj [(''created_at'', JStr now), (''updated_at'', JStr now)]))
      | Some (JObj m) \<Rightarrow> Inr (dict_put project ''metadata'' (JObj (dict_put m ''updated_at'' (JStr now))))
      | Some _ \<Rightarrow> Inl Type_Error)"

text \<open>The value that a locked update writes; an exception leaves the file as it is.\<close>

definition finish_update :: "(string \<Rightarrow> string) \<Rightarrow> string \<Rightarrow> dict \<Rightarrow> pm_error + dict" where
  "finish_update prompt_of now project =
     bind_err (py_raise (migrate_legacy_resolution project)) (\<lambda>p1.
     bind_err (migrate_legacy_style prompt_of p1) (\<lambda>p2.
       py_raise (touch_metadata now p2)))"

definition update_project ::
  "(string \<Rightarrow> string) \<Rightarrow> string \<Rightarrow> (dict \<Rightarrow> pm_error + dict) \<Rightarrow> dict \<Rightarrow> pm_error + dict" where
  "update_project prompt_of now mutate project = bind_err (mutate project) (finish_update prompt_of now)"

definition save_project :: "string \<Rightarrow> dict \<Rightarrow> pm_error + dict" where
  "save_project now project =
     bind_err (py_raise (migrate_legacy_resolution project)) (\<lambda>p. py_raise (touch_metadata now p))"

definition load_project :: "(string \<Rightarrow> string) \<Rightarrow> dict \<Rightarrow> pm_error + dict" where
  "load_project prompt_of project = migrate_legacy_style prompt_of project"

section \<open>Creation\<close>

record create_args =
  ca_title :: "string option"
  ca_style :: "string option"
  ca_content_mode :: "string option"
  ca_aspect_ratio :: "string option"
  ca_default_duration :: "int option"
  ca_style_template_id :: "string option"
  ca_extras :: dict
  ca_target_duration :: json
  ca_brief :: json
  ca_source_kind :: "string option"

definition some_text :: "string option \<Rightarrow> string \<Rightarrow> string" where
  "some_text s d = (case s of None \<Rightarrow> d | Some t \<Rightarrow> if t = [] then d else t)"

definition ad_single_episode :: dict where
  "ad_single_episode =
     [(''episode'', JInt 1), (''title'', JStr []), (''script_file'', JStr ''scripts/episode_1.json'')]"

definition ad_default_target_duration :: int where
  "ad_default_target_duration = 60"

text \<open>The fields that exclude each other; \<open>None\<close> is the null value of the model.\<close>

definition mode_fields_ok :: "create_args \<Rightarrow> bool" where
  "mode_fields_ok a =
     (if some_text (ca_content_mode a) ''narration'' = ''ad''
      then ca_default_duration a = None \<and>
           (case ca_target_duration a of JNull \<Rightarrow> True | JInt n \<Rightarrow> 0 < n | _ \<Rightarrow> False) \<and>
           (case ca_brief a of JNull \<Rightarrow> True | JStr _ \<Rightarrow> True | _ \<Rightarrow> False)
      else ca_target_duration a = JNull \<and> ca_brief a = JNull)"

definition core_project :: "create_args \<Rightarrow> string \<Rightarrow> string \<Rightarrow> dict" where
  "core_project a kind now =
     [(''schema_version'', JInt 3),
      (''title'', JStr (case ca_title a of Some t \<Rightarrow> strip t | None \<Rightarrow> [])),
      (''content_mode'', JStr (some_text (ca_content_mode a) ''narration'')),
      (''source_kind'', JStr kind),
      (''aspect_ratio'', JStr (some_text (ca_aspect_ratio a) ''9:16'')),
      (''style'', JStr (some_text (ca_style a) [])),
      (''episodes'', JArr []),
      (''planning_cursor'', JNull),
      (''characters'', JObj []),
      (''scenes'', JObj []),
      (''props'', JObj []),
      (''metadata'', JObj [(''created_at'', JStr now), (''updated_at'', JStr now)])]"

definition mode_project :: "create_args \<Rightarrow> dict \<Rightarrow> dict" where
  "mode_project a p =
     (if some_text (ca_content_mode a) ''narration'' = ''ad''
      then dict_put (dict_put (dict_put p
             ''target_duration'' (if ca_target_duration a = JNull then JInt ad_default_target_duration else ca_target_duration a))
             ''brief'' (if ca_brief a = JNull then JStr [] else ca_brief a))
             ''episodes'' (JArr [JObj ad_single_episode])
      else p)"

definition optional_put :: "string \<Rightarrow> json option \<Rightarrow> dict \<Rightarrow> dict" where
  "optional_put k v p = (case v of None \<Rightarrow> p | Some j \<Rightarrow> dict_put p k j)"

definition guarded_keys :: "string list" where
  "guarded_keys = [''default_duration'', ''style_template_id'', ''target_duration'', ''brief'']"

fun dict_update :: "dict \<Rightarrow> dict \<Rightarrow> dict" where
  "dict_update d [] = d"
| "dict_update d ((k, v) # kvs) = dict_update (dict_put d k v) kvs"

definition create_project_metadata :: "string \<Rightarrow> create_args \<Rightarrow> string \<Rightarrow> pm_error + dict" where
  "create_project_metadata name a now =
     bind_err (normalize_project_name name) (\<lambda>_.
       let kind = (case ca_source_kind a of None \<Rightarrow> ''novel'' | Some k \<Rightarrow> k) in
       if kind \<notin> {''novel'', ''screenplay''} \<or> \<not> mode_fields_ok a then Inl Value_Error
       else
         (let p = optional_put ''style_template_id'' (map_option JStr (ca_style_template_id a))
                    (optional_put ''default_duration'' (map_option JInt (ca_default_duration a))
                       (mode_project a (core_project a kind now)))
          in if dict_has (ca_extras a) ''image_backend'' \<or>
                (\<exists>k\<in>set (map fst (ca_extras a)). dict_has p k \<or> k \<in> set guarded_keys)
             then Inl Value_Error
             else save_project now (dict_update p (ca_extras a))))"

end
