(* ===== verification/ProjectAssets.thy ===== *)
theory ProjectAssets
  imports ProjectFile
begin

text \<open>
  The assets of a project: characters, scenes, props and products, each a bucket of \<open>project.json\<close>
  (\<open>lib/asset_types.py\<close> and the asset operations of \<open>lib/project_manager.py\<close>). The structural
  validator of the project is an argument that lists the errors of a payload; whether a file exists
  and whether a path stays inside the project are asked of predicates.
\<close>

section \<open>Specifications and names\<close>

record asset_spec =
  as_type :: string
  as_bucket :: string
  as_sheet :: string
  as_strings :: "string list"
  as_lists :: "string list"
  as_dict_lists :: "string list"
  as_agent :: "string list"

definition asset_specs :: "asset_spec list" where
  "asset_specs =
     [\<lparr>as_type = ''character'', as_bucket = ''characters'', as_sheet = ''character_sheet'',
       as_strings = [''voice_style'', ''reference_image'', ''voice_reference_audio''], as_lists = [],
       as_dict_lists = [''costume_references'', ''variants''], as_agent = [''voice_style'']\<rparr>,
      \<lparr>as_type = ''scene'', as_bucket = ''scenes'', as_sheet = ''scene_sheet'',
       as_strings = [], as_lists = [], as_dict_lists = [], as_agent = []\<rparr>,
      \<lparr>as_type = ''prop'', as_bucket = ''props'', as_sheet = ''prop_sheet'',
       as_strings = [], as_lists = [], as_dict_lists = [], as_agent = []\<rparr>,
      \<lparr>as_type = ''product'', as_bucket = ''products'', as_sheet = ''product_sheet'',
       as_strings = [''brand''], as_lists = [''reference_images'', ''selling_points''],
       as_dict_lists = [], as_agent = [''selling_points'']\<rparr>]"

definition spec_of_table :: "string \<Rightarrow> asset_spec option" where
  "spec_of_table table = List.find (\<lambda>sp. as_bucket sp = table) asset_specs"

definition illegal_asset_name_chars :: string where
  "illegal_asset_name_chars =
     [CHR ''/'', CHR 0x5C, CHR 0x00, CHR '':'', CHR ''*'', CHR ''?'', CHR 0x22, CHR ''<'', CHR ''>'', CHR ''|'']"

definition windows_reserved_basenames :: "string list" where
  "windows_reserved_basenames =
     [''CON'', ''PRN'', ''AUX'', ''NUL''] @
     concat (map (\<lambda>d. [''COM'' @ [d], ''LPT'' @ [d]]) ''123456789'')"

fun has_dots :: "string \<Rightarrow> bool" where
  "has_dots (a # b # cs) = (a = CHR ''.'' \<and> b = CHR ''.'' \<or> has_dots (b # cs))"
| "has_dots _ = False"

definition path_component :: "string \<Rightarrow> bool" where
  "path_component s =
     (s \<noteq> [] \<and> \<not> has_dots s \<and>
      list_all (\<lambda>c. c \<notin> set illegal_asset_name_chars \<and> 32 \<le> (of_char c :: nat) \<and> (of_char c :: nat) \<noteq> 127) s \<and>
      last s \<noteq> CHR ''.'' \<and> upper (takeWhile (\<lambda>c. c \<noteq> CHR ''.'') s) \<notin> set windows_reserved_basenames)"

definition validate_asset_name :: "json \<Rightarrow> pm_error + string" where
  "validate_asset_name name =
     (case name of
        JStr s \<Rightarrow> if path_component (strip s) then Inr (strip s) else Inl Value_Error
      | _ \<Rightarrow> Inl Value_Error)"

section \<open>Entries\<close>

definition list_field :: "dict \<Rightarrow> string \<Rightarrow> json" where
  "list_field data k = (case dict_ref data k of JNull \<Rightarrow> JArr [] | v \<Rightarrow> v)"

definition build_asset_entry :: "asset_spec \<Rightarrow> json \<Rightarrow> dict \<Rightarrow> dict" where
  "build_asset_entry sp description data =
     dict_update [(''description'', description)]
       ((as_sheet sp, dict_or data (as_sheet sp) (JStr [])) #
        map (\<lambda>k. (k, dict_or data k (JStr []))) (as_strings sp) @
        map (\<lambda>k. (k, list_field data k)) (as_lists sp @ as_dict_lists sp))"

definition occurs_in :: "string \<Rightarrow> string \<Rightarrow> bool" where
  "occurs_in k s = list_ex (\<lambda>i. take (length k) (drop i s) = k) [0..<Suc (length s)]"

text \<open>\<open>name in bucket\<close> and \<open>bucket[name] = entry\<close> on a value of unknown type.\<close>

fun bucket_has :: "json \<Rightarrow> string \<Rightarrow> py_error + bool" where
  "bucket_has (JObj d) k = Inr (dict_has d k)"
| "bucket_has (JArr xs) k = Inr (JStr k \<in> set xs)"
| "bucket_has (JStr s) k = Inr (occurs_in k s)"
| "bucket_has _ k = Inl Type_Error"

fun bucket_put :: "json \<Rightarrow> string \<Rightarrow> json \<Rightarrow> py_error + json" where
  "bucket_put (JObj d) k v = Inr (JObj (dict_put d k v))"
| "bucket_put _ k v = Inl Type_Error"

fun bucket_get :: "json \<Rightarrow> string \<Rightarrow> py_error + json" where
  "bucket_get (JObj d) k = Inr (dict_ref d k)"
| "bucket_get _ k = Inl Type_Error"

section \<open>Adding\<close>

definition add_assets :: "(string \<times> json) list \<Rightarrow> json \<Rightarrow> py_error + (nat \<times> json)" where
  "add_assets entries bucket =
     fold_err (\<lambda>(n, b) (name, entry).
       bind_err (bucket_has b name) (\<lambda>there.
         if there then Inr (n, b) else bind_err (bucket_put b name entry) (\<lambda>b'. Inr (Suc n, b'))))
       (0, bucket) entries"

definition add_into :: "asset_spec \<Rightarrow> (string \<times> json) list \<Rightarrow> dict \<Rightarrow> pm_error + (nat \<times> dict)" where
  "add_into sp entries project =
     bind_err (py_raise (add_assets entries (dict_or project (as_bucket sp) (JObj [])))) (\<lambda>(n, b).
       Inr (n, dict_put project (as_bucket sp) b))"

definition update_counting ::
  "(string \<Rightarrow> string) \<Rightarrow> string \<Rightarrow> (dict \<Rightarrow> pm_error + ('a \<times> dict)) \<Rightarrow> dict \<Rightarrow> pm_error + ('a \<times> dict)" where
  "update_counting prompt_of now mutate project =
     bind_err (mutate project) (\<lambda>(n, p). bind_err (finish_update prompt_of now p) (\<lambda>p'. Inr (n, p')))"

definition add_asset ::
  "(string \<Rightarrow> string) \<Rightarrow> string \<Rightarrow> asset_spec \<Rightarrow> string \<Rightarrow> dict \<Rightarrow> dict \<Rightarrow> pm_error + (bool \<times> dict)" where
  "add_asset prompt_of now sp name entry project =
     bind_err (validate_asset_name (JStr name)) (\<lambda>n.
     bind_err (update_counting prompt_of now (add_into sp [(n, JObj entry)]) project) (\<lambda>(k, p).
       Inr (k = 1, p)))"

text \<open>Names that become equal when they are stripped are refused as a whole.\<close>

definition normalize_entries :: "(string \<times> 'a) list \<Rightarrow> pm_error + (string \<times> 'a) list" where
  "normalize_entries entries =
     fold_err (\<lambda>acc (raw, entry).
       bind_err (validate_asset_name (JStr raw)) (\<lambda>name.
         if name \<in> set (map fst acc) then Inl Value_Error else Inr (acc @ [(name, entry)])))
       [] entries"

definition add_assets_batch ::
  "(string \<Rightarrow> string) \<Rightarrow> string \<Rightarrow> asset_spec \<Rightarrow> (string \<times> dict) list \<Rightarrow> dict \<Rightarrow> pm_error + (nat \<times> dict)" where
  "add_assets_batch prompt_of now sp entries project =
     bind_err (normalize_entries entries) (\<lambda>es.
       if es = [] then Inr (0, project)
       else update_counting prompt_of now (add_into sp (map (\<lambda>(k, e). (k, JObj e)) es)) project)"

definition add_batch_of ::
  "(string \<Rightarrow> string) \<Rightarrow> string \<Rightarrow> asset_spec \<Rightarrow> (string \<times> dict) list \<Rightarrow> dict \<Rightarrow> pm_error + (nat \<times> dict)" where
  "add_batch_of prompt_of now sp items project =
     add_assets_batch prompt_of now sp
       (map (\<lambda>(k, d). (k, build_asset_entry sp (dict_or d ''description'' (JStr [])) d)) items) project"

text \<open>Setting a character without regard to whether it exists.\<close>

definition add_project_character ::
  "(string \<Rightarrow> string) \<Rightarrow> string \<Rightarrow> string \<Rightarrow> string \<Rightarrow> string option \<Rightarrow> string option \<Rightarrow> dict \<Rightarrow> pm_error + dict" where
  "add_project_character prompt_of now name description voice sheet project =
     bind_err (validate_asset_name (JStr name)) (\<lambda>n.
       update_project prompt_of now (\<lambda>p.
         case dict_get p ''characters'' of
           None \<Rightarrow> Inl Key_Error
         | Some b \<Rightarrow>
             bind_err (py_raise (bucket_put b n (JObj [(''description'', JStr description),
                 (''voice_style'', JStr (some_text voice [])), (''character_sheet'', JStr (some_text sheet []))])))
               (\<lambda>b'. Inr (dict_put p ''characters'' b'))) project)"

section \<open>The agent's upsert\<close>

definition legacy_asset_fields :: "string list" where
  "legacy_asset_fields = [''type'', ''importance'']"

definition strip_legacy_asset_fields :: "dict \<Rightarrow> dict" where
  "strip_legacy_asset_fields attrs = filter (\<lambda>(k, _). k \<notin> set legacy_asset_fields) attrs"

definition allowed_fields :: "asset_spec \<Rightarrow> string list" where
  "allowed_fields sp = ''description'' # as_agent sp"

definition clean_attrs :: "asset_spec \<Rightarrow> dict \<Rightarrow> dict" where
  "clean_attrs sp attrs = filter (\<lambda>(k, _). k \<in> set (allowed_fields sp)) (strip_legacy_asset_fields attrs)"

definition dropped_fields :: "asset_spec \<Rightarrow> dict \<Rightarrow> string list" where
  "dropped_fields sp attrs =
     sort (map fst (filter (\<lambda>(k, _). k \<notin> set (allowed_fields sp)) (strip_legacy_asset_fields attrs)))"

definition dropped_legacy :: "dict \<Rightarrow> string list" where
  "dropped_legacy attrs = sort (filter (\<lambda>k. k \<in> set (map fst attrs)) legacy_asset_fields)"

record upsert_report =
  ur_added :: "string list"
  ur_merged :: "string list"
  ur_noop :: "string list"
  ur_dropped :: "(string \<times> string list) list"
  ur_legacy :: "(string \<times> string list) list"

text \<open>One entry: an object that exists is updated, anything else is replaced by a new entry.\<close>

definition upsert_one ::
  "asset_spec \<Rightarrow> upsert_report \<times> dict \<Rightarrow> string \<times> dict \<Rightarrow> upsert_report \<times> dict" where
  "upsert_one sp st kv =
     (let (rep, bucket) = st; (name, attrs) = kv in
      case dict_ref bucket name of
        JObj old \<Rightarrow>
          if attrs = [] then (rep\<lparr>ur_noop := ur_noop rep @ [name]\<rparr>, bucket)
          else (rep\<lparr>ur_merged := ur_merged rep @ [name]\<rparr>, dict_put bucket name (JObj (dict_update old attrs)))
      | _ \<Rightarrow>
          (rep\<lparr>ur_added := ur_added rep @ [name]\<rparr>,
           dict_put bucket name (JObj (build_asset_entry sp (dict_or attrs ''description'' (JStr [])) attrs))))"

text \<open>The attributes of an entry must be an object; the test comes after the name's and before the
  collision's.\<close>

definition upsert_entries :: "(string \<times> json) list \<Rightarrow> pm_error + (string \<times> dict) list" where
  "upsert_entries entries =
     fold_err (\<lambda>acc (raw, attrs).
       bind_err (validate_asset_name (JStr raw)) (\<lambda>name.
         case attrs of
           JObj d \<Rightarrow> if name \<in> set (map fst acc) then Inl Value_Error else Inr (acc @ [(name, d)])
         | _ \<Rightarrow> Inl Value_Error))
       [] entries"

definition upsert_mutate ::
  "(dict \<Rightarrow> string set) \<Rightarrow> asset_spec \<Rightarrow> (string \<times> dict) list \<Rightarrow> dict \<Rightarrow> pm_error + (upsert_report \<times> dict)" where
  "upsert_mutate errors sp cleaned project =
     (case dict_or project (as_bucket sp) (JObj []) of
        JObj bucket \<Rightarrow>
          (let (rep, b) = foldl (upsert_one sp)
                 (\<lparr>ur_added = [], ur_merged = [], ur_noop = [], ur_dropped = [], ur_legacy = []\<rparr>, bucket) cleaned;
               p = dict_put project (as_bucket sp) (JObj b)
           in if errors p \<subseteq> errors project then Inr (rep, p) else Inl Value_Error)
      | _ \<Rightarrow> Inl Value_Error)"

definition upsert_assets ::
  "(dict \<Rightarrow> string set) \<Rightarrow> (string \<Rightarrow> string) \<Rightarrow> string \<Rightarrow> string \<Rightarrow> json \<Rightarrow> dict \<Rightarrow>
   pm_error + (upsert_report \<times> dict)" where
  "upsert_assets errors prompt_of now table entries project =
     (case (spec_of_table table, entries) of
        (Some sp, JObj es) \<Rightarrow>
          if es = [] then Inl Value_Error
          else
            bind_err (upsert_entries es) (\<lambda>ns.
            bind_err (update_counting prompt_of now
                (upsert_mutate errors sp (map (\<lambda>(k, d). (k, clean_attrs sp d)) ns)) project) (\<lambda>(rep, p).
              Inr (rep\<lparr>ur_dropped := filter (\<lambda>(_, ks). ks \<noteq> []) (map (\<lambda>(k, d). (k, dropped_fields sp d)) ns),
                       ur_legacy := filter (\<lambda>(_, ks). ks \<noteq> []) (map (\<lambda>(k, d). (k, dropped_legacy d)) ns)\<rparr>, p)))
      | _ \<Rightarrow> Inl Value_Error)"

section \<open>Sheets, references and reads\<close>

text \<open>Writing one field of an entry that exists.\<close>

definition set_entry_field :: "string \<Rightarrow> string \<Rightarrow> string \<Rightarrow> json \<Rightarrow> dict \<Rightarrow> pm_error + dict" where
  "set_entry_field bucket name field v p =
     (case dict_ref p bucket of
        JNull \<Rightarrow> Inl Key_Error
      | b \<Rightarrow>
          bind_err (py_raise (bucket_has b name)) (\<lambda>there.
            if \<not> there then Inl Key_Error
            else bind_err (py_raise (bucket_get b name)) (\<lambda>entry.
              bind_err (py_raise (bucket_put entry field v)) (\<lambda>entry'.
                bind_err (py_raise (bucket_put b name entry')) (\<lambda>b'. Inr (dict_put p bucket b'))))))"

definition update_asset_sheet ::
  "(string \<Rightarrow> string) \<Rightarrow> string \<Rightarrow> asset_spec \<Rightarrow> string \<Rightarrow> string \<Rightarrow> dict \<Rightarrow> pm_error + dict" where
  "update_asset_sheet prompt_of now sp name path project =
     update_project prompt_of now (set_entry_field (as_bucket sp) name (as_sheet sp) (JStr path)) project"

text \<open>Clearing a field also names the file that is deleted, when its path stays inside the project. The
  file goes before the rest of the update, so it is gone even when a migration raises.\<close>

definition clear_entry_field ::
  "(string \<Rightarrow> bool) \<Rightarrow> string \<Rightarrow> string \<Rightarrow> string \<Rightarrow> dict \<Rightarrow> pm_error + (string option \<times> dict)" where
  "clear_entry_field inside bucket name field p =
     (case dict_ref p bucket of
        JNull \<Rightarrow> Inl Key_Error
      | b \<Rightarrow>
          bind_err (py_raise (bucket_has b name)) (\<lambda>there.
            if \<not> there then Inl Key_Error
            else bind_err (py_raise (bucket_get b name)) (\<lambda>entry.
              case (b, entry) of
                (JObj d, JObj e) \<Rightarrow>
                  (let p' = dict_put p bucket (JObj (dict_put d name (JObj (dict_put e field (JStr [])))));
                       old = dict_or e field (JStr [])
                   in if \<not> truthy old then Inr (None, p')
                      else (case old of
                              JStr path \<Rightarrow> Inr (if inside path then Some path else None, p')
                            | _ \<Rightarrow> Inl (Py Type_Error)))
              | _ \<Rightarrow> Inl (Py Attribute_Error))))"

definition clear_field ::
  "(string \<Rightarrow> bool) \<Rightarrow> (string \<Rightarrow> string) \<Rightarrow> string \<Rightarrow> string \<Rightarrow> string \<Rightarrow> string \<Rightarrow> dict \<Rightarrow>
   string option \<times> (pm_error + dict)" where
  "clear_field inside prompt_of now bucket name field project =
     (case clear_entry_field inside bucket name field project of
        Inl e \<Rightarrow> (None, Inl e)
      | Inr (file, p) \<Rightarrow> (file, finish_update prompt_of now p))"

definition clear_asset_sheet ::
  "(string \<Rightarrow> bool) \<Rightarrow> (string \<Rightarrow> string) \<Rightarrow> string \<Rightarrow> asset_spec \<Rightarrow> string \<Rightarrow> dict \<Rightarrow>
   string option \<times> (pm_error + dict)" where
  "clear_asset_sheet inside prompt_of now sp name project =
     clear_field inside prompt_of now (as_bucket sp) name (as_sheet sp) project"

definition clear_character_voice_reference ::
  "(string \<Rightarrow> bool) \<Rightarrow> (string \<Rightarrow> string) \<Rightarrow> string \<Rightarrow> string \<Rightarrow> dict \<Rightarrow> string option \<times> (pm_error + dict)" where
  "clear_character_voice_reference inside prompt_of now name project =
     (if dict_get project ''characters'' = Some JNull then (None, Inl (Py Type_Error))
      else clear_field inside prompt_of now ''characters'' name ''voice_reference_audio'' project)"

text \<open>The reference fields of a character; a bucket that is null raises here.\<close>

definition set_character_field ::
  "(string \<Rightarrow> string) \<Rightarrow> string \<Rightarrow> string \<Rightarrow> string \<Rightarrow> string \<Rightarrow> dict \<Rightarrow> pm_error + dict" where
  "set_character_field prompt_of now field name path project =
     update_project prompt_of now (\<lambda>p.
       if dict_get p ''characters'' = Some JNull then Inl (Py Type_Error)
       else set_entry_field ''characters'' name field (JStr path) p) project"

definition add_product_reference_image ::
  "(string \<Rightarrow> string) \<Rightarrow> string \<Rightarrow> string \<Rightarrow> string \<Rightarrow> dict \<Rightarrow> pm_error + dict" where
  "add_product_reference_image prompt_of now name path project =
     update_project prompt_of now (\<lambda>p.
       case dict_ref p ''products'' of
         JNull \<Rightarrow> Inl Key_Error
       | b \<Rightarrow>
           bind_err (py_raise (bucket_has b name)) (\<lambda>there.
             if \<not> there then Inl Key_Error
             else (case (b, bucket_get b name) of
                     (JObj d, Inr (JObj e)) \<Rightarrow>
                       (case dict_or e ''reference_images'' (JArr []) of
                          JArr refs \<Rightarrow>
                            Inr (dict_put p ''products'' (JObj (dict_put d name (JObj (dict_put e ''reference_images''
                              (JArr (if JStr path \<in> set refs then refs else refs @ [JStr path])))))))
                        | _ \<Rightarrow> Inl Value_Error)
                   | (JObj d, _) \<Rightarrow> Inl (Py Attribute_Error)
                   | _ \<Rightarrow> Inl (Py Type_Error)))) project"

definition get_asset :: "asset_spec \<Rightarrow> string \<Rightarrow> dict \<Rightarrow> pm_error + json" where
  "get_asset sp name project =
     (case dict_ref project (as_bucket sp) of
        JNull \<Rightarrow> Inl Key_Error
      | b \<Rightarrow> bind_err (py_raise (bucket_has b name)) (\<lambda>there.
               if \<not> there then Inl Key_Error else py_raise (bucket_get b name)))"

definition get_pending_assets :: "(string \<Rightarrow> bool) \<Rightarrow> asset_spec \<Rightarrow> dict \<Rightarrow> py_error + dict list" where
  "get_pending_assets exists sp project =
     (let v = dict_ref project (as_bucket sp) in
      case (if truthy v then v else JObj []) of
        JObj b \<Rightarrow>
          bind_err (map_err (\<lambda>(name, entry).
            case entry of
              JObj e \<Rightarrow>
                (case dict_ref e (as_sheet sp) of
                   JStr s \<Rightarrow> Inr (if s = [] \<or> \<not> exists s then [dict_update [(''name'', JStr name)] e] else [])
                 | j \<Rightarrow> if truthy j then Inl Type_Error else Inr [dict_update [(''name'', JStr name)] e])
            | _ \<Rightarrow> Inl Attribute_Error) b) (\<lambda>rs. Inr (concat rs))
      | _ \<Rightarrow> Inl Attribute_Error)"

end
