(* ===== verification/ScriptFile.thy ===== *)
theory ScriptFile
  imports ProjectAssets
begin

text \<open>
  The scripts of a project (\<open>lib/project_manager.py\<close>): loading, the locked read-modify-write with its
  structural guard, the metadata that a write recomputes, the synchronisation of the project file and
  the write-back of generated assets. The store holds \<open>project.json\<close> and the scripts by their normal
  name; a call under the locks is one step. The structural validator (pydantic models) is a predicate,
  time stamps are arguments.
\<close>

record project_store =
  ps_project :: dict
  ps_scripts :: "string \<rightharpoonup> dict"

definition load_script :: "project_store \<Rightarrow> string \<Rightarrow> pm_error + dict" where
  "load_script s f = (case ps_scripts s (script_base f) of Some d \<Rightarrow> Inr d | None \<Rightarrow> Inl No_File)"

section \<open>Writing\<close>

text \<open>A write is refused only when it makes a script ill-formed that was not so before.\<close>

definition guard_no_worse :: "(dict \<Rightarrow> bool) \<Rightarrow> dict option \<Rightarrow> dict \<Rightarrow> pm_error + unit" where
  "guard_no_worse valid before after =
     (if valid after then Inr ()
      else (case before of
              Some b \<Rightarrow> if valid b then Inl Invalid_Structure else Inr ()
            | None \<Rightarrow> Inl Invalid_Structure))"

definition default_duration :: "string \<Rightarrow> int" where
  "default_duration kind =
     (if kind = ''segments'' then 4 else if kind = ''scenes'' then 8 else if kind = ''shots'' then 0 else 8)"

definition item_duration :: "string \<Rightarrow> dict \<Rightarrow> int" where
  "item_duration kind item =
     (case dict_ref item ''duration_seconds'' of
        JInt i \<Rightarrow> i
      | JFloat r \<Rightarrow> coalesce (py_int_value (JFloat r)) 0
      | _ \<Rightarrow> default_duration kind)"

definition recount :: "dict \<Rightarrow> dict \<Rightarrow> dict" where
  "recount script metadata =
     (case resolve_items script of
        Inl _ \<Rightarrow> metadata
      | Inr (items, _, kind) \<Rightarrow>
          (let scene_items = List.map_filter as_dict items in
           dict_put (dict_put metadata ''total_scenes'' (JInt (int (length scene_items))))
             ''estimated_duration_seconds'' (JInt (sum_list (map (item_duration kind) scene_items)))))"

definition with_metadata :: "string \<Rightarrow> dict \<Rightarrow> dict" where
  "with_metadata now script =
     (let m0 = (case dict_ref script ''metadata'' of JObj m \<Rightarrow> m | _ \<Rightarrow> []);
          m1 = dict_put (dict_default (dict_default m0 ''created_at'' (JStr now)) ''status'' (JStr ''draft''))
                 ''updated_at'' (JStr now);
          script1 = dict_put script ''metadata'' (JObj m1)
      in dict_put script1 ''metadata'' (JObj (recount script1 m1)))"

text \<open>
  The write: guard, numbers, metadata, then the file and, unless the caller does it, the project. The
  file is on disk when the project cannot be synchronised, so the store is returned beside the error.
\<close>

definition write_script_unlocked ::
  "(dict \<Rightarrow> bool) \<Rightarrow> (string \<Rightarrow> string) \<Rightarrow> string \<Rightarrow> bool \<Rightarrow> dict option option \<Rightarrow> dict \<Rightarrow> string \<Rightarrow>
   project_store \<Rightarrow> project_store \<times> (pm_error + dict)" where
  "write_script_unlocked valid prompt_of now sync before script f s =
     (case bind_err (case before of None \<Rightarrow> Inr () | Some b \<Rightarrow> guard_no_worse valid b script)
             (\<lambda>_. require_filename_episode_consistency script f) of
        Inl e \<Rightarrow> (s, Inl e)
      | Inr _ \<Rightarrow>
          (let script' = with_metadata now script;
               s1 = s\<lparr>ps_scripts := (ps_scripts s)(f \<mapsto> script')\<rparr>
           in if sync \<and> int_value (dict_ref script' ''episode'') \<noteq> None
              then (case update_project prompt_of now (apply_episode_sync script' f) (ps_project s1) of
                      Inl e \<Rightarrow> (s1, Inl e)
                    | Inr p \<Rightarrow> (s1\<lparr>ps_project := p\<rparr>, Inr script'))
              else (s1, Inr script')))"

text \<open>Saving reads the file for the state before; \<open>validate\<close> off skips the guard.\<close>

definition save_script ::
  "(dict \<Rightarrow> bool) \<Rightarrow> (string \<Rightarrow> string) \<Rightarrow> string \<Rightarrow> bool \<Rightarrow> dict \<Rightarrow> string \<Rightarrow>
   project_store \<Rightarrow> project_store \<times> (pm_error + dict)" where
  "save_script valid prompt_of now validate script f s =
     write_script_unlocked valid prompt_of now True
       (if validate then Some (ps_scripts s (script_base f)) else None) script (script_base f) s"

definition locked_script ::
  "(dict \<Rightarrow> bool) \<Rightarrow> (string \<Rightarrow> string) \<Rightarrow> string \<Rightarrow> bool \<Rightarrow> (dict \<Rightarrow> pm_error + dict) \<Rightarrow> string \<Rightarrow>
   project_store \<Rightarrow> project_store \<times> (pm_error + dict)" where
  "locked_script valid prompt_of now validate body f s =
     (let f' = script_base f in
      case bind_err (load_script s f') (\<lambda>d. bind_err (body d) (\<lambda>d'. Inr (d, d'))) of
        Inl e \<Rightarrow> (s, Inl e)
      | Inr (d, d') \<Rightarrow>
          write_script_unlocked valid prompt_of now True (if validate then Some (Some d) else None) d' f' s)"

text \<open>
  Editing the script of an episode: the name is resolved on the project that \<open>load_project\<close> reads,
  and again under both locks, on the store as it is then.
\<close>

definition sync_episode ::
  "(string \<Rightarrow> string) \<Rightarrow> string \<Rightarrow> dict \<Rightarrow> string \<Rightarrow> dict \<Rightarrow> pm_error + dict" where
  "sync_episode prompt_of now script f project =
     bind_err (if int_value (dict_ref script ''episode'') \<noteq> None then apply_episode_sync script f project else Inr project)
       (finish_update prompt_of now)"

definition locked_episode_script ::
  "(dict \<Rightarrow> bool) \<Rightarrow> (string \<Rightarrow> string) \<Rightarrow> string \<Rightarrow> bool \<Rightarrow> (dict \<Rightarrow> pm_error + string) \<Rightarrow>
   (dict \<Rightarrow> pm_error + dict) \<Rightarrow> string \<Rightarrow> project_store \<Rightarrow> project_store \<times> (pm_error + dict)" where
  "locked_episode_script valid prompt_of now validate resolve body candidate s =
     (let f = script_base candidate in
      case bind_err (resolve (ps_project s)) (\<lambda>c.
           if script_base c \<noteq> f then Inl Rebound
           else bind_err (load_script s f) (\<lambda>d. bind_err (body d) (\<lambda>d'. Inr (d, d')))) of
        Inl e \<Rightarrow> (s, Inl e)
      | Inr (d, d') \<Rightarrow>
          (case write_script_unlocked valid prompt_of now False (if validate then Some (Some d) else None) d' f s of
             (s1, Inl e) \<Rightarrow> (s1, Inl e)
           | (s1, Inr d'') \<Rightarrow>
               (case sync_episode prompt_of now d'' f (ps_project s1) of
                  Inl e \<Rightarrow> (s1, Inl e)
                | Inr p \<Rightarrow> (s1\<lparr>ps_project := p\<rparr>, Inr d''))))"

definition episode_edit ::
  "(dict \<Rightarrow> bool) \<Rightarrow> (string \<Rightarrow> string) \<Rightarrow> string \<Rightarrow> bool \<Rightarrow> (dict \<Rightarrow> pm_error + string) \<Rightarrow>
   (dict \<Rightarrow> pm_error + dict) \<Rightarrow> project_store \<Rightarrow> project_store \<Rightarrow> project_store \<times> (pm_error + dict)" where
  "episode_edit valid prompt_of now validate resolve body seen s =
     (case bind_err (load_project prompt_of (ps_project seen)) resolve of
        Inl e \<Rightarrow> (s, Inl e)
      | Inr candidate \<Rightarrow> locked_episode_script valid prompt_of now validate resolve body candidate s)"

section \<open>Generated assets\<close>

definition create_generated_assets :: dict where
  "create_generated_assets =
     [(''storyboard_image'', JNull), (''storyboard_last_image'', JNull), (''video_clip'', JNull),
      (''video_thumbnail'', JNull), (''video_uri'', JNull), (''narration_audio'', JNull),
      (''grid_id'', JNull), (''grid_cell_index'', JNull), (''status'', JStr ''pending'')]"

definition scene_status :: "dict \<Rightarrow> string" where
  "scene_status assets =
     (if truthy (dict_ref assets ''video_clip'') then ''completed''
      else if truthy (dict_ref assets ''storyboard_image'') then ''storyboard_ready'' else ''pending'')"

fun add_defaults :: "dict \<Rightarrow> dict \<Rightarrow> dict" where
  "add_defaults d [] = d"
| "add_defaults d ((k, v) # kvs) = add_defaults (dict_default d k v) kvs"

definition set_asset :: "string \<Rightarrow> json \<Rightarrow> dict \<Rightarrow> dict" where
  "set_asset ty v item =
     (let a0 = (case dict_ref item ''generated_assets'' of JObj a \<Rightarrow> a | _ \<Rightarrow> []);
          a1 = dict_put (add_defaults a0 create_generated_assets) ty v
      in dict_put item ''generated_assets'' (JObj (dict_put a1 ''status'' (JStr (scene_status a1)))))"

text \<open>\<open>str(item.get(id_field)) == str(scene_id)\<close> for an item that is an object.\<close>

definition has_id :: "string \<Rightarrow> string \<Rightarrow> json \<Rightarrow> bool" where
  "has_id id_field sid item = (json_id id_field item = Some sid)"

definition set_asset_in :: "string \<Rightarrow> json \<Rightarrow> json \<Rightarrow> json" where
  "set_asset_in ty v item = (case item of JObj d \<Rightarrow> JObj (set_asset ty v d) | _ \<Rightarrow> item)"

text \<open>One update changes the first item of the id; a batch keeps, per id, the last one.\<close>

definition edit_items :: "dict \<Rightarrow> (json list \<Rightarrow> string \<Rightarrow> pm_error + json list) \<Rightarrow> pm_error + dict" where
  "edit_items script f =
     (case resolve_items script of
        Inl e \<Rightarrow> Inl (Edit_Error e)
      | Inr (items, id_field, kind) \<Rightarrow>
          bind_err (f items id_field) (\<lambda>items'.
            Inr (if dict_has script kind then dict_put script kind (JArr items') else script)))"

definition update_item :: "string \<Rightarrow> string \<Rightarrow> json \<Rightarrow> dict \<Rightarrow> pm_error + dict" where
  "update_item sid ty v script =
     edit_items script (\<lambda>items id_field.
       case update_first (has_id id_field sid) (set_asset_in ty v) items of
         None \<Rightarrow> Inl Key_Error
       | Some items' \<Rightarrow> Inr items')"

fun batch_items :: "string \<Rightarrow> (string \<times> string \<times> json) list \<Rightarrow> json list \<times> string list \<Rightarrow> json list \<times> string list" where
  "batch_items id_field [] st = st"
| "batch_items id_field ((sid, ty, v) # us) (items, missing) =
     batch_items id_field us
       (case update_last (has_id id_field sid) (set_asset_in ty v) items of
          None \<Rightarrow> (items, missing @ [sid])
        | Some items' \<Rightarrow> (items', missing))"

definition batch_update :: "(string \<times> string \<times> json) list \<Rightarrow> dict \<Rightarrow> pm_error + dict" where
  "batch_update us script =
     edit_items script (\<lambda>items id_field.
       case batch_items id_field us (items, []) of
         (items', []) \<Rightarrow> Inr items'
       | _ \<Rightarrow> Inl Key_Error)"

definition update_scene_asset ::
  "(dict \<Rightarrow> bool) \<Rightarrow> (string \<Rightarrow> string) \<Rightarrow> string \<Rightarrow> string \<Rightarrow> string \<Rightarrow> string \<Rightarrow> json \<Rightarrow>
   project_store \<Rightarrow> project_store \<times> (pm_error + dict)" where
  "update_scene_asset valid prompt_of now f sid ty v s =
     locked_script valid prompt_of now False (update_item sid ty v) f s"

definition batch_update_scene_assets ::
  "(dict \<Rightarrow> bool) \<Rightarrow> (string \<Rightarrow> string) \<Rightarrow> string \<Rightarrow> string \<Rightarrow> (string \<times> string \<times> json) list \<Rightarrow>
   project_store \<Rightarrow> project_store \<times> (pm_error + dict)" where
  "batch_update_scene_assets valid prompt_of now f us s =
     (if us = [] then (s, Inr [])
      else locked_script valid prompt_of now False (batch_update us) f s)"

text \<open>Reads degrade: a damaged array reads as empty, an item that is no object is left out.\<close>

definition asset_missing :: "string \<Rightarrow> dict \<Rightarrow> bool" where
  "asset_missing ty item =
     (case dict_ref item ''generated_assets'' of JObj a \<Rightarrow> \<not> truthy (dict_ref a ty) | _ \<Rightarrow> True)"

definition get_pending_scenes :: "string \<Rightarrow> dict \<Rightarrow> dict list" where
  "get_pending_scenes ty script =
     (case resolve_items script of
        Inl _ \<Rightarrow> []
      | Inr (items, _, _) \<Rightarrow> filter (asset_missing ty) (List.map_filter as_dict items))"

definition get_scenes_needing_storyboard :: "dict \<Rightarrow> dict list" where
  "get_scenes_needing_storyboard script = get_pending_scenes ''storyboard_image'' script"

end
