(* ===== verification/ProjectProps.thy ===== *)
theory ProjectProps
  imports ProjectAssets
begin

text \<open>
  Properties of the project file: identifiers, the safety of asset names, what an agent's upsert may
  change, and the synchronisation of episodes. The locale \<open>project_mutation\<close> states the contract of a
  mutation under the lock, which is interpreted on every operation of \<open>ProjectAssets\<close>.
\<close>

section \<open>Dictionaries\<close>

lemma dict_get_update_other: "k \<notin> fst ` set kvs \<Longrightarrow> dict_get (dict_update d kvs) k = dict_get d k"
  by (induction d kvs rule: dict_update.induct) (auto simp: dict_get_put)

lemma dict_get_update_in:
  "k \<in> fst ` set kvs \<Longrightarrow> \<exists>v. (k, v) \<in> set kvs \<and> dict_get (dict_update d kvs) k = Some v"
proof (induction d kvs rule: dict_update.induct)
  case (2 d k' v' kvs)
  show ?case
  proof (cases "k \<in> fst ` set kvs")
    case True
    with 2 show ?thesis by auto
  next
    case False
    with 2(2) show ?thesis by (simp add: dict_get_update_other dict_get_put)
  qed
qed simp

lemma keys_dict_put: "fst ` set (dict_put d k v) = insert k (fst ` set d)"
proof -
  have "fst ` set (dict_put d k v) = set (map fst (dict_put d k v))" by simp
  also have "\<dots> = insert k (fst ` set d)" unfolding dict_keys_put by auto
  finally show ?thesis .
qed

lemma keys_dict_update: "fst ` set (dict_update d kvs) = fst ` set d \<union> fst ` set kvs"
  by (induction d kvs rule: dict_update.induct) (auto simp: keys_dict_put)

lemma dict_ref_get: "dict_get d k = Some v \<Longrightarrow> dict_ref d k = v"
  by (simp add: dict_ref_def)

section \<open>Identifiers\<close>

lemma letter_lower: "is_letter c \<Longrightarrow> is_letter (lower_char c)"
  by (auto simp: is_letter_def lower_char_def Let_def)

lemma digit_lower: "is_digit c \<Longrightarrow> lower_char c = c"
  by (auto simp: is_digit_def lower_char_def Let_def)

lemma letter_p: "is_letter CHR ''p''"
  by (simp add: is_letter_def)

lemma name_char_lower:
  "is_alnum c \<or> c = CHR ''-'' \<Longrightarrow> is_alnum (lower_char c) \<or> lower_char c = CHR ''-''"
proof (elim disjE)
  show "c = CHR ''-'' \<Longrightarrow> ?thesis" by (simp add: lower_char_def)
qed (auto simp: is_alnum_def letter_lower digit_lower)

lemma alnum_not_space: "is_alnum c \<Longrightarrow> \<not> is_space c"
  by (auto simp: is_alnum_def is_letter_def is_digit_def is_space_def Let_def)

abbreviation name_chars :: "string \<Rightarrow> bool" where
  "name_chars s \<equiv> list_all (\<lambda>c. is_alnum c \<or> c = CHR ''-'') s"

lemma sanitize_chars: "name_chars (sanitize s)"
  by (induction s rule: sanitize.induct) auto

lemma name_chars_parts:
  "name_chars s \<Longrightarrow> name_chars (dropWhile P s)" "name_chars s \<Longrightarrow> name_chars (take n s)" "name_chars (rev s) = name_chars s"
  by (auto simp: list_all_iff dest: set_dropWhileD in_set_takeD)

lemma slug_chars: "name_chars (slugify_project_title title)"
proof -
  let ?t = "strip_of (\<lambda>c. c = CHR ''-'' \<or> c = CHR ''_'') (sanitize (strip title))"
  have "name_chars ?t" unfolding strip_of_def by (simp add: name_chars_parts sanitize_chars)
  then have "name_chars (lower ?t)"
    using name_char_lower by (fastforce simp: lower_def list_all_iff)
  then have "name_chars (take 24 (lower ?t))" by (rule name_chars_parts)
  moreover have "name_chars ''proj''" by code_simp
  ultimately show ?thesis by (simp add: slugify_project_title_def Let_def)
qed

lemma slug_nonempty: "slugify_project_title title \<noteq> []"
  by (simp add: slugify_project_title_def Let_def)

lemma strip_name_chars:
  assumes "name_chars s"
  shows "strip s = s"
proof -
  have "\<not> is_space c" if "c \<in> set s" for c
    using assms that alnum_not_space by (auto simp: list_all_iff is_space_def)
  then have "dropWhile is_space xs = xs" if "set xs \<subseteq> set s" for xs
    using that by (cases xs) (auto simp: dropWhile_eq_self)
  then show ?thesis by (simp add: strip_def)
qed

lemma generate_project_name_form:
  "generate_project_name exists title tokens = Some n \<Longrightarrow>
     \<exists>t\<in>set tokens. n = slugify_project_title title @ ''-'' @ t \<and> \<not> exists n"
  by (induction exists title tokens rule: generate_project_name.induct) (auto simp: Let_def split: if_splits)

lemma generate_project_name_total:
  "\<exists>t\<in>set tokens. \<not> exists (slugify_project_title title @ ''-'' @ t) \<Longrightarrow>
     generate_project_name exists title tokens \<noteq> None"
  by (induction exists title tokens rule: generate_project_name.induct) (auto simp: Let_def)

text \<open>A generated project identifier is free, is accepted by the check of identifiers as it is, and
  contains a letter, whatever the title; it is found as soon as one of the drawn suffixes is free.\<close>

theorem generated_name_accepted:
  assumes "\<forall>t\<in>set tokens. t \<noteq> [] \<and> list_all is_alnum t"
  shows "(\<forall>n. generate_project_name exists title tokens = Some n \<longrightarrow>
            \<not> exists n \<and> normalize_project_name n = Inr n \<and> list_ex is_letter n) \<and>
         ((\<exists>t\<in>set tokens. \<not> exists (slugify_project_title title @ ''-'' @ t)) \<longrightarrow>
            generate_project_name exists title tokens \<noteq> None)"
proof (intro conjI allI impI)
  fix n assume n: "generate_project_name exists title tokens = Some n"
  from generate_project_name_form [OF n] obtain t where
    t: "t \<in> set tokens" "n = slugify_project_title title @ ''-'' @ t" "\<not> exists n" by blast
  then show "\<not> exists n" by simp
  have "name_chars n" using t(1,2) assms slug_chars [of title] by (auto simp: list_all_iff)
  moreover from this have "strip n = n" by (rule strip_name_chars)
  ultimately show "normalize_project_name n = Inr n"
    using t(2) slug_nonempty [of title] by (simp add: normalize_project_name_def Let_def)
  have "list_ex is_letter (slugify_project_title title)"
    using letter_p by (auto simp: slugify_project_title_def Let_def)
  with t(2) show "list_ex is_letter n" by simp
qed (use generate_project_name_total in blast)

theorem generated_name_accepted_witness:
  "generate_project_name (\<lambda>n. n = ''my-film-1a'') ''  My Film! '' [''1a'', ''2b''] = Some ''my-film-2b'' \<and>
   normalize_project_name ''my-film-2b'' = Inr ''my-film-2b''"
proof -
  have "generate_project_name (\<lambda>n. n = ''my-film-1a'') ''  My Film! '' [''1a'', ''2b''] = Some ''my-film-2b''"
    by code_simp
  moreover have "\<forall>t\<in>set [''1a'', ''2b'']. t \<noteq> [] \<and> list_all is_alnum t" by code_simp
  ultimately show ?thesis using generated_name_accepted [of "[''1a'', ''2b'']"] by blast
qed

section \<open>What an update leaves alone\<close>

definition housekeeping :: "string list" where
  "housekeeping = [''metadata'', ''style'', ''style_template_id'', ''video_model_settings'']"

lemma py_raise_Inr_iff: "py_raise r = Inr v \<longleftrightarrow> r = Inr v"
  by (cases r) (auto simp: py_raise_def)

lemma migrate_resolution_frame:
  "migrate_legacy_resolution p = Inr p' \<Longrightarrow> k \<noteq> ''video_model_settings'' \<Longrightarrow> dict_get p' k = dict_get p k"
  by (auto simp: migrate_legacy_resolution_def Let_def bind_err_Inr_iff dict_simps split: if_splits json.splits)

lemma migrate_style_frame:
  "migrate_legacy_style f p = Inr p' \<Longrightarrow> k \<notin> {''style'', ''style_template_id''} \<Longrightarrow> dict_get p' k = dict_get p k"
  by (auto simp: migrate_legacy_style_def Let_def dict_simps split: if_splits option.splits)

lemma touch_metadata_frame:
  "touch_metadata now p = Inr p' \<Longrightarrow> k \<noteq> ''metadata'' \<Longrightarrow> dict_get p' k = dict_get p k"
  by (auto simp: touch_metadata_def dict_simps split: option.splits json.splits)

lemma finish_update_frame:
  "finish_update f now p = Inr p' \<Longrightarrow> k \<notin> set housekeeping \<Longrightarrow> dict_get p' k = dict_get p k"
  by (auto simp: finish_update_def bind_err_Inr_iff py_raise_Inr_iff housekeeping_def
      dest!: migrate_resolution_frame [of _ _ k] migrate_style_frame [of _ _ _ k] touch_metadata_frame [of _ _ _ k])

lemma save_project_frame:
  "save_project now p = Inr p' \<Longrightarrow> k \<notin> set housekeeping \<Longrightarrow> dict_get p' k = dict_get p k"
  by (auto simp: save_project_def bind_err_Inr_iff py_raise_Inr_iff housekeeping_def
      dest!: migrate_resolution_frame [of _ _ k] touch_metadata_frame [of _ _ _ k])

section \<open>Asset names are safe\<close>

definition name_ok :: "string \<Rightarrow> bool" where
  "name_ok k = (path_component k \<and> strip k = k)"

definition bucket_ok :: "json \<Rightarrow> bool" where
  "bucket_ok b = (case b of JObj d \<Rightarrow> wf_dict d \<and> (\<forall>k\<in>fst ` set d. name_ok k) | _ \<Rightarrow> False)"

definition tables :: "string list" where
  "tables = map as_bucket asset_specs"

definition assets_ok :: "dict \<Rightarrow> bool" where
  "assets_ok p = (\<forall>t\<in>set tables. \<forall>b. dict_get p t = Some b \<longrightarrow> bucket_ok b)"

lemma tables_housekeeping: "t \<in> set tables \<Longrightarrow> t \<notin> set housekeeping"
  by (auto simp: tables_def asset_specs_def housekeeping_def)

lemma tables_episodes: "t \<in> set tables \<Longrightarrow> t \<noteq> ''episodes''"
  by (auto simp: tables_def asset_specs_def)

lemma assets_ok_frame: "(\<And>t. t \<in> set tables \<Longrightarrow> dict_get p' t = dict_get p t) \<Longrightarrow> assets_ok p \<Longrightarrow> assets_ok p'"
  by (simp add: assets_ok_def)

lemma assets_ok_put: "assets_ok p \<Longrightarrow> bucket_ok b \<Longrightarrow> assets_ok (dict_put p t b)"
  by (simp add: assets_ok_def dict_get_put)

lemma assets_ok_put_other: "assets_ok p \<Longrightarrow> t \<notin> set tables \<Longrightarrow> assets_ok (dict_put p t b)"
  by (auto simp: assets_ok_def dict_get_put)

lemma assets_ok_bucket:
  "assets_ok p \<Longrightarrow> t \<in> set tables \<Longrightarrow> bucket_ok (dict_or p t (JObj []))"
  by (cases "dict_get p t") (auto simp: assets_ok_def dict_or_def bucket_ok_def wf_dict_def)

lemma finish_update_assets: "finish_update f now p = Inr p' \<Longrightarrow> assets_ok p \<Longrightarrow> assets_ok p'"
  by (rule assets_ok_frame) (auto dest: tables_housekeeping finish_update_frame)

lemma validate_asset_name_ok: "validate_asset_name j = Inr n \<Longrightarrow> name_ok n"
  by (auto simp: validate_asset_name_def name_ok_def strip_idem split: json.splits if_splits)

lemma bucket_ok_put: "bucket_ok (JObj d) \<Longrightarrow> name_ok k \<Longrightarrow> bucket_ok (JObj (dict_put d k v))"
  by (simp add: bucket_ok_def wf_dict_put keys_dict_put)

lemma bucket_put_ok: "bucket_put b k v = Inr b' \<Longrightarrow> bucket_ok b \<Longrightarrow> name_ok k \<Longrightarrow> bucket_ok b'"
  by (cases b) (auto intro: bucket_ok_put)

lemma bucket_has_ok: "bucket_has b k = Inr True \<Longrightarrow> bucket_ok b \<Longrightarrow> name_ok k"
  by (cases b) (auto simp: bucket_ok_def dict_has_def)

subsection \<open>The contract of a mutation\<close>

locale project_mutation =
  fixes mutate :: "dict \<Rightarrow> pm_error + dict"
  assumes keeps_assets: "mutate p = Inr p' \<Longrightarrow> assets_ok p \<Longrightarrow> assets_ok p'"
begin

lemma update_keeps: "update_project f now mutate p = Inr p' \<Longrightarrow> assets_ok p \<Longrightarrow> assets_ok p'"
  unfolding update_project_def bind_err_Inr_iff using keeps_assets finish_update_assets by blast

end

lemma set_entry_field_keeps:
  assumes "set_entry_field b n f v p = Inr p'" and "assets_ok p"
  shows "assets_ok p'"
proof -
  from assms(1) obtain c e e' c' where c: "dict_ref p b = c" "c \<noteq> JNull" "bucket_has c n = Inr True"
      "bucket_put c n e' = Inr c'" "p' = dict_put p b c'"
    by (auto simp: set_entry_field_def bind_err_Inr_iff py_raise_Inr_iff split: json.splits if_splits)
  show ?thesis
  proof (cases "b \<in> set tables")
    case True
    from c(1,2) have "dict_get p b = Some c" by (cases "dict_get p b") (auto simp: dict_ref_def)
    with True assms(2) have "bucket_ok c" by (simp add: assets_ok_def)
    with c show ?thesis using assms(2) by (simp add: assets_ok_put bucket_put_ok [OF c(4)] bucket_has_ok)
  next
    case False
    with c(5) assms(2) show ?thesis by (simp add: assets_ok_put_other)
  qed
qed

interpretation entry_field: project_mutation "set_entry_field b n f v" for b n f v
  by unfold_locales (rule set_entry_field_keeps)

lemma episodes_put_keeps: "assets_ok p \<Longrightarrow> assets_ok (dict_put p ''episodes'' v)"
  using assets_ok_put_other tables_episodes by blast

interpretation episode_sync: project_mutation "apply_episode_sync script f" for script f
  by unfold_locales (auto simp: apply_episode_sync_def Let_def bind_err_Inr_iff intro: episodes_put_keeps)

interpretation new_episode: project_mutation "add_episode n title f" for n title f
  by unfold_locales
    (auto simp: add_episode_def bind_err_Inr_iff split: option.splits intro: episodes_put_keeps)

interpretation character_field: project_mutation
  "\<lambda>p. if dict_get p ''characters'' = Some JNull then Inl (Py Type_Error)
       else set_entry_field ''characters'' n f v p" for n f v
  by unfold_locales (auto intro: set_entry_field_keeps split: if_splits)

subsection \<open>Operations that add entries\<close>

lemma add_assets_ok:
  assumes "add_assets es b = Inr (n, b')" and "bucket_ok b" and "\<forall>k\<in>fst ` set es. name_ok k"
  shows "bucket_ok b'"
proof -
  have "bucket_ok (snd (n, b'))"
  proof (rule fold_err_invariant [where I = "\<lambda>s. bucket_ok (snd s)", OF assms(1) [unfolded add_assets_def]])
    fix s x s'
    assume "bucket_ok (snd s)" and "x \<in> set es"
      and "(case s of (n, b) \<Rightarrow> \<lambda>(name, entry). bind_err (bucket_has b name) (\<lambda>there.
             if there then Inr (n, b) else bind_err (bucket_put b name entry) (\<lambda>b'. Inr (Suc n, b')))) x = Inr s'"
    then show "bucket_ok (snd s')"
      using assms(3) by (cases s; cases x) (force simp: bind_err_Inr_iff split: if_splits intro: bucket_put_ok)
  qed (use assms(2) in simp)
  then show ?thesis by simp
qed

lemma spec_tables: "sp \<in> set asset_specs \<Longrightarrow> as_bucket sp \<in> set tables"
  by (simp add: tables_def)

lemma add_into_keeps:
  "add_into sp es p = Inr (n, p') \<Longrightarrow> sp \<in> set asset_specs \<Longrightarrow> \<forall>k\<in>fst ` set es. name_ok k \<Longrightarrow>
     assets_ok p \<Longrightarrow> assets_ok p'"
  by (auto simp: add_into_def bind_err_Inr_iff py_raise_Inr_iff
      intro!: assets_ok_put add_assets_ok [of es "dict_or p (as_bucket sp) (JObj [])"] assets_ok_bucket spec_tables)

lemma update_counting_Inr:
  "update_counting f now m p = Inr (n, p') \<longleftrightarrow> (\<exists>q. m p = Inr (n, q) \<and> finish_update f now q = Inr p')"
  by (auto simp: update_counting_def bind_err_Inr_iff)

lemma normalize_entries_ok:
  assumes "normalize_entries es = Inr ns"
  shows "\<forall>k\<in>fst ` set ns. name_ok k"
proof (rule fold_err_invariant [where I = "\<lambda>acc. \<forall>k\<in>fst ` set acc. name_ok k", OF assms [unfolded normalize_entries_def]])
  fix s x s'
  assume "\<forall>k\<in>fst ` set s. name_ok k"
    and "(case x of (raw, entry) \<Rightarrow> bind_err (validate_asset_name (JStr raw)) (\<lambda>name.
           if name \<in> set (map fst s) then Inl Value_Error else Inr (s @ [(name, entry)]))) = Inr s'"
  then show "\<forall>k\<in>fst ` set s'. name_ok k"
    using validate_asset_name_ok by (cases x) (fastforce simp: bind_err_Inr_iff split: if_splits)
qed simp

lemma add_asset_keeps:
  assumes "add_asset f now sp n e p = Inr (b, p')" and "sp \<in> set asset_specs" and "assets_ok p"
  shows "assets_ok p'"
proof -
  from assms(1) obtain k m q where k: "validate_asset_name (JStr n) = Inr k"
      "add_into sp [(k, JObj e)] p = Inr (m, q)" "finish_update f now q = Inr p'"
    by (auto simp: add_asset_def bind_err_Inr_iff update_counting_Inr)
  from k(1) have "\<forall>x\<in>fst ` set [(k, JObj e)]. name_ok x" by (simp add: validate_asset_name_ok)
  then show ?thesis by (rule finish_update_assets [OF k(3) add_into_keeps [OF k(2) assms(2) _ assms(3)]])
qed

lemma add_assets_batch_keeps:
  assumes "add_assets_batch f now sp es p = Inr (n, p')" and "sp \<in> set asset_specs" and "assets_ok p"
  shows "assets_ok p'"
proof -
  from assms(1) obtain ns where ns: "normalize_entries es = Inr ns" and
    i: "(if ns = [] then Inr (0, p)
         else update_counting f now (add_into sp (map (\<lambda>(k, e). (k, JObj e)) ns)) p) = Inr (n, p')"
    unfolding add_assets_batch_def bind_err_Inr_iff by blast
  then have r: "p' = p \<or> (\<exists>q. add_into sp (map (\<lambda>(k, e). (k, JObj e)) ns) p = Inr (n, q) \<and> finish_update f now q = Inr p')"
    by (auto simp: update_counting_Inr split: if_splits)
  have n: "\<forall>k\<in>fst ` set (map (\<lambda>(k, e). (k, JObj e)) ns). name_ok k"
    using normalize_entries_ok [OF ns] by force
  from r show ?thesis
  proof
    assume "\<exists>q. add_into sp (map (\<lambda>(k, e). (k, JObj e)) ns) p = Inr (n, q) \<and> finish_update f now q = Inr p'"
    then obtain q where q: "add_into sp (map (\<lambda>(k, e). (k, JObj e)) ns) p = Inr (n, q)" "finish_update f now q = Inr p'"
      by blast
    show ?thesis by (rule finish_update_assets [OF q(2) add_into_keeps [OF q(1) assms(2) n assms(3)]])
  qed (use assms(3) in simp)
qed

lemma add_project_character_keeps:
  assumes "add_project_character f now n d v sh p = Inr p'" and "assets_ok p"
  shows "assets_ok p'"
proof -
  from assms(1) obtain k b b' e where k: "validate_asset_name (JStr n) = Inr k" "dict_get p ''characters'' = Some b"
      "bucket_put b k e = Inr b'" "finish_update f now (dict_put p ''characters'' b') = Inr p'"
    by (auto simp: add_project_character_def update_project_def bind_err_Inr_iff py_raise_Inr_iff split: option.splits)
  have "''characters'' \<in> set tables" by (simp add: tables_def asset_specs_def)
  with k(2) assms(2) have "bucket_ok b" by (simp add: assets_ok_def)
  with k assms(2) show ?thesis
    by (meson assets_ok_put bucket_put_ok finish_update_assets validate_asset_name_ok)
qed

lemma clear_field_keeps:
  assumes "clear_field inside f now t n fld p = (file, Inr p')" and "assets_ok p"
  shows "assets_ok p'"
proof -
  from assms(1) obtain d e where c: "dict_ref p t = JObj d" "bucket_has (JObj d) n = Inr True"
      "finish_update f now (dict_put p t (JObj (dict_put d n (JObj (dict_put e fld (JStr [])))))) = Inr p'"
    by (auto simp: clear_field_def clear_entry_field_def bind_err_Inr_iff py_raise_Inr_iff Let_def
        split: sum.splits json.splits if_splits)
  let ?b = "JObj (dict_put d n (JObj (dict_put e fld (JStr []))))"
  have "assets_ok (dict_put p t ?b)"
  proof (cases "t \<in> set tables")
    case True
    from c(1) have "dict_get p t = Some (JObj d)" by (cases "dict_get p t") (auto simp: dict_ref_def)
    with True assms(2) have d: "bucket_ok (JObj d)" by (simp add: assets_ok_def)
    with c(2) have "name_ok n" by (rule bucket_has_ok)
    with d assms(2) show ?thesis by (simp add: assets_ok_put bucket_ok_put)
  qed (use assms(2) assets_ok_put_other in blast)
  with c(3) show ?thesis by (rule finish_update_assets)
qed

lemma add_product_reference_keeps:
  assumes "add_product_reference_image f now n path p = Inr p'" and "assets_ok p"
  shows "assets_ok p'"
proof -
  from assms(1) obtain d e where c: "dict_ref p ''products'' = JObj d" "bucket_has (JObj d) n = Inr True"
      "finish_update f now (dict_put p ''products'' (JObj (dict_put d n (JObj e)))) = Inr p'"
    by (auto simp: add_product_reference_image_def update_project_def bind_err_Inr_iff py_raise_Inr_iff Let_def
        split: sum.splits json.splits if_splits)
  have t: "''products'' \<in> set tables" by (simp add: tables_def asset_specs_def)
  from c(1) have "dict_get p ''products'' = Some (JObj d)" by (cases "dict_get p ''products''") (auto simp: dict_ref_def)
  with t assms(2) have d: "bucket_ok (JObj d)" by (simp add: assets_ok_def)
  with c(2) have "name_ok n" by (rule bucket_has_ok)
  with d assms(2) have "assets_ok (dict_put p ''products'' (JObj (dict_put d n (JObj e))))"
    by (simp add: assets_ok_put bucket_ok_put)
  with c(3) show ?thesis by (rule finish_update_assets)
qed

subsection \<open>The agent's upsert\<close>

text \<open>What an upsert may do to one entry: change the allowed fields of an object that is there, or put a
  fresh one whose other fields are blank.\<close>

definition blank :: "json option \<Rightarrow> bool" where
  "blank v = (v \<in> {None, Some (JStr []), Some (JArr [])})"

definition within_privilege :: "string list \<Rightarrow> json \<Rightarrow> json \<Rightarrow> bool" where
  "within_privilege allowed v v' =
     (case v of
        JObj old \<Rightarrow> \<exists>new. v' = JObj new \<and> (\<forall>k. k \<notin> set allowed \<longrightarrow> dict_get new k = dict_get old k)
      | _ \<Rightarrow> v' = v \<or> (\<exists>new. v' = JObj new \<and> (\<forall>k. k \<notin> set allowed \<longrightarrow> blank (dict_get new k))))"

lemma within_privilege_refl: "within_privilege a v v"
  by (cases v) (auto simp: within_privilege_def)

lemma within_privilege_trans:
  "within_privilege a u v \<Longrightarrow> within_privilege a v w \<Longrightarrow> within_privilege a u w"
  by (cases u; cases v) (auto simp: within_privilege_def)

lemma build_entry_blank:
  assumes "fst ` set attrs \<subseteq> set (allowed_fields sp)" and "k \<notin> set (allowed_fields sp)"
  shows "blank (dict_get (build_asset_entry sp d attrs) k)"
proof -
  let ?kvs = "(as_sheet sp, dict_or attrs (as_sheet sp) (JStr [])) #
        map (\<lambda>k. (k, dict_or attrs k (JStr []))) (as_strings sp) @
        map (\<lambda>k. (k, list_field attrs k)) (as_lists sp @ as_dict_lists sp)"
  have none: "dict_get attrs k = None"
    using assms by (auto simp: dict_get_def map_of_eq_None_iff)
  have kd: "k \<noteq> ''description''" using assms(2) by (simp add: allowed_fields_def)
  show ?thesis
  proof (cases "k \<in> fst ` set ?kvs")
    case True
    then obtain v where "(k, v) \<in> set ?kvs" "dict_get (build_asset_entry sp d attrs) k = Some v"
      unfolding build_asset_entry_def using dict_get_update_in by blast
    then show ?thesis
      using none by (auto simp: blank_def dict_or_def list_field_def dict_ref_def)
  next
    case False
    then have "dict_get (build_asset_entry sp d attrs) k = dict_get [(''description'', d)] k"
      unfolding build_asset_entry_def by (rule dict_get_update_other)
    with kd show ?thesis by (simp add: blank_def dict_get_def)
  qed
qed

lemma upsert_one_privilege:
  assumes "upsert_one sp (rep, b) (name, attrs) = (rep', b')" and "fst ` set attrs \<subseteq> set (allowed_fields sp)"
  shows "within_privilege (allowed_fields sp) (dict_ref b n) (dict_ref b' n)"
proof (cases "n = name")
  case True
  show ?thesis
  proof (cases "\<exists>old. dict_ref b name = JObj old")
    case True
    then obtain old where old: "dict_ref b name = JObj old" by blast
    have "dict_get (dict_update old attrs) k = dict_get old k" if "k \<notin> set (allowed_fields sp)" for k
      using that assms(2) by (intro dict_get_update_other) auto
    with old assms(1) \<open>n = name\<close> show ?thesis
      by (auto simp: upsert_one_def within_privilege_def dict_ref_put split: if_splits)
  next
    case False
    with assms(1) \<open>n = name\<close> have "dict_ref b' n = JObj (build_asset_entry sp (dict_or attrs ''description'' (JStr [])) attrs)"
      by (auto simp: upsert_one_def dict_ref_put split: json.splits)
    with False \<open>n = name\<close> show ?thesis
      by (auto simp: within_privilege_def build_entry_blank [OF assms(2)] split: json.splits)
  qed
next
  case False
  with assms(1) have "dict_ref b' n = dict_ref b n"
    by (auto simp: upsert_one_def dict_ref_put split: json.splits if_splits)
  then show ?thesis by (simp add: within_privilege_refl)
qed

lemma upsert_fold:
  assumes "foldl (upsert_one sp) (rep, b) cleaned = (rep', b')"
    and "\<forall>(name, attrs)\<in>set cleaned. fst ` set attrs \<subseteq> set (allowed_fields sp) \<and> name_ok name"
  shows "within_privilege (allowed_fields sp) (dict_ref b n) (dict_ref b' n) \<and>
         (bucket_ok (JObj b) \<longrightarrow> bucket_ok (JObj b'))"
  using assms
proof (induction cleaned arbitrary: rep b)
  case Nil
  then show ?case by (simp add: within_privilege_refl)
next
  case (Cons x cleaned)
  obtain name attrs where x: "x = (name, attrs)" by force
  obtain rep1 b1 where s: "upsert_one sp (rep, b) (name, attrs) = (rep1, b1)" by force
  from Cons.prems(2) x have a: "fst ` set attrs \<subseteq> set (allowed_fields sp)" "name_ok name" by auto
  have b1: "bucket_ok (JObj b1)" if "bucket_ok (JObj b)"
    using s that a(2) by (auto simp: upsert_one_def split: json.splits if_splits intro: bucket_ok_put)
  have "foldl (upsert_one sp) (rep1, b1) cleaned = (rep', b')" using Cons.prems(1) x s by simp
  from Cons.IH [OF this] Cons.prems(2)
  have ih: "within_privilege (allowed_fields sp) (dict_ref b1 n) (dict_ref b' n)"
      "bucket_ok (JObj b1) \<longrightarrow> bucket_ok (JObj b')" by simp_all
  from within_privilege_trans [OF upsert_one_privilege [OF s a(1)] ih(1)] ih(2) b1 show ?case by blast
qed

lemma upsert_entries_ok:
  assumes "upsert_entries es = Inr ns"
  shows "\<forall>k\<in>fst ` set ns. name_ok k"
proof (rule fold_err_invariant [where I = "\<lambda>acc. \<forall>k\<in>fst ` set acc. name_ok k", OF assms [unfolded upsert_entries_def]])
  fix s x s'
  assume s: "\<forall>k\<in>fst ` set s. name_ok k"
    and "(case x of (raw, attrs) \<Rightarrow> bind_err (validate_asset_name (JStr raw)) (\<lambda>name.
           case attrs of
             JObj d \<Rightarrow> if name \<in> set (map fst s) then Inl Value_Error else Inr (s @ [(name, d)])
           | _ \<Rightarrow> Inl Value_Error)) = Inr s'"
  then obtain raw name d where "validate_asset_name (JStr raw) = Inr name" "s' = s @ [(name, d)]"
    by (cases x; cases "snd x") (auto simp: bind_err_Inr_iff split: if_splits)
  with s show "\<forall>k\<in>fst ` set s'. name_ok k" by (auto dest: validate_asset_name_ok)
qed simp

lemma upsert_assets_InrD:
  assumes "upsert_assets errors f now table entries p = Inr (rep, p')"
  obtains sp ns b b' where "spec_of_table table = Some sp" "dict_or p table (JObj []) = JObj b"
    "\<forall>n. within_privilege (allowed_fields sp) (dict_ref b n) (dict_ref b' n)"
    "bucket_ok (JObj b) \<longrightarrow> bucket_ok (JObj b')"
    "finish_update f now (dict_put p table (JObj b')) = Inr p'"
    "errors (dict_put p table (JObj b')) \<subseteq> errors p"
proof -
  from assms obtain sp es where sp: "spec_of_table table = Some sp" and es: "entries = JObj es"
    by (auto simp: upsert_assets_def split: option.splits json.splits)
  from sp have t: "as_bucket sp = table" by (auto simp: spec_of_table_def find_Some_iff)
  from assms sp es obtain ns rep1 q where ns: "upsert_entries es = Inr ns" and
    q: "upsert_mutate errors sp (map (\<lambda>(k, d). (k, clean_attrs sp d)) ns) p = Inr (rep1, q)"
       "finish_update f now q = Inr p'"
    by (auto simp: upsert_assets_def bind_err_Inr_iff update_counting_Inr split: if_splits)
  let ?init = "\<lparr>ur_added = [], ur_merged = [], ur_noop = [], ur_dropped = [], ur_legacy = []\<rparr>"
  let ?cleaned = "map (\<lambda>(k, d). (k, clean_attrs sp d)) ns"
  from q(1) t obtain b rep2 b' where b: "dict_or p table (JObj []) = JObj b"
      "foldl (upsert_one sp) (?init, b) ?cleaned = (rep2, b')" "q = dict_put p table (JObj b')"
      "errors q \<subseteq> errors p"
    by (auto simp: upsert_mutate_def Let_def split: json.splits prod.splits if_splits)
  have "\<forall>(name, attrs)\<in>set ?cleaned. fst ` set attrs \<subseteq> set (allowed_fields sp) \<and> name_ok name"
    using upsert_entries_ok [OF ns] by (auto simp: clean_attrs_def)
  from upsert_fold [OF b(2) this] have
    "\<forall>n. within_privilege (allowed_fields sp) (dict_ref b n) (dict_ref b' n)"
    "bucket_ok (JObj b) \<longrightarrow> bucket_ok (JObj b')" by simp_all
  with that sp b q(2) show thesis by blast
qed

lemma upsert_assets_keeps:
  assumes "upsert_assets errors f now table entries p = Inr (rep, p')" and "assets_ok p"
  shows "assets_ok p'"
  using assms(1)
proof (rule upsert_assets_InrD)
  fix sp ns b b'
  assume a: "spec_of_table table = Some sp" "dict_or p table (JObj []) = JObj b"
    "bucket_ok (JObj b) \<longrightarrow> bucket_ok (JObj b')" "finish_update f now (dict_put p table (JObj b')) = Inr p'"
  from a(1) have "table \<in> set tables" by (auto simp: spec_of_table_def find_Some_iff tables_def)
  from assets_ok_bucket [OF assms(2) this] a(2,3) have "bucket_ok (JObj b')" by simp
  with a(4) assms(2) show ?thesis by (meson assets_ok_put finish_update_assets)
qed

text \<open>C24. An agent's upsert stays within its privilege: it changes one table of the project (beside the
  housekeeping of every write), in an entry that exists only the description and the fields listed for
  agents, never a sheet or an uploaded path; a new entry has its other fields blank; and the
  validator reports no error that it did not report before.\<close>

theorem upsert_least_privilege:
  assumes "upsert_assets errors f now table entries p = Inr (rep, p')" and "spec_of_table table = Some sp"
  shows "(\<forall>k. k \<noteq> table \<and> k \<notin> set housekeeping \<longrightarrow> dict_get p' k = dict_get p k) \<and>
    (\<exists>b b' q. dict_or p table (JObj []) = JObj b \<and> dict_get p' table = Some (JObj b') \<and>
       (\<forall>name. within_privilege (allowed_fields sp) (dict_ref b name) (dict_ref b' name)) \<and>
       finish_update f now q = Inr p' \<and> errors q \<subseteq> errors p)"
  using assms(1)
proof (rule upsert_assets_InrD)
  fix sp' ns b b'
  assume a: "spec_of_table table = Some sp'" "dict_or p table (JObj []) = JObj b"
    "\<forall>n. within_privilege (allowed_fields sp') (dict_ref b n) (dict_ref b' n)"
    "finish_update f now (dict_put p table (JObj b')) = Inr p'" "errors (dict_put p table (JObj b')) \<subseteq> errors p"
  from a(1) have "table \<in> set tables" by (auto simp: spec_of_table_def find_Some_iff tables_def)
  then have "dict_get p' table = Some (JObj b')"
    using finish_update_frame [OF a(4) tables_housekeeping] by (simp add: dict_get_put)
  moreover have "dict_get p' k = dict_get p k" if "k \<noteq> table" "k \<notin> set housekeeping" for k
    using finish_update_frame [OF a(4) that(2)] that(1) by (simp add: dict_get_put)
  ultimately show ?thesis using a assms(2) by auto
qed

section \<open>The names of all assets\<close>

inductive project_step :: "dict \<Rightarrow> dict \<Rightarrow> bool" where
  add: "add_asset f now sp n e p = Inr (b, p') \<Longrightarrow> sp \<in> set asset_specs \<Longrightarrow> project_step p p'"
| batch: "add_assets_batch f now sp es p = Inr (k, p') \<Longrightarrow> sp \<in> set asset_specs \<Longrightarrow> project_step p p'"
| upsert: "upsert_assets errors f now table entries p = Inr (rep, p') \<Longrightarrow> project_step p p'"
| character: "add_project_character f now n d v sh p = Inr p' \<Longrightarrow> project_step p p'"
| sheet: "update_asset_sheet f now sp n path p = Inr p' \<Longrightarrow> project_step p p'"
| clear: "clear_field inside f now t n fld p = (file, Inr p') \<Longrightarrow> project_step p p'"
| field: "set_character_field f now fld n path p = Inr p' \<Longrightarrow> project_step p p'"
| reference: "add_product_reference_image f now n path p = Inr p' \<Longrightarrow> project_step p p'"
| sync: "update_project f now (apply_episode_sync script file) p = Inr p' \<Longrightarrow> project_step p p'"
| episode: "update_project f now (add_episode num title file) p = Inr p' \<Longrightarrow> project_step p p'"
| load: "load_project f p = Inr p' \<Longrightarrow> project_step p p'"

lemma project_step_keeps: "project_step p p' \<Longrightarrow> assets_ok p \<Longrightarrow> assets_ok p'"
proof (induction rule: project_step.induct)
  case (sheet f now sp n path p p')
  then show ?case unfolding update_asset_sheet_def by (metis entry_field.update_keeps)
next
  case (field f now fld n path p p')
  then show ?case unfolding set_character_field_def by (rule character_field.update_keeps)
next
  case (load f p p')
  then have "dict_get p' t = dict_get p t" if "t \<in> set tables" for t
    using that by (intro migrate_style_frame) (auto simp: load_project_def tables_def asset_specs_def)
  with load show ?case using assets_ok_frame by blast
qed (metis add_asset_keeps add_assets_batch_keeps upsert_assets_keeps add_project_character_keeps clear_field_keeps
      add_product_reference_keeps episode_sync.update_keeps new_episode.update_keeps)+

definition new_project :: "create_args \<Rightarrow> string \<Rightarrow> dict" where
  "new_project a now = optional_put ''style_template_id'' (map_option JStr (ca_style_template_id a))
    (optional_put ''default_duration'' (map_option JInt (ca_default_duration a))
       (mode_project a (core_project a (case ca_source_kind a of None \<Rightarrow> ''novel'' | Some k \<Rightarrow> k) now)))"

lemma create_InrD:
  assumes "create_project_metadata name a now = Inr p"
  shows "save_project now (dict_update (new_project a now) (ca_extras a)) = Inr p" (is ?s)
    and "\<forall>k\<in>fst ` set (ca_extras a). \<not> dict_has (new_project a now) k \<and> k \<notin> set guarded_keys" (is ?g)
proof -
  let ?n = "new_project a now"
  from assms have "(if dict_has (ca_extras a) ''image_backend'' \<or>
       (\<exists>k\<in>set (map fst (ca_extras a)). dict_has ?n k \<or> k \<in> set guarded_keys) then Inl Value_Error
       else save_project now (dict_update ?n (ca_extras a))) = Inr p"
    unfolding create_project_metadata_def new_project_def Let_def bind_err_Inr_iff by (auto split: if_splits)
  then show ?s ?g by (auto split: if_splits)
qed

lemma optional_put_other: "k \<noteq> t \<Longrightarrow> dict_get (optional_put k v p) t = dict_get p t"
  by (cases v) (simp_all add: optional_put_def dict_get_put)

lemma mode_project_other:
  "t \<notin> {''target_duration'', ''brief'', ''episodes''} \<Longrightarrow> dict_get (mode_project a p) t = dict_get p t"
  by (simp add: mode_project_def dict_get_put)

lemma new_project_get:
  "t \<in> {''characters'', ''scenes'', ''props''} \<Longrightarrow> dict_get (new_project a now) t = Some (JObj [])"
  "dict_get (new_project a now) ''products'' = None"
  by (auto simp: new_project_def optional_put_other mode_project_other) (simp_all add: core_project_def dict_get_def)

lemma created_get:
  assumes "create_project_metadata name a now = Inr p" and "t \<notin> fst ` set (ca_extras a)" and "t \<notin> set housekeeping"
  shows "dict_get p t = dict_get (new_project a now) t"
  using save_project_frame [OF create_InrD(1) [OF assms(1)] assms(3)] assms(2) by (simp add: dict_get_update_other)

lemma created_buckets:
  assumes "create_project_metadata name a now = Inr p" and "t \<in> {''characters'', ''scenes'', ''props''}"
  shows "dict_get p t = Some (JObj [])"
proof -
  have "dict_has (new_project a now) t" using new_project_get(1) [OF assms(2)] by (simp add: dict_has_get)
  then have "t \<notin> fst ` set (ca_extras a)" using create_InrD(2) [OF assms(1)] by blast
  moreover have "t \<notin> set housekeeping" using assms(2) by (auto simp: housekeeping_def)
  ultimately show ?thesis using created_get [OF assms(1)] new_project_get(1) [OF assms(2)] by simp
qed

lemma created_products:
  assumes "create_project_metadata name a now = Inr p" and "\<not> dict_has (ca_extras a) ''products''"
  shows "dict_get p ''products'' = None"
  using created_get [OF assms(1), of "''products''"] assms(2) new_project_get(2)
  by (simp add: dict_has_def housekeeping_def)

lemma created_assets_ok:
  assumes "create_project_metadata name a now = Inr p" and "\<not> dict_has (ca_extras a) ''products''"
  shows "assets_ok p"
  using created_buckets [OF assms(1)] created_products [OF assms]
  by (auto simp: assets_ok_def tables_def asset_specs_def bucket_ok_def wf_dict_def)

text \<open>Whatever is done to the assets and episodes of a project after its creation, no asset name occurs
  twice in its table and every name is a safe path component: it is not empty, has no separator, control
  character or pair of dots, no blank at its ends, and is not a single dot.\<close>

theorem asset_names_safe:
  assumes "create_project_metadata name a now = Inr p0" and "\<not> dict_has (ca_extras a) ''products''"
    and "project_step\<^sup>*\<^sup>* p0 p" and "t \<in> set tables" and "dict_get p t = Some b"
  shows "\<exists>d. b = JObj d \<and> distinct (map fst d) \<and>
    (\<forall>k\<in>fst ` set d. k \<noteq> [] \<and> CHR ''/'' \<notin> set k \<and> CHR 0x5C \<notin> set k \<and> CHR 0x00 \<notin> set k \<and>
       \<not> has_dots k \<and> k \<noteq> ''.'' \<and> strip k = k)"
proof -
  from assms(3) have "assets_ok p"
    by (induction rule: rtranclp_induct) (use created_assets_ok [OF assms(1,2)] project_step_keeps in auto)
  with assms(4,5) have "bucket_ok b" by (simp add: assets_ok_def)
  then obtain d where d: "b = JObj d" "wf_dict d" "\<forall>k\<in>fst ` set d. name_ok k"
    by (auto simp: bucket_ok_def split: json.splits)
  have "k \<noteq> [] \<and> CHR ''/'' \<notin> set k \<and> CHR 0x5C \<notin> set k \<and> CHR 0x00 \<notin> set k \<and>
       \<not> has_dots k \<and> k \<noteq> ''.'' \<and> strip k = k" if "name_ok k" for k
  proof -
    from that have pc: "path_component k" and st: "strip k = k" by (simp_all add: name_ok_def)
    then have "c \<notin> set k" if "c \<in> set illegal_asset_name_chars" for c
      using that by (auto simp: path_component_def list_all_iff)
    then have "CHR ''/'' \<notin> set k" "CHR 0x5C \<notin> set k" "CHR 0x00 \<notin> set k"
      by (simp_all add: illegal_asset_name_chars_def)
    moreover have "k \<noteq> []" "\<not> has_dots k" "last k \<noteq> CHR ''.''" using pc by (simp_all add: path_component_def)
    ultimately show ?thesis using st by auto
  qed
  with d show ?thesis by (auto simp: wf_dict_def)
qed

definition sample_args :: create_args where
  "sample_args = \<lparr>ca_title = Some ''Film'', ca_style = None, ca_content_mode = None, ca_aspect_ratio = None,
     ca_default_duration = Some 8, ca_style_template_id = None, ca_extras = [(''video_backend'', JStr ''x/y'')],
     ca_target_duration = JNull, ca_brief = JNull, ca_source_kind = None\<rparr>"

definition sample_project :: dict where
  "sample_project = (case create_project_metadata ''film-1a'' sample_args ''t0'' of Inr p \<Rightarrow> p | Inl _ \<Rightarrow> [])"

definition with_hero :: dict where
  "with_hero = (case add_asset (\<lambda>_. []) ''t1'' (hd asset_specs) '' Hero ''
     [(''description'', JStr ''d''), (''character_sheet'', JStr ''characters/Hero.png'')] sample_project of
       Inr (_, p) \<Rightarrow> p | Inl _ \<Rightarrow> [])"

lemma sample_project_created: "create_project_metadata ''film-1a'' sample_args ''t0'' = Inr sample_project"
  by code_simp

lemma with_hero_added:
  "add_asset (\<lambda>_. []) ''t1'' (hd asset_specs) '' Hero ''
     [(''description'', JStr ''d''), (''character_sheet'', JStr ''characters/Hero.png'')] sample_project = Inr (True, with_hero)"
  by code_simp

theorem asset_names_safe_witness:
  "project_step sample_project with_hero \<and> strip ''Hero'' = ''Hero'' \<and>
   (\<exists>d. dict_get with_hero ''characters'' = Some (JObj d) \<and> ''Hero'' \<in> fst ` set d \<and> distinct (map fst d))"
proof -
  have step: "project_step sample_project with_hero"
    using with_hero_added by (rule project_step.add) (simp add: asset_specs_def)
  have no: "\<not> dict_has (ca_extras sample_args) ''products''" by code_simp
  have t: "''characters'' \<in> set tables" by code_simp
  have get: "dict_get with_hero ''characters'' = Some (JObj [(''Hero'', JObj [(''description'', JStr ''d''),
      (''character_sheet'', JStr ''characters/Hero.png'')])])" by code_simp
  from asset_names_safe [OF sample_project_created no r_into_rtranclp [where r = project_step, OF step] t get]
  show ?thesis using step get by auto
qed

definition bool_errors :: "dict \<Rightarrow> string set" where
  "bool_errors p = (if dict_has p ''broken'' then {''broken''} else {})"

theorem upsert_least_privilege_witness:
  "\<exists>rep p' b'. upsert_assets bool_errors (\<lambda>_. []) ''t2'' ''characters''
       (JObj [(''Hero'', JObj [(''voice_style'', JStr ''low''), (''character_sheet'', JStr ''../x'')])]) with_hero = Inr (rep, p') \<and>
     dict_get p' ''characters'' = Some (JObj b') \<and>
     within_privilege [''description'', ''voice_style''] (JObj [(''description'', JStr ''d''),
       (''character_sheet'', JStr ''characters/Hero.png'')]) (dict_ref b' ''Hero'') \<and>
     dict_get p' ''episodes'' = dict_get with_hero ''episodes''"
proof -
  let ?r = "upsert_assets bool_errors (\<lambda>_. []) ''t2'' ''characters''
       (JObj [(''Hero'', JObj [(''voice_style'', JStr ''low''), (''character_sheet'', JStr ''../x'')])]) with_hero"
  have ok: "\<not> isl ?r" by code_simp
  then obtain rep p' where r: "?r = Inr (rep, p')" by (cases ?r) auto
  have sp: "spec_of_table ''characters'' = Some (hd asset_specs)" by code_simp
  have al: "allowed_fields (hd asset_specs) = [''description'', ''voice_style'']" by code_simp
  have b: "dict_or with_hero ''characters'' (JObj []) = JObj [(''Hero'', JObj [(''description'', JStr ''d''),
      (''character_sheet'', JStr ''characters/Hero.png'')])]" by code_simp
  have h: "''episodes'' \<notin> set housekeeping" by code_simp
  from upsert_least_privilege [OF r sp] al b obtain b' where
    b': "dict_get p' ''characters'' = Some (JObj b')"
      "within_privilege [''description'', ''voice_style''] (dict_ref [(''Hero'', JObj [(''description'', JStr ''d''),
         (''character_sheet'', JStr ''characters/Hero.png'')])] ''Hero'') (dict_ref b' ''Hero'')"
    by auto
  moreover have "dict_get p' ''episodes'' = dict_get with_hero ''episodes''"
    using upsert_least_privilege [OF r sp] h by simp
  ultimately show ?thesis using r by (auto simp: dict_ref_def dict_get_def)
qed

section \<open>Creation\<close>

text \<open>A new project holds what its arguments say: optional fields never replace a field the creation
  has set or guards, an advertisement has exactly its one episode, a positive target and no default
  duration, and any other project has no episode, no target and no brief.\<close>

theorem creation_guarded:
  assumes "create_project_metadata name a now = Inr p"
  shows "(\<forall>k. dict_has (new_project a now) k \<and> k \<notin> set housekeeping \<longrightarrow> dict_get p k = dict_get (new_project a now) k) \<and>
    (if some_text (ca_content_mode a) ''narration'' = ''ad''
     then dict_get p ''episodes'' = Some (JArr [JObj ad_single_episode]) \<and> \<not> dict_has p ''default_duration'' \<and>
          (\<exists>n>0. dict_get p ''target_duration'' = Some (JInt n))
     else dict_get p ''episodes'' = Some (JArr []) \<and> \<not> dict_has p ''target_duration'' \<and> \<not> dict_has p ''brief'')"
proof -
  let ?n = "new_project a now"
  note guard = create_InrD(2) [OF assms]
  have own: "dict_get p k = dict_get ?n k" if "dict_has ?n k" "k \<notin> set housekeeping" for k
    using created_get [OF assms _ that(2)] guard that(1) by blast
  have guarded: "dict_get p k = dict_get ?n k" if k: "k \<in> {''default_duration'', ''target_duration'', ''brief''}" for k
  proof (rule created_get [OF assms])
    show "k \<notin> fst ` set (ca_extras a)" using guard k by (auto simp: guarded_keys_def)
    show "k \<notin> set housekeeping" using k by (auto simp: housekeeping_def)
  qed
  have target: "\<exists>n>0. (if ca_target_duration a = JNull then JInt ad_default_target_duration else ca_target_duration a) = JInt n"
    if "mode_fields_ok a" "some_text (ca_content_mode a) ''narration'' = ''ad''"
    using that by (cases "ca_target_duration a") (auto simp: mode_fields_ok_def ad_default_target_duration_def)
  have fields: "mode_fields_ok a"
    using assms by (auto simp: create_project_metadata_def bind_err_Inr_iff Let_def split: if_splits)
  have eps: "dict_get ?n ''episodes'' = Some (if some_text (ca_content_mode a) ''narration'' = ''ad''
      then JArr [JObj ad_single_episode] else JArr [])"
    by (simp add: new_project_def optional_put_other mode_project_def dict_get_put) (simp add: core_project_def dict_get_def)
  have "dict_get p ''episodes'' = dict_get ?n ''episodes''"
    by (rule own) (simp_all add: dict_has_get eps housekeeping_def)
  moreover have "dict_get ?n ''default_duration'' = None" if "ca_default_duration a = None"
    using that by (simp add: new_project_def optional_put_other)
      (simp add: optional_put_def mode_project_other, simp add: core_project_def dict_get_def)
  moreover have "dict_get ?n ''target_duration'' = (if some_text (ca_content_mode a) ''narration'' = ''ad''
      then Some (if ca_target_duration a = JNull then JInt ad_default_target_duration else ca_target_duration a) else None)"
    "dict_get ?n ''brief'' = (if some_text (ca_content_mode a) ''narration'' = ''ad''
      then Some (if ca_brief a = JNull then JStr [] else ca_brief a) else None)"
    by (simp_all add: new_project_def optional_put_other mode_project_def dict_get_put)
      (simp_all add: core_project_def dict_get_def)
  ultimately have "if some_text (ca_content_mode a) ''narration'' = ''ad''
     then dict_get p ''episodes'' = Some (JArr [JObj ad_single_episode]) \<and> \<not> dict_has p ''default_duration'' \<and>
          (\<exists>n>0. dict_get p ''target_duration'' = Some (JInt n))
     else dict_get p ''episodes'' = Some (JArr []) \<and> \<not> dict_has p ''target_duration'' \<and> \<not> dict_has p ''brief''"
    using fields guarded eps target
    by (cases "some_text (ca_content_mode a) ''narration'' = ''ad''") (simp_all add: dict_has_get mode_fields_ok_def)
  with own show ?thesis by blast
qed

theorem creation_guarded_witness:
  "dict_get sample_project ''default_duration'' = Some (JInt 8) \<and> dict_get sample_project ''episodes'' = Some (JArr []) \<and>
   \<not> dict_has sample_project ''brief''"
proof -
  have "some_text (ca_content_mode sample_args) ''narration'' \<noteq> ''ad''" by code_simp
  moreover have "dict_get (new_project sample_args ''t0'') ''default_duration'' = Some (JInt 8)" by code_simp
  moreover have "''default_duration'' \<notin> set housekeeping" by code_simp
  ultimately show ?thesis using creation_guarded [OF sample_project_created] by (simp add: dict_has_get)
qed

section \<open>Episodes\<close>

lemma sort_episodes_InrD:
  assumes "sort_episodes eps = Inr s"
  shows "mset s = mset eps" and "sorted (map episode_number s)" and "\<forall>ep\<in>set eps. \<exists>v. episode_key ep = Inr v"
    and "1 < length eps \<Longrightarrow> \<forall>ep\<in>set eps. \<exists>v q. episode_key ep = Inr v \<and> py_number v = Some q"
proof -
  from assms obtain keys where k: "map_err episode_key eps = Inr keys" and
    c: "length keys \<le> 1 \<and> s = eps \<or> \<not> length keys \<le> 1 \<and> list_all (\<lambda>v. py_number v \<noteq> None) keys \<and> s = sort_key episode_number eps"
    by (auto simp: sort_episodes_def bind_err_Inr_iff split: if_splits)
  from k have k2: "list_all2 (\<lambda>x y. episode_key x = Inr y) eps keys" by (simp add: map_err_Inr_iff)
  then have len: "length keys = length eps" by (simp add: list_all2_lengthD)
  from c show "mset s = mset eps" by auto
  from c show "sorted (map episode_number s)"
  proof
    assume "length keys \<le> 1 \<and> s = eps"
    with len show ?thesis by (cases eps) auto
  qed (simp del: sort_key_simps)
  from k2 show "\<forall>ep\<in>set eps. \<exists>v. episode_key ep = Inr v"
    by (auto simp: list_all2_conv_all_nth in_set_conv_nth)
  show "\<forall>ep\<in>set eps. \<exists>v q. episode_key ep = Inr v \<and> py_number v = Some q" if "1 < length eps"
    using k2 c that len by (fastforce simp: list_all2_conv_all_nth in_set_conv_nth list_all_length)
qed

lemma find_episode_SomeD:
  "find_episode n eps = Inr (Some i) \<Longrightarrow> i < length eps \<and> (\<exists>v. episode_key (eps ! i) = Inr v \<and> py_eq v (JInt n))"
proof (induction eps arbitrary: i)
  case (Cons ep eps)
  then show ?case by (auto simp: bind_err_Inr_iff split: if_splits)
qed simp

lemma find_episode_NoneD:
  "find_episode n eps = Inr None \<Longrightarrow> ep \<in> set eps \<Longrightarrow> \<exists>v. episode_key ep = Inr v \<and> \<not> py_eq v (JInt n)"
  by (induction eps) (auto simp: bind_err_Inr_iff split: if_splits)

lemma episode_key_SomeD: "episode_key ep = Inr v \<Longrightarrow> \<exists>d. ep = JObj d \<and> dict_get d ''episode'' = Some v"
  by (auto simp: episode_key_def split: json.splits option.splits)

lemma episode_key_binding [simp]: "episode_key (set_binding t f ep) = episode_key ep"
  by (cases ep) (auto simp: set_binding_def episode_key_def dict_get_put)

definition bound_to :: "int \<Rightarrow> json \<Rightarrow> string \<Rightarrow> json \<Rightarrow> bool" where
  "bound_to n title f ep =
     (\<exists>d. ep = JObj d \<and> dict_get d ''title'' = Some title \<and> dict_get d ''script_file'' = Some (JStr f) \<and>
        (\<exists>v. dict_get d ''episode'' = Some v \<and> py_eq v (JInt n)))"

lemma set_binding_bound:
  "episode_key ep = Inr v \<Longrightarrow> py_eq v (JInt n) \<Longrightarrow> bound_to n t f (set_binding t f ep)"
  using episode_key_SomeD [of ep v] by (auto simp: bound_to_def set_binding_def dict_get_put)

lemma bind_episode_InrD:
  assumes "bind_episode n t f eps = Inr eps'"
  shows "\<exists>ep\<in>set eps'. bound_to n t f ep"
    and "\<exists>old. mset eps' - {#set_binding t f old#} = mset eps - {#old#} \<and> (old \<in> set eps \<or> find_episode n eps = Inr None)"
proof -
  from assms obtain i where i: "find_episode n eps = Inr i" and
    e: "eps' = (case i of Some i \<Rightarrow> eps[i := set_binding t f (eps ! i)]
                        | None \<Rightarrow> eps @ [set_binding t f (JObj [(''episode'', JInt n)])])"
    by (auto simp: bind_episode_def bind_err_Inr_iff)
  let ?new = "JObj [(''episode'', JInt n)]"
  show "\<exists>ep\<in>set eps'. bound_to n t f ep"
  proof (cases i)
    case None
    have "episode_key ?new = Inr (JInt n)" by (simp add: episode_key_def dict_get_def)
    then have "bound_to n t f (set_binding t f ?new)" by (rule set_binding_bound) simp
    with e None show ?thesis by auto
  next
    case (Some j)
    with find_episode_SomeD i obtain v where "j < length eps" "episode_key (eps ! j) = Inr v" "py_eq v (JInt n)"
      by blast
    then have "j < length eps" "bound_to n t f (set_binding t f (eps ! j))" by (auto intro: set_binding_bound)
    with e Some show ?thesis by (auto intro!: bexI [of _ "set_binding t f (eps ! j)"] set_update_memI)
  qed
  show "\<exists>old. mset eps' - {#set_binding t f old#} = mset eps - {#old#} \<and> (old \<in> set eps \<or> find_episode n eps = Inr None)"
  proof (cases i)
    case None
    show ?thesis
    proof (cases "?new \<in> set eps")
      case True
      then obtain v where "episode_key ?new = Inr v" "\<not> py_eq v (JInt n)" using find_episode_NoneD i None by blast
      then show ?thesis by (auto simp: episode_key_def dict_get_def)
    next
      case False
      with None e i show ?thesis by (intro exI [of _ ?new]) (simp add: diff_single_trivial)
    qed
  next
    case (Some j)
    with find_episode_SomeD i have j: "j < length eps" by blast
    with Some e show ?thesis by (intro exI [of _ "eps ! j"]) (simp add: mset_update)
  qed
qed

text \<open>Synchronising a script into the project binds its episode: an entry of its number has the title and
  the script, the entries are in order, and at most one old entry was rewritten, its number kept;
  the other entries and the other fields of the project are as they were.\<close>

theorem episode_sync_binds:
  assumes "apply_episode_sync script f p = Inr p'" and "int_value (dict_ref script ''episode'') = Some n"
    and "episode_list (dict_or p ''episodes'' (JArr [])) = Inr eps"
  shows "\<exists>eps' old. dict_get p' ''episodes'' = Some (JArr eps') \<and> sorted (map episode_number eps') \<and>
    (\<exists>ep\<in>set eps'. bound_to n (dict_or script ''title'' (JStr [])) (''scripts/'' @ script_base f) ep) \<and>
    mset eps' - {#set_binding (dict_or script ''title'' (JStr [])) (''scripts/'' @ script_base f) old#} =
      mset eps - {#old#} \<and>
    (\<forall>k. k \<noteq> ''episodes'' \<longrightarrow> dict_get p' k = dict_get p k)"
proof -
  let ?t = "dict_or script ''title'' (JStr [])" and ?f = "''scripts/'' @ script_base f"
  from assms obtain bound sorted where b: "bind_episode n ?t ?f eps = Inr bound" and s: "sort_episodes bound = Inr sorted"
      and p': "p' = dict_put p ''episodes'' (JArr sorted)"
    by (auto simp: apply_episode_sync_def Let_def bind_err_Inr_iff)
  note b' = bind_episode_InrD [OF b] and s' = sort_episodes_InrD [OF s]
  from s'(1) have "set sorted = set bound" by (rule mset_eq_setD)
  with b'(1) have "\<exists>ep\<in>set sorted. bound_to n ?t ?f ep" by simp
  with b'(2) s'(1,2) p' show ?thesis by (auto simp: dict_get_put)
qed

definition sample_script :: dict where
  "sample_script = [(''episode'', JInt 2), (''title'', JStr ''Two''), (''segments'', JArr [])]"

theorem episode_sync_binds_witness:
  "\<exists>p' eps'. apply_episode_sync sample_script ''scripts/episode_2.json''
      (dict_put sample_project ''episodes'' (JArr [JObj [(''episode'', JInt 3)]])) = Inr p' \<and>
     dict_get p' ''episodes'' = Some (JArr eps') \<and> sorted (map episode_number eps') \<and>
     (\<exists>ep\<in>set eps'. bound_to 2 (JStr ''Two'') ''scripts/episode_2.json'' ep)"
proof -
  let ?p = "dict_put sample_project ''episodes'' (JArr [JObj [(''episode'', JInt 3)]])"
  let ?r = "apply_episode_sync sample_script ''scripts/episode_2.json'' ?p"
  have "\<not> isl ?r" by code_simp
  then obtain p' where r: "?r = Inr p'" by (cases ?r) auto
  have n: "int_value (dict_ref sample_script ''episode'') = Some 2" by code_simp
  have eps: "episode_list (dict_or ?p ''episodes'' (JArr [])) = Inr [JObj [(''episode'', JInt 3)]]" by code_simp
  have t: "dict_or sample_script ''title'' (JStr []) = JStr ''Two''"
    and f: "''scripts/'' @ script_base ''scripts/episode_2.json'' = ''scripts/episode_2.json''" by code_simp+
  from episode_sync_binds [OF r n eps, unfolded t f] r show ?thesis by blast
qed

end
