(* ===== verification/ScriptProps.thy ===== *)
theory ScriptProps
  imports ScriptFile ProjectProps
begin

text \<open>
  Properties of the scripts of a project: what the write-back of generated assets changes, that a batch
  is the sequence of its single updates and all or nothing, that the edit of an episode goes to the
  script the project binds, and how a failed synchronisation leaves the store.
\<close>

section \<open>Items\<close>

lemma update_unique:
  assumes "length (filter p xs) \<le> 1"
  shows "update_first p f xs = (if list_ex p xs then Some (map (\<lambda>x. if p x then f x else x) xs) else None)"
    and "update_last p f xs = (if list_ex p xs then Some (map (\<lambda>x. if p x then f x else x) xs) else None)"
proof -
  have eq: "ys = map (\<lambda>x. if p x then f x else x) xs"
    if "xs = a @ x # b" "p x" "ys = a @ f x # b" for ys a x b
  proof -
    from assms that have "filter p a = []" "filter p b = []" by auto
    then have "map (\<lambda>x. if p x then f x else x) a = a" "map (\<lambda>x. if p x then f x else x) b = b"
      by (auto simp: filter_empty_conv intro: map_idI)
    with that show ?thesis by simp
  qed
  show "update_first p f xs = (if list_ex p xs then Some (map (\<lambda>x. if p x then f x else x) xs) else None)"
  proof (cases "update_first p f xs")
    case None
    then show ?thesis by (auto simp: update_first_None_iff list_ex_iff)
  next
    case (Some ys)
    then obtain a x b where "xs = a @ x # b" "p x" "ys = a @ f x # b" by (rule update_first_SomeE)
    with Some eq show ?thesis by (auto simp: list_ex_iff)
  qed
  show "update_last p f xs = (if list_ex p xs then Some (map (\<lambda>x. if p x then f x else x) xs) else None)"
  proof (cases "update_last p f xs")
    case None
    then show ?thesis by (auto simp: update_last_None_iff list_ex_iff)
  next
    case (Some ys)
    then obtain a x b where "xs = a @ x # b" "p x" "ys = a @ f x # b" by (rule update_last_SomeE)
    with Some eq show ?thesis by (auto simp: list_ex_iff)
  qed
qed

lemma ids_unique: "distinct (existing_ids items f) \<Longrightarrow> length (filter (has_id f sid) items) \<le> 1"
proof (induction items)
  case (Cons x items)
  have "filter (has_id f sid) items = []" if "sid \<notin> set (existing_ids items f)"
    using that by (induction items) (auto simp: has_id_def [abs_def] split: option.splits)
  with Cons show ?case by (cases "json_id f x") (auto simp: has_id_def [abs_def])
qed simp

lemma json_id_set_asset [simp]: "f \<noteq> ''generated_assets'' \<Longrightarrow> json_id f (set_asset_in ty v x) = json_id f x"
  by (cases x) (auto simp: set_asset_in_def set_asset_def json_id_def Let_def dict_ref_put)

lemma existing_ids_map:
  "(\<And>x. json_id f (g x) = json_id f x) \<Longrightarrow> existing_ids (map g items) f = existing_ids items f"
  by (induction items) (auto split: option.splits)

definition single_items :: "string \<Rightarrow> json list \<Rightarrow> string \<times> string \<times> json \<Rightarrow> unit + json list" where
  "single_items idf items u =
     (case u of (sid, ty, v) \<Rightarrow>
        (case update_first (has_id idf sid) (set_asset_in ty v) items of None \<Rightarrow> Inl () | Some items' \<Rightarrow> Inr items'))"

lemma single_items_ids:
  assumes "single_items idf items u = Inr items'" and "idf \<noteq> ''generated_assets''"
  shows "existing_ids items' idf = existing_ids items idf"
proof -
  obtain sid ty v where u: "u = (sid, ty, v)" by (cases u)
  with assms(1) have "update_first (has_id idf sid) (set_asset_in ty v) items = Some items'"
    by (auto simp: single_items_def split: option.splits)
  then obtain a x b where "items = a @ x # b" "items' = a @ set_asset_in ty v x # b" by (rule update_first_SomeE)
  with assms(2) show ?thesis by (auto split: option.splits)
qed

lemma batch_missing: "batch_items idf us (items, m) = (items', []) \<Longrightarrow> m = []"
  by (induction idf us "(items, m)" arbitrary: items m rule: batch_items.induct) (auto split: option.splits)

lemma batch_is_fold:
  assumes "distinct (existing_ids items idf)" and "idf \<noteq> ''generated_assets''"
  shows "batch_items idf us (items, []) = (items', []) \<longleftrightarrow> fold_err (single_items idf) items us = Inr items'"
  using assms(1)
proof (induction us arbitrary: items)
  case (Cons u us)
  obtain sid ty v where u: "u = (sid, ty, v)" by (cases u)
  note un = update_unique [OF ids_unique [OF Cons.prems], of sid "set_asset_in ty v"]
  show ?case
  proof (cases "update_first (has_id idf sid) (set_asset_in ty v) items")
    case None
    with un have "update_last (has_id idf sid) (set_asset_in ty v) items = None" by simp
    with None show ?thesis using batch_missing [of idf us items "[sid]"] by (auto simp: u single_items_def)
  next
    case (Some items1)
    with un have "update_last (has_id idf sid) (set_asset_in ty v) items = Some items1" by simp
    moreover from Some have s1: "single_items idf items u = Inr items1" by (simp add: u single_items_def)
    then have "distinct (existing_ids items1 idf)" using Cons.prems single_items_ids assms(2) by simp
    from Cons.IH [OF this] have "batch_items idf us (items1, []) = (items', []) \<longleftrightarrow>
      fold_err (single_items idf) items1 us = Inr items'" .
    ultimately show ?thesis using s1 by (simp add: u)
  qed
qed simp

section \<open>Scripts\<close>

lemma dict_put_put [simp]: "dict_put (dict_put d k a) k b = dict_put d k b"
  by (induction d k a rule: dict_put.induct) auto

lemma edit_items_eq:
  assumes "resolve_items s = Inr (items, idf, kind)" and "dict_has s kind"
  shows "edit_items s g = bind_err (g items idf) (\<lambda>items'. Inr (dict_put s kind (JArr items')))"
  using assms by (simp add: edit_items_def)

lemma resolve_items_put:
  assumes "resolve_items s = Inr (items, idf, kind)" and "dict_has s kind"
  shows "resolve_items (dict_put s kind (JArr items')) = Inr (items', idf, kind)" and "dict_has (dict_put s kind v) kind"
proof -
  note r = resolve_items_SomeD [OF assms(1)]
  have "kind \<noteq> ''content_mode''" using resolve_kind_cases [of s] r(2) by auto
  with assms(2) r show "resolve_items (dict_put s kind (JArr items')) = Inr (items', idf, kind)"
    by (simp add: resolve_items_def Let_def resolve_kind_put dict_get_put)
qed (simp add: dict_simps)

lemma update_item_single:
  assumes "resolve_items s = Inr (items, idf, kind)" and "dict_has s kind"
  shows "update_item sid ty v s = (case single_items idf items (sid, ty, v) of
           Inl _ \<Rightarrow> Inl Key_Error | Inr items' \<Rightarrow> Inr (dict_put s kind (JArr items')))"
  by (simp add: update_item_def edit_items_eq [OF assms] single_items_def split: option.splits)

abbreviation update_items :: "(string \<times> string \<times> json) list \<Rightarrow> dict \<Rightarrow> pm_error + dict" where
  "update_items us s \<equiv> fold_err (\<lambda>s (sid, ty, v). update_item sid ty v s) s us"

lemma update_items_fold:
  assumes "resolve_items s = Inr (items, idf, kind)" and "dict_has s kind"
  shows "update_items us s = Inr s' \<longleftrightarrow>
    (\<exists>items'. fold_err (single_items idf) items us = Inr items' \<and> s' = dict_put s kind (JArr items'))"
  using assms
proof (induction us arbitrary: s items)
  case Nil
  then have "dict_get s kind = Some (JArr items)" using resolve_items_SomeD(4) by (auto simp: dict_has_get)
  then show ?case by (auto simp: dict_put_same)
next
  case (Cons u us)
  obtain sid ty v where u: "u = (sid, ty, v)" by (cases u)
  show ?case
  proof (cases "single_items idf items u")
    case (Inl e)
    then show ?thesis using update_item_single [OF Cons.prems, of sid ty v] by (simp add: u)
  next
    case (Inr items1)
    let ?s1 = "dict_put s kind (JArr items1)"
    have "update_item sid ty v s = Inr ?s1" using update_item_single [OF Cons.prems, of sid ty v] Inr by (simp add: u)
    moreover have "update_items us ?s1 = Inr s' \<longleftrightarrow>
      (\<exists>items'. fold_err (single_items idf) items1 us = Inr items' \<and> s' = dict_put ?s1 kind (JArr items'))"
      by (rule Cons.IH) (use resolve_items_put [OF Cons.prems] in auto)
    ultimately show ?thesis using Inr by (simp add: u)
  qed
qed

text \<open>A batch of asset updates is the sequence of its single updates when the identifiers of the script
  are distinct: it succeeds exactly when each of them does, with the same script as the result. A batch
  that fails changes nothing, and one that succeeds changes no other script.\<close>

theorem batch_equals_singles:
  assumes "resolve_items script = Inr (items, idf, kind)" and "dict_has script kind"
    and "distinct (existing_ids items idf)"
  shows "(batch_update us script = Inr script' \<longleftrightarrow> update_items us script = Inr script') \<and>
    (load_script s (script_base f) = Inr script \<and> us \<noteq> [] \<and> update_items us script = Inl e \<longrightarrow>
       (\<exists>e'. batch_update_scene_assets valid prompt_of now f us s = (s, Inl e')))"
proof -
  have idf: "idf \<noteq> ''generated_assets''"
    using resolve_items_SomeD(1) [OF assms(1)] id_field_not_assets by simp
  have "batch_update us script = Inr script' \<longleftrightarrow>
      (\<exists>items'. batch_items idf us (items, []) = (items', []) \<and> script' = dict_put script kind (JArr items'))" for script'
    by (auto simp: batch_update_def edit_items_eq [OF assms(1,2)] bind_err_Inr_iff split: prod.splits list.splits)
  then have eq: "batch_update us script = Inr script' \<longleftrightarrow> update_items us script = Inr script'" for script'
    using batch_is_fold [OF assms(3) idf] update_items_fold [OF assms(1,2)] by simp
  moreover have "\<exists>e'. batch_update_scene_assets valid prompt_of now f us s = (s, Inl e')"
    if h: "load_script s (script_base f) = Inr script \<and> us \<noteq> [] \<and> update_items us script = Inl e"
  proof -
    from h eq obtain e' where "batch_update us script = Inl e'"
      by (cases "batch_update us script") (auto dest: sym)
    with h show ?thesis by (simp add: batch_update_scene_assets_def locked_script_def Let_def)
  qed
  ultimately show ?thesis by blast
qed

definition film_script :: dict where
  "film_script = [(''episode'', JInt 2), (''title'', JStr ''Two''),
     (''segments'', JArr [JObj [(''segment_id'', JStr ''E2S1'')],
        JObj [(''segment_id'', JStr ''E2S2''), (''generated_assets'', JObj [(''storyboard_image'', JStr ''a.png'')])]])]"

definition film_store :: project_store where
  "film_store = \<lparr>ps_project = sample_project, ps_scripts = [''episode_2.json'' \<mapsto> film_script]\<rparr>"

definition two_updates :: "(string \<times> string \<times> json) list" where
  "two_updates = [(''E2S1'', ''storyboard_image'', JStr ''x.png''), (''E2S2'', ''video_clip'', JStr ''y.mp4'')]"

theorem batch_equals_singles_witness:
  "\<exists>script' e'. batch_update two_updates film_script = Inr script' \<and> update_items two_updates film_script = Inr script' \<and>
     batch_update_scene_assets (\<lambda>_. True) (\<lambda>_. []) ''t'' ''episode_2.json''
       (two_updates @ [(''E2S9'', ''video_clip'', JStr ''z.mp4'')]) film_store = (film_store, Inl e')"
proof -
  obtain items where items: "resolve_items film_script = Inr (items, ''segment_id'', ''segments'')"
    and d: "distinct (existing_ids items ''segment_id'')"
    by (simp add: resolve_items_def resolve_kind_def film_script_def dict_has_def dict_ref_def dict_get_def Let_def
        kind_id_field_def json_id_def)
  have h: "dict_has film_script ''segments''" by code_simp
  note both = batch_equals_singles [OF items h d]
  have "\<not> isl (update_items two_updates film_script)" by code_simp
  then obtain script' where s': "update_items two_updates film_script = Inr script'"
    by (cases "update_items two_updates film_script") auto
  have "isl (update_items (two_updates @ [(''E2S9'', ''video_clip'', JStr ''z.mp4'')]) film_script)" by code_simp
  then obtain e where e: "update_items (two_updates @ [(''E2S9'', ''video_clip'', JStr ''z.mp4'')]) film_script = Inl e"
    by (auto simp: isl_def)
  have l: "load_script film_store (script_base ''episode_2.json'') = Inr film_script"
    by (simp add: load_script_def film_store_def script_base_def)
  show ?thesis using both s' e l by blast
qed

section \<open>What one update changes\<close>

lemma add_defaults_get:
  "dict_get (add_defaults d kvs) k = (case dict_get d k of Some v \<Rightarrow> Some v | None \<Rightarrow> map_of kvs k)"
  by (induction d kvs rule: add_defaults.induct) (auto simp: dict_default_def dict_has_get dict_get_put split: option.splits)

lemma set_asset_get:
  assumes "set_asset ty v item = item'"
  shows "\<exists>old new. (dict_ref item ''generated_assets'' = JObj old \<or> old = [] \<and> as_dict (dict_ref item ''generated_assets'') = None) \<and>
     dict_get item' ''generated_assets'' = Some (JObj new) \<and>
     (\<forall>k. k \<noteq> ''generated_assets'' \<longrightarrow> dict_get item' k = dict_get item k) \<and>
     (ty \<noteq> ''status'' \<longrightarrow> dict_get new ty = Some v) \<and>
     dict_get new ''status'' = Some (JStr (scene_status new)) \<and>
     (\<forall>k. k \<notin> {ty, ''status''} \<longrightarrow>
        dict_get new k = (case dict_get old k of Some w \<Rightarrow> Some w | None \<Rightarrow> map_of create_generated_assets k))"
proof -
  define old where "old = (case dict_ref item ''generated_assets'' of JObj a \<Rightarrow> a | _ \<Rightarrow> [])"
  define a1 where "a1 = dict_put (add_defaults old create_generated_assets) ty v"
  define new where "new = dict_put a1 ''status'' (JStr (scene_status a1))"
  have item': "item' = dict_put item ''generated_assets'' (JObj new)"
    using assms by (simp add: set_asset_def Let_def old_def a1_def new_def)
  have "scene_status new = scene_status a1" by (simp add: scene_status_def new_def dict_ref_put)
  then have "dict_get new ''status'' = Some (JStr (scene_status new))" by (simp add: new_def dict_get_put)
  moreover have "ty \<noteq> ''status'' \<longrightarrow> dict_get new ty = Some v" by (simp add: new_def a1_def dict_get_put)
  moreover have "\<forall>k. k \<notin> {ty, ''status''} \<longrightarrow>
      dict_get new k = (case dict_get old k of Some w \<Rightarrow> Some w | None \<Rightarrow> map_of create_generated_assets k)"
    by (simp add: new_def a1_def dict_get_put add_defaults_get)
  moreover have "dict_ref item ''generated_assets'' = JObj old \<or> old = [] \<and> as_dict (dict_ref item ''generated_assets'') = None"
    by (simp add: old_def split: json.splits)
  ultimately show ?thesis using item' by (intro exI [of _ old] exI [of _ new]) (simp add: dict_get_put)
qed

text \<open>Recording a generated asset changes one item of the script, the first with the identifier, and in it
  only its assets: the one recorded, the status, which then says what the assets say, and keys that
  were missing. Everything else of the script is as it was.\<close>

theorem asset_update_exact:
  assumes "update_item sid ty v script = Inr script'" and "ty \<noteq> ''status''"
  shows "\<exists>kind idf a item b item' new.
    dict_get script kind = Some (JArr (a @ JObj item # b)) \<and> dict_get script' kind = Some (JArr (a @ JObj item' # b)) \<and>
    (\<forall>k. k \<noteq> kind \<longrightarrow> dict_get script' k = dict_get script k) \<and>
    json_id idf (JObj item) = Some sid \<and> (\<forall>x\<in>set a. json_id idf x \<noteq> Some sid) \<and>
    (\<forall>k. k \<noteq> ''generated_assets'' \<longrightarrow> dict_get item' k = dict_get item k) \<and>
    dict_get item' ''generated_assets'' = Some (JObj new) \<and> dict_get new ty = Some v \<and>
    dict_get new ''status'' = Some (JStr (scene_status new)) \<and>
    (\<forall>k w. k \<notin> {ty, ''status''} \<and> (\<exists>old. dict_ref item ''generated_assets'' = JObj old \<and> dict_get old k = Some w) \<longrightarrow>
       dict_get new k = Some w)"
proof -
  from assms(1) obtain items idf kind items' where r: "resolve_items script = Inr (items, idf, kind)" and
    u: "update_first (has_id idf sid) (set_asset_in ty v) items = Some items'" and
    s': "script' = (if dict_has script kind then dict_put script kind (JArr items') else script)"
    by (auto simp: update_item_def edit_items_def bind_err_Inr_iff split: sum.splits option.splits)
  from u obtain a x b where x: "items = a @ x # b" "has_id idf sid x" "\<forall>z\<in>set a. \<not> has_id idf sid z"
    "items' = a @ set_asset_in ty v x # b" by (rule update_first_SomeE)
  from x(2) obtain item where item: "x = JObj item" by (auto simp: has_id_def json_id_def split: json.splits)
  from resolve_items_SomeD(3,4) [OF r] x(1) have g: "dict_get script kind = Some (JArr items)" by auto
  then have "dict_has script kind" by (simp add: dict_has_get)
  with s' have s'': "script' = dict_put script kind (JArr items')" by simp
  from set_asset_get [of ty v item, OF refl] obtain old new where
    n: "dict_ref item ''generated_assets'' = JObj old \<or> old = [] \<and> as_dict (dict_ref item ''generated_assets'') = None"
      "dict_get (set_asset ty v item) ''generated_assets'' = Some (JObj new)"
      "\<forall>k. k \<noteq> ''generated_assets'' \<longrightarrow> dict_get (set_asset ty v item) k = dict_get item k"
      "dict_get new ty = Some v" "dict_get new ''status'' = Some (JStr (scene_status new))"
      "\<forall>k. k \<notin> {ty, ''status''} \<longrightarrow>
        dict_get new k = (case dict_get old k of Some w \<Rightarrow> Some w | None \<Rightarrow> map_of create_generated_assets k)"
    using assms(2) by blast
  have keep: "\<forall>k w. k \<notin> {ty, ''status''} \<and> (\<exists>old. dict_ref item ''generated_assets'' = JObj old \<and> dict_get old k = Some w) \<longrightarrow>
       dict_get new k = Some w"
    using n(1,6) by auto
  have i: "json_id idf (JObj item) = Some sid" "\<forall>z\<in>set a. json_id idf z \<noteq> Some sid"
    using x(2,3) item by (simp_all add: has_id_def)
  show ?thesis
    using g s'' x(1,4) item i n(2,3,4,5) keep
    by (intro exI [of _ kind] exI [of _ idf] exI [of _ a] exI [of _ item] exI [of _ b]
        exI [of _ "set_asset ty v item"] exI [of _ new]) (simp add: dict_get_put set_asset_in_def)
qed

theorem asset_update_exact_witness:
  "\<exists>script' new. update_item ''E2S2'' ''video_clip'' (JStr ''y.mp4'') film_script = Inr script' \<and>
     dict_get new ''status'' = Some (JStr ''completed'') \<and> dict_get new ''storyboard_image'' = Some (JStr ''a.png'') \<and>
     dict_get script' ''title'' = Some (JStr ''Two'')"
proof -
  let ?r = "update_item ''E2S2'' ''video_clip'' (JStr ''y.mp4'') film_script"
  have "\<not> isl ?r" by code_simp
  then obtain script' where s': "?r = Inr script'" by (cases ?r) auto
  have ty: "''video_clip'' \<noteq> ''status''" by simp
  from asset_update_exact [OF s' ty] obtain kind idf a item b item' new where
    u: "dict_get film_script kind = Some (JArr (a @ JObj item # b))"
      "\<forall>k. k \<noteq> kind \<longrightarrow> dict_get script' k = dict_get film_script k"
      "json_id idf (JObj item) = Some ''E2S2''"
      "dict_get new ''video_clip'' = Some (JStr ''y.mp4'')" "dict_get new ''status'' = Some (JStr (scene_status new))"
      "\<forall>k w. k \<notin> {''video_clip'', ''status''} \<and>
         (\<exists>old. dict_ref item ''generated_assets'' = JObj old \<and> dict_get old k = Some w) \<longrightarrow> dict_get new k = Some w"
    by (elim exE conjE)
  from u(1) have kind: "kind = ''segments''"
    by (auto simp: film_script_def dict_get_def split: if_splits)
  let ?items = "[JObj [(''segment_id'', JStr ''E2S1'')],
      JObj [(''segment_id'', JStr ''E2S2''), (''generated_assets'', JObj [(''storyboard_image'', JStr ''a.png'')])]]"
  from u(1) kind have "?items = a @ JObj item # b" by (simp add: film_script_def dict_get_def)
  then have "JObj item \<in> set ?items" by (metis in_set_conv_decomp)
  moreover have "json_id idf (JObj [(''segment_id'', JStr ''E2S1'')]) \<noteq> Some ''E2S2''"
    by (simp add: json_id_def dict_ref_def dict_get_def coalesce_def)
  ultimately have "item = [(''segment_id'', JStr ''E2S2''), (''generated_assets'', JObj [(''storyboard_image'', JStr ''a.png'')])]"
    using u(3) by auto
  then have "dict_get new ''storyboard_image'' = Some (JStr ''a.png'')"
    using u(6) by (simp add: dict_ref_def dict_get_def)
  moreover have "dict_get new ''status'' = Some (JStr ''completed'')"
    using u(4,5) by (simp add: scene_status_def dict_ref_def)
  moreover have "dict_get script' ''title'' = Some (JStr ''Two'')"
    using u(2) kind by (simp add: film_script_def dict_get_def)
  ultimately show ?thesis using s' by blast
qed

section \<open>Editing the script of an episode\<close>

lemma write_script_InrD:
  assumes "write_script_unlocked valid pf now sync before new f s = (s', Inr d)"
  shows "d = with_metadata now new" and "ps_scripts s' = (ps_scripts s)(f \<mapsto> d)"
    and "before = Some (Some old) \<Longrightarrow> valid old \<Longrightarrow> valid new"
    and "\<not> sync \<Longrightarrow> ps_project s' = ps_project s"
  using assms
  by (auto simp: write_script_unlocked_def Let_def guard_no_worse_def bind_err_Inr_iff
      split: sum.splits option.splits if_splits)

lemma write_script_InlD: "write_script_unlocked valid pf now False before new f s = (s', Inl e) \<Longrightarrow> s' = s"
  by (auto simp: write_script_unlocked_def Let_def split: sum.splits if_splits)

text \<open>The script d is on disk under the name f: the edited script that the project of s binds, and no other file differs.\<close>

definition edit_written ::
  "(dict \<Rightarrow> bool) \<Rightarrow> string \<Rightarrow> bool \<Rightarrow> (dict \<Rightarrow> pm_error + string) \<Rightarrow> (dict \<Rightarrow> pm_error + dict) \<Rightarrow>
     project_store \<Rightarrow> project_store \<Rightarrow> string \<Rightarrow> dict \<Rightarrow> bool" where
  "edit_written valid now validate resolve body s s' f d =
     (\<exists>c old new. resolve (ps_project s) = Inr c \<and> f = script_base c \<and> load_script s f = Inr old \<and> body old = Inr new \<and>
        d = with_metadata now new \<and> ps_scripts s' = (ps_scripts s)(f \<mapsto> d) \<and> (validate \<and> valid old \<longrightarrow> valid new))"

text \<open>C25. An edit of an episode's script is applied to the script the project binds at the moment of the write: it
  loads, edits and replaces that one, no other script changes, a script that was well-formed is not made
  ill-formed, and the project is then synchronised with it. When the edit fails, nothing at all is changed, with
  one exception: when the synchronisation of the project is what raises, the edited script stays written beside the
  project as it was. And when the binding moved since the name was read, the edit fails and nothing is changed.\<close>

theorem episode_edit_safe:
  assumes "episode_edit valid prompt_of now validate resolve body seen s = (s', r)"
  shows "(case r of
      Inr d \<Rightarrow> (\<exists>f. edit_written valid now validate resolve body s s' f d \<and>
                  sync_episode prompt_of now d f (ps_project s) = Inr (ps_project s'))
    | Inl e \<Rightarrow> s' = s \<or>
        (\<exists>f d. edit_written valid now validate resolve body s s' f d \<and> ps_project s' = ps_project s \<and>
           sync_episode prompt_of now d f (ps_project s) = Inl e)) \<and>
    (\<forall>c0 c. bind_err (load_project prompt_of (ps_project seen)) resolve = Inr c0 \<and> resolve (ps_project s) = Inr c \<and>
       script_base c \<noteq> script_base c0 \<longrightarrow> s' = s \<and> r = Inl Rebound)" (is "?outcome \<and> _")
proof (intro conjI allI impI)
  show ?outcome
  proof (cases "s' = s \<and> isl r")
    case False
    with assms obtain c0 where l: "locked_episode_script valid prompt_of now validate resolve body c0 s = (s', r)"
      by (auto simp: episode_edit_def split: sum.splits)
    let ?f = "script_base c0"
    from l False obtain c old new where c: "resolve (ps_project s) = Inr c" "script_base c = ?f"
        "load_script s ?f = Inr old" "body old = Inr new"
      by (auto simp: locked_episode_script_def Let_def bind_err_Inr_iff split: sum.splits if_splits)
    obtain s1 r1 where w: "write_script_unlocked valid prompt_of now False (if validate then Some (Some old) else None) new ?f s = (s1, r1)"
      by fastforce
    have step: "(case r1 of Inl e \<Rightarrow> (s1, Inl e)
        | Inr d \<Rightarrow> (case sync_episode prompt_of now d ?f (ps_project s1) of
            Inl e \<Rightarrow> (s1, Inl e) | Inr p \<Rightarrow> (s1\<lparr>ps_project := p\<rparr>, Inr d))) = (s', r)"
      using l c w by (simp add: locked_episode_script_def Let_def split: sum.splits)
    from False step write_script_InlD [of valid prompt_of now _ new ?f s s1] w obtain d where d: "r1 = Inr d"
      by (cases r1) auto
    note w' = write_script_InrD [OF w [unfolded d]]
    have "edit_written valid now validate resolve body s s1 ?f d"
      unfolding edit_written_def using c w'(1,2) w'(3) [of old] by (intro exI [of _ c] exI [of _ old] exI [of _ new]) auto
    then have ew: "edit_written valid now validate resolve body s s1 ?f d"
        "edit_written valid now validate resolve body s (s1\<lparr>ps_project := p\<rparr>) ?f d" for p
      by (simp_all add: edit_written_def)
    have p: "ps_project s1 = ps_project s" using w'(4) by simp
    show ?thesis
    proof (cases "sync_episode prompt_of now d ?f (ps_project s)")
      case (Inl e)
      with step d p have "s' = s1" "r = Inl e" by simp_all
      with ew(1) p Inl show ?thesis by auto
    next
      case (Inr q)
      with step d p have "s' = s1\<lparr>ps_project := q\<rparr>" "r = Inr d" by auto
      with ew(2) Inr show ?thesis by auto
    qed
  qed (auto split: sum.split)
next
  fix c0 c
  assume h: "bind_err (load_project prompt_of (ps_project seen)) resolve = Inr c0 \<and> resolve (ps_project s) = Inr c \<and>
     script_base c \<noteq> script_base c0"
  then have "episode_edit valid prompt_of now validate resolve body seen s = (s, Inl Rebound)"
    by (auto simp: episode_edit_def locked_episode_script_def Let_def)
  with assms show "s' = s" and "r = Inl Rebound" by auto
qed

text \<open>The script of episode 2 by its entry in the project.\<close>

definition script_of_two :: "dict \<Rightarrow> pm_error + string" where
  "script_of_two p =
     (case dict_ref p ''episodes'' of
        JArr [JObj e] \<Rightarrow> (case dict_ref e ''script_file'' of JStr f \<Rightarrow> Inr f | _ \<Rightarrow> Inl Key_Error)
      | _ \<Rightarrow> Inl Key_Error)"

definition two_bound_to :: "string \<Rightarrow> project_store \<Rightarrow> project_store" where
  "two_bound_to f s =
     s\<lparr>ps_project := dict_put (ps_project s) ''episodes'' (JArr [JObj [(''episode'', JInt 2), (''script_file'', JStr f)]])\<rparr>"

theorem episode_edit_safe_witness:
  "\<exists>s' d. episode_edit (\<lambda>_. True) (\<lambda>_. []) ''t'' True script_of_two (update_item ''E2S1'' ''video_clip'' (JStr ''y.mp4''))
       (two_bound_to ''scripts/episode_2.json'' film_store) (two_bound_to ''scripts/episode_2.json'' film_store) = (s', Inr d) \<and>
     ps_scripts s' = (ps_scripts film_store)(''episode_2.json'' \<mapsto> d) \<and>
   episode_edit (\<lambda>_. True) (\<lambda>_. []) ''t'' True script_of_two Inr
       (two_bound_to ''scripts/episode_2.json'' film_store) (two_bound_to ''scripts/other.json'' film_store) =
     (two_bound_to ''scripts/other.json'' film_store, Inl Rebound)"
proof -
  let ?a = "two_bound_to ''scripts/episode_2.json'' film_store" and ?b = "two_bound_to ''scripts/other.json'' film_store"
  let ?upd = "update_item ''E2S1'' ''video_clip'' (JStr ''y.mp4'')"
  let ?r = "episode_edit (\<lambda>_. True) (\<lambda>_. []) ''t'' True script_of_two ?upd ?a ?a"
  have "\<not> isl (snd ?r)" by code_simp
  then obtain s' d where r: "?r = (s', Inr d)" by (cases ?r; cases "snd ?r") auto
  have a: "script_of_two (ps_project ?a) = Inr ''scripts/episode_2.json''" by code_simp
  have b: "script_base ''scripts/episode_2.json'' = ''episode_2.json''" by code_simp
  have fst': "ps_scripts s' = (ps_scripts film_store)(''episode_2.json'' \<mapsto> d)"
    using episode_edit_safe [OF r] a b by (auto simp: two_bound_to_def edit_written_def)
  obtain s2 r2 where r2: "episode_edit (\<lambda>_. True) (\<lambda>_. []) ''t'' True script_of_two Inr ?a ?b = (s2, r2)" by force
  have "bind_err (load_project (\<lambda>_. []) (ps_project ?a)) script_of_two = Inr ''scripts/episode_2.json''" by code_simp
  moreover have "script_of_two (ps_project ?b) = Inr ''scripts/other.json''" by code_simp
  moreover have "script_base ''scripts/other.json'' \<noteq> ''episode_2.json''" by code_simp
  ultimately have "s2 = ?b \<and> r2 = Inl Rebound" using episode_edit_safe [OF r2] b by auto
  with r r2 fst' show ?thesis by blast
qed

text \<open>Writing a script and synchronising the project are not one transaction: when an entry of the project
  has no number, recording an asset raises, while the script on disk already holds the asset.\<close>

theorem sync_failure_after_write:
  "\<exists>s' d. update_scene_asset (\<lambda>_. True) (\<lambda>_. []) ''t'' ''episode_2.json'' ''E2S1'' ''video_clip'' (JStr ''y.mp4'')
       (film_store\<lparr>ps_project := dict_put sample_project ''episodes'' (JArr [JObj [(''title'', JStr ''?'')]])\<rparr>) = (s', Inl Key_Error) \<and>
     ps_scripts s' ''episode_2.json'' = Some d \<and>
     map (json_id ''segment_id'') (map JObj (get_pending_scenes ''video_clip'' d)) = [Some ''E2S2'']"
proof -
  let ?s = "film_store\<lparr>ps_project := dict_put sample_project ''episodes'' (JArr [JObj [(''title'', JStr ''?'')]])\<rparr>"
  let ?r = "update_scene_asset (\<lambda>_. True) (\<lambda>_. []) ''t'' ''episode_2.json'' ''E2S1'' ''video_clip'' (JStr ''y.mp4'') ?s"
  have 1: "snd ?r = Inl Key_Error" by code_simp
  have 2: "map_option (\<lambda>d. map (json_id ''segment_id'') (map JObj (get_pending_scenes ''video_clip'' d)))
      (ps_scripts (fst ?r) ''episode_2.json'') = Some [Some ''E2S2'']" by code_simp
  then obtain d where d: "ps_scripts (fst ?r) ''episode_2.json'' = Some d"
      "map (json_id ''segment_id'') (map JObj (get_pending_scenes ''video_clip'' d)) = [Some ''E2S2'']" by auto
  from 1 have "?r = (fst ?r, Inl Key_Error)" by (metis prod.collapse)
  with d show ?thesis by (intro exI [of _ "fst ?r"] exI [of _ d]) simp
qed

end
