(* ===== verification/Grid.thy ===== *)
theory Grid
  imports ScriptFile Versions
begin

text \<open>
  Grids of storyboards: one generated image that holds the first frames of several scenes. The
  layout (\<open>lib/grid/layout.py\<close>), the chain of frames and its record (\<open>lib/grid/models.py\<close>), the files of
  the records (\<open>lib/grid_manager.py\<close>), where the cells are cut (\<open>lib/grid/splitter.py\<close>), how the route
  and the tool of the agent divide groups into grids (\<open>server/routers/grids.py\<close>,
  \<open>server/agent_runtime/sdk_tools/enqueue_grid.py\<close>), and the execution of a grid task
  (\<open>server/services/generation_tasks.py\<close>). Scenes are given by their identifiers; the image of the
  provider, cut into cells, is the list of their contents.
\<close>

section \<open>Layout\<close>

datatype grid_error = Grid_Key | Grid_Value | Grid_Index

record grid_layout =
  gl_size :: string
  gl_rows :: nat
  gl_cols :: nat
  gl_ratio :: string
  gl_cells :: nat
  gl_placeholders :: nat

definition ratio_of :: "string \<Rightarrow> grid_error + int \<times> int" where
  "ratio_of text =
     (let parts = split_on (CHR '':'') [] text in
      case py_int (parts ! 0) of
        None \<Rightarrow> Inl Grid_Value
      | Some w \<Rightarrow>
          if length parts < 2 then Inl Grid_Index
          else (case py_int (parts ! 1) of None \<Rightarrow> Inl Grid_Value | Some h \<Rightarrow> Inr (w, h)))"

definition grid_config :: "nat \<Rightarrow> bool \<Rightarrow> nat \<times> nat \<times> string" where
  "grid_config cells horizontal =
     (if cells = 4 then (2, 2, if horizontal then ''16:9'' else ''9:16'')
      else if cells = 6 then (if horizontal then (3, 2, ''4:3'') else (2, 3, ''3:4''))
      else (3, 3, if horizontal then ''16:9'' else ''9:16''))"

definition calculate_grid_layout :: "nat \<Rightarrow> string \<Rightarrow> grid_error + grid_layout option" where
  "calculate_grid_layout n aspect_ratio =
     (if n < 1 then Inr None
      else
        (let effective = min n 9;
             cells = (if effective \<le> 4 then 4 else if effective \<le> 6 then 6 else 9)
         in bind_err (ratio_of aspect_ratio) (\<lambda>(w, h).
              let (rows, cols, ratio) = grid_config cells (w > h)
              in Inr (Some \<lparr>gl_size = ''grid_'' @ show_nat cells, gl_rows = rows, gl_cols = cols, gl_ratio = ratio,
                            gl_cells = cells, gl_placeholders = cells - effective\<rparr>))))"

definition base_width :: int where
  "base_width = 1920"

definition pixel_dimensions :: "grid_layout \<Rightarrow> grid_error + int \<times> int" where
  "pixel_dimensions l =
     bind_err (ratio_of (gl_ratio l)) (\<lambda>(w, h).
       Inr (if w \<ge> h then (base_width, round_half_even (of_int (base_width * h) / of_int w))
            else (round_half_even (of_int (base_width * w) / of_int h), base_width)))"

section \<open>The chain of frames\<close>

datatype frame_type = First | Transition | Placeholder

record frame_cell =
  fc_index :: nat
  fc_row :: nat
  fc_col :: nat
  fc_type :: frame_type
  fc_prev :: "string option"
  fc_next :: "string option"
  fc_image :: "string option"

definition frame_at :: "string list \<Rightarrow> nat \<Rightarrow> nat \<Rightarrow> frame_cell" where
  "frame_at ids cols i =
     (let c = \<lparr>fc_index = i, fc_row = i div cols, fc_col = i mod cols, fc_type = Placeholder,
               fc_prev = None, fc_next = None, fc_image = None\<rparr>
      in if i = 0 then c\<lparr>fc_type := First, fc_next := (if ids \<noteq> [] then Some (ids ! 0) else None)\<rparr>
         else if i < length ids then c\<lparr>fc_type := Transition, fc_prev := Some (ids ! (i - 1)), fc_next := Some (ids ! i)\<rparr>
         else c)"

definition build_frame_chain :: "string list \<Rightarrow> nat \<Rightarrow> nat \<Rightarrow> frame_cell list" where
  "build_frame_chain ids rows cols = map (frame_at ids cols) [0..<rows * cols]"

datatype grid_status = Grid_pending | Grid_generating | Grid_splitting | Grid_completed | Grid_failed

record reference_image =
  ri_path :: string
  ri_name :: string
  ri_type :: string

record grid_generation =
  gg_id :: string
  gg_episode :: int
  gg_script :: string
  gg_scenes :: "string list"
  gg_image :: "string option"
  gg_rows :: nat
  gg_cols :: nat
  gg_cells :: nat
  gg_chain :: "frame_cell list"
  gg_status :: grid_status
  gg_prompt :: "string option"
  gg_provider :: string
  gg_model :: string
  gg_size :: string
  gg_created :: string
  gg_error :: "string option"
  gg_references :: "reference_image list option"

definition create_grid ::
  "string \<Rightarrow> string \<Rightarrow> int \<Rightarrow> string \<Rightarrow> string list \<Rightarrow> nat \<Rightarrow> nat \<Rightarrow> string \<Rightarrow> string option \<Rightarrow> grid_generation" where
  "create_grid new_id now episode script ids rows cols gsize prompt =
     \<lparr>gg_id = new_id, gg_episode = episode, gg_script = script, gg_scenes = ids, gg_image = None,
      gg_rows = rows, gg_cols = cols, gg_cells = rows * cols, gg_chain = build_frame_chain ids rows cols,
      gg_status = Grid_pending, gg_prompt = prompt, gg_provider = [], gg_model = [], gg_size = gsize,
      gg_created = now, gg_error = None, gg_references = None\<rparr>"

section \<open>Records as JSON\<close>

definition opt_json :: "string option \<Rightarrow> json" where
  "opt_json s = (case s of None \<Rightarrow> JNull | Some t \<Rightarrow> JStr t)"

definition frame_type_text :: "frame_type \<Rightarrow> string" where
  "frame_type_text t = (case t of First \<Rightarrow> ''first'' | Transition \<Rightarrow> ''transition'' | Placeholder \<Rightarrow> ''placeholder'')"

definition grid_status_text :: "grid_status \<Rightarrow> string" where
  "grid_status_text t =
     (case t of Grid_pending \<Rightarrow> ''pending'' | Grid_generating \<Rightarrow> ''generating'' | Grid_splitting \<Rightarrow> ''splitting''
      | Grid_completed \<Rightarrow> ''completed'' | Grid_failed \<Rightarrow> ''failed'')"

definition frame_to_dict :: "frame_cell \<Rightarrow> dict" where
  "frame_to_dict c =
     [(''index'', JInt (int (fc_index c))), (''row'', JInt (int (fc_row c))), (''col'', JInt (int (fc_col c))),
      (''frame_type'', JStr (frame_type_text (fc_type c))), (''prev_scene_id'', opt_json (fc_prev c)),
      (''next_scene_id'', opt_json (fc_next c)), (''image_path'', opt_json (fc_image c))]"

definition reference_to_dict :: "reference_image \<Rightarrow> dict" where
  "reference_to_dict r = [(''path'', JStr (ri_path r)), (''name'', JStr (ri_name r)), (''ref_type'', JStr (ri_type r))]"

definition grid_to_dict :: "grid_generation \<Rightarrow> dict" where
  "grid_to_dict g =
     [(''id'', JStr (gg_id g)), (''episode'', JInt (gg_episode g)), (''script_file'', JStr (gg_script g)),
      (''scene_ids'', JArr (map JStr (gg_scenes g))), (''grid_image_path'', opt_json (gg_image g)),
      (''rows'', JInt (int (gg_rows g))), (''cols'', JInt (int (gg_cols g))), (''cell_count'', JInt (int (gg_cells g))),
      (''frame_chain'', JArr (map (JObj \<circ> frame_to_dict) (gg_chain g))), (''status'', JStr (grid_status_text (gg_status g))),
      (''prompt'', opt_json (gg_prompt g)), (''provider'', JStr (gg_provider g)), (''model'', JStr (gg_model g)),
      (''grid_size'', JStr (gg_size g)), (''created_at'', JStr (gg_created g)), (''error_message'', opt_json (gg_error g)),
      (''reference_images'', (case gg_references g of
          Some (r # rs) \<Rightarrow> JArr (map (JObj \<circ> reference_to_dict) (r # rs)) | _ \<Rightarrow> JNull))]"

text \<open>
  Reading a record: a key without default that is missing is the \<open>KeyError\<close> of the source. A value of
  another type, which no save writes, is refused here.
\<close>

definition want :: "(json \<Rightarrow> 'a option) \<Rightarrow> dict \<Rightarrow> string \<Rightarrow> grid_error + 'a" where
  "want conv d k =
     (case dict_get d k of
        None \<Rightarrow> Inl Grid_Key
      | Some v \<Rightarrow> (case conv v of None \<Rightarrow> Inl Grid_Value | Some x \<Rightarrow> Inr x))"

definition want_or :: "(json \<Rightarrow> 'a option) \<Rightarrow> dict \<Rightarrow> string \<Rightarrow> json \<Rightarrow> grid_error + 'a" where
  "want_or conv d k dflt = (case conv (dict_or d k dflt) of None \<Rightarrow> Inl Grid_Value | Some x \<Rightarrow> Inr x)"

definition as_nat :: "json \<Rightarrow> nat option" where
  "as_nat v = (case v of JInt i \<Rightarrow> if 0 \<le> i then Some (nat i) else None | _ \<Rightarrow> None)"

definition as_opt_str :: "json \<Rightarrow> string option option" where
  "as_opt_str v = (case v of JNull \<Rightarrow> Some None | JStr s \<Rightarrow> Some (Some s) | _ \<Rightarrow> None)"

definition as_frame_type :: "json \<Rightarrow> frame_type option" where
  "as_frame_type v = List.find (\<lambda>t. v = JStr (frame_type_text t)) [First, Transition, Placeholder]"

definition as_grid_status :: "json \<Rightarrow> grid_status option" where
  "as_grid_status v =
     List.find (\<lambda>t. v = JStr (grid_status_text t)) [Grid_pending, Grid_generating, Grid_splitting, Grid_completed, Grid_failed]"

fun map_some :: "('a \<Rightarrow> 'b option) \<Rightarrow> 'a list \<Rightarrow> 'b list option" where
  "map_some f [] = Some []"
| "map_some f (x # xs) = (case (f x, map_some f xs) of (Some y, Some ys) \<Rightarrow> Some (y # ys) | _ \<Rightarrow> None)"

definition as_strs :: "json \<Rightarrow> string list option" where
  "as_strs v = Option.bind (as_list v) (map_some as_str)"

definition frame_from_dict :: "dict \<Rightarrow> grid_error + frame_cell" where
  "frame_from_dict d =
     bind_err (want as_nat d ''index'') (\<lambda>i.
     bind_err (want as_nat d ''row'') (\<lambda>r.
     bind_err (want as_nat d ''col'') (\<lambda>c.
     bind_err (want as_frame_type d ''frame_type'') (\<lambda>t.
     bind_err (want_or as_opt_str d ''prev_scene_id'' JNull) (\<lambda>p.
     bind_err (want_or as_opt_str d ''next_scene_id'' JNull) (\<lambda>n.
     bind_err (want_or as_opt_str d ''image_path'' JNull) (\<lambda>m.
       Inr \<lparr>fc_index = i, fc_row = r, fc_col = c, fc_type = t, fc_prev = p, fc_next = n, fc_image = m\<rparr>)))))))"

definition reference_from_dict :: "dict \<Rightarrow> grid_error + reference_image" where
  "reference_from_dict d =
     bind_err (want as_str d ''path'') (\<lambda>p.
     bind_err (want as_str d ''name'') (\<lambda>n.
     bind_err (want_or as_str d ''ref_type'' (JStr ''character'')) (\<lambda>t.
       Inr \<lparr>ri_path = p, ri_name = n, ri_type = t\<rparr>)))"

definition of_dicts :: "(dict \<Rightarrow> grid_error + 'a) \<Rightarrow> json \<Rightarrow> grid_error + 'a list" where
  "of_dicts f v =
     (case Option.bind (as_list v) (map_some as_dict) of None \<Rightarrow> Inl Grid_Value | Some ds \<Rightarrow> map_err f ds)"

definition grid_from_dict :: "dict \<Rightarrow> grid_error + grid_generation" where
  "grid_from_dict d =
     bind_err (want as_str d ''id'') (\<lambda>i.
     bind_err (want as_int d ''episode'') (\<lambda>e.
     bind_err (want as_str d ''script_file'') (\<lambda>f.
     bind_err (want as_strs d ''scene_ids'') (\<lambda>ids.
     bind_err (want_or as_opt_str d ''grid_image_path'' JNull) (\<lambda>img.
     bind_err (want as_nat d ''rows'') (\<lambda>rows.
     bind_err (want as_nat d ''cols'') (\<lambda>cols.
     bind_err (want as_nat d ''cell_count'') (\<lambda>cells.
     bind_err (of_dicts frame_from_dict (dict_or d ''frame_chain'' (JArr []))) (\<lambda>chain.
     bind_err (want as_grid_status d ''status'') (\<lambda>st.
     bind_err (want_or as_opt_str d ''prompt'' JNull) (\<lambda>prompt.
     bind_err (want as_str d ''provider'') (\<lambda>provider.
     bind_err (want as_str d ''model'') (\<lambda>model.
     bind_err (want as_str d ''grid_size'') (\<lambda>size.
     bind_err (want as_str d ''created_at'') (\<lambda>created.
     bind_err (want_or as_opt_str d ''error_message'' JNull) (\<lambda>err.
     bind_err (if truthy (dict_ref d ''reference_images'')
               then bind_err (of_dicts reference_from_dict (dict_ref d ''reference_images'')) (\<lambda>rs. Inr (Some rs))
               else Inr None) (\<lambda>refs.
       Inr \<lparr>gg_id = i, gg_episode = e, gg_script = f, gg_scenes = ids, gg_image = img, gg_rows = rows,
            gg_cols = cols, gg_cells = cells, gg_chain = chain, gg_status = st, gg_prompt = prompt,
            gg_provider = provider, gg_model = model, gg_size = size, gg_created = created, gg_error = err,
            gg_references = refs\<rparr>)))))))))))))))))"

section \<open>The files of the records\<close>

text \<open>The records in the order of their files; \<open>list_all\<close> sorts them by their creation.\<close>

type_synonym grid_store = "grid_generation list"

definition get_grid :: "grid_store \<Rightarrow> string \<Rightarrow> grid_generation option" where
  "get_grid gs i = find_row gg_id i gs"

text \<open>What a file gives back: an empty list of references is written as null.\<close>

definition as_stored :: "grid_generation \<Rightarrow> grid_generation" where
  "as_stored g = (if gg_references g = Some [] then g\<lparr>gg_references := None\<rparr> else g)"

definition save_grid :: "grid_generation \<Rightarrow> grid_store \<Rightarrow> grid_store" where
  "save_grid g gs =
     (if get_grid gs (gg_id g) = None then gs @ [as_stored g] else set_row gg_id (as_stored g) gs)"

definition delete_grid :: "string \<Rightarrow> grid_store \<Rightarrow> bool \<times> grid_store" where
  "delete_grid i gs = (get_grid gs i \<noteq> None, filter (\<lambda>g. gg_id g \<noteq> i) gs)"

definition list_grids :: "grid_store \<Rightarrow> grid_generation list" where
  "list_grids gs = sort_key gg_created gs"

section \<open>Dividing groups into grids\<close>

fun chunks :: "nat \<Rightarrow> 'a list \<Rightarrow> 'a list list" where
  "chunks k xs = (if k = 0 \<or> xs = [] then [] else take k xs # chunks k (drop k xs))"

declare chunks.simps [simp del]

text \<open>The route cuts a group that has more scenes than cells and lays out every piece anew.\<close>

definition router_chunks :: "string \<Rightarrow> string list \<Rightarrow> grid_error + string list list" where
  "router_chunks ratio ids =
     bind_err (calculate_grid_layout (length ids) ratio) (\<lambda>l.
       Inr (case l of
              None \<Rightarrow> []
            | Some l \<Rightarrow> if length ids > gl_cells l then chunks (gl_cells l) ids else [ids]))"

definition grid_of :: "string \<Rightarrow> string \<Rightarrow> int \<Rightarrow> string \<Rightarrow> string option \<Rightarrow> string \<Rightarrow> string list \<Rightarrow> grid_error + grid_generation option" where
  "grid_of new_id now episode script prompt ratio ids =
     bind_err (calculate_grid_layout (length ids) ratio) (\<lambda>l.
       Inr (map_option (\<lambda>l. create_grid new_id now episode script ids (gl_rows l) (gl_cols l) (gl_size l) prompt) l))"

text \<open>Records of the same script and episode whose scenes lie in the group are removed, unless they wait or run.\<close>

definition replaces :: "int \<Rightarrow> string \<Rightarrow> string list \<Rightarrow> grid_generation \<Rightarrow> bool" where
  "replaces episode script ids g =
     (gg_script g = script \<and> gg_episode g = episode \<and> gg_status g \<notin> {Grid_pending, Grid_generating} \<and>
      gg_scenes g \<noteq> [] \<and> set (gg_scenes g) \<subseteq> set ids)"

text \<open>The answer lists the new records; each is saved before its task is enqueued under its identifier.\<close>

definition router_group ::
  "(nat \<Rightarrow> string) \<Rightarrow> string \<Rightarrow> int \<Rightarrow> string \<Rightarrow> string \<Rightarrow> (string list \<Rightarrow> string) \<Rightarrow> grid_store \<Rightarrow> grid_generation list \<times> grid_store \<Rightarrow>
   string list \<Rightarrow> grid_error + (grid_generation list \<times> grid_store)" where
  "router_group fresh now episode script ratio prompt_of existing st ids =
     bind_err (router_chunks ratio ids) (\<lambda>cs.
       let old = (if cs = [] then [] else map gg_id (filter (replaces episode script ids) existing));
           cleaned = filter (\<lambda>g. gg_id g \<notin> set old) (snd st)
       in fold_err (\<lambda>(new, gs) c.
            bind_err (grid_of (fresh (length new)) now episode script (Some (prompt_of c)) ratio c) (\<lambda>g.
              Inr (case g of None \<Rightarrow> (new, gs) | Some g \<Rightarrow> (new @ [g], save_grid g gs))))
            (fst st, cleaned) cs)"

definition router_grids ::
  "(nat \<Rightarrow> string) \<Rightarrow> string \<Rightarrow> int \<Rightarrow> string \<Rightarrow> string \<Rightarrow> (string list \<Rightarrow> string) \<Rightarrow> string list list \<Rightarrow> grid_store \<Rightarrow>
   grid_error + (grid_generation list \<times> grid_store)" where
  "router_grids fresh now episode script ratio prompt_of groups gs =
     fold_err (router_group fresh now episode script ratio prompt_of (list_grids gs)) ([], gs) groups"

text \<open>The tool makes one record of every group, whatever its size.\<close>

definition tool_grids ::
  "(nat \<Rightarrow> string) \<Rightarrow> string \<Rightarrow> int \<Rightarrow> string \<Rightarrow> string \<Rightarrow> (string list \<Rightarrow> string) \<Rightarrow> string list list \<Rightarrow> grid_store \<Rightarrow>
   grid_error + (grid_generation list \<times> grid_store)" where
  "tool_grids fresh now episode script ratio prompt_of groups gs =
     fold_err (\<lambda>(new, gs) ids.
       bind_err (grid_of (fresh (length new)) now episode script (Some (prompt_of ids)) ratio ids) (\<lambda>g.
         Inr (case g of None \<Rightarrow> (new, gs) | Some g \<Rightarrow> (new @ [g], save_grid g gs))))
       ([], gs) groups"

section \<open>Where the cells are cut\<close>

text \<open>The box of a cell, trimmed by a fiftieth of its size on each side, before it is cropped to a ratio.\<close>

definition cell_box :: "nat \<Rightarrow> nat \<Rightarrow> nat \<Rightarrow> nat \<Rightarrow> nat \<Rightarrow> nat \<times> nat \<times> nat \<times> nat" where
  "cell_box w h rows cols i =
     (let cw = w div cols; ch = h div rows; mx = cw div 50; my = ch div 50;
          x0 = i mod cols * cw; y0 = i div cols * ch
      in (x0 + mx, y0 + my, x0 + cw - mx, y0 + ch - my))"

definition split_boxes :: "nat \<Rightarrow> nat \<Rightarrow> nat \<Rightarrow> nat \<Rightarrow> (nat \<times> nat \<times> nat \<times> nat) list" where
  "split_boxes w h rows cols = map (cell_box w h rows cols) [0..<rows * cols]"

section \<open>Executing a grid task\<close>

record cell_state =
  cs_versions :: version_store
  cs_frames :: "frame_cell list"
  cs_updates :: "(string \<times> string \<times> json) list"
  cs_missing :: "string list"

definition cell_path :: "string \<Rightarrow> string" where
  "cell_path sid = ''storyboards/scene_'' @ sid @ ''.png''"

text \<open>The scene a cell is the first frame of.\<close>

definition cell_target :: "frame_cell \<Rightarrow> string option" where
  "cell_target f =
     (if fc_type f = Placeholder then None
      else (case fc_next f of Some sid \<Rightarrow> if sid = [] then None else Some sid | None \<Rightarrow> None))"

text \<open>A file that is there is tracked, the cell written over it, and the result a new version.\<close>

definition assign_cell ::
  "string \<Rightarrow> string \<Rightarrow> string \<Rightarrow> frame_cell \<Rightarrow> string \<Rightarrow> content \<Rightarrow> cell_state \<Rightarrow> version_error + cell_state" where
  "assign_cell gid stamp tm f sid cell st =
     (let path = cell_path sid in
      bind_err (ensure_current_tracked (cs_versions st) ''storyboards'' sid path [] [] stamp tm) (\<lambda>(_, v1).
      bind_err (add_version (v1\<lparr>vs_files := (vs_files v1)(path \<mapsto> cell)\<rparr>) ''storyboards'' sid [] (Some path)
                  [(''source'', JStr ''grid_split''), (''grid_id'', JStr gid)] stamp tm) (\<lambda>(_, v2).
        Inr (st\<lparr>cs_versions := v2, cs_frames := cs_frames st @ [f\<lparr>fc_image := Some path\<rparr>],
                cs_updates := cs_updates st @
                  [(sid, ''storyboard_image'', JStr path), (sid, ''grid_id'', JStr gid),
                   (sid, ''grid_cell_index'', JInt (int (fc_index f)))]\<rparr>))))"

fun assign_cells ::
  "string set \<Rightarrow> string \<Rightarrow> (nat \<Rightarrow> string) \<Rightarrow> (nat \<Rightarrow> string) \<Rightarrow> content list \<Rightarrow> frame_cell list \<Rightarrow> cell_state \<Rightarrow>
   version_error + cell_state" where
  "assign_cells valid gid stamp tm (cell # cells) (f # fs) st =
     (case cell_target f of
        None \<Rightarrow> assign_cells valid gid stamp tm cells fs (st\<lparr>cs_frames := cs_frames st @ [f]\<rparr>)
      | Some sid \<Rightarrow>
          if sid \<notin> valid
          then assign_cells valid gid stamp tm cells fs
                 (st\<lparr>cs_frames := cs_frames st @ [f], cs_missing := cs_missing st @ [sid]\<rparr>)
          else bind_err (assign_cell gid (stamp (fc_index f)) (tm (fc_index f)) f sid cell st)
                 (assign_cells valid gid stamp tm cells fs))"
| "assign_cells valid gid stamp tm cells fs st = Inr (st\<lparr>cs_frames := cs_frames st @ fs\<rparr>)"

datatype grid_failure =
    Grid_not_found
  | Grid_no_prompt
  | Grid_provider_failed
  | Grid_cancelled
  | Grid_version version_error
  | Grid_script pm_error

record grid_world =
  gw_grids :: grid_store
  gw_project :: project_store
  gw_versions :: version_store

text \<open>
  What happens at the provider: none can be chosen, it fails, the coroutine is cancelled before it is chosen or
  while it generates, or its image is cut into cells.
\<close>

datatype provider_run =
    No_backend
  | No_image string string
  | Cancelled "(string \<times> string) option"
  | Cells string string "content list"

text \<open>
  A cancellation is no \<open>Exception\<close>, so the handler that settles the record does not see it: the record stays as it
  was saved last.

  The steps from the loaded record on; the record and the world they leave, and the failure. The version
  manager has no error for storyboards, so that a failure there leaves no cell behind.
\<close>

definition grid_assign ::
  "(dict \<Rightarrow> bool) \<Rightarrow> (string \<Rightarrow> string) \<Rightarrow> string \<Rightarrow> (nat \<Rightarrow> string) \<Rightarrow> (nat \<Rightarrow> string) \<Rightarrow> content list \<Rightarrow>
   grid_generation \<Rightarrow> grid_world \<Rightarrow> grid_generation \<times> grid_world \<times> (grid_failure + unit)" where
  "grid_assign valid prompt_of now stamp tm cells g w =
     (case bind_err (load_script (gw_project w) (gg_script g)) (\<lambda>script.
             case resolve_items script of
               Inl e \<Rightarrow> Inl (Edit_Error e)
             | Inr (items, idf, _) \<Rightarrow> Inr (set (existing_ids items idf))) of
        Inl e \<Rightarrow> (g, w, Inl (Grid_script e))
      | Inr ids \<Rightarrow>
          (case assign_cells ids (gg_id g) stamp tm cells (gg_chain g)
                  \<lparr>cs_versions = gw_versions w, cs_frames = [], cs_updates = [], cs_missing = []\<rparr> of
             Inl e \<Rightarrow> (g, w, Inl (Grid_version e))
           | Inr st \<Rightarrow>
               (let w1 = w\<lparr>gw_versions := cs_versions st\<rparr>; g1 = g\<lparr>gg_chain := cs_frames st\<rparr>;
                    (ps, r) = batch_update_scene_assets valid prompt_of now (gg_script g) (cs_updates st) (gw_project w)
                in (g1, w1\<lparr>gw_project := ps\<rparr>, case r of Inl e \<Rightarrow> Inl (Grid_script e) | Inr _ \<Rightarrow> Inr ()))))"

definition grid_outcome ::
  "(dict \<Rightarrow> bool) \<Rightarrow> (string \<Rightarrow> string) \<Rightarrow> string \<Rightarrow> (nat \<Rightarrow> string) \<Rightarrow> (nat \<Rightarrow> string) \<Rightarrow> string option \<Rightarrow> provider_run \<Rightarrow>
   grid_generation \<Rightarrow> grid_world \<Rightarrow> grid_generation \<times> grid_world \<times> (grid_failure + unit)" where
  "grid_outcome valid prompt_of now stamp tm payload_prompt run g w =
     (if some_text payload_prompt (coalesce (gg_prompt g) []) = [] then (g, w, Inl Grid_no_prompt)
      else (case run of
              No_backend \<Rightarrow> (g, w, Inl Grid_provider_failed)
            | No_image provider model \<Rightarrow> (g\<lparr>gg_provider := provider, gg_model := model\<rparr>, w, Inl Grid_provider_failed)
            | Cancelled None \<Rightarrow> (g, w, Inl Grid_cancelled)
            | Cancelled (Some (provider, model)) \<Rightarrow> (g\<lparr>gg_provider := provider, gg_model := model\<rparr>, w, Inl Grid_cancelled)
            | Cells provider model cells \<Rightarrow>
                grid_assign valid prompt_of now stamp tm cells
                  (g\<lparr>gg_provider := provider, gg_model := model,
                     gg_image := Some (''grids/'' @ gg_id g @ ''.png''), gg_status := Grid_splitting\<rparr>) w))"

definition execute_grid_task ::
  "(dict \<Rightarrow> bool) \<Rightarrow> (string \<Rightarrow> string) \<Rightarrow> string \<Rightarrow> (nat \<Rightarrow> string) \<Rightarrow> (nat \<Rightarrow> string) \<Rightarrow> string option \<Rightarrow> reference_image list \<Rightarrow>
   provider_run \<Rightarrow> string \<Rightarrow> string \<Rightarrow> grid_world \<Rightarrow> grid_world \<times> (grid_failure + grid_generation)" where
  "execute_grid_task valid prompt_of now stamp tm payload_prompt refs run error_text gid w =
     (case get_grid (gw_grids w) gid of
        None \<Rightarrow> (w, Inl Grid_not_found)
      | Some g \<Rightarrow>
          (let (g1, w1, r) = grid_outcome valid prompt_of now stamp tm payload_prompt run
                 (g\<lparr>gg_status := Grid_generating, gg_error := None, gg_references := Some refs\<rparr>) w
           in case r of
                Inr _ \<Rightarrow>
                  (let g2 = g1\<lparr>gg_status := Grid_completed\<rparr>
                   in (w1\<lparr>gw_grids := save_grid g2 (gw_grids w1)\<rparr>, Inr g2))
              | Inl Grid_cancelled \<Rightarrow> (w1\<lparr>gw_grids := save_grid g1 (gw_grids w1)\<rparr>, Inl Grid_cancelled)
              | Inl e \<Rightarrow>
                  (w1\<lparr>gw_grids := save_grid (g1\<lparr>gg_status := Grid_failed, gg_error := Some error_text\<rparr>) (gw_grids w1)\<rparr>,
                   Inl e)))"

end
