(* ===== verification/GridProps.thy ===== *)
theory GridProps
  imports Grid ScriptProps
begin

text \<open>
  Properties of the grids: the layout has room, the chain gives every scene its cell, the route covers
  every scene of every group while the tool of the agent loses those after the ninth, the cells of an
  image do not overlap, a record is read back from its file, and an executed task is settled.
\<close>

section \<open>Layout and chain\<close>

lemma layout_SomeD:
  assumes "calculate_grid_layout n ratio = Inr (Some l)"
  shows "gl_rows l * gl_cols l = gl_cells l" and "min n 9 \<le> gl_cells l" and "gl_cells l \<le> 9"
    and "gl_cells l < n \<Longrightarrow> gl_cells l = 9" and "0 < gl_cells l" and "gl_placeholders l + min n 9 = gl_cells l"
  using assms
  by (auto simp: calculate_grid_layout_def Let_def grid_config_def bind_err_Inr_iff split: if_splits prod.splits)

lemma layout_positive: "0 < n \<Longrightarrow> calculate_grid_layout n ratio = Inr r \<Longrightarrow> r \<noteq> None"
  by (auto simp: calculate_grid_layout_def Let_def bind_err_Inr_iff case_prod_beta)

lemma layout_ratio: "calculate_grid_layout n ratio = Inr (Some l) \<Longrightarrow> 0 < m \<Longrightarrow>
    \<exists>l'. calculate_grid_layout m ratio = Inr (Some l')"
  by (cases "ratio_of ratio") (auto simp: calculate_grid_layout_def Let_def case_prod_beta split: if_splits)

definition targets :: "grid_generation \<Rightarrow> string list" where
  "targets g = List.map_filter cell_target (gg_chain g)"

lemma frame_target:
  assumes "\<forall>sid\<in>set ids. sid \<noteq> []"
  shows "cell_target (frame_at ids cols i) = (if i < length ids then Some (ids ! i) else None)"
proof (cases "i < length ids")
  case True
  with assms have "ids ! i \<noteq> []" by simp
  with True show ?thesis by (cases "i = 0") (auto simp: cell_target_def frame_at_def Let_def)
next
  case False
  then show ?thesis by (cases "i = 0") (auto simp: cell_target_def frame_at_def Let_def)
qed

lemma chain_targets:
  assumes "\<forall>sid\<in>set ids. sid \<noteq> []"
  shows "List.map_filter cell_target (build_frame_chain ids rows cols) = take (rows * cols) ids"
proof -
  have "List.map_filter cell_target (map (frame_at ids cols) [0..<m]) = take m ids" for m
  proof (induction m)
    case (Suc m)
    then show ?case
      by (cases "m < length ids") (simp_all add: map_filter_simps frame_target [OF assms] take_Suc_conv_app_nth map_filter_def)
  qed (simp add: map_filter_simps)
  then show ?thesis by (simp add: build_frame_chain_def)
qed

section \<open>Dividing groups\<close>

lemma concat_chunks: "0 < k \<Longrightarrow> concat (chunks k xs) = xs"
  by (induction k xs rule: chunks.induct) (simp add: chunks.simps)

lemma chunks_size: "c \<in> set (chunks k xs) \<Longrightarrow> c \<noteq> [] \<and> length c \<le> k"
proof (induction k xs rule: chunks.induct)
  case (1 k xs)
  then show ?case by (cases "k = 0 \<or> xs = []") (auto simp: chunks.simps [of k xs])
qed

lemma router_chunks_InrD:
  assumes "router_chunks ratio ids = Inr cs"
  shows "concat cs = ids" and "\<forall>c\<in>set cs. 0 < length c \<and> length c \<le> 9"
proof -
  from assms obtain l where l: "calculate_grid_layout (length ids) ratio = Inr l" and
    cs: "cs = (case l of None \<Rightarrow> []
      | Some l \<Rightarrow> if length ids > gl_cells l then chunks (gl_cells l) ids else [ids])"
    by (auto simp: router_chunks_def bind_err_Inr_iff)
  have "concat cs = ids \<and> (\<forall>c\<in>set cs. 0 < length c \<and> length c \<le> 9)"
  proof (cases l)
    case None
    with l layout_positive have "ids = []" by blast
    with None cs show ?thesis by simp
  next
    case (Some m)
    note m = layout_SomeD [OF l [unfolded Some]]
    have "ids \<noteq> []" using l Some by (auto simp: calculate_grid_layout_def)
    with Some cs m show ?thesis
      using concat_chunks [OF m(5), of ids] chunks_size [of _ "gl_cells m" ids] by (auto simp: min_def split: if_splits)
  qed
  then show "concat cs = ids" "\<forall>c\<in>set cs. 0 < length c \<and> length c \<le> 9" by auto
qed

definition scene_names_ok :: "string list \<Rightarrow> bool" where
  "scene_names_ok ids = (\<forall>sid\<in>set ids. sid \<noteq> [])"

lemma grid_of_SomeD:
  assumes "grid_of i now e f p ratio ids = Inr (Some g)" and "scene_names_ok ids"
  shows "targets g = take (length (gg_chain g)) ids" and "gg_scenes g = ids" and "gg_id g = i"
    and "length (gg_chain g) = gg_cells g" and "min (length ids) 9 \<le> gg_cells g" and "gg_cells g \<le> 9"
    and "gg_references g = None"
proof -
  from assms(1) obtain l where l: "calculate_grid_layout (length ids) ratio = Inr (Some l)" and
    g: "g = create_grid i now e f ids (gl_rows l) (gl_cols l) (gl_size l) p"
    by (auto simp: grid_of_def bind_err_Inr_iff)
  note m = layout_SomeD [OF l]
  show "targets g = take (length (gg_chain g)) ids"
    using chain_targets [of ids "gl_rows l" "gl_cols l"] assms(2)
    by (simp add: targets_def g create_grid_def scene_names_ok_def) (simp add: build_frame_chain_def)
  show "gg_scenes g = ids" "gg_id g = i" "length (gg_chain g) = gg_cells g" "min (length ids) 9 \<le> gg_cells g"
    "gg_cells g \<le> 9" "gg_references g = None"
    using m by (simp_all add: g create_grid_def build_frame_chain_def)
qed

lemma grid_of_total:
  assumes "calculate_grid_layout n ratio = Inr (Some l)" and "0 < length ids"
  shows "\<exists>g. grid_of i now e f p ratio ids = Inr (Some g)"
  using layout_ratio [OF assms] by (auto simp: grid_of_def)

definition new_targets :: "grid_generation list \<Rightarrow> string list" where
  "new_targets gs = concat (map targets gs)"

lemma router_group_covers:
  assumes "router_group fresh now e f ratio prompt_of existing (new, gs) ids = Inr (new', gs')"
    and "scene_names_ok ids"
  shows "new_targets new' = new_targets new @ ids"
proof -
  let ?step = "\<lambda>(new, gs) c. bind_err (grid_of (fresh (length new)) now e f (Some (prompt_of c)) ratio c) (\<lambda>g.
              Inr (case g of None \<Rightarrow> (new, gs) | Some g \<Rightarrow> (new @ [g], save_grid g gs)))"
  have fold: "new_targets new' = new_targets new @ concat cs"
    if "fold_err ?step (new, gs) cs = Inr (new', gs')" "\<forall>c\<in>set cs. 0 < length c \<and> length c \<le> 9 \<and> scene_names_ok c"
    for cs new gs new' gs'
    using that
  proof (induction cs arbitrary: new gs)
    case (Cons c cs)
    from Cons.prems(1) obtain og where og: "grid_of (fresh (length new)) now e f (Some (prompt_of c)) ratio c = Inr og"
      and r: "fold_err ?step (case og of None \<Rightarrow> (new, gs) | Some g \<Rightarrow> (new @ [g], save_grid g gs)) cs = Inr (new', gs')"
      by (auto simp: bind_err_Inr_iff)
    from og Cons.prems(2) obtain g where g: "og = Some g"
      by (auto simp: grid_of_def bind_err_Inr_iff dest: layout_positive [rotated])
    from Cons.prems(2) have c: "scene_names_ok c" "length c \<le> 9" by auto
    note gd = grid_of_SomeD [OF og [unfolded g] c(1)]
    from gd(1,4,5) c(2) have "targets g = c" by simp
    with Cons.IH [of "new @ [g]" "save_grid g gs"] r g Cons.prems(2) show ?case by (simp add: new_targets_def)
  qed simp
  from assms(1) obtain cs cleaned where cs: "router_chunks ratio ids = Inr cs" and
    r: "fold_err ?step (new, cleaned) cs = Inr (new', gs')"
    by (auto simp: router_group_def bind_err_Inr_iff Let_def)
  note d = router_chunks_InrD [OF cs]
  have "\<forall>c\<in>set cs. 0 < length c \<and> length c \<le> 9 \<and> scene_names_ok c"
    using d assms(2) by (auto simp: scene_names_ok_def)
  from fold [OF r this] d(1) show ?thesis by simp
qed

text \<open>C26. The route generates every scene of every group: the cells of the grids it makes are the first frames
  of exactly the scenes of the groups, in their order, however long a group is.\<close>

theorem router_covers_scenes:
  assumes "router_grids fresh now e f ratio prompt_of groups gs = Inr (new, gs')" and "\<forall>ids\<in>set groups. scene_names_ok ids"
  shows "concat (map targets new) = concat groups"
proof -
  have "new_targets new = new_targets new0 @ concat groups"
    if "fold_err (router_group fresh now e f ratio prompt_of existing) (new0, gs0) groups = Inr (new, gs')"
    for existing new0 gs0
    using that assms(2)
  proof (induction groups arbitrary: new0 gs0)
    case (Cons ids groups)
    then obtain new1 gs1 where 1: "router_group fresh now e f ratio prompt_of existing (new0, gs0) ids = Inr (new1, gs1)"
      "fold_err (router_group fresh now e f ratio prompt_of existing) (new1, gs1) groups = Inr (new, gs')"
      by (auto simp: bind_err_Inr_iff)
    with Cons.IH [OF 1(2)] router_group_covers [OF 1(1)] Cons.prems(2) show ?case by simp
  qed simp
  from this [of "list_grids gs" "[]" gs] assms(1) show ?thesis by (simp add: router_grids_def new_targets_def)
qed

text \<open>The tool of the agent makes one grid of a group whatever its size: the grid names all its scenes, but
  has cells only for the first nine, so a later scene gets no image, and no error says so.\<close>

theorem tool_loses_scenes:
  assumes "tool_grids fresh now e f ratio prompt_of [ids] gs = Inr (new, gs')" and "scene_names_ok ids" and "9 < length ids"
  shows "\<exists>g. new = [g] \<and> gg_scenes g = ids \<and> targets g = take 9 ids \<and> targets g \<noteq> ids"
proof -
  from assms(1) obtain og where og: "grid_of (fresh 0) now e f (Some (prompt_of ids)) ratio ids = Inr og"
    and r: "(case og of None \<Rightarrow> ([], gs) | Some g \<Rightarrow> ([] @ [g], save_grid g gs)) = (new, gs')"
    by (auto simp del: append_Nil simp: tool_grids_def bind_err_Inr_iff)
  from og assms(3) obtain g where g: "og = Some g"
    by (auto simp: grid_of_def bind_err_Inr_iff dest: layout_positive [rotated])
  note d = grid_of_SomeD [OF og [unfolded g] assms(2)]
  from d(4,5,6) assms(3) have "length (gg_chain g) = 9" by simp
  with d(1) have t: "targets g = take 9 ids" by simp
  with assms(3) have "length (targets g) \<noteq> length ids" by simp
  with t d(2) r g show ?thesis by auto
qed

section \<open>Records and cells\<close>

lemma map_some_inverse: "(\<And>x. f (g x) = Some x) \<Longrightarrow> map_some f (map g xs) = Some xs"
  by (induction xs) simp_all

lemma map_err_inverse: "(\<And>x. f (g x) = Inr x) \<Longrightarrow> map_err f (map g xs) = Inr xs"
  by (induction xs) simp_all

lemma of_dicts_inverse:
  assumes "\<And>x. f (g x) = Inr x"
  shows "of_dicts f (JArr (map (JObj \<circ> g) xs)) = Inr xs"
proof -
  have "map_some as_dict (map (JObj \<circ> g) xs) = Some (map g xs)" by (induction xs) simp_all
  with assms show ?thesis by (simp add: of_dicts_def map_err_inverse)
qed

lemma opt_json_inverse [simp]: "as_opt_str (opt_json s) = Some s"
  by (cases s) (simp_all add: opt_json_def as_opt_str_def)

lemma as_nat_int [simp]: "as_nat (JInt (int n)) = Some n"
  by (simp add: as_nat_def)

lemma frame_type_inverse [simp]: "as_frame_type (JStr (frame_type_text t)) = Some t"
  by (cases t) (simp_all add: as_frame_type_def frame_type_text_def)

lemma grid_status_inverse [simp]: "as_grid_status (JStr (grid_status_text t)) = Some t"
  by (cases t) (simp_all add: as_grid_status_def grid_status_text_def)

lemma as_strs_inverse [simp]: "as_strs (JArr (map JStr ss)) = Some ss"
  by (simp add: as_strs_def map_some_inverse)

lemma want_Cons [simp]:
  "want conv ((k', v) # d) k = (if k' = k then (case conv v of None \<Rightarrow> Inl Grid_Value | Some x \<Rightarrow> Inr x) else want conv d k)"
  "want_or conv ((k', v) # d) k j = (if k' = k then (case conv v of None \<Rightarrow> Inl Grid_Value | Some x \<Rightarrow> Inr x) else want_or conv d k j)"
  by (simp_all add: want_def want_or_def dict_or_def dict_get_def coalesce_def)

lemma dict_or_Cons: "dict_or ((k', v) # d) k j = (if k' = k then v else dict_or d k j)"
  by (simp add: dict_or_def dict_get_def coalesce_def)

lemma dict_ref_Cons: "dict_ref ((k', v) # d) k = (if k' = k then v else dict_ref d k)"
  by (simp add: dict_ref_def dict_get_def coalesce_def)

lemma frame_inverse: "frame_from_dict (frame_to_dict c) = Inr c"
  by (simp add: frame_from_dict_def frame_to_dict_def)

lemma reference_inverse: "reference_from_dict (reference_to_dict r) = Inr r"
  by (simp add: reference_from_dict_def reference_to_dict_def)

text \<open>The record of a grid that is written to its file is the record read back, except that an empty list
  of reference images comes back as none at all.\<close>

theorem grid_record_roundtrip: "grid_from_dict (grid_to_dict g) = Inr (as_stored g)"
proof -
  have refs: "(case gg_references g of Some (r # rs) \<Rightarrow> JArr (map (JObj \<circ> reference_to_dict) (r # rs)) | _ \<Rightarrow> JNull) =
    (case gg_references (as_stored g) of Some rs \<Rightarrow> JArr (map (JObj \<circ> reference_to_dict) rs) | None \<Rightarrow> JNull)"
    by (auto simp: as_stored_def split: option.splits list.splits)
  have stored: "gg_references (as_stored g) \<noteq> Some []" by (simp add: as_stored_def)
  note inverses = of_dicts_inverse [of frame_from_dict, OF frame_inverse]
    of_dicts_inverse [of reference_from_dict, OF reference_inverse]
  show ?thesis
  proof (cases "gg_references (as_stored g)")
    case None
    then show ?thesis
      unfolding grid_to_dict_def refs
      by (simp add: grid_from_dict_def dict_or_Cons dict_ref_Cons inverses) (simp add: as_stored_def split: if_splits)
  next
    case (Some rs)
    with stored have "rs \<noteq> []" by simp
    with Some show ?thesis
      unfolding grid_to_dict_def refs
      by (simp add: grid_from_dict_def dict_or_Cons dict_ref_Cons inverses) (simp add: as_stored_def split: if_splits)
  qed
qed

section \<open>Boxes\<close>

definition inside_image :: "nat \<Rightarrow> nat \<Rightarrow> nat \<times> nat \<times> nat \<times> nat \<Rightarrow> bool" where
  "inside_image w h b = (case b of (x0, y0, x1, y1) \<Rightarrow> x0 \<le> x1 \<and> y0 \<le> y1 \<and> x1 \<le> w \<and> y1 \<le> h)"

definition boxes_apart :: "nat \<times> nat \<times> nat \<times> nat \<Rightarrow> nat \<times> nat \<times> nat \<times> nat \<Rightarrow> bool" where
  "boxes_apart b c =
     (case b of (x0, y0, x1, y1) \<Rightarrow> case c of (u0, v0, u1, v1) \<Rightarrow> x1 \<le> u0 \<or> u1 \<le> x0 \<or> y1 \<le> v0 \<or> v1 \<le> y0)"

lemma block_before: "a < b \<Longrightarrow> a * k + k \<le> b * (k :: nat)"
  by (metis Suc_leI add.commute mult_Suc mult_le_mono1)

lemma block_inside: "a < n \<Longrightarrow> a * (w div n) + w div n \<le> (w :: nat)"
  by (metis block_before div_times_less_eq_dividend le_trans mult.commute)

lemma cell_in_grid: "i < rows * cols \<Longrightarrow> i mod cols < cols \<and> i div cols < (rows :: nat)"
  by (cases "cols = 0") (simp_all add: less_mult_imp_div_less)

lemma cell_box_inside:
  assumes "i < rows * cols"
  shows "inside_image w h (cell_box w h rows cols i)"
proof -
  have m: "k div 50 \<le> k - k div 50" "k - k div 50 \<le> k" for k :: nat by simp_all
  from cell_in_grid [OF assms] have
    "i mod cols * (w div cols) + w div cols \<le> w" "i div cols * (h div rows) + h div rows \<le> h"
    by (simp_all add: block_inside)
  with m [of "w div cols"] m [of "h div rows"] show ?thesis
    unfolding inside_image_def cell_box_def Let_def prod.case by linarith
qed

lemma cell_boxes_apart:
  assumes "i \<noteq> j"
  shows "boxes_apart (cell_box w h rows cols i) (cell_box w h rows cols j)"
proof -
  from assms have "i mod cols \<noteq> j mod cols \<or> i div cols \<noteq> j div cols" by (metis mod_mult_div_eq)
  then consider "i mod cols < j mod cols" | "j mod cols < i mod cols" | "i div cols < j div cols" | "j div cols < i div cols"
    by linarith
  then show ?thesis
  proof cases
    case 1
    from block_before [OF this, of "w div cols"] show ?thesis unfolding boxes_apart_def cell_box_def Let_def prod.case by linarith
  next
    case 2
    from block_before [OF this, of "w div cols"] show ?thesis unfolding boxes_apart_def cell_box_def Let_def prod.case by linarith
  next
    case 3
    from block_before [OF this, of "h div rows"] show ?thesis unfolding boxes_apart_def cell_box_def Let_def prod.case by linarith
  next
    case 4
    from block_before [OF this, of "h div rows"] show ?thesis unfolding boxes_apart_def cell_box_def Let_def prod.case by linarith
  qed
qed

text \<open>The cells cut from an image lie inside it and no two of them share a pixel.\<close>

theorem cells_inside_and_apart:
  assumes "i < j" and "j < length (split_boxes w h rows cols)"
  shows "inside_image w h (split_boxes w h rows cols ! i) \<and> inside_image w h (split_boxes w h rows cols ! j) \<and>
    boxes_apart (split_boxes w h rows cols ! i) (split_boxes w h rows cols ! j)"
  using assms by (simp add: split_boxes_def cell_box_inside cell_boxes_apart)

theorem cells_inside_and_apart_witness:
  "inside_image 1920 1080 (split_boxes 1920 1080 3 3 ! 2) \<and> inside_image 1920 1080 (split_boxes 1920 1080 3 3 ! 7) \<and>
    boxes_apart (split_boxes 1920 1080 3 3 ! 2) (split_boxes 1920 1080 3 3 ! 7)"
  by (rule cells_inside_and_apart) (simp_all add: split_boxes_def)

section \<open>Executing a grid task\<close>

lemma get_saved: "get_grid (save_grid g gs) i = (if i = gg_id g then Some (as_stored g) else get_grid gs i)"
  by (auto simp: get_grid_def save_grid_def row_simps as_stored_def split: option.splits)

lemma grid_outcome_keeps:
  assumes "grid_outcome valid prompt_of now stamp tm p run g w = (g', w', r)"
  shows "gg_id g' = gg_id g \<and> gw_grids w' = gw_grids w \<and> gg_scenes g' = gg_scenes g"
  using assms
  by (auto simp: grid_outcome_def grid_assign_def Let_def case_prod_beta
      split: if_splits provider_run.splits option.splits sum.splits)

lemma grid_outcome_error:
  assumes "grid_outcome valid prompt_of now stamp tm p run g w = (g', w', r)"
  shows "gg_error g' = gg_error g"
  using assms
  by (auto simp: grid_outcome_def grid_assign_def Let_def case_prod_beta
      split: if_splits provider_run.splits option.splits sum.splits)

lemma grid_outcome_cancelled:
  assumes "grid_outcome valid prompt_of now stamp tm p run g w = (g', w', r)"
  shows "r = Inl Grid_cancelled \<Longrightarrow> gg_status g' = gg_status g"
  using assms
  by (auto simp: grid_outcome_def grid_assign_def Let_def case_prod_beta
      split: if_splits provider_run.splits option.splits sum.splits)

text \<open>An executed grid task leaves its record settled: completed when it returns, and failed with the text of the
  error when it raises; only a cancellation leaves it in the middle, as generating. A record that does not exist
  changes nothing. The task keeps the scenes of the record, and every other record.\<close>

theorem grid_task_settles:
  "case execute_grid_task valid prompt_of now stamp tm p refs run err gid w of (w', r) \<Rightarrow>
     (case get_grid (gw_grids w) gid of
        None \<Rightarrow> w' = w \<and> r = Inl Grid_not_found
      | Some g \<Rightarrow>
          (\<exists>g'. get_grid (gw_grids w') gid = Some g' \<and> gg_scenes g' = gg_scenes g \<and>
             (case r of
                Inr g2 \<Rightarrow> g' = as_stored g2 \<and> gg_status g' = Grid_completed \<and> gg_error g' = None
              | Inl Grid_cancelled \<Rightarrow> gg_status g' = Grid_generating \<and> gg_error g' = None
              | Inl _ \<Rightarrow> gg_status g' = Grid_failed \<and> gg_error g' = Some err))) \<and>
     (\<forall>i. i = gid \<or> get_grid (gw_grids w') i = get_grid (gw_grids w) i)"
proof (cases "get_grid (gw_grids w) gid")
  case None
  then show ?thesis by (simp add: execute_grid_task_def)
next
  case (Some g)
  then have id: "gg_id g = gid" by (auto simp: get_grid_def dest: find_row_SomeD)
  let ?g = "g\<lparr>gg_status := Grid_generating, gg_error := None, gg_references := Some refs\<rparr>"
  obtain g1 w1 r where o: "grid_outcome valid prompt_of now stamp tm p run ?g w = (g1, w1, r)" by (metis prod_cases3)
  from grid_outcome_keeps [OF o] grid_outcome_error [OF o] grid_outcome_cancelled [OF o] id
  have k: "gg_id g1 = gid" "gw_grids w1 = gw_grids w" "gg_scenes g1 = gg_scenes g" "gg_error g1 = None"
    "r = Inl Grid_cancelled \<Longrightarrow> gg_status g1 = Grid_generating" by simp_all
  show ?thesis
    by (cases r) (auto simp: execute_grid_task_def Let_def Some o k get_saved as_stored_def split: grid_failure.split)
qed

lemma add_version_files:
  assumes "add_version s ty rid pr src md stamp tm = Inr (n, s')" and "\<not> in_versions q"
  shows "vs_files s' q = vs_files s q"
  using assms version_path_inside by (auto simp: add_version_def Let_def split: if_splits option.splits)

lemma ensure_tracked_files:
  assumes "ensure_current_tracked s ty rid f pr md stamp tm = Inr (n, s')" and "\<not> in_versions q"
  shows "vs_files s' q = vs_files s q"
  using assms by (auto simp: ensure_current_tracked_def split: if_splits sum.splits dest: add_version_files)

lemma cell_path_outside [simp]: "\<not> in_versions (cell_path sid)"
  by (simp add: in_versions_def cell_path_def)

lemma cell_path_inj [simp]: "cell_path a = cell_path b \<longleftrightarrow> a = b"
  by (simp add: cell_path_def)

lemma assign_cell_InrD:
  assumes "assign_cell gid stamp tm f sid cell st = Inr st'"
  shows "vs_files (cs_versions st') (cell_path q) = (if q = sid then Some cell else vs_files (cs_versions st) (cell_path q))"
  using assms
  by (auto simp: assign_cell_def Let_def bind_err_Inr_iff add_version_files ensure_tracked_files)

lemma assign_cells_keeps:
  assumes "assign_cells valid gid stamp tm cells fs st = Inr st'" and "q \<notin> set (List.map_filter cell_target fs)"
  shows "vs_files (cs_versions st') (cell_path q) = vs_files (cs_versions st) (cell_path q)"
  using assms
proof (induction valid gid stamp tm cells fs st rule: assign_cells.induct)
  case (1 valid gid stamp tm cell cells f fs st)
  then show ?case
    by (cases "cell_target f") (auto simp: map_filter_simps bind_err_Inr_iff assign_cell_InrD split: if_splits)
qed auto

lemma assign_cells_land:
  assumes "assign_cells valid gid stamp tm cells fs st = Inr st'" and "distinct (List.map_filter cell_target fs)"
    and "i < length fs" and "i < length cells" and "cell_target (fs ! i) = Some sid" and "sid \<in> valid"
  shows "vs_files (cs_versions st') (cell_path sid) = Some (cells ! i)"
  using assms
proof (induction valid gid stamp tm cells fs st arbitrary: i rule: assign_cells.induct)
  case (1 valid gid stamp tm cell cells f fs st)
  show ?case
  proof (cases i)
    case 0
    with 1 show ?thesis
      by (auto simp: map_filter_simps bind_err_Inr_iff assign_cell_InrD assign_cells_keeps)
  next
    case (Suc k)
    with 1 show ?thesis
      by (cases "cell_target f") (auto simp: map_filter_simps bind_err_Inr_iff split: if_splits)
  qed
qed auto

text \<open>The frames of a record are those it was created with, whatever images earlier runs have noted in them.\<close>

definition without_image :: "frame_cell \<Rightarrow> frame_cell" where
  "without_image f = f\<lparr>fc_image := None\<rparr>"

definition frames_planned :: "grid_generation \<Rightarrow> bool" where
  "frames_planned g = (map without_image (gg_chain g) = build_frame_chain (gg_scenes g) (gg_rows g) (gg_cols g))"

lemma created_planned: "frames_planned (create_grid new_id now e script ids rows cols gsize prompt)"
  by (simp add: frames_planned_def create_grid_def build_frame_chain_def without_image_def frame_at_def Let_def o_def)

lemma target_without_image [simp]: "cell_target (without_image f) = cell_target f"
  by (simp add: cell_target_def without_image_def)

lemma targets_without_image: "List.map_filter cell_target (map without_image fs) = List.map_filter cell_target fs"
  by (induction fs) (simp_all add: map_filter_simps split: option.split)

lemma assign_cells_frames:
  "assign_cells valid gid stamp tm cells fs st = Inr st' \<Longrightarrow>
     map without_image (cs_frames st') = map without_image (cs_frames st) @ map without_image fs"
proof (induction valid gid stamp tm cells fs st rule: assign_cells.induct)
  case (1 valid gid stamp tm cell cells f fs st)
  have "map without_image (cs_frames st1) = map without_image (cs_frames st) @ [without_image f]"
    if "assign_cell gid (stamp (fc_index f)) (tm (fc_index f)) f sid cell st = Inr st1" for sid st1
    using that by (auto simp: assign_cell_def Let_def bind_err_Inr_iff without_image_def)
  with 1 show ?case
    by (cases "cell_target f") (auto simp: bind_err_Inr_iff split: if_splits)
qed auto

lemma planned_target:
  assumes "scene_names_ok (gg_scenes g)" and "frames_planned g"
    and "i < gg_rows g * gg_cols g" and "i < length (gg_scenes g)"
  shows "i < length (gg_chain g) \<and> cell_target (gg_chain g ! i) = Some (gg_scenes g ! i)"
proof -
  from assms(2) have e: "map without_image (gg_chain g) = build_frame_chain (gg_scenes g) (gg_rows g) (gg_cols g)"
    by (simp add: frames_planned_def)
  then have "length (map without_image (gg_chain g)) = gg_rows g * gg_cols g" by (simp add: build_frame_chain_def)
  then have l: "i < length (gg_chain g)" using assms(3) by simp
  then have "cell_target (gg_chain g ! i) = cell_target (map without_image (gg_chain g) ! i)" by simp
  also have "\<dots> = Some (gg_scenes g ! i)"
    unfolding e using assms(1,3,4) by (simp add: build_frame_chain_def scene_names_ok_def frame_target)
  finally show ?thesis using l by simp
qed

text \<open>C27. A completed grid task has delivered its scenes. Take a record whose frames are those it was created with, apart from
  the images an earlier run has noted in them, and whose scenes have distinct and non-empty names. When the provider gave
  the cells and the task completes, every scene of the grid that the script still has, and that has a cell, finds exactly
  its own cell in its storyboard file; and the frames of the record it leaves are again those it was created with, so
  that the same holds when the grid is generated again.\<close>

theorem grid_task_delivers:
  assumes "get_grid (gw_grids w) gid = Some g" and "frames_planned g"
    and "scene_names_ok (gg_scenes g)" and "distinct (gg_scenes g)"
    and "execute_grid_task valid prompt_of now stamp tm p refs (Cells provider model cells) err gid w = (w', Inr g')"
    and "load_script (gw_project w) (gg_script g) = Inr script" and "resolve_items script = Inr (items, idf, kind)"
    and "i < length cells" and "i < gg_rows g * gg_cols g" and "i < length (gg_scenes g)"
    and "gg_scenes g ! i \<in> set (existing_ids items idf)"
  shows "vs_files (gw_versions w') (cell_path (gg_scenes g ! i)) = Some (cells ! i) \<and>
    frames_planned g' \<and> gg_scenes g' = gg_scenes g"
proof -
  from assms(1) have id: "gg_id g = gid" by (auto simp: get_grid_def dest: find_row_SomeD)
  from assms(1,5,6,7) obtain st where st: "assign_cells (set (existing_ids items idf)) gid stamp tm cells (gg_chain g)
      \<lparr>cs_versions = gw_versions w, cs_frames = [], cs_updates = [], cs_missing = []\<rparr> = Inr st"
    and v: "gw_versions w' = cs_versions st" and g': "gg_chain g' = cs_frames st" "gg_scenes g' = gg_scenes g"
      "gg_rows g' = gg_rows g" "gg_cols g' = gg_cols g"
    by (auto simp: execute_grid_task_def grid_outcome_def grid_assign_def Let_def id case_prod_beta
        split: if_splits sum.splits)
  have "List.map_filter cell_target (gg_chain g) = take (gg_rows g * gg_cols g) (gg_scenes g)"
    using assms(2,3) chain_targets [of "gg_scenes g" "gg_rows g" "gg_cols g"] targets_without_image [of "gg_chain g"]
    by (simp add: frames_planned_def scene_names_ok_def)
  then have d: "distinct (List.map_filter cell_target (gg_chain g))" using assms(4) by simp
  have "frames_planned g'" using assms(2) assign_cells_frames [OF st] g' by (simp add: frames_planned_def)
  with assign_cells_land [OF st d _ assms(8) _ assms(11)] planned_target [OF assms(3,2,9,10)] v g'(2) show ?thesis
    by simp
qed

text \<open>A cancelled grid task is never settled: its record stays generating, and a later request for the same
  group does not replace it.\<close>

theorem cancelled_grid_stays:
  assumes "get_grid (gw_grids w) gid = Some g" and "some_text p (coalesce (gg_prompt g) []) \<noteq> []"
    and "execute_grid_task valid prompt_of now stamp tm p refs (Cancelled c) err gid w = (w', r)"
  shows "r = Inl Grid_cancelled \<and>
    (\<exists>g'. get_grid (gw_grids w') gid = Some g' \<and> gg_status g' = Grid_generating \<and>
       \<not> replaces (gg_episode g') (gg_script g') (gg_scenes g') g')"
proof -
  from assms(1) have id: "gg_id g = gid" by (auto simp: get_grid_def dest: find_row_SomeD)
  with assms show ?thesis
    by (auto simp: execute_grid_task_def grid_outcome_def Let_def get_saved as_stored_def replaces_def split: option.splits prod.splits)
qed

section \<open>Examples\<close>

definition ten_scenes :: "string list" where
  "ten_scenes = map (\<lambda>i. ''E1S'' @ show_nat i) [1..<11]"

theorem router_covers_scenes_witness:
  "\<exists>new gs'. router_grids (\<lambda>i. ''grid_'' @ show_nat i) ''now'' 1 ''e.json'' ''9:16'' (\<lambda>_. ''p'') [ten_scenes, [''X'']] [] = Inr (new, gs') \<and>
     concat (map targets new) = ten_scenes @ [''X'']"
proof -
  let ?r = "router_grids (\<lambda>i. ''grid_'' @ show_nat i) ''now'' 1 ''e.json'' ''9:16'' (\<lambda>_. ''p'') [ten_scenes, [''X'']] []"
  have "\<not> isl ?r" by code_simp
  then obtain new gs' where r: "?r = Inr (new, gs')" by (cases ?r) auto
  have "\<forall>ids\<in>set [ten_scenes, [''X'']]. scene_names_ok ids"
    by (simp add: ten_scenes_def scene_names_ok_def)
  from router_covers_scenes [OF r this] r show ?thesis by auto
qed

theorem tool_loses_scenes_witness:
  "\<exists>g gs'. tool_grids (\<lambda>i. ''grid_'' @ show_nat i) ''now'' 1 ''e.json'' ''9:16'' (\<lambda>_. ''p'') [ten_scenes] [] = Inr ([g], gs') \<and>
     gg_scenes g = ten_scenes \<and> targets g \<noteq> ten_scenes"
proof -
  let ?r = "tool_grids (\<lambda>i. ''grid_'' @ show_nat i) ''now'' 1 ''e.json'' ''9:16'' (\<lambda>_. ''p'') [ten_scenes] []"
  have "\<not> isl ?r" by code_simp
  then obtain new gs' where r: "?r = Inr (new, gs')" by (cases ?r) auto
  have "scene_names_ok ten_scenes" "9 < length ten_scenes"
    by (simp_all add: ten_scenes_def scene_names_ok_def)
  from tool_loses_scenes [OF r this] r show ?thesis by auto
qed

definition film_grid :: grid_generation where
  "film_grid = create_grid ''grid_1'' ''now'' 2 ''episode_2.json'' [''E2S1'', ''E2S2''] 2 2 ''grid_4'' (Some ''p'')"

definition film_world :: grid_world where
  "film_world = \<lparr>gw_grids = [film_grid], gw_project = film_store,
     gw_versions = empty_versions (\<lambda>p. if p = ''storyboards/scene_E2S1.png'' then Some ''old'' else None)\<rparr>"

definition film_run :: "grid_world \<times> (grid_failure + grid_generation)" where
  "film_run = execute_grid_task (\<lambda>_. True) (\<lambda>_. []) ''t'' (\<lambda>_. ''s'') (\<lambda>_. ''t'') None []
     (Cells ''gemini'' ''image'' [''A'', ''B'', ''C'', ''D'']) ''error'' ''grid_1'' film_world"

theorem grid_task_delivers_witness:
  "vs_files (gw_versions (fst film_run)) ''storyboards/scene_E2S2.png'' = Some ''B''"
proof -
  have g: "get_grid (gw_grids film_world) ''grid_1'' = Some film_grid"
    by (simp add: film_world_def film_grid_def create_grid_def get_grid_def row_simps)
  have c: "gg_scenes film_grid = [''E2S1'', ''E2S2'']"
    "gg_script film_grid = ''episode_2.json''" "gw_project film_world = film_store" "gg_rows film_grid = 2" "gg_cols film_grid = 2"
    by (simp_all add: film_grid_def create_grid_def film_world_def)
  have f: "frames_planned film_grid" unfolding film_grid_def by (rule created_planned)
  have "\<not> isl (snd film_run)" by code_simp
  then obtain w' g' where r: "film_run = (w', Inr g')" by (metis isl_def prod.collapse sum.exhaust)
  have l: "load_script film_store ''episode_2.json'' = Inr film_script"
    by (simp add: load_script_def film_store_def script_base_def)
  obtain items where items: "resolve_items film_script = Inr (items, ''segment_id'', ''segments'')"
    and ids: "existing_ids items ''segment_id'' = [''E2S1'', ''E2S2'']"
    by (simp add: resolve_items_def resolve_kind_def film_script_def dict_has_def dict_ref_def dict_get_def Let_def
        kind_id_field_def json_id_def)
  have s: "scene_names_ok (gg_scenes film_grid)" by (simp add: c scene_names_ok_def)
  have "distinct (gg_scenes film_grid)" by (simp add: c)
  from grid_task_delivers [OF g f s this r [unfolded film_run_def], unfolded c, OF l items, of 1] show ?thesis
    by (simp add: ids r cell_path_def)
qed

theorem cancelled_grid_stays_witness:
  "\<exists>g'. get_grid (gw_grids (fst (execute_grid_task (\<lambda>_. True) (\<lambda>_. []) ''t'' (\<lambda>_. ''s'') (\<lambda>_. ''t'') None []
          (Cancelled (Some (''gemini'', ''image''))) ''error'' ''grid_1'' film_world))) ''grid_1'' = Some g' \<and>
        gg_status g' = Grid_generating"
proof -
  let ?r = "execute_grid_task (\<lambda>_. True) (\<lambda>_. []) ''t'' (\<lambda>_. ''s'') (\<lambda>_. ''t'') None []
          (Cancelled (Some (''gemini'', ''image''))) ''error'' ''grid_1'' film_world"
  have g: "get_grid (gw_grids film_world) ''grid_1'' = Some film_grid"
    by (simp add: film_world_def film_grid_def create_grid_def get_grid_def row_simps)
  have "some_text None (coalesce (gg_prompt film_grid) []) \<noteq> []" by code_simp
  from cancelled_grid_stays [OF g this, of "\<lambda>_. True" "\<lambda>_. []" "''t''" "\<lambda>_. ''s''" "\<lambda>_. ''t''" "[]"
      "Some (''gemini'', ''image'')" "''error''" "fst ?r" "snd ?r"] show ?thesis by auto
qed

end
