(* ===== verification/SessionActor.thy ===== *)
theory SessionActor
  imports Prelude
begin

text \<open>
  The actor of a session (\<open>server/agent_runtime/session_actor.py\<close>): one task that owns the client of the
  SDK and works off a queue of commands while it drains the messages of a running query. What the
  client does is an argument of the steps: whether a call succeeds, fails or is cancelled. A command is
  its number and kind; the two events callers wait for are the sets of numbers that are sent and done.
\<close>

datatype command_kind = Query | Interrupt | Disconnect

record command =
  cm_id :: nat
  cm_kind :: command_kind

text \<open>What the task that receives messages returns.\<close>

datatype msg_event = Message string | Stream_end | Stream_error

text \<open>
  Where the actor is: connecting, waiting for a command, driving a query, or gone. While it drives, it
  holds the query that waits for its turn and what its two tasks, the next message and the next command,
  have returned.
\<close>

datatype phase =
    Starting
  | Waiting
  | Driving command "command option" "msg_event option" "command option"
  | Stopped

datatype outcome = Fine | Failed | Cancelled_call

record actor =
  sa_phase :: phase
  sa_queue :: "command list"
  sa_sent :: "nat set"
  sa_done :: "nat set"
  sa_failed :: "nat set"
  sa_heard :: "string list"

definition new_actor :: actor where
  "new_actor = \<lparr>sa_phase = Starting, sa_queue = [], sa_sent = {}, sa_done = {}, sa_failed = {}, sa_heard = []\<rparr>"

section \<open>Operations\<close>

definition complete_command :: "bool \<Rightarrow> command \<Rightarrow> actor \<Rightarrow> actor" where
  "complete_command err c a =
     a\<lparr>sa_sent := insert (cm_id c) (sa_sent a), sa_done := insert (cm_id c) (sa_done a),
       sa_failed := (if err then insert (cm_id c) (sa_failed a) else sa_failed a)\<rparr>"

definition complete_open :: "command \<Rightarrow> actor \<Rightarrow> actor" where
  "complete_open c a = (if cm_id c \<in> sa_done a then a else complete_command True c a)"

definition drain_pending_commands :: "actor \<Rightarrow> actor" where
  "drain_pending_commands a = (fold complete_open (sa_queue a) a)\<lparr>sa_queue := []\<rparr>"

definition stop_actor :: "actor \<Rightarrow> actor" where
  "stop_actor a = (drain_pending_commands a)\<lparr>sa_phase := Stopped\<rparr>"

text \<open>One turn of the command loop with a command in hand; the flag says whether the query reaches the SDK.\<close>

definition handle_command :: "bool \<Rightarrow> command \<Rightarrow> actor \<Rightarrow> actor" where
  "handle_command ok c a =
     (case cm_kind c of
        Disconnect \<Rightarrow> stop_actor (complete_command False c a)
      | Interrupt \<Rightarrow> (complete_command False c a)\<lparr>sa_phase := Waiting\<rparr>
      | Query \<Rightarrow>
          if ok then a\<lparr>sa_sent := insert (cm_id c) (sa_sent a), sa_phase := Driving c None None None\<rparr>
          else stop_actor (complete_command True c a))"

text \<open>Leaving the query answers the one that waits behind it; an exception also answers the query and ends the actor.\<close>

definition release_pending :: "command option \<Rightarrow> actor \<Rightarrow> actor" where
  "release_pending p a = (case p of None \<Rightarrow> a | Some c \<Rightarrow> complete_open c a)"

definition abort_query :: "command \<Rightarrow> command option \<Rightarrow> actor \<Rightarrow> actor" where
  "abort_query q p a = stop_actor (complete_command True q (release_pending p a))"

definition wake_command ::
  "outcome \<Rightarrow> bool \<Rightarrow> command \<Rightarrow> command option \<Rightarrow> command option \<Rightarrow> actor \<Rightarrow> actor" where
  "wake_command out ok q p slot a =
     (case slot of
        None \<Rightarrow> a\<lparr>sa_phase := Driving q p None None\<rparr>
      | Some c \<Rightarrow>
          (case cm_kind c of
             Interrupt \<Rightarrow>
               (let a1 = complete_command (out = Failed) c a
                in if out = Fine then a1\<lparr>sa_phase := Driving q p None None\<rparr> else abort_query q p a1)
           | Disconnect \<Rightarrow>
               if out = Fine
               then handle_command ok c (release_pending p (a\<lparr>sa_done := insert (cm_id q) (sa_done a)\<rparr>))
               else abort_query q p a
           | Query \<Rightarrow>
               (case p of
                  Some _ \<Rightarrow> (complete_command True c a)\<lparr>sa_phase := Driving q p None None\<rparr>
                | None \<Rightarrow> a\<lparr>sa_phase := Driving q (Some c) None None\<rparr>)))"

text \<open>
  One pass of the loop of a query: the message first, then the command. The flags say whether the callback
  accepts the message, how a call of \<open>interrupt\<close> ends, and whether a query that is taken up reaches the SDK.
\<close>

definition wake ::
  "bool \<Rightarrow> outcome \<Rightarrow> bool \<Rightarrow> command \<Rightarrow> command option \<Rightarrow> msg_event option \<Rightarrow> command option \<Rightarrow> actor \<Rightarrow> actor" where
  "wake accepted out ok q p m slot a =
     (case m of
        None \<Rightarrow> wake_command out ok q p slot a
      | Some (Message t) \<Rightarrow>
          if accepted then wake_command out ok q p slot (a\<lparr>sa_heard := sa_heard a @ [t]\<rparr>) else abort_query q p a
      | Some Stream_error \<Rightarrow> abort_query q p a
      | Some Stream_end \<Rightarrow>
          (let a1 = a\<lparr>sa_done := insert (cm_id q) (sa_done a)\<rparr>
           in case p of
                Some c \<Rightarrow>
                  handle_command ok c (a1\<lparr>sa_queue := sa_queue a @ (case slot of None \<Rightarrow> [] | Some d \<Rightarrow> [d])\<rparr>)
              | None \<Rightarrow> (case slot of Some d \<Rightarrow> handle_command ok d a1 | None \<Rightarrow> a1\<lparr>sa_phase := Waiting\<rparr>)))"

section \<open>Runs\<close>

datatype actor_event =
    Enqueue command
  | Connected bool
  | Take bool
  | Message_in msg_event
  | Command_in
  | Wake bool outcome bool
  | Cancel

definition enqueue_command :: "command \<Rightarrow> actor \<Rightarrow> actor" where
  "enqueue_command c a =
     (if sa_phase a = Stopped then complete_command True c a else a\<lparr>sa_queue := sa_queue a @ [c]\<rparr>)"

definition cancel_actor :: "actor \<Rightarrow> actor" where
  "cancel_actor a =
     (case sa_phase a of Driving q p m slot \<Rightarrow> abort_query q p a | Stopped \<Rightarrow> a | _ \<Rightarrow> stop_actor a)"

text \<open>An event that cannot happen in the state is None.\<close>

fun actor_event_step :: "actor_event \<Rightarrow> actor \<Rightarrow> actor option" where
  "actor_event_step (Enqueue c) a = Some (enqueue_command c a)"
| "actor_event_step (Connected ok) a =
     (if sa_phase a = Starting then Some (if ok then a\<lparr>sa_phase := Waiting\<rparr> else stop_actor a) else None)"
| "actor_event_step (Take ok) a =
     (case (sa_phase a, sa_queue a) of
        (Waiting, c # q) \<Rightarrow> Some (handle_command ok c (a\<lparr>sa_queue := q\<rparr>)) | _ \<Rightarrow> None)"
| "actor_event_step (Message_in e) a =
     (case sa_phase a of Driving q p None slot \<Rightarrow> Some (a\<lparr>sa_phase := Driving q p (Some e) slot\<rparr>) | _ \<Rightarrow> None)"
| "actor_event_step Command_in a =
     (case (sa_phase a, sa_queue a) of
        (Driving q p m None, c # cs) \<Rightarrow> Some (a\<lparr>sa_phase := Driving q p m (Some c), sa_queue := cs\<rparr>) | _ \<Rightarrow> None)"
| "actor_event_step (Wake accepted out ok) a =
     (case sa_phase a of
        Driving q p m slot \<Rightarrow>
          if m = None \<and> slot = None then None else Some (wake accepted out ok q p m slot a)
      | _ \<Rightarrow> None)"
| "actor_event_step Cancel a = Some (cancel_actor a)"

fun actor_run :: "actor_event list \<Rightarrow> actor \<Rightarrow> actor option" where
  "actor_run [] a = Some a"
| "actor_run (e # es) a = Option.bind (actor_event_step e a) (actor_run es)"

text \<open>The commands callers have put in, and those the actor still has in its hands.\<close>

fun put_in :: "actor_event list \<Rightarrow> nat list" where
  "put_in [] = []"
| "put_in (Enqueue c # es) = cm_id c # put_in es"
| "put_in (_ # es) = put_in es"

definition in_phase :: "phase \<Rightarrow> nat set" where
  "in_phase ph =
     (case ph of Driving q p m slot \<Rightarrow> insert (cm_id q) (cm_id ` (set_option p \<union> set_option slot)) | _ \<Rightarrow> {})"

definition in_hand :: "actor \<Rightarrow> nat set" where
  "in_hand a = cm_id ` set (sa_queue a) \<union> in_phase (sa_phase a)"

text \<open>
  The command an event drops: it has left the queue, and the exception that ends the actor passes it by.
  This happens to a command that arrives together with a failing message, or whose actor is cancelled
  at that moment, and to a disconnect whose interrupt of the running query fails.
\<close>

definition drops :: "actor_event \<Rightarrow> actor \<Rightarrow> nat set" where
  "drops e a =
     (case (sa_phase a, e) of
        (Driving q p m (Some c), Cancel) \<Rightarrow> {cm_id c}
      | (Driving q p m (Some c), Wake accepted out ok) \<Rightarrow>
          if m = Some Stream_end then {}
          else if m = Some Stream_error \<or> m \<noteq> None \<and> \<not> accepted \<or> cm_kind c = Disconnect \<and> out \<noteq> Fine
          then {cm_id c} else {}
      | _ \<Rightarrow> {})"

fun dropped :: "actor_event list \<Rightarrow> actor \<Rightarrow> nat set" where
  "dropped [] a = {}"
| "dropped (e # es) a = drops e a \<union> (case actor_event_step e a of None \<Rightarrow> {} | Some b \<Rightarrow> dropped es b)"

section \<open>Every command is answered, unless it is dropped\<close>

lemma complete_simps [simp]:
  "sa_done (complete_command e c a) = insert (cm_id c) (sa_done a)"
  "sa_sent (complete_command e c a) = insert (cm_id c) (sa_sent a)"
  "sa_queue (complete_command e c a) = sa_queue a" "sa_phase (complete_command e c a) = sa_phase a"
  "sa_done (complete_open c a) = insert (cm_id c) (sa_done a)"
  "sa_queue (complete_open c a) = sa_queue a"
  by (auto simp: complete_command_def complete_open_def)

lemma fold_open [simp]:
  "sa_done (fold complete_open cs a) = cm_id ` set cs \<union> sa_done a"
  "sa_queue (fold complete_open cs a) = sa_queue a"
  by (induction cs arbitrary: a) auto

lemma stop_simps [simp]:
  "sa_done (stop_actor a) = cm_id ` set (sa_queue a) \<union> sa_done a"
  "sa_queue (stop_actor a) = []" "sa_phase (stop_actor a) = Stopped"
  by (simp_all add: stop_actor_def drain_pending_commands_def)

lemma release_simps [simp]:
  "sa_done (release_pending p a) = cm_id ` set_option p \<union> sa_done a"
  "sa_queue (release_pending p a) = sa_queue a"
  by (auto simp: release_pending_def split: option.splits)

definition answered :: "actor \<Rightarrow> nat set" where
  "answered a = sa_done a \<union> in_hand a"

lemmas answered_defs = answered_def in_hand_def in_phase_def

lemma handle_answered: "answered (handle_command ok c a) = insert (cm_id c) (sa_done a \<union> cm_id ` set (sa_queue a))"
  by (auto simp: answered_defs handle_command_def split: command_kind.splits)

lemma abort_answered: "answered (abort_query q p a) = insert (cm_id q) (sa_done a \<union> cm_id ` set (sa_queue a) \<union> cm_id ` set_option p)"
  by (auto simp: answered_defs abort_query_def)

lemma wake_command_answered:
  "answered (wake_command out ok q p slot a) \<union>
     (case slot of Some c \<Rightarrow> if cm_kind c = Disconnect \<and> out \<noteq> Fine then {cm_id c} else {} | None \<Rightarrow> {}) =
   sa_done a \<union> cm_id ` set (sa_queue a) \<union> insert (cm_id q) (cm_id ` (set_option p \<union> set_option slot))"
  by (cases slot)
    (auto simp: wake_command_def Let_def handle_answered abort_answered split: command_kind.splits option.splits,
     auto simp: answered_defs)

lemma step_answered:
  assumes "actor_event_step e a = Some b"
  shows "answered b \<union> drops e a = answered a \<union> set (put_in [e])"
proof (cases e)
  case (Wake accepted out ok)
  with assms obtain q p m slot where ph: "sa_phase a = Driving q p m slot" and b: "b = wake accepted out ok q p m slot a"
    by (auto split: phase.splits if_splits)
  note w = wake_command_answered [of out ok q p slot]
  show ?thesis
  proof (cases m)
    case None
    with w [of a] ph b Wake show ?thesis
      by (cases slot) (simp_all add: wake_def drops_def answered_defs Un_assoc)
  next
    case (Some e')
    show ?thesis
    proof (cases e')
      case (Message t)
      with Some w [of "a\<lparr>sa_heard := sa_heard a @ [t]\<rparr>"] ph b Wake show ?thesis
        by (cases slot; cases accepted) (simp_all add: wake_def drops_def abort_answered, auto simp: answered_defs)
    next
      case Stream_end
      with Some ph b Wake show ?thesis
        by (cases p; cases slot) (simp_all add: wake_def drops_def handle_answered Let_def, auto simp: answered_defs)
    next
      case Stream_error
      with Some ph b Wake show ?thesis
        by (cases slot) (simp_all add: wake_def drops_def abort_answered, auto simp: answered_defs)
    qed
  qed
next
  case (Take ok)
  with assms obtain c q where "sa_phase a = Waiting" "sa_queue a = c # q" "b = handle_command ok c (a\<lparr>sa_queue := q\<rparr>)"
    by (auto split: phase.splits list.splits)
  with Take show ?thesis by (simp add: handle_answered drops_def) (auto simp: answered_defs)
next
  case Cancel
  with assms have "b = cancel_actor a" by simp
  with Cancel show ?thesis
    by (cases "sa_phase a") (simp_all add: cancel_actor_def abort_answered drops_def, auto simp: answered_defs split: option.splits)
qed (use assms in \<open>auto simp: answered_defs drops_def enqueue_command_def split: phase.splits option.splits list.splits if_splits\<close>)

lemma run_answered: "actor_run es a = Some b \<Longrightarrow> answered b \<union> dropped es a = answered a \<union> set (put_in es)"
proof (induction es arbitrary: a)
  case (Cons e es)
  then obtain c where c: "actor_event_step e a = Some c" "actor_run es c = Some b" by (auto split: bind_splits)
  have "set (put_in (e # es)) = set (put_in [e]) \<union> set (put_in es)" by (cases e) auto
  with Cons.IH [OF c(2)] step_answered [OF c(1)] c(1) show ?case by auto
qed simp

section \<open>Commands are unique, and who is done is also sent\<close>

definition opt_ids :: "command option \<Rightarrow> nat list" where
  "opt_ids c = (case c of None \<Rightarrow> [] | Some c \<Rightarrow> [cm_id c])"

lemma opt_ids_simps [simp]: "opt_ids None = []" "opt_ids (Some c) = [cm_id c]"
  by (simp_all add: opt_ids_def)

definition hand_ids :: "actor \<Rightarrow> nat list" where
  "hand_ids a =
     (case sa_phase a of Driving q p m slot \<Rightarrow> cm_id q # opt_ids p @ opt_ids slot | _ \<Rightarrow> []) @ map cm_id (sa_queue a)"

definition done_sent :: "actor \<Rightarrow> bool" where
  "done_sent a = (sa_done a \<subseteq> sa_sent a)"

definition actor_ok :: "actor \<Rightarrow> bool" where
  "actor_ok a =
     (distinct (hand_ids a) \<and> set (hand_ids a) \<inter> sa_done a = {} \<and> done_sent a \<and>
      (case sa_phase a of Driving q _ _ _ \<Rightarrow> cm_id q \<in> sa_sent a | Stopped \<Rightarrow> sa_queue a = [] | _ \<Rightarrow> True))"

lemma done_sent_simps [simp]:
  "done_sent a \<Longrightarrow> done_sent (complete_command e c a)" "done_sent a \<Longrightarrow> done_sent (complete_open c a)"
  by (auto simp: done_sent_def complete_open_def)

lemma done_sent_stop [simp]: "done_sent a \<Longrightarrow> done_sent (stop_actor a)"
proof -
  assume "done_sent a"
  then have "done_sent (fold complete_open cs a)" for cs by (induction cs arbitrary: a) simp_all
  from this [of "sa_queue a"] show ?thesis
    by (simp add: stop_actor_def drain_pending_commands_def done_sent_def)
qed

lemma done_sent_release [simp]: "done_sent a \<Longrightarrow> done_sent (release_pending p a)"
  by (cases p) (simp_all add: release_pending_def)

lemma stopped_ok [simp]: "actor_ok (stop_actor a) \<longleftrightarrow> done_sent (stop_actor a)"
  by (simp add: actor_ok_def hand_ids_def)

lemma abort_ok: "done_sent a \<Longrightarrow> actor_ok (abort_query q p a)"
  by (simp add: abort_query_def)

lemma handle_ok:
  assumes "distinct (cm_id c # map cm_id (sa_queue a))" and "(insert (cm_id c) (cm_id ` set (sa_queue a))) \<inter> sa_done a = {}"
    and "done_sent a"
  shows "actor_ok (handle_command ok c a)"
proof (cases "cm_kind c = Disconnect \<or> cm_kind c = Query \<and> \<not> ok")
  case True
  with assms(3) show ?thesis by (auto simp: handle_command_def)
next
  case False
  with assms show ?thesis
    by (cases "cm_kind c") (auto simp: handle_command_def actor_ok_def hand_ids_def done_sent_def)
qed

lemma wake_command_ok:
  assumes "actor_ok (a\<lparr>sa_phase := Driving q p None slot\<rparr>)"
  shows "actor_ok (wake_command out ok q p slot a)"
proof (cases slot)
  case None
  with assms show ?thesis by (simp add: wake_command_def)
next
  case (Some c)
  from assms have s: "done_sent a" by (simp add: actor_ok_def done_sent_def)
  from assms Some have q: "cm_id q \<in> sa_sent a" by (simp add: actor_ok_def)
  show ?thesis
  proof (cases "cm_kind c")
    case Query
    with assms Some s show ?thesis
      by (cases p) (auto simp: wake_command_def actor_ok_def hand_ids_def done_sent_def)
  next
    case Interrupt
    show ?thesis
    proof (cases "out = Fine")
      case True
      with Interrupt assms Some s show ?thesis
        by (cases p) (auto simp: wake_command_def Let_def actor_ok_def hand_ids_def done_sent_def)
    next
      case False
      with Interrupt Some s show ?thesis by (simp add: wake_command_def Let_def abort_ok)
    qed
  next
    case Disconnect
    let ?r = "release_pending p (a\<lparr>sa_done := insert (cm_id q) (sa_done a)\<rparr>)"
    have "done_sent (a\<lparr>sa_done := insert (cm_id q) (sa_done a)\<rparr>)" using s q by (simp add: done_sent_def)
    then have "done_sent ?r" by simp
    with Disconnect Some s show ?thesis
      by (cases "out = Fine") (simp_all add: wake_command_def abort_ok handle_command_def)
  qed
qed

lemma wake_ok:
  assumes "actor_ok a" and "sa_phase a = Driving q p m slot"
  shows "actor_ok (wake accepted out ok q p m slot a)"
proof -
  from assms have s: "done_sent a" "cm_id q \<in> sa_sent a" by (simp_all add: actor_ok_def)
  have w: "actor_ok (wake_command out ok q p slot (a\<lparr>sa_heard := h\<rparr>))" for h
    by (rule wake_command_ok) (use assms in \<open>auto simp: actor_ok_def hand_ids_def done_sent_def split: option.splits\<close>)
  show ?thesis
  proof (cases m)
    case None
    with w [of "sa_heard a"] show ?thesis by (simp add: wake_def)
  next
    case (Some e)
    show ?thesis
    proof (cases e)
      case (Message t)
      with Some w s show ?thesis by (simp add: wake_def abort_ok)
    next
      case Stream_end
      have e: "done_sent (a\<lparr>sa_done := insert (cm_id q) (sa_done a), sa_queue := cs\<rparr>)" for cs
        using s by (simp add: done_sent_def)
      have h: "actor_ok (handle_command ok c (a\<lparr>sa_done := insert (cm_id q) (sa_done a), sa_queue := cs\<rparr>))"
        if "distinct (cm_id q # cm_id c # map cm_id cs)" "set (cm_id q # cm_id c # map cm_id cs) \<inter> sa_done a = {}" for c cs
        using that by (intro handle_ok e) auto
      have d: "distinct (hand_ids a)" "set (hand_ids a) \<inter> sa_done a = {}" using assms(1) by (simp_all add: actor_ok_def)
      show ?thesis
      proof (cases p)
        case (Some c)
        with h [of c "sa_queue a @ (case slot of None \<Rightarrow> [] | Some d \<Rightarrow> [d])"] d assms(2) show ?thesis
          by (cases slot) (auto simp: wake_def \<open>m = Some e\<close> Stream_end Let_def hand_ids_def)
      next
        case None
        show ?thesis
        proof (cases slot)
          case (Some d)
          with h [of d "sa_queue a"] None d assms(2) show ?thesis
            by (auto simp: wake_def \<open>m = Some e\<close> Stream_end Let_def hand_ids_def)
        next
          case none: None
          from e [of "sa_queue a"] None none assms show ?thesis
            by (simp add: wake_def \<open>m = Some e\<close> Stream_end Let_def actor_ok_def hand_ids_def done_sent_def)
        qed
      qed
    next
      case Stream_error
      with Some s show ?thesis by (simp add: wake_def abort_ok)
    qed
  qed
qed

lemma step_ok:
  assumes "actor_event_step e a = Some b" and "actor_ok a" and "\<forall>i\<in>set (put_in [e]). i \<notin> answered a"
  shows "actor_ok b"
proof (cases e)
  case (Wake accepted out ok)
  with assms show ?thesis by (auto simp: wake_ok split: phase.splits if_splits)
next
  case (Take ok)
  with assms obtain c q where "sa_phase a = Waiting" "sa_queue a = c # q" "b = handle_command ok c (a\<lparr>sa_queue := q\<rparr>)"
    by (auto split: phase.splits list.splits)
  moreover have "actor_ok (handle_command ok c (a\<lparr>sa_queue := q\<rparr>))"
    using assms(2) calculation by (intro handle_ok) (auto simp: actor_ok_def hand_ids_def done_sent_def)
  ultimately show ?thesis by simp
next
  case Cancel
  with assms(1) have "b = cancel_actor a" by simp
  moreover from assms(2) have "done_sent a" by (simp add: actor_ok_def)
  ultimately show ?thesis using assms(2) by (cases "sa_phase a") (simp_all add: cancel_actor_def abort_ok)
next
  case (Connected ok)
  with assms have b: "b = (if ok then a\<lparr>sa_phase := Waiting\<rparr> else stop_actor a)" "sa_phase a = Starting"
    by (simp_all split: if_splits)
  from assms(2) have "done_sent a" by (simp add: actor_ok_def)
  with b assms(2) show ?thesis by (cases ok) (simp_all, simp add: actor_ok_def hand_ids_def done_sent_def)
next
  case (Enqueue c)
  with assms(1) have b: "b = enqueue_command c a" by simp
  have h: "set (hand_ids a) \<union> sa_done a = answered a"
    by (cases "sa_phase a") (auto simp: hand_ids_def answered_defs opt_ids_def split: option.splits)
  show ?thesis
  proof (cases "sa_phase a = Stopped")
    case True
    with assms(2) b show ?thesis by (auto simp: enqueue_command_def actor_ok_def hand_ids_def done_sent_def)
  next
    case False
    then have "hand_ids b = hand_ids a @ [cm_id c]" "sa_phase b = sa_phase a" "sa_done b = sa_done a" "sa_sent b = sa_sent a"
      by (cases "sa_phase a"; simp add: b enqueue_command_def hand_ids_def)+
    with assms(2,3) Enqueue h False show ?thesis
      by (auto simp: actor_ok_def done_sent_def split: phase.splits)
  qed
next
  case Command_in
  with assms obtain q p m c cs where "sa_phase a = Driving q p m None" "sa_queue a = c # cs"
    "b = a\<lparr>sa_phase := Driving q p m (Some c), sa_queue := cs\<rparr>"
    by (auto split: phase.splits list.splits option.splits)
  with assms(2) show ?thesis by (cases p) (auto simp: actor_ok_def hand_ids_def done_sent_def)
next
  case (Message_in m)
  with assms obtain q p slot where "sa_phase a = Driving q p None slot" "b = a\<lparr>sa_phase := Driving q p (Some m) slot\<rparr>"
    by (auto split: phase.splits list.splits option.splits)
  with assms(2) show ?thesis by (cases p; cases slot) (auto simp: actor_ok_def hand_ids_def done_sent_def)
qed

lemma new_actor_ok: "actor_ok new_actor" and new_actor_answered: "answered new_actor = {}"
  by (simp_all add: actor_ok_def new_actor_def hand_ids_def done_sent_def answered_defs)

lemma actor_run_append: "actor_run (es @ fs) a = Option.bind (actor_run es a) (actor_run fs)"
  by (induction es arbitrary: a) (simp_all split: bind_splits)

lemma put_in_append: "put_in (es @ fs) = put_in es @ put_in fs"
  by (induction es rule: put_in.induct) auto

lemma put_in_Cons: "put_in (e # es) = put_in [e] @ put_in es"
  by (cases e) simp_all

lemma run_ok:
  assumes "actor_run es a = Some b" and "actor_ok a" and "distinct (put_in es)" and "set (put_in es) \<inter> answered a = {}"
  shows "actor_ok b"
  using assms
proof (induction es arbitrary: a)
  case (Cons e es)
  then obtain c where c: "actor_event_step e a = Some c" "actor_run es c = Some b" by (auto split: bind_splits)
  from Cons.prems(3,4) have d: "distinct (put_in es)" "set (put_in es) \<inter> set (put_in [e]) = {}"
    "set (put_in [e]) \<inter> answered a = {}" "set (put_in es) \<inter> answered a = {}"
    by (auto simp: put_in_Cons [of e es])
  from step_answered [OF c(1)] d(2,4) have "set (put_in es) \<inter> answered c = {}" by blast
  with Cons.IH [OF c(2) step_ok [OF c(1) Cons.prems(2)] d(1)] d(3) show ?case by blast
qed simp

lemma new_run_ok: "actor_run es new_actor = Some a \<Longrightarrow> distinct (put_in es) \<Longrightarrow> actor_ok a"
  by (rule run_ok [OF _ new_actor_ok]) (auto simp: new_actor_answered)

text \<open>C28. Nobody waits for ever on an actor that is gone: once it has stopped, every command that was put in is both
  sent and done, except the ones an exception dropped on its way out.\<close>

theorem commands_answered:
  assumes "actor_run es new_actor = Some a" and "distinct (put_in es)" and "sa_phase a = Stopped"
  shows "set (put_in es) - dropped es new_actor \<subseteq> sa_done a \<inter> sa_sent a"
proof -
  from new_run_ok [OF assms(1,2)] assms(3) have "sa_queue a = []" "sa_done a \<subseteq> sa_sent a"
    by (simp_all add: actor_ok_def done_sent_def)
  moreover from this assms(3) have "answered a = sa_done a" by (simp add: answered_defs)
  ultimately show ?thesis using run_answered [OF assms(1)] by (auto simp: new_actor_answered)
qed

text \<open>An actor that nobody cancels and whose client never fails drops nothing.\<close>

fun healthy :: "actor_event \<Rightarrow> bool" where
  "healthy Cancel = False"
| "healthy (Message_in Stream_error) = False"
| "healthy (Wake accepted out ok) = (accepted \<and> out = Fine)"
| "healthy e = True"

lemma healthy_drops:
  assumes "actor_run es a = Some b" and "\<forall>e\<in>set es. healthy e"
    and "\<forall>q p slot. sa_phase a \<noteq> Driving q p (Some Stream_error) slot"
  shows "dropped es a = {}"
  using assms
proof (induction es arbitrary: a)
  case (Cons e es)
  then obtain c where c: "actor_event_step e a = Some c" "actor_run es c = Some b" by (auto split: bind_splits)
  have drops: "drops e a = {}"
    using Cons.prems(2,3) by (cases e) (auto simp: drops_def split: phase.splits option.splits if_splits)
  have handle: "sa_phase (handle_command ok d x) \<noteq> Driving q p (Some m) slot" for ok d x q p m slot
    by (auto simp: handle_command_def split: command_kind.splits)
  have abort: "sa_phase (abort_query q p x) = Stopped" for q p x by (simp add: abort_query_def)
  have wake: "sa_phase (wake accepted out ok q p m slot x) \<noteq> Driving q' p' (Some m') slot'"
    for accepted out ok q p m slot x q' p' m' slot'
    by (cases m; cases slot)
      (auto simp: wake_def wake_command_def Let_def handle abort split: msg_event.splits command_kind.splits option.splits)
  have "\<forall>q p slot. sa_phase c \<noteq> Driving q p (Some Stream_error) slot"
    using c(1) Cons.prems(2,3) handle wake
    by (cases e) (auto simp: enqueue_command_def split: phase.splits option.splits list.splits if_splits)
  with Cons.IH [OF c(2)] Cons.prems(2) drops c(1) show ?case by simp
qed simp

text \<open>While nobody cancels the actor and its client never fails, no caller is left waiting: when the actor has
  stopped, every command ever put in is answered.\<close>

theorem healthy_actor_answers_all:
  assumes "actor_run es new_actor = Some a" and "distinct (put_in es)" and "sa_phase a = Stopped" and "list_all healthy es"
  shows "set (put_in es) \<subseteq> sa_done a"
proof -
  have "dropped es new_actor = {}"
    using healthy_drops [OF assms(1)] assms(4) by (simp add: new_actor_def list_all_iff)
  with commands_answered [OF assms(1-3)] show ?thesis by auto
qed

lemma stopped_step:
  assumes "actor_event_step e a = Some b" and "sa_phase a = Stopped" and "sa_queue a = []"
  shows "sa_phase b = Stopped \<and> sa_queue b = [] \<and> sa_done b = sa_done a \<union> set (put_in [e])"
  using assms by (cases e) (auto simp: enqueue_command_def cancel_actor_def split: list.splits)

lemma stopped_run:
  "actor_run es a = Some b \<Longrightarrow> sa_phase a = Stopped \<Longrightarrow> sa_queue a = [] \<Longrightarrow>
     sa_phase b = Stopped \<and> sa_done b = sa_done a \<union> set (put_in es)"
proof (induction es arbitrary: a)
  case (Cons e es)
  then obtain c where c: "actor_event_step e a = Some c" "actor_run es c = Some b" by (auto split: bind_splits)
  from stopped_step [OF c(1) Cons.prems(2,3)] Cons.IH [OF c(2)] show ?case by (auto simp: put_in_Cons [of e es])
qed simp

text \<open>C29. A disconnect can be lost: when it arrives while a query runs and the interrupt of that query fails, the
  actor ends, but the disconnect is never marked done, whatever happens later; its sender waits for ever.\<close>

theorem failed_interrupt_loses_disconnect:
  assumes "actor_run es new_actor = Some a" and "sa_phase a = Driving q p None (Some c)" and "cm_kind c = Disconnect"
    and "actor_run (Wake accepted Failed ok # later) a = Some b"
    and "distinct (put_in (es @ later))"
  shows "sa_phase b = Stopped \<and> cm_id c \<in> set (put_in es) \<and> cm_id c \<notin> sa_done b"
proof -
  from assms(5) have d: "distinct (put_in es)" "set (put_in es) \<inter> set (put_in later) = {}"
    by (simp_all add: put_in_append)
  have ok: "actor_ok a" by (rule new_run_ok [OF assms(1) d(1)])
  then have c: "cm_id c \<noteq> cm_id q" "cm_id c \<notin> cm_id ` set_option p" "cm_id c \<notin> cm_id ` set (sa_queue a)" "cm_id c \<notin> sa_done a"
    using assms(2) by (cases p; auto simp: actor_ok_def hand_ids_def)+
  have "cm_id c \<in> answered a" using assms(2) by (simp add: answered_defs)
  then have known: "cm_id c \<in> set (put_in es)" using run_answered [OF assms(1)] by (auto simp: new_actor_answered)
  let ?s = "abort_query q p a"
  from assms(2,3,4) have "actor_run later ?s = Some b" by (simp add: wake_def wake_command_def)
  then have "sa_phase b = Stopped \<and> sa_done b = sa_done ?s \<union> set (put_in later)"
    by (rule stopped_run) (simp_all add: abort_query_def)
  with c known d(2) show ?thesis by (auto simp: abort_query_def)
qed

section \<open>Examples\<close>

definition a_query :: command where "a_query = \<lparr>cm_id = 1, cm_kind = Query\<rparr>"
definition a_disconnect :: command where "a_disconnect = \<lparr>cm_id = 2, cm_kind = Disconnect\<rparr>"

definition query_then_disconnect :: "actor_event list" where
  "query_then_disconnect = [Connected True, Enqueue a_query, Take True, Enqueue a_disconnect, Command_in]"

lemmas example_defs = query_then_disconnect_def a_query_def a_disconnect_def new_actor_def enqueue_command_def
  handle_command_def wake_def wake_command_def Let_def complete_command_def complete_open_def stop_actor_def
  drain_pending_commands_def release_pending_def

theorem failed_interrupt_loses_disconnect_witness:
  "\<exists>b. actor_run (query_then_disconnect @ [Wake True Failed True]) new_actor = Some b \<and>
     sa_phase b = Stopped \<and> 2 \<notin> sa_done b"
proof -
  obtain a where a: "actor_run query_then_disconnect new_actor = Some a" "sa_phase a = Driving a_query None None (Some a_disconnect)"
    by (simp add: example_defs)
  obtain b where b: "actor_run (Wake True Failed True # []) a = Some b" using a(2) by simp
  have "distinct (put_in (query_then_disconnect @ []))" by (simp add: example_defs)
  from failed_interrupt_loses_disconnect [OF a(1,2) _ b this] have "sa_phase b = Stopped" "2 \<notin> sa_done b"
    by (simp_all add: a_disconnect_def)
  moreover have "actor_run (query_then_disconnect @ [Wake True Failed True]) new_actor = Some b"
    using a b by (simp only: actor_run_append bind.simps)
  ultimately show ?thesis by blast
qed

theorem healthy_actor_answers_all_witness:
  "\<exists>a. actor_run (query_then_disconnect @ [Wake True Fine True]) new_actor = Some a \<and> {1, 2} \<subseteq> sa_done a"
proof -
  let ?es = "query_then_disconnect @ [Wake True Fine True]"
  obtain a where a: "actor_run ?es new_actor = Some a" "sa_phase a = Stopped" by (simp add: example_defs)
  have "distinct (put_in ?es)" "list_all healthy ?es" "put_in ?es = [1, 2]" by (simp_all add: example_defs)
  with healthy_actor_answers_all [OF a(1) _ a(2)] a(1) show ?thesis by auto
qed

theorem commands_answered_witness:
  "\<exists>a. actor_run (query_then_disconnect @ [Cancel]) new_actor = Some a \<and> 1 \<in> sa_done a \<inter> sa_sent a"
proof -
  let ?es = "query_then_disconnect @ [Cancel]"
  obtain a where a: "actor_run ?es new_actor = Some a" "sa_phase a = Stopped"
    by (simp add: example_defs cancel_actor_def abort_query_def)
  have "distinct (put_in ?es)" "put_in ?es = [1, 2]" by (simp_all add: example_defs)
  moreover have "dropped ?es new_actor = {2}"
    by (simp add: example_defs drops_def cancel_actor_def abort_query_def)
  ultimately show ?thesis using commands_answered [OF a(1) _ a(2)] a(1) by auto
qed

end
