(* ===== verification/SessionChannel.thy ===== *)
theory SessionChannel
  imports PyJson "HOL-Library.Sublist"
begin

text \<open>
  A managed session (\<open>ManagedSession\<close> and its callbacks in \<open>server/agent_runtime/session_manager.py\<close>, with
  \<open>message_utils.py\<close>): the replay buffer, the bounded queues of its subscribers, the questions that wait for the
  user, the echoes of what the user sent, and the status of the turn. A message is a dictionary whose type is a
  text; what a consumer has taken from its queue is kept with the queue. A future is open until it is answered.
\<close>

section \<open>Messages\<close>

definition msg_type :: "dict \<Rightarrow> json" where
  "msg_type m = dict_ref m ''type''"

definition critical_types :: "string list" where
  "critical_types = [''result'', ''runtime_status'', ''user'', ''assistant'']"

definition is_critical :: "dict \<Rightarrow> bool" where
  "is_critical m = list_ex (\<lambda>t. msg_type m = JStr t) critical_types"

definition is_transient :: "dict \<Rightarrow> bool" where
  "is_transient m = (msg_type m = JStr ''stream_event'')"

fun remove_first :: "('a \<Rightarrow> bool) \<Rightarrow> 'a list \<Rightarrow> 'a list" where
  "remove_first p [] = []"
| "remove_first p (x # xs) = (if p x then xs else x # remove_first p xs)"

definition queue_overflow :: "string \<Rightarrow> dict" where
  "queue_overflow sid = [(''type'', JStr ''_queue_overflow''), (''session_id'', JStr sid)]"

section \<open>Buffer and subscribers\<close>

record subscriber =
  sb_queue :: "dict list"
  sb_seen :: "dict list"
  sb_attached :: bool

record question =
  qu_id :: string
  qu_payload :: dict
  qu_open :: bool

record managed =
  ms_id :: string
  ms_status :: string
  ms_buffer :: "dict list"
  ms_buffer_max :: nat
  ms_subscribers :: "subscriber list"
  ms_questions :: "question list"
  ms_answers :: "(string \<times> (string + dict)) list"
  ms_echoes :: "string list"
  ms_prompt :: string
  ms_interrupt_requested :: bool
  ms_activity :: "int option"
  ms_resolved :: "string option"
  ms_inbox :: "dict list"
  ms_cleanup :: bool

definition evict_oldest_buffer_entry :: "dict list \<Rightarrow> dict list" where
  "evict_oldest_buffer_entry buf =
     (if list_ex is_transient (butlast buf) then remove_first is_transient buf else tl buf)"

definition push_buffer :: "nat \<Rightarrow> dict \<Rightarrow> dict list \<Rightarrow> dict list" where
  "push_buffer cap m buf = (let b = buf @ [m] in if cap < length b then evict_oldest_buffer_entry b else b)"

definition queue_size :: nat where
  "queue_size = 100"

definition evict_non_critical :: "dict list \<Rightarrow> dict list" where
  "evict_non_critical q = remove_first (\<lambda>m. \<not> is_critical m) q"

definition try_enqueue :: "dict list \<Rightarrow> dict \<Rightarrow> dict list option" where
  "try_enqueue q m =
     (if length q < queue_size then Some (q @ [m])
      else if \<not> is_critical m then Some q
      else (let q' = evict_non_critical q in if length q' < queue_size then Some (q' @ [m]) else None))"

text \<open>A subscriber that cannot take a critical message is dropped and left with one last message.\<close>

definition offer :: "string \<Rightarrow> dict \<Rightarrow> subscriber \<Rightarrow> subscriber" where
  "offer sid m sb =
     (if \<not> sb_attached sb then sb
      else (case try_enqueue (sb_queue sb) m of
              Some q \<Rightarrow> sb\<lparr>sb_queue := q\<rparr>
            | None \<Rightarrow> sb\<lparr>sb_queue := [queue_overflow sid], sb_attached := False\<rparr>))"

definition broadcast_to_subscribers :: "dict \<Rightarrow> managed \<Rightarrow> managed" where
  "broadcast_to_subscribers m ms = ms\<lparr>ms_subscribers := map (offer (ms_id ms) m) (ms_subscribers ms)\<rparr>"

definition add_message :: "dict \<Rightarrow> managed \<Rightarrow> managed" where
  "add_message m ms =
     broadcast_to_subscribers m (ms\<lparr>ms_buffer := push_buffer (ms_buffer_max ms) m (ms_buffer ms)\<rparr>)"

text \<open>A new subscriber and what it replays; the two are taken in one step.\<close>

definition subscribe :: "bool \<Rightarrow> managed \<Rightarrow> dict list \<times> managed" where
  "subscribe replay ms =
     (if replay then ms_buffer ms else [],
      ms\<lparr>ms_subscribers := ms_subscribers ms @ [\<lparr>sb_queue = [], sb_seen = [], sb_attached = True\<rparr>]\<rparr>)"

definition take_next :: "subscriber \<Rightarrow> subscriber" where
  "take_next sb = (case sb_queue sb of [] \<Rightarrow> sb | m # q \<Rightarrow> sb\<lparr>sb_queue := q, sb_seen := sb_seen sb @ [m]\<rparr>)"

section \<open>Questions\<close>

definition add_pending_question :: "(json \<Rightarrow> string) \<Rightarrow> string \<Rightarrow> dict \<Rightarrow> managed \<Rightarrow> string \<times> managed" where
  "add_pending_question rp fresh payload ms =
     (let j = dict_ref payload ''question_id''; qid = (if truthy j then py_text rp j else fresh);
          q = \<lparr>qu_id = qid, qu_payload = dict_put payload ''question_id'' (JStr qid), qu_open = True\<rparr>
      in (qid, ms\<lparr>ms_questions := (if list_ex (\<lambda>x. qu_id x = qid) (ms_questions ms)
                                     then set_row qu_id q (ms_questions ms) else ms_questions ms @ [q])\<rparr>))"

definition resolve_pending_question :: "string \<Rightarrow> dict \<Rightarrow> managed \<Rightarrow> bool \<times> managed" where
  "resolve_pending_question qid answers ms =
     (case find_row qu_id qid (ms_questions ms) of
        None \<Rightarrow> (False, ms)
      | Some q \<Rightarrow>
          (True, ms\<lparr>ms_questions := filter (\<lambda>x. qu_id x \<noteq> qid) (ms_questions ms),
                    ms_answers := ms_answers ms @ (if qu_open q then [(qid, Inr answers)] else [])\<rparr>))"

definition cancel_pending_questions :: "string \<Rightarrow> managed \<Rightarrow> managed" where
  "cancel_pending_questions reason ms =
     ms\<lparr>ms_questions := [],
        ms_answers := ms_answers ms @ map (\<lambda>q. (qu_id q, Inl reason)) (filter qu_open (ms_questions ms))\<rparr>"

definition get_pending_question_payloads :: "managed \<Rightarrow> dict list" where
  "get_pending_question_payloads ms = map qu_payload (ms_questions ms)"

definition answer_user_question :: "string \<Rightarrow> dict \<Rightarrow> managed \<Rightarrow> managed option" where
  "answer_user_question qid answers ms =
     (if ms_status ms \<noteq> ''running'' then None
      else (case resolve_pending_question qid answers ms of (True, ms') \<Rightarrow> Some ms' | _ \<Rightarrow> None))"

section \<open>Echoes\<close>

definition nonempty :: "string \<Rightarrow> string option" where
  "nonempty s = (if s = [] then None else Some s)"

definition extract_text_from_block :: "json \<Rightarrow> string option" where
  "extract_text_from_block b =
     (case b of
        JObj d \<Rightarrow>
          if dict_ref d ''type'' \<noteq> JStr ''text'' \<and> dict_ref d ''type'' \<noteq> JNull then None
          else (case dict_ref d ''text'' of JStr t \<Rightarrow> nonempty (strip t) | _ \<Rightarrow> None)
      | _ \<Rightarrow> None)"

definition extract_plain_user_content :: "dict \<Rightarrow> string option" where
  "extract_plain_user_content m =
     (if msg_type m \<noteq> JStr ''user'' then None
      else (case dict_ref m ''content'' of
              JStr s \<Rightarrow> nonempty (strip s)
            | JArr bs \<Rightarrow> (case List.map_filter extract_text_from_block bs of [] \<Rightarrow> None | t # _ \<Rightarrow> Some t)
            | _ \<Rightarrow> None))"

definition image_only_sentinel :: string where
  "image_only_sentinel = ''__image_only__''"

definition is_duplicate_user_echo :: "dict \<Rightarrow> managed \<Rightarrow> bool \<times> managed" where
  "is_duplicate_user_echo m ms =
     (case ms_echoes ms of
        [] \<Rightarrow> (False, ms)
      | e # es \<Rightarrow>
          if (case extract_plain_user_content m of
                None \<Rightarrow> msg_type m = JStr ''user'' \<and> strip e = image_only_sentinel
              | Some t \<Rightarrow> t = strip e)
          then (True, ms\<lparr>ms_echoes := es\<rparr>) else (False, ms))"

definition build_user_echo_message :: "string \<Rightarrow> string \<Rightarrow> string \<Rightarrow> json list option \<Rightarrow> dict" where
  "build_user_echo_message uid now text blocks =
     [(''type'', JStr ''user''), (''content'', case blocks of Some bs \<Rightarrow> JArr bs | None \<Rightarrow> JStr text),
      (''uuid'', JStr (''local-user-'' @ uid)), (''timestamp'', JStr now), (''local_echo'', JBool True)]"

section \<open>The status of a turn\<close>

definition pruned_types :: "string list" where
  "pruned_types = [''stream_event'', ''runtime_status'', ''user'', ''assistant'', ''result'']"

definition prune_transient_buffer :: "managed \<Rightarrow> managed" where
  "prune_transient_buffer ms =
     ms\<lparr>ms_buffer := filter (\<lambda>m. \<not> list_ex (\<lambda>t. msg_type m = JStr t) pruned_types) (ms_buffer ms)\<rparr>"

definition starts_with :: "string \<Rightarrow> string \<Rightarrow> bool" where
  "starts_with p s = (take (length p) s = p)"

definition resolve_result_status :: "dict \<Rightarrow> bool \<Rightarrow> string" where
  "resolve_result_status m interrupt_requested =
     (let subtype = lower (id_text (dict_ref m ''subtype''));
          bad = truthy (dict_ref m ''is_error'') \<or> starts_with ''error'' subtype
      in if interrupt_requested \<and> (subtype \<in> {''interrupted'', ''interrupt''} \<or> bad) then ''interrupted''
         else if bad then ''error'' else ''completed'')"

definition handle_special_message :: "dict \<Rightarrow> managed \<Rightarrow> dict \<times> managed" where
  "handle_special_message m ms =
     (let ms1 = (if msg_type m = JStr ''system'' \<and> dict_ref m ''subtype'' = JStr ''compact_boundary''
                 then prune_transient_buffer ms else ms)
      in if msg_type m = JStr ''result''
         then (dict_put m ''session_status'' (JStr (resolve_result_status m (ms_interrupt_requested ms))), ms1)
         else (m, ms1))"

text \<open>The callback of the actor.\<close>

definition on_message :: "dict \<Rightarrow> managed \<Rightarrow> managed" where
  "on_message m ms =
     (case is_duplicate_user_echo m ms of
        (True, ms1) \<Rightarrow> ms1\<lparr>ms_inbox := ms_inbox ms1 @ [m]\<rparr>
      | (False, _) \<Rightarrow>
          (let (m', ms1) = handle_special_message m ms; ms2 = add_message m' ms1
           in ms2\<lparr>ms_inbox := ms_inbox ms2 @ [m']\<rparr>))"

text \<open>The status that is stored beside the session.\<close>

type_synonym meta_store = "string \<Rightarrow> string option"

definition update_status :: "string \<Rightarrow> string \<Rightarrow> meta_store \<Rightarrow> meta_store" where
  "update_status sid st db = (if db sid = None then db else db(sid \<mapsto> st))"

definition final_statuses :: "string list" where
  "final_statuses = [''idle'', ''running'', ''completed'', ''error'', ''interrupted'']"

definition finalize_turn :: "int \<Rightarrow> dict \<Rightarrow> managed \<Rightarrow> meta_store \<Rightarrow> managed \<times> meta_store" where
  "finalize_turn now m ms db =
     (let ms1 = cancel_pending_questions ''session completed'' (ms\<lparr>ms_echoes := []\<rparr>);
          explicit = id_text (dict_ref m ''session_status'');
          st = (if explicit \<in> set final_statuses then explicit else resolve_result_status m (ms_interrupt_requested ms))
      in (prune_transient_buffer (ms1\<lparr>ms_status := st, ms_activity := Some now, ms_interrupt_requested := False,
            ms_cleanup := ms_cleanup ms \<or> st \<noteq> ''running''\<rparr>), update_status (ms_id ms) st db))"

definition interrupt_echo :: "string \<Rightarrow> string \<Rightarrow> dict" where
  "interrupt_echo uid now =
     [(''type'', JStr ''user''), (''content'', JStr ''[Request interrupted by user]''),
      (''uuid'', JStr (''interrupt-echo-'' @ uid)), (''timestamp'', JStr now)]"

definition mark_session_terminal ::
  "string \<Rightarrow> string \<Rightarrow> int \<Rightarrow> string \<Rightarrow> string \<Rightarrow> managed \<Rightarrow> meta_store \<Rightarrow> managed \<times> meta_store" where
  "mark_session_terminal uid stamp now st reason ms db =
     (let ms1 = cancel_pending_questions reason (ms\<lparr>ms_echoes := []\<rparr>);
          ms2 = prune_transient_buffer (ms1\<lparr>ms_status := st, ms_activity := Some now, ms_interrupt_requested := False\<rparr>);
          ms3 = (if st = ''interrupted'' then broadcast_to_subscribers (interrupt_echo uid stamp) ms2 else ms2);
          ms4 = broadcast_to_subscribers
                  [(''type'', JStr ''runtime_status''), (''status'', JStr st), (''reason'', JStr reason)] ms3
      in (ms4\<lparr>ms_cleanup := True\<rparr>, update_status (ms_id ms) st db))"

text \<open>
  Sending a message: the check and the echo come before the status is written, the query after it. Between the
  two the status of the session is still the old one, since only the query sets it.
\<close>

definition send_message_echo ::
  "string \<Rightarrow> string \<Rightarrow> int \<Rightarrow> string \<Rightarrow> json list option \<Rightarrow> managed \<Rightarrow> meta_store \<Rightarrow> (managed \<times> meta_store) option" where
  "send_message_echo uid stamp now text blocks ms db =
     (if ms_status ms = ''running'' then None
      else
        (let ms1 = prune_transient_buffer (ms\<lparr>ms_activity := Some now, ms_cleanup := False\<rparr>);
             key = (if text \<noteq> [] then text else if blocks \<noteq> None \<and> blocks \<noteq> Some [] then image_only_sentinel else []);
             es = ms_echoes ms1 @ (if key = [] then [] else [key]);
             ms2 = ms1\<lparr>ms_echoes := (if key \<noteq> [] \<and> 20 < length es then tl es else es), ms_prompt := text\<rparr>
         in Some (add_message (build_user_echo_message uid stamp text blocks) ms2, update_status (ms_id ms) ''running'' db)))"

definition send_message_query :: "bool \<Rightarrow> managed \<Rightarrow> meta_store \<Rightarrow> managed \<times> meta_store" where
  "send_message_query ok ms db =
     (if ok then (ms\<lparr>ms_status := ''running''\<rparr>, db)
      else (ms\<lparr>ms_status := ''error'', ms_echoes := []\<rparr>, update_status (ms_id ms) ''error'' db))"

definition interrupt_live_session :: "bool \<Rightarrow> int \<Rightarrow> managed \<Rightarrow> managed" where
  "interrupt_live_session ok now ms =
     (if ms_status ms \<noteq> ''running'' then ms
      else
        (let ms1 = cancel_pending_questions ''session interrupted by user''
                     (ms\<lparr>ms_echoes := [], ms_interrupt_requested := True\<rparr>)
         in if ok then ms1\<lparr>ms_activity := Some now\<rparr> else ms1\<lparr>ms_status := ''error''\<rparr>))"

text \<open>The actor has died of an exception: the session is in error, in memory and in the store.\<close>

definition actor_failed :: "string \<Rightarrow> string \<Rightarrow> managed \<Rightarrow> meta_store \<Rightarrow> managed \<times> meta_store" where
  "actor_failed uid stamp ms db =
     (add_message
        [(''type'', JStr ''runtime_status''), (''status'', JStr ''error''), (''subtype'', JStr ''error''),
         (''stop_reason'', JNull), (''is_error'', JBool True), (''session_id'', JStr (ms_id ms)),
         (''uuid'', JStr (''runtime-status-'' @ uid)), (''timestamp'', JStr stamp)]
        (ms\<lparr>ms_status := ''error''\<rparr>), update_status (ms_id ms) ''error'' db)"

end
