(* ===== verification/SessionPool.thy ===== *)
theory SessionPool
  imports SessionChannel
begin

text \<open>
  The registry of live sessions (\<open>SessionManager\<close> in \<open>server/agent_runtime/session_manager.py\<close>): the limit on live
  sessions, eviction, the cleanup timer, the patrol and the connection of a session. The sessions are in the order of
  their insertion; how the disconnect of an actor ends, whether an actor starts, the limit and the instants are
  arguments. Opening a session is two steps, since the code awaits between the check of the limit and the
  registration.
\<close>

record pool =
  po_sessions :: "managed list"
  po_disconnecting :: "string list"
  po_db :: meta_store

definition active_sessions :: "pool \<Rightarrow> managed list" where
  "active_sessions p = filter (\<lambda>s. ms_id s \<notin> set (po_disconnecting p)) (po_sessions p)"

datatype disconnect_outcome = Disconnected | Disconnect_timeout | Disconnect_error

text \<open>Eviction settles the status, in the store too when the session is known there, and forgets the session.\<close>

definition evicted_status :: "disconnect_outcome \<Rightarrow> string" where
  "evicted_status out =
     (case out of Disconnected \<Rightarrow> ''closed'' | Disconnect_timeout \<Rightarrow> ''interrupted'' | Disconnect_error \<Rightarrow> ''error'')"

definition settle_stored :: "managed \<Rightarrow> string \<Rightarrow> meta_store \<Rightarrow> meta_store" where
  "settle_stored ms st db =
     (case ms_resolved ms of
        None \<Rightarrow> db
      | Some sid \<Rightarrow>
          (let st' = (if st = ''running'' then ''interrupted'' else st)
           in if st' \<in> {''interrupted'', ''error''} then update_status sid st' db else db))"

text \<open>An eviction marks the session, waits for its actor, and then removes whatever is registered under its identifier.\<close>

definition begin_eviction :: "managed \<Rightarrow> pool \<Rightarrow> pool" where
  "begin_eviction ms p = p\<lparr>po_disconnecting := ms_id ms # po_disconnecting p\<rparr>"

definition finish_eviction :: "disconnect_outcome \<Rightarrow> managed \<Rightarrow> pool \<Rightarrow> pool" where
  "finish_eviction out ms p =
     p\<lparr>po_sessions := filter (\<lambda>s. ms_id s \<noteq> ms_id ms) (po_sessions p),
       po_disconnecting := removeAll (ms_id ms) (po_disconnecting p),
       po_db := settle_stored ms (evicted_status out) (po_db p)\<rparr>"

definition evict_one :: "disconnect_outcome \<Rightarrow> managed \<Rightarrow> pool \<Rightarrow> pool" where
  "evict_one out ms p =
     (if ms_id ms \<in> set (po_disconnecting p) then p else finish_eviction out ms (begin_eviction ms p))"

text \<open>Opening fails with an error and the pool it leaves: an eviction that made room has happened, the session is gone.\<close>

datatype pool_error = Capacity | Not_found | Start_failed

definition activity :: "managed \<Rightarrow> int" where
  "activity s = coalesce (ms_activity s) 0"

definition ensure_capacity :: "nat \<Rightarrow> disconnect_outcome \<Rightarrow> pool \<Rightarrow> (pool_error \<times> pool) + pool" where
  "ensure_capacity limit out p =
     (let active = active_sessions p
      in if length active < limit then Inr p
         else (case sort_key activity (filter (\<lambda>s. ms_status s \<noteq> ''running'') active) of
                 [] \<Rightarrow> Inl (Capacity, p)
               | victim # _ \<Rightarrow> Inr (evict_one out victim p)))"

definition max_concurrent :: "int option \<Rightarrow> nat" where
  "max_concurrent setting = (case setting of None \<Rightarrow> 5 | Some n \<Rightarrow> nat (max n 1))"

definition cleanup_delay :: "int option \<Rightarrow> int" where
  "cleanup_delay setting = (case setting of None \<Rightarrow> 300 | Some n \<Rightarrow> max n 10)"

definition fresh_managed :: "string \<Rightarrow> string option \<Rightarrow> string \<Rightarrow> int \<Rightarrow> managed" where
  "fresh_managed sid resolved st now =
     \<lparr>ms_id = sid, ms_status = st, ms_buffer = [], ms_buffer_max = 100, ms_subscribers = [], ms_questions = [],
      ms_answers = [], ms_echoes = [], ms_prompt = [], ms_interrupt_requested = False, ms_activity = Some now,
      ms_resolved = resolved, ms_inbox = [], ms_cleanup = False\<rparr>"

definition register_session :: "bool \<Rightarrow> managed \<Rightarrow> pool \<Rightarrow> (pool_error \<times> pool) + pool" where
  "register_session started ms p =
     (if started
      then Inr (p\<lparr>po_sessions := (if find_row ms_id (ms_id ms) (po_sessions p) = None then po_sessions p @ [ms]
                                  else set_row ms_id ms (po_sessions p))\<rparr>)
      else Inl (Start_failed, p\<lparr>po_sessions := filter (\<lambda>s. ms_id s \<noteq> ms_id ms) (po_sessions p)\<rparr>))"

text \<open>A new session, under a temporary identifier that no session has.\<close>

definition send_new_session :: "nat \<Rightarrow> disconnect_outcome \<Rightarrow> bool \<Rightarrow> string \<Rightarrow> int \<Rightarrow> pool \<Rightarrow> (pool_error \<times> pool) + pool" where
  "send_new_session limit out started temp_id now p =
     bind_err (ensure_capacity limit out p) (register_session started (fresh_managed temp_id None ''running'' now))"

definition resumed_status :: "string \<Rightarrow> string" where
  "resumed_status st = (if st \<in> {''idle'', ''running'', ''interrupted'', ''error'', ''closed''} then st else ''idle'')"

definition get_or_connect :: "nat \<Rightarrow> disconnect_outcome \<Rightarrow> bool \<Rightarrow> string \<Rightarrow> int \<Rightarrow> pool \<Rightarrow> (pool_error \<times> pool) + pool" where
  "get_or_connect limit out started sid now p =
     (if find_row ms_id sid (po_sessions p) \<noteq> None \<and> sid \<notin> set (po_disconnecting p) then Inr p
      else (case po_db p sid of
              None \<Rightarrow> Inl (Not_found, p)
            | Some st \<Rightarrow>
                bind_err (ensure_capacity limit out p)
                  (register_session started (fresh_managed sid (Some sid) (resumed_status st) now))))"

text \<open>The temporary identifier of a new session is replaced by the one the SDK gives it.\<close>

definition sdk_session_id_received :: "string \<Rightarrow> string \<Rightarrow> pool \<Rightarrow> pool" where
  "sdk_session_id_received temp sid p =
     (case find_row ms_id temp (po_sessions p) of
        None \<Rightarrow> p
      | Some ms \<Rightarrow>
          if ms_resolved ms \<noteq> None \<or> sid = [] then p
          else p\<lparr>po_sessions := filter (\<lambda>s. ms_id s \<noteq> temp \<and> ms_id s \<noteq> sid) (po_sessions p) @ [ms\<lparr>ms_id := sid, ms_resolved := Some sid\<rparr>],
                 po_db := (po_db p)(sid \<mapsto> ''running'')\<rparr>)"

definition cleanup_statuses :: "string list" where
  "cleanup_statuses = [''idle'', ''interrupted'', ''error'', ''completed'']"

definition cleanup_idle :: "disconnect_outcome \<Rightarrow> string \<Rightarrow> pool \<Rightarrow> pool" where
  "cleanup_idle out sid p =
     (case find_row ms_id sid (po_sessions p) of
        None \<Rightarrow> p
      | Some ms \<Rightarrow> if ms_status ms \<in> set cleanup_statuses then evict_one out ms p else p)"

definition close_session :: "disconnect_outcome \<Rightarrow> string \<Rightarrow> string \<Rightarrow> pool \<Rightarrow> pool" where
  "close_session out reason sid p =
     (case find_row ms_id sid (po_sessions p) of
        None \<Rightarrow> p
      | Some ms \<Rightarrow>
          (let ms' = cancel_pending_questions reason ms
           in evict_one out ms' (p\<lparr>po_sessions := set_row ms_id ms' (po_sessions p)\<rparr>)))"

definition overdue :: "int \<Rightarrow> int \<Rightarrow> pool \<Rightarrow> managed \<Rightarrow> bool" where
  "overdue delay now p ms =
     (ms_status ms \<noteq> ''running'' \<and> ms_id ms \<notin> set (po_disconnecting p) \<and> delay * 2 < now - activity ms)"

definition patrol_once :: "(string \<Rightarrow> disconnect_outcome) \<Rightarrow> int \<Rightarrow> int \<Rightarrow> pool \<Rightarrow> pool" where
  "patrol_once out delay now p =
     fold (\<lambda>ms p. if overdue delay now p ms
                  then (case find_row ms_id (ms_id ms) (po_sessions p) of
                          None \<Rightarrow> p | Some m \<Rightarrow> evict_one (out (ms_id m)) m p)
                  else p) (po_sessions p) p"

definition shutdown_gracefully :: "(string \<Rightarrow> disconnect_outcome) \<Rightarrow> pool \<Rightarrow> pool" where
  "shutdown_gracefully out p = fold (\<lambda>ms. evict_one (out (ms_id ms)) ms) (po_sessions p) p"

text \<open>At the start of the service, what is stored as running is interrupted.\<close>

definition interrupt_running_sessions :: "pool \<Rightarrow> pool" where
  "interrupt_running_sessions p =
     p\<lparr>po_db := (\<lambda>i. if po_db p i = Some ''running'' then Some ''interrupted'' else po_db p i)\<rparr>"

end
