(* ===== verification/SessionProps.thy ===== *)
theory SessionProps
  imports SessionPool
begin

text \<open>
  Properties of the sessions of the agent: what a subscriber is sent, the bound of the replay buffer, the agreement of
  the status of a turn between the client and the store, the limit on live sessions, and three races: two messages
  sent at once, two sessions opened at once, and a session that is connected again while it is evicted.
\<close>

section \<open>What a subscriber is sent\<close>

lemma filter_remove_first:
  assumes "\<And>x. p x \<Longrightarrow> \<not> q x"
  shows "filter q (remove_first p xs) = filter q xs"
  using assms by (induction xs) auto

lemma subseq_remove_first: "subseq (remove_first p xs) xs"
  by (induction xs) auto

lemma length_remove_first: "length (remove_first p xs) = length xs - (if list_ex p xs then 1 else 0)"
proof (induction xs)
  case (Cons x xs)
  then show ?case by (cases xs) auto
qed simp

lemma try_enqueue_SomeD:
  assumes "try_enqueue q m = Some q'"
  shows "filter is_critical q' = filter is_critical (q @ [m])" and "subseq q' (q @ [m])"
    and "length q \<le> queue_size \<Longrightarrow> length q' \<le> queue_size"
proof -
  have e: "filter is_critical (evict_non_critical q) = filter is_critical q" "subseq (evict_non_critical q) q"
    by (simp_all add: evict_non_critical_def filter_remove_first subseq_remove_first)
  show "filter is_critical q' = filter is_critical (q @ [m])"
    using assms e(1) by (auto simp: try_enqueue_def Let_def split: if_splits)
  show "subseq q' (q @ [m])"
    using assms e(2) by (auto simp: try_enqueue_def Let_def split: if_splits)
  show "length q \<le> queue_size \<Longrightarrow> length q' \<le> queue_size"
    using assms by (auto simp: try_enqueue_def Let_def split: if_splits)
qed

text \<open>The events of a channel: a message is added or only broadcast, somebody subscribes, a consumer takes a message.\<close>

datatype channel_event = Sent dict | Broadcast dict | Joined bool | Taken nat

fun channel_step :: "channel_event \<Rightarrow> managed \<Rightarrow> managed" where
  "channel_step (Sent m) ms = add_message m ms"
| "channel_step (Broadcast m) ms = broadcast_to_subscribers m ms"
| "channel_step (Joined replay) ms = snd (subscribe replay ms)"
| "channel_step (Taken i) ms =
     (if i < length (ms_subscribers ms) then ms\<lparr>ms_subscribers := (ms_subscribers ms)[i := take_next (ms_subscribers ms ! i)]\<rparr>
      else ms)"

definition channel_run :: "channel_event list \<Rightarrow> managed \<Rightarrow> managed" where
  "channel_run es ms = fold channel_step es ms"

fun offered :: "channel_event list \<Rightarrow> dict list" where
  "offered [] = []"
| "offered (Sent m # es) = m # offered es"
| "offered (Broadcast m # es) = m # offered es"
| "offered (_ # es) = offered es"

lemma offered_append: "offered (es @ fs) = offered es @ offered fs"
  by (induction es rule: offered.induct) auto

definition subscriber_ok :: "string \<Rightarrow> dict list \<Rightarrow> subscriber \<Rightarrow> bool" where
  "subscriber_ok sid ms sb =
     (if sb_attached sb
      then filter is_critical (sb_seen sb @ sb_queue sb) = filter is_critical ms \<and>
           subseq (sb_seen sb @ sb_queue sb) ms \<and> length (sb_queue sb) \<le> queue_size
      else \<exists>taken. sb_seen sb @ sb_queue sb = taken @ [queue_overflow sid] \<and>
             prefix (filter is_critical taken) (filter is_critical ms) \<and> subseq taken ms)"

lemma offer_ok:
  assumes "subscriber_ok sid ms sb"
  shows "subscriber_ok sid (ms @ [m]) (offer sid m sb)"
proof (cases "sb_attached sb")
  case True
  with assms have h: "filter is_critical (sb_seen sb @ sb_queue sb) = filter is_critical ms"
    "subseq (sb_seen sb @ sb_queue sb) ms" "length (sb_queue sb) \<le> queue_size"
    by (simp_all add: subscriber_ok_def)
  show ?thesis
  proof (cases "try_enqueue (sb_queue sb) m")
    case None
    from h(1) have "prefix (filter is_critical (sb_seen sb)) (filter is_critical (ms @ [m]))"
      unfolding prefix_def by (metis append.assoc filter_append)
    moreover have "subseq (sb_seen sb) (sb_seen sb @ sb_queue sb)" by (rule list_emb_prefix) simp
    then have "subseq (sb_seen sb) (ms @ [m])" using h(2) by (intro list_emb_prefix) (rule subseq_order.trans)
    ultimately show ?thesis using True None by (auto simp: offer_def subscriber_ok_def)
  next
    case (Some q)
    note d = try_enqueue_SomeD [OF Some]
    have "subseq (sb_seen sb @ q) (sb_seen sb @ sb_queue sb @ [m])"
      by (rule list_emb_append_mono [OF _ d(2)]) simp
    moreover have "subseq (sb_seen sb @ sb_queue sb @ [m]) (ms @ [m])" using h(2) by (metis append.assoc list_emb_append_mono subseq_order.order_refl)
    ultimately have "subseq (sb_seen sb @ q) (ms @ [m])" by (rule subseq_order.trans)
    moreover have "filter is_critical (sb_seen sb @ q) = filter is_critical (ms @ [m])"
      using d(1) h(1) by (metis append.assoc filter_append)
    ultimately show ?thesis using True Some d(3) h(3) by (simp add: offer_def subscriber_ok_def)
  qed
next
  case False
  with assms obtain taken where t: "sb_seen sb @ sb_queue sb = taken @ [queue_overflow sid]"
    "prefix (filter is_critical taken) (filter is_critical ms)" "subseq taken ms"
    by (auto simp: subscriber_ok_def)
  from t(2) have "prefix (filter is_critical taken) (filter is_critical (ms @ [m]))"
    by (metis filter_append prefix_append prefix_order.order_trans prefixI)
  moreover from t(3) have "subseq taken (ms @ [m])" by (rule list_emb_prefix)
  ultimately show ?thesis using False t(1) by (auto simp: offer_def subscriber_ok_def)
qed

lemma take_ok: "subscriber_ok sid ms sb \<Longrightarrow> subscriber_ok sid ms (take_next sb)"
  by (auto simp: subscriber_ok_def take_next_def split: list.splits)

lemma channel_step_id [simp]: "ms_id (channel_step e ms) = ms_id ms"
  by (cases e) (simp_all add: add_message_def broadcast_to_subscribers_def subscribe_def)

lemma channel_step_ok:
  assumes "n < length (ms_subscribers ms)" and "subscriber_ok (ms_id ms) xs (ms_subscribers ms ! n)"
  shows "n < length (ms_subscribers (channel_step e ms)) \<and>
    subscriber_ok (ms_id ms) (xs @ offered [e]) (ms_subscribers (channel_step e ms) ! n)"
  using assms
  by (cases e)
    (auto simp: add_message_def broadcast_to_subscribers_def subscribe_def offer_ok nth_append nth_list_update take_ok)

lemma channel_run_ok:
  assumes "n < length (ms_subscribers ms)" and "subscriber_ok (ms_id ms) xs (ms_subscribers ms ! n)"
  shows "subscriber_ok (ms_id ms) (xs @ offered es) (ms_subscribers (channel_run es ms) ! n)"
  using assms
proof (induction es arbitrary: ms xs)
  case (Cons e es)
  have "offered (e # es) = offered [e] @ offered es" using offered_append [of "[e]" es] by simp
  with Cons.IH [of "channel_step e ms" "xs @ offered [e]"] channel_step_ok [OF Cons.prems, of e] show ?case
    by (simp add: channel_run_def)
qed (simp add: channel_run_def)

text \<open>C30. A subscriber loses no message that matters: while it is attached it has been handed, or has waiting in its
  bounded queue, every critical message since it joined, in order; when its queue overflows with critical messages it
  is told so by a last message and has seen a prefix of them.\<close>

theorem subscriber_misses_nothing:
  "subscriber_ok (ms_id ms) (offered es)
     (ms_subscribers (channel_run es (snd (subscribe replay ms))) ! length (ms_subscribers ms))"
proof -
  let ?ms = "snd (subscribe replay ms)"
  have "subscriber_ok (ms_id ?ms) [] (ms_subscribers ?ms ! length (ms_subscribers ms))"
    by (simp add: subscribe_def subscriber_ok_def)
  from channel_run_ok [OF _ this, of es] show ?thesis by (simp add: subscribe_def)
qed

section \<open>The replay buffer\<close>

lemma push_buffer_bound: "length buf \<le> cap \<Longrightarrow> length (push_buffer cap m buf) \<le> cap"
  by (auto simp: push_buffer_def Let_def evict_oldest_buffer_entry_def length_remove_first)

lemma last_remove_first: "list_ex p xs \<Longrightarrow> remove_first p (xs @ [x]) = remove_first p xs @ [x]"
  by (induction xs) auto

lemma push_buffer_last: "0 < cap \<Longrightarrow> length buf \<le> cap \<Longrightarrow> push_buffer cap m buf \<noteq> [] \<and> last (push_buffer cap m buf) = m"
  by (cases buf) (auto simp: push_buffer_def Let_def evict_oldest_buffer_entry_def last_remove_first)

text \<open>The replay buffer stays within its bound, ends with the message just added, and gives up an older message
  only for want of a streaming one.\<close>

theorem buffer_keeps_newest:
  assumes "length (ms_buffer ms) \<le> ms_buffer_max ms" and "0 < ms_buffer_max ms"
  shows "length (ms_buffer (add_message m ms)) \<le> ms_buffer_max ms \<and> last (ms_buffer (add_message m ms)) = m \<and>
    (filter (\<lambda>x. \<not> is_transient x) (ms_buffer (add_message m ms)) \<noteq> filter (\<lambda>x. \<not> is_transient x) (ms_buffer ms @ [m]) \<longleftrightarrow>
       length (ms_buffer ms) = ms_buffer_max ms \<and> list_all (\<lambda>x. \<not> is_transient x) (ms_buffer ms))"
proof -
  let ?keep = "filter (\<lambda>x. \<not> is_transient x)" and ?b = "ms_buffer ms"
  have f: "?keep (remove_first is_transient xs) = ?keep xs" for xs by (rule filter_remove_first) simp
  have tl: "?keep (tl (xs @ [m])) \<noteq> ?keep (xs @ [m])" if "\<not> list_ex is_transient xs" "xs \<noteq> []" for xs
  proof
    assume eq: "?keep (tl (xs @ [m])) = ?keep (xs @ [m])"
    from that obtain y ys where "xs = y # ys" "\<not> is_transient y" by (cases xs) auto
    with eq show False by (metis append_Cons filter.simps(2) list.sel(3) not_Cons_self2)
  qed
  have "list_all (\<lambda>x. \<not> is_transient x) ?b \<longleftrightarrow> \<not> list_ex is_transient ?b" by (simp add: list_all_iff list_ex_iff)
  moreover have "?b \<noteq> []" if "ms_buffer_max ms < Suc (length ?b)" using that assms by auto
  ultimately show ?thesis
    using assms push_buffer_bound [OF assms(1), of m] push_buffer_last [OF assms(2,1), of m] tl [of ?b]
    by (auto simp: add_message_def broadcast_to_subscribers_def push_buffer_def Let_def
        evict_oldest_buffer_entry_def f last_remove_first)
qed

theorem buffer_keeps_newest_witness:
  "last (ms_buffer (add_message [(''type'', JStr ''user'')] (fresh_managed ''s'' None ''idle'' 0))) = [(''type'', JStr ''user'')]"
proof -
  have "length (ms_buffer (fresh_managed ''s'' None ''idle'' 0)) \<le> ms_buffer_max (fresh_managed ''s'' None ''idle'' 0)"
    "0 < ms_buffer_max (fresh_managed ''s'' None ''idle'' 0)" by (simp_all add: fresh_managed_def)
  from buffer_keeps_newest [OF this] show ?thesis by blast
qed

section \<open>The status of a turn\<close>

lemma resolve_cases: "resolve_result_status m i \<in> {''interrupted'', ''error'', ''completed''}"
  by (simp add: resolve_result_status_def Let_def)

lemma resolve_interrupted: "resolve_result_status m i = ''interrupted'' \<Longrightarrow> i"
  by (auto simp: resolve_result_status_def Let_def split: if_splits)

lemma prune_simps [simp]:
  "ms_status (prune_transient_buffer ms) = ms_status ms" "ms_id (prune_transient_buffer ms) = ms_id ms"
  "ms_interrupt_requested (prune_transient_buffer ms) = ms_interrupt_requested ms"
  "ms_inbox (prune_transient_buffer ms) = ms_inbox ms" "ms_questions (prune_transient_buffer ms) = ms_questions ms"
  by (simp_all add: prune_transient_buffer_def)

lemma add_message_simps [simp]:
  "ms_status (add_message m ms) = ms_status ms" "ms_id (add_message m ms) = ms_id ms"
  "ms_interrupt_requested (add_message m ms) = ms_interrupt_requested ms"
  "ms_inbox (add_message m ms) = ms_inbox ms"
  by (simp_all add: add_message_def broadcast_to_subscribers_def)

text \<open>C31. The end of a turn is one status everywhere: the result message that subscribers get carries the status that the
  session and the store are then given; it is never running, it is interrupted only if an interrupt was asked for,
  and the request and the open questions are cleared.\<close>

theorem result_status_agrees:
  assumes "msg_type m = JStr ''result''" and "db (ms_id ms) \<noteq> None"
    and "ms' = on_message m ms" and "finalize_turn now (last (ms_inbox ms')) ms' db = (ms'', db')"
  shows "dict_ref (last (ms_inbox ms')) ''session_status'' = JStr (ms_status ms'') \<and> db' (ms_id ms) = Some (ms_status ms'') \<and>
    ms_status ms'' \<noteq> ''running'' \<and> (ms_interrupt_requested ms \<or> ms_status ms'' \<noteq> ''interrupted'') \<and>
    \<not> ms_interrupt_requested ms'' \<and> ms_questions ms'' = []"
proof -
  let ?st = "resolve_result_status m (ms_interrupt_requested ms)"
  let ?m = "dict_put m ''session_status'' (JStr ?st)"
  from assms(1) have "extract_plain_user_content m = None" by (simp add: extract_plain_user_content_def)
  with assms(1) have "is_duplicate_user_echo m ms = (False, ms)"
    by (auto simp: is_duplicate_user_echo_def split: list.splits)
  with assms(1,3) have ms': "last (ms_inbox ms') = ?m" "ms_id ms' = ms_id ms"
    by (simp_all add: on_message_def handle_special_message_def Let_def)
  have "strip ''interrupted'' = ''interrupted''" "strip ''error'' = ''error''" "strip ''completed'' = ''completed''"
    by code_simp+
  then have "strip ?st = ?st" using resolve_cases [of m "ms_interrupt_requested ms"] by auto
  moreover have "?st \<noteq> []" using resolve_cases [of m "ms_interrupt_requested ms"] by auto
  ultimately have i: "id_text (dict_ref ?m ''session_status'') = ?st"
    by (simp add: id_text_def dict_ref_put coalesce_def)
  have s: "?st \<in> set final_statuses" "?st \<noteq> ''running''"
    using resolve_cases [of m "ms_interrupt_requested ms"] by (auto simp: final_statuses_def)
  from assms(4) i s(1) have "ms_status ms'' = ?st" "db' = update_status (ms_id ms) ?st db"
    "\<not> ms_interrupt_requested ms''" "ms_questions ms'' = []"
    by (auto simp: finalize_turn_def Let_def ms' cancel_pending_questions_def)
  with ms'(1) s(2) assms(2) show ?thesis
    by (auto simp: dict_ref_put update_status_def dest: resolve_interrupted)
qed

text \<open>Two messages can start at once: the check of the running turn passes for both when the second is sent before
  the query of the first is handed over, although after that it would be refused.\<close>

theorem two_sends_pass_check:
  assumes "send_message_echo uid stamp now text blocks ms db = Some (ms1, db1)"
  shows "send_message_echo uid' stamp' now' text' blocks' ms1 db1 \<noteq> None \<and>
    send_message_echo uid' stamp' now' text' blocks' (fst (send_message_query True ms1 db1)) (snd (send_message_query True ms1 db1)) = None"
proof -
  from assms have "ms_status ms \<noteq> ''running''" "ms_status ms1 = ms_status ms"
    by (auto simp: send_message_echo_def Let_def split: if_splits)
  then show ?thesis by (simp add: send_message_echo_def send_message_query_def Let_def)
qed

section \<open>The limit on live sessions\<close>

lemma active_finish:
  assumes "ms \<in> set (active_sessions p)"
  shows "active_sessions (evict_one out ms p) = filter (\<lambda>s. ms_id s \<noteq> ms_id ms) (active_sessions p)"
  using assms
  by (auto simp: active_sessions_def evict_one_def finish_eviction_def begin_eviction_def intro: filter_cong)

lemma ensure_capacity_InrD:
  assumes "ensure_capacity limit out p = Inr q" and "length (active_sessions p) \<le> limit" and "0 < limit"
  shows "length (active_sessions q) < limit"
proof (cases "length (active_sessions p) < limit")
  case True
  with assms(1) show ?thesis by (simp add: ensure_capacity_def Let_def)
next
  case False
  with assms(1) obtain victim rest where v: "sort_key activity (filter (\<lambda>s. ms_status s \<noteq> ''running'') (active_sessions p)) = victim # rest"
    and q: "q = evict_one out victim p"
    by (auto simp: ensure_capacity_def Let_def split: list.splits)
  have "victim \<in> set (sort_key activity (filter (\<lambda>s. ms_status s \<noteq> ''running'') (active_sessions p)))" by (simp add: v)
  then have "victim \<in> set (active_sessions p)" by simp
  moreover from active_finish [OF this, of out] q
  have "active_sessions q = filter (\<lambda>s. ms_id s \<noteq> ms_id victim) (active_sessions p)" by simp
  ultimately have "length (active_sessions q) < length (active_sessions p)" by (simp add: length_filter_less)
  with assms(2) show ?thesis by simp
qed

lemma filter_set_row: "length (filter (P \<circ> ms_id) (set_row ms_id ms xs)) = length (filter (P \<circ> ms_id) xs)"
  by (induction xs) (auto simp: set_row_def map_where_def)

lemma register_active:
  assumes "register_session started ms p = Inr q"
  shows "length (active_sessions q) \<le> Suc (length (active_sessions p))"
  using assms filter_set_row [of "\<lambda>i. i \<notin> set (po_disconnecting p)" ms "po_sessions p"]
  by (auto simp: register_session_def active_sessions_def comp_def split: if_splits)

definition running_but :: "string \<Rightarrow> pool \<Rightarrow> managed list" where
  "running_but sid p = filter (\<lambda>s. ms_status s = ''running'' \<and> ms_id s \<noteq> sid) (po_sessions p)"

lemma ensure_keeps_running:
  assumes "ensure_capacity limit out p = Inr q" and "distinct (map ms_id (po_sessions p))"
  shows "running_but sid q = running_but sid p"
proof (cases "length (active_sessions p) < limit")
  case True
  with assms(1) show ?thesis by (simp add: ensure_capacity_def Let_def)
next
  case False
  with assms(1) obtain victim rest where v: "sort_key activity (filter (\<lambda>s. ms_status s \<noteq> ''running'') (active_sessions p)) = victim # rest"
    and q: "q = evict_one out victim p"
    by (auto simp: ensure_capacity_def Let_def split: list.splits)
  have "victim \<in> set (sort_key activity (filter (\<lambda>s. ms_status s \<noteq> ''running'') (active_sessions p)))" by (simp add: v)
  then have vp: "victim \<in> set (po_sessions p)" "ms_status victim \<noteq> ''running''" by (simp_all add: active_sessions_def)
  have "s = victim" if "s \<in> set (po_sessions p)" "ms_id s = ms_id victim" for s
    using that vp(1) assms(2) by (metis distinct_map inj_onD)
  with vp(2) show ?thesis
    unfolding q by (auto simp: running_but_def evict_one_def finish_eviction_def begin_eviction_def intro!: filter_cong)
qed

lemma register_keeps_running:
  assumes "register_session started ms p = Inr q"
  shows "running_but (ms_id ms) q = running_but (ms_id ms) p"
proof -
  have "filter (\<lambda>s. ms_status s = ''running'' \<and> ms_id s \<noteq> ms_id ms) (set_row ms_id ms xs) =
    filter (\<lambda>s. ms_status s = ''running'' \<and> ms_id s \<noteq> ms_id ms) xs" for xs
    by (induction xs) (auto simp: set_row_def map_where_def)
  with assms show ?thesis by (auto simp: register_session_def running_but_def split: if_splits)
qed

text \<open>C32. One request at a time keeps the limit: opening a session, new or resumed, never makes more of them live than
  the limit allows, and leaves every other session that is running as it is.\<close>

theorem opening_keeps_limit:
  assumes "length (active_sessions p) \<le> limit" and "0 < limit" and "distinct (map ms_id (po_sessions p))"
    and "Inr q \<in> {send_new_session limit out started sid now p, get_or_connect limit out started sid now p}"
  shows "length (active_sessions q) \<le> limit \<and> running_but sid q = running_but sid p"
proof -
  have new: "length (active_sessions q) \<le> limit \<and> running_but sid q = running_but sid p"
    if "bind_err (ensure_capacity limit out p) (register_session started ms) = Inr q" "ms_id ms = sid" for ms
  proof -
    from that(1) obtain r where r: "ensure_capacity limit out p = Inr r" "register_session started ms r = Inr q"
      by (auto simp: bind_err_Inr_iff)
    from ensure_capacity_InrD [OF r(1) assms(1,2)] register_active [OF r(2)]
      ensure_keeps_running [OF r(1) assms(3)] register_keeps_running [OF r(2)] that(2) show ?thesis by auto
  qed
  show ?thesis
    using new assms(1,4)
    by (auto simp: send_new_session_def get_or_connect_def fresh_managed_def eq_commute [of "Inr q"] split: if_splits option.splits)
qed

text \<open>Two requests at once can exceed the limit: the check and the registration are two steps, so with one place
  left both checks pass, and one more session is live than allowed.\<close>

theorem two_openings_exceed_limit:
  assumes "length (active_sessions p) + 1 = limit" and "a \<noteq> b" and "{a, b} \<inter> ms_id ` set (po_sessions p) = {}"
    and "{a, b} \<inter> set (po_disconnecting p) = {}"
  shows "\<exists>q. bind_err (ensure_capacity limit out p) (\<lambda>p1. bind_err (ensure_capacity limit out p1) (\<lambda>p2.
      bind_err (register_session True (fresh_managed a None ''running'' now) p2)
        (register_session True (fresh_managed b None ''running'' now)))) = Inr q \<and>
    limit < length (active_sessions q)"
proof -
  from assms(1) have e: "ensure_capacity limit out p = Inr p" by (simp add: ensure_capacity_def Let_def)
  have "find_row ms_id a (po_sessions p) = None" "find_row ms_id b (po_sessions p) = None"
    using assms(3) by (auto simp: find_row_None_iff)
  with assms e show ?thesis
    by (simp add: register_session_def fresh_managed_def active_sessions_def row_simps)
qed

section \<open>Eviction\<close>

lemma register_mem:
  assumes "register_session started ms p = Inr q"
  shows "ms \<in> set (po_sessions q)"
proof -
  have "ms \<in> set (set_row ms_id ms xs)" if "find_row ms_id (ms_id ms) xs \<noteq> None" for xs
    using that by (induction xs) (auto simp: row_simps set_row_def map_where_def split: if_splits)
  with assms show ?thesis by (auto simp: register_session_def split: if_splits)
qed

text \<open>A session that is connected again while it is being evicted is lost: the eviction ends by removing what is
  registered under the identifier, which is the new connection; its actor lives on and nothing refers to it.\<close>

theorem reconnect_during_eviction_lost:
  assumes "ms \<in> set (po_sessions p)" and "ms_id ms \<notin> set (po_disconnecting p)"
    and "get_or_connect limit out' True (ms_id ms) now (begin_eviction ms p) = Inr q"
  shows "(\<exists>new \<in> set (po_sessions q). ms_id new = ms_id ms \<and> ms_activity new = Some now) \<and>
    ms_id ms \<notin> ms_id ` set (po_sessions (finish_eviction out ms q))"
proof -
  from assms(3) obtain r st where
    r: "register_session True (fresh_managed (ms_id ms) (Some (ms_id ms)) (resumed_status st) now) r = Inr q"
    by (auto simp: get_or_connect_def begin_eviction_def bind_err_Inr_iff split: if_splits option.splits)
  from register_mem [OF r] have "\<exists>new \<in> set (po_sessions q). ms_id new = ms_id ms \<and> ms_activity new = Some now"
    by (rule bexI [rotated]) (simp add: fresh_managed_def)
  moreover have "ms_id ms \<notin> ms_id ` set (po_sessions (finish_eviction out ms q))" by (auto simp: finish_eviction_def)
  ultimately show ?thesis by blast
qed

section \<open>Patrol and shutdown\<close>

lemma evict_sessions:
  "ms_id ms \<notin> set (po_disconnecting p) \<Longrightarrow>
     po_sessions (evict_one out ms p) = filter (\<lambda>s. ms_id s \<noteq> ms_id ms) (po_sessions p) \<and>
     set (po_disconnecting (evict_one out ms p)) = set (po_disconnecting p)"
  by (auto simp: evict_one_def finish_eviction_def begin_eviction_def)

lemma distinct_filter_part: "distinct (map f (xs @ ys)) \<Longrightarrow> distinct (map f (filter P xs @ ys))"
  by (induction xs) auto

lemma patrol_fold:
  assumes "distinct (map ms_id (xs @ ys))" and "po_sessions p = filter (\<lambda>m. \<not> overdue delay now q m) xs @ ys"
    and "set (po_disconnecting p) = set (po_disconnecting q)"
  shows "po_sessions (fold (\<lambda>ms p. if overdue delay now p ms
                  then (case find_row ms_id (ms_id ms) (po_sessions p) of
                          None \<Rightarrow> p | Some m \<Rightarrow> evict_one (out (ms_id m)) m p)
                  else p) ys p) = filter (\<lambda>m. \<not> overdue delay now q m) (xs @ ys)"
  using assms
proof (induction ys arbitrary: xs p)
  case (Cons y ys)
  have o: "overdue delay now p m = overdue delay now q m" for m using Cons.prems(3) by (simp add: overdue_def)
  show ?case
  proof (cases "overdue delay now q y")
    case True
    have y: "y \<in> set (po_sessions p)" using Cons.prems(2) by simp
    have "distinct (map ms_id (po_sessions p))"
      unfolding Cons.prems(2) by (rule distinct_filter_part [OF Cons.prems(1)])
    with y have f: "find_row ms_id (ms_id y) (po_sessions p) = Some y" by (simp add: find_row_mem)
    have "ms_id y \<notin> set (po_disconnecting p)" using True Cons.prems(3) by (simp add: overdue_def)
    note e = evict_sessions [OF this, of "out (ms_id y)"]
    have "ms_id y \<notin> ms_id ` set xs" "ms_id y \<notin> ms_id ` set ys" using Cons.prems(1) by auto
    then have n: "\<forall>m\<in>set xs. ms_id m \<noteq> ms_id y" "\<forall>m\<in>set ys. ms_id m \<noteq> ms_id y"
      by (metis image_eqI)+
    have "filter (\<lambda>s. ms_id s \<noteq> ms_id y) zs = zs" if "set zs \<subseteq> set xs \<or> set zs \<subseteq> set ys" for zs
      using that n by (intro filter_True) blast
    then have "filter (\<lambda>s. ms_id s \<noteq> ms_id y) (po_sessions p) = filter (\<lambda>m. \<not> overdue delay now q m) xs @ ys"
      unfolding Cons.prems(2) by (simp del: filter_filter)
    with Cons.IH [of "xs @ [y]" "evict_one (out (ms_id y)) y p"] e Cons.prems f o True show ?thesis by simp
  next
    case False
    with Cons.IH [of "xs @ [y]" p] Cons.prems o show ?thesis by simp
  qed
qed simp

text \<open>A patrol removes exactly the sessions that are neither running nor being evicted and have been idle for more
  than twice the delay.\<close>

theorem patrol_exact:
  assumes "distinct (map ms_id (po_sessions p))"
  shows "po_sessions (patrol_once out delay now p) = filter (\<lambda>m. \<not> overdue delay now p m) (po_sessions p)"
  using patrol_fold [of "[]" "po_sessions p" p delay now p out] assms by (simp add: patrol_once_def)

section \<open>Examples\<close>

definition live :: "string \<Rightarrow> string \<Rightarrow> int \<Rightarrow> managed" where
  "live i st t = fresh_managed i (Some i) st t"

definition two_sessions :: pool where
  "two_sessions = \<lparr>po_sessions = [live ''a'' ''running'' 5, live ''b'' ''idle'' 0], po_disconnecting = [],
     po_db = [''a'' \<mapsto> ''running'', ''b'' \<mapsto> ''idle'', ''c'' \<mapsto> ''completed'']\<rparr>"

lemmas pool_example_defs = two_sessions_def live_def fresh_managed_def active_sessions_def ensure_capacity_def Let_def
  register_session_def row_simps evict_one_def finish_eviction_def begin_eviction_def activity_def coalesce_def

theorem opening_keeps_limit_witness:
  "\<exists>q. get_or_connect 2 Disconnected True ''c'' 7 two_sessions = Inr q \<and> length (active_sessions q) \<le> 2 \<and>
     running_but ''c'' q = running_but ''c'' two_sessions"
proof -
  let ?r = "get_or_connect 2 Disconnected True ''c'' 7 two_sessions"
  have "\<not> isl ?r" by (simp add: get_or_connect_def pool_example_defs)
  then obtain q where q: "?r = Inr q" by (cases ?r) auto
  have "length (active_sessions two_sessions) \<le> 2" "distinct (map ms_id (po_sessions two_sessions))"
    by (simp_all add: pool_example_defs)
  from opening_keeps_limit [OF this(1) _ this(2), of q Disconnected True "''c''" 7] q show ?thesis by auto
qed

theorem two_openings_exceed_limit_witness:
  "\<exists>q. bind_err (ensure_capacity 3 Disconnected two_sessions) (\<lambda>p1. bind_err (ensure_capacity 3 Disconnected p1) (\<lambda>p2.
      bind_err (register_session True (fresh_managed ''x'' None ''running'' 1) p2)
        (register_session True (fresh_managed ''y'' None ''running'' 1)))) = Inr q \<and> 3 < length (active_sessions q)"
  by (rule two_openings_exceed_limit) (simp_all add: pool_example_defs)

theorem reconnect_during_eviction_lost_witness:
  "\<exists>q. get_or_connect 5 Disconnected True ''b'' 9 (begin_eviction (live ''b'' ''idle'' 0) two_sessions) = Inr q \<and>
     ''b'' \<notin> ms_id ` set (po_sessions (finish_eviction Disconnected (live ''b'' ''idle'' 0) q))"
proof -
  let ?r = "get_or_connect 5 Disconnected True ''b'' 9 (begin_eviction (live ''b'' ''idle'' 0) two_sessions)"
  have "\<not> isl ?r" by (simp add: get_or_connect_def pool_example_defs)
  then obtain q where q: "?r = Inr q" by (cases ?r) auto
  have "live ''b'' ''idle'' 0 \<in> set (po_sessions two_sessions)" "ms_id (live ''b'' ''idle'' 0) \<notin> set (po_disconnecting two_sessions)"
    by (simp_all add: pool_example_defs)
  from reconnect_during_eviction_lost [OF this, of 5 Disconnected 9 q Disconnected] q show ?thesis
    by (auto simp: live_def fresh_managed_def)
qed

theorem patrol_exact_witness:
  "po_sessions (patrol_once (\<lambda>_. Disconnected) 10 100 two_sessions) = [live ''a'' ''running'' 5]"
proof -
  have "distinct (map ms_id (po_sessions two_sessions))" by (simp add: pool_example_defs)
  from patrol_exact [OF this, of "\<lambda>_. Disconnected" 10 100] show ?thesis
    by (simp add: overdue_def pool_example_defs)
qed

definition result_message :: dict where
  "result_message = [(''type'', JStr ''result''), (''subtype'', JStr ''error_during_execution'')]"

theorem result_status_agrees_witness:
  "\<exists>ms'' db'. finalize_turn 1 (last (ms_inbox (on_message result_message (live ''a'' ''running'' 0))))
      (on_message result_message (live ''a'' ''running'' 0)) [''a'' \<mapsto> ''running''] = (ms'', db') \<and>
     db' ''a'' = Some (ms_status ms'') \<and> ms_status ms'' \<noteq> ''running''"
proof -
  let ?ms = "live ''a'' ''running'' 0"
  obtain ms'' db' where f: "finalize_turn 1 (last (ms_inbox (on_message result_message ?ms))) (on_message result_message ?ms)
      [''a'' \<mapsto> ''running''] = (ms'', db')" by (metis prod.exhaust)
  have "msg_type result_message = JStr ''result''" "[''a'' \<mapsto> ''running''] (ms_id ?ms) \<noteq> None"
    by (simp_all add: result_message_def msg_type_def dict_ref_def dict_get_def coalesce_def live_def fresh_managed_def)
  from result_status_agrees [OF this refl f] f show ?thesis by (auto simp: live_def fresh_managed_def)
qed

theorem two_sends_pass_check_witness:
  "\<exists>ms1 db1. send_message_echo ''u'' ''t'' 1 ''hello'' None (live ''a'' ''idle'' 0) [''a'' \<mapsto> ''idle''] = Some (ms1, db1) \<and>
     send_message_echo ''v'' ''t'' 2 ''again'' None ms1 db1 \<noteq> None"
proof -
  obtain ms1 db1 where "send_message_echo ''u'' ''t'' 1 ''hello'' None (live ''a'' ''idle'' 0) [''a'' \<mapsto> ''idle''] = Some (ms1, db1)"
    by (simp add: send_message_echo_def Let_def live_def fresh_managed_def)
  with two_sends_pass_check [OF this, of "''v''" "''t''" 2 "''again''" None] show ?thesis by blast
qed

end
