(* ===== verification/AccessPolicy.thy ===== *)
theory AccessPolicy
  imports PyJson "HOL-Library.Sublist"
begin

text \<open>
  What the agent may read, write and run (\<open>SessionManager\<close> in \<open>server/agent_runtime/session_manager.py\<close>): the hook that
  checks every path of the file tools, the list of sensitive files, the project files that only the tools of the
  service may write, and the list of commands for platforms without a sandbox. An absolute POSIX path is the list of
  its components. What the file system does is an argument: how links are resolved, which paths are directories.
\<close>

section \<open>Paths\<close>

type_synonym path = "string list"

definition path_text :: "path \<Rightarrow> string" where
  "path_text p = (if p = [] then ''/'' else concat (map (\<lambda>c. CHR ''/'' # c) p))"

definition is_relative_to :: "path \<Rightarrow> path \<Rightarrow> bool" where
  "is_relative_to p base = (take (length base) p = base)"

text \<open>
  \<open>Path(text)\<close> without empty and dot components, and \<open>os.path.normpath\<close> of an absolute path. Of the slashes at the
  beginning of a text, both keep exactly two, and make one of every other number; so the path that is written is the
  components together with the note whether its root is the double one. The double root is no root of the file
  system: \<open>Path.resolve\<close> drops it, so only the text of a path shows it.
\<close>

type_synonym written = "bool \<times> path"

definition written_text :: "written \<Rightarrow> string" where
  "written_text w = (if fst w then CHR ''/'' # path_text (snd w) else path_text (snd w))"

definition double_root :: "string \<Rightarrow> bool" where
  "double_root text = (take 2 text = ''//'' \<and> take 3 text \<noteq> ''///'')"

definition path_components :: "string \<Rightarrow> path" where
  "path_components text = filter (\<lambda>c. c \<noteq> [] \<and> c \<noteq> ''.'') (split_on (CHR ''/'') [] text)"

definition logical_path :: "path \<Rightarrow> string \<Rightarrow> written" where
  "logical_path cwd text =
     (if take 1 text = ''/'' then (double_root text, path_components text) else (False, cwd @ path_components text))"

definition normpath :: "path \<Rightarrow> path" where
  "normpath p = foldl (\<lambda>acc c. if c = ''..'' then butlast acc else acc @ [c]) [] p"

definition path_suffix :: "path \<Rightarrow> string" where
  "path_suffix p =
     (let name = (if p = [] then [] else last p); ext = takeWhile (\<lambda>c. c \<noteq> CHR ''.'') (rev name)
      in if Suc (length ext) < length name \<and> ext \<noteq> [] then CHR ''.'' # rev ext else [])"

text \<open>\<open>fnmatchcase\<close> for the patterns of the list, which have a star and no other special character.\<close>

fun fnmatch :: "string \<Rightarrow> string \<Rightarrow> bool" where
  "fnmatch [] s = (s = [])"
| "fnmatch (p # ps) s =
     (if p = CHR ''*'' then fnmatch ps s \<or> (case s of [] \<Rightarrow> False | _ # cs \<Rightarrow> fnmatch (p # ps) cs)
      else (case s of [] \<Rightarrow> False | c # cs \<Rightarrow> c = p \<and> fnmatch ps cs))"

section \<open>Sensitive files\<close>

record roots =
  ro_repo :: path
  ro_data :: path
  ro_profile :: path
  ro_logs :: path
  ro_claude :: "path option"
  ro_tmp :: "string list"
  ro_is_dir :: "path \<Rightarrow> bool"

definition sensitive_files :: "roots \<Rightarrow> path list" where
  "sensitive_files r =
     [ro_repo r @ [''.env''], ro_data r @ [''.arcreel.db''], ro_data r @ [''.system_config.json''],
      ro_data r @ [''.system_config.json.bak''], ro_profile r @ [''.claude'', ''settings.json'']]"

definition sensitive_prefixes :: "roots \<Rightarrow> path list" where
  "sensitive_prefixes r = [butlast (ro_data r) @ [''vertex_keys''], ro_logs r]"

definition sensitive_globs :: "roots \<Rightarrow> (path \<times> string) list" where
  "sensitive_globs r = [(ro_repo r, ''.env.*''), (ro_data r, ''.arcreel.db-*'')]"

definition is_sensitive_path :: "roots \<Rightarrow> path \<Rightarrow> bool" where
  "is_sensitive_path r p =
     (p \<in> set (sensitive_files r) \<or> list_ex (is_relative_to p) (sensitive_prefixes r) \<or>
      list_ex (\<lambda>(parent, pattern). is_relative_to p parent \<and> length p \<le> Suc (length parent) \<and>
        fnmatch pattern (if length p = length parent then ''.'' else last p)) (sensitive_globs r))"

section \<open>Reading and writing\<close>

datatype access =
    Allowed
  | Invalid_path
  | Sensitive
  | Outside_project
  | Protected_json
  | Code_file
  | Cross_project
  | Outside_roots
  | Hook_raises

definition encode_sdk_project_path :: "path \<Rightarrow> string" where
  "encode_sdk_project_path cwd =
     map (\<lambda>c. if c \<in> {CHR ''/'', CHR 0x5C, CHR '':'', CHR ''.''} then CHR ''-'' else c) (path_text cwd)"

text \<open>The key by which protected files are compared: on ASCII, the text without regard to case.\<close>

definition protected_key :: "written \<Rightarrow> string" where
  "protected_key w = lower (written_text w)"

definition text_starts :: "string \<Rightarrow> string \<Rightarrow> bool" where
  "text_starts p s = (take (length p) s = p)"

definition is_tool_result :: "roots \<Rightarrow> path \<Rightarrow> path \<Rightarrow> bool" where
  "is_tool_result r cwd p =
     (case ro_claude r of
        None \<Rightarrow> False
      | Some base \<Rightarrow> is_relative_to p (base @ [encode_sdk_project_path cwd]) \<and> ''tool-results'' \<in> set p)"

definition is_task_output :: "roots \<Rightarrow> path \<Rightarrow> bool" where
  "is_task_output r p =
     (let parts = map lower p
      in (list_ex (\<lambda>pre. text_starts (lower pre) (protected_key (False, p))) (ro_tmp r @ [''/tmp/claude-'', ''/private/tmp/claude-'']) \<or>
          3 \<le> length parts \<and> parts ! 0 = ''tmp'' \<and> text_starts ''claude-'' (parts ! 1)) \<and> ''tasks'' \<in> set parts)"

definition check_read_access :: "roots \<Rightarrow> path \<Rightarrow> path \<Rightarrow> access" where
  "check_read_access r cwd p =
     (if is_relative_to p cwd \<or> is_tool_result r cwd p \<or> is_task_output r p then Allowed
      else if is_relative_to p (ro_data r)
      then (case drop (length (ro_data r)) p of
              [] \<Rightarrow> Allowed
            | c # _ \<Rightarrow>
                if ro_is_dir r (ro_data r @ [c]) \<and> c \<noteq> (if cwd = [] then [] else last cwd) then Cross_project else Allowed)
      else if is_relative_to p (ro_repo r) then Allowed else Outside_roots)"

text \<open>The project directory as it is given and as it resolves; when it does not resolve, only as given.\<close>

definition enumerate_cwd_bases :: "(path \<Rightarrow> path option) \<Rightarrow> path \<Rightarrow> path list" where
  "enumerate_cwd_bases resolve cwd =
     (case resolve cwd of None \<Rightarrow> [cwd] | Some p \<Rightarrow> if p = cwd then [cwd] else [cwd, p])"

definition is_protected_project_json :: "written \<Rightarrow> path list \<Rightarrow> bool" where
  "is_protected_project_json target bases =
     list_ex (\<lambda>base.
       let scripts = protected_key (False, base @ [''scripts''])
       in protected_key target = protected_key (False, base @ [''project.json'']) \<or>
          protected_key target = scripts \<or> text_starts (scripts @ ''/'') (protected_key target)) bases"

definition code_extensions_forbidden :: "string list" where
  "code_extensions_forbidden = [''.py'', ''.js'', ''.ts'', ''.tsx'', ''.sh'', ''.yaml'', ''.yml'', ''.toml'']"

definition check_write_access :: "(path \<Rightarrow> path option) \<Rightarrow> path \<Rightarrow> path \<Rightarrow> written \<Rightarrow> access" where
  "check_write_access resolve cwd p logical_norm =
     (let bases = enumerate_cwd_bases resolve cwd
      in if \<not> list_ex (is_relative_to p) bases then Outside_project
         else if is_protected_project_json (False, p) bases \<or> is_protected_project_json logical_norm bases then Protected_json
         else if lower (path_suffix p) \<in> set code_extensions_forbidden then Code_file
         else Allowed)"

definition write_tools :: "string list" where
  "write_tools = [''Write'', ''Edit'']"

definition is_path_allowed :: "roots \<Rightarrow> (path \<Rightarrow> path option) \<Rightarrow> path \<Rightarrow> string \<Rightarrow> string \<Rightarrow> access" where
  "is_path_allowed r resolve cwd file_path tool =
     (let (double, logical) = logical_path cwd file_path
      in case resolve logical of
           None \<Rightarrow> Invalid_path
         | Some p \<Rightarrow>
             if is_sensitive_path r p then Sensitive
             else if tool \<in> set write_tools then check_write_access resolve cwd p (double, normpath logical)
             else check_read_access r cwd p)"

definition path_tools :: "(string \<times> string) list" where
  "path_tools = [(''Read'', ''file_path''), (''Write'', ''file_path''), (''Edit'', ''file_path''), (''Glob'', ''path''), (''Grep'', ''path'')]"

text \<open>The hook lets through what is no file tool and a call without a path; a path that is no text raises.\<close>

definition file_access_hook :: "roots \<Rightarrow> (path \<Rightarrow> path option) \<Rightarrow> path \<Rightarrow> string \<Rightarrow> dict \<Rightarrow> access" where
  "file_access_hook r resolve cwd tool tool_input =
     (case map_of path_tools tool of
        None \<Rightarrow> Allowed
      | Some key \<Rightarrow>
          (case dict_ref tool_input key of
             JStr t \<Rightarrow> if t = [] then Allowed else is_path_allowed r resolve cwd t tool
           | v \<Rightarrow> if truthy v then Hook_raises else Allowed))"

section \<open>Commands without a sandbox\<close>

definition is_metachar :: "char \<Rightarrow> bool" where
  "is_metachar c = (c \<in> set '';&|<>`$'' \<or> c = CHR 0x0D \<or> c = CHR 0x0A)"

definition is_separator :: "char \<Rightarrow> bool" where
  "is_separator c = (is_space c \<or> c = CHR ''/'' \<or> c = CHR 0x5C)"

fun path_traversal :: "bool \<Rightarrow> string \<Rightarrow> bool" where
  "path_traversal bound [] = False"
| "path_traversal bound (c # cs) =
     (bound \<and> take 2 (c # cs) = ''..'' \<and> (drop 2 (c # cs) = [] \<or> is_separator (hd (drop 2 (c # cs)))) \<or>
      path_traversal (is_separator c) cs)"

definition python_skills_prefix :: string where
  "python_skills_prefix = ''python .claude/skills/''"

definition bash_prefix_whitelist :: "string list" where
  "bash_prefix_whitelist = [python_skills_prefix, ''ffmpeg'', ''ffprobe'']"

definition first_word :: "string \<Rightarrow> string" where
  "first_word s = takeWhile (\<lambda>c. \<not> is_space c) (dropWhile is_space s)"

definition after_word :: "string \<Rightarrow> string" where
  "after_word s = dropWhile (\<lambda>c. \<not> is_space c) (dropWhile is_space s)"

definition skill_script :: "string \<Rightarrow> bool" where
  "skill_script s =
     (case split_on (CHR ''/'') [] s of
        [a, b, skill, d, script] \<Rightarrow>
          a = ''.claude'' \<and> b = ''skills'' \<and> skill \<noteq> [] \<and> d = ''scripts'' \<and>
          3 < length script \<and> drop (length script - 3) script = ''.py''
      | _ \<Rightarrow> False)"

definition is_allowed_python_skill_command :: "string \<Rightarrow> bool" where
  "is_allowed_python_skill_command s = skill_script (first_word (after_word s))"

definition unquote :: "string \<Rightarrow> string" where
  "unquote s = filter (\<lambda>c. c \<noteq> CHR 0x22 \<and> c \<noteq> CHR 0x27) s"

definition slashes :: "string \<Rightarrow> string" where
  "slashes s = map (\<lambda>c. if c = CHR 0x5C then CHR ''/'' else c) s"

definition is_bash_command_whitelisted :: "string \<Rightarrow> bool" where
  "is_bash_command_whitelisted command =
     (let cmd = strip command; unquoted = unquote cmd; normalized = slashes unquoted
      in cmd \<noteq> [] \<and> \<not> list_ex is_metachar cmd \<and>
         \<not> list_ex (path_traversal True) [cmd, normalized, filter (\<lambda>c. c \<noteq> CHR 0x5C) unquoted] \<and>
         list_ex (\<lambda>prefix.
           if prefix = python_skills_prefix
           then text_starts prefix normalized \<and> is_allowed_python_skill_command normalized
           else normalized = prefix \<or> text_starts (prefix @ '' '') normalized) bash_prefix_whitelist)"

end
