(* ===== verification/AccessProps.thy ===== *)
theory AccessProps
  imports AccessPolicy
begin

text \<open>
  Properties of the access of the agent: a write that is allowed lies in the project and is none of its protected
  files, other projects cannot be read file by file, a command that is allowed without a sandbox reads as one of three
  programs; and the gaps: a path written with two slashes hides a link, the directory above all projects may be
  searched, the list of sensitive files is compared with regard to case, and quotes and braces of a command are not
  understood.
\<close>

section \<open>Paths and their texts\<close>

definition wf_path :: "path \<Rightarrow> bool" where
  "wf_path p = (\<forall>c\<in>set p. c \<noteq> [] \<and> CHR ''/'' \<notin> set c)"

lemma wf_path_simps [simp]:
  "wf_path []" "wf_path (c # p) \<longleftrightarrow> c \<noteq> [] \<and> CHR ''/'' \<notin> set c \<and> wf_path p" "wf_path (p @ q) \<longleftrightarrow> wf_path p \<and> wf_path q"
  by (auto simp: wf_path_def)

definition joined :: "path \<Rightarrow> string" where
  "joined p = concat (map (\<lambda>c. CHR ''/'' # c) p)"

lemma joined_simps [simp]: "joined [] = []" "joined (c # p) = CHR ''/'' # c @ joined p"
  by (simp_all add: joined_def)

lemma path_text_joined: "p \<noteq> [] \<Longrightarrow> path_text p = joined p"
  by (simp add: path_text_def joined_def)

lemma lower_slash [simp]: "lower_char c = CHR ''/'' \<longleftrightarrow> c = CHR ''/''"
proof
  assume h: "lower_char c = CHR ''/''"
  show "c = CHR ''/''"
  proof (cases "65 \<le> (of_char c :: nat) \<and> (of_char c :: nat) \<le> 90")
    case True
    with h have "char_of ((of_char c :: nat) + 32) = CHR ''/''" by (simp add: lower_char_def Let_def)
    then have "(of_char (char_of ((of_char c :: nat) + 32) :: char) :: nat) = of_char (CHR ''/'')" by simp
    with True show ?thesis by simp
  next
    case False
    with h show ?thesis by (simp add: lower_char_def Let_def split: if_splits)
  qed
qed (simp add: lower_char_def Let_def)

lemma slash_lower [simp]: "CHR ''/'' = lower_char c \<longleftrightarrow> c = CHR ''/''"
  by (subst eq_commute, subst lower_slash, rule refl)

lemma lower_joined: "lower (joined p) = joined (map lower p)"
  by (induction p) (simp_all add: lower_def lower_char_def)

lemma wf_lower [simp]: "wf_path (map lower p) \<longleftrightarrow> wf_path p"
proof -
  have "CHR ''/'' \<in> set (lower c) \<longleftrightarrow> CHR ''/'' \<in> set c" for c by (auto simp: lower_def image_iff)
  then show ?thesis by (simp add: wf_path_def lower_def)
qed

lemma split_component:
  assumes "x @ s = y @ t" and "CHR ''/'' \<notin> set x" and "CHR ''/'' \<notin> set y"
    and "s = [] \<or> hd s = CHR ''/''" and "t = [] \<or> hd t = CHR ''/''"
  shows "x = y \<and> s = t"
proof -
  have "takeWhile (\<lambda>c. c \<noteq> CHR ''/'') (z @ u) = z" if "CHR ''/'' \<notin> set z" "u = [] \<or> hd u = CHR ''/''" for z u
    using that by (cases u) (auto simp: takeWhile_append2 takeWhile_tail)
  from this [OF assms(2,4)] this [OF assms(3,5)] assms(1) show ?thesis by auto
qed

lemma joined_hd: "joined p = [] \<or> hd (joined p) = CHR ''/''"
  by (cases p) simp_all

lemma joined_inj: "joined p = joined q \<Longrightarrow> wf_path p \<Longrightarrow> wf_path q \<Longrightarrow> p = q"
proof (induction p arbitrary: q)
  case Nil
  then show ?case by (cases q) simp_all
next
  case (Cons c p)
  then obtain d q' where q: "q = d # q'" by (cases q) simp_all
  with Cons.prems split_component [of c "joined p" d "joined q'"] joined_hd have "c = d" "joined p = joined q'" by auto
  with Cons q show ?case by simp
qed

lemma joined_below:
  assumes "joined q = joined p @ CHR ''/'' # t" and "wf_path p" and "wf_path q"
  shows "\<exists>r. q = p @ r \<and> r \<noteq> []"
  using assms
proof (induction p arbitrary: q)
  case Nil
  then show ?case by (cases q) simp_all
next
  case (Cons c p)
  then obtain d q' where q: "q = d # q'" by (cases q) simp_all
  have "joined p @ CHR ''/'' # t = [] \<or> hd (joined p @ CHR ''/'' # t) = CHR ''/''" by (cases p) simp_all
  with Cons.prems q split_component [of d "joined q'" c "joined p @ CHR ''/'' # t"] joined_hd
  have "d = c" "joined q' = joined p @ CHR ''/'' # t" by auto
  with Cons q show ?case by auto
qed

lemma below_joined: "q = p @ r \<Longrightarrow> r \<noteq> [] \<Longrightarrow> \<exists>t. joined q = joined p @ CHR ''/'' # t"
proof (induction p arbitrary: q)
  case Nil
  then show ?case by (cases r) simp_all
qed auto

lemma text_starts_iff: "text_starts p s \<longleftrightarrow> (\<exists>t. s = p @ t)"
  unfolding text_starts_def by (metis append_eq_conv_conj)

lemma key_joined: "p \<noteq> [] \<Longrightarrow> protected_key (False, p) = joined (map lower p)"
  by (simp add: protected_key_def written_text_def path_text_joined lower_joined)

text \<open>What the comparison of keys means for the components.\<close>

definition same_path :: "path \<Rightarrow> path \<Rightarrow> bool" where
  "same_path p q = (map lower p = map lower q)"

definition protected_file :: "path list \<Rightarrow> path \<Rightarrow> bool" where
  "protected_file bases p =
     (\<exists>base\<in>set bases. same_path p (base @ [''project.json'']) \<or>
        same_path (take (Suc (length base)) p) (base @ [''scripts'']))"

lemma protected_exact:
  assumes "wf_path p" and "\<forall>base\<in>set bases. wf_path base"
  shows "is_protected_project_json (False, p) bases \<longleftrightarrow> protected_file bases p"
proof (cases "p = []")
  case True
  have "\<not> is_protected_project_json (False, []) bases"
    by (auto simp: is_protected_project_json_def Let_def list_ex_iff key_joined text_starts_iff protected_key_def written_text_def path_text_def
        lower_def lower_char_def Cons_eq_append_conv) 
  with True show ?thesis by (auto simp: protected_file_def same_path_def)
next
  case False
  have eq: "protected_key (False, p) = protected_key (False, base @ [x]) \<longleftrightarrow> same_path p (base @ [x])"
    if "wf_path base" "wf_path [x]" for base x
    using False that assms(1) joined_inj [of "map lower p" "map lower (base @ [x])"]
    by (auto simp: key_joined same_path_def simp del: map_append)
  have below: "protected_key (False, p) = protected_key (False, q) \<or> text_starts (protected_key (False, q) @ ''/'') (protected_key (False, p)) \<longleftrightarrow>
      same_path (take (length q) p) q" if "wf_path q" "q \<noteq> []" for q
  proof -
    have "protected_key (False, p) = protected_key (False, q) \<or> text_starts (protected_key (False, q) @ ''/'') (protected_key (False, p)) \<longleftrightarrow>
       (\<exists>r. map lower p = map lower q @ r)"
      using False that assms(1) joined_inj [of "map lower p" "map lower q"]
        joined_below [of "map lower p" "map lower q"] below_joined [of "map lower p" "map lower q"]
      by (auto simp: key_joined text_starts_iff) (metis append_Nil2)+
    also have "\<dots> \<longleftrightarrow> take (length q) (map lower p) = map lower q"
      by (metis append_eq_conv_conj append_take_drop_id length_map)
    finally show ?thesis by (simp add: same_path_def take_map)
  qed
  show ?thesis
    unfolding is_protected_project_json_def protected_file_def Let_def list_ex_iff
  proof (rule bex_cong [OF refl])
    fix base assume "base \<in> set bases"
    with assms(2) have w: "wf_path base" by blast
    from below [of "base @ [''scripts'']"] eq [OF w, of "''project.json''"] w
    show "(protected_key (False, p) = protected_key (False, base @ [''project.json'']) \<or>
        protected_key (False, p) = protected_key (False, base @ [''scripts'']) \<or>
        text_starts (protected_key (False, base @ [''scripts'']) @ ''/'') (protected_key (False, p))) =
       (same_path p (base @ [''project.json'']) \<or> same_path (take (Suc (length base)) p) (base @ [''scripts'']))"
      by simp
  qed
qed


text \<open>The text of a path with the double root begins with two slashes, that of a base with one.\<close>

lemma double_root_unprotected:
  assumes "\<forall>base\<in>set bases. wf_path base"
  shows "\<not> is_protected_project_json (True, p) bases"
proof -
  have "protected_key (True, p) \<noteq> protected_key (False, base @ [x]) \<and>
      \<not> text_starts (protected_key (False, base @ [x]) @ s) (protected_key (True, p))"
    if "wf_path base" "wf_path [x]" for base x s
  proof -
    have "wf_path (map lower (base @ [x]))" unfolding wf_lower using that by simp
    moreover obtain y q where y: "map lower (base @ [x]) = y # q" by (cases "map lower (base @ [x])") simp_all
    ultimately have "wf_path (y # q)" by (simp only:)
    then have "y \<noteq> []" "CHR ''/'' \<notin> set y" by simp_all
    then obtain d cs where k: "map lower (base @ [x]) = (d # cs) # q" "d \<noteq> CHR ''/''" using y by (cases y) auto
    obtain u where u: "protected_key (True, p) = CHR ''/'' # CHR ''/'' # u"
      by (cases p) (auto simp: protected_key_def written_text_def path_text_def lower_def lower_char_def)
    have "protected_key (False, base @ [x]) = joined (map lower (base @ [x]))" by (simp add: key_joined del: map_append)
    then have "protected_key (False, base @ [x]) = CHR ''/'' # d # cs @ joined q" by (simp add: k(1) del: map_append)
    with u k(2) show ?thesis by (auto simp: text_starts_iff)
  qed
  with assms show ?thesis
    unfolding is_protected_project_json_def Let_def list_ex_iff by simp
qed

lemma written_protected:
  "wf_path p \<Longrightarrow> \<forall>base\<in>set bases. wf_path base \<Longrightarrow>
   is_protected_project_json (double, p) bases \<longleftrightarrow> \<not> double \<and> protected_file bases p"
  by (cases double) (simp_all add: double_root_unprotected protected_exact)

section \<open>What the paths of the tools are\<close>

lemma split_on_pieces: "sep \<notin> set acc \<Longrightarrow> piece \<in> set (split_on sep acc s) \<Longrightarrow> sep \<notin> set piece"
  by (induction sep acc s rule: split_on.induct) (auto split: if_splits)

lemma joined_split: "joined (split_on (CHR ''/'') acc s) = CHR ''/'' # rev acc @ s"
  by (induction "CHR ''/''" acc s rule: split_on.induct) auto

lemma wf_path_components [simp]: "wf_path (path_components t)"
  using split_on_pieces [of "CHR ''/''" "[]" _ t] by (simp add: path_components_def wf_path_def)

lemma wf_logical_path: "wf_path cwd \<Longrightarrow> wf_path (snd (logical_path cwd t))"
  by (simp add: logical_path_def)

lemma wf_butlast: "wf_path p \<Longrightarrow> wf_path (butlast p)"
  unfolding wf_path_def by (blast dest: in_set_butlastD)

lemma wf_normpath: "wf_path p \<Longrightarrow> wf_path (normpath p)"
proof -
  have "wf_path acc \<Longrightarrow> wf_path p \<Longrightarrow> wf_path (foldl (\<lambda>acc c. if c = ''..'' then butlast acc else acc @ [c]) acc p)" for acc
    by (induction p arbitrary: acc) (simp_all add: wf_butlast)
  from this [of "[]"] show "wf_path p \<Longrightarrow> wf_path (normpath p)" by (simp add: normpath_def)
qed

lemma wf_bases:
  "wf_path cwd \<Longrightarrow> \<forall>q p. resolve q = Some p \<longrightarrow> wf_path p \<Longrightarrow> \<forall>b\<in>set (enumerate_cwd_bases resolve cwd). wf_path b"
  by (auto simp: enumerate_cwd_bases_def split: option.splits)

lemma check_write_exact:
  assumes "wf_path cwd" and "\<forall>q p. resolve q = Some p \<longrightarrow> wf_path p" and "wf_path p" and "wf_path n"
  shows "check_write_access resolve cwd p (double, n) = Allowed \<longleftrightarrow>
    (\<exists>b\<in>set (enumerate_cwd_bases resolve cwd). take (length b) p = b) \<and>
    \<not> protected_file (enumerate_cwd_bases resolve cwd) p \<and> (double \<or> \<not> protected_file (enumerate_cwd_bases resolve cwd) n) \<and>
    lower (path_suffix p) \<notin> set code_extensions_forbidden"
  using written_protected [OF assms(3) wf_bases [OF assms(1,2)]] written_protected [OF assms(4) wf_bases [OF assms(1,2)]]
  by (simp add: check_write_access_def Let_def list_ex_iff is_relative_to_def)

text \<open>C33. A call of Write or Edit with a path is let through exactly when the path resolves to a file that lies in the
  directory of the project (as given or as resolved), that is not sensitive and has no extension of code, that is, without
  regard to case, neither the project file nor anything in the directory of the scripts of either form of the directory,
  and when the path as written, with its dots removed, is none of these either - unless it is written with exactly two
  slashes at its beginning, in which case what is written is compared with nothing. Hypotheses: absolute paths have
  components that are neither empty nor contain a slash, which the file system guarantees; the directory of the project
  itself is given with one slash.\<close>

theorem write_confined:
  assumes "tool = ''Write'' \<or> tool = ''Edit''" and "dict_ref inp ''file_path'' = JStr t" and "t \<noteq> []"
    and "wf_path cwd" and "\<forall>q p. resolve q = Some p \<longrightarrow> wf_path p"
  shows "file_access_hook r resolve cwd tool inp = Allowed \<longleftrightarrow>
    (\<exists>p. resolve (snd (logical_path cwd t)) = Some p \<and> \<not> is_sensitive_path r p \<and>
       (\<exists>b\<in>set (enumerate_cwd_bases resolve cwd). take (length b) p = b) \<and>
       \<not> protected_file (enumerate_cwd_bases resolve cwd) p \<and>
       (double_root t \<or> \<not> protected_file (enumerate_cwd_bases resolve cwd) (normpath (snd (logical_path cwd t)))) \<and>
       lower (path_suffix p) \<notin> set code_extensions_forbidden)"
proof -
  have "file_access_hook r resolve cwd tool inp = is_path_allowed r resolve cwd t tool"
    using assms(1-3) by (auto simp: file_access_hook_def path_tools_def)
  moreover have "tool \<in> set write_tools" using assms(1) by (auto simp: write_tools_def)
  moreover have "fst (logical_path cwd t) = double_root t" by (cases t) (auto simp: logical_path_def double_root_def)
  moreover note check_write_exact [OF assms(4,5) _ wf_normpath [OF wf_logical_path [OF assms(4)]]]
  ultimately show ?thesis
    using assms(5) by (cases "resolve (snd (logical_path cwd t))") (simp_all add: is_path_allowed_def split_def Let_def)
qed

definition demo_roots :: roots where
  "demo_roots = \<lparr>ro_repo = [''srv'', ''app''], ro_data = [''srv'', ''app'', ''projects''],
     ro_profile = [''srv'', ''app'', ''profile''], ro_logs = [''srv'', ''app'', ''logs''], ro_claude = None,
     ro_tmp = [''/tmp/claude-''], ro_is_dir = (\<lambda>p. length p = 4)\<rparr>"

definition demo_cwd :: path where
  "demo_cwd = [''srv'', ''app'', ''projects'', ''p'']"

lemma wf_demo_cwd: "wf_path demo_cwd"
  by (simp add: demo_cwd_def)

lemma write_confined_witness:
  "file_access_hook demo_roots (\<lambda>q. if wf_path q then Some (normpath q) else None) demo_cwd ''Write''
     [(''file_path'', JStr ''drafts/../Scripts/e1.md'')] \<noteq> Allowed"
proof -
  have wf: "\<forall>q p. (if wf_path q then Some (normpath q) else None) = Some p \<longrightarrow> wf_path p"
    by (auto intro: wf_normpath split: if_splits)
  have l: "snd (logical_path demo_cwd ''drafts/../Scripts/e1.md'') = demo_cwd @ [''drafts'', ''..'', ''Scripts'', ''e1.md'']"
    by (simp add: logical_path_def path_components_def)
  have "protected_file (enumerate_cwd_bases resolve demo_cwd) (normpath (snd (logical_path demo_cwd ''drafts/../Scripts/e1.md'')))"
    for resolve
  proof -
    have "lower ''Scripts'' = lower ''scripts''" by code_simp
    then show ?thesis
      unfolding l protected_file_def
      by (intro bexI [of _ demo_cwd])
        (simp_all add: normpath_def same_path_def demo_cwd_def enumerate_cwd_bases_def split: option.split)
  qed
  then show ?thesis
    using write_confined [OF _ _ _ wf_demo_cwd wf, of "''Write''" "[(''file_path'', JStr ''drafts/../Scripts/e1.md'')]"
        "''drafts/../Scripts/e1.md''" demo_roots] by (simp add: dict_ref_def dict_get_def coalesce_def)
qed

text \<open>
  What the double root opens: a link in the directory of the scripts that leads to another file of the project is
  refused to a tool that writes to it, as it should be, but not when its path is written with two slashes.
\<close>

theorem two_slashes_pass_the_link:
  "let resolve = (\<lambda>q. Some (if q = demo_cwd @ [''scripts'', ''e1.json''] then demo_cwd @ [''draft.json''] else q))
   in file_access_hook demo_roots resolve demo_cwd ''Write''
        [(''file_path'', JStr ''/srv/app/projects/p/scripts/e1.json'')] = Protected_json \<and>
      file_access_hook demo_roots resolve demo_cwd ''Write''
        [(''file_path'', JStr ''//srv/app/projects/p/scripts/e1.json'')] = Allowed"
  by code_simp

section \<open>Other projects\<close>

text \<open>Of the file tools, only the searches reach other projects. A path that resolves to the directory of another
  project or below it is refused to every tool, but when a search is given a path that resolves to the directory above
  all projects, it is let through: a search works on the tree below its path, so its result contains the files of the
  other projects.\<close>

theorem other_projects_only_by_search:
  assumes "cwd = ro_data r @ [name]" and "d \<noteq> name" and "ro_is_dir r (ro_data r @ [d])"
    and "resolve (snd (logical_path cwd t)) = Some (ro_data r @ d # rest)" and "t \<noteq> []"
    and "\<not> is_tool_result r cwd (ro_data r @ d # rest)" and "\<not> is_task_output r (ro_data r @ d # rest)"
    and "resolve (snd (logical_path cwd up)) = Some (ro_data r)" and "up \<noteq> []" and "\<not> is_sensitive_path r (ro_data r)"
    and "tool = ''Read'' \<and> key = ''file_path'' \<or> tool = ''Grep'' \<and> key = ''path'' \<or> tool = ''Glob'' \<and> key = ''path''"
  shows "file_access_hook r resolve cwd tool [(key, JStr t)] \<noteq> Allowed \<and>
    file_access_hook r resolve cwd tool [(key, JStr up)] = Allowed"
proof -
  have hook: "file_access_hook r resolve cwd tool [(key, JStr s)] = is_path_allowed r resolve cwd s tool" if "s \<noteq> []" for s
    using assms(11) that by (auto simp: file_access_hook_def path_tools_def dict_ref_def dict_get_def coalesce_def)
  have read: "tool \<notin> set write_tools" using assms(11) by (auto simp: write_tools_def)
  have "check_read_access r cwd (ro_data r @ d # rest) = Cross_project"
    using assms(1-3,6,7) by (auto simp: check_read_access_def is_relative_to_def)
  moreover have "check_read_access r cwd (ro_data r) = Allowed"
    by (auto simp: check_read_access_def is_relative_to_def)
  ultimately show ?thesis
    using hook [OF assms(5)] hook [OF assms(9)] read assms(4,8,10) by (simp add: is_path_allowed_def split_def Let_def)
qed

lemma other_projects_only_by_search_witness:
  "file_access_hook demo_roots (\<lambda>p. Some (normpath p)) demo_cwd ''Grep'' [(''path'', JStr ''../q/project.json'')] \<noteq> Allowed \<and>
   file_access_hook demo_roots (\<lambda>p. Some (normpath p)) demo_cwd ''Grep'' [(''path'', JStr ''..'')] = Allowed"
proof (rule other_projects_only_by_search [where name = "''p''" and d = "''q''" and rest = "[''project.json'']"])
  show "demo_cwd = ro_data demo_roots @ [''p'']" by code_simp
  show "Some (normpath (snd (logical_path demo_cwd ''../q/project.json''))) = Some (ro_data demo_roots @ ''q'' # [''project.json''])"
    by code_simp
  show "\<not> is_tool_result demo_roots demo_cwd (ro_data demo_roots @ ''q'' # [''project.json''])" by code_simp
  show "\<not> is_task_output demo_roots (ro_data demo_roots @ ''q'' # [''project.json''])" by code_simp
  show "Some (normpath (snd (logical_path demo_cwd ''..''))) = Some (ro_data demo_roots)" by code_simp
  show "\<not> is_sensitive_path demo_roots (ro_data demo_roots)" by code_simp
qed (simp_all add: demo_roots_def)

text \<open>The list of sensitive files is compared with regard to case, the list of protected files without.\<close>

theorem sensitive_by_other_case:
  "file_access_hook demo_roots (\<lambda>p. Some (normpath p)) demo_cwd ''Read'' [(''file_path'', JStr ''/srv/app/.env'')] = Sensitive \<and>
   file_access_hook demo_roots (\<lambda>p. Some (normpath p)) demo_cwd ''Read'' [(''file_path'', JStr ''/srv/app/.ENV'')] = Allowed \<and>
   file_access_hook demo_roots (\<lambda>p. Some (normpath p)) demo_cwd ''Write'' [(''file_path'', JStr ''Project.JSON'')] = Protected_json"
  by code_simp

section \<open>Commands\<close>

lemma traversal_inside: "path_traversal b (pre @ ''/../'' @ s)"
  by (induction pre arbitrary: b) (simp_all add: is_separator_def)

lemma takeWhile_rest: "\<exists>rest. s = takeWhile P s @ rest \<and> (rest = [] \<or> \<not> P (hd rest))"
  by (metis takeWhile_dropWhile_id hd_dropWhile)

lemma skill_script_form:
  assumes "skill_script w"
  shows "\<exists>skill name. w = ''.claude/skills/'' @ skill @ ''/scripts/'' @ name @ ''.py'' \<and> skill \<noteq> [] \<and> name \<noteq> [] \<and>
    CHR ''/'' \<notin> set skill \<and> CHR ''/'' \<notin> set name"
proof -
  from assms obtain skill script where p: "split_on (CHR ''/'') [] w = [''.claude'', ''skills'', skill, ''scripts'', script]"
    and s: "skill \<noteq> []" "3 < length script" "drop (length script - 3) script = ''.py''"
    by (auto simp: skill_script_def split: list.splits)
  have w: "w = ''.claude/skills/'' @ skill @ ''/scripts/'' @ script" using joined_split [of "[]" w] p by simp
  have "CHR ''/'' \<notin> set skill" "CHR ''/'' \<notin> set script" using split_on_pieces [of "CHR ''/''" "[]" _ w] p by auto
  moreover obtain name where n: "script = name @ ''.py''" using s(3) append_take_drop_id by metis
  moreover have "name \<noteq> []" using s(2) n by auto
  ultimately show ?thesis using w s(1) by auto
qed

definition plain_text :: "string \<Rightarrow> bool" where
  "plain_text s = list_all (\<lambda>c. c \<noteq> CHR 0x22 \<and> c \<noteq> CHR 0x27 \<and> c \<noteq> CHR 0x5C) s"

lemma plain_text_read:
  assumes "plain_text command"
  shows "slashes (unquote (strip command)) = strip command"
proof -
  have "set (strip command) \<subseteq> set command"
    unfolding strip_def by (auto dest!: set_dropWhileD)
  with assms have "\<forall>c\<in>set (strip command). c \<noteq> CHR 0x22 \<and> c \<noteq> CHR 0x27 \<and> c \<noteq> CHR 0x5C"
    by (auto simp: plain_text_def list_all_iff)
  then show ?thesis by (simp add: slashes_def unquote_def filter_id_conv map_idI)
qed

lemma first_word_prefix:
  assumes "\<forall>c\<in>set p. \<not> is_space c" and "p \<noteq> []" and "rest = [] \<or> is_space (hd rest)"
  shows "first_word (p @ rest) = p" and "after_word (p @ rest) = rest"
  using assms by (cases p; cases rest; simp add: first_word_def after_word_def takeWhile_append2 dropWhile_append2)+

lemma program_word:
  "text_starts ''ffmpeg '' s \<Longrightarrow> first_word s = ''ffmpeg''" "text_starts ''ffprobe '' s \<Longrightarrow> first_word s = ''ffprobe''"
  "text_starts ''python .claude/skills/'' s \<Longrightarrow> first_word s = ''python''"
  by (auto simp: text_starts_iff first_word_def is_space_def)

lemma components_joined:
  assumes "\<forall>c\<in>set p. CHR ''/'' \<notin> set c" and "CHR ''/'' \<notin> set first"
  shows "path_components (first @ joined p) = filter (\<lambda>c. c \<noteq> [] \<and> c \<noteq> ''.'') (first # p)"
proof -
  have "split_on (CHR ''/'') acc (x @ joined q) = (rev acc @ x) # q"
    if "\<forall>c\<in>set q. CHR ''/'' \<notin> set c" "CHR ''/'' \<notin> set x" for acc x q
    using that
  proof (induction q arbitrary: acc x)
    case Nil
    then show ?case by (induction x arbitrary: acc) auto
  next
    case (Cons c q)
    then have "split_on (CHR ''/'') acc (x @ CHR ''/'' # s) = (rev acc @ x) # split_on (CHR ''/'') [] s" for s
      by (induction x arbitrary: acc) auto
    with Cons show ?case by simp
  qed
  from this [OF assms, of "[]"] show ?thesis by (simp add: path_components_def)
qed

lemma script_place:
  assumes "CHR ''/'' \<notin> set skill" and "skill \<noteq> []" and "skill \<noteq> ''..''" and "CHR ''/'' \<notin> set name" and "name \<noteq> []"
  shows "normpath (path_components (''.claude/skills/'' @ skill @ ''/scripts/'' @ name @ ''.py'')) =
    [''.claude'', ''skills''] @ (if skill = ''.'' then [] else [skill]) @ [''scripts'', name @ ''.py'']"
  using components_joined [of "[''skills'', skill, ''scripts'', name @ ''.py'']" "''.claude''"] assms
  by (simp add: normpath_def append_eq_Cons_conv)

text \<open>C34. A command that is let through without a sandbox contains no character that chains commands, redirects or
  substitutes. What the check reads is the command without quotes and with slashes for backslashes; of this text, the
  first word is ffmpeg, ffprobe or python, and with python the next word names a Python file in the directory
  \<open>scripts\<close> of a directory of \<open>.claude/skills\<close>, or in \<open>.claude/skills/scripts\<close> itself (a skill that is written as a
  dot), never above it. A command without quotes and backslashes is read as it is written. With them the words of the
  shell may be others, and the shell expands braces after the check: two gaps, shown below.\<close>

theorem bash_confined:
  assumes "is_bash_command_whitelisted command"
  shows "(\<forall>c\<in>set (strip command). \<not> is_metachar c) \<and>
    (let cmd = slashes (unquote (strip command)); script = first_word (after_word cmd)
     in (plain_text command \<longrightarrow> cmd = strip command) \<and>
        (first_word cmd = ''ffmpeg'' \<or> first_word cmd = ''ffprobe'' \<or>
         first_word cmd = ''python'' \<and>
         (\<exists>skill name. script = ''.claude/skills/'' @ skill @ ''/scripts/'' @ name @ ''.py'' \<and> skill \<noteq> [] \<and> name \<noteq> [] \<and>
            normpath (path_components script) =
              [''.claude'', ''skills''] @ (if skill = ''.'' then [] else [skill]) @ [''scripts'', name @ ''.py''])))"
proof -
  let ?n = "slashes (unquote (strip command))"
  have meta: "\<forall>c\<in>set (strip command). \<not> is_metachar c" and trav: "\<not> path_traversal True ?n"
    and cases: "text_starts python_skills_prefix ?n \<and> is_allowed_python_skill_command ?n \<or>
      ?n = ''ffmpeg'' \<or> text_starts ''ffmpeg '' ?n \<or> ?n = ''ffprobe'' \<or> text_starts ''ffprobe '' ?n"
    using assms by (auto simp: is_bash_command_whitelisted_def Let_def list_ex_iff bash_prefix_whitelist_def
        python_skills_prefix_def)
  let ?w = "first_word (after_word ?n)"
  have script: "\<exists>skill name. ?w = ''.claude/skills/'' @ skill @ ''/scripts/'' @ name @ ''.py'' \<and> skill \<noteq> [] \<and> name \<noteq> [] \<and>
      normpath (path_components ?w) =
        [''.claude'', ''skills''] @ (if skill = ''.'' then [] else [skill]) @ [''scripts'', name @ ''.py'']"
    if py: "text_starts python_skills_prefix ?n" and ok: "is_allowed_python_skill_command ?n"
  proof -
    obtain t where t: "?n = ''python .claude/skills/'' @ t" using py by (auto simp: text_starts_iff python_skills_prefix_def)
    have w: "?w = takeWhile (\<lambda>c. \<not> is_space c) (''.claude/skills/'' @ t)"
      unfolding t first_word_def after_word_def by (simp add: is_space_def)
    from ok skill_script_form obtain skill name where f: "?w = ''.claude/skills/'' @ skill @ ''/scripts/'' @ name @ ''.py''"
        "skill \<noteq> []" "name \<noteq> []" "CHR ''/'' \<notin> set skill" "CHR ''/'' \<notin> set name"
      unfolding is_allowed_python_skill_command_def by blast
    obtain rest where "''.claude/skills/'' @ t = ?w @ rest"
      using takeWhile_rest [of "''.claude/skills/'' @ t" "\<lambda>c. \<not> is_space c"] unfolding w by blast
    then have "''.claude/skills/'' @ t = (''.claude/skills/'' @ skill @ ''/scripts/'' @ name @ ''.py'') @ rest"
      unfolding f(1) .
    then have "?n = ''python '' @ ''.claude/skills/'' @ skill @ ''/scripts/'' @ name @ ''.py'' @ rest"
      unfolding t by simp
    then have "skill \<noteq> ''..''"
      using trav traversal_inside [of True "''python .claude/skills''" "''scripts/'' @ name @ ''.py'' @ rest"] by auto
    with script_place f show ?thesis by metis
  qed
  have words: "first_word ''ffmpeg'' = ''ffmpeg''" "first_word ''ffprobe'' = ''ffprobe''" by code_simp+
  have py: "text_starts python_skills_prefix s \<Longrightarrow> first_word s = ''python''" for s
    by (rule program_word(3)) (simp add: python_skills_prefix_def)
  have program: "first_word ?n = ''ffmpeg'' \<or> first_word ?n = ''ffprobe'' \<or> first_word ?n = ''python'' \<and>
      text_starts python_skills_prefix ?n \<and> is_allowed_python_skill_command ?n"
    using cases program_word(1,2) [of ?n] py [of ?n] words by (elim disjE) auto
  show ?thesis
    unfolding Let_def
    by (intro conjI impI meta plain_text_read) (use program script in blast)+
qed

lemma bash_confined_witness:
  "\<not> list_ex is_metachar (strip ''python .claude/skills/cut/scripts/run.py --fast'') \<and>
   \<not> is_bash_command_whitelisted ''python .claude/skills/../scripts/run.py''"
proof
  have ok: "is_bash_command_whitelisted ''python .claude/skills/cut/scripts/run.py --fast''" by code_simp
  from bash_confined [OF ok]
  show "\<not> list_ex is_metachar (strip ''python .claude/skills/cut/scripts/run.py --fast'')" unfolding list_ex_iff by blast
  show "\<not> is_bash_command_whitelisted ''python .claude/skills/../scripts/run.py''" by code_simp
qed

text \<open>The gaps: a command that is one quoted word, so that the shell looks for a program of that name, is let through as
  a call of ffmpeg; and two dots between braces, which the shell takes for a step to the directory above, are no step
  for the check.\<close>

theorem quotes_and_braces_pass:
  "is_bash_command_whitelisted (CHR 0x22 # ''ffmpeg /x'' @ [CHR 0x22]) \<and>
   is_bash_command_whitelisted ''python .claude/skills/{..,a}/scripts/x.py'' \<and>
   \<not> is_bash_command_whitelisted ''python .claude/skills/../scripts/x.py''"
  by code_simp

end
