(* ===== verification/FailureStore.thy ===== *)
theory FailureStore
  imports TaskCascade TaskFailure
begin

text \<open>
  The reason of a failure on its way through the task table (\<open>lib/task_failure.py\<close> with \<open>mark_failed\<close> of
  \<open>lib/db/repositories/task_repo.py\<close>): encoded, cut to 2000 characters, stored, read back and rendered.
\<close>

lemma queued_dep_keeps_row:
  assumes "unique_ids s" and "find_task tid s = Some t" and "status t \<noteq> Queued"
  shows "find_task tid (snd (mark_failed_queued_dep dep msg now s)) = Some t"
  using assms find_task_SomeD [of dep s]
  by (auto simp: mark_failed_queued_dep_eq find_task_put fail_row_def split: option.splits)

lemma cascade_loop_keeps_row:
  "table_inv s \<Longrightarrow> find_task tid s = Some t \<Longrightarrow> status t \<noteq> Queued \<Longrightarrow>
     find_task tid (snd (cascade_failed_loop d msg deps now s)) = Some t"
proof (induction d msg deps now s rule: cascade_failed_loop.induct)
  case (2 d msg dep deps now s)
  let ?b = "blocked_message d msg"
  obtain n s1 where m: "mark_failed_queued_dep dep ?b now s = (n, s1)" by fastforce
  have i1: "table_inv s1" using mark_failed_dep.keeps_table [OF 2(4), of dep ?b now] m by simp
  have f1: "find_task tid s1 = Some t"
    using queued_dep_keeps_row [OF _ 2(5,6), of dep ?b now] 2(4) m by (simp add: table_inv_def)
  show ?case
  proof (cases "n = 0")
    case True
    with 2(1) [OF refl m [symmetric] True i1 f1 2(6)] m show ?thesis by (simp add: Let_def)
  next
    case False
    obtain k s2 where c: "cascade_failed_loop dep ?b (map task_id (queued_dependents dep s1)) now s1 = (k, s2)"
      by fastforce
    have "find_task tid s2 = Some t" using 2(2) [OF refl m [symmetric] False i1 f1 2(6)] c by simp
    moreover have "table_inv s2"
      using any_steps_table_inv [OF repo_any [OF cascade_failed_loop_run [OF i1, of dep ?b "map task_id (queued_dependents dep s1)" now]] i1] c
      by simp
    ultimately have "find_task tid (snd (cascade_failed_loop d msg deps now s2)) = Some t"
      using 2(3) [OF refl m [symmetric] False c [symmetric]] 2(6) by simp
    with m c False show ?thesis by (auto simp: Let_def split: prod.splits)
  qed
qed simp

lemma mark_failed_stores:
  assumes inv: "table_inv s" and t: "find_task tid s = Some t" "status t = Running"
  shows "find_task tid (snd (mark_failed tid msg now s)) = Some (fail_row msg now t)"
proof -
  let ?s1 = "log_task ''failed'' Failed now (fail_row msg now t) (put_task (fail_row msg now t) s)"
  have u: "unique_ids s" using inv by (simp add: table_inv_def)
  have m: "mark_failed_running tid msg now s = (1, ?s1)" by (simp add: mark_failed_running_eq [OF u] t)
  have "table_inv ?s1" using mark_failed_running.keeps_table [OF inv, of tid msg now] m by simp
  moreover have "find_task tid ?s1 = Some (fail_row msg now t)"
    using find_task_SomeD [OF t(1)] t(1) by (simp add: find_task_put fail_row_def)
  ultimately show ?thesis
    using cascade_loop_keeps_row [of ?s1 tid "fail_row msg now t"]
    by (simp add: mark_failed_def cascade_failed_queued_def m fail_row_def split: prod.split)
qed

text \<open>C20. The reason of a failure is read back from the task table: when a running task is failed with a declared code and
  parameters whose encoding is at most 2000 characters long, the length at which the table cuts a reason, then rendering the
  stored reason calls the translator with the message key of that code and with a dictionary that holds those
  parameters and nothing else.\<close>

theorem stored_reason_read_back:
  assumes "encode_failure code params = Some reason" and "distinct (map fst params)" and "length reason \<le> 2000"
    and "find_task tid (run_queue ops empty_db) = Some t" and "status t = Running"
  shows "\<exists>t' key d. find_task tid (snd (mark_failed tid reason now (run_queue ops empty_db))) = Some t' \<and> status t' = Failed \<and>
     map_of failure_codes code = Some key \<and> render_failure (error_message t') translate = Some (translate key d) \<and>
     wf_dict d \<and> (\<forall>k. dict_get d k = map_option JStr (map_of params k))"
proof -
  have "find_task tid (snd (mark_failed tid reason now (run_queue ops empty_db))) = Some (fail_row reason now t)"
    by (rule mark_failed_stores) (simp_all add: assms(4,5))
  moreover have "error_message (fail_row reason now t) = Some reason" using assms(3) by (simp add: fail_row_def)
  ultimately show ?thesis using failure_roundtrip [OF assms(1,2), of translate] by (fastforce simp: fail_row_def)
qed

theorem stored_reason_read_back_witness:
  "\<exists>t' key d. find_task ''a'' (snd (mark_failed ''a'' ''[resume_expired_detail] {\"detail\": \"gone\"}'' 4
       (run_queue (sample_ops @ [(RepoOp (OpClaimNext ''image'' []), 3)]) empty_db))) = Some t' \<and> status t' = Failed \<and>
     map_of failure_codes ''resume_expired_detail'' = Some key \<and> render_failure (error_message t') (\<lambda>k d. k) = Some key \<and>
     wf_dict d \<and> (\<forall>k. dict_get d k = map_option JStr (map_of [(''detail'', ''gone'')] k))"
proof -
  let ?s = "run_queue (sample_ops @ [(RepoOp (OpClaimNext ''image'' []), 3)]) empty_db"
  let ?r = "''[resume_expired_detail] {\"detail\": \"gone\"}''"
  have e: "encode_failure ''resume_expired_detail'' [(''detail'', ''gone'')] = Some ?r" by code_simp
  have "map_option status (find_task ''a'' ?s) = Some Running" by code_simp
  then obtain t where t: "find_task ''a'' ?s = Some t" "status t = Running" by auto
  from stored_reason_read_back [OF e _ _ t, of 4 "\<lambda>k d. k"] show ?thesis by simp
qed

text \<open>A longer reason is cut. When the cut falls into a word, what is left is no structured reason any more, and the reader
  sees the cut encoding instead of the message of the code.\<close>

theorem long_reason_shown_raw:
  assumes "find_task tid (run_queue ops empty_db) = Some t" and "status t = Running"
    and "2000 < length reason" and "is_word (reason ! 1999)"
  shows "\<exists>t'. find_task tid (snd (mark_failed tid reason now (run_queue ops empty_db))) = Some t' \<and>
     render_failure (error_message t') translate = Some (take 2000 reason)"
proof -
  let ?c = "take 2000 reason"
  have l: "?c \<noteq> []" using assms(3) by auto
  have "last ?c = reason ! 1999" using last_conv_nth [OF l] assms(3) by simp
  then have w: "is_word (last ?c)" using assms(4) by simp
  have last_suffix: "last (dropWhile is_word xs) = last xs" if "dropWhile is_word xs \<noteq> []" for xs
    using that by (metis last_appendR takeWhile_dropWhile_id)
  have "match_structured ?c = None"
  proof (rule ccontr)
    define c where "c = ?c"
    define r where "r = dropWhile is_word (tl c)"
    assume "match_structured ?c \<noteq> None"
    then have m: "r \<noteq> []" "hd r = CHR '']''" "tl c \<noteq> []" "let p = drop_final_newline (tl r) in p = [] \<or> last p = CHR ''}''"
      by (auto simp: match_structured_def Let_def c_def r_def split: if_splits)
    have "last r = last c" using last_suffix [of "tl c"] m(1,3) by (simp add: r_def last_tl)
    then have lr: "is_word (last r)" using w by (simp add: c_def)
    show False
    proof (cases "tl r = []")
      case True
      with m(1,2) have "last r = CHR '']''" by (cases r) auto
      with lr show False by (simp add: is_word_def is_digit_def)
    next
      case False
      then have "last (tl r) = last r" by (simp add: last_tl)
      moreover have "last r \<noteq> CHR 0x0A" "last r \<noteq> CHR ''}''" using lr by (auto simp: is_word_def is_digit_def)
      ultimately show False using False m(4) by (simp add: drop_final_newline_def)
    qed
  qed
  moreover have "find_task tid (snd (mark_failed tid reason now (run_queue ops empty_db))) = Some (fail_row reason now t)"
    by (rule mark_failed_stores) (simp_all add: assms(1,2))
  ultimately show ?thesis using l by (simp add: fail_row_def render_failure_def)
qed

theorem long_reason_shown_raw_witness:
  "\<exists>t'. find_task ''a'' (snd (mark_failed ''a'' (''[resume_expired_detail] {\"detail\": \"'' @ replicate 2000 (CHR ''x'') @ ''\"}'') 4
       (run_queue (sample_ops @ [(RepoOp (OpClaimNext ''image'' []), 3)]) empty_db))) = Some t' \<and>
     render_failure (error_message t') (\<lambda>k d. k) =
       Some (take 2000 (''[resume_expired_detail] {\"detail\": \"'' @ replicate 2000 (CHR ''x'') @ ''\"}''))"
proof -
  let ?s = "run_queue (sample_ops @ [(RepoOp (OpClaimNext ''image'' []), 3)]) empty_db"
  have "map_option status (find_task ''a'' ?s) = Some Running" by code_simp
  then obtain t where t: "find_task ''a'' ?s = Some t" "status t = Running" by auto
  show ?thesis by (rule long_reason_shown_raw [OF t]) (simp_all add: nth_append is_word_def is_digit_def)
qed

end
