(* ===== verification/ProfileSync.thy ===== *)
theory ProfileSync
  imports PyJson "HOL-Library.AList" "HOL-Library.List_Lexorder" "HOL-Library.Char_ord"
begin

text \<open>
  The copy of the agent profile that every project holds (\<open>lib/profile_manifest.py\<close>): a manifest remembers what was
  delivered, so that a synchronisation can tell a file nobody touched from one the user changed or deleted. A tree is
  an association list from relative POSIX paths to contents; the hash of a content is an argument, and so is what the
  file system refuses. A stored manifest is the value of its JSON text, none when it is missing, a link or no JSON.
\<close>

section \<open>Names\<close>

definition valid_content_modes :: "string list" where
  "valid_content_modes = [''narration'', ''drama'', ''ad'']"

definition split_suffix :: "string \<Rightarrow> string \<times> string" where
  "split_suffix name =
     (let ext = takeWhile (\<lambda>c. c \<noteq> CHR ''.'') (rev name)
      in if ext \<noteq> [] \<and> Suc (length ext) < length name
         then (take (length name - Suc (length ext)) name, CHR ''.'' # rev ext) else (name, []))"

definition rsplit_dot :: "string \<Rightarrow> (string \<times> string) option" where
  "rsplit_dot s =
     (let t = takeWhile (\<lambda>c. c \<noteq> CHR ''.'') (rev s)
      in if length t = length s then None else Some (take (length s - Suc (length t)) s, rev t))"

fun join_path :: "string list \<Rightarrow> string" where
  "join_path [] = ''.''"
| "join_path [c] = c"
| "join_path (c # cs) = c @ CHR ''/'' # join_path cs"

definition parse_variant_suffix :: "string \<Rightarrow> string \<times> string option" where
  "parse_variant_suffix rel =
     (let cs = split_on (CHR ''/'') [] rel; (stem, suffix) = split_suffix (last cs)
      in case rsplit_dot stem of
           Some (base, mode) \<Rightarrow>
             if mode \<in> set valid_content_modes
             then (join_path (butlast cs @ (if base @ suffix = [] then [] else [base @ suffix])), Some mode)
             else (rel, None)
         | None \<Rightarrow> (rel, None))"

definition in_tree :: "string \<Rightarrow> bool" where
  "in_tree rel = (take 8 rel = ''.claude/'')"

definition is_skippable_dest :: "string \<Rightarrow> bool" where
  "is_skippable_dest rel = (rel = ''.arcreel_profile_manifest.json'' \<or> rel = ''.profile_sync.lock'')"

definition normalize_profile_rel_path :: "string \<Rightarrow> string option" where
  "normalize_profile_rel_path rel =
     (let cs = filter (\<lambda>c. c \<noteq> [] \<and> c \<noteq> ''.'') (split_on (CHR ''/'') [] rel); out = join_path cs
      in if rel = [] \<or> take 1 rel = ''/'' \<or> ''..'' \<in> set cs \<or> is_skippable_dest out then None else Some out)"

section \<open>The profile seen by a mode\<close>

type_synonym tree = "(string \<times> string) list"

definition enumerate_profile_files :: "tree \<Rightarrow> string list" where
  "enumerate_profile_files profile =
     filter (\<lambda>rel. CHR ''/'' \<notin> set rel \<and> fst (parse_variant_suffix rel) = ''CLAUDE.md'' \<or> in_tree rel) (map fst profile)"

definition enumerate_dest_files :: "tree \<Rightarrow> string list" where
  "enumerate_dest_files files =
     filter (\<lambda>rel. rel = ''CLAUDE.md'' \<or> in_tree rel \<and> \<not> is_skippable_dest rel) (map fst files)"

datatype sync_error = Profile_missing | Profile_empty | Misconfigured | Bad_mode | Bad_path

definition commons :: "string list \<Rightarrow> (string \<times> string) list" where
  "commons srcs = map (\<lambda>s. (s, s)) (filter (\<lambda>s. snd (parse_variant_suffix s) = None) srcs)"

definition variants :: "string list \<Rightarrow> (string \<times> string \<times> string) list" where
  "variants srcs =
     List.map_filter (\<lambda>s. case parse_variant_suffix s of (l, Some m) \<Rightarrow> Some (l, m, s) | _ \<Rightarrow> None) srcs"

definition variant_of :: "(string \<times> string \<times> string) list \<Rightarrow> string \<Rightarrow> string \<Rightarrow> string option" where
  "variant_of vs logical mode = map_of (rev (map (\<lambda>(l, m, s). ((l, m), s)) vs)) (logical, mode)"

definition resolve_profile_files_for_mode :: "tree \<Rightarrow> string \<Rightarrow> sync_error + (string \<times> string) list" where
  "resolve_profile_files_for_mode profile mode =
     (let srcs = enumerate_profile_files profile; cs = commons srcs; vs = variants srcs; ls = remdups (map fst vs)
      in if mode \<notin> set valid_content_modes then Inl Bad_mode
         else if list_ex (\<lambda>l. l \<in> set (map fst cs)) ls then Inl Misconfigured
         else if list_ex (\<lambda>l. list_ex (\<lambda>m. variant_of vs l m = None) valid_content_modes) ls then Inl Misconfigured
         else Inr (cs @ map (\<lambda>l. (l, coalesce (variant_of vs l mode) [])) ls))"

section \<open>The manifest\<close>

record manifest =
  mf_schema :: json
  mf_entries :: "(string \<times> dict) list"
  mf_mode :: "string option"

definition empty_manifest :: manifest where
  "empty_manifest = \<lparr>mf_schema = JInt 1, mf_entries = [], mf_mode = None\<rparr>"

definition to_jsonable :: "manifest \<Rightarrow> json" where
  "to_jsonable m =
     JObj ([(''schema_version'', mf_schema m), (''profile_id'', JStr ''arcreel/builtin''),
            (''entries'', JObj (map (\<lambda>(k, e). (k, JObj e)) (sort_key fst (mf_entries m))))] @
           (case mf_mode m of None \<Rightarrow> [] | Some mode \<Rightarrow> [(''content_mode'', JStr mode)]))"

definition manifest_entry_ok :: "json \<Rightarrow> bool" where
  "manifest_entry_ok v =
     (case v of
        JObj e \<Rightarrow> dict_ref e ''source'' = JStr ''profile'' \<and> as_str (dict_ref e ''sha256'') \<noteq> None \<or>
                  dict_ref e ''source'' = JStr ''tombstone''
      | _ \<Rightarrow> False)"

definition load_manifest :: "json option \<Rightarrow> manifest option" where
  "load_manifest stored =
     (case stored of
        Some (JObj d) \<Rightarrow>
          (case dict_ref d ''entries'' of
             JObj es \<Rightarrow>
               if py_eq (dict_ref d ''schema_version'') (JInt 1) \<and> dict_ref d ''profile_id'' = JStr ''arcreel/builtin'' \<and>
                  list_all (\<lambda>(_, v). manifest_entry_ok v) es
               then (let m = \<lparr>mf_schema = dict_ref d ''schema_version'',
                              mf_entries = map (\<lambda>(k, v). (k, coalesce (as_dict v) [])) es, mf_mode = None\<rparr>
                     in case dict_ref d ''content_mode'' of
                          JNull \<Rightarrow> Some m
                        | JStr mode \<Rightarrow> if mode \<in> set valid_content_modes then Some (m\<lparr>mf_mode := Some mode\<rparr>) else None
                        | _ \<Rightarrow> None)
               else None
           | _ \<Rightarrow> None)
      | _ \<Rightarrow> None)"

definition profile_active_entry :: "(string \<Rightarrow> string) \<Rightarrow> string \<Rightarrow> dict" where
  "profile_active_entry hash c =
     [(''sha256'', JStr (hash c)), (''size'', JInt (int (length c))), (''source'', JStr ''profile'')]"

definition tombstone_entry :: "string \<Rightarrow> dict" where
  "tombstone_entry now = [(''source'', JStr ''tombstone''), (''deleted_at'', JStr now)]"

datatype entry_kind = No_entry | Tombstone | Active json

definition kind_of :: "dict option \<Rightarrow> entry_kind" where
  "kind_of m =
     (case m of
        None \<Rightarrow> No_entry
      | Some e \<Rightarrow> if dict_ref e ''source'' = JStr ''tombstone'' then Tombstone else Active (dict_ref e ''sha256''))"

section \<open>Synchronising\<close>

type_synonym stats = "string \<Rightarrow> nat"

record sync_state =
  ss_files :: tree
  ss_entries :: "(string \<times> dict) list"
  ss_stats :: stats

definition bump :: "string \<Rightarrow> sync_state \<Rightarrow> sync_state" where
  "bump k st = st\<lparr>ss_stats := (ss_stats st)(k := Suc (ss_stats st k))\<rparr>"

definition set_entry :: "string \<Rightarrow> dict \<Rightarrow> sync_state \<Rightarrow> sync_state" where
  "set_entry rel e st = st\<lparr>ss_entries := AList.update rel e (ss_entries st)\<rparr>"

definition drop_entry :: "string \<Rightarrow> sync_state \<Rightarrow> sync_state" where
  "drop_entry rel st = st\<lparr>ss_entries := AList.delete rel (ss_entries st)\<rparr>"

definition safe_copy :: "string \<Rightarrow> string \<Rightarrow> sync_state \<Rightarrow> sync_state" where
  "safe_copy rel c st = st\<lparr>ss_files := AList.update rel c (ss_files st)\<rparr>"

definition remove_file :: "string \<Rightarrow> sync_state \<Rightarrow> sync_state" where
  "remove_file rel st = st\<lparr>ss_files := AList.delete rel (ss_files st)\<rparr>"

text \<open>The table of decisions, by the file in the profile, the file in the project and the entry.\<close>

definition apply_decision ::
  "(string \<Rightarrow> string) \<Rightarrow> string \<Rightarrow> string \<Rightarrow> string option \<Rightarrow> string option \<Rightarrow> entry_kind \<Rightarrow> sync_state \<Rightarrow> sync_state" where
  "apply_decision hash now rel p d m st =
     (case (p, d, m) of
        (Some c, None, No_entry) \<Rightarrow> bump ''created'' (set_entry rel (profile_active_entry hash c) (safe_copy rel c st))
      | (Some c, None, Active h) \<Rightarrow> bump ''skipped'' (bump ''deleted_user'' (set_entry rel (tombstone_entry now) st))
      | (Some c, Some b, Active h) \<Rightarrow>
          if hash b = hash c \<and> h = JStr (hash c) then bump ''skipped'' (bump ''unchanged'' st)
          else if JStr (hash b) = h \<and> hash b \<noteq> hash c
          then bump ''repaired'' (bump ''upgraded'' (set_entry rel (profile_active_entry hash c) (safe_copy rel c st)))
          else if JStr (hash b) \<noteq> h \<and> hash b = hash c
          then bump ''skipped'' (bump ''unchanged'' (set_entry rel (profile_active_entry hash c) st))
          else bump ''skipped'' (bump ''user_modified'' st)
      | (None, Some b, Active h) \<Rightarrow>
          if JStr (hash b) = h
          then bump ''repaired'' (bump ''pruned'' (set_entry rel (tombstone_entry now) (remove_file rel st)))
          else bump ''skipped'' (bump ''orphaned'' (drop_entry rel st))
      | (None, Some b, No_entry) \<Rightarrow> bump ''skipped'' (bump ''user_only'' st)
      | (Some c, Some b, Tombstone) \<Rightarrow> bump ''skipped'' (bump ''user_only'' (drop_entry rel st))
      | (Some c, None, Tombstone) \<Rightarrow> bump ''skipped'' (bump ''tombstoned'' st)
      | (None, Some b, Tombstone) \<Rightarrow> bump ''skipped'' (bump ''user_only'' (drop_entry rel st))
      | (None, None, Tombstone) \<Rightarrow> bump ''skipped'' (bump ''tombstoned'' st)
      | (None, None, Active h) \<Rightarrow> bump ''repaired'' (bump ''pruned'' (set_entry rel (tombstone_entry now) st))
      | (Some c, Some b, No_entry) \<Rightarrow>
          bump ''skipped'' (bump ''collision''
            (if hash b = hash c then set_entry rel (profile_active_entry hash c) st else st))
      | (None, None, No_entry) \<Rightarrow> st)"

text \<open>What the file system refuses: a path that leads outside, a file that cannot be read, or not be written.\<close>

datatype fault = No_fault | Escapes | Unreadable | Unwritable

definition writes :: "(string \<Rightarrow> string) \<Rightarrow> string option \<Rightarrow> string option \<Rightarrow> entry_kind \<Rightarrow> bool" where
  "writes hash p d m =
     (case (p, d, m) of
        (Some c, None, No_entry) \<Rightarrow> True
      | (Some c, Some b, Active h) \<Rightarrow> JStr (hash b) = h \<and> hash b \<noteq> hash c
      | (None, Some b, Active h) \<Rightarrow> JStr (hash b) = h
      | _ \<Rightarrow> False)"

definition refused :: "(string \<Rightarrow> string) \<Rightarrow> fault \<Rightarrow> string option \<Rightarrow> string option \<Rightarrow> entry_kind \<Rightarrow> bool" where
  "refused hash f p d m =
     (f = Escapes \<or> f = Unreadable \<and> (p \<noteq> None \<or> d \<noteq> None) \<or> f = Unwritable \<and> writes hash p d m)"

definition sync_one ::
  "(string \<Rightarrow> string) \<Rightarrow> string \<Rightarrow> (string \<Rightarrow> fault) \<Rightarrow> (string \<Rightarrow> string option) \<Rightarrow> (string \<Rightarrow> string option) \<Rightarrow>
     string \<Rightarrow> sync_state \<Rightarrow> sync_state" where
  "sync_one hash now fault src dest rel st =
     (let p = src rel; d = dest rel; m = kind_of (map_of (ss_entries st) rel)
      in if refused hash (fault rel) p d m then bump ''errors'' st
         else apply_decision hash now rel p d m st)"

record project =
  pj_files :: tree
  pj_manifest :: "json option"

definition no_stats :: stats where
  "no_stats = (\<lambda>_. 0)"

definition source_of :: "tree \<Rightarrow> (string \<times> string) list \<Rightarrow> string \<Rightarrow> string option" where
  "source_of profile mapping rel = Option.bind (map_of mapping rel) (map_of profile)"

definition reset_one ::
  "(string \<Rightarrow> string) \<Rightarrow> (string \<Rightarrow> fault) \<Rightarrow> tree \<Rightarrow> string \<times> string \<Rightarrow> sync_state \<Rightarrow> sync_state" where
  "reset_one hash fault profile e st =
     (case map_of profile (snd e) of
        None \<Rightarrow> bump ''errors'' st
      | Some c \<Rightarrow>
          if fault (fst e) \<in> {Unreadable, Unwritable} then bump ''errors'' st
          else bump ''created'' (bump ''migrated_total''
                 (set_entry (fst e) (profile_active_entry hash c) (safe_copy (fst e) c st))))"

text \<open>A reset empties both roots, whatever they hold, and delivers everything.\<close>

definition full_reset_from_profile ::
  "(string \<Rightarrow> string) \<Rightarrow> (string \<Rightarrow> fault) \<Rightarrow> tree \<Rightarrow> (string \<times> string) list \<Rightarrow> string \<Rightarrow> project \<Rightarrow> stats \<times> project" where
  "full_reset_from_profile hash fault profile mapping mode pj =
     (let kept = filter (\<lambda>(k, _). k \<notin> set (enumerate_dest_files (pj_files pj))) (pj_files pj);
          st = fold (reset_one hash fault profile) (sort_key fst mapping) \<lparr>ss_files = kept, ss_entries = [], ss_stats = no_stats\<rparr>
      in (ss_stats st, \<lparr>pj_files = ss_files st,
            pj_manifest = Some (to_jsonable \<lparr>mf_schema = JInt 1, mf_entries = ss_entries st, mf_mode = Some mode\<rparr>)\<rparr>))"

definition dest_of :: "tree \<Rightarrow> string \<Rightarrow> string option" where
  "dest_of files rel = (if rel \<in> set (enumerate_dest_files files) then map_of files rel else None)"

definition sync_keys :: "(string \<times> string) list \<Rightarrow> tree \<Rightarrow> (string \<times> dict) list \<Rightarrow> string list" where
  "sync_keys mapping files entries = sort (remdups (map fst mapping @ enumerate_dest_files files @ map fst entries))"

definition sync_profile_to_project ::
  "(string \<Rightarrow> string) \<Rightarrow> string \<Rightarrow> (string \<Rightarrow> fault) \<Rightarrow> tree option \<Rightarrow> string \<Rightarrow> project \<Rightarrow> sync_error + stats \<times> project" where
  "sync_profile_to_project hash now fault profile mode pj =
     (case profile of
        None \<Rightarrow> Inl Profile_missing
      | Some prof \<Rightarrow>
          bind_err (resolve_profile_files_for_mode prof mode) (\<lambda>mapping.
            if mapping = [] then Inl Profile_empty
            else (case load_manifest (pj_manifest pj) of
                    None \<Rightarrow> Inr (full_reset_from_profile hash fault prof mapping mode pj)
                  | Some mf \<Rightarrow>
                      if mf_mode mf \<noteq> None \<and> mf_mode mf \<noteq> Some mode
                      then Inr (full_reset_from_profile hash fault prof mapping mode pj)
                      else (let st = fold (sync_one hash now fault (source_of prof mapping) (dest_of (pj_files pj)))
                                       (sync_keys mapping (pj_files pj) (mf_entries mf))
                                       \<lparr>ss_files = pj_files pj, ss_entries = mf_entries mf, ss_stats = no_stats\<rparr>
                            in Inr (ss_stats st, \<lparr>pj_files = ss_files st,
                                 pj_manifest = Some (to_jsonable (mf\<lparr>mf_entries := ss_entries st, mf_mode := Some mode\<rparr>))\<rparr>)))))"

definition force_one ::
  "(string \<Rightarrow> string) \<Rightarrow> (string \<Rightarrow> fault) \<Rightarrow> (string \<Rightarrow> string option) \<Rightarrow> string \<Rightarrow> sync_state \<Rightarrow> sync_state" where
  "force_one hash fault src rel st =
     (case src rel of
        None \<Rightarrow> st
      | Some c \<Rightarrow>
          if fault rel \<noteq> No_fault then bump ''errors'' st
          else bump ''repaired'' (bump ''created'' (set_entry rel (profile_active_entry hash c) (safe_copy rel c st))))"

definition force_resync_profile ::
  "(string \<Rightarrow> string) \<Rightarrow> (string \<Rightarrow> fault) \<Rightarrow> tree option \<Rightarrow> string \<Rightarrow> string list option \<Rightarrow> project \<Rightarrow>
     sync_error + stats \<times> project" where
  "force_resync_profile hash fault profile mode paths pj =
     (case profile of
        None \<Rightarrow> Inl Profile_missing
      | Some prof \<Rightarrow>
          bind_err (resolve_profile_files_for_mode prof mode) (\<lambda>mapping.
            if mapping = [] then Inl Profile_empty
            else bind_err (case paths of
                             None \<Rightarrow> Inr (map fst mapping)
                           | Some ps \<Rightarrow> map_err (\<lambda>p. case normalize_profile_rel_path p of None \<Rightarrow> Inl Bad_path | Some r \<Rightarrow> Inr r) ps)
              (\<lambda>target.
                if load_manifest (pj_manifest pj) = None \<and> paths = None
                then Inr (full_reset_from_profile hash fault prof mapping mode pj)
                else (let mf = coalesce (load_manifest (pj_manifest pj)) empty_manifest;
                          st = fold (force_one hash fault (source_of prof mapping)) (sort (remdups target))
                                 \<lparr>ss_files = pj_files pj, ss_entries = mf_entries mf, ss_stats = no_stats\<rparr>
                      in Inr (ss_stats st, \<lparr>pj_files = ss_files st,
                           pj_manifest = Some (to_jsonable (mf\<lparr>mf_entries := ss_entries st, mf_mode := Some mode\<rparr>))\<rparr>)))))"

end
