(* ===== verification/ProfileProps.thy ===== *)
theory ProfileProps
  imports ProfileSync "HOL-Library.Multiset"
begin

text \<open>
  Properties of the synchronisation of the agent profile: what the user changed or deleted is left alone, a second
  synchronisation changes no file, every file is counted once, a reset delivers exactly the profile, all modes see the
  same logical files; and a file the profile drops and later brings back is not delivered by any later synchronisation of the mode.
\<close>

section \<open>One file at a time\<close>

lemma sync_simps [simp]:
  "ss_files (bump k st) = ss_files st" "ss_entries (bump k st) = ss_entries st"
  "ss_files (set_entry r e st) = ss_files st" "ss_entries (set_entry r e st) = AList.update r e (ss_entries st)"
  "ss_files (drop_entry r st) = ss_files st" "ss_entries (drop_entry r st) = AList.delete r (ss_entries st)"
  "ss_files (safe_copy r c st) = AList.update r c (ss_files st)" "ss_entries (safe_copy r c st) = ss_entries st"
  "ss_files (remove_file r st) = AList.delete r (ss_files st)" "ss_entries (remove_file r st) = ss_entries st"
  "ss_stats (set_entry r e st) = ss_stats st" "ss_stats (drop_entry r st) = ss_stats st"
  "ss_stats (safe_copy r c st) = ss_stats st" "ss_stats (remove_file r st) = ss_stats st"
  "ss_stats (bump k st) = (ss_stats st)(k := Suc (ss_stats st k))"
  by (simp_all add: bump_def set_entry_def drop_entry_def safe_copy_def remove_file_def)

lemmas alist_simps = update_conv' delete_conv' fun_upd_apply

text \<open>What a step leaves of a file and its entry, as a function of the file in the profile, in the project and its entry.\<close>

definition kind_after :: "(string \<Rightarrow> string) \<Rightarrow> string option \<Rightarrow> string option \<Rightarrow> entry_kind \<Rightarrow> entry_kind" where
  "kind_after hash p d m =
     (case (p, d, m) of
        (Some c, None, No_entry) \<Rightarrow> Active (JStr (hash c))
      | (Some c, Some b, Active h) \<Rightarrow> if hash b = hash c \<or> JStr (hash b) = h then Active (JStr (hash c)) else m
      | (Some c, Some b, No_entry) \<Rightarrow> if hash b = hash c then Active (JStr (hash c)) else No_entry
      | (None, Some b, Active h) \<Rightarrow> if JStr (hash b) = h then Tombstone else No_entry
      | (p, Some b, Tombstone) \<Rightarrow> No_entry
      | (p, None, Active h) \<Rightarrow> Tombstone
      | _ \<Rightarrow> m)"

lemma kind_of_simps [simp]:
  "kind_of None = No_entry" "kind_of (Some (profile_active_entry hash c)) = Active (JStr (hash c))"
  "kind_of (Some (tombstone_entry now)) = Tombstone"
  by (simp_all add: kind_of_def profile_active_entry_def tombstone_entry_def dict_ref_def dict_get_def)

lemmas decision_splits = option.splits entry_kind.splits if_splits

lemma apply_file:
  "map_of (ss_files (apply_decision hash now rel p d m st)) rel' =
     (if rel' = rel \<and> writes hash p d m then p else map_of (ss_files st) rel')"
  by (auto simp: apply_decision_def writes_def alist_simps split: decision_splits)

lemma apply_entry_other: "rel' \<noteq> rel \<Longrightarrow> map_of (ss_entries (apply_decision hash now rel p d m st)) rel' = map_of (ss_entries st) rel'"
  by (auto simp: apply_decision_def alist_simps split: decision_splits)

lemma apply_kind:
  assumes "kind_of (map_of (ss_entries st) rel) = m"
  shows "kind_of (map_of (ss_entries (apply_decision hash now rel p d m st)) rel) = kind_after hash p d m"
proof (cases m)
  case (Active h)
  show ?thesis
  proof (cases p)
    case None
    with assms Active show ?thesis by (cases d) (simp_all add: kind_after_def apply_decision_def alist_simps)
  next
    case (Some c)
    show ?thesis
    proof (cases d)
      case None
      with assms Active Some show ?thesis by (simp add: kind_after_def apply_decision_def alist_simps)
    next
      case (Some b)
      with assms Active \<open>p = Some c\<close> show ?thesis
        by (cases "hash b = hash c"; cases "JStr (hash b) = h")
          (simp_all add: kind_after_def apply_decision_def alist_simps)
    qed
  qed
qed (use assms in \<open>cases p; cases d; simp add: kind_after_def apply_decision_def alist_simps\<close>)+

lemma sync_one_entry_other: "rel' \<noteq> rel \<Longrightarrow> map_of (ss_entries (sync_one hash now fault src dest rel st)) rel' = map_of (ss_entries st) rel'"
  by (auto simp: sync_one_def Let_def apply_entry_other)

lemma sync_one_kind:
  "kind_of (map_of (ss_entries (sync_one hash now fault src dest rel st)) rel) =
     (let m = kind_of (map_of (ss_entries st) rel)
      in if refused hash (fault rel) (src rel) (dest rel) m then m else kind_after hash (src rel) (dest rel) m)"
  using apply_kind [OF refl] by (simp add: sync_one_def Let_def)

section \<open>All files\<close>

definition outcome_of ::
  "(string \<Rightarrow> string) \<Rightarrow> fault \<Rightarrow> string option \<Rightarrow> string option \<Rightarrow> string option \<times> entry_kind \<Rightarrow> string option \<times> entry_kind" where
  "outcome_of hash f p d s =
     (if refused hash f p d (snd s) then s else (if writes hash p d (snd s) then p else fst s, kind_after hash p d (snd s)))"

definition state_at :: "tree \<times> (string \<times> dict) list \<Rightarrow> string \<Rightarrow> string option \<times> entry_kind" where
  "state_at st rel = (map_of (fst st) rel, kind_of (map_of (snd st) rel))"

definition view :: "sync_state \<Rightarrow> tree \<times> (string \<times> dict) list" where
  "view st = (ss_files st, ss_entries st)"

lemma sync_one_at:
  "state_at (view (sync_one hash now fault src dest rel st)) rel' =
    (if rel' = rel then outcome_of hash (fault rel) (src rel) (dest rel) (state_at (view st) rel) else state_at (view st) rel')"
  using sync_one_kind [of hash now fault src dest rel st]
  by (auto simp: state_at_def view_def outcome_of_def Let_def sync_one_entry_other sync_one_def apply_file apply_entry_other)

lemma fold_sync:
  assumes "distinct keys"
  shows "state_at (view (fold (sync_one hash now fault src dest) keys st)) rel =
    (if rel \<in> set keys then outcome_of hash (fault rel) (src rel) (dest rel) (state_at (view st) rel) else state_at (view st) rel)"
  using assms by (induction keys arbitrary: st) (auto simp: sync_one_at)

text \<open>What a run leaves well formed: distinct keys, and entries that load.\<close>

definition good_entries :: "(string \<times> dict) list \<Rightarrow> bool" where
  "good_entries es = (distinct (map fst es) \<and> (\<forall>e\<in>set es. manifest_entry_ok (JObj (snd e))))"

lemma set_update: "set (AList.update k v al) \<subseteq> insert (k, v) (set al)"
  by (induction al) auto

lemma set_delete: "set (AList.delete k al) \<subseteq> set al"
  by (induction al) auto

lemma good_update: "good_entries es \<Longrightarrow> manifest_entry_ok (JObj e) \<Longrightarrow> good_entries (AList.update k e es)"
  using set_update [of k e es] by (auto simp: good_entries_def distinct_update)

lemma good_delete: "good_entries es \<Longrightarrow> good_entries (AList.delete k es)"
  using set_delete [of k es] by (auto simp: good_entries_def distinct_delete)

lemma entries_ok [simp]: "manifest_entry_ok (JObj (profile_active_entry hash c))" "manifest_entry_ok (JObj (tombstone_entry now))"
  by (simp_all add: manifest_entry_ok_def profile_active_entry_def tombstone_entry_def dict_ref_def dict_get_def)

lemma good_apply: "good_entries (ss_entries st) \<Longrightarrow> good_entries (ss_entries (apply_decision hash now rel p d m st))"
  by (auto simp: apply_decision_def good_update good_delete split: decision_splits)

lemma good_fold: "good_entries (ss_entries st) \<Longrightarrow> good_entries (ss_entries (fold (sync_one hash now fault src dest) keys st))"
  by (induction keys arbitrary: st) (auto simp: sync_one_def Let_def good_apply)

lemma map_of_sort: "distinct (map fst es) \<Longrightarrow> map_of (sort_key fst es) = map_of es"
proof -
  assume d: "distinct (map fst es)"
  have "mset (map fst (sort_key fst es)) = mset (map fst es)" by simp
  then have "distinct (map fst (sort_key fst es))" using d mset_eq_imp_distinct_iff by blast
  with d show ?thesis by (simp add: map_of_inject_set)
qed

text \<open>A manifest that was stored is loaded again.\<close>

lemma load_stored:
  assumes "good_entries (mf_entries m)" and "py_eq (mf_schema m) (JInt 1)"
    and "mf_mode m = None \<or> mf_mode m = Some mode \<and> mode \<in> set valid_content_modes"
  shows "load_manifest (Some (to_jsonable m)) = Some (m\<lparr>mf_entries := sort_key fst (mf_entries m)\<rparr>)"
proof -
  let ?es = "map (\<lambda>(k, e). (k, JObj e)) (sort_key fst (mf_entries m))"
  have "list_all (\<lambda>(_, v). manifest_entry_ok v) ?es" using assms(1) by (auto simp: list_all_iff good_entries_def)
  moreover have "map (\<lambda>(k, v). (k, coalesce (as_dict v) [])) ?es = sort_key fst (mf_entries m)"
    by (simp add: comp_def case_prod_unfold)
  ultimately show ?thesis
    using assms(2,3) by (auto simp: to_jsonable_def load_manifest_def dict_ref_def dict_get_def split: option.splits)
qed

lemma load_schema: "load_manifest s = Some m \<Longrightarrow> py_eq (mf_schema m) (JInt 1)"
  by (auto simp: load_manifest_def Let_def split: option.splits json.splits if_splits)

lemma load_entries:
  assumes "load_manifest s = Some m"
  shows "\<forall>e\<in>set (mf_entries m). manifest_entry_ok (JObj (snd e))"
proof -
  from assms obtain es where es: "list_all (\<lambda>(_, v). manifest_entry_ok v) es" "mf_entries m = map (\<lambda>(k, v). (k, coalesce (as_dict v) [])) es"
    by (auto simp: load_manifest_def Let_def split: option.splits json.splits if_splits)
  have "manifest_entry_ok (JObj (coalesce (as_dict v) []))" if "manifest_entry_ok v" for v
    using that by (cases v) (auto simp: manifest_entry_ok_def)
  with es show ?thesis by (auto simp: list_all_iff)
qed


section \<open>A whole run\<close>

lemma outcome_outside: "outcome_of hash f None None (s, No_entry) = (s, No_entry)"
  by (simp add: outcome_of_def writes_def kind_after_def)

lemma sync_run:
  assumes "resolve_profile_files_for_mode prof mode = Inr mapping" and "mapping \<noteq> []"
    and "load_manifest (pj_manifest pj) = Some mf" and "mf_mode mf = None \<or> mf_mode mf = Some mode"
    and "distinct (map fst (mf_entries mf))"
  shows "\<exists>s pj' mf'. sync_profile_to_project hash now fault (Some prof) mode pj = Inr (s, pj') \<and>
    load_manifest (pj_manifest pj') = Some mf' \<and> mf_mode mf' = Some mode \<and> distinct (map fst (mf_entries mf')) \<and>
    (\<forall>rel. state_at (pj_files pj', mf_entries mf') rel =
       outcome_of hash (fault rel) (source_of prof mapping rel) (dest_of (pj_files pj) rel)
         (state_at (pj_files pj, mf_entries mf) rel))"
proof -
  let ?keys = "sync_keys mapping (pj_files pj) (mf_entries mf)"
  let ?st = "fold (sync_one hash now fault (source_of prof mapping) (dest_of (pj_files pj))) ?keys
    \<lparr>ss_files = pj_files pj, ss_entries = mf_entries mf, ss_stats = no_stats\<rparr>"
  let ?mf = "mf\<lparr>mf_entries := ss_entries ?st, mf_mode := Some mode\<rparr>"
  have run: "sync_profile_to_project hash now fault (Some prof) mode pj =
      Inr (ss_stats ?st, \<lparr>pj_files = ss_files ?st, pj_manifest = Some (to_jsonable ?mf)\<rparr>)"
    using assms(1-4) by (auto simp: sync_profile_to_project_def Let_def)
  have "good_entries (ss_entries ?st)"
    by (rule good_fold) (use load_entries [OF assms(3)] assms(5) in \<open>simp add: good_entries_def\<close>)
  moreover have "mode \<in> set valid_content_modes"
    using assms(1) by (auto simp: resolve_profile_files_for_mode_def Let_def split: if_splits)
  ultimately have load: "load_manifest (Some (to_jsonable ?mf)) = Some (?mf\<lparr>mf_entries := sort_key fst (ss_entries ?st)\<rparr>)"
    and d: "distinct (map fst (ss_entries ?st))"
    using load_stored [of ?mf mode] load_schema [OF assms(3)] by (simp_all add: good_entries_def)
  have "mset (map fst (sort_key fst (ss_entries ?st))) = mset (map fst (ss_entries ?st))" by simp
  then have d': "distinct (map fst (sort_key fst (ss_entries ?st)))" using d mset_eq_imp_distinct_iff by blast
  have at: "state_at (ss_files ?st, sort_key fst (ss_entries ?st)) rel =
      outcome_of hash (fault rel) (source_of prof mapping rel) (dest_of (pj_files pj) rel)
        (state_at (pj_files pj, mf_entries mf) rel)" for rel
  proof -
    have eq: "state_at (ss_files ?st, sort_key fst (ss_entries ?st)) rel = state_at (view ?st) rel"
      by (simp add: state_at_def view_def map_of_sort [OF d])
    have k: "distinct ?keys" by (simp add: sync_keys_def)
    show ?thesis
    proof (cases "rel \<in> set ?keys")
      case True
      with fold_sync [OF k, of hash now fault] show ?thesis unfolding eq by (simp add: view_def)
    next
      case False
      then have "rel \<notin> fst ` set mapping" "rel \<notin> set (enumerate_dest_files (pj_files pj))" "rel \<notin> fst ` set (mf_entries mf)"
        by (auto simp: sync_keys_def)
      then have "map_of mapping rel = None" "dest_of (pj_files pj) rel = None" "map_of (mf_entries mf) rel = None"
        by (simp_all add: map_of_eq_None_iff dest_of_def)
      with False fold_sync [OF k, of hash now fault] show ?thesis
        unfolding eq by (simp add: view_def state_at_def source_of_def outcome_outside)
    qed
  qed
  show ?thesis by (intro exI conjI allI) (rule run, use load in simp, simp, simp add: d', use at in simp)
qed

lemma sync_runE:
  assumes "resolve_profile_files_for_mode prof mode = Inr mapping"
    and "load_manifest (pj_manifest pj) = Some mf" and "mf_mode mf = None \<or> mf_mode mf = Some mode"
    and "distinct (map fst (mf_entries mf))"
    and "sync_profile_to_project hash now fault (Some prof) mode pj = Inr (s, pj')"
  obtains mf' where "load_manifest (pj_manifest pj') = Some mf'" "mf_mode mf' = Some mode" "distinct (map fst (mf_entries mf'))"
    "state_at (pj_files pj', mf_entries mf') rel = outcome_of hash (fault rel) (source_of prof mapping rel)
       (dest_of (pj_files pj) rel) (state_at (pj_files pj, mf_entries mf) rel)"
proof -
  have "mapping \<noteq> []" using assms(1,5) by (auto simp: sync_profile_to_project_def)
  from sync_run [OF assms(1) this assms(2-4), of hash now fault] assms(5) that show ?thesis by auto
qed

section \<open>Synchronising again\<close>

definition in_roots :: "string \<Rightarrow> bool" where
  "in_roots rel = (rel = ''CLAUDE.md'' \<or> in_tree rel \<and> \<not> is_skippable_dest rel)"

lemma dest_of_eq: "dest_of files rel = (if in_roots rel then map_of files rel else None)"
  by (auto simp: dest_of_def enumerate_dest_files_def in_roots_def map_of_eq_None_iff[symmetric] intro!: sym [where t = None])

lemma settled:
  assumes "\<not> refused hash f p c m"
  shows "\<not> writes hash p (if writes hash p c m then p else c) (kind_after hash p c m)"
  by (cases m; cases p; cases c) (auto simp: writes_def kind_after_def)

lemma outcome_again:
  "fst (outcome_of hash f p (fst (outcome_of hash f p c (c, m))) (outcome_of hash f p c (c, m))) = fst (outcome_of hash f p c (c, m))"
  using settled [of hash f p c m] by (auto simp: outcome_of_def)

lemma outcome_again_outside: "fst (outcome_of hash f p None (outcome_of hash f p None (c, m))) = fst (outcome_of hash f p None (c, m))"
  by (cases p; cases m) (auto simp: outcome_of_def writes_def kind_after_def)

section \<open>Resolving and resetting\<close>

lemma variants_mem: "(l, m, s) \<in> set (variants srcs) \<Longrightarrow> s \<in> set srcs \<and> parse_variant_suffix s = (l, Some m)"
  by (induction srcs) (auto simp: variants_def map_filter_simps split: option.splits prod.splits if_splits)

lemma variant_of_mem: "variant_of (variants srcs) l m = Some s \<Longrightarrow> s \<in> set srcs"
  by (auto simp: variant_of_def dest!: map_of_SomeD dest: variants_mem)

lemma resolve_InrD:
  assumes "resolve_profile_files_for_mode prof mode = Inr mapping" and "distinct (map fst prof)"
  shows "distinct (map fst mapping)" and "\<forall>e\<in>set mapping. map_of prof (snd e) \<noteq> None"
proof -
  let ?srcs = "enumerate_profile_files prof"
  let ?ls = "remdups (map fst (variants ?srcs))"
  from assms(1) have m: "mapping = commons ?srcs @ map (\<lambda>l. (l, coalesce (variant_of (variants ?srcs) l mode) [])) ?ls"
    and dis: "\<forall>l\<in>set ?ls. l \<notin> set (map fst (commons ?srcs))"
    and all: "\<forall>l\<in>set ?ls. variant_of (variants ?srcs) l mode \<noteq> None"
    by (auto simp: resolve_profile_files_for_mode_def Let_def list_ex_iff split: if_splits)
  have "distinct ?srcs" using assms(2) by (simp add: enumerate_profile_files_def)
  then have "distinct (map fst (commons ?srcs))" by (simp add: commons_def comp_def)
  moreover have "map fst (map (\<lambda>l. (l, coalesce (variant_of (variants ?srcs) l mode) [])) ?ls) = ?ls" by (simp add: comp_def)
  moreover have "set (map fst (commons ?srcs)) \<inter> set ?ls = {}" using dis by blast
  ultimately show "distinct (map fst mapping)" unfolding m map_append distinct_append by simp
  have known: "s \<in> set ?srcs \<Longrightarrow> map_of prof s \<noteq> None" for s
    by (auto simp: enumerate_profile_files_def map_of_eq_None_iff)
  show "\<forall>e\<in>set mapping. map_of prof (snd e) \<noteq> None"
  proof
    fix e assume "e \<in> set mapping"
    then consider "e \<in> set (commons ?srcs)" | l where "l \<in> set ?ls" "e = (l, coalesce (variant_of (variants ?srcs) l mode) [])"
      unfolding m by auto
    then show "map_of prof (snd e) \<noteq> None"
    proof cases
      case 1
      then show ?thesis using known by (auto simp: commons_def)
    next
      case 2
      with all obtain s where "variant_of (variants ?srcs) l mode = Some s" by auto
      with 2(2) variant_of_mem [OF this] known show ?thesis by simp
    qed
  qed
qed

definition undelivered :: "(string \<Rightarrow> fault) \<Rightarrow> string \<Rightarrow> bool" where
  "undelivered fault rel = (fault rel \<in> {Unreadable, Unwritable})"

lemma fold_reset:
  assumes "distinct (map fst es)" and "\<forall>e\<in>set es. map_of prof (snd e) \<noteq> None"
  shows "state_at (view (fold (reset_one hash fault prof) es st)) rel =
      (case Option.bind (map_of es rel) (map_of prof) of
         None \<Rightarrow> state_at (view st) rel
       | Some c \<Rightarrow> if undelivered fault rel then state_at (view st) rel else (Some c, Active (JStr (hash c))))"
  using assms
proof (induction es arbitrary: st)
  case (Cons e es)
  obtain k src where e: "e = (k, src)" by (cases e)
  with Cons.prems obtain c where c: "map_of prof src = Some c" by auto
  have one: "state_at (view (reset_one hash fault prof (k, src) st)) r =
      (if r = k \<and> \<not> undelivered fault r then (Some c, Active (JStr (hash c))) else state_at (view st) r)" for r
    using c by (auto simp: reset_one_def undelivered_def state_at_def view_def alist_simps)
  have "map_of es k = None" using Cons.prems(1) e by (simp add: map_of_eq_None_iff)
  with Cons.IH [of "reset_one hash fault prof (k, src) st"] Cons.prems c show ?case
    by (auto simp: e one split: option.splits)
qed simp

definition needs_reset :: "string \<Rightarrow> project \<Rightarrow> bool" where
  "needs_reset mode pj =
     (case load_manifest (pj_manifest pj) of None \<Rightarrow> True | Some mf \<Rightarrow> mf_mode mf \<noteq> None \<and> mf_mode mf \<noteq> Some mode)"

text \<open>A reset, file by file: what it leaves of the files and of the entries, and that its manifest is loaded again.\<close>

definition reset_outcome ::
  "(string \<Rightarrow> string) \<Rightarrow> (string \<Rightarrow> fault) \<Rightarrow> (string \<Rightarrow> string option) \<Rightarrow> tree \<Rightarrow> string \<Rightarrow> string option \<times> entry_kind" where
  "reset_outcome hash fault src files rel =
     (case src rel of
        Some c \<Rightarrow>
          if undelivered fault rel then (if in_roots rel then None else map_of files rel, No_entry)
          else (Some c, Active (JStr (hash c)))
      | None \<Rightarrow> (if in_roots rel then None else map_of files rel, No_entry))"

lemma kept_files:
  "map_of (filter (\<lambda>(k, _). k \<notin> set (enumerate_dest_files files)) files) rel = (if in_roots rel then None else map_of files rel)"
proof (cases "in_roots rel")
  case True
  then show ?thesis by (force simp: map_of_eq_None_iff enumerate_dest_files_def in_roots_def)
next
  case False
  then have "rel \<notin> set (enumerate_dest_files files)" by (auto simp: enumerate_dest_files_def in_roots_def)
  then have "map_of (filter (\<lambda>(k, _). k \<notin> set (enumerate_dest_files files)) xs) rel = map_of xs rel" for xs
    by (induction xs) auto
  with False show ?thesis by simp
qed

lemma good_reset: "good_entries (ss_entries st) \<Longrightarrow> good_entries (ss_entries (fold (reset_one hash fault prof) es st))"
  by (induction es arbitrary: st) (auto simp: reset_one_def good_update split: option.splits)

lemma reset_run:
  assumes "resolve_profile_files_for_mode prof mode = Inr mapping" and "distinct (map fst prof)" and "needs_reset mode pj"
    and "sync_profile_to_project hash now fault (Some prof) mode pj = Inr (s, pj')"
  shows "\<exists>mf. load_manifest (pj_manifest pj') = Some mf \<and> mf_mode mf = Some mode \<and> distinct (map fst (mf_entries mf)) \<and>
    (\<forall>rel. state_at (pj_files pj', mf_entries mf) rel =
       reset_outcome hash fault (source_of prof mapping) (pj_files pj) rel)"
proof -
  let ?kept = "filter (\<lambda>(k, _). k \<notin> set (enumerate_dest_files (pj_files pj))) (pj_files pj)"
  let ?st = "fold (reset_one hash fault prof) (sort_key fst mapping) \<lparr>ss_files = ?kept, ss_entries = [], ss_stats = no_stats\<rparr>"
  let ?mf = "\<lparr>mf_schema = JInt 1, mf_entries = ss_entries ?st, mf_mode = Some mode\<rparr>"
  have "sync_profile_to_project hash now fault (Some prof) mode pj = Inr (full_reset_from_profile hash fault prof mapping mode pj)"
    using assms(1,3,4) by (auto simp: sync_profile_to_project_def needs_reset_def split: if_splits option.splits)
  with assms(4) have pj': "pj_files pj' = ss_files ?st" "pj_manifest pj' = Some (to_jsonable ?mf)"
    by (auto simp: full_reset_from_profile_def Let_def)
  have "mode \<in> set valid_content_modes"
    using assms(1) by (auto simp: resolve_profile_files_for_mode_def Let_def split: if_splits)
  moreover have good: "good_entries (ss_entries ?st)" by (rule good_reset) (simp add: good_entries_def)
  ultimately have load: "load_manifest (pj_manifest pj') = Some (?mf\<lparr>mf_entries := sort_key fst (ss_entries ?st)\<rparr>)"
    unfolding pj' by (subst load_stored [of ?mf mode]) simp_all
  have d: "distinct (map fst (ss_entries ?st))" using good by (simp add: good_entries_def)
  have "mset (map fst (sort_key fst (ss_entries ?st))) = mset (map fst (ss_entries ?st))" by simp
  then have d': "distinct (map fst (sort_key fst (ss_entries ?st)))" using d mset_eq_imp_distinct_iff by blast
  note dm = resolve_InrD [OF assms(1,2)]
  have "mset (map fst (sort_key fst mapping)) = mset (map fst mapping)" by simp
  then have dm': "distinct (map fst (sort_key fst mapping))" using dm(1) mset_eq_imp_distinct_iff by blast
  have "state_at (pj_files pj', sort_key fst (ss_entries ?st)) rel =
      reset_outcome hash fault (source_of prof mapping) (pj_files pj) rel" for rel
  proof -
    have "state_at (pj_files pj', sort_key fst (ss_entries ?st)) rel = state_at (view ?st) rel"
      by (simp add: state_at_def view_def map_of_sort [OF d] pj')
    also have "\<dots> = reset_outcome hash fault (source_of prof mapping) (pj_files pj) rel"
      using fold_reset [OF dm', of prof hash fault] dm(2)
      by (auto simp: map_of_sort [OF dm(1)] reset_outcome_def source_of_def state_at_def view_def kept_files
          split: option.splits)
    finally show ?thesis .
  qed
  with load d' show ?thesis by (intro exI [of _ "?mf\<lparr>mf_entries := sort_key fst (ss_entries ?st)\<rparr>"]) simp
qed

text \<open>When there is no valid manifest, or it belongs to another mode, the directory of the project ends up with
  exactly the files of the profile for the mode: what the user had changed or added there is gone.\<close>

theorem reset_delivers_profile:
  assumes "resolve_profile_files_for_mode prof mode = Inr mapping" and "distinct (map fst prof)"
    and "load_manifest (pj_manifest pj) = None \<or>
      (\<exists>mf. load_manifest (pj_manifest pj) = Some mf \<and> mf_mode mf \<noteq> None \<and> mf_mode mf \<noteq> Some mode)"
    and "\<forall>rel. fault rel = No_fault"
    and "sync_profile_to_project hash now fault (Some prof) mode pj = Inr (s, pj')" and "in_roots rel"
  shows "map_of (pj_files pj') rel = source_of prof mapping rel"
proof -
  have "needs_reset mode pj" using assms(3) by (auto simp: needs_reset_def)
  from reset_run [OF assms(1,2) this assms(5)] obtain mf :: manifest where
    "state_at (pj_files pj', mf_entries mf) rel = reset_outcome hash fault (source_of prof mapping) (pj_files pj) rel" by blast
  then have "map_of (pj_files pj') rel = fst (reset_outcome hash fault (source_of prof mapping) (pj_files pj) rel)"
    by (metis state_at_def fst_conv)
  with assms(4,6) show ?thesis by (simp add: reset_outcome_def undelivered_def split: option.splits)
qed

section \<open>What the user changed\<close>



lemma reset_then_run:
  "fst (outcome_of hash (fault rel) (src rel) (if in_roots rel then fst (reset_outcome hash fault src files rel) else None)
     (reset_outcome hash fault src files rel)) = fst (reset_outcome hash fault src files rel)"
  by (auto simp: reset_outcome_def outcome_of_def undelivered_def refused_def writes_def split: option.splits)

text \<open>C36. Whatever a synchronisation is given - a project with or without a valid manifest, of this mode or another -, when
  it succeeds, the next one with the same profile and the same file system succeeds too and changes no file. So a
  first delivery that is a reset delivers all that a synchronisation delivers. Hypotheses: a directory lists a file
  once, and the keys of a stored object are distinct.\<close>

theorem sync_idempotent:
  assumes "sync_profile_to_project hash now fault (Some prof) mode pj = Inr (s, pj1)" and "distinct (map fst prof)"
    and "\<forall>mf. load_manifest (pj_manifest pj) = Some mf \<longrightarrow> distinct (map fst (mf_entries mf))"
  shows "\<exists>s' pj2. sync_profile_to_project hash now' fault (Some prof) mode pj1 = Inr (s', pj2) \<and>
    map_of (pj_files pj2) = map_of (pj_files pj1)"
proof -
  from assms(1) obtain mapping where m: "resolve_profile_files_for_mode prof mode = Inr mapping" "mapping \<noteq> []"
    by (cases "resolve_profile_files_for_mode prof mode") (auto simp: sync_profile_to_project_def split: if_splits)
  let ?src = "source_of prof mapping"
  define again where "again = (\<lambda>mf1 :: manifest. \<forall>rel. fst (outcome_of hash (fault rel) (?src rel) (dest_of (pj_files pj1) rel)
      (state_at (pj_files pj1, mf_entries mf1) rel)) = map_of (pj_files pj1) rel)"
  have d1: "dest_of (pj_files pj1) rel = (if in_roots rel then fst (state_at (pj_files pj1, es) rel) else None)" for rel es
    by (simp add: dest_of_eq state_at_def)
  have f1: "map_of (pj_files pj1) rel = fst (state_at (pj_files pj1, es) rel)" for rel es by (simp add: state_at_def)
  have "\<exists>mf1. load_manifest (pj_manifest pj1) = Some mf1 \<and> mf_mode mf1 = Some mode \<and> distinct (map fst (mf_entries mf1)) \<and> again mf1"
  proof (cases "needs_reset mode pj")
    case True
    from reset_run [OF m(1) assms(2) True assms(1)] obtain mf1 where
      one: "load_manifest (pj_manifest pj1) = Some mf1" "mf_mode mf1 = Some mode" "distinct (map fst (mf_entries mf1))"
      "\<And>rel. state_at (pj_files pj1, mf_entries mf1) rel = reset_outcome hash fault ?src (pj_files pj) rel" by blast
    have "again mf1" unfolding again_def d1 [of _ "mf_entries mf1"] f1 [of _ "mf_entries mf1"] one(4)
      by (intro allI reset_then_run)
    with one show ?thesis by blast
  next
    case False
    then obtain mf where mf: "load_manifest (pj_manifest pj) = Some mf" "mf_mode mf = None \<or> mf_mode mf = Some mode"
      by (auto simp: needs_reset_def split: option.splits)
    with assms(3) have "distinct (map fst (mf_entries mf))" by blast
    from sync_run [OF m mf this, of hash now fault] assms(1) obtain mf1 where
      one: "load_manifest (pj_manifest pj1) = Some mf1" "mf_mode mf1 = Some mode" "distinct (map fst (mf_entries mf1))"
      "\<And>rel. state_at (pj_files pj1, mf_entries mf1) rel =
         outcome_of hash (fault rel) (?src rel) (dest_of (pj_files pj) rel) (state_at (pj_files pj, mf_entries mf) rel)" by auto
    have "again mf1"
      unfolding again_def d1 [of _ "mf_entries mf1"] f1 [of _ "mf_entries mf1"] one(4)
      by (auto simp: state_at_def dest_of_eq outcome_again outcome_again_outside)
    with one show ?thesis by blast
  qed
  then obtain mf1 where one: "load_manifest (pj_manifest pj1) = Some mf1" "mf_mode mf1 = Some mode"
    "distinct (map fst (mf_entries mf1))" and again: "again mf1" by blast
  from sync_run [OF m one(1) disjI2 [OF one(2)] one(3), of hash now' fault] obtain s' pj2 and mf2 :: manifest where
    two: "sync_profile_to_project hash now' fault (Some prof) mode pj1 = Inr (s', pj2)"
    "\<And>rel. state_at (pj_files pj2, mf_entries mf2) rel =
       outcome_of hash (fault rel) (?src rel) (dest_of (pj_files pj1) rel) (state_at (pj_files pj1, mf_entries mf1) rel)" by blast
  have "map_of (pj_files pj2) rel = map_of (pj_files pj1) rel" for rel
    using again two(2) [of rel] unfolding again_def state_at_def by (metis fst_conv)
  with two(1) show ?thesis by blast
qed

section \<open>A file that leaves the profile and comes back\<close>

text \<open>Later synchronisations of one mode, each with a profile, a clock and a file system of its own; one that raises
  leaves the project as it is.\<close>

definition sync_rounds ::
  "(string \<Rightarrow> string) \<Rightarrow> string \<Rightarrow> (string \<times> (string \<Rightarrow> fault) \<times> tree option) list \<Rightarrow> project \<Rightarrow> project" where
  "sync_rounds hash mode rounds pj =
     fold (\<lambda>(now, fault, profile) pj.
       case sync_profile_to_project hash now fault profile mode pj of Inl _ \<Rightarrow> pj | Inr (_, pj') \<Rightarrow> pj') rounds pj"

definition buried :: "string \<Rightarrow> string \<Rightarrow> project \<Rightarrow> bool" where
  "buried mode rel pj =
     (\<exists>mf. load_manifest (pj_manifest pj) = Some mf \<and> mf_mode mf = Some mode \<and> distinct (map fst (mf_entries mf)) \<and>
        state_at (pj_files pj, mf_entries mf) rel = (None, Tombstone))"

lemma buried_stays:
  assumes "buried mode rel pj" and "sync_profile_to_project hash now fault profile mode pj = Inr (s, pj')"
  shows "buried mode rel pj'"
proof -
  from assms(1) obtain mf where mf: "load_manifest (pj_manifest pj) = Some mf" "mf_mode mf = Some mode"
    "distinct (map fst (mf_entries mf))" "state_at (pj_files pj, mf_entries mf) rel = (None, Tombstone)"
    by (auto simp: buried_def)
  from assms(2) obtain prof where p: "profile = Some prof" by (auto simp: sync_profile_to_project_def split: option.splits)
  with assms(2) obtain mapping where m: "resolve_profile_files_for_mode prof mode = Inr mapping" "mapping \<noteq> []"
    by (cases "resolve_profile_files_for_mode prof mode") (auto simp: sync_profile_to_project_def split: if_splits)
  from sync_run [OF m mf(1) disjI2 [OF mf(2)] mf(3), of hash now fault] assms(2) p obtain mf' where
    one: "load_manifest (pj_manifest pj') = Some mf'" "mf_mode mf' = Some mode" "distinct (map fst (mf_entries mf'))"
    "state_at (pj_files pj', mf_entries mf') rel = outcome_of hash (fault rel) (source_of prof mapping rel)
       (dest_of (pj_files pj) rel) (state_at (pj_files pj, mf_entries mf) rel)" by auto
  have "map_of (pj_files pj) rel = None" using mf(4) by (simp add: state_at_def)
  then have "state_at (pj_files pj', mf_entries mf') rel = (None, Tombstone)"
    unfolding one(4) mf(4) by (cases "source_of prof mapping rel") (simp_all add: outcome_of_def writes_def kind_after_def dest_of_eq)
  with one show ?thesis by (auto simp: buried_def)
qed

lemma buried_rounds: "buried mode rel pj \<Longrightarrow> buried mode rel (sync_rounds hash mode rounds pj)"
proof (induction rounds arbitrary: pj)
  case (Cons r rounds)
  obtain now fault profile where r: "r = (now, fault, profile)" by (cases r)
  have "buried mode rel (case sync_profile_to_project hash now fault profile mode pj of Inl _ \<Rightarrow> pj | Inr (_, pj') \<Rightarrow> pj')"
    using Cons.prems buried_stays [OF Cons.prems, of hash now fault profile] by (auto split: sum.split prod.split)
  from Cons.IH [OF this] show ?case by (simp add: sync_rounds_def r)
qed (simp add: sync_rounds_def)

text \<open>C37. A tombstone is meant to record that the user deleted a file, but it also records that the profile dropped it:
  when a file that was delivered and never touched leaves the profile, one synchronisation deletes it, and no number of
  later synchronisations of the mode delivers it, also when their profiles have the file again. What delivers it
  is a forced resynchronisation that names it, or a reset (as proved for the reset of a lost manifest or another mode).
  Hypotheses: the keys of the stored object are distinct, and nothing but synchronisations touches the project.\<close>

theorem readded_file_not_delivered:
  assumes "resolve_profile_files_for_mode prof mode = Inr mapping" and "rel \<notin> fst ` set mapping"
    and "load_manifest (pj_manifest pj) = Some mf" and "mf_mode mf = Some mode" and "distinct (map fst (mf_entries mf))"
    and "rel \<in> set (enumerate_dest_files (pj_files pj))" and "map_of (pj_files pj) rel = Some c"
    and "kind_of (map_of (mf_entries mf) rel) = Active (JStr (hash c))" and "fault rel = No_fault"
    and "sync_profile_to_project hash now fault (Some prof) mode pj = Inr (s, pj1)"
  shows "map_of (pj_files (sync_rounds hash mode rounds pj1)) rel = None"
proof -
  have src: "source_of prof mapping rel = None" using assms(2) by (simp add: source_of_def map_of_eq_None_iff [THEN iffD2])
  have r: "in_roots rel" using assms(6) by (auto simp: enumerate_dest_files_def in_roots_def)
  obtain mf1 :: manifest where
    one: "load_manifest (pj_manifest pj1) = Some mf1" "mf_mode mf1 = Some mode" "distinct (map fst (mf_entries mf1))"
    "state_at (pj_files pj1, mf_entries mf1) rel = outcome_of hash (fault rel) (source_of prof mapping rel)
        (dest_of (pj_files pj) rel) (state_at (pj_files pj, mf_entries mf) rel)"
    by (rule sync_runE [OF assms(1,3) disjI2 [OF assms(4)] assms(5,10), where rel = rel]) blast
  have "state_at (pj_files pj1, mf_entries mf1) rel = (None, Tombstone)"
    unfolding one(4) src using assms(7-9) r
    by (simp add: outcome_of_def refused_def writes_def kind_after_def state_at_def dest_of_eq)
  with one have "buried mode rel pj1" by (auto simp: buried_def)
  from buried_rounds [OF this, of hash rounds] show ?thesis by (auto simp: buried_def state_at_def)
qed


section \<open>Counting\<close>

definition settled_count :: "stats \<Rightarrow> nat" where
  "settled_count s = s ''created'' + s ''repaired'' + s ''skipped'' + s ''errors''"

lemma apply_count:
  assumes "p \<noteq> None \<or> d \<noteq> None \<or> m \<noteq> No_entry"
  shows "settled_count (ss_stats (apply_decision hash now rel p d m st)) = Suc (settled_count (ss_stats st))"
  using assms by (cases m; cases p; cases d) (simp_all add: apply_decision_def settled_count_def)

lemma fold_count:
  assumes "distinct keys" and "\<forall>rel\<in>set keys. src rel \<noteq> None \<or> dest rel \<noteq> None \<or> kind_of (map_of (ss_entries st) rel) \<noteq> No_entry"
  shows "settled_count (ss_stats (fold (sync_one hash now fault src dest) keys st)) = settled_count (ss_stats st) + length keys"
  using assms
proof (induction keys arbitrary: st)
  case (Cons k keys)
  let ?st = "sync_one hash now fault src dest k st"
  have "settled_count (ss_stats ?st) = Suc (settled_count (ss_stats st))"
  proof (cases "refused hash (fault k) (src k) (dest k) (kind_of (map_of (ss_entries st) k))")
    case True
    then show ?thesis by (simp add: sync_one_def Let_def settled_count_def)
  next
    case False
    with Cons.prems(2) apply_count [of "src k" "dest k"] show ?thesis by (simp add: sync_one_def Let_def)
  qed
  moreover have "map_of (ss_entries ?st) rel = map_of (ss_entries st) rel" if "rel \<in> set keys" for rel
    using that Cons.prems(1) by (intro sync_one_entry_other) auto
  ultimately show ?case using Cons.IH [of ?st] Cons.prems by simp
qed simp

text \<open>A synchronisation counts every file it looks at exactly once as created, repaired, skipped or failed.\<close>

theorem counted_once:
  assumes "resolve_profile_files_for_mode prof mode = Inr mapping" and "distinct (map fst prof)"
    and "load_manifest (pj_manifest pj) = Some mf" and "mf_mode mf = None \<or> mf_mode mf = Some mode"
    and "sync_profile_to_project hash now fault (Some prof) mode pj = Inr (s, pj')"
  shows "settled_count s = length (sync_keys mapping (pj_files pj) (mf_entries mf))"
proof -
  let ?keys = "sync_keys mapping (pj_files pj) (mf_entries mf)"
  let ?st = "\<lparr>ss_files = pj_files pj, ss_entries = mf_entries mf, ss_stats = no_stats\<rparr>"
  have s: "s = ss_stats (fold (sync_one hash now fault (source_of prof mapping) (dest_of (pj_files pj))) ?keys ?st)"
    using assms(1,3-5) by (auto simp: sync_profile_to_project_def Let_def split: if_splits)
  have "source_of prof mapping rel \<noteq> None \<or> dest_of (pj_files pj) rel \<noteq> None \<or> kind_of (map_of (mf_entries mf) rel) \<noteq> No_entry"
    if "rel \<in> set ?keys" for rel
  proof -
    from that consider "rel \<in> fst ` set mapping" | "rel \<in> set (enumerate_dest_files (pj_files pj))" | "rel \<in> fst ` set (mf_entries mf)"
      by (auto simp: sync_keys_def)
    then show ?thesis
    proof cases
      case 1
      then obtain src where "map_of mapping rel = Some src" by (metis map_of_eq_None_iff option.exhaust)
      with resolve_InrD(2) [OF assms(1,2)] map_of_SomeD [OF this] show ?thesis by (force simp: source_of_def)
    next
      case 2
      then show ?thesis by (auto simp: dest_of_def enumerate_dest_files_def map_of_eq_None_iff)
    next
      case 3
      then show ?thesis by (auto simp: kind_of_def map_of_eq_None_iff split: option.splits)
    qed
  qed
  then show ?thesis unfolding s by (subst fold_count) (auto simp: sync_keys_def settled_count_def no_stats_def)
qed


section \<open>Examples\<close>

definition demo_profile :: tree where
  "demo_profile = [(''CLAUDE.ad.md'', ''sell''), (''CLAUDE.drama.md'', ''act''), (''CLAUDE.narration.md'', ''tell''),
     (''.claude/skills/cut.md'', ''cut it'')]"

definition slim_profile :: tree where
  "slim_profile = butlast demo_profile"

definition full_mapping :: "(string \<times> string) list" where
  "full_mapping = [(''.claude/skills/cut.md'', ''.claude/skills/cut.md''), (''CLAUDE.md'', ''CLAUDE.drama.md'')]"

definition demo_manifest :: manifest where
  "demo_manifest = \<lparr>mf_schema = JInt 1, mf_entries = [(''.claude/skills/cut.md'', profile_active_entry rev ''cut it''),
     (''CLAUDE.md'', profile_active_entry rev ''act'')], mf_mode = Some ''drama''\<rparr>"

definition demo_project :: project where
  "demo_project = \<lparr>pj_files = [(''CLAUDE.md'', ''mine''), (''.claude/skills/cut.md'', ''cut it'')],
     pj_manifest = Some (to_jsonable demo_manifest)\<rparr>"

lemma demo_resolve:
  "resolve_profile_files_for_mode demo_profile ''drama'' = Inr full_mapping"
  "resolve_profile_files_for_mode slim_profile ''drama'' = Inr [(''CLAUDE.md'', ''CLAUDE.drama.md'')]"
  by code_simp+

lemma demo_distinct: "distinct (map fst demo_profile)" "distinct (map fst (mf_entries demo_manifest))"
  by (simp_all add: demo_profile_def demo_manifest_def)

lemma demo_load: "load_manifest (pj_manifest demo_project) = Some demo_manifest"
proof -
  have "sort_key fst (mf_entries demo_manifest) = mf_entries demo_manifest"
    by (rule sort_key_id_if_sorted) code_simp
  moreover have "good_entries (mf_entries demo_manifest)" by (simp add: good_entries_def demo_manifest_def)
  ultimately show ?thesis
    using load_stored [of demo_manifest "''drama''"]
    by (simp add: demo_project_def demo_manifest_def valid_content_modes_def)
qed

lemma demo_mode: "mf_mode demo_manifest = Some ''drama''"
  by (simp add: demo_manifest_def)

lemma demo_run:
  "\<exists>s pj'. sync_profile_to_project rev ''now'' (\<lambda>_. No_fault) (Some demo_profile) ''drama'' demo_project = Inr (s, pj')"
  using sync_run [OF demo_resolve(1) _ demo_load disjI2 [OF demo_mode] demo_distinct(2), of rev "''now''" "\<lambda>_. No_fault"]
  by (auto simp: full_mapping_def)


theorem sync_idempotent_witness:
  "\<exists>s pj1 s' pj2. sync_profile_to_project rev ''now'' (\<lambda>_. No_fault) (Some demo_profile) ''drama'' demo_project = Inr (s, pj1) \<and>
     sync_profile_to_project rev ''then'' (\<lambda>_. No_fault) (Some demo_profile) ''drama'' pj1 = Inr (s', pj2) \<and>
     map_of (pj_files pj2) = map_of (pj_files pj1)"
proof -
  from demo_run obtain s pj1 where
    r: "sync_profile_to_project rev ''now'' (\<lambda>_. No_fault) (Some demo_profile) ''drama'' demo_project = Inr (s, pj1)" by blast
  from sync_idempotent [OF r demo_distinct(1), of "''then''"] demo_load demo_distinct(2) r show ?thesis by auto
qed

theorem readded_file_not_delivered_witness:
  "\<exists>s pj1. sync_profile_to_project rev ''now'' (\<lambda>_. No_fault) (Some slim_profile) ''drama'' demo_project = Inr (s, pj1) \<and>
     map_of (pj_files (sync_rounds rev ''drama'' [(''then'', \<lambda>_. No_fault, Some demo_profile),
       (''later'', \<lambda>_. No_fault, Some demo_profile)] pj1)) ''.claude/skills/cut.md'' = None"
proof -
  have ne: "[(''CLAUDE.md'', ''CLAUDE.drama.md'')] \<noteq> []" by simp
  from sync_run [OF demo_resolve(2) ne demo_load disjI2 [OF demo_mode] demo_distinct(2), of rev "''now''" "\<lambda>_. No_fault"]
  obtain s pj1 where r: "sync_profile_to_project rev ''now'' (\<lambda>_. No_fault) (Some slim_profile) ''drama'' demo_project = Inr (s, pj1)"
    by blast
  have "''.claude/skills/cut.md'' \<in> set (enumerate_dest_files (pj_files demo_project))" by code_simp
  moreover have "map_of (pj_files demo_project) ''.claude/skills/cut.md'' = Some ''cut it''"
    "kind_of (map_of (mf_entries demo_manifest) ''.claude/skills/cut.md'') = Active (JStr (rev ''cut it''))"
    by (simp_all add: demo_project_def demo_manifest_def)
  ultimately show ?thesis
    using readded_file_not_delivered [OF demo_resolve(2) _ demo_load demo_mode demo_distinct(2) _ _ _ refl r,
        of "''.claude/skills/cut.md''" "''cut it''"] r by auto
qed

text \<open>A forced resynchronisation that names the file delivers it.\<close>

theorem forced_file_delivered:
  "case force_resync_profile rev (\<lambda>_. No_fault) (Some demo_profile) ''drama'' (Some [''.claude/skills/cut.md''])
     \<lparr>pj_files = [], pj_manifest = Some (to_jsonable \<lparr>mf_schema = JInt 1,
        mf_entries = [(''.claude/skills/cut.md'', tombstone_entry ''now'')], mf_mode = Some ''drama''\<rparr>)\<rparr> of
     Inl _ \<Rightarrow> False
   | Inr (_, pj) \<Rightarrow> map_of (pj_files pj) ''.claude/skills/cut.md'' = Some ''cut it''"
  by code_simp

theorem reset_delivers_profile_witness:
  "\<exists>s pj'. sync_profile_to_project rev ''now'' (\<lambda>_. No_fault) (Some demo_profile) ''ad'' demo_project = Inr (s, pj') \<and>
     map_of (pj_files pj') ''CLAUDE.md'' = Some ''sell''"
proof -
  have res: "resolve_profile_files_for_mode demo_profile ''ad'' =
      Inr [(''.claude/skills/cut.md'', ''.claude/skills/cut.md''), (''CLAUDE.md'', ''CLAUDE.ad.md'')]" by code_simp
  obtain s pj' where r: "sync_profile_to_project rev ''now'' (\<lambda>_. No_fault) (Some demo_profile) ''ad'' demo_project = Inr (s, pj')"
    using res demo_load demo_mode
    by (cases "full_reset_from_profile rev (\<lambda>_. No_fault) demo_profile
      [(''.claude/skills/cut.md'', ''.claude/skills/cut.md''), (''CLAUDE.md'', ''CLAUDE.ad.md'')] ''ad'' demo_project")
      (simp add: sync_profile_to_project_def)
  have "in_roots ''CLAUDE.md''" by (simp add: in_roots_def)
  from reset_delivers_profile [OF res demo_distinct(1) _ _ r this] demo_load demo_mode r show ?thesis
    by (auto simp: source_of_def demo_profile_def)
qed

theorem counted_once_witness:
  "\<exists>s pj'. sync_profile_to_project rev ''now'' (\<lambda>_. No_fault) (Some demo_profile) ''drama'' demo_project = Inr (s, pj') \<and>
     settled_count s = 2"
proof -
  obtain s pj' where r: "sync_profile_to_project rev ''now'' (\<lambda>_. No_fault) (Some demo_profile) ''drama'' demo_project = Inr (s, pj')"
    using demo_run by blast
  have "length (sync_keys full_mapping (pj_files demo_project) (mf_entries demo_manifest)) = 2" by code_simp
  with counted_once [OF demo_resolve(1) demo_distinct(1) demo_load disjI2 [OF demo_mode] r] r show ?thesis by auto
qed

end
