(* ===== verification/StatusCalc.thy ===== *)
theory StatusCalc
  imports AdUnits
begin

text \<open>
  The state of a project computed when it is read (\<open>lib/status_calculator.py\<close>): the statistics of an episode by the
  shape of its script, the phase of the project and its progress. Loading a script, the drafts and the files of the
  project are arguments. A value of the wrong type raises, which is an error value.
\<close>

section \<open>An episode\<close>

definition script_shapes :: "(string \<times> string) list" where
  "script_shapes = [(''narration'', ''segments''), (''drama'', ''scenes''), (''ad'', ''shots'')]"

definition fallback_item_durations :: "(string \<times> int) list" where
  "fallback_item_durations = [(''narration'', 4), (''drama'', 8), (''ad'', 0)]"

text \<open>What \<open>len\<close> and iteration accept: a list; any value that is false stands for none where the code says \<open>or []\<close>.\<close>

definition units_or_empty :: "json \<Rightarrow> py_error + json list" where
  "units_or_empty v =
     (case v of
        JArr xs \<Rightarrow> Inr xs
      | _ \<Rightarrow> if \<not> truthy v then Inr [] else (case v of JStr _ \<Rightarrow> Inl Attribute_Error | JObj _ \<Rightarrow> Inl Attribute_Error | _ \<Rightarrow> Inl Type_Error))"

definition select_content_mode_and_items :: "dict \<Rightarrow> py_error + string \<times> json list" where
  "select_content_mode_and_items script =
     (let mode = dict_ref script ''content_mode''; key = (case mode of JStr m \<Rightarrow> map_of script_shapes m | _ \<Rightarrow> None)
      in if mode \<noteq> JStr ''ad'' \<and> dict_ref script ''generation_mode'' = JStr ''reference_video''
         then bind_err (units_or_empty (dict_ref script ''video_units'')) (\<lambda>us. Inr (''reference_video'', us))
         else if \<not> hashable mode then Inl Type_Error
         else (case Option.bind key (\<lambda>k. as_list (dict_ref script k)) of
                 Some items \<Rightarrow> Inr (id_text mode, items)
               | None \<Rightarrow>
                   (case filter (\<lambda>(m, k). as_list (dict_ref script k) \<noteq> None) script_shapes of
                      (m, k) # _ \<Rightarrow> Inr (m, coalesce (as_list (dict_ref script k)) [])
                    | [] \<Rightarrow> Inr (if key = None then ''narration'' else id_text mode, []))))"

record ep_stats =
  st_script_status :: string
  st_status :: string
  st_scenes :: nat
  st_units :: "nat option"
  st_duration :: rat
  st_storyboards :: "nat \<times> nat"
  st_videos :: "nat \<times> nat"

text \<open>\<open>item.get("generated_assets", {}).get(key)\<close>, and the form that also takes a null.\<close>

definition asset_done :: "string \<Rightarrow> json \<Rightarrow> py_error + bool" where
  "asset_done key item =
     bind_err (obj_or item ''generated_assets'' (JObj [])) (\<lambda>ga. bind_err (obj_or ga key JNull) (\<lambda>v. Inr (truthy v)))"

definition count_done :: "string \<Rightarrow> json list \<Rightarrow> py_error + nat" where
  "count_done key items = bind_err (map_err (asset_done key) items) (\<lambda>bs. Inr (length (filter id bs)))"

definition item_seconds :: "int \<Rightarrow> json \<Rightarrow> py_error + rat" where
  "item_seconds dflt item =
     bind_err (obj_or item ''duration_seconds'' (JInt dflt))
       (\<lambda>v. case py_number v of None \<Rightarrow> Inl Type_Error | Some q \<Rightarrow> Inr q)"

definition sum_durations :: "int \<Rightarrow> json list \<Rightarrow> py_error + rat" where
  "sum_durations dflt items = bind_err (map_err (item_seconds dflt) items) (\<lambda>qs. Inr (sum_list qs))"

definition unit_status :: "nat \<Rightarrow> nat \<Rightarrow> string" where
  "unit_status done n =
     (if n = 0 then ''draft'' else if done = n then ''completed''
      else if 0 < done then ''in_production'' else ''draft'')"

definition calculate_reference_video_stats :: "json list \<Rightarrow> py_error + ep_stats" where
  "calculate_reference_video_stats units =
     bind_err (count_done ''video_clip'' units) (\<lambda>done. bind_err (sum_durations 0 units) (\<lambda>dur.
       Inr \<lparr>st_script_status = [], st_status = unit_status done (length units), st_scenes = length units,
            st_units = Some (length units), st_duration = dur, st_storyboards = (length units, 0),
            st_videos = (length units, done)\<rparr>))"

definition wellformed_unit :: "json \<Rightarrow> bool" where
  "wellformed_unit u =
     (case u of
        JObj d \<Rightarrow> dict_ref d ''generated_assets'' = JNull \<or> as_dict (dict_ref d ''generated_assets'') \<noteq> None
      | _ \<Rightarrow> False)"

definition unit_done :: "json \<Rightarrow> bool" where
  "unit_done u =
     (case u of
        JObj d \<Rightarrow> (case dict_ref d ''generated_assets'' of JObj g \<Rightarrow> truthy (dict_ref g ''video_clip'') | _ \<Rightarrow> False)
      | _ \<Rightarrow> False)"

text \<open>An index of units that is malformed counts as none; this never raises.\<close>

definition calculate_ad_reference_stats :: "dict \<Rightarrow> json list \<Rightarrow> ep_stats" where
  "calculate_ad_reference_stats script shots =
     (let units = (case dict_ref script ''reference_units'' of
                     JArr us \<Rightarrow> if list_all wellformed_unit us then us else [] | _ \<Rightarrow> []);
          done = length (filter unit_done units)
      in \<lparr>st_script_status = [], st_status = unit_status done (length units), st_scenes = length shots,
          st_units = Some (length units), st_duration = of_int (sum_list (map ad_shot_duration_seconds shots)),
          st_storyboards = (length shots, 0), st_videos = (length units, done)\<rparr>)"

definition item_status :: "nat \<Rightarrow> nat \<Rightarrow> nat \<Rightarrow> string" where
  "item_status sb vd n =
     (if vd = n \<and> 0 < n then ''completed'' else if 0 < sb \<or> 0 < vd then ''in_production'' else ''draft'')"

definition calculate_episode_stats :: "dict \<Rightarrow> string \<Rightarrow> py_error + ep_stats" where
  "calculate_episode_stats script generation_mode =
     bind_err (select_content_mode_and_items script) (\<lambda>(mode, items).
       if mode = ''reference_video'' then calculate_reference_video_stats items
       else if mode = ''ad'' \<and> generation_mode = ''reference_video'' then Inr (calculate_ad_reference_stats script items)
       else
         bind_err (count_done ''storyboard_image'' items) (\<lambda>sb. bind_err (count_done ''video_clip'' items) (\<lambda>vd.
           bind_err (sum_durations (coalesce (map_of fallback_item_durations mode) 0) items) (\<lambda>dur.
             Inr \<lparr>st_script_status = [], st_status = item_status sb vd (length items), st_scenes = length items,
                  st_units = None, st_duration = dur, st_storyboards = (length items, sb),
                  st_videos = (length items, vd)\<rparr>))))"

section \<open>The episodes of a project\<close>

definition valid_generation_modes :: "string list" where
  "valid_generation_modes = [''storyboard'', ''grid'', ''reference_video'']"

definition effective_mode :: "dict \<Rightarrow> dict \<Rightarrow> py_error + string" where
  "effective_mode project episode =
     fold (\<lambda>d rest. let v = dict_ref d ''generation_mode'' in
              if \<not> hashable v then Inl Type_Error
              else (case v of JStr m \<Rightarrow> if m \<in> set valid_generation_modes then Inr m else rest | _ \<Rightarrow> rest))
       [project, episode] (Inr ''storyboard'')"

datatype loaded = Script dict | No_file | Broken_file

definition draft_filename :: "json \<Rightarrow> string option" where
  "draft_filename mode =
     (if mode = JStr ''narration'' then Some ''step1_segments.md''
      else if mode = JStr ''ad'' then None else Some ''step1_normalized_script.md'')"

definition load_episode_script ::
  "(string \<Rightarrow> loaded) \<Rightarrow> (string \<Rightarrow> bool) \<Rightarrow> (string \<times> dict) list \<Rightarrow> json \<Rightarrow> json \<Rightarrow> string \<Rightarrow> string \<times> dict option" where
  "load_episode_script load draft_exists preloaded mode num script_file =
     (case map_of preloaded script_file of
        Some s \<Rightarrow> (''generated'', Some s)
      | None \<Rightarrow>
          (case load script_file of
             Script s \<Rightarrow> (''generated'', Some s)
           | Broken_file \<Rightarrow> (''generated'', None)
           | No_file \<Rightarrow>
               (case (py_int_value num, draft_filename mode) of
                  (Some n, Some f) \<Rightarrow>
                    (if draft_exists (''drafts/episode_'' @ show_int n @ ''/'' @ f) then ''segmented'' else ''none'', None)
                | _ \<Rightarrow> (''none'', None))))"

definition make_fallback_ep_stats :: "string \<Rightarrow> ep_stats" where
  "make_fallback_ep_stats s =
     \<lparr>st_script_status = s, st_status = ''draft'', st_scenes = 0, st_units = None, st_duration = 0,
      st_storyboards = (0, 0), st_videos = (0, 0)\<rparr>"

definition episode_stats ::
  "(string \<Rightarrow> loaded) \<Rightarrow> (string \<Rightarrow> bool) \<Rightarrow> (string \<times> dict) list \<Rightarrow> dict \<Rightarrow> json \<Rightarrow> py_error + ep_stats" where
  "episode_stats load draft_exists preloaded project episode =
     (case episode of
        JObj ep \<Rightarrow>
          if dict_ref ep ''ledger_status'' = JStr ''stale'' then Inr (make_fallback_ep_stats ''none'')
          else
            (let f = dict_or ep ''script_file'' (JStr []); mode = dict_or project ''content_mode'' (JStr ''narration'')
             in if \<not> truthy f then Inr (make_fallback_ep_stats ''none'')
                else (case f of
                        JStr name \<Rightarrow>
                          (case load_episode_script load draft_exists preloaded mode (dict_or ep ''episode'' (JInt 0)) name of
                             (st, Some script) \<Rightarrow>
                               bind_err (bind_err (effective_mode project ep) (calculate_episode_stats script)) (\<lambda>s.
                                 Inr (s\<lparr>st_status := (if st_status s = ''draft'' then ''scripted'' else st_status s),
                                        st_script_status := ''generated''\<rparr>))
                           | (st, None) \<Rightarrow> Inr (make_fallback_ep_stats st))
                      | _ \<Rightarrow> Inl Type_Error))
      | _ \<Rightarrow> Inl Attribute_Error)"

definition build_episodes_stats ::
  "(string \<Rightarrow> loaded) \<Rightarrow> (string \<Rightarrow> bool) \<Rightarrow> (string \<times> dict) list \<Rightarrow> dict \<Rightarrow> py_error + ep_stats list" where
  "build_episodes_stats load draft_exists preloaded project =
     bind_err (py_iter (dict_or project ''episodes'' (JArr []))) (map_err (episode_stats load draft_exists preloaded project))"

section \<open>The project\<close>

definition calculate_current_phase :: "bool \<Rightarrow> nat \<Rightarrow> ep_stats list \<Rightarrow> string" where
  "calculate_current_phase overview assets_completed stats =
     (if stats \<noteq> [] \<and> list_all (\<lambda>s. st_script_status s = ''generated'') stats
      then (if list_all (\<lambda>s. st_status s = ''completed'') stats then ''completed'' else ''production'')
      else if list_ex (\<lambda>s. st_script_status s = ''generated'') stats then ''scripting''
      else if list_ex (\<lambda>s. st_script_status s = ''segmented'') stats \<or> 0 < assets_completed \<or> overview then ''worldbuilding''
      else ''setup'')"

definition ratio :: "nat \<Rightarrow> nat \<Rightarrow> rat" where
  "ratio a b = (if b = 0 then 0 else of_nat a / of_nat b)"

definition calculate_phase_progress :: "string \<Rightarrow> ep_stats list \<Rightarrow> rat" where
  "calculate_phase_progress phase stats =
     (if phase \<in> {''setup'', ''worldbuilding''} then 0
      else if phase = ''scripting'' then ratio (length (filter (\<lambda>s. st_script_status s = ''generated'') stats)) (length stats)
      else if phase = ''production'' then ratio (sum_list (map (snd \<circ> st_videos) stats)) (sum_list (map (fst \<circ> st_videos) stats))
      else 1)"

record project_status =
  ps_phase :: string
  ps_progress :: rat
  ps_characters :: "nat \<times> nat"
  ps_scenes :: "nat \<times> nat"
  ps_props :: "nat \<times> nat"
  ps_total :: nat
  ps_scripted :: nat
  ps_in_production :: nat
  ps_completed :: nat

text \<open>A path that is no text, or empty, does not exist.\<close>

definition sheet_exists :: "(string \<Rightarrow> bool) \<Rightarrow> json \<Rightarrow> bool" where
  "sheet_exists present j = (case j of JStr p \<Rightarrow> p \<noteq> [] \<and> present p | _ \<Rightarrow> False)"

definition count_sheets :: "(string \<Rightarrow> bool) \<Rightarrow> dict \<Rightarrow> string \<Rightarrow> string \<Rightarrow> py_error + nat \<times> nat" where
  "count_sheets present project bucket sheet =
     (case dict_or project bucket (JObj []) of
        JObj d \<Rightarrow>
          bind_err (map_err (\<lambda>(_, v). bind_err (obj_or v sheet (JStr [])) (\<lambda>p. Inr (sheet_exists present p))) d)
            (\<lambda>bs. Inr (length d, length (filter id bs)))
      | JStr _ \<Rightarrow> Inl Attribute_Error
      | JArr _ \<Rightarrow> Inl Attribute_Error
      | _ \<Rightarrow> Inl Type_Error)"

definition summarize :: "dict \<Rightarrow> nat \<times> nat \<Rightarrow> nat \<times> nat \<Rightarrow> nat \<times> nat \<Rightarrow> ep_stats list \<Rightarrow> project_status" where
  "summarize project chars scenes props stats =
     (let done = snd chars + snd scenes + snd props; every = fst chars + fst scenes + fst props;
          phase = calculate_current_phase (truthy (dict_ref project ''overview'')) done stats
      in \<lparr>ps_phase = phase,
          ps_progress = (if phase = ''worldbuilding'' then ratio done every else calculate_phase_progress phase stats),
          ps_characters = chars, ps_scenes = scenes, ps_props = props, ps_total = length stats,
          ps_scripted = length (filter (\<lambda>s. st_script_status s = ''generated'') stats),
          ps_in_production = length (filter (\<lambda>s. st_status s = ''in_production'') stats),
          ps_completed = length (filter (\<lambda>s. st_status s = ''completed'') stats)\<rparr>)"

definition calculate_project_status ::
  "(string \<Rightarrow> bool) \<Rightarrow> (string \<Rightarrow> loaded) \<Rightarrow> (string \<Rightarrow> bool) \<Rightarrow> (string \<times> dict) list \<Rightarrow> dict \<Rightarrow> py_error + project_status" where
  "calculate_project_status present load draft_exists preloaded project =
     bind_err (count_sheets present project ''characters'' ''character_sheet'') (\<lambda>chars.
     bind_err (count_sheets present project ''scenes'' ''scene_sheet'') (\<lambda>scenes.
     bind_err (count_sheets present project ''props'' ''prop_sheet'') (\<lambda>props.
     bind_err (build_episodes_stats load draft_exists preloaded project) (\<lambda>stats.
       Inr (summarize project chars scenes props stats)))))"

end
