(* ===== verification/StatusProps.thy ===== *)
theory StatusProps
  imports StatusCalc
begin

text \<open>
  Properties of the computed state of a project: counts are within their totals, the progress lies between zero and
  one, a project is completed exactly when every episode is, an episode exactly when every item has its video; and an
  asset record that is null makes the whole computation raise.
\<close>

section \<open>Counts\<close>

lemma map_err_length: "map_err f xs = Inr ys \<Longrightarrow> length ys = length xs"
  by (auto simp: map_err_Inr_iff dest: list_all2_lengthD)

lemma count_done_le: "count_done key items = Inr n \<Longrightarrow> n \<le> length items"
  by (auto simp: count_done_def bind_err_Inr_iff dest!: map_err_length) (metis length_filter_le)

lemma count_done_all:
  assumes "count_done key items = Inr n"
  shows "n = length items \<longleftrightarrow> (\<forall>i\<in>set items. asset_done key i = Inr True)"
proof -
  from assms obtain bs where bs: "map_err (asset_done key) items = Inr bs" "n = length (filter id bs)"
    by (auto simp: count_done_def bind_err_Inr_iff)
  have "n = length bs \<longleftrightarrow> (\<forall>b\<in>set bs. b)"
    unfolding bs(2) by (metis id_apply length_filter_less filter_True less_irrefl)
  moreover have "list_all2 (\<lambda>i b. asset_done key i = Inr b) items bs" using bs(1) by (simp add: map_err_Inr_iff)
  then have "(\<forall>b\<in>set bs. b) \<longleftrightarrow> (\<forall>i\<in>set items. asset_done key i = Inr True)"
    by (induction rule: list_all2_induct) auto
  ultimately show ?thesis using map_err_length [OF bs(1)] by simp
qed

definition sound :: "ep_stats \<Rightarrow> bool" where
  "sound s =
     (snd (st_videos s) \<le> fst (st_videos s) \<and> snd (st_storyboards s) \<le> fst (st_storyboards s) \<and>
      (st_status s = ''completed'' \<longleftrightarrow> 0 < fst (st_videos s) \<and> snd (st_videos s) = fst (st_videos s)))"

lemma status_simps:
  "unit_status d n = ''completed'' \<longleftrightarrow> 0 < n \<and> d = n" "item_status sb d n = ''completed'' \<longleftrightarrow> 0 < n \<and> d = n"
  by (auto simp: unit_status_def item_status_def)

lemma episode_sound: "calculate_episode_stats script m = Inr s \<Longrightarrow> sound s"
  by (auto simp: calculate_episode_stats_def calculate_reference_video_stats_def calculate_ad_reference_stats_def Let_def
      bind_err_Inr_iff sound_def status_simps split: if_splits dest: count_done_le)

lemma episode_stats_cases:
  assumes "episode_stats load drafts pre project e = Inr s"
  shows "(\<exists>x. s = make_fallback_ep_stats x) \<or>
    (\<exists>script m t. calculate_episode_stats script m = Inr t \<and>
       s = t\<lparr>st_status := (if st_status t = ''draft'' then ''scripted'' else st_status t), st_script_status := ''generated''\<rparr>)"
proof (cases e)
  case (JObj ep)
  let ?f = "dict_or ep ''script_file'' (JStr [])"
  show ?thesis
  proof (cases "dict_ref ep ''ledger_status'' = JStr ''stale'' \<or> \<not> truthy ?f")
    case True
    with assms JObj have "s = make_fallback_ep_stats ''none''" by (auto simp: episode_stats_def Let_def split: if_splits)
    then show ?thesis by blast
  next
    case False
    with assms JObj obtain name where f: "?f = JStr name" by (cases ?f) (simp_all add: episode_stats_def Let_def)
    obtain st so where l: "load_episode_script load drafts pre (dict_or project ''content_mode'' (JStr ''narration''))
        (dict_or ep ''episode'' (JInt 0)) name = (st, so)" by fastforce
    show ?thesis
    proof (cases so)
      case None
      with assms JObj False f l show ?thesis by (auto simp: episode_stats_def Let_def)
    next
      case (Some script)
      with assms JObj False f l obtain m t where "calculate_episode_stats script m = Inr t"
        "s = t\<lparr>st_status := (if st_status t = ''draft'' then ''scripted'' else st_status t), st_script_status := ''generated''\<rparr>"
        by (auto simp: episode_stats_def Let_def bind_err_Inr_iff)
      then show ?thesis by blast
    qed
  qed
qed (use assms in \<open>simp_all add: episode_stats_def\<close>)

lemma episode_stats_sound:
  assumes "episode_stats load drafts pre project e = Inr s"
  shows "sound s \<and> (st_status s = ''completed'' \<longrightarrow> st_script_status s = ''generated'')"
  using episode_stats_cases [OF assms]
proof (elim disjE exE conjE)
  fix x assume "s = make_fallback_ep_stats x"
  then show ?thesis by (simp add: make_fallback_ep_stats_def sound_def)
next
  fix script m t assume "calculate_episode_stats script m = Inr t"
    "s = t\<lparr>st_status := (if st_status t = ''draft'' then ''scripted'' else st_status t), st_script_status := ''generated''\<rparr>"
  with episode_sound [of script m t] show ?thesis by (auto simp: sound_def)
qed

lemma build_sound:
  assumes "build_episodes_stats load drafts pre project = Inr stats" and "s \<in> set stats"
  shows "sound s \<and> (st_status s = ''completed'' \<longrightarrow> st_script_status s = ''generated'')"
proof -
  from assms obtain es where "list_all2 (\<lambda>e s. episode_stats load drafts pre project e = Inr s) es stats"
    by (auto simp: build_episodes_stats_def bind_err_Inr_iff map_err_Inr_iff)
  with assms(2) obtain e where "episode_stats load drafts pre project e = Inr s"
    by (auto simp: in_set_conv_nth list_all2_conv_all_nth)
  then show ?thesis by (rule episode_stats_sound)
qed

lemma count_sheets_le: "count_sheets present project b sh = Inr (t, d) \<Longrightarrow> d \<le> t"
  by (auto simp: count_sheets_def bind_err_Inr_iff split: json.splits dest!: map_err_length) (metis length_filter_le)

lemma ratio_bounds: "a \<le> b \<Longrightarrow> 0 \<le> ratio a b \<and> ratio a b \<le> 1"
  by (auto simp: ratio_def)

lemma sum_snd_le: "\<forall>s\<in>set stats. snd (f s) \<le> fst (f s) \<Longrightarrow> sum_list (map (snd \<circ> f) stats) \<le> sum_list (map (fst \<circ> f) (stats :: 'a list) :: nat list)"
  by (induction stats) auto

lemma progress_bounds:
  assumes "\<forall>s\<in>set stats. sound s"
  shows "0 \<le> calculate_phase_progress ph stats \<and> calculate_phase_progress ph stats \<le> 1"
  using assms ratio_bounds sum_snd_le [of stats st_videos] ratio_bounds [OF length_filter_le]
  by (auto simp: calculate_phase_progress_def sound_def)

text \<open>C39. Whatever the files hold, a project status that is computed has a progress between zero and one, which is one when
  the project is completed; and the project is completed exactly when it has episodes and all of them are.\<close>

theorem project_status_sound:
  assumes "calculate_project_status present load drafts pre project = Inr s"
  shows "0 \<le> ps_progress s \<and> ps_progress s \<le> 1 \<and> (ps_phase s \<noteq> ''completed'' \<or> ps_progress s = 1) \<and>
    (ps_phase s = ''completed'' \<longleftrightarrow> 0 < ps_total s \<and> ps_completed s = ps_total s)"
proof -
  from assms obtain chars scenes props stats where
    c: "count_sheets present project ''characters'' ''character_sheet'' = Inr chars"
      "count_sheets present project ''scenes'' ''scene_sheet'' = Inr scenes"
      "count_sheets present project ''props'' ''prop_sheet'' = Inr props"
    and st: "build_episodes_stats load drafts pre project = Inr stats" and s: "s = summarize project chars scenes props stats"
    by (auto simp: calculate_project_status_def bind_err_Inr_iff)
  let ?done = "snd chars + snd scenes + snd props"
  have le: "?done \<le> fst chars + fst scenes + fst props"
    using count_sheets_le [of present project _ _ "fst chars" "snd chars"] count_sheets_le [of present project _ _ "fst scenes" "snd scenes"]
      count_sheets_le [of present project _ _ "fst props" "snd props"] c by (auto intro!: add_mono)
  have all: "\<forall>x\<in>set stats. sound x" and gen: "\<forall>x\<in>set stats. st_status x = ''completed'' \<longrightarrow> st_script_status x = ''generated''"
    using build_sound [OF st] by blast+
  have full: "length (filter P stats) = length stats \<longleftrightarrow> list_all P stats" for P
    by (metis list_all_iff length_filter_less filter_True less_irrefl)
  let ?ph = "calculate_current_phase (truthy (dict_ref project ''overview'')) ?done stats"
  have "?ph = ''completed'' \<longleftrightarrow> stats \<noteq> [] \<and> list_all (\<lambda>x. st_status x = ''completed'') stats"
    using gen by (auto simp: calculate_current_phase_def list_all_iff)
  then have ph: "?ph = ''completed'' \<longleftrightarrow> 0 < ps_total s \<and> ps_completed s = ps_total s"
    unfolding s full [symmetric] by (simp add: summarize_def Let_def)
  have p: "ps_phase s = ?ph"
    "ps_progress s = (if ?ph = ''worldbuilding'' then ratio ?done (fst chars + fst scenes + fst props)
       else calculate_phase_progress ?ph stats)" unfolding s by (simp_all add: summarize_def Let_def)
  have "calculate_phase_progress ''completed'' stats = 1" by (simp add: calculate_phase_progress_def)
  with p ph ratio_bounds [OF le] progress_bounds [OF all, of ?ph] show ?thesis by (cases "?ph = ''worldbuilding''") auto
qed

text \<open>An episode whose script has items is completed exactly when every item has its video.\<close>

theorem episode_completed_exact:
  assumes "calculate_episode_stats script m = Inr s" and "select_content_mode_and_items script = Inr (mode, items)"
    and "mode \<noteq> ''ad'' \<or> m \<noteq> ''reference_video''"
  shows "st_status s = ''completed'' \<longleftrightarrow> items \<noteq> [] \<and> (\<forall>i\<in>set items. asset_done ''video_clip'' i = Inr True)"
proof -
  from assms obtain n where n: "count_done ''video_clip'' items = Inr n" and
    "st_status s = ''completed'' \<longleftrightarrow> 0 < length items \<and> n = length items"
    by (auto simp: calculate_episode_stats_def calculate_reference_video_stats_def bind_err_Inr_iff status_simps split: if_splits)
  with count_done_all [OF n] show ?thesis by auto
qed

section \<open>A null asset record\<close>

lemma map_err_Inl: "x \<in> set xs \<Longrightarrow> f x = Inl e \<Longrightarrow> \<not> (\<exists>ys. map_err f xs = Inr ys)"
  by (auto simp: map_err_Inr_iff in_set_conv_nth list_all2_conv_all_nth)

text \<open>One script item whose asset record is null, which the branch for advertisements counts as well formed, makes the
  status of the whole project raise in every other mode.\<close>

theorem null_assets_raise:
  assumes "dict_get project ''episodes'' = Some (JArr eps)" and "JObj ep \<in> set eps" and "dict_ref ep ''ledger_status'' \<noteq> JStr ''stale''"
    and "dict_get ep ''script_file'' = Some (JStr f)" and "f \<noteq> []" and "map_of pre f = None" and "load f = Script script"
    and "select_content_mode_and_items script = Inr (mode, items)" and "mode \<noteq> ''ad''"
    and "JObj item \<in> set items" and "dict_get item ''generated_assets'' = Some JNull"
  shows "wellformed_unit (JObj item) \<and> (\<nexists>s. calculate_project_status present load drafts pre project = Inr s)"
proof
  show "wellformed_unit (JObj item)" using assms(11) by (simp add: wellformed_unit_def dict_ref_def)
  have "asset_done key (JObj item) = Inl Attribute_Error" for key
    using assms(11) by (simp add: asset_done_def obj_or_def dict_or_def)
  from map_err_Inl [where f = "asset_done _", OF assms(10) this] have "\<not> (\<exists>n. count_done key items = Inr n)" for key
    by (simp add: count_done_def bind_err_Inr_iff)
  then have "\<not> (\<exists>s. calculate_episode_stats script m = Inr s)" for m
    using assms(8,9) by (auto simp: calculate_episode_stats_def calculate_reference_video_stats_def bind_err_Inr_iff split: if_splits)
  then have "\<not> (\<exists>s. episode_stats load drafts pre project (JObj ep) = Inr s)"
    using assms(3-7) by (auto simp: episode_stats_def dict_or_def load_episode_script_def bind_err_Inr_iff)
  then obtain e where "episode_stats load drafts pre project (JObj ep) = Inl e"
    by (metis sum.exhaust)
  from map_err_Inl [where f = "episode_stats load drafts pre project", OF assms(2) this] show "\<nexists>s. calculate_project_status present load drafts pre project = Inr s"
    using assms(1) by (auto simp: calculate_project_status_def build_episodes_stats_def bind_err_Inr_iff dict_or_def)
qed

section \<open>Examples\<close>

definition done_item :: json where
  "done_item = JObj [(''generated_assets'', JObj [(''video_clip'', JStr ''v.mp4'')])]"

definition demo_script :: "json list \<Rightarrow> dict" where
  "demo_script items = [(''content_mode'', JStr ''drama''), (''scenes'', JArr items)]"

definition demo_series :: dict where
  "demo_series = [(''episodes'', JArr [JObj [(''episode'', JInt 1), (''script_file'', JStr ''s'')]])]"

lemmas demo_defs = dict_ref_def dict_get_def dict_or_def coalesce_def done_item_def demo_script_def demo_series_def

lemma demo_select: "select_content_mode_and_items (demo_script items) = Inr (''drama'', items)"
  by (simp add: select_content_mode_and_items_def demo_defs script_shapes_def id_text_def strip_def is_space_def)

theorem project_status_sound_witness:
  "\<exists>s. calculate_project_status (\<lambda>_. True) (\<lambda>_. Script (demo_script [done_item])) (\<lambda>_. False) [] demo_series = Inr s \<and>
     ps_phase s = ''completed'' \<and> ps_progress s = 1"
proof -
  let ?r = "calculate_project_status (\<lambda>_. True) (\<lambda>_. Script (demo_script [done_item])) (\<lambda>_. False) [] demo_series"
  have "calculate_episode_stats (demo_script [done_item]) ''storyboard'' = Inr \<lparr>st_script_status = [], st_status = ''completed'',
      st_scenes = 1, st_units = None, st_duration = 8, st_storyboards = (1, 0), st_videos = (1, 1)\<rparr>"
    by (simp add: calculate_episode_stats_def demo_select count_done_def asset_done_def obj_or_def sum_durations_def
        item_seconds_def done_item_def dict_or_def dict_get_def fallback_item_durations_def item_status_def)
  then have "build_episodes_stats (\<lambda>_. Script (demo_script [done_item])) (\<lambda>_. False) [] demo_series = Inr [\<lparr>st_script_status = ''generated'',
      st_status = ''completed'', st_scenes = 1, st_units = None, st_duration = 8, st_storyboards = (1, 0), st_videos = (1, 1)\<rparr>]"
    by (simp add: build_episodes_stats_def episode_stats_def load_episode_script_def effective_mode_def dict_or_def dict_ref_def
        dict_get_def coalesce_def demo_series_def)
  then obtain s where s: "?r = Inr s" "ps_phase s = ''completed''"
    by (simp add: calculate_project_status_def count_sheets_def summarize_def Let_def calculate_current_phase_def demo_defs)
  with project_status_sound [OF s(1)] show ?thesis by auto
qed

theorem episode_completed_exact_witness:
  "\<exists>s. calculate_episode_stats (demo_script [done_item]) ''storyboard'' = Inr s \<and> st_status s = ''completed''"
proof -
  obtain s where s: "calculate_episode_stats (demo_script [done_item]) ''storyboard'' = Inr s"
    by (simp add: calculate_episode_stats_def demo_select count_done_def asset_done_def obj_or_def sum_durations_def
        item_seconds_def done_item_def dict_or_def dict_get_def)
  have "asset_done ''video_clip'' done_item = Inr True" by (simp add: asset_done_def obj_or_def demo_defs)
  with episode_completed_exact [OF s demo_select] s show ?thesis by simp
qed

theorem null_assets_raise_witness:
  "\<nexists>s. calculate_project_status (\<lambda>_. True) (\<lambda>_. Script (demo_script [JObj [(''generated_assets'', JNull)]])) (\<lambda>_. False) []
     demo_series = Inr s"
  using null_assets_raise [OF _ _ _ _ _ _ _ demo_select, of demo_series "[JObj [(''episode'', JInt 1), (''script_file'', JStr ''s'')]]"
      "[(''episode'', JInt 1), (''script_file'', JStr ''s'')]" "''s''" "[]" "\<lambda>_. Script (demo_script [JObj [(''generated_assets'', JNull)]])"
      "[JObj [(''generated_assets'', JNull)]]" "[(''generated_assets'', JNull)]"]
  by (simp add: demo_defs)

end
