(* ===== verification/Migrations.thy ===== *)
theory Migrations
  imports EpisodeLedger "HOL-Library.AList"
begin

text \<open>
  The migration of stored projects to the current version (\<open>lib/project_migrations/\<close>): clues become scenes and props,
  with their files, versions and the scripts that name them; provider names become canonical; the episodes become a
  ledger. A directory is its \<open>project.json\<close>, its scripts and the directories the migrations touch. What raises keeps
  what was done before it, so an operation returns the directory together with the error.
\<close>

section \<open>A project directory\<close>

type_synonym folder = "(string \<times> string) list"

record proj_dir =
  md_pj :: json_text
  md_scripts :: "(string \<times> json_text) list"
  md_clues :: "folder option"
  md_scenes :: folder
  md_props :: folder
  md_ver_clues :: "folder option"
  md_ver_scenes :: folder
  md_ver_props :: folder
  md_backups :: "(int \<times> int \<times> json_text) list"
  md_fs :: project_fs

datatype mig_error = Raised py_error | Bad_json | No_migrator

type_synonym mig = "proj_dir \<times> mig_error option"

definition and_then :: "mig \<Rightarrow> (proj_dir \<Rightarrow> mig) \<Rightarrow> mig" where
  "and_then r f = (case r of (d, None) \<Rightarrow> f d | (d, Some e) \<Rightarrow> (d, Some e))"

fun for_each :: "('a \<Rightarrow> proj_dir \<Rightarrow> mig) \<Rightarrow> 'a list \<Rightarrow> proj_dir \<Rightarrow> mig" where
  "for_each f [] d = (d, None)"
| "for_each f (x # xs) d = and_then (f x d) (for_each f xs)"

section \<open>Clues become scenes and props\<close>

text \<open>\<open>(data.get("type") or "prop").lower() == "location"\<close>\<close>

definition is_location :: "json \<Rightarrow> py_error + bool" where
  "is_location data =
     bind_err (obj_or data ''type'' JNull) (\<lambda>t.
       if \<not> truthy t then Inr False
       else (case t of JStr s \<Rightarrow> Inr (lower s = ''location'') | _ \<Rightarrow> Inl Attribute_Error))"

definition move_file :: "string \<Rightarrow> folder \<Rightarrow> folder \<Rightarrow> folder \<times> folder" where
  "move_file name src dst =
     (case map_of src name of None \<Rightarrow> (src, dst) | Some c \<Rightarrow> (AList.delete name src, AList.update name c dst))"

definition image_extensions :: "string list" where
  "image_extensions = [''png'', ''jpg'', ''jpeg'', ''webp'']"

definition move_all :: "string list \<Rightarrow> folder \<Rightarrow> folder \<Rightarrow> folder \<times> folder" where
  "move_all names src dst = fold (\<lambda>n (s, t). move_file n s t) names (src, dst)"

definition relocate_image :: "string \<times> json \<Rightarrow> proj_dir \<Rightarrow> mig" where
  "relocate_image e d =
     (case is_location (snd e) of
        Inl err \<Rightarrow> (d, Some (Raised err))
      | Inr loc \<Rightarrow>
          (let names = map (\<lambda>x. fst e @ ''.'' @ x) image_extensions;
               (src, dst) = move_all names (coalesce (md_clues d) []) (if loc then md_scenes d else md_props d)
           in (if loc then d\<lparr>md_clues := Some src, md_scenes := dst\<rparr> else d\<lparr>md_clues := Some src, md_props := dst\<rparr>, None)))"

text \<open>An empty directory is removed, one with unknown files stays.\<close>

definition rmdir :: "folder option \<Rightarrow> folder option" where
  "rmdir f = (if f = Some [] then None else f)"

definition relocate_images :: "dict \<Rightarrow> proj_dir \<Rightarrow> mig" where
  "relocate_images clues d =
     and_then (for_each relocate_image clues d) (\<lambda>d. (d\<lparr>md_clues := rmdir (md_clues d)\<rparr>, None))"

text \<open>\<open>glob(f"{name}*")\<close> for a name without special characters.\<close>

definition relocate_version :: "string \<times> json \<Rightarrow> proj_dir \<Rightarrow> mig" where
  "relocate_version e d =
     (case is_location (snd e) of
        Inl err \<Rightarrow> (d, Some (Raised err))
      | Inr loc \<Rightarrow>
          (let files = coalesce (md_ver_clues d) [];
               names = filter (\<lambda>n. take (length (fst e)) n = fst e) (map fst files);
               (src, dst) = move_all names files (if loc then md_ver_scenes d else md_ver_props d)
           in (if loc then d\<lparr>md_ver_clues := Some src, md_ver_scenes := dst\<rparr>
               else d\<lparr>md_ver_clues := Some src, md_ver_props := dst\<rparr>, None)))"

definition relocate_versions :: "dict \<Rightarrow> proj_dir \<Rightarrow> mig" where
  "relocate_versions clues d =
     (if md_ver_clues d = None then (d, None)
      else and_then (for_each relocate_version clues d) (\<lambda>d. (d\<lparr>md_ver_clues := rmdir (md_ver_clues d)\<rparr>, None)))"

definition relocate_clue_files :: "dict \<Rightarrow> proj_dir \<Rightarrow> mig" where
  "relocate_clue_files clues d =
     (if md_clues d = None then (d, None) else and_then (relocate_images clues d) (relocate_versions clues))"

section \<open>Scripts\<close>

definition legacy_fields :: "string list" where
  "legacy_fields = [''clues'', ''clues_in_segment'', ''clues_in_scene'']"

definition clue_is_scene :: "dict \<Rightarrow> json \<Rightarrow> py_error + bool" where
  "clue_is_scene clues nm =
     (case nm of JStr s \<Rightarrow> is_location (dict_or clues s (JObj [])) | _ \<Rightarrow> if hashable nm then Inr False else Inl Type_Error)"

fun add_names :: "json list \<Rightarrow> json list \<Rightarrow> py_error + json list" where
  "add_names acc [] = Inr acc"
| "add_names acc (n # ns) =
     (if \<not> hashable n then Inl Type_Error else add_names (if py_in n acc then acc else acc @ [n]) ns)"

definition take_field :: "string \<Rightarrow> dict \<times> json list \<times> bool \<Rightarrow> py_error + dict \<times> json list \<times> bool" where
  "take_field lf st =
     (case st of (item, merged, found) \<Rightarrow>
        (case dict_get item lf of
           None \<Rightarrow> Inr st
         | Some v \<Rightarrow>
             bind_err (if truthy v then py_iter v else Inr []) (\<lambda>ns.
               bind_err (add_names merged ns) (\<lambda>m. Inr (dict_pop item lf, m, True)))))"

fun split_names :: "dict \<Rightarrow> json list \<Rightarrow> py_error + json list \<times> json list" where
  "split_names clues [] = Inr ([], [])"
| "split_names clues (n # ns) =
     bind_err (clue_is_scene clues n) (\<lambda>b. bind_err (split_names clues ns) (\<lambda>(ss, ps).
       Inr (if b then (n # ss, ps) else (ss, n # ps))))"

definition migrate_item_dict :: "dict \<Rightarrow> dict \<Rightarrow> py_error + dict" where
  "migrate_item_dict clues item =
     bind_err (fold_err (\<lambda>st lf. take_field lf st) (item, [], False) legacy_fields) (\<lambda>(it, merged, found).
       if \<not> found then Inr it
       else bind_err (split_names clues merged) (\<lambda>(ss, ps).
              Inr (dict_put (dict_put it ''scenes'' (JArr ss)) ''props'' (JArr ps))))"

text \<open>An item that is no dictionary only raises where a legacy field is found in it, or where nothing can be found in it.\<close>

definition migrate_item :: "dict \<Rightarrow> json \<Rightarrow> py_error + json" where
  "migrate_item clues item =
     (case item of
        JObj d \<Rightarrow> bind_err (migrate_item_dict clues d) (\<lambda>d'. Inr (JObj d'))
      | JArr xs \<Rightarrow> if list_ex (\<lambda>f. JStr f \<in> set xs) legacy_fields then Inl Type_Error else Inr item
      | JStr s \<Rightarrow> if list_ex (\<lambda>f. sublist f s) legacy_fields then Inl Attribute_Error else Inr item
      | _ \<Rightarrow> Inl Type_Error)"

text \<open>The items of a list are changed where they are; other containers are only looked through.\<close>

definition migrate_bucket :: "dict \<Rightarrow> string \<Rightarrow> dict \<Rightarrow> py_error + dict" where
  "migrate_bucket clues key data =
     (let v = dict_ref data key
      in if \<not> truthy v then Inr data
         else (case v of
                 JArr xs \<Rightarrow> bind_err (map_err (migrate_item clues) xs) (\<lambda>ys. Inr (dict_put data key (JArr ys)))
               | _ \<Rightarrow> bind_err (py_iter v) (\<lambda>xs. bind_err (map_err (migrate_item clues) xs) (\<lambda>_. Inr data))))"

text \<open>\<open>(data.get("schema_version") or 0) >= n\<close>\<close>

definition version_at_least :: "int \<Rightarrow> json \<Rightarrow> py_error + bool" where
  "version_at_least n data =
     bind_err (obj_or data ''schema_version'' JNull) (\<lambda>v.
       if \<not> truthy v then Inr (0 \<ge> n)
       else (case py_number v of Some q \<Rightarrow> Inr (of_int n \<le> q) | None \<Rightarrow> Inl Type_Error))"

definition migrate_script_value :: "dict \<Rightarrow> json \<Rightarrow> py_error + json" where
  "migrate_script_value clues j =
     bind_err (version_at_least 1 j) (\<lambda>b.
       if b then Inr j
       else (case j of
               JObj data \<Rightarrow>
                 bind_err (migrate_bucket clues ''scenes'' data) (\<lambda>d1. bind_err (migrate_bucket clues ''segments'' d1) (\<lambda>d2.
                   Inr (JObj (dict_put d2 ''schema_version'' (JInt 1)))))
             | _ \<Rightarrow> Inl Attribute_Error))"

definition migrate_script :: "dict \<Rightarrow> string \<Rightarrow> proj_dir \<Rightarrow> mig" where
  "migrate_script clues name d =
     (case map_of (md_scripts d) name of
        Some (TextJson j) \<Rightarrow>
          (case migrate_script_value clues j of
             Inl e \<Rightarrow> (d, Some (Raised e))
           | Inr j' \<Rightarrow> (d\<lparr>md_scripts := AList.update name (TextJson j') (md_scripts d)\<rparr>, None))
      | _ \<Rightarrow> (d, None))"

definition migrate_scripts :: "dict \<Rightarrow> proj_dir \<Rightarrow> mig" where
  "migrate_scripts clues d = for_each (migrate_script clues) (map fst (md_scripts d)) d"

section \<open>The steps\<close>

fun replace_first :: "string \<Rightarrow> string \<Rightarrow> string \<Rightarrow> string" where
  "replace_first pat rep [] = []"
| "replace_first pat rep (c # cs) =
     (if take (length pat) (c # cs) = pat then rep @ drop (length pat) (c # cs) else c # replace_first pat rep cs)"

definition split_clue :: "json \<Rightarrow> py_error + bool \<times> json" where
  "split_clue data =
     bind_err (is_location data) (\<lambda>loc. bind_err (obj_or data ''description'' (JStr [])) (\<lambda>desc.
       bind_err (obj_or data ''clue_sheet'' JNull) (\<lambda>sheet.
         if \<not> truthy sheet then Inr (loc, JObj [(''description'', desc)])
         else (case sheet of
                 JStr s \<Rightarrow>
                   Inr (loc, JObj [(''description'', desc),
                     (if loc then ''scene_sheet'' else ''prop_sheet'',
                      JStr (replace_first ''clues/'' (if loc then ''scenes/'' else ''props/'') s))])
               | _ \<Rightarrow> Inl Attribute_Error))))"

definition split_clues :: "dict \<Rightarrow> py_error + dict \<times> dict" where
  "split_clues clues =
     bind_err (map_err (\<lambda>(n, v). bind_err (split_clue v) (\<lambda>(loc, j). Inr (n, loc, j))) clues) (\<lambda>xs.
       Inr (map (\<lambda>(n, _, j). (n, j)) (filter (\<lambda>(_, loc, _). loc) xs),
            map (\<lambda>(n, _, j). (n, j)) (filter (\<lambda>(_, loc, _). \<not> loc) xs)))"

text \<open>\<open>data.get(key) or {}\<close> as the dictionary that is iterated over.\<close>

definition clue_table :: "json \<Rightarrow> py_error + dict" where
  "clue_table v = (if \<not> truthy v then Inr [] else (case v of JObj d \<Rightarrow> Inr d | _ \<Rightarrow> Inl Attribute_Error))"

definition reconstruct_old_clues_from_v1 :: "dict \<Rightarrow> py_error + dict" where
  "reconstruct_old_clues_from_v1 data =
     bind_err (clue_table (dict_ref data ''scenes'')) (\<lambda>ss. bind_err (clue_table (dict_ref data ''props'')) (\<lambda>ps.
       Inr (fold (\<lambda>n acc. dict_put acc n (JObj [(''type'', JStr ''prop'')])) (map fst ps)
              (map (\<lambda>(n, _). (n, JObj [(''type'', JStr ''location'')])) ss))))"

definition commit :: "json \<Rightarrow> proj_dir \<Rightarrow> proj_dir" where
  "commit j d = d\<lparr>md_pj := TextJson j\<rparr>"

definition v1_of_v0 :: "dict \<Rightarrow> dict \<Rightarrow> py_error + dict" where
  "v1_of_v0 clues data =
     bind_err (if clues = [] then Inr (dict_default (dict_default data ''scenes'' (JObj [])) ''props'' (JObj []))
               else bind_err (split_clues clues) (\<lambda>(ss, ps).
                      Inr (dict_put (dict_put data ''scenes'' (JObj ss)) ''props'' (JObj ps))))
       (\<lambda>d. Inr (dict_put (dict_pop d ''clues'') ''schema_version'' (JInt 1)))"

definition lift_err :: "py_error + 'a \<Rightarrow> proj_dir \<Rightarrow> ('a \<Rightarrow> mig) \<Rightarrow> mig" where
  "lift_err r d f = (case r of Inl e \<Rightarrow> (d, Some (Raised e)) | Inr v \<Rightarrow> f v)"

definition with_project :: "proj_dir \<Rightarrow> (dict \<Rightarrow> mig) \<Rightarrow> mig" where
  "with_project d f =
     (case md_pj d of
        TextNull \<Rightarrow> (d, None)
      | TextBad \<Rightarrow> (d, Some Bad_json)
      | TextJson (JObj data) \<Rightarrow> f data
      | TextJson _ \<Rightarrow> (d, Some (Raised Attribute_Error)))"

text \<open>The files move first, then the scripts change, and the version is written last.\<close>

definition migrate_v0_to_v1 :: "proj_dir \<Rightarrow> mig" where
  "migrate_v0_to_v1 d =
     with_project d (\<lambda>data.
       lift_err (version_at_least 1 (JObj data)) d (\<lambda>current.
             if current
             then if md_clues d = None \<or> md_clues d = Some [] then (d, None)
                  else lift_err (reconstruct_old_clues_from_v1 data) d (\<lambda>clues.
                         and_then (relocate_clue_files clues d) (migrate_scripts clues))
             else lift_err (clue_table (dict_ref data ''clues'')) d (\<lambda>clues.
                    and_then (and_then (relocate_clue_files clues d) (migrate_scripts clues)) (\<lambda>d1.
                      lift_err (v1_of_v0 clues data) d1 (\<lambda>new. (commit (JObj new) d1, None))))))"

definition legacy_provider_aliases :: "(string \<times> string) list" where
  "legacy_provider_aliases =
     [(''gemini'', ''gemini-aistudio''), (''aistudio'', ''gemini-aistudio''), (''vertex'', ''gemini-vertex''), (''seedance'', ''ark'')]"

definition provider_fields :: "string list" where
  "provider_fields =
     [''video_backend'', ''image_backend'', ''image_provider_t2i'', ''image_provider_i2i'', ''text_backend_script'',
      ''text_backend_overview'', ''text_backend_style'']"

definition canonical_provider :: "string \<Rightarrow> string" where
  "canonical_provider p = coalesce (map_of legacy_provider_aliases p) p"

definition normalize_field :: "string \<Rightarrow> string" where
  "normalize_field v =
     (if CHR ''/'' \<in> set v
      then (let p = canonical_provider (strip (takeWhile (\<lambda>c. c \<noteq> CHR ''/'') v));
                m = strip (tl (dropWhile (\<lambda>c. c \<noteq> CHR ''/'') v))
            in if m = [] then p else p @ ''/'' @ m)
      else canonical_provider (strip v))"

definition normalize_provider_key :: "string \<Rightarrow> dict \<Rightarrow> dict" where
  "normalize_provider_key key d =
     (case dict_ref d key of JStr v \<Rightarrow> if v = [] then d else dict_put d key (JStr (normalize_field v)) | _ \<Rightarrow> d)"

definition migrate_project_dict :: "dict \<Rightarrow> dict" where
  "migrate_project_dict project =
     (let d1 = (case dict_ref project ''image_backend'' of
                  JStr v \<Rightarrow> if v = [] then project
                            else dict_default (dict_default project ''image_provider_t2i'' (JStr v)) ''image_provider_i2i'' (JStr v)
                | _ \<Rightarrow> project)
      in dict_pop (fold normalize_provider_key provider_fields d1) ''image_backend'')"

definition migrate_v1_to_v2 :: "proj_dir \<Rightarrow> mig" where
  "migrate_v1_to_v2 d =
     with_project d (\<lambda>data.
       lift_err (version_at_least 2 (JObj data)) d (\<lambda>current.
             if current then (d, None)
             else (commit (JObj (dict_put (migrate_project_dict data) ''schema_version'' (JInt 2))) d, None)))"

definition migrate_v2_to_v3 :: "proj_dir \<Rightarrow> mig" where
  "migrate_v2_to_v3 d =
     with_project d (\<lambda>data.
       (let v = dict_ref data ''schema_version''
            in lift_err (if \<not> truthy v then Inr 0 else (case py_int_value v of Some n \<Rightarrow> Inr n | None \<Rightarrow> Inl Type_Error)) d (\<lambda>n.
                 if 3 \<le> n then (d, None)
                 else (commit (JObj (dict_put (backfill_episode_ledger (md_fs d) data) ''schema_version'' (JInt 3))) d, None))))"

section \<open>The runner\<close>

definition current_schema_version :: int where
  "current_schema_version = 3"

definition load_schema_version :: "proj_dir \<Rightarrow> int" where
  "load_schema_version d =
     (case md_pj d of
        TextJson (JObj data) \<Rightarrow>
          (case dict_ref data ''schema_version'' of
             JNull \<Rightarrow> 0
           | JBool _ \<Rightarrow> -1
           | v \<Rightarrow> coalesce (py_int_value v) (-1))
      | _ \<Rightarrow> -1)"

definition migrator :: "int \<Rightarrow> (proj_dir \<Rightarrow> mig) option" where
  "migrator v =
     (if v = 0 then Some migrate_v0_to_v1 else if v = 1 then Some migrate_v1_to_v2
      else if v = 2 then Some migrate_v2_to_v3 else None)"

definition backup_project_json :: "int \<Rightarrow> int \<Rightarrow> proj_dir \<Rightarrow> proj_dir" where
  "backup_project_json now v d = (if md_pj d = TextNull then d else d\<lparr>md_backups := md_backups d @ [(v, now, md_pj d)]\<rparr>)"

function migrate_from :: "int \<Rightarrow> int \<Rightarrow> proj_dir \<Rightarrow> mig" where
  "migrate_from now v d =
     (if current_schema_version \<le> v then (d, None)
      else (case migrator v of
              None \<Rightarrow> (backup_project_json now v d, Some No_migrator)
            | Some m \<Rightarrow> and_then (m (backup_project_json now v d)) (migrate_from now (v + 1))))"
  by pat_completeness auto

termination
  by (relation "measure (\<lambda>(_, v, _). nat (current_schema_version - v))") (auto simp: current_schema_version_def)

declare migrate_from.simps [simp del]

datatype mig_outcome = Skipped | Migrated | Failed mig_error | No_project

definition migrate_project_dir :: "int \<Rightarrow> proj_dir \<Rightarrow> proj_dir \<times> mig_outcome" where
  "migrate_project_dir now d =
     (let v = load_schema_version d
      in if v < 0 then (d, No_project) else if current_schema_version \<le> v then (d, Skipped)
         else (case migrate_from now v d of (d', None) \<Rightarrow> (d', Migrated) | (d', Some e) \<Rightarrow> (d', Failed e)))"

definition is_project_name :: "string \<Rightarrow> bool" where
  "is_project_name n = (take 1 n \<noteq> ''_'' \<and> take 1 n \<noteq> ''.'')"

definition run_project_migrations :: "int \<Rightarrow> (string \<times> proj_dir) list \<Rightarrow> (string \<times> proj_dir \<times> mig_outcome) list" where
  "run_project_migrations now dirs =
     map (\<lambda>(n, d). (n, if is_project_name n then migrate_project_dir now d else (d, No_project))) (sort_key fst dirs)"

definition cleanup_stale_backups :: "int \<Rightarrow> int \<Rightarrow> proj_dir \<Rightarrow> proj_dir" where
  "cleanup_stale_backups now max_age_days d =
     d\<lparr>md_backups := filter (\<lambda>(_, t, _). now - max_age_days * 86400 \<le> t) (md_backups d)\<rparr>"

end
