(* ===== verification/MigrationProps.thy ===== *)
theory MigrationProps
  imports Migrations
begin

text \<open>
  Properties of the migrations: a project that migrates is at the current version and stays there, one that fails is at
  a version between and its project file is that of the last completed step, provider names are normalised once; and
  three defects: a version stored as text, versions left behind after a crash, versions taken by a longer name.
\<close>

section \<open>The version\<close>

lemma load_commit [simp]: "load_schema_version (commit (JObj (dict_put x ''schema_version'' (JInt k))) d) = k"
  by (simp add: load_schema_version_def commit_def dict_ref_put)

lemma load_backup [simp]: "load_schema_version (backup_project_json now v d) = load_schema_version d"
  "md_pj (backup_project_json now v d) = md_pj d"
  by (simp_all add: load_schema_version_def backup_project_json_def)

lemma load_pj: "md_pj d' = md_pj d \<Longrightarrow> load_schema_version d' = load_schema_version d"
  by (simp add: load_schema_version_def)

lemma load_data:
  assumes "0 \<le> load_schema_version d"
  obtains data where "md_pj d = TextJson (JObj data)"
    "dict_ref data ''schema_version'' = JNull \<and> load_schema_version d = 0 \<or>
     py_int_value (dict_ref data ''schema_version'') = Some (load_schema_version d)"
proof (cases "md_pj d")
  case (TextJson j)
  show thesis
  proof (cases j)
    case (JObj data)
    let ?v = "dict_ref data ''schema_version''"
    have l: "load_schema_version d = (case ?v of JNull \<Rightarrow> 0 | JBool _ \<Rightarrow> -1 | v \<Rightarrow> coalesce (py_int_value v) (-1))"
      using TextJson JObj by (simp add: load_schema_version_def)
    have "?v = JNull \<and> load_schema_version d = 0 \<or> py_int_value ?v = Some (load_schema_version d)"
    proof (cases ?v)
      case (JStr s)
      with l assms show ?thesis by (cases "py_int s") auto
    qed (use l assms in auto)
    with that TextJson JObj show thesis by blast
  qed (use assms TextJson in \<open>simp_all add: load_schema_version_def\<close>)
qed (use assms in \<open>simp_all add: load_schema_version_def\<close>)

lemma not_current:
  assumes "py_int_value v = Some n \<or> v = JNull \<and> n = 0" and "0 \<le> n" and "version_at_least (n + 1) (JObj data) = Inr b"
    and "dict_ref data ''schema_version'' = v"
  shows "\<not> b"
proof -
  have o: "obj_or (JObj data) ''schema_version'' JNull = Inr v"
    using assms(4) by (simp add: obj_or_def dict_or_def dict_ref_def)
  show ?thesis
  proof (cases v)
    case (JFloat r)
    with assms(1) have "r < of_int n + 1" by (auto split: if_splits) linarith+
    with assms(2,3) o JFloat show ?thesis by (auto simp: version_at_least_def split: if_splits)
  qed (use assms o in \<open>auto simp: version_at_least_def split: if_splits\<close>)
qed

section \<open>What a step leaves of the project file\<close>

lemma and_then_simps [simp]: "and_then (d, None) f = f d" "and_then (d, Some e) f = (d, Some e)"
  by (simp_all add: and_then_def)

lemma and_thenE:
  assumes "and_then r f = (d', e)"
  obtains e1 where "r = (d', Some e1)" "e = Some e1" | d1 where "r = (d1, None)" "f d1 = (d', e)"
  using assms by (cases r; cases "snd r") auto

definition keeps :: "(proj_dir \<Rightarrow> mig) \<Rightarrow> bool" where
  "keeps f = (\<forall>d. md_pj (fst (f d)) = md_pj d)"

lemma keeps_and_then: "keeps f \<Longrightarrow> keeps g \<Longrightarrow> keeps (\<lambda>d. and_then (f d) g)"
  by (auto simp: keeps_def and_then_def split: prod.split option.split) (metis fst_conv)+

lemma keeps_for_each: "\<forall>x. keeps (f x) \<Longrightarrow> keeps (for_each f xs)"
proof (induction xs)
  case Nil
  then show ?case by (simp add: keeps_def)
next
  case (Cons x xs)
  then have "keeps (f x)" by blast
  from keeps_and_then [OF this Cons.IH [OF Cons.prems]] show ?case by (simp add: keeps_def)
qed

lemma keeps_relocate: "keeps (relocate_clue_files clues)"
proof -
  have "\<forall>e. keeps (relocate_image e)"
    by (auto simp: keeps_def relocate_image_def Let_def split: sum.split prod.split)
  then have i: "keeps (relocate_images clues)"
    unfolding relocate_images_def by (intro keeps_and_then keeps_for_each) (auto simp: keeps_def)
  have "\<forall>e. keeps (relocate_version e)"
    by (auto simp: keeps_def relocate_version_def Let_def split: sum.split prod.split)
  then have "keeps (\<lambda>d. and_then (for_each relocate_version clues d) (\<lambda>d. (d\<lparr>md_ver_clues := rmdir (md_ver_clues d)\<rparr>, None)))"
    by (intro keeps_and_then keeps_for_each) (auto simp: keeps_def)
  then have v: "keeps (relocate_versions clues)" by (simp add: keeps_def relocate_versions_def)
  from keeps_and_then [OF i v] show ?thesis by (simp add: keeps_def relocate_clue_files_def)
qed

lemma keeps_scripts: "keeps (migrate_scripts clues)"
proof -
  have "\<forall>n. keeps (migrate_script clues n)"
    by (auto simp: keeps_def migrate_script_def split: option.split json_text.split sum.split)
  from keeps_for_each [OF this] show ?thesis by (simp add: keeps_def migrate_scripts_def)
qed

lemma keeps_files: "keeps (\<lambda>d. and_then (relocate_clue_files clues d) (migrate_scripts clues))"
  by (rule keeps_and_then [OF keeps_relocate keeps_scripts])

lemma lift_errE:
  assumes "lift_err r d f = (d', e)"
  obtains err where "d' = d" "e = Some (Raised err)" | v where "r = Inr v" "f v = (d', e)"
  using assms by (cases r) (auto simp: lift_err_def)

text \<open>A step from a version to the next one either commits the next version or fails and keeps the project file.\<close>

definition steps_up :: "int \<Rightarrow> (proj_dir \<Rightarrow> mig) \<Rightarrow> bool" where
  "steps_up n f =
     (\<forall>d d' e. load_schema_version d = n \<longrightarrow> f d = (d', e) \<longrightarrow>
        (case e of None \<Rightarrow> load_schema_version d' = n + 1 | Some _ \<Rightarrow> md_pj d' = md_pj d))"

lemma with_project_data: "md_pj d = TextJson (JObj data) \<Longrightarrow> with_project d f = f data"
  by (simp add: with_project_def)

lemma step0: "steps_up 0 migrate_v0_to_v1"
  unfolding steps_up_def
proof (intro allI impI)
  fix d d' e assume v: "load_schema_version d = 0" and r: "migrate_v0_to_v1 d = (d', e)"
  from v obtain data where data: "md_pj d = TextJson (JObj data)"
    "py_int_value (dict_ref data ''schema_version'') = Some 0 \<or> dict_ref data ''schema_version'' = JNull \<and> (0::int) = 0"
    using load_data [of d] by (metis order_refl)
  note r = r [unfolded migrate_v0_to_v1_def with_project_data [OF data(1)]]
  from r show "case e of None \<Rightarrow> load_schema_version d' = 0 + 1 | Some _ \<Rightarrow> md_pj d' = md_pj d"
  proof (rule lift_errE)
    fix current assume c: "version_at_least 1 (JObj data) = Inr current"
      and rest: "(if current
         then if md_clues d = None \<or> md_clues d = Some [] then (d, None)
              else lift_err (reconstruct_old_clues_from_v1 data) d (\<lambda>clues.
                     and_then (relocate_clue_files clues d) (migrate_scripts clues))
         else lift_err (clue_table (dict_ref data ''clues'')) d (\<lambda>clues.
                and_then (and_then (relocate_clue_files clues d) (migrate_scripts clues)) (\<lambda>d1.
                  lift_err (v1_of_v0 clues data) d1 (\<lambda>new. (commit (JObj new) d1, None))))) = (d', e)"
    have "\<not> current" using not_current [OF data(2) _ _ refl] c by simp
    with rest have "lift_err (clue_table (dict_ref data ''clues'')) d (\<lambda>clues.
        and_then (and_then (relocate_clue_files clues d) (migrate_scripts clues)) (\<lambda>d1.
          lift_err (v1_of_v0 clues data) d1 (\<lambda>new. (commit (JObj new) d1, None)))) = (d', e)" by simp
    then show ?thesis
    proof (rule lift_errE)
      fix clues assume "and_then (and_then (relocate_clue_files clues d) (migrate_scripts clues)) (\<lambda>d1.
          lift_err (v1_of_v0 clues data) d1 (\<lambda>new. (commit (JObj new) d1, None))) = (d', e)"
      then show ?thesis
      proof (rule and_thenE)
        fix e1 assume "and_then (relocate_clue_files clues d) (migrate_scripts clues) = (d', Some e1)" "e = Some e1"
        with keeps_files [of clues] show ?thesis by (auto simp: keeps_def dest: spec [where x = d])
      next
        fix d1 assume one: "and_then (relocate_clue_files clues d) (migrate_scripts clues) = (d1, None)"
          and two: "lift_err (v1_of_v0 clues data) d1 (\<lambda>new. (commit (JObj new) d1, None)) = (d', e)"
        have pj: "md_pj d1 = md_pj d" using keeps_files [of clues] one by (auto simp: keeps_def dest: spec [where x = d])
        from two show ?thesis
          by (rule lift_errE) (use pj in \<open>auto simp: v1_of_v0_def bind_err_Inr_iff split: if_splits\<close>)
      qed
    qed (simp_all)
  qed simp_all
qed


lemma step1: "steps_up 1 migrate_v1_to_v2"
  unfolding steps_up_def
proof (intro allI impI)
  fix d d' e assume v: "load_schema_version d = 1" and r: "migrate_v1_to_v2 d = (d', e)"
  obtain data where data: "md_pj d = TextJson (JObj data)" "py_int_value (dict_ref data ''schema_version'') = Some 1"
    using load_data [of d] v by (metis one_neq_zero zero_le_one)
  from r [unfolded migrate_v1_to_v2_def with_project_data [OF data(1)]]
  show "case e of None \<Rightarrow> load_schema_version d' = 1 + 1 | Some _ \<Rightarrow> md_pj d' = md_pj d"
    by (rule lift_errE) (use not_current [OF disjI1 [OF data(2)] _ _ refl] in \<open>auto split: if_splits\<close>)
qed

lemma step2: "steps_up 2 migrate_v2_to_v3"
  unfolding steps_up_def
proof (intro allI impI)
  fix d d' e assume v: "load_schema_version d = 2" and r: "migrate_v2_to_v3 d = (d', e)"
  obtain data where data: "md_pj d = TextJson (JObj data)" "py_int_value (dict_ref data ''schema_version'') = Some 2"
    using load_data [of d] v by (metis zero_le_numeral zero_neq_numeral)
  from r data(2) show "case e of None \<Rightarrow> load_schema_version d' = 2 + 1 | Some _ \<Rightarrow> md_pj d' = md_pj d"
    by (auto simp: migrate_v2_to_v3_def with_project_data [OF data(1)] lift_err_def Let_def split: if_splits)
qed

lemma migrate_from_step:
  assumes "steps_up v m" and "migrator v = Some m" and "v < 3" and "load_schema_version d = v" and "migrate_from now v d = (d', e)"
  shows "(\<exists>err. e = Some err \<and> md_pj d' = md_pj d) \<or>
    (\<exists>d1. load_schema_version d1 = v + 1 \<and> migrate_from now (v + 1) d1 = (d', e))"
proof -
  from assms(5,2,3) have "and_then (m (backup_project_json now v d)) (migrate_from now (v + 1)) = (d', e)"
    by (subst (asm) migrate_from.simps) (simp add: current_schema_version_def)
  moreover have u: "case x of None \<Rightarrow> load_schema_version b = v + 1 | Some _ \<Rightarrow> md_pj b = md_pj d"
    if "m (backup_project_json now v d) = (b, x)" for b x
    using assms(1) [unfolded steps_up_def, rule_format, of "backup_project_json now v d" b x] that assms(4) by (cases x) simp_all
  ultimately show ?thesis
  proof (elim and_thenE)
    fix e1 assume "m (backup_project_json now v d) = (d', Some e1)" "e = Some e1"
    with u show ?thesis by fastforce
  next
    fix d1 assume "m (backup_project_json now v d) = (d1, None)" "migrate_from now (v + 1) d1 = (d', e)"
    with u show ?thesis by fastforce
  qed
qed

lemma migrator_simps: "migrator 0 = Some migrate_v0_to_v1" "migrator 1 = Some migrate_v1_to_v2" "migrator 2 = Some migrate_v2_to_v3"
  by (simp_all add: migrator_def)

lemma migrate_from_done: "migrate_from now 3 d = (d, None)"
  by (subst migrate_from.simps) (simp add: current_schema_version_def)

definition settled_from :: "int \<Rightarrow> proj_dir \<Rightarrow> proj_dir \<Rightarrow> mig_error option \<Rightarrow> bool" where
  "settled_from v d d' e =
     (case e of None \<Rightarrow> load_schema_version d' = 3
      | Some _ \<Rightarrow> v \<le> load_schema_version d' \<and> load_schema_version d' < 3 \<and> (load_schema_version d' = v \<longrightarrow> md_pj d' = md_pj d))"

lemma settled_later: "settled_from (v + 1) d1 d' e \<Longrightarrow> settled_from v d d' e"
  by (auto simp: settled_from_def split: option.splits)

lemma settled_here: "md_pj d' = md_pj d \<Longrightarrow> load_schema_version d = v \<Longrightarrow> v < 3 \<Longrightarrow> settled_from v d d' (Some e)"
  using load_pj [of d' d] by (simp add: settled_from_def)

lemma from2: "load_schema_version d = 2 \<Longrightarrow> migrate_from now 2 d = (d', e) \<Longrightarrow> settled_from 2 d d' e"
  using migrate_from_step [OF step2 migrator_simps(3)] settled_here
  by (fastforce simp: migrate_from_done settled_from_def split: option.splits)

lemma from1: "load_schema_version d = 1 \<Longrightarrow> migrate_from now 1 d = (d', e) \<Longrightarrow> settled_from 1 d d' e"
  using migrate_from_step [OF step1 migrator_simps(2), of d now d' e] settled_here [of d' d 1] from2 settled_later [of 1 _ d' e d]
  by fastforce

lemma from0: "load_schema_version d = 0 \<Longrightarrow> migrate_from now 0 d = (d', e) \<Longrightarrow> settled_from 0 d d' e"
  using migrate_from_step [OF step0 migrator_simps(1), of d now d' e] settled_here [of d' d 0] from1 settled_later [of 0 _ d' e d]
  by fastforce

lemma project_dir_settled:
  assumes "migrate_project_dir now d = (d', out)" and "out = Migrated \<and> e = None \<or> out = Failed err \<and> e = Some err"
  shows "settled_from (load_schema_version d) d d' e"
proof -
  let ?v = "load_schema_version d"
  have run: "migrate_from now ?v d = (d', e)" and "?v = 0 \<or> ?v = 1 \<or> ?v = 2"
    using assms by (auto simp: migrate_project_dir_def Let_def current_schema_version_def split: if_splits prod.splits option.splits)
  with from0 [of d now d' e] from1 [of d now d' e] from2 [of d now d' e] show ?thesis by auto
qed

text \<open>C38. A project that is migrated is at the current version, and migrating it again does nothing.\<close>

theorem migration_reaches_current:
  assumes "migrate_project_dir now d = (d', Migrated)"
  shows "load_schema_version d' = current_schema_version \<and> migrate_project_dir later d' = (d', Skipped)"
  using project_dir_settled [OF assms, of None undefined]
  by (simp add: settled_from_def migrate_project_dir_def current_schema_version_def)

text \<open>A migration that fails leaves a project between its old version and the current one; and if it is at its old
  version, its project file is the old one, so that the next start tries again from there.\<close>

theorem failed_migration_resumes:
  assumes "migrate_project_dir now d = (d', Failed err)"
  shows "load_schema_version d \<le> load_schema_version d' \<and> load_schema_version d' < current_schema_version \<and>
    (load_schema_version d' \<noteq> load_schema_version d \<or> md_pj d' = md_pj d)"
  using project_dir_settled [OF assms, of "Some err" err] by (auto simp: settled_from_def current_schema_version_def)

section \<open>A version stored as text\<close>

text \<open>The runner reads a version that is stored as text, and the last step expects one, but the first two compare it as
  it is: a project whose version is the text of 0 or 1 fails to migrate at every start.\<close>

theorem text_version_fails:
  assumes "md_pj d = TextJson (JObj data)" and "dict_ref data ''schema_version'' = JStr s" and "py_int s = Some 0 \<or> py_int s = Some 1"
  shows "\<exists>d'. migrate_project_dir now d = (d', Failed (Raised Type_Error)) \<and> md_pj d' = md_pj d"
proof -
  have s: "s \<noteq> []" using assms(3) by (auto simp: py_int_def strip_def)
  have l: "load_schema_version d = the (py_int s)" using assms by (auto simp: load_schema_version_def)
  have "version_at_least n (JObj data) = Inl Type_Error" for n
    using assms(2) s by (simp add: version_at_least_def obj_or_def dict_or_def dict_ref_def)
  then have "migrate_v0_to_v1 b = (b, Some (Raised Type_Error))" "migrate_v1_to_v2 b = (b, Some (Raised Type_Error))"
    if "md_pj b = TextJson (JObj data)" for b
    using that by (simp_all add: migrate_v0_to_v1_def migrate_v1_to_v2_def with_project_data lift_err_def)
  then have "migrate_from now v d = (backup_project_json now v d, Some (Raised Type_Error))" if "v = 0 \<or> v = 1" for v
    using that assms(1) by (subst migrate_from.simps) (auto simp: current_schema_version_def migrator_def)
  with l assms(3) show ?thesis by (auto simp: migrate_project_dir_def current_schema_version_def)
qed


section \<open>Files of the versions\<close>

lemma scripts_keep_folders:
  "md_ver_clues (fst (migrate_scripts clues d)) = md_ver_clues d" "md_clues (fst (migrate_scripts clues d)) = md_clues d"
proof -
  have one: "md_ver_clues (fst (migrate_script clues n d)) = md_ver_clues d \<and> md_clues (fst (migrate_script clues n d)) = md_clues d" for n d
    by (auto simp: migrate_script_def split: option.split json_text.split sum.split)
  have "md_ver_clues (fst (for_each (migrate_script clues) ns d)) = md_ver_clues d \<and>
      md_clues (fst (for_each (migrate_script clues) ns d)) = md_clues d" for ns
  proof (induction ns arbitrary: d)
    case (Cons n ns)
    obtain d1 e where s: "migrate_script clues n d = (d1, e)" by fastforce
    with Cons.IH [of d1] one [of n d] show ?case by (cases e) simp_all
  qed simp
  then show "md_ver_clues (fst (migrate_scripts clues d)) = md_ver_clues d" "md_clues (fst (migrate_scripts clues d)) = md_clues d"
    by (simp_all add: migrate_scripts_def)
qed

lemma step0_no_clues:
  assumes "md_clues d = None" and "migrate_v0_to_v1 d = (d', e)"
  shows "md_ver_clues d' = md_ver_clues d"
proof -
  have r: "relocate_clue_files clues d = (d, None)" for clues using assms(1) by (simp add: relocate_clue_files_def)
  have s: "migrate_scripts clues d = (x, y) \<Longrightarrow> md_ver_clues x = md_ver_clues d" for clues x y
    using scripts_keep_folders(1) [of clues d] by simp
  show ?thesis
    using assms s
    by (auto simp: migrate_v0_to_v1_def with_project_def lift_err_def commit_def r
        split: json_text.splits json.splits sum.splits if_splits elim!: and_thenE)
qed

lemma later_keep_versions:
  "md_ver_clues (fst (migrate_v1_to_v2 d)) = md_ver_clues d" "md_ver_clues (fst (migrate_v2_to_v3 d)) = md_ver_clues d"
  by (auto simp: migrate_v1_to_v2_def migrate_v2_to_v3_def with_project_def lift_err_def commit_def Let_def
      split: json_text.split json.split sum.split)

lemma backup_keeps [simp]: "md_ver_clues (backup_project_json now v d) = md_ver_clues d" "md_clues (backup_project_json now v d) = md_clues d"
  by (simp_all add: backup_project_json_def)

lemma later_from:
  assumes "1 \<le> v" and "migrate_from now v d = (d', e)"
  shows "md_ver_clues d' = md_ver_clues d"
  using assms
proof (induction now v d rule: migrate_from.induct)
  case (1 now v d)
  show ?case
  proof (cases "current_schema_version \<le> v")
    case False
    then have "v = 1 \<or> v = 2" using "1.prems"(1) by (auto simp: current_schema_version_def)
    then obtain m where m: "migrator v = Some m" and k: "\<And>b. md_ver_clues (fst (m b)) = md_ver_clues b"
      using later_keep_versions by (metis migrator_simps(2,3))
    from "1.prems"(2) False m have "and_then (m (backup_project_json now v d)) (migrate_from now (v + 1)) = (d', e)"
      by (subst (asm) migrate_from.simps) simp
    then show ?thesis
    proof (rule and_thenE)
      fix e1 assume "m (backup_project_json now v d) = (d', Some e1)" "e = Some e1"
      with k [of "backup_project_json now v d"] show ?thesis by simp
    next
      fix d1 assume s: "m (backup_project_json now v d) = (d1, None)" "migrate_from now (v + 1) d1 = (d', e)"
      with k [of "backup_project_json now v d"] "1.IH" [OF False m] "1.prems"(1) show ?thesis by simp
    qed
  qed (use "1.prems" in \<open>simp add: migrate_from.simps\<close>)
qed

text \<open>C40. The first step says that a crash is healed by running it again. When the crash comes after the directory of the
  clues has been emptied and removed, the next run finds no such directory, skips the versions of the clues as well, and
  raises the version: they stay where nothing looks for them.\<close>

theorem crash_leaves_versions_behind:
  assumes "relocate_images clues d = (d1, None)" and "md_clues d1 = None" and "load_schema_version d1 = 0"
    and "migrate_project_dir now d1 = (d', Migrated)"
  shows "md_ver_clues d' = md_ver_clues d \<and> load_schema_version d' = current_schema_version"
proof -
  have i: "md_ver_clues (fst (relocate_image e b)) = md_ver_clues b" for e b
    by (auto simp: relocate_image_def Let_def split: sum.split prod.split)
  have "md_ver_clues (fst (for_each relocate_image cs b)) = md_ver_clues b" for cs b
  proof (induction cs arbitrary: b)
    case (Cons c cs)
    obtain b1 e where s: "relocate_image c b = (b1, e)" by fastforce
    with Cons.IH [of b1] i [of c b] show ?case by (cases e) simp_all
  qed simp
  then have "for_each relocate_image clues d = (b, x) \<Longrightarrow> md_ver_clues b = md_ver_clues d" for b x
    by (metis fst_conv)
  with assms(1) have v1: "md_ver_clues d1 = md_ver_clues d" by (auto simp: relocate_images_def elim!: and_thenE)
  from assms(3,4) have "migrate_from now 0 d1 = (d', None)"
    by (auto simp: migrate_project_dir_def current_schema_version_def split: prod.splits option.splits)
  then have "and_then (migrate_v0_to_v1 (backup_project_json now 0 d1)) (migrate_from now 1) = (d', None)"
    by (subst (asm) migrate_from.simps) (simp add: current_schema_version_def migrator_def)
  then obtain b where b: "migrate_v0_to_v1 (backup_project_json now 0 d1) = (b, None)" "migrate_from now 1 b = (d', None)"
    by (auto elim: and_thenE)
  have "md_ver_clues b = md_ver_clues d1" using step0_no_clues [OF _ b(1)] assms(2) by simp
  with later_from [OF _ b(2)] v1 have "md_ver_clues d' = md_ver_clues d" by simp
  moreover have "load_schema_version d' = current_schema_version"
    using project_dir_settled [OF assms(4), of None undefined] by (simp add: settled_from_def current_schema_version_def)
  ultimately show ?thesis ..
qed


lemma move_all_spec:
  assumes "move_all names src dst = (src', dst')"
  shows "map_of src' f = (if f \<in> set names then None else map_of src f) \<and>
    map_of dst' f = (if f \<in> set names \<and> map_of src f \<noteq> None then map_of src f else map_of dst f)"
  using assms
proof (induction names arbitrary: src dst)
  case (Cons n names)
  obtain s1 d1 where m: "move_file n src dst = (s1, d1)" by fastforce
  with Cons.prems have "move_all names s1 d1 = (src', dst')" by (simp add: move_all_def)
  note ih = Cons.IH [OF this]
  from m have "map_of s1 f = (if f = n then None else map_of src f)"
    "map_of d1 f = (if f = n \<and> map_of src f \<noteq> None then map_of src f else map_of dst f)"
    by (auto simp: move_file_def delete_conv' update_conv' split: option.splits)
  with ih show ?case by auto
qed (simp add: move_all_def)

lemma relocate_version_keeps:
  assumes "map_of (coalesce (md_ver_clues d) []) f = None" and "map_of (md_ver_scenes d) f = Some c"
  shows "map_of (coalesce (md_ver_clues (fst (relocate_version e d))) []) f = None \<and>
    map_of (md_ver_scenes (fst (relocate_version e d))) f = Some c"
proof (cases "is_location (snd e)")
  case (Inr loc)
  let ?names = "filter (\<lambda>n. take (length (fst e)) n = fst e) (map fst (coalesce (md_ver_clues d) []))"
  obtain s t where m: "move_all ?names (coalesce (md_ver_clues d) []) (if loc then md_ver_scenes d else md_ver_props d) = (s, t)"
    by fastforce
  from move_all_spec [OF m, of f] assms Inr m show ?thesis
    by (cases loc) (simp_all add: relocate_version_def Let_def)
qed (use assms in \<open>simp add: relocate_version_def\<close>)

lemma relocate_rest_keeps:
  assumes "map_of (coalesce (md_ver_clues d) []) f = None" and "map_of (md_ver_scenes d) f = Some c"
  shows "map_of (md_ver_scenes (fst (for_each relocate_version cs d))) f = Some c"
  using assms
proof (induction cs arbitrary: d)
  case (Cons e cs)
  obtain d1 x where s: "relocate_version e d = (d1, x)" by fastforce
  with relocate_version_keeps [OF Cons.prems, of e] Cons.IH [of d1] show ?case by (cases x) simp_all
qed simp

text \<open>The versions of a clue are looked up by the beginning of the file name, so a clue that is a location also takes
  the versions of every clue whose name begins with its own, whatever kind that clue has.\<close>

theorem longer_name_loses_versions:
  assumes "is_location v = Inr True" and "map_of (coalesce (md_ver_clues d) []) (n @ t) = Some c" and "md_ver_clues d \<noteq> None"
  shows "map_of (md_ver_scenes (fst (relocate_versions ((n, v) # rest) d))) (n @ t) = Some c"
proof -
  let ?files = "coalesce (md_ver_clues d) []"
  let ?names = "filter (\<lambda>m. take (length n) m = n) (map fst ?files)"
  obtain s u where m: "move_all ?names ?files (md_ver_scenes d) = (s, u)" by fastforce
  have "n @ t \<in> set (map fst ?files)" using map_of_SomeD [OF assms(2)] by force
  then have "n @ t \<in> set ?names" by simp
  with move_all_spec [OF m, of "n @ t"] assms(2) have "map_of s (n @ t) = None" "map_of u (n @ t) = Some c" by simp_all
  moreover have "relocate_version (n, v) d = (d\<lparr>md_ver_clues := Some s, md_ver_scenes := u\<rparr>, None)"
    using assms(1) m by (simp add: relocate_version_def)
  ultimately have keep: "map_of (md_ver_scenes (fst (for_each relocate_version ((n, v) # rest) d))) (n @ t) = Some c"
    using relocate_rest_keeps [of "d\<lparr>md_ver_clues := Some s, md_ver_scenes := u\<rparr>" "n @ t" c rest] by simp
  obtain b e where b: "for_each relocate_version ((n, v) # rest) d = (b, e)" by fastforce
  with keep have "map_of (md_ver_scenes b) (n @ t) = Some c" by simp
  with b assms(3) show ?thesis by (cases e) (auto simp: relocate_versions_def simp del: for_each.simps)
qed

section \<open>Provider names\<close>

lemma canonical_no_slash: "CHR ''/'' \<notin> set p \<Longrightarrow> CHR ''/'' \<notin> set (canonical_provider p)"
  by (simp add: canonical_provider_def legacy_provider_aliases_def)

lemma strip_alias: "strip ''gemini-aistudio'' = ''gemini-aistudio''" "strip ''gemini-vertex'' = ''gemini-vertex''" "strip ''ark'' = ''ark''"
  by (simp_all add: strip_def is_space_def)

lemma canonical_idem: "canonical_provider (strip (canonical_provider (strip p))) = canonical_provider (strip p)"
  by (simp add: canonical_provider_def legacy_provider_aliases_def strip_idem strip_alias)

lemma set_strip: "set (strip s) \<subseteq> set s"
  unfolding strip_def by (metis set_dropWhileD set_rev subsetI)

lemma no_slash_strip: "CHR ''/'' \<notin> set p \<Longrightarrow> CHR ''/'' \<notin> set (canonical_provider (strip p))"
  by (rule canonical_no_slash) (use set_strip in blast)

lemma cut:
  "CHR ''/'' \<notin> set p \<Longrightarrow> takeWhile (\<lambda>c. c \<noteq> CHR ''/'') (p @ CHR ''/'' # m) = p \<and>
     dropWhile (\<lambda>c. c \<noteq> CHR ''/'') (p @ CHR ''/'' # m) = CHR ''/'' # m"
  by (induction p) auto

lemma normalize_field_idem: "normalize_field (normalize_field v) = normalize_field v"
proof -
  have plain: "normalize_field (canonical_provider (strip p)) = canonical_provider (strip p)" if "CHR ''/'' \<notin> set p" for p
    using no_slash_strip [OF that] canonical_idem by (simp add: normalize_field_def)
  show ?thesis
  proof (cases "CHR ''/'' \<in> set v")
    case True
    let ?a = "takeWhile (\<lambda>c. c \<noteq> CHR ''/'') v"
    let ?m = "strip (tl (dropWhile (\<lambda>c. c \<noteq> CHR ''/'') v))"
    have a: "CHR ''/'' \<notin> set ?a" by (auto dest: set_takeWhileD)
    have strip_p: "canonical_provider (strip (canonical_provider (strip ?a))) = canonical_provider (strip ?a)" by (rule canonical_idem)
    have tw: "takeWhile (\<lambda>c. c \<noteq> CHR ''/'') (canonical_provider (strip ?a) @ ''/'' @ ?m) = canonical_provider (strip ?a)"
      "dropWhile (\<lambda>c. c \<noteq> CHR ''/'') (canonical_provider (strip ?a) @ ''/'' @ ?m) = ''/'' @ ?m"
      using cut [OF no_slash_strip [OF a]] by simp_all
    show ?thesis
    proof (cases "?m = []")
      case True
      with \<open>CHR ''/'' \<in> set v\<close> plain [OF a] show ?thesis by (simp add: normalize_field_def)
    next
      case False
      with True have "normalize_field v = canonical_provider (strip ?a) @ ''/'' @ ?m" by (simp add: normalize_field_def Let_def)
      moreover have "normalize_field (canonical_provider (strip ?a) @ ''/'' @ ?m) = canonical_provider (strip ?a) @ ''/'' @ ?m"
        unfolding normalize_field_def tw using False by (simp add: strip_idem strip_p)
      ultimately show ?thesis by simp
    qed
  qed (use plain in \<open>simp add: normalize_field_def\<close>)
qed

definition norm_value :: "json \<Rightarrow> json" where
  "norm_value j = (case j of JStr v \<Rightarrow> if v = [] then j else JStr (normalize_field v) | _ \<Rightarrow> j)"

lemma norm_value_idem: "norm_value (norm_value j) = norm_value j"
  by (auto simp: norm_value_def normalize_field_idem split: json.split)

lemma normalize_key_ref: "dict_ref (normalize_provider_key k d) k' = (if k' = k then norm_value (dict_ref d k') else dict_ref d k')"
  by (auto simp: normalize_provider_key_def norm_value_def dict_ref_put split: json.split)

lemma fold_normalize_ref:
  "dict_ref (fold normalize_provider_key keys d) k = (if k \<in> set keys then norm_value (dict_ref d k) else dict_ref d k)"
  by (induction keys arbitrary: d) (auto simp: normalize_key_ref norm_value_idem)

lemma normalize_key_same: "norm_value (dict_ref d k) = dict_ref d k \<Longrightarrow> normalize_provider_key k d = d"
proof (cases "dict_ref d k")
  case (JStr v)
  assume n: "norm_value (dict_ref d k) = dict_ref d k"
  from JStr have g: "dict_get d k = Some (JStr v)" by (cases "dict_get d k") (simp_all add: dict_ref_def)
  with n JStr show ?thesis by (auto simp: normalize_provider_key_def norm_value_def dict_put_same)
qed (simp_all add: normalize_provider_key_def)

text \<open>Normalising the providers of a project twice is the same as once.\<close>

theorem provider_migration_idempotent: "migrate_project_dict (migrate_project_dict d) = migrate_project_dict d"
proof -
  let ?R = "migrate_project_dict d"
  obtain e where R: "?R = dict_pop (fold normalize_provider_key provider_fields e) ''image_backend''"
    by (simp add: migrate_project_dict_def Let_def)
  have none: "dict_ref ?R ''image_backend'' = JNull" unfolding R by (simp add: dict_ref_pop)
  have "norm_value (dict_ref ?R k) = dict_ref ?R k" if "k \<in> set provider_fields" for k
    unfolding R using that by (simp add: dict_ref_pop fold_normalize_ref norm_value_idem) (simp add: norm_value_def)
  then have "fold normalize_provider_key ks ?R = ?R" if "set ks \<subseteq> set provider_fields" for ks
    using that by (induction ks) (simp_all add: normalize_key_same)
  then have f: "fold normalize_provider_key provider_fields ?R = ?R" by blast
  have "dict_pop ?R ''image_backend'' = ?R" unfolding R by (simp add: dict_pop_def)
  with none f show ?thesis by (simp add: migrate_project_dict_def [of ?R])
qed


section \<open>Examples\<close>

definition empty_dir :: "dict \<Rightarrow> proj_dir" where
  "empty_dir data = \<lparr>md_pj = TextJson (JObj data), md_scripts = [], md_clues = None, md_scenes = [], md_props = [],
     md_ver_clues = None, md_ver_scenes = [], md_ver_props = [], md_backups = [],
     md_fs = \<lparr>fs_source = None, fs_resolves = (\<lambda>_. False), fs_is_file = (\<lambda>_. False),
       fs_has_step1 = (\<lambda>_. False), fs_other = (\<lambda>_. None), fs_is_symlink = (\<lambda>_. False), fs_undeletable = (\<lambda>_. False)\<rparr>\<rparr>"

definition old_project :: dict where
  "old_project = [(''clues'', JObj [(''gate'', JObj [(''type'', JStr ''location'')]), (''gatekeeper'', JObj [])])]"

definition with_images :: proj_dir where
  "with_images = (empty_dir old_project)\<lparr>md_clues := Some [(''gate.png'', ''G'')],
     md_ver_clues := Some [(''gate_v1.png'', ''g1''), (''gatekeeper_v1.png'', ''k1'')]\<rparr>"

lemma old_data: "md_pj with_images = TextJson (JObj old_project)"
  by (simp add: with_images_def empty_dir_def)


definition old_clues :: dict where
  "old_clues = [(''gate'', JObj [(''type'', JStr ''location'')]), (''gatekeeper'', JObj [])]"

lemma demo_migrates: "snd (migrate_project_dir 5 with_images) = Migrated"
  by code_simp

theorem migration_reaches_current_witness:
  "load_schema_version (fst (migrate_project_dir 5 with_images)) = 3 \<and>
   snd (migrate_project_dir 6 (fst (migrate_project_dir 5 with_images))) = Skipped"
  using migration_reaches_current [of 5 with_images "fst (migrate_project_dir 5 with_images)" 6] demo_migrates
  by (cases "migrate_project_dir 5 with_images") (simp add: current_schema_version_def)

theorem failed_migration_resumes_witness:
  "\<exists>d' err. migrate_project_dir 5 (empty_dir [(''clues'', JArr [JNull])]) = (d', Failed err) \<and>
     load_schema_version d' < current_schema_version"
proof -
  have "snd (migrate_project_dir 5 (empty_dir [(''clues'', JArr [JNull])])) = Failed (Raised Attribute_Error)" by code_simp
  then obtain d' where "migrate_project_dir 5 (empty_dir [(''clues'', JArr [JNull])]) = (d', Failed (Raised Attribute_Error))"
    by (metis prod.collapse)
  with failed_migration_resumes [OF this] show ?thesis by blast
qed

theorem text_version_fails_witness:
  "\<exists>d'. migrate_project_dir 5 (empty_dir [(''schema_version'', JStr ''1'')]) = (d', Failed (Raised Type_Error))"
proof -
  have "md_pj (empty_dir [(''schema_version'', JStr ''1'')]) = TextJson (JObj [(''schema_version'', JStr ''1'')])"
    "dict_ref [(''schema_version'', JStr ''1'')] ''schema_version'' = JStr ''1''" "py_int ''1'' = Some 0 \<or> py_int ''1'' = Some 1"
    by code_simp+
  from text_version_fails [OF this, of 5] show ?thesis by blast
qed

theorem crash_leaves_versions_behind_witness:
  "md_ver_clues (fst (migrate_project_dir 5 (fst (relocate_images old_clues with_images)))) = md_ver_clues with_images \<and>
   md_ver_clues (fst (migrate_project_dir 5 with_images)) = None"
proof
  let ?d1 = "fst (relocate_images old_clues with_images)"
  have "snd (relocate_images old_clues with_images) = None" "md_clues ?d1 = None" "load_schema_version ?d1 = 0"
    "snd (migrate_project_dir 5 ?d1) = Migrated" by code_simp+
  then have "relocate_images old_clues with_images = (?d1, None)" "md_clues ?d1 = None" "load_schema_version ?d1 = 0"
    "migrate_project_dir 5 ?d1 = (fst (migrate_project_dir 5 ?d1), Migrated)" by (simp_all add: prod_eq_iff)
  from crash_leaves_versions_behind [OF this]
  show "md_ver_clues (fst (migrate_project_dir 5 ?d1)) = md_ver_clues with_images" ..
  show "md_ver_clues (fst (migrate_project_dir 5 with_images)) = None" by code_simp
qed

theorem longer_name_loses_versions_witness:
  "map_of (md_ver_scenes (fst (relocate_versions old_clues with_images))) ''gatekeeper_v1.png'' = Some ''k1''"
  using longer_name_loses_versions [of "JObj [(''type'', JStr ''location'')]" with_images "''gate''" "''keeper_v1.png''" "''k1''"
      "[(''gatekeeper'', JObj [])]"]
  by (simp add: old_clues_def with_images_def is_location_def obj_or_def dict_or_def dict_get_def lower_def lower_char_def)

end
