(* ===== verification/Spec2Isabelle.thy ===== *)
theory Spec2Isabelle
  imports TaskReads Recovery TaskSpecs ScriptEditor ReplanTheorems AdUnits Versions SessionStore ProjectorProps UsageProps
    ScriptProps GridProps SessionActor SessionProps AccessProps FailureStore
    ProfileProps StatusProps MigrationProps
begin

text \<open>
  The core of a system that turns novels into short videos: a task queue with its worker, the
  ledger and the planner that cut a source text into episodes, and the editing and versioning of
  what is generated from them. Files are named under \<open>src/\<close>.

  \<^bold>\<open>How the parts interact.\<close> A client validates a request and enqueues a task or a batch of tasks
  with dependencies (theories \<open>TaskSpecs\<close>, \<open>Storyboard\<close>). The queue is three tables behind a
  repository (\<open>TaskModel\<close>, \<open>TaskRepo\<close>). One worker at a time holds a lease (\<open>Leases\<close>), scans for
  tasks left over by its predecessor, claims tasks lane by lane within the capacity of their
  providers (\<open>Slots\<close>, \<open>Worker\<close>), runs them and writes their outcome back; a client polls for the
  outcome (\<open>QueueClient\<close>) and the interface streams the event log (\<open>TaskReads\<close>). Beside the queue,
  the planner (\<open>EpisodePlanner\<close>, \<open>PlannerOps\<close>, \<open>Replan\<close>) keeps the episode ledger of a project
  (\<open>EpisodeLedger\<close>), scripts are edited (\<open>ScriptEditor\<close>) and their shots grouped into units for
  generation (\<open>VideoUnits\<close>, \<open>AdUnits\<close>), several storyboards are generated as one grid (\<open>Grid\<close>), the
  project and its scripts are files (\<open>ProjectFile\<close>, \<open>ProjectAssets\<close>, \<open>ScriptFile\<close>), generated files
  become versions (\<open>Versions\<close>), and the
  transcripts of the agent are stored (\<open>SessionStore\<close>), grouped into turns and streamed to the
  client as patches and drafts (\<open>TurnGroups\<close>, \<open>StreamProjector\<close>), and every call of a provider is
  priced and booked (\<open>Pricing\<close>, \<open>UsageLedger\<close>).

  \<^bold>\<open>Shared theories.\<close> \<open>Prelude\<close>: keyed rows, row-wise update, stable ordering. \<open>PyJson\<close>: Python's JSON
  values, dictionaries in insertion order, truth, equality, \<open>int()\<close>, \<open>str()\<close> and \<open>strip()\<close>.

  \<^bold>\<open>Task queue.\<close> \<open>TaskModel\<close> is \<open>lib/db/models/task.py\<close> with the statements of a session, \<open>TaskRepo\<close> and
  \<open>Leases\<close> are \<open>lib/db/repositories/task_repo.py\<close>, each operation a function of the database that
  takes the instant and the new identifiers as arguments. One call is one transaction, except
  that the select and the update of a claim are also given apart. \<open>TaskSteps\<close> is the abstract
  specification, a state machine of rows and events with its invariant; \<open>TaskInv\<close> shows that every
  operation is a run of it. \<open>TaskProps\<close>: uniqueness, dependency gating, the event log as a faithful
  history (up to the worker's own requeue, which logs nothing), the contract and the race of a claim, deduplication. \<open>TaskCascade\<close>: both cascades change
  exactly the tasks reachable through queued ones, and the preview lists that set. \<open>TaskReads\<close>:
  pages, statistics and the stream with its opening, which sends a snapshot and then the events logged after it,
  also to a client that asks to resume behind older ones. The locales of \<open>TaskSteps\<close>, \<open>Leases\<close> and \<open>Slots\<close> state the
  transaction, lease and ledger contracts and are interpreted on these operations.

  \<^bold>\<open>Worker.\<close> \<open>Slots\<close>, \<open>Worker\<close>, \<open>WorkerProps\<close>, \<open>WorkerSettle\<close> and \<open>Recovery\<close> are \<open>lib/generation_worker.py\<close>:
  capacity and occupancy, the claim cycle, the coroutine of a task, the restart scan and the loop.
  The coroutine that generates is its outcome (a result, an exception, a cancellation inside or before it), a future
  is an abstract handle, and a shielded call of the database returns, goes on without the coroutine that was
  cancelled while it waited, or raises. Shown: capacity is respected; once the worker has drained a finished
  coroutine its task is settled, unless a call of the database raised, which leaves it to the next restart scan;
  every orphan is accounted for. \<open>TaskFailure\<close> is \<open>lib/task_failure.py\<close>; \<open>FailureStore\<close>: a reason of at most 2000
  characters is read back from the table exactly, a longer one is cut and may be shown raw.

  \<^bold>\<open>Clients.\<close> \<open>QueueClient\<close> is \<open>lib/generation_queue.py\<close> and the waiting of
  \<open>lib/generation_queue_client.py\<close>, a loop over a finite list of polls that stands for what each poll
  sees; \<open>TaskSpecs\<close> is the request guard and the batch, \<open>Storyboard\<close> is \<open>lib/storyboard_sequence.py\<close>.
  This theory joins them: a storyboard plan that is enqueued as a batch chains its tasks.

  \<^bold>\<open>Episodes.\<close> \<open>EpisodeLedger\<close> is \<open>lib/episode_ledger.py\<close>, \<open>EpisodePlanner\<close>, \<open>PlannerOps\<close> and \<open>Replan\<close> are
  \<open>lib/episode_planner.py\<close>. A planning call reads one state and commits on another, so each half is
  a function of its own state; the directory is a record of what is read of it. \<open>LedgerProps\<close>: the
  backfill is idempotent and anchors an episode exactly or not at all. \<open>PlannerProps\<close>,
  \<open>PlannerTheorems\<close>, \<open>ReplanTheorems\<close>: accepted boundaries are forced by their anchors, a batch tiles
  the text, a replan covers exactly the text it replaces, a commit leaves the derived files the
  ledger names (a file that cannot be deleted stays, as does the later of two stray files with one number), consumed
  episodes are protected.

  \<^bold>\<open>Scripts and media.\<close> \<open>ScriptEditor\<close> is \<open>lib/script_editor.py\<close>: identifiers stay distinct and an
  edit touches one item. \<open>VideoUnits\<close> and \<open>AdUnits\<close> are \<open>lib/reference_video/duration_guard.py\<close> and
  \<open>ad_units.py\<close>: units respect the caps, no time is lost, normalising and synchronising are
  idempotent, the index hydrates to the shots. \<open>Versions\<close> is \<open>lib/version_manager.py\<close> with
  \<open>lib/resource_paths.py\<close>: numbers have no gaps and a version is never lost. \<open>SessionStore\<close> is
  \<open>lib/agent_session_store/store.py\<close>: an append is loaded back exactly and racing appends lose
  nothing.

  \<^bold>\<open>Conversation.\<close> Under \<open>server/agent_runtime/\<close>, \<open>Turns\<close> is \<open>turn_schema.py\<close>, \<open>TurnGroups\<close>
  \<open>turn_grouper.py\<close> with the function of the client that applies a patch, \<open>StreamProjector\<close>
  \<open>stream_projector.py\<close>; messages are untyped dictionaries and what raises in Python is an error
  value. \<open>TurnProps\<close> gives grouping as a step relation and states what every block of a turn
  satisfies as a locale; \<open>TurnTheorems\<close>: the contract of the client, the user turns are the genuine
  user messages, one more message makes a small patch. \<open>ProjectorProps\<close>: a client that applies the
  patches follows the turns of the server, streamed text and tool inputs are complete.

  \<^bold>\<open>Sessions of the agent.\<close> Under \<open>server/agent_runtime/\<close>, \<open>SessionActor\<close> is \<open>session_actor.py\<close>: an actor
  that stops has answered every command but those an exception drops, and one such drop is a defect.
  \<open>SessionChannel\<close> and \<open>SessionPool\<close> are the sessions of \<open>session_manager.py\<close> (with
  \<open>message_utils.py\<close> and \<open>lib/db/repositories/session_repo.py\<close>): buffers, subscribers, questions, the
  status of a turn, and the pool with its limit and evictions. A coroutine that waits is two
  definitions, so races are sequences of steps. \<open>SessionProps\<close>: a subscriber misses no critical message
  unless it is told to reconnect, the store and the session end a turn in the status shown, the limit
  holds for one request at a time and not for two. \<open>AccessPolicy\<close> is the check of paths and commands;
  \<open>AccessProps\<close>: which writes are let through, that other projects are reached only by a search, which
  commands run without a sandbox; and what passes beside the intention: a path written with two slashes, quotes and
  braces in a command.

  \<^bold>\<open>Costs.\<close> \<open>Pricing\<close> is \<open>lib/pricing/\<close> and \<open>lib/cost_calculator.py\<close>, \<open>UsageLedger\<close> is
  \<open>lib/db/repositories/usage_repo.py\<close>. \<open>PricingProps\<close>: every call is priced, no price is negative,
  the fallback of a bucket is the nearest one. \<open>UsageProps\<close>: a call is settled once, both ways of
  settling a video call book the same except the output path and the error message, the statistics per provider add up to the totals.

  \<^bold>\<open>Projects.\<close> \<open>ProjectFile\<close>, \<open>ProjectAssets\<close> and \<open>ScriptFile\<close> are \<open>lib/project_manager.py\<close> with
  \<open>lib/asset_types.py\<close>: names and creation, the read-modify-write of \<open>project.json\<close>, episodes, assets,
  and the scripts with their locked edits and the write-back of generated assets. A project and a
  script are JSON objects; a call under its lock is one step. \<open>ProjectProps\<close>: asset names are safe
  path components, an agent changes only the fields it may edit, creation keeps its guards, a
  synchronised episode is bound once; its locale states what every mutation of a project keeps.
  \<open>ScriptProps\<close>: a write-back changes one asset of one item, a batch is its single updates or
  nothing, an edit goes to the script the project binds, a failed one changes nothing unless it is the
  synchronisation after the write that fails, and what that leaves behind.

  \<^bold>\<open>Upkeep of projects.\<close> \<open>ProfileSync\<close> is \<open>lib/profile_manifest.py\<close>, the delivery of the agent profile to
  a project by a table of decisions; \<open>ProfileProps\<close>: the user's work survives as long
  as the manifest is valid and of the same mode, and a reset takes its place otherwise; a run after any run changes
  nothing; and one rule confuses who deleted a file, for all later runs. \<open>Migrations\<close> is \<open>lib/project_migrations/\<close>, where an operation
  returns the directory with its error, so that what a crash leaves is a value; \<open>MigrationProps\<close>: a migrated
  project is current, a failed one resumes, and what is left behind. \<open>StatusCalc\<close> is
  \<open>lib/status_calculator.py\<close>; \<open>StatusProps\<close>: progress is a proportion, completion is exact.

  \<^bold>\<open>Grids.\<close> \<open>Grid\<close> is \<open>lib/grid/\<close>, \<open>lib/grid_manager.py\<close>, the division of groups by
  \<open>server/routers/grids.py\<close> and by the tool \<open>enqueue_grid.py\<close>, and \<open>execute_grid_task\<close> of
  \<open>server/services/generation_tasks.py\<close>, where the provider is one of five outcomes. \<open>GridProps\<close>: the
  route covers every scene and the tool does not, cells lie in the image and apart, a record is
  read back, a task settles its record unless it is cancelled and delivers every cell to its scene, the first time
  and again.

  \<^bold>\<open>Bounds and fuel.\<close> A planning request makes at most 3 attempts and an append 16, as the code has
  it. The search for a free suffix in \<open>ScriptEditor\<close> tries one more candidate than there are
  identifiers, so one is free. Waiting consumes a list of polls; its theorem says what a run over
  them returns. The cascades recurse on decreasing sets of queued tasks and the preview on
  dependencies that point backwards. The JSON scanner of \<open>TaskFailure\<close> tests that it consumes
  input; \<open>scan_shorter\<close> shows that the test never fails.

  \<^bold>\<open>Assumptions.\<close> Strings are ASCII (8-bit characters where a text is only passed on), on which
  Unicode composition is the identity; wording in other scripts is given in English and an
  ellipsis as three dots. A float is a rational. SQL's order of equal keys is the order of
  insertion. Instants, identifiers and time stamps are arguments, and so are the text model, the
  reading-unit counter, the prompt filter of derived files, the provider registry and resolver,
  the translator, the SDK's summary fold, the validators of projects and scripts, the texts of
  style templates, the files that exist, the registry of prices, the prices of custom providers
  the text Python gives a list, a dictionary or a float, how each call of the agent's client ends, how the
  file system resolves a path, which paths are directories and which accesses it refuses, the hash of a content,
  and how the load of a script ends in the computation of a status. An episode list that is no list holds no entries.

  \<^bold>\<open>Not modelled.\<close> Provider backends, the HTTP interface and the agent SDK are remote or third-party
  behaviour; prompt builders are wording; configuration is tables. Of the sessions the options and
  prompts of the SDK, the hooks that validate JSON, the usage records, the status a turn falls back to when the store fails and Windows paths, of the project manager the
  directory tree, the normalisation of old scripts and the overview, and of the
  grids the crop to a ratio and the prompt are left out, of the migrations the backup of images by hard links, of the status its display. The archive, the other generation
  executors and mention parsing are not modelled, and \<open>release/\<close> is a second copy of the same sources.
\<close>

section \<open>A storyboard plan enqueued as a batch\<close>

lemma plan_loop_rid: "p \<in> set (plan_loop id_field sel sf prev counter pos items) \<Longrightarrow> sp_resource_id p \<noteq> []"
  by (induction id_field sel sf prev counter pos items rule: plan_loop.induct)
     (auto simp: Let_def split: if_splits)

lemma chained_nth:
  "chained lst bs \<Longrightarrow> i < length bs \<Longrightarrow>
     opens (bs ! i) \<or> (\<exists>a. (if i = 0 then lst else Some (bs ! (i - 1))) = Some a \<and> continues a (bs ! i))"
proof (induction lst bs arbitrary: i rule: chained.induct)
  case (2 lst b bs)
  show ?case
  proof (cases i)
    case 0
    with 2 show ?thesis by (auto split: option.splits)
  next
    case (Suc j)
    with "2.IH" [of j] "2.prems" show ?thesis by (cases j) auto
  qed
qed simp

lemma plan_chained: "chained None (build_storyboard_dependency_plan items id_field sel sf)"
  by (simp add: build_storyboard_dependency_plan_def plan_loop_chained loop_tracks_def)

text \<open>The specifications built from a plan carry its resources and dependencies.\<close>

definition follows_plan :: "task_spec list \<Rightarrow> storyboard_plan list \<Rightarrow> bool" where
  "follows_plan specs plans =
     (map (\<lambda>sp. (tsp_resource_id sp, tsp_dependency_resource_id sp)) specs =
      map (\<lambda>p. (sp_resource_id p, sp_dependency p)) plans)"

lemma follows_plan_nth:
  "follows_plan specs plans \<Longrightarrow> i < length specs \<Longrightarrow>
     i < length plans \<and> tsp_resource_id (specs ! i) = sp_resource_id (plans ! i) \<and>
     tsp_dependency_resource_id (specs ! i) = sp_dependency (plans ! i)"
  unfolding follows_plan_def by (metis (mono_tags, lifting) fst_conv length_map nth_map snd_conv)

text \<open>C11. Storyboards of one group are generated strictly one after the other: when the plan of a
  script is enqueued as a batch, a row that entry i inserted either opens its group and waits
  for nothing, or depends on exactly the task that answered entry i - 1, whatever other
  sessions did in between.\<close>

theorem storyboard_batch_chains:
  assumes "batch_enqueue r proj batch Map.empty (run_queue ops empty_db) = (Inr (rs, ids), s)"
    and "follows_plan (map fst batch) (build_storyboard_dependency_plan items id_field sel sf)"
    and "i < length batch" and "\<not> er_deduped (rs ! i)"
  shows "\<exists>row. find_task (er_task_id (rs ! i)) s = Some row \<and>
     (dependency_task_id row = None \<or> 0 < i \<and> dependency_task_id row = Some (er_task_id (rs ! (i - 1)))) \<and>
     (dependency_task_id row = None \<longleftrightarrow>
        opens (build_storyboard_dependency_plan items id_field sel sf ! i))"
proof -
  let ?specs = "map fst batch" and ?plans = "build_storyboard_dependency_plan items id_field sel sf"
  note e = batch_enqueue_entries [OF assms(1) reachable_inv]
  then have len: "length rs = length batch" and
    ok: "entry_ok proj (ids_before Map.empty ?specs rs i) (fst (batch ! i)) (rs ! i) s"
    using assms(3) by auto
  obtain row where row: "find_task (er_task_id (rs ! i)) s = Some row"
      "dependency_task_id row = spec_dependency (?specs ! i) (ids_before Map.empty ?specs rs i)"
    using ok assms(3,4) by (auto simp: entry_ok_def)
  have f: "j < length ?plans \<and> tsp_resource_id (?specs ! j) = sp_resource_id (?plans ! j) \<and>
     tsp_dependency_resource_id (?specs ! j) = sp_dependency (?plans ! j)" if "j \<le> i" for j
    using follows_plan_nth [OF assms(2), of j] assms(3) that by simp
  have ne: "sp_resource_id p \<noteq> []" if "p \<in> set ?plans" for p
    using that by (auto simp: build_storyboard_dependency_plan_def plan_loop_rid split: if_splits)
  from plan_chained have "opens (?plans ! i) \<or>
      (\<exists>a. (if i = 0 then None else Some (?plans ! (i - 1))) = Some a \<and> continues a (?plans ! i))"
    by (rule chained_nth) (use f [of i] in simp)
  then show ?thesis
  proof
    assume o: "opens (?plans ! i)"
    then have "dependency_task_id row = None"
      using row(2) f [of i] by (simp add: spec_dependency_def opens_def)
    with row o show ?thesis by auto
  next
    assume "\<exists>a. (if i = 0 then None else Some (?plans ! (i - 1))) = Some a \<and> continues a (?plans ! i)"
    then have i: "0 < i" and c: "continues (?plans ! (i - 1)) (?plans ! i)" by (auto split: if_splits)
    from f [of "i - 1"] have "sp_resource_id (?plans ! (i - 1)) \<noteq> []" by (intro ne) simp
    with c f [of i] f [of "i - 1"] row(2) i assms(3) len
      ids_before_latest [of "i - 1" ?specs rs Map.empty]
    have "dependency_task_id row = Some (er_task_id (rs ! (i - 1)))"
      by (simp add: spec_dependency_def continues_def)
    moreover have "\<not> opens (?plans ! i)" using c by (simp add: opens_def continues_def)
    ultimately show ?thesis using row i by auto
  qed
qed

definition two_items :: "dict list" where
  "two_items = [[(''segment_id'', JStr ''S1'')], [(''segment_id'', JStr ''S2'')]]"

lemma storyboard_batch_chains_witness:
  "\<exists>rs ids s row. batch_enqueue plain_resolver ''p'' sample_batch Map.empty empty_db = (Inr (rs, ids), s) \<and>
     find_task (er_task_id (rs ! 1)) s = Some row \<and> dependency_task_id row = Some (er_task_id (rs ! 0))"
proof -
  let ?r = "batch_enqueue plain_resolver ''p'' sample_batch Map.empty empty_db"
  let ?plan = "build_storyboard_dependency_plan two_items ''segment_id'' [''S1'', ''S2''] None"
  have "\<not> isl (fst ?r)" by code_simp
  then obtain rs ids s where r: "?r = (Inr (rs, ids), s)" by (cases ?r; cases "fst ?r") auto
  have "map er_deduped (fst (projr (fst ?r))) = [False, False]" by code_simp
  then have nd: "\<not> er_deduped (rs ! 1)" using r by (auto simp: map_eq_Cons_conv)
  have f: "follows_plan (map fst sample_batch) ?plan" by code_simp
  have o: "\<not> opens (?plan ! 1)" by code_simp
  have r': "batch_enqueue plain_resolver ''p'' sample_batch Map.empty (run_queue [] empty_db) = (Inr (rs, ids), s)"
    using r by (simp add: run_queue_def)
  from storyboard_batch_chains [OF r' f, of 1] nd o r show ?thesis
    by (auto simp: sample_batch_def)
qed

end
